(* ===== verification/Fidget_Prelude.thy ===== *)
theory Fidget_Prelude
  imports Main "HOL-Library.Word"
begin

text \<open>
  Shared vocabulary of the development: the fixed-width integers of the program
  (\<^verbatim>\<open>std::uint8_t\<close> to \<^verbatim>\<open>std::uint64_t\<close>, \<^verbatim>\<open>std::byte\<close>) as words, \<^verbatim>\<open>std::size_t\<close>
  as \<open>nat\<close>, the collections of rewrite rules the components fill, and generic facts
  on words, lists and options that several components use. It also states the two
  interfaces that are independent of any component: a fixed-width word codec over a
  byte buffer, and a decoder that is fed a byte stream in chunks.
\<close>

unbundle bit_operations_syntax

type_synonym byte = "8 word"
type_synonym u8 = "8 word"
type_synonym u16 = "16 word"
type_synonym u32 = "32 word"
type_synonym u64 = "64 word"

named_theorems scp_simps \<open>closed facts about the SCP register tables\<close>
named_theorems wire_simps \<open>sizes and round trips of the wire encodings\<close>

subsection \<open>Buffers\<close>

text \<open>
  A read through a raw pointer is a read at an index of the buffer it points into;
  a read outside the buffer is undefined behaviour in the source and \<open>None\<close> here.
\<close>

definition byte_at :: "byte list \<Rightarrow> nat \<Rightarrow> byte option" where
  "byte_at buffer i = (if i < length buffer then Some (buffer ! i) else None)"

lemma byte_at_in [simp]: "i < length buffer \<Longrightarrow> byte_at buffer i = Some (buffer ! i)"
  by (simp add: byte_at_def)

lemma byte_at_out [simp]: "length buffer \<le> i \<Longrightarrow> byte_at buffer i = None"
  by (simp add: byte_at_def)

text \<open>
  \<^verbatim>\<open>std::size_t\<close> subtraction wraps at the width of the type (64 bits): below zero the
  result is \<open>a + 2 ^ 64 - b\<close> for operands of the type, which are below \<open>2 ^ 64\<close>.
\<close>

definition size_sub :: "nat \<Rightarrow> nat \<Rightarrow> nat" where
  "size_sub a b = (if b \<le> a then a - b else a + 2 ^ 64 * (b div 2 ^ 64 + 1) - b)"

lemma size_sub_wraps: "a < b \<Longrightarrow> b < 2 ^ 64 \<Longrightarrow> size_sub a b = a + 2 ^ 64 - b"
  by (simp add: size_sub_def)

lemma size_sub_pos: "a \<noteq> b \<Longrightarrow> size_sub a b > 0"
proof -
  have "b < 2 ^ 64 * (b div 2 ^ 64 + 1)" using dividend_less_times_div [of "2 ^ 64 :: nat" b] by simp
  then show "a \<noteq> b \<Longrightarrow> size_sub a b > 0" by (auto simp: size_sub_def)
qed

lemma size_sub_le [simp]: "b \<le> a \<Longrightarrow> size_sub a b = a - b"
  by (simp add: size_sub_def)

subsection \<open>Words\<close>

lemma mask_FF: "(0xFF :: 'a::len word) = mask 8"
  by (simp add: mask_numeral)

lemma bit_byte_high: "8 \<le> n \<Longrightarrow> \<not> bit (w :: byte) n"
  using bit_imp_le_length [of w n] by auto

lemma bit_u16_high: "16 \<le> n \<Longrightarrow> \<not> bit (w :: u16) n"
  using bit_imp_le_length [of w n] by auto

lemma ucast_u16_u32_inject [simp]: "(ucast (a :: u16) :: u32) = ucast b \<longleftrightarrow> a = b"
proof
  assume eq: "(ucast a :: u32) = ucast b"
  show "a = b"
  proof (rule bit_word_eqI)
    fix n assume "n < LENGTH(16)"
    then show "bit a n = bit b n"
      using arg_cong [OF eq, of "\<lambda>w. bit w n"] by (simp add: bit_simps)
  qed
qed simp

lemma word_bytes_join:
  fixes v :: u32
  shows "ucast (ucast (v AND 0xFF) :: byte) OR push_bit 8 (ucast (ucast (drop_bit 8 v AND 0xFF) :: byte))
    OR push_bit 16 (ucast (ucast (drop_bit 16 v AND 0xFF) :: byte))
    OR push_bit 24 (ucast (ucast (drop_bit 24 v AND 0xFF) :: byte)) = v" (is "?l = v")
proof (rule bit_word_eqI)
  fix n assume "n < LENGTH(32)"
  then consider "n < 8" | "8 \<le> n \<and> n < 16" | "16 \<le> n \<and> n < 24" | "24 \<le> n \<and> n < 32"
    by force
  then show "bit ?l n = bit v n"
    unfolding mask_FF by cases (auto simp: bit_simps)
qed

lemma word_bytes_split:
  fixes a b c d :: byte
  defines "w \<equiv> ucast a OR push_bit 8 (ucast b) OR push_bit 16 (ucast c) OR push_bit 24 (ucast d) :: u32"
  shows "ucast (w AND 0xFF) = a" "ucast (drop_bit 8 w AND 0xFF) = b"
    "ucast (drop_bit 16 w AND 0xFF) = c" "ucast (drop_bit 24 w AND 0xFF) = d"
  unfolding w_def mask_FF by (auto intro!: bit_word_eqI simp: bit_simps bit_byte_high)

subsection \<open>Fixed-width codecs\<close>

text \<open>
  What the protocol components rely on when they lay 32-bit words out in a byte
  buffer: a store of one word takes four bytes, a load reads back what a store wrote,
  it is defined exactly where the four bytes lie inside the buffer, and the bytes it
  read are the bytes the store of its result would write. The little-endian codec of
  the MVLC wire format and the big-endian length field of the bridge both meet it.
\<close>

locale word_codec =
  fixes store :: "u32 \<Rightarrow> byte list"
    and load :: "byte list \<Rightarrow> nat \<Rightarrow> u32 option"
  assumes store_length: "length (store w) = 4"
    and load_store: "load (pre @ store w @ post) (length pre) = Some w"
    and load_defined: "off + 4 \<le> length buf \<Longrightarrow> \<exists>w. load buf off = Some w"
    and load_undefined: "length buf < off + 4 \<Longrightarrow> load buf off = None"
    and load_bytes: "load buf off = Some w \<Longrightarrow> take 4 (drop off buf) = store w"
begin

definition encode :: "u32 list \<Rightarrow> byte list" where
  "encode ws = concat (map store ws)"

lemma encode_simps [simp]: "encode [] = []" "encode (w # ws) = store w @ encode ws"
  by (simp_all add: encode_def)

lemma encode_append: "encode (xs @ ys) = encode xs @ encode ys"
  by (simp add: encode_def)

lemma length_encode [simp]: "length (encode ws) = 4 * length ws"
  by (induction ws) (simp_all add: store_length)

lemma load_encode:
  assumes "i < length ws"
  shows "load (pre @ encode ws @ post) (length pre + 4 * i) = Some (ws ! i)"
proof -
  have "ws = take i ws @ ws ! i # drop (Suc i) ws"
    using assms by (simp add: id_take_nth_drop)
  then have split: "encode ws = encode (take i ws) @ store (ws ! i) @ encode (drop (Suc i) ws)"
    by (metis encode_append encode_simps(2))
  have "load ((pre @ encode (take i ws)) @ store (ws ! i) @ (encode (drop (Suc i) ws) @ post))
      (length (pre @ encode (take i ws))) = Some (ws ! i)"
    by (rule load_store)
  moreover have "length (pre @ encode (take i ws)) = length pre + 4 * i"
    using assms by simp
  ultimately show ?thesis by (simp add: split)
qed

lemma load_encode_0:
  assumes "i < length ws"
  shows "load (encode ws) (4 * i) = Some (ws ! i)"
  using load_encode [OF assms, of "[]" "[]"] by simp

lemma store_inject [simp]: "store v = store w \<longleftrightarrow> v = w"
proof
  assume eq: "store v = store w"
  have "Some v = load (store w) 0" using load_store [of "[]" v "[]"] by (simp add: eq)
  also have "\<dots> = Some w" using load_store [of "[]" w "[]"] by simp
  finally show "v = w" by simp
qed simp

lemma store_not_Nil [simp]: "store w \<noteq> []"
  using store_length [of w] by auto

lemma encode_inject [simp]: "encode xs = encode ys \<longleftrightarrow> xs = ys"
proof (induction xs arbitrary: ys)
  case Nil
  then show ?case by (cases ys) auto
next
  case (Cons x xs)
  show ?case
  proof (cases ys)
    case Nil
    then show ?thesis by simp
  next
    case (Cons y ys')
    then show ?thesis using Cons.IH [of ys'] by (auto simp: store_length append_eq_append_conv)
  qed
qed

lemma aligned_is_encoding: "length buf = 4 * n \<Longrightarrow> \<exists>ws. buf = encode ws \<and> length ws = n"
proof (induction n arbitrary: buf)
  case (Suc n)
  then obtain w where w: "load buf 0 = Some w" using load_defined [of 0 buf] by auto
  from Suc.prems have "length (drop 4 buf) = 4 * n" by simp
  then obtain ws where ws: "drop 4 buf = encode ws" "length ws = n" using Suc.IH by blast
  have "buf = store w @ drop 4 buf"
    using load_bytes [OF w] by (metis append_take_drop_id drop0)
  with ws show ?case by (metis encode_simps(2) length_Cons)
qed simp

end

subsection \<open>Chunked decoders\<close>

text \<open>
  A decoder fed from a socket sees the byte stream cut at arbitrary places. The
  contract a caller relies on is that an empty read changes nothing and that two reads
  act like one read of their concatenation, provided the state is one the decoder
  itself can reach; then only the concatenation of all the reads matters.
\<close>

locale chunked_decoder =
  fixes feed :: "'s \<Rightarrow> byte list \<Rightarrow> 's"
    and ok :: "'s \<Rightarrow> bool"
  assumes feed_nil: "ok s \<Longrightarrow> feed s [] = s"
    and feed_append: "ok s \<Longrightarrow> feed s (xs @ ys) = feed (feed s xs) ys"
    and feed_ok: "ok s \<Longrightarrow> ok (feed s xs)"
begin

lemma feed_concat: "ok s \<Longrightarrow> foldl feed s chunks = feed s (concat chunks)"
  by (induction chunks arbitrary: s) (simp_all add: feed_nil feed_append feed_ok)

lemma feed_same_stream:
  assumes "ok s" and "concat xss = concat yss"
  shows "foldl feed s xss = foldl feed s yss"
  using assms by (simp add: feed_concat)

lemma feed_bytewise: "ok s \<Longrightarrow> foldl (\<lambda>t b. feed t [b]) s xs = feed s xs"
  using feed_concat [of s "map (\<lambda>b. [b]) xs"] by (simp add: foldl_map)

end

end
