(* ===== verification/Scp_Configuration.thy ===== *)
theory Scp_Configuration
  imports Fidget_Prelude
begin

text \<open>
  The data model of \<^verbatim>\<open>core/ScpConfiguration.h\<close>: module identities, the register
  addresses the operations use, one channel quad's configuration and the snapshot of
  all quads. \<^verbatim>\<open>std::array<_, 4>\<close> fields are lists, with the array's length as the
  type invariant \<open>quad_wf\<close>. Texts for display are kept as \<open>string\<close> where the program
  stores a text and as constructors of an error type where it only reports one.
\<close>

definition Mdpp32HardwareId :: u16 where
  "Mdpp32HardwareId = 0x5007"

definition Mdpp32AlternateHardwareId :: u16 where
  "Mdpp32AlternateHardwareId = 0x500C"

definition Mdpp32ScpFirmwareRevisionFw2051 :: u16 where
  "Mdpp32ScpFirmwareRevisionFw2051 = 0x2051"

definition Mdpp32ReadOnlyAcceptedHardwareIds :: "u16 list" where
  "Mdpp32ReadOnlyAcceptedHardwareIds = [Mdpp32HardwareId, Mdpp32AlternateHardwareId]"

definition Mdpp32WriteApprovedHardwareIds :: "u16 list" where
  "Mdpp32WriteApprovedHardwareIds = [Mdpp32HardwareId]"

definition IsSupportedMdpp32HardwareId :: "u16 \<Rightarrow> bool" where
  "IsSupportedMdpp32HardwareId hardwareId = list_ex (\<lambda>accepted. hardwareId = accepted) Mdpp32ReadOnlyAcceptedHardwareIds"

definition IsWriteApprovedMdpp32HardwareId :: "u16 \<Rightarrow> bool" where
  "IsWriteApprovedMdpp32HardwareId hardwareId = list_ex (\<lambda>accepted. hardwareId = accepted) Mdpp32WriteApprovedHardwareIds"

definition Fw2051AcquisitionControlRegister :: u16 where
  "Fw2051AcquisitionControlRegister = 0x603A"

definition Fw2051FifoResetRegister :: u16 where
  "Fw2051FifoResetRegister = 0x603C"

definition Fw2051ReadoutResetRegister :: u16 where
  "Fw2051ReadoutResetRegister = 0x6034"

definition Fw2051ScpSelectorRegister :: u16 where
  "Fw2051ScpSelectorRegister = 0x6100"

definition Fw2051StopAcquisitionValue :: u16 where
  "Fw2051StopAcquisitionValue = 0"

definition Fw2051ResetCommandValue :: u16 where
  "Fw2051ResetCommandValue = 1"

definition Fw2051ScpQuadCount :: nat where
  "Fw2051ScpQuadCount = 8"

definition Fw2051ScpBankedSettingCount :: nat where
  "Fw2051ScpBankedSettingCount = 17"

definition Fw2051ScpConfigurationValueCount :: nat where
  "Fw2051ScpConfigurationValueCount = 5 + Fw2051ScpQuadCount * Fw2051ScpBankedSettingCount"

datatype ScpConfigurationState = NotRun | Reading | Complete | Failed

record Fw2051ScpQuadConfiguration =
  quad :: u16
  timingFilter :: u16
  poleZero :: "u16 list"
  gain :: u16
  thresholds :: "u16 list"
  shapingTime :: u16
  baselineRestorer :: u16
  resetTime :: u16
  signalRiseTime :: u16
  preSamples :: u16
  totalSamples :: u16
  sampleConfiguration :: u16

definition default_quad :: Fw2051ScpQuadConfiguration where
  "default_quad = \<lparr>quad = 0, timingFilter = 0, poleZero = [0, 0, 0, 0], gain = 0,
     thresholds = [0, 0, 0, 0], shapingTime = 0, baselineRestorer = 0, resetTime = 0,
     signalRiseTime = 0, preSamples = 0, totalSamples = 0, sampleConfiguration = 0\<rparr>"

definition quad_wf :: "Fw2051ScpQuadConfiguration \<Rightarrow> bool" where
  "quad_wf q \<longleftrightarrow> length (poleZero q) = 4 \<and> length (thresholds q) = 4"

record Fw2051ScpSelectorWriteRecord =
  sw_registerOffset :: u16
  sw_value :: u16
  parkingWrite :: bool
  sw_success :: bool
  sw_message :: string

record Fw2051ScpConfigurationSnapshot =
  state :: ScpConfigurationState
  message :: string
  baseAddress :: u32
  hardwareId :: u16
  firmwareRevision :: u16
  irqLevel :: u16
  outputFormat :: u16
  selectorParkedAtQuadZero :: bool
  selectorWrites :: "Fw2051ScpSelectorWriteRecord list"
  quads :: "Fw2051ScpQuadConfiguration list"

definition default_snapshot :: Fw2051ScpConfigurationSnapshot where
  "default_snapshot = \<lparr>state = NotRun, message = ''No SCP configuration snapshot has been read'',
     baseAddress = 0, hardwareId = 0, firmwareRevision = 0, irqLevel = 0, outputFormat = 0,
     selectorParkedAtQuadZero = False, selectorWrites = [], quads = []\<rparr>"

definition snapshot_wf :: "Fw2051ScpConfigurationSnapshot \<Rightarrow> bool" where
  "snapshot_wf c \<longleftrightarrow> list_all quad_wf (quads c)"

lemma write_approved_supported:
  "IsWriteApprovedMdpp32HardwareId h \<Longrightarrow> IsSupportedMdpp32HardwareId h"
  by (simp add: IsWriteApprovedMdpp32HardwareId_def IsSupportedMdpp32HardwareId_def
      Mdpp32WriteApprovedHardwareIds_def Mdpp32ReadOnlyAcceptedHardwareIds_def)

lemma quad_wf_default [simp]: "quad_wf default_quad"
  by (simp add: quad_wf_def default_quad_def)

lemma snapshot_wf_nth: "snapshot_wf c \<Longrightarrow> i < length (quads c) \<Longrightarrow> quad_wf (quads c ! i)"
  by (simp add: snapshot_wf_def list_all_length)

lemma configuration_value_count [scp_simps]: "Fw2051ScpConfigurationValueCount = 141"
  by (simp add: Fw2051ScpConfigurationValueCount_def Fw2051ScpQuadCount_def Fw2051ScpBankedSettingCount_def)

lemmas scp_counts [scp_simps] = Fw2051ScpQuadCount_def Fw2051ScpBankedSettingCount_def

end
