(* ===== verification/Scp_Registry.thy ===== *)
theory Scp_Registry
  imports Scp_Configuration
begin

text \<open>
  The FW2051 setting registry of \<^verbatim>\<open>core/ScpRegistry.cpp\<close>: the table of the 17 banked
  settings with their ranges and the two coupled pairs, the value and dependency checks,
  and the mapping between register offsets and the fields of a quad. The mapping meets
  the interface \<open>register_bank\<close>, on which the planner and the hardware operations rely.
\<close>

definition Fw2051ScpMaximumSampleCount :: u16 where
  "Fw2051ScpMaximumSampleCount = 488"

definition Fw2051ScpMinimumShapingTime :: u16 where
  "Fw2051ScpMinimumShapingTime = 8"

definition Fw2051ScpMaximumShapingTime :: u16 where
  "Fw2051ScpMaximumShapingTime = 1000"

definition Fw2051ScpSampleConfigurationAllowedMask :: u16 where
  "Fw2051ScpSampleConfigurationAllowedMask = 0x00C3"

datatype Fw2051ScpValueRule = RangeRule | EvenRangeRule | SampleConfigurationRule

datatype Fw2051ScpDependencyRule = NoDependency | NotAbove | NotBelow | LessThan | GreaterThan

record Fw2051ScpSettingDefinition =
  registerOffset :: u16
  name :: string
  minimumValue :: u16
  maximumValue :: u16
  valueRule :: Fw2051ScpValueRule
  dependencyRule :: Fw2051ScpDependencyRule
  dependencyRegister :: u16
  dependencyName :: string

definition setting_row :: "u16 \<Rightarrow> string \<Rightarrow> u16 \<Rightarrow> u16 \<Rightarrow> Fw2051ScpValueRule \<Rightarrow> Fw2051ScpDependencyRule
    \<Rightarrow> u16 \<Rightarrow> string \<Rightarrow> Fw2051ScpSettingDefinition" where
  "setting_row r n lo hi vr dr dreg dn = \<lparr>registerOffset = r, name = n, minimumValue = lo,
     maximumValue = hi, valueRule = vr, dependencyRule = dr, dependencyRegister = dreg, dependencyName = dn\<rparr>"

definition Fw2051ScpSettingRegistry :: "Fw2051ScpSettingDefinition list" where
  "Fw2051ScpSettingRegistry = [
     setting_row 0x6110 ''Timing filter'' 1 125 RangeRule NotAbove 0x6124 ''Shaping time'',
     setting_row 0x6112 ''Pole-zero ch 0'' 64 0xFFFF RangeRule NoDependency 0 [],
     setting_row 0x6114 ''Pole-zero ch 1'' 64 0xFFFF RangeRule NoDependency 0 [],
     setting_row 0x6116 ''Pole-zero ch 2'' 64 0xFFFF RangeRule NoDependency 0 [],
     setting_row 0x6118 ''Pole-zero ch 3'' 64 0xFFFF RangeRule NoDependency 0 [],
     setting_row 0x611A ''Gain'' 100 20000 RangeRule NoDependency 0 [],
     setting_row 0x611C ''Threshold ch 0'' 0 0xFFFF RangeRule NoDependency 0 [],
     setting_row 0x611E ''Threshold ch 1'' 0 0xFFFF RangeRule NoDependency 0 [],
     setting_row 0x6120 ''Threshold ch 2'' 0 0xFFFF RangeRule NoDependency 0 [],
     setting_row 0x6122 ''Threshold ch 3'' 0 0xFFFF RangeRule NoDependency 0 [],
     setting_row 0x6124 ''Shaping time'' Fw2051ScpMinimumShapingTime Fw2051ScpMaximumShapingTime
       RangeRule NotBelow 0x6110 ''Timing filter'',
     setting_row 0x6126 ''Baseline restorer'' 0 3 RangeRule NoDependency 0 [],
     setting_row 0x6128 ''Reset time'' 16 1000 RangeRule NoDependency 0 [],
     setting_row 0x612A ''Signal rise time'' 0 127 RangeRule NoDependency 0 [],
     setting_row 0x6146 ''Pre-samples'' 0 Fw2051ScpMaximumSampleCount RangeRule LessThan 0x6148 ''Total samples'',
     setting_row 0x6148 ''Total samples'' 2 Fw2051ScpMaximumSampleCount EvenRangeRule GreaterThan 0x6146 ''Pre-samples'',
     setting_row 0x614A ''Sample configuration'' 0 Fw2051ScpSampleConfigurationAllowedMask
       SampleConfigurationRule NoDependency 0 []]"

definition FindFw2051ScpSetting :: "u16 \<Rightarrow> Fw2051ScpSettingDefinition option" where
  "FindFw2051ScpSetting offset = find (\<lambda>candidate. registerOffset candidate = offset) Fw2051ScpSettingRegistry"

text \<open>The texts the value checks return; \<open>None\<close> is the empty string of the source.\<close>

datatype scp_value_error =
    UnsupportedReservedBits string
  | OutsideRange string u16 u16
  | OddSampleCount string
  | RegisterNotAvailable

definition ValidateFw2051ScpSettingValue :: "Fw2051ScpSettingDefinition \<Rightarrow> u16 \<Rightarrow> string \<Rightarrow> scp_value_error option" where
  "ValidateFw2051ScpSettingValue definition' v valueKind =
    (let label = valueKind @ name definition' in
     if valueRule definition' = SampleConfigurationRule
        \<and> v AND NOT Fw2051ScpSampleConfigurationAllowedMask \<noteq> 0
     then Some (UnsupportedReservedBits label)
     else if v < minimumValue definition' \<or> v > maximumValue definition'
     then Some (OutsideRange label (minimumValue definition') (maximumValue definition'))
     else if valueRule definition' = EvenRangeRule \<and> v mod 2 \<noteq> 0
     then Some (OddSampleCount label)
     else None)"

definition ValidateFw2051ScpProfileValue :: "u16 \<Rightarrow> u16 \<Rightarrow> scp_value_error option" where
  "ValidateFw2051ScpProfileValue offset v =
    (case FindFw2051ScpSetting offset of
       None \<Rightarrow> Some RegisterNotAvailable
     | Some d \<Rightarrow> ValidateFw2051ScpSettingValue d v ''profile '')"

definition Fw2051ScpDependencySatisfied :: "Fw2051ScpSettingDefinition \<Rightarrow> u16 \<Rightarrow> u16 \<Rightarrow> bool" where
  "Fw2051ScpDependencySatisfied d v dependencyValue =
    (case dependencyRule d of
       NoDependency \<Rightarrow> True
     | NotAbove \<Rightarrow> v \<le> dependencyValue
     | NotBelow \<Rightarrow> v \<ge> dependencyValue
     | LessThan \<Rightarrow> v < dependencyValue
     | GreaterThan \<Rightarrow> v > dependencyValue)"

fun Fw2051ScpDependencyRelation :: "Fw2051ScpDependencyRule \<Rightarrow> string" where
  "Fw2051ScpDependencyRelation NoDependency = ''satisfy''"
| "Fw2051ScpDependencyRelation NotAbove = ''no greater than''"
| "Fw2051ScpDependencyRelation NotBelow = ''no less than''"
| "Fw2051ScpDependencyRelation LessThan = ''less than''"
| "Fw2051ScpDependencyRelation GreaterThan = ''greater than''"

definition Fw2051ScpQuadRegisterValue :: "Fw2051ScpQuadConfiguration \<Rightarrow> u16 \<Rightarrow> u16 option" where
  "Fw2051ScpQuadRegisterValue q offset =
    (if offset = 0x6110 then Some (timingFilter q)
     else if offset \<in> {0x6112, 0x6114, 0x6116, 0x6118} then Some (poleZero q ! unat ((offset - 0x6112) div 2))
     else if offset = 0x611A then Some (gain q)
     else if offset \<in> {0x611C, 0x611E, 0x6120, 0x6122} then Some (thresholds q ! unat ((offset - 0x611C) div 2))
     else if offset = 0x6124 then Some (shapingTime q)
     else if offset = 0x6126 then Some (baselineRestorer q)
     else if offset = 0x6128 then Some (resetTime q)
     else if offset = 0x612A then Some (signalRiseTime q)
     else if offset = 0x6146 then Some (preSamples q)
     else if offset = 0x6148 then Some (totalSamples q)
     else if offset = 0x614A then Some (sampleConfiguration q)
     else None)"

definition SetFw2051ScpQuadRegisterValue ::
    "Fw2051ScpQuadConfiguration \<Rightarrow> u16 \<Rightarrow> u16 \<Rightarrow> bool \<times> Fw2051ScpQuadConfiguration" where
  "SetFw2051ScpQuadRegisterValue q offset v =
    (if offset = 0x6110 then (True, q\<lparr>timingFilter := v\<rparr>)
     else if offset \<in> {0x6112, 0x6114, 0x6116, 0x6118}
       then (True, q\<lparr>poleZero := (poleZero q)[unat ((offset - 0x6112) div 2) := v]\<rparr>)
     else if offset = 0x611A then (True, q\<lparr>gain := v\<rparr>)
     else if offset \<in> {0x611C, 0x611E, 0x6120, 0x6122}
       then (True, q\<lparr>thresholds := (thresholds q)[unat ((offset - 0x611C) div 2) := v]\<rparr>)
     else if offset = 0x6124 then (True, q\<lparr>shapingTime := v\<rparr>)
     else if offset = 0x6126 then (True, q\<lparr>baselineRestorer := v\<rparr>)
     else if offset = 0x6128 then (True, q\<lparr>resetTime := v\<rparr>)
     else if offset = 0x612A then (True, q\<lparr>signalRiseTime := v\<rparr>)
     else if offset = 0x6146 then (True, q\<lparr>preSamples := v\<rparr>)
     else if offset = 0x6148 then (True, q\<lparr>totalSamples := v\<rparr>)
     else if offset = 0x614A then (True, q\<lparr>sampleConfiguration := v\<rparr>)
     else (False, q))"

subsection \<open>The registers of the table\<close>

definition fw2051_registers :: "u16 list" where
  "fw2051_registers = map registerOffset Fw2051ScpSettingRegistry"

lemma fw2051_registers_eq [scp_simps]:
  "fw2051_registers = [0x6110, 0x6112, 0x6114, 0x6116, 0x6118, 0x611A, 0x611C, 0x611E, 0x6120, 0x6122,
     0x6124, 0x6126, 0x6128, 0x612A, 0x6146, 0x6148, 0x614A]"
  by (simp add: fw2051_registers_def Fw2051ScpSettingRegistry_def setting_row_def)

lemma distinct_fw2051_registers [simp]: "distinct fw2051_registers"
  by (simp add: fw2051_registers_eq)

lemma length_registry: "length Fw2051ScpSettingRegistry = Fw2051ScpBankedSettingCount"
  by (simp add: Fw2051ScpSettingRegistry_def Fw2051ScpBankedSettingCount_def)

lemma FindFw2051ScpSetting_None: "FindFw2051ScpSetting r = None \<longleftrightarrow> r \<notin> set fw2051_registers"
  by (auto simp: FindFw2051ScpSetting_def fw2051_registers_def find_None_iff)

lemma FindFw2051ScpSetting_SomeD:
  "FindFw2051ScpSetting r = Some d \<Longrightarrow> registerOffset d = r \<and> d \<in> set Fw2051ScpSettingRegistry"
  by (auto simp: FindFw2051ScpSetting_def find_Some_iff)

lemma FindFw2051ScpSetting_registered:
  assumes "d \<in> set Fw2051ScpSettingRegistry"
  shows "FindFw2051ScpSetting (registerOffset d) = Some d"
proof -
  have "registerOffset d \<in> set fw2051_registers" using assms by (auto simp: fw2051_registers_def)
  then obtain d' where d': "FindFw2051ScpSetting (registerOffset d) = Some d'"
    by (metis FindFw2051ScpSetting_None not_Some_eq)
  then have "registerOffset d' = registerOffset d" "d' \<in> set Fw2051ScpSettingRegistry"
    by (auto dest: FindFw2051ScpSetting_SomeD)
  moreover have "inj_on registerOffset (set Fw2051ScpSettingRegistry)"
    using distinct_fw2051_registers by (simp add: fw2051_registers_def distinct_map)
  ultimately show ?thesis using d' assms by (auto dest: inj_onD)
qed

subsection \<open>A bank of registers\<close>

text \<open>
  The contract between the owner of a block of 16-bit registers and its clients: which
  offsets exist, that a read after a write sees the value, that other registers keep
  theirs, and that the registers and the bank's identity determine the bank. Clients
  write batches of registers; \<open>put_all\<close> is such a batch in order.
\<close>

locale register_bank =
  fixes regs :: "u16 list"
    and get :: "'q \<Rightarrow> u16 \<Rightarrow> u16 option"
    and put :: "'q \<Rightarrow> u16 \<Rightarrow> u16 \<Rightarrow> bool \<times> 'q"
    and ident :: "'q \<Rightarrow> u16"
    and wf :: "'q \<Rightarrow> bool"
  assumes get_mapped: "get q r \<noteq> None \<longleftrightarrow> r \<in> set regs"
    and put_mapped: "fst (put q r v) \<longleftrightarrow> r \<in> set regs"
    and put_unmapped: "r \<notin> set regs \<Longrightarrow> snd (put q r v) = q"
    and get_put_same: "wf q \<Longrightarrow> r \<in> set regs \<Longrightarrow> get (snd (put q r v)) r = Some v"
    and get_put_other: "wf q \<Longrightarrow> r \<noteq> r' \<Longrightarrow> get (snd (put q r v)) r' = get q r'"
    and wf_put: "wf q \<Longrightarrow> wf (snd (put q r v))"
    and ident_put: "ident (snd (put q r v)) = ident q"
    and bank_ext: "wf q \<Longrightarrow> wf q' \<Longrightarrow> ident q = ident q' \<Longrightarrow> (\<And>r. get q r = get q' r) \<Longrightarrow> q = q'"
begin

definition put_all :: "'q \<Rightarrow> (u16 \<times> u16) list \<Rightarrow> 'q" where
  "put_all q ws = foldl (\<lambda>q (r, v). snd (put q r v)) q ws"

lemma put_all_simps [simp]:
  "put_all q [] = q"
  "put_all q ((r, v) # ws) = put_all (snd (put q r v)) ws"
  by (simp_all add: put_all_def)

lemma put_all_append: "put_all q (xs @ ys) = put_all (put_all q xs) ys"
  by (simp add: put_all_def)

lemma get_put: "wf q \<Longrightarrow> get (snd (put q r v)) r' = (if r = r' \<and> r \<in> set regs then Some v else get q r')"
  by (cases "r \<in> set regs") (auto simp: get_put_same get_put_other put_unmapped)

lemma get_unmapped: "r \<notin> set regs \<Longrightarrow> get q r = None"
  using get_mapped by blast

lemma wf_put_all [simp]: "wf q \<Longrightarrow> wf (put_all q ws)"
  by (induction ws arbitrary: q) (auto simp: wf_put)

lemma ident_put_all [simp]: "ident (put_all q ws) = ident q"
  by (induction ws arbitrary: q) (auto simp: ident_put)

lemma get_put_all_notin: "wf q \<Longrightarrow> r \<notin> fst ` set ws \<Longrightarrow> get (put_all q ws) r = get q r"
  by (induction ws arbitrary: q) (auto simp: get_put wf_put)

lemma get_put_all:
  assumes "wf q" "distinct (map fst ws)" "fst ` set ws \<subseteq> set regs"
  shows "get (put_all q ws) r = (case map_of ws r of Some v \<Rightarrow> Some v | None \<Rightarrow> get q r)"
  using assms
proof (induction ws arbitrary: q)
  case (Cons w ws)
  obtain a v where w: "w = (a, v)" by (cases w)
  from Cons.prems have wf': "wf (snd (put q a v))" by (simp add: wf_put)
  have IH: "get (put_all (snd (put q a v)) ws) r
      = (case map_of ws r of Some v \<Rightarrow> Some v | None \<Rightarrow> get (snd (put q a v)) r)"
    using Cons.prems wf' w by (intro Cons.IH) auto
  show ?case
  proof (cases "r = a")
    case True
    with Cons.prems w have "map_of ws r = None" by (auto simp: map_of_eq_None_iff)
    with IH True Cons.prems w show ?thesis by (simp add: get_put)
  next
    case False
    with IH Cons.prems w show ?thesis by (auto simp: get_put split: option.split)
  qed
qed simp

lemma put_all_same_bank:
  assumes "wf q" "wf q'" "ident q = ident q'" "distinct (map fst ws)" "fst ` set ws \<subseteq> set regs"
    and new: "\<And>r v. (r, v) \<in> set ws \<Longrightarrow> get q' r = Some v"
    and old: "\<And>r. r \<in> set regs \<Longrightarrow> r \<notin> fst ` set ws \<Longrightarrow> get q r = get q' r"
  shows "put_all q ws = q'"
proof (rule bank_ext)
  fix r
  have "map_of ws r = Some v \<Longrightarrow> get q' r = Some v" for v
    using new by (auto dest: map_of_SomeD)
  moreover have "map_of ws r = None \<Longrightarrow> get q r = get q' r"
    using old [of r] get_unmapped [of r] by (cases "r \<in> set regs") (auto simp: map_of_eq_None_iff)
  ultimately show "get (put_all q ws) r = get q' r"
    using assms by (subst get_put_all) (auto split: option.split)
qed (use assms in auto)

end

lemma pole_zero_index [scp_simps]:
  "unat ((0x6112 - 0x6112 :: u16) div 2) = 0" "unat ((0x6114 - 0x6112 :: u16) div 2) = 1"
  "unat ((0x6116 - 0x6112 :: u16) div 2) = 2" "unat ((0x6118 - 0x6112 :: u16) div 2) = 3"
  "unat ((0x611C - 0x611C :: u16) div 2) = 0" "unat ((0x611E - 0x611C :: u16) div 2) = 1"
  "unat ((0x6120 - 0x611C :: u16) div 2) = 2" "unat ((0x6122 - 0x611C :: u16) div 2) = 3"
  by simp_all

lemma quad_register_mapped: "Fw2051ScpQuadRegisterValue q r \<noteq> None \<longleftrightarrow> r \<in> set fw2051_registers"
  by (auto simp: Fw2051ScpQuadRegisterValue_def fw2051_registers_eq)

lemma set_register_mapped: "fst (SetFw2051ScpQuadRegisterValue q r v) \<longleftrightarrow> r \<in> set fw2051_registers"
  by (auto simp: SetFw2051ScpQuadRegisterValue_def fw2051_registers_eq)

lemma set_register_unmapped: "r \<notin> set fw2051_registers \<Longrightarrow> snd (SetFw2051ScpQuadRegisterValue q r v) = q"
  by (auto simp: SetFw2051ScpQuadRegisterValue_def fw2051_registers_eq)

lemma set_register_wf: "quad_wf q \<Longrightarrow> quad_wf (snd (SetFw2051ScpQuadRegisterValue q r v))"
  by (simp add: SetFw2051ScpQuadRegisterValue_def quad_wf_def)

lemma set_register_quad: "quad (snd (SetFw2051ScpQuadRegisterValue q r v)) = quad q"
  by (simp add: SetFw2051ScpQuadRegisterValue_def)

lemma get_register_set_same:
  "quad_wf q \<Longrightarrow> r \<in> set fw2051_registers
    \<Longrightarrow> Fw2051ScpQuadRegisterValue (snd (SetFw2051ScpQuadRegisterValue q r v)) r = Some v"
  by (auto simp: SetFw2051ScpQuadRegisterValue_def Fw2051ScpQuadRegisterValue_def fw2051_registers_eq quad_wf_def)

lemma get_register_set_other:
  assumes "quad_wf q" "r \<noteq> r'"
  shows "Fw2051ScpQuadRegisterValue (snd (SetFw2051ScpQuadRegisterValue q r v)) r' = Fw2051ScpQuadRegisterValue q r'"
proof (cases "r \<in> set fw2051_registers")
  case True
  then show ?thesis
    using assms unfolding fw2051_registers_eq
    by (auto simp: SetFw2051ScpQuadRegisterValue_def Fw2051ScpQuadRegisterValue_def quad_wf_def)
qed (simp add: set_register_unmapped)

lemma quad_register_ext:
  assumes wf: "quad_wf q" "quad_wf q'" and id: "quad q = quad q'"
    and eq: "\<And>r. Fw2051ScpQuadRegisterValue q r = Fw2051ScpQuadRegisterValue q' r"
  shows "q = q'"
proof -
  have "poleZero q = poleZero q'"
  proof (rule nth_equalityI)
    fix i assume "i < length (poleZero q)"
    then consider "i = 0" | "i = 1" | "i = 2" | "i = 3" using wf by (force simp: quad_wf_def)
    then show "poleZero q ! i = poleZero q' ! i"
      using eq [of "0x6112"] eq [of "0x6114"] eq [of "0x6116"] eq [of "0x6118"]
      by cases (simp_all add: Fw2051ScpQuadRegisterValue_def)
  qed (use wf in \<open>simp add: quad_wf_def\<close>)
  moreover have "thresholds q = thresholds q'"
  proof (rule nth_equalityI)
    fix i assume "i < length (thresholds q)"
    then consider "i = 0" | "i = 1" | "i = 2" | "i = 3" using wf by (force simp: quad_wf_def)
    then show "thresholds q ! i = thresholds q' ! i"
      using eq [of "0x611C"] eq [of "0x611E"] eq [of "0x6120"] eq [of "0x6122"]
      by cases (simp_all add: Fw2051ScpQuadRegisterValue_def)
  qed (use wf in \<open>simp add: quad_wf_def\<close>)
  ultimately show ?thesis
    using id eq [of "0x6110"] eq [of "0x611A"] eq [of "0x6124"] eq [of "0x6126"] eq [of "0x6128"] eq [of "0x612A"]
      eq [of "0x6146"] eq [of "0x6148"] eq [of "0x614A"]
    by (simp add: Fw2051ScpQuadRegisterValue_def)
qed

interpretation scp_bank: register_bank fw2051_registers Fw2051ScpQuadRegisterValue SetFw2051ScpQuadRegisterValue quad quad_wf
  by unfold_locales
    (rule quad_register_mapped set_register_mapped set_register_unmapped get_register_set_same
      get_register_set_other set_register_wf set_register_quad quad_register_ext; assumption)+

end
