(* ===== verification/Scp_Profile.thy ===== *)
theory Scp_Profile
  imports Scp_Registry
begin

text \<open>
  Saved SCP profiles, \<^verbatim>\<open>core/ScpProfile.cpp\<close>: validation of a snapshot, the FNV-1a
  checksum, the comparison of a profile with a live snapshot, and the line-oriented text
  format. Reading follows \<^verbatim>\<open>std::istream >> std::string\<close> (skip white space, take the next
  run of other characters) and \<^verbatim>\<open>std::from_chars\<close> in base 10. The file functions
  \<^verbatim>\<open>SaveFw2051ScpProfile\<close> and \<^verbatim>\<open>LoadFw2051ScpProfile\<close> only move the text to and from disk
  and are not modelled. An empty error string of the source is \<open>None\<close>.
\<close>

definition Fw2051ScpProfileFormatVersion :: u32 where
  "Fw2051ScpProfileFormatVersion = 1"

record ScpProfile =
  formatVersion :: u32
  configuration :: Fw2051ScpConfigurationSnapshot

datatype snapshot_error =
    SnapshotNotComplete
  | SelectorNotVerified
  | NoBaseAddress
  | NotAnMdpp32
  | NotScpFirmware
  | UnsupportedScpFirmware
  | NotEightQuads
  | QuadsOutOfOrder

definition ValidateFw2051ScpConfiguration :: "Fw2051ScpConfigurationSnapshot \<Rightarrow> snapshot_error option" where
  "ValidateFw2051ScpConfiguration c =
    (if state c \<noteq> Complete then Some SnapshotNotComplete
     else if \<not> selectorParkedAtQuadZero c then Some SelectorNotVerified
     else if baseAddress c = 0 then Some NoBaseAddress
     else if hardwareId c \<noteq> Mdpp32HardwareId \<and> hardwareId c \<noteq> Mdpp32AlternateHardwareId then Some NotAnMdpp32
     else if drop_bit 12 (firmwareRevision c) AND 0x0F \<noteq> 2 then Some NotScpFirmware
     else if firmwareRevision c \<noteq> Mdpp32ScpFirmwareRevisionFw2051 then Some UnsupportedScpFirmware
     else if length (quads c) \<noteq> Fw2051ScpQuadCount then Some NotEightQuads
     else if list_ex (\<lambda>index. unat (quad (quads c ! index)) \<noteq> index) [0..<length (quads c)] then Some QuadsOutOfOrder
     else None)"

subsection \<open>Checksum\<close>

definition FnvOffsetBasis :: u64 where
  "FnvOffsetBasis = 14695981039346656037"

definition FnvPrime :: u64 where
  "FnvPrime = 1099511628211"

definition HashValue :: "u64 \<Rightarrow> u32 \<Rightarrow> u64" where
  "HashValue hash v = foldl (\<lambda>h shift. (h XOR ucast (drop_bit shift v AND 0xFF)) * FnvPrime) hash [0, 8, 16, 24]"

definition quad_hash_values :: "Fw2051ScpQuadConfiguration \<Rightarrow> u32 list" where
  "quad_hash_values q = map ucast ([quad q, timingFilter q] @ poleZero q @ [gain q] @ thresholds q
     @ [shapingTime q, baselineRestorer q, resetTime q, signalRiseTime q, preSamples q, totalSamples q,
        sampleConfiguration q])"

definition configuration_hash_values :: "Fw2051ScpConfigurationSnapshot \<Rightarrow> u32 list" where
  "configuration_hash_values c =
    [Fw2051ScpProfileFormatVersion, baseAddress c, ucast (hardwareId c), ucast (firmwareRevision c),
     ucast (irqLevel c), ucast (outputFormat c)] @ concat (map quad_hash_values (quads c))"

definition ComputeFw2051ScpProfileChecksum :: "Fw2051ScpConfigurationSnapshot \<Rightarrow> u64" where
  "ComputeFw2051ScpProfileChecksum c = foldl HashValue FnvOffsetBasis (configuration_hash_values c)"

subsection \<open>Comparison\<close>

record ScpConfigurationDifference =
  d_quad :: int
  d_hasRegister :: bool
  d_registerOffset :: u32
  d_setting :: string
  d_profileValue :: u32
  d_liveValue :: u32
  d_displayHexadecimal :: bool

datatype comparison_message =
    NoComparisonMessage
  | ProfileVersionUnsupported
  | LoadedProfileInvalid snapshot_error
  | LiveSnapshotNotComparable snapshot_error
  | RegistryNotComplete
  | MatchesAll nat
  | ValuesDiffer nat nat

record ScpConfigurationComparison =
  comparable :: bool
  cmp_message :: comparison_message
  valuesCompared :: nat
  differences :: "ScpConfigurationDifference list"

definition default_comparison :: ScpConfigurationComparison where
  "default_comparison = \<lparr>comparable = False, cmp_message = NoComparisonMessage, valuesCompared = 0, differences = []\<rparr>"

definition AddDifference :: "int \<Rightarrow> bool \<Rightarrow> u32 \<Rightarrow> string \<Rightarrow> u32 \<Rightarrow> u32 \<Rightarrow> bool
    \<Rightarrow> ScpConfigurationComparison \<Rightarrow> ScpConfigurationComparison" where
  "AddDifference q hasRegister offset setting profileValue liveValue displayHexadecimal cmp =
    (let cmp = cmp\<lparr>valuesCompared := valuesCompared cmp + 1\<rparr> in
     if profileValue = liveValue then cmp
     else cmp\<lparr>differences := differences cmp @ [\<lparr>d_quad = q, d_hasRegister = hasRegister,
       d_registerOffset = offset, d_setting = setting, d_profileValue = profileValue,
       d_liveValue = liveValue, d_displayHexadecimal = displayHexadecimal\<rparr>]\<rparr>)"

text \<open>The inner loop over the registry; \<open>None\<close> is its early return on an unmapped register.\<close>

fun compare_settings :: "int \<Rightarrow> Fw2051ScpQuadConfiguration \<Rightarrow> Fw2051ScpQuadConfiguration
    \<Rightarrow> Fw2051ScpSettingDefinition list \<Rightarrow> ScpConfigurationComparison \<Rightarrow> ScpConfigurationComparison option" where
  "compare_settings q profileQuad liveQuad [] cmp = Some cmp"
| "compare_settings q profileQuad liveQuad (d # ds) cmp =
    (case (Fw2051ScpQuadRegisterValue profileQuad (registerOffset d),
           Fw2051ScpQuadRegisterValue liveQuad (registerOffset d)) of
       (Some profileValue, Some liveValue) \<Rightarrow>
         compare_settings q profileQuad liveQuad ds
           (AddDifference q True (ucast (registerOffset d)) (name d) (ucast profileValue) (ucast liveValue)
             (registerOffset d = 0x614A) cmp)
     | _ \<Rightarrow> None)"

fun compare_quads :: "nat \<Rightarrow> Fw2051ScpQuadConfiguration list \<Rightarrow> Fw2051ScpQuadConfiguration list
    \<Rightarrow> ScpConfigurationComparison \<Rightarrow> ScpConfigurationComparison option" where
  "compare_quads index (p # ps) (l # ls) cmp =
    (case compare_settings (int index) p l Fw2051ScpSettingRegistry cmp of
       None \<Rightarrow> None
     | Some cmp \<Rightarrow> compare_quads (Suc index) ps ls cmp)"
| "compare_quads index _ _ cmp = Some cmp"

definition CompareFw2051ScpConfiguration ::
    "ScpProfile \<Rightarrow> Fw2051ScpConfigurationSnapshot \<Rightarrow> ScpConfigurationComparison" where
  "CompareFw2051ScpConfiguration profile live =
    (let cmp = default_comparison in
     if formatVersion profile \<noteq> Fw2051ScpProfileFormatVersion
     then cmp\<lparr>cmp_message := ProfileVersionUnsupported\<rparr>
     else case ValidateFw2051ScpConfiguration (configuration profile) of
       Some e \<Rightarrow> cmp\<lparr>cmp_message := LoadedProfileInvalid e\<rparr>
     | None \<Rightarrow>
     (case ValidateFw2051ScpConfiguration live of
       Some e \<Rightarrow> cmp\<lparr>cmp_message := LiveSnapshotNotComparable e\<rparr>
     | None \<Rightarrow>
       (let cmp = cmp\<lparr>comparable := True\<rparr>; expected = configuration profile;
            cmp = AddDifference (- 1) False 0 ''VME base'' (baseAddress expected) (baseAddress live) True cmp;
            cmp = AddDifference (- 1) True 0x6008 ''Hardware ID'' (ucast (hardwareId expected)) (ucast (hardwareId live)) True cmp;
            cmp = AddDifference (- 1) True 0x600E ''Firmware revision'' (ucast (firmwareRevision expected)) (ucast (firmwareRevision live)) True cmp;
            cmp = AddDifference (- 1) True 0x6010 ''IRQ level'' (ucast (irqLevel expected)) (ucast (irqLevel live)) False cmp;
            cmp = AddDifference (- 1) True 0x6044 ''Output format'' (ucast (outputFormat expected)) (ucast (outputFormat live)) True cmp
        in case compare_quads 0 (quads expected) (quads live) cmp of
             None \<Rightarrow> cmp\<lparr>comparable := False, cmp_message := RegistryNotComplete, valuesCompared := 0, differences := []\<rparr>
           | Some cmp \<Rightarrow>
             cmp\<lparr>cmp_message := (if differences cmp = [] then MatchesAll (valuesCompared cmp)
                 else ValuesDiffer (length (differences cmp)) (valuesCompared cmp))\<rparr>)))"

subsection \<open>Valid snapshots\<close>

lemma validate_ok_iff:
  "ValidateFw2051ScpConfiguration c = None \<longleftrightarrow>
     state c = Complete \<and> selectorParkedAtQuadZero c \<and> baseAddress c \<noteq> 0
     \<and> IsSupportedMdpp32HardwareId (hardwareId c) \<and> firmwareRevision c = Mdpp32ScpFirmwareRevisionFw2051
     \<and> length (quads c) = 8 \<and> (\<forall>i < 8. unat (quad (quads c ! i)) = i)"
proof -
  have "drop_bit 12 Mdpp32ScpFirmwareRevisionFw2051 AND 0x0F = 2"
    by (simp add: Mdpp32ScpFirmwareRevisionFw2051_def)
  moreover have "IsSupportedMdpp32HardwareId h \<longleftrightarrow> h = Mdpp32HardwareId \<or> h = Mdpp32AlternateHardwareId" for h
    by (simp add: IsSupportedMdpp32HardwareId_def Mdpp32ReadOnlyAcceptedHardwareIds_def)
  moreover have "list_ex P [0..<n] \<longleftrightarrow> (\<exists>i < n. P i)" for P and n :: nat
    by (auto simp: list_ex_iff)
  ultimately show ?thesis
    by (auto simp: ValidateFw2051ScpConfiguration_def scp_counts)
qed

subsection \<open>What the comparison computes\<close>

definition quad_difference :: "int \<Rightarrow> Fw2051ScpQuadConfiguration \<Rightarrow> Fw2051ScpQuadConfiguration
    \<Rightarrow> Fw2051ScpSettingDefinition \<Rightarrow> ScpConfigurationDifference" where
  "quad_difference i p l d = \<lparr>d_quad = i, d_hasRegister = True, d_registerOffset = ucast (registerOffset d),
     d_setting = name d, d_profileValue = ucast (the (Fw2051ScpQuadRegisterValue p (registerOffset d))),
     d_liveValue = ucast (the (Fw2051ScpQuadRegisterValue l (registerOffset d))),
     d_displayHexadecimal = (registerOffset d = 0x614A)\<rparr>"

definition setting_differs :: "Fw2051ScpQuadConfiguration \<Rightarrow> Fw2051ScpQuadConfiguration \<Rightarrow> Fw2051ScpSettingDefinition \<Rightarrow> bool" where
  "setting_differs p l d \<longleftrightarrow> Fw2051ScpQuadRegisterValue p (registerOffset d) \<noteq> Fw2051ScpQuadRegisterValue l (registerOffset d)"

definition quad_differences :: "int \<Rightarrow> Fw2051ScpQuadConfiguration \<Rightarrow> Fw2051ScpQuadConfiguration \<Rightarrow> ScpConfigurationDifference list" where
  "quad_differences i p l = map (quad_difference i p l) (filter (setting_differs p l) Fw2051ScpSettingRegistry)"

fun banked_differences :: "nat \<Rightarrow> Fw2051ScpQuadConfiguration list \<Rightarrow> Fw2051ScpQuadConfiguration list \<Rightarrow> ScpConfigurationDifference list" where
  "banked_differences i (p # ps) (l # ls) = quad_differences (int i) p l @ banked_differences (Suc i) ps ls"
| "banked_differences i _ _ = []"

definition global_differences :: "Fw2051ScpConfigurationSnapshot \<Rightarrow> Fw2051ScpConfigurationSnapshot \<Rightarrow> ScpConfigurationDifference list" where
  "global_differences e l =
    (let diff = (\<lambda>hasRegister r s pv lv hex. if pv = lv then [] else [\<lparr>d_quad = - 1, d_hasRegister = hasRegister,
       d_registerOffset = r, d_setting = s, d_profileValue = pv, d_liveValue = lv, d_displayHexadecimal = hex\<rparr>])
     in diff False 0 ''VME base'' (baseAddress e) (baseAddress l) True
      @ diff True 0x6008 ''Hardware ID'' (ucast (hardwareId e)) (ucast (hardwareId l)) True
      @ diff True 0x600E ''Firmware revision'' (ucast (firmwareRevision e)) (ucast (firmwareRevision l)) True
      @ diff True 0x6010 ''IRQ level'' (ucast (irqLevel e)) (ucast (irqLevel l)) False
      @ diff True 0x6044 ''Output format'' (ucast (outputFormat e)) (ucast (outputFormat l)) True)"

lemma AddDifference_sel [simp]:
  "comparable (AddDifference q h r s pv lv x cmp) = comparable cmp"
  "cmp_message (AddDifference q h r s pv lv x cmp) = cmp_message cmp"
  "valuesCompared (AddDifference q h r s pv lv x cmp) = Suc (valuesCompared cmp)"
  "differences (AddDifference q h r s pv lv x cmp) = differences cmp @ (if pv = lv then [] else
     [\<lparr>d_quad = q, d_hasRegister = h, d_registerOffset = r, d_setting = s, d_profileValue = pv,
       d_liveValue = lv, d_displayHexadecimal = x\<rparr>])"
  by (simp_all add: AddDifference_def Let_def)

lemma compare_settings_eq:
  "registerOffset ` set ds \<subseteq> set fw2051_registers \<Longrightarrow>
   compare_settings i p l ds cmp = Some (cmp\<lparr>valuesCompared := valuesCompared cmp + length ds,
     differences := differences cmp @ map (quad_difference i p l) (filter (setting_differs p l) ds)\<rparr>)"
proof (induction ds arbitrary: cmp)
  case (Cons d ds)
  then obtain pv lv where vals: "Fw2051ScpQuadRegisterValue p (registerOffset d) = Some pv"
      "Fw2051ScpQuadRegisterValue l (registerOffset d) = Some lv"
    using quad_register_mapped [of p "registerOffset d"] quad_register_mapped [of l "registerOffset d"] by auto
  with Cons show ?case
    by (auto simp: AddDifference_def quad_difference_def setting_differs_def Let_def)
qed simp

lemma registry_offsets: "registerOffset ` set Fw2051ScpSettingRegistry = set fw2051_registers"
  by (simp add: fw2051_registers_def)

lemma compare_quads_eq:
  "length ps = length ls \<Longrightarrow>
   compare_quads i ps ls cmp = Some (cmp\<lparr>valuesCompared := valuesCompared cmp + 17 * length ps,
     differences := differences cmp @ banked_differences i ps ls\<rparr>)"
proof (induction ps ls arbitrary: i cmp rule: list_induct2)
  case Nil
  then show ?case by simp
next
  case (Cons p ps l ls)
  then show ?case
    by (simp add: compare_settings_eq registry_offsets length_registry scp_counts quad_differences_def)
qed

lemma compare_eq:
  assumes "formatVersion profile = Fw2051ScpProfileFormatVersion"
    and "ValidateFw2051ScpConfiguration (configuration profile) = None"
    and "ValidateFw2051ScpConfiguration live = None"
  shows "comparable (CompareFw2051ScpConfiguration profile live)"
    and "valuesCompared (CompareFw2051ScpConfiguration profile live) = 141"
    and "differences (CompareFw2051ScpConfiguration profile live)
      = global_differences (configuration profile) live @ banked_differences 0 (quads (configuration profile)) (quads live)"
proof -
  have len: "length (quads (configuration profile)) = 8" "length (quads live) = 8"
    using assms(2,3) by (simp_all add: validate_ok_iff)
  show "comparable (CompareFw2051ScpConfiguration profile live)"
    "valuesCompared (CompareFw2051ScpConfiguration profile live) = 141"
    "differences (CompareFw2051ScpConfiguration profile live)
      = global_differences (configuration profile) live @ banked_differences 0 (quads (configuration profile)) (quads live)"
    using assms len
    by (simp_all add: CompareFw2051ScpConfiguration_def compare_quads_eq Let_def
        default_comparison_def global_differences_def split del: if_split)
qed

lemma compare_comparable_iff:
  "comparable (CompareFw2051ScpConfiguration profile live) \<longleftrightarrow>
     formatVersion profile = Fw2051ScpProfileFormatVersion
     \<and> ValidateFw2051ScpConfiguration (configuration profile) = None
     \<and> ValidateFw2051ScpConfiguration live = None"
proof
  assume "comparable (CompareFw2051ScpConfiguration profile live)"
  then show "formatVersion profile = Fw2051ScpProfileFormatVersion
     \<and> ValidateFw2051ScpConfiguration (configuration profile) = None
     \<and> ValidateFw2051ScpConfiguration live = None"
    by (auto simp: CompareFw2051ScpConfiguration_def default_comparison_def Let_def split: if_splits option.splits)
qed (simp add: compare_eq)

lemma quad_differences_Nil:
  assumes "quad_wf p" "quad_wf l" "quad p = quad l"
  shows "quad_differences i p l = [] \<longleftrightarrow> p = l"
proof
  assume "quad_differences i p l = []"
  then have same: "r \<in> set fw2051_registers \<Longrightarrow> Fw2051ScpQuadRegisterValue p r = Fw2051ScpQuadRegisterValue l r" for r
    by (auto simp: quad_differences_def setting_differs_def filter_empty_conv fw2051_registers_def)
  show "p = l"
  proof (rule quad_register_ext)
    fix r show "Fw2051ScpQuadRegisterValue p r = Fw2051ScpQuadRegisterValue l r"
      using same [of r] scp_bank.get_unmapped [of r] by (cases "r \<in> set fw2051_registers") auto
  qed (use assms in auto)
qed (simp add: quad_differences_def setting_differs_def)

lemma banked_differences_Nil:
  assumes "length ps = length ls" "list_all quad_wf ps" "list_all quad_wf ls" "map quad ps = map quad ls"
  shows "banked_differences i ps ls = [] \<longleftrightarrow> ps = ls"
  using assms
  by (induction ps ls arbitrary: i rule: list_induct2)
    (auto simp: quad_differences_Nil)

lemma valid_quad_numbers:
  assumes "ValidateFw2051ScpConfiguration c = None"
  shows "map quad (quads c) = map of_nat [0..<8]"
proof (rule nth_equalityI)
  fix i assume "i < length (map quad (quads c))"
  then have "i < 8" "unat (quad (quads c ! i)) = i" using assms by (simp_all add: validate_ok_iff)
  then show "map quad (quads c) ! i = map of_nat [0..<8] ! i"
    using assms by (simp add: validate_ok_iff word_unat_eq_iff unat_of_nat)
qed (use assms in \<open>simp add: validate_ok_iff\<close>)

lemma global_differences_Nil:
  "global_differences e l = [] \<longleftrightarrow> baseAddress e = baseAddress l \<and> hardwareId e = hardwareId l
     \<and> firmwareRevision e = firmwareRevision l \<and> irqLevel e = irqLevel l \<and> outputFormat e = outputFormat l"
  by (simp add: global_differences_def Let_def)

subsection \<open>What the checksum detects\<close>

text \<open>
  One FNV-1a round is injective in the running hash (the prime is odd, so multiplication
  by it is invertible modulo \<open>2 ^ 64\<close>), and two rounds separate two 16-bit values: the
  low bytes differ by less than 256, and no multiple of the prime by such a difference
  is that small.
\<close>

lemma FnvPrime_cancel: "x * FnvPrime = y * FnvPrime \<longleftrightarrow> x = y"
proof
  assume "x * FnvPrime = y * FnvPrime"
  then have "x * FnvPrime * 14886173955864302971 = y * FnvPrime * 14886173955864302971" by simp
  moreover have "FnvPrime * 14886173955864302971 = 1" by (simp add: FnvPrime_def)
  ultimately show "x = y" by (simp add: mult.assoc)
qed simp

lemma xor_cancel: "a XOR c = b XOR c \<longleftrightarrow> a = (b :: 'a::len word)"
  by (metis xor.assoc xor.right_neutral xor_self_eq)

lemma xor_cancel_left: "c XOR a = c XOR b \<longleftrightarrow> a = (b :: 'a::len word)"
  by (simp add: xor.commute [of c] xor_cancel)

lemma HashValue_unfold:
  "HashValue h v = ((((((h XOR ucast (drop_bit 0 v AND 0xFF)) * FnvPrime) XOR ucast (drop_bit 8 v AND 0xFF)) * FnvPrime)
     XOR ucast (drop_bit 16 v AND 0xFF)) * FnvPrime XOR ucast (drop_bit 24 v AND 0xFF)) * FnvPrime"
  by (simp add: HashValue_def)

lemma HashValue_inject_hash: "HashValue h v = HashValue h' v \<longleftrightarrow> h = h'"
  by (simp add: HashValue_unfold FnvPrime_cancel xor_cancel del: drop_bit_0)

lemma foldl_HashValue_inject: "foldl HashValue h vs = foldl HashValue h' vs \<longleftrightarrow> h = h'"
  by (induction vs arbitrary: h h') (simp_all add: HashValue_inject_hash)

lemma low_byte_xor_diff:
  fixes h b b' :: u64
  assumes "drop_bit 8 b = 0" "drop_bit 8 b' = 0"
  shows "drop_bit 8 (h XOR b) = drop_bit 8 (h XOR b')"
  using assms by (simp add: drop_bit_xor)

lemma drop8_uint_close:
  fixes x y :: u64
  assumes "drop_bit 8 x = drop_bit 8 y"
  shows "\<bar>uint x - uint y\<bar> < 256"
proof -
  have "uint x div 256 = uint y div 256"
    using arg_cong [OF assms, of uint] by (simp add: drop_bit_eq_div uint_div)
  moreover have "uint x = 256 * (uint x div 256) + uint x mod 256" "uint y = 256 * (uint y div 256) + uint y mod 256"
    by simp_all
  moreover have "0 \<le> uint x mod 256" "uint x mod 256 < 256" "0 \<le> uint y mod 256" "uint y mod 256 < 256"
    by simp_all
  ultimately show ?thesis by linarith
qed

lemma fnv_round_separates:
  fixes x y :: u64
  assumes close: "drop_bit 8 x = drop_bit 8 y"
    and prod: "drop_bit 8 (x * FnvPrime) = drop_bit 8 (y * FnvPrime)"
  shows "x = y"
proof -
  let ?p = "1099511628211 :: int" and ?m = "2 ^ 64 :: int"
  define d where "d = uint x - uint y"
  have d: "\<bar>d\<bar> < 256" unfolding d_def by (rule drop8_uint_close [OF close])
  have e: "\<bar>uint (x * FnvPrime) - uint (y * FnvPrime)\<bar> < 256" by (rule drop8_uint_close [OF prod])
  have "uint (x * FnvPrime) = uint x * ?p mod ?m" "uint (y * FnvPrime) = uint y * ?p mod ?m"
    by (simp_all add: uint_word_ariths FnvPrime_def)
  then have "uint (x * FnvPrime) - uint (y * FnvPrime) = d * ?p - (uint x * ?p div ?m - uint y * ?p div ?m) * ?m"
    unfolding d_def minus_div_mult_eq_mod [symmetric] by (simp add: algebra_simps)
  then obtain k where k: "uint (x * FnvPrime) - uint (y * FnvPrime) = d * ?p - k * ?m"
    by blast
  have "k = 0"
  proof (rule ccontr)
    assume "k \<noteq> 0"
    then have "k \<ge> 1 \<or> k \<le> - 1" by linarith
    then show False using k d e by auto
  qed
  with k e have "d = 0" by auto
  then show ?thesis by (simp add: d_def word_uint_eq_iff)
qed

lemma HashValue_inject_u16:
  fixes v v' :: u16
  assumes eq: "HashValue h (ucast v) = HashValue h (ucast v')"
  shows "v = v'"
proof -
  let ?b0 = "\<lambda>v :: u16. ucast (drop_bit 0 (ucast v :: u32) AND 0xFF) :: u64"
  let ?b1 = "\<lambda>v :: u16. ucast (drop_bit 8 (ucast v :: u32) AND 0xFF) :: u64"
  have high: "drop_bit 16 (ucast v :: u32) = 0" "drop_bit 24 (ucast v :: u32) = 0" for v :: u16
    by (auto intro!: bit_word_eqI simp: bit_simps bit_u16_high)
  have low: "drop_bit 8 (?b0 v) = 0" "drop_bit 8 (?b1 v) = 0" for v
    unfolding mask_FF by (auto intro!: bit_word_eqI simp: bit_simps)
  have r: "(h XOR ?b0 v) * FnvPrime XOR ?b1 v = (h XOR ?b0 v') * FnvPrime XOR ?b1 v'"
    using eq by (simp add: HashValue_unfold FnvPrime_cancel xor_cancel high del: drop_bit_0)
  have "drop_bit 8 ((h XOR ?b0 v) * FnvPrime) = drop_bit 8 ((h XOR ?b0 v') * FnvPrime)"
    using arg_cong [OF r, of "drop_bit 8"] by (simp only: drop_bit_xor low xor.right_neutral)
  moreover have "drop_bit 8 (h XOR ?b0 v) = drop_bit 8 (h XOR ?b0 v')"
    by (rule low_byte_xor_diff) (rule low)+
  ultimately have x: "h XOR ?b0 v = h XOR ?b0 v'" using fnv_round_separates by blast
  then have b0: "?b0 v = ?b0 v'" by (simp only: xor_cancel_left)
  from r x have b1: "?b1 v = ?b1 v'" by (simp only: xor_cancel_left)
  show ?thesis
  proof (rule bit_word_eqI)
    fix n assume "n < LENGTH(16)"
    then consider "n < 8" | "8 \<le> n" "n < 16" by force
    then show "bit v n = bit v' n"
    proof cases
      case 1
      then show ?thesis using arg_cong [OF b0, of "\<lambda>w. bit w n"] unfolding mask_FF by (simp add: bit_simps)
    next
      case 2
      then show ?thesis using arg_cong [OF b1, of "\<lambda>w. bit w (n - 8)"] unfolding mask_FF by (auto simp: bit_simps)
    qed
  qed
qed

lemma checksum_separates:
  fixes v v' :: u16
  assumes "configuration_hash_values c = pre @ ucast v # post"
    and "configuration_hash_values c' = pre @ ucast v' # post"
    and "v \<noteq> v'"
  shows "ComputeFw2051ScpProfileChecksum c \<noteq> ComputeFw2051ScpProfileChecksum c'"
  using assms HashValue_inject_u16
  by (auto simp: ComputeFw2051ScpProfileChecksum_def foldl_HashValue_inject)

end
