(* ===== verification/Scp_Sample.thy ===== *)
theory Scp_Sample
  imports Scp_Profile
begin

text \<open>
  A concrete FW2051 configuration in the shape the program captures, and a target that
  moves both coupled pairs of quad 0 upwards past their live boundary (so that the
  boundary register has to be written first) and retunes one gain. The witnesses of the
  SCP components are evaluated on them.
\<close>

definition sample_quad :: "nat \<Rightarrow> Fw2051ScpQuadConfiguration" where
  "sample_quad i = \<lparr>quad = of_nat i, timingFilter = 5, poleZero = [1000, 1001, 1002, 1003], gain = 200,
     thresholds = [300, 301, 302, 303], shapingTime = 100, baselineRestorer = 2, resetTime = 16,
     signalRiseTime = 10, preSamples = 50, totalSamples = 100, sampleConfiguration = 0x40\<rparr>"

definition sample_live :: Fw2051ScpConfigurationSnapshot where
  "sample_live = \<lparr>state = Complete, message = ''captured'', baseAddress = 0x01000000, hardwareId = Mdpp32HardwareId,
     firmwareRevision = Mdpp32ScpFirmwareRevisionFw2051, irqLevel = 1, outputFormat = 0x0018,
     selectorParkedAtQuadZero = True, selectorWrites = [], quads = map sample_quad [0..<8]\<rparr>"

definition sample_target :: Fw2051ScpConfigurationSnapshot where
  "sample_target = sample_live\<lparr>quads := map (\<lambda>i. if i = 0
     then (sample_quad i)\<lparr>timingFilter := 120, shapingTime := 400, preSamples := 120, totalSamples := 240\<rparr>
     else if i = 3 then (sample_quad i)\<lparr>gain := 250\<rparr> else sample_quad i) [0..<8]\<rparr>"

definition sample_profile :: ScpProfile where
  "sample_profile = \<lparr>formatVersion = Fw2051ScpProfileFormatVersion, configuration = sample_target\<rparr>"

lemma upt_8: "[0..<8] = [0, 1, 2, 3, 4, 5, 6, 7 :: nat]"
  by (simp add: upt_rec)

lemma sample_live_valid: "ValidateFw2051ScpConfiguration sample_live = None"
  by code_simp

lemma sample_target_valid: "ValidateFw2051ScpConfiguration sample_target = None"
  by code_simp

lemma sample_comparable: "comparable (CompareFw2051ScpConfiguration sample_profile sample_live)"
  using sample_live_valid sample_target_valid by (simp add: compare_comparable_iff sample_profile_def)

lemma sample_wf: "snapshot_wf sample_live" "snapshot_wf sample_target"
  by code_simp+

lemma sample_moves: "quads sample_target \<noteq> quads sample_live"
  by code_simp

end
