(* ===== verification/Text_Format.thy ===== *)
theory Text_Format
  imports Fidget_Prelude
begin

text \<open>
  The parts of the C++ library the text formats use: white-space separated token
  extraction (\<^verbatim>\<open>std::istream >> std::string\<close> in the classic locale), decimal output of
  unsigned integers (\<^verbatim>\<open>std::ostream <<\<close>) and \<^verbatim>\<open>std::from_chars\<close> in base 10 for a 64-bit
  target. Errors travel in a sum, chained by \<open>bindE\<close>.
\<close>

definition bindE :: "'e + 'a \<Rightarrow> ('a \<Rightarrow> 'e + 'b) \<Rightarrow> 'e + 'b" where
  "bindE m f = (case m of Inl e \<Rightarrow> Inl e | Inr a \<Rightarrow> f a)"

lemma bindE_simps [simp]: "bindE (Inl e) f = Inl e" "bindE (Inr a) f = f a"
  by (simp_all add: bindE_def)

lemma bindE_Inr: "bindE m f = Inr b \<longleftrightarrow> (\<exists>a. m = Inr a \<and> f a = Inr b)"
  by (cases m) simp_all

definition is_space :: "char \<Rightarrow> bool" where
  "is_space c \<longleftrightarrow> c \<in> {CHR '' '', CHR 0x09, CHR 0x0A, CHR 0x0B, CHR 0x0C, CHR 0x0D}"

definition is_digit :: "char \<Rightarrow> bool" where
  "is_digit c \<longleftrightarrow> 48 \<le> (of_char c :: nat) \<and> (of_char c :: nat) \<le> 57"

definition read_token :: "string \<Rightarrow> (string \<times> string) option" where
  "read_token input =
    (let s = dropWhile is_space input in
     if s = [] then None
     else Some (takeWhile (\<lambda>c. \<not> is_space c) s, dropWhile (\<lambda>c. \<not> is_space c) s))"

definition digits_value :: "string \<Rightarrow> nat" where
  "digits_value ds = foldl (\<lambda>acc c. acc * 10 + (of_char c - 48)) 0 ds"

datatype conversion_error = InvalidArgument | ResultOutOfRange

definition from_chars10 :: "string \<Rightarrow> conversion_error + nat \<times> string" where
  "from_chars10 s =
    (let ds = takeWhile is_digit s; rest = dropWhile is_digit s in
     if ds = [] then Inl InvalidArgument
     else if digits_value ds \<ge> 2 ^ 64 then Inl ResultOutOfRange
     else Inr (digits_value ds, rest))"

fun decimal :: "nat \<Rightarrow> string" where
  "decimal n = (if n < 10 then [char_of (48 + n)] else decimal (n div 10) @ [char_of (48 + n mod 10)])"

declare decimal.simps [simp del]

subsection \<open>Printed numbers read back\<close>

lemma digit_char: "d < 10 \<Longrightarrow> is_digit (char_of (48 + d :: nat))"
  by (simp add: is_digit_def)

lemma digit_not_space: "is_digit c \<Longrightarrow> \<not> is_space c"
  by (auto simp: is_digit_def is_space_def)

lemma decimal_digits: "list_all is_digit (decimal n)"
proof (induction n rule: decimal.induct)
  case (1 n)
  then show ?case by (subst decimal.simps) (simp add: digit_char)
qed

lemma decimal_not_Nil [simp]: "decimal n \<noteq> []"
  by (subst decimal.simps) simp

lemma digits_value_snoc: "digits_value (ds @ [c]) = digits_value ds * 10 + (of_char c - 48)"
  by (simp add: digits_value_def)

lemma digits_value_decimal [simp]: "digits_value (decimal n) = n"
proof (induction n rule: decimal.induct)
  case (1 n)
  show ?case
  proof (cases "n < 10")
    case True
    then show ?thesis by (subst decimal.simps) (simp add: digits_value_def)
  next
    case False
    with 1 show ?thesis by (subst decimal.simps) (simp add: digits_value_snoc)
  qed
qed

lemma from_chars10_decimal: "n < 2 ^ 64 \<Longrightarrow> from_chars10 (decimal n) = Inr (n, [])"
proof -
  assume n: "n < 2 ^ 64"
  have "\<forall>c \<in> set (decimal n). is_digit c"
    using decimal_digits [of n] by (simp add: list_all_iff)
  then have all: "takeWhile is_digit (decimal n) = decimal n" "dropWhile is_digit (decimal n) = []"
    by (simp_all only: takeWhile_eq_all_conv dropWhile_eq_Nil_conv)
  show ?thesis unfolding from_chars10_def Let_def all using n by simp
qed

definition is_word :: "string \<Rightarrow> bool" where
  "is_word t \<longleftrightarrow> t \<noteq> [] \<and> list_all (\<lambda>c. \<not> is_space c) t"

lemma is_word_decimal [simp]: "is_word (decimal n)"
  using decimal_digits [of n] by (auto simp: is_word_def list_all_iff digit_not_space)

lemma read_token_space: "is_space c \<Longrightarrow> read_token (c # s) = read_token s"
  by (simp add: read_token_def)

lemma read_token_word:
  assumes "is_word t" "is_space c"
  shows "read_token (t @ c # s) = Some (t, c # s)"
proof -
  have "dropWhile is_space (t @ c # s) = t @ c # s"
    using assms by (cases t) (auto simp: is_word_def)
  moreover have "takeWhile (\<lambda>c. \<not> is_space c) (t @ c # s) = t" "dropWhile (\<lambda>c. \<not> is_space c) (t @ c # s) = c # s"
    using assms by (auto simp: is_word_def list_all_iff takeWhile_append dropWhile_append)
  ultimately show ?thesis using assms by (simp add: read_token_def is_word_def)
qed

lemma read_token_end: "list_all is_space s \<Longrightarrow> read_token s = None"
  by (simp add: read_token_def list_all_iff)

end
