(* ===== verification/Scp_Profile_Text.thy ===== *)
theory Scp_Profile_Text
  imports Scp_Sample Text_Format
begin

text \<open>
  The profile text of \<^verbatim>\<open>core/ScpProfile.cpp\<close>: \<^verbatim>\<open>SerializeFw2051ScpProfile\<close> and
  \<^verbatim>\<open>ParseFw2051ScpProfile\<close> with the token readers they use. A reader takes the rest of
  the input and returns an error or the value with the new rest.
\<close>

datatype token_error =
    UnexpectedEnd string
  | UnexpectedToken string string
  | MissingUnsigned string
  | InvalidUnsigned string string

definition ExpectToken :: "string \<Rightarrow> string \<Rightarrow> token_error + string" where
  "ExpectToken expected input =
    (case read_token input of
       None \<Rightarrow> Inl (UnexpectedEnd expected)
     | Some (token, rest) \<Rightarrow> if token \<noteq> expected then Inl (UnexpectedToken expected token) else Inr rest)"

text \<open>\<open>maximum\<close> is \<^verbatim>\<open>std::numeric_limits<Integer>::max()\<close> of the destination.\<close>

definition ReadUnsigned :: "nat \<Rightarrow> string \<Rightarrow> string \<Rightarrow> token_error + nat \<times> string" where
  "ReadUnsigned maximum field input =
    (case read_token input of
       None \<Rightarrow> Inl (MissingUnsigned field)
     | Some (token, rest) \<Rightarrow>
       (case from_chars10 token of
          Inl e \<Rightarrow> Inl (InvalidUnsigned token field)
        | Inr (parsed, end) \<Rightarrow>
            if end \<noteq> [] \<or> parsed > maximum then Inl (InvalidUnsigned token field) else Inr (parsed, rest)))"

definition ReadU16 :: "string \<Rightarrow> string \<Rightarrow> token_error + u16 \<times> string" where
  "ReadU16 field input = map_sum id (map_prod of_nat id) (ReadUnsigned (2 ^ 16 - 1) field input)"

definition ReadU32 :: "string \<Rightarrow> string \<Rightarrow> token_error + u32 \<times> string" where
  "ReadU32 field input = map_sum id (map_prod of_nat id) (ReadUnsigned (2 ^ 32 - 1) field input)"

definition ReadU64 :: "string \<Rightarrow> string \<Rightarrow> token_error + u64 \<times> string" where
  "ReadU64 field input = map_sum id (map_prod of_nat id) (ReadUnsigned (2 ^ 64 - 1) field input)"

definition newline :: string where
  "newline = [CHR 0x0A]"

definition put_number :: "'a::len word \<Rightarrow> string" where
  "put_number w = CHR '' '' # decimal (unat w)"

definition WriteQuad :: "Fw2051ScpQuadConfiguration \<Rightarrow> string" where
  "WriteQuad q = ''QUAD'' @ put_number (quad q) @ put_number (timingFilter q)
     @ concat (map put_number (poleZero q)) @ put_number (gain q)
     @ concat (map put_number (thresholds q))
     @ put_number (shapingTime q) @ put_number (baselineRestorer q) @ put_number (resetTime q)
     @ put_number (signalRiseTime q) @ put_number (preSamples q) @ put_number (totalSamples q)
     @ put_number (sampleConfiguration q) @ newline"

fun ReadMany :: "nat \<Rightarrow> string \<Rightarrow> string \<Rightarrow> token_error + u16 list \<times> string" where
  "ReadMany 0 field input = Inr ([], input)"
| "ReadMany (Suc n) field input =
    bindE (ReadU16 field input) (\<lambda>(v, input). bindE (ReadMany n field input) (\<lambda>(vs, input). Inr (v # vs, input)))"

definition ReadQuad :: "string \<Rightarrow> token_error + Fw2051ScpQuadConfiguration \<times> string" where
  "ReadQuad input =
    bindE (ExpectToken ''QUAD'' input) (\<lambda>input.
    bindE (ReadU16 ''quad'' input) (\<lambda>(q, input).
    bindE (ReadU16 ''timing filter'' input) (\<lambda>(tf, input).
    bindE (ReadMany 4 ''pole-zero'' input) (\<lambda>(pz, input).
    bindE (ReadU16 ''gain'' input) (\<lambda>(g, input).
    bindE (ReadMany 4 ''threshold'' input) (\<lambda>(th, input).
    bindE (ReadU16 ''shaping time'' input) (\<lambda>(st, input).
    bindE (ReadU16 ''baseline restorer'' input) (\<lambda>(br, input).
    bindE (ReadU16 ''reset time'' input) (\<lambda>(rt, input).
    bindE (ReadU16 ''signal rise time'' input) (\<lambda>(sr, input).
    bindE (ReadU16 ''pre-samples'' input) (\<lambda>(ps, input).
    bindE (ReadU16 ''total samples'' input) (\<lambda>(ts, input).
    bindE (ReadU16 ''sample configuration'' input) (\<lambda>(sc, input).
    Inr (\<lparr>quad = q, timingFilter = tf, poleZero = pz, gain = g, thresholds = th, shapingTime = st,
          baselineRestorer = br, resetTime = rt, signalRiseTime = sr, preSamples = ps, totalSamples = ts,
          sampleConfiguration = sc\<rparr>, input))))))))))))))"

fun ReadQuads :: "nat \<Rightarrow> string \<Rightarrow> token_error + Fw2051ScpQuadConfiguration list \<times> string" where
  "ReadQuads 0 input = Inr ([], input)"
| "ReadQuads (Suc n) input =
    bindE (ReadQuad input) (\<lambda>(q, input). bindE (ReadQuads n input) (\<lambda>(qs, input). Inr (q # qs, input)))"

definition profile_text :: "Fw2051ScpConfigurationSnapshot \<Rightarrow> u64 \<Rightarrow> string" where
  "profile_text c checksum =
     ''MWW_SCP_PROFILE'' @ put_number Fw2051ScpProfileFormatVersion @ newline
   @ ''GLOBAL'' @ put_number (baseAddress c) @ put_number (hardwareId c) @ put_number (firmwareRevision c)
   @ put_number (irqLevel c) @ put_number (outputFormat c) @ newline
   @ concat (map WriteQuad (quads c))
   @ ''CHECKSUM'' @ put_number checksum @ newline
   @ ''END'' @ newline"

definition SerializeFw2051ScpProfile :: "Fw2051ScpConfigurationSnapshot \<Rightarrow> snapshot_error + string" where
  "SerializeFw2051ScpProfile c =
    (case ValidateFw2051ScpConfiguration c of
       Some e \<Rightarrow> Inl e
     | None \<Rightarrow> Inr (profile_text c (ComputeFw2051ScpProfileChecksum c)))"

datatype profile_error =
    InvalidProfileText token_error
  | UnsupportedProfileVersion u32
  | ChecksumMismatch
  | TrailingToken string
  | InvalidProfileConfiguration snapshot_error

definition text_step :: "token_error + 'a \<Rightarrow> ('a \<Rightarrow> profile_error + 'b) \<Rightarrow> profile_error + 'b" where
  "text_step m f = bindE (map_sum InvalidProfileText id m) f"

definition ParseFw2051ScpProfile :: "string \<Rightarrow> profile_error + ScpProfile" where
  "ParseFw2051ScpProfile text =
    text_step (ExpectToken ''MWW_SCP_PROFILE'' text) (\<lambda>input.
    text_step (ReadU32 ''profile version'' input) (\<lambda>(version, input).
    if version \<noteq> Fw2051ScpProfileFormatVersion then Inl (UnsupportedProfileVersion version) else
    text_step (ExpectToken ''GLOBAL'' input) (\<lambda>input.
    text_step (ReadU32 ''VME base'' input) (\<lambda>(base, input).
    text_step (ReadU16 ''hardware ID'' input) (\<lambda>(hw, input).
    text_step (ReadU16 ''firmware revision'' input) (\<lambda>(fw, input).
    text_step (ReadU16 ''IRQ level'' input) (\<lambda>(irq, input).
    text_step (ReadU16 ''output format'' input) (\<lambda>(fmt, input).
    text_step (ReadQuads Fw2051ScpQuadCount input) (\<lambda>(qs, input).
    let c = default_snapshot\<lparr>state := Complete, selectorParkedAtQuadZero := True, baseAddress := base,
              hardwareId := hw, firmwareRevision := fw, irqLevel := irq, outputFormat := fmt, quads := qs\<rparr> in
    text_step (ExpectToken ''CHECKSUM'' input) (\<lambda>input.
    text_step (ReadU64 ''profile checksum'' input) (\<lambda>(storedChecksum, input).
    if storedChecksum \<noteq> ComputeFw2051ScpProfileChecksum c then Inl ChecksumMismatch else
    text_step (ExpectToken ''END'' input) (\<lambda>input.
    case read_token input of
      Some (trailing, _) \<Rightarrow> Inl (TrailingToken trailing)
    | None \<Rightarrow>
    (case ValidateFw2051ScpConfiguration c of
       Some e \<Rightarrow> Inl (InvalidProfileConfiguration e)
     | None \<Rightarrow> Inr \<lparr>formatVersion = version,
         configuration = c\<lparr>message := ''Loaded from SCP profile text.''\<rparr>\<rparr>)))))))))))))"

subsection \<open>Reading back what was written\<close>

lemma ReadUnsigned_number:
  assumes "n \<le> maximum" "maximum < 2 ^ 64" "is_space c"
  shows "ReadUnsigned maximum f (CHR '' '' # decimal n @ c # s) = Inr (n, c # s)"
proof -
  have "is_space (CHR '' '')" by (simp add: is_space_def)
  with assms show ?thesis
    by (simp add: ReadUnsigned_def read_token_space read_token_word from_chars10_decimal)
qed

lemma unat_max: "unat (w :: 'a::len word) \<le> 2 ^ LENGTH('a) - 1"
proof -
  have "unat w < 2 ^ LENGTH('a)" by (rule unsigned_less)
  then show ?thesis by linarith
qed

lemma Read_put_number:
  assumes "is_space c"
  shows "ReadU16 f (put_number v @ c # s) = Inr (v, c # s)"
    and "ReadU32 f (put_number v32 @ c # s) = Inr (v32, c # s)"
    and "ReadU64 f (put_number v64 @ c # s) = Inr (v64, c # s)"
  using assms unat_max [of v] unat_max [of v32] unat_max [of v64]
  by (simp_all add: ReadU16_def ReadU32_def ReadU64_def put_number_def ReadUnsigned_number)

lemma put_number_space: "\<exists>c t. put_number v = c # t \<and> is_space c"
  by (simp add: put_number_def is_space_def)

text \<open>What may follow a number so that it is read as written: white space.\<close>

definition spaced :: "string \<Rightarrow> bool" where
  "spaced s \<longleftrightarrow> (\<exists>c t. s = c # t \<and> is_space c)"

lemma spaced_simps [simp]: "spaced (put_number v @ s)" "spaced (newline @ s)"
  by (auto simp: spaced_def put_number_def newline_def is_space_def)

lemma spaced_newline [simp]: "spaced newline"
  by (simp add: spaced_def newline_def is_space_def)

lemma Read_spaced [simp]:
  "spaced s \<Longrightarrow> ReadU16 f (put_number v @ s) = Inr (v, s)"
  "spaced s \<Longrightarrow> ReadU32 f (put_number v32 @ s) = Inr (v32, s)"
  "spaced s \<Longrightarrow> ReadU64 f (put_number v64 @ s) = Inr (v64, s)"
  by (auto simp: spaced_def Read_put_number)

lemma spaced_numbers [simp]: "spaced s \<Longrightarrow> spaced (concat (map put_number vs) @ s)"
  by (cases vs) simp_all

lemma ReadMany_numbers [simp]:
  "spaced s \<Longrightarrow> length vs = n \<Longrightarrow> ReadMany n f (concat (map put_number vs) @ s) = Inr (vs, s)"
proof (induction n arbitrary: vs)
  case (Suc n)
  then show ?case by (cases vs) simp_all
qed simp

lemma ExpectToken_word:
  "is_word t \<Longrightarrow> spaced s \<Longrightarrow> ExpectToken t (t @ s) = Inr s"
  by (auto simp: spaced_def ExpectToken_def read_token_word)

lemma ExpectToken_newline:
  "is_word t \<Longrightarrow> spaced s \<Longrightarrow> ExpectToken t (newline @ t @ s) = Inr s"
  by (auto simp: spaced_def newline_def ExpectToken_def read_token_word read_token_space is_space_def)

lemma keyword_words [simp]:
  "is_word ''MWW_SCP_PROFILE''" "is_word ''GLOBAL''" "is_word ''QUAD''" "is_word ''CHECKSUM''" "is_word ''END''"
  by (simp_all add: is_word_def is_space_def)

lemma spaced_writequads: "spaced (newline @ s)" by simp

lemma ReadQuad_WriteQuad:
  assumes "quad_wf q"
  shows "ReadQuad (newline @ WriteQuad q @ s) = Inr (q, newline @ s)"
  using assms
  by (simp add: ReadQuad_def WriteQuad_def quad_wf_def ExpectToken_newline del: append_Cons)

lemma ReadQuads_WriteQuads:
  "list_all quad_wf qs \<Longrightarrow> ReadQuads (length qs) (newline @ concat (map WriteQuad qs) @ s) = Inr (qs, newline @ s)"
  by (induction qs) (simp_all add: ReadQuad_WriteQuad)

lemma Parse_profile_text:
  assumes wf: "snapshot_wf c" and valid: "ValidateFw2051ScpConfiguration c = None"
  shows "ParseFw2051ScpProfile (profile_text c checksum) =
    (if checksum \<noteq> ComputeFw2051ScpProfileChecksum c then Inl ChecksumMismatch
     else Inr \<lparr>formatVersion = Fw2051ScpProfileFormatVersion,
       configuration = c\<lparr>message := ''Loaded from SCP profile text.'', selectorWrites := []\<rparr>\<rparr>)"
proof -
  let ?r = "default_snapshot\<lparr>state := Complete, selectorParkedAtQuadZero := True, baseAddress := baseAddress c,
      hardwareId := hardwareId c, firmwareRevision := firmwareRevision c, irqLevel := irqLevel c,
      outputFormat := outputFormat c, quads := quads c\<rparr>"
  have sum: "ComputeFw2051ScpProfileChecksum ?r = ComputeFw2051ScpProfileChecksum c"
    by (simp add: ComputeFw2051ScpProfileChecksum_def configuration_hash_values_def)
  have ok: "ValidateFw2051ScpConfiguration ?r = None"
    using valid by (simp add: validate_ok_iff)
  have same: "?r\<lparr>message := m\<rparr> = c\<lparr>message := m, selectorWrites := []\<rparr>" for m
    using valid by (simp add: validate_ok_iff default_snapshot_def)
  have len: "length (quads c) = Fw2051ScpQuadCount"
    using valid by (simp add: validate_ok_iff scp_counts)
  have quads: "ReadQuads Fw2051ScpQuadCount (newline @ concat (map WriteQuad (quads c)) @ s) = Inr (quads c, newline @ s)" for s
    using ReadQuads_WriteQuads [of "quads c" s] wf len by (simp add: snapshot_wf_def)
  have trail: "read_token newline = None"
    by (rule read_token_end) (simp add: newline_def is_space_def)
  show ?thesis
    using sum ok same
    by (simp add: ParseFw2051ScpProfile_def profile_text_def text_step_def ExpectToken_word ExpectToken_newline
        quads trail del: append_Cons)
qed

lemma quad_hash_put:
  assumes "quad_wf q" "r \<in> set fw2051_registers" "Fw2051ScpQuadRegisterValue q r = Some w"
  shows "\<exists>pre post. quad_hash_values q = pre @ ucast w # post
    \<and> quad_hash_values (snd (SetFw2051ScpQuadRegisterValue q r v)) = pre @ ucast v # post"
proof -
  obtain a b c d where pz: "poleZero q = [a, b, c, d]" using assms(1) by (auto simp: quad_wf_def length_Suc_conv numeral_eq_Suc)
  obtain a' b' c' d' where th: "thresholds q = [a', b', c', d']" using assms(1) by (auto simp: quad_wf_def length_Suc_conv numeral_eq_Suc)
  define k where "k = length (takeWhile (\<lambda>x. x \<noteq> r) fw2051_registers)"
  let ?vs = "quad_hash_values q" let ?vs' = "quad_hash_values (snd (SetFw2051ScpQuadRegisterValue q r v))"
  have "Suc k < length ?vs \<and> ?vs ! Suc k = ucast w \<and> ?vs' = ?vs[Suc k := ucast v]"
    using assms(2,3) unfolding fw2051_registers_eq k_def
    by (auto simp: quad_hash_values_def Fw2051ScpQuadRegisterValue_def SetFw2051ScpQuadRegisterValue_def pz th)
  then have "?vs = take (Suc k) ?vs @ ucast w # drop (Suc (Suc k)) ?vs" "?vs' = take (Suc k) ?vs @ ucast v # drop (Suc (Suc k)) ?vs"
    by (metis id_take_nth_drop, metis upd_conv_take_nth_drop)
  then show ?thesis by blast
qed

subsection \<open>The properties of saved profiles\<close>

text \<open>
  (C31) Writing a valid configuration as a profile and reading the text back gives the same
  configuration, up to the message and the selector log, which a file does not hold.
\<close>
theorem profile_text_round_trip:
  assumes "snapshot_wf c" "SerializeFw2051ScpProfile c = Inr t"
  shows "ParseFw2051ScpProfile t = Inr \<lparr>formatVersion = Fw2051ScpProfileFormatVersion,
    configuration = c\<lparr>message := ''Loaded from SCP profile text.'', selectorWrites := []\<rparr>\<rparr>"
  using assms by (auto simp: SerializeFw2051ScpProfile_def Parse_profile_text split: option.splits)

theorem profile_text_round_trip_witness:
  "\<exists>t. SerializeFw2051ScpProfile sample_target = Inr t
     \<and> ParseFw2051ScpProfile t = Inr \<lparr>formatVersion = Fw2051ScpProfileFormatVersion,
       configuration = sample_target\<lparr>message := ''Loaded from SCP profile text.'', selectorWrites := []\<rparr>\<rparr>"
proof -
  have "SerializeFw2051ScpProfile sample_target = Inr (profile_text sample_target (ComputeFw2051ScpProfileChecksum sample_target))"
    using sample_target_valid by (simp add: SerializeFw2051ScpProfile_def)
  then show ?thesis using profile_text_round_trip [OF sample_wf(2)] by blast
qed

text \<open>
  (C32) A profile file in which the value of one 16-bit register of one quad was altered, and
  the stored checksum left as it was, is rejected with the checksum error: FNV-1a as the
  program uses it never collides on a single altered register.
\<close>
theorem altered_register_rejected:
  assumes "snapshot_wf c" "ValidateFw2051ScpConfiguration c = None"
    and "i < length (quads c)" "r \<in> set fw2051_registers"
    and "Fw2051ScpQuadRegisterValue (quads c ! i) r \<noteq> Some v"
  defines "c' \<equiv> c\<lparr>quads := (quads c)[i := snd (SetFw2051ScpQuadRegisterValue (quads c ! i) r v)]\<rparr>"
  shows "ParseFw2051ScpProfile (profile_text c' (ComputeFw2051ScpProfileChecksum c)) = Inl ChecksumMismatch"
proof -
  let ?q = "quads c ! i" let ?q' = "snd (SetFw2051ScpQuadRegisterValue (quads c ! i) r v)"
  have wfq: "quad_wf ?q" using assms(1,3) by (rule snapshot_wf_nth)
  obtain w where w: "Fw2051ScpQuadRegisterValue ?q r = Some w" using quad_register_mapped [of ?q r] assms(4) by auto
  have split: "quads c = take i (quads c) @ ?q # drop (Suc i) (quads c)"
    using assms(3) by (simp add: id_take_nth_drop)
  have split': "quads c' = take i (quads c) @ ?q' # drop (Suc i) (quads c)"
    using assms(3) by (simp add: c'_def upd_conv_take_nth_drop)
  obtain pre post where vals: "quad_hash_values ?q = pre @ ucast w # post" "quad_hash_values ?q' = pre @ ucast v # post"
    using quad_hash_put [OF wfq assms(4) w] by blast
  have "ComputeFw2051ScpProfileChecksum c \<noteq> ComputeFw2051ScpProfileChecksum c'"
  proof (rule checksum_separates)
    let ?head = "[Fw2051ScpProfileFormatVersion, baseAddress c, ucast (hardwareId c), ucast (firmwareRevision c),
        ucast (irqLevel c), ucast (outputFormat c)] @ concat (map quad_hash_values (take i (quads c))) @ pre"
    let ?tail = "post @ concat (map quad_hash_values (drop (Suc i) (quads c)))"
    show "configuration_hash_values c = ?head @ ucast w # ?tail"
      by (subst configuration_hash_values_def, subst split) (simp add: vals)
    show "configuration_hash_values c' = ?head @ ucast v # ?tail"
      unfolding configuration_hash_values_def split' by (simp add: vals) (simp add: c'_def)
    show "w \<noteq> v" using w assms(5) by auto
  qed
  moreover have "snapshot_wf c'"
    using assms(1,3) wfq by (auto simp: snapshot_wf_def c'_def list_all_length nth_list_update set_register_wf)
  moreover have "ValidateFw2051ScpConfiguration c' = None"
    using assms(2,3) by (cases "i < 8") (auto simp: validate_ok_iff c'_def nth_list_update set_register_quad)
  ultimately show ?thesis by (simp add: Parse_profile_text)
qed

theorem altered_register_rejected_witness:
  "ParseFw2051ScpProfile (profile_text (sample_live\<lparr>quads := (quads sample_live)[2 :=
      snd (SetFw2051ScpQuadRegisterValue (quads sample_live ! 2) 0x611A 201)]\<rparr>)
    (ComputeFw2051ScpProfileChecksum sample_live)) = Inl ChecksumMismatch"
proof -
  have "2 < length (quads sample_live)" by (simp add: sample_live_def)
  moreover have "0x611A \<in> set fw2051_registers" by (simp add: fw2051_registers_eq)
  moreover have "Fw2051ScpQuadRegisterValue (quads sample_live ! 2) 0x611A \<noteq> Some 201" by code_simp
  ultimately show ?thesis by (rule altered_register_rejected [OF sample_wf(1) sample_live_valid])
qed

text \<open>
  Comparing a profile with a live snapshot: the result is comparable exactly for two
  valid configurations of the supported format, every one of the 141 values is then
  compared, and no difference is reported exactly when base, identity, interrupt level,
  output format and all eight quads agree.
\<close>
theorem comparison_exact:
  assumes "snapshot_wf (configuration profile)" "snapshot_wf live"
    and "formatVersion profile = Fw2051ScpProfileFormatVersion"
    and "ValidateFw2051ScpConfiguration (configuration profile) = None" "ValidateFw2051ScpConfiguration live = None"
  defines "cmp \<equiv> CompareFw2051ScpConfiguration profile live"
  shows "comparable cmp \<and> valuesCompared cmp = Fw2051ScpConfigurationValueCount
    \<and> (differences cmp = [] \<longleftrightarrow>
       baseAddress (configuration profile) = baseAddress live \<and> hardwareId (configuration profile) = hardwareId live
       \<and> firmwareRevision (configuration profile) = firmwareRevision live \<and> irqLevel (configuration profile) = irqLevel live
       \<and> outputFormat (configuration profile) = outputFormat live \<and> quads (configuration profile) = quads live)"
proof -
  have "banked_differences 0 (quads (configuration profile)) (quads live) = []
      \<longleftrightarrow> quads (configuration profile) = quads live"
    using assms by (intro banked_differences_Nil) (auto simp: snapshot_wf_def valid_quad_numbers validate_ok_iff)
  with compare_eq [OF assms(3,4,5)] show ?thesis
    by (simp add: cmp_def configuration_value_count global_differences_Nil)
qed

theorem comparison_exact_witness:
  "valuesCompared (CompareFw2051ScpConfiguration sample_profile sample_live) = Fw2051ScpConfigurationValueCount
   \<and> differences (CompareFw2051ScpConfiguration sample_profile sample_live) \<noteq> []"
  using comparison_exact [of sample_profile sample_live] sample_wf sample_live_valid sample_target_valid sample_moves
  by (simp add: sample_profile_def)

end
