(* ===== verification/Vme_Protocol.thy ===== *)
theory Vme_Protocol
  imports Fidget_Prelude "HOL-Library.Monad_Syntax"
begin

text \<open>
  The MVLC command protocol of \<^verbatim>\<open>core/VmeProtocol.cpp\<close>: the little-endian word codec, the
  requests for stack uploads and local registers, and the parsers of what comes back.
  A parser receives a pointer and a size; here it receives the buffer the pointer leads
  into and the size, every load is an \<open>option\<close> and \<open>None\<close> is a read outside the
  buffer, so that a parser's result being \<open>Some\<close> is memory safety. The error texts are
  the constructors of \<open>mvlc_error\<close>.
\<close>

subsection \<open>Constants\<close>

definition MvlcCommandBufferStart :: u32 where "MvlcCommandBufferStart = 0xF1000000"
definition MvlcCommandBufferEnd :: u32 where "MvlcCommandBufferEnd = 0xF2000000"
definition MvlcReferenceWordCommand :: u32 where "MvlcReferenceWordCommand = 0x01010000"
definition MvlcReadLocalCommand :: u32 where "MvlcReadLocalCommand = 0x01020000"
definition MvlcWriteLocalCommand :: u32 where "MvlcWriteLocalCommand = 0x02040000"
definition MvlcStackStartCommand :: u32 where "MvlcStackStartCommand = 0xF3000000"
definition MvlcStackEndCommand :: u32 where "MvlcStackEndCommand = 0xF4000000"
definition MvlcWriteMarkerCommand :: u32 where "MvlcWriteMarkerCommand = 0xC2000000"
definition MvlcVmeReadA32D16Command :: u32 where "MvlcVmeReadA32D16Command = 0x12090001"
definition MvlcVmeWriteA32D16Command :: u32 where "MvlcVmeWriteA32D16Command = 0x23090001"
definition MvlcStack0TriggerRegister :: u16 where "MvlcStack0TriggerRegister = 0x1100"
definition MvlcStack0OffsetRegister :: u16 where "MvlcStack0OffsetRegister = 0x1200"
definition MvlcStackExecutionStatus0 :: u16 where "MvlcStackExecutionStatus0 = 0x1400"
definition MvlcStackExecutionStatus1 :: u16 where "MvlcStackExecutionStatus1 = 0x1404"
definition MvlcStackMemoryBegin :: u16 where "MvlcStackMemoryBegin = 0x2000"
definition MvlcImmediateStackOffset :: u16 where "MvlcImmediateStackOffset = 4"
definition MvlcImmediateTrigger :: u32 where "MvlcImmediateTrigger = push_bit 8 1"
definition MvlcLocalAddressIncrement :: u16 where "MvlcLocalAddressIncrement = 4"
definition MvlcSuperFrameType :: u8 where "MvlcSuperFrameType = 0xF1"
definition MvlcStackFrameType :: u8 where "MvlcStackFrameType = 0xF3"
definition MvlcStackErrorFrameType :: u8 where "MvlcStackErrorFrameType = 0xF7"
definition MvlcTimeoutFlag :: u8 where "MvlcTimeoutFlag = push_bit 0 1"
definition MvlcBusErrorFlag :: u8 where "MvlcBusErrorFlag = push_bit 1 1"
definition MvlcSyntaxErrorFlag :: u8 where "MvlcSyntaxErrorFlag = push_bit 2 1"

definition EthernetHeaderWords :: nat where "EthernetHeaderWords = 2"
definition MaximumCommandPipePacketChannel :: u32 where "MaximumCommandPipePacketChannel = 1"

subsection \<open>Data\<close>

datatype mvlc_error =
    NoLocalRegistersRequested
  | NoLocalWritesRequested
  | MalformedEthernetPacket
  | InvalidCommandPipeHeader
  | TruncatedResponseFrame
  | TransientStackRejected
  | ImmediateTriggerRejected
  | LocalTransactionRejected
  | CommandStackError
  | VmeDeviceDidNotRespond
  | VmeBusError
  | CommandStackSyntaxError
  | UnexpectedReadResponseSize
  | UnexpectedWriteResponseSize

record MvlcLocalRegisterWrite =
  lw_address :: u16
  lw_value :: u32

record MvlcFrame =
  f_type :: u8
  f_flags :: u8
  f_words :: "u32 list"

record MvlcCommandPacketParseResult =
  cp_success :: bool
  cp_frames :: "MvlcFrame list"
  cp_error :: "mvlc_error option"

datatype MvlcLocalReadReplyStatus = Match | NoMatch | Malformed

record MvlcLocalReadReply =
  lr_status :: MvlcLocalReadReplyStatus
  lr_value :: u32

record MvlcLocalBatchReadReply =
  br_status :: MvlcLocalReadReplyStatus
  br_values :: "u32 list"

record MvlcFrameValidationResult =
  fv_matches :: bool
  fv_success :: bool
  fv_error :: "mvlc_error option"

definition unrelated_frame :: MvlcFrameValidationResult where
  "unrelated_frame = \<lparr>fv_matches = False, fv_success = False, fv_error = None\<rparr>"

definition accepted_frame :: MvlcFrameValidationResult where
  "accepted_frame = \<lparr>fv_matches = True, fv_success = True, fv_error = None\<rparr>"

definition rejected_frame :: "mvlc_error \<Rightarrow> MvlcFrameValidationResult" where
  "rejected_frame e = \<lparr>fv_matches = True, fv_success = False, fv_error = Some e\<rparr>"

subsection \<open>Words on the wire\<close>

definition StoreLittleEndian32 :: "u32 \<Rightarrow> byte list" where
  "StoreLittleEndian32 v = [ucast (v AND 0xFF), ucast (drop_bit 8 v AND 0xFF),
     ucast (drop_bit 16 v AND 0xFF), ucast (drop_bit 24 v AND 0xFF)]"

definition LoadLittleEndian32 :: "byte list \<Rightarrow> nat \<Rightarrow> u32 option" where
  "LoadLittleEndian32 buffer source = do {
     b0 \<leftarrow> byte_at buffer source;
     b1 \<leftarrow> byte_at buffer (source + 1);
     b2 \<leftarrow> byte_at buffer (source + 2);
     b3 \<leftarrow> byte_at buffer (source + 3);
     Some (ucast b0 OR push_bit 8 (ucast b1) OR push_bit 16 (ucast b2) OR push_bit 24 (ucast b3))
   }"

definition EncodeMvlcWordsLittleEndian :: "u32 list \<Rightarrow> byte list" where
  "EncodeMvlcWordsLittleEndian words = concat (map StoreLittleEndian32 words)"

subsection \<open>Requests\<close>

definition EncodeMvlcVmeReadD16Words :: "u32 \<Rightarrow> u32 list" where
  "EncodeMvlcVmeReadD16Words address = [MvlcVmeReadA32D16Command, address]"

definition EncodeMvlcVmeWriteD16Words :: "u32 \<Rightarrow> u16 \<Rightarrow> u32 list" where
  "EncodeMvlcVmeWriteD16Words address v = [MvlcVmeWriteA32D16Command, address, ucast v]"

definition AppendWriteLocal :: "u32 list \<Rightarrow> u16 \<Rightarrow> u32 \<Rightarrow> u32 list" where
  "AppendWriteLocal request address v = request @ [MvlcWriteLocalCommand OR ucast address, v]"

fun append_operations :: "u32 list \<Rightarrow> u16 \<Rightarrow> u32 list \<Rightarrow> u32 list \<times> u16" where
  "append_operations request writeAddress [] = (request, writeAddress)"
| "append_operations request writeAddress (w # ws) =
     append_operations (AppendWriteLocal request writeAddress w) (writeAddress + MvlcLocalAddressIncrement) ws"

definition BuildMvlcStackUploadRequest :: "u16 \<Rightarrow> u32 \<Rightarrow> u32 list \<Rightarrow> u32 list" where
  "BuildMvlcStackUploadRequest superReference stackReference operationWords =
    (let request = [MvlcCommandBufferStart, MvlcReferenceWordCommand OR ucast superReference];
         writeAddress = MvlcStackMemoryBegin + MvlcImmediateStackOffset;
         request = AppendWriteLocal request writeAddress MvlcStackStartCommand;
         writeAddress = writeAddress + MvlcLocalAddressIncrement;
         request = AppendWriteLocal request writeAddress MvlcWriteMarkerCommand;
         writeAddress = writeAddress + MvlcLocalAddressIncrement;
         request = AppendWriteLocal request writeAddress stackReference;
         writeAddress = writeAddress + MvlcLocalAddressIncrement;
         (request, writeAddress) = append_operations request writeAddress operationWords;
         request = AppendWriteLocal request writeAddress MvlcStackEndCommand
     in request @ [MvlcCommandBufferEnd])"

definition BuildMvlcStackExecuteRequest :: "u16 \<Rightarrow> u32 list" where
  "BuildMvlcStackExecuteRequest superReference =
    (let request = [MvlcCommandBufferStart, MvlcReferenceWordCommand OR ucast superReference];
         request = AppendWriteLocal request MvlcStackExecutionStatus0 0;
         request = AppendWriteLocal request MvlcStackExecutionStatus1 0;
         request = AppendWriteLocal request MvlcStack0OffsetRegister (ucast MvlcImmediateStackOffset);
         request = AppendWriteLocal request MvlcStack0TriggerRegister MvlcImmediateTrigger
     in request @ [MvlcCommandBufferEnd])"

definition BuildMvlcLocalRegisterReadRequest :: "u16 \<Rightarrow> u16 \<Rightarrow> u32 list" where
  "BuildMvlcLocalRegisterReadRequest reference address =
    [MvlcCommandBufferStart, MvlcReferenceWordCommand OR ucast reference, MvlcReadLocalCommand OR ucast address,
     MvlcCommandBufferEnd]"

definition BuildMvlcLocalRegisterBatchReadRequest :: "u16 \<Rightarrow> u16 list \<Rightarrow> mvlc_error + u32 list" where
  "BuildMvlcLocalRegisterBatchReadRequest reference addresses =
    (if addresses = [] then Inl NoLocalRegistersRequested
     else Inr ([MvlcCommandBufferStart, MvlcReferenceWordCommand OR ucast reference]
       @ map (\<lambda>a. MvlcReadLocalCommand OR ucast a) addresses @ [MvlcCommandBufferEnd]))"

definition BuildMvlcLocalRegisterWriteRequest :: "u16 \<Rightarrow> MvlcLocalRegisterWrite list \<Rightarrow> mvlc_error + u32 list" where
  "BuildMvlcLocalRegisterWriteRequest superReference writes =
    (if writes = [] then Inl NoLocalWritesRequested
     else Inr (foldl (\<lambda>request w. AppendWriteLocal request (lw_address w) (lw_value w))
         [MvlcCommandBufferStart, MvlcReferenceWordCommand OR ucast superReference] writes
       @ [MvlcCommandBufferEnd]))"

subsection \<open>The command-pipe packet\<close>

text \<open>The offset of payload word \<open>i\<close>: the payload starts after the two Ethernet header words.\<close>

definition payload_offset :: "nat \<Rightarrow> nat" where
  "payload_offset i = EthernetHeaderWords * 4 + i * 4"

text \<open>The fields of the first Ethernet header word and of a frame header.\<close>

definition header_magic :: "u32 \<Rightarrow> u32" where "header_magic header0 = drop_bit 30 header0 AND 0x3"
definition header_channel :: "u32 \<Rightarrow> u32" where "header_channel header0 = drop_bit 28 header0 AND 0x3"
definition header_words :: "u32 \<Rightarrow> nat" where "header_words header0 = unat (header0 AND 0x1FFF)"

definition frame_of :: "u32 list \<Rightarrow> MvlcFrame" where
  "frame_of ws = \<lparr>f_type = ucast (drop_bit 24 (hd ws)), f_flags = ucast (drop_bit 20 (hd ws) AND 0x0F), f_words = ws\<rparr>"

fun load_words :: "byte list \<Rightarrow> nat \<Rightarrow> nat \<Rightarrow> u32 list option" where
  "load_words packet i 0 = Some []"
| "load_words packet i (Suc n) = do {
     w \<leftarrow> LoadLittleEndian32 packet (payload_offset i);
     ws \<leftarrow> load_words packet (Suc i) n;
     Some (w # ws)
   }"

function parse_frames :: "byte list \<Rightarrow> nat \<Rightarrow> nat \<Rightarrow> MvlcFrame list \<Rightarrow> MvlcCommandPacketParseResult option" where
  "parse_frames packet payloadWords offset frames =
    (if offset < payloadWords then do {
       frameHeader \<leftarrow> LoadLittleEndian32 packet (payload_offset offset);
       let frameContents = header_words frameHeader;
       if offset + 1 + frameContents > payloadWords
       then Some \<lparr>cp_success = False, cp_frames = frames, cp_error = Some TruncatedResponseFrame\<rparr>
       else do {
         ws \<leftarrow> load_words packet offset (frameContents + 1);
         parse_frames packet payloadWords (offset + (frameContents + 1)) (frames @ [frame_of ws])
       }
     }
     else Some \<lparr>cp_success = True, cp_frames = frames, cp_error = None\<rparr>)"
  by pat_completeness auto
termination
  by (relation "measure (\<lambda>(packet, payloadWords, offset, frames). payloadWords - offset)") auto

definition ParseMvlcCommandPacket :: "byte list \<Rightarrow> nat \<Rightarrow> MvlcCommandPacketParseResult option" where
  "ParseMvlcCommandPacket packet packetSize =
    (if packetSize < (EthernetHeaderWords + 1) * 4 \<or> packetSize mod 4 \<noteq> 0
     then Some \<lparr>cp_success = False, cp_frames = [], cp_error = Some MalformedEthernetPacket\<rparr>
     else do {
       header0 \<leftarrow> LoadLittleEndian32 packet 0;
       let availableWords = packetSize div 4 - EthernetHeaderWords;
       if header_magic header0 \<noteq> 0 \<or> header_channel header0 > MaximumCommandPipePacketChannel
          \<or> header_words header0 > availableWords
       then Some \<lparr>cp_success = False, cp_frames = [], cp_error = Some InvalidCommandPipeHeader\<rparr>
       else parse_frames packet (header_words header0) 0 []
     })"

subsection \<open>Replies to local-register reads\<close>

function scan_read_reply :: "byte list \<Rightarrow> u32 \<Rightarrow> u32 \<Rightarrow> nat \<Rightarrow> nat \<Rightarrow> MvlcLocalReadReply option" where
  "scan_read_reply packet expectedReference expectedRead payloadWords offset =
    (if offset + 3 < payloadWords then do {
       frameHeader \<leftarrow> LoadLittleEndian32 packet (payload_offset offset);
       if drop_bit 24 frameHeader \<noteq> ucast MvlcSuperFrameType
       then scan_read_reply packet expectedReference expectedRead payloadWords (offset + 1)
       else if header_words frameHeader < 3 \<or> offset + 1 + header_words frameHeader > payloadWords
       then Some \<lparr>lr_status = Malformed, lr_value = 0\<rparr>
       else do {
         mirroredReference \<leftarrow> LoadLittleEndian32 packet (payload_offset (offset + 1));
         mirroredRead \<leftarrow> LoadLittleEndian32 packet (payload_offset (offset + 2));
         if mirroredReference \<noteq> expectedReference \<or> mirroredRead \<noteq> expectedRead
         then scan_read_reply packet expectedReference expectedRead payloadWords (offset + 1)
         else do {
           v \<leftarrow> LoadLittleEndian32 packet (payload_offset (offset + 3));
           Some \<lparr>lr_status = Match, lr_value = v\<rparr>
         }
       }
     }
     else Some \<lparr>lr_status = NoMatch, lr_value = 0\<rparr>)"
  by pat_completeness auto
termination
  by (relation "measure (\<lambda>(packet, a, b, payloadWords, offset). payloadWords - offset)") auto

definition ParseMvlcLocalRegisterReadReply :: "byte list \<Rightarrow> nat \<Rightarrow> u16 \<Rightarrow> u16 \<Rightarrow> MvlcLocalReadReply option" where
  "ParseMvlcLocalRegisterReadReply packet packetSize reference address =
    (if packetSize < (EthernetHeaderWords + 4) * 4 \<or> packetSize mod 4 \<noteq> 0
     then Some \<lparr>lr_status = Malformed, lr_value = 0\<rparr>
     else do {
       header0 \<leftarrow> LoadLittleEndian32 packet 0;
       let availableWords = packetSize div 4 - EthernetHeaderWords;
       if header_magic header0 \<noteq> 0 \<or> header_channel header0 \<noteq> 0 \<or> header_words header0 > availableWords
       then Some \<lparr>lr_status = Malformed, lr_value = 0\<rparr>
       else scan_read_reply packet (MvlcReferenceWordCommand OR ucast reference) (MvlcReadLocalCommand OR ucast address)
         (header_words header0) 0
     })"

text \<open>The loop over the requested addresses: \<open>Some None\<close> when a mirrored command differs.\<close>

fun read_batch_values :: "byte list \<Rightarrow> nat \<Rightarrow> u16 list \<Rightarrow> u32 list option option" where
  "read_batch_values packet commandOffset [] = Some (Some [])"
| "read_batch_values packet commandOffset (a # as) = do {
     mirroredRead \<leftarrow> LoadLittleEndian32 packet (payload_offset commandOffset);
     if mirroredRead \<noteq> MvlcReadLocalCommand OR ucast a then Some None
     else do {
       v \<leftarrow> LoadLittleEndian32 packet (payload_offset (commandOffset + 1));
       rest \<leftarrow> read_batch_values packet (commandOffset + 2) as;
       Some (map_option ((#) v) rest)
     }
   }"

function scan_batch_reply :: "byte list \<Rightarrow> u32 \<Rightarrow> u16 list \<Rightarrow> nat \<Rightarrow> nat \<Rightarrow> MvlcLocalBatchReadReply option" where
  "scan_batch_reply packet expectedReference addresses payloadWords offset =
    (if offset < payloadWords then do {
       frameHeader \<leftarrow> LoadLittleEndian32 packet (payload_offset offset);
       let frameContents = header_words frameHeader;
       if offset + 1 + frameContents > payloadWords then Some \<lparr>br_status = Malformed, br_values = []\<rparr>
       else if drop_bit 24 frameHeader = ucast MvlcSuperFrameType \<and> frameContents \<ge> 1
       then do {
         mirroredReference \<leftarrow> LoadLittleEndian32 packet (payload_offset (offset + 1));
         if mirroredReference = expectedReference
         then (if frameContents \<noteq> 1 + length addresses * 2 then Some \<lparr>br_status = Malformed, br_values = []\<rparr>
               else do {
                 vs \<leftarrow> read_batch_values packet (offset + 2) addresses;
                 Some (case vs of None \<Rightarrow> \<lparr>br_status = Malformed, br_values = []\<rparr>
                       | Some vs \<Rightarrow> \<lparr>br_status = Match, br_values = vs\<rparr>)
               })
         else scan_batch_reply packet expectedReference addresses payloadWords (offset + (frameContents + 1))
       }
       else scan_batch_reply packet expectedReference addresses payloadWords (offset + (frameContents + 1))
     }
     else Some \<lparr>br_status = NoMatch, br_values = []\<rparr>)"
  by pat_completeness auto
termination
  by (relation "measure (\<lambda>(packet, a, b, payloadWords, offset). payloadWords - offset)") auto

definition ParseMvlcLocalRegisterBatchReadReply ::
    "byte list \<Rightarrow> nat \<Rightarrow> u16 \<Rightarrow> u16 list \<Rightarrow> MvlcLocalBatchReadReply option" where
  "ParseMvlcLocalRegisterBatchReadReply packet packetSize reference addresses =
    (if packetSize < (EthernetHeaderWords + 2) * 4 \<or> packetSize mod 4 \<noteq> 0
     then Some \<lparr>br_status = Malformed, br_values = []\<rparr>
     else do {
       header0 \<leftarrow> LoadLittleEndian32 packet 0;
       let availableWords = packetSize div 4 - EthernetHeaderWords;
       if header_magic header0 \<noteq> 0 \<or> header_channel header0 > MaximumCommandPipePacketChannel
          \<or> header_words header0 > availableWords
       then Some \<lparr>br_status = Malformed, br_values = []\<rparr>
       else if header_channel header0 \<noteq> 0 then Some \<lparr>br_status = NoMatch, br_values = []\<rparr>
       else scan_batch_reply packet (MvlcReferenceWordCommand OR ucast reference) addresses (header_words header0) 0
     })"

subsection \<open>Validation of single frames\<close>

definition IsMatchingMvlcSuperFrame :: "MvlcFrame \<Rightarrow> u16 \<Rightarrow> bool" where
  "IsMatchingMvlcSuperFrame frame reference \<longleftrightarrow>
     f_type frame = MvlcSuperFrameType \<and> length (f_words frame) \<ge> 2
     \<and> f_words frame ! 1 = MvlcReferenceWordCommand OR ucast reference"

definition ValidateMatchingSuperFrame :: "MvlcFrame \<Rightarrow> u16 \<Rightarrow> mvlc_error \<Rightarrow> MvlcFrameValidationResult" where
  "ValidateMatchingSuperFrame frame reference syntaxError =
    (if \<not> IsMatchingMvlcSuperFrame frame reference then unrelated_frame
     else if f_flags frame AND MvlcSyntaxErrorFlag \<noteq> 0 then rejected_frame syntaxError
     else accepted_frame)"

definition ValidateMvlcStackUploadFrame :: "MvlcFrame \<Rightarrow> u16 \<Rightarrow> MvlcFrameValidationResult" where
  "ValidateMvlcStackUploadFrame frame reference = ValidateMatchingSuperFrame frame reference TransientStackRejected"

definition ValidateMvlcStackExecuteSuperFrame :: "MvlcFrame \<Rightarrow> u16 \<Rightarrow> MvlcFrameValidationResult" where
  "ValidateMvlcStackExecuteSuperFrame frame reference = ValidateMatchingSuperFrame frame reference ImmediateTriggerRejected"

definition ValidateMvlcStackExecutionFrame :: "MvlcFrame \<Rightarrow> u32 \<Rightarrow> MvlcFrameValidationResult" where
  "ValidateMvlcStackExecutionFrame frame stackReference =
    (if f_type frame = MvlcStackErrorFrameType then rejected_frame CommandStackError
     else if f_type frame \<noteq> MvlcStackFrameType \<or> length (f_words frame) < 2 \<or> f_words frame ! 1 \<noteq> stackReference
     then unrelated_frame
     else if f_flags frame AND MvlcTimeoutFlag \<noteq> 0 then rejected_frame VmeDeviceDidNotRespond
     else if f_flags frame AND MvlcBusErrorFlag \<noteq> 0 then rejected_frame VmeBusError
     else if f_flags frame AND MvlcSyntaxErrorFlag \<noteq> 0 then rejected_frame CommandStackSyntaxError
     else accepted_frame)"

definition ValidateMvlcLocalWriteFrame :: "MvlcFrame \<Rightarrow> u16 \<Rightarrow> MvlcFrameValidationResult" where
  "ValidateMvlcLocalWriteFrame frame reference = ValidateMatchingSuperFrame frame reference LocalTransactionRejected"

definition ParseMvlcVmeReadD16Reply :: "MvlcFrame \<Rightarrow> mvlc_error + u16" where
  "ParseMvlcVmeReadD16Reply stackFrame =
    (if length (f_words stackFrame) \<noteq> 3 then Inl UnexpectedReadResponseSize
     else Inr (ucast (f_words stackFrame ! 2 AND 0xFFFF)))"

definition ParseMvlcVmeWriteD16Reply :: "MvlcFrame \<Rightarrow> mvlc_error + unit" where
  "ParseMvlcVmeWriteD16Reply stackFrame =
    (if length (f_words stackFrame) \<noteq> 2 then Inl UnexpectedWriteResponseSize else Inr ())"

declare parse_frames.simps [simp del] scan_read_reply.simps [simp del] scan_batch_reply.simps [simp del]

subsection \<open>The word codec\<close>

lemma load_defined_iff: "(\<exists>w. LoadLittleEndian32 buf off = Some w) \<longleftrightarrow> off + 4 \<le> length buf"
  by (auto simp: LoadLittleEndian32_def byte_at_def)

interpretation le: word_codec StoreLittleEndian32 LoadLittleEndian32
proof unfold_locales
  fix w :: u32 and pre post buf :: "byte list" and off :: nat
  show "length (StoreLittleEndian32 w) = 4" by (simp add: StoreLittleEndian32_def)
  show "LoadLittleEndian32 (pre @ StoreLittleEndian32 w @ post) (length pre) = Some w"
    by (simp add: LoadLittleEndian32_def StoreLittleEndian32_def byte_at_def nth_append word_bytes_join)
  show "off + 4 \<le> length buf \<Longrightarrow> \<exists>w. LoadLittleEndian32 buf off = Some w" by (simp only: load_defined_iff)
  show "length buf < off + 4 \<Longrightarrow> LoadLittleEndian32 buf off = None"
    using load_defined_iff [of buf off] by (cases "LoadLittleEndian32 buf off") auto
  assume load: "LoadLittleEndian32 buf off = Some w"
  then have len: "off + 4 \<le> length buf" using load_defined_iff by blast
  then have bytes: "take 4 (drop off buf) = [buf ! off, buf ! (off + 1), buf ! (off + 2), buf ! (off + 3)]"
    by (intro nth_equalityI) (auto simp: nth_append less_Suc_eq numeral_eq_Suc)
  have w: "w = ucast (buf ! off) OR push_bit 8 (ucast (buf ! (off + 1))) OR push_bit 16 (ucast (buf ! (off + 2)))
      OR push_bit 24 (ucast (buf ! (off + 3)))"
    using load len by (simp add: LoadLittleEndian32_def)
  show "take 4 (drop off buf) = StoreLittleEndian32 w"
    unfolding bytes w by (simp only: StoreLittleEndian32_def word_bytes_split)
qed

lemma EncodeMvlcWordsLittleEndian_eq: "EncodeMvlcWordsLittleEndian ws = le.encode ws"
  by (simp add: EncodeMvlcWordsLittleEndian_def le.encode_def)

text \<open>
  A command packet as words: the packet is \<open>le.encode (h0 # h1 # ws)\<close>, possibly inside a
  larger receive buffer, and its payload word \<open>i\<close> is \<open>ws ! i\<close>.
\<close>

lemma load_payload:
  assumes "i < length ws"
  shows "LoadLittleEndian32 (le.encode (h0 # h1 # ws) @ slack) (payload_offset i) = Some (ws ! i)"
  using le.load_encode [of "Suc (Suc i)" "h0 # h1 # ws" "[]" slack] assms
  by (simp add: payload_offset_def EthernetHeaderWords_def mult.commute [of i])

lemma load_header: "LoadLittleEndian32 (le.encode (h0 # ws) @ slack) 0 = Some h0"
  using le.load_encode [of 0 "h0 # ws" "[]" slack] by simp

lemma load_words_payload:
  "i + n \<le> length ws \<Longrightarrow> load_words (le.encode (h0 # h1 # ws) @ slack) i n = Some (take n (drop i ws))"
proof (induction n arbitrary: i)
  case (Suc n)
  then show ?case by (simp add: load_payload Cons_nth_drop_Suc [symmetric] del: le.encode_simps)
qed simp

text \<open>Every packet buffer of sufficient size has this form.\<close>

lemma packet_words:
  assumes "packetSize \<le> length packet" "packetSize mod 4 = 0" "8 \<le> packetSize"
  obtains h0 h1 ws where "packet = le.encode (h0 # h1 # ws) @ drop packetSize packet" "packetSize div 4 = length ws + 2"
proof -
  have "length (take packetSize packet) = 4 * (packetSize div 4)" using assms by auto
  from le.aligned_is_encoding [OF this] obtain xs where xs: "take packetSize packet = le.encode xs" "length xs = packetSize div 4"
    by blast
  moreover have "2 \<le> length xs" using div_le_mono [OF assms(3), of 4] xs(2) by simp
  then obtain h0 h1 ws where "xs = h0 # h1 # ws" by (auto simp: numeral_eq_Suc Suc_le_length_iff)
  ultimately show ?thesis using that [of h0 h1 ws] by (metis append_take_drop_id length_Cons add_2_eq_Suc')
qed

subsection \<open>What the packet parser computes\<close>

text \<open>
  A payload is a sequence of frames, each a header word that counts the words after it.
  \<open>split_frames\<close> cuts a payload up that way; the flag tells whether it came out even.
\<close>

fun split_frames :: "u32 list \<Rightarrow> bool \<times> MvlcFrame list" where
  "split_frames [] = (True, [])"
| "split_frames (h # ws) =
    (if length ws < header_words h then (False, [])
     else (let (ok, fs) = split_frames (drop (header_words h) ws)
           in (ok, frame_of (h # take (header_words h) ws) # fs)))"

definition frame_wf :: "MvlcFrame \<Rightarrow> bool" where
  "frame_wf f \<longleftrightarrow> f_words f \<noteq> [] \<and> length (f_words f) = Suc (header_words (hd (f_words f))) \<and> f = frame_of (f_words f)"

lemma split_frames_sound: "split_frames ws = (True, fs) \<Longrightarrow> list_all frame_wf fs \<and> concat (map f_words fs) = ws"
proof (induction ws arbitrary: fs rule: split_frames.induct)
  case (2 h ws)
  then show ?case
    by (auto simp: frame_wf_def frame_of_def min_def split: if_splits prod.splits)
qed simp

lemma split_frames_complete: "list_all frame_wf fs \<Longrightarrow> split_frames (concat (map f_words fs)) = (True, fs)"
proof (induction fs)
  case (Cons f fs)
  then obtain h ws where ws: "f_words f = h # ws" "length ws = header_words h" "f = frame_of (h # ws)"
    by (cases "f_words f") (auto simp: frame_wf_def)
  with Cons show ?case by simp
qed simp

lemma parse_frames_eq:
  assumes "payloadWords \<le> length ws" "offset \<le> payloadWords"
  shows "parse_frames (le.encode (h0 # h1 # ws) @ slack) payloadWords offset frames
    = (case split_frames (drop offset (take payloadWords ws)) of (ok, fs) \<Rightarrow>
        Some \<lparr>cp_success = ok, cp_frames = frames @ fs, cp_error = (if ok then None else Some TruncatedResponseFrame)\<rparr>)"
  using assms
proof (induction "payloadWords - offset" arbitrary: offset frames rule: less_induct)
  case less
  let ?p = "take payloadWords ws"
  show ?case
  proof (cases "offset < payloadWords")
    case True
    let ?h = "ws ! offset"
    have drop: "drop offset ?p = ?h # drop (Suc offset) ?p"
      using True less.prems by (simp add: Cons_nth_drop_Suc [symmetric])
    have load: "LoadLittleEndian32 (le.encode (h0 # h1 # ws) @ slack) (payload_offset offset) = Some ?h"
      using True less.prems by (intro load_payload) simp
    show ?thesis
    proof (cases "offset + 1 + header_words ?h > payloadWords")
      case True
      then have "length (drop (Suc offset) ?p) < header_words ?h" using less.prems \<open>offset < payloadWords\<close> by simp
      with load True \<open>offset < payloadWords\<close> show ?thesis
        by (subst parse_frames.simps) (simp add: drop del: le.encode_simps)
    next
      case False
      let ?k = "header_words ?h" and ?P = "le.encode (h0 # h1 # ws) @ slack"
      have words: "load_words ?P offset (Suc ?k) = Some (?h # take ?k (drop (Suc offset) ?p))"
      proof -
        have "load_words ?P offset (Suc ?k) = Some (take (Suc ?k) (drop offset ws))"
          using False less.prems by (intro load_words_payload) simp
        also have "take (Suc ?k) (drop offset ws) = ?h # take ?k (drop (Suc offset) ?p)"
          using False True less.prems by (simp add: Cons_nth_drop_Suc [symmetric] drop_take min_def)
        finally show ?thesis .
      qed
      have step: "parse_frames ?P payloadWords offset frames
          = parse_frames ?P payloadWords (Suc (offset + ?k)) (frames @ [frame_of (?h # take ?k (drop (Suc offset) ?p))])"
        using False True by (subst parse_frames.simps) (simp add: load words Let_def del: le.encode_simps load_words.simps)
      have IH: "parse_frames ?P payloadWords (Suc (offset + ?k)) fs0
          = (case split_frames (drop (Suc (offset + ?k)) ?p) of (ok, fs) \<Rightarrow>
              Some \<lparr>cp_success = ok, cp_frames = fs0 @ fs, cp_error = (if ok then None else Some TruncatedResponseFrame)\<rparr>)" for fs0
        using False True less.prems by (intro less.hyps) auto
      have "drop ?k (drop (Suc offset) ?p) = drop (Suc (offset + ?k)) ?p" by (simp add: add.commute)
      moreover have "\<not> length (drop (Suc offset) ?p) < ?k" using False less.prems by simp
      ultimately show ?thesis
        unfolding step IH drop by (simp only: split_frames.simps if_False Let_def) (auto split: prod.split)
    qed
  qed (use less.prems in \<open>simp add: parse_frames.simps\<close>)
qed

lemma ParseMvlcCommandPacket_eq:
  assumes "ws \<noteq> []"
  shows "ParseMvlcCommandPacket (le.encode (h0 # h1 # ws) @ slack) (4 * (length ws + 2)) = Some
    (if header_magic h0 \<noteq> 0 \<or> header_channel h0 > 1 \<or> header_words h0 > length ws
     then \<lparr>cp_success = False, cp_frames = [], cp_error = Some InvalidCommandPipeHeader\<rparr>
     else (case split_frames (take (header_words h0) ws) of (ok, fs) \<Rightarrow>
       \<lparr>cp_success = ok, cp_frames = fs, cp_error = (if ok then None else Some TruncatedResponseFrame)\<rparr>))"
proof -
  have "length ws \<ge> 1" using assms by (cases ws) auto
  then show ?thesis
    using parse_frames_eq [of "header_words h0" ws 0 h0 h1 slack "[]"]
    by (auto simp: ParseMvlcCommandPacket_def load_header Let_def EthernetHeaderWords_def
        MaximumCommandPipePacketChannel_def simp del: le.encode_simps split: prod.splits)
qed

subsection \<open>The reply scanners\<close>

lemma scan_read_reply_safe:
  assumes "payloadWords \<le> length ws"
  shows "\<exists>r. scan_read_reply (le.encode (h0 # h1 # ws) @ slack) ref rd payloadWords offset = Some r
    \<and> (lr_status r = Match \<longrightarrow> (\<exists>i. i + 3 < payloadWords \<and> drop_bit 24 (ws ! i) = ucast MvlcSuperFrameType
         \<and> ws ! (i + 1) = ref \<and> ws ! (i + 2) = rd \<and> ws ! (i + 3) = lr_value r))"
proof (induction "payloadWords - offset" arbitrary: offset rule: less_induct)
  case less
  let ?P = "le.encode (h0 # h1 # ws) @ slack"
  show ?case
  proof (cases "offset + 3 < payloadWords")
    case True
    have load: "LoadLittleEndian32 ?P (payload_offset (offset + i)) = Some (ws ! (offset + i))" if "i \<le> 3" for i
      using True assms that by (intro load_payload) simp
    have IH: "\<exists>r. scan_read_reply ?P ref rd payloadWords (offset + 1) = Some r
      \<and> (lr_status r = Match \<longrightarrow> (\<exists>i. i + 3 < payloadWords \<and> drop_bit 24 (ws ! i) = ucast MvlcSuperFrameType
         \<and> ws ! (i + 1) = ref \<and> ws ! (i + 2) = rd \<and> ws ! (i + 3) = lr_value r))"
      using True by (intro less.hyps) auto
    show ?thesis
      using load [of 0] load [of 1] load [of 2] load [of 3] True IH
      by (subst scan_read_reply.simps) (auto simp del: le.encode_simps intro!: exI [of _ offset])
  qed (simp add: scan_read_reply.simps)
qed

lemma read_batch_values_eq:
  assumes "k + 2 * length as \<le> length ws"
  shows "read_batch_values (le.encode (h0 # h1 # ws) @ slack) k as = Some
    (if \<forall>i < length as. ws ! (k + 2 * i) = MvlcReadLocalCommand OR ucast (as ! i)
     then Some (map (\<lambda>i. ws ! (k + 2 * i + 1)) [0..<length as]) else None)"
  using assms
proof (induction as arbitrary: k)
  case (Cons a as)
  let ?P = "le.encode (h0 # h1 # ws) @ slack"
  have load: "LoadLittleEndian32 ?P (payload_offset k) = Some (ws ! k)"
      "LoadLittleEndian32 ?P (payload_offset (k + 1)) = Some (ws ! (k + 1))"
    using Cons.prems by (intro load_payload; simp)+
  have all: "(\<forall>i < Suc n. P i) \<longleftrightarrow> P 0 \<and> (\<forall>i < n. P (Suc i))" for P and n :: nat
    by (metis Suc_less_eq not0_implies_Suc zero_less_Suc)
  have upt: "[0..<Suc n] = 0 # map Suc [0..<n]" for n by (simp add: upt_conv_Cons map_Suc_upt del: upt_Suc)
  show ?case
    using load Cons.IH [of "k + 2"] Cons.prems
    by (auto simp: all upt comp_def simp del: le.encode_simps upt_Suc)
qed simp

text \<open>What the batch parser answers for the first frame that carries the reference.\<close>

definition batch_verdict :: "u16 list \<Rightarrow> MvlcFrame \<Rightarrow> MvlcLocalBatchReadReply" where
  "batch_verdict as f =
    (if length (f_words f) = 2 + 2 * length as
        \<and> (\<forall>i < length as. f_words f ! (2 + 2 * i) = MvlcReadLocalCommand OR ucast (as ! i))
     then \<lparr>br_status = Match, br_values = map (\<lambda>i. f_words f ! (3 + 2 * i)) [0..<length as]\<rparr>
     else \<lparr>br_status = Malformed, br_values = []\<rparr>)"

definition batch_reply_of :: "u16 \<Rightarrow> u16 list \<Rightarrow> MvlcFrame list \<Rightarrow> MvlcLocalBatchReadReply" where
  "batch_reply_of reference as fs =
    (case find (\<lambda>f. IsMatchingMvlcSuperFrame f reference) fs of
       None \<Rightarrow> \<lparr>br_status = NoMatch, br_values = []\<rparr> | Some f \<Rightarrow> batch_verdict as f)"

lemma top_byte: "(ucast (drop_bit 24 (h :: u32)) :: u8) = c \<longleftrightarrow> drop_bit 24 h = ucast c"
proof
  assume eq: "(ucast (drop_bit 24 h) :: u8) = c"
  show "drop_bit 24 h = ucast c"
  proof (rule bit_word_eqI)
    fix n assume "n < LENGTH(32)"
    then show "bit (drop_bit 24 h) n = bit (ucast c :: u32) n"
      using eq bit_imp_le_length [of h "24 + n"] by (cases "n < 8") (auto simp: bit_simps)
  qed
next
  assume eq: "drop_bit 24 h = ucast c"
  show "(ucast (drop_bit 24 h) :: u8) = c"
    unfolding eq by (rule bit_word_eqI) (auto simp: bit_simps)
qed

lemma frame_of_matching:
  "length t = header_words h \<Longrightarrow> IsMatchingMvlcSuperFrame (frame_of (h # t)) reference \<longleftrightarrow>
     drop_bit 24 h = ucast MvlcSuperFrameType \<and> header_words h \<ge> 1 \<and> t ! 0 = MvlcReferenceWordCommand OR ucast reference"
  by (auto simp: IsMatchingMvlcSuperFrame_def frame_of_def top_byte)

lemma batch_verdict_read:
  assumes "length t = header_words h" "drop (Suc offset) ws = t @ rest"
    and len: "header_words h = 1 + length as * 2"
  shows "(\<forall>i < length as. ws ! (offset + 2 + 2 * i) = MvlcReadLocalCommand OR ucast (as ! i))
      = (\<forall>i < length as. f_words (frame_of (h # t)) ! (2 + 2 * i) = MvlcReadLocalCommand OR ucast (as ! i))"
    and "map (\<lambda>i. ws ! (offset + 2 + 2 * i + 1)) [0..<length as] = map (\<lambda>i. f_words (frame_of (h # t)) ! (3 + 2 * i)) [0..<length as]"
proof -
  have at: "ws ! (offset + Suc k) = t ! k" if "k < length t" for k
  proof -
    have "drop (Suc offset) ws ! k = t ! k" using that by (simp add: assms(2) nth_append)
    moreover have "Suc offset + k < length ws" using that arg_cong [OF assms(2), of length] by simp
    ultimately show ?thesis by simp
  qed
  have odd: "ws ! (offset + 2 + 2 * i) = f_words (frame_of (h # t)) ! (2 + 2 * i)"
    and even: "ws ! (offset + 2 + 2 * i + 1) = f_words (frame_of (h # t)) ! (3 + 2 * i)" if "i < length as" for i
    using at [of "2 * i + 1"] at [of "2 * i + 2"] that assms(1) len by (simp_all add: frame_of_def numeral_3_eq_3)
  show "(\<forall>i < length as. ws ! (offset + 2 + 2 * i) = MvlcReadLocalCommand OR ucast (as ! i))
      = (\<forall>i < length as. f_words (frame_of (h # t)) ! (2 + 2 * i) = MvlcReadLocalCommand OR ucast (as ! i))"
    using odd by simp
  show "map (\<lambda>i. ws ! (offset + 2 + 2 * i + 1)) [0..<length as] = map (\<lambda>i. f_words (frame_of (h # t)) ! (3 + 2 * i)) [0..<length as]"
    using even by (intro map_cong) auto
qed

lemma read_batch_verdict:
  assumes t: "length t = header_words h" "drop (Suc offset) ws = t @ rest" and len: "header_words h = 1 + length as * 2"
  shows "(do { vs \<leftarrow> read_batch_values (le.encode (h0 # h1 # ws) @ slack) (offset + 2) as;
      Some (case vs of None \<Rightarrow> \<lparr>br_status = Malformed, br_values = []\<rparr> | Some vs \<Rightarrow> \<lparr>br_status = Match, br_values = vs\<rparr>) })
    = Some (batch_verdict as (frame_of (h # t)))"
proof -
  have "length ws - Suc offset = length t + length rest" using arg_cong [OF t(2), of length] by simp
  then have "offset + 2 + 2 * length as \<le> length ws" using t(1) len by linarith
  note read = read_batch_values_eq [OF this, of h0 h1 slack]
  have "length (f_words (frame_of (h # t))) = 2 + 2 * length as" using t(1) len by (simp add: frame_of_def)
  then show ?thesis
    unfolding read batch_verdict_read [OF t len] batch_verdict_def by simp
qed

text \<open>One frame of a payload: the words of the frame at \<open>offset\<close> and what follows it.\<close>

lemma split_frames_step:
  assumes "payloadWords \<le> length ws" "offset < payloadWords" "offset + 1 + header_words (ws ! offset) \<le> payloadWords"
  defines "k \<equiv> header_words (ws ! offset)"
  shows "split_frames (drop offset (take payloadWords ws)) =
    (let (ok, fs) = split_frames (drop (Suc (offset + k)) (take payloadWords ws))
     in (ok, frame_of (ws ! offset # take k (drop (Suc offset) ws)) # fs))"
proof -
  let ?p = "take payloadWords ws"
  have "drop offset ?p = ws ! offset # drop (Suc offset) ?p"
    using assms(1,2) by (simp add: Cons_nth_drop_Suc [symmetric])
  moreover have "take k (drop (Suc offset) ?p) = take k (drop (Suc offset) ws)"
    using assms(3) by (simp add: k_def drop_take min_def)
  moreover have "drop k (drop (Suc offset) ?p) = drop (Suc (offset + k)) ?p" by (simp add: add.commute)
  moreover have "\<not> length (drop (Suc offset) ?p) < k" using assms(1,3) by (simp add: k_def)
  ultimately show ?thesis by (simp only: split_frames.simps k_def [symmetric] if_False)
qed

lemma scan_batch_step:
  fixes h0 h1 :: u32 and reference :: u16 and slack :: "byte list"
  assumes "payloadWords \<le> length ws" "offset < payloadWords" "offset + 1 + header_words (ws ! offset) \<le> payloadWords"
  defines "P \<equiv> le.encode (h0 # h1 # ws) @ slack"
    and "k \<equiv> header_words (ws ! offset)"
    and "f \<equiv> frame_of (ws ! offset # take (header_words (ws ! offset)) (drop (Suc offset) ws))"
    and "ref \<equiv> MvlcReferenceWordCommand OR ucast reference"
  shows "scan_batch_reply P ref as payloadWords offset =
    (if IsMatchingMvlcSuperFrame f reference then Some (batch_verdict as f)
     else scan_batch_reply P ref as payloadWords (Suc (offset + k)))"
proof -
  let ?h = "ws ! offset" let ?t = "take k (drop (Suc offset) ws)"
  have t: "length ?t = header_words ?h" using assms(1,3) by (simp add: k_def)
  have rest: "drop (Suc offset) ws = ?t @ drop k (drop (Suc offset) ws)" by (rule append_take_drop_id [symmetric])
  have load: "LoadLittleEndian32 P (payload_offset offset) = Some ?h"
    unfolding P_def using assms(1,2) by (intro load_payload) simp
  have load1: "LoadLittleEndian32 P (payload_offset (Suc offset)) = Some (?t ! 0)" if "k \<ge> 1"
    unfolding P_def using that assms(1,3) load_payload [of "Suc offset" ws] by (simp add: k_def)
  note match = frame_of_matching [OF t, of reference, folded k_def ref_def]
  have f: "f = frame_of (?h # ?t)" by (simp add: f_def k_def)
  have ok: "\<not> payloadWords < Suc (offset + k)" using assms(3) by (simp add: k_def)
  show ?thesis
  proof (cases "IsMatchingMvlcSuperFrame f reference")
    case True
    then have m: "drop_bit 24 ?h = ucast MvlcSuperFrameType" "k \<ge> 1" "?t ! 0 = ref" by (auto simp: f match)
    have scan: "scan_batch_reply P ref as payloadWords offset =
        (if k \<noteq> 1 + length as * 2 then Some \<lparr>br_status = Malformed, br_values = []\<rparr>
         else do { vs \<leftarrow> read_batch_values P (offset + 2) as;
             Some (case vs of None \<Rightarrow> \<lparr>br_status = Malformed, br_values = []\<rparr> | Some vs \<Rightarrow> \<lparr>br_status = Match, br_values = vs\<rparr>) })"
      using load load1 m ok assms(2) by (subst scan_batch_reply.simps) (simp add: Let_def k_def [symmetric])
    show ?thesis
    proof (cases "k = 1 + length as * 2")
      case len: True
      have "header_words ?h = 1 + length as * 2" using len by (simp only: k_def)
      from read_batch_verdict [OF t rest this, of h0 h1 slack, folded P_def] len True
      show ?thesis unfolding scan f by simp
    qed (use scan True t in \<open>simp add: batch_verdict_def frame_of_def f k_def\<close>)
  next
    case False
    then have "\<not> (drop_bit 24 ?h = ucast MvlcSuperFrameType \<and> k \<ge> 1) \<or> ?t ! 0 \<noteq> ref" by (auto simp: f match)
    with False show ?thesis
      using load load1 ok assms(2) by (subst scan_batch_reply.simps) (auto simp: Let_def k_def [symmetric])
  qed
qed

lemma scan_batch_reply_eq:
  fixes h0 h1 :: u32 and slack :: "byte list"
  assumes "payloadWords \<le> length ws" "offset \<le> payloadWords"
  defines "P \<equiv> le.encode (h0 # h1 # ws) @ slack"
  shows "\<exists>r. scan_batch_reply P (MvlcReferenceWordCommand OR ucast reference) as payloadWords offset = Some r
    \<and> (fst (split_frames (drop offset (take payloadWords ws))) \<longrightarrow>
        r = batch_reply_of reference as (snd (split_frames (drop offset (take payloadWords ws)))))"
  using assms(1,2)
proof (induction "payloadWords - offset" arbitrary: offset rule: less_induct)
  case less
  let ?k = "header_words (ws ! offset)"
  consider "\<not> offset < payloadWords" | "offset < payloadWords" "offset + 1 + ?k > payloadWords"
    | "offset < payloadWords" "offset + 1 + ?k \<le> payloadWords" by linarith
  then show ?case
  proof cases
    case 1
    then show ?thesis by (simp add: scan_batch_reply.simps batch_reply_of_def)
  next
    case 2
    then have "drop offset (take payloadWords ws) = ws ! offset # drop (Suc offset) (take payloadWords ws)"
        "LoadLittleEndian32 P (payload_offset offset) = Some (ws ! offset)"
      unfolding P_def using less.prems
      by (simp add: Cons_nth_drop_Suc [symmetric], intro load_payload) simp
    with 2 less.prems show ?thesis by (subst scan_batch_reply.simps) (auto simp: Let_def)
  next
    case 3
    have IH: "\<exists>r. scan_batch_reply P (MvlcReferenceWordCommand OR ucast reference) as payloadWords (Suc (offset + ?k)) = Some r
        \<and> (fst (split_frames (drop (Suc (offset + ?k)) (take payloadWords ws))) \<longrightarrow>
           r = batch_reply_of reference as (snd (split_frames (drop (Suc (offset + ?k)) (take payloadWords ws)))))"
      using 3 less.prems by (intro less.hyps) auto
    show ?thesis
      using IH split_frames_step [OF less.prems(1) 3]
        scan_batch_step [OF less.prems(1) 3, of h0 h1 slack reference as, folded P_def]
      by (auto simp: batch_reply_of_def split: prod.splits)
  qed
qed

lemma batch_reply_frames:
  assumes "ParseMvlcCommandPacket (EncodeMvlcWordsLittleEndian (h0 # h1 # ws)) (4 * (length ws + 2))
      = Some \<lparr>cp_success = True, cp_frames = fs, cp_error = None\<rparr>"
    and "header_channel h0 = 0" "2 \<le> length ws"
  shows "ParseMvlcLocalRegisterBatchReadReply (EncodeMvlcWordsLittleEndian (h0 # h1 # ws)) (4 * (length ws + 2))
      reference addresses = Some (batch_reply_of reference addresses fs)"
proof -
  have ne: "ws \<noteq> []" using assms(3) by auto
  from assms(1) ParseMvlcCommandPacket_eq [OF ne, of h0 h1 "[]"]
  have h: "header_magic h0 = 0" "header_words h0 \<le> length ws" "split_frames (take (header_words h0) ws) = (True, fs)"
    by (auto simp: EncodeMvlcWordsLittleEndian_eq simp del: le.encode_simps split: prod.splits if_splits)
  then show ?thesis
    using assms(2,3) scan_batch_reply_eq [of "header_words h0" ws 0 h0 h1 "[]" reference addresses]
      load_header [of h0 "h1 # ws" "[]"]
    by (auto simp: EncodeMvlcWordsLittleEndian_eq ParseMvlcLocalRegisterBatchReadReply_def Let_def EthernetHeaderWords_def
        MaximumCommandPipePacketChannel_def simp del: le.encode_simps)
qed

subsection \<open>The scan of the single-register parser\<close>

text \<open>
  The parser tests every word of the payload for a frame header. A word with the top byte of a
  super frame whose count leaves the payload, or is too small, ends the scan; a word that is
  followed by neither the reference nor the read is passed over.
\<close>

definition runs_out :: "nat \<Rightarrow> u32 list \<Rightarrow> nat \<Rightarrow> bool" where
  "runs_out n ws i \<longleftrightarrow> drop_bit 24 (ws ! i) = ucast MvlcSuperFrameType
     \<and> (header_words (ws ! i) < 3 \<or> i + 1 + header_words (ws ! i) > n)"

definition mirrors_read :: "u16 \<Rightarrow> u16 \<Rightarrow> u32 list \<Rightarrow> nat \<Rightarrow> bool" where
  "mirrors_read reference address ws i \<longleftrightarrow> drop_bit 24 (ws ! i) = ucast MvlcSuperFrameType
     \<and> ws ! (i + 1) = MvlcReferenceWordCommand OR ucast reference \<and> ws ! (i + 2) = MvlcReadLocalCommand OR ucast address"

definition scan_words :: "u16 \<Rightarrow> u16 \<Rightarrow> nat \<Rightarrow> u32 list \<Rightarrow> nat \<Rightarrow> MvlcLocalReadReply" where
  "scan_words reference address n ws offset =
    (case find (\<lambda>i. runs_out n ws i \<or> mirrors_read reference address ws i) [offset..<n - 3] of
       None \<Rightarrow> \<lparr>lr_status = NoMatch, lr_value = 0\<rparr>
     | Some i \<Rightarrow> if runs_out n ws i then \<lparr>lr_status = Malformed, lr_value = 0\<rparr> else \<lparr>lr_status = Match, lr_value = ws ! (i + 3)\<rparr>)"

lemma scan_read_reply_eq:
  assumes "n \<le> length ws"
  shows "scan_read_reply (le.encode (h0 # h1 # ws) @ slack) (MvlcReferenceWordCommand OR ucast reference)
      (MvlcReadLocalCommand OR ucast address) n offset = Some (scan_words reference address n ws offset)"
proof (induction "n - offset" arbitrary: offset rule: less_induct)
  case less
  let ?P = "le.encode (h0 # h1 # ws) @ slack"
  show ?case
  proof (cases "offset + 3 < n")
    case True
    have load: "LoadLittleEndian32 ?P (payload_offset (offset + i)) = Some (ws ! (offset + i))" if "i \<le> 3" for i
      using True assms that by (intro load_payload) simp
    have "n - (offset + 1) < n - offset" using True by simp
    note IH = less.hyps [OF this]
    have "[offset..<n - 3] = offset # [offset + 1..<n - 3]" using True by (simp add: upt_conv_Cons)
    then show ?thesis
      using load [of 0] load [of 1] load [of 2] load [of 3] True IH
      by (subst scan_read_reply.simps) (simp del: le.encode_simps add: scan_words_def runs_out_def mirrors_read_def)
  qed (simp add: scan_read_reply.simps scan_words_def)
qed

lemma find_skip: "find P xs = None \<Longrightarrow> find P (xs @ ys) = find P ys"
  by (induction xs) (auto split: if_splits)

lemma scan_words_at:
  assumes "p + 3 < n" "\<And>i. i < p \<Longrightarrow> \<not> runs_out n ws i \<and> \<not> mirrors_read reference address ws i"
    and "runs_out n ws p \<or> mirrors_read reference address ws p"
  shows "scan_words reference address n ws 0 = (if runs_out n ws p then \<lparr>lr_status = Malformed, lr_value = 0\<rparr>
     else \<lparr>lr_status = Match, lr_value = ws ! (p + 3)\<rparr>)"
proof -
  let ?P = "\<lambda>i. runs_out n ws i \<or> mirrors_read reference address ws i"
  have "[0..<n - 3] = [0..<p] @ p # [Suc p..<n - 3]"
    using assms(1) upt_add_eq_append [of 0 p "n - 3 - p"] by (simp add: upt_conv_Cons)
  moreover have "find ?P [0..<p] = None" using assms(2) by (simp add: find_None_iff)
  ultimately have "find ?P [0..<n - 3] = Some p" using assms(3) by (simp add: find_skip)
  then show ?thesis by (simp add: scan_words_def)
qed


text \<open>A reply to a batch of reads: a super frame with the reference and, for each register, the read and its value.\<close>

definition batch_reply_words :: "u16 \<Rightarrow> (u16 \<times> u32) list \<Rightarrow> u32 list" where
  "batch_reply_words reference reads = (0xF1000000 OR word_of_nat (1 + 2 * length reads))
     # (MvlcReferenceWordCommand OR ucast reference)
     # concat (map (\<lambda>(address, v). [MvlcReadLocalCommand OR ucast address, v]) reads)"

lemma batch_words_length [simp]: "length (batch_reply_words u reads) = 2 + 2 * length reads"
  by (induction reads) (auto simp: batch_reply_words_def)

lemma batch_words_nth:
  "i < length reads \<Longrightarrow> batch_reply_words u reads ! (2 + 2 * i) = MvlcReadLocalCommand OR ucast (fst (reads ! i))
     \<and> batch_reply_words u reads ! (3 + 2 * i) = snd (reads ! i)"
proof -
  have "i < length reads \<Longrightarrow> concat (map (\<lambda>(address, v). [MvlcReadLocalCommand OR ucast address, v]) reads) ! (2 * i)
      = MvlcReadLocalCommand OR ucast (fst (reads ! i))
     \<and> concat (map (\<lambda>(address, v). [MvlcReadLocalCommand OR ucast address, v]) reads) ! Suc (2 * i) = snd (reads ! i)"
  proof (induction reads arbitrary: i)
    case (Cons p reads)
    then show ?case by (cases i) (auto split: prod.splits)
  qed simp
  then show "i < length reads \<Longrightarrow> ?thesis" by (simp add: batch_reply_words_def numeral_3_eq_3)
qed

lemma command_words:
  fixes u r a :: u16
  shows "MvlcReferenceWordCommand OR ucast u = MvlcReferenceWordCommand OR ucast r \<longleftrightarrow> u = r"
    "drop_bit 24 (MvlcReferenceWordCommand OR ucast u) = 1" "drop_bit 24 (MvlcReadLocalCommand OR ucast a) = 1"
    "MvlcReadLocalCommand OR ucast a \<noteq> MvlcReferenceWordCommand OR ucast r"
proof -
  have high: "drop_bit k (ucast x :: u32) = 0" if "16 \<le> k" for x :: u16 and k
    using that by (intro bit_word_eqI) (auto simp: bit_simps dest: bit_imp_le_length)
  have zero: "(ucast MvlcReferenceWordCommand :: u16) = 0" by code_simp
  have low: "(ucast (MvlcReferenceWordCommand OR ucast (x :: u16)) :: u16) = x" for x
    using zero by (simp add: unsigned_or_eq) (rule bit_word_eqI, simp add: bit_simps)
  show "MvlcReferenceWordCommand OR ucast u = MvlcReferenceWordCommand OR ucast r \<longleftrightarrow> u = r"
    using low by metis
  have top: "drop_bit 24 MvlcReferenceWordCommand = 1" "drop_bit 24 MvlcReadLocalCommand = 1"
    "drop_bit 16 MvlcReferenceWordCommand \<noteq> drop_bit 16 MvlcReadLocalCommand" by code_simp+
  then show "drop_bit 24 (MvlcReferenceWordCommand OR ucast u) = 1" "drop_bit 24 (MvlcReadLocalCommand OR ucast a) = 1"
    by (simp_all add: high)
  have "drop_bit 16 (MvlcReadLocalCommand OR ucast a) \<noteq> drop_bit 16 (MvlcReferenceWordCommand OR ucast r)"
    using top(3) by (simp add: high)
  then show "MvlcReadLocalCommand OR ucast a \<noteq> MvlcReferenceWordCommand OR ucast r" by metis
qed

lemma counted_header:
  assumes "k < 8192"
  shows "header_words (0xF1000000 OR word_of_nat k) = k" "drop_bit 24 (0xF1000000 OR word_of_nat k :: u32) = ucast MvlcSuperFrameType"
    "header_words (word_of_nat k) = k" "header_magic (word_of_nat k) = 0" "header_channel (word_of_nat k) = 0"
proof -
  let ?w = "word_of_nat k :: u32"
  have mask: "(0x1FFF :: u32) = mask 13" by code_simp
  have "list_all (\<lambda>n. \<not> bit (0xF1000000 :: u32) n) [0..<13]" by code_simp
  then have top: "\<not> bit (0xF1000000 :: u32) n" if "n < 13" for n using that by (simp add: list_all_iff)
  have bits: "\<not> bit ?w n" if "13 \<le> n" for n
  proof -
    have "(2 :: nat) ^ 13 \<le> 2 ^ n" using that by (intro power_increasing) simp_all
    then have "k div 2 ^ n = 0" using assms by simp
    then have "\<not> bit k n" by (simp add: bit_iff_odd)
    then show ?thesis by (simp add: bit_of_nat_iff)
  qed
  then have short: "?w AND 0x1FFF = ?w" "(0xF1000000 OR ?w) AND 0x1FFF = ?w"
    unfolding mask using bits top
    by (auto intro!: bit_word_eqI simp: bit_and_iff bit_or_iff bit_mask_iff simp flip: not_le)
  have high: "drop_bit n ?w = 0" if "13 \<le> n" for n
    using that bits by (intro bit_word_eqI) (simp add: bit_simps)
  have small: "unat ?w = k" using assms by (simp add: unat_of_nat take_bit_nat_eq_self)
  show "header_words (0xF1000000 OR ?w) = k" "header_words ?w = k"
    unfolding header_words_def short by (rule small)+
  show "drop_bit 24 (0xF1000000 OR ?w) = ucast MvlcSuperFrameType"
    using high [of 24] by (simp add: MvlcSuperFrameType_def)
  show "header_magic ?w = 0" "header_channel ?w = 0" using high [of 30] high [of 28] by (simp_all add: header_magic_def header_channel_def)
qed


text \<open>The frames of a reply behind another one, and what the batch parser answers for them.\<close>

lemma two_replies_split:
  fixes u r a :: u16 and x :: u32
  assumes "2 * length reads + 6 < 8192"
  defines "A \<equiv> batch_reply_words u reads" and "B \<equiv> batch_reply_words r [(a, x)]"
  shows "split_frames (A @ B) = (True, [frame_of A, frame_of B])"
    and "u \<noteq> r \<Longrightarrow> batch_reply_of r [a] [frame_of A, frame_of B] = \<lparr>br_status = Match, br_values = [x]\<rparr>"
proof -
  have a: "header_words (0xF1000000 OR word_of_nat (1 + 2 * length reads)) = 1 + 2 * length reads"
    and b: "header_words (0xF1000000 OR word_of_nat (1 + 2 * length [(a, x)])) = 1 + 2 * length [(a, x)]"
    using assms(1) by (intro counted_header(1); simp)+
  have heads: "hd A = 0xF1000000 OR word_of_nat (1 + 2 * length reads)" "hd B = 0xF1000000 OR word_of_nat (1 + 2 * length [(a, x)])"
    by (simp_all add: A_def B_def batch_reply_words_def)
  have "list_all frame_wf [frame_of A, frame_of B]"
    using a b heads by (auto simp: frame_wf_def frame_of_def A_def B_def simp flip: length_0_conv)
  from split_frames_complete [OF this] show "split_frames (A @ B) = (True, [frame_of A, frame_of B])"
    by (simp add: frame_of_def)
  have "A ! 1 = MvlcReferenceWordCommand OR ucast u" by (simp add: A_def batch_reply_words_def)
  then show "u \<noteq> r \<Longrightarrow> batch_reply_of r [a] [frame_of A, frame_of B] = \<lparr>br_status = Match, br_values = [x]\<rparr>"
    using counted_header(2) [of "1 + 2 * length [(a, x)]"]
    by (auto simp: batch_reply_of_def IsMatchingMvlcSuperFrame_def batch_verdict_def frame_of_def command_words(1) top_byte
        B_def batch_reply_words_def MvlcSuperFrameType_def)
qed

lemma two_replies_scan:
  fixes u r a :: u16 and x :: u32
  assumes "2 * length reads + 6 < 8192" "u \<noteq> r"
  defines "A \<equiv> batch_reply_words u reads" and "B \<equiv> batch_reply_words r [(a, x)]"
  defines "ws \<equiv> A @ B" and "n \<equiv> 2 * length reads + 6"
  shows "scan_words r a n ws 0 = (if reads = [] \<or> (\<exists>i < length reads. runs_out n ws (3 + 2 * i))
     then \<lparr>lr_status = Malformed, lr_value = 0\<rparr> else \<lparr>lr_status = Match, lr_value = x\<rparr>)"
proof -
  let ?m = "2 + 2 * length reads"
  have len: "length A = ?m" "length B = 4" by (simp_all add: A_def B_def)
  have at: "ws ! i = A ! i" if "i < ?m" for i using that len by (simp add: ws_def nth_append)
  have head: "ws ! 0 = 0xF1000000 OR word_of_nat (1 + 2 * length reads)" "ws ! 1 = MvlcReferenceWordCommand OR ucast u"
    using at [of 0] at [of 1] by (simp_all add: A_def batch_reply_words_def)
  have pairs: "ws ! (2 + 2 * i) = MvlcReadLocalCommand OR ucast (fst (reads ! i))" if "i < length reads" for i
    using that at [of "2 + 2 * i"] batch_words_nth [OF that, of u] by (simp add: A_def)
  have tail: "ws ! ?m = 0xF1000000 OR word_of_nat 3" "ws ! (?m + 1) = MvlcReferenceWordCommand OR ucast r"
    "ws ! (?m + 2) = MvlcReadLocalCommand OR ucast a" "ws ! (?m + 3) = x"
    using len by (simp_all add: ws_def nth_append B_def batch_reply_words_def)
  have super: "drop_bit 24 (ws ! ?m) = ucast MvlcSuperFrameType" "header_words (ws ! ?m) = 3" "header_words (ws ! 0) = 1 + 2 * length reads"
      "drop_bit 24 (ws ! 0) = ucast MvlcSuperFrameType"
    unfolding tail(1) head(1) using assms(1) by (intro counted_header; simp)+
  have one: "(1 :: u32) \<noteq> ucast MvlcSuperFrameType" by (simp add: MvlcSuperFrameType_def)
  have place: "i = 0 \<or> i = 1 \<or> (\<exists>j < length reads. i = 2 + 2 * j \<or> i = 3 + 2 * j)" if "i < ?m" for i
    using that by presburger
  have unrelated: "\<not> mirrors_read r a ws i" if "i < ?m" for i
  proof -
    have "ws ! (3 + 2 * j + 1) \<noteq> MvlcReferenceWordCommand OR ucast r" if "j < length reads" for j
    proof (cases "Suc j < length reads")
      case True
      moreover have "3 + 2 * j + 1 = 2 + 2 * Suc j" by simp
      ultimately show ?thesis using pairs [of "Suc j"] command_words(4) by metis
    next
      case False
      then have "3 + 2 * j + 1 = ?m" using that by simp
      then show ?thesis using super(1) command_words(2) [of r] one by metis
    qed
    then show ?thesis
      using place [OF that] head(2) assms(2) pairs command_words(1) [of u r] command_words(2) [of u] command_words(3) one
      by (auto simp: mirrors_read_def)
  qed
  have inner: "runs_out n ws i \<Longrightarrow> i = 0 \<and> reads = [] \<or> (\<exists>j < length reads. i = 3 + 2 * j)" if "i < ?m" for i
    using place [OF that] head(2) pairs command_words(2) [of u] command_words(3) one super(3)
    by (auto simp: runs_out_def n_def)
  have first: "reads = [] \<Longrightarrow> runs_out n ws 0" using super(3,4) by (simp add: runs_out_def)
  have last: "mirrors_read r a ws ?m" "\<not> runs_out n ws ?m"
    using super tail by (simp_all add: mirrors_read_def runs_out_def n_def)
  consider "reads = []" | i where "reads \<noteq> []" "i < length reads" "runs_out n ws (3 + 2 * i)" "\<And>j. j < i \<Longrightarrow> \<not> runs_out n ws (3 + 2 * j)"
    | "reads \<noteq> []" "\<And>i. i < length reads \<Longrightarrow> \<not> runs_out n ws (3 + 2 * i)"
    using exists_least_iff [of "\<lambda>i. i < length reads \<and> runs_out n ws (3 + 2 * i)"] less_trans by blast
  then show ?thesis
  proof cases
    case 1
    then show ?thesis using scan_words_at [of 0 n ws r a] first by (simp add: n_def)
  next
    case 2
    have "\<not> runs_out n ws k \<and> \<not> mirrors_read r a ws k" if "k < 3 + 2 * i" for k
      using that 2 inner [of k] unrelated [of k] by auto
    then have "scan_words r a n ws 0 = \<lparr>lr_status = Malformed, lr_value = 0\<rparr>"
      using scan_words_at [of "3 + 2 * i" n ws r a] 2(2,3) by (simp add: n_def)
    then show ?thesis using 2(2,3) by auto
  next
    case 3
    have "\<not> runs_out n ws k \<and> \<not> mirrors_read r a ws k" if "k < ?m" for k
      using that 3 inner [OF that] unrelated [OF that] by auto
    then have "scan_words r a n ws 0 = \<lparr>lr_status = Match, lr_value = x\<rparr>"
      using scan_words_at [of ?m n ws r a] last tail(4) by (simp add: n_def)
    then show ?thesis using 3 by auto
  qed
qed


lemma read_reply_scanned:
  assumes "header_magic h0 = 0" "header_channel h0 = 0" "header_words h0 \<le> length ws" "4 \<le> length ws"
  shows "ParseMvlcLocalRegisterReadReply (EncodeMvlcWordsLittleEndian (h0 # h1 # ws)) (4 * (length ws + 2)) reference address
    = Some (scan_words reference address (header_words h0) ws 0)"
  using assms scan_read_reply_eq [OF assms(3), of h0 h1 "[]" reference address 0] load_header [of h0 "h1 # ws" "[]"]
  by (simp add: ParseMvlcLocalRegisterReadReply_def EncodeMvlcWordsLittleEndian_eq Let_def EthernetHeaderWords_def del: le.encode_simps)

subsection \<open>The upload request\<close>

text \<open>The writes a request carries, as (address, value) pairs.\<close>

definition local_writes :: "(u16 \<times> u32) list \<Rightarrow> u32 list" where
  "local_writes ws = concat (map (\<lambda>(a, v). [MvlcWriteLocalCommand OR ucast a, v]) ws)"

lemma append_operations_eq:
  "append_operations request a ws = (request @ local_writes (zip (map (\<lambda>i. a + 4 * of_nat i) [0..<length ws]) ws),
     a + 4 * of_nat (length ws))"
proof (induction ws arbitrary: request a)
  case (Cons w ws)
  have upt: "[0..<Suc (length ws)] = 0 # map Suc [0..<length ws]" by (simp add: upt_conv_Cons map_Suc_upt del: upt_Suc)
  show ?case
    by (simp add: Cons.IH AppendWriteLocal_def MvlcLocalAddressIncrement_def local_writes_def upt comp_def
        algebra_simps del: upt_Suc)
qed (simp add: local_writes_def)

lemma append_operations_append:
  "append_operations request a (xs @ ys) = (case append_operations request a xs of (request, a) \<Rightarrow> append_operations request a ys)"
  by (induction xs arbitrary: request a) simp_all

lemma packet_parsers_in_bounds:
  assumes "packetSize \<le> length packet"
  shows "ParseMvlcCommandPacket packet packetSize \<noteq> None
    \<and> ParseMvlcLocalRegisterReadReply packet packetSize reference address \<noteq> None
    \<and> ParseMvlcLocalRegisterBatchReadReply packet packetSize reference addresses \<noteq> None"
proof (cases "packetSize mod 4 = 0 \<and> 12 \<le> packetSize")
  case True
  then have "8 \<le> packetSize" by simp
  from packet_words [OF assms _ this] True obtain h0 h1 ws
    where P: "packet = le.encode (h0 # h1 # ws) @ drop packetSize packet" and n: "packetSize div 4 = length ws + 2"
    by metis
  then have size: "packetSize = 4 * (length ws + 2)" using True by auto
  with True have ne: "ws \<noteq> []" by auto
  let ?Q = "le.encode (h0 # h1 # ws) @ drop packetSize packet"
  have "ParseMvlcCommandPacket ?Q packetSize \<noteq> None"
    unfolding size ParseMvlcCommandPacket_eq [OF ne] by simp
  moreover have "ParseMvlcLocalRegisterReadReply ?Q packetSize reference address \<noteq> None"
    using n scan_read_reply_safe [of "header_words h0" ws h0 h1 "drop packetSize packet"]
    by (fastforce simp: ParseMvlcLocalRegisterReadReply_def load_header Let_def EthernetHeaderWords_def simp del: le.encode_simps)
  moreover have "ParseMvlcLocalRegisterBatchReadReply ?Q packetSize reference addresses \<noteq> None"
    using n scan_batch_reply_eq [of "header_words h0" ws 0 h0 h1 "drop packetSize packet" reference addresses]
    by (fastforce simp: ParseMvlcLocalRegisterBatchReadReply_def load_header Let_def EthernetHeaderWords_def
        simp del: le.encode_simps)
  ultimately show ?thesis using P by simp
next
  case False
  then show ?thesis
    by (auto simp: ParseMvlcCommandPacket_def ParseMvlcLocalRegisterReadReply_def ParseMvlcLocalRegisterBatchReadReply_def
        EthernetHeaderWords_def)
qed

subsection \<open>The properties of the protocol\<close>

text \<open>
  (C34) Memory safety of the receive path: given a buffer of at least \<open>packetSize\<close> bytes, none
  of the three packet parsers reads outside it, whatever the bytes are (and each returns).
\<close>
theorem packet_parsers_memory_safe:
  assumes "packetSize \<le> length packet"
  shows "ParseMvlcCommandPacket packet packetSize \<noteq> None
    \<and> ParseMvlcLocalRegisterReadReply packet packetSize reference address \<noteq> None
    \<and> ParseMvlcLocalRegisterBatchReadReply packet packetSize reference addresses \<noteq> None"
  using assms by (rule packet_parsers_in_bounds)

theorem packet_parsers_memory_safe_witness:
  "ParseMvlcCommandPacket (replicate 16 0xFF) 16 \<noteq> None"
  using packet_parsers_memory_safe [of 16 "replicate 16 0xFF"] by simp

text \<open>
  (C35) The packet parser succeeds with the frames \<open>fs\<close> exactly on the packets whose header
  is a command-pipe header and whose payload is the concatenation of well-formed frames, and
  these frames are \<open>fs\<close>: parsing inverts the layout, and nothing is dropped or invented.
\<close>
theorem command_packet_exact:
  "ParseMvlcCommandPacket (EncodeMvlcWordsLittleEndian (h0 # h1 # ws)) (4 * (length ws + 2))
     = Some \<lparr>cp_success = True, cp_frames = fs, cp_error = None\<rparr>
   \<longleftrightarrow> ws \<noteq> [] \<and> header_magic h0 = 0 \<and> header_channel h0 \<le> 1 \<and> header_words h0 \<le> length ws
     \<and> list_all frame_wf fs \<and> concat (map f_words fs) = take (header_words h0) ws"
proof (cases "ws = []")
  case False
  have "split_frames (take (header_words h0) ws) = (True, fs) \<longleftrightarrow>
      list_all frame_wf fs \<and> concat (map f_words fs) = take (header_words h0) ws"
    using split_frames_sound split_frames_complete by metis
  with False ParseMvlcCommandPacket_eq [OF False, of h0 h1 "[]"] show ?thesis
    by (auto simp: EncodeMvlcWordsLittleEndian_eq not_less simp del: le.encode_simps split: prod.splits if_splits)
qed (simp add: ParseMvlcCommandPacket_def EthernetHeaderWords_def)

text \<open>
  (C36) The batch-read parser agrees with the packet parser: on a channel-0 packet that parses
  into the frames \<open>fs\<close>, its answer is decided by the first frame of \<open>fs\<close> that mirrors the
  reference; it is a match exactly when that frame mirrors all the requested reads in order,
  and then the values are the words after them.
\<close>
theorem batch_reply_refines_frames:
  assumes "ParseMvlcCommandPacket (EncodeMvlcWordsLittleEndian (h0 # h1 # ws)) (4 * (length ws + 2))
      = Some \<lparr>cp_success = True, cp_frames = fs, cp_error = None\<rparr>"
    and "header_channel h0 = 0" "2 \<le> length ws"
  shows "ParseMvlcLocalRegisterBatchReadReply (EncodeMvlcWordsLittleEndian (h0 # h1 # ws)) (4 * (length ws + 2))
      reference addresses = Some (batch_reply_of reference addresses fs)"
  using assms by (rule batch_reply_frames)

theorem batch_reply_refines_frames_witness:
  "ParseMvlcLocalRegisterBatchReadReply
     (EncodeMvlcWordsLittleEndian [4, 0, 0xF1000003, 0x01010007, 0x01021200, 42]) 24 7 [0x1200]
   = Some \<lparr>br_status = Match, br_values = [42]\<rparr>"
proof -
  let ?ws = "[0xF1000003, 0x01010007, 0x01021200, 42 :: u32]"
  have "ParseMvlcCommandPacket (EncodeMvlcWordsLittleEndian (4 # 0 # ?ws)) (4 * (length ?ws + 2))
      = Some \<lparr>cp_success = True, cp_frames = [frame_of ?ws], cp_error = None\<rparr>"
    by code_simp
  from batch_reply_refines_frames [OF this, of 7 "[0x1200]"] show ?thesis
    by (simp add: header_channel_def batch_reply_of_def batch_verdict_def IsMatchingMvlcSuperFrame_def frame_of_def
        MvlcSuperFrameType_def MvlcReferenceWordCommand_def MvlcReadLocalCommand_def)
qed

text \<open>
  A single-register reply that is reported as a match carries the value of a super-frame
  position that mirrors exactly this reference and this read.
\<close>
theorem read_reply_match_sound:
  assumes "ParseMvlcLocalRegisterReadReply (EncodeMvlcWordsLittleEndian (h0 # h1 # ws)) (4 * (length ws + 2))
      reference address = Some r" "lr_status r = Match"
  shows "\<exists>i. i + 3 < length ws \<and> drop_bit 24 (ws ! i) = ucast MvlcSuperFrameType
    \<and> ws ! (i + 1) = MvlcReferenceWordCommand OR ucast reference
    \<and> ws ! (i + 2) = MvlcReadLocalCommand OR ucast address \<and> ws ! (i + 3) = lr_value r"
proof -
  have r: "scan_read_reply (le.encode (h0 # h1 # ws) @ []) (MvlcReferenceWordCommand OR ucast reference)
      (MvlcReadLocalCommand OR ucast address) (header_words h0) 0 = Some r" and n: "header_words h0 \<le> length ws"
    using assms load_header [of h0 "h1 # ws" "[]"]
    by (auto simp: ParseMvlcLocalRegisterReadReply_def EncodeMvlcWordsLittleEndian_eq Let_def EthernetHeaderWords_def
        simp del: le.encode_simps split: if_splits)
  from scan_read_reply_safe [OF n, of h0 h1 "[]" "MvlcReferenceWordCommand OR ucast reference"
      "MvlcReadLocalCommand OR ucast address" 0] r assms(2) n
  obtain i where "i + 3 < header_words h0" "drop_bit 24 (ws ! i) = ucast MvlcSuperFrameType"
      "ws ! (i + 1) = MvlcReferenceWordCommand OR ucast reference"
      "ws ! (i + 2) = MvlcReadLocalCommand OR ucast address" "ws ! (i + 3) = lr_value r"
    by auto
  with n show ?thesis by (intro exI [of _ i]) auto
qed

theorem read_reply_match_sound_witness:
  "\<exists>i. i + 3 < length [0xF1000003, 0x01010007, 0x01021200, 42 :: u32]
    \<and> drop_bit 24 ([0xF1000003, 0x01010007, 0x01021200, 42 :: u32] ! i) = ucast MvlcSuperFrameType
    \<and> [0xF1000003, 0x01010007, 0x01021200, 42 :: u32] ! (i + 1) = MvlcReferenceWordCommand OR ucast (7 :: u16)
    \<and> [0xF1000003, 0x01010007, 0x01021200, 42 :: u32] ! (i + 2) = MvlcReadLocalCommand OR ucast (0x1200 :: u16)
    \<and> [0xF1000003, 0x01010007, 0x01021200, 42 :: u32] ! (i + 3) = 42"
proof -
  have "ParseMvlcLocalRegisterReadReply (EncodeMvlcWordsLittleEndian (4 # 0 # [0xF1000003, 0x01010007, 0x01021200, 42]))
      (4 * (length [0xF1000003, 0x01010007, 0x01021200, 42 :: u32] + 2)) 7 0x1200 = Some \<lparr>lr_status = Match, lr_value = 42\<rparr>"
    by code_simp
  from read_reply_match_sound [OF this] show ?thesis by simp
qed

text \<open>
  (C39) The single-register parser looks for a frame header at every word, not at frame
  boundaries. When the awaited reply stands in a packet behind the reply to another batch of
  reads, the packet parser finds the two frames and the batch parser the awaited value; the
  single-register parser finds it exactly when the other reply has values and none of them has
  the top byte of a super frame with a count in its low bits that is below three or leads out of
  the packet; otherwise it calls the packet malformed. Any register may hold such a value.
\<close>
theorem read_reply_scan_misreads_value:
  fixes reads :: "(u16 \<times> u32) list" and u r a :: u16 and x :: u32
  assumes "u \<noteq> r" "2 * length reads + 6 < 8192"
  defines "ws \<equiv> batch_reply_words u reads @ batch_reply_words r [(a, x)]"
  defines "packet \<equiv> EncodeMvlcWordsLittleEndian (word_of_nat (length ws) # 0 # ws)" and "bytes \<equiv> 4 * (length ws + 2)"
  shows "ParseMvlcCommandPacket packet bytes = Some \<lparr>cp_success = True,
      cp_frames = [frame_of (batch_reply_words u reads), frame_of (batch_reply_words r [(a, x)])], cp_error = None\<rparr>
    \<and> ParseMvlcLocalRegisterBatchReadReply packet bytes r [a] = Some \<lparr>br_status = Match, br_values = [x]\<rparr>
    \<and> ParseMvlcLocalRegisterReadReply packet bytes r a = Some
        (if reads = [] \<or> (\<exists>i < length reads. runs_out (length ws) ws (3 + 2 * i))
         then \<lparr>lr_status = Malformed, lr_value = 0\<rparr> else \<lparr>lr_status = Match, lr_value = x\<rparr>)"
proof -
  have len: "length ws = 2 * length reads + 6" "ws \<noteq> []" by (auto simp: ws_def simp flip: length_0_conv)
  then have "length ws < 8192" using assms(2) by simp
  note h = counted_header(3-5) [OF this]
  have frames: "ParseMvlcCommandPacket packet bytes = Some \<lparr>cp_success = True,
      cp_frames = [frame_of (batch_reply_words u reads), frame_of (batch_reply_words r [(a, x)])], cp_error = None\<rparr>"
    using ParseMvlcCommandPacket_eq [OF len(2), of "word_of_nat (length ws)" 0 "[]"] h two_replies_split(1) [OF assms(2), of u r a x]
    by (simp add: packet_def bytes_def EncodeMvlcWordsLittleEndian_eq ws_def del: le.encode_simps)
  moreover have "ParseMvlcLocalRegisterBatchReadReply packet bytes r [a] = Some \<lparr>br_status = Match, br_values = [x]\<rparr>"
    using batch_reply_frames [OF frames [unfolded packet_def bytes_def] h(3), of r "[a]"] len(1)
      two_replies_split(2) [OF assms(2,1), of a x] by (simp add: packet_def bytes_def)
  moreover have "ParseMvlcLocalRegisterReadReply packet bytes r a = Some (scan_words r a (length ws) ws 0)"
    using read_reply_scanned [of "word_of_nat (length ws)" ws 0 r a] h len(1) by (simp add: packet_def bytes_def)
  ultimately show ?thesis
    using two_replies_scan [OF assms(2,1), of a x, folded ws_def] len(1) by simp
qed

text \<open>A register that holds \<open>0xF1000000\<close>, and one that holds zero.\<close>

theorem read_reply_scan_misreads_value_witness:
  "ParseMvlcLocalRegisterReadReply (EncodeMvlcWordsLittleEndian [8, 0, 0xF1000003, 0x01010005, 0x01021200, 0xF1000000,
     0xF1000003, 0x01010007, 0x01021200, 42]) 40 7 0x1200 = Some \<lparr>lr_status = Malformed, lr_value = 0\<rparr>
   \<and> ParseMvlcLocalRegisterReadReply (EncodeMvlcWordsLittleEndian [8, 0, 0xF1000003, 0x01010005, 0x01021200, 0,
     0xF1000003, 0x01010007, 0x01021200, 42]) 40 7 0x1200 = Some \<lparr>lr_status = Match, lr_value = 42\<rparr>"
  using read_reply_scan_misreads_value [of 5 7 "[(0x1200, 0xF1000000)]" "0x1200" 42]
    read_reply_scan_misreads_value [of 5 7 "[(0x1200, 0)]" "0x1200" 42]
  by (simp add: batch_reply_words_def runs_out_def MvlcReferenceWordCommand_def MvlcReadLocalCommand_def MvlcSuperFrameType_def
      header_words_def)

text \<open>
  The upload request is one command buffer that writes the whole transient stack, framed
  by its start, marker, reference and end words, to consecutive local addresses from the
  immediate-stack offset on.
\<close>
theorem stack_upload_layout:
  "BuildMvlcStackUploadRequest superReference stackReference operations =
    (let stack = [MvlcStackStartCommand, MvlcWriteMarkerCommand, stackReference] @ operations @ [MvlcStackEndCommand]
     in [MvlcCommandBufferStart, MvlcReferenceWordCommand OR ucast superReference]
        @ local_writes (zip (map (\<lambda>i. 0x2004 + 4 * of_nat i) [0..<length stack]) stack)
        @ [MvlcCommandBufferEnd])"
proof -
  let ?stack = "[MvlcStackStartCommand, MvlcWriteMarkerCommand, stackReference] @ operations @ [MvlcStackEndCommand]"
  let ?start = "[MvlcCommandBufferStart, MvlcReferenceWordCommand OR ucast superReference]"
  have "BuildMvlcStackUploadRequest superReference stackReference operations
      = fst (append_operations ?start 0x2004 ?stack) @ [MvlcCommandBufferEnd]"
    by (simp add: BuildMvlcStackUploadRequest_def append_operations_append Let_def
        MvlcStackMemoryBegin_def MvlcImmediateStackOffset_def split: prod.split)
  then show ?thesis by (simp only: append_operations_eq fst_conv Let_def append_assoc)
qed

end
