(* ===== verification/Vme_Transaction.thy ===== *)
theory Vme_Transaction
  imports Vme_Protocol
begin

text \<open>
  Command transactions, \<^verbatim>\<open>hardware/VmeTransaction.cpp\<close>: upload a transient stack, trigger it,
  collect the replies, retry a bounded number of times. The transport is the interface
  \<^verbatim>\<open>ICommandTransport\<close> of \<^verbatim>\<open>hardware/Transport.h\<close>, whose implementations are sockets and a
  relay process; it is a parameter, a record of the three calls the transactions make, each
  acting on an arbitrary state of the outside world (the cancellation flag is read from it
  too, since another thread sets it). The nine-thousand-byte receive buffer is explicit.
\<close>

subsection \<open>The transport\<close>

record TransportOperationResult =
  tr_success :: bool
  tr_error :: string

datatype TransportReceiveStatus = Received | Timeout | Error

text \<open>A reception: the bytes placed in the buffer, and the result struct.\<close>

record TransportReceiveResult =
  rx_status :: TransportReceiveStatus
  rx_bytesReceived :: nat
  rx_error :: string
  rx_data :: "byte list"

record 'w transport =
  t_send :: "byte list \<Rightarrow> 'w \<Rightarrow> TransportOperationResult \<times> 'w"
  t_receive :: "nat \<Rightarrow> nat \<Rightarrow> 'w \<Rightarrow> TransportReceiveResult \<times> 'w"
  t_cancelled :: "'w \<Rightarrow> bool \<times> 'w"

subsection \<open>Constants, errors and results\<close>

definition MvlcTransactionAttemptCount :: nat where "MvlcTransactionAttemptCount = 3"
definition MvlcMaximumResponseDatagrams :: nat where "MvlcMaximumResponseDatagrams = 8"
definition MvlcCommandResponseBufferSize :: nat where "MvlcCommandResponseBufferSize = 9000"
definition MvlcCommandResponseTimeoutMilliseconds :: nat where "MvlcCommandResponseTimeoutMilliseconds = 500"
definition MvlcFingerprintReadAttemptCount :: nat where "MvlcFingerprintReadAttemptCount = 6"

text \<open>The error texts; the empty string is \<open>None\<close>.\<close>

datatype vme_error =
    TransportText string
  | ProtocolError mvlc_error
  | ResponseTimedOut
  | TransportFailure
  | ResponseExceedsBuffer
  | InspectionCancelled
  | NoUploadResponse
  | IncompleteReadResponse
  | VmeTransactionFailed
  | LocalTransactionCancelled
  | NoLocalResponse
  | MalformedBatchResponse
  | BatchReadCancelled
  | NoBatchResponse

definition text_error :: "string \<Rightarrow> vme_error option" where
  "text_error s = (if s = [] then None else Some (TransportText s))"

datatype RetryDisposition = Retry | Stop

record StackExecutionResult =
  ex_success :: bool
  ex_retryDisposition :: RetryDisposition
  ex_stackFrame :: MvlcFrame
  ex_error :: "vme_error option"

definition empty_frame :: MvlcFrame where
  "empty_frame = \<lparr>f_type = 0, f_flags = 0, f_words = []\<rparr>"

definition new_execution :: StackExecutionResult where
  "new_execution = \<lparr>ex_success = False, ex_retryDisposition = Retry, ex_stackFrame = empty_frame, ex_error = None\<rparr>"

subsection \<open>Sending and receiving\<close>

definition SendWords :: "'w transport \<Rightarrow> u32 list \<Rightarrow> 'w \<Rightarrow> (vme_error option + unit) \<times> 'w" where
  "SendWords transport words w =
    (case t_send transport (EncodeMvlcWordsLittleEndian words) w of (sent, w) \<Rightarrow>
      if \<not> tr_success sent then (Inl (text_error (tr_error sent)), w) else (Inr (), w))"

text \<open>A buffer of the given contents after \<open>data\<close> has been received into its front.\<close>

definition receive_into :: "byte list \<Rightarrow> byte list \<Rightarrow> byte list" where
  "receive_into buffer data = take (length buffer) (data @ drop (length data) buffer)"

definition empty_buffer :: "byte list" where
  "empty_buffer = replicate MvlcCommandResponseBufferSize 0"

text \<open>What \<^verbatim>\<open>ReceiveFrames\<close> makes of a reception.\<close>

definition received_frames :: "TransportReceiveResult \<Rightarrow> vme_error option + MvlcFrame list" where
  "received_frames received =
    (if rx_status received \<noteq> Received
     then Inl (if rx_error received \<noteq> [] then text_error (rx_error received)
               else if rx_status received = Timeout then Some ResponseTimedOut else Some TransportFailure)
     else if rx_bytesReceived received > MvlcCommandResponseBufferSize then Inl (Some ResponseExceedsBuffer)
     else (let parsed = the (ParseMvlcCommandPacket (receive_into empty_buffer (rx_data received)) (rx_bytesReceived received)) in
       if \<not> cp_success parsed then Inl (map_option ProtocolError (cp_error parsed)) else Inr (cp_frames parsed)))"

definition ReceiveFrames :: "'w transport \<Rightarrow> 'w \<Rightarrow> (vme_error option + MvlcFrame list) \<times> 'w" where
  "ReceiveFrames transport w =
    (case t_receive transport MvlcCommandResponseBufferSize MvlcCommandResponseTimeoutMilliseconds w of (received, w) \<Rightarrow>
      (received_frames received, w))"

subsection \<open>Uploading a stack\<close>

fun upload_frames :: "u16 \<Rightarrow> MvlcFrame list \<Rightarrow> (vme_error option + unit) option" where
  "upload_frames superReference [] = None"
| "upload_frames superReference (frame # frames) =
    (let validation = ValidateMvlcStackUploadFrame frame superReference in
     if \<not> fv_matches validation then upload_frames superReference frames
     else if \<not> fv_success validation then Some (Inl (map_option ProtocolError (fv_error validation)))
     else Some (Inr ()))"

definition upload_end :: "'w transport \<Rightarrow> 'w \<Rightarrow> (vme_error option + unit) \<times> 'w" where
  "upload_end transport w = (case t_cancelled transport w of (c, w) \<Rightarrow>
     (Inl (Some (if c then InspectionCancelled else NoUploadResponse)), w))"

fun upload_loop :: "'w transport \<Rightarrow> u16 \<Rightarrow> nat \<Rightarrow> 'w \<Rightarrow> (vme_error option + unit) \<times> 'w" where
  "upload_loop transport superReference 0 w = upload_end transport w"
| "upload_loop transport superReference (Suc n) w =
    (case t_cancelled transport w of (c, w) \<Rightarrow>
      if c then upload_end transport w
      else (case ReceiveFrames transport w of
        (Inl e, w) \<Rightarrow> (Inl e, w)
      | (Inr frames, w) \<Rightarrow>
        (case upload_frames superReference frames of
           Some r \<Rightarrow> (r, w)
         | None \<Rightarrow> upload_loop transport superReference n w)))"

definition UploadStack :: "'w transport \<Rightarrow> u16 \<Rightarrow> u32 \<Rightarrow> u32 list \<Rightarrow> 'w \<Rightarrow> (vme_error option + unit) \<times> 'w" where
  "UploadStack transport superReference stackReference operationWords w =
    (case SendWords transport (BuildMvlcStackUploadRequest superReference stackReference operationWords) w of
       (Inl e, w) \<Rightarrow> (Inl e, w)
     | (Inr _, w) \<Rightarrow> upload_loop transport superReference MvlcMaximumResponseDatagrams w)"

subsection \<open>Executing a stack\<close>

definition IsTerminalVmeFailure :: "MvlcFrame \<Rightarrow> u32 \<Rightarrow> bool" where
  "IsTerminalVmeFailure frame stackReference =
    (if f_type frame \<noteq> MvlcStackFrameType \<or> length (f_words frame) < 2 \<or> f_words frame ! 1 \<noteq> stackReference then False
     else f_flags frame AND (MvlcTimeoutFlag OR MvlcBusErrorFlag) \<noteq> 0)"

text \<open>The loop over the frames of a packet: an early return, or whether both frames have been seen.\<close>

fun execute_frames :: "u16 \<Rightarrow> u32 \<Rightarrow> MvlcFrame list \<Rightarrow> bool \<times> MvlcFrame option
    \<Rightarrow> StackExecutionResult + bool \<times> MvlcFrame option" where
  "execute_frames superReference stackReference [] seen = Inr seen"
| "execute_frames superReference stackReference (frame # frames) (receivedSuper, stackFrame) =
    (let superValidation = ValidateMvlcStackExecuteSuperFrame frame superReference in
     if fv_matches superValidation
     then (if \<not> fv_success superValidation
           then Inl (new_execution\<lparr>ex_error := map_option ProtocolError (fv_error superValidation)\<rparr>)
           else execute_frames superReference stackReference frames (True, stackFrame))
     else (let stackValidation = ValidateMvlcStackExecutionFrame frame stackReference in
       if \<not> fv_matches stackValidation then execute_frames superReference stackReference frames (receivedSuper, stackFrame)
       else if \<not> fv_success stackValidation
       then Inl (new_execution\<lparr>ex_error := map_option ProtocolError (fv_error stackValidation),
              ex_retryDisposition := (if IsTerminalVmeFailure frame stackReference then Stop else Retry)\<rparr>)
       else execute_frames superReference stackReference frames (receivedSuper, Some frame)))"

definition execute_end :: "'w transport \<Rightarrow> 'w \<Rightarrow> StackExecutionResult \<times> 'w" where
  "execute_end transport w = (case t_cancelled transport w of (c, w) \<Rightarrow>
     (new_execution\<lparr>ex_error := Some (if c then InspectionCancelled else IncompleteReadResponse)\<rparr>, w))"

fun execute_loop :: "'w transport \<Rightarrow> u16 \<Rightarrow> u32 \<Rightarrow> nat \<Rightarrow> bool \<times> MvlcFrame option \<Rightarrow> 'w \<Rightarrow> StackExecutionResult \<times> 'w" where
  "execute_loop transport superReference stackReference 0 seen w = execute_end transport w"
| "execute_loop transport superReference stackReference (Suc n) seen w =
    (case t_cancelled transport w of (c, w) \<Rightarrow>
      if c then execute_end transport w
      else (case ReceiveFrames transport w of
        (Inl e, w) \<Rightarrow> (new_execution\<lparr>ex_error := e\<rparr>, w)
      | (Inr frames, w) \<Rightarrow>
        (case execute_frames superReference stackReference frames seen of
           Inl result \<Rightarrow> (result, w)
         | Inr (True, Some stackFrame) \<Rightarrow>
           (\<lparr>ex_success = True, ex_retryDisposition = Stop, ex_stackFrame = stackFrame, ex_error = None\<rparr>, w)
         | Inr seen \<Rightarrow> execute_loop transport superReference stackReference n seen w)))"

definition ExecuteStack :: "'w transport \<Rightarrow> u16 \<Rightarrow> u32 \<Rightarrow> 'w \<Rightarrow> StackExecutionResult \<times> 'w" where
  "ExecuteStack transport superReference stackReference w =
    (case SendWords transport (BuildMvlcStackExecuteRequest superReference) w of
       (Inl e, w) \<Rightarrow> (new_execution\<lparr>ex_error := e\<rparr>, w)
     | (Inr _, w) \<Rightarrow> execute_loop transport superReference stackReference MvlcMaximumResponseDatagrams (False, None) w)"

subsection \<open>The transaction\<close>

record references =
  nextSuperReference :: u16
  nextStackReference :: u32

definition transaction_end :: "'w transport \<Rightarrow> StackExecutionResult \<Rightarrow> 'w \<Rightarrow> StackExecutionResult \<times> 'w" where
  "transaction_end transport lastResult w = (case t_cancelled transport w of (c, w) \<Rightarrow>
     (if c then lastResult\<lparr>ex_error := Some InspectionCancelled\<rparr>
      else if ex_error lastResult = None then lastResult\<lparr>ex_error := Some VmeTransactionFailed\<rparr>
      else lastResult, w))"

fun transaction_loop :: "'w transport \<Rightarrow> u32 list \<Rightarrow> nat \<Rightarrow> StackExecutionResult \<Rightarrow> references \<Rightarrow> 'w
    \<Rightarrow> StackExecutionResult \<times> references \<times> 'w" where
  "transaction_loop transport operationWords 0 lastResult refs w =
    (case transaction_end transport lastResult w of (r, w) \<Rightarrow> (r, refs, w))"
| "transaction_loop transport operationWords (Suc n) lastResult refs w =
    (case t_cancelled transport w of (c, w) \<Rightarrow>
      if c then (case transaction_end transport lastResult w of (r, w) \<Rightarrow> (r, refs, w))
      else (let stackReference = nextStackReference refs;
                uploadReference = nextSuperReference refs;
                refs = \<lparr>nextSuperReference = nextSuperReference refs + 1, nextStackReference = nextStackReference refs + 1\<rparr>
            in case UploadStack transport uploadReference stackReference operationWords w of
                 (Inl uploadError, w) \<Rightarrow>
                   transaction_loop transport operationWords n (lastResult\<lparr>ex_error := uploadError\<rparr>) refs w
               | (Inr _, w) \<Rightarrow>
                 (let executeReference = nextSuperReference refs;
                      refs = refs\<lparr>nextSuperReference := nextSuperReference refs + 1\<rparr>
                  in case ExecuteStack transport executeReference stackReference w of (lastResult, w) \<Rightarrow>
                    if ex_success lastResult \<or> ex_retryDisposition lastResult = Stop then (lastResult, refs, w)
                    else transaction_loop transport operationWords n lastResult refs w)))"

definition RunStackTransaction :: "'w transport \<Rightarrow> u32 list \<Rightarrow> references \<Rightarrow> 'w
    \<Rightarrow> StackExecutionResult \<times> references \<times> 'w" where
  "RunStackTransaction transport operationWords refs w =
     transaction_loop transport operationWords MvlcTransactionAttemptCount new_execution refs w"

definition ReadVmeD16 :: "'w transport \<Rightarrow> u32 \<Rightarrow> references \<Rightarrow> 'w \<Rightarrow> (vme_error option + u16) \<times> references \<times> 'w" where
  "ReadVmeD16 transport address refs w =
    (case RunStackTransaction transport (EncodeMvlcVmeReadD16Words address) refs w of (transaction, refs, w) \<Rightarrow>
      (if \<not> ex_success transaction then Inl (ex_error transaction)
       else map_sum (\<lambda>e. Some (ProtocolError e)) id (ParseMvlcVmeReadD16Reply (ex_stackFrame transaction)), refs, w))"

definition WriteVmeD16 :: "'w transport \<Rightarrow> u32 \<Rightarrow> u16 \<Rightarrow> references \<Rightarrow> 'w \<Rightarrow> (vme_error option + unit) \<times> references \<times> 'w" where
  "WriteVmeD16 transport address v refs w =
    (case RunStackTransaction transport (EncodeMvlcVmeWriteD16Words address v) refs w of (transaction, refs, w) \<Rightarrow>
      (if \<not> ex_success transaction then Inl (ex_error transaction)
       else map_sum (\<lambda>e. Some (ProtocolError e)) id (ParseMvlcVmeWriteD16Reply (ex_stackFrame transaction)), refs, w))"

subsection \<open>Local registers\<close>

fun local_write_frames :: "u16 \<Rightarrow> MvlcFrame list \<Rightarrow> (vme_error option + unit) option" where
  "local_write_frames reference [] = None"
| "local_write_frames reference (frame # frames) =
    (let validation = ValidateMvlcLocalWriteFrame frame reference in
     if \<not> fv_matches validation then local_write_frames reference frames
     else if \<not> fv_success validation then Some (Inl (map_option ProtocolError (fv_error validation)))
     else Some (Inr ()))"

definition local_write_end :: "'w transport \<Rightarrow> 'w \<Rightarrow> (vme_error option + unit) \<times> 'w" where
  "local_write_end transport w = (case t_cancelled transport w of (c, w) \<Rightarrow>
     (Inl (Some (if c then LocalTransactionCancelled else NoLocalResponse)), w))"

fun local_write_loop :: "'w transport \<Rightarrow> u16 \<Rightarrow> nat \<Rightarrow> 'w \<Rightarrow> (vme_error option + unit) \<times> 'w" where
  "local_write_loop transport reference 0 w = local_write_end transport w"
| "local_write_loop transport reference (Suc n) w =
    (case t_cancelled transport w of (c, w) \<Rightarrow>
      if c then local_write_end transport w
      else (case ReceiveFrames transport w of
        (Inl e, w) \<Rightarrow> (Inl e, w)
      | (Inr frames, w) \<Rightarrow>
        (case local_write_frames reference frames of
           Some r \<Rightarrow> (r, w)
         | None \<Rightarrow> local_write_loop transport reference n w)))"

definition WriteLocalRegisters :: "'w transport \<Rightarrow> MvlcLocalRegisterWrite list \<Rightarrow> u16 \<Rightarrow> 'w
    \<Rightarrow> (vme_error option + unit) \<times> u16 \<times> 'w" where
  "WriteLocalRegisters transport writes nextReference w =
    (let reference = nextReference in
     case BuildMvlcLocalRegisterWriteRequest reference writes of
       Inl e \<Rightarrow> (Inl (Some (ProtocolError e)), nextReference, w)
     | Inr words \<Rightarrow>
       (case SendWords transport words w of
          (Inl e, w) \<Rightarrow> (Inl e, nextReference + 1, w)
        | (Inr _, w) \<Rightarrow>
          (case local_write_loop transport reference MvlcMaximumResponseDatagrams w of (r, w) \<Rightarrow> (r, nextReference + 1, w))))"

text \<open>
  The reply loop of \<^verbatim>\<open>ReadLocalRegisters\<close>: the buffer keeps its contents between receptions.
  The outer \<open>option\<close> of the result is memory safety, as in the parsers; \<open>Inr None\<close> means
  that the loop ended without an answer and the request is sent again.
\<close>

fun batch_replies :: "'w transport \<Rightarrow> u16 \<Rightarrow> u16 list \<Rightarrow> nat \<Rightarrow> byte list \<Rightarrow> 'w
    \<Rightarrow> (vme_error option + u32 list option) option \<times> byte list \<times> 'w" where
  "batch_replies transport reference addresses 0 buffer w = (Some (Inr None), buffer, w)"
| "batch_replies transport reference addresses (Suc n) buffer w =
    (case t_cancelled transport w of (c, w) \<Rightarrow>
      if c then (Some (Inr None), buffer, w)
      else (case t_receive transport (length buffer) MvlcCommandResponseTimeoutMilliseconds w of (received, w) \<Rightarrow>
        let buffer = receive_into buffer (rx_data received) in
        if rx_status received = Timeout then (Some (Inr None), buffer, w)
        else if rx_status received = Error then (Some (Inl (text_error (rx_error received))), buffer, w)
        else (case ParseMvlcLocalRegisterBatchReadReply buffer (rx_bytesReceived received) reference addresses of
           None \<Rightarrow> (None, buffer, w)
         | Some parsed \<Rightarrow>
           if br_status parsed = Match then (Some (Inr (Some (br_values parsed))), buffer, w)
           else if br_status parsed = Malformed then (Some (Inl (Some MalformedBatchResponse)), buffer, w)
           else batch_replies transport reference addresses n buffer w)))"

definition batch_end :: "'w transport \<Rightarrow> 'w \<Rightarrow> (vme_error option + u32 list) option \<times> 'w" where
  "batch_end transport w = (case t_cancelled transport w of (c, w) \<Rightarrow>
     (Some (Inl (Some (if c then BatchReadCancelled else NoBatchResponse))), w))"

fun batch_attempts :: "'w transport \<Rightarrow> byte list \<Rightarrow> u16 \<Rightarrow> u16 list \<Rightarrow> nat \<Rightarrow> byte list \<Rightarrow> 'w
    \<Rightarrow> (vme_error option + u32 list) option \<times> 'w" where
  "batch_attempts transport requestBytes reference addresses 0 buffer w = batch_end transport w"
| "batch_attempts transport requestBytes reference addresses (Suc n) buffer w =
    (case t_cancelled transport w of (c, w) \<Rightarrow>
      if c then batch_end transport w
      else (case t_send transport requestBytes w of (sent, w) \<Rightarrow>
        if \<not> tr_success sent then (Some (Inl (text_error (tr_error sent))), w)
        else (case batch_replies transport reference addresses MvlcMaximumResponseDatagrams buffer w of
           (None, buffer, w) \<Rightarrow> (None, w)
         | (Some (Inl e), buffer, w) \<Rightarrow> (Some (Inl e), w)
         | (Some (Inr (Some values)), buffer, w) \<Rightarrow> (Some (Inr values), w)
         | (Some (Inr None), buffer, w) \<Rightarrow> batch_attempts transport requestBytes reference addresses n buffer w)))"

definition ReadLocalRegisters :: "'w transport \<Rightarrow> u16 list \<Rightarrow> u16 \<Rightarrow> 'w
    \<Rightarrow> (vme_error option + u32 list) option \<times> u16 \<times> 'w" where
  "ReadLocalRegisters transport addresses nextReference w =
    (let reference = nextReference; nextReference = nextReference + 1 in
     case BuildMvlcLocalRegisterBatchReadRequest reference addresses of
       Inl e \<Rightarrow> (Some (Inl (Some (ProtocolError e))), nextReference, w)
     | Inr words \<Rightarrow>
       (case batch_attempts transport (EncodeMvlcWordsLittleEndian words) reference addresses
               MvlcFingerprintReadAttemptCount empty_buffer w of (r, w) \<Rightarrow> (r, nextReference, w)))"

subsection \<open>What was sent and received\<close>

text \<open>
  Any transport can be observed: the observed one does what the given one does and keeps the
  list of what was sent and received. The theorems are about all transports, through this
  observation.
\<close>

datatype event = Sent "byte list" | Got TransportReceiveResult

definition observed :: "'w transport \<Rightarrow> ('w \<times> event list) transport" where
  "observed T = \<lparr>
     t_send = (\<lambda>b (w, l). case t_send T b w of (r, w) \<Rightarrow> (r, (w, l @ [Sent b]))),
     t_receive = (\<lambda>n t (w, l). case t_receive T n t w of (r, w) \<Rightarrow> (r, (w, l @ [Got r]))),
     t_cancelled = (\<lambda>(w, l). case t_cancelled T w of (c, w) \<Rightarrow> (c, (w, l)))\<rparr>"

fun sends :: "event list \<Rightarrow> byte list list" where
  "sends [] = []"
| "sends (Sent b # es) = b # sends es"
| "sends (Got r # es) = sends es"

lemma sends_append [simp]: "sends (xs @ ys) = sends xs @ sends ys"
  by (induction xs rule: sends.induct) auto

text \<open>A frame that arrived in one of the packets of a log.\<close>

definition frame_received :: "MvlcFrame \<Rightarrow> event list \<Rightarrow> bool" where
  "frame_received f es \<longleftrightarrow> (\<exists>r frames. Got r \<in> set es \<and> received_frames r = Inr frames \<and> f \<in> set frames)"

lemma frame_received_append [simp]: "frame_received f (xs @ ys) \<longleftrightarrow> frame_received f xs \<or> frame_received f ys"
  by (auto simp: frame_received_def)

lemma frame_received_Cons: "frame_received f es \<Longrightarrow> frame_received f (e # es)"
  by (auto simp: frame_received_def)

lemma observed_simps [simp]:
  "t_send (observed T) b (w, l) = (case t_send T b w of (r, w) \<Rightarrow> (r, (w, l @ [Sent b])))"
  "t_receive (observed T) n t (w, l) = (case t_receive T n t w of (r, w) \<Rightarrow> (r, (w, l @ [Got r])))"
  "t_cancelled (observed T) (w, l) = (case t_cancelled T w of (c, w) \<Rightarrow> (c, (w, l)))"
  by (simp_all add: observed_def)

lemma SendWords_observed:
  assumes "SendWords (observed T) ws (w, l) = (r, w', l')"
  shows "l' = l @ [Sent (EncodeMvlcWordsLittleEndian ws)]"
  using assms by (auto simp: SendWords_def split: prod.splits if_splits)

lemma ReceiveFrames_observed:
  assumes "ReceiveFrames (observed T) (w, l) = (r, w', l')"
  obtains x where "l' = l @ [Got x]" "r = received_frames x"
  using assms by (auto simp: ReceiveFrames_def split: prod.splits)

lemma upload_loop_observed:
  "upload_loop (observed T) ref n (w, l) = (r, w', l') \<Longrightarrow> \<exists>es. l' = l @ es \<and> sends es = [] \<and> length es \<le> n"
proof (induction n arbitrary: w l)
  case 0
  then show ?case by (auto simp: upload_end_def split: prod.splits)
next
  case (Suc n)
  obtain c w1 where c: "t_cancelled T w = (c, w1)" by (cases "t_cancelled T w")
  obtain q w2 l2 where q: "ReceiveFrames (observed T) (w1, l) = (q, w2, l2)" by (cases "ReceiveFrames (observed T) (w1, l)")
  obtain x where x: "l2 = l @ [Got x]" using ReceiveFrames_observed [OF q] by metis
  show ?case
    using Suc.prems c q x Suc.IH [of w2 l2]
    by (auto simp: upload_end_def split: prod.splits if_splits sum.splits option.splits)
qed

lemma UploadStack_observed:
  assumes "UploadStack (observed T) u k ops (w, l) = (r, w', l')"
  shows "\<exists>es. l' = l @ Sent (EncodeMvlcWordsLittleEndian (BuildMvlcStackUploadRequest u k ops)) # es \<and> sends es = []"
proof -
  obtain q w1 l1 where q: "SendWords (observed T) (BuildMvlcStackUploadRequest u k ops) (w, l) = (q, w1, l1)"
    by (cases "SendWords (observed T) (BuildMvlcStackUploadRequest u k ops) (w, l)")
  note l1 = SendWords_observed [OF q]
  show ?thesis
    using assms q l1 upload_loop_observed [of T u MvlcMaximumResponseDatagrams w1 l1 r w' l']
    by (auto simp: UploadStack_def split: sum.splits)
qed

text \<open>A stack frame that answers the reference without an error flag.\<close>

definition good_reply :: "u32 \<Rightarrow> MvlcFrame \<Rightarrow> bool" where
  "good_reply k f \<longleftrightarrow> f_type f = MvlcStackFrameType \<and> length (f_words f) \<ge> 2 \<and> f_words f ! 1 = k
     \<and> f_flags f AND MvlcTimeoutFlag = 0 \<and> f_flags f AND MvlcBusErrorFlag = 0 \<and> f_flags f AND MvlcSyntaxErrorFlag = 0"

lemma execution_frame_success: "fv_success (ValidateMvlcStackExecutionFrame f k) \<longleftrightarrow> good_reply k f"
  by (auto simp: ValidateMvlcStackExecutionFrame_def good_reply_def rejected_frame_def unrelated_frame_def accepted_frame_def
      MvlcStackErrorFrameType_def MvlcStackFrameType_def)

text \<open>A reply of the stack itself that the bus access failed; it must not be retried.\<close>

definition terminal_result :: "StackExecutionResult \<Rightarrow> bool" where
  "terminal_result r \<longleftrightarrow> \<not> ex_success r \<and> ex_retryDisposition r = Stop"

lemma terminal_error:
  assumes "IsTerminalVmeFailure f k"
  shows "fv_error (ValidateMvlcStackExecutionFrame f k) \<in> {Some VmeDeviceDidNotRespond, Some VmeBusError}"
proof -
  have f: "f_type f = MvlcStackFrameType" "length (f_words f) \<ge> 2" "f_words f ! 1 = k"
      "f_flags f AND (MvlcTimeoutFlag OR MvlcBusErrorFlag) \<noteq> 0"
    using assms by (auto simp: IsTerminalVmeFailure_def split: if_splits)
  have "f_flags f AND MvlcTimeoutFlag \<noteq> 0 \<or> f_flags f AND MvlcBusErrorFlag \<noteq> 0"
    using f(4) by (auto simp: and.commute [of "f_flags f"] bit.conj_disj_distrib2)
  moreover have "MvlcStackFrameType \<noteq> MvlcStackErrorFrameType" by (simp add: MvlcStackFrameType_def MvlcStackErrorFrameType_def)
  ultimately show ?thesis using f(1-3) by (auto simp: ValidateMvlcStackExecutionFrame_def rejected_frame_def)
qed

lemma execute_frames_seen:
  "execute_frames u k frames seen = Inr (b, Some f) \<Longrightarrow> snd seen = Some f \<or> f \<in> set frames \<and> good_reply k f"
proof (induction u k frames seen rule: execute_frames.induct)
  case (2 u k frame frames receivedSuper stackFrame)
  then show ?case
    by (auto simp: Let_def execution_frame_success split: if_splits)
qed simp

lemma execute_frames_stop:
  "execute_frames u k frames seen = Inl r \<Longrightarrow> \<not> ex_success r
     \<and> (terminal_result r \<longrightarrow> ex_error r \<in> {Some (ProtocolError VmeDeviceDidNotRespond), Some (ProtocolError VmeBusError)})"
proof (induction u k frames seen rule: execute_frames.induct)
  case (2 u k frame frames receivedSuper stackFrame)
  then show ?case
    using terminal_error [of frame k]
    by (auto simp: Let_def terminal_result_def new_execution_def split: if_splits)
qed simp

definition execution_sound :: "u32 \<Rightarrow> event list \<Rightarrow> StackExecutionResult \<Rightarrow> bool" where
  "execution_sound k es r \<longleftrightarrow> (ex_success r \<longrightarrow> good_reply k (ex_stackFrame r) \<and> frame_received (ex_stackFrame r) es)
     \<and> (terminal_result r \<longrightarrow> ex_error r \<in> {Some (ProtocolError VmeDeviceDidNotRespond), Some (ProtocolError VmeBusError)})"

lemma execution_sound_failed:
  "execution_sound k es (new_execution\<lparr>ex_error := e\<rparr>)"
  by (simp add: execution_sound_def terminal_result_def new_execution_def)

lemma execute_loop_round:
  assumes "t_cancelled T w = (False, w1)" "ReceiveFrames T w1 = (Inr frames, w2)" "execute_frames u k frames seen = Inr (b, m)"
  shows "execute_loop T u k (Suc n) seen w =
    (if b \<and> m \<noteq> None then (\<lparr>ex_success = True, ex_retryDisposition = Stop, ex_stackFrame = the m, ex_error = None\<rparr>, w2)
     else execute_loop T u k n (b, m) w2)"
  using assms by (cases b; cases m) simp_all

text \<open>A round that ends the loop leaves a sound result.\<close>

lemma execute_loop_ends:
  assumes "execute_loop (observed T) u k (Suc n) seen (w, l) = (r, w', l')"
    and "t_cancelled T w = (c, w1)" "ReceiveFrames (observed T) (w1, l) = (q, w2, l @ [Got x])"
    and "c \<or> isl q \<or> isl (execute_frames u k (projr q) seen)"
  shows "\<exists>es'. l' = l @ es' \<and> sends es' = [] \<and> execution_sound k (es @ es') r"
proof (cases "\<not> c \<and> \<not> isl q")
  case True
  then obtain frames res where "q = Inr frames" "execute_frames u k frames seen = Inl res" using assms(4) by (cases q) (auto simp: isl_def)
  then show ?thesis
    using assms True execute_frames_stop [of u k frames seen res] by (intro exI [of _ "[Got x]"]) (simp add: execution_sound_def)
next
  case False
  then show ?thesis
    using assms by (cases q) (auto simp: execute_end_def execution_sound_failed split: prod.splits if_splits)
qed

lemma execute_loop_observed:
  assumes "execute_loop (observed T) u k n seen (w, l @ es) = (r, w', l')"
    and "\<And>f. snd seen = Some f \<Longrightarrow> good_reply k f \<and> frame_received f es"
  shows "\<exists>es'. l' = l @ es @ es' \<and> sends es' = [] \<and> execution_sound k (es @ es') r"
  using assms
proof (induction n arbitrary: w es seen)
  case 0
  then show ?case by (auto simp: execute_end_def execution_sound_failed split: prod.splits)
next
  case (Suc n)
  obtain c w1 where c: "t_cancelled T w = (c, w1)" by (cases "t_cancelled T w")
  obtain q w2 l2 where q: "ReceiveFrames (observed T) (w1, l @ es) = (q, w2, l2)"
    by (cases "ReceiveFrames (observed T) (w1, l @ es)")
  obtain x where x: "l2 = (l @ es) @ [Got x]" "q = received_frames x" using ReceiveFrames_observed [OF q] by auto
  show ?case
  proof (cases "c \<or> isl q \<or> isl (execute_frames u k (projr q) seen)")
    case True
    from execute_loop_ends [OF Suc.prems(1) c _ True] q x(1) show ?thesis by auto
  next
    case False
    then obtain frames b m where run: "\<not> c" "q = Inr frames" "execute_frames u k frames seen = Inr (b, m)"
      by (cases q; cases "execute_frames u k (projr q) seen") auto
    have new: "good_reply k f \<and> frame_received f (es @ [Got x])" if "m = Some f" for f
    proof -
      have "f \<in> set frames \<Longrightarrow> frame_received f [Got x]" using run(2) x(2) by (auto simp: frame_received_def)
      then show ?thesis using execute_frames_seen [of u k frames seen b f] run that Suc.prems(2) by auto
    qed
    note round = execute_loop_round [of "observed T" "(w, l @ es)" "(w1, l @ es)" frames "(w2, l2)" u k seen b m n]
    show ?thesis
    proof (cases "b \<and> m \<noteq> None")
      case True
      then show ?thesis
        using Suc.prems(1) c q run round new x(1)
        by (intro exI [of _ "[Got x]"]) (auto simp: execution_sound_def terminal_result_def simp del: execute_loop.simps)
    next
      case False
      then have "execute_loop (observed T) u k n (b, m) (w2, l @ (es @ [Got x])) = (r, w', l')"
        using Suc.prems(1) c q run round x(1) by (auto simp del: execute_loop.simps split: if_splits)
      from Suc.IH [OF this] new show ?thesis by fastforce
    qed
  qed
qed

subsection \<open>Transactions\<close>

abbreviation upload_bytes :: "u32 list \<Rightarrow> u16 \<Rightarrow> u32 \<Rightarrow> byte list" where
  "upload_bytes ops u k \<equiv> EncodeMvlcWordsLittleEndian (BuildMvlcStackUploadRequest u k ops)"

abbreviation execute_bytes :: "u16 \<Rightarrow> byte list" where
  "execute_bytes u \<equiv> EncodeMvlcWordsLittleEndian (BuildMvlcStackExecuteRequest u)"

text \<open>
  The requests a transaction may send: at most \<open>n\<close> attempts, each an upload and possibly the
  trigger for it, every request under a super reference of its own and every attempt under a
  stack reference of its own.
\<close>

inductive attempt_sequence :: "u32 list \<Rightarrow> nat \<Rightarrow> references \<Rightarrow> byte list list \<Rightarrow> references \<Rightarrow> bool" for ops where
  no_attempt: "attempt_sequence ops n refs [] refs"
| upload_only: "attempt_sequence ops n \<lparr>nextSuperReference = u + 1, nextStackReference = k + 1\<rparr> bs refs'
    \<Longrightarrow> attempt_sequence ops (Suc n) \<lparr>nextSuperReference = u, nextStackReference = k\<rparr> (upload_bytes ops u k # bs) refs'"
| executed: "attempt_sequence ops n \<lparr>nextSuperReference = u + 2, nextStackReference = k + 1\<rparr> bs refs'
    \<Longrightarrow> attempt_sequence ops (Suc n) \<lparr>nextSuperReference = u, nextStackReference = k\<rparr>
          (upload_bytes ops u k # execute_bytes (u + 1) # bs) refs'"

lemma attempt_sequence_length: "attempt_sequence ops n refs bs refs' \<Longrightarrow> length bs \<le> 2 * n"
  by (induction rule: attempt_sequence.induct) auto

text \<open>
  The stack frame \<open>f\<close> answers the stack reference \<open>k\<close>: it arrived after a trigger that was sent
  after the upload of these operations under this reference.
\<close>

definition answered :: "u32 list \<Rightarrow> u32 \<Rightarrow> event list \<Rightarrow> MvlcFrame \<Rightarrow> bool" where
  "answered ops k es f \<longleftrightarrow> good_reply k f \<and> (\<exists>before after u v. es = before @ Sent (execute_bytes v) # after
     \<and> upload_bytes ops u k \<in> set (sends before) \<and> frame_received f after)"

lemma answered_append: "answered ops k es f \<Longrightarrow> answered ops k (xs @ es) f"
  unfolding answered_def by (metis (no_types, lifting) Un_iff append.assoc sends_append set_append)

lemma ExecuteStack_observed:
  assumes "ExecuteStack (observed T) u k (w, l) = (r, w', l')"
  shows "\<exists>es. l' = l @ Sent (execute_bytes u) # es \<and> sends es = [] \<and> execution_sound k es r"
proof -
  obtain q w1 l1 where q: "SendWords (observed T) (BuildMvlcStackExecuteRequest u) (w, l) = (q, w1, l1)"
    by (cases "SendWords (observed T) (BuildMvlcStackExecuteRequest u) (w, l)")
  note l1 = SendWords_observed [OF q]
  show ?thesis
    using assms q l1 execute_loop_observed [of T u k MvlcMaximumResponseDatagrams "(False, None)" w1 l1 "[]" r w' l']
    by (auto simp: ExecuteStack_def execution_sound_failed split: sum.splits)
qed

definition transaction_sound :: "u32 list \<Rightarrow> nat \<Rightarrow> references \<Rightarrow> event list \<Rightarrow> StackExecutionResult \<Rightarrow> references \<Rightarrow> bool" where
  "transaction_sound ops n refs es r refs' \<longleftrightarrow> attempt_sequence ops n refs (sends es) refs'
     \<and> (ex_success r \<longrightarrow> (\<exists>i<n. answered ops (nextStackReference refs + of_nat i) es (ex_stackFrame r)))
     \<and> (terminal_result r \<longrightarrow> ex_error r \<in> {Some (ProtocolError VmeDeviceDidNotRespond), Some (ProtocolError VmeBusError)})"

definition retryable :: "StackExecutionResult \<Rightarrow> bool" where
  "retryable r \<longleftrightarrow> \<not> ex_success r \<and> ex_retryDisposition r = Retry"

lemma transaction_end_sound:
  assumes "transaction_end (observed T) prev (w, l) = (r, w', l')" "retryable prev"
  shows "l' = l \<and> transaction_sound ops n refs [] r refs"
  using assms
  by (auto simp: transaction_end_def transaction_sound_def retryable_def terminal_result_def
      split: prod.splits if_splits intro: attempt_sequence.intros)

lemma transaction_sound_upload:
  assumes "transaction_sound ops n \<lparr>nextSuperReference = u + 1, nextStackReference = k + 1\<rparr> es r refs'" "sends xs = []"
  shows "transaction_sound ops (Suc n) \<lparr>nextSuperReference = u, nextStackReference = k\<rparr>
     (Sent (upload_bytes ops u k) # xs @ es) r refs'"
proof -
  have "\<exists>i<Suc n. answered ops (k + of_nat i) (Sent (upload_bytes ops u k) # xs @ es) (ex_stackFrame r)"
    if "i < n" "answered ops (k + 1 + of_nat i) es (ex_stackFrame r)" for i
    using that answered_append [of ops _ es _ "Sent (upload_bytes ops u k) # xs"]
    by (intro exI [of _ "Suc i"]) (simp add: add.assoc)
  then show ?thesis using assms by (auto simp: transaction_sound_def intro: upload_only)
qed

lemma transaction_sound_executed:
  assumes "transaction_sound ops n \<lparr>nextSuperReference = u + 2, nextStackReference = k + 1\<rparr> es r refs'" "sends xs = []" "sends ys = []"
  shows "transaction_sound ops (Suc n) \<lparr>nextSuperReference = u, nextStackReference = k\<rparr>
     (Sent (upload_bytes ops u k) # xs @ Sent (execute_bytes (u + 1)) # ys @ es) r refs'"
proof -
  have "\<exists>i<Suc n. answered ops (k + of_nat i) (Sent (upload_bytes ops u k) # xs @ Sent (execute_bytes (u + 1)) # ys @ es)
      (ex_stackFrame r)"
    if "i < n" "answered ops (k + 1 + of_nat i) es (ex_stackFrame r)" for i
    using that answered_append [of ops _ es _ "Sent (upload_bytes ops u k) # xs @ Sent (execute_bytes (u + 1)) # ys"]
    by (intro exI [of _ "Suc i"]) (simp add: add.assoc)
  then show ?thesis using assms by (auto simp: transaction_sound_def intro: executed)
qed

lemma transaction_sound_final:
  assumes "execution_sound k ys r" "sends xs = []" "sends ys = []"
  shows "transaction_sound ops (Suc n) \<lparr>nextSuperReference = u, nextStackReference = k\<rparr>
     (Sent (upload_bytes ops u k) # xs @ Sent (execute_bytes (u + 1)) # ys) r
     \<lparr>nextSuperReference = u + 2, nextStackReference = k + 1\<rparr>"
proof -
  have "answered ops k (Sent (upload_bytes ops u k) # xs @ Sent (execute_bytes (u + 1)) # ys) f"
    if "good_reply k f" "frame_received f ys" for f
    using that unfolding answered_def
    by (intro conjI exI [of _ "Sent (upload_bytes ops u k) # xs"] exI [of _ ys] exI [of _ u] exI [of _ "u + 1"]) auto
  then have "ex_success r \<longrightarrow> (\<exists>i<Suc n. answered ops (k + of_nat i)
      (Sent (upload_bytes ops u k) # xs @ Sent (execute_bytes (u + 1)) # ys) (ex_stackFrame r))"
    using assms(1) unfolding execution_sound_def by (intro impI exI [of _ 0]) simp
  then show ?thesis
    using assms executed [OF no_attempt, of ops n u k] by (auto simp: transaction_sound_def execution_sound_def)
qed

lemma transaction_loop_observed:
  assumes "transaction_loop (observed T) ops n prev refs (w, l) = (r, refs', w', l')" "retryable prev"
  shows "\<exists>es. l' = l @ es \<and> transaction_sound ops n refs es r refs'"
  using assms
proof (induction n arbitrary: prev refs w l)
  case 0
  then show ?case using transaction_end_sound [of T prev w l] by (auto split: prod.splits)
next
  case (Suc n)
  obtain c w1 where c: "t_cancelled T w = (c, w1)" by (cases "t_cancelled T w")
  obtain u k where refs: "refs = \<lparr>nextSuperReference = u, nextStackReference = k\<rparr>" by (cases refs)
  obtain q w2 l2 where q: "UploadStack (observed T) u k ops (w1, l) = (q, w2, l2)" by (cases "UploadStack (observed T) u k ops (w1, l)")
  obtain x w3 l3 where x: "ExecuteStack (observed T) (u + 1) k (w2, l2) = (x, w3, l3)"
    by (cases "ExecuteStack (observed T) (u + 1) k (w2, l2)")
  obtain xs where xs: "l2 = l @ Sent (upload_bytes ops u k) # xs" "sends xs = []" using UploadStack_observed [OF q] by blast
  obtain ys where ys: "l3 = l2 @ Sent (execute_bytes (u + 1)) # ys" "sends ys = []" "execution_sound k ys x"
    using ExecuteStack_observed [OF x] by blast
  show ?case
  proof (cases "c \<or> isl q")
    case True
    show ?thesis
    proof (cases c)
      case True
      then show ?thesis using Suc.prems c transaction_end_sound [of T prev w1 l] by (auto split: prod.splits)
    next
      case False
      with \<open>c \<or> isl q\<close> obtain e where e: "q = Inl e" by (cases q) auto
      have "transaction_loop (observed T) ops n (prev\<lparr>ex_error := e\<rparr>) \<lparr>nextSuperReference = u + 1, nextStackReference = k + 1\<rparr> (w2, l2)
          = (r, refs', w', l')" using Suc.prems(1) c False q e refs by (simp add: Let_def)
      from Suc.IH [OF this] Suc.prems(2) obtain es where "l' = l2 @ es"
          "transaction_sound ops n \<lparr>nextSuperReference = u + 1, nextStackReference = k + 1\<rparr> es r refs'"
        by (auto simp: retryable_def)
      then show ?thesis using transaction_sound_upload [OF _ xs(2)] xs(1) refs by auto
    qed
  next
    case False
    then obtain y where run: "\<not> c" "q = Inr y" by (cases q) auto
    show ?thesis
    proof (cases "retryable x")
      case True
      then have "transaction_loop (observed T) ops n x \<lparr>nextSuperReference = u + 2, nextStackReference = k + 1\<rparr> (w3, l3)
          = (r, refs', w', l')" using Suc.prems(1) c run q refs x by (simp add: Let_def retryable_def add.assoc)
      from Suc.IH [OF this True] obtain es where "l' = l3 @ es"
          "transaction_sound ops n \<lparr>nextSuperReference = u + 2, nextStackReference = k + 1\<rparr> es r refs'" by blast
      then show ?thesis using transaction_sound_executed [OF _ xs(2) ys(2)] xs(1) ys(1) refs by auto
    next
      case False
      then have "r = x" "refs' = \<lparr>nextSuperReference = u + 2, nextStackReference = k + 1\<rparr>" "l' = l3"
        using Suc.prems(1) c run q refs x
        by (cases "ex_retryDisposition x"; simp add: Let_def retryable_def add.assoc split: if_splits)+
      then show ?thesis using transaction_sound_final [OF ys(3) xs(2) ys(2)] xs(1) ys(1) refs by auto
    qed
  qed
qed

subsection \<open>Local registers\<close>

lemma local_write_frames_success:
  "local_write_frames u frames = Some (Inr ()) \<Longrightarrow>
    \<exists>f \<in> set frames. IsMatchingMvlcSuperFrame f u \<and> f_flags f AND MvlcSyntaxErrorFlag = 0"
proof (induction u frames rule: local_write_frames.induct)
  case (2 u frame frames)
  then show ?case
    by (auto simp: Let_def ValidateMvlcLocalWriteFrame_def ValidateMatchingSuperFrame_def rejected_frame_def unrelated_frame_def
        split: if_splits)
qed simp

lemma local_write_loop_observed:
  "local_write_loop (observed T) u n (w, l) = (r, w', l') \<Longrightarrow> \<exists>es. l' = l @ es \<and> sends es = []
     \<and> (r = Inr () \<longrightarrow> (\<exists>f. frame_received f es \<and> IsMatchingMvlcSuperFrame f u \<and> f_flags f AND MvlcSyntaxErrorFlag = 0))"
proof (induction n arbitrary: w l)
  case 0
  then show ?case by (auto simp: local_write_end_def split: prod.splits)
next
  case (Suc n)
  obtain c w1 where c: "t_cancelled T w = (c, w1)" by (cases "t_cancelled T w")
  obtain q w2 l2 where q: "ReceiveFrames (observed T) (w1, l) = (q, w2, l2)" by (cases "ReceiveFrames (observed T) (w1, l)")
  obtain x where x: "l2 = l @ [Got x]" "q = received_frames x" using ReceiveFrames_observed [OF q] by metis
  show ?case
  proof (cases "\<exists>frames. \<not> c \<and> q = Inr frames \<and> local_write_frames u frames = None")
    case True
    then have "local_write_loop (observed T) u n (w2, l2) = (r, w', l')" using Suc.prems c q by auto
    from Suc.IH [OF this] obtain es where "l' = l2 @ es" "sends es = []"
        "r = Inr () \<longrightarrow> (\<exists>f. frame_received f es \<and> IsMatchingMvlcSuperFrame f u \<and> f_flags f AND MvlcSyntaxErrorFlag = 0)"
      by blast
    then show ?thesis using x(1) by (intro exI [of _ "Got x # es"]) (auto intro: frame_received_Cons)
  next
    case False
    then show ?thesis
      using Suc.prems c q x local_write_frames_success [of u]
      by (fastforce simp: local_write_end_def frame_received_def split: prod.splits if_splits sum.splits option.splits)
  qed
qed

text \<open>The documented duty of \<^verbatim>\<open>Receive\<close>: it reports the bytes it placed, and never more than fit.\<close>

definition reports_capacity :: "'w transport \<Rightarrow> bool" where
  "reports_capacity T \<longleftrightarrow> (\<forall>n t w. let r = fst (t_receive T n t w) in
     rx_bytesReceived r \<le> n \<and> length (rx_data r) = rx_bytesReceived r)"

lemma reports_capacityD:
  assumes "reports_capacity T" "t_receive T n t w = (r, w')"
  shows "rx_bytesReceived r \<le> n" "length (rx_data r) = rx_bytesReceived r"
  using assms unfolding reports_capacity_def Let_def by (metis fst_conv)+

lemma receive_into_front: "length data \<le> length buffer \<Longrightarrow> receive_into buffer data = data @ drop (length data) buffer"
  by (simp add: receive_into_def)

lemma length_receive_into [simp]: "length data \<le> length buffer \<Longrightarrow> length (receive_into buffer data) = length buffer"
  by (simp add: receive_into_front)

text \<open>A reception that the batch parser accepts with the given values, whatever lies behind it in the buffer.\<close>

definition batch_received :: "u16 \<Rightarrow> u16 list \<Rightarrow> u32 list \<Rightarrow> event list \<Rightarrow> bool" where
  "batch_received u as vs es \<longleftrightarrow> (\<exists>r rest. Got r \<in> set es \<and> rx_status r = Received \<and>
     ParseMvlcLocalRegisterBatchReadReply (rx_data r @ rest) (length (rx_data r)) u as = Some \<lparr>br_status = Match, br_values = vs\<rparr>)"

lemma batch_received_append [simp]: "batch_received u as vs (xs @ ys) \<longleftrightarrow> batch_received u as vs xs \<or> batch_received u as vs ys"
  unfolding batch_received_def by auto

lemma batch_received_Cons: "batch_received u as vs es \<Longrightarrow> batch_received u as vs (e # es)"
  unfolding batch_received_def by auto

lemma batch_replies_observed:
  assumes "batch_replies (observed T) u as n buffer (w, l) = (r, buffer', w', l')" "reports_capacity T"
  shows "\<exists>es. l' = l @ es \<and> sends es = [] \<and> length buffer' = length buffer \<and> r \<noteq> None
     \<and> (\<forall>vs. r = Some (Inr (Some vs)) \<longrightarrow> batch_received u as vs es)"
  using assms(1)
proof (induction n arbitrary: w l buffer)
  case (Suc n)
  obtain c w1 where c: "t_cancelled T w = (c, w1)" by (cases "t_cancelled T w")
  obtain x w2 where x: "t_receive T (length buffer) MvlcCommandResponseTimeoutMilliseconds w1 = (x, w2)"
    by (cases "t_receive T (length buffer) MvlcCommandResponseTimeoutMilliseconds w1")
  note cap = reports_capacityD [OF assms(2) x]
  define b where "b = receive_into buffer (rx_data x)"
  have b: "length b = length buffer" "b = rx_data x @ drop (length (rx_data x)) buffer"
    using cap by (simp_all add: b_def receive_into_front)
  obtain p where p: "ParseMvlcLocalRegisterBatchReadReply b (rx_bytesReceived x) u as = Some p"
    using packet_parsers_in_bounds [of "rx_bytesReceived x" b u 0 as] b(1) cap(1) by auto
  have step: "\<not> c \<Longrightarrow> rx_status x = Received \<Longrightarrow> (if br_status p = Match then (Some (Inr (Some (br_values p))), b, w2, l @ [Got x])
      else if br_status p = Malformed then (Some (Inl (Some MalformedBatchResponse)), b, w2, l @ [Got x])
      else batch_replies (observed T) u as n b (w2, l @ [Got x])) = (r, buffer', w', l')"
    using Suc.prems c x p by (cases "br_status p") (simp_all add: Let_def b_def)
  show ?case
  proof (cases "\<not> c \<and> rx_status x = Received \<and> br_status p = NoMatch")
    case True
    then have "batch_replies (observed T) u as n b (w2, l @ [Got x]) = (r, buffer', w', l')" using step by simp
    from Suc.IH [OF this] obtain es where "l' = (l @ [Got x]) @ es" "sends es = []" "length buffer' = length b" "r \<noteq> None"
        "\<forall>vs. r = Some (Inr (Some vs)) \<longrightarrow> batch_received u as vs es" by blast
    then show ?thesis using b(1) by (intro exI [of _ "Got x # es"]) (auto simp: batch_received_Cons)
  next
    case False
    have "batch_received u as (br_values p) [Got x]" if "br_status p = Match" "rx_status x = Received"
      using p that cap b(2) unfolding batch_received_def
      by (intro exI [of _ x] exI [of _ "drop (length (rx_data x)) buffer"]) (cases p; simp)
    with False show ?thesis
      using Suc.prems c x b(1) step by (cases c; cases "rx_status x"; cases "br_status p") (auto simp: Let_def b_def)
  qed
qed auto

lemma batch_attempts_observed:
  assumes "batch_attempts (observed T) bytes u as n buffer (w, l) = (r, w', l')" "reports_capacity T"
  shows "\<exists>es. l' = l @ es \<and> (\<exists>m\<le>n. sends es = replicate m bytes) \<and> r \<noteq> None \<and> (\<forall>vs. r = Some (Inr vs) \<longrightarrow> batch_received u as vs es)"
  using assms(1)
proof (induction n arbitrary: w l buffer)
  case 0
  then show ?case by (auto simp: batch_end_def split: prod.splits)
next
  case (Suc n)
  obtain c w1 where c: "t_cancelled T w = (c, w1)" by (cases "t_cancelled T w")
  obtain s w2 where s: "t_send T bytes w1 = (s, w2)" by (cases "t_send T bytes w1")
  obtain q buffer' w3 l3 where q: "batch_replies (observed T) u as MvlcMaximumResponseDatagrams buffer (w2, l @ [Sent bytes]) = (q, buffer', w3, l3)"
    by (cases "batch_replies (observed T) u as MvlcMaximumResponseDatagrams buffer (w2, l @ [Sent bytes])") auto
  obtain es where es: "l3 = (l @ [Sent bytes]) @ es" "sends es = []" "q \<noteq> None" "\<forall>vs. q = Some (Inr (Some vs)) \<longrightarrow> batch_received u as vs es"
    using batch_replies_observed [OF q assms(2)] by blast
  have one: "\<exists>m\<le>Suc n. sends (Sent bytes # es) = replicate m bytes" using es(2) by (intro exI [of _ 1]) simp
  show ?case
  proof (cases "\<not> c \<and> tr_success s \<and> q = Some (Inr None)")
    case True
    then have "batch_attempts (observed T) bytes u as n buffer' (w3, l3) = (r, w', l')" using Suc.prems c s q by simp
    from Suc.IH [OF this] obtain es' m where "l' = l3 @ es'" "m \<le> n" "sends es' = replicate m bytes" "r \<noteq> None"
        "\<forall>vs. r = Some (Inr vs) \<longrightarrow> batch_received u as vs es'" by blast
    then show ?thesis
      using es(1,2) by (intro exI [of _ "Sent bytes # es @ es'"]) (auto intro!: exI [of _ "Suc m"] batch_received_Cons)
  next
    case False
    consider "c" | "\<not> c" "\<not> tr_success s" | e where "\<not> c" "tr_success s" "q = Some (Inl e)"
      | vs where "\<not> c" "tr_success s" "q = Some (Inr (Some vs))"
      using False es(3) by (metis not_None_eq obj_sumE)
    then show ?thesis
    proof cases
      case 1
      then show ?thesis using Suc.prems c s q by (auto simp: batch_end_def split: prod.splits)
    next
      case 2
      then show ?thesis using Suc.prems c s q by (intro exI [of _ "[Sent bytes]"]) (auto intro: exI [of _ 1])
    next
      case 3
      then show ?thesis using Suc.prems c s q es(1) one by (intro exI [of _ "Sent bytes # es"]) auto
    next
      case 4
      then show ?thesis using Suc.prems c s q es(1,4) one by (intro exI [of _ "Sent bytes # es"]) (auto simp: batch_received_Cons)
    qed
  qed
qed

subsection \<open>A device that answers\<close>

text \<open>The first round of each loop.\<close>

lemma attempt_counts:
  "MvlcMaximumResponseDatagrams = Suc 7" "MvlcTransactionAttemptCount = Suc 2" "MvlcFingerprintReadAttemptCount = Suc 5"
  by (simp_all add: MvlcMaximumResponseDatagrams_def MvlcTransactionAttemptCount_def MvlcFingerprintReadAttemptCount_def)

lemmas at_least_once =
  upload_loop.simps(2) [where n = 7, folded attempt_counts]
  execute_loop.simps(2) [where n = 7, folded attempt_counts]
  local_write_loop.simps(2) [where n = 7, folded attempt_counts]
  transaction_loop.simps(2) [where n = 2, folded attempt_counts]
  batch_attempts.simps(2) [where n = 5, folded attempt_counts]

lemma length_EncodeMvlcWordsLittleEndian [simp]: "length (EncodeMvlcWordsLittleEndian ws) = 4 * length ws"
  by (simp add: EncodeMvlcWordsLittleEndian_eq)

lemma received_packet:
  assumes "ws \<noteq> []" "length ws \<le> 2248" "header_magic h0 = 0" "header_channel h0 \<le> 1" "header_words h0 = length ws"
    and "split_frames ws = (True, fs)"
  shows "received_frames \<lparr>rx_status = Received, rx_bytesReceived = 4 * (length ws + 2), rx_error = [],
     rx_data = EncodeMvlcWordsLittleEndian (h0 # h1 # ws)\<rparr> = Inr fs"
proof -
  let ?data = "EncodeMvlcWordsLittleEndian (h0 # h1 # ws)"
  have len: "length ?data \<le> length empty_buffer" using assms(2) by (simp add: empty_buffer_def MvlcCommandResponseBufferSize_def)
  have "ParseMvlcCommandPacket (receive_into empty_buffer ?data) (4 * (length ws + 2))
      = Some \<lparr>cp_success = True, cp_frames = fs, cp_error = None\<rparr>"
    using ParseMvlcCommandPacket_eq [OF assms(1), of h0 h1] assms(3-)
    unfolding receive_into_front [OF len] by (simp add: EncodeMvlcWordsLittleEndian_eq del: le.encode_simps)
  then show ?thesis using assms(2) by (simp add: received_frames_def MvlcCommandResponseBufferSize_def)
qed

text \<open>A transport that plays back a list of packets and accepts every send; nobody cancels.\<close>

definition reply_packet :: "u32 list \<Rightarrow> TransportReceiveResult" where
  "reply_packet ws = \<lparr>rx_status = Received, rx_bytesReceived = 4 * (length ws + 2), rx_error = [],
     rx_data = EncodeMvlcWordsLittleEndian (of_nat (length ws) # 0 # ws)\<rparr>"

definition playback :: "TransportReceiveResult list transport" where
  "playback = \<lparr>t_send = (\<lambda>b w. (\<lparr>tr_success = True, tr_error = []\<rparr>, w)),
     t_receive = (\<lambda>n t w. case w of [] \<Rightarrow> (\<lparr>rx_status = Timeout, rx_bytesReceived = 0, rx_error = [], rx_data = []\<rparr>, [])
       | r # rs \<Rightarrow> (if rx_bytesReceived r \<le> n \<and> length (rx_data r) = rx_bytesReceived r then (r, rs)
                    else (\<lparr>rx_status = Error, rx_bytesReceived = 0, rx_error = [], rx_data = []\<rparr>, rs))),
     t_cancelled = (\<lambda>w. (False, w))\<rparr>"

lemma playback_reports_capacity: "reports_capacity playback"
  by (auto simp: reports_capacity_def playback_def Let_def split: list.splits)

subsection \<open>Properties\<close>

lemma RunStackTransaction_observed:
  assumes "RunStackTransaction (observed T) ops refs (w, []) = (r, refs', w', es)"
  shows "transaction_sound ops MvlcTransactionAttemptCount refs es r refs'"
  using transaction_loop_observed [of T ops MvlcTransactionAttemptCount new_execution refs w "[]" r refs' w' es] assms
  by (simp add: RunStackTransaction_def retryable_def new_execution_def)

lemma low_half: "(ucast ((x :: u32) AND 0xFFFF) :: u16) = ucast x"
proof -
  have low: "(0xFFFF :: u32) = mask 16" by (simp add: mask_eq_exp_minus_1)
  show ?thesis unfolding low by (rule bit_word_eqI) (auto simp: bit_simps)
qed

text \<open>The first attempt of a transaction on a device that answers both requests at once.\<close>

lemma transaction_first_attempt:
  fixes T :: "'w transport"
  assumes live: "\<And>w. t_cancelled T w = (False, w)"
    and up: "t_send T (upload_bytes ops u k) w0 = (s1, w1)" "tr_success s1"
      "t_receive T MvlcCommandResponseBufferSize MvlcCommandResponseTimeoutMilliseconds w1 = (r1, w2)"
      "received_frames r1 = Inr [ack1]" "fv_success (ValidateMvlcStackUploadFrame ack1 u)"
    and ex: "t_send T (execute_bytes (u + 1)) w2 = (s2, w3)" "tr_success s2"
      "t_receive T MvlcCommandResponseBufferSize MvlcCommandResponseTimeoutMilliseconds w3 = (r2, w4)"
      "received_frames r2 = Inr [ack2, f]" "fv_success (ValidateMvlcStackExecuteSuperFrame ack2 (u + 1))" "good_reply k f"
  shows "RunStackTransaction T ops \<lparr>nextSuperReference = u, nextStackReference = k\<rparr> w0
    = (\<lparr>ex_success = True, ex_retryDisposition = Stop, ex_stackFrame = f, ex_error = None\<rparr>,
       \<lparr>nextSuperReference = u + 2, nextStackReference = k + 1\<rparr>, w4)"
proof -
  have matches: "fv_success (ValidateMatchingSuperFrame g v e) \<Longrightarrow> fv_matches (ValidateMatchingSuperFrame g v e)" for g v e
    by (auto simp: ValidateMatchingSuperFrame_def unrelated_frame_def rejected_frame_def accepted_frame_def split: if_splits)
  have stack: "fv_matches (ValidateMvlcStackExecutionFrame f k)" "fv_success (ValidateMvlcStackExecutionFrame f k)"
      "\<not> fv_matches (ValidateMvlcStackExecuteSuperFrame f (u + 1))"
    using ex(6) by (auto simp: execution_frame_success good_reply_def ValidateMvlcStackExecutionFrame_def accepted_frame_def
        MvlcStackErrorFrameType_def MvlcStackFrameType_def ValidateMvlcStackExecuteSuperFrame_def ValidateMatchingSuperFrame_def
        IsMatchingMvlcSuperFrame_def MvlcSuperFrameType_def unrelated_frame_def)
  have upload: "UploadStack T u k ops w0 = (Inr (), w2)"
    using up live matches [of ack1 u TransientStackRejected]
    by (simp add: UploadStack_def SendWords_def ReceiveFrames_def at_least_once
        ValidateMvlcStackUploadFrame_def)
  have execute: "ExecuteStack T (u + 1) k w2 = (\<lparr>ex_success = True, ex_retryDisposition = Stop, ex_stackFrame = f, ex_error = None\<rparr>, w4)"
    using ex live matches [of ack2 "u + 1" ImmediateTriggerRejected] stack
    by (simp add: ExecuteStack_def SendWords_def ReceiveFrames_def at_least_once
        ValidateMvlcStackExecuteSuperFrame_def)
  show ?thesis
    using upload execute live
    by (simp add: RunStackTransaction_def at_least_once Let_def add.assoc)
qed

text \<open>A session with the device, played back: the acknowledged upload, then the trigger with its stack frame.\<close>

definition sample_replies :: "TransportReceiveResult list" where
  "sample_replies = [reply_packet [0xF1000001, 0x01010007], reply_packet [0xF1000001, 0x01010008, 0xF3000002, 5, 0xABCD1234]]"

definition sample_refs :: references where
  "sample_refs = \<lparr>nextSuperReference = 7, nextStackReference = 5\<rparr>"

definition sample_stack_frame :: MvlcFrame where
  "sample_stack_frame = frame_of [0xF3000002, 5, 0xABCD1234]"

lemma sample_frames:
  "received_frames (reply_packet [0xF1000001, 0x01010007]) = Inr [frame_of [0xF1000001, 0x01010007]]"
  "received_frames (reply_packet [0xF1000001, 0x01010008, 0xF3000002, 5, 0xABCD1234])
     = Inr [frame_of [0xF1000001, 0x01010008], sample_stack_frame]"
  unfolding reply_packet_def sample_stack_frame_def
  by (intro received_packet; simp; code_simp)+

lemma sample_transaction:
  "RunStackTransaction (observed playback) ops sample_refs (sample_replies, [])
    = (\<lparr>ex_success = True, ex_retryDisposition = Stop, ex_stackFrame = sample_stack_frame, ex_error = None\<rparr>,
       \<lparr>nextSuperReference = 9, nextStackReference = 6\<rparr>, [],
       [Sent (upload_bytes ops 7 5), Got (reply_packet [0xF1000001, 0x01010007]),
        Sent (execute_bytes 8), Got (reply_packet [0xF1000001, 0x01010008, 0xF3000002, 5, 0xABCD1234])])"
proof -
  have frames: "good_reply 5 sample_stack_frame"
      "fv_success (ValidateMvlcStackUploadFrame (frame_of [0xF1000001, 0x01010007]) 7)"
      "fv_success (ValidateMvlcStackExecuteSuperFrame (frame_of [0xF1000001, 0x01010008]) 8)"
    by code_simp+
  let ?p1 = "reply_packet [0xF1000001, 0x01010007]"
  let ?p2 = "reply_packet [0xF1000001, 0x01010008, 0xF3000002, 5, 0xABCD1234]"
  let ?l1 = "[Sent (upload_bytes ops 7 5)]"
  let ?l2 = "?l1 @ [Got ?p1]"
  let ?l3 = "?l2 @ [Sent (execute_bytes 8)]"
  let ?ok = "\<lparr>tr_success = True, tr_error = []\<rparr>"
  have "RunStackTransaction (observed playback) ops \<lparr>nextSuperReference = 7, nextStackReference = 5\<rparr> ([?p1, ?p2], [])
    = (\<lparr>ex_success = True, ex_retryDisposition = Stop, ex_stackFrame = sample_stack_frame, ex_error = None\<rparr>,
       \<lparr>nextSuperReference = 7 + 2, nextStackReference = 5 + 1\<rparr>, ([], ?l3 @ [Got ?p2]))"
  proof (rule transaction_first_attempt)
    show "\<And>w. t_cancelled (observed playback) w = (False, w)" by (auto simp: observed_def playback_def)
    show "t_send (observed playback) (upload_bytes ops 7 5) ([?p1, ?p2], []) = (?ok, ([?p1, ?p2], ?l1))" by (simp add: playback_def)
    show "t_receive (observed playback) MvlcCommandResponseBufferSize MvlcCommandResponseTimeoutMilliseconds ([?p1, ?p2], ?l1)
        = (?p1, ([?p2], ?l2))" by (simp add: playback_def reply_packet_def MvlcCommandResponseBufferSize_def)
    show "t_send (observed playback) (execute_bytes (7 + 1)) ([?p2], ?l2) = (?ok, ([?p2], ?l3))" by (simp add: playback_def)
    show "t_receive (observed playback) MvlcCommandResponseBufferSize MvlcCommandResponseTimeoutMilliseconds ([?p2], ?l3)
        = (?p2, ([], ?l3 @ [Got ?p2]))" by (simp add: playback_def reply_packet_def MvlcCommandResponseBufferSize_def)
    show "fv_success (ValidateMvlcStackExecuteSuperFrame (frame_of [0xF1000001, 0x01010008]) (7 + 1))" using frames(3) by simp
  qed (rule frames sample_frames | simp)+
  then show ?thesis by (simp add: sample_refs_def sample_replies_def)
qed

text \<open>A match of the batch parser has a value per address.\<close>

lemma read_batch_values_length: "read_batch_values p k as = Some (Some vs) \<Longrightarrow> length vs = length as"
  by (induction p k as arbitrary: vs rule: read_batch_values.induct) (auto split: Option.bind_splits if_splits)

lemma scan_batch_reply_length:
  "scan_batch_reply p e as n k = Some r \<Longrightarrow> br_status r = Match \<Longrightarrow> length (br_values r) = length as"
proof (induction "n - k" arbitrary: k rule: less_induct)
  case less
  have IH: "scan_batch_reply p e as n (Suc (k + m)) = Some r \<Longrightarrow> k < n \<Longrightarrow> length (br_values r) = length as" for m
    using less.hyps [of "Suc (k + m)"] less.prems(2) by simp
  show ?case
    using less.prems
    by (subst (asm) scan_batch_reply.simps)
       (auto simp: Let_def split: Option.bind_splits if_splits option.splits dest: IH read_batch_values_length)
qed

lemma batch_match_length:
  "ParseMvlcLocalRegisterBatchReadReply p n u as = Some r \<Longrightarrow> br_status r = Match \<Longrightarrow> length (br_values r) = length as"
  by (auto simp: ParseMvlcLocalRegisterBatchReadReply_def Let_def split: if_splits Option.bind_splits dest: scan_batch_reply_length)

text \<open>
  (C15) Where a read value comes from: when \<^verbatim>\<open>ReadVmeD16\<close> succeeds, then for one of the at most
  three stack references it drew, the upload of exactly this read was sent, then a trigger, and
  after it a packet arrived with a stack frame of three words for that reference and without
  error flags, and the value is the low half of its last word. This holds of every transport.
\<close>
theorem read_value_provenance:
  assumes "ReadVmeD16 (observed T) address refs (w, []) = (Inr v, refs', w', es)"
  shows "\<exists>i < MvlcTransactionAttemptCount. \<exists>f. answered (EncodeMvlcVmeReadD16Words address) (nextStackReference refs + of_nat i) es f
     \<and> length (f_words f) = 3 \<and> v = ucast (f_words f ! 2)"
proof -
  obtain x refs1 w1 l1 where x: "RunStackTransaction (observed T) (EncodeMvlcVmeReadD16Words address) refs (w, []) = (x, refs1, w1, l1)"
    by (cases "RunStackTransaction (observed T) (EncodeMvlcVmeReadD16Words address) refs (w, [])") auto
  from RunStackTransaction_observed [OF x] show ?thesis
    using assms x
    by (auto simp: ReadVmeD16_def transaction_sound_def ParseMvlcVmeReadD16Reply_def low_half split: if_splits)
qed



theorem read_value_provenance_witness:
  "\<exists>i < MvlcTransactionAttemptCount. \<exists>f. answered (EncodeMvlcVmeReadD16Words 0x6040) (5 + of_nat i)
      [Sent (upload_bytes (EncodeMvlcVmeReadD16Words 0x6040) 7 5), Got (reply_packet [0xF1000001, 0x01010007]),
       Sent (execute_bytes 8), Got (reply_packet [0xF1000001, 0x01010008, 0xF3000002, 5, 0xABCD1234])] f
     \<and> length (f_words f) = 3 \<and> (0x1234 :: u16) = ucast (f_words f ! 2)"
proof -
  have "ReadVmeD16 (observed playback) 0x6040 sample_refs (sample_replies, [])
      = (Inr 0x1234, \<lparr>nextSuperReference = 9, nextStackReference = 6\<rparr>, [],
         [Sent (upload_bytes (EncodeMvlcVmeReadD16Words 0x6040) 7 5), Got (reply_packet [0xF1000001, 0x01010007]),
          Sent (execute_bytes 8), Got (reply_packet [0xF1000001, 0x01010008, 0xF3000002, 5, 0xABCD1234])])"
    by (simp add: ReadVmeD16_def sample_transaction ParseMvlcVmeReadD16Reply_def sample_stack_frame_def frame_of_def)
  from read_value_provenance [OF this] show ?thesis by (simp add: sample_refs_def)
qed

text \<open>
  (C37) What a write does to the bus, on every transport and whatever comes back: it sends at
  most three attempts (six requests), each the upload of exactly this write followed at most
  by its trigger, each under references not used before, and the counters come out advanced
  accordingly; and it reports success only after an error-free stack frame of two words has
  answered one of these attempts.
\<close>
theorem write_requests_and_acknowledgement:
  assumes "WriteVmeD16 (observed T) address v refs (w, []) = (r, refs', w', es)"
  shows "attempt_sequence (EncodeMvlcVmeWriteD16Words address v) MvlcTransactionAttemptCount refs (sends es) refs'
    \<and> length (sends es) \<le> 6
    \<and> (r = Inr () \<longrightarrow> (\<exists>i < MvlcTransactionAttemptCount. \<exists>f. length (f_words f) = 2
        \<and> answered (EncodeMvlcVmeWriteD16Words address v) (nextStackReference refs + of_nat i) es f))"
proof -
  obtain x refs1 w1 l1 where x: "RunStackTransaction (observed T) (EncodeMvlcVmeWriteD16Words address v) refs (w, []) = (x, refs1, w1, l1)"
    by (cases "RunStackTransaction (observed T) (EncodeMvlcVmeWriteD16Words address v) refs (w, [])") auto
  note sound = RunStackTransaction_observed [OF x]
  have same: "refs1 = refs'" "l1 = es" using assms x by (simp_all add: WriteVmeD16_def)
  then have seq: "attempt_sequence (EncodeMvlcVmeWriteD16Words address v) MvlcTransactionAttemptCount refs (sends es) refs'"
    using sound by (simp add: transaction_sound_def)
  then show ?thesis
    using assms x sound same attempt_sequence_length [OF seq]
    by (auto simp: WriteVmeD16_def transaction_sound_def ParseMvlcVmeWriteD16Reply_def MvlcTransactionAttemptCount_def split: if_splits)
qed

theorem write_requests_and_acknowledgement_witness:
  "attempt_sequence (EncodeMvlcVmeWriteD16Words 0x6070 3) MvlcTransactionAttemptCount sample_refs
     [upload_bytes (EncodeMvlcVmeWriteD16Words 0x6070 3) 7 5, execute_bytes 8] \<lparr>nextSuperReference = 9, nextStackReference = 6\<rparr>"
  using write_requests_and_acknowledgement [where T = playback and address = "0x6070" and v = 3 and refs = sample_refs and w = sample_replies]
  by (simp add: WriteVmeD16_def sample_transaction)

text \<open>
  A read comes back: on a device that is not cancelled, acknowledges the upload in its
  first packet and answers the trigger in the next one with the mirror and an error-free stack
  frame of three words, \<^verbatim>\<open>ReadVmeD16\<close> returns the value in that frame in the first attempt.
\<close>
theorem answered_read_succeeds:
  fixes T :: "'w transport"
  assumes live: "\<And>w. t_cancelled T w = (False, w)"
    and up: "t_send T (upload_bytes (EncodeMvlcVmeReadD16Words address) u k) w0 = (s1, w1)" "tr_success s1"
      "t_receive T MvlcCommandResponseBufferSize MvlcCommandResponseTimeoutMilliseconds w1 = (r1, w2)"
      "received_frames r1 = Inr [ack1]" "fv_success (ValidateMvlcStackUploadFrame ack1 u)"
    and ex: "t_send T (execute_bytes (u + 1)) w2 = (s2, w3)" "tr_success s2"
      "t_receive T MvlcCommandResponseBufferSize MvlcCommandResponseTimeoutMilliseconds w3 = (r2, w4)"
      "received_frames r2 = Inr [ack2, f]" "fv_success (ValidateMvlcStackExecuteSuperFrame ack2 (u + 1))" "good_reply k f"
    and "length (f_words f) = 3"
  shows "ReadVmeD16 T address \<lparr>nextSuperReference = u, nextStackReference = k\<rparr> w0
    = (Inr (ucast (f_words f ! 2)), \<lparr>nextSuperReference = u + 2, nextStackReference = k + 1\<rparr>, w4)"
  using transaction_first_attempt [OF live up ex] assms(13)
  by (simp add: ReadVmeD16_def ParseMvlcVmeReadD16Reply_def low_half)

theorem answered_read_succeeds_witness:
  "ReadVmeD16 playback 0x6040 \<lparr>nextSuperReference = 7, nextStackReference = 5\<rparr> sample_replies
    = (Inr 0x1234, \<lparr>nextSuperReference = 9, nextStackReference = 6\<rparr>, [])"
proof -
  let ?p2 = "reply_packet [0xF1000001, 0x01010008, 0xF3000002, 5, 0xABCD1234]"
  let ?ok = "\<lparr>tr_success = True, tr_error = []\<rparr>"
  have "ReadVmeD16 playback 0x6040 \<lparr>nextSuperReference = 7, nextStackReference = 5\<rparr> sample_replies
    = (Inr (ucast (f_words sample_stack_frame ! 2)), \<lparr>nextSuperReference = 7 + 2, nextStackReference = 5 + 1\<rparr>, [])"
  proof (rule answered_read_succeeds)
    show "t_send playback (upload_bytes (EncodeMvlcVmeReadD16Words 0x6040) 7 5) sample_replies = (?ok, sample_replies)"
      by (simp add: playback_def)
    show "t_receive playback MvlcCommandResponseBufferSize MvlcCommandResponseTimeoutMilliseconds sample_replies
        = (reply_packet [0xF1000001, 0x01010007], [?p2])"
      by (simp add: sample_replies_def playback_def reply_packet_def MvlcCommandResponseBufferSize_def)
    show "t_send playback (execute_bytes (7 + 1)) [?p2] = (?ok, [?p2])" by (simp add: playback_def)
    show "t_receive playback MvlcCommandResponseBufferSize MvlcCommandResponseTimeoutMilliseconds [?p2] = (?p2, [])"
      by (simp add: playback_def reply_packet_def MvlcCommandResponseBufferSize_def)
    show "fv_success (ValidateMvlcStackUploadFrame (frame_of [0xF1000001, 0x01010007]) 7)" by code_simp
    show "fv_success (ValidateMvlcStackExecuteSuperFrame (frame_of [0xF1000001, 0x01010008]) (7 + 1))" by code_simp
    show "good_reply 5 sample_stack_frame" by code_simp
    show "t_cancelled playback w = (False, w)" for w by (simp add: playback_def)
  qed (rule sample_frames | simp add: sample_stack_frame_def frame_of_def)+
  then show ?thesis by (simp add: sample_stack_frame_def frame_of_def)
qed

text \<open>
  A local-register write sends its one request, or nothing when the request is refused
  (then no reference is used up either), and reports success only after a super frame that
  mirrors its reference without a syntax error has arrived.
\<close>
theorem local_write_acknowledged:
  assumes "WriteLocalRegisters (observed T) writes u (w, []) = (r, u', w', es)"
  shows "(\<forall>words. BuildMvlcLocalRegisterWriteRequest u writes = Inr words \<longrightarrow>
       sends es = [EncodeMvlcWordsLittleEndian words] \<and> u' = u + 1)
    \<and> (\<forall>e. BuildMvlcLocalRegisterWriteRequest u writes = Inl e \<longrightarrow> es = [] \<and> u' = u \<and> r = Inl (Some (ProtocolError e)))
    \<and> (r = Inr () \<longrightarrow> (\<exists>f. frame_received f es \<and> IsMatchingMvlcSuperFrame f u \<and> f_flags f AND MvlcSyntaxErrorFlag = 0))"
proof (cases "BuildMvlcLocalRegisterWriteRequest u writes")
  case (Inl e)
  then show ?thesis using assms by (auto simp: WriteLocalRegisters_def Let_def)
next
  case (Inr ws)
  obtain q w1 l1 where q: "SendWords (observed T) ws (w, []) = (q, w1, l1)" by (cases "SendWords (observed T) ws (w, [])")
  obtain r2 w2 l2 where loop: "local_write_loop (observed T) u MvlcMaximumResponseDatagrams (w1, l1) = (r2, w2, l2)"
    by (cases "local_write_loop (observed T) u MvlcMaximumResponseDatagrams (w1, l1)")
  from local_write_loop_observed [OF loop] SendWords_observed [OF q] show ?thesis
    using assms Inr q loop by (auto simp: WriteLocalRegisters_def Let_def split: sum.splits intro: frame_received_Cons)
qed

theorem local_write_acknowledged_witness:
  "\<exists>f. frame_received f [Sent (EncodeMvlcWordsLittleEndian [MvlcCommandBufferStart, 0x01010007, 0x02041104, 1, MvlcCommandBufferEnd]),
      Got (reply_packet [0xF1000001, 0x01010007])]
    \<and> IsMatchingMvlcSuperFrame f 7 \<and> f_flags f AND MvlcSyntaxErrorFlag = 0"
proof -
  have "local_write_frames 7 [frame_of [0xF1000001, 0x01010007]] = Some (Inr ())" by code_simp
  then have "WriteLocalRegisters (observed playback) [\<lparr>lw_address = 0x1104, lw_value = 1\<rparr>] 7 (sample_replies, [])
    = (Inr (), 8, (tl sample_replies, [Sent (EncodeMvlcWordsLittleEndian [MvlcCommandBufferStart, 0x01010007, 0x02041104, 1, MvlcCommandBufferEnd]),
       Got (reply_packet [0xF1000001, 0x01010007])]))"
    using sample_frames(1)
    by (simp add: WriteLocalRegisters_def BuildMvlcLocalRegisterWriteRequest_def AppendWriteLocal_def SendWords_def ReceiveFrames_def
        MvlcReferenceWordCommand_def MvlcWriteLocalCommand_def playback_def sample_replies_def reply_packet_def
        at_least_once MvlcCommandResponseBufferSize_def)
  from local_write_acknowledged [OF this] show ?thesis by simp
qed

text \<open>
  A batch read of local registers, on a transport that reports no more bytes than it
  placed in the buffer: it never reads outside that buffer, it sends the one request at most
  six times and nothing else, and the values it returns are those the parser found in a
  packet that arrived, one per requested address.
\<close>
theorem local_batch_read_sound:
  assumes "ReadLocalRegisters (observed T) addresses u (w, []) = (r, u', w', es)" "reports_capacity T"
  shows "r \<noteq> None \<and> u' = u + 1
    \<and> (\<exists>m \<le> MvlcFingerprintReadAttemptCount. \<exists>ws. sends es = replicate m (EncodeMvlcWordsLittleEndian ws)
        \<and> (m > 0 \<longrightarrow> BuildMvlcLocalRegisterBatchReadRequest u addresses = Inr ws))
    \<and> (\<forall>vs. r = Some (Inr vs) \<longrightarrow> batch_received u addresses vs es \<and> length vs = length addresses)"
proof (cases "BuildMvlcLocalRegisterBatchReadRequest u addresses")
  case (Inl e)
  then show ?thesis using assms(1) by (auto simp: ReadLocalRegisters_def Let_def intro: exI [of _ 0])
next
  case (Inr ws)
  have length: "length vs = length addresses" if "batch_received u addresses vs es" for vs
    using that batch_match_length [of _ _ u addresses] by (fastforce simp: batch_received_def)
  obtain q w1 l1 where q: "batch_attempts (observed T) (EncodeMvlcWordsLittleEndian ws) u addresses MvlcFingerprintReadAttemptCount
      empty_buffer (w, []) = (q, w1, l1)"
    by (cases "batch_attempts (observed T) (EncodeMvlcWordsLittleEndian ws) u addresses MvlcFingerprintReadAttemptCount
      empty_buffer (w, [])")
  then have "r = q" "u' = u + 1" "es = l1" using assms(1) Inr by (simp_all add: ReadLocalRegisters_def Let_def)
  then show ?thesis using batch_attempts_observed [OF q assms(2)] Inr length by auto
qed

theorem local_batch_read_sound_witness:
  "\<exists>r u' w' es. ReadLocalRegisters (observed playback) [0x1200] 7 ([], []) = (r, u', w', es)
    \<and> r \<noteq> None \<and> u' = 8 \<and> length (sends es) \<le> 6"
proof -
  obtain r u' w' es where q: "ReadLocalRegisters (observed playback) [0x1200] 7 ([], []) = (r, u', w', es)"
    by (cases "ReadLocalRegisters (observed playback) [0x1200] 7 ([], [])") auto
  from local_batch_read_sound [OF q playback_reports_capacity] q show ?thesis
    by (auto simp: MvlcFingerprintReadAttemptCount_def)
qed

text \<open>
  Cancellation before the first attempt: when the flag is set, reads, writes and batch
  reads touch the transport not at all and report the cancellation.
\<close>
theorem cancelled_transactions_are_silent:
  fixes T :: "'w transport"
  assumes "\<And>w. t_cancelled T w = (True, w)"
  shows "ReadVmeD16 T address refs w = (Inl (Some InspectionCancelled), refs, w)
    \<and> WriteVmeD16 T address v refs w = (Inl (Some InspectionCancelled), refs, w)
    \<and> (addresses \<noteq> [] \<longrightarrow> ReadLocalRegisters T addresses u w = (Some (Inl (Some BatchReadCancelled)), u + 1, w))"
  by (simp add: assms ReadVmeD16_def WriteVmeD16_def ReadLocalRegisters_def RunStackTransaction_def
      BuildMvlcLocalRegisterBatchReadRequest_def at_least_once transaction_end_def batch_end_def new_execution_def)

theorem cancelled_transactions_are_silent_witness:
  "WriteVmeD16 (playback\<lparr>t_cancelled := \<lambda>w. (True, w)\<rparr>) 0x6070 3 sample_refs [] = (Inl (Some InspectionCancelled), sample_refs, [])"
  using cancelled_transactions_are_silent [of "playback\<lparr>t_cancelled := \<lambda>w. (True, w)\<rparr>" "0x6070" sample_refs "[]" 3 "[]" 0] by simp

end
