(* ===== verification/Module_Bus.thy ===== *)
theory Module_Bus
  imports Vme_Transaction Scp_Profile Text_Format
begin

text \<open>
  What the SCP operations on a module share: the ownership gate they consult
  (\<^verbatim>\<open>hardware/ScpCaptureOperation.h\<close>), the \<^verbatim>\<open>readRegister\<close> and \<^verbatim>\<open>writeRegister\<close> closures
  that each of them defines over \<^verbatim>\<open>ReadVmeD16\<close> and \<^verbatim>\<open>WriteVmeD16\<close> with its own reference
  counters, and the texts they report. The module behind the transport is not part of the
  program: \<open>mdpp\<close> is what the operations rely on of its registers, the locale
  \<open>honest_module\<close> says how the transport's world carries such a module, and a simulated
  controller with a module shows that the contract can be met.
\<close>

subsection \<open>The ownership gate\<close>

datatype ScpCaptureGateStatus = Allowed | CommunicationUnavailable | OwnershipLost | Cancelled

record ScpCaptureGateResult =
  g_status :: ScpCaptureGateStatus
  g_message :: string

text \<open>A gate is a callback: it is asked with the name of the operation and may act on the world.\<close>

type_synonym 'w gate = "string \<Rightarrow> 'w \<Rightarrow> ScpCaptureGateResult \<times> 'w"

text \<open>The counters of an operation, and the world its transport acts on.\<close>

type_synonym 'w bus = "references \<times> 'w"

definition readRegister :: "'w transport \<Rightarrow> u32 \<Rightarrow> u16 \<Rightarrow> 'w bus \<Rightarrow> (vme_error option + u16) \<times> 'w bus" where
  "readRegister transport base offset bus =
     ReadVmeD16 transport (base + ucast offset) (fst bus) (snd bus)"

definition writeRegister :: "'w transport \<Rightarrow> u32 \<Rightarrow> u16 \<Rightarrow> u16 \<Rightarrow> 'w bus \<Rightarrow> (vme_error option + unit) \<times> 'w bus" where
  "writeRegister transport base offset v bus =
     WriteVmeD16 transport (base + ucast offset) v (fst bus) (snd bus)"

subsection \<open>Texts\<close>

fun mvlc_error_text :: "mvlc_error \<Rightarrow> string" where
  "mvlc_error_text NoLocalRegistersRequested = ''No MVLC local registers were requested''"
| "mvlc_error_text NoLocalWritesRequested = ''No MVLC-local register writes were requested''"
| "mvlc_error_text MalformedEthernetPacket = ''receive: malformed MVLC Ethernet packet''"
| "mvlc_error_text InvalidCommandPipeHeader = ''receive: invalid MVLC command-pipe header''"
| "mvlc_error_text TruncatedResponseFrame = ''receive: truncated MVLC response frame''"
| "mvlc_error_text TransientStackRejected = ''MVLC rejected the transient VME stack''"
| "mvlc_error_text ImmediateTriggerRejected = ''MVLC rejected the immediate-stack trigger''"
| "mvlc_error_text LocalTransactionRejected = ''MVLC rejected the local-register transaction''"
| "mvlc_error_text CommandStackError = ''MVLC reported a command-stack error''"
| "mvlc_error_text VmeDeviceDidNotRespond = ''VME device did not respond''"
| "mvlc_error_text VmeBusError = ''VME bus error''"
| "mvlc_error_text CommandStackSyntaxError = ''MVLC command-stack syntax error''"
| "mvlc_error_text UnexpectedReadResponseSize = ''Unexpected VME-read response size''"
| "mvlc_error_text UnexpectedWriteResponseSize = ''Unexpected VME-write response size''"

fun vme_error_text :: "vme_error \<Rightarrow> string" where
  "vme_error_text (TransportText s) = s"
| "vme_error_text (ProtocolError e) = mvlc_error_text e"
| "vme_error_text ResponseTimedOut = ''receive: MVLC response timed out''"
| "vme_error_text TransportFailure = ''receive: MVLC transport error''"
| "vme_error_text ResponseExceedsBuffer = ''receive: MVLC response exceeds buffer''"
| "vme_error_text InspectionCancelled = ''MDPP inspection cancelled''"
| "vme_error_text NoUploadResponse = ''No matching MVLC stack-upload response''"
| "vme_error_text IncompleteReadResponse = ''Incomplete MVLC VME-read response''"
| "vme_error_text VmeTransactionFailed = ''MVLC VME transaction failed''"
| "vme_error_text LocalTransactionCancelled = ''MVLC local-register transaction cancelled''"
| "vme_error_text NoLocalResponse = ''No matching MVLC local-register response''"
| "vme_error_text MalformedBatchResponse = ''receive: malformed MVLC register-batch response''"
| "vme_error_text BatchReadCancelled = ''MVLC register-batch read cancelled''"
| "vme_error_text NoBatchResponse = ''No matching MVLC response after six register-batch attempts''"

definition error_text :: "vme_error option \<Rightarrow> string" where
  "error_text e = (case e of None \<Rightarrow> [] | Some e \<Rightarrow> vme_error_text e)"

text \<open>The conversion \<^verbatim>\<open>%04X\<close> of a 16-bit value.\<close>

definition hex_digit :: "nat \<Rightarrow> char" where
  "hex_digit d = char_of (if d < 10 then 48 + d else 55 + d)"

definition hex4 :: "u16 \<Rightarrow> string" where
  "hex4 v = map (\<lambda>k. hex_digit (unat v div 16 ^ k mod 16)) [3, 2, 1, 0]"

definition RegisterOperationError :: "string \<Rightarrow> string \<Rightarrow> u16 \<Rightarrow> vme_error option \<Rightarrow> string" where
  "RegisterOperationError operation nm offset e =
     ''Could not '' @ operation @ '' '' @ nm @ '' at register 0x'' @ hex4 offset @ '': '' @ error_text e"

lemma RegisterOperationError_not_Nil [simp]: "RegisterOperationError operation nm offset e \<noteq> []"
  by (simp add: RegisterOperationError_def)

subsection \<open>The module\<close>

text \<open>
  The registers the operations touch: the channel-quad selector, a bank of settings per
  quad of which the selected one is visible, and the remaining registers.
\<close>

record mdpp =
  selector :: u16
  banked :: "u16 \<Rightarrow> u16 \<Rightarrow> u16"
  global :: "u16 \<Rightarrow> u16"

definition mdpp_read :: "mdpp \<Rightarrow> u16 \<Rightarrow> u16" where
  "mdpp_read m r =
    (if r = Fw2051ScpSelectorRegister then selector m
     else if r \<in> set fw2051_registers then banked m (selector m) r else global m r)"

definition mdpp_write :: "mdpp \<Rightarrow> u16 \<Rightarrow> u16 \<Rightarrow> mdpp" where
  "mdpp_write m r v =
    (if r = Fw2051ScpSelectorRegister then m\<lparr>selector := v\<rparr>
     else if r \<in> set fw2051_registers
     then m\<lparr>banked := (banked m)(selector m := (banked m (selector m))(r := v))\<rparr>
     else m\<lparr>global := (global m)(r := v)\<rparr>)"

text \<open>
  An honest transport to a module at \<open>base\<close>: its world carries the module's registers, a
  read that returns shows the register, no read changes one, a write that is acknowledged
  has happened, and a write that failed has happened or not.
\<close>

locale honest_module =
  fixes T :: "'w transport" and base :: u32 and dev :: "'w \<Rightarrow> mdpp"
  assumes read_keeps: "readRegister T base r b = (x, b') \<Longrightarrow> dev (snd b') = dev (snd b)"
    and read_shows: "readRegister T base r b = (Inr v, b') \<Longrightarrow> v = mdpp_read (dev (snd b)) r"
    and write_happened: "writeRegister T base r v b = (Inr u, b') \<Longrightarrow> dev (snd b') = mdpp_write (dev (snd b)) r v"
    and write_maybe: "writeRegister T base r v b = (Inl e, b') \<Longrightarrow>
      dev (snd b') = dev (snd b) \<or> dev (snd b') = mdpp_write (dev (snd b)) r v"
    and cancelled_keeps: "dev (snd (t_cancelled T w)) = dev w"

text \<open>A module that also answers every access.\<close>

locale responsive_module = honest_module +
  assumes read_returns: "\<exists>v b'. readRegister T base r b = (Inr v, b')"
    and write_returns: "\<exists>b'. writeRegister T base r v b = (Inr (), b')"
begin

lemma read_answer: obtains b' where "readRegister T base r b = (Inr (mdpp_read (dev (snd b)) r), b')" "dev (snd b') = dev (snd b)"
  using read_returns [of r b] read_keeps read_shows by metis

lemma write_answer: obtains b' where "writeRegister T base r v b = (Inr (), b')" "dev (snd b') = mdpp_write (dev (snd b)) r v"
  using write_returns [of r v b] write_happened by metis

end

subsection \<open>Callbacks\<close>

text \<open>A callback of the caller, on the world behind an operation's counters.\<close>

definition call :: "('w \<Rightarrow> 'a \<times> 'w) \<Rightarrow> 'w bus \<Rightarrow> 'a \<times> 'w bus" where
  "call f bus = (case f (snd bus) of (a, w) \<Rightarrow> (a, (fst bus, w)))"

lemma snd_call [simp]: "snd (snd (call f bus)) = snd (f (snd bus))"
  by (simp add: call_def split: prod.split)

definition GateFailureMessage :: "ScpCaptureGateResult \<Rightarrow> string \<Rightarrow> string" where
  "GateFailureMessage g fallback = (if g_message g = [] then fallback else g_message g)"

lemma GateFailureMessage_not_Nil [simp]: "fallback \<noteq> [] \<Longrightarrow> GateFailureMessage g fallback \<noteq> []"
  by (simp add: GateFailureMessage_def)

text \<open>The module is left alone by the caller's callbacks.\<close>

locale supervised_module = honest_module +
  fixes gate :: "'w gate" and delay :: "nat \<Rightarrow> 'w \<Rightarrow> 'w" and checkpoint :: "'c \<Rightarrow> 'w \<Rightarrow> bool \<times> 'w"
  assumes gate_keeps: "dev (snd (gate n w)) = dev w"
    and delay_keeps: "dev (delay d w) = dev w"
    and checkpoint_keeps: "dev (snd (checkpoint c w)) = dev w"

subsection \<open>Invariants of an operation\<close>

text \<open>
  A property of the world that reads, the writes an operation may make and the callbacks
  keep; an operation made of these keeps it too. The operations show it once, for any such
  property.
\<close>

locale world_invariant =
  fixes T :: "'w transport" and base :: u32
    and gate :: "'w gate" and delay :: "nat \<Rightarrow> 'w \<Rightarrow> 'w" and checkpoint :: "'c \<Rightarrow> 'w \<Rightarrow> bool \<times> 'w"
    and may_write :: "u16 \<Rightarrow> u16 \<Rightarrow> bool" and I :: "'w \<Rightarrow> bool"
  assumes read_I: "I (snd b) \<Longrightarrow> I (snd (snd (readRegister T base r b)))"
    and write_I: "may_write r v \<Longrightarrow> I (snd b) \<Longrightarrow> I (snd (snd (writeRegister T base r v b)))"
    and cancelled_I: "I w \<Longrightarrow> I (snd (t_cancelled T w))"
    and gate_I: "I w \<Longrightarrow> I (snd (gate n w))"
    and delay_I: "I w \<Longrightarrow> I (delay d w)"
    and checkpoint_I: "I w \<Longrightarrow> I (snd (checkpoint c w))"

text \<open>What the selector write leaves alone, on an honest module.\<close>

definition settings_are :: "(u16 \<Rightarrow> u16 \<Rightarrow> u16) \<Rightarrow> (u16 \<Rightarrow> u16) \<Rightarrow> mdpp \<Rightarrow> bool" where
  "settings_are B G m \<longleftrightarrow> banked m = B \<and> global m = G"

sublocale supervised_module \<subseteq> settings: world_invariant T base gate delay checkpoint "\<lambda>r v. r = Fw2051ScpSelectorRegister"
  "\<lambda>w. settings_are B G (dev w)" for B G
proof unfold_locales
  fix b r v
  show "settings_are B G (dev (snd b)) \<Longrightarrow> settings_are B G (dev (snd (snd (readRegister T base r b))))"
    using read_keeps [of r b] by (cases "readRegister T base r b") auto
  show "r = Fw2051ScpSelectorRegister \<Longrightarrow> settings_are B G (dev (snd b)) \<Longrightarrow>
      settings_are B G (dev (snd (snd (writeRegister T base r v b))))"
    using write_happened [of r v b] write_maybe [of r v b]
    by (cases "writeRegister T base r v b"; cases "fst (writeRegister T base r v b)") (auto simp: settings_are_def mdpp_write_def)
qed (auto simp: gate_keeps delay_keeps checkpoint_keeps cancelled_keeps)

text \<open>
  Every transport, observed: whatever happens, the requests on the wire are reads, triggers
  and the permitted writes.
\<close>

definition permitted :: "u32 \<Rightarrow> (u16 \<Rightarrow> u16 \<Rightarrow> bool) \<Rightarrow> byte list \<Rightarrow> bool" where
  "permitted base may_write bytes \<longleftrightarrow>
     (\<exists>u k r. bytes = upload_bytes (EncodeMvlcVmeReadD16Words (base + ucast (r :: u16))) u k)
     \<or> (\<exists>u k r v. may_write r v \<and> bytes = upload_bytes (EncodeMvlcVmeWriteD16Words (base + ucast r) v) u k)
     \<or> (\<exists>u. bytes = execute_bytes u)"

definition only_permitted :: "u32 \<Rightarrow> (u16 \<Rightarrow> u16 \<Rightarrow> bool) \<Rightarrow> event list \<Rightarrow> bool" where
  "only_permitted base may_write es \<longleftrightarrow> list_all (permitted base may_write) (sends es)"

lemma attempts_permitted:
  assumes "attempt_sequence ops n refs bs refs'"
    and "(\<exists>r :: u16. ops = EncodeMvlcVmeReadD16Words (base + ucast r))
      \<or> (\<exists>r v. may_write r v \<and> ops = EncodeMvlcVmeWriteD16Words (base + ucast r) v)"
  shows "list_all (permitted base may_write) bs"
proof -
  have "permitted base may_write (upload_bytes ops u k)" "permitted base may_write (execute_bytes u)" for u k
    using assms(2) unfolding permitted_def by blast+
  with assms(1) show ?thesis by (induction rule: attempt_sequence.induct) auto
qed

text \<open>A callback that does not touch the log.\<close>

definition unobserved :: "('w \<Rightarrow> 'a \<times> 'w) \<Rightarrow> 'w \<times> event list \<Rightarrow> 'a \<times> 'w \<times> event list" where
  "unobserved f wl = (case f (fst wl) of (a, w) \<Rightarrow> (a, w, snd wl))"

lemma snd_unobserved [simp]: "snd (snd (unobserved f wl)) = snd wl"
  by (simp add: unobserved_def split: prod.split)

lemma run_permitted:
  assumes "RunStackTransaction (observed T) ops refs (w, l) = (r, refs', w', l')"
    and "(\<exists>r :: u16. ops = EncodeMvlcVmeReadD16Words (base + ucast r))
      \<or> (\<exists>r v. may_write r v \<and> ops = EncodeMvlcVmeWriteD16Words (base + ucast r) v)"
    and "only_permitted base may_write l"
  shows "only_permitted base may_write l'"
proof -
  obtain es where "l' = l @ es" "transaction_sound ops MvlcTransactionAttemptCount refs es r refs'"
    using transaction_loop_observed [of T ops MvlcTransactionAttemptCount new_execution refs w l r refs' w' l'] assms(1)
    by (auto simp: RunStackTransaction_def retryable_def new_execution_def)
  then show ?thesis
    using assms(3) attempts_permitted [OF _ assms(2)] by (auto simp: only_permitted_def transaction_sound_def)
qed

interpretation wire: world_invariant "observed T" base "\<lambda>n. unobserved (gate n)" "\<lambda>d wl. (delay d (fst wl), snd wl)"
    "\<lambda>c. unobserved (checkpoint c)" may_write "\<lambda>wl. only_permitted base may_write (snd wl)"
  for T :: "'w transport" and base and gate :: "'w gate" and delay and checkpoint :: "'c \<Rightarrow> 'w \<Rightarrow> bool \<times> 'w" and may_write
proof unfold_locales
  fix b :: "('w \<times> event list) bus" and r v
  obtain refs w l where b: "b = (refs, w, l)" by (cases b)
  show "only_permitted base may_write (snd (snd b)) \<Longrightarrow>
      only_permitted base may_write (snd (snd (snd (readRegister (observed T) base r b))))"
    using run_permitted [of T "EncodeMvlcVmeReadD16Words (base + ucast r)" refs w l _ _ _ _ base may_write] b
    by (fastforce simp: readRegister_def ReadVmeD16_def split: prod.splits)
  show "may_write r v \<Longrightarrow> only_permitted base may_write (snd (snd b)) \<Longrightarrow>
      only_permitted base may_write (snd (snd (snd (writeRegister (observed T) base r v b))))"
    using run_permitted [of T "EncodeMvlcVmeWriteD16Words (base + ucast r) v" refs w l _ _ _ _ base may_write] b
    by (fastforce simp: writeRegister_def WriteVmeD16_def split: prod.splits)
  show "only_permitted base may_write (snd wl) \<Longrightarrow> only_permitted base may_write (snd (snd (t_cancelled (observed T) wl)))" for wl
    by (cases wl) (simp split: prod.split)
qed auto

end
