(* ===== verification/Simulated_Module.thy ===== *)
theory Simulated_Module
  imports Module_Bus
begin

text \<open>
  A controller with one module behind it, as a transport: it takes the command buffers the
  program sends apart, keeps the uploaded stack, runs it on the trigger and queues the reply
  packets. It meets the contract \<open>responsive_module\<close>, so the theorems on the hardware
  operations speak about a bus that exists, down to the bytes.
\<close>

record sim =
  sim_module :: mdpp
  sim_reference :: u32
  sim_operations :: "u32 list"
  sim_replies :: "TransportReceiveResult list"

definition words_of :: "byte list \<Rightarrow> u32 list" where
  "words_of bytes = map (\<lambda>i. the (LoadLittleEndian32 bytes (4 * i))) [0..<length bytes div 4]"

lemma words_of_encode: "words_of (EncodeMvlcWordsLittleEndian ws) = ws"
proof -
  have "words_of (le.encode ws) = map ((!) ws) [0..<length ws]" by (simp add: words_of_def le.load_encode_0)
  then show ?thesis by (simp add: EncodeMvlcWordsLittleEndian_eq map_nth)
qed

text \<open>The values of the local writes in a command buffer, without its start, reference and end words.\<close>

fun write_values :: "u32 list \<Rightarrow> u32 list" where
  "write_values (address # v # rest) = v # write_values rest"
| "write_values _ = []"

definition sim_run :: "u32 \<Rightarrow> u32 \<Rightarrow> sim \<Rightarrow> sim" where
  "sim_run base mirror w =
    (case sim_operations w of
       [command, address] \<Rightarrow>
         w\<lparr>sim_replies := sim_replies w @ [reply_packet [0xF1000001, mirror, 0xF3000002, sim_reference w,
             ucast (mdpp_read (sim_module w) (ucast (address - base)))]]\<rparr>
     | [command, address, v] \<Rightarrow>
         w\<lparr>sim_module := mdpp_write (sim_module w) (ucast (address - base)) (ucast v),
           sim_replies := sim_replies w @ [reply_packet [0xF1000001, mirror, 0xF3000001, sim_reference w]]\<rparr>
     | _ \<Rightarrow> w)"

definition sim_send :: "u32 \<Rightarrow> byte list \<Rightarrow> sim \<Rightarrow> sim" where
  "sim_send base bytes w =
    (case words_of bytes of
       start # mirror # commands \<Rightarrow>
         (case write_values (butlast commands) of
            first # marker # reference # operations \<Rightarrow>
              if first = MvlcStackStartCommand
              then w\<lparr>sim_reference := reference, sim_operations := butlast operations,
                     sim_replies := sim_replies w @ [reply_packet [0xF1000001, mirror]]\<rparr>
              else sim_run base mirror w
          | _ \<Rightarrow> w)
     | _ \<Rightarrow> w)"

definition simulated :: "u32 \<Rightarrow> sim transport" where
  "simulated base = \<lparr>t_send = (\<lambda>bytes w. (\<lparr>tr_success = True, tr_error = []\<rparr>, sim_send base bytes (w\<lparr>sim_replies := []\<rparr>))),
     t_receive = (\<lambda>capacity timeout w. case sim_replies w of
         [] \<Rightarrow> (\<lparr>rx_status = Timeout, rx_bytesReceived = 0, rx_error = [], rx_data = []\<rparr>, w)
       | r # rs \<Rightarrow> (r, w\<lparr>sim_replies := rs\<rparr>)),
     t_cancelled = (\<lambda>w. (False, w))\<rparr>"

lemma execute_values: "write_values (butlast (drop 2 (BuildMvlcStackExecuteRequest u))) = [0, 0, ucast MvlcImmediateStackOffset, MvlcImmediateTrigger]"
  by (simp add: BuildMvlcStackExecuteRequest_def AppendWriteLocal_def)

lemma simulated_upload:
  assumes "ops = [c, a] \<or> ops = [c, a, v]"
  shows "t_send (simulated base) (upload_bytes ops u k) w
    = (\<lparr>tr_success = True, tr_error = []\<rparr>, w\<lparr>sim_reference := k, sim_operations := ops,
        sim_replies := [reply_packet [0xF1000001, MvlcReferenceWordCommand OR ucast u]]\<rparr>)"
  using assms
  by (auto simp: simulated_def sim_send_def words_of_encode BuildMvlcStackUploadRequest_def AppendWriteLocal_def Let_def)

lemma simulated_execute:
  "t_send (simulated base) (execute_bytes u) w
    = (\<lparr>tr_success = True, tr_error = []\<rparr>, sim_run base (MvlcReferenceWordCommand OR ucast u) (w\<lparr>sim_replies := []\<rparr>))"
  by (simp add: simulated_def sim_send_def words_of_encode BuildMvlcStackExecuteRequest_def AppendWriteLocal_def
      MvlcStackStartCommand_def)

lemma simulated_frames:
  fixes mirror k d :: u32
  shows "received_frames (reply_packet [0xF1000001, mirror]) = Inr [frame_of [0xF1000001, mirror]]"
    and "received_frames (reply_packet [0xF1000001, mirror, 0xF3000002, k, d])
      = Inr [frame_of [0xF1000001, mirror], frame_of [0xF3000002, k, d]]"
    and "received_frames (reply_packet [0xF1000001, mirror, 0xF3000001, k])
      = Inr [frame_of [0xF1000001, mirror], frame_of [0xF3000001, k]]"
proof -
  have hdr: "header_words 0xF1000001 = 1" "header_words 0xF3000002 = 2" "header_words 0xF3000001 = 1" by code_simp+
  have pkt: "header_magic 2 = 0 \<and> header_channel 2 \<le> 1 \<and> header_words 2 = 2"
      "header_magic 4 = 0 \<and> header_channel 4 \<le> 1 \<and> header_words 4 = 4"
      "header_magic 5 = 0 \<and> header_channel 5 \<le> 1 \<and> header_words 5 = 5"
    by code_simp+
  show "received_frames (reply_packet [0xF1000001, mirror]) = Inr [frame_of [0xF1000001, mirror]]"
    using pkt hdr unfolding reply_packet_def by (intro received_packet) simp_all
  show "received_frames (reply_packet [0xF1000001, mirror, 0xF3000002, k, d])
      = Inr [frame_of [0xF1000001, mirror], frame_of [0xF3000002, k, d]]"
    using pkt hdr unfolding reply_packet_def by (intro received_packet) simp_all
  show "received_frames (reply_packet [0xF1000001, mirror, 0xF3000001, k])
      = Inr [frame_of [0xF1000001, mirror], frame_of [0xF3000001, k]]"
    using pkt hdr unfolding reply_packet_def by (intro received_packet) simp_all
qed

lemma simulated_validations:
  "fv_success (ValidateMvlcStackUploadFrame (frame_of [0xF1000001, MvlcReferenceWordCommand OR ucast u]) u)"
  "fv_success (ValidateMvlcStackExecuteSuperFrame (frame_of [0xF1000001, MvlcReferenceWordCommand OR ucast u]) u)"
  "good_reply k (frame_of [0xF3000002, k, d])" "good_reply k (frame_of [0xF3000001, k])"
  by (simp_all add: ValidateMvlcStackUploadFrame_def ValidateMvlcStackExecuteSuperFrame_def ValidateMatchingSuperFrame_def
      IsMatchingMvlcSuperFrame_def frame_of_def accepted_frame_def good_reply_def MvlcSuperFrameType_def MvlcStackFrameType_def)

lemma ucast_word16_word32 [simp]: "(ucast (ucast (v :: u16) :: u32) :: u16) = v"
  by (rule bit_word_eqI) (simp add: bit_simps)

lemma simulated_receive:
  "sim_replies w = [r] \<Longrightarrow> t_receive (simulated base) n t w = (r, w\<lparr>sim_replies := []\<rparr>)"
  by (simp add: simulated_def)

lemma simulated_transaction:
  fixes w :: sim
  assumes ops: "ops = [c, a] \<and> ws = [0xF3000002, k, ucast (mdpp_read (sim_module w) (ucast (a - base)))] \<and> m = sim_module w
     \<or> ops = [c, a, v] \<and> ws = [0xF3000001, k] \<and> m = mdpp_write (sim_module w) (ucast (a - base)) (ucast v)"
  shows "\<exists>w'. RunStackTransaction (simulated base) ops \<lparr>nextSuperReference = u, nextStackReference = k\<rparr> w
    = (\<lparr>ex_success = True, ex_retryDisposition = Stop, ex_stackFrame = frame_of ws, ex_error = None\<rparr>,
       \<lparr>nextSuperReference = u + 2, nextStackReference = k + 1\<rparr>, w') \<and> sim_module w' = m"
proof -
  let ?ack = "\<lambda>u. frame_of [0xF1000001, MvlcReferenceWordCommand OR ucast (u :: u16)]"
  let ?w1 = "w\<lparr>sim_reference := k, sim_operations := ops,
      sim_replies := [reply_packet [0xF1000001, MvlcReferenceWordCommand OR ucast u]]\<rparr>"
  let ?w2 = "?w1\<lparr>sim_replies := []\<rparr>"
  let ?w3 = "sim_run base (MvlcReferenceWordCommand OR ucast (u + 1)) ?w2"
  let ?p2 = "reply_packet ([0xF1000001, MvlcReferenceWordCommand OR ucast (u + 1)] @ ws)"
  have w3: "sim_replies ?w3 = [?p2]" "sim_module ?w3 = m" using ops by (auto simp: sim_run_def)
  have frames: "received_frames ?p2 = Inr [?ack (u + 1), frame_of ws]" "good_reply k (frame_of ws)"
    using ops simulated_frames(2,3) simulated_validations(3,4) by auto
  have "RunStackTransaction (simulated base) ops \<lparr>nextSuperReference = u, nextStackReference = k\<rparr> w
    = (\<lparr>ex_success = True, ex_retryDisposition = Stop, ex_stackFrame = frame_of ws, ex_error = None\<rparr>,
       \<lparr>nextSuperReference = u + 2, nextStackReference = k + 1\<rparr>, ?w3\<lparr>sim_replies := []\<rparr>)"
  proof (rule transaction_first_attempt)
    show "\<And>w. t_cancelled (simulated base) w = (False, w)" by (simp add: simulated_def)
    show "t_send (simulated base) (upload_bytes ops u k) w = (\<lparr>tr_success = True, tr_error = []\<rparr>, ?w1)"
      using ops by (intro simulated_upload) auto
    show "t_receive (simulated base) MvlcCommandResponseBufferSize MvlcCommandResponseTimeoutMilliseconds ?w1
        = (reply_packet [0xF1000001, MvlcReferenceWordCommand OR ucast u], ?w2)" by (simp add: simulated_receive)
    show "received_frames (reply_packet [0xF1000001, MvlcReferenceWordCommand OR ucast u]) = Inr [?ack u]"
      by (rule simulated_frames)
    show "t_send (simulated base) (execute_bytes (u + 1)) ?w2 = (\<lparr>tr_success = True, tr_error = []\<rparr>, ?w3)"
      by (simp add: simulated_execute)
    show "t_receive (simulated base) MvlcCommandResponseBufferSize MvlcCommandResponseTimeoutMilliseconds ?w3
        = (?p2, ?w3\<lparr>sim_replies := []\<rparr>)" by (rule simulated_receive [OF w3(1)])
  qed (rule simulated_validations frames | simp)+
  then show ?thesis using w3(2) by auto
qed

lemma simulated_read:
  "\<exists>b'. readRegister (simulated base) base r b = (Inr (mdpp_read (sim_module (snd b)) r), b') \<and> sim_module (snd b') = sim_module (snd b)"
proof -
  obtain u k where refs: "fst b = \<lparr>nextSuperReference = u, nextStackReference = k\<rparr>" by (cases "fst b")
  from simulated_transaction [of "EncodeMvlcVmeReadD16Words (base + ucast r)" MvlcVmeReadA32D16Command "base + ucast r"
      "[0xF3000002, k, ucast (mdpp_read (sim_module (snd b)) r)]" k "snd b" base "sim_module (snd b)" 0 u]
  obtain w' where "RunStackTransaction (simulated base) (EncodeMvlcVmeReadD16Words (base + ucast r)) (fst b) (snd b)
     = (\<lparr>ex_success = True, ex_retryDisposition = Stop, ex_stackFrame = frame_of [0xF3000002, k, ucast (mdpp_read (sim_module (snd b)) r)],
         ex_error = None\<rparr>, \<lparr>nextSuperReference = u + 2, nextStackReference = k + 1\<rparr>, w')" "sim_module w' = sim_module (snd b)"
    using refs by (auto simp: EncodeMvlcVmeReadD16Words_def)
  then show ?thesis
    by (auto simp: readRegister_def ReadVmeD16_def ParseMvlcVmeReadD16Reply_def low_half frame_of_def)
qed

lemma simulated_write:
  "\<exists>b'. writeRegister (simulated base) base r v b = (Inr (), b') \<and> sim_module (snd b') = mdpp_write (sim_module (snd b)) r v"
proof -
  obtain u k where refs: "fst b = \<lparr>nextSuperReference = u, nextStackReference = k\<rparr>" by (cases "fst b")
  from simulated_transaction [of "EncodeMvlcVmeWriteD16Words (base + ucast r) v" MvlcVmeWriteA32D16Command "base + ucast r"
      "[0xF3000001, k]" k "snd b" base "mdpp_write (sim_module (snd b)) r v" "ucast v" u]
  obtain w' where "RunStackTransaction (simulated base) (EncodeMvlcVmeWriteD16Words (base + ucast r) v) (fst b) (snd b)
     = (\<lparr>ex_success = True, ex_retryDisposition = Stop, ex_stackFrame = frame_of [0xF3000001, k],
         ex_error = None\<rparr>, \<lparr>nextSuperReference = u + 2, nextStackReference = k + 1\<rparr>, w')"
      "sim_module w' = mdpp_write (sim_module (snd b)) r v"
    using refs by (auto simp: EncodeMvlcVmeWriteD16Words_def)
  then show ?thesis
    by (auto simp: writeRegister_def WriteVmeD16_def ParseMvlcVmeWriteD16Reply_def frame_of_def)
qed

interpretation sim: responsive_module "simulated base" base sim_module for base
proof unfold_locales
  fix r v b x b' e
  note read = simulated_read [of base r b] and wrote = simulated_write [of base r v b]
  show "readRegister (simulated base) base r b = (x, b') \<Longrightarrow> sim_module (snd b') = sim_module (snd b)" using read by auto
  show "readRegister (simulated base) base r b = (Inr v, b') \<Longrightarrow> v = mdpp_read (sim_module (snd b)) r" using read by auto
  show "writeRegister (simulated base) base r v b = (Inr u, b') \<Longrightarrow> sim_module (snd b') = mdpp_write (sim_module (snd b)) r v" for u
    using wrote by auto
  show "writeRegister (simulated base) base r v b = (Inl e, b') \<Longrightarrow>
      sim_module (snd b') = sim_module (snd b) \<or> sim_module (snd b') = mdpp_write (sim_module (snd b)) r v" using wrote by auto
  show "\<exists>v b'. readRegister (simulated base) base r b = (Inr v, b')" using read by blast
  show "\<exists>b'. writeRegister (simulated base) base r v b = (Inr (), b')" using wrote by blast
  show "sim_module (snd (t_cancelled (simulated base) w)) = sim_module w" for w by (simp add: simulated_def)
qed

end
