(* ===== verification/Scp_Capture.thy ===== *)
theory Scp_Capture
  imports Simulated_Module
begin

text \<open>
  Reading a module's configuration, \<^verbatim>\<open>hardware/ScpCaptureOperation.cpp\<close>: four global
  registers, then for each of the eight quads a selector write and seventeen banked reads,
  then the selector is parked at quad 0; the caller's gate is asked before each bank and
  before parking, and a checkpoint callback may stop the operation after every wire step.
  The closures of the function are definitions over its local state.
\<close>

datatype ScpCaptureCheckpointKind = GlobalRegisterRead | SelectorSettled | BankedRegisterRead | SelectorParked

record ScpCaptureCheckpoint =
  cp_kind :: ScpCaptureCheckpointKind
  cp_quad :: "u16 option"
  cp_registerOffset :: u16

text \<open>Without a delay callback the operation sleeps, which nothing in the model observes.\<close>

record 'w ScpCaptureRuntime =
  rt_delay :: "(nat \<Rightarrow> 'w \<Rightarrow> 'w) option"
  rt_checkpoint :: "(ScpCaptureCheckpoint \<Rightarrow> 'w \<Rightarrow> bool \<times> 'w) option"
  rt_gateBeforeFirstSelector :: bool

definition default_runtime :: "'w ScpCaptureRuntime" where
  "default_runtime = \<lparr>rt_delay = None, rt_checkpoint = None, rt_gateBeforeFirstSelector = False\<rparr>"

record ScpCaptureOperationResult =
  op_configuration :: Fw2051ScpConfigurationSnapshot
  op_lastGateStatus :: ScpCaptureGateStatus

definition HardwareIdRegister :: u16 where "HardwareIdRegister = 0x6008"
definition FirmwareRevisionRegister :: u16 where "FirmwareRevisionRegister = 0x600E"
definition IrqLevelRegister :: u16 where "IrqLevelRegister = 0x6010"
definition OutputFormatRegister :: u16 where "OutputFormatRegister = 0x6044"
definition SelectorSettleTime :: nat where "SelectorSettleTime = 50"
definition capture_references :: references where
  "capture_references = \<lparr>nextSuperReference = 0x1800, nextStackReference = 0x9C100001\<rparr>"

definition capture_delay :: "'w ScpCaptureRuntime \<Rightarrow> nat \<Rightarrow> 'w \<Rightarrow> 'w" where
  "capture_delay runtime duration w = (case rt_delay runtime of Some f \<Rightarrow> f duration w | None \<Rightarrow> w)"

definition capture_checkpoint :: "'w ScpCaptureRuntime \<Rightarrow> ScpCaptureCheckpoint \<Rightarrow> 'w \<Rightarrow> bool \<times> 'w" where
  "capture_checkpoint runtime event w = (case rt_checkpoint runtime of Some f \<Rightarrow> f event w | None \<Rightarrow> (True, w))"

subsection \<open>The local state\<close>

record 'w capture =
  result :: Fw2051ScpConfigurationSnapshot
  failure :: string
  selectionAttempted :: bool
  ownershipCertain :: bool
  lastGateStatus :: ScpCaptureGateStatus
  bus :: "'w bus"

definition on_bus :: "('w bus \<Rightarrow> 'a \<times> 'w bus) \<Rightarrow> 'w capture \<Rightarrow> 'a \<times> 'w capture" where
  "on_bus f c = (case f (bus c) of (a, b) \<Rightarrow> (a, c\<lparr>bus := b\<rparr>))"

definition settle :: "'w ScpCaptureRuntime \<Rightarrow> 'w capture \<Rightarrow> 'w capture" where
  "settle runtime c = c\<lparr>bus := (fst (bus c), capture_delay runtime SelectorSettleTime (snd (bus c)))\<rparr>"

definition capture_interrupted :: "string \<Rightarrow> 'w capture \<Rightarrow> 'w capture" where
  "capture_interrupted text c = c\<lparr>failure := text, ownershipCertain := False, lastGateStatus := Cancelled\<rparr>"

definition capture_cancelled_text :: string where
  "capture_cancelled_text = ''SCP configuration capture was cancelled.''"

definition bank_gate_name :: "nat \<Rightarrow> string" where
  "bank_gate_name quadIndex = ''SCP configuration bank '' @ decimal quadIndex"

definition quad_text :: "nat \<Rightarrow> string \<Rightarrow> string" where
  "quad_text quadIndex text = ''Quad '' @ decimal quadIndex @ '': '' @ text"

definition selecting_interrupted_text :: "nat \<Rightarrow> string" where
  "selecting_interrupted_text quadIndex = ''SCP configuration capture was interrupted after selecting quad '' @ decimal quadIndex @ ''.''"

definition banked_interrupted_text :: "nat \<Rightarrow> string" where
  "banked_interrupted_text quadIndex =
     ''SCP configuration capture was interrupted after a banked register read in quad '' @ decimal quadIndex @ ''.''"

definition global_interrupted_text :: string where
  "global_interrupted_text = ''SCP configuration capture was interrupted after a global register read.''"

definition registry_text :: string where
  "registry_text = ''The FW2051 registry does not map every captured value.''"

definition parking_interrupted_text :: string where
  "parking_interrupted_text = ''SCP configuration capture was interrupted after parking the selector.''"

lemma capture_texts_not_Nil [simp]:
  "capture_cancelled_text \<noteq> []" "quad_text i t \<noteq> []" "selecting_interrupted_text i \<noteq> []" "banked_interrupted_text i \<noteq> []"
  "global_interrupted_text \<noteq> []" "registry_text \<noteq> []" "parking_interrupted_text \<noteq> []"
  by (simp_all add: capture_cancelled_text_def quad_text_def selecting_interrupted_text_def banked_interrupted_text_def
      global_interrupted_text_def registry_text_def parking_interrupted_text_def)

definition writeSelector :: "'w transport \<Rightarrow> u32 \<Rightarrow> u16 \<Rightarrow> bool \<Rightarrow> 'w capture
    \<Rightarrow> (vme_error option + unit) \<times> 'w capture" where
  "writeSelector transport base v parking c =
    (case on_bus (writeRegister transport base Fw2051ScpSelectorRegister v) c of (x, c) \<Rightarrow>
      (x, c\<lparr>result := (result c)\<lparr>selectorWrites := selectorWrites (result c) @
         [\<lparr>sw_registerOffset = Fw2051ScpSelectorRegister, sw_value = v, parkingWrite = parking,
            sw_success = \<not> isl x,
            sw_message = (case x of Inr _ \<Rightarrow> ''Selector write completed.'' | Inl e \<Rightarrow> error_text e)\<rparr>]\<rparr>\<rparr>))"

subsection \<open>The global registers\<close>

definition globalReads :: "(u16 \<times> string \<times> (u16 \<Rightarrow> Fw2051ScpConfigurationSnapshot \<Rightarrow> Fw2051ScpConfigurationSnapshot)) list" where
  "globalReads = [
     (HardwareIdRegister, ''hardware ID'', \<lambda>v r. r\<lparr>hardwareId := v\<rparr>),
     (FirmwareRevisionRegister, ''firmware revision'', \<lambda>v r. r\<lparr>firmwareRevision := v\<rparr>),
     (IrqLevelRegister, ''IRQ level'', \<lambda>v r. r\<lparr>irqLevel := v\<rparr>),
     (OutputFormatRegister, ''output format'', \<lambda>v r. r\<lparr>outputFormat := v\<rparr>)]"

fun read_globals :: "'w transport \<Rightarrow> u32 \<Rightarrow> 'w ScpCaptureRuntime
    \<Rightarrow> (u16 \<times> string \<times> (u16 \<Rightarrow> Fw2051ScpConfigurationSnapshot \<Rightarrow> Fw2051ScpConfigurationSnapshot)) list
    \<Rightarrow> 'w capture \<Rightarrow> 'w capture" where
  "read_globals transport base runtime [] c = c"
| "read_globals transport base runtime ((offset, nm, store) # reads) c =
    (case on_bus (readRegister transport base offset) c of
       (Inl e, c) \<Rightarrow> c\<lparr>failure := RegisterOperationError ''read'' nm offset e\<rparr>
     | (Inr v, c) \<Rightarrow>
       (let c = c\<lparr>result := store v (result c)\<rparr> in
        case on_bus (call (capture_checkpoint runtime
               \<lparr>cp_kind = GlobalRegisterRead, cp_quad = None, cp_registerOffset = offset\<rparr>)) c of
          (False, c) \<Rightarrow> capture_interrupted global_interrupted_text c
        | (True, c) \<Rightarrow> read_globals transport base runtime reads c))"

definition check_identity :: "'w capture \<Rightarrow> 'w capture" where
  "check_identity c =
    (let c = (if failure c = [] \<and> \<not> IsWriteApprovedMdpp32HardwareId (hardwareId (result c))
       then c\<lparr>failure := (if hardwareId (result c) = Mdpp32AlternateHardwareId
         then ''MDPP-32 v2 selector-write support awaits recorded hardware acceptance.''
         else ''The selected VME base is not a write-approved MDPP-32.'')\<rparr> else c)
     in if failure c = [] \<and> firmwareRevision (result c) \<noteq> Mdpp32ScpFirmwareRevisionFw2051
        then c\<lparr>failure := ''The selected MDPP does not report supported SCP FW2051 firmware; this register map cannot be applied safely.''\<rparr>
        else c)"

subsection \<open>The banks\<close>

fun read_bank :: "'w transport \<Rightarrow> u32 \<Rightarrow> 'w ScpCaptureRuntime \<Rightarrow> nat \<Rightarrow> Fw2051ScpSettingDefinition list
    \<Rightarrow> Fw2051ScpQuadConfiguration \<Rightarrow> 'w capture \<Rightarrow> Fw2051ScpQuadConfiguration \<times> 'w capture" where
  "read_bank transport base runtime quadIndex [] q c = (q, c)"
| "read_bank transport base runtime quadIndex (d # ds) q c =
    (case on_bus (readRegister transport base (registerOffset d)) c of
       (Inl e, c) \<Rightarrow> (q, c\<lparr>failure := quad_text quadIndex (RegisterOperationError ''read'' (name d) (registerOffset d) e)\<rparr>)
     | (Inr v, c) \<Rightarrow>
       (case SetFw2051ScpQuadRegisterValue q (registerOffset d) v of
          (False, q) \<Rightarrow> (q, c\<lparr>failure := registry_text\<rparr>)
        | (True, q) \<Rightarrow>
          (case on_bus (call (capture_checkpoint runtime
                 \<lparr>cp_kind = BankedRegisterRead, cp_quad = Some (of_nat quadIndex), cp_registerOffset = registerOffset d\<rparr>)) c of
             (False, c) \<Rightarrow> (q, capture_interrupted (banked_interrupted_text quadIndex) c)
           | (True, c) \<Rightarrow> read_bank transport base runtime quadIndex ds q c)))"

text \<open>One quad after its gate: select, settle, read, keep the quad when nothing failed.\<close>

definition capture_quad :: "'w transport \<Rightarrow> u32 \<Rightarrow> 'w ScpCaptureRuntime \<Rightarrow> nat \<Rightarrow> 'w capture \<Rightarrow> 'w capture" where
  "capture_quad transport base runtime quadIndex c =
    (case writeSelector transport base (of_nat quadIndex) False (c\<lparr>selectionAttempted := True\<rparr>) of
       (Inl e, c) \<Rightarrow> c\<lparr>failure := RegisterOperationError ''write'' ''channel-quad selector'' Fw2051ScpSelectorRegister e\<rparr>
     | (Inr _, c) \<Rightarrow>
       (case on_bus (call (capture_checkpoint runtime
              \<lparr>cp_kind = SelectorSettled, cp_quad = Some (of_nat quadIndex), cp_registerOffset = Fw2051ScpSelectorRegister\<rparr>))
              (settle runtime c) of
          (False, c) \<Rightarrow> capture_interrupted (selecting_interrupted_text quadIndex) c
        | (True, c) \<Rightarrow>
          (case read_bank transport base runtime quadIndex Fw2051ScpSettingRegistry (default_quad\<lparr>quad := of_nat quadIndex\<rparr>) c of
             (q, c) \<Rightarrow> if failure c = [] then c\<lparr>result := (result c)\<lparr>quads := quads (result c) @ [q]\<rparr>\<rparr> else c)))"

fun capture_quads :: "'w transport \<Rightarrow> u32 \<Rightarrow> 'w gate \<Rightarrow> 'w ScpCaptureRuntime \<Rightarrow> nat list \<Rightarrow> 'w capture \<Rightarrow> 'w capture" where
  "capture_quads transport base gate runtime [] c = c"
| "capture_quads transport base gate runtime (quadIndex # indexes) c =
    (if failure c \<noteq> [] then c
     else if quadIndex > 0 \<or> rt_gateBeforeFirstSelector runtime
     then (case on_bus (call (gate (bank_gate_name quadIndex))) c of (g, c) \<Rightarrow>
       let c = c\<lparr>lastGateStatus := g_status g\<rparr> in
       if g_status g \<noteq> Allowed
       then c\<lparr>ownershipCertain := False, failure := GateFailureMessage g capture_cancelled_text\<rparr>
       else capture_quads transport base gate runtime indexes (capture_quad transport base runtime quadIndex c))
     else capture_quads transport base gate runtime indexes (capture_quad transport base runtime quadIndex c))"

subsection \<open>Parking and the result\<close>

definition append_text :: "string \<Rightarrow> string \<Rightarrow> string" where
  "append_text old new = (if old = [] then new else old @ '' '' @ new)"

definition ask_parking :: "'w gate \<Rightarrow> 'w capture \<Rightarrow> 'w capture" where
  "ask_parking gate c =
    (if selectionAttempted c \<and> ownershipCertain c
     then (case on_bus (call (gate ''the SCP selector parking write'')) c of (g, c) \<Rightarrow>
       let c = c\<lparr>lastGateStatus := g_status g\<rparr> in
       if g_status g \<noteq> Allowed
       then c\<lparr>ownershipCertain := False, failure := GateFailureMessage g capture_cancelled_text\<rparr> else c)
     else c)"

definition park :: "'w transport \<Rightarrow> u32 \<Rightarrow> 'w ScpCaptureRuntime \<Rightarrow> 'w capture \<Rightarrow> 'w capture" where
  "park transport base runtime c =
    (if selectionAttempted c \<and> ownershipCertain c
     then (case writeSelector transport base 0 True c of
       (Inr _, c) \<Rightarrow>
         (let c = c\<lparr>result := (result c)\<lparr>selectorParkedAtQuadZero := True\<rparr>\<rparr> in
          case on_bus (call (capture_checkpoint runtime
                 \<lparr>cp_kind = SelectorParked, cp_quad = Some 0, cp_registerOffset = Fw2051ScpSelectorRegister\<rparr>))
                 (settle runtime c) of
            (True, c) \<Rightarrow> c
          | (False, c) \<Rightarrow> capture_interrupted (append_text (failure c) parking_interrupted_text) c)
     | (Inl e, c) \<Rightarrow>
         (let c = c\<lparr>result := (result c)\<lparr>selectorParkedAtQuadZero := False\<rparr>\<rparr> in
          c\<lparr>failure := append_text (failure c) (''Could not park the selector at quad 0: '' @ error_text e)\<rparr>))
     else c)"

definition capture_complete_text :: string where
  "capture_complete_text = ''Captured all eight SCP channel quads. No filtering or waveform parameter was changed; the selector is parked at quad 0.''"

definition finish :: "'w capture \<Rightarrow> ScpCaptureOperationResult" where
  "finish c =
    (let complete = (failure c = [] \<and> length (quads (result c)) = Fw2051ScpQuadCount \<and> selectorParkedAtQuadZero (result c))
     in \<lparr>op_configuration = (result c)\<lparr>state := (if complete then Complete else Failed),
          message := (if complete then capture_complete_text
            else if failure c = [] then ''The SCP configuration snapshot was incomplete.'' else failure c)\<rparr>,
        op_lastGateStatus = lastGateStatus c\<rparr>)"

definition begin_capture :: "u32 \<Rightarrow> 'w \<Rightarrow> 'w capture" where
  "begin_capture base w = \<lparr>result = default_snapshot\<lparr>state := Reading, baseAddress := base\<rparr>, failure = [],
     selectionAttempted = False, ownershipCertain = True, lastGateStatus = Allowed, bus = (capture_references, w)\<rparr>"

definition refuse_capture :: "string \<Rightarrow> ScpCaptureGateStatus \<Rightarrow> u32 \<Rightarrow> ScpCaptureOperationResult" where
  "refuse_capture text status base = \<lparr>op_configuration = default_snapshot\<lparr>state := Failed, baseAddress := base, message := text\<rparr>,
     op_lastGateStatus = status\<rparr>"

definition CaptureFw2051ScpConfiguration :: "'w transport \<Rightarrow> u32 \<Rightarrow> 'w gate option \<Rightarrow> 'w ScpCaptureRuntime \<Rightarrow> 'w
    \<Rightarrow> ScpCaptureOperationResult \<times> 'w" where
  "CaptureFw2051ScpConfiguration transport base ownershipGate runtime w =
    (if base AND 0xFFFF \<noteq> 0
     then (refuse_capture ''The MDPP base must be a full 64-KiB-aligned A32 address.'' Allowed base, w)
     else case ownershipGate of
       None \<Rightarrow> (refuse_capture ''The SCP capture has no ownership gate.'' CommunicationUnavailable base, w)
     | Some gate \<Rightarrow>
       (case gate ''the SCP configuration snapshot'' w of (g, w) \<Rightarrow>
         if g_status g \<noteq> Allowed
         then (refuse_capture (GateFailureMessage g capture_cancelled_text) (g_status g) base, w)
         else (let c = read_globals transport base runtime globalReads ((begin_capture base w)\<lparr>lastGateStatus := g_status g\<rparr>);
                   c = check_identity c;
                   c = capture_quads transport base gate runtime [0..<Fw2051ScpQuadCount] c;
                   c = ask_parking gate c;
                   c = park transport base runtime c
               in (finish c, snd (bus c)))))"

subsection \<open>What the operation leaves alone\<close>

lemma bus_on_bus [simp]: "bus (snd (on_bus f c)) = snd (f (bus c))"
  by (simp add: on_bus_def split: prod.split)

locale capture_world = world_invariant T base gate "capture_delay runtime" "capture_checkpoint runtime" may_write I
  for T :: "'w transport" and base gate runtime may_write and I :: "'w \<Rightarrow> bool" +
  assumes selector_allowed: "v < 8 \<Longrightarrow> may_write Fw2051ScpSelectorRegister v"
begin

definition holds :: "'w capture \<Rightarrow> bool" where
  "holds c \<longleftrightarrow> I (snd (bus c))"

lemma holds_update [simp]:
  "holds (c\<lparr>failure := f\<rparr>) \<longleftrightarrow> holds c" "holds (c\<lparr>result := r\<rparr>) \<longleftrightarrow> holds c"
  "holds (c\<lparr>selectionAttempted := x\<rparr>) \<longleftrightarrow> holds c" "holds (c\<lparr>ownershipCertain := x\<rparr>) \<longleftrightarrow> holds c"
  "holds (c\<lparr>lastGateStatus := g\<rparr>) \<longleftrightarrow> holds c" "holds (capture_interrupted t c) \<longleftrightarrow> holds c"
  by (simp_all add: holds_def capture_interrupted_def)

lemma holds_step [simp]:
  "holds c \<Longrightarrow> holds (snd (on_bus (readRegister T base r) c))"
  "holds c \<Longrightarrow> holds (snd (on_bus (call (gate n)) c))"
  "holds c \<Longrightarrow> holds (snd (on_bus (call (capture_checkpoint runtime e)) c))"
  "holds c \<Longrightarrow> holds (settle runtime c)"
  "holds c \<Longrightarrow> v < 8 \<Longrightarrow> holds (snd (writeSelector T base v p c))"
  by (simp_all add: holds_def read_I gate_I checkpoint_I delay_I settle_def writeSelector_def case_prod_beta write_I selector_allowed)

lemma holds_globals [simp]: "holds c \<Longrightarrow> holds (read_globals T base runtime gs c)"
  by (induction gs arbitrary: c) (auto simp: Let_def case_prod_beta split: sum.split bool.split)

lemma holds_identity [simp]: "holds c \<Longrightarrow> holds (check_identity c)"
  by (simp add: check_identity_def Let_def)

lemma holds_bank [simp]: "holds c \<Longrightarrow> holds (snd (read_bank T base runtime i ds q c))"
  by (induction ds arbitrary: q c) (auto simp: case_prod_beta split: sum.split bool.split)

lemma holds_quad [simp]: "i < 8 \<Longrightarrow> holds c \<Longrightarrow> holds (capture_quad T base runtime i c)"
proof -
  assume "i < 8"
  then have "(of_nat i :: u16) < 8" by (simp add: word_less_nat_alt unat_of_nat)
  then show "holds c \<Longrightarrow> holds (capture_quad T base runtime i c)"
    by (auto simp: capture_quad_def case_prod_beta split: sum.split bool.split)
qed

lemma holds_quads [simp]: "list_all (\<lambda>i. i < 8) is \<Longrightarrow> holds c \<Longrightarrow> holds (capture_quads T base gate runtime is c)"
  by (induction "is" arbitrary: c) (auto simp: Let_def case_prod_beta)

lemma holds_park [simp]: "holds c \<Longrightarrow> holds (park T base runtime c)" "holds c \<Longrightarrow> holds (ask_parking gate c)"
  by (auto simp: park_def ask_parking_def Let_def case_prod_beta split: sum.split bool.split)

lemma capture_keeps:
  assumes "CaptureFw2051ScpConfiguration T base (Some gate) runtime w = (op, w')" "I w"
  shows "I w'"
proof -
  have start: "holds ((begin_capture base w)\<lparr>lastGateStatus := s\<rparr>)" if "I w" for w s
    using that by (simp add: holds_def begin_capture_def)
  have eight: "list_all (\<lambda>i. i < 8) [0..<Fw2051ScpQuadCount]" by (simp add: Fw2051ScpQuadCount_def list_all_iff)
  have "I (snd (bus (park T base runtime (ask_parking gate (capture_quads T base gate runtime [0..<Fw2051ScpQuadCount]
      (check_identity (read_globals T base runtime globalReads ((begin_capture base v)\<lparr>lastGateStatus := s\<rparr>))))))))" if "I v" for v s
    unfolding holds_def [symmetric] using start [OF that] eight by simp
  then show ?thesis
    using assms gate_I [of w] by (auto simp: CaptureFw2051ScpConfiguration_def Let_def case_prod_beta split: if_splits)
qed

end

text \<open>On an honest module the settings stay; on every wire only selector writes appear.\<close>

locale supervised_capture = supervised_module T base dev gate "capture_delay runtime" "capture_checkpoint runtime"
  for T :: "'w transport" and base dev gate runtime

sublocale supervised_capture \<subseteq> capturing: capture_world T base gate runtime "\<lambda>r v. r = Fw2051ScpSelectorRegister"
  "\<lambda>w. settings_are B G (dev w)" for B G
  by unfold_locales auto

text \<open>The callbacks of a runtime on an observed world.\<close>

definition unobserved_runtime :: "'w ScpCaptureRuntime \<Rightarrow> ('w \<times> event list) ScpCaptureRuntime" where
  "unobserved_runtime rt = \<lparr>rt_delay = map_option (\<lambda>f d wl. (f d (fst wl), snd wl)) (rt_delay rt),
     rt_checkpoint = map_option (\<lambda>f e. unobserved (f e)) (rt_checkpoint rt),
     rt_gateBeforeFirstSelector = rt_gateBeforeFirstSelector rt\<rparr>"

lemma unobserved_runtime_calls:
  "capture_delay (unobserved_runtime rt) = (\<lambda>d wl. (capture_delay rt d (fst wl), snd wl))"
  "capture_checkpoint (unobserved_runtime rt) = (\<lambda>e. unobserved (capture_checkpoint rt e))"
  by (auto simp: capture_delay_def capture_checkpoint_def unobserved_runtime_def unobserved_def fun_eq_iff split: option.split)

definition selects_quad :: "u16 \<Rightarrow> u16 \<Rightarrow> bool" where
  "selects_quad r v \<longleftrightarrow> r = Fw2051ScpSelectorRegister \<and> v < 8"

interpretation capture_wire: capture_world "observed T" base "\<lambda>n. unobserved (gate n)" "unobserved_runtime runtime" selects_quad
    "\<lambda>wl. only_permitted base selects_quad (snd wl)"
  for T :: "'w transport" and base and gate :: "'w gate" and runtime
  unfolding capture_world_def unobserved_runtime_calls capture_world_axioms_def
  by (intro conjI wire.world_invariant_axioms) (simp add: selects_quad_def)

subsection \<open>What the operation returns\<close>

text \<open>The quad whose settings are the registers of a bank.\<close>

definition quad_of :: "(u16 \<Rightarrow> u16 \<Rightarrow> u16) \<Rightarrow> u16 \<Rightarrow> Fw2051ScpQuadConfiguration" where
  "quad_of B i = scp_bank.put_all (default_quad\<lparr>quad := i\<rparr>) (map (\<lambda>r. (r, B i r)) fw2051_registers)"

lemma quad_wf_numbered [simp]: "quad_wf (default_quad\<lparr>quad := i\<rparr>)"
  by (simp add: quad_wf_def default_quad_def)

lemma quad_of_wf [simp]: "quad_wf (quad_of B i)"
  by (simp add: quad_of_def)

lemma quad_of_number [simp]: "quad (quad_of B i) = i"
  by (simp add: quad_of_def)

lemma quad_of_register: "r \<in> set fw2051_registers \<Longrightarrow> Fw2051ScpQuadRegisterValue (quad_of B i) r = Some (B i r)"
  unfolding quad_of_def by (subst scp_bank.get_put_all) (auto simp: o_def map_of_map_restrict)

text \<open>A snapshot that shows the module's registers.\<close>

definition shows_module :: "Fw2051ScpConfigurationSnapshot \<Rightarrow> mdpp \<Rightarrow> bool" where
  "shows_module r m \<longleftrightarrow> hardwareId r = global m 0x6008 \<and> firmwareRevision r = global m 0x600E
     \<and> irqLevel r = global m 0x6010 \<and> outputFormat r = global m 0x6044
     \<and> quads r = map (\<lambda>i. quad_of (banked m) (of_nat i)) [0..<8]"

definition same_identity_fields :: "Fw2051ScpConfigurationSnapshot \<Rightarrow> Fw2051ScpConfigurationSnapshot \<Rightarrow> bool" where
  "same_identity_fields r r' \<longleftrightarrow> hardwareId r' = hardwareId r \<and> firmwareRevision r' = firmwareRevision r
     \<and> irqLevel r' = irqLevel r \<and> outputFormat r' = outputFormat r \<and> baseAddress r' = baseAddress r"

lemma same_identity_fields_refl [simp]: "same_identity_fields r r"
  by (simp add: same_identity_fields_def)

lemma same_identity_fields_trans: "same_identity_fields r r' \<Longrightarrow> same_identity_fields r' r'' \<Longrightarrow> same_identity_fields r r''"
  by (simp add: same_identity_fields_def)

lemma on_bus_fields [simp]:
  "result (snd (on_bus f c)) = result c" "failure (snd (on_bus f c)) = failure c"
  "selectionAttempted (snd (on_bus f c)) = selectionAttempted c" "ownershipCertain (snd (on_bus f c)) = ownershipCertain c"
  by (simp_all add: on_bus_def split: prod.split)

lemma settle_fields [simp]:
  "result (settle rt c) = result c" "failure (settle rt c) = failure c"
  "selectionAttempted (settle rt c) = selectionAttempted c" "ownershipCertain (settle rt c) = ownershipCertain c"
  by (simp_all add: settle_def)

lemma fst_on_bus [simp]: "fst (on_bus f c) = fst (f (bus c))"
  by (simp add: on_bus_def split: prod.split)

lemma append_text_Nil [simp]: "append_text old new = [] \<longleftrightarrow> old = [] \<and> new = []"
  by (simp add: append_text_def)

lemma writeSelector_fields [simp]:
  "failure (snd (writeSelector T base v p c)) = failure c"
  "hardwareId (result (snd (writeSelector T base v p c))) = hardwareId (result c)"
  "firmwareRevision (result (snd (writeSelector T base v p c))) = firmwareRevision (result c)"
  "irqLevel (result (snd (writeSelector T base v p c))) = irqLevel (result c)"
  "outputFormat (result (snd (writeSelector T base v p c))) = outputFormat (result c)"
  "baseAddress (result (snd (writeSelector T base v p c))) = baseAddress (result c)"
  "quads (result (snd (writeSelector T base v p c))) = quads (result c)"
  "selectorParkedAtQuadZero (result (snd (writeSelector T base v p c))) = selectorParkedAtQuadZero (result c)"
  "fst (writeSelector T base v p c) = fst (writeRegister T base Fw2051ScpSelectorRegister v (bus c))"
  "bus (snd (writeSelector T base v p c)) = snd (writeRegister T base Fw2051ScpSelectorRegister v (bus c))"
  by (simp_all add: writeSelector_def case_prod_beta)

context supervised_capture
begin

definition module_of :: "'w capture \<Rightarrow> mdpp" where
  "module_of c = dev (snd (bus c))"

lemma module_step [simp]:
  "module_of (snd (on_bus (readRegister T base r) c)) = module_of c"
  "module_of (snd (on_bus (call (gate n)) c)) = module_of c"
  "module_of (snd (on_bus (call (capture_checkpoint runtime e)) c)) = module_of c"
  "module_of (settle runtime c) = module_of c"
  using read_keeps [OF surjective_pairing, of r "bus c"]
  by (simp_all add: module_of_def gate_keeps checkpoint_keeps delay_keeps settle_def)

lemma module_update [simp]:
  "module_of (c\<lparr>failure := f\<rparr>) = module_of c" "module_of (c\<lparr>result := r\<rparr>) = module_of c"
  "module_of (c\<lparr>selectionAttempted := x\<rparr>) = module_of c" "module_of (c\<lparr>ownershipCertain := x\<rparr>) = module_of c"
  "module_of (c\<lparr>lastGateStatus := g\<rparr>) = module_of c" "module_of (capture_interrupted t c) = module_of c"
  by (simp_all add: module_of_def capture_interrupted_def)

lemma read_value: "fst (readRegister T base r (bus c)) = Inr v \<Longrightarrow> v = mdpp_read (module_of c) r"
  using read_shows [of r "bus c" v] by (simp add: module_of_def prod_eq_iff)

lemma selector_written:
  "fst (writeRegister T base Fw2051ScpSelectorRegister v (bus c)) = Inr u
    \<Longrightarrow> module_of (snd (writeSelector T base v p c)) = (module_of c)\<lparr>selector := v\<rparr>"
  using write_happened [of Fw2051ScpSelectorRegister v "bus c" u] by (simp add: module_of_def prod_eq_iff mdpp_write_def)

lemma read_globals_exact:
  assumes "failure (read_globals T base runtime gs c) = []"
  shows "module_of (read_globals T base runtime gs c) = module_of c
    \<and> result (read_globals T base runtime gs c) = foldl (\<lambda>r (off, nm, store). store (mdpp_read (module_of c) off) r) (result c) gs"
  using assms
proof (induction gs arbitrary: c)
  case (Cons g gs)
  obtain r nm store where "g = (r, nm, store)" by (cases g)
  with Cons show ?case
    using read_value [of r c]
    by (auto simp: Let_def case_prod_beta capture_interrupted_def split: sum.splits bool.splits)
qed simp

lemma read_bank_exact:
  assumes "failure (snd (read_bank T base runtime i ds q c)) = []"
  shows "module_of (snd (read_bank T base runtime i ds q c)) = module_of c
    \<and> result (snd (read_bank T base runtime i ds q c)) = result c
    \<and> fst (read_bank T base runtime i ds q c)
        = scp_bank.put_all q (map (\<lambda>d. (registerOffset d, mdpp_read (module_of c) (registerOffset d))) ds)"
  using assms
proof (induction ds arbitrary: q c)
  case (Cons d ds)
  then show ?case
    using read_value [of "registerOffset d" c]
    by (auto simp: Let_def case_prod_beta capture_interrupted_def split: sum.splits bool.splits)
qed simp

lemma read_bank_result [simp]: "result (snd (read_bank T base runtime i ds q c)) = result c"
  by (induction ds arbitrary: q c) (auto simp: case_prod_beta capture_interrupted_def split: sum.splits bool.splits)

lemma capture_quad_parked:
  "selectorParkedAtQuadZero (result (capture_quad T base runtime i c)) = selectorParkedAtQuadZero (result c)"
  by (auto simp: capture_quad_def case_prod_beta capture_interrupted_def split: sum.splits bool.splits)

lemma capture_quad_exact:
  assumes ok: "failure (capture_quad T base runtime i c) = []"
  shows "module_of (capture_quad T base runtime i c) = (module_of c)\<lparr>selector := of_nat i\<rparr>
    \<and> same_identity_fields (result c) (result (capture_quad T base runtime i c))
    \<and> quads (result (capture_quad T base runtime i c)) = quads (result c) @ [quad_of (banked (module_of c)) (of_nat i)]"
proof -
  have regs: "map (\<lambda>d. (registerOffset d, mdpp_read ((module_of c)\<lparr>selector := of_nat i\<rparr>) (registerOffset d))) Fw2051ScpSettingRegistry
      = map (\<lambda>r. (r, banked (module_of c) (of_nat i) r)) fw2051_registers"
    by (auto simp: fw2051_registers_def mdpp_read_def Fw2051ScpSelectorRegister_def Fw2051ScpSettingRegistry_def setting_row_def)
  let ?c1 = "snd (writeSelector T base (of_nat i) False (c\<lparr>selectionAttempted := True\<rparr>))"
  have written: "\<exists>u. fst (writeRegister T base Fw2051ScpSelectorRegister (of_nat i) (bus c)) = Inr u"
    using ok by (auto simp: capture_quad_def case_prod_beta split: sum.splits)
  then have m1: "module_of ?c1 = (module_of c)\<lparr>selector := of_nat i\<rparr>"
    using selector_written [of "of_nat i" "c\<lparr>selectionAttempted := True\<rparr>"] by auto
  then show ?thesis
    using ok written read_bank_exact [of i Fw2051ScpSettingRegistry "default_quad\<lparr>quad := of_nat i\<rparr>"]
    by (auto simp: capture_quad_def case_prod_beta capture_interrupted_def regs quad_of_def same_identity_fields_def
        split: sum.splits bool.splits if_splits)
qed

lemma capture_quads_failed: "failure c \<noteq> [] \<Longrightarrow> capture_quads T base gate runtime is c = c"
  by (cases "is") auto

lemma capture_quads_exact:
  assumes "failure (capture_quads T base gate runtime is c) = []" "settings_are B G (module_of c)"
  shows "same_identity_fields (result c) (result (capture_quads T base gate runtime is c))
    \<and> quads (result (capture_quads T base gate runtime is c)) = quads (result c) @ map (\<lambda>i. quad_of B (of_nat i)) is
    \<and> selectorParkedAtQuadZero (result (capture_quads T base gate runtime is c)) = selectorParkedAtQuadZero (result c)"
  using assms
proof (induction "is" arbitrary: c)
  case (Cons i "is")
  have "failure c = []" using Cons.prems(1) capture_quads_failed [of c "i # is"] by (cases "failure c") auto
  have step: "same_identity_fields (result c) (result (capture_quads T base gate runtime is (capture_quad T base runtime i c')))
      \<and> quads (result (capture_quads T base gate runtime is (capture_quad T base runtime i c')))
        = quads (result c) @ map (\<lambda>i. quad_of B (of_nat i)) (i # is)
      \<and> selectorParkedAtQuadZero (result (capture_quads T base gate runtime is (capture_quad T base runtime i c')))
        = selectorParkedAtQuadZero (result c)"
    if fail: "failure (capture_quads T base gate runtime is (capture_quad T base runtime i c')) = []"
      and c': "result c' = result c" "module_of c' = module_of c" for c'
  proof -
    have ok: "failure (capture_quad T base runtime i c') = []"
      using fail capture_quads_failed [of "capture_quad T base runtime i c'" "is"] by (cases "failure (capture_quad T base runtime i c')") auto
    note quad = capture_quad_exact [OF ok]
    have "settings_are B G (module_of (capture_quad T base runtime i c'))"
      using quad c' Cons.prems(2) by (simp add: settings_are_def)
    with Cons.IH [OF fail] quad c' Cons.prems(2) show ?thesis
      by (auto simp: settings_are_def same_identity_fields_def capture_quad_parked)
  qed
  show ?case
  proof (cases "i > 0 \<or> rt_gateBeforeFirstSelector runtime")
    case True
    let ?c' = "(snd (on_bus (call (gate (bank_gate_name i))) c))\<lparr>lastGateStatus := g_status (fst (call (gate (bank_gate_name i)) (bus c)))\<rparr>"
    have eq: "capture_quads T base gate runtime (i # is) c = capture_quads T base gate runtime is (capture_quad T base runtime i ?c')"
      using Cons.prems(1) True \<open>failure c = []\<close> by (auto simp: Let_def case_prod_beta split: if_splits)
    show ?thesis using Cons.prems(1) unfolding eq by (rule step) simp_all
  next
    case False
    then have eq: "capture_quads T base gate runtime (i # is) c = capture_quads T base gate runtime is (capture_quad T base runtime i c)"
      using \<open>failure c = []\<close> by simp
    show ?thesis using Cons.prems(1) unfolding eq by (rule step) simp_all
  qed
qed simp

lemma ask_parking_exact:
  "module_of (ask_parking gate c) = module_of c" "result (ask_parking gate c) = result c"
  "failure (ask_parking gate c) = [] \<Longrightarrow> failure c = []"
  by (auto simp: ask_parking_def Let_def case_prod_beta split: if_splits)

lemma park_exact:
  assumes "failure (park T base runtime c) = []" "\<not> selectorParkedAtQuadZero (result c)"
    and "selectorParkedAtQuadZero (result (park T base runtime c))"
  shows "failure c = [] \<and> selector (module_of (park T base runtime c)) = 0
    \<and> same_identity_fields (result c) (result (park T base runtime c))
    \<and> quads (result (park T base runtime c)) = quads (result c)"
  using assms selector_written [of 0 c]
  by (auto simp: park_def case_prod_beta capture_interrupted_def same_identity_fields_def Let_def
      split: sum.splits bool.splits if_splits)

lemma read_globals_parked:
  "list_all (\<lambda>(r, nm, store). \<forall>v s. selectorParkedAtQuadZero (store v s) = selectorParkedAtQuadZero s) gs \<Longrightarrow>
    selectorParkedAtQuadZero (result (read_globals T base runtime gs c)) = selectorParkedAtQuadZero (result c)"
  by (induction gs arbitrary: c) (auto simp: Let_def case_prod_beta capture_interrupted_def split: sum.splits bool.splits)

lemma unparked_until_parking:
  "selectorParkedAtQuadZero (result (read_globals T base runtime globalReads c)) = selectorParkedAtQuadZero (result c)"
  "selectorParkedAtQuadZero (result (check_identity c)) = selectorParkedAtQuadZero (result c)"
  "selectorParkedAtQuadZero (result (capture_quads T base gate runtime is c)) = selectorParkedAtQuadZero (result c)"
proof -
  show "selectorParkedAtQuadZero (result (read_globals T base runtime globalReads c)) = selectorParkedAtQuadZero (result c)"
    by (rule read_globals_parked) (simp add: globalReads_def)
  show "selectorParkedAtQuadZero (result (check_identity c)) = selectorParkedAtQuadZero (result c)"
    by (simp add: check_identity_def Let_def)
  show "selectorParkedAtQuadZero (result (capture_quads T base gate runtime is c)) = selectorParkedAtQuadZero (result c)"
    by (induction "is" arbitrary: c) (auto simp: Let_def case_prod_beta capture_quad_parked)
qed

lemma globals_read:
  "foldl (\<lambda>r (off, nm, store). store (mdpp_read m off) r) r globalReads
    = r\<lparr>hardwareId := global m 0x6008, firmwareRevision := global m 0x600E, irqLevel := global m 0x6010, outputFormat := global m 0x6044\<rparr>"
  by (simp add: globalReads_def HardwareIdRegister_def FirmwareRevisionRegister_def IrqLevelRegister_def OutputFormatRegister_def
      mdpp_read_def Fw2051ScpSelectorRegister_def fw2051_registers_eq)

lemma check_identity_passed:
  assumes "failure (check_identity c) = []"
  shows "check_identity c = c \<and> failure c = [] \<and> IsWriteApprovedMdpp32HardwareId (hardwareId (result c))
    \<and> firmwareRevision (result c) = Mdpp32ScpFirmwareRevisionFw2051"
  using assms by (auto simp: check_identity_def Let_def split: if_splits)

lemma capture_exact:
  assumes run: "CaptureFw2051ScpConfiguration T base (Some gate) runtime w = (op, w')" and "state (op_configuration op) = Complete"
  shows "selector (dev w') = 0 \<and> shows_module (op_configuration op) (dev w) \<and> baseAddress (op_configuration op) = base
    \<and> selectorParkedAtQuadZero (op_configuration op)
    \<and> IsWriteApprovedMdpp32HardwareId (global (dev w) 0x6008) \<and> global (dev w) 0x600E = Mdpp32ScpFirmwareRevisionFw2051"
proof -
  define m where "m = dev w"
  obtain g v where g: "gate ''the SCP configuration snapshot'' w = (g, v)" by (cases "gate ''the SCP configuration snapshot'' w")
  then have "dev v = m" using gate_keeps [of "''the SCP configuration snapshot''" w] by (simp add: m_def)
  define c0 where "c0 = (begin_capture base v)\<lparr>lastGateStatus := g_status g\<rparr>"
  define c1 where "c1 = read_globals T base runtime globalReads c0"
  define c2 where "c2 = check_identity c1"
  define c3 where "c3 = capture_quads T base gate runtime [0..<Fw2051ScpQuadCount] c2"
  define c4 where "c4 = ask_parking gate c3"
  define c5 where "c5 = park T base runtime c4"
  have out: "op = finish c5" "w' = snd (bus c5)"
    using run assms(2) g
    by (auto simp: CaptureFw2051ScpConfiguration_def refuse_capture_def default_snapshot_def Let_def
        c0_def c1_def c2_def c3_def c4_def c5_def split: if_splits)
  have m0: "module_of c0 = m" "\<not> selectorParkedAtQuadZero (result c0)" "quads (result c0) = []" "baseAddress (result c0) = base"
    using \<open>dev v = m\<close> by (simp_all add: c0_def module_of_def begin_capture_def default_snapshot_def)
  have fin: "failure c5 = []" "selectorParkedAtQuadZero (result c5)"
    using assms(2) out(1) by (auto simp: finish_def Let_def split: if_splits)
  have parked: "\<not> selectorParkedAtQuadZero (result c4)"
    using m0(2) unfolding c4_def c3_def c2_def c1_def by (simp add: ask_parking_exact unparked_until_parking)
  note p5 = park_exact [of c4, folded c5_def, OF fin(1) parked fin(2)]
  have f3: "failure c3 = []" using p5 ask_parking_exact(3) [of c3] by (simp add: c4_def)
  then have f2: "failure c2 = []" unfolding c3_def using capture_quads_failed [of c2] by (cases "failure c2") auto
  note i2 = check_identity_passed [of c1, folded c2_def, OF f2]
  note g1 = read_globals_exact [of globalReads c0, folded c1_def]
  have c1: "module_of c1 = m" "result c1 = (result c0)\<lparr>hardwareId := global m 0x6008, firmwareRevision := global m 0x600E,
      irqLevel := global m 0x6010, outputFormat := global m 0x6044\<rparr>"
    using g1 i2 m0(1) by (simp_all add: globals_read)
  have "settings_are (banked m) (global m) (module_of c2)" using i2 c1 by (simp add: settings_are_def)
  from capture_quads_exact [OF _ this, of "[0..<Fw2051ScpQuadCount]", folded c3_def, OF f3]
  have c3: "same_identity_fields (result c1) (result c3)" "quads (result c3) = map (\<lambda>i. quad_of (banked m) (of_nat i)) [0..<8]"
    using i2 c1 m0(3) by (simp_all add: Fw2051ScpQuadCount_def)
  have c5: "same_identity_fields (result c1) (result c5)" "quads (result c5) = quads (result c3)"
    using c3(1) p5 ask_parking_exact(2) [of c3] by (auto simp: c4_def intro: same_identity_fields_trans)
  have "selector (dev w') = 0" using p5 out(2) by (simp add: module_of_def)
  with c1 c3 c5 i2 m0(4) out(1) fin(2) show ?thesis
    by (auto simp: finish_def shows_module_def same_identity_fields_def m_def Let_def)
qed

end

context supervised_capture
begin

lemma capture_changes_nothing:
  assumes "CaptureFw2051ScpConfiguration T base (Some gate) runtime w = (op, w')"
  shows "banked (dev w') = banked (dev w) \<and> global (dev w') = global (dev w)"
  using capturing.capture_keeps [OF assms, of "banked (dev w)" "global (dev w)"] by (simp add: settings_are_def)

end

text \<open>A module that answers, with a caller who objects to nothing.\<close>

locale responsive_capture = responsive_module T base dev + supervised_capture T base dev gate runtime
  for T :: "'w transport" and base dev gate runtime +
  assumes gate_allows: "g_status (fst (gate n w)) = Allowed"
    and checkpoint_passes: "fst (capture_checkpoint runtime e w)"
begin

lemma reads_return: "\<exists>v. fst (readRegister T base r b) = Inr v"
  using read_returns [of r b] by auto

lemma writes_return: "fst (writeRegister T base r v b) = Inr ()"
  using write_returns [of r v b] by auto

lemma calls_pass [simp]: "fst (call (capture_checkpoint runtime e) b)" "g_status (fst (call (gate n) b)) = Allowed"
  by (simp_all add: call_def checkpoint_passes gate_allows case_prod_beta)

lemma read_globals_returns: "failure (read_globals T base runtime gs c) = failure c
    \<and> ownershipCertain (read_globals T base runtime gs c) = ownershipCertain c"
proof (induction gs arbitrary: c)
  case (Cons g gs)
  obtain r nm store where g: "g = (r, nm, store)" by (cases g)
  obtain v where "fst (readRegister T base r (bus c)) = Inr v" using reads_return by blast
  with Cons g show ?case by (auto simp: Let_def case_prod_beta split: bool.split)
qed simp

lemma read_bank_returns:
  "set ds \<subseteq> set Fw2051ScpSettingRegistry \<Longrightarrow> failure (snd (read_bank T base runtime i ds q c)) = failure c
    \<and> ownershipCertain (snd (read_bank T base runtime i ds q c)) = ownershipCertain c
    \<and> selectionAttempted (snd (read_bank T base runtime i ds q c)) = selectionAttempted c"
proof (induction ds arbitrary: q c)
  case (Cons d ds)
  obtain v where v: "fst (readRegister T base (registerOffset d) (bus c)) = Inr v" using reads_return by blast
  have "fst (SetFw2051ScpQuadRegisterValue q (registerOffset d) v)"
    using Cons.prems registry_offsets by (auto simp: scp_bank.put_mapped)
  with Cons v show ?case by (auto simp: case_prod_beta split: bool.split)
qed simp

lemma capture_quad_returns:
  "failure c = [] \<Longrightarrow> failure (capture_quad T base runtime i c) = []
    \<and> ownershipCertain (capture_quad T base runtime i c) = ownershipCertain c \<and> selectionAttempted (capture_quad T base runtime i c)"
  using writes_return read_bank_returns [OF subset_refl, of i]
  by (auto simp: capture_quad_def case_prod_beta writeSelector_def split: bool.split)

lemma capture_quads_returns:
  "failure c = [] \<Longrightarrow> failure (capture_quads T base gate runtime is c) = []
    \<and> ownershipCertain (capture_quads T base gate runtime is c) = ownershipCertain c
    \<and> (selectionAttempted c \<or> is \<noteq> [] \<longrightarrow> selectionAttempted (capture_quads T base gate runtime is c))"
proof (induction "is" arbitrary: c)
  case (Cons i "is")
  then show ?case using capture_quad_returns by (auto simp: Let_def case_prod_beta)
qed simp

lemma park_returns:
  assumes "failure c = []" "selectionAttempted c" "ownershipCertain c"
  shows "failure (park T base runtime (ask_parking gate c)) = []
    \<and> selectorParkedAtQuadZero (result (park T base runtime (ask_parking gate c)))"
  using assms writes_return
  by (auto simp: park_def ask_parking_def Let_def case_prod_beta writeSelector_def split: bool.split)

lemma capture_completes:
  assumes "base AND 0xFFFF = 0" "IsWriteApprovedMdpp32HardwareId (global (dev w) 0x6008)"
    and "global (dev w) 0x600E = Mdpp32ScpFirmwareRevisionFw2051"
  shows "state (op_configuration (fst (CaptureFw2051ScpConfiguration T base (Some gate) runtime w))) = Complete"
proof -
  obtain g v where g: "gate ''the SCP configuration snapshot'' w = (g, v)" by (cases "gate ''the SCP configuration snapshot'' w")
  then have "dev v = dev w" "g_status g = Allowed"
    using gate_keeps [of "''the SCP configuration snapshot''" w] gate_allows [of "''the SCP configuration snapshot''" w] by simp_all
  define c0 where "c0 = (begin_capture base v)\<lparr>lastGateStatus := Allowed\<rparr>"
  define c1 where "c1 = read_globals T base runtime globalReads c0"
  define c3 where "c3 = capture_quads T base gate runtime [0..<Fw2051ScpQuadCount] c1"
  define c5 where "c5 = park T base runtime (ask_parking gate c3)"
  have c0: "module_of c0 = dev w" "failure c0 = []" "ownershipCertain c0" "quads (result c0) = []"
    using \<open>dev v = dev w\<close> by (simp_all add: c0_def module_of_def begin_capture_def default_snapshot_def)
  have c1: "failure c1 = []" "ownershipCertain c1" using read_globals_returns c0 by (simp_all add: c1_def)
  with read_globals_exact [of globalReads c0] c0 have r1: "hardwareId (result c1) = global (dev w) 0x6008"
      "firmwareRevision (result c1) = global (dev w) 0x600E" "quads (result c1) = []"
    by (simp_all add: c1_def globals_read)
  then have id: "check_identity c1 = c1" using assms(2,3) by (simp add: check_identity_def)
  have c3: "failure c3 = []" "ownershipCertain c3" "selectionAttempted c3"
    using capture_quads_returns [OF c1(1), of "[0..<Fw2051ScpQuadCount]"] c1(2) by (simp_all add: c3_def Fw2051ScpQuadCount_def)
  then have "length (quads (result c3)) = 8"
    using capture_quads_exact [of "[0..<Fw2051ScpQuadCount]" c1 "banked (module_of c1)" "global (module_of c1)"] r1
    by (simp add: c3_def settings_are_def Fw2051ScpQuadCount_def)
  moreover have "failure c5 = []" "selectorParkedAtQuadZero (result c5)" "quads (result c5) = quads (result c3)"
    using park_returns [OF c3(1,3,2)] c3 writes_return
    by (simp_all add: c5_def park_def ask_parking_def Let_def case_prod_beta writeSelector_def split: bool.split)
  ultimately have "state (op_configuration (finish c5)) = Complete" by (simp add: finish_def Fw2051ScpQuadCount_def)
  then show ?thesis
    using assms(1) g \<open>g_status g = Allowed\<close>
    by (simp add: CaptureFw2051ScpConfiguration_def Let_def id c0_def [symmetric] c1_def [symmetric] c3_def [symmetric] c5_def [symmetric])
qed

end

text \<open>The simulated module, with a caller who allows everything.\<close>

definition allow_all :: "'w gate" where
  "allow_all n w = (\<lparr>g_status = Allowed, g_message = []\<rparr>, w)"

interpretation sim: responsive_capture "simulated base" base sim_module allow_all default_runtime for base
  by unfold_locales (simp_all add: allow_all_def capture_delay_def capture_checkpoint_def default_runtime_def)

subsection \<open>Properties\<close>

text \<open>A module to show: approved, with the settings of bank \<open>i\<close> all equal to \<open>100 + i\<close>.\<close>

definition sample_mdpp :: mdpp where
  "sample_mdpp = \<lparr>selector = 3, banked = (\<lambda>i r. 100 + i),
     global = (\<lambda>r. if r = 0x6008 then 0x5007 else if r = 0x600E then 0x2051 else 0)\<rparr>"

definition sample_sim :: sim where
  "sample_sim = \<lparr>sim_module = sample_mdpp, sim_reference = 0, sim_operations = [], sim_replies = []\<rparr>"

lemma sample_identity: "IsWriteApprovedMdpp32HardwareId (global (sim_module sample_sim) 0x6008)"
    "global (sim_module sample_sim) 0x600E = Mdpp32ScpFirmwareRevisionFw2051"
  by (simp_all add: sample_sim_def sample_mdpp_def IsWriteApprovedMdpp32HardwareId_def Mdpp32WriteApprovedHardwareIds_def
      Mdpp32HardwareId_def Mdpp32ScpFirmwareRevisionFw2051_def)

text \<open>
  (C6) A capture on an honest module, with accesses that may fail anywhere: whatever it
  returns, no setting and no global register of the module has changed; and when it reports
  \<open>Complete\<close>, the snapshot shows exactly the module's registers, quad by quad, the module is an
  approved MDPP-32 with firmware 2051, and its selector is parked at quad 0.
\<close>
theorem capture_faithful:
  assumes "supervised_capture T base dev gate runtime"
    and "CaptureFw2051ScpConfiguration T base (Some gate) runtime w = (op, w')"
  shows "banked (dev w') = banked (dev w) \<and> global (dev w') = global (dev w)
    \<and> (state (op_configuration op) = Complete \<longrightarrow> selector (dev w') = 0
        \<and> shows_module (op_configuration op) (dev w) \<and> baseAddress (op_configuration op) = base
        \<and> IsWriteApprovedMdpp32HardwareId (global (dev w) 0x6008) \<and> global (dev w) 0x600E = Mdpp32ScpFirmwareRevisionFw2051)"
  using supervised_capture.capture_exact [OF assms] supervised_capture.capture_changes_nothing [OF assms] by blast

theorem capture_faithful_witness:
  "\<exists>op w'. CaptureFw2051ScpConfiguration (simulated 0x10000) 0x10000 (Some allow_all) default_runtime sample_sim = (op, w')
    \<and> shows_module (op_configuration op) sample_mdpp \<and> selector (sim_module w') = 0 \<and> banked (sim_module w') = banked sample_mdpp"
proof -
  obtain op w' where run: "CaptureFw2051ScpConfiguration (simulated 0x10000) 0x10000 (Some allow_all) default_runtime sample_sim = (op, w')"
    by (cases "CaptureFw2051ScpConfiguration (simulated 0x10000) 0x10000 (Some allow_all) default_runtime sample_sim")
  have "state (op_configuration op) = Complete"
    using sim.capture_completes [of "0x10000" sample_sim] sample_identity run by simp
  with capture_faithful [OF sim.supervised_capture_axioms run] run show ?thesis by (auto simp: sample_sim_def)
qed

text \<open>
  A capture comes back: on a module that answers and with a caller that allows it, at an
  aligned base and on the approved hardware and firmware, the capture is \<open>Complete\<close>.
\<close>
theorem capture_returns_complete:
  assumes "responsive_capture T base dev gate runtime"
    and "base AND 0xFFFF = 0" "IsWriteApprovedMdpp32HardwareId (global (dev w) 0x6008)"
    and "global (dev w) 0x600E = Mdpp32ScpFirmwareRevisionFw2051"
  shows "state (op_configuration (fst (CaptureFw2051ScpConfiguration T base (Some gate) runtime w))) = Complete"
  using assms by (rule responsive_capture.capture_completes)

theorem capture_returns_complete_witness:
  "state (op_configuration (fst (CaptureFw2051ScpConfiguration (simulated 0x10000) 0x10000 (Some allow_all) default_runtime sample_sim)))
    = Complete"
  by (rule capture_returns_complete [OF sim.responsive_capture_axioms]) (simp_all add: sample_identity)

text \<open>
  On every transport, answering or not, a capture puts nothing on the wire but reads of
  the module, triggers, and writes of the selector with a quad number.
\<close>
theorem capture_sends_only_selector_writes:
  assumes "CaptureFw2051ScpConfiguration (observed T) base (Some (\<lambda>n. unobserved (gate n))) (unobserved_runtime runtime) (w, [])
    = (op, w', es)"
  shows "\<forall>bytes \<in> set (sends es).
     (\<exists>u k r. bytes = upload_bytes (EncodeMvlcVmeReadD16Words (base + ucast (r :: u16))) u k)
     \<or> (\<exists>u k v. v < 8 \<and> bytes = upload_bytes (EncodeMvlcVmeWriteD16Words (base + ucast Fw2051ScpSelectorRegister) v) u k)
     \<or> (\<exists>u. bytes = execute_bytes u)"
  using capture_wire.capture_keeps [OF assms]
  by (auto simp: only_permitted_def list_all_iff permitted_def selects_quad_def)

theorem capture_sends_only_selector_writes_witness:
  "\<exists>op w' es. CaptureFw2051ScpConfiguration (observed (simulated 0x10000)) 0x10000 (Some (\<lambda>n. unobserved (allow_all n)))
       (unobserved_runtime default_runtime) (sample_sim, []) = (op, w', es)
    \<and> (\<forall>bytes \<in> set (sends es).
     (\<exists>u k r. bytes = upload_bytes (EncodeMvlcVmeReadD16Words (0x10000 + ucast (r :: u16))) u k)
     \<or> (\<exists>u k v. v < 8 \<and> bytes = upload_bytes (EncodeMvlcVmeWriteD16Words (0x10000 + ucast Fw2051ScpSelectorRegister) v) u k)
     \<or> (\<exists>u. bytes = execute_bytes u))"
proof -
  obtain op w' es where run: "CaptureFw2051ScpConfiguration (observed (simulated 0x10000)) 0x10000 (Some (\<lambda>n. unobserved (allow_all n)))
       (unobserved_runtime default_runtime) (sample_sim, []) = (op, w', es)"
    by (cases "CaptureFw2051ScpConfiguration (observed (simulated 0x10000)) 0x10000 (Some (\<lambda>n. unobserved (allow_all n)))
       (unobserved_runtime default_runtime) (sample_sim, [])") auto
  with capture_sends_only_selector_writes [OF run] show ?thesis by blast
qed

subsection \<open>The shape of a snapshot\<close>

text \<open>Quads that have their type, numbered from 0 in the order of their capture.\<close>

definition numbered_quads :: "Fw2051ScpConfigurationSnapshot \<Rightarrow> bool" where
  "numbered_quads r \<longleftrightarrow> snapshot_wf r \<and> map quad (quads r) = map of_nat [0..<length (quads r)]"

lemma read_bank_shape:
  "quad_wf q \<Longrightarrow> quad_wf (fst (read_bank T base rt i ds q c)) \<and> quad (fst (read_bank T base rt i ds q c)) = quad q
    \<and> quads (result (snd (read_bank T base rt i ds q c))) = quads (result c)"
proof (induction ds arbitrary: q c)
  case (Cons d ds)
  then show ?case
    by (simp add: case_prod_beta capture_interrupted_def set_register_wf set_register_quad split: sum.split bool.split)
qed simp

lemma capture_quad_shape:
  "quads (result (capture_quad T base rt i c)) = quads (result c) \<and> failure (capture_quad T base rt i c) \<noteq> []
    \<or> (\<exists>q. quads (result (capture_quad T base rt i c)) = quads (result c) @ [q] \<and> quad_wf q \<and> quad q = of_nat i)"
  using read_bank_shape [of "default_quad\<lparr>quad := of_nat i\<rparr>" T base rt i Fw2051ScpSettingRegistry]
  by (auto simp: capture_quad_def case_prod_beta capture_interrupted_def writeSelector_def RegisterOperationError_def
      split: sum.split bool.split)

lemma numbered_append:
  "numbered_quads r \<Longrightarrow> quads r' = quads r @ [q] \<Longrightarrow> quad_wf q \<Longrightarrow> quad q = of_nat (length (quads r)) \<Longrightarrow> numbered_quads r'"
  by (simp add: numbered_quads_def snapshot_wf_def)

lemma numbered_same: "quads r' = quads r \<Longrightarrow> numbered_quads r' = numbered_quads r"
  by (simp add: numbered_quads_def snapshot_wf_def)

lemma capture_quads_shape:
  assumes "numbered_quads (result c)" "length (quads (result c)) \<le> k" "failure c = [] \<Longrightarrow> length (quads (result c)) = k" "k \<le> m"
  shows "numbered_quads (result (capture_quads T base gate rt [k..<m] c)) \<and> length (quads (result (capture_quads T base gate rt [k..<m] c))) \<le> m"
  using assms
proof (induction "m - k" arbitrary: c k)
  case (Suc n)
  then have up: "[k..<m] = k # [Suc k..<m]" and n: "n = m - Suc k" "Suc k \<le> m" by (simp_all add: upt_conv_Cons)
  show ?case
  proof (cases "failure c = []")
    case False
    then show ?thesis using Suc.prems up by simp
  next
    case True
    have following: "numbered_quads (result (capture_quads T base gate rt [Suc k..<m] (capture_quad T base rt k c')))
        \<and> length (quads (result (capture_quads T base gate rt [Suc k..<m] (capture_quad T base rt k c')))) \<le> m"
      if "result c' = result c" for c'
    proof (rule Suc.hyps(1) [OF n(1) _ _ _ n(2)])
      let ?c = "capture_quad T base rt k c'"
      have len: "length (quads (result c')) = k" and num: "numbered_quads (result c')"
        using Suc.prems(1,3) True that by simp_all
      consider "quads (result ?c) = quads (result c')" "failure ?c \<noteq> []"
        | q where "quads (result ?c) = quads (result c') @ [q]" "quad_wf q" "quad q = of_nat k"
        using capture_quad_shape [of T base rt k c'] by blast
      then have "numbered_quads (result ?c) \<and> length (quads (result ?c)) \<le> Suc k
        \<and> (failure ?c = [] \<longrightarrow> length (quads (result ?c)) = Suc k)"
        using len num numbered_append [OF num] numbered_same [of "result ?c" "result c'"] by cases auto
      then show "numbered_quads (result ?c)" "length (quads (result ?c)) \<le> Suc k"
        "failure ?c = [] \<Longrightarrow> length (quads (result ?c)) = Suc k" by blast+
    qed
    show ?thesis
      unfolding up using True following Suc.prems
      by (auto simp: Let_def case_prod_beta simp del: upt_Suc)
  qed
qed simp

lemma read_globals_shape:
  "list_all (\<lambda>(r, nm, store). \<forall>v s. quads (store v s) = quads s) gs \<Longrightarrow>
    quads (result (read_globals T base rt gs c)) = quads (result c)"
  by (induction gs arbitrary: c) (auto simp: Let_def case_prod_beta capture_interrupted_def split: sum.splits bool.splits)

lemma park_shape: "quads (result (park T base rt c)) = quads (result c)" "quads (result (ask_parking gate c)) = quads (result c)"
  by (auto simp: park_def ask_parking_def capture_interrupted_def Let_def case_prod_beta split: sum.split bool.split)

lemma capture_shape:
  "numbered_quads (op_configuration (fst (CaptureFw2051ScpConfiguration T base gate rt w)))
    \<and> length (quads (op_configuration (fst (CaptureFw2051ScpConfiguration T base gate rt w)))) \<le> 8"
proof -
  have none: "numbered_quads (default_snapshot\<lparr>state := st, baseAddress := base, message := m\<rparr>)" for st m
    by (simp add: numbered_quads_def snapshot_wf_def default_snapshot_def)
  have all: "numbered_quads (result (park T base rt (ask_parking g (capture_quads T base g rt [0..<Fw2051ScpQuadCount]
      (check_identity (read_globals T base rt globalReads ((begin_capture base w)\<lparr>lastGateStatus := s\<rparr>)))))))
    \<and> length (quads (result (park T base rt (ask_parking g (capture_quads T base g rt [0..<Fw2051ScpQuadCount]
      (check_identity (read_globals T base rt globalReads ((begin_capture base w)\<lparr>lastGateStatus := s\<rparr>)))))))) \<le> 8" for g w s
  proof -
    let ?c = "check_identity (read_globals T base rt globalReads ((begin_capture base w)\<lparr>lastGateStatus := s\<rparr>))"
    have "quads (result ?c) = []"
      using read_globals_shape [of globalReads T base rt "(begin_capture base w)\<lparr>lastGateStatus := s\<rparr>"]
      by (simp add: check_identity_def Let_def globalReads_def begin_capture_def default_snapshot_def)
    then have "numbered_quads (result (capture_quads T base g rt [0..<8] ?c)) \<and> length (quads (result (capture_quads T base g rt [0..<8] ?c))) \<le> 8"
      by (intro capture_quads_shape) (simp_all add: numbered_quads_def snapshot_wf_def)
    then show ?thesis
      unfolding Fw2051ScpQuadCount_def by (metis (no_types, lifting) numbered_same park_shape)
  qed
  show ?thesis
    using all none
    by (cases gate) (auto simp: CaptureFw2051ScpConfiguration_def refuse_capture_def finish_def default_snapshot_def numbered_quads_def
      snapshot_wf_def Let_def case_prod_beta)
qed

text \<open>
  (C26) Whatever the wire brings, a capture returns a snapshot of its type: at most eight quads, numbered from 0
  in the order in which they were selected, each with four pole-zero values and four thresholds; exactly
  eight of them, and a parked selector, where it is called complete.
\<close>
theorem captured_snapshot_typed:
  "let r = op_configuration (fst (CaptureFw2051ScpConfiguration T base gate runtime w)) in
     snapshot_wf r \<and> map quad (quads r) = map of_nat [0..<length (quads r)] \<and> length (quads r) \<le> 8
     \<and> (state r = Complete \<longrightarrow> length (quads r) = 8 \<and> selectorParkedAtQuadZero r)"
proof -
  have "state r = Complete \<longrightarrow> length (quads r) = 8 \<and> selectorParkedAtQuadZero r"
    if "r = op_configuration (fst (CaptureFw2051ScpConfiguration T base gate runtime w))" for r
    unfolding that
    by (cases gate) (simp_all add: CaptureFw2051ScpConfiguration_def refuse_capture_def finish_def default_snapshot_def
      Fw2051ScpQuadCount_def Let_def case_prod_beta)
  then show ?thesis using capture_shape [of T base gate runtime w] by (simp add: numbered_quads_def Let_def)
qed

theorem captured_snapshot_typed_witness:
  "length (quads (op_configuration (fst (CaptureFw2051ScpConfiguration (simulated 0x10000) 0x10000 (Some allow_all) default_runtime sample_sim)))) = 8"
proof -
  have "state (op_configuration (fst (CaptureFw2051ScpConfiguration (simulated 0x10000) 0x10000 (Some allow_all) default_runtime sample_sim)))
      = Complete"
    using sim.capture_completes [of "0x10000" sample_sim] sample_identity by simp
  with captured_snapshot_typed [of "simulated 0x10000" "0x10000" "Some allow_all" default_runtime sample_sim] show ?thesis
    by (simp add: Let_def)
qed

end
