(* ===== verification/Scp_Plan.thy ===== *)
theory Scp_Plan
  imports Scp_Sample
begin

text \<open>
  The transaction planner of \<^verbatim>\<open>core/ScpTransactionPlan.cpp\<close>: the order in which a coupled
  register pair is moved, the plan that turns a live configuration into a saved profile,
  and the deterministic-startup plan on top of it. The plan is a list of single-register
  steps; \<open>apply_step\<close> says what executing one of them does to the quads, which is what
  the theorems about the plan are stated against.
\<close>

definition Fw2051ScpIndependentRegisterOrder :: "u16 list" where
  "Fw2051ScpIndependentRegisterOrder = [0x6112, 0x6114, 0x6116, 0x6118, 0x611A, 0x611C, 0x611E, 0x6120,
     0x6122, 0x6126, 0x6128, 0x612A, 0x614A]"

datatype coupled_error = NotACoupledPair | CoupledValueError scp_value_error | CoupledValuesInvalid

text \<open>On success, whether the constrained register goes first, and the two offsets in order.\<close>

definition PlanFw2051ScpCoupledWriteOrder ::
    "u16 \<Rightarrow> u16 \<Rightarrow> u16 \<Rightarrow> u16 \<Rightarrow> u16 \<Rightarrow> coupled_error + bool \<times> u16 list" where
  "PlanFw2051ScpCoupledWriteOrder constrainedRegister boundaryRegister currentBoundaryValue
       targetConstrainedValue targetBoundaryValue =
    (case (FindFw2051ScpSetting constrainedRegister, FindFw2051ScpSetting boundaryRegister) of
       (Some constrained, Some boundary) \<Rightarrow>
         if dependencyRule constrained = NoDependency \<or> dependencyRule boundary = NoDependency
            \<or> dependencyRegister constrained \<noteq> boundaryRegister
            \<or> dependencyRegister boundary \<noteq> constrainedRegister
         then Inl NotACoupledPair
         else (case ValidateFw2051ScpProfileValue constrainedRegister targetConstrainedValue of
           Some e \<Rightarrow> Inl (CoupledValueError e)
         | None \<Rightarrow> (case ValidateFw2051ScpProfileValue boundaryRegister targetBoundaryValue of
           Some e \<Rightarrow> Inl (CoupledValueError e)
         | None \<Rightarrow>
           if \<not> Fw2051ScpDependencySatisfied constrained targetConstrainedValue targetBoundaryValue
              \<or> \<not> Fw2051ScpDependencySatisfied boundary targetBoundaryValue targetConstrainedValue
           then Inl CoupledValuesInvalid
           else (let constrainedFirst =
                   Fw2051ScpDependencySatisfied constrained targetConstrainedValue currentBoundaryValue
                 in Inr (constrainedFirst,
                      if constrainedFirst then [constrainedRegister, boundaryRegister]
                      else [boundaryRegister, constrainedRegister]))))
     | _ \<Rightarrow> Inl NotACoupledPair)"

record ScpProfileApplicationStep =
  s_quad :: int
  s_registerOffset :: u16
  s_settingName :: string
  s_expectedValue :: u16
  s_profileValue :: u16
  s_displayHexadecimal :: bool

record ScpProfileApplicationRequest =
  expectedLiveConfiguration :: Fw2051ScpConfigurationSnapshot
  req_valuesCompared :: nat
  configurationDifferences :: nat
  steps :: "ScpProfileApplicationStep list"

datatype plan_message =
    NoPlanMessage
  | PlanNotComparable comparison_message
  | GlobalSettingDiffers string
  | OutsideD16Range
  | DifferenceValueError int scp_value_error
  | RegistryNotMapped
  | QuadValueError nat scp_value_error
  | TimingFilterAboveShapingTime nat
  | PreSamplesNotBelowTotal nat
  | QuadCoupledError nat coupled_error
  | DifferencesNotAccounted
  | AlreadyMatchesProfile
  | PreparedTransaction nat

record ScpProfileApplicationPlan =
  plan_success :: bool
  plan_message :: plan_message
  request :: ScpProfileApplicationRequest

text \<open>The first loop: every difference must be a banked register with a valid target.\<close>

fun check_differences :: "ScpConfigurationDifference list \<Rightarrow> plan_message option" where
  "check_differences [] = None"
| "check_differences (difference # rest) =
    (if d_quad difference < 0 \<or> \<not> d_hasRegister difference \<or> d_registerOffset difference > 0xFFFF
        \<or> FindFw2051ScpSetting (ucast (d_registerOffset difference)) = None
     then Some (GlobalSettingDiffers (d_setting difference))
     else if d_profileValue difference > 0xFFFF \<or> d_liveValue difference > 0xFFFF
     then Some OutsideD16Range
     else case ValidateFw2051ScpProfileValue (ucast (d_registerOffset difference)) (ucast (d_profileValue difference)) of
       Some e \<Rightarrow> Some (DifferenceValueError (d_quad difference) e)
     | None \<Rightarrow> check_differences rest)"

fun check_target_settings :: "nat \<Rightarrow> Fw2051ScpQuadConfiguration \<Rightarrow> Fw2051ScpSettingDefinition list \<Rightarrow> plan_message option" where
  "check_target_settings index target [] = None"
| "check_target_settings index target (d # ds) =
    (case Fw2051ScpQuadRegisterValue target (registerOffset d) of
       None \<Rightarrow> Some RegistryNotMapped
     | Some v \<Rightarrow>
       (case ValidateFw2051ScpProfileValue (registerOffset d) v of
          Some e \<Rightarrow> Some (QuadValueError index e)
        | None \<Rightarrow> check_target_settings index target ds))"

fun check_targets :: "nat \<Rightarrow> Fw2051ScpQuadConfiguration list \<Rightarrow> plan_message option" where
  "check_targets index [] = None"
| "check_targets index (target # rest) =
    (case check_target_settings index target Fw2051ScpSettingRegistry of
       Some m \<Rightarrow> Some m
     | None \<Rightarrow>
       if timingFilter target > shapingTime target then Some (TimingFilterAboveShapingTime index)
       else if preSamples target \<ge> totalSamples target then Some (PreSamplesNotBelowTotal index)
       else check_targets (Suc index) rest)"

text \<open>The lambda \<^verbatim>\<open>addDifference\<close>: look the difference up and append its step.\<close>

definition addDifference :: "ScpConfigurationDifference list \<Rightarrow> int \<Rightarrow> u16
    \<Rightarrow> ScpProfileApplicationStep list \<Rightarrow> ScpProfileApplicationStep list" where
  "addDifference diffs q offset acc =
    (case find (\<lambda>d. d_quad d = q \<and> d_hasRegister d \<and> d_registerOffset d = ucast offset) diffs of
       None \<Rightarrow> acc
     | Some found \<Rightarrow> acc @ [\<lparr>s_quad = d_quad found, s_registerOffset = offset, s_settingName = d_setting found,
         s_expectedValue = ucast (d_liveValue found), s_profileValue = ucast (d_profileValue found),
         s_displayHexadecimal = d_displayHexadecimal found\<rparr>])"

definition add_all :: "ScpConfigurationDifference list \<Rightarrow> int \<Rightarrow> u16 list
    \<Rightarrow> ScpProfileApplicationStep list \<Rightarrow> ScpProfileApplicationStep list" where
  "add_all diffs q offsets acc = foldl (\<lambda>acc offset. addDifference diffs q offset acc) acc offsets"

text \<open>The loop over the quads; \<open>Inl\<close> is the early return that clears the steps.\<close>

fun plan_quads :: "ScpConfigurationDifference list \<Rightarrow> nat \<Rightarrow> Fw2051ScpQuadConfiguration list
    \<Rightarrow> Fw2051ScpQuadConfiguration list \<Rightarrow> ScpProfileApplicationStep list
    \<Rightarrow> plan_message + ScpProfileApplicationStep list" where
  "plan_quads diffs index (live # lives) (target # targets) acc =
    (let acc = add_all diffs (int index) Fw2051ScpIndependentRegisterOrder acc in
     case PlanFw2051ScpCoupledWriteOrder 0x6110 0x6124 (shapingTime live) (timingFilter target) (shapingTime target) of
       Inl e \<Rightarrow> Inl (QuadCoupledError index e)
     | Inr (_, offsets) \<Rightarrow>
       (let acc = add_all diffs (int index) offsets acc in
        case PlanFw2051ScpCoupledWriteOrder 0x6146 0x6148 (totalSamples live) (preSamples target) (totalSamples target) of
          Inl e \<Rightarrow> Inl (QuadCoupledError index e)
        | Inr (_, offsets) \<Rightarrow>
          plan_quads diffs (Suc index) lives targets (add_all diffs (int index) offsets acc)))"
| "plan_quads diffs index _ _ acc = Inr acc"

definition PlanFw2051ScpProfileApplication ::
    "ScpProfile \<Rightarrow> Fw2051ScpConfigurationSnapshot \<Rightarrow> ScpProfileApplicationPlan" where
  "PlanFw2051ScpProfileApplication profile live =
    (let comparison = CompareFw2051ScpConfiguration profile live;
         plan = \<lparr>plan_success = False, plan_message = NoPlanMessage,
           request = \<lparr>expectedLiveConfiguration = live, req_valuesCompared = valuesCompared comparison,
             configurationDifferences = length (differences comparison), steps = []\<rparr>\<rparr>
     in if \<not> comparable comparison then plan\<lparr>plan_message := PlanNotComparable (cmp_message comparison)\<rparr>
     else case check_differences (differences comparison) of
       Some m \<Rightarrow> plan\<lparr>plan_message := m\<rparr>
     | None \<Rightarrow> (case check_targets 0 (quads (configuration profile)) of
       Some m \<Rightarrow> plan\<lparr>plan_message := m\<rparr>
     | None \<Rightarrow> (case plan_quads (differences comparison) 0 (quads live) (quads (configuration profile)) [] of
       Inl m \<Rightarrow> plan\<lparr>plan_message := m\<rparr>
     | Inr planned \<Rightarrow>
       if length planned \<noteq> length (differences comparison)
       then plan\<lparr>plan_message := DifferencesNotAccounted\<rparr>
       else plan\<lparr>plan_success := True,
         plan_message := (if planned = [] then AlreadyMatchesProfile else PreparedTransaction (length planned)),
         request := (request plan)\<lparr>steps := planned\<rparr>\<rparr>)))"

subsection \<open>Deterministic startup\<close>

datatype startup_message =
    NoStartupMessage
  | StartupNotComparable comparison_message
  | StartupUntestedHardware
  | NotAStartupProfile
  | GlobalIdentityDifference string
  | BankedPlanFailed plan_message
  | BankedNotAccounted
  | PreparedStartup nat nat

record ScpStandaloneStartupPlan =
  sp_success :: bool
  sp_message :: startup_message
  sp_valuesCompared :: nat
  sp_configurationDifferences :: nat
  startupContractDifferences :: nat
  bankedDifferences :: nat
  bankedApplication :: "ScpProfileApplicationRequest option"

text \<open>
  The counting loop: \<open>Inl\<close> names a global difference startup does not own. The counters
  reached so far stay in the plan on that path too.
\<close>

fun count_differences :: "ScpConfigurationDifference list \<Rightarrow> nat \<times> nat \<Rightarrow> string option \<times> nat \<times> nat" where
  "count_differences [] (contract, banked) = (None, contract, banked)"
| "count_differences (difference # rest) (contract, banked) =
    (if d_quad difference \<ge> 0 then count_differences rest (contract, banked + 1)
     else if d_hasRegister difference \<and> (d_registerOffset difference = 0x6010 \<or> d_registerOffset difference = 0x6044)
     then count_differences rest (contract + 1, banked)
     else (Some (d_setting difference), contract, banked))"

definition PlanFw2051ScpStandaloneStartup ::
    "ScpProfile \<Rightarrow> Fw2051ScpConfigurationSnapshot \<Rightarrow> ScpStandaloneStartupPlan" where
  "PlanFw2051ScpStandaloneStartup profile live =
    (let comparison = CompareFw2051ScpConfiguration profile live;
         plan = \<lparr>sp_success = False, sp_message = NoStartupMessage, sp_valuesCompared = valuesCompared comparison,
           sp_configurationDifferences = length (differences comparison), startupContractDifferences = 0,
           bankedDifferences = 0, bankedApplication = None\<rparr>;
         target = configuration profile
     in if \<not> comparable comparison then plan\<lparr>sp_message := StartupNotComparable (cmp_message comparison)\<rparr>
     else if hardwareId target \<noteq> Mdpp32HardwareId \<or> firmwareRevision target \<noteq> Mdpp32ScpFirmwareRevisionFw2051
          \<or> hardwareId live \<noteq> Mdpp32HardwareId \<or> firmwareRevision live \<noteq> Mdpp32ScpFirmwareRevisionFw2051
     then plan\<lparr>sp_message := StartupUntestedHardware\<rparr>
     else if irqLevel target \<noteq> 1 \<or> outputFormat target \<noteq> 0x0018
     then plan\<lparr>sp_message := NotAStartupProfile\<rparr>
     else case count_differences (differences comparison) (0, 0) of (blocked, contract, banked) \<Rightarrow>
       (let plan = plan\<lparr>startupContractDifferences := contract, bankedDifferences := banked\<rparr> in
        case blocked of
          Some setting \<Rightarrow> plan\<lparr>sp_message := GlobalIdentityDifference setting\<rparr>
        | None \<Rightarrow>
          (let bankedPlan = PlanFw2051ScpProfileApplication profile (live\<lparr>irqLevel := 1, outputFormat := 0x0018\<rparr>) in
           if \<not> plan_success bankedPlan then plan\<lparr>sp_message := BankedPlanFailed (plan_message bankedPlan)\<rparr>
           else if length (steps (request bankedPlan)) \<noteq> banked then plan\<lparr>sp_message := BankedNotAccounted\<rparr>
           else plan\<lparr>bankedApplication := Some (request bankedPlan), sp_success := True,
             sp_message := PreparedStartup contract banked\<rparr>)))"

subsection \<open>Executing a plan\<close>

definition apply_step :: "Fw2051ScpQuadConfiguration list \<Rightarrow> ScpProfileApplicationStep \<Rightarrow> Fw2051ScpQuadConfiguration list" where
  "apply_step qs s = qs[nat (s_quad s) :=
     snd (SetFw2051ScpQuadRegisterValue (qs ! nat (s_quad s)) (s_registerOffset s) (s_profileValue s))]"

definition apply_steps :: "Fw2051ScpQuadConfiguration list \<Rightarrow> ScpProfileApplicationStep list \<Rightarrow> Fw2051ScpQuadConfiguration list" where
  "apply_steps qs ss = foldl apply_step qs ss"

definition coupled_ok :: "Fw2051ScpQuadConfiguration \<Rightarrow> bool" where
  "coupled_ok q \<longleftrightarrow> timingFilter q \<le> shapingTime q \<and> preSamples q < totalSamples q"

definition quad_in_range :: "Fw2051ScpQuadConfiguration \<Rightarrow> bool" where
  "quad_in_range q \<longleftrightarrow> list_all (\<lambda>r. ValidateFw2051ScpProfileValue r (the (Fw2051ScpQuadRegisterValue q r)) = None) fw2051_registers"

subsection \<open>The coupled pairs\<close>

lemma ucast_u16_u32_u16 [simp]: "ucast (ucast (v :: u16) :: u32) = v"
  by (rule bit_word_eqI) (auto simp: bit_simps)

lemma ucast_u16_le [simp]: "(ucast (v :: u16) :: u32) \<le> 0xFFFF"
proof -
  have "uint (ucast v :: u32) = take_bit 32 (uint v)" by (simp add: unsigned_ucast_eq)
  moreover have "0 \<le> uint v" "uint v < 2 ^ 16" using unsigned_less [of v, where ?'a = int] by simp_all
  ultimately have "uint (ucast v :: u32) \<le> 65535" by (simp add: take_bit_int_eq_self)
  then show ?thesis by (simp add: word_le_def)
qed

lemma ucast_u16_not_above [simp]: "\<not> (0xFFFF :: u32) < ucast (v :: u16)"
  by (simp add: not_less)

lemma find_coupled_rows:
  "FindFw2051ScpSetting 0x6110 = Some (setting_row 0x6110 ''Timing filter'' 1 125 RangeRule NotAbove 0x6124 ''Shaping time'')"
  "FindFw2051ScpSetting 0x6124 = Some (setting_row 0x6124 ''Shaping time'' Fw2051ScpMinimumShapingTime Fw2051ScpMaximumShapingTime
       RangeRule NotBelow 0x6110 ''Timing filter'')"
  "FindFw2051ScpSetting 0x6146 = Some (setting_row 0x6146 ''Pre-samples'' 0 Fw2051ScpMaximumSampleCount RangeRule LessThan 0x6148 ''Total samples'')"
  "FindFw2051ScpSetting 0x6148 = Some (setting_row 0x6148 ''Total samples'' 2 Fw2051ScpMaximumSampleCount EvenRangeRule GreaterThan 0x6146 ''Pre-samples'')"
  by (simp_all add: FindFw2051ScpSetting_def Fw2051ScpSettingRegistry_def setting_row_def)

lemma plan_timing_pair:
  "PlanFw2051ScpCoupledWriteOrder 0x6110 0x6124 cur tc tb = Inr (first, offsets) \<longleftrightarrow>
     ValidateFw2051ScpProfileValue 0x6110 tc = None \<and> ValidateFw2051ScpProfileValue 0x6124 tb = None
     \<and> tc \<le> tb \<and> (first \<longleftrightarrow> tc \<le> cur) \<and> offsets = (if tc \<le> cur then [0x6110, 0x6124] else [0x6124, 0x6110])"
  by (auto simp: PlanFw2051ScpCoupledWriteOrder_def find_coupled_rows setting_row_def
      Fw2051ScpDependencySatisfied_def Let_def split: option.splits)

lemma plan_sample_pair:
  "PlanFw2051ScpCoupledWriteOrder 0x6146 0x6148 cur tc tb = Inr (first, offsets) \<longleftrightarrow>
     ValidateFw2051ScpProfileValue 0x6146 tc = None \<and> ValidateFw2051ScpProfileValue 0x6148 tb = None
     \<and> tc < tb \<and> (first \<longleftrightarrow> tc < cur) \<and> offsets = (if tc < cur then [0x6146, 0x6148] else [0x6148, 0x6146])"
  by (auto simp: PlanFw2051ScpCoupledWriteOrder_def find_coupled_rows setting_row_def
      Fw2051ScpDependencySatisfied_def Let_def split: option.splits)

subsection \<open>The differences a plan starts from\<close>

lemma find_SomeI:
  assumes "y \<in> set xs" "P y" "\<And>x. x \<in> set xs \<Longrightarrow> P x \<Longrightarrow> x = y"
  shows "find P xs = Some y"
  using assms
proof (induction xs)
  case (Cons x xs)
  show ?case
  proof (cases "P x")
    case True
    with Cons.prems(3) [of x] show ?thesis by simp
  next
    case False
    with Cons.prems(1,2) have "y \<in> set xs" by auto
    then have "find P xs = Some y" by (rule Cons.IH) (use Cons.prems(2,3) in simp_all)
    with False show ?thesis by simp
  qed
qed simp

lemma set_banked_differences:
  "length ps = length ls \<Longrightarrow> set (banked_differences b ps ls)
     = (\<Union>k < length ps. set (quad_differences (int (b + k)) (ps ! k) (ls ! k)))"
proof (induction ps ls arbitrary: b rule: list_induct2)
  case (Cons p ps l ls)
  have "{..<Suc (length ps)} = insert 0 (Suc ` {..<length ps})" by (auto simp: lessThan_Suc_eq_insert_0)
  with Cons show ?case by (simp add: image_image add.left_commute [of 1] add.assoc)
qed simp

lemma quad_difference_sel [simp]:
  "d_quad (quad_difference i p l d) = i"
  "d_hasRegister (quad_difference i p l d)"
  "d_registerOffset (quad_difference i p l d) = ucast (registerOffset d)"
  "d_setting (quad_difference i p l d) = name d"
  "d_profileValue (quad_difference i p l d) = ucast (the (Fw2051ScpQuadRegisterValue p (registerOffset d)))"
  "d_liveValue (quad_difference i p l d) = ucast (the (Fw2051ScpQuadRegisterValue l (registerOffset d)))"
  "d_displayHexadecimal (quad_difference i p l d) = (registerOffset d = 0x614A)"
  by (simp_all add: quad_difference_def)

lemma find_banked_difference:
  assumes len: "length ps = length ls" and i: "i < length ps" and r: "FindFw2051ScpSetting r = Some d"
  shows "find (\<lambda>d. d_quad d = int i \<and> d_hasRegister d \<and> d_registerOffset d = ucast r) (banked_differences 0 ps ls)
    = (if setting_differs (ps ! i) (ls ! i) d then Some (quad_difference (int i) (ps ! i) (ls ! i) d) else None)"
    (is "find ?P ?xs = _")
proof -
  from r have d: "registerOffset d = r" "d \<in> set Fw2051ScpSettingRegistry" by (auto dest: FindFw2051ScpSetting_SomeD)
  have uniq: "x = quad_difference (int i) (ps ! i) (ls ! i) d \<and> setting_differs (ps ! i) (ls ! i) d"
    if x: "x \<in> set ?xs" "?P x" for x
  proof -
    from x(1) obtain k e where k: "k < length ps" "e \<in> set Fw2051ScpSettingRegistry" "setting_differs (ps ! k) (ls ! k) e"
        "x = quad_difference (int k) (ps ! k) (ls ! k) e"
      using len by (auto simp: set_banked_differences quad_differences_def)
    with x(2) have "k = i" "registerOffset e = r" by (auto simp: ucast_u16_u32_inject)
    with k r have "e = d" using FindFw2051ScpSetting_registered [of e] by simp
    with k \<open>k = i\<close> show ?thesis by simp
  qed
  show ?thesis
  proof (cases "setting_differs (ps ! i) (ls ! i) d")
    case True
    then have "find ?P ?xs = Some (quad_difference (int i) (ps ! i) (ls ! i) d)"
      using d i len uniq by (intro find_SomeI) (auto simp: set_banked_differences quad_differences_def)
    with True show ?thesis by simp
  next
    case False
    with uniq have "find ?P ?xs = None" by (auto simp: find_None_iff)
    with False show ?thesis by simp
  qed
qed

subsection \<open>The steps a plan consists of\<close>

definition differs_at :: "Fw2051ScpQuadConfiguration \<Rightarrow> Fw2051ScpQuadConfiguration \<Rightarrow> u16 \<Rightarrow> bool" where
  "differs_at p l r \<longleftrightarrow> Fw2051ScpQuadRegisterValue p r \<noteq> Fw2051ScpQuadRegisterValue l r"

definition planned_step :: "nat \<Rightarrow> Fw2051ScpQuadConfiguration \<Rightarrow> Fw2051ScpQuadConfiguration \<Rightarrow> u16 \<Rightarrow> ScpProfileApplicationStep" where
  "planned_step i p l r = \<lparr>s_quad = int i, s_registerOffset = r, s_settingName = name (the (FindFw2051ScpSetting r)),
     s_expectedValue = the (Fw2051ScpQuadRegisterValue l r), s_profileValue = the (Fw2051ScpQuadRegisterValue p r),
     s_displayHexadecimal = (r = 0x614A)\<rparr>"

definition timing_order :: "Fw2051ScpQuadConfiguration \<Rightarrow> Fw2051ScpQuadConfiguration \<Rightarrow> u16 list" where
  "timing_order p l = (if timingFilter p \<le> shapingTime l then [0x6110, 0x6124] else [0x6124, 0x6110])"

definition sample_order :: "Fw2051ScpQuadConfiguration \<Rightarrow> Fw2051ScpQuadConfiguration \<Rightarrow> u16 list" where
  "sample_order p l = (if preSamples p < totalSamples l then [0x6146, 0x6148] else [0x6148, 0x6146])"

definition quad_order :: "Fw2051ScpQuadConfiguration \<Rightarrow> Fw2051ScpQuadConfiguration \<Rightarrow> u16 list" where
  "quad_order p l = Fw2051ScpIndependentRegisterOrder @ timing_order p l @ sample_order p l"

definition quad_steps :: "nat \<Rightarrow> Fw2051ScpQuadConfiguration \<Rightarrow> Fw2051ScpQuadConfiguration \<Rightarrow> ScpProfileApplicationStep list" where
  "quad_steps i p l = map (planned_step i p l) (filter (differs_at p l) (quad_order p l))"

fun plan_steps :: "nat \<Rightarrow> Fw2051ScpQuadConfiguration list \<Rightarrow> Fw2051ScpQuadConfiguration list \<Rightarrow> ScpProfileApplicationStep list" where
  "plan_steps i (p # ps) (l # ls) = quad_steps i p l @ plan_steps (Suc i) ps ls"
| "plan_steps i _ _ = []"

lemma planned_step_sel [simp]:
  "s_quad (planned_step i p l r) = int i" "s_registerOffset (planned_step i p l r) = r"
  "s_expectedValue (planned_step i p l r) = the (Fw2051ScpQuadRegisterValue l r)"
  "s_profileValue (planned_step i p l r) = the (Fw2051ScpQuadRegisterValue p r)"
  by (simp_all add: planned_step_def)

lemma set_quad_order [simp]: "set (quad_order p l) = set fw2051_registers"
  by (simp add: quad_order_def timing_order_def sample_order_def Fw2051ScpIndependentRegisterOrder_def fw2051_registers_eq)
    blast

lemma distinct_quad_order [simp]: "distinct (quad_order p l)"
  by (simp add: quad_order_def timing_order_def sample_order_def Fw2051ScpIndependentRegisterOrder_def)

lemma length_filter_quad_order:
  "length (filter P (quad_order p l)) = length (filter P fw2051_registers)"
proof -
  have "length (filter P xs) = card {r \<in> set xs. P r}" if "distinct xs" for xs :: "u16 list"
    using distinct_card [OF distinct_filter [OF that, of P]] by simp
  then show ?thesis by simp
qed

lemma addDifference_eq:
  assumes "length ps = length ls" "i < length ps" "r \<in> set fw2051_registers"
  shows "addDifference (banked_differences 0 ps ls) (int i) r acc
    = acc @ (if differs_at (ps ! i) (ls ! i) r then [planned_step i (ps ! i) (ls ! i) r] else [])"
proof -
  obtain d where d: "FindFw2051ScpSetting r = Some d" using assms(3) by (cases "FindFw2051ScpSetting r") (auto simp: FindFw2051ScpSetting_None)
  then have "registerOffset d = r" by (auto dest: FindFw2051ScpSetting_SomeD)
  with d show ?thesis
    by (simp add: addDifference_def find_banked_difference [OF assms(1,2) d] setting_differs_def differs_at_def planned_step_def)
qed

lemma add_all_eq:
  assumes "length ps = length ls" "i < length ps" "set rs \<subseteq> set fw2051_registers"
  shows "add_all (banked_differences 0 ps ls) (int i) rs acc
    = acc @ map (planned_step i (ps ! i) (ls ! i)) (filter (differs_at (ps ! i) (ls ! i)) rs)"
  using assms(3)
proof (induction rs arbitrary: acc)
  case (Cons r rs)
  then show ?case
    using addDifference_eq [OF assms(1,2)] by (simp add: add_all_def)
qed (simp add: add_all_def)

lemma length_quad_steps: "length (quad_steps i p l) = length (quad_differences j p l)"
proof -
  have "length (filter (setting_differs p l) ds) = length (filter (differs_at p l) (map registerOffset ds))" for ds
    by (induction ds) (auto simp: setting_differs_def differs_at_def)
  then show ?thesis
    by (simp add: quad_steps_def quad_differences_def length_filter_quad_order fw2051_registers_def)
qed

lemma length_plan_steps: "length (plan_steps i ps ls) = length (banked_differences j ps ls)"
proof (induction i ps ls arbitrary: j rule: plan_steps.induct)
  case (1 i p ps l ls)
  then show ?case by (simp add: length_quad_steps [of i p l "int j"])
qed simp_all

text \<open>A target quad the planner accepts: every register in its range, both couplings hold.\<close>

definition target_ok :: "Fw2051ScpQuadConfiguration \<Rightarrow> bool" where
  "target_ok q \<longleftrightarrow> quad_in_range q \<and> coupled_ok q"

lemma target_ok_value:
  "target_ok q \<Longrightarrow> r \<in> set fw2051_registers \<Longrightarrow> ValidateFw2051ScpProfileValue r (the (Fw2051ScpQuadRegisterValue q r)) = None"
  by (simp add: target_ok_def quad_in_range_def list_all_iff)

lemma check_target_settings_None:
  "registerOffset ` set ds \<subseteq> set fw2051_registers \<Longrightarrow> check_target_settings index q ds = None \<longleftrightarrow>
     list_all (\<lambda>r. ValidateFw2051ScpProfileValue r (the (Fw2051ScpQuadRegisterValue q r)) = None) (map registerOffset ds)"
proof (induction ds)
  case (Cons d ds)
  then obtain v where "Fw2051ScpQuadRegisterValue q (registerOffset d) = Some v"
    using quad_register_mapped [of q "registerOffset d"] by auto
  with Cons show ?case by (simp split: option.split)
qed simp

lemma check_targets_None: "check_targets i qs = None \<longleftrightarrow> list_all target_ok qs"
proof (induction qs arbitrary: i)
  case (Cons q qs)
  have "check_target_settings i q Fw2051ScpSettingRegistry = None \<longleftrightarrow> quad_in_range q"
    unfolding quad_in_range_def fw2051_registers_def
    by (rule check_target_settings_None) (simp only: registry_offsets order_refl)
  with Cons show ?case
    by (auto simp: target_ok_def coupled_ok_def not_less not_le split: option.split)
qed simp

lemma target_ok_pairs:
  assumes "target_ok p"
  shows "PlanFw2051ScpCoupledWriteOrder 0x6110 0x6124 (shapingTime l) (timingFilter p) (shapingTime p)
      = Inr (timingFilter p \<le> shapingTime l, timing_order p l)"
    and "PlanFw2051ScpCoupledWriteOrder 0x6146 0x6148 (totalSamples l) (preSamples p) (totalSamples p)
      = Inr (preSamples p < totalSamples l, sample_order p l)"
proof -
  note v = target_ok_value [OF assms]
  from v [of "0x6110"] v [of "0x6124"] v [of "0x6146"] v [of "0x6148"] assms
  show "PlanFw2051ScpCoupledWriteOrder 0x6110 0x6124 (shapingTime l) (timingFilter p) (shapingTime p)
      = Inr (timingFilter p \<le> shapingTime l, timing_order p l)"
    "PlanFw2051ScpCoupledWriteOrder 0x6146 0x6148 (totalSamples l) (preSamples p) (totalSamples p)
      = Inr (preSamples p < totalSamples l, sample_order p l)"
    by (simp_all add: plan_timing_pair plan_sample_pair timing_order_def sample_order_def target_ok_def coupled_ok_def
        fw2051_registers_eq Fw2051ScpQuadRegisterValue_def)
qed

lemma plan_quads_eq:
  assumes "length ps0 = length ls0" "list_all target_ok ps0"
    and "ps = drop i ps0" "ls = drop i ls0"
  shows "plan_quads (banked_differences 0 ps0 ls0) i ls ps acc = Inr (acc @ plan_steps i ps ls)"
  using assms(3,4)
proof (induction ps arbitrary: i ls acc)
  case (Cons p ps)
  then have i: "i < length ps0" by (metis drop_eq_Nil list.discI not_le)
  then have p: "p = ps0 ! i" "ps = drop (Suc i) ps0"
    using Cons.prems(1) by (auto simp: Cons_nth_drop_Suc [symmetric])
  from i assms(1) Cons.prems(2) have ls: "ls = ls0 ! i # drop (Suc i) ls0"
    by (simp add: Cons_nth_drop_Suc)
  from assms(2) i p have ok: "target_ok p" by (simp add: list_all_length)
  have sub: "set Fw2051ScpIndependentRegisterOrder \<subseteq> set fw2051_registers" "set (timing_order p l) \<subseteq> set fw2051_registers"
      "set (sample_order p l) \<subseteq> set fw2051_registers" for l
    using set_quad_order [of p l] unfolding quad_order_def by auto
  show ?case
    using sub(1) sub(2,3) [of "ls0 ! i"] target_ok_pairs [OF ok] Cons.IH [OF p(2) refl]
    by (simp add: ls p(1) [symmetric] add_all_eq [OF assms(1) i] quad_steps_def quad_order_def Let_def)
qed (use assms in \<open>auto\<close>)

subsection \<open>When a plan succeeds\<close>

lemma check_differences_append:
  "check_differences (xs @ ys) = None \<longleftrightarrow> check_differences xs = None \<and> check_differences ys = None"
  by (induction xs) (auto split: option.split)

lemma check_differences_global: "check_differences (global_differences e l) = None \<longleftrightarrow> global_differences e l = []"
proof -
  have "d \<in> set (global_differences e l) \<Longrightarrow> d_quad d = - 1" for d
    by (auto simp: global_differences_def Let_def split: if_splits)
  moreover have "check_differences ds = None \<Longrightarrow> \<forall>d \<in> set ds. d_quad d \<ge> 0" for ds
    by (induction ds) (auto split: if_splits option.splits)
  ultimately show ?thesis by (cases "global_differences e l") force+
qed

lemma check_quad_differences:
  assumes "quad_in_range p"
  shows "check_differences (quad_differences (int i) p l) = None"
proof -
  have "check_differences (map (quad_difference (int i) p l) ds) = None" if "set ds \<subseteq> set Fw2051ScpSettingRegistry" for ds
    using that
  proof (induction ds)
    case (Cons d ds)
    then have "FindFw2051ScpSetting (registerOffset d) = Some d" by (simp add: FindFw2051ScpSetting_registered)
    moreover have "registerOffset d \<in> set fw2051_registers" using Cons.prems by (auto simp: fw2051_registers_def)
    then have "ValidateFw2051ScpProfileValue (registerOffset d) (the (Fw2051ScpQuadRegisterValue p (registerOffset d))) = None"
      using assms by (simp add: quad_in_range_def list_all_iff)
    ultimately show ?case using Cons by simp
  qed simp
  then show ?thesis by (simp add: quad_differences_def)
qed

lemma check_banked_differences:
  "list_all target_ok ps \<Longrightarrow> check_differences (banked_differences i ps ls) = None"
  by (induction i ps ls rule: banked_differences.induct)
    (auto simp: check_differences_append check_quad_differences target_ok_def)

lemma check_plan_differences:
  "list_all target_ok ps \<Longrightarrow> check_differences (global_differences e l @ banked_differences i ps ls) = None
     \<longleftrightarrow> global_differences e l = []"
  by (simp add: check_differences_append check_differences_global check_banked_differences)

definition plannable :: "ScpProfile \<Rightarrow> Fw2051ScpConfigurationSnapshot \<Rightarrow> bool" where
  "plannable profile live \<longleftrightarrow> comparable (CompareFw2051ScpConfiguration profile live)
     \<and> global_differences (configuration profile) live = [] \<and> list_all target_ok (quads (configuration profile))"

lemma comparable_shape:
  assumes "comparable (CompareFw2051ScpConfiguration profile live)"
  shows "length (quads (configuration profile)) = 8" "length (quads live) = 8"
    "valuesCompared (CompareFw2051ScpConfiguration profile live) = 141"
    "differences (CompareFw2051ScpConfiguration profile live)
      = global_differences (configuration profile) live @ banked_differences 0 (quads (configuration profile)) (quads live)"
  using assms compare_eq [of profile live] by (simp_all add: compare_comparable_iff validate_ok_iff)

lemma plan_when_plannable:
  assumes "plannable profile live"
  shows "PlanFw2051ScpProfileApplication profile live =
    (let ss = plan_steps 0 (quads (configuration profile)) (quads live) in
     \<lparr>plan_success = True, plan_message = (if ss = [] then AlreadyMatchesProfile else PreparedTransaction (length ss)),
       request = \<lparr>expectedLiveConfiguration = live, req_valuesCompared = 141, configurationDifferences = length ss,
         steps = ss\<rparr>\<rparr>)"
proof -
  let ?ps = "quads (configuration profile)" and ?ls = "quads live"
  from assms have c: "comparable (CompareFw2051ScpConfiguration profile live)"
    and g: "global_differences (configuration profile) live = []" and ok: "list_all target_ok ?ps"
    by (simp_all add: plannable_def)
  note shape = comparable_shape [OF c]
  have planned: "plan_quads (banked_differences 0 ?ps ?ls) 0 ?ls ?ps [] = Inr (plan_steps 0 ?ps ?ls)"
    using shape ok by (simp add: plan_quads_eq)
  have len: "length (banked_differences 0 ?ps ?ls) = length (plan_steps 0 ?ps ?ls)"
    by (rule length_plan_steps [symmetric])
  have targets: "check_targets 0 ?ps = None" using ok by (simp add: check_targets_None)
  show ?thesis
    using c ok by (simp add: PlanFw2051ScpProfileApplication_def Let_def shape g planned len
        check_banked_differences targets)
qed

lemma plan_success_plannable: "plan_success (PlanFw2051ScpProfileApplication profile live) \<longleftrightarrow> plannable profile live"
proof
  assume s: "plan_success (PlanFw2051ScpProfileApplication profile live)"
  then have c: "comparable (CompareFw2051ScpConfiguration profile live)"
    by (auto simp: PlanFw2051ScpProfileApplication_def Let_def split: if_splits)
  from s c have "check_targets 0 (quads (configuration profile)) = None"
    "check_differences (differences (CompareFw2051ScpConfiguration profile live)) = None"
    by (auto simp: PlanFw2051ScpProfileApplication_def Let_def split: option.splits)
  with c show "plannable profile live"
    by (simp add: plannable_def check_targets_None comparable_shape check_plan_differences)
qed (simp add: plan_when_plannable Let_def)

lemma plan_failure_empty:
  "\<not> plan_success (PlanFw2051ScpProfileApplication profile live) \<Longrightarrow>
     steps (request (PlanFw2051ScpProfileApplication profile live)) = []"
  by (auto simp: PlanFw2051ScpProfileApplication_def Let_def split: if_splits option.splits sum.splits)

lemma plan_steps_planned:
  "plan_success (PlanFw2051ScpProfileApplication profile live) \<Longrightarrow>
     steps (request (PlanFw2051ScpProfileApplication profile live)) = plan_steps 0 (quads (configuration profile)) (quads live)"
  by (simp add: plan_success_plannable plan_when_plannable Let_def)

subsection \<open>What executing a plan does\<close>

lemma apply_steps_simps [simp]:
  "apply_steps qs [] = qs" "apply_steps qs (s # ss) = apply_steps (apply_step qs s) ss"
  "apply_steps qs (ss @ ts) = apply_steps (apply_steps qs ss) ts"
  by (simp_all add: apply_steps_def)

lemma length_apply_step [simp]: "length (apply_step qs s) = length qs"
  by (simp add: apply_step_def)

definition target_writes :: "Fw2051ScpQuadConfiguration \<Rightarrow> u16 list \<Rightarrow> (u16 \<times> u16) list" where
  "target_writes p rs = map (\<lambda>r. (r, the (Fw2051ScpQuadRegisterValue p r))) rs"

lemma apply_planned_steps:
  "apply_steps (pre @ q # post) (map (planned_step (length pre) p l) rs) = pre @ scp_bank.put_all q (target_writes p rs) # post"
  by (induction rs arbitrary: q) (simp_all add: apply_step_def target_writes_def)

lemma put_differences_reaches:
  assumes "quad_wf p" "quad_wf l" "quad p = quad l"
  shows "scp_bank.put_all l (target_writes p (filter (differs_at p l) (quad_order p l))) = p"
proof (rule scp_bank.put_all_same_bank)
  show "distinct (map fst (target_writes p (filter (differs_at p l) (quad_order p l))))"
    by (simp add: target_writes_def comp_def)
  fix r v assume "(r, v) \<in> set (target_writes p (filter (differs_at p l) (quad_order p l)))"
  then show "Fw2051ScpQuadRegisterValue p r = Some v"
    using quad_register_mapped [of p r] by (auto simp: target_writes_def)
qed (use assms in \<open>auto simp: target_writes_def differs_at_def image_image\<close>)

lemma apply_quad_steps:
  assumes "quad_wf p" "quad_wf l" "quad p = quad l"
  shows "apply_steps (pre @ l # post) (quad_steps (length pre) p l) = pre @ p # post"
  using assms by (simp add: quad_steps_def apply_planned_steps put_differences_reaches)

lemma apply_plan_steps:
  assumes "length ps = length ls" "list_all quad_wf ps" "list_all quad_wf ls" "map quad ps = map quad ls"
  shows "apply_steps (pre @ ls) (plan_steps (length pre) ps ls) = pre @ ps"
  using assms
proof (induction ps ls arbitrary: pre rule: list_induct2)
  case (Cons p ps l ls)
  then have "apply_steps ((pre @ [p]) @ ls) (plan_steps (length (pre @ [p])) ps ls) = (pre @ [p]) @ ps"
    by (intro Cons.IH) auto
  with Cons.prems show ?case by (simp add: apply_quad_steps)
qed simp

subsection \<open>Every intermediate state of a plan\<close>

fun safe_run :: "Fw2051ScpQuadConfiguration list \<Rightarrow> ScpProfileApplicationStep list \<Rightarrow> bool" where
  "safe_run qs [] = list_all coupled_ok qs"
| "safe_run qs (s # ss) = (list_all coupled_ok qs \<and> safe_run (apply_step qs s) ss)"

lemma safe_run_append: "safe_run qs (ss @ ts) \<longleftrightarrow> safe_run qs ss \<and> safe_run (apply_steps qs ss) ts"
proof (induction ss arbitrary: qs)
  case Nil
  then show ?case by (cases ts) auto
qed simp

lemma safe_run_prefixes: "safe_run qs ss \<longleftrightarrow> (\<forall>k. list_all coupled_ok (apply_steps qs (take k ss)))"
proof (induction ss arbitrary: qs)
  case (Cons s ss)
  have "(\<forall>k. P k) \<longleftrightarrow> P 0 \<and> (\<forall>k. P (Suc k))" for P by (metis not0_implies_Suc)
  from this [of "\<lambda>k. list_all coupled_ok (apply_steps qs (take k (s # ss)))"] Cons
  show ?case by simp
qed simp

fun safe_puts :: "Fw2051ScpQuadConfiguration \<Rightarrow> (u16 \<times> u16) list \<Rightarrow> bool" where
  "safe_puts q [] = coupled_ok q"
| "safe_puts q ((r, v) # ws) = (coupled_ok q \<and> safe_puts (snd (SetFw2051ScpQuadRegisterValue q r v)) ws)"

lemma safe_puts_append: "safe_puts q (ws @ ws') \<longleftrightarrow> safe_puts q ws \<and> safe_puts (scp_bank.put_all q ws) ws'"
proof (induction ws arbitrary: q)
  case Nil
  then show ?case by (cases ws') auto
qed (auto simp: scp_bank.put_all_simps)

lemma safe_run_planned:
  assumes "list_all coupled_ok pre" "list_all coupled_ok post"
  shows "safe_run (pre @ q # post) (map (planned_step (length pre) p l) rs) \<longleftrightarrow> safe_puts q (target_writes p rs)"
  using assms by (induction rs arbitrary: q) (auto simp: apply_step_def target_writes_def)

lemma independent_put_coupled:
  assumes "r \<in> set Fw2051ScpIndependentRegisterOrder"
  shows "timingFilter (snd (SetFw2051ScpQuadRegisterValue q r v)) = timingFilter q"
    "shapingTime (snd (SetFw2051ScpQuadRegisterValue q r v)) = shapingTime q"
    "preSamples (snd (SetFw2051ScpQuadRegisterValue q r v)) = preSamples q"
    "totalSamples (snd (SetFw2051ScpQuadRegisterValue q r v)) = totalSamples q"
  using assms by (auto simp: Fw2051ScpIndependentRegisterOrder_def SetFw2051ScpQuadRegisterValue_def)

lemma independent_puts:
  assumes "fst ` set ws \<subseteq> set Fw2051ScpIndependentRegisterOrder"
  shows "timingFilter (scp_bank.put_all q ws) = timingFilter q \<and> shapingTime (scp_bank.put_all q ws) = shapingTime q
    \<and> preSamples (scp_bank.put_all q ws) = preSamples q \<and> totalSamples (scp_bank.put_all q ws) = totalSamples q
    \<and> (safe_puts q ws \<longleftrightarrow> coupled_ok q)"
  using assms
proof (induction ws arbitrary: q)
  case (Cons w ws)
  then show ?case
    by (cases w) (auto simp: independent_put_coupled coupled_ok_def)
qed simp

lemma timing_puts:
  assumes "coupled_ok q" "coupled_ok p" "timingFilter q = timingFilter l" "shapingTime q = shapingTime l"
  shows "safe_puts q (target_writes p (filter (differs_at p l) (timing_order p l)))
    \<and> preSamples (scp_bank.put_all q (target_writes p (filter (differs_at p l) (timing_order p l)))) = preSamples q
    \<and> totalSamples (scp_bank.put_all q (target_writes p (filter (differs_at p l) (timing_order p l)))) = totalSamples q"
  using assms
  by (auto simp: timing_order_def target_writes_def differs_at_def coupled_ok_def
      Fw2051ScpQuadRegisterValue_def SetFw2051ScpQuadRegisterValue_def)

lemma sample_puts:
  assumes "coupled_ok q" "coupled_ok p" "preSamples q = preSamples l" "totalSamples q = totalSamples l"
  shows "safe_puts q (target_writes p (filter (differs_at p l) (sample_order p l)))"
  using assms
  by (auto simp: sample_order_def target_writes_def differs_at_def coupled_ok_def
      Fw2051ScpQuadRegisterValue_def SetFw2051ScpQuadRegisterValue_def)

lemma safe_puts_last: "safe_puts q ws \<Longrightarrow> coupled_ok (scp_bank.put_all q ws)"
  by (induction q ws rule: safe_puts.induct) auto

lemma quad_puts_safe:
  assumes "coupled_ok l" "coupled_ok p"
  shows "safe_puts l (target_writes p (filter (differs_at p l) (quad_order p l)))"
proof -
  let ?i = "target_writes p (filter (differs_at p l) Fw2051ScpIndependentRegisterOrder)"
  let ?t = "target_writes p (filter (differs_at p l) (timing_order p l))"
  let ?s = "target_writes p (filter (differs_at p l) (sample_order p l))"
  define q where "q = scp_bank.put_all l ?i"
  have sub: "fst ` set ?i \<subseteq> set Fw2051ScpIndependentRegisterOrder" by (auto simp: target_writes_def)
  have i: "safe_puts l ?i" "timingFilter q = timingFilter l" "shapingTime q = shapingTime l"
      "preSamples q = preSamples l" "totalSamples q = totalSamples l"
    using independent_puts [of ?i l] assms(1) sub by (simp_all add: q_def)
  then have "coupled_ok q" using assms(1) by (simp add: coupled_ok_def)
  note t = timing_puts [OF this assms(2) i(2,3)]
  have "safe_puts (scp_bank.put_all q ?t) ?s"
    using t i assms(2) by (intro sample_puts) (auto intro: safe_puts_last)
  then show ?thesis
    using i t by (simp add: quad_order_def target_writes_def safe_puts_append scp_bank.put_all_append q_def)
qed

lemma plan_steps_safe:
  assumes "length ps = length ls" "list_all quad_wf ps" "list_all quad_wf ls" "map quad ps = map quad ls"
    and "list_all coupled_ok ps" "list_all coupled_ok ls" "list_all coupled_ok pre"
  shows "safe_run (pre @ ls) (plan_steps (length pre) ps ls)"
  using assms
proof (induction ps ls arbitrary: pre rule: list_induct2)
  case (Cons p ps l ls)
  then have "safe_run ((pre @ [p]) @ ls) (plan_steps (length (pre @ [p])) ps ls)"
    by (intro Cons.IH) auto
  with Cons.prems show ?case
    by (simp add: safe_run_append apply_quad_steps) (simp add: quad_steps_def safe_run_planned quad_puts_safe)
qed simp

subsection \<open>The individual steps\<close>

lemma set_plan_steps:
  "length ps = length ls \<Longrightarrow> s \<in> set (plan_steps b ps ls) \<longleftrightarrow>
     (\<exists>k < length ps. \<exists>r \<in> set fw2051_registers. differs_at (ps ! k) (ls ! k) r \<and> s = planned_step (b + k) (ps ! k) (ls ! k) r)"
proof (induction ps ls arbitrary: b rule: list_induct2)
  case (Cons p ps l ls)
  have "(\<exists>k < Suc n. P k) \<longleftrightarrow> P 0 \<or> (\<exists>k < n. P (Suc k))" for P and n :: nat
    by (metis Suc_less_eq not0_implies_Suc zero_less_Suc)
  with Cons show ?case by (auto simp: quad_steps_def)
qed simp

lemma distinct_plan_steps:
  "length ps = length ls \<Longrightarrow> distinct (map (\<lambda>s. (s_quad s, s_registerOffset s)) (plan_steps b ps ls))"
proof (induction ps ls arbitrary: b rule: list_induct2)
  case (Cons p ps l ls)
  then show ?case
    by (auto simp: quad_steps_def comp_def distinct_map inj_on_def set_plan_steps)
qed simp

subsection \<open>Deterministic startup\<close>

lemma count_differences_append:
  "count_differences (xs @ ys) cb = (case count_differences xs cb of
     (None, cb) \<Rightarrow> count_differences ys cb | (Some s, cb) \<Rightarrow> (Some s, cb))"
  by (induction xs cb rule: count_differences.induct) auto

lemma count_banked_differences:
  "count_differences (banked_differences i ps ls) (c, b) = (None, c, b + length (banked_differences i ps ls))"
proof -
  have quads: "count_differences (map (quad_difference (int i) p l) ds) (c, b) = (None, c, b + length ds)" for i p l ds c b
    by (induction ds arbitrary: b) auto
  show ?thesis
    by (induction i ps ls arbitrary: b rule: banked_differences.induct)
      (simp_all add: count_differences_append quad_differences_def quads)
qed

definition same_identity :: "Fw2051ScpConfigurationSnapshot \<Rightarrow> Fw2051ScpConfigurationSnapshot \<Rightarrow> bool" where
  "same_identity e l \<longleftrightarrow> baseAddress e = baseAddress l \<and> hardwareId e = hardwareId l \<and> firmwareRevision e = firmwareRevision l"

definition contract_differences :: "Fw2051ScpConfigurationSnapshot \<Rightarrow> Fw2051ScpConfigurationSnapshot \<Rightarrow> nat" where
  "contract_differences e l = (if irqLevel e = irqLevel l then 0 else 1) + (if outputFormat e = outputFormat l then 0 else 1)"

lemma count_global_differences:
  "same_identity e l \<Longrightarrow> count_differences (global_differences e l) (0, 0) = (None, contract_differences e l, 0)
     \<and> length (global_differences e l) = contract_differences e l"
  by (simp add: global_differences_def same_identity_def contract_differences_def)

lemma count_global_blocked:
  "fst (count_differences (global_differences e l) (0, 0)) = None \<longleftrightarrow> same_identity e l"
  by (auto simp: global_differences_def same_identity_def)

definition startable :: "ScpProfile \<Rightarrow> Fw2051ScpConfigurationSnapshot \<Rightarrow> bool" where
  "startable profile live \<longleftrightarrow> comparable (CompareFw2051ScpConfiguration profile live)
     \<and> hardwareId (configuration profile) = Mdpp32HardwareId
     \<and> irqLevel (configuration profile) = 1 \<and> outputFormat (configuration profile) = 0x0018
     \<and> same_identity (configuration profile) live \<and> list_all target_ok (quads (configuration profile))"

lemma startup_live_comparable:
  "comparable (CompareFw2051ScpConfiguration profile (live\<lparr>irqLevel := irq, outputFormat := fmt\<rparr>))
     \<longleftrightarrow> comparable (CompareFw2051ScpConfiguration profile live)"
  by (simp add: compare_comparable_iff validate_ok_iff)

lemma startable_plannable:
  assumes "startable profile live"
  shows "plannable profile (live\<lparr>irqLevel := 1, outputFormat := 0x0018\<rparr>)"
  using assms
  by (auto simp: startable_def plannable_def startup_live_comparable global_differences_Nil same_identity_def)

lemma comparable_firmware:
  "comparable (CompareFw2051ScpConfiguration profile live) \<Longrightarrow>
     firmwareRevision (configuration profile) = Mdpp32ScpFirmwareRevisionFw2051
     \<and> firmwareRevision live = Mdpp32ScpFirmwareRevisionFw2051"
  by (simp add: compare_comparable_iff validate_ok_iff)

lemma startup_when_startable:
  assumes "startable profile live"
  shows "PlanFw2051ScpStandaloneStartup profile live =
    (let ss = plan_steps 0 (quads (configuration profile)) (quads live);
         contract = contract_differences (configuration profile) live in
     \<lparr>sp_success = True, sp_message = PreparedStartup contract (length ss), sp_valuesCompared = 141,
       sp_configurationDifferences = contract + length ss, startupContractDifferences = contract,
       bankedDifferences = length ss,
       bankedApplication = Some \<lparr>expectedLiveConfiguration = live\<lparr>irqLevel := 1, outputFormat := 0x0018\<rparr>,
         req_valuesCompared = 141, configurationDifferences = length ss, steps = ss\<rparr>\<rparr>)"
proof -
  let ?e = "configuration profile"
  from assms have c: "comparable (CompareFw2051ScpConfiguration profile live)"
    and id: "same_identity ?e live" and hw: "hardwareId ?e = Mdpp32HardwareId"
    and std: "irqLevel ?e = 1" "outputFormat ?e = 0x0018"
    by (simp_all add: startable_def)
  note shape = comparable_shape [OF c] and fw = comparable_firmware [OF c]
  have hwl: "hardwareId live = Mdpp32HardwareId" using id hw by (simp add: same_identity_def)
  note plan = plan_when_plannable [OF startable_plannable [OF assms]]
  have len: "length (banked_differences 0 (quads ?e) (quads live)) = length (plan_steps 0 (quads ?e) (quads live))"
    by (rule length_plan_steps [symmetric])
  have count: "count_differences (differences (CompareFw2051ScpConfiguration profile live)) (0, 0)
      = (None, contract_differences ?e live, length (plan_steps 0 (quads ?e) (quads live)))"
    using count_global_differences [OF id]
    by (simp add: shape count_differences_append count_banked_differences len)
  have total: "length (differences (CompareFw2051ScpConfiguration profile live))
      = contract_differences ?e live + length (plan_steps 0 (quads ?e) (quads live))"
    using count_global_differences [OF id] by (simp add: shape(4) len)
  show ?thesis
    using c fw hw hwl std
    by (simp add: PlanFw2051ScpStandaloneStartup_def Let_def count plan total shape(3))
qed

lemma startup_success_startable:
  "sp_success (PlanFw2051ScpStandaloneStartup profile live) \<longleftrightarrow> startable profile live"
proof
  let ?live = "live\<lparr>irqLevel := 1, outputFormat := 0x0018\<rparr>"
  assume s: "sp_success (PlanFw2051ScpStandaloneStartup profile live)"
  then have c: "comparable (CompareFw2051ScpConfiguration profile live)"
    by (auto simp: PlanFw2051ScpStandaloneStartup_def Let_def split: if_splits)
  from s c have hw: "hardwareId (configuration profile) = Mdpp32HardwareId"
      "irqLevel (configuration profile) = 1" "outputFormat (configuration profile) = 0x0018"
    by (auto simp: PlanFw2051ScpStandaloneStartup_def Let_def split: if_splits)
  from s c have none: "fst (count_differences (differences (CompareFw2051ScpConfiguration profile live)) (0, 0)) = None"
    and plan: "plan_success (PlanFw2051ScpProfileApplication profile ?live)"
    by (auto simp: PlanFw2051ScpStandaloneStartup_def Let_def split: if_splits option.splits prod.splits)
  from none have "same_identity (configuration profile) live"
    unfolding count_global_blocked [symmetric]
    by (auto simp: comparable_shape(4) [OF c] count_differences_append split: prod.splits option.splits)
  with c hw plan show "startable profile live"
    by (simp add: startable_def plan_success_plannable plannable_def)
qed (simp add: startup_when_startable Let_def)

subsection \<open>The properties of the planner\<close>

lemma sample_quads_ok:
  "list_all target_ok (quads sample_target)" "list_all coupled_ok (quads sample_live)" 
  by code_simp+

lemma sample_plannable: "plannable sample_profile sample_live"
  using sample_comparable sample_quads_ok
  by (simp add: plannable_def global_differences_Nil sample_profile_def sample_target_def)

lemma sample_plan_success: "plan_success (PlanFw2051ScpProfileApplication sample_profile sample_live)"
  using sample_plannable by (simp add: plan_success_plannable)

lemma plannable_shape:
  assumes "plannable profile live" "snapshot_wf (configuration profile)" "snapshot_wf live"
  shows "length (quads (configuration profile)) = length (quads live)"
    "list_all quad_wf (quads (configuration profile))" "list_all quad_wf (quads live)"
    "map quad (quads (configuration profile)) = map quad (quads live)"
    "list_all coupled_ok (quads (configuration profile))"
  using assms
  by (auto simp: plannable_def compare_comparable_iff validate_ok_iff snapshot_wf_def valid_quad_numbers
      target_ok_def list_all_iff)

text \<open>
  (C4) Carrying out the steps of a successful plan, in order, turns the quads of the live
  configuration into exactly the quads of the profile.
\<close>
theorem plan_reaches_profile:
  assumes "plan_success (PlanFw2051ScpProfileApplication profile live)"
    and "snapshot_wf (configuration profile)" "snapshot_wf live"
  shows "apply_steps (quads live) (steps (request (PlanFw2051ScpProfileApplication profile live)))
    = quads (configuration profile)"
  using assms apply_plan_steps [of "quads (configuration profile)" "quads live" "[]"] plannable_shape [of profile live]
  by (simp add: plan_steps_planned plan_success_plannable)

theorem plan_reaches_profile_witness:
  "apply_steps (quads sample_live) (steps (request (PlanFw2051ScpProfileApplication sample_profile sample_live)))
    = quads sample_target \<and> quads sample_target \<noteq> quads sample_live"
  using plan_reaches_profile [OF sample_plan_success] sample_wf
  by (simp add: sample_profile_def sample_moves)

text \<open>
  (C5) When the live couplings hold, they hold after every prefix of the plan as well: at
  no intermediate point is a timing filter above its shaping time or a pre-sample count at
  or above its total, so an interrupted plan leaves a consistent module.
\<close>
theorem plan_prefixes_coupled:
  assumes "plan_success (PlanFw2051ScpProfileApplication profile live)"
    and "snapshot_wf (configuration profile)" "snapshot_wf live"
    and "list_all coupled_ok (quads live)"
  shows "list_all coupled_ok (apply_steps (quads live)
    (take k (steps (request (PlanFw2051ScpProfileApplication profile live)))))"
  using assms plan_steps_safe [of "quads (configuration profile)" "quads live" "[]"] plannable_shape [of profile live]
  by (simp add: plan_steps_planned plan_success_plannable safe_run_prefixes)

theorem plan_prefixes_coupled_witness:
  "list_all coupled_ok (apply_steps (quads sample_live)
    (take 1 (steps (request (PlanFw2051ScpProfileApplication sample_profile sample_live)))))"
  using plan_prefixes_coupled [OF sample_plan_success _ sample_wf(1) sample_quads_ok(2), of 1] sample_wf(2)
  by (simp add: sample_profile_def)

text \<open>
  (C28) The planner succeeds exactly when the two configurations are comparable, agree on
  every global value, and every quad of the profile is in range and satisfies both
  couplings; in every other case it returns no steps at all.
\<close>
theorem plan_success_iff:
  "(plan_success (PlanFw2051ScpProfileApplication profile live) \<longleftrightarrow>
      comparable (CompareFw2051ScpConfiguration profile live)
      \<and> global_differences (configuration profile) live = []
      \<and> list_all (\<lambda>q. quad_in_range q \<and> coupled_ok q) (quads (configuration profile)))
   \<and> (plan_success (PlanFw2051ScpProfileApplication profile live)
      \<or> steps (request (PlanFw2051ScpProfileApplication profile live)) = [])"
  using plan_failure_empty [of profile live]
  by (auto simp: plan_success_plannable plannable_def target_ok_def list_all_iff)

text \<open>
  The steps of a successful plan are single-register moves of the module: no register
  of a quad is written twice, each step names the live value it replaces and the profile
  value it installs, these differ, the new value is in range, and there is one step per
  difference the comparison reported.
\<close>
theorem plan_steps_exact:
  assumes "plan_success (PlanFw2051ScpProfileApplication profile live)"
  defines "ss \<equiv> steps (request (PlanFw2051ScpProfileApplication profile live))"
  shows "distinct (map (\<lambda>s. (s_quad s, s_registerOffset s)) ss)
    \<and> length ss = length (differences (CompareFw2051ScpConfiguration profile live))
    \<and> list_all (\<lambda>s. s_quad s \<in> {0..<8}
        \<and> Fw2051ScpQuadRegisterValue (quads live ! nat (s_quad s)) (s_registerOffset s) = Some (s_expectedValue s)
        \<and> Fw2051ScpQuadRegisterValue (quads (configuration profile) ! nat (s_quad s)) (s_registerOffset s) = Some (s_profileValue s)
        \<and> s_expectedValue s \<noteq> s_profileValue s
        \<and> ValidateFw2051ScpProfileValue (s_registerOffset s) (s_profileValue s) = None) ss"
proof -
  let ?ps = "quads (configuration profile)" and ?ls = "quads live"
  from assms(1) have p: "plannable profile live" by (simp add: plan_success_plannable)
  then have c: "comparable (CompareFw2051ScpConfiguration profile live)" and g: "global_differences (configuration profile) live = []"
    and ok: "list_all target_ok ?ps" by (simp_all add: plannable_def)
  note shape = comparable_shape [OF c]
  have ss: "ss = plan_steps 0 ?ps ?ls" using assms(1) by (simp add: ss_def plan_steps_planned)
  have "length ss = length (differences (CompareFw2051ScpConfiguration profile live))"
    using length_plan_steps [of 0 ?ps ?ls 0] by (simp add: ss shape g)
  moreover have "s_quad s \<in> {0..<8}
      \<and> Fw2051ScpQuadRegisterValue (?ls ! nat (s_quad s)) (s_registerOffset s) = Some (s_expectedValue s)
      \<and> Fw2051ScpQuadRegisterValue (?ps ! nat (s_quad s)) (s_registerOffset s) = Some (s_profileValue s)
      \<and> s_expectedValue s \<noteq> s_profileValue s
      \<and> ValidateFw2051ScpProfileValue (s_registerOffset s) (s_profileValue s) = None" if s: "s \<in> set ss" for s
  proof -
    obtain k r where k: "k < 8" "r \<in> set fw2051_registers" "differs_at (?ps ! k) (?ls ! k) r"
        "s = planned_step k (?ps ! k) (?ls ! k) r"
      using s shape by (auto simp: ss set_plan_steps)
    moreover from k(2) obtain pv lv where "Fw2051ScpQuadRegisterValue (?ps ! k) r = Some pv" "Fw2051ScpQuadRegisterValue (?ls ! k) r = Some lv"
      using quad_register_mapped [of "?ps ! k" r] quad_register_mapped [of "?ls ! k" r] by auto
    moreover from ok k(1) shape have "target_ok (?ps ! k)" by (simp add: list_all_length)
    then have "ValidateFw2051ScpProfileValue r (the (Fw2051ScpQuadRegisterValue (?ps ! k) r)) = None"
      using k(2) by (rule target_ok_value)
    ultimately show ?thesis by (simp add: differs_at_def)
  qed
  ultimately show ?thesis using shape by (simp add: list_all_iff ss distinct_plan_steps)
qed

theorem plan_steps_exact_witness:
  "distinct (map (\<lambda>s. (s_quad s, s_registerOffset s)) (steps (request (PlanFw2051ScpProfileApplication sample_profile sample_live))))"
  using plan_steps_exact [OF sample_plan_success] by simp

text \<open>
  For a coupled pair, the order the planner chooses is safe: writing the first register
  of the returned order while the other still holds its current value, and then the second,
  satisfies the timing coupling at both points, whenever it held before.
\<close>
theorem coupled_order_safe:
  assumes "PlanFw2051ScpCoupledWriteOrder 0x6110 0x6124 (shapingTime q) tf st = Inr (first, offsets)"
    and "timingFilter q \<le> shapingTime q"
  shows "set offsets = {0x6110, 0x6124} \<and> length offsets = 2
    \<and> (let q1 = snd (SetFw2051ScpQuadRegisterValue q (offsets ! 0) (if offsets ! 0 = 0x6110 then tf else st));
           q2 = snd (SetFw2051ScpQuadRegisterValue q1 (offsets ! 1) (if offsets ! 1 = 0x6110 then tf else st))
       in timingFilter q1 \<le> shapingTime q1 \<and> timingFilter q2 \<le> shapingTime q2
          \<and> timingFilter q2 = tf \<and> shapingTime q2 = st)"
  using assms by (auto simp: plan_timing_pair SetFw2051ScpQuadRegisterValue_def Let_def)

theorem coupled_order_safe_witness:
  "PlanFw2051ScpCoupledWriteOrder 0x6110 0x6124 (shapingTime (sample_quad 0)) 120 400 = Inr (False, [0x6124, 0x6110])
   \<and> (let q1 = snd (SetFw2051ScpQuadRegisterValue (sample_quad 0) 0x6124 400) in timingFilter q1 \<le> shapingTime q1)"
proof -
  have plan: "PlanFw2051ScpCoupledWriteOrder 0x6110 0x6124 (shapingTime (sample_quad 0)) 120 400 = Inr (False, [0x6124, 0x6110])"
    by code_simp
  have "timingFilter (sample_quad 0) \<le> shapingTime (sample_quad 0)" by code_simp
  from coupled_order_safe [OF plan this] plan show ?thesis by (simp add: Let_def)
qed

text \<open>
  Deterministic startup prepares a plan exactly for a comparable FW2051 profile of the
  tested hardware with IRQ 1 and format 0x0018 whose base, hardware and firmware equal the
  live ones and whose quads are valid; its counts then partition the differences, at most
  two of them contract differences, and the banked part is the profile application against
  the live configuration with the contract values assumed.
\<close>
theorem startup_plan_exact:
  "(sp_success (PlanFw2051ScpStandaloneStartup profile live) \<longleftrightarrow> startable profile live)
   \<and> (let plan = PlanFw2051ScpStandaloneStartup profile live in
      sp_success plan \<longrightarrow>
        sp_configurationDifferences plan = startupContractDifferences plan + bankedDifferences plan
        \<and> startupContractDifferences plan \<le> 2
        \<and> (\<exists>req. bankedApplication plan = Some req \<and> length (steps req) = bankedDifferences plan
             \<and> steps req = steps (request (PlanFw2051ScpProfileApplication profile (live\<lparr>irqLevel := 1, outputFormat := 0x0018\<rparr>)))))"
  using startup_when_startable [of profile live] plan_when_plannable [OF startable_plannable, of profile live]
  by (auto simp: startup_success_startable Let_def contract_differences_def)

theorem startup_plan_exact_witness:
  "startable sample_profile (sample_live\<lparr>irqLevel := 3\<rparr>)
   \<and> sp_configurationDifferences (PlanFw2051ScpStandaloneStartup sample_profile (sample_live\<lparr>irqLevel := 3\<rparr>))
     = startupContractDifferences (PlanFw2051ScpStandaloneStartup sample_profile (sample_live\<lparr>irqLevel := 3\<rparr>))
     + bankedDifferences (PlanFw2051ScpStandaloneStartup sample_profile (sample_live\<lparr>irqLevel := 3\<rparr>))"
proof -
  have "comparable (CompareFw2051ScpConfiguration sample_profile (sample_live\<lparr>irqLevel := 3\<rparr>))"
    using sample_comparable by (simp add: compare_comparable_iff validate_ok_iff)
  then have "startable sample_profile (sample_live\<lparr>irqLevel := 3\<rparr>)"
    using sample_quads_ok(1)
    by (simp add: startable_def same_identity_def sample_profile_def) (simp add: sample_target_def sample_live_def)
  then show ?thesis using startup_plan_exact [of sample_profile "sample_live\<lparr>irqLevel := 3\<rparr>"] by (simp add: Let_def)
qed

end
