(* ===== verification/Scp_Bulk_Apply.thy ===== *)
theory Scp_Bulk_Apply
  imports Scp_Capture Scp_Plan
begin

text \<open>
  Applying a planned profile, \<^verbatim>\<open>hardware/ScpBulkApplyOperation.cpp\<close>: validate the request, capture
  the module and require that it still matches the plan's starting point, stop acquisition,
  write and read back each step, park the selector and reset the readout; on a failure after
  the first write, write the old values back in reverse order. Every write is preceded by the
  ownership gate. Sleeping between the steps has no effect the model can see.
\<close>

subsection \<open>Results\<close>

datatype ScpBulkApplyState = ApplyNotRun | Applying | RollingBack | Passed | ApplyFailed

record ScpAppliedValueResult =
  v_quad :: int
  v_registerOffset :: u16
  v_settingName :: string
  v_expectedValue :: u16
  v_profileValue :: u16
  v_appliedReadback :: u16
  v_rollbackReadback :: u16
  v_writeAttempted :: bool
  v_writeVerified :: bool
  v_rollbackAttempted :: bool
  v_rollbackVerified :: bool
  v_profileValueRetained :: bool

datatype request_error =
    ExpectedConfigurationInvalid snapshot_error
  | NoWritesRequested
  | InvalidChannelQuad
  | RegisterNotOffered
  | StepDoesNotMatch
  | StepValueError scp_value_error
  | StepNotMapped
  | TargetInvalid snapshot_error
  | TargetNotMapped
  | TargetValueError nat scp_value_error
  | TargetTimingFilterAbove nat
  | TargetPreSamplesNotBelow nat

text \<open>The texts of the result; a text that was built from parts of the run is kept as it is.\<close>

datatype apply_message =
    NoApplicationRequested
  | RevalidatingTarget
  | RequestRefused request_error
  | NoOwnershipGate
  | CaptureMessage string
  | PreflightDiffers
  | PreflightNotComparable comparison_message
  | AppliedAndRetained nat
  | RestoredAfter string
  | NotInVerifiedState
  | FailureMessage string

record ScpBulkApplyResult =
  b_state :: ScpBulkApplyState
  b_message :: apply_message
  b_baseAddress :: u32
  b_valuesCompared :: nat
  b_configurationDifferences :: nat
  b_plannedWrites :: nat
  b_writesAttempted :: nat
  b_writesVerified :: nat
  b_rollbackWritesAttempted :: nat
  b_rollbackWritesVerified :: nat
  b_fullPreflightMatched :: bool
  b_moduleStopSent :: bool
  b_moduleStopVerified :: bool
  b_moduleLeftStopped :: bool
  b_rollbackAttempted :: bool
  b_rollbackVerified :: bool
  b_selectorParkedAtQuadZero :: bool
  b_fifoResetSent :: bool
  b_readoutResetSent :: bool
  b_profileValuesRetained :: bool
  b_values :: "ScpAppliedValueResult list"

definition pending_value :: "ScpProfileApplicationStep \<Rightarrow> ScpAppliedValueResult" where
  "pending_value step = \<lparr>v_quad = s_quad step, v_registerOffset = s_registerOffset step, v_settingName = s_settingName step,
     v_expectedValue = s_expectedValue step, v_profileValue = s_profileValue step, v_appliedReadback = 0, v_rollbackReadback = 0,
     v_writeAttempted = False, v_writeVerified = False, v_rollbackAttempted = False, v_rollbackVerified = False,
     v_profileValueRetained = False\<rparr>"

definition begin_result :: "ScpProfileApplicationRequest \<Rightarrow> ScpBulkApplyResult" where
  "begin_result r = \<lparr>b_state = Applying, b_message = RevalidatingTarget,
     b_baseAddress = baseAddress (expectedLiveConfiguration r), b_valuesCompared = req_valuesCompared r,
     b_configurationDifferences = configurationDifferences r, b_plannedWrites = length (steps r),
     b_writesAttempted = 0, b_writesVerified = 0, b_rollbackWritesAttempted = 0, b_rollbackWritesVerified = 0,
     b_fullPreflightMatched = False, b_moduleStopSent = False, b_moduleStopVerified = False, b_moduleLeftStopped = False,
     b_rollbackAttempted = False, b_rollbackVerified = False, b_selectorParkedAtQuadZero = False, b_fifoResetSent = False,
     b_readoutResetSent = False, b_profileValuesRetained = False, b_values = map pending_value (steps r)\<rparr>"

subsection \<open>The request\<close>

fun validate_steps :: "ScpProfileApplicationStep list \<Rightarrow> Fw2051ScpQuadConfiguration list
    \<Rightarrow> request_error + Fw2051ScpQuadConfiguration list" where
  "validate_steps [] target = Inr target"
| "validate_steps (step # ss) target =
    (if s_quad step < 0 \<or> nat (s_quad step) \<ge> length target then Inl InvalidChannelQuad
     else case FindFw2051ScpSetting (s_registerOffset step) of
       None \<Rightarrow> Inl RegisterNotOffered
     | Some _ \<Rightarrow>
       (let q = target ! nat (s_quad step) in
        if Fw2051ScpQuadRegisterValue q (s_registerOffset step) \<noteq> Some (s_expectedValue step) then Inl StepDoesNotMatch
        else case ValidateFw2051ScpProfileValue (s_registerOffset step) (s_profileValue step) of
          Some e \<Rightarrow> Inl (StepValueError e)
        | None \<Rightarrow>
          (case SetFw2051ScpQuadRegisterValue q (s_registerOffset step) (s_profileValue step) of
             (False, _) \<Rightarrow> Inl StepNotMapped
           | (True, q) \<Rightarrow> validate_steps ss (target[nat (s_quad step) := q]))))"

fun validate_target_settings :: "nat \<Rightarrow> Fw2051ScpQuadConfiguration \<Rightarrow> Fw2051ScpSettingDefinition list \<Rightarrow> request_error option" where
  "validate_target_settings index q [] = None"
| "validate_target_settings index q (d # ds) =
    (case Fw2051ScpQuadRegisterValue q (registerOffset d) of
       None \<Rightarrow> Some TargetNotMapped
     | Some v \<Rightarrow>
       (case ValidateFw2051ScpProfileValue (registerOffset d) v of
          Some e \<Rightarrow> Some (TargetValueError index e)
        | None \<Rightarrow> validate_target_settings index q ds))"

fun validate_targets :: "nat \<Rightarrow> Fw2051ScpQuadConfiguration list \<Rightarrow> request_error option" where
  "validate_targets index [] = None"
| "validate_targets index (q # qs) =
    (case validate_target_settings index q Fw2051ScpSettingRegistry of
       Some e \<Rightarrow> Some e
     | None \<Rightarrow>
       if timingFilter q > shapingTime q then Some (TargetTimingFilterAbove index)
       else if preSamples q \<ge> totalSamples q then Some (TargetPreSamplesNotBelow index)
       else validate_targets (Suc index) qs)"

definition ValidateRequest :: "ScpProfileApplicationRequest \<Rightarrow> request_error option" where
  "ValidateRequest r =
    (case ValidateFw2051ScpConfiguration (expectedLiveConfiguration r) of
       Some e \<Rightarrow> Some (ExpectedConfigurationInvalid e)
     | None \<Rightarrow>
       if steps r = [] then Some NoWritesRequested
       else case validate_steps (steps r) (quads (expectedLiveConfiguration r)) of
         Inl e \<Rightarrow> Some e
       | Inr target \<Rightarrow>
         (case ValidateFw2051ScpConfiguration ((expectedLiveConfiguration r)\<lparr>quads := target\<rparr>) of
            Some e \<Rightarrow> Some (TargetInvalid e)
          | None \<Rightarrow> validate_targets 0 target))"

subsection \<open>The local state and the closures\<close>

record 'w apply_run =
  ap_result :: ScpBulkApplyResult
  ap_failure :: string
  ownershipAvailable :: bool
  selectedQuad :: int
  attemptedValueIndexes :: "nat list"
  ap_bus :: "'w bus"

definition apply_references :: references where
  "apply_references = \<lparr>nextSuperReference = 0x3C00, nextStackReference = 0x9D200001\<rparr>"

definition on_link :: "('w bus \<Rightarrow> 'a \<times> 'w bus) \<Rightarrow> 'w apply_run \<Rightarrow> 'a \<times> 'w apply_run" where
  "on_link f s = (case f (ap_bus s) of (a, b) \<Rightarrow> (a, s\<lparr>ap_bus := b\<rparr>))"

definition appendFailure :: "string \<Rightarrow> 'w apply_run \<Rightarrow> 'w apply_run" where
  "appendFailure text s = s\<lparr>ap_failure := append_text (ap_failure s) text\<rparr>"

definition update_result :: "(ScpBulkApplyResult \<Rightarrow> ScpBulkApplyResult) \<Rightarrow> 'w apply_run \<Rightarrow> 'w apply_run" where
  "update_result f s = s\<lparr>ap_result := f (ap_result s)\<rparr>"

definition update_value :: "nat \<Rightarrow> (ScpAppliedValueResult \<Rightarrow> ScpAppliedValueResult) \<Rightarrow> ScpBulkApplyResult \<Rightarrow> ScpBulkApplyResult" where
  "update_value index f r = r\<lparr>b_values := (b_values r)[index := f (b_values r ! index)]\<rparr>"

definition application_cancelled_text :: string where
  "application_cancelled_text = ''The complete SCP profile application was cancelled.''"

definition application_unowned_text :: string where
  "application_unowned_text = ''Ownership could not be verified for the complete SCP profile application.''"

text \<open>The message of a refused gate, which looks at the cancellation flag when the gate gave none.\<close>

definition apply_gate_message :: "'w transport \<Rightarrow> ScpCaptureGateResult \<Rightarrow> 'w bus \<Rightarrow> string \<times> 'w bus" where
  "apply_gate_message transport g b =
    (if g_message g \<noteq> [] then (g_message g, b)
     else case call (t_cancelled transport) b of (c, b) \<Rightarrow>
       (if c then application_cancelled_text else application_unowned_text, b))"

definition reverifyOwnership :: "'w transport \<Rightarrow> 'w gate \<Rightarrow> string \<Rightarrow> 'w apply_run \<Rightarrow> bool \<times> 'w apply_run" where
  "reverifyOwnership transport gate operationName s =
    (if \<not> ownershipAvailable s then (False, s)
     else case on_link (call (gate operationName)) s of (g, s) \<Rightarrow>
       if g_status g = Allowed then (True, s)
       else (case on_link (apply_gate_message transport g) (s\<lparr>ownershipAvailable := False\<rparr>) of (text, s) \<Rightarrow>
         (False, appendFailure text s)))"

text \<open>The names under which the gate is asked.\<close>

definition bank_gate_name_for :: "int \<Rightarrow> string" where
  "bank_gate_name_for q = ''complete SCP profile bank '' @ decimal (nat q)"

definition write_gate_name :: "string \<Rightarrow> string" where
  "write_gate_name nm = ''the complete SCP profile '' @ nm @ '' write''"

definition rollback_bank_gate_name :: "int \<Rightarrow> string" where
  "rollback_bank_gate_name q = ''complete SCP profile rollback bank '' @ decimal (nat q)"

definition rollback_gate_name :: "string \<Rightarrow> string" where
  "rollback_gate_name nm = ''the complete SCP profile '' @ nm @ '' rollback''"

text \<open>
  A gated write of the selector for a step or its rollback, unless the quad is selected
  already; the flag says whether the loop body goes on.
\<close>

definition select_quad :: "'w transport \<Rightarrow> u32 \<Rightarrow> 'w gate \<Rightarrow> string \<Rightarrow> string \<Rightarrow> int \<Rightarrow> 'w apply_run \<Rightarrow> bool \<times> 'w apply_run" where
  "select_quad transport base gate gateName registerName q s =
    (if selectedQuad s = q then (True, s)
     else case reverifyOwnership transport gate gateName s of
       (False, s) \<Rightarrow> (False, s)
     | (True, s) \<Rightarrow>
       (case on_link (writeRegister transport base Fw2051ScpSelectorRegister (of_int q)) s of
          (Inl e, s) \<Rightarrow> (False, appendFailure (RegisterOperationError ''write'' registerName Fw2051ScpSelectorRegister e) s)
        | (Inr _, s) \<Rightarrow> (True, s\<lparr>selectedQuad := q\<rparr>)))"

subsection \<open>Stopping the module\<close>

definition stop_module :: "'w transport \<Rightarrow> u32 \<Rightarrow> 'w gate \<Rightarrow> 'w apply_run \<Rightarrow> 'w apply_run" where
  "stop_module transport base gate s =
    (case reverifyOwnership transport gate ''the complete SCP profile module stop'' s of
       (False, s) \<Rightarrow> s
     | (True, s) \<Rightarrow>
       (case on_link (writeRegister transport base Fw2051AcquisitionControlRegister Fw2051StopAcquisitionValue) s of
          (Inl e, s) \<Rightarrow> appendFailure (RegisterOperationError ''write'' ''stop acquisition'' Fw2051AcquisitionControlRegister e) s
        | (Inr _, s) \<Rightarrow>
          (let s = update_result (b_moduleStopSent_update (\<lambda>_. True)) s in
           case on_link (readRegister transport base Fw2051AcquisitionControlRegister) s of
             (Inl e, s) \<Rightarrow> appendFailure (RegisterOperationError ''verify'' ''stopped acquisition'' Fw2051AcquisitionControlRegister e) s
           | (Inr stopReadback, s) \<Rightarrow>
             if stopReadback \<noteq> Fw2051StopAcquisitionValue
             then appendFailure (''Acquisition-enable readback was '' @ decimal (unat stopReadback) @ '', expected zero after Stop.'') s
             else update_result (\<lambda>r. r\<lparr>b_moduleStopVerified := True, b_moduleLeftStopped := True\<rparr>) s)))"

subsection \<open>Writing the profile\<close>

definition readback_text :: "string \<Rightarrow> string \<Rightarrow> u16 \<Rightarrow> u16 \<Rightarrow> string" where
  "readback_text kind nm readback expected =
     ''The '' @ kind @ '' '' @ nm @ '' readback was '' @ decimal (unat readback) @ '', expected '' @ decimal (unat expected) @ ''.''"

definition verify_step :: "'w transport \<Rightarrow> u32 \<Rightarrow> nat \<Rightarrow> ScpProfileApplicationStep \<Rightarrow> 'w apply_run \<Rightarrow> 'w apply_run" where
  "verify_step transport base index step s =
    (case on_link (readRegister transport base (s_registerOffset step)) s of
       (Inl e, s) \<Rightarrow> appendFailure (RegisterOperationError ''verify'' (s_settingName step) (s_registerOffset step) e) s
     | (Inr readback, s) \<Rightarrow>
       (let s = update_result (update_value index (v_appliedReadback_update (\<lambda>_. readback))) s in
        if readback \<noteq> s_profileValue step
        then appendFailure (readback_text ''applied'' (s_settingName step) readback (s_profileValue step)) s
        else update_result (\<lambda>r. (update_value index (\<lambda>v. v\<lparr>v_writeVerified := True, v_profileValueRetained := True\<rparr>) r)
               \<lparr>b_writesVerified := b_writesVerified r + 1\<rparr>) s))"

definition write_step :: "'w transport \<Rightarrow> u32 \<Rightarrow> 'w gate \<Rightarrow> nat \<Rightarrow> ScpProfileApplicationStep \<Rightarrow> 'w apply_run \<Rightarrow> 'w apply_run" where
  "write_step transport base gate index step s =
    (case reverifyOwnership transport gate (write_gate_name (s_settingName step)) s of
       (False, s) \<Rightarrow> s
     | (True, s) \<Rightarrow>
       (let s = update_result (\<lambda>r. (update_value index (v_writeAttempted_update (\<lambda>_. True)) r)
              \<lparr>b_writesAttempted := b_writesAttempted r + 1\<rparr>) s;
            s = s\<lparr>attemptedValueIndexes := attemptedValueIndexes s @ [index]\<rparr> in
        case on_link (writeRegister transport base (s_registerOffset step) (s_profileValue step)) s of
          (Inl e, s) \<Rightarrow> appendFailure (RegisterOperationError ''write'' (s_settingName step) (s_registerOffset step) e) s
        | (Inr _, s) \<Rightarrow> verify_step transport base index step s))"

text \<open>The body of the loop; selecting another quad means that the selector is no longer parked.\<close>

definition apply_one :: "'w transport \<Rightarrow> u32 \<Rightarrow> 'w gate \<Rightarrow> nat \<Rightarrow> ScpProfileApplicationStep \<Rightarrow> 'w apply_run \<Rightarrow> 'w apply_run" where
  "apply_one transport base gate index step s =
    (case select_quad transport base gate (bank_gate_name_for (s_quad step))
            ''channel-quad selector'' (s_quad step) s of
       (False, s') \<Rightarrow> s'
     | (True, s') \<Rightarrow> write_step transport base gate index step
         (if selectedQuad s = s_quad step then s' else update_result (b_selectorParkedAtQuadZero_update (\<lambda>_. False)) s'))"

fun apply_loop :: "'w transport \<Rightarrow> u32 \<Rightarrow> 'w gate \<Rightarrow> nat \<Rightarrow> ScpProfileApplicationStep list \<Rightarrow> 'w apply_run \<Rightarrow> 'w apply_run" where
  "apply_loop transport base gate index [] s = s"
| "apply_loop transport base gate index (step # ss) s =
    (if ap_failure s = [] \<and> ownershipAvailable s
     then apply_loop transport base gate (Suc index) ss (apply_one transport base gate index step s)
     else s)"

subsection \<open>Parking and resetting\<close>

definition parkSelector :: "'w transport \<Rightarrow> u32 \<Rightarrow> 'w gate \<Rightarrow> 'w apply_run \<Rightarrow> 'w apply_run" where
  "parkSelector transport base gate s =
    (if \<not> ownershipAvailable s then s
     else case reverifyOwnership transport gate ''the complete SCP profile selector parking'' s of
       (False, s) \<Rightarrow> s
     | (True, s) \<Rightarrow>
       (case on_link (writeRegister transport base Fw2051ScpSelectorRegister 0) s of
          (Inl e, s) \<Rightarrow> appendFailure (RegisterOperationError ''park'' ''channel-quad selector'' Fw2051ScpSelectorRegister e) s
        | (Inr _, s) \<Rightarrow> update_result (b_selectorParkedAtQuadZero_update (\<lambda>_. True)) s))"

definition resetReadout :: "'w transport \<Rightarrow> u32 \<Rightarrow> 'w gate \<Rightarrow> 'w apply_run \<Rightarrow> 'w apply_run" where
  "resetReadout transport base gate s =
    (if \<not> b_moduleStopVerified (ap_result s) \<or> \<not> ownershipAvailable s then s
     else case reverifyOwnership transport gate ''the complete SCP profile readout reset'' s of
       (False, s) \<Rightarrow> s
     | (True, s) \<Rightarrow>
       (case on_link (writeRegister transport base Fw2051FifoResetRegister Fw2051ResetCommandValue) s of
          (Inl e, s) \<Rightarrow> appendFailure (RegisterOperationError ''write'' ''reset FIFO'' Fw2051FifoResetRegister e) s
        | (Inr _, s) \<Rightarrow>
          (let s = update_result (b_fifoResetSent_update (\<lambda>_. True)) s in
           case on_link (writeRegister transport base Fw2051ReadoutResetRegister Fw2051ResetCommandValue) s of
             (Inl e, s) \<Rightarrow> appendFailure (RegisterOperationError ''write'' ''reset readout'' Fw2051ReadoutResetRegister e) s
           | (Inr _, s) \<Rightarrow> update_result (b_readoutResetSent_update (\<lambda>_. True)) s)))"

definition conclude :: "'w transport \<Rightarrow> u32 \<Rightarrow> 'w gate \<Rightarrow> 'w apply_run \<Rightarrow> 'w apply_run" where
  "conclude transport base gate s =
    (if ap_failure s = [] \<and> b_moduleStopVerified (ap_result s) \<and> b_writesVerified (ap_result s) = b_plannedWrites (ap_result s)
     then (let s = parkSelector transport base gate (update_result (b_profileValuesRetained_update (\<lambda>_. True)) s)
           in if ap_failure s = [] then resetReadout transport base gate s else s)
     else s)"

subsection \<open>Rolling back\<close>

text \<open>One value: \<open>None\<close> is the \<^verbatim>\<open>break\<close> of the loop, otherwise whether the value was restored.\<close>

definition verify_rollback :: "'w transport \<Rightarrow> u32 \<Rightarrow> nat \<Rightarrow> ScpAppliedValueResult \<Rightarrow> 'w apply_run \<Rightarrow> bool \<times> 'w apply_run" where
  "verify_rollback transport base index v s =
    (case on_link (readRegister transport base (v_registerOffset v)) s of
       (Inl e, s) \<Rightarrow> (False, appendFailure (RegisterOperationError ''verify rollback'' (v_settingName v) (v_registerOffset v) e) s)
     | (Inr readback, s) \<Rightarrow>
       (let s = update_result (update_value index (v_rollbackReadback_update (\<lambda>_. readback))) s in
        if readback \<noteq> v_expectedValue v
        then (False, appendFailure (readback_text ''rollback'' (v_settingName v) readback (v_expectedValue v)) s)
        else (True, update_result (\<lambda>r. (update_value index (\<lambda>v. v\<lparr>v_rollbackVerified := True, v_profileValueRetained := False\<rparr>) r)
               \<lparr>b_rollbackWritesVerified := b_rollbackWritesVerified r + 1\<rparr>) s)))"

definition rollback_one :: "'w transport \<Rightarrow> u32 \<Rightarrow> 'w gate \<Rightarrow> nat \<Rightarrow> 'w apply_run \<Rightarrow> bool option \<times> 'w apply_run" where
  "rollback_one transport base gate index s =
    (let v = b_values (ap_result s) ! index in
     if \<not> ownershipAvailable s then (None, s)
     else case select_quad transport base gate (rollback_bank_gate_name (v_quad v))
            ''rollback channel-quad selector'' (v_quad v) s of
       (False, s) \<Rightarrow> (None, s)
     | (True, s) \<Rightarrow>
       (case reverifyOwnership transport gate (rollback_gate_name (v_settingName v)) s of
          (False, s) \<Rightarrow> (None, s)
        | (True, s) \<Rightarrow>
          (let s = update_result (\<lambda>r. (update_value index (v_rollbackAttempted_update (\<lambda>_. True)) r)
                 \<lparr>b_rollbackWritesAttempted := b_rollbackWritesAttempted r + 1\<rparr>) s in
           case on_link (writeRegister transport base (v_registerOffset v) (v_expectedValue v)) s of
             (Inl e, s) \<Rightarrow> (Some False, appendFailure (RegisterOperationError ''rollback'' (v_settingName v) (v_registerOffset v) e) s)
           | (Inr _, s) \<Rightarrow> map_prod Some id (verify_rollback transport base index v s))))"

text \<open>The loop over the attempted values, last one first; it returns \<^verbatim>\<open>rollbackSafe\<close>.\<close>

fun rollback_loop :: "'w transport \<Rightarrow> u32 \<Rightarrow> 'w gate \<Rightarrow> nat list \<Rightarrow> bool \<Rightarrow> 'w apply_run \<Rightarrow> bool \<times> 'w apply_run" where
  "rollback_loop transport base gate [] rollbackSafe s = (rollbackSafe, s)"
| "rollback_loop transport base gate (index # indexes) rollbackSafe s =
    (case rollback_one transport base gate index s of
       (None, s) \<Rightarrow> (False, s)
     | (Some restored, s) \<Rightarrow> rollback_loop transport base gate indexes (rollbackSafe \<and> restored) s)"

definition roll_back :: "'w transport \<Rightarrow> u32 \<Rightarrow> 'w gate \<Rightarrow> 'w apply_run \<Rightarrow> 'w apply_run" where
  "roll_back transport base gate s =
    (if ap_failure s \<noteq> [] \<and> ownershipAvailable s \<and> attemptedValueIndexes s \<noteq> []
     then (let s = (update_result (\<lambda>r. r\<lparr>b_state := RollingBack, b_rollbackAttempted := True, b_profileValuesRetained := False\<rparr>) s)
                   \<lparr>selectedQuad := - 1\<rparr>;
               (rollbackSafe, s) = rollback_loop transport base gate (rev (attemptedValueIndexes s)) (ownershipAvailable s) s;
               s = update_result (\<lambda>r. r\<lparr>b_rollbackVerified := (rollbackSafe
                     \<and> b_rollbackWritesVerified r = length (attemptedValueIndexes s))\<rparr>) s
           in if ownershipAvailable s
              then (let s = parkSelector transport base gate s
                    in if b_rollbackVerified (ap_result s) then resetReadout transport base gate s else s)
              else s)
     else s)"

subsection \<open>The operation\<close>

definition apply_finish :: "'w apply_run \<Rightarrow> ScpBulkApplyResult" where
  "apply_finish s =
    (let r = ap_result s;
         passed = (ap_failure s = [] \<and> b_fullPreflightMatched r \<and> b_moduleStopSent r \<and> b_moduleStopVerified r
           \<and> b_writesVerified r = b_plannedWrites r \<and> b_profileValuesRetained r \<and> b_selectorParkedAtQuadZero r
           \<and> b_fifoResetSent r \<and> b_readoutResetSent r)
     in r\<lparr>b_state := (if passed then Passed else ApplyFailed),
          b_message := (if passed then AppliedAndRetained (b_plannedWrites r)
            else if b_rollbackVerified r then RestoredAfter (ap_failure s)
            else if ap_failure s = [] then NotInVerifiedState else FailureMessage (ap_failure s))\<rparr>)"

definition begin_apply :: "ScpBulkApplyResult \<Rightarrow> 'w \<Rightarrow> 'w apply_run" where
  "begin_apply r w = \<lparr>ap_result = r, ap_failure = [], ownershipAvailable = True, selectedQuad = - 1,
     attemptedValueIndexes = [], ap_bus = (apply_references, w)\<rparr>"

text \<open>From the stop on, with a request that passed its preflight.\<close>

definition apply_transaction :: "'w transport \<Rightarrow> 'w gate \<Rightarrow> ScpProfileApplicationStep list \<Rightarrow> ScpBulkApplyResult \<Rightarrow> 'w
    \<Rightarrow> ScpBulkApplyResult \<times> 'w" where
  "apply_transaction transport gate ss r w =
    (let base = b_baseAddress r;
         s = stop_module transport base gate (begin_apply r w);
         s = apply_loop transport base gate 0 ss s;
         s = conclude transport base gate s;
         s = roll_back transport base gate s
     in (apply_finish s, snd (ap_bus s)))"

definition ApplyFw2051ScpProfile :: "'w transport \<Rightarrow> ScpProfileApplicationRequest \<Rightarrow> 'w gate option \<Rightarrow> 'w
    \<Rightarrow> ScpBulkApplyResult \<times> 'w" where
  "ApplyFw2051ScpProfile transport req ownershipGate w =
    (let r = begin_result req in
     case ValidateRequest req of
       Some e \<Rightarrow> (r\<lparr>b_state := ApplyFailed, b_message := RequestRefused e\<rparr>, w)
     | None \<Rightarrow>
     (case ownershipGate of
       None \<Rightarrow> (r\<lparr>b_state := ApplyFailed, b_message := NoOwnershipGate\<rparr>, w)
     | Some gate \<Rightarrow>
     (case CaptureFw2051ScpConfiguration transport (b_baseAddress r) ownershipGate default_runtime w of (captured, w) \<Rightarrow>
       let live = op_configuration captured;
           r = r\<lparr>b_selectorParkedAtQuadZero := selectorParkedAtQuadZero live\<rparr> in
       if state live \<noteq> Complete then (r\<lparr>b_state := ApplyFailed, b_message := CaptureMessage (message live)\<rparr>, w)
       else (let comparison = CompareFw2051ScpConfiguration
                   \<lparr>formatVersion = Fw2051ScpProfileFormatVersion, configuration = expectedLiveConfiguration req\<rparr> live in
         if \<not> comparable comparison
         then (r\<lparr>b_state := ApplyFailed, b_message := PreflightNotComparable (cmp_message comparison)\<rparr>, w)
         else if differences comparison \<noteq> [] then (r\<lparr>b_state := ApplyFailed, b_message := PreflightDiffers\<rparr>, w)
         else apply_transaction transport gate (steps req) (r\<lparr>b_fullPreflightMatched := True\<rparr>) w))))"

subsection \<open>Facts about the closures\<close>

lemma on_link_fields [simp]:
  "ap_result (snd (on_link f s)) = ap_result s" "ap_failure (snd (on_link f s)) = ap_failure s"
  "ownershipAvailable (snd (on_link f s)) = ownershipAvailable s" "selectedQuad (snd (on_link f s)) = selectedQuad s"
  "attemptedValueIndexes (snd (on_link f s)) = attemptedValueIndexes s" "ap_bus (snd (on_link f s)) = snd (f (ap_bus s))"
  "fst (on_link f s) = fst (f (ap_bus s))"
  by (simp_all add: on_link_def split: prod.split)

lemma appendFailure_fields [simp]:
  "ap_result (appendFailure t s) = ap_result s" "ownershipAvailable (appendFailure t s) = ownershipAvailable s"
  "selectedQuad (appendFailure t s) = selectedQuad s" "attemptedValueIndexes (appendFailure t s) = attemptedValueIndexes s"
  "ap_bus (appendFailure t s) = ap_bus s" "ap_failure (appendFailure t s) = append_text (ap_failure s) t"
  by (simp_all add: appendFailure_def)

lemma update_result_fields [simp]:
  "ap_result (update_result f s) = f (ap_result s)" "ap_failure (update_result f s) = ap_failure s"
  "ownershipAvailable (update_result f s) = ownershipAvailable s" "selectedQuad (update_result f s) = selectedQuad s"
  "attemptedValueIndexes (update_result f s) = attemptedValueIndexes s" "ap_bus (update_result f s) = ap_bus s"
  by (simp_all add: update_result_def)

lemma apply_texts_not_Nil [simp]:
  "application_cancelled_text \<noteq> []" "application_unowned_text \<noteq> []" "readback_text k n a b \<noteq> []"
  by (simp_all add: application_cancelled_text_def application_unowned_text_def readback_text_def)

lemma gate_message_not_Nil [simp]: "fst (apply_gate_message T g b) \<noteq> []"
  by (simp add: apply_gate_message_def split: prod.split)

lemma reverify_fields [simp]:
  "ap_result (snd (reverifyOwnership T gate n s)) = ap_result s" "selectedQuad (snd (reverifyOwnership T gate n s)) = selectedQuad s"
  "attemptedValueIndexes (snd (reverifyOwnership T gate n s)) = attemptedValueIndexes s"
  by (simp_all add: reverifyOwnership_def case_prod_beta)

lemma reverify_allowed:
  assumes "fst (reverifyOwnership T gate n s)"
  shows "ownershipAvailable s" "ap_failure (snd (reverifyOwnership T gate n s)) = ap_failure s"
    "ownershipAvailable (snd (reverifyOwnership T gate n s))"
  using assms by (auto simp: reverifyOwnership_def case_prod_beta split: if_splits)

lemma reverify_refused:
  assumes "\<not> fst (reverifyOwnership T gate n s)" "ownershipAvailable s"
  shows "ap_failure (snd (reverifyOwnership T gate n s)) \<noteq> []" "\<not> ownershipAvailable (snd (reverifyOwnership T gate n s))"
  using assms by (auto simp: reverifyOwnership_def case_prod_beta split: if_splits)

subsection \<open>On the wire\<close>

context capture_world
begin

definition linked :: "'w apply_run \<Rightarrow> bool" where
  "linked s \<longleftrightarrow> I (snd (ap_bus s))"

lemma linked_update [simp]:
  "linked (appendFailure t s) \<longleftrightarrow> linked s" "linked (update_result f s) \<longleftrightarrow> linked s"
  "linked (s\<lparr>ownershipAvailable := x\<rparr>) \<longleftrightarrow> linked s" "linked (s\<lparr>selectedQuad := q\<rparr>) \<longleftrightarrow> linked s"
  "linked (s\<lparr>attemptedValueIndexes := xs\<rparr>) \<longleftrightarrow> linked s"
  by (simp_all add: linked_def)

lemma linked_step [simp]:
  "linked s \<Longrightarrow> linked (snd (on_link (readRegister T base r) s))"
  "linked s \<Longrightarrow> may_write r v \<Longrightarrow> linked (snd (on_link (writeRegister T base r v) s))"
  "linked s \<Longrightarrow> linked (snd (on_link (call (gate n)) s))"
  "linked s \<Longrightarrow> linked (snd (on_link (apply_gate_message T g) s))"
  by (simp_all add: linked_def read_I write_I gate_I cancelled_I apply_gate_message_def case_prod_beta)

lemma linked_reverify [simp]: "linked s \<Longrightarrow> linked (snd (reverifyOwnership T gate n s))"
  by (simp add: reverifyOwnership_def case_prod_beta)

lemma linked_select [simp]:
  "linked s \<Longrightarrow> 0 \<le> q \<Longrightarrow> q < 8 \<Longrightarrow> linked (snd (select_quad T base gate n r q s))"
proof -
  assume "0 \<le> q" "q < 8"
  then have "(of_int q :: u16) < 8" by (simp add: word_less_alt uint_word_of_int)
  then show "linked s \<Longrightarrow> linked (snd (select_quad T base gate n r q s))"
    by (auto simp: select_quad_def case_prod_beta selector_allowed split: sum.split bool.split)
qed

text \<open>The writes a request entitles the operation to.\<close>

definition entitled :: "ScpProfileApplicationStep \<Rightarrow> bool" where
  "entitled step \<longleftrightarrow> 0 \<le> s_quad step \<and> s_quad step < 8
     \<and> may_write (s_registerOffset step) (s_profileValue step) \<and> may_write (s_registerOffset step) (s_expectedValue step)"

definition entitled_value :: "ScpAppliedValueResult \<Rightarrow> bool" where
  "entitled_value v \<longleftrightarrow> 0 \<le> v_quad v \<and> v_quad v < 8 \<and> may_write (v_registerOffset v) (v_expectedValue v)"

definition commands_allowed :: bool where
  "commands_allowed \<longleftrightarrow> may_write Fw2051AcquisitionControlRegister Fw2051StopAcquisitionValue
     \<and> may_write Fw2051FifoResetRegister Fw2051ResetCommandValue \<and> may_write Fw2051ReadoutResetRegister Fw2051ResetCommandValue"

lemma linked_stop: "linked s \<Longrightarrow> commands_allowed \<Longrightarrow> linked (stop_module T base gate s)"
  by (auto simp: stop_module_def commands_allowed_def Let_def case_prod_beta split: sum.split bool.split)

lemma linked_apply_one: "linked s \<Longrightarrow> entitled step \<Longrightarrow> linked (apply_one T base gate i step s)"
  by (auto simp: apply_one_def write_step_def verify_step_def entitled_def Let_def case_prod_beta split: sum.split bool.split)

lemma linked_apply_loop: "linked s \<Longrightarrow> list_all entitled ss \<Longrightarrow> linked (apply_loop T base gate i ss s)"
  by (induction ss arbitrary: i s) (auto simp: linked_apply_one)

lemma linked_park [simp]: "linked s \<Longrightarrow> linked (parkSelector T base gate s)"
  by (auto simp: parkSelector_def case_prod_beta selector_allowed split: sum.split bool.split)

lemma linked_reset: "linked s \<Longrightarrow> commands_allowed \<Longrightarrow> linked (resetReadout T base gate s)"
  by (auto simp: resetReadout_def commands_allowed_def Let_def case_prod_beta split: sum.split bool.split)

lemma linked_conclude: "linked s \<Longrightarrow> commands_allowed \<Longrightarrow> linked (conclude T base gate s)"
  by (auto simp: conclude_def Let_def linked_reset)

lemma linked_rollback_one:
  "linked s \<Longrightarrow> entitled_value (b_values (ap_result s) ! i) \<Longrightarrow> linked (snd (rollback_one T base gate i s))"
  by (auto simp: rollback_one_def verify_rollback_def entitled_value_def Let_def case_prod_beta split: sum.split bool.split)

end

text \<open>What the values of a result keep from their steps.\<close>

definition planned_value :: "ScpAppliedValueResult \<Rightarrow> int \<times> u16 \<times> u16" where
  "planned_value v = (v_quad v, v_registerOffset v, v_expectedValue v)"

definition planned_values :: "'w apply_run \<Rightarrow> (int \<times> u16 \<times> u16) list" where
  "planned_values s = map planned_value (b_values (ap_result s))"

lemma planned_update_value:
  assumes "\<And>v. planned_value (f v) = planned_value v"
  shows "map planned_value (b_values (update_value i f r)) = map planned_value (b_values r)"
  using assms by (cases "i < length (b_values r)") (auto simp: update_value_def map_update list_update_beyond list_update_same_conv)

lemma planned_value_updates [simp]:
  "planned_value (v\<lparr>v_appliedReadback := x\<rparr>) = planned_value v" "planned_value (v\<lparr>v_rollbackReadback := x\<rparr>) = planned_value v"
  "planned_value (v\<lparr>v_writeAttempted := y\<rparr>) = planned_value v" "planned_value (v\<lparr>v_writeVerified := y\<rparr>) = planned_value v"
  "planned_value (v\<lparr>v_rollbackAttempted := y\<rparr>) = planned_value v" "planned_value (v\<lparr>v_rollbackVerified := y\<rparr>) = planned_value v"
  "planned_value (v\<lparr>v_profileValueRetained := y\<rparr>) = planned_value v"
  by (simp_all add: planned_value_def)

lemma planned_values_fields [simp]:
  "planned_values (snd (on_link f s)) = planned_values s" "planned_values (appendFailure t s) = planned_values s"
  "planned_values (snd (reverifyOwnership T gate n s)) = planned_values s" "planned_values (s\<lparr>selectedQuad := q\<rparr>) = planned_values s"
  "planned_values (s\<lparr>attemptedValueIndexes := xs\<rparr>) = planned_values s"
  by (simp_all add: planned_values_def)

lemma planned_update_result [simp]:
  "(\<And>r. map planned_value (b_values (f r)) = map planned_value (b_values r)) \<Longrightarrow> planned_values (update_result f s) = planned_values s"
  by (simp add: planned_values_def)

lemma planned_select [simp]: "planned_values (snd (select_quad T base gate n r q s)) = planned_values s"
  by (auto simp: select_quad_def case_prod_beta split: sum.split bool.split)

lemma planned_rollback_one [simp]: "planned_values (snd (rollback_one T base gate i s)) = planned_values s"
  by (auto simp: rollback_one_def verify_rollback_def Let_def case_prod_beta planned_update_value
      split: sum.split bool.split)

lemma planned_apply_one [simp]: "planned_values (apply_one T base gate i step s) = planned_values s"
  by (auto simp: apply_one_def write_step_def verify_step_def Let_def case_prod_beta planned_update_value
      split: sum.split bool.split)

lemma planned_apply_loop [simp]: "planned_values (apply_loop T base gate i ss s) = planned_values s"
  by (induction ss arbitrary: i s) auto

lemma planned_others [simp]:
  "planned_values (stop_module T base gate s) = planned_values s" "planned_values (parkSelector T base gate s) = planned_values s"
  "planned_values (resetReadout T base gate s) = planned_values s" "planned_values (conclude T base gate s) = planned_values s"
proof -
  show stop: "planned_values (stop_module T base gate s) = planned_values s"
    by (auto simp: stop_module_def Let_def case_prod_beta split: sum.split bool.split)
  show park: "planned_values (parkSelector T base gate s) = planned_values s" for s :: "'a apply_run"
    by (auto simp: parkSelector_def case_prod_beta split: sum.split bool.split)
  show reset: "planned_values (resetReadout T base gate s) = planned_values s" for s :: "'a apply_run"
    by (auto simp: resetReadout_def Let_def case_prod_beta split: sum.split bool.split)
  show "planned_values (conclude T base gate s) = planned_values s"
    by (simp add: conclude_def Let_def park reset)
qed

lemma attempted_apply_one:
  "set (attemptedValueIndexes (apply_one T base gate i step s)) \<subseteq> insert i (set (attemptedValueIndexes s))"
proof -
  have "attemptedValueIndexes (snd (select_quad T base gate n r q s)) = attemptedValueIndexes s" for n r q
    by (auto simp: select_quad_def case_prod_beta split: sum.split bool.split)
  then show ?thesis
    by (auto simp: apply_one_def write_step_def verify_step_def Let_def case_prod_beta split: sum.splits bool.splits if_splits)
qed

lemma attempted_apply_loop:
  "set (attemptedValueIndexes (apply_loop T base gate i ss s)) \<subseteq> set (attemptedValueIndexes s) \<union> {i..<i + length ss}"
proof (induction ss arbitrary: i s)
  case (Cons step ss)
  note one = subsetD [OF attempted_apply_one [of T base gate i step s]]
  note rest = subsetD [OF Cons.IH [of "Suc i" "apply_one T base gate i step s"]]
  show ?case using one rest by (auto split: if_splits) force+
qed simp

lemma attempted_others [simp]:
  "attemptedValueIndexes (stop_module T base gate s) = attemptedValueIndexes s"
  "attemptedValueIndexes (conclude T base gate s) = attemptedValueIndexes s"
proof -
  show "attemptedValueIndexes (stop_module T base gate s) = attemptedValueIndexes s"
    by (auto simp: stop_module_def Let_def case_prod_beta split: sum.split bool.split)
  have "attemptedValueIndexes (parkSelector T base gate s) = attemptedValueIndexes s"
      "attemptedValueIndexes (resetReadout T base gate s) = attemptedValueIndexes s" for s :: "'a apply_run"
    by (auto simp: parkSelector_def resetReadout_def Let_def case_prod_beta split: sum.split bool.split)
  then show "attemptedValueIndexes (conclude T base gate s) = attemptedValueIndexes s" by (simp add: conclude_def Let_def)
qed

context capture_world
begin

lemma linked_rollback_loop:
  assumes "linked s" "\<And>i. i \<in> set is \<Longrightarrow> i < length (planned_values s)"
    and "\<And>q r v. (q, r, v) \<in> set (planned_values s) \<Longrightarrow> 0 \<le> q \<and> q < 8 \<and> may_write r v"
  shows "linked (snd (rollback_loop T base gate is safe s))"
  using assms
proof (induction "is" arbitrary: s safe)
  case (Cons i "is")
  have "i < length (planned_values s)" using Cons.prems(2) by simp
  then have "planned_values s ! i \<in> set (planned_values s)" "planned_values s ! i = planned_value (b_values (ap_result s) ! i)"
    by (simp_all add: planned_values_def)
  then have "entitled_value (b_values (ap_result s) ! i)"
    using Cons.prems(3) by (auto simp: entitled_value_def planned_value_def)
  then have "linked (snd (rollback_one T base gate i s))" using Cons.prems(1) by (simp add: linked_rollback_one)
  with Cons.IH [of "snd (rollback_one T base gate i s)"] Cons.prems(2,3) show ?case
    by (auto simp: case_prod_beta split: option.split)
qed simp

lemma linked_roll_back:
  assumes "linked s" "set (attemptedValueIndexes s) \<subseteq> {..<length (planned_values s)}" "commands_allowed"
    and "\<And>q r v. (q, r, v) \<in> set (planned_values s) \<Longrightarrow> 0 \<le> q \<and> q < 8 \<and> may_write r v"
  shows "linked (roll_back T base gate s)"
proof -
  let ?s = "(update_result (\<lambda>r. r\<lparr>b_state := RollingBack, b_rollbackAttempted := True, b_profileValuesRetained := False\<rparr>) s)
      \<lparr>selectedQuad := - 1\<rparr>"
  have planned: "planned_values ?s = planned_values s" by simp
  have "linked (snd (rollback_loop T base gate (rev (attemptedValueIndexes s)) (ownershipAvailable s) ?s))"
    by (rule linked_rollback_loop) (use assms planned in auto)
  then show ?thesis using assms(1,3) by (auto simp: roll_back_def Let_def case_prod_beta linked_reset)
qed

lemma transaction_linked:
  assumes "commands_allowed" "list_all entitled ss" "map planned_value (b_values r) = map (\<lambda>st. (s_quad st, s_registerOffset st, s_expectedValue st)) ss"
    and "b_baseAddress r = base" "I w"
  shows "I (snd (apply_transaction T gate ss r w))"
proof -
  let ?s1 = "stop_module T base gate (begin_apply r w)"
  let ?s3 = "conclude T base gate (apply_loop T base gate 0 ss ?s1)"
  have start: "linked (begin_apply r w)" "attemptedValueIndexes (begin_apply r w) = []" "planned_values (begin_apply r w) = map planned_value (b_values r)"
    using assms(5) by (simp_all add: linked_def begin_apply_def planned_values_def)
  have "linked ?s3" using assms start by (intro linked_conclude linked_apply_loop linked_stop)
  moreover have "set (attemptedValueIndexes ?s3) \<subseteq> {..<length (planned_values ?s3)}"
    using attempted_apply_loop [of T base gate 0 ss ?s1] start assms(3) by (auto dest: arg_cong [of _ _ length])
  moreover have "(q, x, v) \<in> set (planned_values ?s3) \<Longrightarrow> 0 \<le> q \<and> q < 8 \<and> may_write x v" for q x v
    using assms(2,3) start by (auto simp: list_all_iff entitled_def)
  ultimately have "linked (roll_back T base gate ?s3)" using assms(1) by (intro linked_roll_back)
  then show ?thesis using assms(4) by (simp add: apply_transaction_def Let_def linked_def)
qed

end

subsection \<open>The frame of the result\<close>

definition fixed_fields :: "ScpBulkApplyResult \<Rightarrow> bool \<times> bool \<times> bool \<times> nat \<times> bool" where
  "fixed_fields r = (b_moduleStopVerified r, b_rollbackVerified r, b_profileValuesRetained r, b_plannedWrites r, b_fullPreflightMatched r)"

lemma fixed_update_value [simp]: "fixed_fields (update_value i f r) = fixed_fields r"
  "fixed_fields (r\<lparr>b_writesVerified := n\<rparr>) = fixed_fields r" "fixed_fields (r\<lparr>b_writesAttempted := n\<rparr>) = fixed_fields r"
  "fixed_fields (r\<lparr>b_selectorParkedAtQuadZero := x\<rparr>) = fixed_fields r"
  by (simp_all add: fixed_fields_def update_value_def)

lemma fixed_select [simp]: "ap_result (snd (select_quad T base gate n r q s)) = ap_result s"
  by (auto simp: select_quad_def case_prod_beta split: sum.split bool.split)

lemma fixed_apply_one [simp]: "fixed_fields (ap_result (apply_one T base gate i step s)) = fixed_fields (ap_result s)"
  by (auto simp: apply_one_def write_step_def verify_step_def Let_def case_prod_beta split: sum.split bool.split)

lemma fixed_apply_loop [simp]: "fixed_fields (ap_result (apply_loop T base gate i ss s)) = fixed_fields (ap_result s)"
  by (induction ss arbitrary: i s) auto

text \<open>A failure stays.\<close>

lemma failure_stays [simp]:
  "ap_failure s \<noteq> [] \<Longrightarrow> ap_failure (snd (reverifyOwnership T gate n s)) \<noteq> []"
  "ap_failure s \<noteq> [] \<Longrightarrow> ap_failure (snd (select_quad T base gate n r q s)) \<noteq> []"
  "ap_failure s \<noteq> [] \<Longrightarrow> ap_failure (snd (rollback_one T base gate i s)) \<noteq> []"
  "ap_failure s \<noteq> [] \<Longrightarrow> ap_failure (parkSelector T base gate s) \<noteq> []"
  "ap_failure s \<noteq> [] \<Longrightarrow> ap_failure (resetReadout T base gate s) \<noteq> []"
proof -
  show own: "ap_failure s \<noteq> [] \<Longrightarrow> ap_failure (snd (reverifyOwnership T gate n s)) \<noteq> []" for n and s :: "'a apply_run"
    by (simp add: reverifyOwnership_def case_prod_beta)
  show sel: "ap_failure s \<noteq> [] \<Longrightarrow> ap_failure (snd (select_quad T base gate n r q s)) \<noteq> []" for n r q
    using own [of s n] by (auto simp: select_quad_def case_prod_beta split: sum.split bool.split)
  show "ap_failure s \<noteq> [] \<Longrightarrow> ap_failure (snd (rollback_one T base gate i s)) \<noteq> []"
    using sel own by (auto simp: rollback_one_def verify_rollback_def Let_def case_prod_beta split: sum.split bool.split)
  show "ap_failure s \<noteq> [] \<Longrightarrow> ap_failure (parkSelector T base gate s) \<noteq> []"
    using own by (auto simp: parkSelector_def case_prod_beta split: sum.split bool.split)
  show "ap_failure s \<noteq> [] \<Longrightarrow> ap_failure (resetReadout T base gate s) \<noteq> []"
    using own by (auto simp: resetReadout_def Let_def case_prod_beta split: sum.split bool.split)
qed

lemma failure_stays_loop: "ap_failure s \<noteq> [] \<Longrightarrow> ap_failure (snd (rollback_loop T base gate is safe s)) \<noteq> []"
  by (induction "is" arbitrary: s safe) (auto simp: case_prod_beta split: option.split)

lemma failure_stays_roll_back: "ap_failure s \<noteq> [] \<Longrightarrow> ap_failure (roll_back T base gate s) \<noteq> []"
  by (auto simp: roll_back_def Let_def case_prod_beta failure_stays_loop)

subsection \<open>On an honest module\<close>

text \<open>The banks after the first steps of a plan, and a plan whose expected values are those it will find.\<close>

definition step_banked :: "(u16 \<Rightarrow> u16 \<Rightarrow> u16) \<Rightarrow> ScpProfileApplicationStep \<Rightarrow> u16 \<Rightarrow> u16 \<Rightarrow> u16" where
  "step_banked B step = B(of_int (s_quad step) := (B (of_int (s_quad step)))(s_registerOffset step := s_profileValue step))"

definition bank_after :: "(u16 \<Rightarrow> u16 \<Rightarrow> u16) \<Rightarrow> ScpProfileApplicationStep list \<Rightarrow> nat \<Rightarrow> u16 \<Rightarrow> u16 \<Rightarrow> u16" where
  "bank_after B ss n = foldl step_banked B (take n ss)"

definition executable :: "(u16 \<Rightarrow> u16 \<Rightarrow> u16) \<Rightarrow> ScpProfileApplicationStep list \<Rightarrow> bool" where
  "executable B ss \<longleftrightarrow> (\<forall>i < length ss. 0 \<le> s_quad (ss ! i) \<and> s_registerOffset (ss ! i) \<in> set fw2051_registers
     \<and> bank_after B ss i (of_int (s_quad (ss ! i))) (s_registerOffset (ss ! i)) = s_expectedValue (ss ! i))"

lemma bank_after_0 [simp]: "bank_after B ss 0 = B"
  by (simp add: bank_after_def)

lemma bank_after_Suc: "n < length ss \<Longrightarrow> bank_after B ss (Suc n) = step_banked (bank_after B ss n) (ss ! n)"
  by (simp add: bank_after_def take_Suc_conv_app_nth)

text \<open>Writing the expected value of a step back undoes it, whether it had happened or not.\<close>

lemma undo_step:
  assumes "executable B ss" "n < length ss" "B' = bank_after B ss (Suc n) \<or> B' = bank_after B ss n"
  shows "B'(of_int (s_quad (ss ! n)) := (B' (of_int (s_quad (ss ! n))))(s_registerOffset (ss ! n) := s_expectedValue (ss ! n)))
    = bank_after B ss n"
  using assms by (auto simp: executable_def bank_after_Suc step_banked_def fun_eq_iff)

lemma command_registers:
  "Fw2051FifoResetRegister \<noteq> Fw2051ScpSelectorRegister" "Fw2051FifoResetRegister \<notin> set fw2051_registers"
  "Fw2051ReadoutResetRegister \<noteq> Fw2051ScpSelectorRegister" "Fw2051ReadoutResetRegister \<notin> set fw2051_registers"
  "Fw2051AcquisitionControlRegister \<noteq> Fw2051ScpSelectorRegister" "Fw2051AcquisitionControlRegister \<notin> set fw2051_registers"
  "Fw2051AcquisitionControlRegister \<noteq> Fw2051FifoResetRegister" "Fw2051AcquisitionControlRegister \<noteq> Fw2051ReadoutResetRegister"
  by (simp_all add: Fw2051FifoResetRegister_def Fw2051ReadoutResetRegister_def Fw2051AcquisitionControlRegister_def
      Fw2051ScpSelectorRegister_def fw2051_registers_eq)

context supervised_capture
begin

definition live :: "'w apply_run \<Rightarrow> mdpp" where
  "live s = dev (snd (ap_bus s))"

lemma live_update [simp]:
  "live (appendFailure t s) = live s" "live (update_result f s) = live s" "live (s\<lparr>ownershipAvailable := x\<rparr>) = live s"
  "live (s\<lparr>selectedQuad := q\<rparr>) = live s" "live (s\<lparr>attemptedValueIndexes := xs\<rparr>) = live s"
  by (simp_all add: live_def)

lemma live_step [simp]:
  "live (snd (on_link (readRegister T base r) s)) = live s"
  "live (snd (on_link (call (gate n)) s)) = live s"
  "live (snd (on_link (apply_gate_message T g) s)) = live s"
  using read_keeps [OF surjective_pairing, of r "ap_bus s"]
  by (simp_all add: live_def gate_keeps cancelled_keeps apply_gate_message_def case_prod_beta)

lemma live_reverify [simp]: "live (snd (reverifyOwnership T gate n s)) = live s"
  by (simp add: reverifyOwnership_def case_prod_beta)

lemma live_write:
  "fst (writeRegister T base r v (ap_bus s)) = Inr u \<Longrightarrow> live (snd (on_link (writeRegister T base r v) s)) = mdpp_write (live s) r v"
  "live (snd (on_link (writeRegister T base r v) s)) = live s \<or> live (snd (on_link (writeRegister T base r v) s)) = mdpp_write (live s) r v"
proof -
  obtain x b' where x: "writeRegister T base r v (ap_bus s) = (x, b')" by (cases "writeRegister T base r v (ap_bus s)")
  show "fst (writeRegister T base r v (ap_bus s)) = Inr u \<Longrightarrow> live (snd (on_link (writeRegister T base r v) s)) = mdpp_write (live s) r v"
    using write_happened [of r v "ap_bus s" u b'] x by (simp add: live_def)
  show "live (snd (on_link (writeRegister T base r v) s)) = live s \<or> live (snd (on_link (writeRegister T base r v) s)) = mdpp_write (live s) r v"
    using write_maybe [of r v "ap_bus s" _ b'] write_happened [of r v "ap_bus s" _ b'] x by (cases x) (simp_all add: live_def)
qed

lemma live_read: "fst (readRegister T base r (ap_bus s)) = Inr v \<Longrightarrow> v = mdpp_read (live s) r"
  using read_shows [of r "ap_bus s" v] by (simp add: live_def prod_eq_iff)

text \<open>The selected quad is the one the selector shows.\<close>

definition selected :: "'w apply_run \<Rightarrow> bool" where
  "selected s \<longleftrightarrow> selectedQuad s = - 1 \<or> selector (live s) = of_int (selectedQuad s)"

lemma live_select_write:
  "banked (live (snd (on_link (writeRegister T base Fw2051ScpSelectorRegister v) s))) = banked (live s)"
  "global (live (snd (on_link (writeRegister T base Fw2051ScpSelectorRegister v) s))) = global (live s)"
  using live_write(2) [of Fw2051ScpSelectorRegister v s] by (auto simp: mdpp_write_def)

lemma select_quad_keeps:
  "ap_result (snd (select_quad T base gate n r q s)) = ap_result s"
  "attemptedValueIndexes (snd (select_quad T base gate n r q s)) = attemptedValueIndexes s"
  "banked (live (snd (select_quad T base gate n r q s))) = banked (live s)"
  "global (live (snd (select_quad T base gate n r q s))) = global (live s)"
  by (auto simp: select_quad_def case_prod_beta live_select_write split: sum.split bool.split)

lemma select_quad_done:
  assumes "fst (select_quad T base gate n r q s)" "selected s" "0 \<le> q"
  shows "selector (live (snd (select_quad T base gate n r q s))) = of_int q"
    "selectedQuad (snd (select_quad T base gate n r q s)) = q"
    "ap_failure (snd (select_quad T base gate n r q s)) = ap_failure s"
    "ownershipAvailable (snd (select_quad T base gate n r q s)) = ownershipAvailable s"
  using assms live_write(1) [of Fw2051ScpSelectorRegister "of_int q" "snd (reverifyOwnership T gate n s)"] reverify_allowed [of T gate n s]
  by (auto simp: select_quad_def selected_def mdpp_write_def case_prod_beta split: sum.splits bool.splits if_splits)

lemma select_quad_refused:
  assumes "\<not> fst (select_quad T base gate n r q s)" "ownershipAvailable s"
  shows "ap_failure (snd (select_quad T base gate n r q s)) \<noteq> []"
  using assms reverify_refused [of T gate n s]
  by (auto simp: select_quad_def case_prod_beta split: sum.splits bool.splits if_splits)

text \<open>The banks, up to the last attempted write, which may not have happened.\<close>

definition reached :: "(u16 \<Rightarrow> u16 \<Rightarrow> u16) \<Rightarrow> ScpProfileApplicationStep list \<Rightarrow> nat \<Rightarrow> (u16 \<Rightarrow> u16 \<Rightarrow> u16) \<Rightarrow> bool" where
  "reached B ss n B' \<longleftrightarrow> B' = bank_after B ss n \<or> n > 0 \<and> B' = bank_after B ss (n - 1)"

definition progress :: "(u16 \<Rightarrow> u16 \<Rightarrow> u16) \<Rightarrow> (u16 \<Rightarrow> u16) \<Rightarrow> ScpProfileApplicationStep list \<Rightarrow> nat \<Rightarrow> 'w apply_run \<Rightarrow> bool" where
  "progress B G ss n s \<longleftrightarrow> n \<le> length ss \<and> attemptedValueIndexes s = [0..<n] \<and> global (live s) = G
     \<and> reached B ss n (banked (live s))
     \<and> (ap_failure s = [] \<longrightarrow> ownershipAvailable s \<and> selected s \<and> banked (live s) = bank_after B ss n
          \<and> b_writesVerified (ap_result s) = n)"

lemma live_setting_write:
  assumes "r \<in> set fw2051_registers"
  shows "selector (live (snd (on_link (writeRegister T base r v) s))) = selector (live s)"
    "global (live (snd (on_link (writeRegister T base r v) s))) = global (live s)"
    "banked (live (snd (on_link (writeRegister T base r v) s))) \<in> {banked (live s),
       (banked (live s))(selector (live s) := (banked (live s) (selector (live s)))(r := v))}"
    "fst (writeRegister T base r v (ap_bus s)) = Inr u \<Longrightarrow> banked (live (snd (on_link (writeRegister T base r v) s)))
       = (banked (live s))(selector (live s) := (banked (live s) (selector (live s)))(r := v))"
proof -
  have "r \<noteq> Fw2051ScpSelectorRegister" using assms by (auto simp: Fw2051ScpSelectorRegister_def fw2051_registers_eq)
  then have w: "mdpp_write (live s) r v = (live s)\<lparr>banked := (banked (live s))(selector (live s) := (banked (live s) (selector (live s)))(r := v))\<rparr>"
    using assms by (simp add: mdpp_write_def)
  show "selector (live (snd (on_link (writeRegister T base r v) s))) = selector (live s)"
    "global (live (snd (on_link (writeRegister T base r v) s))) = global (live s)"
    "banked (live (snd (on_link (writeRegister T base r v) s))) \<in> {banked (live s),
       (banked (live s))(selector (live s) := (banked (live s) (selector (live s)))(r := v))}"
    using live_write(2) [of r v s] unfolding w by auto
  show "fst (writeRegister T base r v (ap_bus s)) = Inr u \<Longrightarrow> banked (live (snd (on_link (writeRegister T base r v) s)))
       = (banked (live s))(selector (live s) := (banked (live s) (selector (live s)))(r := v))"
    using live_write(1) [of r v s u] unfolding w by simp
qed

lemma live_verify [simp]: "live (verify_step T base i step s) = live s"
  by (auto simp: verify_step_def Let_def case_prod_beta split: sum.split)

lemma verify_fields [simp]:
  "attemptedValueIndexes (verify_step T base i step s) = attemptedValueIndexes s"
  "ownershipAvailable (verify_step T base i step s) = ownershipAvailable s" "selectedQuad (verify_step T base i step s) = selectedQuad s"
  by (auto simp: verify_step_def Let_def case_prod_beta split: sum.split)

lemma verify_passed:
  "ap_failure (verify_step T base i step s) = [] \<Longrightarrow> ap_failure s = []
    \<and> b_writesVerified (ap_result (verify_step T base i step s)) = b_writesVerified (ap_result s) + 1"
  by (auto simp: verify_step_def update_value_def Let_def case_prod_beta split: sum.splits if_splits)

lemma write_step_progress:
  assumes "progress B G ss n s" "ap_failure s = []" "n < length ss" "executable B ss"
    and sel: "selector (live s) = of_int (s_quad (ss ! n))" "selectedQuad s = s_quad (ss ! n)"
  shows "\<exists>m. progress B G ss m (write_step T base gate n (ss ! n) s)
    \<and> (ap_failure (write_step T base gate n (ss ! n) s) = [] \<longrightarrow> m = Suc n)"
proof -
  let ?step = "ss ! n" and ?own = "reverifyOwnership T gate (write_gate_name (s_settingName (ss ! n))) s"
  have r: "s_registerOffset ?step \<in> set fw2051_registers" using assms(3,4) by (simp add: executable_def)
  have next': "bank_after B ss (Suc n) = (bank_after B ss n)(of_int (s_quad ?step) :=
      (bank_after B ss n (of_int (s_quad ?step)))(s_registerOffset ?step := s_profileValue ?step))"
    using assms(3) by (simp add: bank_after_Suc step_banked_def)
  show ?thesis
  proof (cases "fst ?own")
    case False
    then have "write_step T base gate n ?step s = snd ?own" by (simp add: write_step_def case_prod_beta)
    moreover have "ap_failure (snd ?own) \<noteq> []"
      using False assms(1,2) reverify_refused [of T gate "write_gate_name (s_settingName ?step)" s] by (auto simp: progress_def)
    ultimately show ?thesis using assms(1) by (intro exI [of _ n]) (auto simp: progress_def)
  next
    case True
    define t where "t = (update_result (\<lambda>r. (update_value n (v_writeAttempted_update (\<lambda>_. True)) r)
        \<lparr>b_writesAttempted := b_writesAttempted r + 1\<rparr>) (snd ?own))\<lparr>attemptedValueIndexes := attemptedValueIndexes (snd ?own) @ [n]\<rparr>"
    define t' where "t' = snd (on_link (writeRegister T base (s_registerOffset ?step) (s_profileValue ?step)) t)"
    have t: "live t = live s" "attemptedValueIndexes t = [0..<Suc n]" "ap_failure t = []" "ownershipAvailable t"
        "selectedQuad t = s_quad ?step" "b_writesVerified (ap_result t) = n"
      using assms(1,2) reverify_allowed [OF True] sel(2) by (auto simp: t_def progress_def update_value_def)
    note w = live_setting_write [OF r, of "s_profileValue ?step" t, folded t'_def]
    have bank: "banked (live s) = bank_after B ss n" "global (live s) = G" using assms(1,2) by (auto simp: progress_def)
    have t': "attemptedValueIndexes t' = [0..<Suc n]" "ap_failure t' = []" "ownershipAvailable t'" "selectedQuad t' = s_quad ?step"
        "b_writesVerified (ap_result t') = n" "reached B ss (Suc n) (banked (live t'))" "global (live t') = G"
      using t w(2,3) bank sel(1) next' by (auto simp: t'_def reached_def)
    have done': "fst (writeRegister T base (s_registerOffset ?step) (s_profileValue ?step) (ap_bus t)) = Inr u \<Longrightarrow>
        banked (live t') = bank_after B ss (Suc n) \<and> selected t'" for u
      using w(1,4) t(1) bank(1) sel t'(4) next' by (auto simp: selected_def)
    have eq: "write_step T base gate n ?step s = (case fst (writeRegister T base (s_registerOffset ?step) (s_profileValue ?step) (ap_bus t)) of
        Inl e \<Rightarrow> appendFailure (RegisterOperationError ''write'' (s_settingName ?step) (s_registerOffset ?step) e) t'
      | Inr _ \<Rightarrow> verify_step T base n ?step t')"
      using True by (auto simp: write_step_def case_prod_beta Let_def t_def t'_def split: sum.split)
    show ?thesis
    proof (cases "fst (writeRegister T base (s_registerOffset ?step) (s_profileValue ?step) (ap_bus t))")
      case (Inl e)
      then show ?thesis using eq t' assms(3) by (intro exI [of _ "Suc n"]) (auto simp: progress_def)
    next
      case (Inr u)
      then have "selected (verify_step T base n ?step t')" using done' by (simp add: selected_def)
      with Inr eq t' assms(3) done' [OF Inr] verify_passed [of n ?step t'] show ?thesis
        by (intro exI [of _ "Suc n"]) (auto simp: progress_def)
    qed
  qed
qed

lemma apply_one_progress:
  assumes "progress B G ss n s" "ap_failure s = []" "n < length ss" "executable B ss"
  shows "\<exists>m. progress B G ss m (apply_one T base gate n (ss ! n) s)
    \<and> (ap_failure (apply_one T base gate n (ss ! n) s) = [] \<longrightarrow> m = Suc n)"
proof -
  let ?step = "ss ! n"
  let ?sel = "select_quad T base gate (bank_gate_name_for (s_quad ?step)) ''channel-quad selector'' (s_quad ?step) s"
  note keeps = select_quad_keeps [of "bank_gate_name_for (s_quad ?step)" "''channel-quad selector''" "s_quad ?step" s]
  have own: "ownershipAvailable s" "selected s" using assms(1,2) by (simp_all add: progress_def)
  have q: "0 \<le> s_quad ?step" using assms(3,4) by (simp add: executable_def)
  show ?thesis
  proof (cases "fst ?sel")
    case False
    then have "apply_one T base gate n ?step s = snd ?sel" by (simp add: apply_one_def case_prod_beta)
    then show ?thesis using assms(1) keeps select_quad_refused [OF False own(1)] by (intro exI [of _ n]) (auto simp: progress_def)
  next
    case True
    define t where "t = (if selectedQuad s = s_quad ?step then snd ?sel
        else update_result (b_selectorParkedAtQuadZero_update (\<lambda>_. False)) (snd ?sel))"
    note ok = select_quad_done [OF True own(2) q]
    have t: "live t = live (snd ?sel)" "ap_failure t = []" "selectedQuad t = s_quad ?step" "ownershipAvailable t"
        "attemptedValueIndexes t = attemptedValueIndexes s" "b_writesVerified (ap_result t) = b_writesVerified (ap_result s)"
      using ok keeps assms(2) own(1) by (auto simp: t_def)
    have "progress B G ss n t"
      using assms(1,2) t keeps ok(1) by (auto simp: progress_def selected_def)
    moreover have "apply_one T base gate n ?step s = write_step T base gate n ?step t"
      using True by (simp add: apply_one_def case_prod_beta t_def)
    ultimately show ?thesis using write_step_progress [OF _ t(2) assms(3,4)] t(1,3) ok(1) by simp
  qed
qed

lemma apply_loop_progress:
  assumes "progress B G ss n s" "executable B ss"
  shows "\<exists>m. progress B G ss m (apply_loop T base gate n (drop n ss) s)
    \<and> (ap_failure (apply_loop T base gate n (drop n ss) s) = [] \<longrightarrow> m = length ss)"
  using assms(1)
proof (induction "length ss - n" arbitrary: n s)
  case 0
  then have "n = length ss" by (simp add: progress_def)
  with 0 show ?case by auto
next
  case (Suc k)
  then have n: "n < length ss" by simp
  then have split: "drop n ss = ss ! n # drop (Suc n) ss" by (simp add: Cons_nth_drop_Suc)
  show ?case
  proof (cases "ap_failure s = []")
    case True
    then have own: "ownershipAvailable s" using Suc.prems by (simp add: progress_def)
    obtain m where m: "progress B G ss m (apply_one T base gate n (ss ! n) s)"
        "ap_failure (apply_one T base gate n (ss ! n) s) = [] \<longrightarrow> m = Suc n"
      using apply_one_progress [OF Suc.prems True n assms(2)] by blast
    show ?thesis
    proof (cases "ap_failure (apply_one T base gate n (ss ! n) s) = []")
      case ok: True
      then have "progress B G ss (Suc n) (apply_one T base gate n (ss ! n) s)" using m by auto
      from Suc.hyps(1) [OF _ this] Suc.hyps(2) show ?thesis using split True own by simp
    next
      case stop: False
      then have "apply_loop T base gate (Suc n) (drop (Suc n) ss) (apply_one T base gate n (ss ! n) s) = apply_one T base gate n (ss ! n) s"
        by (cases "drop (Suc n) ss") auto
      with m(1) stop show ?thesis using split True own by auto
    qed
  next
    case False
    then have "apply_loop T base gate n (drop n ss) s = s" by (simp add: split)
    with Suc.prems False show ?thesis by auto
  qed
qed

text \<open>Parking and resetting leave the settings alone.\<close>

lemma live_park:
  "banked (live (parkSelector T base gate s)) = banked (live s)" "global (live (parkSelector T base gate s)) = global (live s)"
  by (auto simp: parkSelector_def case_prod_beta live_select_write split: sum.split bool.split)

lemma live_command_write:
  assumes "r \<noteq> Fw2051ScpSelectorRegister" "r \<notin> set fw2051_registers"
  shows "banked (live (snd (on_link (writeRegister T base r v) s))) = banked (live s)"
    "selector (live (snd (on_link (writeRegister T base r v) s))) = selector (live s)"
    "x \<noteq> r \<Longrightarrow> global (live (snd (on_link (writeRegister T base r v) s))) x = global (live s) x"
  using live_write(2) [of r v s] assms by (auto simp: mdpp_write_def)

lemma live_reset:
  "banked (live (resetReadout T base gate s)) = banked (live s)" "selector (live (resetReadout T base gate s)) = selector (live s)"
  "global (live (resetReadout T base gate s)) Fw2051AcquisitionControlRegister = global (live s) Fw2051AcquisitionControlRegister"
  by (auto simp: resetReadout_def Let_def case_prod_beta live_command_write command_registers split: sum.split bool.split)

lemma live_verify_rollback [simp]: "live (snd (verify_rollback T base i v s)) = live s"
  by (auto simp: verify_rollback_def Let_def case_prod_beta split: sum.split)

lemma selected_verify_rollback [simp]: "selectedQuad (snd (verify_rollback T base i v s)) = selectedQuad s"
  by (auto simp: verify_rollback_def Let_def case_prod_beta split: sum.split)

definition planned_as :: "ScpProfileApplicationStep list \<Rightarrow> 'w apply_run \<Rightarrow> bool" where
  "planned_as ss s \<longleftrightarrow> planned_values s = map (\<lambda>st. (s_quad st, s_registerOffset st, s_expectedValue st)) ss"

lemma planned_as_nth:
  assumes "planned_as ss s" "i < length ss"
  shows "v_quad (b_values (ap_result s) ! i) = s_quad (ss ! i)" "v_registerOffset (b_values (ap_result s) ! i) = s_registerOffset (ss ! i)"
    "v_expectedValue (b_values (ap_result s) ! i) = s_expectedValue (ss ! i)"
proof -
  have "length (b_values (ap_result s)) = length ss" using arg_cong [OF assms(1) [unfolded planned_as_def planned_values_def], of length] by simp
  then have "planned_value (b_values (ap_result s) ! i) = (s_quad (ss ! i), s_registerOffset (ss ! i), s_expectedValue (ss ! i))"
    using assms arg_cong [OF assms(1) [unfolded planned_as_def planned_values_def], of "\<lambda>xs. xs ! i"] by simp
  then show "v_quad (b_values (ap_result s) ! i) = s_quad (ss ! i)" "v_registerOffset (b_values (ap_result s) ! i) = s_registerOffset (ss ! i)"
    "v_expectedValue (b_values (ap_result s) ! i) = s_expectedValue (ss ! i)" by (simp_all add: planned_value_def)
qed

lemma rollback_one_keeps_global:
  assumes "planned_as ss s" "i < length ss" "executable B ss"
  shows "global (live (snd (rollback_one T base gate i s))) = global (live s)"
proof -
  have "s_registerOffset (ss ! i) \<in> set fw2051_registers" using assms(2,3) by (simp add: executable_def)
  then show ?thesis
    by (auto simp: rollback_one_def Let_def case_prod_beta planned_as_nth [OF assms(1,2)] live_setting_write select_quad_keeps
        split: sum.split bool.split)
qed

lemma rollback_one_restores:
  assumes "fst (rollback_one T base gate i s) = Some True" "planned_as ss s" "i < length ss" "executable B ss" "selected s"
    and "reached B ss (Suc i) (banked (live s))"
  shows "banked (live (snd (rollback_one T base gate i s))) = bank_after B ss i \<and> selected (snd (rollback_one T base gate i s))"
proof -
  let ?v = "b_values (ap_result s) ! i" and ?step = "ss ! i"
  note v = planned_as_nth [OF assms(2,3)]
  have r: "s_registerOffset ?step \<in> set fw2051_registers" and q: "0 \<le> s_quad ?step" using assms(3,4) by (simp_all add: executable_def)
  let ?sel = "select_quad T base gate (rollback_bank_gate_name (s_quad ?step)) ''rollback channel-quad selector'' (s_quad ?step) s"
  have sel: "fst ?sel" using assms(1) v by (auto simp: rollback_one_def Let_def case_prod_beta split: bool.splits if_splits)
  note ok = select_quad_done [OF sel assms(5) q]
  let ?own = "reverifyOwnership T gate (rollback_gate_name (v_settingName ?v)) (snd ?sel)"
  have own: "fst ?own" using assms(1) v sel by (auto simp: rollback_one_def Let_def case_prod_beta split: bool.splits if_splits)
  define t where "t = update_result (\<lambda>r. (update_value i (v_rollbackAttempted_update (\<lambda>_. True)) r)
      \<lparr>b_rollbackWritesAttempted := b_rollbackWritesAttempted r + 1\<rparr>) (snd ?own)"
  let ?w = "on_link (writeRegister T base (s_registerOffset ?step) (s_expectedValue ?step)) t"
  have eq: "rollback_one T base gate i s = (case ?w of
      (Inl e, s) \<Rightarrow> (Some False, appendFailure (RegisterOperationError ''rollback'' (v_settingName ?v) (v_registerOffset ?v) e) s)
    | (Inr _, s) \<Rightarrow> map_prod Some id (verify_rollback T base i ?v s))"
    using assms(1) sel own v by (auto simp: rollback_one_def Let_def case_prod_beta t_def split: if_splits bool.splits)
  then obtain u where u: "fst (writeRegister T base (s_registerOffset ?step) (s_expectedValue ?step) (ap_bus t)) = Inr u"
    using assms(1) by (auto simp: case_prod_beta split: sum.splits)
  have t: "live t = live (snd ?sel)" "selectedQuad t = s_quad ?step" using ok(2) by (simp_all add: t_def)
  have "banked (live (snd ?w)) = bank_after B ss i"
    using live_setting_write(4) [OF r u] t(1) ok(1) select_quad_keeps(3) undo_step [OF assms(4,3), of "banked (live s)"] assms(6)
    by (auto simp: reached_def)
  moreover have "selected (snd ?w)" using live_setting_write(1) [OF r] t ok(1) by (simp add: selected_def)
  ultimately show ?thesis using eq u by (simp add: case_prod_beta selected_def)
qed

lemma rollback_loop_unsafe: "\<not> fst (rollback_loop T base gate is False s)"
  by (induction "is" arbitrary: s) (auto simp: case_prod_beta split: option.split)

lemma rollback_loop_restores:
  assumes "planned_as ss s" "k \<le> length ss" "executable B ss"
  shows "global (live (snd (rollback_loop T base gate (rev [0..<k]) safe s))) = global (live s)"
    and "fst (rollback_loop T base gate (rev [0..<k]) safe s) \<Longrightarrow> selected s \<Longrightarrow> reached B ss k (banked (live s)) \<Longrightarrow>
      banked (live (snd (rollback_loop T base gate (rev [0..<k]) safe s))) = B"
  using assms
proof (induction k arbitrary: s safe)
  case 0
  case 1 then show ?case by simp
  case 2 then show ?case by (simp add: reached_def)
next
  case (Suc k)
  have planned: "planned_as ss (snd (rollback_one T base gate k s))" if "planned_as ss s" for s using that by (simp add: planned_as_def)
  {
    case 1
    then show ?case
      using Suc.IH(1) [of "snd (rollback_one T base gate k s)"] planned [OF 1(1)] rollback_one_keeps_global [of ss s k B]
      by (auto simp: case_prod_beta split: option.split)
  next
    case 2
    have one: "fst (rollback_one T base gate k s) = Some True"
      using 2(1) rollback_loop_unsafe by (auto simp: case_prod_beta split: option.splits) (metis (full_types) rollback_loop_unsafe)
    then have "banked (live (snd (rollback_one T base gate k s))) = bank_after B ss k \<and> selected (snd (rollback_one T base gate k s))"
      using 2 by (intro rollback_one_restores) auto
    then show ?case
      using 2 one planned [OF 2(4)] Suc.IH(2) [of safe "snd (rollback_one T base gate k s)"]
      by (auto simp: case_prod_beta reached_def)
  }
qed

abbreviation stopped :: "mdpp \<Rightarrow> bool" where
  "stopped m \<equiv> global m Fw2051AcquisitionControlRegister = Fw2051StopAcquisitionValue"

lemma stop_module_exact:
  fixes s :: "'w apply_run"
  assumes "ap_failure s = []" "ownershipAvailable s" "\<not> b_moduleStopVerified (ap_result s)"
  shows "banked (live (stop_module T base gate s)) = banked (live s)"
    and "b_moduleStopVerified (ap_result (stop_module T base gate s)) \<Longrightarrow> stopped (live (stop_module T base gate s))"
    and "ap_failure (stop_module T base gate s) = [] \<Longrightarrow> b_moduleStopVerified (ap_result (stop_module T base gate s))
      \<and> ownershipAvailable (stop_module T base gate s)"
    and "selectedQuad (stop_module T base gate s) = selectedQuad s"
    and "b_rollbackVerified (ap_result (stop_module T base gate s)) = b_rollbackVerified (ap_result s)"
    and "b_profileValuesRetained (ap_result (stop_module T base gate s)) = b_profileValuesRetained (ap_result s)"
    and "b_plannedWrites (ap_result (stop_module T base gate s)) = b_plannedWrites (ap_result s)"
    and "b_writesVerified (ap_result (stop_module T base gate s)) = b_writesVerified (ap_result s)"
proof -
  let ?own = "reverifyOwnership T gate ''the complete SCP profile module stop'' s"
  let ?w = "snd (on_link (writeRegister T base Fw2051AcquisitionControlRegister Fw2051StopAcquisitionValue) (snd ?own))"
  let ?u = "update_result (b_moduleStopSent_update (\<lambda>_. True)) ?w"
  have shown: "fst (readRegister T base Fw2051AcquisitionControlRegister (ap_bus ?w)) = Inr v \<Longrightarrow>
      v = global (live ?w) Fw2051AcquisitionControlRegister" for v
    using live_read [of Fw2051AcquisitionControlRegister ?w v] command_registers by (simp add: mdpp_read_def)
  note own = reverify_allowed [of T gate "''the complete SCP profile module stop''" s]
    reverify_refused [of T gate "''the complete SCP profile module stop''" s]
  show "banked (live (stop_module T base gate s)) = banked (live s)"
    by (auto simp: stop_module_def Let_def case_prod_beta live_command_write command_registers split: sum.split bool.split)
  show "b_moduleStopVerified (ap_result (stop_module T base gate s)) \<Longrightarrow> stopped (live (stop_module T base gate s))"
    using assms(3) shown by (auto simp: stop_module_def Let_def case_prod_beta split: sum.splits bool.splits if_splits)
  show "ap_failure (stop_module T base gate s) = [] \<Longrightarrow> b_moduleStopVerified (ap_result (stop_module T base gate s))
      \<and> ownershipAvailable (stop_module T base gate s)"
    using assms own by (auto simp: stop_module_def Let_def case_prod_beta split: sum.splits bool.splits if_splits)
qed (auto simp: stop_module_def Let_def case_prod_beta split: sum.split bool.split)

lemma park_passed:
  assumes "ap_failure (parkSelector T base gate s) = []" "ownershipAvailable s"
  shows "selector (live (parkSelector T base gate s)) = 0"
  using assms live_write(1) [of Fw2051ScpSelectorRegister 0 "snd (reverifyOwnership T gate ''the complete SCP profile selector parking'' s)"]
    reverify_refused [of T gate "''the complete SCP profile selector parking''" s]
  by (auto simp: parkSelector_def mdpp_write_def case_prod_beta split: sum.splits bool.splits if_splits)

lemma park_result [simp]:
  "b_rollbackVerified (ap_result (parkSelector T base gate s)) = b_rollbackVerified (ap_result s)"
  "b_moduleStopVerified (ap_result (parkSelector T base gate s)) = b_moduleStopVerified (ap_result s)"
  by (auto simp: parkSelector_def case_prod_beta split: sum.split bool.split)

lemma reset_result [simp]:
  "b_rollbackVerified (ap_result (resetReadout T base gate s)) = b_rollbackVerified (ap_result s)"
  "b_moduleStopVerified (ap_result (resetReadout T base gate s)) = b_moduleStopVerified (ap_result s)"
  by (auto simp: resetReadout_def Let_def case_prod_beta split: sum.split bool.split)

lemma conclude_exact:
  fixes s :: "'w apply_run"
  shows "banked (live (conclude T base gate s)) = banked (live s)"
    and "global (live (conclude T base gate s)) Fw2051AcquisitionControlRegister = global (live s) Fw2051AcquisitionControlRegister"
    and "b_rollbackVerified (ap_result (conclude T base gate s)) = b_rollbackVerified (ap_result s)"
    and "b_moduleStopVerified (ap_result (conclude T base gate s)) = b_moduleStopVerified (ap_result s)"
    and "ap_failure (conclude T base gate s) = [] \<Longrightarrow> ap_failure s = []"
    and "ap_failure (conclude T base gate s) = [] \<Longrightarrow> b_profileValuesRetained (ap_result (conclude T base gate s)) \<Longrightarrow>
      \<not> b_profileValuesRetained (ap_result s) \<Longrightarrow> ownershipAvailable s \<Longrightarrow>
      b_writesVerified (ap_result s) = b_plannedWrites (ap_result s) \<and> b_moduleStopVerified (ap_result s)
      \<and> selector (live (conclude T base gate s)) = 0"
  using park_passed [of "update_result (b_profileValuesRetained_update (\<lambda>_. True)) s"]
  by (auto simp: conclude_def Let_def live_park live_reset split: if_splits)

lemma roll_back_exact:
  fixes s :: "'w apply_run"
  assumes "planned_as ss s" "executable B ss" "n \<le> length ss" "attemptedValueIndexes s = [0..<n]" "reached B ss n (banked (live s))"
    and "\<not> b_rollbackVerified (ap_result s)"
  shows "global (live (roll_back T base gate s)) Fw2051AcquisitionControlRegister = global (live s) Fw2051AcquisitionControlRegister"
    and "b_rollbackVerified (ap_result (roll_back T base gate s)) \<Longrightarrow> banked (live (roll_back T base gate s)) = B \<and> n > 0"
proof -
  let ?s = "(update_result (\<lambda>r. r\<lparr>b_state := RollingBack, b_rollbackAttempted := True, b_profileValuesRetained := False\<rparr>) s)
      \<lparr>selectedQuad := - 1\<rparr>"
  let ?loop = "rollback_loop T base gate (rev [0..<n]) (ownershipAvailable s) ?s"
  have planned: "planned_as ss ?s" using assms(1) by (simp add: planned_as_def)
  note loop = rollback_loop_restores [OF planned assms(3,2)]
  have sel: "selected ?s" by (simp add: selected_def)
  show "global (live (roll_back T base gate s)) Fw2051AcquisitionControlRegister = global (live s) Fw2051AcquisitionControlRegister"
    using assms(4) loop(1) [of "ownershipAvailable s"] by (auto simp: roll_back_def Let_def case_prod_beta live_park live_reset)
  show "b_rollbackVerified (ap_result (roll_back T base gate s)) \<Longrightarrow> banked (live (roll_back T base gate s)) = B \<and> n > 0"
    using assms(4-) loop(2) [of "ownershipAvailable s"] sel
    by (auto simp: roll_back_def Let_def case_prod_beta live_park live_reset split: if_splits)
qed

definition fresh_result :: "ScpProfileApplicationStep list \<Rightarrow> ScpBulkApplyResult \<Rightarrow> bool" where
  "fresh_result ss r \<longleftrightarrow> \<not> b_moduleStopVerified r \<and> \<not> b_rollbackVerified r \<and> \<not> b_profileValuesRetained r
     \<and> b_plannedWrites r = length ss \<and> b_writesVerified r = 0 \<and> b_baseAddress r = base
     \<and> map planned_value (b_values r) = map (\<lambda>st. (s_quad st, s_registerOffset st, s_expectedValue st)) ss"

lemma transaction_exact:
  assumes run: "apply_transaction T gate ss r w = (res, w')" and exec: "executable (banked (dev w)) ss" and fresh: "fresh_result ss r"
  shows "b_state res = Passed \<Longrightarrow> banked (dev w') = bank_after (banked (dev w)) ss (length ss) \<and> selector (dev w') = 0 \<and> stopped (dev w')"
    and "b_rollbackVerified res \<Longrightarrow> banked (dev w') = banked (dev w) \<and> stopped (dev w')"
proof -
  define B where "B = banked (dev w)"
  define s1 where "s1 = stop_module T base gate (begin_apply r w)"
  define s2 where "s2 = apply_loop T base gate 0 ss s1"
  define s3 where "s3 = conclude T base gate s2"
  define s4 where "s4 = roll_back T base gate s3"
  have out: "res = apply_finish s4" "w' = snd (ap_bus s4)"
    using run fresh by (simp_all add: apply_transaction_def Let_def fresh_result_def s1_def s2_def s3_def s4_def)
  have s0: "ap_failure (begin_apply r w) = []" "ownershipAvailable (begin_apply r w)" "\<not> b_moduleStopVerified (ap_result (begin_apply r w))"
      "banked (live (begin_apply r w)) = B" "selectedQuad (begin_apply r w) = - 1" "attemptedValueIndexes (begin_apply r w) = []"
      "planned_as ss (begin_apply r w)" "b_writesVerified (ap_result (begin_apply r w)) = 0"
      "b_plannedWrites (ap_result (begin_apply r w)) = length ss" "\<not> b_profileValuesRetained (ap_result (begin_apply r w))"
      "\<not> b_rollbackVerified (ap_result (begin_apply r w))"
    using fresh by (simp_all add: begin_apply_def live_def B_def fresh_result_def planned_as_def planned_values_def)
  note stop = stop_module_exact [OF s0(1-3), folded s1_def]
  have p0: "progress B (global (live s1)) ss 0 s1"
    using stop s0 by (auto simp: progress_def reached_def selected_def s1_def)
  obtain m where m: "progress B (global (live s1)) ss m s2" "ap_failure s2 = [] \<longrightarrow> m = length ss"
    using apply_loop_progress [OF p0] exec by (auto simp: s2_def B_def)
  have fixed: "b_moduleStopVerified (ap_result s2) = b_moduleStopVerified (ap_result s1)"
      "b_rollbackVerified (ap_result s2) = b_rollbackVerified (ap_result s1)"
      "b_profileValuesRetained (ap_result s2) = b_profileValuesRetained (ap_result s1)"
      "b_plannedWrites (ap_result s2) = b_plannedWrites (ap_result s1)"
    using fixed_apply_loop [of T base gate 0 ss s1] by (simp_all add: s2_def fixed_fields_def)
  have idle: "m = 0" if "\<not> b_moduleStopVerified (ap_result s1)"
  proof -
    have "ap_failure s1 \<noteq> []" using stop(3) that by auto
    then have "s2 = s1" unfolding s2_def by (cases ss) auto
    then show ?thesis using m(1) p0 by (simp add: progress_def)
  qed
  note con = conclude_exact [of s2, folded s3_def]
  have planned: "planned_as ss s3" using s0(7) by (simp add: planned_as_def s3_def s2_def s1_def)
  have att: "attemptedValueIndexes s3 = [0..<m]" "m \<le> length ss" "reached B ss m (banked (live s3))"
    using m(1) con(1) by (simp_all add: s3_def progress_def)
  have nv: "\<not> b_rollbackVerified (ap_result s3)" using con(3) fixed stop s0 by simp
  note undone = roll_back_exact [OF planned exec [folded B_def] att(2,1,3) nv, folded s4_def]
  have still: "global (live s4) Fw2051AcquisitionControlRegister = global (live s1) Fw2051AcquisitionControlRegister"
    using undone(1) con(2) m(1) by (simp add: progress_def)
  show "banked (dev w') = banked (dev w) \<and> stopped (dev w')" if "b_rollbackVerified res"
  proof -
    have "banked (live s4) = B" "m > 0" using undone(2) that out(1) by (auto simp: apply_finish_def Let_def)
    moreover have "stopped (live s4)" using still stop(2) idle \<open>m > 0\<close> by auto
    ultimately show ?thesis using out(2) by (simp add: live_def B_def)
  qed
  show "banked (dev w') = bank_after (banked (dev w)) ss (length ss) \<and> selector (dev w') = 0 \<and> stopped (dev w')" if "b_state res = Passed"
  proof -
    have end4: "ap_failure s4 = []" "b_profileValuesRetained (ap_result s4)" using that out(1) by (auto simp: apply_finish_def Let_def split: if_splits)
    then have "ap_failure s3 = []" unfolding s4_def using failure_stays_roll_back [of s3] by blast
    then have "s4 = s3" "ap_failure s2 = []" using con(5) by (simp_all add: s4_def roll_back_def)
    then have "m = length ss" "banked (live s2) = bank_after B ss m" "ownershipAvailable s2" using m by (auto simp: progress_def)
    moreover have "b_moduleStopVerified (ap_result s2) \<and> selector (live s3) = 0"
      using con(6) \<open>ap_failure s3 = []\<close> end4(2) \<open>s4 = s3\<close> fixed(3) stop(6) s0(10) calculation(3) by simp
    ultimately show ?thesis
      using con(1) still stop(2) fixed(1) \<open>s4 = s3\<close> out(2) by (simp add: live_def B_def)
  qed
qed

end

end
