(* ===== verification/Scp_Apply_Outcome.thy ===== *)
theory Scp_Apply_Outcome
  imports Scp_Bulk_Apply
begin

text \<open>
  What an application of a profile does to the module, from the preflight to the last reset:
  the request's validation is the replay of its steps on the expected configuration, the
  preflight makes that configuration the module's own, and the transaction then installs the
  steps or, when it rolled back, leaves the settings as they were. Together with the planner
  this says that a passed application installs the profile.
\<close>

subsection \<open>Validation replays the steps\<close>

definition step_applies :: "Fw2051ScpQuadConfiguration list \<Rightarrow> ScpProfileApplicationStep \<Rightarrow> bool" where
  "step_applies qs step \<longleftrightarrow> 0 \<le> s_quad step \<and> nat (s_quad step) < length qs
     \<and> Fw2051ScpQuadRegisterValue (qs ! nat (s_quad step)) (s_registerOffset step) = Some (s_expectedValue step)
     \<and> ValidateFw2051ScpProfileValue (s_registerOffset step) (s_profileValue step) = None"

fun replayable :: "Fw2051ScpQuadConfiguration list \<Rightarrow> ScpProfileApplicationStep list \<Rightarrow> bool" where
  "replayable qs [] \<longleftrightarrow> True"
| "replayable qs (step # ss) \<longleftrightarrow> step_applies qs step \<and> replayable (apply_step qs step) ss"

lemma register_mapped_Some: "Fw2051ScpQuadRegisterValue q r = Some v \<Longrightarrow> r \<in> set fw2051_registers"
  using quad_register_mapped [of q r] by simp

lemma validate_steps_iff: "validate_steps ss qs = Inr target \<longleftrightarrow> replayable qs ss \<and> target = apply_steps qs ss"
proof (induction ss arbitrary: qs)
  case (Cons step ss)
  let ?q = "qs ! nat (s_quad step)" and ?r = "s_registerOffset step" and ?v = "s_profileValue step"
  show ?case
  proof (cases "step_applies qs step")
    case True
    then have r: "?r \<in> set fw2051_registers" by (auto simp: step_applies_def intro: register_mapped_Some)
    then obtain d where "FindFw2051ScpSetting ?r = Some d" by (metis FindFw2051ScpSetting_None not_Some_eq)
    moreover obtain q' where "SetFw2051ScpQuadRegisterValue ?q ?r ?v = (True, q')"
      using r set_register_mapped [of ?q ?r ?v] by (cases "SetFw2051ScpQuadRegisterValue ?q ?r ?v") auto
    ultimately show ?thesis using True Cons.IH by (auto simp: step_applies_def apply_step_def Let_def)
  next
    case False
    then show ?thesis by (auto simp: step_applies_def Let_def split: option.splits prod.splits)
  qed
qed auto

lemma apply_step_keeps_wf:
  "list_all quad_wf qs \<Longrightarrow> nat (s_quad step) < length qs \<Longrightarrow> list_all quad_wf (apply_step qs step)"
  by (auto simp: apply_step_def list_all_iff set_register_wf dest!: subsetD [OF set_update_subset_insert])

text \<open>Steps that touch different registers do not disturb each other.\<close>

lemma step_applies_after:
  assumes "step_applies qs step" "step_applies qs step'" "list_all quad_wf qs"
    and "(s_quad step, s_registerOffset step) \<noteq> (s_quad step', s_registerOffset step')"
  shows "step_applies (apply_step qs step') step"
proof -
  have "quad_wf (qs ! nat (s_quad step'))" using assms(2,3) by (simp add: step_applies_def list_all_length)
  then have "Fw2051ScpQuadRegisterValue (apply_step qs step' ! nat (s_quad step)) (s_registerOffset step)
      = Fw2051ScpQuadRegisterValue (qs ! nat (s_quad step)) (s_registerOffset step)"
    using assms by (auto simp: step_applies_def apply_step_def nth_list_update scp_bank.get_put)
  then show ?thesis using assms(1) by (simp add: step_applies_def)
qed

lemma replayable_distinct:
  assumes "list_all (step_applies qs) ss" "list_all quad_wf qs" "distinct (map (\<lambda>s. (s_quad s, s_registerOffset s)) ss)"
  shows "replayable qs ss"
  using assms
proof (induction ss arbitrary: qs)
  case (Cons step ss)
  have "step_applies (apply_step qs step) step'" if "step' \<in> set ss" for step'
  proof (rule step_applies_after)
    have "(s_quad step', s_registerOffset step') \<in> (\<lambda>s. (s_quad s, s_registerOffset s)) ` set ss" using that by (rule imageI)
    then show "(s_quad step', s_registerOffset step') \<noteq> (s_quad step, s_registerOffset step)" using Cons.prems(3) by auto
  qed (use Cons.prems that in \<open>simp_all add: list_all_iff\<close>)
  then have "list_all (step_applies (apply_step qs step)) ss" by (simp add: list_all_iff)
  moreover have "list_all quad_wf (apply_step qs step)"
    using Cons.prems by (intro apply_step_keeps_wf) (simp_all add: step_applies_def)
  ultimately show ?case using Cons by simp
qed simp

lemma validate_target_settings_None:
  "registerOffset ` set ds \<subseteq> set fw2051_registers \<Longrightarrow> validate_target_settings index q ds = None \<longleftrightarrow>
     check_target_settings index q ds = None"
  using quad_register_mapped [of q]
  by (induction ds) (fastforce split: option.splits)+

lemma validate_targets_None: "validate_targets i qs = None \<longleftrightarrow> list_all target_ok qs"
proof -
  have "validate_target_settings j q Fw2051ScpSettingRegistry = None \<longleftrightarrow> check_target_settings j q Fw2051ScpSettingRegistry = None" for j q
    using registry_offsets by (intro validate_target_settings_None) simp
  then have "validate_targets i qs = None \<longleftrightarrow> check_targets i qs = None"
    by (induction qs arbitrary: i) (simp_all add: option.case_eq_if)
  then show ?thesis by (simp add: check_targets_None)
qed

lemma planned_steps_apply:
  assumes "plannable profile live" "step \<in> set (plan_steps 0 (quads (configuration profile)) (quads live))"
  shows "step_applies (quads live) step"
proof -
  let ?ps = "quads (configuration profile)" and ?ls = "quads live"
  have c: "comparable (CompareFw2051ScpConfiguration profile live)" and ok: "list_all target_ok ?ps"
    using assms(1) by (simp_all add: plannable_def)
  note shape = comparable_shape [OF c]
  obtain k r where k: "k < 8" "r \<in> set fw2051_registers" "step = planned_step k (?ps ! k) (?ls ! k) r"
    using assms(2) shape by (auto simp: set_plan_steps)
  moreover obtain lv where "Fw2051ScpQuadRegisterValue (?ls ! k) r = Some lv"
    using quad_register_mapped [of "?ls ! k" r] k(2) by auto
  moreover have "target_ok (?ps ! k)" using ok k(1) shape by (simp add: list_all_length)
  from target_ok_value [OF this k(2)]
  have "ValidateFw2051ScpProfileValue r (the (Fw2051ScpQuadRegisterValue (?ps ! k) r)) = None" .
  ultimately show ?thesis using shape by (simp add: step_applies_def)
qed

lemma planned_request_validates:
  assumes "plannable profile live" "snapshot_wf (configuration profile)" "snapshot_wf live"
  defines "req \<equiv> request (PlanFw2051ScpProfileApplication profile live)"
  shows "ValidateRequest req = (if steps req = [] then Some NoWritesRequested else None)"
proof -
  let ?ps = "quads (configuration profile)" and ?ls = "quads live"
  note shape = plannable_shape [OF assms(1-3)]
  have valid: "ValidateFw2051ScpConfiguration live = None" "ValidateFw2051ScpConfiguration (configuration profile) = None"
    using assms(1) by (simp_all add: plannable_def compare_comparable_iff)
  have req: "expectedLiveConfiguration req = live" "steps req = plan_steps 0 ?ps ?ls"
    using plan_when_plannable [OF assms(1)] by (simp_all add: req_def Let_def)
  have "replayable ?ls (steps req)"
    using planned_steps_apply [OF assms(1)] shape distinct_plan_steps [OF shape(1)] req
    by (intro replayable_distinct) (auto simp: list_all_iff)
  then have "validate_steps (steps req) ?ls = Inr ?ps"
    using apply_plan_steps [OF shape(1-4), of "[]"] req by (simp add: validate_steps_iff)
  moreover have "ValidateFw2051ScpConfiguration (live\<lparr>quads := ?ps\<rparr>) = None"
    using valid by (simp add: validate_ok_iff)
  moreover have "validate_targets 0 ?ps = None" using assms(1) by (simp add: validate_targets_None plannable_def)
  ultimately show ?thesis using valid(1) req by (simp add: ValidateRequest_def)
qed

subsection \<open>The banks of the module as quads\<close>

definition bank_quads :: "(u16 \<Rightarrow> u16 \<Rightarrow> u16) \<Rightarrow> Fw2051ScpQuadConfiguration list" where
  "bank_quads B = map (\<lambda>i. quad_of B (of_nat i)) [0..<8]"

lemma length_bank_quads [simp]: "length (bank_quads B) = 8"
  by (simp add: bank_quads_def)

lemma nth_bank_quads [simp]: "i < 8 \<Longrightarrow> bank_quads B ! i = quad_of B (of_nat i)"
  by (simp add: bank_quads_def)

lemma bank_index: "i < 8 \<Longrightarrow> j < 8 \<Longrightarrow> (of_nat i :: u16) = of_nat j \<longleftrightarrow> i = j"
  by (simp add: word_unat_eq_iff unat_of_nat)

lemma quad_of_step:
  assumes "j < 8" "i < 8" "r \<in> set fw2051_registers" "s_quad step = int j" "s_registerOffset step = r"
  shows "quad_of (step_banked B step) (of_nat i) =
    (if i = j then snd (SetFw2051ScpQuadRegisterValue (quad_of B (of_nat i)) r (s_profileValue step)) else quad_of B (of_nat i))"
proof (rule scp_bank.bank_ext)
  fix x
  show "Fw2051ScpQuadRegisterValue (quad_of (step_banked B step) (of_nat i)) x = Fw2051ScpQuadRegisterValue
      (if i = j then snd (SetFw2051ScpQuadRegisterValue (quad_of B (of_nat i)) r (s_profileValue step)) else quad_of B (of_nat i)) x"
    using assms by (cases "x \<in> set fw2051_registers")
      (auto simp: quad_of_register scp_bank.get_put scp_bank.get_unmapped step_banked_def bank_index)
qed (auto simp: set_register_wf set_register_quad)

lemma apply_step_bank:
  assumes "step_applies (bank_quads B) step"
  shows "apply_step (bank_quads B) step = bank_quads (step_banked B step)"
proof (rule nth_equalityI)
  obtain j where j: "s_quad step = int j" "j < 8" using assms by (auto simp: step_applies_def intro: that [of "nat (s_quad step)"])
  have r: "s_registerOffset step \<in> set fw2051_registers" using assms by (auto simp: step_applies_def intro: register_mapped_Some)
  fix i assume "i < length (apply_step (bank_quads B) step)"
  then have i: "i < 8" by simp
  then show "apply_step (bank_quads B) step ! i = bank_quads (step_banked B step) ! i"
    using j r quad_of_step [OF j(2) i r j(1) refl] by (auto simp: apply_step_def nth_list_update)
qed simp

lemma executable_Cons:
  assumes "0 \<le> s_quad step" "s_registerOffset step \<in> set fw2051_registers"
    and "B (of_int (s_quad step)) (s_registerOffset step) = s_expectedValue step" "executable (step_banked B step) ss"
  shows "executable B (step # ss)"
proof -
  have "bank_after B (step # ss) (Suc i) = bank_after (step_banked B step) ss i" for i by (simp add: bank_after_def)
  then show ?thesis using assms by (auto simp: executable_def less_Suc_eq_0_disj)
qed

lemma replayable_bank:
  assumes "replayable (bank_quads B) ss"
  shows "executable B ss \<and> apply_steps (bank_quads B) ss = bank_quads (foldl step_banked B ss)
    \<and> list_all (\<lambda>s. 0 \<le> s_quad s \<and> s_quad s < 8) ss"
  using assms
proof (induction ss arbitrary: B)
  case Nil
  then show ?case by (simp add: executable_def)
next
  case (Cons step ss)
  then have a: "step_applies (bank_quads B) step" by simp
  then obtain j where j: "s_quad step = int j" "j < 8" by (auto simp: step_applies_def intro: that [of "nat (s_quad step)"])
  have r: "s_registerOffset step \<in> set fw2051_registers" using a by (auto simp: step_applies_def intro: register_mapped_Some)
  have "B (of_int (s_quad step)) (s_registerOffset step) = s_expectedValue step"
    using a j r by (simp add: step_applies_def quad_of_register)
  with Cons r j show ?case by (auto simp: apply_step_bank intro!: executable_Cons)
qed

subsection \<open>The preflight flag\<close>

lemma preflight_kept [simp]:
  "b_fullPreflightMatched (ap_result (stop_module T base gate s)) = b_fullPreflightMatched (ap_result s)"
  "b_fullPreflightMatched (ap_result (conclude T base gate s)) = b_fullPreflightMatched (ap_result s)"
  "b_fullPreflightMatched (ap_result (snd (rollback_one T base gate i s))) = b_fullPreflightMatched (ap_result s)"
  "b_fullPreflightMatched (ap_result (parkSelector T base gate s)) = b_fullPreflightMatched (ap_result s)"
  "b_fullPreflightMatched (ap_result (resetReadout T base gate s)) = b_fullPreflightMatched (ap_result s)"
proof -
  show park: "b_fullPreflightMatched (ap_result (parkSelector T base gate s)) = b_fullPreflightMatched (ap_result s)" for s :: "'a apply_run"
    by (auto simp: parkSelector_def case_prod_beta split: sum.split bool.split)
  show reset: "b_fullPreflightMatched (ap_result (resetReadout T base gate s)) = b_fullPreflightMatched (ap_result s)" for s :: "'a apply_run"
    by (auto simp: resetReadout_def Let_def case_prod_beta split: sum.split bool.split)
  show "b_fullPreflightMatched (ap_result (stop_module T base gate s)) = b_fullPreflightMatched (ap_result s)"
    by (auto simp: stop_module_def Let_def case_prod_beta split: sum.split bool.split)
  show "b_fullPreflightMatched (ap_result (conclude T base gate s)) = b_fullPreflightMatched (ap_result s)"
    by (simp add: conclude_def Let_def park reset)
  show "b_fullPreflightMatched (ap_result (snd (rollback_one T base gate i s))) = b_fullPreflightMatched (ap_result s)"
    by (auto simp: rollback_one_def verify_rollback_def update_value_def Let_def case_prod_beta split: sum.split bool.split)
qed

lemma preflight_kept_transaction:
  "b_fullPreflightMatched (fst (apply_transaction T gate ss r w)) = b_fullPreflightMatched r"
proof -
  have loop: "b_fullPreflightMatched (ap_result (snd (rollback_loop T base gate is safe s))) = b_fullPreflightMatched (ap_result s)"
    for base "is" safe and s :: "'a apply_run"
    by (induction "is" arbitrary: s safe) (auto simp: case_prod_beta split: option.split)
  have "b_fullPreflightMatched (ap_result (roll_back T base gate s)) = b_fullPreflightMatched (ap_result s)" for base and s :: "'a apply_run"
    by (simp add: roll_back_def Let_def case_prod_beta loop)
  moreover have "b_fullPreflightMatched (ap_result (apply_loop T base gate i ss s)) = b_fullPreflightMatched (ap_result s)"
    for base i and s :: "'a apply_run"
    using fixed_apply_loop [of T base gate i ss s] by (simp add: fixed_fields_def)
  ultimately show ?thesis by (simp add: apply_transaction_def apply_finish_def begin_apply_def Let_def)
qed

subsection \<open>The whole operation\<close>

text \<open>A comparison without differences, of well-formed snapshots, is equality of their quads.\<close>

lemma preflight_match:
  assumes "comparable (CompareFw2051ScpConfiguration profile live)" "differences (CompareFw2051ScpConfiguration profile live) = []"
    and "snapshot_wf (configuration profile)" "snapshot_wf live"
  shows "quads live = quads (configuration profile)"
proof -
  have v: "ValidateFw2051ScpConfiguration (configuration profile) = None" "ValidateFw2051ScpConfiguration live = None"
    using assms(1) by (simp_all add: compare_comparable_iff)
  note shape = comparable_shape [OF assms(1)]
  have "banked_differences 0 (quads (configuration profile)) (quads live) = []" using assms(2) shape(4) by simp
  then show ?thesis
    using banked_differences_Nil [of "quads (configuration profile)" "quads live" 0] v shape(1,2) assms(3,4)
    by (simp add: snapshot_wf_def valid_quad_numbers)
qed

lemma shown_wf: "shows_module c m \<Longrightarrow> snapshot_wf c"
  by (auto simp: shows_module_def snapshot_wf_def list_all_iff)

context supervised_capture
begin

lemma begin_fresh:
  assumes "base = baseAddress (expectedLiveConfiguration req)"
  shows "fresh_result (steps req) ((begin_result req)\<lparr>b_selectorParkedAtQuadZero := x, b_fullPreflightMatched := y\<rparr>)"
  unfolding fresh_result_def using assms by (simp add: begin_result_def planned_value_def pending_value_def)

lemma apply_exact:
  assumes run: "ApplyFw2051ScpProfile T req (Some gate) w = (res, w')"
    and base: "base = baseAddress (expectedLiveConfiguration req)" and wf: "snapshot_wf (expectedLiveConfiguration req)"
    and rt: "runtime = default_runtime"
  shows "if b_fullPreflightMatched res
    then bank_quads (banked (dev w)) = quads (expectedLiveConfiguration req)
      \<and> (b_state res = Passed \<longrightarrow> bank_quads (banked (dev w')) = apply_steps (quads (expectedLiveConfiguration req)) (steps req)
          \<and> selector (dev w') = 0 \<and> stopped (dev w'))
      \<and> (b_rollbackVerified res \<longrightarrow> banked (dev w') = banked (dev w) \<and> stopped (dev w'))
    else b_state res = ApplyFailed \<and> banked (dev w') = banked (dev w) \<and> global (dev w') = global (dev w)"
proof -
  let ?B = "banked (dev w)" and ?r = "begin_result req"
  have unmatched: "\<not> b_fullPreflightMatched ?r" by (simp add: begin_result_def)
  show ?thesis
  proof (cases "ValidateRequest req")
    case (Some e)
    then show ?thesis using run unmatched by (auto simp: ApplyFw2051ScpProfile_def Let_def)
  next
    case None
    obtain captured v where cap: "CaptureFw2051ScpConfiguration T base (Some gate) default_runtime w = (captured, v)"
      by (cases "CaptureFw2051ScpConfiguration T base (Some gate) default_runtime w")
    have b: "b_baseAddress ?r = base" using base by (simp add: begin_result_def)
    let ?live = "op_configuration captured"
    let ?cmp = "CompareFw2051ScpConfiguration \<lparr>formatVersion = Fw2051ScpProfileFormatVersion,
        configuration = expectedLiveConfiguration req\<rparr> ?live"
    have kept: "banked (dev v) = ?B" "global (dev v) = global (dev w)"
      using capture_changes_nothing [OF cap [folded rt]] by simp_all
    show ?thesis
    proof (cases "state ?live = Complete \<and> comparable ?cmp \<and> differences ?cmp = []")
      case False
      then have "w' = v" "\<not> b_fullPreflightMatched res" "b_state res = ApplyFailed"
        using run None unmatched by (auto simp: ApplyFw2051ScpProfile_def Let_def b cap split: if_splits)
      then show ?thesis using kept by simp
    next
      case True
      let ?r' = "?r\<lparr>b_selectorParkedAtQuadZero := selectorParkedAtQuadZero ?live, b_fullPreflightMatched := True\<rparr>"
      have tr: "apply_transaction T gate (steps req) ?r' v = (res, w')"
        using run None cap b True by (simp add: ApplyFw2051ScpProfile_def Let_def)
      have matched: "b_fullPreflightMatched res" using preflight_kept_transaction [of T gate "steps req" ?r' v] tr by simp
      have shown: "shows_module ?live (dev w)" using capture_exact [OF cap [folded rt]] True by blast
      then have same: "bank_quads ?B = quads (expectedLiveConfiguration req)"
        using preflight_match [of _ ?live] True wf shown_wf [OF shown] by (fastforce simp: shows_module_def bank_quads_def)
      have "replayable (bank_quads ?B) (steps req)"
        using None same by (auto simp: ValidateRequest_def validate_steps_iff split: option.splits if_splits sum.splits)
      note rep = replayable_bank [OF this]
      have "executable (banked (dev v)) (steps req)" using rep kept by simp
      note exact = transaction_exact [OF tr this begin_fresh [OF base]]
      show ?thesis using exact matched same rep kept(1) by (auto simp: bank_after_def)
    qed
  qed
qed

end

subsection \<open>Without failures the application passes\<close>

lemma mdpp_read_write [simp]: "mdpp_read (mdpp_write m r v) r = v"
  by (simp add: mdpp_read_def mdpp_write_def)

definition smooth :: "'w apply_run \<Rightarrow> bool" where
  "smooth s \<longleftrightarrow> ap_failure s = [] \<and> ownershipAvailable s"

lemma smooth_update [simp]:
  "smooth (update_result f s) = smooth s" "smooth (s\<lparr>selectedQuad := q\<rparr>) = smooth s" "smooth (s\<lparr>attemptedValueIndexes := xs\<rparr>) = smooth s"
  "smooth (snd (on_link g s)) = smooth s"
  by (simp_all add: smooth_def)

context responsive_capture
begin

lemma smooth_reverify [simp]:
  "smooth s \<Longrightarrow> fst (reverifyOwnership T gate n s)" "smooth s \<Longrightarrow> smooth (snd (reverifyOwnership T gate n s))"
  by (simp_all add: reverifyOwnership_def smooth_def case_prod_beta)

lemma answered_write [simp]: "fst (writeRegister T base r v b) = Inr ()"
  by (rule writes_return)

lemma answered_read_back: "fst (readRegister T base r (snd (writeRegister T base r v b))) = Inr v"
proof -
  obtain b' where w: "writeRegister T base r v b = (Inr (), b')" "dev (snd b') = mdpp_write (dev (snd b)) r v"
    by (rule write_answer)
  obtain b'' where "readRegister T base r b' = (Inr (mdpp_read (dev (snd b')) r), b'')" by (rule read_answer)
  with w show ?thesis by simp
qed

lemma smooth_stop:
  "smooth s \<Longrightarrow> smooth (stop_module T base gate s) \<and> b_moduleStopSent (ap_result (stop_module T base gate s))
    \<and> b_moduleStopVerified (ap_result (stop_module T base gate s))"
  by (simp add: stop_module_def case_prod_beta Let_def answered_read_back split: bool.split)

lemma smooth_select: "smooth s \<Longrightarrow> fst (select_quad T base gate n r q s) \<and> smooth (snd (select_quad T base gate n r q s))"
  by (simp add: select_quad_def case_prod_beta split: bool.split)

lemma smooth_write_step:
  "smooth s \<Longrightarrow> smooth (write_step T base gate i step s)
    \<and> b_writesVerified (ap_result (write_step T base gate i step s)) = b_writesVerified (ap_result s) + 1
    \<and> b_moduleStopSent (ap_result (write_step T base gate i step s)) = b_moduleStopSent (ap_result s)"
  by (simp add: write_step_def verify_step_def update_value_def case_prod_beta Let_def answered_read_back split: bool.split)

lemma smooth_apply_one:
  "smooth s \<Longrightarrow> smooth (apply_one T base gate i step s)
    \<and> b_writesVerified (ap_result (apply_one T base gate i step s)) = b_writesVerified (ap_result s) + 1
    \<and> b_moduleStopSent (ap_result (apply_one T base gate i step s)) = b_moduleStopSent (ap_result s)"
  using smooth_select [of s "bank_gate_name_for (s_quad step)" "''channel-quad selector''" "s_quad step"]
  by (auto simp: apply_one_def case_prod_beta smooth_write_step split: bool.split)

lemma smooth_apply_loop:
  "smooth s \<Longrightarrow> smooth (apply_loop T base gate i ss s)
    \<and> b_writesVerified (ap_result (apply_loop T base gate i ss s)) = b_writesVerified (ap_result s) + length ss
    \<and> b_moduleStopSent (ap_result (apply_loop T base gate i ss s)) = b_moduleStopSent (ap_result s)"
proof (induction ss arbitrary: i s)
  case (Cons step ss)
  then have "ap_failure s = [] \<and> ownershipAvailable s" by (simp add: smooth_def)
  with Cons.IH [of "apply_one T base gate i step s" "Suc i"] smooth_apply_one [OF Cons.prems] show ?case by simp
qed simp

lemma smooth_conclude:
  assumes "smooth s" "b_moduleStopVerified (ap_result s)" "b_writesVerified (ap_result s) = b_plannedWrites (ap_result s)"
  shows "ap_failure (conclude T base gate s) = []" "ap_result (conclude T base gate s) = (ap_result s)
      \<lparr>b_profileValuesRetained := True, b_selectorParkedAtQuadZero := True, b_fifoResetSent := True, b_readoutResetSent := True\<rparr>"
proof -
  let ?t = "parkSelector T base gate (update_result (b_profileValuesRetained_update (\<lambda>_. True)) s)"
  have t: "smooth ?t" "ap_result ?t = (ap_result s)\<lparr>b_profileValuesRetained := True, b_selectorParkedAtQuadZero := True\<rparr>"
    using assms(1) by (simp_all add: parkSelector_def case_prod_beta split: bool.split) (simp_all add: smooth_def)
  have "smooth (resetReadout T base gate ?t) \<and> ap_result (resetReadout T base gate ?t) = (ap_result ?t)\<lparr>b_fifoResetSent := True, b_readoutResetSent := True\<rparr>"
    using t assms(2) by (simp add: resetReadout_def case_prod_beta Let_def split: bool.split) (simp add: smooth_def)
  then show "ap_failure (conclude T base gate s) = []" "ap_result (conclude T base gate s) = (ap_result s)
      \<lparr>b_profileValuesRetained := True, b_selectorParkedAtQuadZero := True, b_fifoResetSent := True, b_readoutResetSent := True\<rparr>"
    using assms t by (simp_all add: conclude_def Let_def smooth_def)
qed

lemma transaction_passes:
  assumes "b_baseAddress r = base" "b_fullPreflightMatched r" "b_plannedWrites r = length ss" "b_writesVerified r = 0"
  shows "b_state (fst (apply_transaction T gate ss r w)) = Passed"
proof -
  define s1 where "s1 = stop_module T base gate (begin_apply r w)"
  define s2 where "s2 = apply_loop T base gate 0 ss s1"
  have s0: "smooth (begin_apply r w)" by (simp add: smooth_def begin_apply_def)
  have kept: "b_plannedWrites (ap_result s1) = length ss" "b_writesVerified (ap_result s1) = 0" "b_fullPreflightMatched (ap_result s1)"
    using assms by (auto simp: s1_def begin_apply_def stop_module_def Let_def case_prod_beta split: sum.split bool.split)
  note one = smooth_stop [OF s0, folded s1_def]
  have two: "smooth s2" "b_writesVerified (ap_result s2) = length ss" "b_moduleStopSent (ap_result s2)"
    using smooth_apply_loop [of s1 0 ss] one kept by (simp_all add: s2_def)
  have fixed: "b_moduleStopVerified (ap_result s2)" "b_plannedWrites (ap_result s2) = length ss" "b_fullPreflightMatched (ap_result s2)"
    using fixed_apply_loop [of T base gate 0 ss s1] one kept by (simp_all add: fixed_fields_def s2_def)
  note three = smooth_conclude [OF two(1) fixed(1)]
  show ?thesis
    using two three fixed assms(1)
    by (simp add: apply_transaction_def Let_def roll_back_def apply_finish_def s1_def [symmetric] s2_def [symmetric])
qed

end

lemma capture_complete_parked:
  assumes "CaptureFw2051ScpConfiguration T base g rt w = (op, w')" "state (op_configuration op) = Complete"
  shows "selectorParkedAtQuadZero (op_configuration op)"
  using assms by (auto simp: CaptureFw2051ScpConfiguration_def refuse_capture_def finish_def default_snapshot_def Let_def
      split: if_splits option.splits prod.splits)

lemma shown_valid:
  assumes "shows_module c m" "state c = Complete" "selectorParkedAtQuadZero c" "baseAddress c \<noteq> 0"
    and "IsSupportedMdpp32HardwareId (global m 0x6008)" "global m 0x600E = Mdpp32ScpFirmwareRevisionFw2051"
  shows "ValidateFw2051ScpConfiguration c = None"
  using assms by (simp add: validate_ok_iff shows_module_def unat_of_nat)

context responsive_capture
begin

lemma apply_passes:
  assumes "runtime = default_runtime" "base = baseAddress (expectedLiveConfiguration req)" "base AND 0xFFFF = 0"
    and "ValidateRequest req = None" "shows_module (expectedLiveConfiguration req) (dev w)"
    and "IsWriteApprovedMdpp32HardwareId (global (dev w) 0x6008)"
  shows "b_state (fst (ApplyFw2051ScpProfile T req (Some gate) w)) = Passed"
proof -
  let ?e = "expectedLiveConfiguration req" and ?r = "begin_result req"
  have valid: "ValidateFw2051ScpConfiguration ?e = None" using assms(4) by (auto simp: ValidateRequest_def split: option.splits)
  then have fw: "global (dev w) 0x600E = Mdpp32ScpFirmwareRevisionFw2051" "base \<noteq> 0"
    using assms(2,5) by (auto simp: validate_ok_iff shows_module_def)
  obtain captured v where cap: "CaptureFw2051ScpConfiguration T base (Some gate) default_runtime w = (captured, v)"
    by (cases "CaptureFw2051ScpConfiguration T base (Some gate) default_runtime w")
  let ?live = "op_configuration captured"
  have complete: "state ?live = Complete" using capture_completes [OF assms(3,6) fw(1)] cap assms(1) by simp
  then have shown: "shows_module ?live (dev w)" "baseAddress ?live = base"
    using capture_exact [OF cap [folded assms(1)]] by blast+
  have "ValidateFw2051ScpConfiguration ?live = None"
    using shown_valid [OF shown(1) complete capture_complete_parked [OF cap complete]] shown(2) fw assms(6)
    by (simp add: write_approved_supported)
  note cmp = compare_eq [of "\<lparr>formatVersion = Fw2051ScpProfileFormatVersion, configuration = ?e\<rparr>", simplified, OF valid this]
  have "quads ?live = quads ?e" using shown(1) assms(5) by (simp add: shows_module_def)
  then have "banked_differences 0 (quads ?e) (quads ?live) = []"
    using banked_differences_Nil [of "quads ?e" "quads ?e" 0] shown_wf [OF assms(5)] by (simp add: snapshot_wf_def)
  moreover have "global_differences ?e ?live = []"
    using shown assms(2,5) by (simp add: global_differences_Nil shows_module_def)
  ultimately have "ApplyFw2051ScpProfile T req (Some gate) w = apply_transaction T gate (steps req)
      (?r\<lparr>b_selectorParkedAtQuadZero := selectorParkedAtQuadZero ?live, b_fullPreflightMatched := True\<rparr>) v"
    using assms(2,4) cap complete cmp by (simp add: ApplyFw2051ScpProfile_def Let_def begin_result_def)
  then show ?thesis using assms(2) by (simp add: transaction_passes begin_result_def)
qed

end

subsection \<open>On the wire\<close>

text \<open>The writes a request stands for: its steps and their undoing, the selector, and three commands.\<close>

definition apply_may_write :: "ScpProfileApplicationStep list \<Rightarrow> u16 \<Rightarrow> u16 \<Rightarrow> bool" where
  "apply_may_write ss r v \<longleftrightarrow> r = Fw2051ScpSelectorRegister \<and> v < 8
     \<or> r = Fw2051AcquisitionControlRegister \<and> v = Fw2051StopAcquisitionValue
     \<or> r \<in> {Fw2051FifoResetRegister, Fw2051ReadoutResetRegister} \<and> v = Fw2051ResetCommandValue
     \<or> (\<exists>step \<in> set ss. r = s_registerOffset step \<and> v \<in> {s_profileValue step, s_expectedValue step})"

interpretation apply_wire: capture_world "observed T" base "\<lambda>n. unobserved (gate n)" "unobserved_runtime runtime" "apply_may_write ss"
    "\<lambda>wl. only_permitted base (apply_may_write ss) (snd wl)"
  for T :: "'w transport" and base and gate :: "'w gate" and runtime and ss
  unfolding capture_world_def unobserved_runtime_calls capture_world_axioms_def
  by (intro conjI wire.world_invariant_axioms) (simp add: apply_may_write_def)

lemma unobserved_default [simp]: "unobserved_runtime default_runtime = default_runtime"
  by (simp add: unobserved_runtime_def default_runtime_def)

lemma apply_wire_entitled:
  assumes "list_all (\<lambda>s. 0 \<le> s_quad s \<and> s_quad s < 8) ss"
  shows "apply_wire.commands_allowed ss" "list_all (apply_wire.entitled ss) ss"
  using assms by (auto simp: apply_wire.commands_allowed_def apply_wire.entitled_def apply_may_write_def list_all_iff)

lemma replayable_in_range: "replayable qs ss \<Longrightarrow> list_all (\<lambda>s. 0 \<le> s_quad s \<and> s_quad s < int (length qs)) ss"
proof (induction ss arbitrary: qs)
  case (Cons step ss)
  then show ?case using Cons.IH [of "apply_step qs step"] by (auto simp: step_applies_def)
qed simp

lemma apply_permitted:
  fixes T :: "'w transport" and gate :: "'w gate"
  assumes run: "ApplyFw2051ScpProfile (observed T) req (Some (\<lambda>n. unobserved (gate n))) (w, []) = (res, w', es)"
  shows "only_permitted (baseAddress (expectedLiveConfiguration req)) (apply_may_write (steps req)) es"
proof -
  let ?base = "baseAddress (expectedLiveConfiguration req)" and ?ss = "steps req" and ?gate = "\<lambda>n. unobserved (gate n)"
  have none: "only_permitted ?base (apply_may_write ?ss) []" by (simp add: only_permitted_def)
  show ?thesis
  proof (cases "ValidateRequest req")
    case (Some e)
    then show ?thesis using run none by (simp add: ApplyFw2051ScpProfile_def Let_def)
  next
    case None
    then have "list_all (\<lambda>s. 0 \<le> s_quad s \<and> s_quad s < 8) ?ss"
      using replayable_in_range [of "quads (expectedLiveConfiguration req)" ?ss]
      by (auto simp: ValidateRequest_def validate_steps_iff validate_ok_iff split: option.splits if_splits sum.splits)
    note ent = apply_wire_entitled [OF this]
    obtain captured v l where cap: "CaptureFw2051ScpConfiguration (observed T) ?base (Some ?gate) default_runtime (w, []) = (captured, v, l)"
      by (cases "CaptureFw2051ScpConfiguration (observed T) ?base (Some ?gate) default_runtime (w, [])") auto
    have l: "only_permitted ?base (apply_may_write ?ss) l"
      using apply_wire.capture_keeps [of T ?base gate default_runtime "(w, [])" captured "(v, l)" ?ss] cap none by simp
    have tr: "apply_transaction (observed T) ?gate ?ss r (v, l) = (res, w', es) \<Longrightarrow> b_baseAddress r = ?base \<Longrightarrow>
        b_values r = map pending_value ?ss \<Longrightarrow> only_permitted ?base (apply_may_write ?ss) es" for r
      using apply_wire.transaction_linked [OF ent, of r ?base "(v, l)" T gate] l
      by (simp add: planned_value_def pending_value_def)
    show ?thesis
      using run None cap l tr
      by (auto simp: ApplyFw2051ScpProfile_def Let_def begin_result_def split: if_splits)
  qed
qed

subsection \<open>Properties\<close>

text \<open>A simulated module that shows the sample configuration.\<close>

definition live_mdpp :: mdpp where
  "live_mdpp = \<lparr>selector = 5, banked = (\<lambda>i r. the (Fw2051ScpQuadRegisterValue (sample_quad (unat i)) r)),
     global = (\<lambda>r. if r = 0x6008 then Mdpp32HardwareId else if r = 0x600E then Mdpp32ScpFirmwareRevisionFw2051
       else if r = 0x6010 then 1 else if r = 0x6044 then 0x0018 else 0)\<rparr>"

definition live_sim :: sim where
  "live_sim = \<lparr>sim_module = live_mdpp, sim_reference = 0, sim_operations = [], sim_replies = []\<rparr>"

definition sample_request :: ScpProfileApplicationRequest where
  "sample_request = request (PlanFw2051ScpProfileApplication sample_profile sample_live)"

lemma sample_quad_wf: "quad_wf (sample_quad i)"
  by (simp add: sample_quad_def quad_wf_def)

lemma live_mdpp_quads: "i < 8 \<Longrightarrow> quad_of (banked live_mdpp) (of_nat i) = sample_quad i"
proof (rule scp_bank.bank_ext)
  assume i: "i < 8"
  show "Fw2051ScpQuadRegisterValue (quad_of (banked live_mdpp) (of_nat i)) r = Fw2051ScpQuadRegisterValue (sample_quad i) r" for r
    using i quad_register_mapped [of "sample_quad i" r]
    by (cases "r \<in> set fw2051_registers") (auto simp: quad_of_register scp_bank.get_unmapped live_mdpp_def unat_of_nat)
qed (simp_all add: sample_quad_wf, simp add: sample_quad_def)

lemma live_shown: "shows_module sample_live (sim_module live_sim)"
proof -
  have "map (\<lambda>i. quad_of (banked live_mdpp) (of_nat i)) [0..<8] = quads sample_live"
    by (simp add: live_mdpp_quads sample_live_def)
  then show ?thesis unfolding shows_module_def by (simp add: live_sim_def) (simp add: live_mdpp_def sample_live_def)
qed

lemma live_approved: "IsWriteApprovedMdpp32HardwareId (global (sim_module live_sim) 0x6008)"
  by (simp add: live_sim_def live_mdpp_def IsWriteApprovedMdpp32HardwareId_def Mdpp32WriteApprovedHardwareIds_def Mdpp32HardwareId_def)

lemma sample_request_fields: "expectedLiveConfiguration sample_request = sample_live"
    "steps sample_request = plan_steps 0 (quads sample_target) (quads sample_live)" "steps sample_request \<noteq> []"
    "apply_steps (quads sample_live) (steps sample_request) = quads sample_target"
proof -
  show f: "expectedLiveConfiguration sample_request = sample_live"
      "steps sample_request = plan_steps 0 (quads sample_target) (quads sample_live)"
    using plan_when_plannable [OF sample_plannable] by (simp_all add: sample_request_def sample_profile_def Let_def)
  show a: "apply_steps (quads sample_live) (steps sample_request) = quads sample_target"
    using apply_plan_steps [OF plannable_shape(1-4) [OF sample_plannable], of "[]"] sample_wf f(2) by (simp add: sample_profile_def)
  show "steps sample_request \<noteq> []" using a sample_moves by auto
qed

lemma sample_request_valid: "ValidateRequest sample_request = None"
  using planned_request_validates [OF sample_plannable] sample_wf sample_request_fields(3)
  by (simp add: sample_request_def sample_profile_def)

abbreviation sample_base :: u32 where
  "sample_base \<equiv> 0x01000000"

lemma sample_passes: "b_state (fst (ApplyFw2051ScpProfile (simulated sample_base) sample_request (Some allow_all) live_sim)) = Passed"
  by (rule sim.apply_passes)
    (simp_all add: sample_request_valid sample_request_fields live_shown live_approved, simp_all add: sample_live_def)

text \<open>
  (C2) Applying a request to an honest module over a link on which any access may fail. Unless
  the preflight matched, the operation failed and no register but the selector changed. When
  it matched, the module's settings were those the request expects; a passed application has
  written exactly the request's steps, left acquisition stopped and the selector at quad 0;
  and an application that reports a verified rollback has restored every setting and left
  acquisition stopped.
\<close>
theorem apply_outcome:
  assumes "supervised_capture T base dev gate default_runtime"
    and "ApplyFw2051ScpProfile T req (Some gate) w = (res, w')"
    and "base = baseAddress (expectedLiveConfiguration req)" "snapshot_wf (expectedLiveConfiguration req)"
  shows "if b_fullPreflightMatched res
    then bank_quads (banked (dev w)) = quads (expectedLiveConfiguration req)
      \<and> (b_state res = Passed \<longrightarrow> bank_quads (banked (dev w')) = apply_steps (quads (expectedLiveConfiguration req)) (steps req)
          \<and> selector (dev w') = 0 \<and> global (dev w') Fw2051AcquisitionControlRegister = Fw2051StopAcquisitionValue)
      \<and> (b_rollbackVerified res \<longrightarrow> banked (dev w') = banked (dev w)
          \<and> global (dev w') Fw2051AcquisitionControlRegister = Fw2051StopAcquisitionValue)
    else b_state res = ApplyFailed \<and> banked (dev w') = banked (dev w) \<and> global (dev w') = global (dev w)"
  using supervised_capture.apply_exact [OF assms refl] .

theorem apply_outcome_witness:
  "\<exists>res w'. ApplyFw2051ScpProfile (simulated sample_base) sample_request (Some allow_all) live_sim = (res, w')
    \<and> b_state res = Passed \<and> bank_quads (banked (sim_module w')) = quads sample_target \<and> selector (sim_module w') = 0"
proof -
  obtain res w' where run: "ApplyFw2051ScpProfile (simulated sample_base) sample_request (Some allow_all) live_sim = (res, w')"
    by (cases "ApplyFw2051ScpProfile (simulated sample_base) sample_request (Some allow_all) live_sim")
  moreover have "b_state res = Passed" using sample_passes run by simp
  ultimately show ?thesis
    using apply_outcome [OF sim.supervised_capture_axioms run] sample_request_fields sample_wf
    by (auto simp: sample_live_def split: if_splits)
qed

text \<open>
  (C1) Planner and application together: when the plan of a profile against a snapshot succeeded
  and its application passed, over a link on which any access may fail, the module's settings
  are exactly the profile's, whatever they had been, and acquisition is stopped.
\<close>
theorem apply_installs_profile:
  assumes "supervised_capture T base dev gate default_runtime"
    and "plan_success (PlanFw2051ScpProfileApplication profile live)" "base = baseAddress live"
    and "snapshot_wf (configuration profile)" "snapshot_wf live"
    and "ApplyFw2051ScpProfile T (request (PlanFw2051ScpProfileApplication profile live)) (Some gate) w = (res, w')"
    and "b_state res = Passed"
  shows "bank_quads (banked (dev w')) = quads (configuration profile)
    \<and> global (dev w') Fw2051AcquisitionControlRegister = Fw2051StopAcquisitionValue"
proof -
  have p: "plannable profile live" using assms(2) by (simp add: plan_success_plannable)
  have "expectedLiveConfiguration (request (PlanFw2051ScpProfileApplication profile live)) = live"
    using plan_when_plannable [OF p] by (simp add: Let_def)
  with supervised_capture.apply_exact [OF assms(1,6)] assms(3,5,7)
    apply_plan_steps [OF plannable_shape(1-4) [OF p assms(4,5)], of "[]"] plan_steps_planned [OF assms(2)]
  show ?thesis by (auto split: if_splits)
qed

theorem apply_installs_profile_witness:
  "bank_quads (banked (sim_module (snd (ApplyFw2051ScpProfile (simulated sample_base)
     (request (PlanFw2051ScpProfileApplication sample_profile sample_live)) (Some allow_all) live_sim)))) = quads sample_target"
proof -
  obtain res w' where run: "ApplyFw2051ScpProfile (simulated sample_base)
      (request (PlanFw2051ScpProfileApplication sample_profile sample_live)) (Some allow_all) live_sim = (res, w')"
    by (cases "ApplyFw2051ScpProfile (simulated sample_base)
      (request (PlanFw2051ScpProfileApplication sample_profile sample_live)) (Some allow_all) live_sim")
  have "b_state res = Passed" using sample_passes run by (simp add: sample_request_def)
  from apply_installs_profile [OF sim.supervised_capture_axioms sample_plan_success _ _ sample_wf(1) run this] sample_wf(2) run
  show ?thesis by (simp add: sample_profile_def sample_live_def)
qed

text \<open>
  (C16) A planned application comes back and passes: on an answering module at an aligned base
  that shows the planned snapshot, with approved hardware and a caller that allows every
  step, the request of a successful plan with at least one step is accepted and \<open>Passed\<close>.
\<close>
theorem planned_application_passes:
  assumes "responsive_capture T base dev gate default_runtime"
    and "plan_success (PlanFw2051ScpProfileApplication profile live)" "quads live \<noteq> quads (configuration profile)"
    and "snapshot_wf (configuration profile)" "shows_module live (dev w)" "base = baseAddress live" "base AND 0xFFFF = 0"
    and "IsWriteApprovedMdpp32HardwareId (global (dev w) 0x6008)"
  shows "b_state (fst (ApplyFw2051ScpProfile T (request (PlanFw2051ScpProfileApplication profile live)) (Some gate) w)) = Passed"
proof -
  let ?req = "request (PlanFw2051ScpProfileApplication profile live)"
  have p: "plannable profile live" using assms(2) by (simp add: plan_success_plannable)
  have wf: "snapshot_wf live" using assms(5) by (rule shown_wf)
  have e: "expectedLiveConfiguration ?req = live" using plan_when_plannable [OF p] by (simp add: Let_def)
  have "steps ?req \<noteq> []"
    using apply_plan_steps [OF plannable_shape(1-4) [OF p assms(4) wf], of "[]"] plan_steps_planned [OF assms(2)] assms(3) by auto
  then have "ValidateRequest ?req = None" using planned_request_validates [OF p assms(4) wf] by simp
  then show ?thesis using assms e by (intro responsive_capture.apply_passes [OF assms(1)]) simp_all
qed

theorem planned_application_passes_witness:
  "b_state (fst (ApplyFw2051ScpProfile (simulated sample_base) (request (PlanFw2051ScpProfileApplication sample_profile sample_live))
     (Some allow_all) live_sim)) = Passed"
  using planned_application_passes [OF sim.responsive_capture_axioms sample_plan_success _ _ live_shown _ _ live_approved] sample_wf(2) sample_moves
  by (simp add: sample_profile_def) (simp add: sample_live_def)

text \<open>
  On every transport, answering or not, an application puts nothing on the wire but reads of
  the module, triggers, selector writes with a quad number, the stop and reset commands, and,
  for the registers its steps name, the value a step installs or the one it replaces.
\<close>
theorem apply_sends_only_planned_writes:
  assumes "ApplyFw2051ScpProfile (observed T) req (Some (\<lambda>n. unobserved (gate n))) (w, []) = (res, w', es)"
  shows "\<forall>bytes \<in> set (sends es).
     (\<exists>u k r. bytes = upload_bytes (EncodeMvlcVmeReadD16Words (baseAddress (expectedLiveConfiguration req) + ucast (r :: u16))) u k)
     \<or> (\<exists>u k r v. apply_may_write (steps req) r v
          \<and> bytes = upload_bytes (EncodeMvlcVmeWriteD16Words (baseAddress (expectedLiveConfiguration req) + ucast r) v) u k)
     \<or> (\<exists>u. bytes = execute_bytes u)"
  using apply_permitted [OF assms] by (auto simp: only_permitted_def list_all_iff permitted_def)

theorem apply_sends_only_planned_writes_witness:
  "\<exists>res w' es. ApplyFw2051ScpProfile (observed (simulated sample_base)) sample_request (Some (\<lambda>n. unobserved (allow_all n))) (live_sim, [])
       = (res, w', es)
    \<and> (\<forall>bytes \<in> set (sends es).
     (\<exists>u k r. bytes = upload_bytes (EncodeMvlcVmeReadD16Words (baseAddress (expectedLiveConfiguration sample_request) + ucast (r :: u16))) u k)
     \<or> (\<exists>u k r v. apply_may_write (steps sample_request) r v
          \<and> bytes = upload_bytes (EncodeMvlcVmeWriteD16Words (baseAddress (expectedLiveConfiguration sample_request) + ucast r) v) u k)
     \<or> (\<exists>u. bytes = execute_bytes u))"
proof -
  obtain res w' es where run: "ApplyFw2051ScpProfile (observed (simulated sample_base)) sample_request
      (Some (\<lambda>n. unobserved (allow_all n))) (live_sim, []) = (res, w', es)"
    by (cases "ApplyFw2051ScpProfile (observed (simulated sample_base)) sample_request (Some (\<lambda>n. unobserved (allow_all n))) (live_sim, [])") auto
  with apply_sends_only_planned_writes [OF run] show ?thesis by blast
qed

end
