(* ===== verification/Scp_Single_Repair.thy ===== *)
theory Scp_Single_Repair
  imports Scp_Apply_Outcome
begin

text \<open>
  Repairing one value, \<^verbatim>\<open>hardware/ScpSingleRepairOperation.cpp\<close>: check the request and the
  module's identity, stop acquisition unless it is stopped, select the quad, check the value the
  register depends on and the value it holds, write and read back, put the captured value back
  when that failed, park, reset, and verify that the module is still stopped. The blocks of the
  function are definitions on its local state, in the order of the source.
\<close>

subsection \<open>Request and result\<close>

datatype ScpSingleRepairState = RepairNotRun | RepairApplying | RepairPassed | RepairFailed

record ScpSingleRepairRequest =
  rq_baseAddress :: u32
  rq_quad :: u16
  rq_registerOffset :: u16
  rq_expectedLiveValue :: u16
  rq_profileValue :: u16

datatype repair_refusal = RepairBaseNotAligned | RepairQuadOutOfRange | RepairRegisterUnavailable | RepairValueError scp_value_error

text \<open>The texts of the result, with the texts they are built from.\<close>

datatype repair_message =
    RepairVerifying
  | RepairRefused repair_refusal
  | RepairWithoutGate
  | RepairRetained string
  | RepairRestored string bool
  | RepairLeftStopped string
  | RepairUnchecked
  | RepairFailure string

record ScpSingleRepairResult =
  p_state :: ScpSingleRepairState
  p_message :: repair_message
  p_settingName :: string
  p_dependencyName :: string
  p_baseAddress :: u32
  p_selectedQuad :: u16
  p_registerOffset :: u16
  p_expectedLiveValue :: u16
  p_profileValue :: u16
  p_capturedLiveValue :: u16
  p_appliedReadback :: u16
  p_rollbackReadback :: u16
  p_dependencyValue :: u16
  p_dependencyChecked :: bool
  p_liveValueCaptured :: bool
  p_moduleStopSent :: bool
  p_moduleStopVerified :: bool
  p_writeAttempted :: bool
  p_writeVerified :: bool
  p_rollbackAttempted :: bool
  p_rollbackVerified :: bool
  p_selectorParkedAtQuadZero :: bool
  p_fifoResetSent :: bool
  p_readoutResetSent :: bool
  p_moduleLeftStopped :: bool
  p_communicationUnavailable :: bool
  p_profileValueRetained :: bool

definition begin_repair_result :: "ScpSingleRepairRequest \<Rightarrow> ScpSingleRepairResult" where
  "begin_repair_result req = \<lparr>p_state = RepairApplying, p_message = RepairVerifying,
     p_settingName = (case FindFw2051ScpSetting (rq_registerOffset req) of Some d \<Rightarrow> name d | None \<Rightarrow> ''Unsupported SCP parameter''),
     p_dependencyName = [], p_baseAddress = rq_baseAddress req, p_selectedQuad = rq_quad req,
     p_registerOffset = rq_registerOffset req, p_expectedLiveValue = rq_expectedLiveValue req, p_profileValue = rq_profileValue req,
     p_capturedLiveValue = 0, p_appliedReadback = 0, p_rollbackReadback = 0, p_dependencyValue = 0, p_dependencyChecked = False,
     p_liveValueCaptured = False, p_moduleStopSent = False, p_moduleStopVerified = False, p_writeAttempted = False,
     p_writeVerified = False, p_rollbackAttempted = False, p_rollbackVerified = False, p_selectorParkedAtQuadZero = False,
     p_fifoResetSent = False, p_readoutResetSent = False, p_moduleLeftStopped = False, p_communicationUnavailable = False,
     p_profileValueRetained = False\<rparr>"

definition refuse_repair :: "ScpSingleRepairRequest \<Rightarrow> repair_refusal option" where
  "refuse_repair req =
    (if rq_baseAddress req AND 0xFFFF \<noteq> 0 then Some RepairBaseNotAligned
     else if unat (rq_quad req) \<ge> Fw2051ScpQuadCount then Some RepairQuadOutOfRange
     else if FindFw2051ScpSetting (rq_registerOffset req) = None then Some RepairRegisterUnavailable
     else map_option RepairValueError (ValidateFw2051ScpProfileValue (rq_registerOffset req) (rq_profileValue req)))"

subsection \<open>The local state and the closures\<close>

record 'w repair =
  rp_result :: ScpSingleRepairResult
  rp_failure :: string
  rp_ownershipAvailable :: bool
  selectorWasWritten :: bool
  rp_bus :: "'w bus"

definition repair_references :: references where
  "repair_references = \<lparr>nextSuperReference = 0x3A00, nextStackReference = 0x9D100001\<rparr>"

definition FrontendSettleTime :: nat where "FrontendSettleTime = 20"

definition on_repair :: "('w bus \<Rightarrow> 'a \<times> 'w bus) \<Rightarrow> 'w repair \<Rightarrow> 'a \<times> 'w repair" where
  "on_repair f s = (case f (rp_bus s) of (a, b) \<Rightarrow> (a, s\<lparr>rp_bus := b\<rparr>))"

definition rp_append :: "string \<Rightarrow> 'w repair \<Rightarrow> 'w repair" where
  "rp_append text s = s\<lparr>rp_failure := append_text (rp_failure s) text\<rparr>"

definition rp_note :: "(ScpSingleRepairResult \<Rightarrow> ScpSingleRepairResult) \<Rightarrow> 'w repair \<Rightarrow> 'w repair" where
  "rp_note f s = s\<lparr>rp_result := f (rp_result s)\<rparr>"

definition repair_delay :: "(nat \<Rightarrow> 'w \<Rightarrow> 'w) option \<Rightarrow> nat \<Rightarrow> 'w \<Rightarrow> 'w" where
  "repair_delay settleDelay duration w = (case settleDelay of Some f \<Rightarrow> f duration w | None \<Rightarrow> w)"

definition waitForSettle :: "(nat \<Rightarrow> 'w \<Rightarrow> 'w) option \<Rightarrow> nat \<Rightarrow> 'w repair \<Rightarrow> 'w repair" where
  "waitForSettle settleDelay duration s = s\<lparr>rp_bus := (fst (rp_bus s), repair_delay settleDelay duration (snd (rp_bus s)))\<rparr>"

definition repair_cancelled_text :: string where
  "repair_cancelled_text = ''The SCP profile repair was cancelled.''"

definition repair_unowned_text :: string where
  "repair_unowned_text = ''Ownership could not be verified for the SCP profile repair.''"

definition repair_gate_message :: "'w transport \<Rightarrow> ScpCaptureGateResult \<Rightarrow> 'w bus \<Rightarrow> string \<times> 'w bus" where
  "repair_gate_message transport g b =
    (if g_message g \<noteq> [] then (g_message g, b)
     else case call (t_cancelled transport) b of (c, b) \<Rightarrow> (if c then repair_cancelled_text else repair_unowned_text, b))"

definition rp_reverify :: "'w transport \<Rightarrow> 'w gate \<Rightarrow> string \<Rightarrow> 'w repair \<Rightarrow> bool \<times> 'w repair" where
  "rp_reverify transport gate operationName s =
    (if \<not> rp_ownershipAvailable s then (False, s)
     else case on_repair (call (gate operationName)) s of (g, s) \<Rightarrow>
       if g_status g = Allowed then (True, s)
       else (let s = (rp_note (p_communicationUnavailable_update (\<lambda>_. g_status g = CommunicationUnavailable)) s)
                   \<lparr>rp_ownershipAvailable := False\<rparr> in
             case on_repair (repair_gate_message transport g) s of (text, s) \<Rightarrow> (False, rp_append text s)))"

text \<open>
  A register access whose failure is appended under an operation and a name; every access of
  the function has this form.
\<close>

definition rp_read :: "'w transport \<Rightarrow> u32 \<Rightarrow> string \<Rightarrow> string \<Rightarrow> u16 \<Rightarrow> 'w repair \<Rightarrow> u16 option \<times> 'w repair" where
  "rp_read transport base operation nm offset s =
    (case on_repair (readRegister transport base offset) s of
       (Inl e, s) \<Rightarrow> (None, rp_append (RegisterOperationError operation nm offset e) s)
     | (Inr v, s) \<Rightarrow> (Some v, s))"

definition rp_write :: "'w transport \<Rightarrow> u32 \<Rightarrow> string \<Rightarrow> string \<Rightarrow> u16 \<Rightarrow> u16 \<Rightarrow> 'w repair \<Rightarrow> bool \<times> 'w repair" where
  "rp_write transport base operation nm offset v s =
    (case on_repair (writeRegister transport base offset v) s of
       (Inl e, s) \<Rightarrow> (False, rp_append (RegisterOperationError operation nm offset e) s)
     | (Inr _, s) \<Rightarrow> (True, s))"

subsection \<open>Before the write\<close>

definition repair_identity :: "'w transport \<Rightarrow> u32 \<Rightarrow> 'w repair \<Rightarrow> 'w repair" where
  "repair_identity transport base s =
    (let s = (case rp_read transport base ''read'' ''hardware ID'' HardwareIdRegister s of
         (None, s) \<Rightarrow> s
       | (Some hw, s) \<Rightarrow>
         if \<not> IsWriteApprovedMdpp32HardwareId hw
         then rp_append (if hw = Mdpp32AlternateHardwareId then ''MDPP-32 v2 repair writes await recorded hardware acceptance.''
           else ''The target does not identify as a write-approved MDPP-32 module.'') s
         else s)
     in if rp_failure s \<noteq> [] then s
        else case rp_read transport base ''read'' ''firmware revision'' FirmwareRevisionRegister s of
          (None, s) \<Rightarrow> s
        | (Some fw, s) \<Rightarrow>
          if fw \<noteq> Mdpp32ScpFirmwareRevisionFw2051
          then rp_append ''The target does not report supported SCP FW2051 firmware; the SCP profile value was not applied.'' s
          else s)"

definition repair_stop :: "'w transport \<Rightarrow> u32 \<Rightarrow> 'w gate \<Rightarrow> 'w repair \<Rightarrow> 'w repair" where
  "repair_stop transport base gate s =
    (if rp_failure s \<noteq> [] then s
     else case rp_read transport base ''read'' ''acquisition enable'' Fw2051AcquisitionControlRegister s of
       (None, s) \<Rightarrow> s
     | (Some acquisitionState, s) \<Rightarrow>
       if acquisitionState = Fw2051StopAcquisitionValue then rp_note (p_moduleStopVerified_update (\<lambda>_. True)) s
       else (case rp_reverify transport gate ''the SCP profile module stop'' s of
         (False, s) \<Rightarrow> s
       | (True, s) \<Rightarrow>
         (case rp_write transport base ''write'' ''stop acquisition'' Fw2051AcquisitionControlRegister Fw2051StopAcquisitionValue s of
            (False, s) \<Rightarrow> s
          | (True, s) \<Rightarrow>
            (case rp_read transport base ''verify'' ''stopped acquisition'' Fw2051AcquisitionControlRegister
                    (rp_note (p_moduleStopSent_update (\<lambda>_. True)) s) of
               (None, s) \<Rightarrow> s
             | (Some stopReadback, s) \<Rightarrow>
               if stopReadback \<noteq> Fw2051StopAcquisitionValue
               then rp_append (''Acquisition-enable readback was '' @ decimal (unat stopReadback)
                      @ '', expected zero after Stop. No further write was sent.'') s
               else rp_note (p_moduleStopVerified_update (\<lambda>_. True)) s))))"

definition repair_select :: "'w transport \<Rightarrow> u32 \<Rightarrow> 'w gate \<Rightarrow> (nat \<Rightarrow> 'w \<Rightarrow> 'w) option \<Rightarrow> u16 \<Rightarrow> 'w repair \<Rightarrow> 'w repair" where
  "repair_select transport base gate settleDelay q s =
    (if rp_failure s \<noteq> [] \<or> \<not> p_moduleStopVerified (rp_result s) then s
     else case rp_reverify transport gate ''the SCP profile bank selection'' s of
       (False, s) \<Rightarrow> s
     | (True, s) \<Rightarrow>
       (case rp_write transport base ''write'' ''channel-quad selector'' Fw2051ScpSelectorRegister q s of
          (False, s) \<Rightarrow> s
        | (True, s) \<Rightarrow> waitForSettle settleDelay SelectorSettleTime (s\<lparr>selectorWasWritten := True\<rparr>)))"

definition dependency_text :: "string \<Rightarrow> Fw2051ScpDependencyRule \<Rightarrow> string \<Rightarrow> u16 \<Rightarrow> u16 \<Rightarrow> string" where
  "dependency_text setting rule dependency profile live =
     ''The profile '' @ setting @ '' must be '' @ Fw2051ScpDependencyRelation rule @ '' the live '' @ dependency
     @ '' (profile '' @ decimal (unat profile) @ '', live '' @ decimal (unat live) @ ''); no profile write was sent.''"

definition repair_dependency :: "'w transport \<Rightarrow> u32 \<Rightarrow> Fw2051ScpSettingDefinition \<Rightarrow> u16 \<Rightarrow> 'w repair \<Rightarrow> 'w repair" where
  "repair_dependency transport base d profileValue s =
    (if rp_failure s \<noteq> [] \<or> dependencyRule d = NoDependency then s
     else case rp_read transport base ''read'' (dependencyName d @ '' dependency'') (dependencyRegister d)
                 (rp_note (p_dependencyName_update (\<lambda>_. dependencyName d)) s) of
       (None, s) \<Rightarrow> s
     | (Some dependencyValue, s) \<Rightarrow>
       (let s = rp_note (\<lambda>r. r\<lparr>p_dependencyValue := dependencyValue, p_dependencyChecked := True\<rparr>) s in
        if \<not> Fw2051ScpDependencySatisfied d profileValue dependencyValue
        then rp_append (dependency_text (p_settingName (rp_result s)) (dependencyRule d) (dependencyName d) profileValue dependencyValue) s
        else s))"

definition changed_text :: "string \<Rightarrow> u16 \<Rightarrow> u16 \<Rightarrow> string" where
  "changed_text setting captured expected =
     ''The live '' @ setting @ '' changed after the snapshot (captured '' @ decimal (unat captured) @ '', expected ''
     @ decimal (unat expected) @ ''). No profile write was sent; capture all eight quads again.''"

definition repair_capture :: "'w transport \<Rightarrow> u32 \<Rightarrow> u16 \<Rightarrow> u16 \<Rightarrow> 'w repair \<Rightarrow> 'w repair" where
  "repair_capture transport base offset expectedLiveValue s =
    (let s = (if rp_failure s \<noteq> [] then s
       else case rp_read transport base ''read'' (p_settingName (rp_result s)) offset s of
         (None, s) \<Rightarrow> s
       | (Some v, s) \<Rightarrow> rp_note (\<lambda>r. r\<lparr>p_capturedLiveValue := v, p_liveValueCaptured := True\<rparr>) s)
     in if rp_failure s = [] \<and> p_capturedLiveValue (rp_result s) \<noteq> expectedLiveValue
        then rp_append (changed_text (p_settingName (rp_result s)) (p_capturedLiveValue (rp_result s)) expectedLiveValue) s
        else s)"

subsection \<open>The write and its undoing\<close>

definition repair_write :: "'w transport \<Rightarrow> u32 \<Rightarrow> 'w gate \<Rightarrow> (nat \<Rightarrow> 'w \<Rightarrow> 'w) option \<Rightarrow> u16 \<Rightarrow> u16 \<Rightarrow> 'w repair \<Rightarrow> 'w repair" where
  "repair_write transport base gate settleDelay offset profileValue s =
    (if rp_failure s \<noteq> [] then s
     else case rp_reverify transport gate ''the SCP profile write'' s of
       (False, s) \<Rightarrow> s
     | (True, s) \<Rightarrow>
       (let nm = p_settingName (rp_result s) in
        case rp_write transport base ''write'' nm offset profileValue (rp_note (p_writeAttempted_update (\<lambda>_. True)) s) of
          (False, s) \<Rightarrow> s
        | (True, s) \<Rightarrow>
          (case rp_read transport base ''verify'' nm offset (waitForSettle settleDelay FrontendSettleTime s) of
             (None, s) \<Rightarrow> s
           | (Some readback, s) \<Rightarrow>
             (let s = rp_note (p_appliedReadback_update (\<lambda>_. readback)) s in
              if readback \<noteq> profileValue then rp_append (readback_text ''applied'' nm readback profileValue) s
              else rp_note (\<lambda>r. r\<lparr>p_writeVerified := True, p_profileValueRetained := True\<rparr>) s))))"

definition restored_text :: "u16 \<Rightarrow> u16 \<Rightarrow> string" where
  "restored_text readback expected =
     ''The rollback readback was '' @ decimal (unat readback) @ '', expected '' @ decimal (unat expected) @ ''.''"

definition repair_rollback :: "'w transport \<Rightarrow> u32 \<Rightarrow> 'w gate \<Rightarrow> (nat \<Rightarrow> 'w \<Rightarrow> 'w) option \<Rightarrow> u16 \<Rightarrow> 'w repair \<Rightarrow> 'w repair" where
  "repair_rollback transport base gate settleDelay offset s =
    (if \<not> (p_writeAttempted (rp_result s) \<and> \<not> p_writeVerified (rp_result s) \<and> p_liveValueCaptured (rp_result s)) then s
     else case rp_reverify transport gate ''the SCP profile rollback'' s of
       (False, s) \<Rightarrow> s
     | (True, s) \<Rightarrow>
       (let nm = p_settingName (rp_result s); old = p_capturedLiveValue (rp_result s) in
        case rp_write transport base ''rollback'' nm offset old (rp_note (p_rollbackAttempted_update (\<lambda>_. True)) s) of
          (False, s) \<Rightarrow> s
        | (True, s) \<Rightarrow>
          (case rp_read transport base ''verify rollback'' nm offset (waitForSettle settleDelay FrontendSettleTime s) of
             (None, s) \<Rightarrow> s
           | (Some readback, s) \<Rightarrow>
             (let s = rp_note (p_rollbackReadback_update (\<lambda>_. readback)) s in
              if readback \<noteq> old then rp_append (restored_text readback old) s
              else rp_note (\<lambda>r. r\<lparr>p_rollbackVerified := True, p_profileValueRetained := False\<rparr>) s))))"

subsection \<open>Leaving the module\<close>

definition repair_park :: "'w transport \<Rightarrow> u32 \<Rightarrow> 'w gate \<Rightarrow> (nat \<Rightarrow> 'w \<Rightarrow> 'w) option \<Rightarrow> 'w repair \<Rightarrow> 'w repair" where
  "repair_park transport base gate settleDelay s =
    (if \<not> selectorWasWritten s then s
     else case rp_reverify transport gate ''the SCP profile selector parking'' s of
       (False, s) \<Rightarrow> s
     | (True, s) \<Rightarrow>
       (case rp_write transport base ''park'' ''channel-quad selector'' Fw2051ScpSelectorRegister 0 s of
          (False, s) \<Rightarrow> s
        | (True, s) \<Rightarrow> waitForSettle settleDelay SelectorSettleTime (rp_note (p_selectorParkedAtQuadZero_update (\<lambda>_. True)) s)))"

text \<open>The two resets are the same block with another register and another flag.\<close>

definition repair_reset :: "'w transport \<Rightarrow> u32 \<Rightarrow> 'w gate \<Rightarrow> string \<Rightarrow> string \<Rightarrow> u16
    \<Rightarrow> (ScpSingleRepairResult \<Rightarrow> ScpSingleRepairResult) \<Rightarrow> 'w repair \<Rightarrow> 'w repair" where
  "repair_reset transport base gate gateName nm offset sent s =
    (if \<not> (p_writeAttempted (rp_result s) \<and> p_moduleStopVerified (rp_result s) \<and> rp_ownershipAvailable s) then s
     else case rp_reverify transport gate gateName s of
       (False, s) \<Rightarrow> s
     | (True, s) \<Rightarrow>
       (case rp_write transport base ''write'' nm offset Fw2051ResetCommandValue s of
          (False, s) \<Rightarrow> s
        | (True, s) \<Rightarrow> rp_note sent s))"

definition repair_final :: "'w transport \<Rightarrow> u32 \<Rightarrow> 'w gate \<Rightarrow> 'w repair \<Rightarrow> 'w repair" where
  "repair_final transport base gate s =
    (if \<not> (p_moduleStopVerified (rp_result s) \<and> rp_ownershipAvailable s) then s
     else case rp_reverify transport gate ''the SCP profile final stopped-state verification'' s of
       (False, s) \<Rightarrow> s
     | (True, s) \<Rightarrow>
       (case rp_read transport base ''verify'' ''final stopped acquisition'' Fw2051AcquisitionControlRegister s of
          (None, s) \<Rightarrow> s
        | (Some stoppedReadback, s) \<Rightarrow>
          if stoppedReadback \<noteq> Fw2051StopAcquisitionValue
          then rp_append ''The module did not remain stopped after the SCP profile repair.'' s
          else rp_note (p_moduleLeftStopped_update (\<lambda>_. True)) s))"

definition repair_finish :: "'w repair \<Rightarrow> ScpSingleRepairResult" where
  "repair_finish s =
    (let r = rp_result s; failure = rp_failure s;
         passed = (failure = [] \<and> p_writeVerified r \<and> p_profileValueRetained r \<and> p_moduleStopVerified r
           \<and> p_selectorParkedAtQuadZero r \<and> p_fifoResetSent r \<and> p_readoutResetSent r \<and> p_moduleLeftStopped r)
     in r\<lparr>p_state := (if passed then RepairPassed else RepairFailed),
          p_message := (if passed then RepairRetained (p_settingName r)
            else if p_rollbackVerified r \<and> p_moduleLeftStopped r
            then RepairRestored failure (p_selectorParkedAtQuadZero r \<and> p_fifoResetSent r \<and> p_readoutResetSent r)
            else if failure \<noteq> [] \<and> p_moduleLeftStopped r then RepairLeftStopped failure
            else if failure = [] then RepairUnchecked
            else RepairFailure failure)\<rparr>)"

definition begin_repair :: "ScpSingleRepairRequest \<Rightarrow> 'w \<Rightarrow> 'w repair" where
  "begin_repair req w = \<lparr>rp_result = begin_repair_result req, rp_failure = [], rp_ownershipAvailable = True,
     selectorWasWritten = False, rp_bus = (repair_references, w)\<rparr>"

text \<open>The blocks up to the write, and the rest.\<close>

definition repair_approach :: "'w transport \<Rightarrow> ScpSingleRepairRequest \<Rightarrow> 'w gate \<Rightarrow> (nat \<Rightarrow> 'w \<Rightarrow> 'w) option
    \<Rightarrow> Fw2051ScpSettingDefinition \<Rightarrow> 'w repair \<Rightarrow> 'w repair" where
  "repair_approach transport req gate settleDelay d s =
    (let base = rq_baseAddress req;
         s = repair_identity transport base s;
         s = repair_stop transport base gate s;
         s = repair_select transport base gate settleDelay (rq_quad req) s;
         s = repair_dependency transport base d (rq_profileValue req) s
     in repair_capture transport base (rq_registerOffset req) (rq_expectedLiveValue req) s)"

definition repair_leave :: "'w transport \<Rightarrow> u32 \<Rightarrow> 'w gate \<Rightarrow> (nat \<Rightarrow> 'w \<Rightarrow> 'w) option \<Rightarrow> 'w repair \<Rightarrow> 'w repair" where
  "repair_leave transport base gate settleDelay s =
    (let s = repair_park transport base gate settleDelay s;
         s = repair_reset transport base gate ''the SCP profile FIFO reset'' ''reset FIFO'' Fw2051FifoResetRegister
               (p_fifoResetSent_update (\<lambda>_. True)) s;
         s = repair_reset transport base gate ''the SCP profile readout reset'' ''reset readout'' Fw2051ReadoutResetRegister
               (p_readoutResetSent_update (\<lambda>_. True)) s
     in repair_final transport base gate s)"

definition RepairFw2051ScpProfileValue :: "'w transport \<Rightarrow> ScpSingleRepairRequest \<Rightarrow> 'w gate option
    \<Rightarrow> (nat \<Rightarrow> 'w \<Rightarrow> 'w) option \<Rightarrow> 'w \<Rightarrow> ScpSingleRepairResult \<times> 'w" where
  "RepairFw2051ScpProfileValue transport req ownershipGate settleDelay w =
    (let r = begin_repair_result req in
     case refuse_repair req of
       Some e \<Rightarrow> (r\<lparr>p_state := RepairFailed, p_message := RepairRefused e\<rparr>, w)
     | None \<Rightarrow>
     (case (ownershipGate, FindFw2051ScpSetting (rq_registerOffset req)) of
       (Some gate, Some d) \<Rightarrow>
         (case rp_reverify transport gate ''the retained SCP profile repair'' (begin_repair req w) of
            (False, s) \<Rightarrow> ((rp_result s)\<lparr>p_state := RepairFailed, p_message := RepairFailure (rp_failure s)\<rparr>, snd (rp_bus s))
          | (True, s) \<Rightarrow>
            (let base = rq_baseAddress req; offset = rq_registerOffset req;
                 s = repair_approach transport req gate settleDelay d s;
                 s = repair_write transport base gate settleDelay offset (rq_profileValue req) s;
                 s = repair_rollback transport base gate settleDelay offset s;
                 s = repair_leave transport base gate settleDelay s
             in (repair_finish s, snd (rp_bus s))))
     | _ \<Rightarrow> (r\<lparr>p_state := RepairFailed, p_message := RepairWithoutGate\<rparr>, w)))"

subsection \<open>Facts about the closures\<close>

lemma on_repair_fields [simp]:
  "rp_result (snd (on_repair f s)) = rp_result s" "rp_failure (snd (on_repair f s)) = rp_failure s"
  "rp_ownershipAvailable (snd (on_repair f s)) = rp_ownershipAvailable s"
  "selectorWasWritten (snd (on_repair f s)) = selectorWasWritten s" "rp_bus (snd (on_repair f s)) = snd (f (rp_bus s))"
  "fst (on_repair f s) = fst (f (rp_bus s))"
  by (simp_all add: on_repair_def split: prod.split)

lemma rp_append_fields [simp]:
  "rp_result (rp_append t s) = rp_result s" "rp_ownershipAvailable (rp_append t s) = rp_ownershipAvailable s"
  "selectorWasWritten (rp_append t s) = selectorWasWritten s" "rp_bus (rp_append t s) = rp_bus s"
  "rp_failure (rp_append t s) = append_text (rp_failure s) t"
  by (simp_all add: rp_append_def)

lemma rp_note_fields [simp]:
  "rp_result (rp_note f s) = f (rp_result s)" "rp_failure (rp_note f s) = rp_failure s"
  "rp_ownershipAvailable (rp_note f s) = rp_ownershipAvailable s" "selectorWasWritten (rp_note f s) = selectorWasWritten s"
  "rp_bus (rp_note f s) = rp_bus s"
  by (simp_all add: rp_note_def)

lemma wait_fields [simp]:
  "rp_result (waitForSettle sd n s) = rp_result s" "rp_failure (waitForSettle sd n s) = rp_failure s"
  "rp_ownershipAvailable (waitForSettle sd n s) = rp_ownershipAvailable s"
  "selectorWasWritten (waitForSettle sd n s) = selectorWasWritten s"
  by (simp_all add: waitForSettle_def)

lemma repair_texts_not_Nil [simp]:
  "fst (repair_gate_message T g b) \<noteq> []" "dependency_text a rule x c d \<noteq> []" "changed_text a c d \<noteq> []" "restored_text c d \<noteq> []"
  by (simp_all add: repair_gate_message_def repair_cancelled_text_def repair_unowned_text_def dependency_text_def changed_text_def
      restored_text_def split: prod.split)

lemma rp_read_fields [simp]:
  "rp_result (snd (rp_read T base op nm r s)) = rp_result s"
  "rp_ownershipAvailable (snd (rp_read T base op nm r s)) = rp_ownershipAvailable s"
  "selectorWasWritten (snd (rp_read T base op nm r s)) = selectorWasWritten s"
  "rp_failure (snd (rp_read T base op nm r s)) = [] \<longleftrightarrow> rp_failure s = [] \<and> fst (rp_read T base op nm r s) \<noteq> None"
  by (simp_all add: rp_read_def case_prod_beta split: sum.split)

lemma rp_write_fields [simp]:
  "rp_result (snd (rp_write T base op nm r v s)) = rp_result s"
  "rp_ownershipAvailable (snd (rp_write T base op nm r v s)) = rp_ownershipAvailable s"
  "selectorWasWritten (snd (rp_write T base op nm r v s)) = selectorWasWritten s"
  "rp_failure (snd (rp_write T base op nm r v s)) = [] \<longleftrightarrow> rp_failure s = [] \<and> fst (rp_write T base op nm r v s)"
  by (simp_all add: rp_write_def case_prod_beta split: sum.split)

lemma rp_reverify_fields [simp]:
  "selectorWasWritten (snd (rp_reverify T gate n s)) = selectorWasWritten s"
  "fst (rp_reverify T gate n s) \<Longrightarrow> rp_result (snd (rp_reverify T gate n s)) = rp_result s"
  "rp_ownershipAvailable (snd (rp_reverify T gate n s)) = fst (rp_reverify T gate n s)"
  "rp_failure (snd (rp_reverify T gate n s)) = [] \<longleftrightarrow> rp_failure s = [] \<and> (fst (rp_reverify T gate n s) \<or> \<not> rp_ownershipAvailable s)"
  by (auto simp: rp_reverify_def case_prod_beta Let_def)

text \<open>What the blocks before the write leave alone in the result; a refused gate only marks the communication.\<close>

definition outcome_flags :: "ScpSingleRepairResult \<Rightarrow> bool \<times> bool \<times> bool \<times> bool \<times> bool" where
  "outcome_flags r = (p_writeAttempted r, p_writeVerified r, p_rollbackVerified r, p_moduleLeftStopped r, p_selectorParkedAtQuadZero r)"

lemma outcome_flags_updates [simp]:
  "outcome_flags (r\<lparr>p_moduleStopSent := x\<rparr>) = outcome_flags r" "outcome_flags (r\<lparr>p_moduleStopVerified := x\<rparr>) = outcome_flags r"
  "outcome_flags (r\<lparr>p_dependencyName := n\<rparr>) = outcome_flags r"
  "outcome_flags (r\<lparr>p_dependencyValue := v\<rparr>) = outcome_flags r" "outcome_flags (r\<lparr>p_dependencyChecked := x\<rparr>) = outcome_flags r"
  "outcome_flags (r\<lparr>p_capturedLiveValue := v\<rparr>) = outcome_flags r" "outcome_flags (r\<lparr>p_liveValueCaptured := x\<rparr>) = outcome_flags r"
  by (simp_all add: outcome_flags_def)

lemma reverify_flags [simp]:
  "outcome_flags (rp_result (snd (rp_reverify T gate n s))) = outcome_flags (rp_result s)"
  "p_moduleStopVerified (rp_result (snd (rp_reverify T gate n s))) = p_moduleStopVerified (rp_result s)"
  "p_capturedLiveValue (rp_result (snd (rp_reverify T gate n s))) = p_capturedLiveValue (rp_result s)"
  "p_liveValueCaptured (rp_result (snd (rp_reverify T gate n s))) = p_liveValueCaptured (rp_result s)"
  by (auto simp: rp_reverify_def case_prod_beta Let_def outcome_flags_def)

text \<open>Ownership is lost only with a failure.\<close>

definition owned :: "'w repair \<Rightarrow> bool" where
  "owned s \<longleftrightarrow> (rp_failure s = [] \<longrightarrow> rp_ownershipAvailable s)"

subsection \<open>On an honest module\<close>

definition put_bank :: "(u16 \<Rightarrow> u16 \<Rightarrow> u16) \<Rightarrow> u16 \<Rightarrow> u16 \<Rightarrow> u16 \<Rightarrow> u16 \<Rightarrow> u16 \<Rightarrow> u16" where
  "put_bank B q r v = B(q := (B q)(r := v))"

text \<open>What was checked before a write was attempted.\<close>

definition repair_checked :: "ScpSingleRepairRequest \<Rightarrow> Fw2051ScpSettingDefinition \<Rightarrow> mdpp \<Rightarrow> bool" where
  "repair_checked req d m \<longleftrightarrow> IsWriteApprovedMdpp32HardwareId (global m 0x6008) \<and> global m 0x600E = Mdpp32ScpFirmwareRevisionFw2051
     \<and> banked m (rq_quad req) (rq_registerOffset req) = rq_expectedLiveValue req
     \<and> Fw2051ScpDependencySatisfied d (rq_profileValue req) (banked m (rq_quad req) (dependencyRegister d))"

lemma mdpp_read_setting: "r \<in> set fw2051_registers \<Longrightarrow> mdpp_read m r = banked m (selector m) r"
  by (auto simp: mdpp_read_def Fw2051ScpSelectorRegister_def fw2051_registers_eq)

lemma dependency_at_bank:
  assumes "d \<in> set Fw2051ScpSettingRegistry"
  shows "Fw2051ScpDependencySatisfied d v (mdpp_read m (dependencyRegister d))
    \<longleftrightarrow> Fw2051ScpDependencySatisfied d v (banked m (selector m) (dependencyRegister d))"
proof (cases "dependencyRule d = NoDependency")
  case False
  then have "dependencyRegister d \<in> set fw2051_registers"
    using assms by (auto simp: Fw2051ScpSettingRegistry_def setting_row_def fw2051_registers_eq)
  then show ?thesis by (simp add: mdpp_read_setting)
qed (simp add: Fw2051ScpDependencySatisfied_def)

locale supervised_repair = supervised_module T base dev gate "repair_delay settleDelay" "\<lambda>(_ :: unit) w. (True, w)"
  for T :: "'w transport" and base dev gate settleDelay
begin

definition rlive :: "'w repair \<Rightarrow> mdpp" where
  "rlive s = dev (snd (rp_bus s))"

lemma rlive_update [simp]:
  "rlive (rp_append t s) = rlive s" "rlive (rp_note f s) = rlive s" "rlive (s\<lparr>rp_ownershipAvailable := x\<rparr>) = rlive s"
  "rlive (s\<lparr>selectorWasWritten := x\<rparr>) = rlive s" "rlive (waitForSettle settleDelay n s) = rlive s"
  by (simp_all add: rlive_def waitForSettle_def delay_keeps)

lemma rlive_reverify [simp]: "rlive (snd (rp_reverify T gate n s)) = rlive s"
  by (simp add: rp_reverify_def repair_gate_message_def case_prod_beta Let_def rlive_def gate_keeps cancelled_keeps)

lemma rlive_read [simp]: "rlive (snd (rp_read T base op nm r s)) = rlive s"
proof -
  have "dev (snd (snd (readRegister T base r (rp_bus s)))) = rlive s"
    using read_keeps [OF surjective_pairing, of r "rp_bus s"] by (simp add: rlive_def)
  then show ?thesis by (simp add: rp_read_def case_prod_beta rlive_def split: sum.split)
qed

lemma rp_read_shows: "fst (rp_read T base op nm r s) = Some v \<Longrightarrow> v = mdpp_read (rlive s) r"
  using read_shows [of r "rp_bus s" v "snd (readRegister T base r (rp_bus s))"]
  by (auto simp: rp_read_def case_prod_beta rlive_def prod_eq_iff split: sum.splits)

lemma rp_write_happened: "fst (rp_write T base op nm r v s) \<Longrightarrow> rlive (snd (rp_write T base op nm r v s)) = mdpp_write (rlive s) r v"
proof -
  obtain x b where "writeRegister T base r v (rp_bus s) = (x, b)" by (rule prod.exhaust)
  then show "fst (rp_write T base op nm r v s) \<Longrightarrow> rlive (snd (rp_write T base op nm r v s)) = mdpp_write (rlive s) r v"
    using write_happened [of r v "rp_bus s" _ b] by (auto simp: rp_write_def case_prod_beta rlive_def split: sum.splits)
qed

lemma rp_write_maybe: "rlive (snd (rp_write T base op nm r v s)) = rlive s \<or> rlive (snd (rp_write T base op nm r v s)) = mdpp_write (rlive s) r v"
proof -
  obtain x b where "writeRegister T base r v (rp_bus s) = (x, b)" by (rule prod.exhaust)
  then show ?thesis
    using write_happened [of r v "rp_bus s" _ b] write_maybe [of r v "rp_bus s" _ b]
    by (auto simp: rp_write_def case_prod_beta rlive_def split: sum.splits)
qed

lemma command_write:
  assumes "r \<in> {Fw2051AcquisitionControlRegister, Fw2051FifoResetRegister, Fw2051ReadoutResetRegister}"
  shows "banked (rlive (snd (rp_write T base op nm r v s))) = banked (rlive s)"
    "selector (rlive (snd (rp_write T base op nm r v s))) = selector (rlive s)"
    "x \<noteq> r \<Longrightarrow> global (rlive (snd (rp_write T base op nm r v s))) x = global (rlive s) x"
  using rp_write_maybe [of op nm r v s] assms command_registers by (auto simp: mdpp_write_def)

lemma selector_write:
  "banked (rlive (snd (rp_write T base op nm Fw2051ScpSelectorRegister v s))) = banked (rlive s)"
  "global (rlive (snd (rp_write T base op nm Fw2051ScpSelectorRegister v s))) = global (rlive s)"
  "fst (rp_write T base op nm Fw2051ScpSelectorRegister v s) \<Longrightarrow>
     selector (rlive (snd (rp_write T base op nm Fw2051ScpSelectorRegister v s))) = v"
  using rp_write_maybe [of op nm Fw2051ScpSelectorRegister v s] rp_write_happened [of op nm Fw2051ScpSelectorRegister v s]
  by (auto simp: mdpp_write_def)

abbreviation rstopped :: "'w repair \<Rightarrow> bool" where
  "rstopped s \<equiv> global (rlive s) Fw2051AcquisitionControlRegister = Fw2051StopAcquisitionValue"

lemma identity_exact:
  shows "rlive (repair_identity T base s) = rlive s" "rp_result (repair_identity T base s) = rp_result s"
    "selectorWasWritten (repair_identity T base s) = selectorWasWritten s" "owned s \<Longrightarrow> owned (repair_identity T base s)"
    "rp_failure (repair_identity T base s) = [] \<Longrightarrow> rp_failure s = []
      \<and> IsWriteApprovedMdpp32HardwareId (global (rlive s) 0x6008) \<and> global (rlive s) 0x600E = Mdpp32ScpFirmwareRevisionFw2051"
proof -
  have reads: "mdpp_read m HardwareIdRegister = global m 0x6008" "mdpp_read m FirmwareRevisionRegister = global m 0x600E" for m
    by (simp_all add: mdpp_read_def HardwareIdRegister_def FirmwareRevisionRegister_def Fw2051ScpSelectorRegister_def fw2051_registers_eq)
  show "rp_failure (repair_identity T base s) = [] \<Longrightarrow> rp_failure s = []
      \<and> IsWriteApprovedMdpp32HardwareId (global (rlive s) 0x6008) \<and> global (rlive s) 0x600E = Mdpp32ScpFirmwareRevisionFw2051"
    using rp_read_shows [of "''read''" "''hardware ID''" HardwareIdRegister s]
      rp_read_shows [of "''read''" "''firmware revision''" FirmwareRevisionRegister "snd (rp_read T base ''read'' ''hardware ID'' HardwareIdRegister s)"]
    by (auto simp: repair_identity_def Let_def case_prod_beta reads split: option.splits if_splits)
qed (auto simp: repair_identity_def owned_def Let_def case_prod_beta split: option.splits if_splits)

lemma stop_exact:
  shows "banked (rlive (repair_stop T base gate s)) = banked (rlive s)"
    "owned s \<Longrightarrow> owned (repair_stop T base gate s)"
    "outcome_flags (rp_result (repair_stop T base gate s)) = outcome_flags (rp_result s)"
    "rp_failure (repair_stop T base gate s) = [] \<Longrightarrow> rp_failure s = []"
    "rp_failure (repair_stop T base gate s) = [] \<Longrightarrow> owned s \<Longrightarrow>
       rstopped (repair_stop T base gate s) \<and> p_moduleStopVerified (rp_result (repair_stop T base gate s))"
proof -
  have reads: "mdpp_read m Fw2051AcquisitionControlRegister = global m Fw2051AcquisitionControlRegister" for m
    using command_registers by (simp add: mdpp_read_def)
  note shown = rp_read_shows [of _ _ Fw2051AcquisitionControlRegister, unfolded reads]
  show "rp_failure (repair_stop T base gate s) = [] \<Longrightarrow> owned s \<Longrightarrow>
      rstopped (repair_stop T base gate s) \<and> p_moduleStopVerified (rp_result (repair_stop T base gate s))"
    by (auto simp: repair_stop_def owned_def case_prod_beta dest!: shown split: option.splits if_splits bool.splits)
qed (auto simp: repair_stop_def owned_def case_prod_beta command_write split: option.splits if_splits bool.splits)

lemma select_exact:
  shows "banked (rlive (repair_select T base gate settleDelay q s)) = banked (rlive s)"
    "global (rlive (repair_select T base gate settleDelay q s)) = global (rlive s)"
    "owned s \<Longrightarrow> owned (repair_select T base gate settleDelay q s)"
    "outcome_flags (rp_result (repair_select T base gate settleDelay q s)) = outcome_flags (rp_result s)"
    "rp_failure (repair_select T base gate settleDelay q s) = [] \<Longrightarrow> rp_failure s = []"
    "rp_failure (repair_select T base gate settleDelay q s) = [] \<Longrightarrow> owned s \<Longrightarrow> p_moduleStopVerified (rp_result s) \<Longrightarrow>
       selector (rlive (repair_select T base gate settleDelay q s)) = q \<and> selectorWasWritten (repair_select T base gate settleDelay q s)"
  by (auto simp: repair_select_def owned_def case_prod_beta selector_write split: if_splits bool.splits)

lemma dependency_exact:
  shows "rlive (repair_dependency T base d pv s) = rlive s" "owned s \<Longrightarrow> owned (repair_dependency T base d pv s)"
    "outcome_flags (rp_result (repair_dependency T base d pv s)) = outcome_flags (rp_result s)"
    "selectorWasWritten (repair_dependency T base d pv s) = selectorWasWritten s"
    "rp_failure (repair_dependency T base d pv s) = [] \<Longrightarrow> rp_failure s = [] \<and>
       Fw2051ScpDependencySatisfied d pv (mdpp_read (rlive s) (dependencyRegister d))"
  using rp_read_shows [of "''read''" "dependencyName d @ '' dependency''" "dependencyRegister d"
      "rp_note (p_dependencyName_update (\<lambda>_. dependencyName d)) s"]
  by (auto simp: repair_dependency_def owned_def Let_def case_prod_beta Fw2051ScpDependencySatisfied_def
      split: option.splits if_splits Fw2051ScpDependencyRule.splits)

lemma capture_value_exact:
  shows "rlive (repair_capture T base r ev s) = rlive s" "owned s \<Longrightarrow> owned (repair_capture T base r ev s)"
    "outcome_flags (rp_result (repair_capture T base r ev s)) = outcome_flags (rp_result s)"
    "selectorWasWritten (repair_capture T base r ev s) = selectorWasWritten s"
    "rp_failure (repair_capture T base r ev s) = [] \<Longrightarrow> rp_failure s = [] \<and> p_capturedLiveValue (rp_result (repair_capture T base r ev s)) = ev
       \<and> ev = mdpp_read (rlive s) r \<and> p_liveValueCaptured (rp_result (repair_capture T base r ev s))"
  using rp_read_shows [of "''read''" "p_settingName (rp_result s)" r s]
  by (auto simp: repair_capture_def owned_def Let_def case_prod_beta split: option.splits if_splits)

text \<open>At the write: the approach has changed no setting, and without a failure everything was checked.\<close>

definition approached :: "ScpSingleRepairRequest \<Rightarrow> Fw2051ScpSettingDefinition \<Rightarrow> mdpp \<Rightarrow> 'w repair \<Rightarrow> bool" where
  "approached req d m s \<longleftrightarrow> banked (rlive s) = banked m \<and> owned s \<and> (rp_failure s = [] \<longrightarrow>
     IsWriteApprovedMdpp32HardwareId (global m 0x6008) \<and> global m 0x600E = Mdpp32ScpFirmwareRevisionFw2051
     \<and> rstopped s \<and> selector (rlive s) = rq_quad req \<and> selectorWasWritten s
     \<and> Fw2051ScpDependencySatisfied d (rq_profileValue req) (mdpp_read (rlive s) (dependencyRegister d))
     \<and> p_capturedLiveValue (rp_result s) = rq_expectedLiveValue req \<and> p_liveValueCaptured (rp_result s)
     \<and> rq_expectedLiveValue req = mdpp_read (rlive s) (rq_registerOffset req))"

lemma approach_exact:
  assumes "owned s" "base = rq_baseAddress req"
  shows "approached req d (rlive s) (repair_approach T req gate settleDelay d s)"
    "outcome_flags (rp_result (repair_approach T req gate settleDelay d s)) = outcome_flags (rp_result s)"
proof -
  define s1 where "s1 = repair_identity T base s"
  define s2 where "s2 = repair_stop T base gate s1"
  define s3 where "s3 = repair_select T base gate settleDelay (rq_quad req) s2"
  define s4 where "s4 = repair_dependency T base d (rq_profileValue req) s3"
  define s5 where "s5 = repair_capture T base (rq_registerOffset req) (rq_expectedLiveValue req) s4"
  have eq: "repair_approach T req gate settleDelay d s = s5"
    using assms(2) by (simp add: repair_approach_def Let_def s1_def s2_def s3_def s4_def s5_def)
  note e1 = identity_exact [of s, folded s1_def] and e2 = stop_exact [of s1, folded s2_def]
    and e3 = select_exact [where q = "rq_quad req" and s = s2, folded s3_def]
    and e4 = dependency_exact [where d = d and pv = "rq_profileValue req" and s = s3, folded s4_def]
    and e5 = capture_value_exact [where r = "rq_registerOffset req" and ev = "rq_expectedLiveValue req" and s = s4, folded s5_def]
  have own: "owned s1" "owned s2" "owned s3" "owned s4" "owned s5" using assms(1) e1(4) e2(2) e3(3) e4(2) e5(2) by blast+
  show "outcome_flags (rp_result (repair_approach T req gate settleDelay d s)) = outcome_flags (rp_result s)"
    unfolding eq using e1(2) e2(3) e3(4) e4(3) e5(3) by simp
  have "rp_failure s4 = []" "rp_failure s3 = []" "rp_failure s2 = []" "rp_failure s1 = []" if "rp_failure s5 = []"
    using that e5(5) e4(5) e3(5) e2(4) by blast+
  then show "approached req d (rlive s) (repair_approach T req gate settleDelay d s)"
    unfolding eq approached_def using own e1(1,5) e2(1,5) e3(1,2,6) e4(1,4,5) e5(1,4,5) by auto
qed

lemma setting_write:
  assumes "r \<in> set fw2051_registers"
  shows "selector (rlive (snd (rp_write T base op nm r v s))) = selector (rlive s)"
    "global (rlive (snd (rp_write T base op nm r v s))) = global (rlive s)"
    "banked (rlive (snd (rp_write T base op nm r v s))) \<in> {banked (rlive s), put_bank (banked (rlive s)) (selector (rlive s)) r v}"
    "fst (rp_write T base op nm r v s) \<Longrightarrow>
       banked (rlive (snd (rp_write T base op nm r v s))) = put_bank (banked (rlive s)) (selector (rlive s)) r v"
proof -
  have "r \<noteq> Fw2051ScpSelectorRegister" using assms by (auto simp: Fw2051ScpSelectorRegister_def fw2051_registers_eq)
  then have w: "mdpp_write (rlive s) r v = (rlive s)\<lparr>banked := put_bank (banked (rlive s)) (selector (rlive s)) r v\<rparr>"
    using assms by (simp add: mdpp_write_def put_bank_def)
  show "selector (rlive (snd (rp_write T base op nm r v s))) = selector (rlive s)"
    "global (rlive (snd (rp_write T base op nm r v s))) = global (rlive s)"
    "banked (rlive (snd (rp_write T base op nm r v s))) \<in> {banked (rlive s), put_bank (banked (rlive s)) (selector (rlive s)) r v}"
    using rp_write_maybe [of op nm r v s] unfolding w by auto
  show "fst (rp_write T base op nm r v s) \<Longrightarrow>
      banked (rlive (snd (rp_write T base op nm r v s))) = put_bank (banked (rlive s)) (selector (rlive s)) r v"
    using rp_write_happened [of op nm r v s] unfolding w by simp
qed

text \<open>After the write and after the rollback: at most the one register has changed, and only after every check.\<close>

definition written :: "ScpSingleRepairRequest \<Rightarrow> Fw2051ScpSettingDefinition \<Rightarrow> mdpp \<Rightarrow> 'w repair \<Rightarrow> bool" where
  "written req d m s \<longleftrightarrow> (let r = rp_result s; B = banked m; B' = put_bank B (rq_quad req) (rq_registerOffset req) (rq_profileValue req) in
     (\<not> p_writeAttempted r \<longrightarrow> banked (rlive s) = B \<and> \<not> p_writeVerified r \<and> \<not> p_rollbackVerified r)
     \<and> (p_writeAttempted r \<longrightarrow> repair_checked req d m \<and> banked (rlive s) \<in> {B, B'} \<and> selector (rlive s) = rq_quad req
         \<and> p_capturedLiveValue r = rq_expectedLiveValue req \<and> p_liveValueCaptured r)
     \<and> (p_writeVerified r \<longrightarrow> banked (rlive s) = B') \<and> (p_rollbackVerified r \<longrightarrow> banked (rlive s) = B))"

lemma write_exact:
  assumes "approached req d m s" "\<not> p_writeAttempted (rp_result s)" "\<not> p_writeVerified (rp_result s)" "\<not> p_rollbackVerified (rp_result s)"
    and reg: "rq_registerOffset req \<in> set fw2051_registers" and d: "d \<in> set Fw2051ScpSettingRegistry"
  defines "s' \<equiv> repair_write T base gate settleDelay (rq_registerOffset req) (rq_profileValue req) s"
  shows "written req d m s'" "p_selectorParkedAtQuadZero (rp_result s') = p_selectorParkedAtQuadZero (rp_result s)"
    "p_moduleLeftStopped (rp_result s') = p_moduleLeftStopped (rp_result s)"
proof -
  let ?own = "rp_reverify T gate ''the SCP profile write'' s"
  let ?r = "rq_registerOffset req" and ?pv = "rq_profileValue req" and ?nm = "p_settingName (rp_result s)"
  have checked: "rp_failure s = [] \<Longrightarrow> repair_checked req d m"
    using assms(1) dependency_at_bank [OF d, of "rq_profileValue req" "rlive s"] reg
    by (auto simp: approached_def repair_checked_def mdpp_read_setting)
  show "written req d m s'"
  proof (cases "rp_failure s = [] \<and> fst ?own")
    case False
    then have "rlive s' = rlive s" "outcome_flags (rp_result s') = outcome_flags (rp_result s)"
      by (auto simp: s'_def repair_write_def case_prod_beta)
    then show ?thesis using assms(1-4) by (auto simp: written_def approached_def outcome_flags_def Let_def)
  next
    case True
    define t where "t = rp_note (p_writeAttempted_update (\<lambda>_. True)) (snd ?own)"
    note w = setting_write [OF reg, of "''write''" ?nm ?pv t]
    have t: "rlive t = rlive s" "rp_result t = (rp_result s)\<lparr>p_writeAttempted := True\<rparr>" using True by (simp_all add: t_def)
    have s': "s' = (case rp_write T base ''write'' ?nm ?r ?pv t of (False, s) \<Rightarrow> s | (True, s) \<Rightarrow>
        (case rp_read T base ''verify'' ?nm ?r (waitForSettle settleDelay FrontendSettleTime s) of (None, s) \<Rightarrow> s
         | (Some readback, s) \<Rightarrow> (let s = rp_note (p_appliedReadback_update (\<lambda>_. readback)) s in
              if readback \<noteq> ?pv then rp_append (readback_text ''applied'' ?nm readback ?pv) s
              else rp_note (\<lambda>r. r\<lparr>p_writeVerified := True, p_profileValueRetained := True\<rparr>) s)))"
      using True by (simp add: s'_def repair_write_def case_prod_beta Let_def t_def split: bool.split option.split)
    have live: "rlive s' = rlive (snd (rp_write T base ''write'' ?nm ?r ?pv t))"
      by (auto simp: s' case_prod_beta Let_def split: bool.split option.split)
    have res: "p_writeAttempted (rp_result s')" "p_capturedLiveValue (rp_result s') = p_capturedLiveValue (rp_result s)"
        "p_liveValueCaptured (rp_result s') = p_liveValueCaptured (rp_result s)" "\<not> p_rollbackVerified (rp_result s')"
        "p_writeVerified (rp_result s') \<Longrightarrow> fst (rp_write T base ''write'' ?nm ?r ?pv t)"
      using t(2) assms(3,4) by (auto simp: s' case_prod_beta Let_def split: bool.splits option.splits if_splits)
    have "banked (rlive s) = banked m" "selector (rlive s) = rq_quad req" "p_capturedLiveValue (rp_result s) = rq_expectedLiveValue req"
        "p_liveValueCaptured (rp_result s)" using assms(1) True by (auto simp: approached_def)
    then show ?thesis
      unfolding written_def Let_def using res w live checked True by (auto simp: t(1))
  qed
  show "p_selectorParkedAtQuadZero (rp_result s') = p_selectorParkedAtQuadZero (rp_result s)"
    "p_moduleLeftStopped (rp_result s') = p_moduleLeftStopped (rp_result s)"
    unfolding s'_def using reverify_flags(1) [of T gate "''the SCP profile write''" s]
    by (auto simp: repair_write_def Let_def case_prod_beta outcome_flags_def split: bool.split option.split)
qed

lemma rollback_exact:
  assumes "written req d m s" and reg: "rq_registerOffset req \<in> set fw2051_registers" and "\<not> p_rollbackVerified (rp_result s)"
  defines "s' \<equiv> repair_rollback T base gate settleDelay (rq_registerOffset req) s"
  shows "written req d m s'" "p_selectorParkedAtQuadZero (rp_result s') = p_selectorParkedAtQuadZero (rp_result s)"
    "p_moduleLeftStopped (rp_result s') = p_moduleLeftStopped (rp_result s)"
proof -
  let ?own = "rp_reverify T gate ''the SCP profile rollback'' s"
  let ?r = "rq_registerOffset req" and ?nm = "p_settingName (rp_result s)" and ?old = "p_capturedLiveValue (rp_result s)"
  let ?B = "banked m"
  have undo: "put_bank B' (rq_quad req) ?r (?B (rq_quad req) ?r) = ?B"
      if "B' \<in> {?B, put_bank ?B (rq_quad req) ?r v}" for B' v
    using that by (auto simp: put_bank_def fun_eq_iff)
  show "written req d m s'"
  proof (cases "p_writeAttempted (rp_result s) \<and> \<not> p_writeVerified (rp_result s) \<and> fst ?own")
    case False
    then have "rlive s' = rlive s" "outcome_flags (rp_result s') = outcome_flags (rp_result s)"
        "p_capturedLiveValue (rp_result s') = p_capturedLiveValue (rp_result s)" "p_liveValueCaptured (rp_result s') = p_liveValueCaptured (rp_result s)"
      by (auto simp: s'_def repair_rollback_def case_prod_beta)
    then show ?thesis using assms(1) by (auto simp: written_def outcome_flags_def Let_def)
  next
    case True
    define t where "t = rp_note (p_rollbackAttempted_update (\<lambda>_. True)) (snd ?own)"
    note w = setting_write [OF reg, of "''rollback''" ?nm ?old t]
    have t: "rlive t = rlive s" "rp_result t = (rp_result s)\<lparr>p_rollbackAttempted := True\<rparr>" using True by (simp_all add: t_def)
    have pre: "banked (rlive s) \<in> {?B, put_bank ?B (rq_quad req) ?r (rq_profileValue req)}" "selector (rlive s) = rq_quad req"
        "?old = ?B (rq_quad req) ?r" "p_liveValueCaptured (rp_result s)" "repair_checked req d m"
      using assms(1) True by (auto simp: written_def Let_def repair_checked_def)
    have s': "s' = (case rp_write T base ''rollback'' ?nm ?r ?old t of (False, s) \<Rightarrow> s | (True, s) \<Rightarrow>
        (case rp_read T base ''verify rollback'' ?nm ?r (waitForSettle settleDelay FrontendSettleTime s) of (None, s) \<Rightarrow> s
         | (Some readback, s) \<Rightarrow> (let s = rp_note (p_rollbackReadback_update (\<lambda>_. readback)) s in
              if readback \<noteq> ?old then rp_append (restored_text readback ?old) s
              else rp_note (\<lambda>r. r\<lparr>p_rollbackVerified := True, p_profileValueRetained := False\<rparr>) s)))"
      using True pre(4) by (simp add: s'_def repair_rollback_def case_prod_beta Let_def t_def split: bool.split option.split)
    have live: "rlive s' = rlive (snd (rp_write T base ''rollback'' ?nm ?r ?old t))"
      by (auto simp: s' case_prod_beta Let_def split: bool.split option.split)
    have res: "p_writeAttempted (rp_result s')" "p_capturedLiveValue (rp_result s') = p_capturedLiveValue (rp_result s)"
        "p_liveValueCaptured (rp_result s')" "\<not> p_writeVerified (rp_result s')"
        "p_rollbackVerified (rp_result s') \<Longrightarrow> fst (rp_write T base ''rollback'' ?nm ?r ?old t)"
      using t(2) assms(3) True pre(4) by (auto simp: s' case_prod_beta Let_def split: bool.splits option.splits if_splits)
    have "banked (rlive s') = ?B" if "p_rollbackVerified (rp_result s')"
      using res(5) [OF that] w(4) live t(1) pre undo by auto
    moreover have "banked (rlive s') \<in> {?B, put_bank ?B (rq_quad req) ?r (rq_profileValue req)}" "selector (rlive s') = rq_quad req"
      using w(1,3) live t(1) pre(1-3) undo [OF pre(1)] by auto
    moreover have "?old = rq_expectedLiveValue req" using pre(3,5) by (simp add: repair_checked_def)
    ultimately show ?thesis unfolding written_def Let_def using res(1-4) pre(5) by auto
  qed
  show "p_selectorParkedAtQuadZero (rp_result s') = p_selectorParkedAtQuadZero (rp_result s)"
    "p_moduleLeftStopped (rp_result s') = p_moduleLeftStopped (rp_result s)"
    unfolding s'_def using reverify_flags(1) [of T gate "''the SCP profile rollback''" s]
    by (auto simp: repair_rollback_def Let_def case_prod_beta outcome_flags_def split: bool.split option.split)
qed

text \<open>Leaving changes no setting.\<close>

definition write_flags :: "ScpSingleRepairResult \<Rightarrow> bool \<times> bool \<times> bool" where
  "write_flags r = (p_writeAttempted r, p_writeVerified r, p_rollbackVerified r)"

lemma park_exact:
  fixes s :: "'w repair"
  defines "s' \<equiv> repair_park T base gate settleDelay s"
  shows "banked (rlive s') = banked (rlive s)" "global (rlive s') = global (rlive s)"
    "write_flags (rp_result s') = write_flags (rp_result s)"
    "p_moduleLeftStopped (rp_result s') = p_moduleLeftStopped (rp_result s)"
    "p_selectorParkedAtQuadZero (rp_result s') \<Longrightarrow> p_selectorParkedAtQuadZero (rp_result s) \<or> selector (rlive s') = 0"
  unfolding s'_def using reverify_flags(1) [of T gate "''the SCP profile selector parking''" s]
  by (auto simp: repair_park_def case_prod_beta selector_write outcome_flags_def write_flags_def split: bool.splits if_splits)

lemma reset_exact:
  fixes s :: "'w repair" and n nm :: string
  assumes "offset \<in> {Fw2051FifoResetRegister, Fw2051ReadoutResetRegister}" "\<And>r. outcome_flags (sent r) = outcome_flags r"
  defines "s' \<equiv> repair_reset T base gate n nm offset sent s"
  shows "banked (rlive s') = banked (rlive s)" "selector (rlive s') = selector (rlive s)"
    "outcome_flags (rp_result s') = outcome_flags (rp_result s)"
  unfolding s'_def using assms(1,2) by (auto simp: repair_reset_def case_prod_beta command_write split: bool.split)

lemma final_exact:
  fixes s :: "'w repair"
  defines "s' \<equiv> repair_final T base gate s"
  shows "rlive s' = rlive s" "write_flags (rp_result s') = write_flags (rp_result s)"
    "p_selectorParkedAtQuadZero (rp_result s') = p_selectorParkedAtQuadZero (rp_result s)"
    "p_moduleLeftStopped (rp_result s') \<Longrightarrow> p_moduleLeftStopped (rp_result s) \<or> rstopped s'"
proof -
  have reads: "mdpp_read m Fw2051AcquisitionControlRegister = global m Fw2051AcquisitionControlRegister" for m
    using command_registers by (simp add: mdpp_read_def)
  note shown = rp_read_shows [of _ _ Fw2051AcquisitionControlRegister, unfolded reads]
  note flags = reverify_flags(1) [of T gate "''the SCP profile final stopped-state verification''" s]
  show "rlive s' = rlive s" by (auto simp: s'_def repair_final_def case_prod_beta split: bool.split option.split)
  show "write_flags (rp_result s') = write_flags (rp_result s)"
    "p_selectorParkedAtQuadZero (rp_result s') = p_selectorParkedAtQuadZero (rp_result s)"
    using flags by (auto simp: s'_def repair_final_def case_prod_beta outcome_flags_def write_flags_def split: bool.split option.split)
  show "p_moduleLeftStopped (rp_result s') \<Longrightarrow> p_moduleLeftStopped (rp_result s) \<or> rstopped s'"
    using flags by (auto simp: s'_def repair_final_def case_prod_beta outcome_flags_def dest!: shown split: bool.splits option.splits if_splits)
qed

lemma leave_exact:
  fixes s :: "'w repair"
  assumes "\<not> p_selectorParkedAtQuadZero (rp_result s)" "\<not> p_moduleLeftStopped (rp_result s)"
  defines "s' \<equiv> repair_leave T base gate settleDelay s"
  shows "banked (rlive s') = banked (rlive s)" "write_flags (rp_result s') = write_flags (rp_result s)"
    "p_selectorParkedAtQuadZero (rp_result s') \<Longrightarrow> selector (rlive s') = 0" "p_moduleLeftStopped (rp_result s') \<Longrightarrow> rstopped s'"
proof -
  define s1 where "s1 = repair_park T base gate settleDelay s"
  define s2 where "s2 = repair_reset T base gate ''the SCP profile FIFO reset'' ''reset FIFO'' Fw2051FifoResetRegister
      (p_fifoResetSent_update (\<lambda>_. True)) s1"
  define s3 where "s3 = repair_reset T base gate ''the SCP profile readout reset'' ''reset readout'' Fw2051ReadoutResetRegister
      (p_readoutResetSent_update (\<lambda>_. True)) s2"
  have s': "s' = repair_final T base gate s3" by (simp add: s'_def repair_leave_def Let_def s1_def s2_def s3_def)
  note e1 = park_exact [of s, folded s1_def]
  have e2: "banked (rlive s2) = banked (rlive s1)" "selector (rlive s2) = selector (rlive s1)" "outcome_flags (rp_result s2) = outcome_flags (rp_result s1)"
    unfolding s2_def by (rule reset_exact; simp add: outcome_flags_def)+
  have e3: "banked (rlive s3) = banked (rlive s2)" "selector (rlive s3) = selector (rlive s2)" "outcome_flags (rp_result s3) = outcome_flags (rp_result s2)"
    unfolding s3_def by (rule reset_exact; simp add: outcome_flags_def)+
  note e4 = final_exact [of s3, folded s']
  show "banked (rlive s') = banked (rlive s)" "write_flags (rp_result s') = write_flags (rp_result s)"
    "p_selectorParkedAtQuadZero (rp_result s') \<Longrightarrow> selector (rlive s') = 0" "p_moduleLeftStopped (rp_result s') \<Longrightarrow> rstopped s'"
    using e1 e2 e3 e4 assms(1,2) by (auto simp: outcome_flags_def write_flags_def)
qed

lemma repair_exact:
  assumes run: "RepairFw2051ScpProfileValue T req (Some gate) settleDelay w = (res, w')" and base: "base = rq_baseAddress req"
  defines "B \<equiv> banked (dev w)"
  defines "B' \<equiv> put_bank B (rq_quad req) (rq_registerOffset req) (rq_profileValue req)"
  shows "banked (dev w') \<in> {B, B'}" "\<not> p_writeAttempted res \<Longrightarrow> banked (dev w') = B"
    "p_writeAttempted res \<Longrightarrow> refuse_repair req = None \<and> (\<exists>d. FindFw2051ScpSetting (rq_registerOffset req) = Some d \<and> repair_checked req d (dev w))"
    "p_state res = RepairPassed \<Longrightarrow> banked (dev w') = B' \<and> selector (dev w') = 0 \<and> p_writeAttempted res
       \<and> global (dev w') Fw2051AcquisitionControlRegister = Fw2051StopAcquisitionValue"
    "p_rollbackVerified res \<Longrightarrow> banked (dev w') = B"
proof -
  let ?goal = "banked (dev w') \<in> {B, B'} \<and> (\<not> p_writeAttempted res \<longrightarrow> banked (dev w') = B)
    \<and> (p_writeAttempted res \<longrightarrow> refuse_repair req = None \<and> (\<exists>d. FindFw2051ScpSetting (rq_registerOffset req) = Some d \<and> repair_checked req d (dev w)))
    \<and> (p_state res = RepairPassed \<longrightarrow> banked (dev w') = B' \<and> selector (dev w') = 0 \<and> p_writeAttempted res
       \<and> global (dev w') Fw2051AcquisitionControlRegister = Fw2051StopAcquisitionValue)
    \<and> (p_rollbackVerified res \<longrightarrow> banked (dev w') = B)"
  let ?own = "rp_reverify T gate ''the retained SCP profile repair'' (begin_repair req w)"
  have s0: "rlive (begin_repair req w) = dev w" "owned (begin_repair req w)"
      "outcome_flags (rp_result (begin_repair req w)) = (False, False, False, False, False)"
    by (simp_all add: rlive_def begin_repair_def owned_def outcome_flags_def begin_repair_result_def)
  have own: "dev (snd (rp_bus (snd ?own))) = dev w"
    using rlive_reverify [of "''the retained SCP profile repair''" "begin_repair req w"] s0(1) by (simp add: rlive_def)
  have ?goal
  proof (cases "refuse_repair req = None \<and> fst ?own")
    case False
    then have "banked (dev w') = B" "\<not> p_writeAttempted res" "p_state res = RepairFailed" "\<not> p_rollbackVerified res"
      using run s0(3) own reverify_flags(1) [of T gate "''the retained SCP profile repair''" "begin_repair req w"]
      by (auto simp: RepairFw2051ScpProfileValue_def begin_repair_result_def B_def case_prod_beta Let_def outcome_flags_def
          split: option.splits)
    then show ?thesis by simp
  next
    case True
    then obtain d where d: "FindFw2051ScpSetting (rq_registerOffset req) = Some d"
      by (auto simp: refuse_repair_def split: if_splits)
    then have reg: "rq_registerOffset req \<in> set fw2051_registers" "d \<in> set Fw2051ScpSettingRegistry"
      using FindFw2051ScpSetting_None [of "rq_registerOffset req"] FindFw2051ScpSetting_SomeD [OF d] by auto
    define s2 where "s2 = repair_approach T req gate settleDelay d (snd ?own)"
    define s3 where "s3 = repair_write T base gate settleDelay (rq_registerOffset req) (rq_profileValue req) s2"
    define s4 where "s4 = repair_rollback T base gate settleDelay (rq_registerOffset req) s3"
    define s5 where "s5 = repair_leave T base gate settleDelay s4"
    have out: "res = repair_finish s5" "w' = snd (rp_bus s5)"
      using run True d base by (simp_all add: RepairFw2051ScpProfileValue_def case_prod_beta Let_def s2_def s3_def s4_def s5_def)
    have owned: "owned (snd ?own)" using True by (simp add: owned_def)
    have s2: "approached req d (dev w) s2" "outcome_flags (rp_result s2) = (False, False, False, False, False)"
      using approach_exact [OF owned base] s0 by (simp_all add: s2_def)
    then have f2: "\<not> p_writeAttempted (rp_result s2)" "\<not> p_writeVerified (rp_result s2)" "\<not> p_rollbackVerified (rp_result s2)"
        "\<not> p_selectorParkedAtQuadZero (rp_result s2)" "\<not> p_moduleLeftStopped (rp_result s2)" by (simp_all add: outcome_flags_def)
    note e3 = write_exact [OF s2(1) f2(1-3) reg, folded s3_def]
    have "\<not> p_rollbackVerified (rp_result s3)" using f2(3) reverify_flags(1) [of T gate "''the SCP profile write''" s2]
      by (auto simp: s3_def repair_write_def Let_def case_prod_beta outcome_flags_def split: bool.split option.split)
    note e4 = rollback_exact [OF e3(1) reg(1) this, folded s4_def]
    note e5 = leave_exact [of s4, folded s5_def]
    have "\<not> p_selectorParkedAtQuadZero (rp_result s4)" "\<not> p_moduleLeftStopped (rp_result s4)" using e3 e4 f2 by simp_all
    note e5 = e5 [OF this]
    have fin: "write_flags res = write_flags (rp_result s5)"
        "p_state res = RepairPassed \<Longrightarrow> p_writeVerified (rp_result s5) \<and> p_selectorParkedAtQuadZero (rp_result s5) \<and> p_moduleLeftStopped (rp_result s5)"
      by (auto simp: out(1) repair_finish_def write_flags_def Let_def split: if_splits)
    show ?thesis
      using e4(1) e5 fin True d out(2) by (auto simp: written_def write_flags_def Let_def B_def B'_def rlive_def)
  qed
  then show "banked (dev w') \<in> {B, B'}" "\<not> p_writeAttempted res \<Longrightarrow> banked (dev w') = B"
    "p_writeAttempted res \<Longrightarrow> refuse_repair req = None \<and> (\<exists>d. FindFw2051ScpSetting (rq_registerOffset req) = Some d \<and> repair_checked req d (dev w))"
    "p_state res = RepairPassed \<Longrightarrow> banked (dev w') = B' \<and> selector (dev w') = 0 \<and> p_writeAttempted res
       \<and> global (dev w') Fw2051AcquisitionControlRegister = Fw2051StopAcquisitionValue"
    "p_rollbackVerified res \<Longrightarrow> banked (dev w') = B" by blast+
qed

end

subsection \<open>Which writes a repair makes\<close>

text \<open>
  The writes of the blocks up to the setting, and of the whole operation; whatever these writes
  keep of a module, the operation keeps, whichever of its accesses fail.
\<close>

definition approach_writes :: "u16 \<Rightarrow> u16 \<Rightarrow> u16 \<Rightarrow> bool" where
  "approach_writes q r v \<longleftrightarrow> r = Fw2051AcquisitionControlRegister \<and> v = Fw2051StopAcquisitionValue
     \<or> r = Fw2051ScpSelectorRegister \<and> v = q"

definition repair_writes :: "ScpSingleRepairRequest \<Rightarrow> u16 \<Rightarrow> u16 \<Rightarrow> bool" where
  "repair_writes req r v \<longleftrightarrow> approach_writes (rq_quad req) r v \<or> r = Fw2051ScpSelectorRegister \<and> v = 0
     \<or> r = rq_registerOffset req \<or> r \<in> {Fw2051FifoResetRegister, Fw2051ReadoutResetRegister} \<and> v = Fw2051ResetCommandValue"

definition kept_by :: "(u16 \<Rightarrow> u16 \<Rightarrow> bool) \<Rightarrow> (mdpp \<Rightarrow> bool) \<Rightarrow> bool" where
  "kept_by may J \<longleftrightarrow> (\<forall>m r v. may r v \<longrightarrow> J m \<longrightarrow> J (mdpp_write m r v))"

text \<open>The two resets are sent after the write only, and marked as sent when they were.\<close>

definition reset_flags :: "ScpSingleRepairResult \<Rightarrow> bool \<times> bool" where
  "reset_flags r = (p_fifoResetSent r, p_readoutResetSent r)"

lemma reset_flags_reverify [simp]:
  "p_fifoResetSent (rp_result (snd (rp_reverify T gate n s))) = p_fifoResetSent (rp_result s)"
  "p_readoutResetSent (rp_result (snd (rp_reverify T gate n s))) = p_readoutResetSent (rp_result s)"
  "reset_flags (rp_result (snd (rp_reverify T gate n s))) = reset_flags (rp_result s)"
  by (auto simp: rp_reverify_def case_prod_beta Let_def reset_flags_def)

lemma reset_flags_updates [simp]:
  "reset_flags (r\<lparr>p_moduleStopSent := x\<rparr>) = reset_flags r" "reset_flags (r\<lparr>p_moduleStopVerified := x\<rparr>) = reset_flags r"
  "reset_flags (r\<lparr>p_dependencyName := n\<rparr>) = reset_flags r"
  "reset_flags (r\<lparr>p_dependencyValue := v\<rparr>) = reset_flags r" "reset_flags (r\<lparr>p_dependencyChecked := x\<rparr>) = reset_flags r"
  "reset_flags (r\<lparr>p_capturedLiveValue := v\<rparr>) = reset_flags r" "reset_flags (r\<lparr>p_liveValueCaptured := x\<rparr>) = reset_flags r"
  "reset_flags (r\<lparr>p_writeAttempted := x\<rparr>) = reset_flags r" "reset_flags (r\<lparr>p_appliedReadback := v\<rparr>) = reset_flags r"
  "reset_flags (r\<lparr>p_writeVerified := x\<rparr>) = reset_flags r" "reset_flags (r\<lparr>p_profileValueRetained := x\<rparr>) = reset_flags r"
  "reset_flags (r\<lparr>p_rollbackAttempted := x\<rparr>) = reset_flags r" "reset_flags (r\<lparr>p_rollbackReadback := v\<rparr>) = reset_flags r"
  "reset_flags (r\<lparr>p_rollbackVerified := x\<rparr>) = reset_flags r" "reset_flags (r\<lparr>p_selectorParkedAtQuadZero := x\<rparr>) = reset_flags r"
  "reset_flags (r\<lparr>p_moduleLeftStopped := x\<rparr>) = reset_flags r"
  by (simp_all add: reset_flags_def)

lemma reset_flags_steps:
  "reset_flags (rp_result (repair_identity T base s)) = reset_flags (rp_result s)"
  "reset_flags (rp_result (repair_stop T base gate s)) = reset_flags (rp_result s)"
  "reset_flags (rp_result (repair_select T base gate settleDelay q s)) = reset_flags (rp_result s)"
  "reset_flags (rp_result (repair_dependency T base d pv s)) = reset_flags (rp_result s)"
  "reset_flags (rp_result (repair_capture T base r ev s)) = reset_flags (rp_result s)"
  "reset_flags (rp_result (repair_write T base gate settleDelay r pv s)) = reset_flags (rp_result s)"
  "reset_flags (rp_result (repair_rollback T base gate settleDelay r s)) = reset_flags (rp_result s)"
  "reset_flags (rp_result (repair_park T base gate settleDelay s)) = reset_flags (rp_result s)"
  "reset_flags (rp_result (repair_final T base gate s)) = reset_flags (rp_result s)"
  by (auto simp: repair_identity_def repair_stop_def repair_select_def repair_dependency_def repair_capture_def repair_write_def repair_rollback_def
      repair_park_def repair_final_def case_prod_beta Let_def split: option.split bool.split)

lemma reset_flags_approach:
  "reset_flags (rp_result (repair_approach T req gate settleDelay d s)) = reset_flags (rp_result s)"
  unfolding repair_approach_def Let_def by (simp add: reset_flags_steps)

text \<open>
  What a repair may have done to a module: the selector is as it was, at the requested quad or
  parked; acquisition as it was or stopped; the two reset registers as they were or commanded;
  no other register outside the banks has changed.
\<close>

definition repair_frame :: "ScpSingleRepairRequest \<Rightarrow> mdpp \<Rightarrow> mdpp \<Rightarrow> bool" where
  "repair_frame req m m' \<longleftrightarrow> selector m' \<in> {selector m, rq_quad req, 0}
     \<and> global m' Fw2051AcquisitionControlRegister \<in> {global m Fw2051AcquisitionControlRegister, Fw2051StopAcquisitionValue}
     \<and> global m' Fw2051FifoResetRegister \<in> {global m Fw2051FifoResetRegister, Fw2051ResetCommandValue}
     \<and> global m' Fw2051ReadoutResetRegister \<in> {global m Fw2051ReadoutResetRegister, Fw2051ResetCommandValue}
     \<and> (\<forall>r. r \<notin> {Fw2051AcquisitionControlRegister, Fw2051FifoResetRegister, Fw2051ReadoutResetRegister} \<longrightarrow> global m' r = global m r)"

text \<open>Neither reset register has been written.\<close>

definition unreset :: "mdpp \<Rightarrow> mdpp \<Rightarrow> bool" where
  "unreset m m' \<longleftrightarrow> global m' Fw2051FifoResetRegister = global m Fw2051FifoResetRegister
     \<and> global m' Fw2051ReadoutResetRegister = global m Fw2051ReadoutResetRegister"

lemma repair_registers:
  "mdpp_write m Fw2051AcquisitionControlRegister v = m\<lparr>global := (global m)(Fw2051AcquisitionControlRegister := v)\<rparr>"
  "mdpp_write m Fw2051FifoResetRegister v = m\<lparr>global := (global m)(Fw2051FifoResetRegister := v)\<rparr>"
  "mdpp_write m Fw2051ReadoutResetRegister v = m\<lparr>global := (global m)(Fw2051ReadoutResetRegister := v)\<rparr>"
  "mdpp_write m Fw2051ScpSelectorRegister v = m\<lparr>selector := v\<rparr>"
  "r \<in> set fw2051_registers \<Longrightarrow> mdpp_write m r v = m\<lparr>banked := put_bank (banked m) (selector m) r v\<rparr>"
  using command_registers
  by (auto simp: mdpp_write_def put_bank_def Fw2051ScpSelectorRegister_def fw2051_registers_eq Fw2051FifoResetRegister_def
      Fw2051ReadoutResetRegister_def)

lemma repair_distinct:
  "Fw2051FifoResetRegister \<noteq> Fw2051ReadoutResetRegister" "Fw2051ReadoutResetRegister \<noteq> Fw2051FifoResetRegister"
  "Fw2051AcquisitionControlRegister \<noteq> Fw2051FifoResetRegister" "Fw2051FifoResetRegister \<noteq> Fw2051AcquisitionControlRegister"
  "Fw2051AcquisitionControlRegister \<noteq> Fw2051ReadoutResetRegister" "Fw2051ReadoutResetRegister \<noteq> Fw2051AcquisitionControlRegister"
  by (simp_all add: Fw2051FifoResetRegister_def Fw2051ReadoutResetRegister_def Fw2051AcquisitionControlRegister_def)

lemma kept_approach: "kept_by (approach_writes (rq_quad req)) (repair_frame req m)" "kept_by (approach_writes q) (unreset m)"
  unfolding kept_by_def approach_writes_def
  by (auto simp: repair_registers repair_frame_def unreset_def repair_distinct)

lemma kept_repair:
  assumes "rq_registerOffset req \<in> set fw2051_registers"
  shows "kept_by (repair_writes req) (repair_frame req m)"
    "kept_by (repair_writes req) (\<lambda>m. global m Fw2051AcquisitionControlRegister = Fw2051StopAcquisitionValue)"
proof -
  note writes = repair_registers(1-4) repair_registers(5) [OF assms]
  show "kept_by (repair_writes req) (repair_frame req m)"
    unfolding kept_by_def
  proof (intro allI impI)
    fix n r v assume "repair_writes req r v" and frame: "repair_frame req m n"
    then consider "r = Fw2051AcquisitionControlRegister" "v = Fw2051StopAcquisitionValue"
      | "r = Fw2051ScpSelectorRegister" "v \<in> {rq_quad req, 0}" | "r = rq_registerOffset req"
      | "r = Fw2051FifoResetRegister" "v = Fw2051ResetCommandValue" | "r = Fw2051ReadoutResetRegister" "v = Fw2051ResetCommandValue"
      unfolding repair_writes_def approach_writes_def by blast
    then show "repair_frame req m (mdpp_write n r v)"
      using frame by cases (simp_all add: writes repair_frame_def repair_distinct)
  qed
  show "kept_by (repair_writes req) (\<lambda>m. global m Fw2051AcquisitionControlRegister = Fw2051StopAcquisitionValue)"
    unfolding kept_by_def repair_writes_def approach_writes_def by (auto simp: writes repair_distinct)
qed

context supervised_repair
begin

lemma kept_write: "kept_by may J \<Longrightarrow> may r v \<Longrightarrow> J (rlive s) \<Longrightarrow> J (rlive (snd (rp_write T base op nm r v s)))"
  using rp_write_maybe [of op nm r v s] by (auto simp: kept_by_def)

lemma approach_keeps:
  assumes J: "kept_by (approach_writes (rq_quad req)) J" and "J (rlive s)" and base: "base = rq_baseAddress req"
  shows "J (rlive (repair_approach T req gate settleDelay d s))"
proof -
  have may: "approach_writes (rq_quad req) Fw2051AcquisitionControlRegister Fw2051StopAcquisitionValue"
    "approach_writes (rq_quad req) Fw2051ScpSelectorRegister (rq_quad req)" by (simp_all add: approach_writes_def)
  note w = kept_write [OF J may(1)] kept_write [OF J may(2)]
  have "J (rlive s) \<Longrightarrow> J (rlive (repair_stop T base gate s))" for s
    by (auto simp: repair_stop_def case_prod_beta w split: option.split bool.split)
  moreover have "J (rlive s) \<Longrightarrow> J (rlive (repair_select T base gate settleDelay (rq_quad req) s))" for s
    by (auto simp: repair_select_def case_prod_beta w split: bool.split)
  ultimately show ?thesis
    using assms(2) unfolding repair_approach_def Let_def base [symmetric]
    by (simp add: identity_exact dependency_exact capture_value_exact)
qed

lemma rest_keeps:
  fixes s :: "'w repair"
  assumes J: "kept_by (repair_writes req) J" and "J (rlive s)"
  defines "s' \<equiv> repair_leave T base gate settleDelay (repair_rollback T base gate settleDelay (rq_registerOffset req)
     (repair_write T base gate settleDelay (rq_registerOffset req) (rq_profileValue req) s))"
  shows "J (rlive s')"
proof -
  have may: "repair_writes req (rq_registerOffset req) v" "repair_writes req Fw2051ScpSelectorRegister 0"
    "repair_writes req Fw2051FifoResetRegister Fw2051ResetCommandValue"
    "repair_writes req Fw2051ReadoutResetRegister Fw2051ResetCommandValue" for v by (simp_all add: repair_writes_def)
  note w = kept_write [OF J may(1)] kept_write [OF J may(2)] kept_write [OF J may(3)] kept_write [OF J may(4)]
  have "J (rlive s) \<Longrightarrow> J (rlive (repair_write T base gate settleDelay (rq_registerOffset req) v s))" for s v
    by (auto simp: repair_write_def case_prod_beta Let_def w split: option.split bool.split)
  moreover have "J (rlive s) \<Longrightarrow> J (rlive (repair_rollback T base gate settleDelay (rq_registerOffset req) s))" for s
    by (auto simp: repair_rollback_def case_prod_beta Let_def w split: option.split bool.split)
  moreover have "J (rlive s) \<Longrightarrow> J (rlive (repair_park T base gate settleDelay s))" for s
    by (auto simp: repair_park_def case_prod_beta w split: bool.split)
  moreover have "J (rlive s) \<Longrightarrow> J (rlive (repair_reset T base gate n nm r f s))"
    if "r \<in> {Fw2051FifoResetRegister, Fw2051ReadoutResetRegister}" for n nm r f s
    using that by (auto simp: repair_reset_def case_prod_beta w split: bool.split)
  ultimately show ?thesis
    using assms(2) by (simp add: s'_def repair_leave_def Let_def final_exact(1))
qed


text \<open>A module that is refused by its identity is left as it was found.\<close>

lemma refused_untouched:
  assumes "base = rq_baseAddress req"
    and "\<not> p_moduleStopVerified (rp_result s)" "\<not> p_writeAttempted (rp_result s)" "\<not> selectorWasWritten s"
    and "\<not> (IsWriteApprovedMdpp32HardwareId (global (rlive s) 0x6008) \<and> global (rlive s) 0x600E = Mdpp32ScpFirmwareRevisionFw2051)"
  shows "rlive (repair_leave T base gate settleDelay (repair_rollback T base gate settleDelay (rq_registerOffset req)
     (repair_write T base gate settleDelay (rq_registerOffset req) (rq_profileValue req)
       (repair_approach T req gate settleDelay d s)))) = rlive s"
proof -
  define t where "t = repair_identity T base s"
  have t: "rp_failure t \<noteq> []" "rp_result t = rp_result s" "selectorWasWritten t = selectorWasWritten s" "rlive t = rlive s"
    using identity_exact [of s] assms(5) by (auto simp: t_def)
  then have "repair_approach T req gate settleDelay d s = t"
    using assms(2) by (simp add: repair_approach_def Let_def assms(1) [symmetric] t_def [symmetric] repair_stop_def repair_select_def
        repair_dependency_def repair_capture_def)
  then show ?thesis
    using t assms(2-4) by (simp add: repair_write_def repair_rollback_def repair_leave_def Let_def repair_park_def repair_reset_def
        repair_final_def)
qed

lemma leave_resets:
  assumes "reset_flags (rp_result s) = (False, False)"
  defines "s' \<equiv> repair_leave T base gate settleDelay s"
  shows "p_fifoResetSent (rp_result s') \<Longrightarrow> p_readoutResetSent (rp_result s') \<Longrightarrow>
      global (rlive s') Fw2051FifoResetRegister = Fw2051ResetCommandValue
      \<and> global (rlive s') Fw2051ReadoutResetRegister = Fw2051ResetCommandValue"
    and "\<not> p_writeAttempted (rp_result s) \<Longrightarrow> global (rlive s') = global (rlive s)"
proof -
  define s1 where "s1 = repair_park T base gate settleDelay s"
  define s2 where "s2 = repair_reset T base gate ''the SCP profile FIFO reset'' ''reset FIFO'' Fw2051FifoResetRegister
      (p_fifoResetSent_update (\<lambda>_. True)) s1"
  define s3 where "s3 = repair_reset T base gate ''the SCP profile readout reset'' ''reset readout'' Fw2051ReadoutResetRegister
      (p_readoutResetSent_update (\<lambda>_. True)) s2"
  have s': "s' = repair_final T base gate s3" by (simp add: s'_def repair_leave_def Let_def s1_def s2_def s3_def)
  have f1: "reset_flags (rp_result s1) = (False, False)" using assms(1) by (simp add: s1_def reset_flags_steps)
  have effect: "global (rlive (snd (rp_write T base op nm r v t))) r = v"
    if "fst (rp_write T base op nm r v t)" "r \<in> {Fw2051FifoResetRegister, Fw2051ReadoutResetRegister}" for op nm r v t
    using rp_write_happened [OF that(1)] that(2) command_registers by (auto simp: mdpp_write_def)
  have e2: "p_readoutResetSent (rp_result s2) = False"
    "p_fifoResetSent (rp_result s2) \<Longrightarrow> global (rlive s2) Fw2051FifoResetRegister = Fw2051ResetCommandValue"
    using f1 by (auto simp: s2_def repair_reset_def case_prod_beta effect reset_flags_def split: bool.splits if_splits)
  have e3: "p_fifoResetSent (rp_result s3) = p_fifoResetSent (rp_result s2)"
    "p_readoutResetSent (rp_result s3) \<Longrightarrow> global (rlive s3) Fw2051ReadoutResetRegister = Fw2051ResetCommandValue"
    "global (rlive s3) Fw2051FifoResetRegister = global (rlive s2) Fw2051FifoResetRegister"
    using e2(1) by (auto simp: s3_def repair_reset_def case_prod_beta effect command_write Fw2051FifoResetRegister_def
        Fw2051ReadoutResetRegister_def split: bool.splits if_splits)
  have "reset_flags (rp_result s') = reset_flags (rp_result s3)" by (simp add: s' reset_flags_steps)
  then show "p_fifoResetSent (rp_result s') \<Longrightarrow> p_readoutResetSent (rp_result s') \<Longrightarrow>
      global (rlive s') Fw2051FifoResetRegister = Fw2051ResetCommandValue
      \<and> global (rlive s') Fw2051ReadoutResetRegister = Fw2051ResetCommandValue"
    using e2 e3 by (simp add: s' final_exact(1) reset_flags_def)
  have "global (rlive s1) = global (rlive s)" "p_writeAttempted (rp_result s1) = p_writeAttempted (rp_result s)"
    using park_exact(2,3) [of s] by (simp_all add: s1_def write_flags_def)
  then show "\<not> p_writeAttempted (rp_result s) \<Longrightarrow> global (rlive s') = global (rlive s)"
    by (simp add: s' final_exact(1) s2_def s3_def repair_reset_def)
qed

lemma leave_attempted: "p_writeAttempted (rp_result (repair_leave T base gate settleDelay s)) = p_writeAttempted (rp_result s)"
proof -
  have "write_flags (rp_result (repair_reset T base gate n nm r f t)) = write_flags (rp_result t)"
    if "\<And>r. write_flags (f r) = write_flags r" for n nm r f t
    using that reverify_flags(1) [of T gate n t]
    by (auto simp: repair_reset_def case_prod_beta outcome_flags_def write_flags_def split: bool.split)
  then show ?thesis
    using final_exact(2) park_exact(3) by (simp add: repair_leave_def Let_def write_flags_def)
qed

text \<open>What the operation leaves of the module.\<close>

lemma repair_framed:
  assumes run: "RepairFw2051ScpProfileValue T req (Some gate) settleDelay w = (res, w')" and base: "base = rq_baseAddress req"
  shows "repair_frame req (dev w) (dev w')"
    "refuse_repair req \<noteq> None \<or> \<not> IsWriteApprovedMdpp32HardwareId (global (dev w) 0x6008)
       \<or> global (dev w) 0x600E \<noteq> Mdpp32ScpFirmwareRevisionFw2051 \<Longrightarrow> dev w' = dev w"
    "p_writeAttempted res \<Longrightarrow> global (dev w') Fw2051AcquisitionControlRegister = Fw2051StopAcquisitionValue"
    "\<not> p_writeAttempted res \<Longrightarrow> unreset (dev w) (dev w')"
    "p_state res = RepairPassed \<Longrightarrow> global (dev w') Fw2051FifoResetRegister = Fw2051ResetCommandValue
       \<and> global (dev w') Fw2051ReadoutResetRegister = Fw2051ResetCommandValue"
proof -
  let ?own = "rp_reverify T gate ''the retained SCP profile repair'' (begin_repair req w)"
  let ?stopped = "\<lambda>m. global m Fw2051AcquisitionControlRegister = Fw2051StopAcquisitionValue"
  let ?goal = "repair_frame req (dev w) (dev w')
    \<and> (refuse_repair req \<noteq> None \<or> \<not> IsWriteApprovedMdpp32HardwareId (global (dev w) 0x6008)
         \<or> global (dev w) 0x600E \<noteq> Mdpp32ScpFirmwareRevisionFw2051 \<longrightarrow> dev w' = dev w)
    \<and> (p_writeAttempted res \<longrightarrow> ?stopped (dev w')) \<and> (\<not> p_writeAttempted res \<longrightarrow> unreset (dev w) (dev w'))
    \<and> (p_state res = RepairPassed \<longrightarrow> global (dev w') Fw2051FifoResetRegister = Fw2051ResetCommandValue
         \<and> global (dev w') Fw2051ReadoutResetRegister = Fw2051ResetCommandValue)"
  have own: "rlive (snd ?own) = dev w" "rp_result (begin_repair req w) = begin_repair_result req"
    "\<not> selectorWasWritten (snd ?own)" "owned (begin_repair req w)"
    using rlive_reverify [of "''the retained SCP profile repair''" "begin_repair req w"]
    by (simp_all add: begin_repair_def owned_def rlive_def)
  have ?goal
  proof (cases "refuse_repair req = None \<and> fst ?own")
    case False
    then have "dev w' = dev w" "\<not> p_writeAttempted res" "p_state res = RepairFailed"
      using run own(1,2) reverify_flags(1) [of T gate "''the retained SCP profile repair''" "begin_repair req w"]
      by (auto simp: RepairFw2051ScpProfileValue_def begin_repair_result_def case_prod_beta Let_def outcome_flags_def rlive_def
          split: option.splits)
    then show ?thesis by (simp add: repair_frame_def unreset_def)
  next
    case True
    then obtain d where d: "FindFw2051ScpSetting (rq_registerOffset req) = Some d"
      by (auto simp: refuse_repair_def split: if_splits)
    then have reg: "rq_registerOffset req \<in> set fw2051_registers"
      using FindFw2051ScpSetting_None [of "rq_registerOffset req"] by auto
    have begun: "rp_result (snd ?own) = begin_repair_result req" "owned (snd ?own)" using True own(2) by (simp_all add: owned_def)
    define s2 where "s2 = repair_approach T req gate settleDelay d (snd ?own)"
    define s3 where "s3 = repair_write T base gate settleDelay (rq_registerOffset req) (rq_profileValue req) s2"
    define s4 where "s4 = repair_rollback T base gate settleDelay (rq_registerOffset req) s3"
    define s5 where "s5 = repair_leave T base gate settleDelay s4"
    have out: "res = repair_finish s5" "dev w' = rlive s5"
      using run True d base by (simp_all add: RepairFw2051ScpProfileValue_def case_prod_beta Let_def s2_def s3_def s4_def s5_def rlive_def)
    note approach = approach_exact [OF begun(2) base, of d, folded s2_def]
    have f2: "\<not> p_writeAttempted (rp_result s2)" "\<not> p_writeVerified (rp_result s2)" "\<not> p_rollbackVerified (rp_result s2)"
        "reset_flags (rp_result s2) = (False, False)"
      using approach(2) begun(1) reset_flags_approach [of T req gate settleDelay d "snd ?own", folded s2_def]
      by (simp_all add: outcome_flags_def reset_flags_def begin_repair_result_def)
    have f4: "p_writeAttempted (rp_result s4) = p_writeAttempted (rp_result s3)" "reset_flags (rp_result s4) = (False, False)"
      "\<not> p_writeAttempted (rp_result s3) \<Longrightarrow> s4 = s3"
      using f2(4) reverify_flags(1) [of T gate "''the SCP profile rollback''" s3]
      by (auto simp: s4_def s3_def reset_flags_steps repair_rollback_def Let_def case_prod_beta outcome_flags_def
          split: bool.split option.split)
    note leave = leave_resets [OF f4(2), folded s5_def]
    have f5: "p_writeAttempted res = p_writeAttempted (rp_result s3)"
      by (simp add: out(1) repair_finish_def Let_def s5_def leave_attempted f4(1))
    note rest = rest_keeps [where req = req and s = s2, folded s3_def, folded s4_def, folded s5_def]
    have s2: "approached req d (dev w) s2" "repair_frame req (dev w) (rlive s2)" "unreset (dev w) (rlive s2)"
      using approach(1) own(1) approach_keeps [OF kept_approach(1) _ base, of "dev w" "snd ?own" d]
        approach_keeps [OF kept_approach(2) _ base, of "dev w" "snd ?own" d]
      by (simp_all add: s2_def repair_frame_def unreset_def)
    have "repair_frame req (dev w) (dev w')" using rest [OF kept_repair(1) [OF reg] s2(2)] out(2) by simp
    moreover have "dev w' = dev w" if "\<not> IsWriteApprovedMdpp32HardwareId (global (dev w) 0x6008)
         \<or> global (dev w) 0x600E \<noteq> Mdpp32ScpFirmwareRevisionFw2051"
      using refused_untouched [OF base, of "snd ?own" d, folded s2_def, folded s3_def, folded s4_def, folded s5_def]
        that own begun(1) out(2) by (simp add: begin_repair_result_def)
    moreover have "?stopped (dev w')" if "p_writeAttempted res"
    proof -
      have "rp_failure s2 = []" using that f2(1) by (auto simp: f5 s3_def repair_write_def split: if_splits)
      then have "?stopped (rlive s2)" using s2(1) by (simp add: approached_def)
      then show ?thesis using rest [OF kept_repair(2) [OF reg]] out(2) by simp
    qed
    moreover have "unreset (dev w) (dev w')" if "\<not> p_writeAttempted res"
    proof -
      have "rlive s3 = rlive s2" using that f2(1) unfolding f5
        by (auto simp: s3_def repair_write_def Let_def case_prod_beta split: bool.splits option.splits if_splits)
      then show ?thesis using that leave(2) f4(3) s2(3) out(2) f4(1) by (simp add: f5 unreset_def)
    qed
    moreover have "global (dev w') Fw2051FifoResetRegister = Fw2051ResetCommandValue
         \<and> global (dev w') Fw2051ReadoutResetRegister = Fw2051ResetCommandValue" if "p_state res = RepairPassed"
      using that leave(1) out by (auto simp: repair_finish_def Let_def split: if_splits)
    ultimately show ?thesis using True by (intro conjI impI) blast+
  qed
  then show "repair_frame req (dev w) (dev w')"
    "refuse_repair req \<noteq> None \<or> \<not> IsWriteApprovedMdpp32HardwareId (global (dev w) 0x6008)
       \<or> global (dev w) 0x600E \<noteq> Mdpp32ScpFirmwareRevisionFw2051 \<Longrightarrow> dev w' = dev w"
    "p_writeAttempted res \<Longrightarrow> global (dev w') Fw2051AcquisitionControlRegister = Fw2051StopAcquisitionValue"
    "\<not> p_writeAttempted res \<Longrightarrow> unreset (dev w) (dev w')"
    "p_state res = RepairPassed \<Longrightarrow> global (dev w') Fw2051FifoResetRegister = Fw2051ResetCommandValue
       \<and> global (dev w') Fw2051ReadoutResetRegister = Fw2051ResetCommandValue" by blast+
qed

end


subsection \<open>The couplings\<close>

lemma checked_put_coupled:
  assumes "quad_wf q" "coupled_ok q" "d \<in> set Fw2051ScpSettingRegistry"
    and "Fw2051ScpDependencySatisfied d v (the (Fw2051ScpQuadRegisterValue q (dependencyRegister d)))"
  shows "coupled_ok (snd (SetFw2051ScpQuadRegisterValue q (registerOffset d) v))"
  using assms unfolding Fw2051ScpSettingRegistry_def setting_row_def
  by (auto simp: coupled_ok_def SetFw2051ScpQuadRegisterValue_def Fw2051ScpQuadRegisterValue_def Fw2051ScpDependencySatisfied_def)

lemma put_bank_quads:
  assumes "i < 8" "d \<in> set Fw2051ScpSettingRegistry"
  shows "quad_of (put_bank B q (registerOffset d) v) (of_nat i) = (if of_nat i = q
    then snd (SetFw2051ScpQuadRegisterValue (quad_of B (of_nat i)) (registerOffset d) v) else quad_of B (of_nat i))"
proof (rule scp_bank.bank_ext)
  have r: "registerOffset d \<in> set fw2051_registers" using assms(2) by (simp add: fw2051_registers_def)
  fix x
  show "Fw2051ScpQuadRegisterValue (quad_of (put_bank B q (registerOffset d) v) (of_nat i)) x = Fw2051ScpQuadRegisterValue (if of_nat i = q
    then snd (SetFw2051ScpQuadRegisterValue (quad_of B (of_nat i)) (registerOffset d) v) else quad_of B (of_nat i)) x"
    using r by (cases "x \<in> set fw2051_registers") (auto simp: quad_of_register scp_bank.get_put scp_bank.get_unmapped put_bank_def)
qed (auto simp: set_register_wf set_register_quad)

lemma repaired_coupled:
  assumes "list_all coupled_ok (bank_quads B)" "d \<in> set Fw2051ScpSettingRegistry"
    and sat: "Fw2051ScpDependencySatisfied d v (B q (dependencyRegister d))"
  shows "list_all coupled_ok (bank_quads (put_bank B q (registerOffset d) v))"
proof -
  have "coupled_ok (quad_of (put_bank B q (registerOffset d) v) (of_nat i))" if i: "i < 8" for i
  proof -
    have ok: "coupled_ok (quad_of B (of_nat i))" using assms(1) i by (simp add: bank_quads_def list_all_iff)
    have "dependencyRule d = NoDependency \<or> dependencyRegister d \<in> set fw2051_registers"
      using assms(2) by (auto simp: Fw2051ScpSettingRegistry_def setting_row_def fw2051_registers_eq)
    then have "Fw2051ScpDependencySatisfied d v (the (Fw2051ScpQuadRegisterValue (quad_of B q) (dependencyRegister d)))"
      using sat by (auto simp: quad_of_register) (simp add: Fw2051ScpDependencySatisfied_def)
    then show ?thesis using ok checked_put_coupled [OF quad_of_wf _ assms(2)] by (auto simp: put_bank_quads [OF i assms(2)])
  qed
  then show ?thesis by (auto simp: bank_quads_def list_all_iff)
qed

subsection \<open>Without failures the repair passes\<close>

definition calm :: "'w repair \<Rightarrow> bool" where
  "calm s \<longleftrightarrow> rp_failure s = [] \<and> rp_ownershipAvailable s"

lemma calm_update [simp]:
  "calm (rp_note f s) = calm s" "calm (s\<lparr>selectorWasWritten := x\<rparr>) = calm s" "calm (waitForSettle sd n s) = calm s"
  by (simp_all add: calm_def)

locale responsive_repair = responsive_module T base dev + supervised_repair T base dev gate settleDelay
  for T :: "'w transport" and base dev gate settleDelay +
  assumes gate_allows: "g_status (fst (gate n w)) = Allowed"
begin

lemma answered [simp]:
  "fst (rp_write T base op nm r v s)" "fst (rp_read T base op nm r s) = Some (mdpp_read (rlive s) r)"
proof -
  show "fst (rp_write T base op nm r v s)"
    using write_returns [of r v "rp_bus s"] by (auto simp: rp_write_def case_prod_beta)
  obtain v where "fst (rp_read T base op nm r s) = Some v"
    using read_returns [of r "rp_bus s"] by (auto simp: rp_read_def case_prod_beta)
  then show "fst (rp_read T base op nm r s) = Some (mdpp_read (rlive s) r)" using rp_read_shows by blast
qed

lemma calm_steps [simp]:
  "calm s \<Longrightarrow> fst (rp_reverify T gate n s)" "calm s \<Longrightarrow> calm (snd (rp_reverify T gate n s))"
  "calm (snd (rp_read T base op nm r s)) = calm s" "calm (snd (rp_write T base op nm r v s)) = calm s"
proof -
  show ok: "calm s \<Longrightarrow> fst (rp_reverify T gate n s)" by (simp add: calm_def rp_reverify_def call_def case_prod_beta gate_allows)
  show "calm s \<Longrightarrow> calm (snd (rp_reverify T gate n s))" using ok by (simp add: calm_def)
qed (simp_all add: calm_def)

lemma rlive_written [simp]: "rlive (snd (rp_write T base op nm r v s)) = mdpp_write (rlive s) r v"
  by (rule rp_write_happened) simp

lemma control_after_write:
  "r \<in> set fw2051_registers \<or> r \<in> {Fw2051ScpSelectorRegister, Fw2051FifoResetRegister, Fw2051ReadoutResetRegister} \<Longrightarrow>
     global (mdpp_write m r v) Fw2051AcquisitionControlRegister = global m Fw2051AcquisitionControlRegister"
  using command_registers by (auto simp: mdpp_write_def)

lemma calm_identity:
  assumes "calm s" "IsWriteApprovedMdpp32HardwareId (global (rlive s) 0x6008)" "global (rlive s) 0x600E = Mdpp32ScpFirmwareRevisionFw2051"
  shows "calm (repair_identity T base s)" "rlive (repair_identity T base s) = rlive s"
proof -
  have reads: "mdpp_read m HardwareIdRegister = global m 0x6008" "mdpp_read m FirmwareRevisionRegister = global m 0x600E" for m
    by (simp_all add: mdpp_read_def HardwareIdRegister_def FirmwareRevisionRegister_def Fw2051ScpSelectorRegister_def fw2051_registers_eq)
  show "calm (repair_identity T base s)" using assms by (simp add: repair_identity_def Let_def case_prod_beta reads)
qed (rule identity_exact)

lemma calm_stop: "calm s \<Longrightarrow> calm (repair_stop T base gate s)"
  by (simp add: repair_stop_def case_prod_beta split: bool.split)

lemma calm_select: "calm s \<Longrightarrow> calm (repair_select T base gate settleDelay q s)"
  by (simp add: repair_select_def case_prod_beta split: bool.split)

lemma calm_dependency:
  "calm s \<Longrightarrow> Fw2051ScpDependencySatisfied d pv (mdpp_read (rlive s) (dependencyRegister d)) \<Longrightarrow> calm (repair_dependency T base d pv s)"
  by (simp add: repair_dependency_def case_prod_beta Let_def)

lemma calm_capture: "calm s \<Longrightarrow> mdpp_read (rlive s) r = ev \<Longrightarrow> calm (repair_capture T base r ev s)"
  by (simp add: repair_capture_def case_prod_beta Let_def)

lemma calm_approach:
  assumes "calm s" "base = rq_baseAddress req" "repair_checked req d (rlive s)"
    and reg: "rq_registerOffset req \<in> set fw2051_registers" "d \<in> set Fw2051ScpSettingRegistry"
  shows "calm (repair_approach T req gate settleDelay d s)"
    "p_moduleStopVerified (rp_result (repair_approach T req gate settleDelay d s))"
proof -
  define s1 where "s1 = repair_identity T base s"
  define s2 where "s2 = repair_stop T base gate s1"
  define s3 where "s3 = repair_select T base gate settleDelay (rq_quad req) s2"
  define s4 where "s4 = repair_dependency T base d (rq_profileValue req) s3"
  have eq: "repair_approach T req gate settleDelay d s = repair_capture T base (rq_registerOffset req) (rq_expectedLiveValue req) s4"
    using assms(2) by (simp add: repair_approach_def Let_def s1_def s2_def s3_def s4_def)
  have s1: "calm s1" "rlive s1 = rlive s" using calm_identity [OF assms(1)] assms(3) by (simp_all add: s1_def repair_checked_def)
  have s2: "calm s2" "banked (rlive s2) = banked (rlive s)" "p_moduleStopVerified (rp_result s2)"
    using s1 calm_stop [of s1] stop_exact(1,5) [of s1] by (simp_all add: s2_def calm_def owned_def)
  have s3: "calm s3" "banked (rlive s3) = banked (rlive s)" "selector (rlive s3) = rq_quad req" "p_moduleStopVerified (rp_result s3)"
    using s2 calm_select [of s2 "rq_quad req"] select_exact(1) [of "rq_quad req" s2] select_exact(6) [of "rq_quad req" s2]
    by (simp_all add: s3_def calm_def owned_def) (auto simp: repair_select_def case_prod_beta split: bool.split)
  have s4: "calm s4" using s3 assms(3) dependency_at_bank [OF reg(2)] by (simp add: s4_def calm_dependency repair_checked_def)
  have live: "rlive s4 = rlive s3" by (simp add: s4_def dependency_exact)
  show "calm (repair_approach T req gate settleDelay d s)"
    unfolding eq using s4 s3 live assms(3) reg(1) by (intro calm_capture) (simp_all add: repair_checked_def mdpp_read_setting)
  have "p_moduleStopVerified (rp_result s4)"
    using s3(4) by (auto simp: s4_def repair_dependency_def case_prod_beta Let_def split: option.split)
  then show "p_moduleStopVerified (rp_result (repair_approach T req gate settleDelay d s))"
    unfolding eq by (auto simp: repair_capture_def case_prod_beta Let_def split: option.split)
qed

lemma calm_write:
  fixes r pv :: u16
  assumes "calm s"
  defines "s' \<equiv> repair_write T base gate settleDelay r pv s"
  shows "calm s'" "p_writeAttempted (rp_result s')" "p_writeVerified (rp_result s')" "p_profileValueRetained (rp_result s')"
    "p_moduleStopVerified (rp_result s') = p_moduleStopVerified (rp_result s)" "selectorWasWritten s' = selectorWasWritten s"
    "rlive s' = mdpp_write (rlive s) r pv"
proof -
  have "rp_failure s = []" using assms(1) by (simp add: calm_def)
  then show "calm s'" "p_writeAttempted (rp_result s')" "p_writeVerified (rp_result s')" "p_profileValueRetained (rp_result s')"
    "p_moduleStopVerified (rp_result s') = p_moduleStopVerified (rp_result s)" "selectorWasWritten s' = selectorWasWritten s"
    "rlive s' = mdpp_write (rlive s) r pv"
    using assms(1) by (simp_all add: s'_def repair_write_def case_prod_beta Let_def split: bool.split)
qed

lemma calm_leave:
  assumes "calm s" "selectorWasWritten s" "p_writeAttempted (rp_result s)" "p_moduleStopVerified (rp_result s)" "rstopped s"
    and "p_writeVerified (rp_result s)" "p_profileValueRetained (rp_result s)"
  shows "p_state (repair_finish (repair_leave T base gate settleDelay s)) = RepairPassed"
proof -
  define s1 where "s1 = repair_park T base gate settleDelay s"
  define s2 where "s2 = repair_reset T base gate ''the SCP profile FIFO reset'' ''reset FIFO'' Fw2051FifoResetRegister
      (p_fifoResetSent_update (\<lambda>_. True)) s1"
  define s3 where "s3 = repair_reset T base gate ''the SCP profile readout reset'' ''reset readout'' Fw2051ReadoutResetRegister
      (p_readoutResetSent_update (\<lambda>_. True)) s2"
  have s1: "calm s1" "rp_result s1 = (rp_result s)\<lparr>p_selectorParkedAtQuadZero := True\<rparr>" "rstopped s1"
    using assms by (simp_all add: s1_def repair_park_def case_prod_beta control_after_write split: bool.split)
  then have "rp_ownershipAvailable s1" by (simp add: calm_def)
  then have s2: "calm s2" "rp_result s2 = (rp_result s1)\<lparr>p_fifoResetSent := True\<rparr>" "rstopped s2"
    using s1 assms by (simp_all add: s2_def repair_reset_def case_prod_beta control_after_write split: bool.split)
  then have "rp_ownershipAvailable s2" by (simp add: calm_def)
  then have s3: "calm s3" "rp_result s3 = (rp_result s2)\<lparr>p_readoutResetSent := True\<rparr>" "rstopped s3"
    using s1 s2 assms by (simp_all add: s3_def repair_reset_def case_prod_beta control_after_write split: bool.split)
  have "mdpp_read (rlive s3) Fw2051AcquisitionControlRegister = Fw2051StopAcquisitionValue"
    using s3(3) command_registers by (simp add: mdpp_read_def)
  then have "rp_failure (repair_final T base gate s3) = []"
      "rp_result (repair_final T base gate s3) = (rp_result s3)\<lparr>p_moduleLeftStopped := True\<rparr>"
    using s1(2) s2(2) s3(1,2) assms(4)
    by (simp_all add: repair_final_def case_prod_beta split: bool.split) (simp_all add: calm_def)
  then show ?thesis
    using assms s1(2) s2(2) s3(2)
    by (simp add: repair_leave_def Let_def s1_def [symmetric] s2_def [symmetric] s3_def [symmetric] repair_finish_def)
qed

lemma repair_passes:
  assumes "base = rq_baseAddress req" "refuse_repair req = None" "FindFw2051ScpSetting (rq_registerOffset req) = Some d"
    and "repair_checked req d (dev w)"
  shows "p_state (fst (RepairFw2051ScpProfileValue T req (Some gate) settleDelay w)) = RepairPassed"
proof -
  let ?own = "rp_reverify T gate ''the retained SCP profile repair'' (begin_repair req w)"
  have reg: "rq_registerOffset req \<in> set fw2051_registers" "d \<in> set Fw2051ScpSettingRegistry"
    using FindFw2051ScpSetting_None [of "rq_registerOffset req"] FindFw2051ScpSetting_SomeD [OF assms(3)] assms(3) by auto
  have s0: "calm (begin_repair req w)" "rlive (begin_repair req w) = dev w"
    by (simp_all add: calm_def begin_repair_def rlive_def)
  define s2 where "s2 = repair_approach T req gate settleDelay d (snd ?own)"
  define s3 where "s3 = repair_write T base gate settleDelay (rq_registerOffset req) (rq_profileValue req) s2"
  have own: "fst ?own" "calm (snd ?own)" "rlive (snd ?own) = dev w" using s0 by simp_all
  then have s2: "calm s2" "p_moduleStopVerified (rp_result s2)" "approached req d (dev w) s2"
    using calm_approach [OF own(2) assms(1) _ reg] approach_exact(1) [of "snd ?own" req d] assms(1,4)
    by (simp_all add: s2_def owned_def calm_def)
  then have at: "rstopped s2" "selectorWasWritten s2" by (simp_all add: approached_def calm_def)
  note s3 = calm_write [OF s2(1), of "rq_registerOffset req" "rq_profileValue req", folded s3_def]
  have "repair_rollback T base gate settleDelay (rq_registerOffset req) s3 = s3" using s3(3) by (simp add: repair_rollback_def)
  moreover have "p_state (repair_finish (repair_leave T base gate settleDelay s3)) = RepairPassed"
    using s3 s2(2) at reg(1) by (intro calm_leave) (simp_all add: control_after_write)
  ultimately show ?thesis
    using assms(2,3) own(1) by (simp add: RepairFw2051ScpProfileValue_def case_prod_beta Let_def assms(1) [symmetric] s2_def [symmetric] s3_def [symmetric])
qed

end

text \<open>The simulated module, with a caller who allows everything.\<close>

interpretation repair_sim: responsive_repair "simulated base" base sim_module allow_all None for base
  by unfold_locales (simp_all add: allow_all_def repair_delay_def)

subsection \<open>Properties\<close>

text \<open>Raising the gain of quad 3 of the sample module.\<close>

definition sample_repair :: ScpSingleRepairRequest where
  "sample_repair = \<lparr>rq_baseAddress = 0x01000000, rq_quad = 3, rq_registerOffset = 0x611A, rq_expectedLiveValue = 200,
     rq_profileValue = 250\<rparr>"

lemma sample_repair_ready:
  "refuse_repair sample_repair = None"
  "\<exists>d. FindFw2051ScpSetting (rq_registerOffset sample_repair) = Some d \<and> repair_checked sample_repair d (sim_module live_sim)"
proof -
  show "refuse_repair sample_repair = None" by code_simp
  have "FindFw2051ScpSetting 0x611A = Some (setting_row 0x611A ''Gain'' 100 20000 RangeRule NoDependency 0 [])" by code_simp
  moreover have "banked live_mdpp 3 0x611A = 200" by (simp add: live_mdpp_def Fw2051ScpQuadRegisterValue_def sample_quad_def)
  moreover have "global live_mdpp 0x600E = Mdpp32ScpFirmwareRevisionFw2051" by (simp add: live_mdpp_def)
  ultimately show "\<exists>d. FindFw2051ScpSetting (rq_registerOffset sample_repair) = Some d \<and> repair_checked sample_repair d (sim_module live_sim)"
    using live_approved by (simp add: sample_repair_def repair_checked_def live_sim_def Fw2051ScpDependencySatisfied_def setting_row_def)
qed

text \<open>
  (C7) A repair on an honest module over a link on which any access may fail changes at most the
  requested register of the requested quad, and that only to the requested value, beside the
  selector, the stop of acquisition and the two resets. It changes nothing when the request is
  invalid or the module is not an approved one with firmware 2051. A write was attempted only
  when the module held the expected value, the new value agrees with the register it depends on,
  and acquisition had been stopped, in which state it stays; without an attempt no reset was
  sent. A passed repair installed the value, left acquisition stopped, the selector at quad 0 and
  both resets commanded; a verified rollback left every setting as it was.
\<close>
theorem repair_outcome:
  assumes "supervised_repair T base dev gate settleDelay" "base = rq_baseAddress req"
    and "RepairFw2051ScpProfileValue T req (Some gate) settleDelay w = (res, w')"
  shows "repair_frame req (dev w) (dev w')
    \<and> (refuse_repair req \<noteq> None \<or> \<not> IsWriteApprovedMdpp32HardwareId (global (dev w) 0x6008)
         \<or> global (dev w) 0x600E \<noteq> Mdpp32ScpFirmwareRevisionFw2051 \<longrightarrow> dev w' = dev w)
    \<and> (if p_writeAttempted res
       then (\<exists>d. FindFw2051ScpSetting (rq_registerOffset req) = Some d \<and> repair_checked req d (dev w))
         \<and> banked (dev w') \<in> {banked (dev w), put_bank (banked (dev w)) (rq_quad req) (rq_registerOffset req) (rq_profileValue req)}
         \<and> global (dev w') Fw2051AcquisitionControlRegister = Fw2051StopAcquisitionValue
       else banked (dev w') = banked (dev w) \<and> unreset (dev w) (dev w') \<and> p_state res \<noteq> RepairPassed)
    \<and> (p_state res = RepairPassed \<longrightarrow> selector (dev w') = 0
         \<and> banked (dev w') = put_bank (banked (dev w)) (rq_quad req) (rq_registerOffset req) (rq_profileValue req)
         \<and> global (dev w') Fw2051AcquisitionControlRegister = Fw2051StopAcquisitionValue
         \<and> global (dev w') Fw2051FifoResetRegister = Fw2051ResetCommandValue
         \<and> global (dev w') Fw2051ReadoutResetRegister = Fw2051ResetCommandValue)
    \<and> (p_rollbackVerified res \<longrightarrow> banked (dev w') = banked (dev w))"
proof -
  note exact = supervised_repair.repair_exact [OF assms(1,3,2)] and framed = supervised_repair.repair_framed [OF assms(1,3,2)]
  show ?thesis
  proof (intro conjI)
    show "if p_writeAttempted res
       then (\<exists>d. FindFw2051ScpSetting (rq_registerOffset req) = Some d \<and> repair_checked req d (dev w))
         \<and> banked (dev w') \<in> {banked (dev w), put_bank (banked (dev w)) (rq_quad req) (rq_registerOffset req) (rq_profileValue req)}
         \<and> global (dev w') Fw2051AcquisitionControlRegister = Fw2051StopAcquisitionValue
       else banked (dev w') = banked (dev w) \<and> unreset (dev w) (dev w') \<and> p_state res \<noteq> RepairPassed"
      using exact(1-4) framed(3,4) by auto
  qed (use exact(4,5) framed(1,2,5) in blast)+
qed

theorem repair_outcome_witness:
  "\<exists>res w'. RepairFw2051ScpProfileValue (simulated sample_base) sample_repair (Some allow_all) None live_sim = (res, w')
    \<and> p_state res = RepairPassed \<and> banked (sim_module w') = put_bank (banked live_mdpp) 3 0x611A 250"
proof -
  obtain res w' where run: "RepairFw2051ScpProfileValue (simulated sample_base) sample_repair (Some allow_all) None live_sim = (res, w')"
    by (cases "RepairFw2051ScpProfileValue (simulated sample_base) sample_repair (Some allow_all) None live_sim")
  have b: "sample_base = rq_baseAddress sample_repair" by (simp add: sample_repair_def)
  have "p_state res = RepairPassed"
    using sample_repair_ready(2) repair_sim.repair_passes [OF b sample_repair_ready(1)] run by (metis fst_conv)
  with repair_outcome [OF repair_sim.supervised_repair_axioms b run] run show ?thesis
    by (simp add: sample_repair_def live_sim_def)
qed

text \<open>
  (C8) Whatever fails during a repair, it does not break a coupling: if in every quad the timing
  filter does not exceed the shaping time and the pre-samples lie below the total samples, this
  holds afterwards as well.
\<close>
theorem repair_keeps_couplings:
  assumes "supervised_repair T base dev gate settleDelay" "base = rq_baseAddress req"
    and "RepairFw2051ScpProfileValue T req (Some gate) settleDelay w = (res, w')"
    and "list_all coupled_ok (bank_quads (banked (dev w)))"
  shows "list_all coupled_ok (bank_quads (banked (dev w')))"
proof (cases "p_writeAttempted res")
  case True
  note exact = supervised_repair.repair_exact [OF assms(1,3,2)]
  obtain d where d: "FindFw2051ScpSetting (rq_registerOffset req) = Some d" "repair_checked req d (dev w)" using exact(3) True by auto
  have "registerOffset d = rq_registerOffset req" "d \<in> set Fw2051ScpSettingRegistry" using FindFw2051ScpSetting_SomeD [OF d(1)] by auto
  then show ?thesis
    using exact(1) assms(4) repaired_coupled [OF assms(4), of d "rq_profileValue req" "rq_quad req"] d(2)
    by (auto simp: repair_checked_def)
next
  case False
  then show ?thesis using supervised_repair.repair_exact(2) [OF assms(1,3,2)] assms(4) by simp
qed

theorem repair_keeps_couplings_witness:
  "list_all coupled_ok (bank_quads (banked (sim_module (snd (RepairFw2051ScpProfileValue (simulated sample_base) sample_repair
     (Some allow_all) None live_sim)))))"
proof -
  have "bank_quads (banked (sim_module live_sim)) = quads sample_live"
    using live_shown by (simp add: shows_module_def bank_quads_def)
  then have "list_all coupled_ok (bank_quads (banked (sim_module live_sim)))" using sample_quads_ok(2) by simp
  then show ?thesis
    by (intro repair_keeps_couplings [OF repair_sim.supervised_repair_axioms _ surjective_pairing]) (simp_all add: sample_repair_def)
qed

text \<open>
  A repair comes back and passes: on an answering module that meets the checks, with a caller
  that allows every step, a valid request ends \<open>RepairPassed\<close>.
\<close>
theorem checked_repair_passes:
  assumes "responsive_repair T base dev gate settleDelay" "base = rq_baseAddress req" "refuse_repair req = None"
    and "FindFw2051ScpSetting (rq_registerOffset req) = Some d" "repair_checked req d (dev w)"
  shows "p_state (fst (RepairFw2051ScpProfileValue T req (Some gate) settleDelay w)) = RepairPassed"
  using assms by (rule responsive_repair.repair_passes)

theorem checked_repair_passes_witness:
  "p_state (fst (RepairFw2051ScpProfileValue (simulated sample_base) sample_repair (Some allow_all) None live_sim)) = RepairPassed"
proof -
  obtain d where "FindFw2051ScpSetting (rq_registerOffset sample_repair) = Some d" "repair_checked sample_repair d (sim_module live_sim)"
    using sample_repair_ready(2) by blast
  then show ?thesis
    by (intro checked_repair_passes [OF repair_sim.responsive_repair_axioms _ sample_repair_ready(1)]) (simp_all add: sample_repair_def)
qed

end
