(* ===== verification/Guarded_Link.thy ===== *)
theory Guarded_Link
  imports Scp_Bulk_Apply
begin

text \<open>
  The closures that the register operations of \<^verbatim>\<open>hardware\<close> share: a result under construction, the
  failure text, whether ownership is still available, and the link. The operations differ in the
  texts of a refused gate, which are arguments here. What they do on an honest module is shown
  once.
\<close>

record ('r, 'w) guarded =
  gl_result :: 'r
  gl_failure :: string
  gl_ownershipAvailable :: bool
  gl_bus :: "'w bus"

definition on_guarded :: "('w bus \<Rightarrow> 'a \<times> 'w bus) \<Rightarrow> ('r, 'w) guarded \<Rightarrow> 'a \<times> ('r, 'w) guarded" where
  "on_guarded f s = (case f (gl_bus s) of (a, b) \<Rightarrow> (a, s\<lparr>gl_bus := b\<rparr>))"

definition gl_append :: "string \<Rightarrow> ('r, 'w) guarded \<Rightarrow> ('r, 'w) guarded" where
  "gl_append text s = s\<lparr>gl_failure := append_text (gl_failure s) text\<rparr>"

definition gl_note :: "('r \<Rightarrow> 'r) \<Rightarrow> ('r, 'w) guarded \<Rightarrow> ('r, 'w) guarded" where
  "gl_note f s = s\<lparr>gl_result := f (gl_result s)\<rparr>"

text \<open>The texts of a refused gate without a message: cancelled, or not owned.\<close>

type_synonym gate_texts = "string \<times> string"

definition gl_gate_message :: "'w transport \<Rightarrow> gate_texts \<Rightarrow> ScpCaptureGateResult \<Rightarrow> 'w bus \<Rightarrow> string \<times> 'w bus" where
  "gl_gate_message transport texts g b =
    (if g_message g \<noteq> [] then (g_message g, b)
     else case call (t_cancelled transport) b of (c, b) \<Rightarrow> (if c then fst texts else snd texts, b))"

definition gl_reverify :: "'w transport \<Rightarrow> gate_texts \<Rightarrow> 'w gate \<Rightarrow> string \<Rightarrow> ('r, 'w) guarded \<Rightarrow> bool \<times> ('r, 'w) guarded" where
  "gl_reverify transport texts gate operationName s =
    (if \<not> gl_ownershipAvailable s then (False, s)
     else case on_guarded (call (gate operationName)) s of (g, s) \<Rightarrow>
       if g_status g = Allowed then (True, s)
       else (case on_guarded (gl_gate_message transport texts g) (s\<lparr>gl_ownershipAvailable := False\<rparr>) of (text, s) \<Rightarrow>
         (False, gl_append text s)))"

text \<open>A register access whose failure is appended under an operation and a name.\<close>

definition gl_read :: "'w transport \<Rightarrow> u32 \<Rightarrow> string \<Rightarrow> string \<Rightarrow> u16 \<Rightarrow> ('r, 'w) guarded \<Rightarrow> u16 option \<times> ('r, 'w) guarded" where
  "gl_read transport base operation nm offset s =
    (case on_guarded (readRegister transport base offset) s of
       (Inl e, s) \<Rightarrow> (None, gl_append (RegisterOperationError operation nm offset e) s)
     | (Inr v, s) \<Rightarrow> (Some v, s))"

definition gl_write :: "'w transport \<Rightarrow> u32 \<Rightarrow> string \<Rightarrow> string \<Rightarrow> u16 \<Rightarrow> u16 \<Rightarrow> ('r, 'w) guarded \<Rightarrow> bool \<times> ('r, 'w) guarded" where
  "gl_write transport base operation nm offset v s =
    (case on_guarded (writeRegister transport base offset v) s of
       (Inl e, s) \<Rightarrow> (False, gl_append (RegisterOperationError operation nm offset e) s)
     | (Inr _, s) \<Rightarrow> (True, s))"

subsection \<open>The local state\<close>

lemma on_guarded_fields [simp]:
  "gl_result (snd (on_guarded f s)) = gl_result s" "gl_failure (snd (on_guarded f s)) = gl_failure s"
  "gl_ownershipAvailable (snd (on_guarded f s)) = gl_ownershipAvailable s"
  "gl_bus (snd (on_guarded f s)) = snd (f (gl_bus s))" "fst (on_guarded f s) = fst (f (gl_bus s))"
  by (simp_all add: on_guarded_def split: prod.split)

lemma gl_append_fields [simp]:
  "gl_result (gl_append t s) = gl_result s" "gl_ownershipAvailable (gl_append t s) = gl_ownershipAvailable s"
  "gl_bus (gl_append t s) = gl_bus s" "gl_failure (gl_append t s) = append_text (gl_failure s) t"
  by (simp_all add: gl_append_def)

lemma gl_note_fields [simp]:
  "gl_result (gl_note f s) = f (gl_result s)" "gl_failure (gl_note f s) = gl_failure s"
  "gl_ownershipAvailable (gl_note f s) = gl_ownershipAvailable s" "gl_bus (gl_note f s) = gl_bus s"
  by (simp_all add: gl_note_def)

lemma gl_read_fields [simp]:
  "gl_result (snd (gl_read T base op nm r s)) = gl_result s"
  "gl_ownershipAvailable (snd (gl_read T base op nm r s)) = gl_ownershipAvailable s"
  "gl_failure (snd (gl_read T base op nm r s)) = [] \<longleftrightarrow> gl_failure s = [] \<and> fst (gl_read T base op nm r s) \<noteq> None"
  by (simp_all add: gl_read_def case_prod_beta split: sum.split)

lemma gl_write_fields [simp]:
  "gl_result (snd (gl_write T base op nm r v s)) = gl_result s"
  "gl_ownershipAvailable (snd (gl_write T base op nm r v s)) = gl_ownershipAvailable s"
  "gl_failure (snd (gl_write T base op nm r v s)) = [] \<longleftrightarrow> gl_failure s = [] \<and> fst (gl_write T base op nm r v s)"
  by (simp_all add: gl_write_def case_prod_beta split: sum.split)

lemma gl_reverify_fields [simp]:
  "gl_result (snd (gl_reverify T texts gate n s)) = gl_result s"
  "gl_ownershipAvailable (snd (gl_reverify T texts gate n s)) = fst (gl_reverify T texts gate n s)"
  by (auto simp: gl_reverify_def case_prod_beta)

lemma gl_reverify_failure [simp]:
  assumes "fst texts \<noteq> []" "snd texts \<noteq> []"
  shows "gl_failure (snd (gl_reverify T texts gate n s)) = [] \<longleftrightarrow>
    gl_failure s = [] \<and> (fst (gl_reverify T texts gate n s) \<or> \<not> gl_ownershipAvailable s)"
  using assms by (auto simp: gl_reverify_def gl_gate_message_def case_prod_beta)

text \<open>Ownership is lost only with a failure; an undisturbed run has neither failed nor lost it.\<close>

definition gl_owned :: "('r, 'w) guarded \<Rightarrow> bool" where
  "gl_owned s \<longleftrightarrow> (gl_failure s = [] \<longrightarrow> gl_ownershipAvailable s)"

definition gl_calm :: "('r, 'w) guarded \<Rightarrow> bool" where
  "gl_calm s \<longleftrightarrow> gl_failure s = [] \<and> gl_ownershipAvailable s"

lemma gl_owned_steps [simp]:
  "gl_owned (gl_note f s) = gl_owned s" "gl_owned s \<Longrightarrow> gl_owned (gl_append t s)"
  "gl_owned s \<Longrightarrow> gl_owned (snd (gl_read T base op nm r s))" "gl_owned s \<Longrightarrow> gl_owned (snd (gl_write T base op nm r v s))"
  "fst texts \<noteq> [] \<Longrightarrow> snd texts \<noteq> [] \<Longrightarrow> gl_owned s \<Longrightarrow> gl_owned (snd (gl_reverify T texts gate n s))"
  by (auto simp: gl_owned_def)

lemma gl_calm_steps [simp]:
  "gl_calm (gl_note f s) = gl_calm s"
  "gl_calm (snd (gl_read T base op nm r s)) \<longleftrightarrow> gl_calm s \<and> fst (gl_read T base op nm r s) \<noteq> None"
  "gl_calm (snd (gl_write T base op nm r v s)) \<longleftrightarrow> gl_calm s \<and> fst (gl_write T base op nm r v s)"
  by (auto simp: gl_calm_def)

lemma gl_refused:
  "fst texts \<noteq> [] \<Longrightarrow> snd texts \<noteq> [] \<Longrightarrow> gl_owned s \<Longrightarrow> \<not> fst (gl_reverify T texts gate n s) \<Longrightarrow>
     gl_failure (snd (gl_reverify T texts gate n s)) \<noteq> []"
  by (auto simp: gl_owned_def)

subsection \<open>On an honest module\<close>

text \<open>A caller whose gate leaves the module alone.\<close>

locale guarded_module = honest_module T base dev
  for T :: "'w transport" and base :: u32 and dev :: "'w \<Rightarrow> mdpp" +
  fixes gate :: "'w gate"
  assumes gate_keeps: "dev (snd (gate n w)) = dev w"
begin

definition glive :: "('r, 'w) guarded \<Rightarrow> mdpp" where
  "glive s = dev (snd (gl_bus s))"

lemma glive_update [simp]: "glive (gl_append t s) = glive s" "glive (gl_note f s) = glive s"
  by (simp_all add: glive_def)

lemma glive_reverify [simp]: "glive (snd (gl_reverify T texts gate n s)) = glive s"
  by (simp add: gl_reverify_def gl_gate_message_def case_prod_beta glive_def gate_keeps cancelled_keeps)

lemma glive_read [simp]: "glive (snd (gl_read T base op nm r s)) = glive s"
proof -
  have "dev (snd (snd (readRegister T base r (gl_bus s)))) = glive s"
    using read_keeps [OF surjective_pairing, of r "gl_bus s"] by (simp add: glive_def)
  then show ?thesis by (simp add: gl_read_def case_prod_beta glive_def split: sum.split)
qed

lemma gl_read_shows: "fst (gl_read T base op nm r s) = Some v \<Longrightarrow> v = mdpp_read (glive s) r"
  using read_shows [of r "gl_bus s" v "snd (readRegister T base r (gl_bus s))"]
  by (auto simp: gl_read_def case_prod_beta glive_def prod_eq_iff split: sum.splits)

lemma gl_write_effect:
  "fst (gl_write T base op nm r v s) \<Longrightarrow> glive (snd (gl_write T base op nm r v s)) = mdpp_write (glive s) r v"
  "glive (snd (gl_write T base op nm r v s)) = glive s \<or> glive (snd (gl_write T base op nm r v s)) = mdpp_write (glive s) r v"
proof -
  obtain x b where "writeRegister T base r v (gl_bus s) = (x, b)" by (rule prod.exhaust)
  then show "fst (gl_write T base op nm r v s) \<Longrightarrow> glive (snd (gl_write T base op nm r v s)) = mdpp_write (glive s) r v"
    "glive (snd (gl_write T base op nm r v s)) = glive s \<or> glive (snd (gl_write T base op nm r v s)) = mdpp_write (glive s) r v"
    using write_happened [of r v "gl_bus s" _ b] write_maybe [of r v "gl_bus s" _ b]
    by (auto simp: gl_write_def case_prod_beta glive_def split: sum.splits)
qed

text \<open>Writes of registers that are neither the selector nor banked.\<close>

lemma gl_global_write:
  assumes "r \<noteq> Fw2051ScpSelectorRegister" "r \<notin> set fw2051_registers"
  shows "banked (glive (snd (gl_write T base op nm r v s))) = banked (glive s)"
    "selector (glive (snd (gl_write T base op nm r v s))) = selector (glive s)"
    "x \<noteq> r \<Longrightarrow> global (glive (snd (gl_write T base op nm r v s))) x = global (glive s) x"
    "fst (gl_write T base op nm r v s) \<Longrightarrow> global (glive (snd (gl_write T base op nm r v s))) r = v"
  using gl_write_effect [of op nm r v s] assms by (auto simp: mdpp_write_def)

end

text \<open>A module that answers, and a caller that allows everything.\<close>

locale responsive_link = responsive_module T base dev + guarded_module T base dev gate
  for T :: "'w transport" and base dev gate +
  assumes gate_allows: "g_status (fst (gate n w)) = Allowed"
begin

lemma gl_answered [simp]:
  "fst (gl_write T base op nm r v s)" "fst (gl_read T base op nm r s) = Some (mdpp_read (glive s) r)"
  "glive (snd (gl_write T base op nm r v s)) = mdpp_write (glive s) r v"
proof -
  show w: "fst (gl_write T base op nm r v s)"
    using write_returns [of r v "gl_bus s"] by (auto simp: gl_write_def case_prod_beta)
  then show "glive (snd (gl_write T base op nm r v s)) = mdpp_write (glive s) r v" by (rule gl_write_effect)
  obtain v where "fst (gl_read T base op nm r s) = Some v"
    using read_returns [of r "gl_bus s"] by (auto simp: gl_read_def case_prod_beta)
  then show "fst (gl_read T base op nm r s) = Some (mdpp_read (glive s) r)" using gl_read_shows by blast
qed

lemma gl_allowed [simp]:
  "gl_calm s \<Longrightarrow> fst (gl_reverify T texts gate n s)" "gl_calm s \<Longrightarrow> gl_calm (snd (gl_reverify T texts gate n s))"
  by (simp_all add: gl_calm_def gl_reverify_def call_def case_prod_beta gate_allows)

end

text \<open>The simulated module, with a caller who allows everything.\<close>

interpretation link_sim: responsive_link "simulated base" base sim_module allow_all for base
  by unfold_locales (simp_all add: allow_all_def)

end
