(* ===== verification/Readout_Protocol.thy ===== *)
theory Readout_Protocol
  imports Vme_Protocol
begin

text \<open>
  The single-module readout stack of \<^verbatim>\<open>core/ReadoutProtocol.cpp\<close>: the seven stack words that
  drain one MDPP, their local addresses, and the trigger register value.
\<close>

record MvlcSingleMdppReadoutPlan =
  stackId :: u8
  stackMemoryOffset :: u16
  stackOffsetRegister :: u16
  stackTriggerRegister :: u16
  triggerValue :: u16
  stackUploadWrites :: "MvlcLocalRegisterWrite list"

datatype readout_error = BaseNotAligned | IrqLevelOutOfRange

definition ReadoutStackId :: u8 where "ReadoutStackId = 1"
definition StackMemorySegmentWords :: u16 where "StackMemorySegmentWords = 128"
definition StackStartToDataPipe :: u32 where "StackStartToDataPipe = 0xF3010000"
definition Mblt64FifoMaximum :: u32 where "Mblt64FifoMaximum = 0x1208FFFF"
definition MdppReadoutResetOffset :: u32 where "MdppReadoutResetOffset = 0x6034"
definition IrqNoIackTriggerType :: u16 where "IrqNoIackTriggerType = 2"

fun upload_writes :: "u16 \<Rightarrow> u32 list \<Rightarrow> MvlcLocalRegisterWrite list" where
  "upload_writes localAddress [] = []"
| "upload_writes localAddress (word # ws) =
     \<lparr>lw_address = localAddress, lw_value = word\<rparr> # upload_writes (localAddress + MvlcLocalAddressIncrement) ws"

definition readout_stack_words :: "u32 \<Rightarrow> u32 list" where
  "readout_stack_words mdppBaseAddress = [StackStartToDataPipe, Mblt64FifoMaximum, mdppBaseAddress,
     MvlcVmeWriteA32D16Command, mdppBaseAddress + MdppReadoutResetOffset, 1, MvlcStackEndCommand]"

definition MakeMvlcSingleMdppReadoutPlan :: "u32 \<Rightarrow> u16 \<Rightarrow> readout_error + MvlcSingleMdppReadoutPlan" where
  "MakeMvlcSingleMdppReadoutPlan mdppBaseAddress irqLevel =
    (if mdppBaseAddress AND 0xFFFF \<noteq> 0 then Inl BaseNotAligned
     else if irqLevel < 1 \<or> irqLevel > 6 then Inl IrqLevelOutOfRange
     else (let memoryOffset = ucast ReadoutStackId * StackMemorySegmentWords * MvlcLocalAddressIncrement
       in Inr \<lparr>stackId = ReadoutStackId, stackMemoryOffset = memoryOffset,
         stackOffsetRegister = MvlcStack0OffsetRegister + ucast ReadoutStackId * MvlcLocalAddressIncrement,
         stackTriggerRegister = MvlcStack0TriggerRegister + ucast ReadoutStackId * MvlcLocalAddressIncrement,
         triggerValue = push_bit 5 IrqNoIackTriggerType OR (irqLevel - 1),
         stackUploadWrites = upload_writes (MvlcStackMemoryBegin + memoryOffset) (readout_stack_words mdppBaseAddress)\<rparr>))"

lemma upload_values: "map lw_value (upload_writes a ws) = ws"
  by (induction ws arbitrary: a) simp_all

lemma one_le_word: "1 \<le> w \<longleftrightarrow> w \<noteq> (0 :: u16)"
  by (metis linorder_not_less word_less_1)

lemma readout_plan_eq:
  assumes "base AND 0xFFFF = 0" "1 \<le> irq" "irq \<le> 6"
  shows "MakeMvlcSingleMdppReadoutPlan base irq = Inr \<lparr>stackId = 1, stackMemoryOffset = 0x0200,
    stackOffsetRegister = 0x1204, stackTriggerRegister = 0x1104, triggerValue = 0x40 OR (irq - 1),
    stackUploadWrites = upload_writes 0x2200 (readout_stack_words base)\<rparr>"
  using assms
  by (simp add: MakeMvlcSingleMdppReadoutPlan_def not_less one_le_word Let_def ReadoutStackId_def StackMemorySegmentWords_def
      MvlcLocalAddressIncrement_def MvlcStack0OffsetRegister_def MvlcStack0TriggerRegister_def MvlcStackMemoryBegin_def
      IrqNoIackTriggerType_def)

lemma readout_plan_ok_iff:
  "(\<exists>plan. MakeMvlcSingleMdppReadoutPlan base irq = Inr plan) \<longleftrightarrow> base AND 0xFFFF = 0 \<and> 1 \<le> irq \<and> irq \<le> 6"
  by (auto simp: MakeMvlcSingleMdppReadoutPlan_def not_less one_le_word Let_def)

text \<open>
  A readout plan exists exactly for a 64-KiB-aligned base and an IRQ level of 1 to 6; its
  seven stack words go to the consecutive local addresses from 0x2200 on, inside the 128-word
  segment of stack 1, and the low five bits of the trigger value give the IRQ level back.
\<close>
theorem readout_plan_exact:
  "((\<exists>plan. MakeMvlcSingleMdppReadoutPlan base irq = Inr plan) \<longleftrightarrow> base AND 0xFFFF = 0 \<and> 1 \<le> irq \<and> irq \<le> 6)
   \<and> (\<forall>plan. MakeMvlcSingleMdppReadoutPlan base irq = Inr plan \<longrightarrow>
        map lw_value (stackUploadWrites plan) = readout_stack_words base
        \<and> map lw_address (stackUploadWrites plan) = [0x2200, 0x2204, 0x2208, 0x220C, 0x2210, 0x2214, 0x2218]
        \<and> (triggerValue plan AND 0x1F) + 1 = irq \<and> drop_bit 5 (triggerValue plan) = 2)"
proof -
  have "map lw_value (stackUploadWrites plan) = readout_stack_words base
        \<and> map lw_address (stackUploadWrites plan) = [0x2200, 0x2204, 0x2208, 0x220C, 0x2210, 0x2214, 0x2218]
        \<and> (triggerValue plan AND 0x1F) + 1 = irq \<and> drop_bit 5 (triggerValue plan) = 2"
    if plan: "MakeMvlcSingleMdppReadoutPlan base irq = Inr plan" for plan
  proof -
    have irq: "1 \<le> irq" "irq \<le> 6" and base: "base AND 0xFFFF = 0" using plan readout_plan_ok_iff by blast+
    then have "1 \<le> unat irq" "unat irq \<le> 6" by (simp_all add: word_le_nat_alt)
    then have "unat irq \<in> {1, 2, 3, 4, 5, 6}" by auto
    then have "irq \<in> {1, 2, 3, 4, 5, 6}" by (auto simp: word_unat_eq_iff)
    then have "((0x40 OR (irq - 1)) AND 0x1F) + 1 = irq" "drop_bit 5 (0x40 OR (irq - 1)) = 2"
      by auto
    then show ?thesis
      using plan readout_plan_eq [OF base irq]
      by (auto simp: upload_values readout_stack_words_def MvlcLocalAddressIncrement_def)
  qed
  then show ?thesis using readout_plan_ok_iff by blast
qed

theorem readout_plan_exact_witness:
  "\<exists>plan. MakeMvlcSingleMdppReadoutPlan 0x01000000 1 = Inr plan \<and> map lw_value (stackUploadWrites plan) = readout_stack_words 0x01000000"
  using readout_plan_exact [of "0x01000000" 1] by auto

end
