(* ===== verification/Startup_Audit.thy ===== *)
theory Startup_Audit
  imports Scp_Configuration Text_Format Readout_Protocol
begin

text \<open>
  The startup audit, \<^verbatim>\<open>core/StartupAudit.cpp\<close>: thirty-seven module-wide registers are read
  and classified, and the module is ready for a diagnostic start when no row is blocked. The
  classification is a sequence of assignments to the rows; it is followed by the counts.
\<close>

datatype StartupAuditState = AuditNotRun | AuditReading | AuditComplete | AuditFailed

datatype StartupAuditRole = Required | ReadoutContract | FormatDependent | ExperimentDependent | Informational

datatype StartupAuditAssessment = Ready | Blocked | Warning | Inherited | NotApplicable

record Fw2051StartupAuditRegisterDefinition =
  ad_registerOffset :: u16
  ad_name :: string
  ad_group :: string
  ad_role :: StartupAuditRole

record StartupAuditRow =
  ar_registerOffset :: u16
  ar_name :: string
  ar_group :: string
  ar_value :: u16
  ar_role :: StartupAuditRole
  ar_assessment :: StartupAuditAssessment
  ar_note :: string

record StartupAuditResult =
  au_state :: StartupAuditState
  au_message :: string
  au_baseAddress :: u32
  au_hardwareId :: u16
  au_firmwareRevision :: u16
  au_registersRead :: nat
  au_requiredChecks :: nat
  au_requiredReady :: nat
  au_blockingIssues :: nat
  au_warnings :: nat
  au_readyForDiagnosticStart :: bool
  au_vmeWritesIssued :: bool
  au_rows :: "StartupAuditRow list"

definition audit_row :: "u16 \<Rightarrow> string \<Rightarrow> string \<Rightarrow> StartupAuditRole \<Rightarrow> Fw2051StartupAuditRegisterDefinition" where
  "audit_row r n g role = \<lparr>ad_registerOffset = r, ad_name = n, ad_group = g, ad_role = role\<rparr>"

definition Fw2051StartupAuditRegisterTable :: "Fw2051StartupAuditRegisterDefinition list" where
  "Fw2051StartupAuditRegisterTable = [
     audit_row 0x6004 ''Module ID'' ''Identity'' ReadoutContract,
     audit_row 0x6006 ''Fast MBLT'' ''Transport'' ReadoutContract,
     audit_row 0x6008 ''Hardware ID'' ''Identity'' Required,
     audit_row 0x600E ''Firmware revision'' ''Identity'' Required,
     audit_row 0x6010 ''IRQ level'' ''IRQ/readout'' Required,
     audit_row 0x6012 ''IRQ vector'' ''IRQ/readout'' Informational,
     audit_row 0x6018 ''IRQ data threshold'' ''IRQ/readout'' Required,
     audit_row 0x601A ''Maximum transfer data'' ''IRQ/readout'' ReadoutContract,
     audit_row 0x601C ''IRQ source'' ''IRQ/readout'' Required,
     audit_row 0x601E ''IRQ event threshold'' ''IRQ/readout'' Required,
     audit_row 0x6032 ''Data-length format'' ''FIFO/readout'' Informational,
     audit_row 0x6036 ''Multi-event mode'' ''FIFO/readout'' Required,
     audit_row 0x6038 ''Marking type'' ''Event format'' ReadoutContract,
     audit_row 0x603A ''Acquisition enabled'' ''Run state'' ReadoutContract,
     audit_row 0x6042 ''TDC resolution'' ''Event format'' ReadoutContract,
     audit_row 0x6044 ''Output format'' ''Event format'' Required,
     audit_row 0x6046 ''ADC resolution'' ''Event format'' Informational,
     audit_row 0x6050 ''Window start'' ''WOI trigger'' FormatDependent,
     audit_row 0x6054 ''Window width'' ''WOI trigger'' FormatDependent,
     audit_row 0x6058 ''Trigger source'' ''WOI trigger'' FormatDependent,
     audit_row 0x605C ''First-hit mode'' ''WOI trigger'' FormatDependent,
     audit_row 0x605E ''Trigger output source'' ''Trigger/IO'' ExperimentDependent,
     audit_row 0x6060 ''ECL3 input'' ''Trigger/IO'' ExperimentDependent,
     audit_row 0x6062 ''ECL2 input'' ''Trigger/IO'' ExperimentDependent,
     audit_row 0x6064 ''ECL1 input'' ''Trigger/IO'' ExperimentDependent,
     audit_row 0x6066 ''ECL0 output'' ''Trigger/IO'' ExperimentDependent,
     audit_row 0x6068 ''NIM4 input'' ''Trigger/IO'' ExperimentDependent,
     audit_row 0x606A ''NIM3 input'' ''Trigger/IO'' ExperimentDependent,
     audit_row 0x606C ''NIM2 input'' ''Trigger/IO'' ExperimentDependent,
     audit_row 0x6070 ''Test pulser'' ''Diagnostics'' ExperimentDependent,
     audit_row 0x6072 ''Test-pulser amplitude'' ''Diagnostics'' ExperimentDependent,
     audit_row 0x6074 ''NIM0 output'' ''Trigger/IO'' ExperimentDependent,
     audit_row 0x607A ''Monitor enabled'' ''Diagnostics'' ExperimentDependent,
     audit_row 0x607C ''Monitor channel'' ''Diagnostics'' ExperimentDependent,
     audit_row 0x607E ''Monitor waveform'' ''Diagnostics'' ExperimentDependent,
     audit_row 0x6096 ''Timestamp sources'' ''Timestamp'' ExperimentDependent,
     audit_row 0x6098 ''Timestamp divisor'' ''Timestamp'' ExperimentDependent]"

text \<open>The rows before the classification, and the three lambdas on them.\<close>

definition initial_rows :: "u16 list \<Rightarrow> StartupAuditRow list" where
  "initial_rows values = map2 (\<lambda>d v. \<lparr>ar_registerOffset = ad_registerOffset d, ar_name = ad_name d, ar_group = ad_group d,
     ar_value = v, ar_role = ad_role d, ar_assessment = Inherited, ar_note = []\<rparr>) Fw2051StartupAuditRegisterTable values"

definition findRow :: "StartupAuditRow list \<Rightarrow> u16 \<Rightarrow> StartupAuditRow option" where
  "findRow rows offset = find (\<lambda>row. ar_registerOffset row = offset) rows"

fun set_row :: "u16 \<Rightarrow> StartupAuditAssessment \<Rightarrow> string \<Rightarrow> StartupAuditRow list \<Rightarrow> StartupAuditRow list" where
  "set_row offset a note [] = []"
| "set_row offset a note (row # rows) =
    (if ar_registerOffset row = offset then row\<lparr>ar_assessment := a, ar_note := note\<rparr> # rows
     else row # set_row offset a note rows)"

definition row_value :: "StartupAuditRow list \<Rightarrow> u16 \<Rightarrow> u16" where
  "row_value rows offset = ar_value (the (findRow rows offset))"

text \<open>
  The assignments in the order of the source. No assignment changes a value, so that the
  values are looked up in the initial rows.
\<close>

definition audit_assignments :: "(u16 \<Rightarrow> u16) \<Rightarrow> (u16 \<times> StartupAuditAssessment \<times> string) list" where
  "audit_assignments v =
    (let supportedHardware = (v 0x6008 = 0x5007 \<or> v 0x6008 = 0x500C);
         scpFirmware = (drop_bit 12 (v 0x600E) AND 0x0F = 2);
         irqLevelReady = (v 0x6010 \<ge> 1 \<and> v 0x6010 \<le> 6);
         irqSource = v 0x601C;
         irqSourceReady = (irqSource \<le> 1);
         multiEvent = v 0x6036;
         multiEventMode = multiEvent AND 0x03;
         multiEventEncodingValid = (multiEvent AND 0xFFF0 = 0 \<and> multiEventMode \<noteq> 2);
         eobInsteadOfBerr = (multiEvent AND 0x04 \<noteq> 0);
         markingType = v 0x6038;
         markingValid = (markingType = 0 \<or> markingType = 1 \<or> markingType = 3);
         outputFormat = v 0x6044;
         sampledOutput = (outputFormat = 16 \<or> outputFormat = 24);
         windowMode = (outputFormat = 16);
         pulserEnabled = (v 0x6070 \<noteq> 0);
         monitorEnabled = (v 0x607A \<noteq> 0)
     in
      [(0x6004, Inherited, ''Copied into each event header; any configured module ID is accepted.''),
       (0x6006, if v 0x6006 \<le> 1 then Inherited else Warning,
          if v 0x6006 = 0 then ''MBLT remains valid but uses the slower timing option.''
          else if v 0x6006 = 1 then ''Fast MBLT timing is enabled.'' else ''Documented values are 0 and 1.''),
       (0x6008, if supportedHardware then Ready else Blocked,
          if supportedHardware then ''Supported MDPP-32 hardware.''
          else ''The selected base does not identify as a supported MDPP-32.''),
       (0x600E, if scpFirmware then Ready else Blocked,
          if scpFirmware then ''SCP register map detected.'' else ''This audit and waveform tuner require SCP firmware.''),
       (0x6010, if irqLevelReady then Ready else Blocked,
          if irqLevelReady then ''Accepted by the tuner's IRQ1-through-IRQ6 stack trigger.''
          else ''Direct acquisition requires an IRQ level from 1 through 6.''),
       (0x6012, NotApplicable, ''The tuner uses the MVLC no-IACK IRQ trigger, so the vector is not consumed.''),
       (0x601C, if irqSourceReady then Ready else Blocked,
          if irqSource = 0 then ''IRQ is driven by the event threshold.''
          else if irqSource = 1 then ''IRQ is driven by the data-word threshold.''
          else ''Documented IRQ-source values are 0 and 1.''),
       (0x6018, if irqSource = 1 then (if v 0x6018 \<le> 0x7FFF then Ready else Blocked) else NotApplicable,
          if irqSource = 1 then ''Active IRQ threshold; valid range is 0 through 32767 words.''
          else ''Inactive because IRQ source is not the data threshold.''),
       (0x601E, if irqSource = 0 then (if v 0x601E \<le> 0x7FFF then Ready else Blocked) else NotApplicable,
          if irqSource = 0 then ''Active IRQ threshold; valid range is 0 through 32767 events.''
          else ''Inactive because IRQ source is not the event threshold.''),
       (0x6036, if \<not> multiEventEncodingValid then Blocked else if eobInsteadOfBerr then Warning else Ready,
          if \<not> multiEventEncodingValid then ''The low mode bits must be 0, 1, or 3 and only bits 3:0 are documented.''
          else if eobInsteadOfBerr then ''EOB replaces BERR; the current diagnostic stack is proven with BERR termination.''
          else ''Compatible with the tuner's bounded MBLT/BERR readout stack.''),
       (0x601A, if multiEventMode = 3 \<or> multiEvent AND 0x08 \<noteq> 0 then Inherited else NotApplicable,
          if multiEventMode = 3 \<or> multiEvent AND 0x08 \<noteq> 0 then ''Controls the transfer boundary for the selected multi-event mode.''
          else ''Not used by the selected multi-event mode.''),
       (0x6032, if v 0x6032 \<le> 4 then NotApplicable else Warning,
          if v 0x6032 \<le> 4 then ''The tuner does not poll FIFO length register 0x6030.''
          else ''The value is outside the documented data-length encodings.''),
       (0x6038, if markingValid then Inherited else Warning,
          if markingValid then ''Preserved; waveform decoding accepts the event marker as timestamp metadata.''
          else ''Documented marking types are event counter (0), timestamp (1), and extended timestamp (3).''),
       (0x603A, if v 0x603A = 0 then Inherited else Warning,
          if v 0x603A = 0 then ''Module is stopped, as expected before tuner startup.''
          else ''Module still accepts triggers; the direct-start sequence will stop and reset it first.''),
       (0x6042, if v 0x6042 \<le> 5 then Inherited else Warning,
          if v 0x6042 \<le> 5 then ''Valid documented fine-time resolution.''
          else ''Documented TDC-resolution values are 0 through 5.''),
       (0x6044, if sampledOutput then Ready else Blocked,
          if outputFormat = 16 then ''Window-of-interest sample output is enabled.''
          else if outputFormat = 24 then ''Standard-streaming sample output is enabled.''
          else ''Direct waveform acquisition requires output format 16 or 24.''),
       (0x6046, Inherited, ''Read-only amplitude resolution metadata.'')]
      @ map (\<lambda>offset. (offset, if windowMode then Inherited else NotApplicable,
          if windowMode then ''Used by sampled window-of-interest mode.''
          else ''Ignored by standard streaming, where channels are independent.'')) [0x6050, 0x6054, 0x6058, 0x605C]
      @ map (\<lambda>offset. (offset, Inherited, ''Experiment wiring choice; recorded for later standalone initialization.''))
          [0x605E, 0x6060, 0x6062, 0x6064, 0x6066, 0x6068, 0x606A, 0x606C, 0x6074]
      @ [(0x6070, if pulserEnabled then Warning else Inherited,
          if pulserEnabled then ''The internal pulser is enabled and can degrade real input signals.'' else ''Internal pulser is off.''),
       (0x6072, if pulserEnabled then Inherited else NotApplicable,
          if pulserEnabled then ''Active internal-pulser amplitude.'' else ''Pulser amplitude is inactive while the pulser is off.''),
       (0x607A, if monitorEnabled then Warning else Inherited,
          if monitorEnabled then ''Analog monitor output is enabled; this is an explicit diagnostic choice.''
          else ''Analog monitor output is off.'')]
      @ map (\<lambda>offset. (offset, if monitorEnabled then Inherited else NotApplicable,
          if monitorEnabled then ''Active analog-monitor selection.'' else ''Inactive while analog monitoring is off.'')) [0x607C, 0x607E]
      @ [(0x6096, if v 0x6096 AND 0xFFFC = 0 then Inherited else Warning,
          if v 0x6096 AND 0xFFFC = 0 then ''SCP timestamp clock/reset selection; must match experiment wiring.''
          else ''SCP documents only timestamp-source bits 1:0.''),
       (0x6098, Inherited, ''Timestamp divisor; zero represents division by 65536.'')])"

definition assign_rows :: "(u16 \<times> StartupAuditAssessment \<times> string) list \<Rightarrow> StartupAuditRow list \<Rightarrow> StartupAuditRow list" where
  "assign_rows assigns rows = foldl (\<lambda>rows (offset, a, note). set_row offset a note rows) rows assigns"

text \<open>The counting loop, on the four counters in the order of the record.\<close>

definition count_row :: "nat \<times> nat \<times> nat \<times> nat \<Rightarrow> StartupAuditRow \<Rightarrow> nat \<times> nat \<times> nat \<times> nat" where
  "count_row counts row =
    (case counts of (checks, ready, blocking, warnings) \<Rightarrow>
      let needed = (ar_role row = Required \<and> ar_assessment row \<noteq> NotApplicable)
      in (if needed then checks + 1 else checks,
          if needed \<and> (ar_assessment row = Ready \<or> ar_assessment row = Warning) then ready + 1 else ready,
          if ar_assessment row = Blocked then blocking + 1 else blocking,
          if ar_assessment row = Warning then warnings + 1 else warnings))"

definition audit_message :: "nat \<Rightarrow> nat \<Rightarrow> nat \<Rightarrow> nat \<Rightarrow> nat \<Rightarrow> string" where
  "audit_message registersRead ready checks blocking warnings =
     ''Read '' @ decimal registersRead @ '' module-wide registers with zero VME writes. Required checks ''
     @ decimal ready @ ''/'' @ decimal checks @ ''; '' @ decimal blocking @ '' blocking issue(s), '' @ decimal warnings @ '' warning(s).''"

definition ClassifyFw2051StartupAudit :: "u32 \<Rightarrow> u16 list \<Rightarrow> StartupAuditResult" where
  "ClassifyFw2051StartupAudit base values =
    (let rows = initial_rows values;
         rows = assign_rows (audit_assignments (row_value rows)) rows
     in case foldl count_row (0, 0, 0, 0) rows of (checks, ready, blocking, warnings) \<Rightarrow>
       \<lparr>au_state = AuditComplete, au_message = audit_message (length rows) ready checks blocking warnings,
         au_baseAddress = base, au_hardwareId = row_value rows 0x6008, au_firmwareRevision = row_value rows 0x600E,
         au_registersRead = length rows, au_requiredChecks = checks, au_requiredReady = ready,
         au_blockingIssues = blocking, au_warnings = warnings, au_readyForDiagnosticStart = (blocking = 0),
         au_vmeWritesIssued = False, au_rows = rows\<rparr>)"

fun StartupAuditRoleName :: "StartupAuditRole \<Rightarrow> string" where
  "StartupAuditRoleName Required = ''Required''"
| "StartupAuditRoleName ReadoutContract = ''Readout''"
| "StartupAuditRoleName FormatDependent = ''Format''"
| "StartupAuditRoleName ExperimentDependent = ''Experiment''"
| "StartupAuditRoleName Informational = ''Info''"

fun StartupAuditAssessmentName :: "StartupAuditAssessment \<Rightarrow> string" where
  "StartupAuditAssessmentName Ready = ''Ready''"
| "StartupAuditAssessmentName Blocked = ''Blocked''"
| "StartupAuditAssessmentName Warning = ''Warning''"
| "StartupAuditAssessmentName Inherited = ''Inherited''"
| "StartupAuditAssessmentName NotApplicable = ''N/A''"

subsection \<open>What the assignments do\<close>

definition assigned :: "(u16 \<rightharpoonup> StartupAuditAssessment \<times> string) \<Rightarrow> StartupAuditRow \<Rightarrow> StartupAuditRow" where
  "assigned f row = (case f (ar_registerOffset row) of Some (a, note) \<Rightarrow> row\<lparr>ar_assessment := a, ar_note := note\<rparr> | None \<Rightarrow> row)"

lemma set_row_map:
  "distinct (map ar_registerOffset rows) \<Longrightarrow> set_row offset a note rows =
     map (\<lambda>row. if ar_registerOffset row = offset then row\<lparr>ar_assessment := a, ar_note := note\<rparr> else row) rows"
proof (induction rows)
  case (Cons row rows)
  have "map (\<lambda>row. if ar_registerOffset row = offset then row\<lparr>ar_assessment := a, ar_note := note\<rparr> else row) rows = rows"
    if "offset \<notin> ar_registerOffset ` set rows" using that by (induction rows) auto
  with Cons show ?case by auto
qed simp

lemma offsets_set_row [simp]: "map ar_registerOffset (set_row offset a note rows) = map ar_registerOffset rows"
  by (induction rows) auto

lemma assign_rows_map:
  assumes "distinct (map ar_registerOffset rows)" "distinct (map fst assigns)"
  shows "assign_rows assigns rows = map (assigned (map_of assigns)) rows"
  using assms
proof (induction assigns arbitrary: rows)
  case Nil
  then show ?case by (simp add: assign_rows_def assigned_def)
next
  case (Cons x assigns)
  obtain r a n where x: "x = (r, a, n)" by (cases x)
  have "assign_rows (x # assigns) rows = assign_rows assigns (set_row r a n rows)" by (simp add: assign_rows_def x)
  also have "\<dots> = map (assigned (map_of assigns)) (set_row r a n rows)" using Cons by simp
  also have "\<dots> = map (assigned (map_of (x # assigns))) rows"
    using Cons.prems by (auto simp: set_row_map assigned_def x map_of_eq_None_iff rev_image_eqI split: option.split)
  finally show ?case .
qed

lemma table_offsets:
  "map ad_registerOffset Fw2051StartupAuditRegisterTable = [0x6004, 0x6006, 0x6008, 0x600E, 0x6010, 0x6012, 0x6018, 0x601A, 0x601C,
     0x601E, 0x6032, 0x6036, 0x6038, 0x603A, 0x6042, 0x6044, 0x6046, 0x6050, 0x6054, 0x6058, 0x605C, 0x605E, 0x6060, 0x6062, 0x6064,
     0x6066, 0x6068, 0x606A, 0x606C, 0x6070, 0x6072, 0x6074, 0x607A, 0x607C, 0x607E, 0x6096, 0x6098]"
  by (simp add: Fw2051StartupAuditRegisterTable_def audit_row_def)

lemma length_table [simp]: "length Fw2051StartupAuditRegisterTable = 37"
  using arg_cong [OF table_offsets, of length] by simp

lemma assignment_offsets:
  "map fst (audit_assignments v) = [0x6004, 0x6006, 0x6008, 0x600E, 0x6010, 0x6012, 0x601C, 0x6018, 0x601E, 0x6036, 0x601A, 0x6032,
     0x6038, 0x603A, 0x6042, 0x6044, 0x6046, 0x6050, 0x6054, 0x6058, 0x605C, 0x605E, 0x6060, 0x6062, 0x6064, 0x6066, 0x6068, 0x606A,
     0x606C, 0x6074, 0x6070, 0x6072, 0x607A, 0x607C, 0x607E, 0x6096, 0x6098]"
  by (simp add: audit_assignments_def Let_def)

lemma initial_offsets: "length values = 37 \<Longrightarrow> map ar_registerOffset (initial_rows values) = map ad_registerOffset Fw2051StartupAuditRegisterTable"
  by (simp add: initial_rows_def o_def case_prod_beta list_eq_iff_nth_eq)

text \<open>The assessments without their notes.\<close>

definition assessments :: "(u16 \<Rightarrow> u16) \<Rightarrow> (u16 \<times> StartupAuditAssessment) list" where
  "assessments v = map (\<lambda>x. (fst x, fst (snd x))) (audit_assignments v)"

lemma assessments_offsets: "map fst (assessments v) = map fst (audit_assignments v)"
  by (simp add: assessments_def)

lemma assessment_of: "map_of (assessments v) r = map_option fst (map_of (audit_assignments v) r)"
proof -
  have "map_of (map (\<lambda>x. (fst x, fst (snd x))) xs) r = map_option fst (map_of xs r)" for xs :: "(u16 \<times> StartupAuditAssessment \<times> string) list"
    by (induction xs) auto
  then show ?thesis by (simp add: assessments_def)
qed

definition thresholds_ready :: "(u16 \<Rightarrow> u16) \<Rightarrow> bool" where
  "thresholds_ready v \<longleftrightarrow> (v 0x601C = 0 \<and> v 0x601E \<le> 0x7FFF) \<or> (v 0x601C = 1 \<and> v 0x6018 \<le> 0x7FFF)"

definition diagnostic_ready :: "(u16 \<Rightarrow> u16) \<Rightarrow> bool" where
  "diagnostic_ready v \<longleftrightarrow> v 0x6008 \<in> {0x5007, 0x500C} \<and> drop_bit 12 (v 0x600E) AND 0x0F = 2
     \<and> 1 \<le> v 0x6010 \<and> v 0x6010 \<le> 6 \<and> thresholds_ready v
     \<and> v 0x6036 AND 0xFFF0 = 0 \<and> v 0x6036 AND 0x03 \<noteq> 2 \<and> v 0x6044 \<in> {16, 24}"

lemma assessments_eq:
  "assessments v = [(0x6004, Inherited), (0x6006, if v 0x6006 \<le> 1 then Inherited else Warning),
     (0x6008, if v 0x6008 = 0x5007 \<or> v 0x6008 = 0x500C then Ready else Blocked),
     (0x600E, if drop_bit 12 (v 0x600E) AND 0x0F = 2 then Ready else Blocked),
     (0x6010, if v 0x6010 \<ge> 1 \<and> v 0x6010 \<le> 6 then Ready else Blocked), (0x6012, NotApplicable),
     (0x601C, if v 0x601C \<le> 1 then Ready else Blocked),
     (0x6018, if v 0x601C = 1 then (if v 0x6018 \<le> 0x7FFF then Ready else Blocked) else NotApplicable),
     (0x601E, if v 0x601C = 0 then (if v 0x601E \<le> 0x7FFF then Ready else Blocked) else NotApplicable),
     (0x6036, if \<not> (v 0x6036 AND 0xFFF0 = 0 \<and> v 0x6036 AND 0x03 \<noteq> 2) then Blocked
        else if v 0x6036 AND 0x04 \<noteq> 0 then Warning else Ready),
     (0x601A, if v 0x6036 AND 0x03 = 3 \<or> v 0x6036 AND 0x08 \<noteq> 0 then Inherited else NotApplicable),
     (0x6032, if v 0x6032 \<le> 4 then NotApplicable else Warning),
     (0x6038, if v 0x6038 = 0 \<or> v 0x6038 = 1 \<or> v 0x6038 = 3 then Inherited else Warning),
     (0x603A, if v 0x603A = 0 then Inherited else Warning), (0x6042, if v 0x6042 \<le> 5 then Inherited else Warning),
     (0x6044, if v 0x6044 = 16 \<or> v 0x6044 = 24 then Ready else Blocked), (0x6046, Inherited)]
   @ map (\<lambda>r. (r, if v 0x6044 = 16 then Inherited else NotApplicable)) [0x6050, 0x6054, 0x6058, 0x605C]
   @ map (\<lambda>r. (r, Inherited)) [0x605E, 0x6060, 0x6062, 0x6064, 0x6066, 0x6068, 0x606A, 0x606C, 0x6074]
   @ [(0x6070, if v 0x6070 \<noteq> 0 then Warning else Inherited), (0x6072, if v 0x6070 \<noteq> 0 then Inherited else NotApplicable),
      (0x607A, if v 0x607A \<noteq> 0 then Warning else Inherited)]
   @ map (\<lambda>r. (r, if v 0x607A \<noteq> 0 then Inherited else NotApplicable)) [0x607C, 0x607E]
   @ [(0x6096, if v 0x6096 AND 0xFFFC = 0 then Inherited else Warning), (0x6098, Inherited)]"
  unfolding assessments_def audit_assignments_def Let_def map_append list.map fst_conv snd_conv map_map o_def by (rule refl)

lemma le_one_word: "(w :: u16) \<le> 1 \<longleftrightarrow> w = 0 \<or> w = 1"
  by (simp add: word_le_nat_alt word_unat_eq_iff) arith

lemma blocked_choice:
  "(if c then Ready else Blocked) = Blocked \<longleftrightarrow> \<not> c" "(if c then Inherited else Warning) \<noteq> Blocked"
  "(if c then Warning else Inherited) \<noteq> Blocked" "(if c then Inherited else NotApplicable) \<noteq> Blocked"
  "(if c then NotApplicable else Warning) \<noteq> Blocked" "(if c then (if d then Ready else Blocked) else NotApplicable) = Blocked \<longleftrightarrow> c \<and> \<not> d"
  "(if c then Blocked else if d then Warning else Ready) = Blocked \<longleftrightarrow> c"
  by simp_all

lemma not_blocked_iff: "(\<forall>x \<in> set (assessments v). snd x \<noteq> Blocked) \<longleftrightarrow> diagnostic_ready v"
proof -
  have excl: "\<not> (v 0x601C = 0 \<and> v 0x601C = 1)" by auto
  have "list_all (\<lambda>x. snd x \<noteq> Blocked) (assessments v) \<longleftrightarrow> (v 0x6008 = 0x5007 \<or> v 0x6008 = 0x500C)
      \<and> drop_bit 12 (v 0x600E) AND 0x0F = 2 \<and> (v 0x6010 \<ge> 1 \<and> v 0x6010 \<le> 6) \<and> v 0x601C \<le> 1
      \<and> \<not> (v 0x601C = 1 \<and> \<not> v 0x6018 \<le> 0x7FFF) \<and> \<not> (v 0x601C = 0 \<and> \<not> v 0x601E \<le> 0x7FFF)
      \<and> (v 0x6036 AND 0xFFF0 = 0 \<and> v 0x6036 AND 0x03 \<noteq> 2) \<and> (v 0x6044 = 16 \<or> v 0x6044 = 24)"
    unfolding assessments_eq list_all_append list.map list.pred_inject snd_conv by (simp only: blocked_choice simp_thms StartupAuditAssessment.distinct not_not list.pred_inject(1))
  also have "\<dots> \<longleftrightarrow> diagnostic_ready v"
    using excl unfolding le_one_word diagnostic_ready_def thresholds_ready_def insert_iff empty_iff by argo
  finally show ?thesis by (simp only: list_all_iff)
qed

subsection \<open>The counts\<close>

definition needed_row :: "StartupAuditRow \<Rightarrow> bool" where
  "needed_row row \<longleftrightarrow> ar_role row = Required \<and> ar_assessment row \<noteq> NotApplicable"

definition ready_row :: "StartupAuditRow \<Rightarrow> bool" where
  "ready_row row \<longleftrightarrow> needed_row row \<and> (ar_assessment row = Ready \<or> ar_assessment row = Warning)"

lemma count_rows:
  "foldl count_row (c, r, b, w) rows = (c + length (filter needed_row rows), r + length (filter ready_row rows),
     b + length (filter (\<lambda>row. ar_assessment row = Blocked) rows), w + length (filter (\<lambda>row. ar_assessment row = Warning) rows))"
  by (induction rows arbitrary: c r b w) (auto simp: count_row_def needed_row_def ready_row_def Let_def)

lemma count_partition:
  assumes "\<And>row. row \<in> set rows \<Longrightarrow> (needed_row row \<longleftrightarrow> ready_row row \<or> ar_assessment row = Blocked) \<and> \<not> (ready_row row \<and> ar_assessment row = Blocked)"
  shows "length (filter needed_row rows) = length (filter ready_row rows) + length (filter (\<lambda>row. ar_assessment row = Blocked) rows)"
  using assms by (induction rows) auto

definition required_registers :: "u16 list" where
  "required_registers = [0x6008, 0x600E, 0x6010, 0x6018, 0x601C, 0x601E, 0x6036, 0x6044]"

lemma table_roles: "d \<in> set Fw2051StartupAuditRegisterTable \<Longrightarrow> ad_role d = Required \<longleftrightarrow> ad_registerOffset d \<in> set required_registers"
proof -
  have "list_all (\<lambda>d. (ad_role d = Required) = (ad_registerOffset d \<in> set required_registers)) Fw2051StartupAuditRegisterTable"
    by (simp add: Fw2051StartupAuditRegisterTable_def audit_row_def required_registers_def)
  then show "d \<in> set Fw2051StartupAuditRegisterTable \<Longrightarrow> ad_role d = Required \<longleftrightarrow> ad_registerOffset d \<in> set required_registers"
    by (simp add: list_all_iff)
qed

text \<open>Required registers are assessed as ready, a warning, blocked or inapplicable; others never as blocked.\<close>

lemma assessment_kinds:
  assumes "(r, a) \<in> set (assessments v)"
  shows "if r \<in> set required_registers then a \<noteq> Inherited else a \<noteq> Blocked"
proof -
  have "list_all (\<lambda>x. if fst x \<in> set required_registers then snd x \<noteq> Inherited else snd x \<noteq> Blocked) (assessments v)"
    unfolding assessments_eq required_registers_def by (simp add: blocked_choice)
  then show ?thesis using assms by (force simp: list_all_iff)
qed

subsection \<open>The result\<close>

definition audited_rows :: "u16 list \<Rightarrow> StartupAuditRow list" where
  "audited_rows values = map (assigned (map_of (audit_assignments (row_value (initial_rows values))))) (initial_rows values)"

lemma assignments_distinct: "distinct (map fst (audit_assignments v))"
  unfolding assignment_offsets by simp

lemma rows_distinct: "length values = 37 \<Longrightarrow> distinct (map ar_registerOffset (initial_rows values))"
  unfolding initial_offsets table_offsets by simp

lemma audited_row:
  assumes "length values = 37" "row \<in> set (audited_rows values)"
  shows "(ar_registerOffset row, ar_assessment row) \<in> set (assessments (row_value (initial_rows values)))"
    "ar_role row = Required \<longleftrightarrow> ar_registerOffset row \<in> set required_registers"
proof -
  let ?v = "row_value (initial_rows values)"
  obtain i where i: "i < 37" "row = assigned (map_of (audit_assignments ?v)) (initial_rows values ! i)"
    using assms by (auto simp: audited_rows_def in_set_conv_nth initial_rows_def)
  let ?d = "Fw2051StartupAuditRegisterTable ! i"
  have d: "?d \<in> set Fw2051StartupAuditRegisterTable" using i by simp
  have row: "ar_registerOffset (initial_rows values ! i) = ad_registerOffset ?d" "ar_role (initial_rows values ! i) = ad_role ?d"
    using i(1) assms(1) by (simp_all add: initial_rows_def)
  have "ad_registerOffset ?d \<in> set (map fst (audit_assignments ?v))"
    unfolding assignment_offsets using imageI [OF d, of ad_registerOffset] table_offsets [THEN arg_cong, of set] by auto
  then obtain a n where an: "map_of (audit_assignments ?v) (ad_registerOffset ?d) = Some (a, n)"
    by (cases "map_of (audit_assignments ?v) (ad_registerOffset ?d)") (auto simp: map_of_eq_None_iff)
  then have "map_of (assessments ?v) (ad_registerOffset ?d) = Some a" by (simp add: assessment_of)
  then show "(ar_registerOffset row, ar_assessment row) \<in> set (assessments ?v)"
    using i(2) an row by (simp add: assigned_def map_of_SomeD)
  show "ar_role row = Required \<longleftrightarrow> ar_registerOffset row \<in> set required_registers"
    using table_roles [OF d] i(2) an row by (simp add: assigned_def)
qed

lemma audited_covers:
  assumes "length values = 37" "(r, a) \<in> set (assessments (row_value (initial_rows values)))"
  shows "\<exists>row \<in> set (audited_rows values). ar_registerOffset row = r \<and> ar_assessment row = a"
proof -
  let ?v = "row_value (initial_rows values)"
  have "r \<in> set (map fst (audit_assignments ?v))" using assms(2) imageI [of "(r, a)" _ fst] unfolding assessments_offsets [symmetric] by auto
  then have "r \<in> set (map ar_registerOffset (initial_rows values))"
    unfolding initial_offsets [OF assms(1)] table_offsets assignment_offsets by auto
  then obtain row where row: "row \<in> set (initial_rows values)" "ar_registerOffset row = r" by auto
  have "distinct (map fst (assessments ?v))" unfolding assessments_offsets by (rule assignments_distinct)
  then have "map_of (assessments ?v) r = Some a" using assms(2) by simp
  then obtain n where "map_of (audit_assignments ?v) r = Some (a, n)" by (auto simp: assessment_of)
  moreover have "assigned (map_of (audit_assignments ?v)) row \<in> set (audited_rows values)"
    using row(1) unfolding audited_rows_def set_map by (rule imageI)
  ultimately show ?thesis using row(2) by (intro bexI [of _ "assigned (map_of (audit_assignments ?v)) row"]) (auto simp: assigned_def)
qed

lemma classify_eq:
  assumes "length values = 37"
  shows "au_rows (ClassifyFw2051StartupAudit base values) = audited_rows values"
    "au_blockingIssues (ClassifyFw2051StartupAudit base values) = length (filter (\<lambda>row. ar_assessment row = Blocked) (audited_rows values))"
    "au_requiredChecks (ClassifyFw2051StartupAudit base values) = length (filter needed_row (audited_rows values))"
    "au_requiredReady (ClassifyFw2051StartupAudit base values) = length (filter ready_row (audited_rows values))"
    "au_readyForDiagnosticStart (ClassifyFw2051StartupAudit base values) \<longleftrightarrow> (\<forall>row \<in> set (audited_rows values). ar_assessment row \<noteq> Blocked)"
  unfolding ClassifyFw2051StartupAudit_def Let_def
    assign_rows_map [OF rows_distinct [OF assms] assignments_distinct] audited_rows_def [symmetric] count_rows
  by (simp_all add: filter_empty_conv)

text \<open>The value read for a register.\<close>

definition audit_reading :: "u16 list \<Rightarrow> u16 \<Rightarrow> u16" where
  "audit_reading values r = the (map_of (zip (map ad_registerOffset Fw2051StartupAuditRegisterTable) values) r)"

lemma find_map2:
  "length ds = length vs \<Longrightarrow> r \<in> ad_registerOffset ` set ds \<Longrightarrow>
     ar_value (the (find (\<lambda>row. ar_registerOffset row = r) (map2 (\<lambda>d v. \<lparr>ar_registerOffset = ad_registerOffset d, ar_name = ad_name d,
       ar_group = ad_group d, ar_value = v, ar_role = ad_role d, ar_assessment = Inherited, ar_note = []\<rparr>) ds vs)))
     = the (map_of (zip (map ad_registerOffset ds) vs) r)"
  by (induction ds vs rule: list_induct2) auto

lemma row_value_reading:
  assumes "length values = 37" "r \<in> ad_registerOffset ` set Fw2051StartupAuditRegisterTable"
  shows "row_value (initial_rows values) r = audit_reading values r"
  using find_map2 [of Fw2051StartupAuditRegisterTable "values" r] assms
  by (simp add: row_value_def findRow_def initial_rows_def audit_reading_def)

lemma required_in_table: "r \<in> set required_registers \<Longrightarrow> r \<in> ad_registerOffset ` set Fw2051StartupAuditRegisterTable"
  unfolding set_map [symmetric] table_offsets required_registers_def by auto

lemma diagnostic_ready_cong:
  assumes "\<And>r. r \<in> set required_registers \<Longrightarrow> v r = v' r"
  shows "diagnostic_ready v = diagnostic_ready v'"
  using assms by (simp add: diagnostic_ready_def thresholds_ready_def required_registers_def)

lemma audit_ready_iff:
  assumes "length values = 37"
  shows "au_readyForDiagnosticStart (ClassifyFw2051StartupAudit base values) \<longleftrightarrow> diagnostic_ready (audit_reading values)"
proof -
  let ?v = "row_value (initial_rows values)"
  have "(\<forall>row \<in> set (audited_rows values). ar_assessment row \<noteq> Blocked) \<longleftrightarrow> (\<forall>x \<in> set (assessments ?v). snd x \<noteq> Blocked)"
    using audited_row(1) [OF assms] audited_covers [OF assms] by fastforce
  also have "\<dots> \<longleftrightarrow> diagnostic_ready (audit_reading values)"
    unfolding not_blocked_iff using row_value_reading [OF assms required_in_table] by (rule diagnostic_ready_cong)
  finally show ?thesis by (simp add: classify_eq [OF assms])
qed

lemma audit_counts:
  assumes "length values = 37"
  shows "au_requiredChecks (ClassifyFw2051StartupAudit base values)
    = au_requiredReady (ClassifyFw2051StartupAudit base values) + au_blockingIssues (ClassifyFw2051StartupAudit base values)"
proof -
  have "(needed_row row \<longleftrightarrow> ready_row row \<or> ar_assessment row = Blocked) \<and> \<not> (ready_row row \<and> ar_assessment row = Blocked)"
    if "row \<in> set (audited_rows values)" for row
    using assessment_kinds [OF audited_row(1) [OF assms that]] audited_row(2) [OF assms that]
    by (cases "ar_assessment row") (auto simp: needed_row_def ready_row_def split: if_splits)
  then show ?thesis unfolding classify_eq [OF assms] by (rule count_partition)
qed

text \<open>
  (C29) The audit of thirty-seven readings is ready exactly when the hardware and firmware are
  supported, the IRQ level is 1 to 6, the IRQ source is the event or the data threshold and this
  threshold is in range, the multi-event mode is a documented one and the output is sampled; the
  required checks are those that are ready and those that block; and at an aligned base, readiness
  gives a readout plan for the audited IRQ level.
\<close>
theorem startup_audit_exact:
  fixes base :: u32
  assumes "length values = 37"
  defines "audit \<equiv> ClassifyFw2051StartupAudit base values"
  shows "(au_readyForDiagnosticStart audit \<longleftrightarrow> diagnostic_ready (audit_reading values))
    \<and> au_requiredChecks audit = au_requiredReady audit + au_blockingIssues audit
    \<and> (au_readyForDiagnosticStart audit \<and> base AND 0xFFFF = 0
       \<longrightarrow> (\<exists>plan. MakeMvlcSingleMdppReadoutPlan base (audit_reading values 0x6010) = Inr plan))"
  using audit_ready_iff [OF assms(1), of base] audit_counts [OF assms(1), of base]
  by (auto simp: audit_def readout_plan_ok_iff diagnostic_ready_def)

definition sample_readings :: "u16 list" where
  "sample_readings = [1, 1, 0x5007, 0x2051, 1, 0, 1, 1, 0, 2, 2, 0x000B, 1, 0, 5, 0x0018, 4,
     0, 0, 0, 0, 0, 0, 0, 0, 0, 0, 0, 0, 0, 0, 0, 0, 0, 0, 0, 1]"

theorem startup_audit_exact_witness:
  "au_readyForDiagnosticStart (ClassifyFw2051StartupAudit 0x01000000 sample_readings)
    \<and> (\<exists>plan. MakeMvlcSingleMdppReadoutPlan 0x01000000 (audit_reading sample_readings 0x6010) = Inr plan)"
proof -
  have "diagnostic_ready (audit_reading sample_readings)" by code_simp
  moreover have "length sample_readings = 37" by (simp add: sample_readings_def)
  ultimately show ?thesis using startup_audit_exact [of sample_readings "0x01000000"] by simp
qed

end
