(* ===== verification/Startup_Preparation.thy ===== *)
theory Startup_Preparation
  imports Guarded_Link Startup_Audit Scp_Apply_Outcome
begin

text \<open>
  Preparing a module for a deterministic start, \<^verbatim>\<open>core/StartupPreparation.cpp\<close> and
  \<^verbatim>\<open>hardware/StartupPreparationOperation.cpp\<close>: check the module's identity, capture the eight
  module-wide readout registers, stop acquisition, write the registers that differ from their
  targets, reset, verify, and put everything that was written back in reverse order when a step
  failed. The blocks of the function are definitions on the local state of \<open>Guarded_Link\<close>.
\<close>

subsection \<open>The contract\<close>

record Fw2051StartupPreparationDefinition =
  pd_registerOffset :: u16
  pd_name :: string
  pd_targetValue :: u16

record Fw2051StartupPreparationMismatch =
  pm_registerOffset :: u16
  pm_name :: string
  pm_currentValue :: u16
  pm_targetValue :: u16

definition Fw2051StartupPreparationRegisterTable :: "Fw2051StartupPreparationDefinition list" where
  "Fw2051StartupPreparationRegisterTable = map (\<lambda>(r, n, t). \<lparr>pd_registerOffset = r, pd_name = n, pd_targetValue = t\<rparr>)
     [(0x6006, ''Fast MBLT'', 1), (0x6010, ''IRQ level'', 1), (0x6018, ''IRQ data threshold'', 1),
      (0x601A, ''Maximum transfer data'', 1), (0x601C, ''IRQ source'', 0), (0x601E, ''IRQ event threshold'', 2),
      (0x6036, ''Multi-event mode'', 0x000B), (0x6044, ''Output format'', 0x0018)]"

fun mismatches_from :: "Fw2051StartupPreparationDefinition list \<Rightarrow> u16 list \<Rightarrow> Fw2051StartupPreparationMismatch list" where
  "mismatches_from (d # ds) (v # vs) =
    (if v = pd_targetValue d then mismatches_from ds vs
     else \<lparr>pm_registerOffset = pd_registerOffset d, pm_name = pd_name d, pm_currentValue = v, pm_targetValue = pd_targetValue d\<rparr>
       # mismatches_from ds vs)"
| "mismatches_from _ _ = []"

definition FindFw2051StartupPreparationMismatches :: "u16 list \<Rightarrow> Fw2051StartupPreparationMismatch list" where
  "FindFw2051StartupPreparationMismatches values = mismatches_from Fw2051StartupPreparationRegisterTable values"

subsection \<open>Results\<close>

datatype StartupPreparationState = PreparationNotRun | Preparing | PreparationRollingBack | PreparationPassed | PreparationFailed

record StartupPreparationRegisterResult =
  pw_registerOffset :: u16
  pw_name :: string
  pw_originalValue :: u16
  pw_targetValue :: u16
  pw_appliedReadback :: u16
  pw_rollbackReadback :: u16
  pw_changeRequired :: bool
  pw_writeAttempted :: bool
  pw_writeVerified :: bool
  pw_rollbackAttempted :: bool
  pw_rollbackVerified :: bool

record StartupPreparationResult =
  pp_state :: StartupPreparationState
  pp_message :: string
  pp_baseAddress :: u32
  pp_hardwareId :: u16
  pp_firmwareRevision :: u16
  pp_originalAcquisitionValue :: u16
  pp_settingsRead :: nat
  pp_changedSettings :: nat
  pp_writesAttempted :: nat
  pp_writesVerified :: nat
  pp_rollbackWritesAttempted :: nat
  pp_rollbackWritesVerified :: nat
  pp_strictFirmwareAccepted :: bool
  pp_moduleStopSent :: bool
  pp_moduleStopVerified :: bool
  pp_rollbackAttempted :: bool
  pp_rollbackVerified :: bool
  pp_fifoResetSent :: bool
  pp_readoutResetSent :: bool
  pp_moduleLeftStopped :: bool
  pp_experimentSettingsPreserved :: bool
  pp_registers :: "StartupPreparationRegisterResult list"

type_synonym 'w preparation = "(StartupPreparationResult, 'w) guarded"

definition begin_preparation_result :: "u32 \<Rightarrow> StartupPreparationResult" where
  "begin_preparation_result base = \<lparr>pp_state = Preparing,
     pp_message = ''Validating exact hardware/firmware and capturing the tuner readout contract before the first write...'',
     pp_baseAddress = base, pp_hardwareId = 0, pp_firmwareRevision = 0, pp_originalAcquisitionValue = 0,
     pp_settingsRead = 0, pp_changedSettings = 0, pp_writesAttempted = 0, pp_writesVerified = 0,
     pp_rollbackWritesAttempted = 0, pp_rollbackWritesVerified = 0, pp_strictFirmwareAccepted = False,
     pp_moduleStopSent = False, pp_moduleStopVerified = False, pp_rollbackAttempted = False, pp_rollbackVerified = False,
     pp_fifoResetSent = False, pp_readoutResetSent = False, pp_moduleLeftStopped = False,
     pp_experimentSettingsPreserved = True, pp_registers = []\<rparr>"

definition preparation_references :: references where
  "preparation_references = \<lparr>nextSuperReference = 0x1700, nextStackReference = 0x9C0C0001\<rparr>"

definition preparation_texts :: gate_texts where
  "preparation_texts = (''Module startup preparation was cancelled.'',
     ''Ownership could not be verified for module startup preparation.'')"

definition Hexadecimal32 :: "u32 \<Rightarrow> string" where
  "Hexadecimal32 v = ''0x'' @ map (\<lambda>k. hex_digit (unat v div 16 ^ k mod 16)) [7, 6, 5, 4, 3, 2, 1, 0]"

definition strict_firmware_text :: string where
  "strict_firmware_text = ''No VME write was sent: startup preparation is enabled only for the tested MDPP-32 hardware 0x5007 with SCP FW2051.''"

definition ValidateAudit :: "u32 \<Rightarrow> StartupAuditResult \<Rightarrow> string" where
  "ValidateAudit base audit =
    (if au_state audit \<noteq> AuditComplete
     then ''Module startup preparation requires a completed startup audit for the selected module.''
     else if au_baseAddress audit \<noteq> base
     then ''The completed startup audit does not match the selected VME base address.''
     else if au_hardwareId audit \<noteq> Mdpp32HardwareId \<or> au_firmwareRevision audit \<noteq> Mdpp32ScpFirmwareRevisionFw2051
     then strict_firmware_text else [])"

subsection \<open>Before the first write\<close>

definition prep_identity :: "'w transport \<Rightarrow> u32 \<Rightarrow> 'w preparation \<Rightarrow> 'w preparation" where
  "prep_identity transport base s =
    (let s = (case gl_read transport base ''read'' ''hardware ID'' 0x6008 s of
           (None, s) \<Rightarrow> s
         | (Some v, s) \<Rightarrow> gl_note (pp_hardwareId_update (\<lambda>_. v)) s);
         s = (if gl_failure s \<noteq> [] then s
              else case gl_read transport base ''read'' ''firmware revision'' 0x600E s of
                (None, s) \<Rightarrow> s
              | (Some v, s) \<Rightarrow> gl_note (pp_firmwareRevision_update (\<lambda>_. v)) s);
         r = gl_result s;
         s = (if gl_failure s = [] \<and> (pp_hardwareId r \<noteq> Mdpp32HardwareId \<or> pp_firmwareRevision r \<noteq> Mdpp32ScpFirmwareRevisionFw2051)
              then gl_append (strict_firmware_text @ '' The selected module reported hardware '' @ Hexadecimal32 (ucast (pp_hardwareId r))
                     @ '' and firmware '' @ Hexadecimal32 (ucast (pp_firmwareRevision r)) @ ''.'') s
              else s)
     in gl_note (pp_strictFirmwareAccepted_update (\<lambda>_. gl_failure s = [])) s)"

text \<open>The row of a register that was read, and the counters it moves.\<close>

definition captured_row :: "Fw2051StartupPreparationDefinition \<Rightarrow> u16 \<Rightarrow> StartupPreparationRegisterResult" where
  "captured_row d v = \<lparr>pw_registerOffset = pd_registerOffset d, pw_name = pd_name d, pw_originalValue = v,
     pw_targetValue = pd_targetValue d, pw_appliedReadback = v, pw_rollbackReadback = 0,
     pw_changeRequired = (v \<noteq> pd_targetValue d), pw_writeAttempted = False, pw_writeVerified = False,
     pw_rollbackAttempted = False, pw_rollbackVerified = False\<rparr>"

definition note_captured :: "Fw2051StartupPreparationDefinition \<Rightarrow> u16 \<Rightarrow> StartupPreparationResult \<Rightarrow> StartupPreparationResult" where
  "note_captured d v r = r\<lparr>pp_registers := pp_registers r @ [captured_row d v], pp_settingsRead := pp_settingsRead r + 1,
     pp_changedSettings := (if v \<noteq> pd_targetValue d then pp_changedSettings r + 1 else pp_changedSettings r)\<rparr>"

fun prep_capture :: "'w transport \<Rightarrow> u32 \<Rightarrow> Fw2051StartupPreparationDefinition list \<Rightarrow> 'w preparation \<Rightarrow> 'w preparation" where
  "prep_capture transport base [] s = s"
| "prep_capture transport base (d # ds) s =
    (if gl_failure s \<noteq> [] then s
     else case gl_read transport base ''read'' (pd_name d) (pd_registerOffset d) s of
       (None, s) \<Rightarrow> s
     | (Some v, s) \<Rightarrow> prep_capture transport base ds (gl_note (note_captured d v) s))"

definition prep_acquisition :: "'w transport \<Rightarrow> u32 \<Rightarrow> 'w preparation \<Rightarrow> 'w preparation" where
  "prep_acquisition transport base s =
    (if gl_failure s \<noteq> [] then s
     else case gl_read transport base ''read'' ''acquisition enable'' Fw2051AcquisitionControlRegister s of
       (None, s) \<Rightarrow> s
     | (Some v, s) \<Rightarrow> gl_note (pp_originalAcquisitionValue_update (\<lambda>_. v)) s)"

subsection \<open>Stopping and writing\<close>

definition prep_stop :: "'w transport \<Rightarrow> u32 \<Rightarrow> 'w gate \<Rightarrow> 'w preparation \<Rightarrow> 'w preparation" where
  "prep_stop transport base gate s =
    (case gl_reverify transport preparation_texts gate ''module startup preparation stop'' s of
       (False, s) \<Rightarrow> s
     | (True, s) \<Rightarrow>
       (case gl_write transport base ''write'' ''stop acquisition'' Fw2051AcquisitionControlRegister Fw2051StopAcquisitionValue s of
          (False, s) \<Rightarrow> s
        | (True, s) \<Rightarrow>
          (case gl_read transport base ''verify'' ''stopped acquisition'' Fw2051AcquisitionControlRegister
                  (gl_note (pp_moduleStopSent_update (\<lambda>_. True)) s) of
             (None, s) \<Rightarrow> s
           | (Some v, s) \<Rightarrow>
             if v \<noteq> Fw2051StopAcquisitionValue
             then gl_append (''Acquisition-enable readback was '' @ decimal (unat v) @ '', expected zero after Stop.'') s
             else gl_note (\<lambda>r. r\<lparr>pp_moduleStopVerified := True, pp_moduleLeftStopped := True\<rparr>) s)))"

text \<open>An update of one row.\<close>

definition note_row :: "nat \<Rightarrow> (StartupPreparationRegisterResult \<Rightarrow> StartupPreparationRegisterResult)
    \<Rightarrow> StartupPreparationResult \<Rightarrow> StartupPreparationResult" where
  "note_row i f r = r\<lparr>pp_registers := (pp_registers r)[i := f (pp_registers r ! i)]\<rparr>"

definition row_readback_text :: "string \<Rightarrow> u16 \<Rightarrow> u16 \<Rightarrow> string" where
  "row_readback_text nm v expected = nm @ '' readback was '' @ decimal (unat v) @ '', expected '' @ decimal (unat expected) @ ''.''"

text \<open>One pass of the write loop: whether the setting was attempted, and whether the loop goes on.\<close>

definition prep_write :: "'w transport \<Rightarrow> u32 \<Rightarrow> 'w gate \<Rightarrow> nat \<Rightarrow> 'w preparation \<Rightarrow> (bool \<times> bool) \<times> 'w preparation" where
  "prep_write transport base gate i s =
    (let row = pp_registers (gl_result s) ! i in
     case gl_reverify transport preparation_texts gate (''module startup preparation '' @ pw_name row @ '' write'') s of
       (False, s) \<Rightarrow> ((False, False), s)
     | (True, s) \<Rightarrow>
       (let s = gl_note (\<lambda>r. (note_row i (pw_writeAttempted_update (\<lambda>_. True)) r)\<lparr>pp_writesAttempted := pp_writesAttempted r + 1\<rparr>) s in
        case gl_write transport base ''write'' (pw_name row) (pw_registerOffset row) (pw_targetValue row) s of
          (False, s) \<Rightarrow> ((True, False), s)
        | (True, s) \<Rightarrow>
          (case gl_read transport base ''verify'' (pw_name row) (pw_registerOffset row) s of
             (None, s) \<Rightarrow> ((True, False), s)
           | (Some v, s) \<Rightarrow>
             (let s = gl_note (note_row i (pw_appliedReadback_update (\<lambda>_. v))) s in
              if v \<noteq> pw_targetValue row
              then ((True, False), gl_append (row_readback_text (pw_name row) v (pw_targetValue row)) s)
              else ((True, True), gl_note (\<lambda>r. (note_row i (pw_writeVerified_update (\<lambda>_. True)) r)
                     \<lparr>pp_writesVerified := pp_writesVerified r + 1\<rparr>) s)))))"

text \<open>The loop over the indices, with the attempted settings in the order of the attempts.\<close>

fun prep_writes :: "'w transport \<Rightarrow> u32 \<Rightarrow> 'w gate \<Rightarrow> nat list \<Rightarrow> nat list \<Rightarrow> 'w preparation \<Rightarrow> nat list \<times> 'w preparation" where
  "prep_writes transport base gate [] attempted s = (attempted, s)"
| "prep_writes transport base gate (i # indices) attempted s =
    (if gl_failure s \<noteq> [] \<or> \<not> gl_ownershipAvailable s then (attempted, s)
     else if \<not> pw_changeRequired (pp_registers (gl_result s) ! i)
     then prep_writes transport base gate indices attempted s
     else case prep_write transport base gate i s of ((tried, onwards), s) \<Rightarrow>
       let attempted = (if tried then attempted @ [i] else attempted) in
       if onwards then prep_writes transport base gate indices attempted s else (attempted, s))"

definition prep_resets :: "'w transport \<Rightarrow> u32 \<Rightarrow> 'w gate \<Rightarrow> 'w preparation \<Rightarrow> 'w preparation" where
  "prep_resets transport base gate s =
    (if gl_failure s \<noteq> [] then s
     else case gl_reverify transport preparation_texts gate ''module startup preparation FIFO/readout reset'' s of
       (False, s) \<Rightarrow> s
     | (True, s) \<Rightarrow>
       (case gl_write transport base ''write'' ''reset FIFO'' Fw2051FifoResetRegister Fw2051ResetCommandValue s of
          (False, s) \<Rightarrow> s
        | (True, s) \<Rightarrow>
          (case gl_write transport base ''write'' ''reset readout'' Fw2051ReadoutResetRegister Fw2051ResetCommandValue
                  (gl_note (pp_fifoResetSent_update (\<lambda>_. True)) s) of
             (False, s) \<Rightarrow> s
           | (True, s) \<Rightarrow> gl_note (pp_readoutResetSent_update (\<lambda>_. True)) s)))"

subsection \<open>Verifying\<close>

fun prep_verify :: "'w transport \<Rightarrow> u32 \<Rightarrow> StartupPreparationRegisterResult list \<Rightarrow> 'w preparation \<Rightarrow> 'w preparation" where
  "prep_verify transport base [] s = s"
| "prep_verify transport base (row # rows) s =
    (if gl_failure s \<noteq> [] then s
     else case gl_read transport base ''final verify'' (pw_name row) (pw_registerOffset row) s of
       (None, s) \<Rightarrow> s
     | (Some v, s) \<Rightarrow>
       if v \<noteq> pw_targetValue row
       then gl_append (''Final '' @ row_readback_text (pw_name row) v (pw_targetValue row)) s
       else prep_verify transport base rows s)"

definition prep_final :: "'w transport \<Rightarrow> u32 \<Rightarrow> 'w gate \<Rightarrow> 'w preparation \<Rightarrow> 'w preparation" where
  "prep_final transport base gate s =
    (if gl_failure s \<noteq> [] then s
     else case gl_reverify transport preparation_texts gate ''module startup preparation final verification'' s of
       (False, s) \<Rightarrow> s
     | (True, s) \<Rightarrow>
       (let s = (case gl_read transport base ''verify'' ''stopped acquisition'' Fw2051AcquisitionControlRegister s of
            (None, s) \<Rightarrow> s
          | (Some v, s) \<Rightarrow>
            if v \<noteq> Fw2051StopAcquisitionValue
            then gl_append ''Acquisition-enable changed during final verification.''
                   (gl_note (pp_moduleLeftStopped_update (\<lambda>_. False)) s)
            else s)
        in prep_verify transport base (pp_registers (gl_result s)) s))"

subsection \<open>Undoing\<close>

text \<open>One pass of the rollback loop, after the gate: whether the setting was restored.\<close>

definition prep_restore :: "'w transport \<Rightarrow> u32 \<Rightarrow> nat \<Rightarrow> 'w preparation \<Rightarrow> bool \<times> 'w preparation" where
  "prep_restore transport base i s =
    (let row = pp_registers (gl_result s) ! i;
         s = gl_note (\<lambda>r. (note_row i (pw_rollbackAttempted_update (\<lambda>_. True)) r)
               \<lparr>pp_rollbackWritesAttempted := pp_rollbackWritesAttempted r + 1\<rparr>) s in
     case gl_write transport base ''rollback'' (pw_name row) (pw_registerOffset row) (pw_originalValue row) s of
       (False, s) \<Rightarrow> (False, s)
     | (True, s) \<Rightarrow>
       (case gl_read transport base ''verify rollback'' (pw_name row) (pw_registerOffset row) s of
          (None, s) \<Rightarrow> (False, s)
        | (Some v, s) \<Rightarrow>
          (let s = gl_note (note_row i (pw_rollbackReadback_update (\<lambda>_. v))) s in
           if v \<noteq> pw_originalValue row
           then (False, gl_append (''Rollback '' @ row_readback_text (pw_name row) v (pw_originalValue row)) s)
           else (True, gl_note (\<lambda>r. (note_row i (pw_rollbackVerified_update (\<lambda>_. True)) r)
                  \<lparr>pp_rollbackWritesVerified := pp_rollbackWritesVerified r + 1\<rparr>) s))))"

fun prep_undo :: "'w transport \<Rightarrow> u32 \<Rightarrow> 'w gate \<Rightarrow> nat list \<Rightarrow> bool \<Rightarrow> 'w preparation \<Rightarrow> bool \<times> 'w preparation" where
  "prep_undo transport base gate [] safe s = (safe, s)"
| "prep_undo transport base gate (i # indices) safe s =
    (if \<not> gl_ownershipAvailable s then (False, s)
     else case gl_reverify transport preparation_texts gate
         (''module startup preparation '' @ pw_name (pp_registers (gl_result s) ! i) @ '' rollback'') s of
       (False, s) \<Rightarrow> (False, s)
     | (True, s) \<Rightarrow>
       (case prep_restore transport base i s of (restored, s) \<Rightarrow>
          prep_undo transport base gate indices (safe \<and> restored) s))"

definition prep_rollback :: "'w transport \<Rightarrow> u32 \<Rightarrow> 'w gate \<Rightarrow> nat list \<Rightarrow> 'w preparation \<Rightarrow> 'w preparation" where
  "prep_rollback transport base gate attempted s =
    (if gl_failure s = [] \<or> attempted = [] then s
     else case prep_undo transport base gate (rev attempted) (gl_ownershipAvailable s)
         (gl_note (\<lambda>r. r\<lparr>pp_state := PreparationRollingBack, pp_rollbackAttempted := True\<rparr>) s) of
       (safe, s) \<Rightarrow> gl_note (\<lambda>r. r\<lparr>pp_rollbackVerified := safe \<and> pp_rollbackWritesVerified r = length attempted\<rparr>) s)"

definition prep_stopped :: "'w transport \<Rightarrow> u32 \<Rightarrow> 'w gate \<Rightarrow> 'w preparation \<Rightarrow> 'w preparation" where
  "prep_stopped transport base gate s =
    (if \<not> (gl_ownershipAvailable s \<and> pp_moduleStopSent (gl_result s)) then s
     else case gl_reverify transport preparation_texts gate ''module startup preparation stopped-state verification'' s of
       (False, s) \<Rightarrow> s
     | (True, s) \<Rightarrow>
       (case gl_read transport base ''verify'' ''final stopped acquisition'' Fw2051AcquisitionControlRegister s of
          (None, s) \<Rightarrow> gl_note (pp_moduleLeftStopped_update (\<lambda>_. False)) s
        | (Some v, s) \<Rightarrow>
          (let s = gl_note (pp_moduleLeftStopped_update (\<lambda>_. v = Fw2051StopAcquisitionValue)) s in
           if v \<noteq> Fw2051StopAcquisitionValue
           then gl_append ''The module did not remain stopped after startup preparation.'' s else s)))"

definition prep_finish :: "'w preparation \<Rightarrow> StartupPreparationResult" where
  "prep_finish s =
    (let r = gl_result s; failure = gl_failure s;
         passed = (failure = [] \<and> pp_strictFirmwareAccepted r \<and> pp_moduleStopVerified r
           \<and> pp_writesVerified r = pp_changedSettings r \<and> pp_fifoResetSent r \<and> pp_readoutResetSent r \<and> pp_moduleLeftStopped r)
     in r\<lparr>pp_state := (if passed then PreparationPassed else PreparationFailed),
          pp_message := (if passed
            then ''Prepared the selected FW2051 SCP module for deterministic sampled standard-streaming readout. Verified ''
              @ decimal (pp_changedSettings r) @ '' changed setting(s); experiment I/O, timestamps, event marking/TDC choices, and all banked detector settings were not addressed. The module remains stopped.''
            else if pp_rollbackVerified r
            then failure @ '' Every attempted module-wide setting was restored with exact readback; acquisition remains stopped.''
            else if failure = [] then ''Module startup preparation did not reach a fully verified safe state.''
            else failure)\<rparr>)"

definition preparation_failed :: "string \<Rightarrow> StartupPreparationResult \<Rightarrow> StartupPreparationResult" where
  "preparation_failed text r = r\<lparr>pp_state := PreparationFailed, pp_message := text\<rparr>"

text \<open>The blocks before the stop, and from the stop on.\<close>

definition prep_examine :: "'w transport \<Rightarrow> u32 \<Rightarrow> 'w preparation \<Rightarrow> 'w preparation" where
  "prep_examine transport base s =
    prep_acquisition transport base (prep_capture transport base Fw2051StartupPreparationRegisterTable (prep_identity transport base s))"

definition prep_change :: "'w transport \<Rightarrow> u32 \<Rightarrow> 'w gate \<Rightarrow> 'w preparation \<Rightarrow> 'w preparation" where
  "prep_change transport base gate s =
    (let s = prep_stop transport base gate s in
     case prep_writes transport base gate [0..<length (pp_registers (gl_result s))] [] s of (attempted, s) \<Rightarrow>
       let s = prep_resets transport base gate s;
           s = prep_final transport base gate s;
           s = prep_rollback transport base gate attempted s
       in prep_stopped transport base gate s)"

definition begin_preparation :: "u32 \<Rightarrow> 'w \<Rightarrow> 'w preparation" where
  "begin_preparation base w = \<lparr>gl_result = begin_preparation_result base, gl_failure = [], gl_ownershipAvailable = True,
     gl_bus = (preparation_references, w)\<rparr>"

definition PrepareFw2051ModuleForStartup :: "'w transport \<Rightarrow> u32 \<Rightarrow> StartupAuditResult \<Rightarrow> 'w gate option \<Rightarrow> 'w
    \<Rightarrow> StartupPreparationResult \<times> 'w" where
  "PrepareFw2051ModuleForStartup transport base audit ownershipGate w =
    (if ValidateAudit base audit \<noteq> [] then (preparation_failed (ValidateAudit base audit) (begin_preparation_result base), w)
     else case ownershipGate of
       None \<Rightarrow> (preparation_failed ''Module startup preparation has no ownership gate.'' (begin_preparation_result base), w)
     | Some gate \<Rightarrow>
       (case gl_reverify transport preparation_texts gate ''module startup preparation preflight'' (begin_preparation base w) of
          (False, s) \<Rightarrow> (preparation_failed (gl_failure s) (gl_result s), snd (gl_bus s))
        | (True, s) \<Rightarrow>
          (let s = prep_examine transport base s in
           if gl_failure s \<noteq> [] then (preparation_failed (gl_failure s) (gl_result s), snd (gl_bus s))
           else (let s = prep_change transport base gate s in (prep_finish s, snd (gl_bus s))))))"

subsection \<open>The table and the rows\<close>

abbreviation preparation_table :: "Fw2051StartupPreparationDefinition list" where
  "preparation_table \<equiv> Fw2051StartupPreparationRegisterTable"

definition preparation_registers :: "u16 list" where
  "preparation_registers = map pd_registerOffset preparation_table"

definition preparation_commands :: "u16 list" where
  "preparation_commands = [Fw2051AcquisitionControlRegister, Fw2051FifoResetRegister, Fw2051ReadoutResetRegister]"

lemma preparation_registers_eq:
  "preparation_registers = [0x6006, 0x6010, 0x6018, 0x601A, 0x601C, 0x601E, 0x6036, 0x6044]"
  by (simp add: preparation_registers_def Fw2051StartupPreparationRegisterTable_def)

lemma preparation_register_distinct: "distinct preparation_registers"
  by (simp add: preparation_registers_eq)

lemma length_preparation_table [simp]: "length preparation_table = 8"
  by (simp add: Fw2051StartupPreparationRegisterTable_def)

lemma prepared_plain:
  assumes "r \<in> set preparation_registers"
  shows "r \<noteq> Fw2051ScpSelectorRegister" "r \<notin> set fw2051_registers" "r \<notin> set preparation_commands" "r \<noteq> 0x6008" "r \<noteq> 0x600E"
  using assms by (auto simp: preparation_registers_eq preparation_commands_def Fw2051AcquisitionControlRegister_def
      Fw2051FifoResetRegister_def Fw2051ReadoutResetRegister_def Fw2051ScpSelectorRegister_def fw2051_registers_eq)

lemma command_plain:
  assumes "r \<in> set preparation_commands"
  shows "r \<noteq> Fw2051ScpSelectorRegister" "r \<notin> set fw2051_registers"
  using assms command_registers by (auto simp: preparation_commands_def)

lemma read_plain: "r \<noteq> Fw2051ScpSelectorRegister \<Longrightarrow> r \<notin> set fw2051_registers \<Longrightarrow> mdpp_read m r = global m r"
  by (simp add: mdpp_read_def)

lemma read_acquisition: "mdpp_read m Fw2051AcquisitionControlRegister = global m Fw2051AcquisitionControlRegister"
  using command_registers by (simp add: read_plain)

lemma read_identity: "mdpp_read m 0x6008 = global m 0x6008" "mdpp_read m 0x600E = global m 0x600E"
  by (simp_all add: mdpp_read_def Fw2051ScpSelectorRegister_def fw2051_registers_eq)

text \<open>What no update of a row changes.\<close>

definition row_core :: "StartupPreparationRegisterResult \<Rightarrow> u16 \<times> string \<times> u16 \<times> u16 \<times> bool" where
  "row_core row = (pw_registerOffset row, pw_name row, pw_originalValue row, pw_targetValue row, pw_changeRequired row)"

lemma row_core_updates [simp]:
  "row_core (row\<lparr>pw_appliedReadback := v\<rparr>) = row_core row" "row_core (row\<lparr>pw_rollbackReadback := v\<rparr>) = row_core row"
  "row_core (row\<lparr>pw_writeAttempted := x\<rparr>) = row_core row" "row_core (row\<lparr>pw_writeVerified := x\<rparr>) = row_core row"
  "row_core (row\<lparr>pw_rollbackAttempted := x\<rparr>) = row_core row" "row_core (row\<lparr>pw_rollbackVerified := x\<rparr>) = row_core row"
  by (simp_all add: row_core_def)

lemma map_core_update: "(\<And>row. row_core (f row) = row_core row) \<Longrightarrow> map row_core (rows[i := f (rows ! i)]) = map row_core rows"
  by (cases "i < length rows") (auto simp: list_eq_iff_nth_eq nth_list_update)

text \<open>The part of the result that the arguments below use.\<close>

definition prep_cores :: "StartupPreparationResult \<Rightarrow> (u16 \<times> string \<times> u16 \<times> u16 \<times> bool) list" where
  "prep_cores r = map row_core (pp_registers r)"

definition prep_flags :: "StartupPreparationResult \<Rightarrow> bool \<times> bool \<times> bool" where
  "prep_flags r = (pp_moduleLeftStopped r, pp_rollbackVerified r, pp_strictFirmwareAccepted r)"

lemma note_row_view [simp]:
  "(\<And>row. row_core (f row) = row_core row) \<Longrightarrow> prep_cores (note_row i f r) = prep_cores r"
  "prep_flags (note_row i f r) = prep_flags r" "length (pp_registers (note_row i f r)) = length (pp_registers r)"
  "pp_writesAttempted (note_row i f r) = pp_writesAttempted r" "pp_writesVerified (note_row i f r) = pp_writesVerified r"
  "pp_rollbackWritesAttempted (note_row i f r) = pp_rollbackWritesAttempted r"
  "pp_rollbackWritesVerified (note_row i f r) = pp_rollbackWritesVerified r"
  "pp_changedSettings (note_row i f r) = pp_changedSettings r"
  "pp_moduleStopSent (note_row i f r) = pp_moduleStopSent r" "pp_moduleStopVerified (note_row i f r) = pp_moduleStopVerified r"
  by (simp_all add: note_row_def prep_cores_def prep_flags_def map_core_update)

lemma counters_view [simp]:
  "prep_cores (r\<lparr>pp_writesAttempted := n\<rparr>) = prep_cores r" "prep_cores (r\<lparr>pp_writesVerified := n\<rparr>) = prep_cores r"
  "prep_cores (r\<lparr>pp_rollbackWritesAttempted := n\<rparr>) = prep_cores r" "prep_cores (r\<lparr>pp_rollbackWritesVerified := n\<rparr>) = prep_cores r"
  "prep_cores (r\<lparr>pp_moduleStopSent := x\<rparr>) = prep_cores r" "prep_cores (r\<lparr>pp_moduleStopVerified := x\<rparr>) = prep_cores r"
  "prep_cores (r\<lparr>pp_moduleLeftStopped := x\<rparr>) = prep_cores r" "prep_cores (r\<lparr>pp_fifoResetSent := x\<rparr>) = prep_cores r"
  "prep_cores (r\<lparr>pp_readoutResetSent := x\<rparr>) = prep_cores r" "prep_cores (r\<lparr>pp_state := st\<rparr>) = prep_cores r"
  "prep_cores (r\<lparr>pp_rollbackAttempted := x\<rparr>) = prep_cores r" "prep_cores (r\<lparr>pp_rollbackVerified := x\<rparr>) = prep_cores r"
  "prep_cores (r\<lparr>pp_originalAcquisitionValue := v\<rparr>) = prep_cores r"
  "prep_flags (r\<lparr>pp_writesAttempted := n\<rparr>) = prep_flags r" "prep_flags (r\<lparr>pp_writesVerified := n\<rparr>) = prep_flags r"
  "prep_flags (r\<lparr>pp_rollbackWritesAttempted := n\<rparr>) = prep_flags r" "prep_flags (r\<lparr>pp_rollbackWritesVerified := n\<rparr>) = prep_flags r"
  "prep_flags (r\<lparr>pp_moduleStopSent := x\<rparr>) = prep_flags r" "prep_flags (r\<lparr>pp_moduleStopVerified := x\<rparr>) = prep_flags r"
  "prep_flags (r\<lparr>pp_fifoResetSent := x\<rparr>) = prep_flags r" "prep_flags (r\<lparr>pp_readoutResetSent := x\<rparr>) = prep_flags r"
  "prep_flags (r\<lparr>pp_state := st\<rparr>) = prep_flags r" "prep_flags (r\<lparr>pp_rollbackAttempted := x\<rparr>) = prep_flags r"
  "prep_flags (r\<lparr>pp_originalAcquisitionValue := v\<rparr>) = prep_flags r"
  "prep_flags (r\<lparr>pp_registers := rows\<rparr>) = prep_flags r" "prep_flags (r\<lparr>pp_settingsRead := n\<rparr>) = prep_flags r"
  "prep_flags (r\<lparr>pp_changedSettings := n\<rparr>) = prep_flags r"
  by (simp_all add: prep_cores_def prep_flags_def)

lemma preparation_texts_not_Nil [simp]: "fst preparation_texts \<noteq> []" "snd preparation_texts \<noteq> []"
  by (simp_all add: preparation_texts_def)

lemma row_readback_text_not_Nil [simp]: "row_readback_text a b c \<noteq> []"
  by (simp add: row_readback_text_def)

lemma strict_firmware_text_not_Nil [simp]: "strict_firmware_text \<noteq> []"
  by (simp add: strict_firmware_text_def)

text \<open>The rows of a module, and the rows that the capture makes.\<close>

definition expected_cores :: "mdpp \<Rightarrow> Fw2051StartupPreparationDefinition list \<Rightarrow> (u16 \<times> string \<times> u16 \<times> u16 \<times> bool) list" where
  "expected_cores m ds = map (\<lambda>d. row_core (captured_row d (global m (pd_registerOffset d)))) ds"

lemma expected_row:
  assumes "prep_cores r = expected_cores m preparation_table" "i < 8"
  shows "pw_registerOffset (pp_registers r ! i) = pd_registerOffset (preparation_table ! i)"
    "pw_originalValue (pp_registers r ! i) = global m (pd_registerOffset (preparation_table ! i))"
    "pw_targetValue (pp_registers r ! i) = pd_targetValue (preparation_table ! i)"
    "pw_changeRequired (pp_registers r ! i) \<longleftrightarrow> global m (pd_registerOffset (preparation_table ! i)) \<noteq> pd_targetValue (preparation_table ! i)"
proof -
  have "length (pp_registers r) = 8" using arg_cong [OF assms(1), of length] by (simp add: prep_cores_def expected_cores_def)
  then have "row_core (pp_registers r ! i) = row_core (captured_row (preparation_table ! i) (global m (pd_registerOffset (preparation_table ! i))))"
    using arg_cong [OF assms(1), of "\<lambda>xs. xs ! i"] assms(2) by (simp add: prep_cores_def expected_cores_def)
  then show "pw_registerOffset (pp_registers r ! i) = pd_registerOffset (preparation_table ! i)"
    "pw_originalValue (pp_registers r ! i) = global m (pd_registerOffset (preparation_table ! i))"
    "pw_targetValue (pp_registers r ! i) = pd_targetValue (preparation_table ! i)"
    "pw_changeRequired (pp_registers r ! i) \<longleftrightarrow> global m (pd_registerOffset (preparation_table ! i)) \<noteq> pd_targetValue (preparation_table ! i)"
    by (simp_all add: row_core_def captured_row_def)
qed

lemma expected_length: "prep_cores r = expected_cores m preparation_table \<Longrightarrow> length (pp_registers r) = 8"
  by (drule arg_cong [of _ _ length]) (simp add: prep_cores_def expected_cores_def)

text \<open>What the operation may have changed on a module, with the registers of the given rows undetermined.\<close>

definition prep_frame :: "mdpp \<Rightarrow> nat set \<Rightarrow> mdpp \<Rightarrow> bool" where
  "prep_frame m0 att m \<longleftrightarrow> banked m = banked m0 \<and> selector m = selector m0
     \<and> (\<forall>r. r \<notin> set preparation_commands \<and> (\<forall>i \<in> att. r \<noteq> preparation_registers ! i) \<longrightarrow> global m r = global m0 r)"

lemma prep_frame_refl [simp]: "prep_frame m att m"
  by (simp add: prep_frame_def)

lemma prep_frame_mono: "prep_frame m0 A m \<Longrightarrow> A \<subseteq> B \<Longrightarrow> prep_frame m0 B m"
  by (auto simp: prep_frame_def)

subsection \<open>On an honest module\<close>

context guarded_module
begin

text \<open>The state from the stop on: the rows are the module's, and the stopped flag is true of it.\<close>

definition prep_inv :: "mdpp \<Rightarrow> nat set \<Rightarrow> 'w preparation \<Rightarrow> bool" where
  "prep_inv m0 att s \<longleftrightarrow> prep_cores (gl_result s) = expected_cores m0 preparation_table \<and> prep_frame m0 att (glive s)
     \<and> gl_owned s \<and> (pp_moduleLeftStopped (gl_result s) \<longrightarrow> global (glive s) Fw2051AcquisitionControlRegister = Fw2051StopAcquisitionValue)"

lemma prep_inv_note:
  assumes "prep_cores (f (gl_result s)) = prep_cores (gl_result s)" "prep_flags (f (gl_result s)) = prep_flags (gl_result s)"
  shows "prep_inv m0 att (gl_note f s) = prep_inv m0 att s"
  using assms by (simp add: prep_inv_def prep_flags_def)

lemma prep_inv_steps [simp]:
  "prep_inv m0 att s \<Longrightarrow> prep_inv m0 att (gl_append t s)"
  "prep_inv m0 att s \<Longrightarrow> prep_inv m0 att (snd (gl_read T base op nm r s))"
  "prep_inv m0 att s \<Longrightarrow> prep_inv m0 att (snd (gl_reverify T preparation_texts gate n s))"
  by (simp_all add: prep_inv_def)

lemma prep_inv_write:
  assumes "prep_inv m0 att s" "r \<in> set preparation_registers \<or> r \<in> set preparation_commands \<and> (r = Fw2051AcquisitionControlRegister \<longrightarrow> v = Fw2051StopAcquisitionValue)"
    and "r \<in> set preparation_registers \<Longrightarrow> \<exists>i \<in> att. r = preparation_registers ! i"
  shows "prep_inv m0 att (snd (gl_write T base op nm r v s))"
proof -
  have plain: "r \<noteq> Fw2051ScpSelectorRegister" "r \<notin> set fw2051_registers"
    using assms(2) prepared_plain(1,2) command_plain by blast+
  have acq: "Fw2051AcquisitionControlRegister \<notin> set preparation_registers"
    using prepared_plain(3) by (auto simp: preparation_commands_def)
  let ?s = "snd (gl_write T base op nm r v s)"
  have frame: "banked (glive ?s) = banked (glive s)" "selector (glive ?s) = selector (glive s)"
    "global (glive ?s) x = global (glive s) x \<or> x = r \<and> global (glive ?s) x = v" for x
    using gl_write_effect(2) [of op nm r v s] plain by (auto simp: mdpp_write_def split: if_splits)
  have kept: "x \<noteq> r" if "x \<notin> set preparation_commands" "\<forall>i \<in> att. x \<noteq> preparation_registers ! i" for x
    using that assms(2,3) by blast
  have "prep_frame m0 att (glive s)" using assms(1) by (simp add: prep_inv_def)
  then have "prep_frame m0 att (glive ?s)"
    unfolding prep_frame_def using frame(1,2) frame(3) kept by metis
  moreover have "global (glive s) Fw2051AcquisitionControlRegister = Fw2051StopAcquisitionValue
      \<Longrightarrow> global (glive ?s) Fw2051AcquisitionControlRegister = Fw2051StopAcquisitionValue"
    using frame(3) [of Fw2051AcquisitionControlRegister] assms(2) acq by auto
  ultimately show ?thesis using assms(1) by (simp add: prep_inv_def)
qed

text \<open>Examining the module.\<close>

lemma prep_identity_exact:
  fixes s :: "'w preparation"
  defines "s' \<equiv> prep_identity T base s"
  shows "glive s' = glive s" "pp_registers (gl_result s') = pp_registers (gl_result s)" "gl_owned s \<Longrightarrow> gl_owned s'"
    "pp_strictFirmwareAccepted (gl_result s') \<longleftrightarrow> gl_failure s' = []"
    "pp_moduleLeftStopped (gl_result s') = pp_moduleLeftStopped (gl_result s)"
    "pp_rollbackVerified (gl_result s') = pp_rollbackVerified (gl_result s)"
    "gl_failure s' = [] \<Longrightarrow> gl_failure s = [] \<and> global (glive s) 0x6008 = Mdpp32HardwareId
       \<and> global (glive s) 0x600E = Mdpp32ScpFirmwareRevisionFw2051"
  unfolding s'_def prep_identity_def Let_def
  by (auto simp: case_prod_beta read_identity dest!: gl_read_shows split: option.split option.splits if_splits)

lemma prep_capture_exact:
  fixes s :: "'w preparation"
  assumes "list_all (\<lambda>d. pd_registerOffset d \<in> set preparation_registers) ds"
  defines "s' \<equiv> prep_capture T base ds s"
  shows "glive s' = glive s" "gl_owned s \<Longrightarrow> gl_owned s'"
    "prep_flags (gl_result s') = prep_flags (gl_result s)" "gl_failure s' = [] \<Longrightarrow> gl_failure s = []"
    "gl_failure s' = [] \<Longrightarrow> prep_cores (gl_result s') = prep_cores (gl_result s) @ expected_cores (glive s) ds"
proof -
  have "glive (prep_capture T base ds s) = glive s \<and> (gl_owned s \<longrightarrow> gl_owned (prep_capture T base ds s))
    \<and> prep_flags (gl_result (prep_capture T base ds s)) = prep_flags (gl_result s)
    \<and> (gl_failure (prep_capture T base ds s) = [] \<longrightarrow> gl_failure s = []
        \<and> prep_cores (gl_result (prep_capture T base ds s)) = prep_cores (gl_result s) @ expected_cores (glive s) ds)"
    using assms(1)
  proof (induction ds arbitrary: s)
    case Nil
    then show ?case by (simp add: expected_cores_def)
  next
    case (Cons d ds)
    let ?r = "gl_read T base ''read'' (pd_name d) (pd_registerOffset d) s"
    show ?case
    proof (cases "fst ?r")
      case None
      then show ?thesis using Cons.prems by (auto simp: case_prod_beta)
    next
      case (Some v)
      have v: "v = global (glive s) (pd_registerOffset d)"
        using gl_read_shows [OF Some] Cons.prems prepared_plain(1,2) [of "pd_registerOffset d"] by (simp add: read_plain)
      show ?thesis
        using Cons.prems Cons.IH [of "gl_note (note_captured d v) (snd ?r)"] Some
        by (auto simp: case_prod_beta v note_captured_def prep_cores_def expected_cores_def prep_flags_def)
    qed
  qed
  then show "glive s' = glive s" "gl_owned s \<Longrightarrow> gl_owned s'"
    "prep_flags (gl_result s') = prep_flags (gl_result s)" "gl_failure s' = [] \<Longrightarrow> gl_failure s = []"
    "gl_failure s' = [] \<Longrightarrow> prep_cores (gl_result s') = prep_cores (gl_result s) @ expected_cores (glive s) ds"
    by (auto simp: s'_def)
qed

lemma table_registers: "list_all (\<lambda>d. pd_registerOffset d \<in> set preparation_registers) preparation_table"
  by (simp add: list_all_iff preparation_registers_def)

lemma prep_acquisition_exact:
  fixes s :: "'w preparation"
  defines "s' \<equiv> prep_acquisition T base s"
  shows "glive s' = glive s" "gl_owned s \<Longrightarrow> gl_owned s'" "prep_flags (gl_result s') = prep_flags (gl_result s)"
    "prep_cores (gl_result s') = prep_cores (gl_result s)" "gl_failure s' = [] \<Longrightarrow> gl_failure s = []"
  unfolding s'_def prep_acquisition_def by (auto simp: case_prod_beta split: option.split option.splits if_splits)

lemma prep_examine_exact:
  fixes s :: "'w preparation"
  assumes "gl_owned s" "pp_registers (gl_result s) = []" "\<not> pp_moduleLeftStopped (gl_result s)" "\<not> pp_rollbackVerified (gl_result s)"
  defines "s' \<equiv> prep_examine T base s"
  shows "glive s' = glive s" "\<not> pp_rollbackVerified (gl_result s') \<and> \<not> pp_moduleLeftStopped (gl_result s')"
    "pp_strictFirmwareAccepted (gl_result s') \<Longrightarrow> global (glive s) 0x6008 = Mdpp32HardwareId \<and> global (glive s) 0x600E = Mdpp32ScpFirmwareRevisionFw2051"
    "gl_failure s' = [] \<Longrightarrow> pp_strictFirmwareAccepted (gl_result s') \<and> prep_inv (glive s) {} s'"
proof -
  define s1 where "s1 = prep_identity T base s"
  define s2 where "s2 = prep_capture T base preparation_table s1"
  have s': "s' = prep_acquisition T base s2" by (simp add: s'_def prep_examine_def s1_def s2_def)
  note e1 = prep_identity_exact [of s, folded s1_def] and e2 = prep_capture_exact [OF table_registers, of s1, folded s2_def]
    and e3 = prep_acquisition_exact [of s2, folded s']
  have flags: "prep_flags (gl_result s') = (False, False, gl_failure s1 = [])"
    using e1(4-6) e2(3) e3(3) assms(3,4) by (simp add: prep_flags_def)
  show "glive s' = glive s" using e1(1) e2(1) e3(1) by simp
  show "\<not> pp_rollbackVerified (gl_result s') \<and> \<not> pp_moduleLeftStopped (gl_result s')" using flags by (simp add: prep_flags_def)
  show "pp_strictFirmwareAccepted (gl_result s') \<Longrightarrow> global (glive s) 0x6008 = Mdpp32HardwareId \<and> global (glive s) 0x600E = Mdpp32ScpFirmwareRevisionFw2051"
    using flags e1(7) by (simp add: prep_flags_def)
  show "gl_failure s' = [] \<Longrightarrow> pp_strictFirmwareAccepted (gl_result s') \<and> prep_inv (glive s) {} s'"
    using flags e1(1,2,3) e2(1,2,4,5) e3(1,2,4,5) assms(1,2) by (simp add: prep_flags_def prep_inv_def prep_cores_def)
qed

text \<open>Stopping it.\<close>

lemma prep_stop_exact:
  fixes s :: "'w preparation"
  assumes "prep_inv m0 {} s"
  defines "s' \<equiv> prep_stop T base gate s"
  shows "prep_inv m0 {} s'" "pp_rollbackVerified (gl_result s') = pp_rollbackVerified (gl_result s)"
    "pp_strictFirmwareAccepted (gl_result s') = pp_strictFirmwareAccepted (gl_result s)"
    "gl_failure s' = [] \<Longrightarrow> gl_failure s = [] \<and> global (glive s') Fw2051AcquisitionControlRegister = Fw2051StopAcquisitionValue
       \<and> pp_moduleStopVerified (gl_result s')"
proof -
  let ?o = "gl_reverify T preparation_texts gate ''module startup preparation stop'' s"
  let ?w = "gl_write T base ''write'' ''stop acquisition'' Fw2051AcquisitionControlRegister Fw2051StopAcquisitionValue (snd ?o)"
  let ?n = "gl_note (pp_moduleStopSent_update (\<lambda>_. True)) (snd ?w)"
  let ?r = "gl_read T base ''verify'' ''stopped acquisition'' Fw2051AcquisitionControlRegister ?n"
  have own: "gl_owned s" using assms(1) by (simp add: prep_inv_def)
  have w: "prep_inv m0 {} (snd ?w)"
    using assms(1) prepared_plain(3) by (intro prep_inv_write) (auto simp: preparation_commands_def)
  then have n: "prep_inv m0 {} ?n" by (simp add: prep_inv_note)
  have v: "v = global (glive (snd ?r)) Fw2051AcquisitionControlRegister" if "fst ?r = Some v" for v
    using gl_read_shows [OF that] by (simp add: read_acquisition)
  have eq: "s' = (if \<not> fst ?o then snd ?o else if \<not> fst ?w then snd ?w else case fst ?r of None \<Rightarrow> snd ?r
      | Some v \<Rightarrow> if v \<noteq> Fw2051StopAcquisitionValue
          then gl_append (''Acquisition-enable readback was '' @ decimal (unat v) @ '', expected zero after Stop.'') (snd ?r)
          else gl_note (\<lambda>r. r\<lparr>pp_moduleStopVerified := True, pp_moduleLeftStopped := True\<rparr>) (snd ?r))"
    by (simp add: s'_def prep_stop_def case_prod_beta split: bool.split option.split)
  have last: "prep_inv m0 {} (gl_note (\<lambda>r. r\<lparr>pp_moduleStopVerified := True, pp_moduleLeftStopped := True\<rparr>) (snd ?r))"
    if "fst ?r = Some Fw2051StopAcquisitionValue"
    using prep_inv_steps(2) [OF n, of "''verify''" "''stopped acquisition''" Fw2051AcquisitionControlRegister] v [OF that] by (simp add: prep_inv_def)
  have r: "prep_inv m0 {} (snd ?r)" using n by (rule prep_inv_steps)
  show "prep_inv m0 {} s'" unfolding eq using assms(1) w r last by (auto split: option.split)
  show "pp_rollbackVerified (gl_result s') = pp_rollbackVerified (gl_result s)"
    "pp_strictFirmwareAccepted (gl_result s') = pp_strictFirmwareAccepted (gl_result s)"
    unfolding eq by (auto split: option.split)
  show "gl_failure s' = [] \<Longrightarrow> gl_failure s = [] \<and> global (glive s') Fw2051AcquisitionControlRegister = Fw2051StopAcquisitionValue
       \<and> pp_moduleStopVerified (gl_result s')"
    unfolding eq using v own by (auto simp: gl_owned_def split: option.splits if_splits)
qed

text \<open>Writing the settings; the registers of the attempted rows are undetermined afterwards.\<close>

lemma prep_inv_mono: "prep_inv m0 A s \<Longrightarrow> A \<subseteq> B \<Longrightarrow> prep_inv m0 B s"
  using prep_frame_mono by (auto simp: prep_inv_def)

lemma prep_inv_row_write:
  assumes "prep_inv m0 A s" "i < 8" "pp_registers (gl_result s0) = pp_registers (gl_result s)"
  shows "prep_inv m0 (insert i A) (snd (gl_write T base op nm (pw_registerOffset (pp_registers (gl_result s0) ! i)) v s))"
proof -
  have "pw_registerOffset (pp_registers (gl_result s0) ! i) = preparation_registers ! i"
    using expected_row(1) [of "gl_result s" m0 i] assms by (simp add: prep_inv_def preparation_registers_def)
  moreover have "preparation_registers ! i \<in> set preparation_registers" using assms(2) by (simp add: preparation_registers_def)
  ultimately show ?thesis using prep_inv_mono [OF assms(1), of "insert i A"] by (intro prep_inv_write) auto
qed

lemma prep_write_exact:
  fixes s :: "'w preparation"
  assumes "prep_inv m0 A s" "i < 8"
  defines "x \<equiv> prep_write T base gate i s"
  shows "prep_inv m0 (if fst (fst x) then insert i A else A) (snd x)"
    "prep_flags (gl_result (snd x)) = prep_flags (gl_result s)"
    "gl_failure (snd x) = [] \<Longrightarrow> gl_failure s = []"
proof -
  define row where "row = pp_registers (gl_result s) ! i"
  define o' where "o' = gl_reverify T preparation_texts gate (''module startup preparation '' @ pw_name row @ '' write'') s"
  define n where "n = gl_note (\<lambda>r. (note_row i (pw_writeAttempted_update (\<lambda>_. True)) r)\<lparr>pp_writesAttempted := pp_writesAttempted r + 1\<rparr>) (snd o')"
  define w where "w = gl_write T base ''write'' (pw_name row) (pw_registerOffset row) (pw_targetValue row) n"
  define rd where "rd = gl_read T base ''verify'' (pw_name row) (pw_registerOffset row) (snd w)"
  have "prep_inv m0 A n" using assms(1) by (simp add: n_def o'_def prep_inv_note)
  moreover have "pw_registerOffset row = preparation_registers ! i"
    using expected_row(1) [of "gl_result s" m0 i] assms by (simp add: row_def prep_inv_def preparation_registers_def)
  moreover have "preparation_registers ! i \<in> set preparation_registers" using assms(2) by (simp add: preparation_registers_def)
  ultimately have inv: "prep_inv m0 (insert i A) (snd w)"
    using prep_inv_mono [of m0 A n "insert i A"] unfolding w_def by (intro prep_inv_write) auto
  note defs = x_def prep_write_def Let_def case_prod_beta row_def [symmetric] o'_def [symmetric] n_def [symmetric]
    w_def [symmetric] rd_def [symmetric]
  show "prep_inv m0 (if fst (fst x) then insert i A else A) (snd x)"
    using assms(1) inv unfolding defs by (auto simp: o'_def rd_def prep_inv_note split: bool.split option.split)
  show "prep_flags (gl_result (snd x)) = prep_flags (gl_result s)"
    unfolding defs by (auto simp: rd_def w_def n_def o'_def split: bool.split option.split)
  show "gl_failure (snd x) = [] \<Longrightarrow> gl_failure s = []"
    unfolding defs by (auto simp: rd_def w_def n_def o'_def split: bool.splits option.splits if_splits)
qed

lemma prep_writes_exact:
  fixes s :: "'w preparation"
  assumes "prep_inv m0 (set attempted) s" "list_all (\<lambda>i. i < 8) indices" "list_all (\<lambda>i. i < 8) attempted"
    and "prep_writes T base gate indices attempted s = (attempted', s')"
  shows "prep_inv m0 (set attempted') s' \<and> list_all (\<lambda>i. i < 8) attempted' \<and> prep_flags (gl_result s') = prep_flags (gl_result s)
    \<and> (gl_failure s' = [] \<longrightarrow> gl_failure s = [])"
  using assms
proof (induction indices arbitrary: attempted s)
  case (Cons i indices)
  show ?case
  proof (cases "gl_failure s \<noteq> [] \<or> \<not> gl_ownershipAvailable s \<or> \<not> pw_changeRequired (pp_registers (gl_result s) ! i)")
    case True
    then show ?thesis using Cons by (auto split: if_splits)
  next
    case False
    let ?x = "prep_write T base gate i s"
    let ?att = "if fst (fst ?x) then attempted @ [i] else attempted"
    have i: "i < 8" using Cons.prems by simp
    note x = prep_write_exact [OF Cons.prems(1) i]
    have inv: "prep_inv m0 (set ?att) (snd ?x)" using x(1) by (simp split: if_splits)
    have att: "list_all (\<lambda>i. i < 8) ?att" using Cons.prems(3) i by simp
    have step: "(if snd (fst ?x) then prep_writes T base gate indices ?att (snd ?x) else (?att, snd ?x)) = (attempted', s')"
      using Cons.prems(4) False by (simp add: case_prod_beta Let_def split: if_splits)
    show ?thesis
    proof (cases "snd (fst ?x)")
      case True
      then show ?thesis using Cons.IH [OF inv _ att] step Cons.prems(2) x(2,3) by simp
    next
      case False
      then show ?thesis using step inv att x(2,3) by auto
    qed
  qed
qed auto

text \<open>Resetting and verifying.\<close>

lemma prep_resets_exact:
  fixes s :: "'w preparation"
  assumes "prep_inv m0 A s"
  defines "s' \<equiv> prep_resets T base gate s"
  shows "prep_inv m0 A s'" "prep_flags (gl_result s') = prep_flags (gl_result s)" "gl_failure s' = [] \<Longrightarrow> gl_failure s = []"
proof -
  define o' where "o' = gl_reverify T preparation_texts gate ''module startup preparation FIFO/readout reset'' s"
  define w where "w = gl_write T base ''write'' ''reset FIFO'' Fw2051FifoResetRegister Fw2051ResetCommandValue (snd o')"
  define w' where "w' = gl_write T base ''write'' ''reset readout'' Fw2051ReadoutResetRegister Fw2051ResetCommandValue
    (gl_note (pp_fifoResetSent_update (\<lambda>_. True)) (snd w))"
  have notin: "r \<in> set preparation_commands \<Longrightarrow> r \<notin> set preparation_registers" for r using prepared_plain(3) by blast
  have o': "prep_inv m0 A (snd o')" using assms(1) by (simp add: o'_def)
  then have w: "prep_inv m0 A (snd w)"
    unfolding w_def using command_registers(7) notin [of Fw2051FifoResetRegister] by (intro prep_inv_write) (auto simp: preparation_commands_def)
  then have "prep_inv m0 A (gl_note (pp_fifoResetSent_update (\<lambda>_. True)) (snd w))" by (simp add: prep_inv_note)
  then have w': "prep_inv m0 A (snd w')"
    unfolding w'_def using command_registers(8) notin [of Fw2051ReadoutResetRegister] by (intro prep_inv_write) (auto simp: preparation_commands_def)
  note defs = s'_def prep_resets_def case_prod_beta o'_def [symmetric] w_def [symmetric] w'_def [symmetric]
  show "prep_inv m0 A s'" using assms(1) o' w w' unfolding defs by (auto simp: prep_inv_note split: bool.split)
  show "prep_flags (gl_result s') = prep_flags (gl_result s)" unfolding defs by (auto simp: o'_def w_def w'_def split: bool.split)
  show "gl_failure s' = [] \<Longrightarrow> gl_failure s = []" unfolding defs by (auto split: if_splits)
qed

lemma prep_verify_exact:
  "glive (prep_verify T base rows s) = glive s" "gl_result (prep_verify T base rows s) = gl_result s"
  "gl_owned s \<Longrightarrow> gl_owned (prep_verify T base rows s)"
  "gl_failure (prep_verify T base rows s) = [] \<Longrightarrow> gl_failure s = []
     \<and> list_all (\<lambda>row. mdpp_read (glive s) (pw_registerOffset row) = pw_targetValue row) rows"
proof -
  have "glive (prep_verify T base rows s) = glive s \<and> gl_result (prep_verify T base rows s) = gl_result s
    \<and> (gl_owned s \<longrightarrow> gl_owned (prep_verify T base rows s))
    \<and> (gl_failure (prep_verify T base rows s) = [] \<longrightarrow> gl_failure s = []
      \<and> list_all (\<lambda>row. mdpp_read (glive s) (pw_registerOffset row) = pw_targetValue row) rows)"
  proof (induction rows arbitrary: s)
    case (Cons row rows)
    let ?r = "gl_read T base ''final verify'' (pw_name row) (pw_registerOffset row) s"
    show ?case
      using Cons.IH [of "snd ?r"] gl_read_shows [of "''final verify''" "pw_name row" "pw_registerOffset row" s]
      by (auto simp: case_prod_beta split: option.split)
  qed simp
  then show "glive (prep_verify T base rows s) = glive s" "gl_result (prep_verify T base rows s) = gl_result s"
    "gl_owned s \<Longrightarrow> gl_owned (prep_verify T base rows s)"
    "gl_failure (prep_verify T base rows s) = [] \<Longrightarrow> gl_failure s = []
     \<and> list_all (\<lambda>row. mdpp_read (glive s) (pw_registerOffset row) = pw_targetValue row) rows" by auto
qed

text \<open>The contract: every register at its target, and acquisition stopped.\<close>

end

definition prepared_module :: "mdpp \<Rightarrow> bool" where
  "prepared_module m \<longleftrightarrow> list_all (\<lambda>d. global m (pd_registerOffset d) = pd_targetValue d) preparation_table
     \<and> global m Fw2051AcquisitionControlRegister = Fw2051StopAcquisitionValue"

context guarded_module
begin

lemma rows_at_target:
  assumes "prep_cores r = expected_cores m0 preparation_table"
  shows "list_all (\<lambda>row. mdpp_read m (pw_registerOffset row) = pw_targetValue row) (pp_registers r)
    \<longleftrightarrow> list_all (\<lambda>d. global m (pd_registerOffset d) = pd_targetValue d) preparation_table"
proof -
  have "mdpp_read m (pd_registerOffset (preparation_table ! i)) = global m (pd_registerOffset (preparation_table ! i))" if "i < 8" for i
    using that prepared_plain(1,2) [of "pd_registerOffset (preparation_table ! i)"] by (simp add: preparation_registers_def read_plain)
  then show ?thesis
    using expected_row(1,3) [OF assms] expected_length [OF assms] by (simp add: list_all_length)
qed

lemma prep_final_exact:
  fixes s :: "'w preparation"
  assumes "prep_inv m0 A s"
  defines "s' \<equiv> prep_final T base gate s"
  shows "prep_inv m0 A s'" "pp_rollbackVerified (gl_result s') = pp_rollbackVerified (gl_result s)"
    "pp_strictFirmwareAccepted (gl_result s') = pp_strictFirmwareAccepted (gl_result s)"
    "gl_failure s' = [] \<Longrightarrow> gl_failure s = [] \<and> prepared_module (glive s')"
proof -
  define o' where "o' = gl_reverify T preparation_texts gate ''module startup preparation final verification'' s"
  define rd where "rd = gl_read T base ''verify'' ''stopped acquisition'' Fw2051AcquisitionControlRegister (snd o')"
  define s1 where "s1 = (case fst rd of None \<Rightarrow> snd rd
    | Some v \<Rightarrow> if v \<noteq> Fw2051StopAcquisitionValue
        then gl_append ''Acquisition-enable changed during final verification.'' (gl_note (pp_moduleLeftStopped_update (\<lambda>_. False)) (snd rd))
        else snd rd)"
  have eq: "s' = (if gl_failure s \<noteq> [] then s else if \<not> fst o' then snd o' else prep_verify T base (pp_registers (gl_result s1)) s1)"
    by (simp add: s'_def prep_final_def case_prod_beta o'_def [symmetric] rd_def [symmetric] s1_def Let_def split: bool.split option.split)
  have rd: "prep_inv m0 A (snd rd)" using assms(1) by (simp add: rd_def o'_def)
  then have "prep_inv m0 A (gl_note (pp_moduleLeftStopped_update (\<lambda>_. False)) (snd rd))" by (simp add: prep_inv_def)
  then have s1: "prep_inv m0 A s1" using rd by (simp add: s1_def split: option.split)
  have flags: "pp_rollbackVerified (gl_result s1) = pp_rollbackVerified (gl_result s)"
    "pp_strictFirmwareAccepted (gl_result s1) = pp_strictFirmwareAccepted (gl_result s)"
    by (simp_all add: s1_def rd_def o'_def split: option.split)
  have acq: "global (glive s1) Fw2051AcquisitionControlRegister = Fw2051StopAcquisitionValue" if "gl_failure s1 = []"
  proof -
    have "fst rd = Some Fw2051StopAcquisitionValue" using that by (auto simp: s1_def rd_def split: option.splits if_splits)
    then show ?thesis using gl_read_shows [of _ _ Fw2051AcquisitionControlRegister "snd o'"] by (simp add: s1_def rd_def read_acquisition)
  qed
  have ver: "prep_inv m0 A (prep_verify T base rows s1)" for rows using s1 prep_verify_exact [where rows = rows and s = s1] by (simp add: prep_inv_def)
  show "prep_inv m0 A s'" unfolding eq using assms(1) ver by (simp add: o'_def)
  show "pp_rollbackVerified (gl_result s') = pp_rollbackVerified (gl_result s)"
    "pp_strictFirmwareAccepted (gl_result s') = pp_strictFirmwareAccepted (gl_result s)"
    unfolding eq using flags prep_verify_exact(2) by (simp_all add: o'_def)
  have "gl_failure s = [] \<Longrightarrow> \<not> fst o' \<Longrightarrow> gl_failure (snd o') \<noteq> []"
    unfolding o'_def using assms(1) by (intro gl_refused) (simp_all add: prep_inv_def)
  then show "gl_failure s' = [] \<Longrightarrow> gl_failure s = [] \<and> prepared_module (glive s')"
    unfolding eq using prep_verify_exact(4) [where rows = "pp_registers (gl_result s1)" and s = s1] prep_verify_exact(1) acq s1 rows_at_target
    by (auto simp: prepared_module_def prep_inv_def split: if_splits)
qed

text \<open>Putting the settings back: the rows that were restored are determined again.\<close>

lemma prep_inv_restored:
  assumes "prep_inv m0 A s" "global (glive s) (preparation_registers ! i) = global m0 (preparation_registers ! i)"
  shows "prep_inv m0 (A - {i}) s"
  using assms by (auto simp: prep_inv_def prep_frame_def)

lemma prep_restore_exact:
  fixes s :: "'w preparation"
  assumes "prep_inv m0 A s" "i < 8"
  defines "x \<equiv> prep_restore T base i s"
  shows "prep_inv m0 (insert i A) (snd x)" "fst x \<Longrightarrow> prep_inv m0 (A - {i}) (snd x)"
    "prep_flags (gl_result (snd x)) = prep_flags (gl_result s)" "gl_failure (snd x) = [] \<Longrightarrow> gl_failure s = []"
proof -
  define row where "row = pp_registers (gl_result s) ! i"
  define n where "n = gl_note (\<lambda>r. (note_row i (pw_rollbackAttempted_update (\<lambda>_. True)) r)
    \<lparr>pp_rollbackWritesAttempted := pp_rollbackWritesAttempted r + 1\<rparr>) s"
  define w where "w = gl_write T base ''rollback'' (pw_name row) (pw_registerOffset row) (pw_originalValue row) n"
  define rd where "rd = gl_read T base ''verify rollback'' (pw_name row) (pw_registerOffset row) (snd w)"
  have n: "prep_inv m0 A n" using assms(1) by (simp add: n_def prep_inv_note)
  have row: "pw_registerOffset row = preparation_registers ! i" "pw_originalValue row = global m0 (preparation_registers ! i)"
    using expected_row(1,2) [of "gl_result s" m0 i] assms by (simp_all add: row_def prep_inv_def preparation_registers_def)
  have reg: "preparation_registers ! i \<in> set preparation_registers" using assms(2) by (simp add: preparation_registers_def)
  have w: "prep_inv m0 (insert i A) (snd w)"
    using row(1) reg prep_inv_mono [OF n, of "insert i A"] unfolding w_def by (intro prep_inv_write) auto
  note defs = x_def prep_restore_def Let_def case_prod_beta row_def [symmetric] n_def [symmetric] w_def [symmetric] rd_def [symmetric]
  show inv: "prep_inv m0 (insert i A) (snd x)"
    using w unfolding defs by (auto simp: rd_def prep_inv_note split: bool.split option.split)
  show "prep_flags (gl_result (snd x)) = prep_flags (gl_result s)"
    unfolding defs by (auto simp: rd_def w_def n_def split: bool.split option.split)
  show "gl_failure (snd x) = [] \<Longrightarrow> gl_failure s = []"
    unfolding defs by (auto simp: rd_def w_def n_def split: bool.splits option.splits if_splits)
  have "glive (snd x) = glive (snd w)" unfolding defs by (auto simp: rd_def split: bool.split option.split)
  moreover have "fst x \<Longrightarrow> mdpp_read (glive (snd w)) (preparation_registers ! i) = global m0 (preparation_registers ! i)"
    unfolding defs using gl_read_shows [of "''verify rollback''" "pw_name row" "pw_registerOffset row" "snd w"] row
    by (auto simp: rd_def split: bool.splits option.splits if_splits)
  ultimately have "fst x \<Longrightarrow> global (glive (snd x)) (preparation_registers ! i) = global m0 (preparation_registers ! i)"
    using prepared_plain(1,2) [OF reg] by (simp add: read_plain)
  then show "fst x \<Longrightarrow> prep_inv m0 (A - {i}) (snd x)" using prep_inv_restored [OF inv, of i] by simp
qed

lemma prep_undo_exact:
  fixes s :: "'w preparation"
  assumes "prep_inv m0 A s" "list_all (\<lambda>i. i < 8) indices" "prep_undo T base gate indices safe s = (safe', s')"
  shows "prep_inv m0 (A \<union> set indices) s' \<and> (safe' \<longrightarrow> safe \<and> prep_inv m0 (A - set indices) s')
    \<and> prep_flags (gl_result s') = prep_flags (gl_result s) \<and> (gl_failure s' = [] \<longrightarrow> gl_failure s = [])"
  using assms
proof (induction indices arbitrary: A safe s)
  case (Cons i indices)
  define o' where "o' = gl_reverify T preparation_texts gate
    (''module startup preparation '' @ pw_name (pp_registers (gl_result s) ! i) @ '' rollback'') s"
  define x where "x = prep_restore T base i (snd o')"
  have o': "prep_inv m0 A (snd o')" "gl_result (snd o') = gl_result s" "gl_failure (snd o') = [] \<Longrightarrow> gl_failure s = []"
    using Cons.prems(1) by (simp_all add: o'_def)
  have i: "i < 8" using Cons.prems by simp
  have widen: "prep_inv m0 B t \<Longrightarrow> B \<subseteq> A \<union> set (i # indices) \<Longrightarrow> prep_inv m0 (A \<union> set (i # indices)) t" for B and t :: "'w preparation"
    by (rule prep_inv_mono)
  show ?case
  proof (cases "gl_ownershipAvailable s \<and> fst o'")
    case False
    then have "safe' = False \<and> (s' = s \<or> s' = snd o')" using Cons.prems(3) by (auto simp: case_prod_beta o'_def split: if_splits)
    then show ?thesis using widen [OF Cons.prems(1)] widen [OF o'(1)] o'(2,3) by auto
  next
    case True
    then have step: "prep_undo T base gate indices (safe \<and> fst x) (snd x) = (safe', s')"
      using Cons.prems(3) by (simp add: case_prod_beta x_def o'_def)
    note r = prep_restore_exact [OF o'(1) i, folded x_def]
    let ?B = "if fst x then A - {i} else insert i A"
    have "prep_inv m0 ?B (snd x)" using r(1,2) by simp
    from Cons.IH [OF this _ step] Cons.prems(2)
    have ih: "prep_inv m0 (?B \<union> set indices) s'" "safe' \<Longrightarrow> safe \<and> fst x \<and> prep_inv m0 (?B - set indices) s'"
      "prep_flags (gl_result s') = prep_flags (gl_result (snd x))" "gl_failure s' = [] \<Longrightarrow> gl_failure (snd x) = []" by auto
    have "?B \<union> set indices \<subseteq> A \<union> set (i # indices)" by auto
    moreover have "A - {i} - set indices = A - set (i # indices)" by auto
    ultimately show ?thesis using widen [OF ih(1)] ih(2-4) r(3,4) o'(2,3) by (auto split: if_splits)
  qed
qed auto

lemma prep_rollback_exact:
  fixes s :: "'w preparation"
  assumes "prep_inv m0 (set attempted) s" "list_all (\<lambda>i. i < 8) attempted" "\<not> pp_rollbackVerified (gl_result s)"
  defines "s' \<equiv> prep_rollback T base gate attempted s"
  shows "prep_inv m0 (set attempted) s'" "pp_rollbackVerified (gl_result s') \<Longrightarrow> prep_inv m0 {} s'"
    "pp_strictFirmwareAccepted (gl_result s') = pp_strictFirmwareAccepted (gl_result s)"
    "gl_failure s' = [] \<Longrightarrow> s' = s"
proof -
  define n where "n = gl_note (\<lambda>r. r\<lparr>pp_state := PreparationRollingBack, pp_rollbackAttempted := True\<rparr>) s"
  obtain safe t where undo: "prep_undo T base gate (rev attempted) (gl_ownershipAvailable s) n = (safe, t)" by (rule prod.exhaust)
  have n: "prep_inv m0 (set attempted) n" using assms(1) by (simp add: n_def prep_inv_note)
  have t: "prep_inv m0 (set attempted) t" "safe \<Longrightarrow> prep_inv m0 {} t" "prep_flags (gl_result t) = prep_flags (gl_result s)"
    "gl_failure t = [] \<Longrightarrow> gl_failure s = []"
    using prep_undo_exact [OF n _ undo] assms(2) by (simp_all add: n_def)
  define v where "v = (safe \<and> pp_rollbackWritesVerified (gl_result t) = length attempted)"
  have eq: "s' = (if gl_failure s = [] \<or> attempted = [] then s else gl_note (\<lambda>r. r\<lparr>pp_rollbackVerified := safe \<and> pp_rollbackWritesVerified r = length attempted\<rparr>) t)"
    unfolding s'_def prep_rollback_def using undo by (simp add: n_def)
  have keep: "prep_inv m0 B (gl_note (\<lambda>r. r\<lparr>pp_rollbackVerified := safe \<and> pp_rollbackWritesVerified r = length attempted\<rparr>) t) = prep_inv m0 B t" for B
    by (simp add: prep_inv_def)
  show "prep_inv m0 (set attempted) s'" unfolding eq using assms(1) t(1) by (simp add: keep)
  show "pp_rollbackVerified (gl_result s') \<Longrightarrow> prep_inv m0 {} s'" unfolding eq using assms(3) t(2) by (simp add: keep split: if_splits)
  show "pp_strictFirmwareAccepted (gl_result s') = pp_strictFirmwareAccepted (gl_result s)"
    unfolding eq using t(3) by (simp add: prep_flags_def)
  show "gl_failure s' = [] \<Longrightarrow> s' = s" unfolding eq using t(4) by (auto split: if_splits)
qed

lemma prep_stopped_exact:
  fixes s :: "'w preparation"
  assumes "prep_inv m0 A s"
  defines "s' \<equiv> prep_stopped T base gate s"
  shows "prep_inv m0 A s'" "glive s' = glive s" "pp_rollbackVerified (gl_result s') = pp_rollbackVerified (gl_result s)"
    "pp_strictFirmwareAccepted (gl_result s') = pp_strictFirmwareAccepted (gl_result s)" "gl_failure s' = [] \<Longrightarrow> gl_failure s = []"
proof -
  define o' where "o' = gl_reverify T preparation_texts gate ''module startup preparation stopped-state verification'' s"
  define rd where "rd = gl_read T base ''verify'' ''final stopped acquisition'' Fw2051AcquisitionControlRegister (snd o')"
  have o': "prep_inv m0 A (snd o')" using assms(1) by (simp add: o'_def)
  then have "prep_inv m0 A (snd rd)" by (simp add: rd_def)
  moreover have "v = global (glive (snd rd)) Fw2051AcquisitionControlRegister" if "fst rd = Some v" for v
    using gl_read_shows [OF that [unfolded rd_def]] by (simp add: rd_def read_acquisition)
  ultimately have inv: "prep_inv m0 A (gl_note (pp_moduleLeftStopped_update (\<lambda>_. False)) (snd rd))"
    "fst rd = Some v \<Longrightarrow> prep_inv m0 A (gl_note (pp_moduleLeftStopped_update (\<lambda>_. v = Fw2051StopAcquisitionValue)) (snd rd))" for v
    by (simp_all add: prep_inv_def)
  note defs = s'_def prep_stopped_def Let_def case_prod_beta o'_def [symmetric] rd_def [symmetric]
  show "prep_inv m0 A s'" using assms(1) o' inv unfolding defs by (auto split: bool.split option.split)
  show "glive s' = glive s" "pp_rollbackVerified (gl_result s') = pp_rollbackVerified (gl_result s)"
    "pp_strictFirmwareAccepted (gl_result s') = pp_strictFirmwareAccepted (gl_result s)"
    unfolding defs by (auto simp: rd_def o'_def split: bool.split option.split)
  show "gl_failure s' = [] \<Longrightarrow> gl_failure s = []" unfolding defs by (auto simp: rd_def o'_def split: bool.splits option.splits if_splits)
qed

text \<open>The whole change, from an examined module on.\<close>

lemma prep_change_exact:
  fixes s :: "'w preparation"
  assumes "prep_inv m0 {} s" "\<not> pp_rollbackVerified (gl_result s)"
  defines "s' \<equiv> prep_change T base gate s"
  shows "prep_inv m0 {..<8} s'" "pp_rollbackVerified (gl_result s') \<Longrightarrow> prep_inv m0 {} s'"
    "pp_strictFirmwareAccepted (gl_result s') = pp_strictFirmwareAccepted (gl_result s)"
    "gl_failure s' = [] \<Longrightarrow> prepared_module (glive s')"
proof -
  define s1 where "s1 = prep_stop T base gate s"
  obtain att s2 where s2: "prep_writes T base gate [0..<length (pp_registers (gl_result s1))] [] s1 = (att, s2)" by (rule prod.exhaust)
  define s3 where "s3 = prep_resets T base gate s2"
  define s4 where "s4 = prep_final T base gate s3"
  define s5 where "s5 = prep_rollback T base gate att s4"
  have s': "s' = prep_stopped T base gate s5"
    by (simp add: s'_def prep_change_def Let_def s1_def [symmetric] s2 s3_def s4_def s5_def)
  note e1 = prep_stop_exact [OF assms(1), folded s1_def]
  have "length (pp_registers (gl_result s1)) = 8" using e1(1) expected_length by (auto simp: prep_inv_def)
  then have e2: "prep_inv m0 (set att) s2" "list_all (\<lambda>i. i < 8) att" "prep_flags (gl_result s2) = prep_flags (gl_result s1)"
    using prep_writes_exact [of m0 "[]" s1 "[0..<length (pp_registers (gl_result s1))]" att s2] e1(1) s2 by (simp_all add: list_all_iff)
  note e3 = prep_resets_exact [OF e2(1), folded s3_def]
  note e4 = prep_final_exact [OF e3(1), folded s4_def]
  have flags: "\<not> pp_rollbackVerified (gl_result s4)" "pp_strictFirmwareAccepted (gl_result s4) = pp_strictFirmwareAccepted (gl_result s)"
    using e1(2,3) e2(3) e3(2) e4(2,3) assms(2) by (simp_all add: prep_flags_def)
  note e5 = prep_rollback_exact [OF e4(1) e2(2) flags(1), folded s5_def]
  note e6 = prep_stopped_exact [OF e5(1), folded s']
  have "set att \<subseteq> {..<8}" using e2(2) by (auto simp: list_all_iff)
  then show "prep_inv m0 {..<8} s'" by (rule prep_inv_mono [OF e6(1)])
  show "pp_rollbackVerified (gl_result s') \<Longrightarrow> prep_inv m0 {} s'"
    using e5(2) e6(3) prep_stopped_exact(1) [of m0 "{}" s5] unfolding s' by simp
  show "pp_strictFirmwareAccepted (gl_result s') = pp_strictFirmwareAccepted (gl_result s)" using e5(3) e6(4) flags(2) by simp
  show "gl_failure s' = [] \<Longrightarrow> prepared_module (glive s')" using e4(4) e5(4) e6(2,5) by auto
qed

lemma begin_preparation_fields [simp]:
  "gl_result (begin_preparation base w) = begin_preparation_result base" "gl_failure (begin_preparation base w) = []"
  "gl_ownershipAvailable (begin_preparation base w)" "gl_owned (begin_preparation base w)" "glive (begin_preparation base w) = dev w"
  by (simp_all add: begin_preparation_def gl_owned_def glive_def)

lemma finish_fields:
  "pp_state (prep_finish s) = PreparationPassed \<longleftrightarrow> gl_failure s = [] \<and> pp_strictFirmwareAccepted (gl_result s)
     \<and> pp_moduleStopVerified (gl_result s) \<and> pp_writesVerified (gl_result s) = pp_changedSettings (gl_result s)
     \<and> pp_fifoResetSent (gl_result s) \<and> pp_readoutResetSent (gl_result s) \<and> pp_moduleLeftStopped (gl_result s)"
  "prep_flags (prep_finish s) = prep_flags (gl_result s)"
  by (auto simp: prep_finish_def Let_def prep_flags_def)

lemma frame_inv: "prep_inv m0 A s \<Longrightarrow> prep_frame m0 A (glive s)"
  by (simp add: prep_inv_def)

lemma preparation_exact:
  assumes "PrepareFw2051ModuleForStartup T base audit (Some gate) w = (res, w')"
  shows "prep_frame (dev w) {..<8} (dev w')" "pp_rollbackVerified res \<Longrightarrow> prep_frame (dev w) {} (dev w')"
    "if pp_strictFirmwareAccepted res
     then global (dev w) 0x6008 = Mdpp32HardwareId \<and> global (dev w) 0x600E = Mdpp32ScpFirmwareRevisionFw2051
     else dev w' = dev w"
    "pp_state res = PreparationPassed \<Longrightarrow> pp_strictFirmwareAccepted res \<and> prepared_module (dev w')"
    "pp_moduleLeftStopped res \<Longrightarrow> global (dev w') Fw2051AcquisitionControlRegister = Fw2051StopAcquisitionValue"
proof -
  let ?o = "gl_reverify T preparation_texts gate ''module startup preparation preflight'' (begin_preparation base w)"
  define s1 where "s1 = prep_examine T base (snd ?o)"
  define s2 where "s2 = prep_change T base gate s1"
  have o': "gl_owned (snd ?o)" "gl_result (snd ?o) = begin_preparation_result base" "glive (snd ?o) = dev w" by simp_all
  have start: "pp_registers (begin_preparation_result base) = []" "\<not> pp_moduleLeftStopped (begin_preparation_result base)"
    "\<not> pp_rollbackVerified (begin_preparation_result base)" "\<not> pp_strictFirmwareAccepted (begin_preparation_result base)"
    by (simp_all add: begin_preparation_result_def)
  have e1: "glive s1 = dev w" "\<not> pp_rollbackVerified (gl_result s1) \<and> \<not> pp_moduleLeftStopped (gl_result s1)"
    "pp_strictFirmwareAccepted (gl_result s1) \<Longrightarrow> global (dev w) 0x6008 = Mdpp32HardwareId \<and> global (dev w) 0x600E = Mdpp32ScpFirmwareRevisionFw2051"
    "gl_failure s1 = [] \<Longrightarrow> pp_strictFirmwareAccepted (gl_result s1) \<and> prep_inv (dev w) {} s1"
    using prep_examine_exact [of "snd ?o"] o' start by (simp_all add: s1_def)
  have e2: "prep_inv (dev w) {..<8} s2" "pp_rollbackVerified (gl_result s2) \<Longrightarrow> prep_inv (dev w) {} s2"
    "pp_strictFirmwareAccepted (gl_result s2) = pp_strictFirmwareAccepted (gl_result s1)"
    "gl_failure s2 = [] \<Longrightarrow> prepared_module (glive s2)" if "gl_failure s1 = []"
    using prep_change_exact [of "dev w" s1] that e1(2,4) by (simp_all add: s2_def)
  have still: "dev w' = dev w \<and> pp_state res \<noteq> PreparationPassed \<and> \<not> pp_strictFirmwareAccepted res
      \<and> \<not> pp_moduleLeftStopped res \<and> \<not> pp_rollbackVerified res" if "ValidateAudit base audit \<noteq> [] \<or> \<not> fst ?o"
    using that assms start o'(2,3)
    by (auto simp: PrepareFw2051ModuleForStartup_def case_prod_beta preparation_failed_def glive_def split: if_splits)
  have examined: "dev w' = dev w \<and> pp_state res \<noteq> PreparationPassed \<and> prep_flags res = prep_flags (gl_result s1)"
    if "ValidateAudit base audit = []" "fst ?o" "gl_failure s1 \<noteq> []"
    using that assms e1(1)
    by (auto simp: PrepareFw2051ModuleForStartup_def case_prod_beta Let_def preparation_failed_def glive_def prep_flags_def s1_def)
  have changed: "res = prep_finish s2 \<and> dev w' = glive s2" if "ValidateAudit base audit = []" "fst ?o" "gl_failure s1 = []"
    using that assms by (auto simp: PrepareFw2051ModuleForStartup_def case_prod_beta Let_def glive_def s1_def s2_def)
  consider "ValidateAudit base audit \<noteq> [] \<or> \<not> fst ?o" | "ValidateAudit base audit = []" "fst ?o" "gl_failure s1 \<noteq> []"
    | "ValidateAudit base audit = []" "fst ?o" "gl_failure s1 = []" by blast
  then have "prep_frame (dev w) {..<8} (dev w') \<and> (pp_rollbackVerified res \<longrightarrow> prep_frame (dev w) {} (dev w'))
    \<and> (if pp_strictFirmwareAccepted res
       then global (dev w) 0x6008 = Mdpp32HardwareId \<and> global (dev w) 0x600E = Mdpp32ScpFirmwareRevisionFw2051
       else dev w' = dev w)
    \<and> (pp_state res = PreparationPassed \<longrightarrow> pp_strictFirmwareAccepted res \<and> prepared_module (dev w'))
    \<and> (pp_moduleLeftStopped res \<longrightarrow> global (dev w') Fw2051AcquisitionControlRegister = Fw2051StopAcquisitionValue)"
  proof cases
    case 1
    then show ?thesis using still by simp
  next
    case 2
    then show ?thesis using examined e1(2,3) by (simp add: prep_flags_def)
  next
    case 3
    note c = changed [OF 3] and e2 = e2 [OF 3(3)] and e1 = e1(4) [OF 3(3)] e1(3)
    have "prep_flags res = prep_flags (gl_result s2)" using c finish_fields(2) by simp
    then have flags: "pp_rollbackVerified res = pp_rollbackVerified (gl_result s2)" "pp_strictFirmwareAccepted res"
      "pp_moduleLeftStopped res = pp_moduleLeftStopped (gl_result s2)" using e2(3) e1(1) by (simp_all add: prep_flags_def)
    then show ?thesis
      using c e1 frame_inv [OF e2(1)] frame_inv [OF e2(2)] e2(1,4) finish_fields(1) [of s2] by (simp add: prep_inv_def)
  qed
  then show "prep_frame (dev w) {..<8} (dev w')" "pp_rollbackVerified res \<Longrightarrow> prep_frame (dev w) {} (dev w')"
    "if pp_strictFirmwareAccepted res
     then global (dev w) 0x6008 = Mdpp32HardwareId \<and> global (dev w) 0x600E = Mdpp32ScpFirmwareRevisionFw2051
     else dev w' = dev w"
    "pp_state res = PreparationPassed \<Longrightarrow> pp_strictFirmwareAccepted res \<and> prepared_module (dev w')"
    "pp_moduleLeftStopped res \<Longrightarrow> global (dev w') Fw2051AcquisitionControlRegister = Fw2051StopAcquisitionValue" by auto
qed

end

lemma write_plain: "r \<noteq> Fw2051ScpSelectorRegister \<Longrightarrow> r \<notin> set fw2051_registers \<Longrightarrow> mdpp_write m r v = m\<lparr>global := (global m)(r := v)\<rparr>"
  by (simp add: mdpp_write_def)

lemma prep_command_write: "r \<in> set preparation_commands \<Longrightarrow> mdpp_write m r v = m\<lparr>global := (global m)(r := v)\<rparr>"
  using command_plain write_plain by blast

definition needs_change :: "mdpp \<Rightarrow> nat \<Rightarrow> bool" where
  "needs_change m i \<longleftrightarrow> global m (pd_registerOffset (preparation_table ! i)) \<noteq> pd_targetValue (preparation_table ! i)"

definition changes_in :: "mdpp \<Rightarrow> Fw2051StartupPreparationDefinition list \<Rightarrow> nat" where
  "changes_in m ds = length (filter (\<lambda>d. global m (pd_registerOffset d) \<noteq> pd_targetValue d) ds)"

lemma changes_indexed: "length (filter (needs_change m) [0..<8]) = changes_in m preparation_table"
proof -
  have "filter (\<lambda>d. global m (pd_registerOffset d) \<noteq> pd_targetValue d) (map ((!) preparation_table) [0..<length preparation_table])
      = map ((!) preparation_table) (filter (needs_change m) [0..<8])"
    by (simp add: filter_map o_def needs_change_def [abs_def] cong: filter_cong)
  then show ?thesis by (simp only: map_nth changes_in_def length_map)
qed

lemma table_register: "i < 8 \<Longrightarrow> pd_registerOffset (preparation_table ! i) \<in> set preparation_registers"
  by (simp add: preparation_registers_def)

lemma table_register_inj: "i < 8 \<Longrightarrow> j < 8 \<Longrightarrow>
    pd_registerOffset (preparation_table ! i) = pd_registerOffset (preparation_table ! j) \<longleftrightarrow> i = j"
  using nth_eq_iff_index_eq [OF preparation_register_distinct, of i j] by (simp add: preparation_registers_def)

definition row_register :: "nat \<Rightarrow> u16" where
  "row_register i = pd_registerOffset (preparation_table ! i)"

definition row_target :: "nat \<Rightarrow> u16" where
  "row_target i = pd_targetValue (preparation_table ! i)"

context responsive_link
begin

lemma prep_calm_identity:
  assumes "gl_calm s" "global (glive s) 0x6008 = Mdpp32HardwareId" "global (glive s) 0x600E = Mdpp32ScpFirmwareRevisionFw2051"
  shows "gl_calm (prep_identity T base s)" "pp_changedSettings (gl_result (prep_identity T base s)) = pp_changedSettings (gl_result s)"
    "pp_writesVerified (gl_result (prep_identity T base s)) = pp_writesVerified (gl_result s)"
  using assms by (simp_all add: prep_identity_def Let_def case_prod_beta read_identity gl_calm_def)

lemma prep_calm_capture:
  assumes "gl_calm s" "list_all (\<lambda>d. pd_registerOffset d \<in> set preparation_registers) ds"
  shows "gl_calm (prep_capture T base ds s)
    \<and> pp_changedSettings (gl_result (prep_capture T base ds s)) = pp_changedSettings (gl_result s) + changes_in (glive s) ds
    \<and> pp_writesVerified (gl_result (prep_capture T base ds s)) = pp_writesVerified (gl_result s)"
  using assms
proof (induction ds arbitrary: s)
  case (Cons d ds)
  let ?r = "gl_read T base ''read'' (pd_name d) (pd_registerOffset d) s"
  have r: "fst ?r = Some (global (glive s) (pd_registerOffset d))" using Cons.prems(2) prepared_plain(1,2) by (simp add: read_plain)
  have "gl_failure s = []" using Cons.prems(1) by (simp add: gl_calm_def)
  then show ?case
    using Cons.IH [of "gl_note (note_captured d (global (glive s) (pd_registerOffset d))) (snd ?r)"] Cons.prems r
    by (auto simp: case_prod_beta note_captured_def changes_in_def)
qed (simp add: changes_in_def)

lemma prep_calm_acquisition:
  assumes "gl_calm s"
  shows "gl_calm (prep_acquisition T base s)"
    "pp_changedSettings (gl_result (prep_acquisition T base s)) = pp_changedSettings (gl_result s)"
    "pp_writesVerified (gl_result (prep_acquisition T base s)) = pp_writesVerified (gl_result s)"
  using assms by (simp_all add: prep_acquisition_def case_prod_beta gl_calm_def)

lemma prep_calm_stop:
  assumes "gl_calm s"
  defines "s' \<equiv> prep_stop T base gate s"
  shows "gl_calm s'" "pp_moduleStopVerified (gl_result s')" "pp_moduleStopSent (gl_result s')" "pp_moduleLeftStopped (gl_result s')"
    "pp_changedSettings (gl_result s') = pp_changedSettings (gl_result s)"
    "pp_writesVerified (gl_result s') = pp_writesVerified (gl_result s)"
    "glive s' = (glive s)\<lparr>global := (global (glive s))(Fw2051AcquisitionControlRegister := Fw2051StopAcquisitionValue)\<rparr>"
  using assms(1) prep_command_write [of Fw2051AcquisitionControlRegister]
  by (simp_all add: s'_def prep_stop_def case_prod_beta read_acquisition preparation_commands_def split: bool.split)

lemma prep_calm_write:
  assumes "gl_calm s" "prep_inv m0 A s" "i < 8"
  defines "x \<equiv> prep_write T base gate i s"
  defines "d \<equiv> preparation_table ! i"
  shows "fst x = (True, True)" "gl_calm (snd x)"
    "glive (snd x) = (glive s)\<lparr>global := (global (glive s))(pd_registerOffset d := pd_targetValue d)\<rparr>"
    "pp_writesVerified (gl_result (snd x)) = pp_writesVerified (gl_result s) + 1"
    "pp_changedSettings (gl_result (snd x)) = pp_changedSettings (gl_result s)"
    "pp_moduleStopVerified (gl_result (snd x)) = pp_moduleStopVerified (gl_result s)"
    "pp_moduleStopSent (gl_result (snd x)) = pp_moduleStopSent (gl_result s)"
proof -
  have row: "pw_registerOffset (pp_registers (gl_result s) ! i) = pd_registerOffset d"
    "pw_targetValue (pp_registers (gl_result s) ! i) = pd_targetValue d"
    using expected_row(1,3) [of "gl_result s" m0 i] assms(2,3) by (simp_all add: prep_inv_def d_def)
  have plain: "pd_registerOffset d \<noteq> Fw2051ScpSelectorRegister" "pd_registerOffset d \<notin> set fw2051_registers"
    using prepared_plain(1,2) [OF table_register [OF assms(3)]] by (simp_all add: d_def)
  show "fst x = (True, True)" "gl_calm (snd x)"
    "glive (snd x) = (glive s)\<lparr>global := (global (glive s))(pd_registerOffset d := pd_targetValue d)\<rparr>"
    "pp_writesVerified (gl_result (snd x)) = pp_writesVerified (gl_result s) + 1"
    "pp_changedSettings (gl_result (snd x)) = pp_changedSettings (gl_result s)"
    "pp_moduleStopVerified (gl_result (snd x)) = pp_moduleStopVerified (gl_result s)"
    "pp_moduleStopSent (gl_result (snd x)) = pp_moduleStopSent (gl_result s)"
    using assms(1) plain
    by (simp_all add: x_def prep_write_def Let_def case_prod_beta row read_plain write_plain split: bool.split)
qed

text \<open>After the loop the registers of the listed rows are at their targets.\<close>

lemma prep_calm_writes:
  assumes "gl_calm s" "prep_inv m0 (set attempted) s" "list_all (\<lambda>i. i < 8) indices" "distinct indices"
    and "\<And>i. i \<in> set indices \<Longrightarrow> global (glive s) (row_register i) = global m0 (row_register i)"
    and "prep_writes T base gate indices attempted s = (attempted', s')"
  shows "gl_calm s' \<and> pp_writesVerified (gl_result s') = pp_writesVerified (gl_result s) + length (filter (needs_change m0) indices)
    \<and> pp_changedSettings (gl_result s') = pp_changedSettings (gl_result s)
    \<and> pp_moduleStopVerified (gl_result s') = pp_moduleStopVerified (gl_result s)
    \<and> pp_moduleStopSent (gl_result s') = pp_moduleStopSent (gl_result s)
    \<and> (\<forall>i < 8. global (glive s') (row_register i) = (if i \<in> set indices then row_target i else global (glive s) (row_register i)))
    \<and> (\<forall>r. r \<notin> set preparation_registers \<longrightarrow> global (glive s') r = global (glive s) r)"
  using assms
proof (induction indices arbitrary: attempted s)
  case (Cons i indices)
  have i: "i < 8" "i \<notin> set indices" using Cons.prems by auto
  have flag: "pw_changeRequired (pp_registers (gl_result s) ! i) \<longleftrightarrow> needs_change m0 i"
    using expected_row(4) [of "gl_result s" m0 i] Cons.prems(2) i(1) by (simp add: prep_inv_def needs_change_def)
  have go: "\<not> (gl_failure s \<noteq> [] \<or> \<not> gl_ownershipAvailable s)" using Cons.prems(1) by (simp add: gl_calm_def)
  show ?case
  proof (cases "needs_change m0 i")
    case False
    then have step: "prep_writes T base gate indices attempted s = (attempted', s')" using Cons.prems(6) go flag by simp
    have "global (glive s) (row_register i) = row_target i"
      using Cons.prems(5) [of i] False by (simp add: needs_change_def row_register_def row_target_def)
    then show ?thesis using Cons.IH [OF Cons.prems(1,2) _ _ _ step] Cons.prems(3,4,5) False i by auto
  next
    case True
    let ?x = "prep_write T base gate i s"
    note x = prep_calm_write [OF Cons.prems(1,2) i(1)]
    have inv: "prep_inv m0 (set (attempted @ [i])) (snd ?x)" using prep_write_exact(1) [OF Cons.prems(2) i(1)] x(1) by simp
    have step: "prep_writes T base gate indices (attempted @ [i]) (snd ?x) = (attempted', s')"
      using Cons.prems(6) go flag True x(1) by (simp add: case_prod_beta Let_def)
    have live: "global (glive (snd ?x)) (row_register j) = (if j = i then row_target i else global (glive s) (row_register j))" if "j < 8" for j
      using x(3) table_register_inj [OF that i(1)] by (auto simp: row_register_def row_target_def)
    have other: "global (glive (snd ?x)) r = global (glive s) r" if "r \<notin> set preparation_registers" for r
      using x(3) that table_register [OF i(1)] by auto
    have before: "global (glive (snd ?x)) (row_register j) = global m0 (row_register j)" if "j \<in> set indices" for j
      using live [of j] Cons.prems(3,5) that i(2) by (auto simp: list_all_iff)
    have bounds: "list_all (\<lambda>i. i < 8) indices" "distinct indices" using Cons.prems(3,4) by simp_all
    show ?thesis using Cons.IH [OF x(2) inv bounds before step] x(4-7) live other i True by auto
  qed
qed simp

lemma prep_calm_resets:
  assumes "gl_calm s"
  defines "s' \<equiv> prep_resets T base gate s"
  shows "gl_calm s'" "pp_fifoResetSent (gl_result s')" "pp_readoutResetSent (gl_result s')"
    "pp_changedSettings (gl_result s') = pp_changedSettings (gl_result s)"
    "pp_writesVerified (gl_result s') = pp_writesVerified (gl_result s)"
    "pp_moduleStopVerified (gl_result s') = pp_moduleStopVerified (gl_result s)"
    "pp_moduleStopSent (gl_result s') = pp_moduleStopSent (gl_result s)"
    "r \<noteq> Fw2051FifoResetRegister \<Longrightarrow> r \<noteq> Fw2051ReadoutResetRegister \<Longrightarrow> global (glive s') r = global (glive s) r"
proof -
  have nofail: "gl_failure s = []" using assms(1) by (simp add: gl_calm_def)
  show "gl_calm s'" "pp_fifoResetSent (gl_result s')" "pp_readoutResetSent (gl_result s')"
    "pp_changedSettings (gl_result s') = pp_changedSettings (gl_result s)"
    "pp_writesVerified (gl_result s') = pp_writesVerified (gl_result s)"
    "pp_moduleStopVerified (gl_result s') = pp_moduleStopVerified (gl_result s)"
    "pp_moduleStopSent (gl_result s') = pp_moduleStopSent (gl_result s)"
    using assms(1) nofail by (simp_all add: s'_def prep_resets_def case_prod_beta split: bool.split)
  show "r \<noteq> Fw2051FifoResetRegister \<Longrightarrow> r \<noteq> Fw2051ReadoutResetRegister \<Longrightarrow> global (glive s') r = global (glive s) r"
    using assms(1) nofail prep_command_write by (simp add: s'_def prep_resets_def case_prod_beta preparation_commands_def split: bool.split)
qed

lemma prep_calm_verify:
  assumes "gl_calm s" "list_all (\<lambda>row. mdpp_read (glive s) (pw_registerOffset row) = pw_targetValue row) rows"
  shows "gl_calm (prep_verify T base rows s)"
  using assms
proof (induction rows arbitrary: s)
  case (Cons row rows)
  then show ?case by (auto simp: case_prod_beta)
qed simp

lemma prep_calm_final:
  assumes "gl_calm s" "prep_inv m0 A s" "prepared_module (glive s)"
  shows "gl_calm (prep_final T base gate s)" "gl_result (prep_final T base gate s) = gl_result s"
    "glive (prep_final T base gate s) = glive s"
proof -
  define t where "t = snd (gl_read T base ''verify'' ''stopped acquisition'' Fw2051AcquisitionControlRegister
    (snd (gl_reverify T preparation_texts gate ''module startup preparation final verification'' s)))"
  have t: "gl_calm t" "gl_result t = gl_result s" "glive t = glive s" using assms(1) by (simp_all add: t_def)
  have "gl_failure s = []" using assms(1) by (simp add: gl_calm_def)
  then have eq: "prep_final T base gate s = prep_verify T base (pp_registers (gl_result t)) t"
    using assms(1,3) by (simp add: prep_final_def case_prod_beta t_def read_acquisition prepared_module_def split: bool.split)
  have cores: "prep_cores (gl_result s) = expected_cores m0 preparation_table" using assms(2) by (simp add: prep_inv_def)
  have "list_all (\<lambda>row. mdpp_read (glive t) (pw_registerOffset row) = pw_targetValue row) (pp_registers (gl_result t))"
    using rows_at_target [OF cores, of "glive s"] assms(3) t(2,3) by (simp add: prepared_module_def)
  then show "gl_calm (prep_final T base gate s)" unfolding eq using t(1) by (intro prep_calm_verify) auto
  show "gl_result (prep_final T base gate s) = gl_result s" "glive (prep_final T base gate s) = glive s"
    unfolding eq using t(2,3) prep_verify_exact(1,2) by simp_all
qed

lemma prep_calm_stopped:
  assumes "gl_calm s" "pp_moduleStopSent (gl_result s)"
    and "global (glive s) Fw2051AcquisitionControlRegister = Fw2051StopAcquisitionValue"
  shows "gl_calm (prep_stopped T base gate s)"
    "gl_result (prep_stopped T base gate s) = (gl_result s)\<lparr>pp_moduleLeftStopped := True\<rparr>"
  using assms by (simp_all add: prep_stopped_def Let_def case_prod_beta read_acquisition gl_calm_def split: bool.split)

lemma prep_calm_change:
  assumes "gl_calm s" "prep_inv m0 {} s" "pp_changedSettings (gl_result s) = changes_in m0 preparation_table"
    and "pp_writesVerified (gl_result s) = 0" "pp_strictFirmwareAccepted (gl_result s)" "\<not> pp_rollbackVerified (gl_result s)"
  shows "pp_state (prep_finish (prep_change T base gate s)) = PreparationPassed"
proof -
  define s1 where "s1 = prep_stop T base gate s"
  obtain att s2 where s2: "prep_writes T base gate [0..<length (pp_registers (gl_result s1))] [] s1 = (att, s2)" by (rule prod.exhaust)
  define s3 where "s3 = prep_resets T base gate s2"
  define s4 where "s4 = prep_final T base gate s3"
  note c1 = prep_calm_stop [OF assms(1), folded s1_def] and e1 = prep_stop_exact [OF assms(2), folded s1_def]
  have len: "length (pp_registers (gl_result s1)) = 8" using e1(1) expected_length by (auto simp: prep_inv_def)
  have bounds: "list_all (\<lambda>i. i < 8) [0..<length (pp_registers (gl_result s1))]" by (simp add: len list_all_iff)
  have inv1: "prep_inv m0 (set []) s1" using e1(1) by simp
  have "global (glive s1) (row_register i) = global m0 (row_register i)" if "i < 8" for i
    using frame_inv [OF e1(1)] prepared_plain(3) [OF table_register [OF that]] by (simp add: prep_frame_def row_register_def)
  then have w: "gl_calm s2" "pp_writesVerified (gl_result s2) = length (filter (needs_change m0) [0..<8])"
    "pp_changedSettings (gl_result s2) = changes_in m0 preparation_table" "pp_moduleStopVerified (gl_result s2)"
    "pp_moduleStopSent (gl_result s2)" "\<And>i. i < 8 \<Longrightarrow> global (glive s2) (row_register i) = row_target i"
    "\<And>r. r \<notin> set preparation_registers \<Longrightarrow> global (glive s2) r = global (glive s1) r"
    using prep_calm_writes [OF c1(1) inv1 bounds _ _ s2] c1 assms(3,4) by (auto simp: len)
  have e2: "prep_inv m0 (set att) s2" "list_all (\<lambda>i. i < 8) att" "prep_flags (gl_result s2) = prep_flags (gl_result s1)"
    using prep_writes_exact [OF inv1 bounds _ s2] by simp_all
  note c3 = prep_calm_resets [OF w(1), folded s3_def] and e3 = prep_resets_exact [OF e2(1), folded s3_def]
  have acq: "Fw2051AcquisitionControlRegister \<notin> set preparation_registers" using prepared_plain(3) by (auto simp: preparation_commands_def)
  have stopped: "global (glive s3) Fw2051AcquisitionControlRegister = Fw2051StopAcquisitionValue"
    using c3(8) command_registers(7,8) w(7) [OF acq] c1(7) by simp
  have "global (glive s3) (row_register i) = row_target i" if "i < 8" for i
    using c3(8) [of "row_register i"] w(6) [OF that] prepared_plain(3) [OF table_register [OF that]]
    by (simp add: row_register_def preparation_commands_def)
  then have "prepared_module (glive s3)"
    using stopped by (simp add: prepared_module_def list_all_length row_register_def row_target_def)
  note c4 = prep_calm_final [OF c3(1) e3(1) this, folded s4_def]
  have calm4: "gl_failure s4 = []" using c4(1) by (simp add: gl_calm_def)
  then have eq: "prep_change T base gate s = prep_stopped T base gate s4"
    by (simp add: prep_change_def Let_def s1_def [symmetric] s2 s3_def [symmetric] s4_def [symmetric] prep_rollback_def)
  have "pp_moduleStopSent (gl_result s4)" using c3(7) c4(2) w(5) by simp
  note c5 = prep_calm_stopped [OF c4(1) this] 
  have "pp_strictFirmwareAccepted (gl_result s4)"
    using assms(5) e1(3) e2(3) e3(2) c4(2) by (simp add: prep_flags_def)
  then show ?thesis
    unfolding finish_fields eq using c5 stopped c4(2,3) c3 w(2-4) changes_indexed by (simp add: gl_calm_def)
qed

lemma preparation_passes:
  assumes "ValidateAudit base audit = []" "global (dev w) 0x6008 = Mdpp32HardwareId"
    and "global (dev w) 0x600E = Mdpp32ScpFirmwareRevisionFw2051"
  shows "pp_state (fst (PrepareFw2051ModuleForStartup T base audit (Some gate) w)) = PreparationPassed"
proof -
  let ?o = "gl_reverify T preparation_texts gate ''module startup preparation preflight'' (begin_preparation base w)"
  define s1 where "s1 = prep_identity T base (snd ?o)"
  define s2 where "s2 = prep_capture T base preparation_table s1"
  define s3 where "s3 = prep_examine T base (snd ?o)"
  have s3: "s3 = prep_acquisition T base s2" by (simp add: s3_def s2_def s1_def prep_examine_def)
  have begun: "gl_calm (begin_preparation base w)" by (simp add: gl_calm_def)
  then have o': "fst ?o" "gl_calm (snd ?o)" "glive (snd ?o) = dev w" "gl_result (snd ?o) = begin_preparation_result base" by simp_all
  have start: "pp_registers (begin_preparation_result base) = []" "\<not> pp_moduleLeftStopped (begin_preparation_result base)"
    "\<not> pp_rollbackVerified (begin_preparation_result base)" "pp_changedSettings (begin_preparation_result base) = 0"
    "pp_writesVerified (begin_preparation_result base) = 0"
    by (simp_all add: begin_preparation_result_def)
  have c1: "gl_calm s1" "pp_changedSettings (gl_result s1) = 0" "pp_writesVerified (gl_result s1) = 0" "glive s1 = dev w"
    using prep_calm_identity [OF o'(2)] prep_identity_exact(1) [of "snd ?o"] o'(3,4) assms(2,3) start by (simp_all add: s1_def)
  have c2: "gl_calm s2" "pp_changedSettings (gl_result s2) = changes_in (dev w) preparation_table" "pp_writesVerified (gl_result s2) = 0"
    using prep_calm_capture [OF c1(1) table_registers] c1(2-4) by (simp_all add: s2_def)
  have c3: "gl_calm s3" "pp_changedSettings (gl_result s3) = changes_in (dev w) preparation_table" "pp_writesVerified (gl_result s3) = 0"
    using prep_calm_acquisition [OF c2(1)] c2(2,3) by (simp_all add: s3)
  then have clean: "gl_failure s3 = []" by (simp add: gl_calm_def)
  have "gl_owned (snd ?o)" using o'(2) by (simp add: gl_calm_def gl_owned_def)
  then have e3: "\<not> pp_rollbackVerified (gl_result s3)" "pp_strictFirmwareAccepted (gl_result s3)" "prep_inv (dev w) {} s3"
    using prep_examine_exact [of "snd ?o"] clean start o'(3,4) by (simp_all add: s3_def)
  show ?thesis
    using prep_calm_change [OF c3(1) e3(3) c3(2,3) e3(2,1)] clean assms(1) o'(1)
    by (simp add: PrepareFw2051ModuleForStartup_def case_prod_beta Let_def s3_def)
qed

end

subsection \<open>Properties\<close>

text \<open>What the operation may change: never a banked setting, the selector, or a register outside the contract.\<close>

definition contract_frame :: "mdpp \<Rightarrow> mdpp \<Rightarrow> bool" where
  "contract_frame m m' \<longleftrightarrow> banked m' = banked m \<and> selector m' = selector m
     \<and> (\<forall>r. r \<notin> set preparation_commands \<and> r \<notin> set preparation_registers \<longrightarrow> global m' r = global m r)"

lemma contract_frame_iff: "prep_frame m {..<8} m' \<longleftrightarrow> contract_frame m m'"
proof -
  have "length preparation_registers = 8" by (simp add: preparation_registers_def)
  then have "(\<forall>i \<in> {..<8}. r \<noteq> preparation_registers ! i) \<longleftrightarrow> r \<notin> set preparation_registers" for r
    by (auto simp: in_set_conv_nth [of r preparation_registers])
  then show ?thesis by (simp add: prep_frame_def contract_frame_def)
qed

lemma frame_identity:
  assumes "contract_frame m m'"
  shows "global m' 0x6008 = global m 0x6008" "global m' 0x600E = global m 0x600E"
proof -
  have "list_all (\<lambda>r. r \<notin> set preparation_commands \<and> r \<notin> set preparation_registers) [0x6008, 0x600E]"
    by (simp add: preparation_commands_def preparation_registers_eq Fw2051AcquisitionControlRegister_def
        Fw2051FifoResetRegister_def Fw2051ReadoutResetRegister_def)
  then show "global m' 0x6008 = global m 0x6008" "global m' 0x600E = global m 0x600E"
    using assms by (simp_all add: contract_frame_def)
qed

text \<open>A prepared module of the supported kind is what the audit calls ready.\<close>

lemma prepared_ready:
  assumes "prepared_module m" "global m 0x6008 = Mdpp32HardwareId" "global m 0x600E = Mdpp32ScpFirmwareRevisionFw2051"
  shows "diagnostic_ready (mdpp_read m)"
proof -
  have "mdpp_read m r = global m r" if "r \<in> set preparation_registers" for r
    using prepared_plain(1,2) [OF that] by (simp add: read_plain)
  then have "mdpp_read m 0x6010 = 1" "mdpp_read m 0x601C = 0" "mdpp_read m 0x601E = 2" "mdpp_read m 0x6036 = 0x000B" "mdpp_read m 0x6044 = 0x0018"
    using assms(1) by (simp_all add: preparation_registers_eq prepared_module_def Fw2051StartupPreparationRegisterTable_def)
  moreover have "(0x0018 :: u16) \<in> {16, 24}" "(0x000B :: u16) AND 0xFFF0 = 0" "(0x000B :: u16) AND 0x03 \<noteq> 2" "(2 :: u16) \<le> 0x7FFF" by simp_all
  ultimately show ?thesis
    using assms(2,3) unfolding diagnostic_ready_def thresholds_ready_def read_identity
    by (simp add: Mdpp32HardwareId_def Mdpp32ScpFirmwareRevisionFw2051_def)
qed

lemma mismatches_length: "length ds = length vs \<Longrightarrow> mismatches_from ds vs = [] \<longleftrightarrow> vs = map pd_targetValue ds"
  by (induction ds vs rule: list_induct2) auto

text \<open>
  (C9) Over a link on which any access may fail, the preparation never changes a banked setting,
  the selector or a register outside its contract; on a module whose hardware ID or firmware is not
  the approved one, and after an audit that does not fit, it changes nothing at all. A passed preparation left the eight registers at their targets, so that a
  comparison finds no mismatch, acquisition stopped, and a module that the audit calls ready; a
  verified rollback left the eight registers as they were; and a module reported as stopped is
  stopped.
\<close>
theorem preparation_outcome:
  assumes "guarded_module T base dev gate"
    and "PrepareFw2051ModuleForStartup T base audit (Some gate) w = (res, w')"
  shows "contract_frame (dev w) (dev w')
    \<and> (\<not> (global (dev w) 0x6008 = Mdpp32HardwareId \<and> global (dev w) 0x600E = Mdpp32ScpFirmwareRevisionFw2051)
         \<longrightarrow> dev w' = dev w \<and> \<not> pp_strictFirmwareAccepted res \<and> pp_state res \<noteq> PreparationPassed)
    \<and> (ValidateAudit base audit \<noteq> [] \<or> \<not> pp_strictFirmwareAccepted res \<longrightarrow> dev w' = dev w)
    \<and> (pp_state res = PreparationPassed \<longrightarrow> diagnostic_ready (mdpp_read (dev w'))
         \<and> FindFw2051StartupPreparationMismatches (map (global (dev w')) preparation_registers) = []
         \<and> global (dev w') Fw2051AcquisitionControlRegister = Fw2051StopAcquisitionValue)
    \<and> (pp_rollbackVerified res \<longrightarrow> (\<forall>r \<in> set preparation_registers. global (dev w') r = global (dev w) r))
    \<and> (pp_moduleLeftStopped res \<longrightarrow> global (dev w') Fw2051AcquisitionControlRegister = Fw2051StopAcquisitionValue)"
proof -
  note exact = guarded_module.preparation_exact [OF assms]
  have frame: "contract_frame (dev w) (dev w')" using exact(1) by (simp add: contract_frame_iff)
  note identity = frame_identity [OF frame]
  have passed: "diagnostic_ready (mdpp_read (dev w'))
      \<and> FindFw2051StartupPreparationMismatches (map (global (dev w')) preparation_registers) = []
      \<and> global (dev w') Fw2051AcquisitionControlRegister = Fw2051StopAcquisitionValue" if "pp_state res = PreparationPassed"
  proof -
    note p = exact(4) [OF that]
    then have "diagnostic_ready (mdpp_read (dev w'))" using exact(3) identity by (intro prepared_ready) simp_all
    then show ?thesis
      using p by (simp add: FindFw2051StartupPreparationMismatches_def mismatches_length preparation_registers_def prepared_module_def list_all_iff)
  qed
  have "\<forall>r \<in> set preparation_registers. global (dev w') r = global (dev w) r" if "pp_rollbackVerified res"
    using exact(2) [OF that] prepared_plain(3) by (simp add: prep_frame_def)
  moreover have "dev w' = dev w" if "ValidateAudit base audit \<noteq> []"
    using that assms(2) by (simp add: PrepareFw2051ModuleForStartup_def Let_def)
  ultimately show ?thesis using frame exact(3,4,5) passed by (auto split: if_splits)
qed

definition sample_audit :: StartupAuditResult where
  "sample_audit = ClassifyFw2051StartupAudit 0x01000000 sample_readings"

lemma sample_audit_valid: "ValidateAudit sample_base sample_audit = []"
  by code_simp

lemma live_identity: "global (sim_module live_sim) 0x6008 = Mdpp32HardwareId" "global (sim_module live_sim) 0x600E = Mdpp32ScpFirmwareRevisionFw2051"
  by (simp_all add: live_sim_def live_mdpp_def)

lemma sample_prepared:
  "pp_state (fst (PrepareFw2051ModuleForStartup (simulated sample_base) sample_base sample_audit (Some allow_all) live_sim)) = PreparationPassed"
  by (intro link_sim.preparation_passes sample_audit_valid live_identity)

theorem preparation_outcome_witness:
  "\<exists>res w'. PrepareFw2051ModuleForStartup (simulated sample_base) sample_base sample_audit (Some allow_all) live_sim = (res, w')
    \<and> contract_frame live_mdpp (sim_module w') \<and> diagnostic_ready (mdpp_read (sim_module w'))"
proof -
  obtain res w' where run: "PrepareFw2051ModuleForStartup (simulated sample_base) sample_base sample_audit (Some allow_all) live_sim = (res, w')"
    by (rule prod.exhaust)
  show ?thesis
    using preparation_outcome [OF link_sim.guarded_module_axioms run] sample_prepared run by (simp add: live_sim_def)
qed

text \<open>
  A preparation comes back and passes: on an answering module of the approved kind, with an
  audit of it and a caller that allows every step, it ends \<open>PreparationPassed\<close>.
\<close>
theorem audited_preparation_passes:
  assumes "responsive_link T base dev gate" "ValidateAudit base audit = []"
    and "global (dev w) 0x6008 = Mdpp32HardwareId" "global (dev w) 0x600E = Mdpp32ScpFirmwareRevisionFw2051"
  shows "pp_state (fst (PrepareFw2051ModuleForStartup T base audit (Some gate) w)) = PreparationPassed"
  using assms by (rule responsive_link.preparation_passes)

theorem audited_preparation_passes_witness:
  "pp_state (fst (PrepareFw2051ModuleForStartup (simulated sample_base) sample_base sample_audit (Some allow_all) live_sim)) = PreparationPassed"
  by (rule audited_preparation_passes [OF link_sim.responsive_link_axioms sample_audit_valid live_identity])

end
