(* ===== verification/Deterministic_Startup.thy ===== *)
theory Deterministic_Startup
  imports Startup_Preparation
begin

text \<open>
  The deterministic start, \<^verbatim>\<open>core/DeterministicStartup.h\<close> and
  \<^verbatim>\<open>hardware/DeterministicStartupOperation.cpp\<close>: prepare the readout contract, capture the
  module again, plan the saved profile against the fresh capture, apply the plan, capture a last
  time and compare. The phases of the function are definitions that either return the result or
  pass it on.
\<close>

subsection \<open>Request and result\<close>

datatype DeterministicStartupState =
    StartupNotRun | PreparingReadout | CapturingPreparedConfiguration | ApplyingBankedProfile
  | VerifyingFinalConfiguration | StartupPassed | StartupFailed

text \<open>The texts of the result, with the texts of the phase they quote.\<close>

datatype deterministic_message =
    NoSequenceRequested
  | ConfirmationRequired
  | ProfileRequired
  | SnapshotRequired
  | AuditRequired
  | AuditNotOfTarget
  | ReviewedPlanRefused startup_message
  | SequenceWithoutGate
  | RunningPreparation
  | PreparationPhaseFailed string
  | RecapturingBanks
  | PreparedCaptureFailed string
  | PreparedPlanFailed plan_message
  | ApplyingDifferences
  | BankedPhaseFailed apply_message
  | RecapturingForProof
  | FinalCaptureFailed string
  | FinalProofFailed comparison_message
  | ReadyAndStopped

record DeterministicStartupRequest =
  dq_profileLoadedForTarget :: bool
  dq_configurationFresh :: bool
  dq_startupAuditCompleteForTarget :: bool
  dq_confirmed :: bool
  dq_profile :: ScpProfile
  dq_reviewedConfiguration :: Fw2051ScpConfigurationSnapshot
  dq_startupAudit :: StartupAuditResult

record DeterministicStartupResult =
  ds_state :: DeterministicStartupState
  ds_message :: deterministic_message
  ds_baseAddress :: u32
  ds_valuesCompared :: nat
  ds_initialDifferences :: nat
  ds_startupContractDifferences :: nat
  ds_bankedDifferences :: nat
  ds_bankedWritesPlanned :: nat
  ds_startupPreparationPassed :: bool
  ds_postPreparationCapturePassed :: bool
  ds_bankedApplicationNeeded :: bool
  ds_bankedApplicationPassed :: bool
  ds_finalProfileVerified :: bool
  ds_moduleLeftStopped :: bool
  ds_reviewedPlan :: ScpStandaloneStartupPlan
  ds_preparation :: StartupPreparationResult
  ds_postPreparationConfiguration :: Fw2051ScpConfigurationSnapshot
  ds_postPreparationPlan :: ScpProfileApplicationPlan
  ds_bankedApplication :: ScpBulkApplyResult
  ds_finalConfiguration :: Fw2051ScpConfigurationSnapshot
  ds_finalComparison :: ScpConfigurationComparison

text \<open>The parts of a phase that has not run.\<close>

definition default_preparation :: StartupPreparationResult where
  "default_preparation = (begin_preparation_result 0)\<lparr>pp_state := PreparationNotRun,
     pp_message := ''No module-wide startup preparation has been requested''\<rparr>"

definition default_application_request :: ScpProfileApplicationRequest where
  "default_application_request = \<lparr>expectedLiveConfiguration = default_snapshot, req_valuesCompared = 0,
     configurationDifferences = 0, steps = []\<rparr>"

definition default_application_plan :: ScpProfileApplicationPlan where
  "default_application_plan = \<lparr>plan_success = False, plan_message = NoPlanMessage, request = default_application_request\<rparr>"

definition default_bulk_apply :: ScpBulkApplyResult where
  "default_bulk_apply = (begin_result default_application_request)\<lparr>b_state := ApplyNotRun, b_message := NoApplicationRequested\<rparr>"

definition begin_startup_result :: "DeterministicStartupRequest \<Rightarrow> DeterministicStartupResult" where
  "begin_startup_result req =
    (let plan = PlanFw2051ScpStandaloneStartup (dq_profile req) (dq_reviewedConfiguration req) in
     \<lparr>ds_state = StartupNotRun, ds_message = NoSequenceRequested, ds_baseAddress = baseAddress (dq_reviewedConfiguration req),
       ds_valuesCompared = sp_valuesCompared plan, ds_initialDifferences = sp_configurationDifferences plan,
       ds_startupContractDifferences = startupContractDifferences plan, ds_bankedDifferences = bankedDifferences plan,
       ds_bankedWritesPlanned = 0, ds_startupPreparationPassed = False, ds_postPreparationCapturePassed = False,
       ds_bankedApplicationNeeded = False, ds_bankedApplicationPassed = False, ds_finalProfileVerified = False,
       ds_moduleLeftStopped = False, ds_reviewedPlan = plan, ds_preparation = default_preparation,
       ds_postPreparationConfiguration = default_snapshot, ds_postPreparationPlan = default_application_plan,
       ds_bankedApplication = default_bulk_apply, ds_finalConfiguration = default_snapshot,
       ds_finalComparison = default_comparison\<rparr>)"

definition validate_startup_request :: "DeterministicStartupRequest \<Rightarrow> ScpStandaloneStartupPlan \<Rightarrow> deterministic_message option" where
  "validate_startup_request req plan =
    (if \<not> dq_confirmed req then Some ConfirmationRequired
     else if \<not> dq_profileLoadedForTarget req then Some ProfileRequired
     else if \<not> dq_configurationFresh req \<or> state (dq_reviewedConfiguration req) \<noteq> Complete then Some SnapshotRequired
     else if \<not> dq_startupAuditCompleteForTarget req \<or> au_state (dq_startupAudit req) \<noteq> AuditComplete then Some AuditRequired
     else if au_baseAddress (dq_startupAudit req) \<noteq> baseAddress (dq_reviewedConfiguration req)
       \<or> au_hardwareId (dq_startupAudit req) \<noteq> Mdpp32HardwareId
       \<or> au_firmwareRevision (dq_startupAudit req) \<noteq> Mdpp32ScpFirmwareRevisionFw2051 then Some AuditNotOfTarget
     else if \<not> sp_success plan then Some (ReviewedPlanRefused (sp_message plan))
     else None)"

definition FailStartup :: "DeterministicStartupResult \<Rightarrow> deterministic_message \<Rightarrow> DeterministicStartupResult" where
  "FailStartup r m = r\<lparr>ds_state := StartupFailed, ds_message := m\<rparr>"

subsection \<open>The phases\<close>

text \<open>A phase returns the result (\<open>Inl\<close>) or passes it to the next one (\<open>Inr\<close>).\<close>

type_synonym 'w phase = "(DeterministicStartupResult + DeterministicStartupResult) \<times> 'w"

definition and_then :: "'w phase \<Rightarrow> (DeterministicStartupResult \<Rightarrow> 'w \<Rightarrow> 'w phase) \<Rightarrow> 'w phase" where
  "and_then x f = (case x of (Inl r, w) \<Rightarrow> (Inl r, w) | (Inr r, w) \<Rightarrow> f r w)"

definition startup_prepare :: "'w transport \<Rightarrow> DeterministicStartupRequest \<Rightarrow> 'w gate \<Rightarrow> DeterministicStartupResult \<Rightarrow> 'w \<Rightarrow> 'w phase" where
  "startup_prepare transport req gate r w =
    (let r = r\<lparr>ds_state := PreparingReadout, ds_message := RunningPreparation\<rparr> in
     case PrepareFw2051ModuleForStartup transport (ds_baseAddress r) (dq_startupAudit req) (Some gate) w of (prep, w) \<Rightarrow>
       let r = r\<lparr>ds_preparation := prep\<rparr> in
       if pp_state prep \<noteq> PreparationPassed then (Inl (FailStartup r (PreparationPhaseFailed (pp_message prep))), w)
       else (Inr (r\<lparr>ds_startupPreparationPassed := True, ds_moduleLeftStopped := pp_moduleLeftStopped prep\<rparr>), w))"

definition startup_recapture :: "'w transport \<Rightarrow> DeterministicStartupRequest \<Rightarrow> 'w gate \<Rightarrow> DeterministicStartupResult \<Rightarrow> 'w \<Rightarrow> 'w phase" where
  "startup_recapture transport req gate r w =
    (let r = r\<lparr>ds_state := CapturingPreparedConfiguration, ds_message := RecapturingBanks\<rparr> in
     case CaptureFw2051ScpConfiguration transport (ds_baseAddress r) (Some gate) default_runtime w of (captured, w) \<Rightarrow>
       let c = op_configuration captured; r = r\<lparr>ds_postPreparationConfiguration := c\<rparr> in
       if state c \<noteq> Complete then (Inl (FailStartup r (PreparedCaptureFailed (message c))), w)
       else (let r = r\<lparr>ds_postPreparationCapturePassed := True\<rparr>;
                 plan = PlanFw2051ScpProfileApplication (dq_profile req) c;
                 r = r\<lparr>ds_postPreparationPlan := plan\<rparr> in
             if \<not> plan_success plan then (Inl (FailStartup r (PreparedPlanFailed (plan_message plan))), w)
             else (Inr (r\<lparr>ds_bankedWritesPlanned := length (steps (request plan)),
                          ds_bankedApplicationNeeded := (length (steps (request plan)) \<noteq> 0)\<rparr>), w)))"

definition startup_apply :: "'w transport \<Rightarrow> 'w gate \<Rightarrow> DeterministicStartupResult \<Rightarrow> 'w \<Rightarrow> 'w phase" where
  "startup_apply transport gate r w =
    (if \<not> ds_bankedApplicationNeeded r then (Inr (r\<lparr>ds_bankedApplicationPassed := True\<rparr>), w)
     else (let r = r\<lparr>ds_state := ApplyingBankedProfile, ds_message := ApplyingDifferences\<rparr> in
       case ApplyFw2051ScpProfile transport (request (ds_postPreparationPlan r)) (Some gate) w of (applied, w) \<Rightarrow>
         let r = r\<lparr>ds_bankedApplication := applied\<rparr> in
         if b_state applied \<noteq> Passed
         then (Inl (FailStartup (r\<lparr>ds_moduleLeftStopped := b_moduleLeftStopped applied\<rparr>) (BankedPhaseFailed (b_message applied))), w)
         else (Inr (r\<lparr>ds_bankedApplicationPassed := True, ds_moduleLeftStopped := b_moduleLeftStopped applied\<rparr>), w)))"

definition startup_verify :: "'w transport \<Rightarrow> DeterministicStartupRequest \<Rightarrow> 'w gate \<Rightarrow> DeterministicStartupResult \<Rightarrow> 'w \<Rightarrow> 'w phase" where
  "startup_verify transport req gate r w =
    (let r = r\<lparr>ds_state := VerifyingFinalConfiguration, ds_message := RecapturingForProof\<rparr> in
     case CaptureFw2051ScpConfiguration transport (ds_baseAddress r) (Some gate) default_runtime w of (captured, w) \<Rightarrow>
       let c = op_configuration captured; r = r\<lparr>ds_finalConfiguration := c\<rparr> in
       if state c \<noteq> Complete then (Inl (FailStartup r (FinalCaptureFailed (message c))), w)
       else (let comparison = CompareFw2051ScpConfiguration (dq_profile req) c; r = r\<lparr>ds_finalComparison := comparison\<rparr> in
             if \<not> comparable comparison \<or> valuesCompared comparison \<noteq> Fw2051ScpConfigurationValueCount \<or> differences comparison \<noteq> []
             then (Inl (FailStartup r (FinalProofFailed (cmp_message comparison))), w)
             else (Inl (r\<lparr>ds_finalProfileVerified := True, ds_state := StartupPassed, ds_message := ReadyAndStopped\<rparr>), w)))"

definition RunFw2051DeterministicStartup :: "'w transport \<Rightarrow> DeterministicStartupRequest \<Rightarrow> 'w gate option \<Rightarrow> 'w
    \<Rightarrow> DeterministicStartupResult \<times> 'w" where
  "RunFw2051DeterministicStartup transport req ownershipGate w =
    (let r = begin_startup_result req in
     case validate_startup_request req (ds_reviewedPlan r) of
       Some m \<Rightarrow> (FailStartup r m, w)
     | None \<Rightarrow>
     (case ownershipGate of
       None \<Rightarrow> (FailStartup r SequenceWithoutGate, w)
     | Some gate \<Rightarrow>
       (case and_then (and_then (and_then (startup_prepare transport req gate r w)
            (startup_recapture transport req gate)) (startup_apply transport gate)) (startup_verify transport req gate) of
          (Inl r, w) \<Rightarrow> (r, w)
        | (Inr r, w) \<Rightarrow> (r, w))))"

subsection \<open>What an application keeps\<close>

lemma replayable_registers: "replayable qs ss \<Longrightarrow> list_all (\<lambda>s. s_registerOffset s \<in> set fw2051_registers) ss"
proof (induction ss arbitrary: qs)
  case (Cons step ss)
  then show ?case by (auto simp: step_applies_def intro: register_mapped_Some)
qed simp

lemma valid_request_steps:
  assumes "ValidateRequest req = None"
  shows "list_all (\<lambda>s. 0 \<le> s_quad s \<and> s_quad s < 8 \<and> s_registerOffset s \<in> set fw2051_registers) (steps req)"
proof -
  have "replayable (quads (expectedLiveConfiguration req)) (steps req)" "length (quads (expectedLiveConfiguration req)) = 8"
    using assms by (auto simp: ValidateRequest_def validate_steps_iff validate_ok_iff split: option.splits if_splits sum.splits)
  then show ?thesis using replayable_in_range replayable_registers by (fastforce simp: list_all_iff)
qed

context capture_world
begin

lemma apply_keeps:
  assumes "ApplyFw2051ScpProfile T req (Some gate) w = (res, w')" "runtime = default_runtime"
    and "base = baseAddress (expectedLiveConfiguration req)" "commands_allowed"
    and "ValidateRequest req = None \<Longrightarrow> list_all entitled (steps req)" "I w"
  shows "I w'"
proof (cases "ValidateRequest req")
  case (Some e)
  then show ?thesis using assms(1,6) by (simp add: ApplyFw2051ScpProfile_def Let_def)
next
  case None
  obtain captured v where cap: "CaptureFw2051ScpConfiguration T base (Some gate) default_runtime w = (captured, v)"
    by (rule prod.exhaust)
  have v: "I v" using capture_keeps [of w captured v] cap assms(2,6) by simp
  have "I w'" if "apply_transaction T gate (steps req) r v = (res, w')" "b_baseAddress r = base" "b_values r = map pending_value (steps req)" for r
    using transaction_linked [OF assms(4,5) _ that(2) v] None that by (simp add: planned_value_def pending_value_def)
  then show ?thesis
    using assms(1,3) None cap v by (auto simp: ApplyFw2051ScpProfile_def Let_def begin_result_def split: if_splits)
qed

end

text \<open>The prepared contract on the approved hardware: no later phase writes these registers.\<close>

definition ready_module :: "mdpp \<Rightarrow> bool" where
  "ready_module m \<longleftrightarrow> prepared_module m \<and> global m 0x6008 = Mdpp32HardwareId \<and> global m 0x600E = Mdpp32ScpFirmwareRevisionFw2051"

definition spares_contract :: "u16 \<Rightarrow> u16 \<Rightarrow> bool" where
  "spares_contract r v \<longleftrightarrow> r \<notin> set preparation_registers \<and> r \<noteq> 0x6008 \<and> r \<noteq> 0x600E
     \<and> (r = Fw2051AcquisitionControlRegister \<longrightarrow> v = Fw2051StopAcquisitionValue)"

lemma spared_write:
  assumes "spares_contract r v" "ready_module m"
  shows "ready_module (mdpp_write m r v)"
proof -
  have "global (mdpp_write m r v) x = (if x = r \<and> r \<noteq> Fw2051ScpSelectorRegister \<and> r \<notin> set fw2051_registers then v else global m x)" for x
    by (simp add: mdpp_write_def)
  then show ?thesis
    using assms by (auto simp: ready_module_def prepared_module_def spares_contract_def list_all_iff preparation_registers_def)
qed

lemma spared_registers:
  "spares_contract Fw2051ScpSelectorRegister v" "r \<in> set fw2051_registers \<Longrightarrow> spares_contract r v"
  "spares_contract Fw2051AcquisitionControlRegister Fw2051StopAcquisitionValue"
  "spares_contract Fw2051FifoResetRegister Fw2051ResetCommandValue" "spares_contract Fw2051ReadoutResetRegister Fw2051ResetCommandValue"
proof -
  have "list_all (\<lambda>r. r \<notin> set preparation_registers \<and> r \<noteq> 0x6008 \<and> r \<noteq> 0x600E \<and> r \<noteq> Fw2051AcquisitionControlRegister)
      (Fw2051ScpSelectorRegister # Fw2051FifoResetRegister # Fw2051ReadoutResetRegister # fw2051_registers)"
    by (simp add: preparation_registers_eq fw2051_registers_eq Fw2051AcquisitionControlRegister_def
        Fw2051FifoResetRegister_def Fw2051ReadoutResetRegister_def Fw2051ScpSelectorRegister_def)
  then show "spares_contract Fw2051ScpSelectorRegister v" "r \<in> set fw2051_registers \<Longrightarrow> spares_contract r v"
    "spares_contract Fw2051FifoResetRegister Fw2051ResetCommandValue" "spares_contract Fw2051ReadoutResetRegister Fw2051ResetCommandValue"
    by (auto simp: spares_contract_def list_all_iff)
  show "spares_contract Fw2051AcquisitionControlRegister Fw2051StopAcquisitionValue"
    by (simp add: spares_contract_def preparation_registers_eq Fw2051AcquisitionControlRegister_def)
qed

sublocale supervised_capture \<subseteq> keeping: capture_world T base gate runtime spares_contract "\<lambda>w. ready_module (dev w)"
proof unfold_locales
  fix b r v
  show "ready_module (dev (snd b)) \<Longrightarrow> ready_module (dev (snd (snd (readRegister T base r b))))"
    using read_keeps [of r b] by (cases "readRegister T base r b") auto
  show "spares_contract r v \<Longrightarrow> ready_module (dev (snd b)) \<Longrightarrow> ready_module (dev (snd (snd (writeRegister T base r v b))))"
    using write_happened [of r v b] write_maybe [of r v b] spared_write [of r v "dev (snd b)"]
    by (cases "writeRegister T base r v b"; cases "fst (writeRegister T base r v b)") auto
qed (auto simp: gate_keeps delay_keeps checkpoint_keeps cancelled_keeps spared_registers)

text \<open>The callers of a capture are callers of a preparation.\<close>

sublocale supervised_capture \<subseteq> guarded: guarded_module T base dev gate
  by unfold_locales (rule gate_keeps)

sublocale responsive_capture \<subseteq> linked: responsive_link T base dev gate
  by unfold_locales (rule gate_allows)

context supervised_capture
begin

lemma apply_keeps_ready:
  assumes "ApplyFw2051ScpProfile T req (Some gate) w = (res, w')" "runtime = default_runtime"
    and "base = baseAddress (expectedLiveConfiguration req)" "ready_module (dev w)"
  shows "ready_module (dev w')"
proof -
  have "keeping.commands_allowed" by (simp add: keeping.commands_allowed_def spared_registers)
  moreover have "ValidateRequest req = None \<Longrightarrow> list_all keeping.entitled (steps req)"
    using valid_request_steps [of req] by (auto simp: list_all_iff keeping.entitled_def spared_registers)
  ultimately show ?thesis using assms(4) by (rule keeping.apply_keeps [OF assms(1,2,3)])
qed

end

subsection \<open>The outcome\<close>

text \<open>What a phase returns, and what it passes on.\<close>

definition phase_ends :: "(DeterministicStartupResult \<Rightarrow> 'w \<Rightarrow> bool) \<Rightarrow> (DeterministicStartupResult \<Rightarrow> 'w \<Rightarrow> bool) \<Rightarrow> 'w phase \<Rightarrow> bool" where
  "phase_ends returned passed x \<longleftrightarrow> (case x of (Inl r, w) \<Rightarrow> returned r w | (Inr r, w) \<Rightarrow> passed r w)"

lemma phase_ends_simps [simp]:
  "phase_ends returned passed (Inl r, w) = returned r w" "phase_ends returned passed (Inr r, w) = passed r w"
  by (simp_all add: phase_ends_def)

lemma and_then_ends:
  assumes "phase_ends returned passed x" "\<And>r w. passed r w \<Longrightarrow> phase_ends returned passed' (f r w)"
  shows "phase_ends returned passed' (and_then x f)"
proof -
  obtain y w where "x = (y, w)" by (rule prod.exhaust)
  then show ?thesis using assms by (cases y) (simp_all add: and_then_def)
qed

lemma plan_expected: "expectedLiveConfiguration (request (PlanFw2051ScpProfileApplication profile c)) = c"
  by (simp add: PlanFw2051ScpProfileApplication_def Let_def split: option.split sum.split)

lemma FailStartup_fields [simp]:
  "ds_state (FailStartup r m) = StartupFailed" "ds_baseAddress (FailStartup r m) = ds_baseAddress r"
  "ds_startupPreparationPassed (FailStartup r m) = ds_startupPreparationPassed r"
  "ds_bankedApplicationNeeded (FailStartup r m) = ds_bankedApplicationNeeded r"
  "ds_bankedApplication (FailStartup r m) = ds_bankedApplication r"
  by (simp_all add: FailStartup_def)

context supervised_capture
begin

text \<open>At every point: a passed preparation holds, and banks change only in an application that was not rolled back.\<close>

definition startup_ok :: "mdpp \<Rightarrow> DeterministicStartupResult \<Rightarrow> 'w \<Rightarrow> bool" where
  "startup_ok m0 r w \<longleftrightarrow> ds_baseAddress r = base \<and> (ds_startupPreparationPassed r \<longrightarrow> ready_module (dev w))
     \<and> (\<not> ds_bankedApplicationNeeded r \<or> b_rollbackVerified (ds_bankedApplication r) \<longrightarrow> banked (dev w) = banked m0)"

definition startup_returned :: "DeterministicStartupRequest \<Rightarrow> mdpp \<Rightarrow> DeterministicStartupResult \<Rightarrow> 'w \<Rightarrow> bool" where
  "startup_returned req m0 r w \<longleftrightarrow> startup_ok m0 r w
     \<and> (ds_state r = StartupPassed \<longrightarrow> ds_startupPreparationPassed r \<and> selector (dev w) = 0
          \<and> bank_quads (banked (dev w)) = quads (configuration (dq_profile req)))"

definition startup_prepared :: "mdpp \<Rightarrow> DeterministicStartupResult \<Rightarrow> 'w \<Rightarrow> bool" where
  "startup_prepared m0 r w \<longleftrightarrow> startup_ok m0 r w \<and> ds_startupPreparationPassed r \<and> \<not> ds_bankedApplicationNeeded r
     \<and> \<not> b_rollbackVerified (ds_bankedApplication r)"

definition startup_planned :: "mdpp \<Rightarrow> DeterministicStartupResult \<Rightarrow> 'w \<Rightarrow> bool" where
  "startup_planned m0 r w \<longleftrightarrow> ds_baseAddress r = base \<and> ds_startupPreparationPassed r \<and> ready_module (dev w)
     \<and> banked (dev w) = banked m0 \<and> \<not> b_rollbackVerified (ds_bankedApplication r)
     \<and> (\<exists>c. expectedLiveConfiguration (request (ds_postPreparationPlan r)) = c \<and> shows_module c (dev w) \<and> baseAddress c = base)"

definition startup_applied :: "mdpp \<Rightarrow> DeterministicStartupResult \<Rightarrow> 'w \<Rightarrow> bool" where
  "startup_applied m0 r w \<longleftrightarrow> startup_ok m0 r w \<and> ds_startupPreparationPassed r"

lemma prepare_ends:
  assumes "startup_ok (dev w) r w" "\<not> ds_startupPreparationPassed r" "\<not> ds_bankedApplicationNeeded r"
    "\<not> b_rollbackVerified (ds_bankedApplication r)"
  shows "phase_ends (startup_returned req (dev w)) (startup_prepared (dev w)) (startup_prepare T req gate r w)"
proof -
  obtain prep w1 where run: "PrepareFw2051ModuleForStartup T base (dq_startupAudit req) (Some gate) w = (prep, w1)" by (rule prod.exhaust)
  note exact = guarded.preparation_exact [OF run]
  have frame: "banked (dev w1) = banked (dev w)" using exact(1) by (simp add: prep_frame_def)
  have "ready_module (dev w1)" if "pp_state prep = PreparationPassed"
    using exact(3) exact(4) [OF that] frame_identity [OF exact(1) [unfolded contract_frame_iff]] by (simp add: ready_module_def)
  then show ?thesis
    using assms run frame
    by (simp add: startup_prepare_def Let_def startup_ok_def startup_returned_def startup_prepared_def)
qed

lemma capture_ready:
  assumes "CaptureFw2051ScpConfiguration T base (Some gate) runtime w = (op, w')" "ready_module (dev w)"
  shows "ready_module (dev w')"
  using keeping.capture_keeps [OF assms] .

lemma recapture_ends:
  assumes "startup_prepared m0 r w" "runtime = default_runtime"
  shows "phase_ends (startup_returned req m0) (startup_planned m0) (startup_recapture T req gate r w)"
proof -
  obtain captured w1 where cap: "CaptureFw2051ScpConfiguration T base (Some gate) default_runtime w = (captured, w1)" by (rule prod.exhaust)
  let ?c = "op_configuration captured"
  have base: "ds_baseAddress r = base" using assms(1) by (simp add: startup_prepared_def startup_ok_def)
  have kept: "ready_module (dev w1)" "banked (dev w1) = banked m0"
    using capture_ready [OF cap [folded assms(2)]] capture_changes_nothing [OF cap [folded assms(2)]] assms(1)
    by (simp_all add: startup_prepared_def startup_ok_def)
  have shown: "shows_module ?c (dev w1)" "baseAddress ?c = base" if "state ?c = Complete"
    using capture_exact [OF cap [folded assms(2)] that] capture_changes_nothing [OF cap [folded assms(2)]]
    by (simp_all add: shows_module_def)
  show ?thesis
    using assms(1) cap base kept shown
    by (simp add: startup_recapture_def Let_def startup_returned_def startup_prepared_def startup_planned_def startup_ok_def plan_expected)
qed

lemma apply_ends:
  assumes "startup_planned m0 r w" "runtime = default_runtime"
  shows "phase_ends (startup_returned req m0) (startup_applied m0) (startup_apply T gate r w)"
proof (cases "ds_bankedApplicationNeeded r")
  case False
  then show ?thesis using assms(1) by (simp add: startup_apply_def startup_applied_def startup_planned_def startup_ok_def)
next
  case True
  let ?req = "request (ds_postPreparationPlan r)"
  obtain applied w1 where run: "ApplyFw2051ScpProfile T ?req (Some gate) w = (applied, w1)" by (rule prod.exhaust)
  have c: "shows_module (expectedLiveConfiguration ?req) (dev w)" "base = baseAddress (expectedLiveConfiguration ?req)"
    using assms(1) by (auto simp: startup_planned_def)
  have kept: "ready_module (dev w1)" using apply_keeps_ready [OF run assms(2) c(2)] assms(1) by (simp add: startup_planned_def)
  have "banked (dev w1) = banked m0" if "b_rollbackVerified applied"
    using apply_exact [OF run c(2) shown_wf [OF c(1)] assms(2)] that assms(1) by (auto simp: startup_planned_def split: if_splits)
  then show ?thesis
    using assms(1) run kept True
    by (auto simp: startup_apply_def Let_def startup_returned_def startup_planned_def startup_applied_def startup_ok_def)
qed

lemma verify_ends:
  assumes "startup_applied m0 r w" "runtime = default_runtime" "snapshot_wf (configuration (dq_profile req))"
  shows "phase_ends (startup_returned req m0) (\<lambda>_ _. False) (startup_verify T req gate r w)"
proof -
  obtain captured w1 where cap: "CaptureFw2051ScpConfiguration T base (Some gate) default_runtime w = (captured, w1)" by (rule prod.exhaust)
  let ?c = "op_configuration captured"
  have base: "ds_baseAddress r = base" using assms(1) by (simp add: startup_applied_def startup_ok_def)
  have kept: "ready_module (dev w1)" "banked (dev w1) = banked (dev w)"
    using capture_ready [OF cap [folded assms(2)]] capture_changes_nothing [OF cap [folded assms(2)]] assms(1)
    by (simp_all add: startup_applied_def startup_ok_def)
  have final: "selector (dev w1) = 0 \<and> bank_quads (banked (dev w1)) = quads (configuration (dq_profile req))"
    if "state ?c = Complete" "comparable (CompareFw2051ScpConfiguration (dq_profile req) ?c)"
      "differences (CompareFw2051ScpConfiguration (dq_profile req) ?c) = []"
  proof -
    note exact = capture_exact [OF cap [folded assms(2)] that(1)]
    then have "quads ?c = quads (configuration (dq_profile req))"
      using preflight_match [OF that(2,3) assms(3)] shown_wf by blast
    then show ?thesis using exact kept(2) by (simp add: shows_module_def bank_quads_def)
  qed
  show ?thesis
    using assms(1) cap base kept final
    by (auto simp: startup_verify_def Let_def startup_returned_def startup_applied_def startup_ok_def)
qed

lemma startup_exact:
  assumes "RunFw2051DeterministicStartup T req (Some gate) w = (res, w')" "runtime = default_runtime"
    and "base = baseAddress (dq_reviewedConfiguration req)" "snapshot_wf (configuration (dq_profile req))"
  shows "startup_returned req (dev w) res w'"
    "validate_startup_request req (ds_reviewedPlan (begin_startup_result req)) \<noteq> None \<Longrightarrow> w' = w \<and> ds_state res = StartupFailed"
proof -
  let ?r = "begin_startup_result req"
  have start: "startup_ok (dev w) ?r w" "\<not> ds_startupPreparationPassed ?r" "\<not> ds_bankedApplicationNeeded ?r"
    "\<not> b_rollbackVerified (ds_bankedApplication ?r)"
    using assms(3) [symmetric] by (simp_all add: startup_ok_def begin_startup_result_def Let_def default_bulk_apply_def begin_result_def)
  define x where "x = and_then (and_then (and_then (startup_prepare T req gate ?r w) (startup_recapture T req gate))
    (startup_apply T gate)) (startup_verify T req gate)"
  have "phase_ends (startup_returned req (dev w)) (\<lambda>_ _. False) x"
    unfolding x_def
    by (rule and_then_ends [OF and_then_ends [OF and_then_ends [OF prepare_ends [OF start] recapture_ends] apply_ends] verify_ends])
      (auto intro: assms(2,4))
  moreover obtain y w1 where y: "x = (y, w1)" by (rule prod.exhaust)
  ultimately obtain r1 where x: "x = (Inl r1, w1)" "startup_returned req (dev w) r1 w1" by (cases y) auto
  show "startup_returned req (dev w) res w'"
  proof (cases "validate_startup_request req (ds_reviewedPlan ?r)")
    case None
    then show ?thesis using assms(1) x by (simp add: RunFw2051DeterministicStartup_def Let_def x_def [symmetric])
  next
    case (Some m)
    then have "res = FailStartup ?r m" "w' = w" using assms(1) by (simp_all add: RunFw2051DeterministicStartup_def Let_def)
    then show ?thesis using start by (simp add: startup_returned_def startup_ok_def)
  qed
  show "validate_startup_request req (ds_reviewedPlan ?r) \<noteq> None \<Longrightarrow> w' = w \<and> ds_state res = StartupFailed"
    using assms(1) by (auto simp: RunFw2051DeterministicStartup_def Let_def)
qed

end

subsection \<open>It passes\<close>

lemma ready_fields:
  assumes "ready_module m"
  shows "global m 0x6010 = 1" "global m 0x6044 = 0x0018" "IsWriteApprovedMdpp32HardwareId (global m 0x6008)"
    "global m 0x6008 = Mdpp32HardwareId" "global m 0x600E = Mdpp32ScpFirmwareRevisionFw2051"
  using assms by (simp_all add: ready_module_def prepared_module_def Fw2051StartupPreparationRegisterTable_def
      IsWriteApprovedMdpp32HardwareId_def Mdpp32WriteApprovedHardwareIds_def)

text \<open>A profile that a ready module at its base can be brought to.\<close>

definition startup_profile :: "u32 \<Rightarrow> ScpProfile \<Rightarrow> bool" where
  "startup_profile base profile \<longleftrightarrow> formatVersion profile = Fw2051ScpProfileFormatVersion
     \<and> ValidateFw2051ScpConfiguration (configuration profile) = None \<and> baseAddress (configuration profile) = base
     \<and> hardwareId (configuration profile) = Mdpp32HardwareId \<and> irqLevel (configuration profile) = 1
     \<and> outputFormat (configuration profile) = 0x0018 \<and> list_all target_ok (quads (configuration profile))"

lemma startable_profile: "startable profile live \<Longrightarrow> startup_profile (baseAddress live) profile"
  by (simp add: startable_def startup_profile_def same_identity_def compare_comparable_iff)

lemma ready_snapshot:
  assumes "shows_module c m" "ready_module m" "startup_profile base profile" "baseAddress c = base"
    and "state c = Complete" "selectorParkedAtQuadZero c"
  shows "comparable (CompareFw2051ScpConfiguration profile c)" "global_differences (configuration profile) c = []" "plannable profile c"
proof -
  note f = ready_fields [OF assms(2)]
  have valid: "ValidateFw2051ScpConfiguration (configuration profile) = None" using assms(3) by (simp add: startup_profile_def)
  then have "baseAddress c \<noteq> 0" "firmwareRevision (configuration profile) = Mdpp32ScpFirmwareRevisionFw2051"
    using assms(3,4) by (simp_all add: validate_ok_iff startup_profile_def)
  then have "ValidateFw2051ScpConfiguration c = None"
    using shown_valid [OF assms(1,5,6)] f by (simp add: write_approved_supported)
  then show cmp: "comparable (CompareFw2051ScpConfiguration profile c)"
    using assms(3) valid by (simp add: compare_comparable_iff startup_profile_def)
  show glob: "global_differences (configuration profile) c = []"
    using assms(1,3,4) f \<open>firmwareRevision (configuration profile) = _\<close>
    by (simp add: global_differences_Nil startup_profile_def shows_module_def)
  show "plannable profile c" using cmp glob assms(3) by (simp add: plannable_def startup_profile_def)
qed

context responsive_capture
begin

lemma ready_capture:
  assumes "CaptureFw2051ScpConfiguration T base (Some gate) default_runtime w = (op, w')" "runtime = default_runtime"
    and "ready_module (dev w)" "base AND 0xFFFF = 0"
  shows "state (op_configuration op) = Complete" "shows_module (op_configuration op) (dev w)" "baseAddress (op_configuration op) = base"
    "selectorParkedAtQuadZero (op_configuration op)" "banked (dev w') = banked (dev w)" "global (dev w') = global (dev w)"
proof -
  note run = assms(1) [folded assms(2)]
  show complete: "state (op_configuration op) = Complete"
    using capture_completes [OF assms(4) ready_fields(3,5) [OF assms(3)]] run by simp
  show "shows_module (op_configuration op) (dev w)" "baseAddress (op_configuration op) = base"
    "selectorParkedAtQuadZero (op_configuration op)" using capture_exact [OF run complete] by simp_all
  show "banked (dev w') = banked (dev w)" "global (dev w') = global (dev w)" using capture_changes_nothing [OF run] by simp_all
qed

lemma ready_same: "ready_module m \<Longrightarrow> global m' = global m \<Longrightarrow> ready_module m'"
  by (simp add: ready_module_def prepared_module_def)

lemma ready_apply:
  assumes "shows_module c (dev w)" "plannable profile c" "ready_module (dev w)" "baseAddress c = base"
    and "base AND 0xFFFF = 0" "runtime = default_runtime" "snapshot_wf (configuration profile)"
    and "steps (request (PlanFw2051ScpProfileApplication profile c)) \<noteq> []"
    and "ApplyFw2051ScpProfile T (request (PlanFw2051ScpProfileApplication profile c)) (Some gate) w = (res, w')"
  shows "b_state res = Passed" "ready_module (dev w')" "bank_quads (banked (dev w')) = quads (configuration profile)"
proof -
  let ?req = "request (PlanFw2051ScpProfileApplication profile c)"
  have wf: "snapshot_wf c" using assms(1) by (rule shown_wf)
  have e: "base = baseAddress (expectedLiveConfiguration ?req)" "shows_module (expectedLiveConfiguration ?req) (dev w)"
    using assms(1,4) by (simp_all add: plan_expected)
  have "ValidateRequest ?req = None" using planned_request_validates [OF assms(2,7) wf] assms(8) by simp
  then show passed: "b_state res = Passed"
    using apply_passes [OF assms(6) e(1) assms(5) _ e(2) ready_fields(3) [OF assms(3)]] assms(9) by simp
  show "ready_module (dev w')" using apply_keeps_ready [OF assms(9,6) e(1) assms(3)] .
  have "plan_success (PlanFw2051ScpProfileApplication profile c)" using assms(2) by (simp add: plan_success_plannable)
  then show "bank_quads (banked (dev w')) = quads (configuration profile)"
    using apply_exact [OF assms(9) e(1) _ assms(6)] wf passed apply_plan_steps [OF plannable_shape(1-4) [OF assms(2,7) wf], of "[]"]
    by (auto simp: plan_steps_planned plan_expected split: if_splits)
qed

lemma startup_phases_pass:
  assumes "ready_module (dev w)" "startup_profile base (dq_profile req)" "snapshot_wf (configuration (dq_profile req))"
    and "base AND 0xFFFF = 0" "runtime = default_runtime" "ds_baseAddress r = base"
  shows "\<exists>r' w'. and_then (and_then (startup_recapture T req gate r w) (startup_apply T gate)) (startup_verify T req gate) = (Inl r', w')
    \<and> ds_state r' = StartupPassed"
proof -
  let ?p = "dq_profile req"
  obtain captured w1 where cap: "CaptureFw2051ScpConfiguration T base (Some gate) default_runtime w = (captured, w1)" by (rule prod.exhaust)
  let ?c = "op_configuration captured" and ?plan = "PlanFw2051ScpProfileApplication ?p (op_configuration captured)"
  note c = ready_capture [OF cap assms(5,1,4)]
  have w1: "ready_module (dev w1)" "shows_module ?c (dev w1)"
    using ready_same [OF assms(1) c(6)] c(2,5,6) by (simp_all add: shows_module_def)
  note plannable = ready_snapshot(3) [OF w1(2,1) assms(2) c(3,1,4)]
  then have success: "plan_success ?plan" by (simp add: plan_success_plannable)
  obtain r1 where r1: "startup_recapture T req gate r w = (Inr r1, w1)" "ds_baseAddress r1 = base" "ds_postPreparationPlan r1 = ?plan"
    "ds_bankedApplicationNeeded r1 \<longleftrightarrow> steps (request ?plan) \<noteq> []"
    using cap c(1) success assms(6) by (simp add: startup_recapture_def Let_def)
  have "\<exists>r2 w2. startup_apply T gate r1 w1 = (Inr r2, w2) \<and> ds_baseAddress r2 = base \<and> ready_module (dev w2)
      \<and> bank_quads (banked (dev w2)) = quads (configuration ?p)"
  proof (cases "steps (request ?plan) = []")
    case True
    then have "quads ?c = quads (configuration ?p)"
      using apply_plan_steps [OF plannable_shape(1-4) [OF plannable assms(3) shown_wf [OF w1(2)]], of "[]"] plan_steps_planned [OF success]
      by (simp add: apply_steps_def)
    then show ?thesis using True r1 w1 by (simp add: startup_apply_def shows_module_def bank_quads_def)
  next
    case False
    obtain applied w2 where run: "ApplyFw2051ScpProfile T (request ?plan) (Some gate) w1 = (applied, w2)" by (rule prod.exhaust)
    show ?thesis
      using ready_apply [OF w1(2) plannable w1(1) c(3) assms(4,5,3) False run] False r1 run by (simp add: startup_apply_def Let_def)
  qed
  then obtain r2 w2 where r2: "startup_apply T gate r1 w1 = (Inr r2, w2)" "ds_baseAddress r2 = base" "ready_module (dev w2)"
    "bank_quads (banked (dev w2)) = quads (configuration ?p)" by blast
  obtain final w3 where fin: "CaptureFw2051ScpConfiguration T base (Some gate) default_runtime w2 = (final, w3)" by (rule prod.exhaust)
  note f = ready_capture [OF fin assms(5) r2(3) assms(4)]
  note snap = ready_snapshot [OF f(2) r2(3) assms(2) f(3,1,4)]
  have "quads (op_configuration final) = quads (configuration ?p)" using f(2) r2(4) by (simp add: shows_module_def bank_quads_def)
  then have "differences (CompareFw2051ScpConfiguration ?p (op_configuration final)) = []"
    using comparable_shape(4) [OF snap(1)] snap(2) assms(3) banked_differences_Nil [of "quads (configuration ?p)" "quads (configuration ?p)" 0]
    by (simp add: snapshot_wf_def)
  then have "\<exists>r3. startup_verify T req gate r2 w2 = (Inl r3, w3) \<and> ds_state r3 = StartupPassed"
    using fin f(1) snap(1) comparable_shape(3) [OF snap(1)] r2(2) configuration_value_count by (simp add: startup_verify_def Let_def)
  then show ?thesis using r1(1) r2(1) by (auto simp: and_then_def)
qed

lemma startup_passes:
  assumes "runtime = default_runtime" "base = baseAddress (dq_reviewedConfiguration req)" "base AND 0xFFFF = 0"
    and "snapshot_wf (configuration (dq_profile req))"
    and "validate_startup_request req (PlanFw2051ScpStandaloneStartup (dq_profile req) (dq_reviewedConfiguration req)) = None"
    and "global (dev w) 0x6008 = Mdpp32HardwareId" "global (dev w) 0x600E = Mdpp32ScpFirmwareRevisionFw2051"
  shows "ds_state (fst (RunFw2051DeterministicStartup T req (Some gate) w)) = StartupPassed"
proof -
  let ?r = "begin_startup_result req"
  have r: "ds_baseAddress ?r = base" "ds_reviewedPlan ?r = PlanFw2051ScpStandaloneStartup (dq_profile req) (dq_reviewedConfiguration req)"
    using assms(2) [symmetric] by (simp_all add: begin_startup_result_def Let_def)
  have "sp_success (PlanFw2051ScpStandaloneStartup (dq_profile req) (dq_reviewedConfiguration req))"
    using assms(5) by (simp add: validate_startup_request_def split: if_splits)
  then have profile: "startup_profile base (dq_profile req)"
    using startable_profile [of "dq_profile req" "dq_reviewedConfiguration req"] assms(2) by (simp add: startup_success_startable)
  have audit: "ValidateAudit base (dq_startupAudit req) = []"
    using assms(2,5) by (simp add: ValidateAudit_def validate_startup_request_def split: if_splits)
  obtain prep w1 where run: "PrepareFw2051ModuleForStartup T base (dq_startupAudit req) (Some gate) w = (prep, w1)" by (rule prod.exhaust)
  have passed: "pp_state prep = PreparationPassed" using linked.preparation_passes [OF audit assms(6,7)] run by simp
  note exact = guarded.preparation_exact [OF run]
  have ready: "ready_module (dev w1)"
    using exact(4) [OF passed] frame_identity [OF exact(1) [unfolded contract_frame_iff]] assms(6,7) by (simp add: ready_module_def)
  obtain r1 where r1: "startup_prepare T req gate ?r w = (Inr r1, w1)" "ds_baseAddress r1 = base"
    using run passed r(1) by (simp add: startup_prepare_def Let_def)
  obtain r' w' where "and_then (and_then (startup_recapture T req gate r1 w1) (startup_apply T gate)) (startup_verify T req gate) = (Inl r', w')"
    "ds_state r' = StartupPassed"
    using startup_phases_pass [OF ready profile assms(4,3,1) r1(2)] by blast
  moreover have "and_then (startup_prepare T req gate ?r w) (startup_recapture T req gate) = startup_recapture T req gate r1 w1"
    using r1(1) by (simp add: and_then_def)
  ultimately show ?thesis using assms(5) r(2) by (simp add: RunFw2051DeterministicStartup_def Let_def)
qed

end

subsection \<open>Properties\<close>

text \<open>
  (C3) A deterministic start over a link on which any access may fail: a refused request touches
  nothing; once the preparation has passed, whatever fails later, the readout contract holds, so
  that the audit calls the module ready, and acquisition is stopped; unless banked writes were
  needed and not rolled back, the banked settings are as they were; and a passed start has the
  module at exactly the profile's settings with the selector at quad 0.
\<close>
theorem startup_outcome:
  assumes "supervised_capture T base dev gate default_runtime" "base = baseAddress (dq_reviewedConfiguration req)"
    and "snapshot_wf (configuration (dq_profile req))" "RunFw2051DeterministicStartup T req (Some gate) w = (res, w')"
  shows "(validate_startup_request req (PlanFw2051ScpStandaloneStartup (dq_profile req) (dq_reviewedConfiguration req)) \<noteq> None
       \<longrightarrow> w' = w \<and> ds_state res = StartupFailed)
    \<and> (ds_startupPreparationPassed res \<longrightarrow> diagnostic_ready (mdpp_read (dev w'))
         \<and> global (dev w') Fw2051AcquisitionControlRegister = Fw2051StopAcquisitionValue)
    \<and> (\<not> ds_bankedApplicationNeeded res \<or> b_rollbackVerified (ds_bankedApplication res) \<longrightarrow> banked (dev w') = banked (dev w))
    \<and> (ds_state res = StartupPassed \<longrightarrow> ds_startupPreparationPassed res \<and> selector (dev w') = 0
         \<and> bank_quads (banked (dev w')) = quads (configuration (dq_profile req)))"
proof -
  note exact = supervised_capture.startup_exact [OF assms(1,4) refl assms(2,3)]
  have "ds_reviewedPlan (begin_startup_result req) = PlanFw2051ScpStandaloneStartup (dq_profile req) (dq_reviewedConfiguration req)"
    by (simp add: begin_startup_result_def Let_def)
  moreover have "diagnostic_ready (mdpp_read (dev w')) \<and> global (dev w') Fw2051AcquisitionControlRegister = Fw2051StopAcquisitionValue"
    if "ready_module (dev w')"
    using that prepared_ready by (simp add: ready_module_def prepared_module_def)
  ultimately show ?thesis
    using exact by (simp add: supervised_capture.startup_returned_def [OF assms(1)] supervised_capture.startup_ok_def [OF assms(1)])
qed

definition sample_start :: DeterministicStartupRequest where
  "sample_start = \<lparr>dq_profileLoadedForTarget = True, dq_configurationFresh = True, dq_startupAuditCompleteForTarget = True,
     dq_confirmed = True, dq_profile = sample_profile, dq_reviewedConfiguration = sample_live, dq_startupAudit = sample_audit\<rparr>"

lemma sample_start_valid:
  "validate_startup_request sample_start (PlanFw2051ScpStandaloneStartup (dq_profile sample_start) (dq_reviewedConfiguration sample_start)) = None"
  "baseAddress (dq_reviewedConfiguration sample_start) = sample_base"
proof -
  have "startable sample_profile sample_live"
    using sample_comparable sample_quads_ok(1)
    by (simp add: startable_def same_identity_def sample_profile_def) (simp add: sample_target_def sample_live_def)
  then have "sp_success (PlanFw2051ScpStandaloneStartup sample_profile sample_live)" by (simp add: startup_success_startable)
  moreover have "ValidateAudit sample_base sample_audit = []" by (rule sample_audit_valid)
  ultimately show "validate_startup_request sample_start (PlanFw2051ScpStandaloneStartup (dq_profile sample_start) (dq_reviewedConfiguration sample_start)) = None"
    "baseAddress (dq_reviewedConfiguration sample_start) = sample_base"
    by (simp_all add: sample_start_def validate_startup_request_def ValidateAudit_def sample_live_def split: if_splits)
qed

lemma sample_start_passes: "ds_state (fst (RunFw2051DeterministicStartup (simulated sample_base) sample_start (Some allow_all) live_sim)) = StartupPassed"
  using sample_wf(2)
  by (intro sim.startup_passes sample_start_valid live_identity refl sample_start_valid(2) [symmetric])
    (simp_all add: sample_start_def sample_profile_def)

theorem startup_outcome_witness:
  "\<exists>res w'. RunFw2051DeterministicStartup (simulated sample_base) sample_start (Some allow_all) live_sim = (res, w')
    \<and> bank_quads (banked (sim_module w')) = quads sample_target \<and> diagnostic_ready (mdpp_read (sim_module w'))"
proof -
  obtain res w' where run: "RunFw2051DeterministicStartup (simulated sample_base) sample_start (Some allow_all) live_sim = (res, w')"
    by (rule prod.exhaust)
  moreover have "snapshot_wf (configuration (dq_profile sample_start))" using sample_wf(2) by (simp add: sample_start_def sample_profile_def)
  ultimately show ?thesis
    using startup_outcome [OF sim.supervised_capture_axioms sample_start_valid(2) [symmetric] _ run] sample_start_passes
    by (simp add: sample_start_def sample_profile_def)
qed

text \<open>
  (C17) A deterministic start comes back and passes: on an answering module of the approved kind at
  an aligned base, with a caller that allows every step, a valid request ends \<open>StartupPassed\<close>,
  whatever the module's settings are by then.
\<close>
theorem confirmed_startup_passes:
  assumes "responsive_capture T base dev gate default_runtime" "base = baseAddress (dq_reviewedConfiguration req)"
    and "base AND 0xFFFF = 0" "snapshot_wf (configuration (dq_profile req))"
    and "validate_startup_request req (PlanFw2051ScpStandaloneStartup (dq_profile req) (dq_reviewedConfiguration req)) = None"
    and "global (dev w) 0x6008 = Mdpp32HardwareId" "global (dev w) 0x600E = Mdpp32ScpFirmwareRevisionFw2051"
  shows "ds_state (fst (RunFw2051DeterministicStartup T req (Some gate) w)) = StartupPassed"
  using responsive_capture.startup_passes [OF assms(1) refl assms(2-7)] .

theorem confirmed_startup_passes_witness:
  "ds_state (fst (RunFw2051DeterministicStartup (simulated sample_base) sample_start (Some allow_all) live_sim)) = StartupPassed"
  using sample_wf(2)
  by (intro confirmed_startup_passes [OF sim.responsive_capture_axioms sample_start_valid(2) [symmetric]] sample_start_valid live_identity)
    (simp_all add: sample_start_def sample_profile_def)

end
