(* ===== verification/Guided_Workflow.thy ===== *)
theory Guided_Workflow
  imports Main
begin

text \<open>
  The guided workflow, \<^verbatim>\<open>core/GuidedWorkflow.cpp\<close>: what the tuner shows next and which action
  it offers, decided from the states of the project, the ownership, the acquisition and the
  configuration. The decision is total and made anew from the inputs each time.
\<close>

datatype GuidedTunerOwnershipState =
    OwnerDisconnected | OwnerChecking | OwnerIdle | OwnerInUse | OwnerSessionOpen | OwnerOwnershipLost
  | OwnerRecoveryRequired | OwnerFailed

datatype GuidedTunerAcquisitionState =
    AcquisitionNotRun | AcquisitionStarting | AcquisitionRunning | AcquisitionStopping | AcquisitionStopped
  | AcquisitionFailed

datatype GuidedTunerOperation =
    OperationNone | OperationAudit | OperationConfigurationCapture | OperationProfileApplication
  | OperationStartupPreparation | OperationAcquisition | OperationOther

datatype GuidedTunerStage =
    StageSelectProject | StageUnsupportedTarget | StageResolveRecovery | StageCheckController
  | StageConfirmHandoff | StageOpenSession | StageWorking | StageLoadProfile | StageAuditStartup
  | StageCaptureConfiguration | StageReviewStartup | StageReady | StageStarting | StageAcquiring
  | StageStopping | StageStoppedCleanly | StageFailed | StageBlocked

datatype GuidedTunerAction =
    DoNone | DoProjectControls | DoRecoveryControls | DoCheckControllerStatus | DoConfirmHandoff
  | DoOpenSession | DoLoadProfile | DoRunStartupAudit | DoCaptureConfiguration | DoReviewStartup
  | DoStartAcquisition | DoStopAcquisition

datatype GuidedTunerTone =
    ToneNeutral | ToneWorking | ToneReady | ToneAttention | ToneBlocked

record GuidedTunerInputs =
  gi_projectActive :: bool
  gi_targetSupported :: bool
  gi_ownership :: GuidedTunerOwnershipState
  gi_mvmeHandoffConfirmed :: bool
  gi_recoveryRecordAvailable :: bool
  gi_activeOperation :: GuidedTunerOperation
  gi_profileLoadedForTarget :: bool
  gi_startupAuditCompleteForTarget :: bool
  gi_startupAuditReady :: bool
  gi_configurationCompleteForTarget :: bool
  gi_configurationFresh :: bool
  gi_profileMatchesExactly :: bool
  gi_startupPlanAvailable :: bool
  gi_deterministicStartupPassed :: bool
  gi_acquisition :: GuidedTunerAcquisitionState
  gi_cleanupVerified :: bool

record GuidedTunerDecision =
  gd_stage :: GuidedTunerStage
  gd_nextAction :: GuidedTunerAction
  gd_tone :: GuidedTunerTone
  gd_step :: nat
  gd_totalSteps :: nat

definition MakeDecision :: "GuidedTunerStage \<Rightarrow> GuidedTunerAction \<Rightarrow> GuidedTunerTone \<Rightarrow> nat \<Rightarrow> GuidedTunerDecision" where
  "MakeDecision stage action tone step =
     \<lparr>gd_stage = stage, gd_nextAction = action, gd_tone = tone, gd_step = step, gd_totalSteps = 7\<rparr>"

text \<open>The first switch: a decision, or \<open>None\<close> where the source leaves the switch.\<close>

fun acquisition_decision :: "GuidedTunerInputs \<Rightarrow> GuidedTunerAcquisitionState \<Rightarrow> GuidedTunerDecision option" where
  "acquisition_decision i AcquisitionStarting = Some (MakeDecision StageStarting DoNone ToneWorking 7)"
| "acquisition_decision i AcquisitionRunning = Some (MakeDecision StageAcquiring DoStopAcquisition ToneReady 7)"
| "acquisition_decision i AcquisitionStopping = Some (MakeDecision StageStopping DoNone ToneWorking 7)"
| "acquisition_decision i AcquisitionStopped =
    (if gi_cleanupVerified i \<and> gi_ownership i = OwnerSessionOpen
     then Some (MakeDecision StageStoppedCleanly DoStartAcquisition ToneReady 7)
     else if \<not> gi_cleanupVerified i then Some (MakeDecision StageFailed DoNone ToneBlocked 7)
     else None)"
| "acquisition_decision i AcquisitionFailed = Some (MakeDecision StageFailed DoNone ToneBlocked 7)"
| "acquisition_decision i AcquisitionNotRun = None"

text \<open>The second switch.\<close>

fun ownership_decision :: "GuidedTunerInputs \<Rightarrow> GuidedTunerOwnershipState \<Rightarrow> GuidedTunerDecision option" where
  "ownership_decision i OwnerDisconnected = Some (MakeDecision StageCheckController DoCheckControllerStatus ToneAttention 2)"
| "ownership_decision i OwnerChecking = Some (MakeDecision StageWorking DoNone ToneWorking 2)"
| "ownership_decision i OwnerIdle =
    (if \<not> gi_mvmeHandoffConfirmed i then Some (MakeDecision StageConfirmHandoff DoConfirmHandoff ToneAttention 2)
     else Some (MakeDecision StageOpenSession DoOpenSession ToneAttention 2))"
| "ownership_decision i OwnerInUse = Some (MakeDecision StageBlocked DoCheckControllerStatus ToneBlocked 2)"
| "ownership_decision i OwnerOwnershipLost = Some (MakeDecision StageBlocked DoCheckControllerStatus ToneBlocked 2)"
| "ownership_decision i OwnerFailed = Some (MakeDecision StageCheckController DoCheckControllerStatus ToneBlocked 2)"
| "ownership_decision i OwnerRecoveryRequired = Some (MakeDecision StageResolveRecovery DoRecoveryControls ToneBlocked 2)"
| "ownership_decision i OwnerSessionOpen = None"

definition operation_step :: "GuidedTunerOperation \<Rightarrow> nat" where
  "operation_step oper =
    (if oper = OperationAudit then 4
     else if oper = OperationConfigurationCapture then 5
     else if oper = OperationProfileApplication then 5
     else if oper = OperationStartupPreparation then 6
     else 2)"

definition session_decision :: "GuidedTunerInputs \<Rightarrow> GuidedTunerDecision" where
  "session_decision i =
    (if gi_activeOperation i \<noteq> OperationNone
     then MakeDecision StageWorking DoNone ToneWorking (operation_step (gi_activeOperation i))
     else if \<not> gi_profileLoadedForTarget i then MakeDecision StageLoadProfile DoLoadProfile ToneAttention 3
     else if \<not> gi_startupAuditCompleteForTarget i then MakeDecision StageAuditStartup DoRunStartupAudit ToneAttention 4
     else if \<not> gi_configurationCompleteForTarget i \<or> \<not> gi_configurationFresh i
     then MakeDecision StageCaptureConfiguration DoCaptureConfiguration ToneAttention 5
     else if gi_deterministicStartupPassed i then MakeDecision StageReady DoStartAcquisition ToneReady 7
     else if gi_startupPlanAvailable i then MakeDecision StageReviewStartup DoReviewStartup ToneAttention 6
     else MakeDecision StageBlocked DoNone ToneBlocked 6)"

definition PlanGuidedTunerWorkflow :: "GuidedTunerInputs \<Rightarrow> GuidedTunerDecision" where
  "PlanGuidedTunerWorkflow i =
    (if gi_recoveryRecordAvailable i \<or> gi_ownership i = OwnerRecoveryRequired
     then MakeDecision StageResolveRecovery DoRecoveryControls ToneBlocked 2
     else case acquisition_decision i (gi_acquisition i) of
       Some d \<Rightarrow> d
     | None \<Rightarrow>
       (if \<not> gi_projectActive i then MakeDecision StageSelectProject DoProjectControls ToneAttention 1
        else if \<not> gi_targetSupported i then MakeDecision StageUnsupportedTarget DoProjectControls ToneBlocked 1
        else case ownership_decision i (gi_ownership i) of
          Some d \<Rightarrow> d
        | None \<Rightarrow> session_decision i))"

fun GuidedTunerStageName :: "GuidedTunerStage \<Rightarrow> string" where
  "GuidedTunerStageName StageSelectProject = ''Select a crate project''"
| "GuidedTunerStageName StageUnsupportedTarget = ''Select a supported module''"
| "GuidedTunerStageName StageResolveRecovery = ''Recovery required''"
| "GuidedTunerStageName StageCheckController = ''Check the MVLC''"
| "GuidedTunerStageName StageConfirmHandoff = ''Confirm the MVME handoff''"
| "GuidedTunerStageName StageOpenSession = ''Open the tuner session''"
| "GuidedTunerStageName StageWorking = ''Working''"
| "GuidedTunerStageName StageLoadProfile = ''Load the saved SCP profile''"
| "GuidedTunerStageName StageAuditStartup = ''Audit the module startup state''"
| "GuidedTunerStageName StageCaptureConfiguration = ''Read the live SCP configuration''"
| "GuidedTunerStageName StageReviewStartup = ''Review deterministic startup''"
| "GuidedTunerStageName StageReady = ''Ready to acquire waveforms''"
| "GuidedTunerStageName StageStarting = ''Starting acquisition''"
| "GuidedTunerStageName StageAcquiring = ''Acquiring waveforms''"
| "GuidedTunerStageName StageStopping = ''Stopping safely''"
| "GuidedTunerStageName StageStoppedCleanly = ''Stopped cleanly''"
| "GuidedTunerStageName StageFailed = ''Action failed''"
| "GuidedTunerStageName StageBlocked = ''Blocked''"

fun GuidedTunerStageMessage :: "GuidedTunerStage \<Rightarrow> string" where
  "GuidedTunerStageMessage StageSelectProject = ''Load or activate the crate project that describes this MVLC, its modules, and profile paths.''"
| "GuidedTunerStageMessage StageUnsupportedTarget = ''The selected project module is not supported by the current SCP tuner backend.''"
| "GuidedTunerStageMessage StageResolveRecovery = ''Resolve the recorded tuner-owned state before making any new hardware request.''"
| "GuidedTunerStageMessage StageCheckController = ''Run the read-only controller check. It closes its connection immediately and performs no VME-bus write.''"
| "GuidedTunerStageMessage StageConfirmHandoff = ''Confirm that the MVME run is stopped and MVME is completely quit before the tuner retains ownership.''"
| "GuidedTunerStageMessage StageOpenSession = ''The MVLC is idle and the handoff is confirmed. Open the exclusive tuner session.''"
| "GuidedTunerStageMessage StageWorking = ''A previously tested operation is in progress. Wait for its verified result.''"
| "GuidedTunerStageMessage StageLoadProfile = ''Load the saved profile for the selected module so live hardware can be checked against the intended settings.''"
| "GuidedTunerStageMessage StageAuditStartup = ''Run the zero-VME-bus-write 37-register startup audit for the selected module.''"
| "GuidedTunerStageMessage StageCaptureConfiguration = ''Capture a fresh eight-quad SCP snapshot for exact comparison with the loaded profile.''"
| "GuidedTunerStageMessage StageReviewStartup = ''The live state is not yet ready. Review and explicitly approve the existing rollback-protected startup recipe.''"
| "GuidedTunerStageMessage StageReady = ''The selected module satisfies the readout contract and saved configuration. Acquisition remains a separate user action.''"
| "GuidedTunerStageMessage StageStarting = ''The tuner is isolating non-target modules and installing the verified diagnostic readout path.''"
| "GuidedTunerStageMessage StageAcquiring = ''Waveforms are live. Stop uses the verified cleanup path and checks every isolated module.''"
| "GuidedTunerStageMessage StageStopping = ''Verified cleanup is in progress. Do not start MVME until it completes.''"
| "GuidedTunerStageMessage StageStoppedCleanly = ''The selected module, isolated modules, MVLC DAQ mode, and diagnostic stack were cleaned up successfully.''"
| "GuidedTunerStageMessage StageFailed = ''The last acquisition action did not finish with verified cleanup. Review the detailed status before continuing.''"
| "GuidedTunerStageMessage StageBlocked = ''A safety prerequisite is not satisfied. Review the detailed ownership or configuration message before continuing.''"

fun GuidedTunerActionName :: "GuidedTunerAction \<Rightarrow> string" where
  "GuidedTunerActionName DoNone = []"
| "GuidedTunerActionName DoProjectControls = ''crate project''"
| "GuidedTunerActionName DoRecoveryControls = ''recovery controls''"
| "GuidedTunerActionName DoCheckControllerStatus = ''MVLC status check''"
| "GuidedTunerActionName DoConfirmHandoff = ''MVME handoff confirmation''"
| "GuidedTunerActionName DoOpenSession = ''open-session control''"
| "GuidedTunerActionName DoLoadProfile = ''profile loader''"
| "GuidedTunerActionName DoRunStartupAudit = ''startup audit''"
| "GuidedTunerActionName DoCaptureConfiguration = ''configuration capture''"
| "GuidedTunerActionName DoReviewStartup = ''startup review''"
| "GuidedTunerActionName DoStartAcquisition = ''acquisition control''"
| "GuidedTunerActionName DoStopAcquisition = ''stop control''"

subsection \<open>What is decided\<close>

text \<open>Nothing recorded needs recovery; the prerequisites of a session at rest.\<close>

definition unrecovered :: "GuidedTunerInputs \<Rightarrow> bool" where
  "unrecovered i \<longleftrightarrow> gi_recoveryRecordAvailable i \<or> gi_ownership i = OwnerRecoveryRequired"

definition operating :: "GuidedTunerInputs \<Rightarrow> bool" where
  "operating i \<longleftrightarrow> gi_activeOperation i \<noteq> OperationNone"

definition session_at_rest :: "GuidedTunerInputs \<Rightarrow> bool" where
  "session_at_rest i \<longleftrightarrow> gi_projectActive i \<and> gi_targetSupported i \<and> gi_ownership i = OwnerSessionOpen
     \<and> gi_activeOperation i = OperationNone"

definition checked_for_start :: "GuidedTunerInputs \<Rightarrow> bool" where
  "checked_for_start i \<longleftrightarrow> gi_profileLoadedForTarget i \<and> gi_startupAuditCompleteForTarget i
     \<and> gi_configurationCompleteForTarget i \<and> gi_configurationFresh i"

text \<open>The states in which the workflow waits for the program, or for the user's review of a failure.\<close>

definition acquisition_halts :: "GuidedTunerInputs \<Rightarrow> bool" where
  "acquisition_halts i \<longleftrightarrow> gi_acquisition i \<in> {AcquisitionStarting, AcquisitionStopping, AcquisitionFailed}
     \<or> gi_acquisition i = AcquisitionStopped \<and> \<not> gi_cleanupVerified i"

definition acquisition_idle :: "GuidedTunerInputs \<Rightarrow> bool" where
  "acquisition_idle i \<longleftrightarrow> gi_acquisition i = AcquisitionNotRun
     \<or> gi_acquisition i = AcquisitionStopped \<and> gi_cleanupVerified i \<and> gi_ownership i \<noteq> OwnerSessionOpen"

lemma decision_fields [simp]:
  "gd_stage (MakeDecision st a tn n) = st" "gd_nextAction (MakeDecision st a tn n) = a" "gd_step (MakeDecision st a tn n) = n"
  "gd_tone (MakeDecision st a tn n) = tn" "gd_totalSteps (MakeDecision st a tn n) = 7"
  by (simp_all add: MakeDecision_def)

lemma session_actions:
  "gd_nextAction (session_decision i) = DoStartAcquisition
    \<longleftrightarrow> gi_activeOperation i = OperationNone \<and> checked_for_start i \<and> gi_deterministicStartupPassed i"
  "gd_nextAction (session_decision i) = DoNone \<longleftrightarrow> gi_activeOperation i \<noteq> OperationNone
     \<or> checked_for_start i \<and> \<not> gi_deterministicStartupPassed i \<and> \<not> gi_startupPlanAvailable i"
  "gd_nextAction (session_decision i) \<noteq> DoStopAcquisition"
  "gd_tone (session_decision i) = ToneReady \<longleftrightarrow> gd_nextAction (session_decision i) = DoStartAcquisition"
  by (auto simp: session_decision_def checked_for_start_def)

lemma ownership_actions:
  assumes "ownership_decision i own = Some d"
  shows "gd_nextAction d \<notin> {DoStartAcquisition, DoStopAcquisition}" "gd_tone d \<noteq> ToneReady"
    "gd_nextAction d = DoNone \<longleftrightarrow> own = OwnerChecking" "own \<noteq> OwnerSessionOpen"
  using assms by (cases own; auto split: if_splits)+

lemma acquisition_actions:
  assumes "acquisition_decision i acq = Some d"
  shows "gd_nextAction d = DoStartAcquisition \<longleftrightarrow> acq = AcquisitionStopped \<and> gi_cleanupVerified i \<and> gi_ownership i = OwnerSessionOpen"
    "gd_nextAction d = DoStopAcquisition \<longleftrightarrow> acq = AcquisitionRunning"
    "gd_nextAction d = DoNone \<longleftrightarrow> acq \<in> {AcquisitionStarting, AcquisitionStopping, AcquisitionFailed}
       \<or> acq = AcquisitionStopped \<and> \<not> gi_cleanupVerified i"
    "acq \<noteq> AcquisitionNotRun" "acq = AcquisitionStopped \<Longrightarrow> gi_cleanupVerified i \<Longrightarrow> gi_ownership i = OwnerSessionOpen"
  using assms by (cases acq; auto split: if_splits)+

lemma ownership_none: "ownership_decision i own = None \<longleftrightarrow> own = OwnerSessionOpen"
  by (cases own) auto

text \<open>The three ways through the decision.\<close>

lemma decision_cases:
  obtains (recover) "unrecovered i" "PlanGuidedTunerWorkflow i = MakeDecision StageResolveRecovery DoRecoveryControls ToneBlocked 2"
  | (acquisition) d where "\<not> unrecovered i" "acquisition_decision i (gi_acquisition i) = Some d" "PlanGuidedTunerWorkflow i = d"
  | (project) "\<not> unrecovered i" "acquisition_idle i" "\<not> (gi_projectActive i \<and> gi_targetSupported i)"
      "gd_nextAction (PlanGuidedTunerWorkflow i) = DoProjectControls" "gd_tone (PlanGuidedTunerWorkflow i) \<noteq> ToneReady"
  | (ownership) d where "\<not> unrecovered i" "acquisition_idle i" "gi_projectActive i" "gi_targetSupported i"
      "ownership_decision i (gi_ownership i) = Some d" "PlanGuidedTunerWorkflow i = d"
  | (session) "\<not> unrecovered i" "gi_acquisition i = AcquisitionNotRun" "gi_projectActive i" "gi_targetSupported i"
      "gi_ownership i = OwnerSessionOpen" "PlanGuidedTunerWorkflow i = session_decision i"
proof -
  have idle: "acquisition_idle i" if "acquisition_decision i (gi_acquisition i) = None"
    using that by (cases "gi_acquisition i") (auto simp: acquisition_idle_def split: if_splits)
  have open_idle: "gi_acquisition i = AcquisitionNotRun" if "acquisition_idle i" "gi_ownership i = OwnerSessionOpen"
    using that by (auto simp: acquisition_idle_def)
  show thesis
  proof (cases "unrecovered i")
    case True
    then show thesis using recover by (simp add: PlanGuidedTunerWorkflow_def unrecovered_def)
  next
    case unrec: False
    show thesis
    proof (cases "acquisition_decision i (gi_acquisition i)")
      case (Some d)
      then show thesis using acquisition [OF unrec Some] unrec by (simp add: PlanGuidedTunerWorkflow_def unrecovered_def)
    next
      case None
      note at = idle [OF None]
      show thesis
      proof (cases "gi_projectActive i \<and> gi_targetSupported i")
        case False
        then show thesis using project [OF unrec at] None unrec by (simp add: PlanGuidedTunerWorkflow_def unrecovered_def split: if_splits)
      next
        case True
        then show thesis
          using None unrec ownership [OF unrec at] session [OF unrec open_idle [OF at]] ownership_none [of i "gi_ownership i"]
          by (cases "ownership_decision i (gi_ownership i)") (simp_all add: PlanGuidedTunerWorkflow_def unrecovered_def)
      qed
    qed
  qed
qed

lemma start_offered_iff:
  "gd_nextAction (PlanGuidedTunerWorkflow i) = DoStartAcquisition \<longleftrightarrow> \<not> unrecovered i
    \<and> (gi_acquisition i = AcquisitionStopped \<and> gi_cleanupVerified i \<and> gi_ownership i = OwnerSessionOpen
       \<or> gi_acquisition i = AcquisitionNotRun \<and> session_at_rest i \<and> checked_for_start i \<and> gi_deterministicStartupPassed i)"
proof (cases i rule: decision_cases)
  case (acquisition d)
  then show ?thesis using acquisition_actions [OF acquisition(2)] by auto
next
  case project
  then show ?thesis by (auto simp: acquisition_idle_def session_at_rest_def)
next
  case (ownership d)
  then show ?thesis using ownership_actions [OF ownership(5)] by (auto simp: acquisition_idle_def session_at_rest_def)
next
  case session
  then show ?thesis using session_actions(1) [of i] by (auto simp: session_at_rest_def)
qed simp

lemma nothing_offered_iff:
  "gd_nextAction (PlanGuidedTunerWorkflow i) = DoNone \<longleftrightarrow> \<not> unrecovered i
    \<and> (acquisition_halts i
       \<or> acquisition_idle i \<and> gi_projectActive i \<and> gi_targetSupported i
         \<and> (gi_ownership i = OwnerChecking
            \<or> gi_ownership i = OwnerSessionOpen
              \<and> (gi_activeOperation i \<noteq> OperationNone
                 \<or> checked_for_start i \<and> \<not> gi_deterministicStartupPassed i \<and> \<not> gi_startupPlanAvailable i)))"
proof (cases i rule: decision_cases)
  case (acquisition d)
  then show ?thesis using acquisition_actions [OF acquisition(2)] by (auto simp: acquisition_halts_def acquisition_idle_def)
next
  case project
  then show ?thesis by (auto simp: acquisition_idle_def acquisition_halts_def)
next
  case (ownership d)
  then show ?thesis using ownership_actions [OF ownership(5)] by (auto simp: acquisition_idle_def acquisition_halts_def)
next
  case session
  then show ?thesis using session_actions(2) [of i] by (auto simp: acquisition_idle_def acquisition_halts_def)
qed simp

lemma stop_offered_iff:
  "gd_nextAction (PlanGuidedTunerWorkflow i) = DoStopAcquisition \<longleftrightarrow> \<not> unrecovered i \<and> gi_acquisition i = AcquisitionRunning"
proof (cases i rule: decision_cases)
  case (acquisition d)
  then show ?thesis using acquisition_actions [OF acquisition(2)] by auto
next
  case project
  then show ?thesis by (auto simp: acquisition_idle_def)
next
  case (ownership d)
  then show ?thesis using ownership_actions [OF ownership(5)] by (auto simp: acquisition_idle_def)
next
  case session
  then show ?thesis using session_actions(3) [of i] by auto
qed simp

subsection \<open>Properties\<close>

text \<open>
  (C30) The workflow offers to start an acquisition exactly when nothing needs recovery and either
  the last acquisition of the open session was cleaned up, or the open session is at rest on a
  supported target with a profile, an audit, a fresh complete configuration and a passed
  deterministic start; it offers to stop one exactly while one is running; and it offers nothing
  only while something is in progress, after an acquisition that was not cleaned up, or when no
  start can be planned.
\<close>
theorem workflow_actions_exact:
  "(gd_nextAction (PlanGuidedTunerWorkflow i) = DoStartAcquisition \<longleftrightarrow> \<not> unrecovered i
      \<and> (gi_acquisition i = AcquisitionStopped \<and> gi_cleanupVerified i \<and> gi_ownership i = OwnerSessionOpen
         \<or> gi_acquisition i = AcquisitionNotRun \<and> session_at_rest i \<and> checked_for_start i \<and> gi_deterministicStartupPassed i))
   \<and> (gd_nextAction (PlanGuidedTunerWorkflow i) = DoStopAcquisition \<longleftrightarrow> \<not> unrecovered i \<and> gi_acquisition i = AcquisitionRunning)
   \<and> (gd_nextAction (PlanGuidedTunerWorkflow i) = DoNone \<longleftrightarrow> \<not> unrecovered i
      \<and> (acquisition_halts i
         \<or> acquisition_idle i \<and> gi_projectActive i \<and> gi_targetSupported i
           \<and> (gi_ownership i = OwnerChecking
              \<or> gi_ownership i = OwnerSessionOpen
                \<and> (operating i
                   \<or> checked_for_start i \<and> \<not> gi_deterministicStartupPassed i \<and> \<not> gi_startupPlanAvailable i))))"
  unfolding operating_def by (intro conjI start_offered_iff stop_offered_iff nothing_offered_iff)

end
