(* ===== verification/Controller_Endpoint.thy ===== *)
theory Controller_Endpoint
  imports Text_Format
begin

text \<open>
  Where the controller and the module are: the endpoint request with its validation,
  \<^verbatim>\<open>core/ControllerEndpoint.cpp\<close>, and the text form of a module address,
  \<^verbatim>\<open>core/TargetModuleAddress.cpp\<close>. An address is its full A32 value; a message text is a
  constructor.
\<close>

subsection \<open>Endpoints\<close>

text \<open>The enum has two named values; a third constructor stands for any other value of its type.\<close>

datatype ControllerEndpointKind = DirectEthernet | SshBridge | UnnamedKind int

record ControllerEndpointRequest =
  ep_kind :: ControllerEndpointKind
  ep_mvlcHost :: string
  ep_mvlcCommandPort :: u16
  ep_sshDestination :: string
  ep_remoteBridgeCommand :: string

definition default_endpoint :: ControllerEndpointRequest where
  "default_endpoint = \<lparr>ep_kind = DirectEthernet, ep_mvlcHost = [], ep_mvlcCommandPort = 32768,
     ep_sshDestination = [], ep_remoteBridgeCommand = ''fidget_bridge''\<rparr>"

datatype ControllerEndpointValidationIssue =
    UnknownKind
  | InvalidMvlcHost
  | InvalidMvlcCommandPort
  | InvalidSshDestination
  | InvalidRemoteBridgeCommand

definition MaximumEndpointHostLength :: nat where "MaximumEndpointHostLength = 255"
definition MaximumSshDestinationLength :: nat where "MaximumSshDestinationLength = 255"
definition MaximumRemoteBridgeCommandLength :: nat where "MaximumRemoteBridgeCommandLength = 511"

definition opaque_char :: "char \<Rightarrow> bool" where
  "opaque_char c \<longleftrightarrow> (of_char c :: nat) > 0x20 \<and> (of_char c :: nat) \<noteq> 0x7F"

definition IsSingleOpaqueArgument :: "string \<Rightarrow> nat \<Rightarrow> bool" where
  "IsSingleOpaqueArgument v maximumLength \<longleftrightarrow>
     v \<noteq> [] \<and> length v \<le> maximumLength \<and> list_all opaque_char v"

text \<open>The issue of a request, \<open>None\<close> for a valid one.\<close>

definition ValidateControllerEndpoint :: "ControllerEndpointRequest \<Rightarrow> ControllerEndpointValidationIssue option" where
  "ValidateControllerEndpoint request =
    (if ep_kind request \<noteq> DirectEthernet \<and> ep_kind request \<noteq> SshBridge then Some UnknownKind
     else if \<not> IsSingleOpaqueArgument (ep_mvlcHost request) MaximumEndpointHostLength then Some InvalidMvlcHost
     else if ep_mvlcCommandPort request = 0 \<or> ep_mvlcCommandPort request = 0xFFFF then Some InvalidMvlcCommandPort
     else if ep_kind request = SshBridge
       \<and> \<not> IsSingleOpaqueArgument (ep_sshDestination request) MaximumSshDestinationLength then Some InvalidSshDestination
     else if ep_kind request = SshBridge
       \<and> \<not> IsSingleOpaqueArgument (ep_remoteBridgeCommand request) MaximumRemoteBridgeCommandLength
       then Some InvalidRemoteBridgeCommand
     else None)"

text \<open>An accepted name is one token of the text formats: it holds no white space.\<close>

lemma opaque_not_space: "opaque_char c \<Longrightarrow> \<not> is_space c"
  by (auto simp: opaque_char_def is_space_def)

lemma opaque_is_word: "IsSingleOpaqueArgument v n \<Longrightarrow> is_word v"
  by (auto simp: IsSingleOpaqueArgument_def is_word_def list_all_iff dest: opaque_not_space)

lemma endpoint_valid:
  assumes "ValidateControllerEndpoint r = None"
  shows "is_word (ep_mvlcHost r)" "ep_kind r = DirectEthernet \<or> ep_kind r = SshBridge"
    "ep_kind r = SshBridge \<Longrightarrow> is_word (ep_sshDestination r) \<and> is_word (ep_remoteBridgeCommand r)"
    "ep_mvlcCommandPort r \<noteq> 0" "ep_mvlcCommandPort r \<noteq> 0xFFFF"
  using assms opaque_is_word by (simp_all add: ValidateControllerEndpoint_def split: if_splits)

subsection \<open>Hexadecimal digits\<close>

definition is_xdigit :: "char \<Rightarrow> bool" where
  "is_xdigit c \<longleftrightarrow> is_digit c \<or> 97 \<le> (of_char c :: nat) \<and> (of_char c :: nat) \<le> 102
     \<or> 65 \<le> (of_char c :: nat) \<and> (of_char c :: nat) \<le> 70"

definition xdigit_value :: "char \<Rightarrow> nat" where
  "xdigit_value c = (if is_digit c then of_char c - 48 else if 97 \<le> (of_char c :: nat) then of_char c - 87 else of_char c - 55)"

definition xdigits_value :: "string \<Rightarrow> nat" where
  "xdigits_value ds = foldl (\<lambda>acc c. acc * 16 + xdigit_value c) 0 ds"

text \<open>\<^verbatim>\<open>std::from_chars\<close> in base 16 for a 64-bit target: no sign and no prefix is accepted.\<close>

definition from_chars16 :: "string \<Rightarrow> conversion_error + nat \<times> string" where
  "from_chars16 s =
    (let ds = takeWhile is_xdigit s; rest = dropWhile is_xdigit s in
     if ds = [] then Inl InvalidArgument
     else if xdigits_value ds \<ge> 2 ^ 64 then Inl ResultOutOfRange
     else Inr (xdigits_value ds, rest))"

subsection \<open>Module addresses\<close>

datatype address_error = AddressEmpty | AddressNoDigits | AddressExceedsA32 | AddressNotHexadecimal | AddressNotAligned

text \<open>
  The six characters of \<^verbatim>\<open>IsAsciiWhitespace\<close> are those of \<open>is_space\<close>.
\<close>

definition IsAsciiWhitespace :: "char \<Rightarrow> bool" where
  "IsAsciiWhitespace c \<longleftrightarrow> c = CHR '' '' \<or> c = CHR 0x09 \<or> c = CHR 0x0A \<or> c = CHR 0x0D \<or> c = CHR 0x0C \<or> c = CHR 0x0B"

fun trim_front :: "string \<Rightarrow> string" where
  "trim_front [] = []"
| "trim_front (c # s) = (if IsAsciiWhitespace c then trim_front s else c # s)"

definition TrimAsciiWhitespace :: "string \<Rightarrow> string" where
  "TrimAsciiWhitespace text = rev (trim_front (rev (trim_front text)))"

definition strip_prefix :: "string \<Rightarrow> string" where
  "strip_prefix text =
    (if length text \<ge> 2 \<and> text ! 0 = CHR ''0'' \<and> (text ! 1 = CHR ''x'' \<or> text ! 1 = CHR ''X'') then drop 2 text else text)"

definition ParseTargetModuleAddress :: "string \<Rightarrow> address_error + u32" where
  "ParseTargetModuleAddress input =
    (let text = TrimAsciiWhitespace input in
     if text = [] then Inl AddressEmpty else
     let text = strip_prefix text in
     if text = [] then Inl AddressNoDigits else
     case from_chars16 text of
       Inl ResultOutOfRange \<Rightarrow> Inl AddressExceedsA32
     | Inl InvalidArgument \<Rightarrow> Inl AddressNotHexadecimal
     | Inr (parsed, end) \<Rightarrow>
       if parsed > 2 ^ 32 - 1 then Inl AddressExceedsA32
       else if end \<noteq> [] then Inl AddressNotHexadecimal
       else let normalized = word_of_nat parsed in
         if normalized \<le> 0xFFFF then Inr (push_bit 16 normalized)
         else if normalized AND 0xFFFF \<noteq> 0 then Inl AddressNotAligned
         else Inr normalized)"

definition ParseFullTargetModuleAddress :: "u32 \<Rightarrow> address_error + u32" where
  "ParseFullTargetModuleAddress fullA32Value =
    (if fullA32Value AND 0xFFFF \<noteq> 0 then Inl AddressNotAligned else Inr fullA32Value)"

definition MvmeShorthandValue :: "u32 \<Rightarrow> u16" where
  "MvmeShorthandValue address = ucast (drop_bit 16 address)"

subsection \<open>What an accepted address is\<close>

lemma trim_front_eq: "trim_front s = dropWhile is_space s"
  by (induction s) (auto simp: IsAsciiWhitespace_def is_space_def)

text \<open>Printed digits, to state that a printed address reads back.\<close>

definition xdigit :: "nat \<Rightarrow> char" where
  "xdigit d = (if d < 10 then char_of (48 + d) else char_of (55 + d))"

fun hexadecimal :: "nat \<Rightarrow> string" where
  "hexadecimal n = (if n < 16 then [xdigit n] else hexadecimal (n div 16) @ [xdigit (n mod 16)])"

declare hexadecimal.simps [simp del]

lemma xdigit_read [simp]: "d < 16 \<Longrightarrow> is_xdigit (xdigit d)" "d < 16 \<Longrightarrow> xdigit_value (xdigit d) = d"
  by (auto simp: xdigit_def is_xdigit_def xdigit_value_def is_digit_def)

lemma xdigit_not_space: "is_xdigit c \<Longrightarrow> \<not> is_space c"
  by (auto simp: is_xdigit_def is_digit_def is_space_def)

lemma hexadecimal_xdigits: "list_all is_xdigit (hexadecimal n)"
proof (induction n rule: hexadecimal.induct)
  case (1 n)
  then show ?case by (subst hexadecimal.simps) simp
qed

lemma hexadecimal_not_Nil [simp]: "hexadecimal n \<noteq> []"
  by (subst hexadecimal.simps) simp

lemma xdigits_value_snoc: "xdigits_value (ds @ [c]) = xdigits_value ds * 16 + xdigit_value c"
  by (simp add: xdigits_value_def)

lemma xdigits_value_hexadecimal [simp]: "xdigits_value (hexadecimal n) = n"
proof (induction n rule: hexadecimal.induct)
  case (1 n)
  show ?case
  proof (cases "n < 16")
    case True
    then show ?thesis by (subst hexadecimal.simps) (simp add: xdigits_value_def)
  next
    case False
    with 1 show ?thesis by (subst hexadecimal.simps) (simp add: xdigits_value_snoc)
  qed
qed

text \<open>Trimming removes exactly the white space around a text that starts and ends without.\<close>

lemma trim_around:
  assumes "list_all is_space a" "list_all is_space b" "list_all (\<lambda>c. \<not> is_space c) t"
  shows "TrimAsciiWhitespace (a @ t @ b) = t"
proof -
  have "dropWhile is_space (a @ t @ b) = t @ dropWhile is_space (if t = [] then b else []) @ (if t = [] then [] else b)"
    using assms by (cases t) (auto simp: dropWhile_append list_all_iff dropWhile_eq_Nil_conv)
  then have "trim_front (a @ t @ b) = t @ (if t = [] then [] else b)"
    using assms(2) by (auto simp: trim_front_eq dropWhile_eq_Nil_conv list_all_iff)
  moreover have "trim_front (rev b @ rev t) = rev t"
    using assms by (cases t rule: rev_cases) (auto simp: trim_front_eq dropWhile_append list_all_iff)
  ultimately show ?thesis by (auto simp: TrimAsciiWhitespace_def)
qed

lemma from_chars16_all:
  "list_all is_xdigit ds \<Longrightarrow> ds \<noteq> [] \<Longrightarrow> xdigits_value ds < 2 ^ 64 \<Longrightarrow> from_chars16 ds = Inr (xdigits_value ds, [])"
  by (simp add: from_chars16_def Let_def takeWhile_eq_all_conv [THEN iffD2] dropWhile_eq_Nil_conv [THEN iffD2] list_all_iff)

lemma strip_prefix_xdigits: "list_all is_xdigit ds \<Longrightarrow> strip_prefix ds = ds"
  by (auto simp: strip_prefix_def list_all_length is_xdigit_def is_digit_def dest!: spec [of _ 1])

lemma strip_prefix_0x: "x = CHR ''x'' \<or> x = CHR ''X'' \<Longrightarrow> strip_prefix (CHR ''0'' # x # ds) = ds"
  by (auto simp: strip_prefix_def)

text \<open>The value of an accepted text, by its digits.\<close>

lemma parse_digits:
  assumes "list_all is_space a" "list_all is_space b" "list_all is_xdigit ds" "ds \<noteq> []"
    and "p = [] \<or> p = ''0x'' \<or> p = ''0X''" and v: "xdigits_value ds < 2 ^ 32"
  shows "ParseTargetModuleAddress (a @ p @ ds @ b) =
    (if xdigits_value ds < 2 ^ 16 then Inr (push_bit 16 (word_of_nat (xdigits_value ds)))
     else if (word_of_nat (xdigits_value ds) :: u32) AND 0xFFFF \<noteq> 0 then Inl AddressNotAligned
     else Inr (word_of_nat (xdigits_value ds)))"
proof -
  have prefix_chars: "\<not> is_space (CHR ''0'')" "\<not> is_space (CHR ''x'')" "\<not> is_space (CHR ''X'')"
    by (simp_all add: is_space_def)
  have nospace: "list_all (\<lambda>c. \<not> is_space c) (p @ ds)"
    using assms(3,5) prefix_chars by (auto simp: list_all_iff xdigit_not_space)
  have trim: "TrimAsciiWhitespace (a @ p @ ds @ b) = p @ ds"
    using trim_around [OF assms(1,2) nospace] by simp
  have strip: "strip_prefix (p @ ds) = ds"
    using assms(5) by (elim disjE) (simp_all add: strip_prefix_0x strip_prefix_xdigits [OF assms(3)])
  have small: "(word_of_nat (xdigits_value ds) :: u32) \<le> 0xFFFF \<longleftrightarrow> xdigits_value ds < 2 ^ 16"
    using v by (simp add: word_le_nat_alt unat_of_nat) linarith
  show ?thesis
    using assms(4) v by (simp add: ParseTargetModuleAddress_def trim strip from_chars16_all [OF assms(3,4)] small)
qed

text \<open>Every text is its trimmed part between white space.\<close>

lemma trim_decompose:
  obtains a b where "s = a @ TrimAsciiWhitespace s @ b" "list_all is_space a" "list_all is_space b"
proof
  let ?u = "dropWhile is_space s"
  have "rev ?u = takeWhile is_space (rev ?u) @ dropWhile is_space (rev ?u)" by simp
  then have "?u = rev (dropWhile is_space (rev ?u)) @ rev (takeWhile is_space (rev ?u))"
    by (metis rev_append rev_rev_ident)
  then show "s = takeWhile is_space s @ TrimAsciiWhitespace s @ rev (takeWhile is_space (rev ?u))"
    by (simp add: TrimAsciiWhitespace_def trim_front_eq)
  show "list_all is_space (takeWhile is_space s)" "list_all is_space (rev (takeWhile is_space (rev ?u)))"
    by (auto simp: list_all_iff dest: set_takeWhileD)
qed

lemma strip_decompose:
  obtains p where "t = p @ strip_prefix t" "p = [] \<or> p = ''0x'' \<or> p = ''0X''"
proof (cases "strip_prefix t = t")
  case True
  then show thesis using that [of "[]"] by simp
next
  case False
  then have long: "length t \<ge> 2" and c: "t ! 0 = CHR ''0''" "t ! 1 = CHR ''x'' \<or> t ! 1 = CHR ''X''"
    by (simp_all add: strip_prefix_def split: if_splits)
  then obtain x y u where t: "t = x # y # u" by (metis One_nat_def Suc_le_length_iff numeral_2_eq_2)
  with c show thesis using that [of "[x, y]"] by (auto simp: strip_prefix_def)
qed

lemma from_chars16_consumed:
  "from_chars16 t = Inr (v, []) \<Longrightarrow> list_all is_xdigit t \<and> t \<noteq> [] \<and> v = xdigits_value t"
  by (auto simp: from_chars16_def Let_def dropWhile_eq_Nil_conv list_all_iff takeWhile_eq_all_conv [THEN iffD2] split: if_splits)

definition addressed :: "nat \<Rightarrow> u32 \<Rightarrow> bool" where
  "addressed v a \<longleftrightarrow> v < 2 ^ 16 \<and> unat a = v * 2 ^ 16 \<or> v < 2 ^ 32 \<and> 2 ^ 16 dvd v \<and> unat a = v"

lemma low_half_zero: "(a :: u32) AND 0xFFFF = 0 \<longleftrightarrow> 2 ^ 16 dvd unat a"
proof -
  have "(0xFFFF :: u32) = mask 16" by (simp add: mask_numeral)
  then have "a AND 0xFFFF = take_bit 16 a" by (simp add: take_bit_eq_mask)
  then have "a AND 0xFFFF = a mod 65536" by (simp add: take_bit_eq_mod)
  moreover have "unat (a mod 65536) = unat a mod 65536" by (simp add: unat_mod_distrib)
  ultimately show ?thesis by (simp add: dvd_eq_mod_eq_0 flip: unat_eq_zero)
qed

lemma unat_word_of_nat_u32: "v < 2 ^ 32 \<Longrightarrow> unat (word_of_nat v :: u32) = v"
  by (simp add: unat_of_nat)

lemma shorthand_shifted: "v < 2 ^ 16 \<Longrightarrow> unat (push_bit 16 (word_of_nat v) :: u32) = v * 2 ^ 16"
proof -
  assume v: "v < 2 ^ 16"
  have "push_bit 16 (word_of_nat v) = (word_of_nat (v * 2 ^ 16) :: u32)" by (simp add: push_bit_eq_mult)
  moreover have "unat (word_of_nat (v * 2 ^ 16) :: u32) = v * 2 ^ 16" using v by (intro unat_word_of_nat_u32) simp
  ultimately show ?thesis by simp
qed

lemma addressed_iff:
  fixes a :: u32
  assumes v: "v < 2 ^ 32"
  shows "(if v < 2 ^ 16 then Inr (push_bit 16 (word_of_nat v))
     else if (word_of_nat v :: u32) AND 0xFFFF \<noteq> 0 then Inl AddressNotAligned
     else Inr (word_of_nat v)) = Inr a \<longleftrightarrow> (if v < 2 ^ 16 then unat a = v * 2 ^ 16 else 2 ^ 16 dvd v \<and> unat a = v)"
proof -
  have "word_of_nat v = a \<longleftrightarrow> unat a = v" using unat_word_of_nat_u32 [OF v] by auto
  moreover have "push_bit 16 (word_of_nat v) = a \<longleftrightarrow> unat a = v * 2 ^ 16" if "v < 2 ^ 16"
    using shorthand_shifted [OF that] by (simp only: word_unat_eq_iff) auto
  ultimately show ?thesis unfolding low_half_zero unat_word_of_nat_u32 [OF v] by simp
qed

lemma parse_digits_iff:
  fixes a :: u32
  assumes "list_all is_space pre" "list_all is_space post" "p = [] \<or> p = ''0x'' \<or> p = ''0X''"
    "ds \<noteq> []" "list_all is_xdigit ds" "xdigits_value ds < 2 ^ 32"
  shows "ParseTargetModuleAddress (pre @ p @ ds @ post) = Inr a \<longleftrightarrow>
    (if xdigits_value ds < 2 ^ 16 then unat a = xdigits_value ds * 2 ^ 16
     else 2 ^ 16 dvd xdigits_value ds \<and> unat a = xdigits_value ds)"
  unfolding parse_digits [OF assms(1,2,5,4,3,6)] by (rule addressed_iff [OF assms(6)])

lemma accepted_digits:
  assumes "ParseTargetModuleAddress s = Inr a"
  obtains pre p ds post where "s = pre @ p @ ds @ post" "list_all is_space pre" "list_all is_space post"
    "p = [] \<or> p = ''0x'' \<or> p = ''0X''" "ds \<noteq> []" "list_all is_xdigit ds" "xdigits_value ds < 2 ^ 32"
proof -
  obtain pre post where s: "s = pre @ TrimAsciiWhitespace s @ post" "list_all is_space pre" "list_all is_space post"
    by (rule trim_decompose)
  let ?t = "TrimAsciiWhitespace s"
  obtain p where p: "?t = p @ strip_prefix ?t" "p = [] \<or> p = ''0x'' \<or> p = ''0X''"
    by (rule strip_decompose)
  from assms obtain v where v: "from_chars16 (strip_prefix ?t) = Inr (v, [])" "v < 2 ^ 32"
    by (auto simp: ParseTargetModuleAddress_def Let_def split: if_splits sum.splits conversion_error.splits)
  have "s = pre @ p @ strip_prefix ?t @ post" using s(1) p(1) by (metis append.assoc)
  then show thesis using that [OF _ s(2,3) p(2)] from_chars16_consumed [OF v(1)] v(2) by blast
qed

subsection \<open>Properties\<close>

text \<open>
  The address parser accepts exactly the texts that are, between white space, an optional
  prefix and hexadecimal digits whose value either fits sixteen bits, and is then the upper half
  of the address, or is a 32-bit multiple of 64 KiB, and is then the address itself.
\<close>
theorem address_text_exact:
  "ParseTargetModuleAddress s = Inr a \<longleftrightarrow>
    (\<exists>pre p ds post. s = pre @ p @ ds @ post \<and> list_all is_space pre \<and> list_all is_space post
      \<and> p \<in> {[], ''0x'', ''0X''} \<and> ds \<noteq> [] \<and> list_all is_xdigit ds \<and> xdigits_value ds < 2 ^ 32
      \<and> (if xdigits_value ds < 2 ^ 16 then unat a = xdigits_value ds * 2 ^ 16
         else 2 ^ 16 dvd xdigits_value ds \<and> unat a = xdigits_value ds))" (is "_ \<longleftrightarrow> (\<exists>pre p ds post. ?D pre p ds post)")
proof
  assume a: "ParseTargetModuleAddress s = Inr a"
  then obtain pre p ds post where d: "s = pre @ p @ ds @ post" "list_all is_space pre" "list_all is_space post"
    "p = [] \<or> p = ''0x'' \<or> p = ''0X''" "ds \<noteq> []" "list_all is_xdigit ds" "xdigits_value ds < 2 ^ 32"
    by (rule accepted_digits)
  with a parse_digits_iff [OF d(2-7), of a] have "?D pre p ds post" by simp
  then show "\<exists>pre p ds post. ?D pre p ds post" by blast
next
  assume "\<exists>pre p ds post. ?D pre p ds post"
  then obtain pre p ds post where d: "?D pre p ds post" by blast
  then show "ParseTargetModuleAddress s = Inr a"
    using parse_digits_iff [of pre post p ds a] by auto
qed

text \<open>
  The two spellings of a 64 KiB aligned address name the same module: its full value printed
  with the prefix, and its mvme shorthand printed without, both read back as the address, whatever
  white space surrounds them, and the numeric entry point accepts it unchanged.
\<close>
theorem address_spellings_agree:
  assumes "a AND 0xFFFF = 0" "list_all is_space pre" "list_all is_space post"
  shows "ParseTargetModuleAddress (pre @ ''0x'' @ hexadecimal (unat a) @ post) = Inr a
    \<and> ParseTargetModuleAddress (pre @ hexadecimal (unat (MvmeShorthandValue a)) @ post) = Inr a
    \<and> ParseFullTargetModuleAddress a = Inr a"
proof -
  have dvd: "2 ^ 16 dvd unat a" using assms(1) by (simp only: low_half_zero)
  have top: "unat a < 2 ^ 32" using unsigned_less [of a] by simp
  have small: "unat a div 2 ^ 16 < 2 ^ 16" using top by (simp add: less_mult_imp_div_less)
  have "unat (MvmeShorthandValue a) = take_bit 16 (unat a div 2 ^ 16)"
    by (simp add: MvmeShorthandValue_def unsigned_ucast_eq drop_bit_eq_div unat_div_distrib)
  then have half: "unat (MvmeShorthandValue a) = unat a div 2 ^ 16"
    using small by (simp add: take_bit_nat_eq_self)
  have zero: "unat a = 0" if "unat a < 2 ^ 16" using that dvd by (auto dest: nat_dvd_not_less)
  have full: "ParseTargetModuleAddress (pre @ ''0x'' @ hexadecimal (unat a) @ post) = Inr a"
    using parse_digits_iff [of pre post "''0x''" "hexadecimal (unat a)" a] assms(2,3) hexadecimal_xdigits top zero dvd by simp
  have short: "ParseTargetModuleAddress (pre @ hexadecimal (unat (MvmeShorthandValue a)) @ post) = Inr a"
    using parse_digits_iff [of pre post "[]" "hexadecimal (unat a div 2 ^ 16)" a] assms(2,3) hexadecimal_xdigits small dvd half by simp
  show ?thesis using full short assms(1) by (simp add: ParseFullTargetModuleAddress_def)
qed

theorem address_spellings_agree_witness:
  "ParseTargetModuleAddress ('' '' @ ''0x'' @ hexadecimal (unat (0x12340000 :: u32)) @ []) = Inr 0x12340000
   \<and> ParseTargetModuleAddress ('' '' @ hexadecimal (unat (MvmeShorthandValue 0x12340000)) @ []) = Inr 0x12340000"
  using address_spellings_agree [of "0x12340000" "'' ''" "[]"] by (simp add: is_space_def)

end
