(* ===== verification/Tuner_Target.thy ===== *)
theory Tuner_Target
  imports Controller_Endpoint
begin

text \<open>
  The selected target and what has been verified of it, \<^verbatim>\<open>core/TunerTarget.cpp\<close>: the editable
  input with its validation, the results of the controller and target probes, the freshness
  predicates that tie a probe to the input it was made for, and the facts the presentation may
  show. Result texts and raw readings of the probes, which nothing here reads, are left out.
\<close>

record TunerTargetInput =
  ti_endpointKind :: ControllerEndpointKind
  ti_mvlcHost :: string
  ti_mvlcCommandPort :: u16
  ti_moduleAddress :: string
  ti_sshDestination :: string
  ti_remoteBridgeCommand :: string

record TunerTargetInputValidation =
  tv_success :: bool
  tv_endpointValid :: bool
  tv_moduleAddressValid :: bool
  tv_endpointIssue :: "ControllerEndpointValidationIssue option"
  tv_addressIssue :: "address_error option"
  tv_normalizedModuleAddress :: "u32 option"

definition ControllerEndpointForTarget :: "TunerTargetInput \<Rightarrow> ControllerEndpointRequest" where
  "ControllerEndpointForTarget input = \<lparr>ep_kind = ti_endpointKind input, ep_mvlcHost = ti_mvlcHost input,
     ep_mvlcCommandPort = ti_mvlcCommandPort input, ep_sshDestination = ti_sshDestination input,
     ep_remoteBridgeCommand = ti_remoteBridgeCommand input\<rparr>"

text \<open>The two messages are the issues the two validators report.\<close>

definition ValidateTunerTargetInput :: "TunerTargetInput \<Rightarrow> TunerTargetInputValidation" where
  "ValidateTunerTargetInput input =
    (let endpoint = ValidateControllerEndpoint \<lparr>ep_kind = ti_endpointKind input, ep_mvlcHost = ti_mvlcHost input,
           ep_mvlcCommandPort = ti_mvlcCommandPort input, ep_sshDestination = ti_sshDestination input,
           ep_remoteBridgeCommand = ti_remoteBridgeCommand input\<rparr>;
         address = ParseTargetModuleAddress (ti_moduleAddress input);
         endpointValid = (endpoint = None);
         normalized = (case address of Inl _ \<Rightarrow> None | Inr a \<Rightarrow> Some a)
     in \<lparr>tv_success = endpointValid \<and> normalized \<noteq> None, tv_endpointValid = endpointValid,
          tv_moduleAddressValid = (normalized \<noteq> None), tv_endpointIssue = endpoint,
          tv_addressIssue = (case address of Inl e \<Rightarrow> Some e | Inr _ \<Rightarrow> None),
          tv_normalizedModuleAddress = normalized\<rparr>)"

datatype ControllerProbeOutcome =
    ControllerProbeNotRun | ControllerProbeInProgress | ControllerVerifiedIdle | ControllerProbeDaqActive
  | ControllerProbeWrongIdentity | ControllerProbeWrongFirmware | ControllerProbeTransportUnavailable
  | ControllerProbeTimeout | ControllerProbeMalformedResponse | ControllerProbeCancelled

datatype TargetProbeOutcome =
    TargetProbeNotRun | TargetProbeInProgress | TargetVerifiedIdle | TargetProbeDaqActive
  | TargetProbeAcquisitionActive | TargetProbeWrongMvlcIdentity | TargetProbeWrongMvlcFirmware
  | TargetProbeWrongTargetIdentity | TargetProbeWrongTargetFirmware | TargetProbeTransportUnavailable
  | TargetProbeTimeout | TargetProbeMalformedResponse | TargetProbeCancelled

record ControllerProbeEvidence =
  ce_controllerConnected :: bool
  ce_controllerIdentityAndFirmwareVerified :: bool
  ce_controllerDaqIdleVerified :: bool
  ce_activeControllerUseDetected :: bool
  ce_noControlTaken :: bool
  ce_noVmeOrModuleSettingWritesSent :: bool

record TargetProbeEvidence =
  te_controllerEndpointReached :: bool
  te_supportedControllerTypeAndFirmwareReverified :: bool
  te_controllerDaqIdleReverified :: bool
  te_targetIdentityAndFirmwareVerified :: bool
  te_targetAcquisitionStoppedVerified :: bool
  te_activeControllerUseDetected :: bool
  te_noControlTaken :: bool
  te_noVmeOrModuleSettingWritesSent :: bool

record TunerControllerVerification =
  cv_inProgress :: bool
  cv_invalidated :: bool
  cv_probedEndpoint :: "ControllerEndpointRequest option"
  cv_outcome :: ControllerProbeOutcome
  cv_evidence :: ControllerProbeEvidence

record TunerTargetVerification =
  vf_inProgress :: bool
  vf_invalidated :: bool
  vf_probedInput :: "TunerTargetInput option"
  vf_outcome :: TargetProbeOutcome
  vf_evidence :: TargetProbeEvidence

text \<open>The selection and the session gate of the state, which nothing here reads, are left out.\<close>

record TunerTargetState =
  tt_input :: TunerTargetInput
  tt_controllerVerification :: TunerControllerVerification
  tt_verification :: TunerTargetVerification

subsection \<open>Freshness\<close>

definition ControllerProbeEvidenceIsCurrent :: "TunerTargetState \<Rightarrow> bool" where
  "ControllerProbeEvidenceIsCurrent target =
    (case cv_probedEndpoint (tt_controllerVerification target) of
       None \<Rightarrow> False
     | Some endpoint \<Rightarrow>
         let input = tt_input target in
         \<not> cv_invalidated (tt_controllerVerification target)
         \<and> ep_kind endpoint = ti_endpointKind input
         \<and> ep_mvlcHost endpoint = ti_mvlcHost input
         \<and> ep_mvlcCommandPort endpoint = ti_mvlcCommandPort input
         \<and> ep_sshDestination endpoint = ti_sshDestination input
         \<and> ep_remoteBridgeCommand endpoint = ti_remoteBridgeCommand input
         \<and> cv_outcome (tt_controllerVerification target) \<noteq> ControllerProbeNotRun
         \<and> cv_outcome (tt_controllerVerification target) \<noteq> ControllerProbeInProgress)"

definition ControllerVerificationIsFresh :: "TunerTargetState \<Rightarrow> bool" where
  "ControllerVerificationIsFresh target \<longleftrightarrow>
     ControllerProbeEvidenceIsCurrent target \<and> cv_outcome (tt_controllerVerification target) = ControllerVerifiedIdle"

definition TargetProbeEvidenceIsCurrent :: "TunerTargetState \<Rightarrow> bool" where
  "TargetProbeEvidenceIsCurrent target \<longleftrightarrow>
     \<not> vf_invalidated (tt_verification target)
     \<and> vf_probedInput (tt_verification target) = Some (tt_input target)
     \<and> vf_outcome (tt_verification target) \<noteq> TargetProbeNotRun
     \<and> vf_outcome (tt_verification target) \<noteq> TargetProbeInProgress"

definition TargetVerificationIsFresh :: "TunerTargetState \<Rightarrow> bool" where
  "TargetVerificationIsFresh target =
    (let evidence = vf_evidence (tt_verification target) in
     ControllerVerificationIsFresh target
     \<and> TargetProbeEvidenceIsCurrent target
     \<and> vf_outcome (tt_verification target) = TargetVerifiedIdle
     \<and> te_supportedControllerTypeAndFirmwareReverified evidence
     \<and> te_controllerDaqIdleReverified evidence
     \<and> te_targetIdentityAndFirmwareVerified evidence
     \<and> te_targetAcquisitionStoppedVerified evidence)"

subsection \<open>What the presentation may show\<close>

text \<open>
  The members of \<^verbatim>\<open>TuningSessionEvidence\<close> this component owns; the other members of the struct
  are the record's extension, which the operation carries through.
\<close>

record TuningSessionEvidence =
  currentConnectionRequestValid :: bool
  controllerConnected :: bool
  controllerIdentityVerified :: bool
  controllerVerificationFresh :: bool
  targetIdentityAndFirmwareVerified :: bool
  controllerIdleVerified :: bool
  targetAcquisitionStoppedVerified :: bool
  targetVerificationFresh :: bool
  connectionVerificationFresh :: bool
  activeControllerUseDetected :: bool
  noControlTaken :: bool
  noVmeOrModuleSettingWritesSent :: bool

definition show_controller :: "TunerTargetState \<Rightarrow> 'a TuningSessionEvidence_scheme \<Rightarrow> 'a TuningSessionEvidence_scheme" where
  "show_controller target e =
    (let controller = cv_evidence (tt_controllerVerification target) in
     e\<lparr>controllerConnected := ce_controllerConnected controller,
       controllerIdentityVerified := ce_controllerIdentityAndFirmwareVerified controller,
       controllerIdleVerified := ce_controllerDaqIdleVerified controller,
       controllerVerificationFresh := ControllerVerificationIsFresh target,
       activeControllerUseDetected := ce_activeControllerUseDetected controller,
       noControlTaken := ce_noControlTaken controller,
       noVmeOrModuleSettingWritesSent := ce_noVmeOrModuleSettingWritesSent controller\<rparr>)"

definition show_target :: "TunerTargetState \<Rightarrow> bool \<Rightarrow> 'a TuningSessionEvidence_scheme \<Rightarrow> 'a TuningSessionEvidence_scheme" where
  "show_target target controllerEvidenceCurrent e =
    (let probe = vf_evidence (tt_verification target);
         e = (if controllerEvidenceCurrent then e
              else e\<lparr>controllerConnected := te_controllerEndpointReached probe,
                     controllerIdentityVerified := te_supportedControllerTypeAndFirmwareReverified probe,
                     controllerIdleVerified := te_controllerDaqIdleReverified probe\<rparr>)
     in e\<lparr>targetIdentityAndFirmwareVerified := te_targetIdentityAndFirmwareVerified probe,
          targetAcquisitionStoppedVerified := te_targetAcquisitionStoppedVerified probe,
          targetVerificationFresh := TargetVerificationIsFresh target,
          connectionVerificationFresh := TargetVerificationIsFresh target,
          activeControllerUseDetected := activeControllerUseDetected e \<or> te_activeControllerUseDetected probe,
          noControlTaken := (if controllerEvidenceCurrent then noControlTaken e \<and> te_noControlTaken probe
                             else te_noControlTaken probe),
          noVmeOrModuleSettingWritesSent :=
            (if controllerEvidenceCurrent then noVmeOrModuleSettingWritesSent e \<and> te_noVmeOrModuleSettingWritesSent probe
             else te_noVmeOrModuleSettingWritesSent probe)\<rparr>)"

definition ApplyTargetPresentationEvidence ::
    "TunerTargetState \<Rightarrow> 'a TuningSessionEvidence_scheme \<Rightarrow> 'a TuningSessionEvidence_scheme" where
  "ApplyTargetPresentationEvidence target e =
    (let controllerEvidenceCurrent = ControllerProbeEvidenceIsCurrent target;
         targetEvidenceCurrent = TargetProbeEvidenceIsCurrent target;
         e = e\<lparr>currentConnectionRequestValid := controllerEvidenceCurrent \<or> targetEvidenceCurrent,
               controllerConnected := False, controllerIdentityVerified := False, controllerVerificationFresh := False,
               targetIdentityAndFirmwareVerified := False, controllerIdleVerified := False,
               targetAcquisitionStoppedVerified := False, targetVerificationFresh := False,
               connectionVerificationFresh := False, activeControllerUseDetected := False,
               noControlTaken := False, noVmeOrModuleSettingWritesSent := False\<rparr>;
         e = (if controllerEvidenceCurrent then show_controller target e else e)
     in if \<not> targetEvidenceCurrent then e else show_target target controllerEvidenceCurrent e)"

subsection \<open>Edits\<close>

lemma endpoint_fields_eq:
  "r = ControllerEndpointForTarget i \<longleftrightarrow> ep_kind r = ti_endpointKind i \<and> ep_mvlcHost r = ti_mvlcHost i
     \<and> ep_mvlcCommandPort r = ti_mvlcCommandPort i \<and> ep_sshDestination r = ti_sshDestination i
     \<and> ep_remoteBridgeCommand r = ti_remoteBridgeCommand i"
  by (cases r) (auto simp: ControllerEndpointForTarget_def)

text \<open>Currency of the controller evidence is equality of endpoints, as the target's is of whole inputs.\<close>

lemma controller_current_iff:
  "ControllerProbeEvidenceIsCurrent t \<longleftrightarrow>
     cv_probedEndpoint (tt_controllerVerification t) = Some (ControllerEndpointForTarget (tt_input t))
     \<and> \<not> cv_invalidated (tt_controllerVerification t)
     \<and> cv_outcome (tt_controllerVerification t) \<notin> {ControllerProbeNotRun, ControllerProbeInProgress}"
  by (auto simp: ControllerProbeEvidenceIsCurrent_def Let_def endpoint_fields_eq split: option.splits)

lemma target_fresh_controller: "TargetVerificationIsFresh t \<Longrightarrow> ControllerVerificationIsFresh t"
  by (simp add: TargetVerificationIsFresh_def Let_def)

subsection \<open>Properties\<close>

text \<open>
  An edit of the input keeps a fresh controller verification exactly when it leaves the
  endpoint as it was, and a fresh target verification exactly when it changes nothing: editing
  only the module address keeps what is known of the controller and drops what is known of the
  module, and no verification authorizes a target it was not made for.
\<close>
theorem edits_keep_freshness:
  assumes "TargetVerificationIsFresh t"
  shows "(ControllerVerificationIsFresh (t\<lparr>tt_input := i\<rparr>) \<longleftrightarrow>
       ControllerEndpointForTarget i = ControllerEndpointForTarget (tt_input t))
    \<and> (TargetVerificationIsFresh (t\<lparr>tt_input := i\<rparr>) \<longleftrightarrow> i = tt_input t)
    \<and> ControllerVerificationIsFresh (t\<lparr>tt_input := (tt_input t)\<lparr>ti_moduleAddress := a\<rparr>\<rparr>)"
  using assms
  by (auto simp: ControllerVerificationIsFresh_def TargetVerificationIsFresh_def TargetProbeEvidenceIsCurrent_def
      controller_current_iff ControllerEndpointForTarget_def Let_def)

definition sample_input :: TunerTargetInput where
  "sample_input = \<lparr>ti_endpointKind = DirectEthernet, ti_mvlcHost = ''mvlc-0066'', ti_mvlcCommandPort = 32768,
     ti_moduleAddress = ''0x1234'', ti_sshDestination = [], ti_remoteBridgeCommand = ''fidget_bridge''\<rparr>"

definition sample_checked :: TunerTargetState where
  "sample_checked = \<lparr>tt_input = sample_input,
     tt_controllerVerification = \<lparr>cv_inProgress = False, cv_invalidated = False,
       cv_probedEndpoint = Some (ControllerEndpointForTarget sample_input), cv_outcome = ControllerVerifiedIdle,
       cv_evidence = \<lparr>ce_controllerConnected = True, ce_controllerIdentityAndFirmwareVerified = True,
         ce_controllerDaqIdleVerified = True, ce_activeControllerUseDetected = False, ce_noControlTaken = True,
         ce_noVmeOrModuleSettingWritesSent = True\<rparr>\<rparr>,
     tt_verification = \<lparr>vf_inProgress = False, vf_invalidated = False, vf_probedInput = Some sample_input,
       vf_outcome = TargetVerifiedIdle,
       vf_evidence = \<lparr>te_controllerEndpointReached = True, te_supportedControllerTypeAndFirmwareReverified = True,
         te_controllerDaqIdleReverified = True, te_targetIdentityAndFirmwareVerified = True,
         te_targetAcquisitionStoppedVerified = True, te_activeControllerUseDetected = False, te_noControlTaken = True,
         te_noVmeOrModuleSettingWritesSent = True\<rparr>\<rparr>\<rparr>"

theorem edits_keep_freshness_witness:
  "\<not> TargetVerificationIsFresh (sample_checked\<lparr>tt_input := sample_input\<lparr>ti_moduleAddress := ''0x1235''\<rparr>\<rparr>)
   \<and> ControllerVerificationIsFresh (sample_checked\<lparr>tt_input := sample_input\<lparr>ti_moduleAddress := ''0x1235''\<rparr>\<rparr>)"
proof -
  have "TargetVerificationIsFresh sample_checked"
    by (simp add: TargetVerificationIsFresh_def ControllerVerificationIsFresh_def TargetProbeEvidenceIsCurrent_def
        controller_current_iff sample_checked_def)
  note edits_keep_freshness [OF this, of "sample_input\<lparr>ti_moduleAddress := ''0x1235''\<rparr>" "''0x1235''"]
  moreover have "tt_input sample_checked = sample_input" by (simp add: sample_checked_def)
  moreover have "sample_input\<lparr>ti_moduleAddress := ''0x1235''\<rparr> \<noteq> sample_input" by (simp add: sample_input_def)
  ultimately show ?thesis by (simp add: ControllerEndpointForTarget_def)
qed

text \<open>
  Every positive fact shown of the target comes from a probe of the present input: a target
  shown as freshly verified is an idle controller and a stopped, identified module of exactly this
  input; without current evidence nothing is shown; a claim that nothing was taken or written is
  made by every probe that is current; and detected use is never hidden.
\<close>
theorem presentation_evidence_exact:
  "(targetVerificationFresh (ApplyTargetPresentationEvidence t e) \<longleftrightarrow> TargetVerificationIsFresh t)
   \<and> (controllerVerificationFresh (ApplyTargetPresentationEvidence t e) \<longleftrightarrow> ControllerVerificationIsFresh t)
   \<and> (targetAcquisitionStoppedVerified (ApplyTargetPresentationEvidence t e) \<longleftrightarrow>
        TargetProbeEvidenceIsCurrent t \<and> te_targetAcquisitionStoppedVerified (vf_evidence (tt_verification t)))
   \<and> (noVmeOrModuleSettingWritesSent (ApplyTargetPresentationEvidence t e) \<longleftrightarrow>
        currentConnectionRequestValid (ApplyTargetPresentationEvidence t e)
        \<and> (if ControllerProbeEvidenceIsCurrent t then ce_noVmeOrModuleSettingWritesSent (cv_evidence (tt_controllerVerification t)) else True)
        \<and> (if TargetProbeEvidenceIsCurrent t then te_noVmeOrModuleSettingWritesSent (vf_evidence (tt_verification t)) else True))
   \<and> (activeControllerUseDetected (ApplyTargetPresentationEvidence t e) \<longleftrightarrow>
        ControllerProbeEvidenceIsCurrent t \<and> ce_activeControllerUseDetected (cv_evidence (tt_controllerVerification t))
        \<or> TargetProbeEvidenceIsCurrent t \<and> te_activeControllerUseDetected (vf_evidence (tt_verification t)))
   \<and> (currentConnectionRequestValid (ApplyTargetPresentationEvidence t e) \<longleftrightarrow>
        ControllerProbeEvidenceIsCurrent t \<or> TargetProbeEvidenceIsCurrent t)
   \<and> TuningSessionEvidence.more (ApplyTargetPresentationEvidence t e) = TuningSessionEvidence.more e"
  by (cases "ControllerProbeEvidenceIsCurrent t"; cases "TargetProbeEvidenceIsCurrent t")
    (simp_all add: ApplyTargetPresentationEvidence_def show_controller_def show_target_def Let_def
      TargetVerificationIsFresh_def ControllerVerificationIsFresh_def)

end
