(* ===== verification/Recovery_Journal.thy ===== *)
theory Recovery_Journal
  imports Controller_Endpoint Scp_Profile_Text
begin

text \<open>
  The recovery record of \<^verbatim>\<open>core/RecoveryJournal.h\<close> and the text format of its versions one to
  four, \<^verbatim>\<open>core/RecoveryJournal.cpp\<close>: checksum, validation, writer and parser. The token readers
  of this file are those of the profile text up to the wording of their messages, which are
  constructors here. Version five is in \<open>Recovery_Journal_V5\<close>, the files in \<open>Journal_Store\<close>.
\<close>

subsection \<open>Records\<close>

definition TunerRecoveryJournalFormatVersion :: u32 where "TunerRecoveryJournalFormatVersion = 4"
definition TunerRecoveryJournalV5FormatVersion :: u32 where "TunerRecoveryJournalV5FormatVersion = 5"
definition TunerRecoveryV5MaximumDeviationCount :: nat where "TunerRecoveryV5MaximumDeviationCount = 1024"

text \<open>
  The enums whose underlying type is \<^verbatim>\<open>std::uint16_t\<close> are read from files by a cast: a phase is
  its number. The session phase has a constructor for every other value of its type.
\<close>

type_synonym TunerRecoveryPhase = u16

definition PhasePrepared :: TunerRecoveryPhase where "PhasePrepared = 1"
definition PhaseActive :: TunerRecoveryPhase where "PhaseActive = 2"

datatype TuningSessionPhase =
    Home | Preparing | Goal | Group | AutomaticLearnSignal | AutomaticEnergy | AutomaticTiming | Manual
  | GroupResult | Restoring | NextGroup | Finished | UnnamedPhase int

record TunerRecoveryV5IdentityEvidence =
  id_mvlcHardwareId :: u32
  id_mvlcFirmwareRevision :: u32
  id_targetBaseAddress :: u32
  id_targetHardwareId :: u16
  id_targetFirmwareRevision :: u16

record TunerRecoveryV5OwnershipEvidence =
  own_stackTriggerRegister :: u16
  own_stackTriggerValue :: u32
  own_stackOffsetRegister :: u16
  own_stackOffsetValue :: u32
  own_ownershipTokenRegister :: u16
  own_ownershipTokenValue :: u32
  own_isolatedModuleBaseAddresses :: "u32 list"

datatype TunerRecoveryDeviationScope = GlobalScope | QuadScope | UnnamedScope u16

record TunerRecoveryV5Deviation =
  dv_ordinal :: u32
  dv_scope :: TunerRecoveryDeviationScope
  dv_quad :: "u16 option"
  dv_registerOffset :: u16
  dv_originalSessionValue :: u16
  dv_previousVerifiedWorkingValue :: u16
  dv_requestedNextValue :: u16
  dv_transitionPhase :: TuningSessionPhase

record TunerRecoveryV5Data =
  v5_sessionPhase :: TuningSessionPhase
  v5_endpoint :: ControllerEndpointRequest
  v5_identity :: TunerRecoveryV5IdentityEvidence
  v5_selectorParkingRequired :: bool
  v5_ownership :: "TunerRecoveryV5OwnershipEvidence option"
  v5_liveRestoreSnapshot :: "Fw2051ScpConfigurationSnapshot option"
  v5_deviations :: "TunerRecoveryV5Deviation list"

record TunerRecoveryRecord =
  rec_formatVersion :: u32
  rec_phase :: TunerRecoveryPhase
  rec_host :: string
  rec_commandPort :: u16
  rec_mvlcHardwareId :: u32
  rec_mvlcFirmwareRevision :: u32
  rec_mdppBaseAddress :: u32
  rec_mdppHardwareId :: u16
  rec_mdppIrqLevel :: u16
  rec_mdppOutputFormat :: u16
  rec_stackTriggerRegister :: u16
  rec_stackTriggerValue :: u32
  rec_stackOffsetRegister :: u16
  rec_stackOffsetValue :: u32
  rec_ownershipTokenRegister :: u16
  rec_ownershipTokenValue :: u32
  rec_isolatedModuleBaseAddresses :: "u32 list"
  rec_sourceRestoreRequired :: bool
  rec_sourceQuad :: u16
  rec_sourceOriginalConfiguration :: u16
  rec_sourceAppliedConfigurationAvailable :: bool
  rec_sourceAppliedConfiguration :: u16
  rec_previewRestoreRequired :: bool
  rec_previewQuad :: u16
  rec_previewRegisterOffset :: u16
  rec_previewOriginalValue :: u16
  rec_previewAppliedValue :: u16
  rec_version5 :: "TunerRecoveryV5Data option"

definition default_record :: TunerRecoveryRecord where
  "default_record = \<lparr>rec_formatVersion = TunerRecoveryJournalFormatVersion, rec_phase = PhasePrepared, rec_host = [],
     rec_commandPort = 32768, rec_mvlcHardwareId = 0, rec_mvlcFirmwareRevision = 0, rec_mdppBaseAddress = 0,
     rec_mdppHardwareId = 0, rec_mdppIrqLevel = 0, rec_mdppOutputFormat = 0, rec_stackTriggerRegister = 0,
     rec_stackTriggerValue = 0, rec_stackOffsetRegister = 0, rec_stackOffsetValue = 0, rec_ownershipTokenRegister = 0,
     rec_ownershipTokenValue = 0, rec_isolatedModuleBaseAddresses = [], rec_sourceRestoreRequired = False,
     rec_sourceQuad = 0, rec_sourceOriginalConfiguration = 0, rec_sourceAppliedConfigurationAvailable = False,
     rec_sourceAppliedConfiguration = 0, rec_previewRestoreRequired = False, rec_previewQuad = 0,
     rec_previewRegisterOffset = 0, rec_previewOriginalValue = 0, rec_previewAppliedValue = 0, rec_version5 = None\<rparr>"

subsection \<open>Checksum\<close>

definition HashByte :: "u64 \<Rightarrow> u8 \<Rightarrow> u64" where
  "HashByte hash v = (hash XOR ucast v) * FnvPrime"

definition HashText :: "u64 \<Rightarrow> string \<Rightarrow> u64" where
  "HashText hash v = foldl HashByte (HashValue hash (word_of_nat (length v))) (map of_char v)"

definition flag :: "bool \<Rightarrow> u32" where
  "flag b = (if b then 1 else 0)"

definition RecordChecksum :: "TunerRecoveryRecord \<Rightarrow> u64" where
  "RecordChecksum record =
    (let version = rec_formatVersion record;
         hash = foldl HashValue FnvOffsetBasis [version, ucast (rec_phase record)];
         hash = HashText hash (rec_host record);
         hash = foldl HashValue hash
           [ucast (rec_commandPort record), rec_mvlcHardwareId record, rec_mvlcFirmwareRevision record,
            rec_mdppBaseAddress record, ucast (rec_mdppHardwareId record), ucast (rec_mdppIrqLevel record),
            ucast (rec_mdppOutputFormat record), ucast (rec_stackTriggerRegister record), rec_stackTriggerValue record,
            ucast (rec_stackOffsetRegister record), rec_stackOffsetValue record,
            ucast (rec_ownershipTokenRegister record), rec_ownershipTokenValue record];
         hash = (if version \<ge> 2
                 then foldl HashValue (HashValue hash (word_of_nat (length (rec_isolatedModuleBaseAddresses record))))
                        (rec_isolatedModuleBaseAddresses record)
                 else hash);
         hash = (if version \<ge> 3
                 then foldl HashValue hash [flag (rec_sourceRestoreRequired record), ucast (rec_sourceQuad record),
                        ucast (rec_sourceOriginalConfiguration record)]
                 else hash);
         hash = (if version \<ge> 4 then HashValue hash (ucast (rec_sourceAppliedConfiguration record)) else hash)
     in foldl HashValue hash [flag (rec_previewRestoreRequired record), ucast (rec_previewQuad record),
          ucast (rec_previewRegisterOffset record), ucast (rec_previewOriginalValue record),
          ucast (rec_previewAppliedValue record)])"

subsection \<open>Validation\<close>

datatype record_error =
    UnsupportedRecordVersion | InvalidRecoveryPhase | InvalidMvlcEndpoint | NotAnMvlc | InvalidMdppIdentity
  | IncompleteFingerprint | LegacyIsolatedModules | TooManyIsolatedModules | InvalidIsolatedAddress
  | DuplicateIsolatedAddress | InvalidPreviewRecord | InvalidSourceRecord | LegacyAppliedConfiguration
  | SourceLacksApplied | AppliedInconsistent | InactiveSourceApplied

definition ValidHost :: "string \<Rightarrow> bool" where
  "ValidHost host \<longleftrightarrow> \<not> (host = [] \<or> length host > 255)
     \<and> list_all (\<lambda>c. \<not> ((of_char c :: nat) \<le> 0x20 \<or> (of_char c :: nat) = 0x7F)) host"

text \<open>The loop over the isolated modules, with the addresses before the present one.\<close>

fun check_isolated :: "u32 \<Rightarrow> u32 list \<Rightarrow> u32 list \<Rightarrow> record_error option" where
  "check_isolated target earlier [] = None"
| "check_isolated target earlier (address # rest) =
    (if address = 0 \<or> address AND 0xFFFF \<noteq> 0 \<or> address = target then Some InvalidIsolatedAddress
     else if address \<in> set earlier then Some DuplicateIsolatedAddress
     else check_isolated target (earlier @ [address]) rest)"

definition ValidateRecord :: "TunerRecoveryRecord \<Rightarrow> record_error option" where
  "ValidateRecord record =
    (if rec_formatVersion record < 1 \<or> rec_formatVersion record > TunerRecoveryJournalFormatVersion
     then Some UnsupportedRecordVersion
     else if rec_phase record \<noteq> PhasePrepared \<and> rec_phase record \<noteq> PhaseActive then Some InvalidRecoveryPhase
     else if \<not> ValidHost (rec_host record) \<or> rec_commandPort record = 0 then Some InvalidMvlcEndpoint
     else if rec_mvlcHardwareId record \<noteq> 0x5008 then Some NotAnMvlc
     else if rec_mdppBaseAddress record = 0 \<or> rec_mdppBaseAddress record AND 0xFFFF \<noteq> 0
       \<or> rec_mdppHardwareId record \<noteq> 0x5007 \<and> rec_mdppHardwareId record \<noteq> 0x500C then Some InvalidMdppIdentity
     else if rec_mdppIrqLevel record < 1 \<or> rec_mdppIrqLevel record > 6
       \<or> rec_stackTriggerRegister record = 0 \<or> rec_stackOffsetRegister record = 0
       \<or> rec_ownershipTokenRegister record = 0 \<or> rec_ownershipTokenValue record = 0 then Some IncompleteFingerprint
     else if rec_formatVersion record = 1 \<and> rec_isolatedModuleBaseAddresses record \<noteq> [] then Some LegacyIsolatedModules
     else if length (rec_isolatedModuleBaseAddresses record) > 15 then Some TooManyIsolatedModules
     else case check_isolated (rec_mdppBaseAddress record) [] (rec_isolatedModuleBaseAddresses record) of
       Some e \<Rightarrow> Some e
     | None \<Rightarrow>
       if rec_previewRestoreRequired record \<and> (rec_previewQuad record > 7 \<or> rec_previewRegisterOffset record = 0)
       then Some InvalidPreviewRecord
       else if rec_sourceRestoreRequired record \<and> rec_sourceQuad record > 7 then Some InvalidSourceRecord
       else if rec_formatVersion record < 4 \<and> rec_sourceAppliedConfigurationAvailable record
       then Some LegacyAppliedConfiguration
       else if rec_formatVersion record \<ge> 4 \<and> rec_sourceRestoreRequired record
         \<and> \<not> rec_sourceAppliedConfigurationAvailable record then Some SourceLacksApplied
       else if rec_sourceAppliedConfigurationAvailable record
         \<and> (rec_sourceAppliedConfiguration record = rec_sourceOriginalConfiguration record
            \<or> (rec_sourceAppliedConfiguration record XOR rec_sourceOriginalConfiguration record) AND 0xFFFC \<noteq> 0)
       then Some AppliedInconsistent
       else if \<not> rec_sourceRestoreRequired record \<and> rec_sourceAppliedConfigurationAvailable record
       then Some InactiveSourceApplied
       else None)"

subsection \<open>Writer\<close>

definition JournalMagic :: string where
  "JournalMagic = ''MWW_TUNER_RECOVERY''"

definition put_word :: "string \<Rightarrow> string" where
  "put_word t = CHR '' '' # t"

definition put_size :: "nat \<Rightarrow> string" where
  "put_size n = CHR '' '' # decimal n"

definition put_flag :: "bool \<Rightarrow> string" where
  "put_flag b = CHR '' '' # (if b then ''1'' else ''0'')"

definition journal_text :: "TunerRecoveryRecord \<Rightarrow> u64 \<Rightarrow> string" where
  "journal_text record checksum =
     JournalMagic @ put_number (rec_formatVersion record) @ newline
   @ ''ENDPOINT'' @ put_word (rec_host record) @ put_number (rec_commandPort record) @ newline
   @ ''MVLC'' @ put_number (rec_mvlcHardwareId record) @ put_number (rec_mvlcFirmwareRevision record) @ newline
   @ ''MDPP'' @ put_number (rec_mdppBaseAddress record) @ put_number (rec_mdppHardwareId record)
   @ put_number (rec_mdppIrqLevel record) @ put_number (rec_mdppOutputFormat record) @ newline
   @ (if rec_formatVersion record \<ge> 2
      then ''ISOLATED'' @ put_size (length (rec_isolatedModuleBaseAddresses record))
         @ concat (map put_number (rec_isolatedModuleBaseAddresses record)) @ newline
      else [])
   @ ''STACK'' @ put_number (rec_stackTriggerRegister record) @ put_number (rec_stackTriggerValue record)
   @ put_number (rec_stackOffsetRegister record) @ put_number (rec_stackOffsetValue record)
   @ put_number (rec_ownershipTokenRegister record) @ put_number (rec_ownershipTokenValue record) @ newline
   @ (if rec_formatVersion record \<ge> 3
      then ''SOURCE'' @ put_flag (rec_sourceRestoreRequired record) @ put_number (rec_sourceQuad record)
         @ put_number (rec_sourceOriginalConfiguration record)
         @ (if rec_formatVersion record \<ge> 4 then put_number (rec_sourceAppliedConfiguration record) else []) @ newline
      else [])
   @ ''STATE'' @ put_number (rec_phase record) @ put_flag (rec_previewRestoreRequired record)
   @ put_number (rec_previewQuad record) @ put_number (rec_previewRegisterOffset record)
   @ put_number (rec_previewOriginalValue record) @ put_number (rec_previewAppliedValue record) @ newline
   @ ''CHECKSUM'' @ put_number checksum @ newline
   @ ''END'' @ newline"

definition WriteRecord :: "TunerRecoveryRecord \<Rightarrow> string" where
  "WriteRecord record = journal_text record (RecordChecksum record)"

datatype journal_error =
    JournalToken token_error
  | MalformedJournal
  | TooManyListedModules
  | TrailingJournalData
  | InvalidSourceState
  | InvalidPreviewState
  | InvalidRecord record_error
  | JournalChecksumMismatch
  | LegacyWithV5Evidence

text \<open>The writer of versions one to four, after the branch for version five.\<close>

definition SerializeLegacyJournal :: "TunerRecoveryRecord \<Rightarrow> journal_error + string" where
  "SerializeLegacyJournal record =
    (if rec_version5 record \<noteq> None then Inl LegacyWithV5Evidence
     else case ValidateRecord record of
       Some e \<Rightarrow> Inl (InvalidRecord e)
     | None \<Rightarrow> Inr (WriteRecord record))"

subsection \<open>Parser\<close>

definition read_step :: "token_error + 'a \<Rightarrow> ('a \<Rightarrow> journal_error + 'b) \<Rightarrow> journal_error + 'b" where
  "read_step m f = bindE (map_sum JournalToken id m) f"

fun ReadAddresses :: "nat \<Rightarrow> string \<Rightarrow> string \<Rightarrow> token_error + u32 list \<times> string" where
  "ReadAddresses 0 field input = Inr ([], input)"
| "ReadAddresses (Suc n) field input =
    bindE (ReadU32 field input) (\<lambda>(v, input). bindE (ReadAddresses n field input) (\<lambda>(vs, input). Inr (v # vs, input)))"

text \<open>The sections of the text in turn, each with the record read so far.\<close>

definition parse_identity :: "string \<Rightarrow> journal_error + TunerRecoveryRecord \<times> string" where
  "parse_identity text =
    (case read_token text of
       None \<Rightarrow> Inl MalformedJournal
     | Some (magic, input) \<Rightarrow>
    if magic \<noteq> JournalMagic then Inl MalformedJournal else
    read_step (ReadU32 ''format version'' input) (\<lambda>(version, input).
    read_step (ExpectToken ''ENDPOINT'' input) (\<lambda>input.
    case read_token input of
      None \<Rightarrow> Inl MalformedJournal
    | Some (host, input) \<Rightarrow>
    read_step (ReadU16 ''command port'' input) (\<lambda>(port, input).
    read_step (ExpectToken ''MVLC'' input) (\<lambda>input.
    read_step (ReadU32 ''MVLC hardware ID'' input) (\<lambda>(mvlc, input).
    read_step (ReadU32 ''MVLC firmware'' input) (\<lambda>(firmware, input).
    read_step (ExpectToken ''MDPP'' input) (\<lambda>input.
    read_step (ReadU32 ''MDPP base'' input) (\<lambda>(base, input).
    read_step (ReadU16 ''MDPP hardware ID'' input) (\<lambda>(hardware, input).
    read_step (ReadU16 ''MDPP IRQ'' input) (\<lambda>(irq, input).
    read_step (ReadU16 ''MDPP output'' input) (\<lambda>(output, input).
    Inr (default_record\<lparr>rec_formatVersion := version, rec_host := host, rec_commandPort := port,
      rec_mvlcHardwareId := mvlc, rec_mvlcFirmwareRevision := firmware, rec_mdppBaseAddress := base,
      rec_mdppHardwareId := hardware, rec_mdppIrqLevel := irq, rec_mdppOutputFormat := output\<rparr>, input)))))))))))))"

definition parse_isolated :: "TunerRecoveryRecord \<Rightarrow> string \<Rightarrow> journal_error + TunerRecoveryRecord \<times> string" where
  "parse_isolated record input =
    (if rec_formatVersion record \<ge> 2
     then read_step (ExpectToken ''ISOLATED'' input) (\<lambda>input.
       read_step (ReadU16 ''isolated module count'' input) (\<lambda>(count, input).
       if count > 15 then Inl TooManyListedModules else
       read_step (ReadAddresses (unat count) ''isolated module base'' input) (\<lambda>(addresses, input).
       Inr (record\<lparr>rec_isolatedModuleBaseAddresses := addresses\<rparr>, input))))
     else Inr (record, input))"

definition parse_stack :: "TunerRecoveryRecord \<Rightarrow> string \<Rightarrow> journal_error + TunerRecoveryRecord \<times> string" where
  "parse_stack record input =
    read_step (ExpectToken ''STACK'' input) (\<lambda>input.
    read_step (ReadU16 ''stack trigger register'' input) (\<lambda>(triggerRegister, input).
    read_step (ReadU32 ''stack trigger value'' input) (\<lambda>(triggerValue, input).
    read_step (ReadU16 ''stack offset register'' input) (\<lambda>(offsetRegister, input).
    read_step (ReadU32 ''stack offset value'' input) (\<lambda>(offsetValue, input).
    read_step (ReadU16 ''ownership token register'' input) (\<lambda>(tokenRegister, input).
    read_step (ReadU32 ''ownership token value'' input) (\<lambda>(tokenValue, input).
    Inr (record\<lparr>rec_stackTriggerRegister := triggerRegister, rec_stackTriggerValue := triggerValue,
      rec_stackOffsetRegister := offsetRegister, rec_stackOffsetValue := offsetValue,
      rec_ownershipTokenRegister := tokenRegister, rec_ownershipTokenValue := tokenValue\<rparr>, input))))))))"

definition parse_source :: "TunerRecoveryRecord \<Rightarrow> string \<Rightarrow> journal_error + (TunerRecoveryRecord \<times> u16) \<times> string" where
  "parse_source record input =
    (if rec_formatVersion record \<ge> 3
     then read_step (ExpectToken ''SOURCE'' input) (\<lambda>input.
       read_step (ReadU16 ''source state'' input) (\<lambda>(required, input).
       read_step (ReadU16 ''source quad'' input) (\<lambda>(sourceQuad, input).
       read_step (ReadU16 ''source original configuration'' input) (\<lambda>(original, input).
       read_step (if rec_formatVersion record \<ge> 4 then ReadU16 ''source applied configuration'' input
                  else Inr (rec_sourceAppliedConfiguration record, input)) (\<lambda>(applied, input).
       Inr ((record\<lparr>rec_sourceQuad := sourceQuad, rec_sourceOriginalConfiguration := original,
         rec_sourceAppliedConfiguration := applied\<rparr>, required), input))))))
     else Inr ((record, 0), input))"

definition parse_state :: "TunerRecoveryRecord \<Rightarrow> string \<Rightarrow> journal_error + (TunerRecoveryRecord \<times> u16 \<times> u64) \<times> string" where
  "parse_state record input =
    read_step (ExpectToken ''STATE'' input) (\<lambda>input.
    read_step (ReadU16 ''recovery phase'' input) (\<lambda>(phase, input).
    read_step (ReadU16 ''preview state'' input) (\<lambda>(required, input).
    read_step (ReadU16 ''preview quad'' input) (\<lambda>(previewQuad, input).
    read_step (ReadU16 ''preview register'' input) (\<lambda>(registerOffset, input).
    read_step (ReadU16 ''preview original'' input) (\<lambda>(original, input).
    read_step (ReadU16 ''preview applied'' input) (\<lambda>(applied, input).
    read_step (ExpectToken ''CHECKSUM'' input) (\<lambda>input.
    read_step (ReadU64 ''checksum'' input) (\<lambda>(checksum, input).
    read_step (ExpectToken ''END'' input) (\<lambda>input.
    Inr ((record\<lparr>rec_phase := phase, rec_previewQuad := previewQuad, rec_previewRegisterOffset := registerOffset,
      rec_previewOriginalValue := original, rec_previewAppliedValue := applied\<rparr>, required, checksum), input)))))))))))"

definition accept_record :: "TunerRecoveryRecord \<Rightarrow> u16 \<Rightarrow> u16 \<Rightarrow> u64 \<Rightarrow> journal_error + TunerRecoveryRecord" where
  "accept_record record sourceRequired previewRequired checksum =
    (if sourceRequired > 1 then Inl InvalidSourceState else
     let record = record\<lparr>rec_sourceRestoreRequired := (sourceRequired = 1),
           rec_sourceAppliedConfigurationAvailable := (rec_formatVersion record \<ge> 4 \<and> sourceRequired = 1)\<rparr> in
     if previewRequired > 1 then Inl InvalidPreviewState else
     let record = record\<lparr>rec_previewRestoreRequired := (previewRequired = 1)\<rparr> in
     case ValidateRecord record of
       Some e \<Rightarrow> Inl (InvalidRecord e)
     | None \<Rightarrow> if checksum \<noteq> RecordChecksum record then Inl JournalChecksumMismatch else Inr record)"

definition ParseLegacyJournal :: "string \<Rightarrow> journal_error + TunerRecoveryRecord" where
  "ParseLegacyJournal text =
    bindE (parse_identity text) (\<lambda>(record, input).
    if rec_formatVersion record < 1 \<or> rec_formatVersion record > TunerRecoveryJournalFormatVersion
    then Inl (InvalidRecord UnsupportedRecordVersion) else
    bindE (parse_isolated record input) (\<lambda>(record, input).
    bindE (parse_stack record input) (\<lambda>(record, input).
    bindE (parse_source record input) (\<lambda>((record, sourceRequired), input).
    bindE (parse_state record input) (\<lambda>((record, previewRequired, checksum), input).
    case read_token input of
      Some _ \<Rightarrow> Inl TrailingJournalData
    | None \<Rightarrow> accept_record record sourceRequired previewRequired checksum)))))"

subsection \<open>What is written reads back\<close>

lemma JournalMagic_word [simp]: "is_word JournalMagic"
  by (simp add: JournalMagic_def is_word_def is_space_def)

lemma journal_words [simp]:
  "is_word ''ENDPOINT''" "is_word ''MVLC''" "is_word ''MDPP''" "is_word ''ISOLATED''" "is_word ''STACK''"
  "is_word ''SOURCE''" "is_word ''STATE''"
  by (simp_all add: is_word_def is_space_def)

lemma ValidHost_opaque: "ValidHost host \<longleftrightarrow> IsSingleOpaqueArgument host 255"
  by (auto simp: ValidHost_def IsSingleOpaqueArgument_def opaque_char_def list_all_iff)

lemma read_step_simps [simp]: "read_step (Inr a) f = f a" "read_step (Inl e) f = Inl (JournalToken e)"
  by (simp_all add: read_step_def)

lemma spaced_more [simp]: "spaced (put_word t @ s)" "spaced (put_size n @ s)" "spaced (put_flag b @ s)"
  by (auto simp: spaced_def put_word_def put_size_def put_flag_def is_space_def)

lemma read_token_spaced: "is_word t \<Longrightarrow> spaced s \<Longrightarrow> read_token (t @ s) = Some (t, s)"
  by (auto simp: spaced_def read_token_word)

lemma read_put_word: "is_word t \<Longrightarrow> spaced s \<Longrightarrow> read_token (put_word t @ s) = Some (t, s)"
  by (auto simp: spaced_def put_word_def read_token_word read_token_space is_space_def)

lemma put_size_number: "n < 2 ^ 16 \<Longrightarrow> put_size n = put_number (word_of_nat n :: u16)"
  by (simp add: put_size_def put_number_def unat_of_nat)

lemma decimal_bit: "decimal 0 = ''0''" "decimal (Suc 0) = ''1''"
  by code_simp+

lemma put_flag_number: "put_flag b = put_number (if b then 1 else 0 :: u16)"
  by (simp add: put_flag_def put_number_def decimal_bit)

lemma ReadAddresses_numbers [simp]:
  "spaced s \<Longrightarrow> length vs = n \<Longrightarrow> ReadAddresses n f (concat (map put_number vs) @ s) = Inr (vs, s)"
proof (induction n arbitrary: vs)
  case (Suc n)
  then show ?case by (cases vs) simp_all
qed simp

text \<open>The sections of the text, to read it section by section.\<close>

definition identity_text :: "TunerRecoveryRecord \<Rightarrow> string" where
  "identity_text r = JournalMagic @ put_number (rec_formatVersion r) @ newline
   @ ''ENDPOINT'' @ put_word (rec_host r) @ put_number (rec_commandPort r) @ newline
   @ ''MVLC'' @ put_number (rec_mvlcHardwareId r) @ put_number (rec_mvlcFirmwareRevision r) @ newline
   @ ''MDPP'' @ put_number (rec_mdppBaseAddress r) @ put_number (rec_mdppHardwareId r)
   @ put_number (rec_mdppIrqLevel r) @ put_number (rec_mdppOutputFormat r)"

definition isolated_text :: "TunerRecoveryRecord \<Rightarrow> string" where
  "isolated_text r = (if rec_formatVersion r \<ge> 2
      then ''ISOLATED'' @ put_size (length (rec_isolatedModuleBaseAddresses r))
         @ concat (map put_number (rec_isolatedModuleBaseAddresses r)) @ newline
      else [])"

definition stack_text :: "TunerRecoveryRecord \<Rightarrow> string" where
  "stack_text r = ''STACK'' @ put_number (rec_stackTriggerRegister r) @ put_number (rec_stackTriggerValue r)
   @ put_number (rec_stackOffsetRegister r) @ put_number (rec_stackOffsetValue r)
   @ put_number (rec_ownershipTokenRegister r) @ put_number (rec_ownershipTokenValue r)"

definition source_text :: "TunerRecoveryRecord \<Rightarrow> string" where
  "source_text r = (if rec_formatVersion r \<ge> 3
      then ''SOURCE'' @ put_flag (rec_sourceRestoreRequired r) @ put_number (rec_sourceQuad r)
         @ put_number (rec_sourceOriginalConfiguration r)
         @ (if rec_formatVersion r \<ge> 4 then put_number (rec_sourceAppliedConfiguration r) else []) @ newline
      else [])"

definition state_text :: "TunerRecoveryRecord \<Rightarrow> u64 \<Rightarrow> string" where
  "state_text r checksum = ''STATE'' @ put_number (rec_phase r) @ put_flag (rec_previewRestoreRequired r)
   @ put_number (rec_previewQuad r) @ put_number (rec_previewRegisterOffset r)
   @ put_number (rec_previewOriginalValue r) @ put_number (rec_previewAppliedValue r) @ newline
   @ ''CHECKSUM'' @ put_number checksum @ newline @ ''END''"

lemma journal_sections:
  "journal_text r c = identity_text r @ newline @ isolated_text r @ stack_text r @ newline @ source_text r @ state_text r c @ newline"
  by (simp add: journal_text_def identity_text_def isolated_text_def stack_text_def source_text_def state_text_def)

lemma read_identity_text:
  assumes "is_word (rec_host r)"
  shows "parse_identity (identity_text r @ newline @ s) = Inr (default_record\<lparr>rec_formatVersion := rec_formatVersion r,
     rec_host := rec_host r, rec_commandPort := rec_commandPort r, rec_mvlcHardwareId := rec_mvlcHardwareId r,
     rec_mvlcFirmwareRevision := rec_mvlcFirmwareRevision r, rec_mdppBaseAddress := rec_mdppBaseAddress r,
     rec_mdppHardwareId := rec_mdppHardwareId r, rec_mdppIrqLevel := rec_mdppIrqLevel r,
     rec_mdppOutputFormat := rec_mdppOutputFormat r\<rparr>, newline @ s)"
  using assms
  by (simp add: parse_identity_def identity_text_def read_token_spaced read_put_word ExpectToken_newline del: append_Cons)

lemma read_isolated_text:
  assumes "rec_formatVersion q = rec_formatVersion r" "length (rec_isolatedModuleBaseAddresses r) \<le> 15"
  shows "parse_isolated q (newline @ isolated_text r @ s) =
    Inr (if rec_formatVersion r \<ge> 2 then q\<lparr>rec_isolatedModuleBaseAddresses := rec_isolatedModuleBaseAddresses r\<rparr> else q, newline @ s)"
proof -
  have n: "put_size (length (rec_isolatedModuleBaseAddresses r)) = put_number (word_of_nat (length (rec_isolatedModuleBaseAddresses r)) :: u16)"
    "unat (word_of_nat (length (rec_isolatedModuleBaseAddresses r)) :: u16) = length (rec_isolatedModuleBaseAddresses r)"
    "\<not> (word_of_nat (length (rec_isolatedModuleBaseAddresses r)) :: u16) > 15"
    using assms(2) by (simp_all add: put_size_number unat_of_nat word_less_nat_alt)
  show ?thesis using assms(1) n
    by (simp add: parse_isolated_def isolated_text_def ExpectToken_newline del: append_Cons)
qed

lemma read_stack_text:
  "parse_stack q (newline @ stack_text r @ newline @ s) = Inr (q\<lparr>rec_stackTriggerRegister := rec_stackTriggerRegister r,
     rec_stackTriggerValue := rec_stackTriggerValue r, rec_stackOffsetRegister := rec_stackOffsetRegister r,
     rec_stackOffsetValue := rec_stackOffsetValue r, rec_ownershipTokenRegister := rec_ownershipTokenRegister r,
     rec_ownershipTokenValue := rec_ownershipTokenValue r\<rparr>, newline @ s)"
  by (simp add: parse_stack_def stack_text_def ExpectToken_newline del: append_Cons)

lemma read_source_text:
  assumes "rec_formatVersion q = rec_formatVersion r"
  shows "parse_source q (newline @ source_text r @ s) =
    Inr ((if rec_formatVersion r \<ge> 3
          then q\<lparr>rec_sourceQuad := rec_sourceQuad r, rec_sourceOriginalConfiguration := rec_sourceOriginalConfiguration r,
                 rec_sourceAppliedConfiguration := (if rec_formatVersion r \<ge> 4 then rec_sourceAppliedConfiguration r
                   else rec_sourceAppliedConfiguration q)\<rparr> else q,
          if rec_formatVersion r \<ge> 3 \<and> rec_sourceRestoreRequired r then 1 else 0), newline @ s)"
  using assms
  by (simp add: parse_source_def source_text_def put_flag_number ExpectToken_newline del: append_Cons)

lemma read_state_text:
  "parse_state q (newline @ state_text r c @ newline) = Inr ((q\<lparr>rec_phase := rec_phase r, rec_previewQuad := rec_previewQuad r,
     rec_previewRegisterOffset := rec_previewRegisterOffset r, rec_previewOriginalValue := rec_previewOriginalValue r,
     rec_previewAppliedValue := rec_previewAppliedValue r\<rparr>, if rec_previewRestoreRequired r then 1 else 0, c), newline)"
  by (simp add: parse_state_def state_text_def put_flag_number ExpectToken_newline del: append_Cons)

lemma read_token_newline [simp]: "read_token newline = None"
  by (rule read_token_end) (simp add: newline_def is_space_def)

text \<open>What a text of the record's version holds of it.\<close>

definition held_fields :: "TunerRecoveryRecord \<Rightarrow> TunerRecoveryRecord" where
  "held_fields r = r\<lparr>rec_version5 := None,
     rec_isolatedModuleBaseAddresses := (if rec_formatVersion r \<ge> 2 then rec_isolatedModuleBaseAddresses r else []),
     rec_sourceRestoreRequired := (rec_formatVersion r \<ge> 3 \<and> rec_sourceRestoreRequired r),
     rec_sourceQuad := (if rec_formatVersion r \<ge> 3 then rec_sourceQuad r else 0),
     rec_sourceOriginalConfiguration := (if rec_formatVersion r \<ge> 3 then rec_sourceOriginalConfiguration r else 0),
     rec_sourceAppliedConfigurationAvailable := (rec_formatVersion r \<ge> 4 \<and> rec_sourceRestoreRequired r),
     rec_sourceAppliedConfiguration := (if rec_formatVersion r \<ge> 4 then rec_sourceAppliedConfiguration r else 0)\<rparr>"

lemma held_checksum [simp]: "RecordChecksum (held_fields r) = RecordChecksum r"
  by (simp add: RecordChecksum_def held_fields_def Let_def)

lemma guard_None: "(if b then Some e else m) = None \<longleftrightarrow> \<not> b \<and> m = None"
  by simp

lemma guard_case_None: "(case m of Some e \<Rightarrow> Some e | None \<Rightarrow> k) = None \<longleftrightarrow> m = None \<and> k = None"
  by (cases m) simp_all

lemma record_valid_iff:
  "ValidateRecord r = None \<longleftrightarrow>
     \<not> (rec_formatVersion r < 1 \<or> rec_formatVersion r > 4)
   \<and> \<not> (rec_phase r \<noteq> PhasePrepared \<and> rec_phase r \<noteq> PhaseActive)
   \<and> ValidHost (rec_host r) \<and> rec_commandPort r \<noteq> 0 \<and> rec_mvlcHardwareId r = 0x5008
   \<and> rec_mdppBaseAddress r \<noteq> 0 \<and> rec_mdppBaseAddress r AND 0xFFFF = 0
   \<and> \<not> (rec_mdppHardwareId r \<noteq> 0x5007 \<and> rec_mdppHardwareId r \<noteq> 0x500C)
   \<and> \<not> (rec_mdppIrqLevel r < 1 \<or> rec_mdppIrqLevel r > 6)
   \<and> rec_stackTriggerRegister r \<noteq> 0 \<and> rec_stackOffsetRegister r \<noteq> 0
   \<and> rec_ownershipTokenRegister r \<noteq> 0 \<and> rec_ownershipTokenValue r \<noteq> 0
   \<and> \<not> (rec_formatVersion r = 1 \<and> rec_isolatedModuleBaseAddresses r \<noteq> [])
   \<and> \<not> length (rec_isolatedModuleBaseAddresses r) > 15
   \<and> check_isolated (rec_mdppBaseAddress r) [] (rec_isolatedModuleBaseAddresses r) = None
   \<and> \<not> (rec_previewRestoreRequired r \<and> (rec_previewQuad r > 7 \<or> rec_previewRegisterOffset r = 0))
   \<and> \<not> (rec_sourceRestoreRequired r \<and> rec_sourceQuad r > 7)
   \<and> \<not> (rec_formatVersion r < 4 \<and> rec_sourceAppliedConfigurationAvailable r)
   \<and> \<not> (rec_formatVersion r \<ge> 4 \<and> rec_sourceRestoreRequired r \<and> \<not> rec_sourceAppliedConfigurationAvailable r)
   \<and> \<not> (rec_sourceAppliedConfigurationAvailable r
      \<and> (rec_sourceAppliedConfiguration r = rec_sourceOriginalConfiguration r
         \<or> (rec_sourceAppliedConfiguration r XOR rec_sourceOriginalConfiguration r) AND 0xFFFC \<noteq> 0))
   \<and> \<not> (\<not> rec_sourceRestoreRequired r \<and> rec_sourceAppliedConfigurationAvailable r)"
  unfolding ValidateRecord_def guard_None guard_case_None TunerRecoveryJournalFormatVersion_def
  by (simp only: de_Morgan_disj conj_assoc not_not simp_thms)

lemma valid_record_fields:
  assumes "ValidateRecord r = None"
  shows "rec_formatVersion r \<noteq> 0" "\<not> rec_formatVersion r > 4" "is_word (rec_host r)"
    "length (rec_isolatedModuleBaseAddresses r) \<le> 15"
    "rec_sourceAppliedConfigurationAvailable r \<longleftrightarrow> rec_formatVersion r \<ge> 4 \<and> rec_sourceRestoreRequired r"
    "\<not> rec_formatVersion r \<ge> 2 \<Longrightarrow> rec_isolatedModuleBaseAddresses r = []"
proof -
  note valid = assms [unfolded record_valid_iff]
  from valid show "rec_formatVersion r \<noteq> 0" "\<not> rec_formatVersion r > 4" by auto
  from valid show "is_word (rec_host r)" using opaque_is_word [of "rec_host r" 255] by (simp add: ValidHost_opaque)
  from valid show "length (rec_isolatedModuleBaseAddresses r) \<le> 15" by simp
  from valid show "rec_sourceAppliedConfigurationAvailable r \<longleftrightarrow> rec_formatVersion r \<ge> 4 \<and> rec_sourceRestoreRequired r"
    by (meson not_le)
  assume "\<not> rec_formatVersion r \<ge> 2"
  with \<open>rec_formatVersion r \<noteq> 0\<close> have "rec_formatVersion r = 1"
    by (auto simp: word_le_nat_alt word_unat_eq_iff)
  with valid show "rec_isolatedModuleBaseAddresses r = []" by auto
qed

lemma version_three: "rec_formatVersion r \<ge> 3 \<or> \<not> rec_formatVersion r \<ge> 4"
  by (simp add: word_le_nat_alt) linarith

lemma held_valid:
  assumes "ValidateRecord r = None"
  shows "ValidateRecord (held_fields r) = None"
proof -
  note fields = valid_record_fields [OF assms] and valid = assms [unfolded record_valid_iff]
  have iso: "(if rec_formatVersion r \<ge> 2 then rec_isolatedModuleBaseAddresses r else []) = rec_isolatedModuleBaseAddresses r"
    using fields(6) by simp
  show ?thesis
  proof (cases "rec_formatVersion r \<ge> 4")
    case True
    then have "rec_formatVersion r \<ge> 3" using version_three [of r] by simp
    then show ?thesis using True valid fields(5) by (simp add: record_valid_iff held_fields_def iso)
  next
    case False
    then show ?thesis using valid by (simp add: record_valid_iff held_fields_def iso)
  qed
qed

lemma Parse_journal_text:
  assumes "ValidateRecord r = None"
  shows "ParseLegacyJournal (journal_text r c) = (if c \<noteq> RecordChecksum r then Inl JournalChecksumMismatch else Inr (held_fields r))"
proof -
  note fields = valid_record_fields [OF assms]
  define q where "q = default_record\<lparr>rec_formatVersion := rec_formatVersion r,
     rec_host := rec_host r, rec_commandPort := rec_commandPort r, rec_mvlcHardwareId := rec_mvlcHardwareId r,
     rec_mvlcFirmwareRevision := rec_mvlcFirmwareRevision r, rec_mdppBaseAddress := rec_mdppBaseAddress r,
     rec_mdppHardwareId := rec_mdppHardwareId r, rec_mdppIrqLevel := rec_mdppIrqLevel r,
     rec_mdppOutputFormat := rec_mdppOutputFormat r\<rparr>"
  have version: "\<not> (rec_formatVersion r < 1 \<or> rec_formatVersion r > TunerRecoveryJournalFormatVersion)"
    using fields(1,2) by (simp add: TunerRecoveryJournalFormatVersion_def not_less)
  define iso where "iso = (if rec_formatVersion r \<ge> 2 then q\<lparr>rec_isolatedModuleBaseAddresses := rec_isolatedModuleBaseAddresses r\<rparr> else q)"
  have v [simp]: "rec_formatVersion q = rec_formatVersion r" "rec_formatVersion iso = rec_formatVersion r"
    by (simp_all add: q_def iso_def)
  define b where "b = (if rec_formatVersion r \<ge> 3 \<and> rec_sourceRestoreRequired r then 1 else 0 :: u16)"
  define b' where "b' = (if rec_previewRestoreRequired r then 1 else 0 :: u16)"
  have small: "\<not> b > 1" "\<not> b' > 1" "b = 1 \<longleftrightarrow> rec_formatVersion r \<ge> 3 \<and> rec_sourceRestoreRequired r"
    "b' = 1 \<longleftrightarrow> rec_previewRestoreRequired r"
    by (simp_all add: b_def b'_def)
  define stk where "stk = iso\<lparr>rec_stackTriggerRegister := rec_stackTriggerRegister r,
     rec_stackTriggerValue := rec_stackTriggerValue r, rec_stackOffsetRegister := rec_stackOffsetRegister r,
     rec_stackOffsetValue := rec_stackOffsetValue r, rec_ownershipTokenRegister := rec_ownershipTokenRegister r,
     rec_ownershipTokenValue := rec_ownershipTokenValue r\<rparr>"
  define src where "src = (if rec_formatVersion r \<ge> 3
     then stk\<lparr>rec_sourceQuad := rec_sourceQuad r, rec_sourceOriginalConfiguration := rec_sourceOriginalConfiguration r,
       rec_sourceAppliedConfiguration := (if rec_formatVersion r \<ge> 4 then rec_sourceAppliedConfiguration r
         else rec_sourceAppliedConfiguration stk)\<rparr> else stk)"
  define w where "w = src\<lparr>rec_phase := rec_phase r, rec_previewQuad := rec_previewQuad r,
     rec_previewRegisterOffset := rec_previewRegisterOffset r, rec_previewOriginalValue := rec_previewOriginalValue r,
     rec_previewAppliedValue := rec_previewAppliedValue r\<rparr>"
  have v' [simp]: "rec_formatVersion stk = rec_formatVersion r" by (simp add: stk_def)
  have "ParseLegacyJournal (journal_text r c) = accept_record w b b' c"
    unfolding ParseLegacyJournal_def journal_sections read_identity_text [OF fields(3)] q_def [symmetric]
    using version
    by (simp add: read_isolated_text [where r = r, OF _ fields(4)] read_stack_text iso_def [symmetric] stk_def [symmetric]
        read_source_text src_def [symmetric] read_state_text b_def [symmetric] b'_def [symmetric] w_def [symmetric] split del: if_split)
  moreover have "w\<lparr>rec_sourceRestoreRequired := (b = 1), rec_sourceAppliedConfigurationAvailable := (rec_formatVersion w \<ge> 4 \<and> b = 1),
       rec_previewRestoreRequired := (b' = 1)\<rparr> = held_fields r"
    unfolding small using version_three [of r]
    by (intro TunerRecoveryRecord.equality)
      (auto simp: w_def src_def stk_def iso_def q_def held_fields_def default_record_def)
  ultimately show ?thesis using small held_valid [OF assms] by (simp add: accept_record_def Let_def)
qed

text \<open>An accepted record is valid and holds nothing its version's text does not.\<close>

definition yields :: "('a \<Rightarrow> bool) \<Rightarrow> 'e + 'a \<Rightarrow> bool" where
  "yields P m \<longleftrightarrow> (\<forall>a. m = Inr a \<longrightarrow> P a)"

lemma yields_ends [simp]: "yields P (Inr a) \<longleftrightarrow> P a" "yields P (Inl e)"
  by (simp_all add: yields_def)

lemma yieldsD: "m = Inr a \<Longrightarrow> yields P m \<Longrightarrow> P a"
  by (simp add: yields_def)

lemma yields_intros:
  "(\<And>a. yields P (f a)) \<Longrightarrow> yields P (read_step m f)"
  "(\<And>a b. yields P (g a b)) \<Longrightarrow> yields P (case x of (a, b) \<Rightarrow> g a b)"
  "yields P n \<Longrightarrow> (\<And>a. yields P (h a)) \<Longrightarrow> yields P (case v of None \<Rightarrow> n | Some a \<Rightarrow> h a)"
  "(c \<Longrightarrow> yields P t) \<Longrightarrow> (\<not> c \<Longrightarrow> yields P e) \<Longrightarrow> yields P (if c then t else e)"
  by (cases m; auto simp: yields_def split: prod.splits option.splits if_splits)+

definition plain_fields :: "TunerRecoveryRecord \<Rightarrow> bool" where
  "plain_fields q \<longleftrightarrow> rec_version5 q = None \<and> (rec_formatVersion q \<ge> 2 \<or> rec_isolatedModuleBaseAddresses q = [])
     \<and> (rec_formatVersion q \<ge> 3 \<or> rec_sourceQuad q = 0 \<and> rec_sourceOriginalConfiguration q = 0)
     \<and> (rec_formatVersion q \<ge> 4 \<or> rec_sourceAppliedConfiguration q = 0)"

lemma plain_identity:
  "plain_fields (default_record\<lparr>rec_formatVersion := version, rec_host := host, rec_commandPort := port,
      rec_mvlcHardwareId := mvlc, rec_mvlcFirmwareRevision := firmware, rec_mdppBaseAddress := base,
      rec_mdppHardwareId := hardware, rec_mdppIrqLevel := irq, rec_mdppOutputFormat := out\<rparr>)"
  by (simp add: plain_fields_def default_record_def)

lemma parse_identity_plain: "yields (\<lambda>(q, rest). plain_fields q) (parse_identity text)"
  unfolding parse_identity_def by (intro yields_intros) (simp_all add: plain_identity)

lemma parse_isolated_plain: "plain_fields q \<Longrightarrow> yields (\<lambda>(q', rest). plain_fields q') (parse_isolated q text)"
  unfolding parse_isolated_def by (intro yields_intros) (simp_all add: plain_fields_def)

lemma parse_stack_plain: "plain_fields q \<Longrightarrow> yields (\<lambda>(q', rest). plain_fields q') (parse_stack q text)"
  unfolding parse_stack_def by (intro yields_intros) (simp_all add: plain_fields_def)

lemma parse_source_plain:
  "plain_fields q \<Longrightarrow> yields (\<lambda>((q', b), rest). plain_fields q' \<and> (rec_formatVersion q' \<ge> 3 \<or> b = 0)) (parse_source q text)"
  unfolding parse_source_def
  by (cases "rec_formatVersion q \<ge> 4"; simp only: if_True if_False read_step_simps prod.case; intro yields_intros)
    (simp_all add: plain_fields_def)

lemma parse_state_plain:
  "plain_fields q \<Longrightarrow> yields (\<lambda>((q', b, c), rest). plain_fields q' \<and> rec_formatVersion q' = rec_formatVersion q) (parse_state q text)"
  unfolding parse_state_def by (intro yields_intros) (simp_all add: plain_fields_def)

lemma accept_record_held:
  assumes "accept_record q b b' c = Inr r" "plain_fields q" "rec_formatVersion q \<ge> 3 \<or> b = 0"
  shows "ValidateRecord r = None \<and> held_fields r = r \<and> c = RecordChecksum r"
proof -
  have r: "r = q\<lparr>rec_sourceRestoreRequired := (b = 1),
      rec_sourceAppliedConfigurationAvailable := (rec_formatVersion q \<ge> 4 \<and> b = 1), rec_previewRestoreRequired := (b' = 1)\<rparr>"
    and ok: "ValidateRecord r = None" "c = RecordChecksum r"
    using assms(1) by (auto simp: accept_record_def Let_def split: if_splits option.splits)
  have "held_fields r = r"
    using assms(2,3) unfolding r
    by (intro TunerRecoveryRecord.equality) (auto simp: held_fields_def plain_fields_def)
  with ok show ?thesis by blast
qed

lemma ParseLegacy_held:
  assumes "ParseLegacyJournal s = Inr r"
  shows "ValidateRecord r = None \<and> held_fields r = r \<and> rec_version5 r = None"
proof -
  from assms obtain q1 i1 q2 i2 q3 i3 q4 b i4 q5 b' c i5 where
    p: "parse_identity s = Inr (q1, i1)" "parse_isolated q1 i1 = Inr (q2, i2)" "parse_stack q2 i2 = Inr (q3, i3)"
      "parse_source q3 i3 = Inr ((q4, b), i4)" "parse_state q4 i4 = Inr ((q5, b', c), i5)" "accept_record q5 b b' c = Inr r"
    by (auto simp: ParseLegacyJournal_def bindE_Inr split: if_splits option.splits)
  have "plain_fields q1" using yieldsD [OF p(1) parse_identity_plain] by simp
  then have "plain_fields q2" using yieldsD [OF p(2) parse_isolated_plain] by simp
  then have "plain_fields q3" using yieldsD [OF p(3) parse_stack_plain] by simp
  then have q4: "plain_fields q4" "rec_formatVersion q4 \<ge> 3 \<or> b = 0" using yieldsD [OF p(4) parse_source_plain] by simp_all
  with yieldsD [OF p(5) parse_state_plain] accept_record_held [OF p(6)] have h: "ValidateRecord r = None \<and> held_fields r = r" by auto
  moreover have "rec_version5 (held_fields r) = None" by (simp add: held_fields_def)
  ultimately show ?thesis by simp
qed

text \<open>The isolated modules of a valid record.\<close>

lemma check_isolated_None:
  "check_isolated t earlier as = None \<longleftrightarrow>
    (\<forall>a \<in> set as. a \<noteq> 0 \<and> a AND 0xFFFF = 0 \<and> a \<noteq> t) \<and> distinct as \<and> set as \<inter> set earlier = {}"
  by (induction as arbitrary: earlier) auto

end
