(* ===== verification/Recovery_Journal_V5.thy ===== *)
theory Recovery_Journal_V5
  imports Recovery_Journal
begin

text \<open>
  Version five of the recovery journal, \<^verbatim>\<open>core/RecoveryJournalV5.cpp\<close>: the session phase, the
  endpoint, the identities, the ownership fingerprint, the snapshot to restore and the chain of
  deviations from it, each section with a checksum of its own and one over all; and the decision
  what a live value read during recovery permits.
\<close>

definition ExpectedMvlcHardwareId :: u32 where "ExpectedMvlcHardwareId = 0x5008"
definition ExpectedMvlcFirmwareRevision :: u32 where "ExpectedMvlcFirmwareRevision = 0x0046"
definition IrqLevelRegister :: u16 where "IrqLevelRegister = 0x6010"
definition OutputFormatRegister :: u16 where "OutputFormatRegister = 0x6044"
definition MaximumIsolatedModuleCount :: nat where "MaximumIsolatedModuleCount = 15"

subsection \<open>Session phases\<close>

fun SessionPhaseCode :: "TuningSessionPhase \<Rightarrow> u32" where
  "SessionPhaseCode Home = 1"
| "SessionPhaseCode Preparing = 2"
| "SessionPhaseCode Goal = 3"
| "SessionPhaseCode Group = 4"
| "SessionPhaseCode AutomaticLearnSignal = 5"
| "SessionPhaseCode AutomaticEnergy = 6"
| "SessionPhaseCode AutomaticTiming = 7"
| "SessionPhaseCode Manual = 8"
| "SessionPhaseCode GroupResult = 9"
| "SessionPhaseCode Restoring = 10"
| "SessionPhaseCode NextGroup = 11"
| "SessionPhaseCode Finished = 12"
| "SessionPhaseCode (UnnamedPhase _) = 0"

text \<open>\<open>None\<close> is the null pointer.\<close>

fun SessionPhaseToken :: "TuningSessionPhase \<Rightarrow> string option" where
  "SessionPhaseToken Home = Some ''HOME''"
| "SessionPhaseToken Preparing = Some ''PREPARING''"
| "SessionPhaseToken Goal = Some ''GOAL''"
| "SessionPhaseToken Group = Some ''GROUP''"
| "SessionPhaseToken AutomaticLearnSignal = Some ''AUTOMATIC_LEARN_SIGNAL''"
| "SessionPhaseToken AutomaticEnergy = Some ''AUTOMATIC_ENERGY''"
| "SessionPhaseToken AutomaticTiming = Some ''AUTOMATIC_TIMING''"
| "SessionPhaseToken Manual = Some ''MANUAL''"
| "SessionPhaseToken GroupResult = Some ''GROUP_RESULT''"
| "SessionPhaseToken Restoring = Some ''RESTORING''"
| "SessionPhaseToken NextGroup = Some ''NEXT_GROUP''"
| "SessionPhaseToken Finished = Some ''FINISHED''"
| "SessionPhaseToken (UnnamedPhase _) = None"

definition session_phases :: "TuningSessionPhase list" where
  "session_phases = [Home, Preparing, Goal, Group, AutomaticLearnSignal, AutomaticEnergy, AutomaticTiming, Manual,
     GroupResult, Restoring, NextGroup, Finished]"

definition ParseSessionPhase :: "string \<Rightarrow> TuningSessionPhase option" where
  "ParseSessionPhase token = find (\<lambda>candidate. SessionPhaseToken candidate = Some token) session_phases"

subsection \<open>Validation\<close>

datatype v5_error =
    V5UnknownSessionPhase | V5InvalidEndpoint ControllerEndpointValidationIssue | V5InvalidMvlcIdentity
  | V5InvalidTargetIdentity | V5IncompleteOwnership | V5TooManyIsolatedModules | V5InvalidIsolatedModule
  | V5SnapshotRequired | V5SnapshotInconsistent | V5SnapshotQuadCount | V5SnapshotQuadOrder
  | V5TooManyDeviations | V5DeviationOrder | V5DeviationMismatch | V5DeviationChain
  | V5LacksEvidence | V5MixesLegacyEvidence

definition ValidateEndpoint :: "ControllerEndpointRequest \<Rightarrow> v5_error option" where
  "ValidateEndpoint endpoint = map_option V5InvalidEndpoint (ValidateControllerEndpoint endpoint)"

definition ValidateIdentity :: "TunerRecoveryV5IdentityEvidence \<Rightarrow> v5_error option" where
  "ValidateIdentity identity =
    (if id_mvlcHardwareId identity \<noteq> ExpectedMvlcHardwareId
       \<or> id_mvlcFirmwareRevision identity \<noteq> ExpectedMvlcFirmwareRevision then Some V5InvalidMvlcIdentity
     else if id_targetBaseAddress identity AND 0xFFFF \<noteq> 0
       \<or> \<not> IsSupportedMdpp32HardwareId (id_targetHardwareId identity)
       \<or> id_targetFirmwareRevision identity \<noteq> Mdpp32ScpFirmwareRevisionFw2051 then Some V5InvalidTargetIdentity
     else None)"

fun check_v5_isolated :: "u32 \<Rightarrow> u32 list \<Rightarrow> u32 list \<Rightarrow> v5_error option" where
  "check_v5_isolated target earlier [] = None"
| "check_v5_isolated target earlier (address # rest) =
    (if address AND 0xFFFF \<noteq> 0 \<or> address = target then Some V5InvalidIsolatedModule
     else if address \<in> set earlier then Some V5InvalidIsolatedModule
     else check_v5_isolated target (earlier @ [address]) rest)"

definition ValidateOwnership ::
    "TunerRecoveryV5OwnershipEvidence \<Rightarrow> TunerRecoveryV5IdentityEvidence \<Rightarrow> v5_error option" where
  "ValidateOwnership ownership identity =
    (if own_stackTriggerRegister ownership = 0 \<or> own_stackOffsetRegister ownership = 0
       \<or> own_ownershipTokenRegister ownership = 0 \<or> own_ownershipTokenValue ownership = 0 then Some V5IncompleteOwnership
     else if length (own_isolatedModuleBaseAddresses ownership) > MaximumIsolatedModuleCount
     then Some V5TooManyIsolatedModules
     else check_v5_isolated (id_targetBaseAddress identity) [] (own_isolatedModuleBaseAddresses ownership))"

definition ValidateSnapshot ::
    "Fw2051ScpConfigurationSnapshot \<Rightarrow> TunerRecoveryV5IdentityEvidence \<Rightarrow> v5_error option" where
  "ValidateSnapshot snapshot identity =
    (if state snapshot \<noteq> Complete \<or> \<not> selectorParkedAtQuadZero snapshot
       \<or> baseAddress snapshot \<noteq> id_targetBaseAddress identity \<or> hardwareId snapshot \<noteq> id_targetHardwareId identity
       \<or> firmwareRevision snapshot \<noteq> id_targetFirmwareRevision identity then Some V5SnapshotInconsistent
     else if length (quads snapshot) \<noteq> Fw2051ScpQuadCount then Some V5SnapshotQuadCount
     else if list_ex (\<lambda>index. unat (quad (quads snapshot ! index)) \<noteq> index) [0..<length (quads snapshot)]
     then Some V5SnapshotQuadOrder
     else None)"

definition SnapshotValue :: "Fw2051ScpConfigurationSnapshot \<Rightarrow> TunerRecoveryV5Deviation \<Rightarrow> u16 option" where
  "SnapshotValue snapshot deviation =
    (if dv_scope deviation = GlobalScope
     then (if dv_quad deviation \<noteq> None then None
           else if dv_registerOffset deviation = IrqLevelRegister then Some (irqLevel snapshot)
           else if dv_registerOffset deviation = OutputFormatRegister then Some (outputFormat snapshot)
           else None)
     else case dv_quad deviation of
       None \<Rightarrow> None
     | Some q \<Rightarrow>
       if dv_scope deviation \<noteq> QuadScope \<or> unat q \<ge> length (quads snapshot)
         \<or> FindFw2051ScpSetting (dv_registerOffset deviation) = None then None
       else Fw2051ScpQuadRegisterValue (quads snapshot ! unat q) (dv_registerOffset deviation))"

definition DeviationLocationKey :: "TunerRecoveryV5Deviation \<Rightarrow> u64" where
  "DeviationLocationKey deviation =
    (let scope = if dv_scope deviation = QuadScope then push_bit 32 1 else 0;
         q = (case dv_quad deviation of Some q \<Rightarrow> push_bit 16 (ucast q) | None \<Rightarrow> 0)
     in scope OR q OR ucast (dv_registerOffset deviation))"

text \<open>The loop over the deviations; the map holds the working value of each location met so far.\<close>

fun check_deviations ::
    "Fw2051ScpConfigurationSnapshot \<Rightarrow> nat \<Rightarrow> (u64 \<Rightarrow> u16 option) \<Rightarrow> TunerRecoveryV5Deviation list \<Rightarrow> v5_error option" where
  "check_deviations snapshot index workingValues [] = None"
| "check_deviations snapshot index workingValues (deviation # rest) =
    (if unat (dv_ordinal deviation) \<noteq> index \<or> SessionPhaseCode (dv_transitionPhase deviation) = 0
     then Some V5DeviationOrder
     else case SnapshotValue snapshot deviation of
       None \<Rightarrow> Some V5DeviationMismatch
     | Some original \<Rightarrow>
       if original \<noteq> dv_originalSessionValue deviation then Some V5DeviationMismatch
       else let key = DeviationLocationKey deviation;
                expectedPrevious = (case workingValues key of None \<Rightarrow> original | Some previous \<Rightarrow> previous)
         in if dv_previousVerifiedWorkingValue deviation \<noteq> expectedPrevious
              \<or> dv_requestedNextValue deviation = expectedPrevious then Some V5DeviationChain
            else check_deviations snapshot (Suc index) (workingValues(key \<mapsto> dv_requestedNextValue deviation)) rest)"

text \<open>\<open>orElse\<close> chains checks that return on the first error.\<close>

definition orElse :: "'e option \<Rightarrow> 'e option \<Rightarrow> 'e option" where
  "orElse a b = (case a of Some e \<Rightarrow> Some e | None \<Rightarrow> b)"

definition ValidateV5Data :: "TunerRecoveryV5Data \<Rightarrow> v5_error option" where
  "ValidateV5Data data =
    (if SessionPhaseCode (v5_sessionPhase data) = 0 then Some V5UnknownSessionPhase
     else orElse (ValidateEndpoint (v5_endpoint data))
       (orElse (ValidateIdentity (v5_identity data))
       (orElse (case v5_ownership data of None \<Rightarrow> None | Some ownership \<Rightarrow> ValidateOwnership ownership (v5_identity data))
       (case v5_liveRestoreSnapshot data of
          None \<Rightarrow>
            if v5_sessionPhase data \<noteq> Preparing \<or> v5_deviations data \<noteq> [] then Some V5SnapshotRequired else None
        | Some snapshot \<Rightarrow>
            orElse (ValidateSnapshot snapshot (v5_identity data))
              (if length (v5_deviations data) > TunerRecoveryV5MaximumDeviationCount then Some V5TooManyDeviations
               else check_deviations snapshot 0 (\<lambda>_. None) (v5_deviations data))))))"

definition LegacyEvidenceIsAbsent :: "TunerRecoveryRecord \<Rightarrow> bool" where
  "LegacyEvidenceIsAbsent r \<longleftrightarrow>
     rec_host r = [] \<and> rec_mvlcHardwareId r = 0 \<and> rec_mvlcFirmwareRevision r = 0 \<and> rec_mdppBaseAddress r = 0
   \<and> rec_mdppHardwareId r = 0 \<and> rec_mdppIrqLevel r = 0 \<and> rec_mdppOutputFormat r = 0
   \<and> rec_stackTriggerRegister r = 0 \<and> rec_stackTriggerValue r = 0 \<and> rec_stackOffsetRegister r = 0
   \<and> rec_stackOffsetValue r = 0 \<and> rec_ownershipTokenRegister r = 0 \<and> rec_ownershipTokenValue r = 0
   \<and> rec_isolatedModuleBaseAddresses r = [] \<and> \<not> rec_sourceRestoreRequired r \<and> rec_sourceQuad r = 0
   \<and> rec_sourceOriginalConfiguration r = 0 \<and> \<not> rec_sourceAppliedConfigurationAvailable r
   \<and> rec_sourceAppliedConfiguration r = 0 \<and> \<not> rec_previewRestoreRequired r \<and> rec_previewQuad r = 0
   \<and> rec_previewRegisterOffset r = 0 \<and> rec_previewOriginalValue r = 0 \<and> rec_previewAppliedValue r = 0"

definition ValidateV5Record :: "TunerRecoveryRecord \<Rightarrow> v5_error option" where
  "ValidateV5Record record =
    (case rec_version5 record of
       None \<Rightarrow> Some V5LacksEvidence
     | Some data \<Rightarrow>
       if rec_formatVersion record \<noteq> TunerRecoveryJournalV5FormatVersion then Some V5LacksEvidence
       else if \<not> LegacyEvidenceIsAbsent record then Some V5MixesLegacyEvidence
       else ValidateV5Data data)"

subsection \<open>Checksums\<close>

definition HashWideValue :: "u64 \<Rightarrow> u64 \<Rightarrow> u64" where
  "HashWideValue hash v = HashValue (HashValue hash (ucast v)) (ucast (drop_bit 32 v))"

definition SessionChecksum :: "TunerRecoveryV5Data \<Rightarrow> u64" where
  "SessionChecksum data =
    foldl HashValue (HashText FnvOffsetBasis ''SESSION'')
      [SessionPhaseCode (v5_sessionPhase data), flag (v5_selectorParkingRequired data)]"

definition EndpointChecksum :: "ControllerEndpointRequest \<Rightarrow> u64" where
  "EndpointChecksum endpoint =
    (let hash = HashText FnvOffsetBasis ''ENDPOINT'' in
     if ep_kind endpoint = DirectEthernet
     then HashValue (HashText (HashValue hash 1) (ep_mvlcHost endpoint)) (ucast (ep_mvlcCommandPort endpoint))
     else HashText (HashText
            (HashValue (HashText (HashValue hash 2) (ep_mvlcHost endpoint)) (ucast (ep_mvlcCommandPort endpoint)))
            (ep_sshDestination endpoint)) (ep_remoteBridgeCommand endpoint))"

definition IdentityChecksum :: "TunerRecoveryV5IdentityEvidence \<Rightarrow> u64" where
  "IdentityChecksum identity =
    foldl HashValue (HashText FnvOffsetBasis ''IDENTITY'')
      [id_mvlcHardwareId identity, id_mvlcFirmwareRevision identity, id_targetBaseAddress identity,
       ucast (id_targetHardwareId identity), ucast (id_targetFirmwareRevision identity)]"

definition OwnershipChecksum :: "TunerRecoveryV5OwnershipEvidence option \<Rightarrow> u64" where
  "OwnershipChecksum ownership =
    foldl HashValue (HashText FnvOffsetBasis ''OWNERSHIP'')
      (flag (ownership \<noteq> None) #
       (case ownership of None \<Rightarrow> [] | Some o' \<Rightarrow>
          [ucast (own_stackTriggerRegister o'), own_stackTriggerValue o', ucast (own_stackOffsetRegister o'),
           own_stackOffsetValue o', ucast (own_ownershipTokenRegister o'), own_ownershipTokenValue o',
           word_of_nat (length (own_isolatedModuleBaseAddresses o'))]
          @ own_isolatedModuleBaseAddresses o'))"

definition SnapshotChecksum :: "Fw2051ScpConfigurationSnapshot option \<Rightarrow> u64" where
  "SnapshotChecksum snapshot =
    foldl HashValue (HashText FnvOffsetBasis ''RESTORE_SNAPSHOT'')
      (flag (snapshot \<noteq> None) #
       (case snapshot of None \<Rightarrow> [] | Some s \<Rightarrow>
          [baseAddress s, ucast (hardwareId s), ucast (firmwareRevision s), ucast (irqLevel s), ucast (outputFormat s),
           word_of_nat (length (quads s))]
          @ concat (map quad_hash_values (quads s))))"

definition scope_code :: "TunerRecoveryDeviationScope \<Rightarrow> u16" where
  "scope_code scope = (case scope of GlobalScope \<Rightarrow> 1 | QuadScope \<Rightarrow> 2 | UnnamedScope v \<Rightarrow> v)"

definition deviation_hash_values :: "TunerRecoveryV5Deviation \<Rightarrow> u32 list" where
  "deviation_hash_values d =
    [dv_ordinal d, ucast (scope_code (dv_scope d)), flag (dv_quad d \<noteq> None), ucast (case dv_quad d of Some q \<Rightarrow> q | None \<Rightarrow> 0),
     ucast (dv_registerOffset d), ucast (dv_originalSessionValue d), ucast (dv_previousVerifiedWorkingValue d),
     ucast (dv_requestedNextValue d), SessionPhaseCode (dv_transitionPhase d)]"

definition DeviationsChecksum :: "TunerRecoveryV5Deviation list \<Rightarrow> u64" where
  "DeviationsChecksum deviations =
    foldl HashValue (HashText FnvOffsetBasis ''DEVIATIONS'')
      (word_of_nat (length deviations) # concat (map deviation_hash_values deviations))"

definition V5RecordChecksum :: "TunerRecoveryV5Data \<Rightarrow> u64" where
  "V5RecordChecksum data =
    foldl HashWideValue
      (HashValue (HashText FnvOffsetBasis ''MWW_TUNER_RECOVERY_V5'') TunerRecoveryJournalV5FormatVersion)
      [SessionChecksum data, EndpointChecksum (v5_endpoint data), IdentityChecksum (v5_identity data),
       OwnershipChecksum (v5_ownership data), SnapshotChecksum (v5_liveRestoreSnapshot data),
       DeviationsChecksum (v5_deviations data)]"

subsection \<open>Writer\<close>

text \<open>A phase without a token never reaches the writer: validation refuses it.\<close>

definition put_phase :: "TuningSessionPhase \<Rightarrow> string" where
  "put_phase phase = put_word (case SessionPhaseToken phase of Some t \<Rightarrow> t | None \<Rightarrow> [])"

definition session_text :: "TunerRecoveryV5Data \<Rightarrow> string" where
  "session_text data = ''SESSION'' @ put_phase (v5_sessionPhase data) @ put_flag (v5_selectorParkingRequired data)
     @ put_number (SessionChecksum data)"

definition endpoint_text :: "ControllerEndpointRequest \<Rightarrow> string" where
  "endpoint_text endpoint =
    (if ep_kind endpoint = DirectEthernet
     then ''ENDPOINT'' @ put_word ''DIRECT'' @ put_word (ep_mvlcHost endpoint) @ put_number (ep_mvlcCommandPort endpoint)
          @ put_number (EndpointChecksum endpoint)
     else ''ENDPOINT'' @ put_word ''SSH_BRIDGE'' @ put_word (ep_mvlcHost endpoint) @ put_number (ep_mvlcCommandPort endpoint)
          @ put_word (ep_sshDestination endpoint) @ put_word (ep_remoteBridgeCommand endpoint)
          @ put_number (EndpointChecksum endpoint))"

definition identity5_text :: "TunerRecoveryV5IdentityEvidence \<Rightarrow> string" where
  "identity5_text identity = ''IDENTITY'' @ put_number (id_mvlcHardwareId identity)
     @ put_number (id_mvlcFirmwareRevision identity) @ put_number (id_targetBaseAddress identity)
     @ put_number (id_targetHardwareId identity) @ put_number (id_targetFirmwareRevision identity)
     @ put_number (IdentityChecksum identity)"

definition ownership_text :: "TunerRecoveryV5OwnershipEvidence option \<Rightarrow> string" where
  "ownership_text ownership = ''OWNERSHIP'' @ put_flag (ownership \<noteq> None)
     @ (case ownership of None \<Rightarrow> [] | Some o' \<Rightarrow>
          put_number (own_stackTriggerRegister o') @ put_number (own_stackTriggerValue o')
          @ put_number (own_stackOffsetRegister o') @ put_number (own_stackOffsetValue o')
          @ put_number (own_ownershipTokenRegister o') @ put_number (own_ownershipTokenValue o')
          @ put_size (length (own_isolatedModuleBaseAddresses o'))
          @ concat (map put_number (own_isolatedModuleBaseAddresses o')))
     @ newline @ ''OWNERSHIP_CHECKSUM'' @ put_number (OwnershipChecksum ownership)"

definition snapshot_text :: "Fw2051ScpConfigurationSnapshot option \<Rightarrow> string" where
  "snapshot_text snapshot = ''RESTORE_SNAPSHOT'' @ put_flag (snapshot \<noteq> None) @ newline
     @ (case snapshot of None \<Rightarrow> [] | Some s \<Rightarrow>
          ''GLOBALS'' @ put_number (baseAddress s) @ put_number (hardwareId s) @ put_number (firmwareRevision s)
          @ put_number (irqLevel s) @ put_number (outputFormat s) @ newline
          @ concat (map WriteQuad (quads s)))
     @ ''SNAPSHOT_CHECKSUM'' @ put_number (SnapshotChecksum snapshot)"

definition deviation_text :: "TunerRecoveryV5Deviation \<Rightarrow> string" where
  "deviation_text d = ''DEVIATION'' @ put_number (dv_ordinal d)
     @ (if dv_scope d = GlobalScope then put_word ''GLOBAL''
        else put_word ''QUAD'' @ put_number (case dv_quad d of Some q \<Rightarrow> q | None \<Rightarrow> 0))
     @ put_number (dv_registerOffset d) @ put_number (dv_originalSessionValue d)
     @ put_number (dv_previousVerifiedWorkingValue d) @ put_number (dv_requestedNextValue d)
     @ put_phase (dv_transitionPhase d) @ newline"

definition deviations_text :: "TunerRecoveryV5Deviation list \<Rightarrow> string" where
  "deviations_text deviations = ''DEVIATIONS'' @ put_size (length deviations) @ newline
     @ concat (map deviation_text deviations)
     @ ''DEVIATIONS_CHECKSUM'' @ put_number (DeviationsChecksum deviations)"

definition WriteV5 :: "TunerRecoveryV5Data \<Rightarrow> string" where
  "WriteV5 data =
     JournalMagic @ put_number TunerRecoveryJournalV5FormatVersion @ newline
   @ session_text data @ newline
   @ endpoint_text (v5_endpoint data) @ newline
   @ identity5_text (v5_identity data) @ newline
   @ ownership_text (v5_ownership data) @ newline
   @ snapshot_text (v5_liveRestoreSnapshot data) @ newline
   @ deviations_text (v5_deviations data) @ newline
   @ ''RECORD_CHECKSUM'' @ put_number (V5RecordChecksum data) @ newline
   @ ''END'' @ newline"

subsection \<open>Parser\<close>

datatype v5_journal_error =
    V5Token token_error | V5Header | V5MalformedSession | V5UnknownPhaseToken | V5SectionChecksum string
  | V5MalformedEndpoint | V5IncompleteSshEndpoint | V5UnknownEndpointKind | V5InvalidOwnershipPresence
  | V5TooManyListedModules | V5InvalidSnapshotPresence | V5TooManyListedDeviations | V5MalformedDeviation
  | V5UnknownDeviationScope | V5IncompleteDeviation | V5UnknownDeviationPhase | V5DeviationsOutOfOrder
  | V5TrailingData | V5Invalid v5_error

definition v5_step :: "token_error + 'a \<Rightarrow> ('a \<Rightarrow> v5_journal_error + 'b) \<Rightarrow> v5_journal_error + 'b" where
  "v5_step m f = bindE (map_sum V5Token id m) f"

definition CheckSectionChecksum :: "u64 \<Rightarrow> u64 \<Rightarrow> string \<Rightarrow> v5_journal_error + 'b \<Rightarrow> v5_journal_error + 'b" where
  "CheckSectionChecksum stored expected title continue =
    (if stored = expected then continue else Inl (V5SectionChecksum title))"

definition read_session :: "string \<Rightarrow> v5_journal_error + (TuningSessionPhase \<times> bool \<times> u64) \<times> string" where
  "read_session input =
    v5_step (ExpectToken ''SESSION'' input) (\<lambda>input.
    case read_token input of
      None \<Rightarrow> Inl V5MalformedSession
    | Some (phase, input) \<Rightarrow>
    v5_step (ReadU16 ''selector parking state'' input) (\<lambda>(parking, input).
    if parking > 1 then Inl V5MalformedSession else
    v5_step (ReadU64 ''session checksum'' input) (\<lambda>(checksum, input).
    case ParseSessionPhase phase of
      None \<Rightarrow> Inl V5UnknownPhaseToken
    | Some phase \<Rightarrow> Inr ((phase, parking = 1, checksum), input))))"

definition ReadEndpoint :: "string \<Rightarrow> v5_journal_error + (ControllerEndpointRequest \<times> u64) \<times> string" where
  "ReadEndpoint input =
    v5_step (ExpectToken ''ENDPOINT'' input) (\<lambda>input.
    case read_token input of
      None \<Rightarrow> Inl V5MalformedEndpoint
    | Some (kind, input) \<Rightarrow>
    (case read_token input of
      None \<Rightarrow> Inl V5MalformedEndpoint
    | Some (host, input) \<Rightarrow>
    v5_step (ReadU16 ''endpoint port'' input) (\<lambda>(port, input).
    bindE
     (if kind = ''DIRECT''
      then Inr (\<lparr>ep_kind = DirectEthernet, ep_mvlcHost = host, ep_mvlcCommandPort = port, ep_sshDestination = [],
                 ep_remoteBridgeCommand = []\<rparr>, input)
      else if kind = ''SSH_BRIDGE''
      then (case read_token input of
              None \<Rightarrow> Inl V5IncompleteSshEndpoint
            | Some (destination, input) \<Rightarrow>
              (case read_token input of
                 None \<Rightarrow> Inl V5IncompleteSshEndpoint
               | Some (command, input) \<Rightarrow>
                 Inr (\<lparr>ep_kind = SshBridge, ep_mvlcHost = host, ep_mvlcCommandPort = port, ep_sshDestination = destination,
                       ep_remoteBridgeCommand = command\<rparr>, input)))
      else Inl V5UnknownEndpointKind) (\<lambda>(endpoint, input).
    v5_step (ReadU64 ''endpoint checksum'' input) (\<lambda>(checksum, input).
    Inr ((endpoint, checksum), input))))))"

definition read_identity :: "string \<Rightarrow> v5_journal_error + (TunerRecoveryV5IdentityEvidence \<times> u64) \<times> string" where
  "read_identity input =
    v5_step (ExpectToken ''IDENTITY'' input) (\<lambda>input.
    v5_step (ReadU32 ''MVLC hardware ID'' input) (\<lambda>(mvlc, input).
    v5_step (ReadU32 ''MVLC firmware'' input) (\<lambda>(firmware, input).
    v5_step (ReadU32 ''target base'' input) (\<lambda>(base, input).
    v5_step (ReadU16 ''target hardware ID'' input) (\<lambda>(hardware, input).
    v5_step (ReadU16 ''target firmware'' input) (\<lambda>(targetFirmware, input).
    v5_step (ReadU64 ''identity checksum'' input) (\<lambda>(checksum, input).
    Inr ((\<lparr>id_mvlcHardwareId = mvlc, id_mvlcFirmwareRevision = firmware, id_targetBaseAddress = base,
           id_targetHardwareId = hardware, id_targetFirmwareRevision = targetFirmware\<rparr>, checksum), input))))))))"

definition ReadOwnership :: "string \<Rightarrow> v5_journal_error + (TunerRecoveryV5OwnershipEvidence option \<times> u64) \<times> string" where
  "ReadOwnership input =
    v5_step (ExpectToken ''OWNERSHIP'' input) (\<lambda>input.
    v5_step (ReadU16 ''ownership presence'' input) (\<lambda>(present, input).
    if present > 1 then Inl V5InvalidOwnershipPresence else
    bindE
     (if present = 1
      then v5_step (ReadU16 ''stack trigger register'' input) (\<lambda>(triggerRegister, input).
        v5_step (ReadU32 ''stack trigger value'' input) (\<lambda>(triggerValue, input).
        v5_step (ReadU16 ''stack offset register'' input) (\<lambda>(offsetRegister, input).
        v5_step (ReadU32 ''stack offset value'' input) (\<lambda>(offsetValue, input).
        v5_step (ReadU16 ''ownership token register'' input) (\<lambda>(tokenRegister, input).
        v5_step (ReadU32 ''ownership token value'' input) (\<lambda>(tokenValue, input).
        v5_step (ReadU16 ''isolated module count'' input) (\<lambda>(count, input).
        if unat count > MaximumIsolatedModuleCount then Inl V5TooManyListedModules else
        v5_step (ReadAddresses (unat count) ''isolated module address'' input) (\<lambda>(addresses, input).
        Inr (Some \<lparr>own_stackTriggerRegister = triggerRegister, own_stackTriggerValue = triggerValue,
          own_stackOffsetRegister = offsetRegister, own_stackOffsetValue = offsetValue,
          own_ownershipTokenRegister = tokenRegister, own_ownershipTokenValue = tokenValue,
          own_isolatedModuleBaseAddresses = addresses\<rparr>, input)))))))))
      else Inr (None, input)) (\<lambda>(ownership, input).
    v5_step (ExpectToken ''OWNERSHIP_CHECKSUM'' input) (\<lambda>input.
    v5_step (ReadU64 ''ownership checksum'' input) (\<lambda>(checksum, input).
    Inr ((ownership, checksum), input))))))"

definition ReadSnapshot :: "string \<Rightarrow> v5_journal_error + (Fw2051ScpConfigurationSnapshot option \<times> u64) \<times> string" where
  "ReadSnapshot input =
    v5_step (ExpectToken ''RESTORE_SNAPSHOT'' input) (\<lambda>input.
    v5_step (ReadU16 ''snapshot presence'' input) (\<lambda>(present, input).
    if present > 1 then Inl V5InvalidSnapshotPresence else
    bindE
     (if present = 1
      then v5_step (ExpectToken ''GLOBALS'' input) (\<lambda>input.
        v5_step (ReadU32 ''target base'' input) (\<lambda>(base, input).
        v5_step (ReadU16 ''target hardware'' input) (\<lambda>(hardware, input).
        v5_step (ReadU16 ''target firmware'' input) (\<lambda>(firmware, input).
        v5_step (ReadU16 ''IRQ level'' input) (\<lambda>(irq, input).
        v5_step (ReadU16 ''output format'' input) (\<lambda>(fmt, input).
        v5_step (ReadQuads Fw2051ScpQuadCount input) (\<lambda>(qs, input).
        Inr (Some (default_snapshot\<lparr>state := Complete, message := ''Parsed from v5 recovery journal.'',
          selectorParkedAtQuadZero := True, baseAddress := base, hardwareId := hardware, firmwareRevision := firmware,
          irqLevel := irq, outputFormat := fmt, quads := qs\<rparr>), input))))))))
      else Inr (None, input)) (\<lambda>(snapshot, input).
    v5_step (ExpectToken ''SNAPSHOT_CHECKSUM'' input) (\<lambda>input.
    v5_step (ReadU64 ''snapshot checksum'' input) (\<lambda>(checksum, input).
    Inr ((snapshot, checksum), input))))))"

definition read_scope :: "string \<Rightarrow> string \<Rightarrow> v5_journal_error + (TunerRecoveryDeviationScope \<times> u16 option) \<times> string" where
  "read_scope scope input =
    (if scope = ''GLOBAL'' then Inr ((GlobalScope, None), input)
     else if scope = ''QUAD'' then v5_step (ReadU16 ''deviation quad'' input) (\<lambda>(q, input). Inr ((QuadScope, Some q), input))
     else Inl V5UnknownDeviationScope)"

definition ReadDeviation :: "string \<Rightarrow> v5_journal_error + TunerRecoveryV5Deviation \<times> string" where
  "ReadDeviation input =
    v5_step (ExpectToken ''DEVIATION'' input) (\<lambda>input.
    v5_step (ReadU32 ''deviation ordinal'' input) (\<lambda>(ordinal, input).
    case read_token input of
      None \<Rightarrow> Inl V5MalformedDeviation
    | Some (scope, input) \<Rightarrow>
    bindE (read_scope scope input) (\<lambda>((scope, q), input).
    v5_step (ReadU16 ''deviation register'' input) (\<lambda>(offset, input).
    v5_step (ReadU16 ''deviation original value'' input) (\<lambda>(original, input).
    v5_step (ReadU16 ''deviation previous value'' input) (\<lambda>(previous, input).
    v5_step (ReadU16 ''deviation requested value'' input) (\<lambda>(requested, input).
    case read_token input of
      None \<Rightarrow> Inl V5IncompleteDeviation
    | Some (phase, input) \<Rightarrow>
    (case ParseSessionPhase phase of
      None \<Rightarrow> Inl V5UnknownDeviationPhase
    | Some phase \<Rightarrow>
      Inr (\<lparr>dv_ordinal = ordinal, dv_scope = scope, dv_quad = q, dv_registerOffset = offset,
            dv_originalSessionValue = original, dv_previousVerifiedWorkingValue = previous,
            dv_requestedNextValue = requested, dv_transitionPhase = phase\<rparr>, input)))))))))"

fun read_deviation_list :: "nat \<Rightarrow> nat \<Rightarrow> string \<Rightarrow> v5_journal_error + TunerRecoveryV5Deviation list \<times> string" where
  "read_deviation_list 0 index input = Inr ([], input)"
| "read_deviation_list (Suc n) index input =
    bindE (ReadDeviation input) (\<lambda>(deviation, input).
    if unat (dv_ordinal deviation) \<noteq> index then Inl V5DeviationsOutOfOrder else
    bindE (read_deviation_list n (Suc index) input) (\<lambda>(rest, input). Inr (deviation # rest, input)))"

definition read_deviations :: "string \<Rightarrow> v5_journal_error + (TunerRecoveryV5Deviation list \<times> u64) \<times> string" where
  "read_deviations input =
    v5_step (ExpectToken ''DEVIATIONS'' input) (\<lambda>input.
    v5_step (ReadU32 ''deviation count'' input) (\<lambda>(count, input).
    if unat count > TunerRecoveryV5MaximumDeviationCount then Inl V5TooManyListedDeviations else
    bindE (read_deviation_list (unat count) 0 input) (\<lambda>(deviations, input).
    v5_step (ExpectToken ''DEVIATIONS_CHECKSUM'' input) (\<lambda>input.
    v5_step (ReadU64 ''deviations checksum'' input) (\<lambda>(checksum, input).
    Inr ((deviations, checksum), input))))))"

text \<open>Each section is checked against its checksum before the next one is read.\<close>

definition ParseTunerRecoveryJournalV5 :: "string \<Rightarrow> v5_journal_error + TunerRecoveryRecord" where
  "ParseTunerRecoveryJournalV5 text =
    (case read_token text of
       None \<Rightarrow> Inl V5Header
     | Some (magic, input) \<Rightarrow>
    if magic \<noteq> JournalMagic then Inl V5Header else
    v5_step (ReadU32 ''format version'' input) (\<lambda>(version, input).
    if version \<noteq> TunerRecoveryJournalV5FormatVersion then Inl V5Header else
    bindE (read_session input) (\<lambda>((phase, parking, sessionChecksum), input).
    let data = \<lparr>v5_sessionPhase = phase, v5_endpoint = default_endpoint,
          v5_identity = \<lparr>id_mvlcHardwareId = 0, id_mvlcFirmwareRevision = 0, id_targetBaseAddress = 0,
            id_targetHardwareId = 0, id_targetFirmwareRevision = 0\<rparr>,
          v5_selectorParkingRequired = parking, v5_ownership = None, v5_liveRestoreSnapshot = None, v5_deviations = []\<rparr> in
    CheckSectionChecksum sessionChecksum (SessionChecksum data) ''session''
    (bindE (ReadEndpoint input) (\<lambda>((endpoint, endpointChecksum), input).
    CheckSectionChecksum endpointChecksum (EndpointChecksum endpoint) ''endpoint''
    (bindE (read_identity input) (\<lambda>((identity, identityChecksum), input).
    CheckSectionChecksum identityChecksum (IdentityChecksum identity) ''identity''
    (bindE (ReadOwnership input) (\<lambda>((ownership, ownershipChecksum), input).
    CheckSectionChecksum ownershipChecksum (OwnershipChecksum ownership) ''ownership''
    (bindE (ReadSnapshot input) (\<lambda>((snapshot, snapshotChecksum), input).
    CheckSectionChecksum snapshotChecksum (SnapshotChecksum snapshot) ''snapshot''
    (bindE (read_deviations input) (\<lambda>((deviations, deviationsChecksum), input).
    CheckSectionChecksum deviationsChecksum (DeviationsChecksum deviations) ''deviations''
    (v5_step (ExpectToken ''RECORD_CHECKSUM'' input) (\<lambda>input.
    v5_step (ReadU64 ''record checksum'' input) (\<lambda>(recordChecksum, input).
    let data = data\<lparr>v5_endpoint := endpoint, v5_identity := identity, v5_ownership := ownership,
          v5_liveRestoreSnapshot := snapshot, v5_deviations := deviations\<rparr> in
    CheckSectionChecksum recordChecksum (V5RecordChecksum data) ''record''
    (v5_step (ExpectToken ''END'' input) (\<lambda>input.
    case read_token input of
      Some _ \<Rightarrow> Inl V5TrailingData
    | None \<Rightarrow>
    (let record = default_record\<lparr>rec_formatVersion := TunerRecoveryJournalV5FormatVersion, rec_version5 := Some data\<rparr> in
     case ValidateV5Record record of
       Some e \<Rightarrow> Inl (V5Invalid e)
     | None \<Rightarrow> Inr record)))))))))))))))))))"

definition SerializeTunerRecoveryJournalV5 :: "TunerRecoveryRecord \<Rightarrow> v5_error + string" where
  "SerializeTunerRecoveryJournalV5 record =
    (case ValidateV5Record record of
       Some e \<Rightarrow> Inl e
     | None \<Rightarrow> Inr (case rec_version5 record of Some data \<Rightarrow> WriteV5 data | None \<Rightarrow> []))"

subsection \<open>What a live value permits\<close>

datatype TunerRecoveryLiveValueEvidence = NoEvidence | OriginalSession | PreviousVerifiedWorking | RequestedNext
datatype TunerRecoveryLiveValueAction = BlockAndRetain | NoWriteAlreadyOriginal | RestoreOriginal

definition TunerRecoveryV5EvidenceDefinedValues ::
    "TunerRecoveryV5Deviation \<Rightarrow> (TunerRecoveryLiveValueEvidence \<times> u16 \<times> TunerRecoveryLiveValueAction) list" where
  "TunerRecoveryV5EvidenceDefinedValues deviation =
    [(OriginalSession, dv_originalSessionValue deviation, NoWriteAlreadyOriginal),
     (PreviousVerifiedWorking, dv_previousVerifiedWorkingValue deviation, RestoreOriginal),
     (RequestedNext, dv_requestedNextValue deviation, RestoreOriginal)]"

definition ClassifyTunerRecoveryV5LiveValue ::
    "TunerRecoveryV5Deviation \<Rightarrow> u16 \<Rightarrow> TunerRecoveryLiveValueEvidence \<times> TunerRecoveryLiveValueAction" where
  "ClassifyTunerRecoveryV5LiveValue deviation liveValue =
    (case find (\<lambda>(evidence, v, action). liveValue = v) (TunerRecoveryV5EvidenceDefinedValues deviation) of
       Some (evidence, v, action) \<Rightarrow> (evidence, action)
     | None \<Rightarrow> (NoEvidence, BlockAndRetain))"

subsection \<open>What is written reads back\<close>

lemma v5_step_simps [simp]: "v5_step (Inr a) f = f a" "v5_step (Inl e) f = Inl (V5Token e)"
  by (simp_all add: v5_step_def)

lemma v5_words [simp]:
  "is_word ''SESSION''" "is_word ''IDENTITY''" "is_word ''OWNERSHIP''" "is_word ''OWNERSHIP_CHECKSUM''"
  "is_word ''RESTORE_SNAPSHOT''" "is_word ''GLOBALS''" "is_word ''SNAPSHOT_CHECKSUM''" "is_word ''DEVIATIONS''"
  "is_word ''DEVIATION''" "is_word ''DEVIATIONS_CHECKSUM''" "is_word ''RECORD_CHECKSUM''" "is_word ''DIRECT''"
  "is_word ''SSH_BRIDGE''"
  by (simp_all add: is_word_def is_space_def)

lemma phase_token:
  assumes "SessionPhaseCode p \<noteq> 0"
  obtains t where "put_phase p = put_word t" "is_word t" "ParseSessionPhase t = Some p"
proof -
  have "\<exists>t. SessionPhaseToken p = Some t \<and> is_word t \<and> ParseSessionPhase t = Some p"
    using assms by (cases p) (simp_all add: is_word_def is_space_def ParseSessionPhase_def session_phases_def)
  then show thesis using that by (auto simp: put_phase_def)
qed

lemma read_session_text:
  assumes "SessionPhaseCode (v5_sessionPhase d) \<noteq> 0"
  shows "read_session (newline @ session_text d @ newline @ s) =
    Inr ((v5_sessionPhase d, v5_selectorParkingRequired d, SessionChecksum d), newline @ s)"
proof -
  obtain t where "put_phase (v5_sessionPhase d) = put_word t" "is_word t" "ParseSessionPhase t = Some (v5_sessionPhase d)"
    using assms by (rule phase_token)
  then show ?thesis
    by (simp add: read_session_def session_text_def ExpectToken_newline read_put_word put_flag_number del: append_Cons)
qed

definition canonical_endpoint :: "ControllerEndpointRequest \<Rightarrow> ControllerEndpointRequest" where
  "canonical_endpoint e = (if ep_kind e = DirectEthernet then e\<lparr>ep_sshDestination := [], ep_remoteBridgeCommand := []\<rparr> else e)"

lemma canonical_checksum [simp]: "EndpointChecksum (canonical_endpoint e) = EndpointChecksum e"
  by (simp add: EndpointChecksum_def canonical_endpoint_def)

lemma canonical_valid [simp]: "ValidateControllerEndpoint (canonical_endpoint e) = ValidateControllerEndpoint e"
  by (simp add: ValidateControllerEndpoint_def canonical_endpoint_def)

lemma read_endpoint_text:
  assumes "ValidateControllerEndpoint e = None"
  shows "ReadEndpoint (newline @ endpoint_text e @ newline @ s) = Inr ((canonical_endpoint e, EndpointChecksum e), newline @ s)"
proof -
  note valid = endpoint_valid [OF assms]
  show ?thesis
  proof (cases "ep_kind e = DirectEthernet")
    case True
    then show ?thesis using valid(1)
      by (simp add: ReadEndpoint_def endpoint_text_def ExpectToken_newline read_put_word canonical_endpoint_def del: append_Cons)
  next
    case False
    then have "ep_kind e = SshBridge" "is_word (ep_sshDestination e)" "is_word (ep_remoteBridgeCommand e)"
      using valid(2,3) by auto
    then show ?thesis using valid(1)
      by (simp add: ReadEndpoint_def endpoint_text_def ExpectToken_newline read_put_word canonical_endpoint_def del: append_Cons)
  qed
qed

lemma read_identity5_text:
  "read_identity (newline @ identity5_text i @ newline @ s) = Inr ((i, IdentityChecksum i), newline @ s)"
  by (simp add: read_identity_def identity5_text_def ExpectToken_newline del: append_Cons)

lemma read_ownership_text:
  assumes "\<And>o'. ow = Some o' \<Longrightarrow> length (own_isolatedModuleBaseAddresses o') \<le> 15"
  shows "ReadOwnership (newline @ ownership_text ow @ newline @ s) = Inr ((ow, OwnershipChecksum ow), newline @ s)"
proof (cases ow)
  case None
  then show ?thesis
    by (simp add: ReadOwnership_def ownership_text_def put_flag_number ExpectToken_newline del: append_Cons)
next
  case (Some o')
  have n: "put_size (length (own_isolatedModuleBaseAddresses o')) = put_number (word_of_nat (length (own_isolatedModuleBaseAddresses o')) :: u16)"
    "unat (word_of_nat (length (own_isolatedModuleBaseAddresses o')) :: u16) = length (own_isolatedModuleBaseAddresses o')"
    "\<not> length (own_isolatedModuleBaseAddresses o') > MaximumIsolatedModuleCount"
    using assms [OF Some] by (simp_all add: put_size_number unat_of_nat MaximumIsolatedModuleCount_def)
  show ?thesis
    by (simp add: Some ReadOwnership_def ownership_text_def put_flag_number n ExpectToken_newline del: append_Cons)
qed

definition as_read :: "Fw2051ScpConfigurationSnapshot \<Rightarrow> Fw2051ScpConfigurationSnapshot" where
  "as_read s = s\<lparr>message := ''Parsed from v5 recovery journal.'', selectorWrites := []\<rparr>"

lemma as_read_fields [simp]:
  "SnapshotChecksum (Some (as_read s)) = SnapshotChecksum (Some s)"
  "ValidateSnapshot (as_read s) i = ValidateSnapshot s i"
  "SnapshotValue (as_read s) d = SnapshotValue s d"
  by (cases "dv_quad d"; simp add: SnapshotChecksum_def as_read_def ValidateSnapshot_def SnapshotValue_def)+

lemma as_read_deviations [simp]: "check_deviations (as_read s) n m ds = check_deviations s n m ds"
  by (induction ds arbitrary: n m) (simp_all add: Let_def split: option.split)

lemma read_snapshot_text:
  assumes "\<And>c. sn = Some c \<Longrightarrow> snapshot_wf c \<and> ValidateSnapshot c i = None"
  shows "ReadSnapshot (newline @ snapshot_text sn @ newline @ s) = Inr ((map_option as_read sn, SnapshotChecksum sn), newline @ s)"
proof (cases sn)
  case None
  then show ?thesis
    by (simp add: ReadSnapshot_def snapshot_text_def put_flag_number ExpectToken_newline del: append_Cons)
next
  case (Some c)
  with assms have wf: "list_all quad_wf (quads c)" and valid: "ValidateSnapshot c i = None" by (simp_all add: snapshot_wf_def)
  then have len: "length (quads c) = Fw2051ScpQuadCount" and fixed: "state c = Complete" "selectorParkedAtQuadZero c"
    by (simp_all add: ValidateSnapshot_def split: if_splits)
  have same: "default_snapshot\<lparr>state := Complete, message := ''Parsed from v5 recovery journal.'',
      selectorParkedAtQuadZero := True, baseAddress := baseAddress c, hardwareId := hardwareId c,
      firmwareRevision := firmwareRevision c, irqLevel := irqLevel c, outputFormat := outputFormat c, quads := quads c\<rparr> = as_read c"
    using fixed by (intro Fw2051ScpConfigurationSnapshot.equality) (simp_all add: as_read_def default_snapshot_def)
  have quads: "ReadQuads Fw2051ScpQuadCount (newline @ concat (map WriteQuad (quads c)) @ s) = Inr (quads c, newline @ s)" for s
    using ReadQuads_WriteQuads [OF wf, of s] len by simp
  show ?thesis
    by (simp add: Some ReadSnapshot_def snapshot_text_def put_flag_number ExpectToken_newline quads same del: append_Cons)
qed

text \<open>A deviation the writer and the reader agree on: its place is named one way.\<close>

definition writable :: "TunerRecoveryV5Deviation \<Rightarrow> bool" where
  "writable d \<longleftrightarrow> (dv_scope d = GlobalScope \<and> dv_quad d = None \<or> dv_scope d = QuadScope \<and> dv_quad d \<noteq> None)
     \<and> SessionPhaseCode (dv_transitionPhase d) \<noteq> 0"

lemma read_deviation_text:
  assumes "writable d"
  shows "ReadDeviation (newline @ deviation_text d @ s) = Inr (d, newline @ s)"
proof -
  obtain t where "put_phase (dv_transitionPhase d) = put_word t" "is_word t" "ParseSessionPhase t = Some (dv_transitionPhase d)"
    using assms by (auto simp: writable_def elim: phase_token)
  with assms show ?thesis
    by (cases d) (auto simp: writable_def ReadDeviation_def deviation_text_def read_scope_def ExpectToken_newline read_put_word
        simp del: append_Cons)
qed

lemma read_deviation_list_text:
  assumes "list_all writable ds" "\<And>i. i < length ds \<Longrightarrow> unat (dv_ordinal (ds ! i)) = k + i"
  shows "read_deviation_list (length ds) k (newline @ concat (map deviation_text ds) @ s) = Inr (ds, newline @ s)"
  using assms
proof (induction ds arbitrary: k)
  case (Cons d ds)
  have "unat (dv_ordinal d) = k" using Cons.prems(2) [of 0] by simp
  moreover have "unat (dv_ordinal (ds ! i)) = Suc k + i" if "i < length ds" for i
    using Cons.prems(2) [of "Suc i"] that by simp
  ultimately show ?case using Cons.prems(1) Cons.IH [of "Suc k"] by (simp add: read_deviation_text)
qed simp

lemma read_deviations_text:
  assumes "list_all writable ds" "\<And>i. i < length ds \<Longrightarrow> unat (dv_ordinal (ds ! i)) = i"
    and "length ds \<le> TunerRecoveryV5MaximumDeviationCount"
  shows "read_deviations (newline @ deviations_text ds @ newline @ s) = Inr ((ds, DeviationsChecksum ds), newline @ s)"
proof -
  have small: "length ds < 2 ^ 32" using assms(3) by (simp add: TunerRecoveryV5MaximumDeviationCount_def)
  then have n: "put_size (length ds) = put_number (word_of_nat (length ds) :: u32)" "unat (word_of_nat (length ds) :: u32) = length ds"
    by (simp_all add: put_size_def put_number_def unat_of_nat)
  show ?thesis
    using assms(3) read_deviation_list_text [OF assms(1), of 0] assms(2)
    by (simp add: read_deviations_def deviations_text_def n ExpectToken_newline del: append_Cons)
qed

lemma orElse_None [simp]: "orElse a b = None \<longleftrightarrow> a = None \<and> b = None"
  by (cases a) (simp_all add: orElse_def)

lemma snapshot_value_place:
  "SnapshotValue s d = Some v \<Longrightarrow> dv_scope d = GlobalScope \<and> dv_quad d = None \<or> dv_scope d = QuadScope \<and> dv_quad d \<noteq> None"
  by (auto simp: SnapshotValue_def split: if_splits option.splits)

lemma check_deviations_Cons:
  "check_deviations s n w (d # ds) = None \<longleftrightarrow>
     unat (dv_ordinal d) = n \<and> SessionPhaseCode (dv_transitionPhase d) \<noteq> 0
   \<and> SnapshotValue s d = Some (dv_originalSessionValue d)
   \<and> dv_previousVerifiedWorkingValue d = (case w (DeviationLocationKey d) of None \<Rightarrow> dv_originalSessionValue d | Some v \<Rightarrow> v)
   \<and> dv_requestedNextValue d \<noteq> dv_previousVerifiedWorkingValue d
   \<and> check_deviations s (Suc n) (w(DeviationLocationKey d \<mapsto> dv_requestedNextValue d)) ds = None"
  by (auto simp: Let_def split: option.splits)

lemma checked_deviations:
  "check_deviations s n w ds = None \<Longrightarrow>
     list_all writable ds \<and> (\<forall>i < length ds. unat (dv_ordinal (ds ! i)) = n + i)"
proof (induction ds arbitrary: n w)
  case (Cons d ds)
  note c = Cons.prems [unfolded check_deviations_Cons]
  then have "writable d" using snapshot_value_place [of s d] by (auto simp: writable_def)
  moreover have "unat (dv_ordinal ((d # ds) ! i)) = n + i" if "i < length (d # ds)" for i
    using Cons.IH c that by (cases i) auto
  ultimately show ?case using Cons.IH c by auto
qed simp

lemma valid_v5_shape:
  assumes "ValidateV5Data d = None"
  shows "SessionPhaseCode (v5_sessionPhase d) \<noteq> 0" "ValidateControllerEndpoint (v5_endpoint d) = None"
    "ValidateIdentity (v5_identity d) = None"
    "v5_ownership d = Some ow \<Longrightarrow> ValidateOwnership ow (v5_identity d) = None"
    "v5_liveRestoreSnapshot d = Some c \<Longrightarrow> ValidateSnapshot c (v5_identity d) = None"
    "v5_liveRestoreSnapshot d = Some c \<Longrightarrow> check_deviations c 0 (\<lambda>_. None) (v5_deviations d) = None"
    "v5_liveRestoreSnapshot d = None \<Longrightarrow> v5_sessionPhase d = Preparing \<and> v5_deviations d = []"
    "length (v5_deviations d) \<le> TunerRecoveryV5MaximumDeviationCount"
  using assms by (auto simp: ValidateV5Data_def ValidateEndpoint_def not_less split: if_splits option.splits)

definition v5_view :: "TunerRecoveryV5Data \<Rightarrow> TunerRecoveryV5Data" where
  "v5_view d = d\<lparr>v5_endpoint := canonical_endpoint (v5_endpoint d), v5_liveRestoreSnapshot := map_option as_read (v5_liveRestoreSnapshot d)\<rparr>"

definition v5_record :: "TunerRecoveryV5Data \<Rightarrow> TunerRecoveryRecord" where
  "v5_record d = default_record\<lparr>rec_formatVersion := TunerRecoveryJournalV5FormatVersion, rec_version5 := Some d\<rparr>"

lemma v5_record_fields [simp]: "rec_version5 (v5_record d) = Some d" "rec_formatVersion (v5_record d) = TunerRecoveryJournalV5FormatVersion"
  "ValidateV5Record (v5_record d) = ValidateV5Data d"
  by (simp_all add: v5_record_def ValidateV5Record_def LegacyEvidenceIsAbsent_def default_record_def)

lemma v5_view_valid [simp]: "ValidateV5Data (v5_view d) = ValidateV5Data d"
  by (cases "v5_liveRestoreSnapshot d"; cases "v5_ownership d") (simp_all add: ValidateV5Data_def v5_view_def ValidateEndpoint_def)

lemma snapshot_checksum_view [simp]: "SnapshotChecksum (map_option as_read sn) = SnapshotChecksum sn"
  by (cases sn) simp_all

lemma v5_view_checksum [simp]: "V5RecordChecksum (v5_view d) = V5RecordChecksum d"
  by (simp add: V5RecordChecksum_def v5_view_def SessionChecksum_def)

lemma Parse_WriteV5:
  assumes valid: "ValidateV5Data d = None" and wf: "\<And>c. v5_liveRestoreSnapshot d = Some c \<Longrightarrow> snapshot_wf c"
  shows "ParseTunerRecoveryJournalV5 (WriteV5 d) = Inr (v5_record (v5_view d))"
proof -
  note shape = valid_v5_shape [OF valid]
  have own: "length (own_isolatedModuleBaseAddresses o') \<le> 15" if "v5_ownership d = Some o'" for o'
    using shape(4) [OF that] by (auto simp: ValidateOwnership_def MaximumIsolatedModuleCount_def split: if_splits)
  have devs: "list_all writable (v5_deviations d) \<and> (\<forall>i < length (v5_deviations d). unat (dv_ordinal (v5_deviations d ! i)) = i)"
    using shape(6,7) checked_deviations [of _ 0 "\<lambda>_. None" "v5_deviations d"]
    by (cases "v5_liveRestoreSnapshot d") auto
  have sn: "snapshot_wf c \<and> ValidateSnapshot c (v5_identity d) = None" if "v5_liveRestoreSnapshot d = Some c" for c
    using wf shape(5) that by blast
  define d0 where "d0 = \<lparr>v5_sessionPhase = v5_sessionPhase d, v5_endpoint = default_endpoint,
          v5_identity = \<lparr>id_mvlcHardwareId = 0, id_mvlcFirmwareRevision = 0, id_targetBaseAddress = 0,
            id_targetHardwareId = 0, id_targetFirmwareRevision = 0\<rparr>,
          v5_selectorParkingRequired = v5_selectorParkingRequired d, v5_ownership = None, v5_liveRestoreSnapshot = None, v5_deviations = []\<rparr>"
  have sums: "SessionChecksum d0 = SessionChecksum d" by (simp add: SessionChecksum_def d0_def)
  have view: "d0\<lparr>v5_endpoint := canonical_endpoint (v5_endpoint d), v5_identity := v5_identity d, v5_ownership := v5_ownership d,
          v5_liveRestoreSnapshot := map_option as_read (v5_liveRestoreSnapshot d), v5_deviations := v5_deviations d\<rparr> = v5_view d"
    by (intro TunerRecoveryV5Data.equality) (simp_all add: d0_def v5_view_def)
  have whole: "default_record\<lparr>rec_formatVersion := TunerRecoveryJournalV5FormatVersion, rec_version5 := Some (v5_view d)\<rparr> = v5_record (v5_view d)"
    by (simp add: v5_record_def)
  show ?thesis
    unfolding ParseTunerRecoveryJournalV5_def WriteV5_def
    using devs shape(8) valid
    by (simp add: read_token_spaced read_session_text [OF shape(1)] d0_def [symmetric] sums CheckSectionChecksum_def
        read_endpoint_text [OF shape(2)] read_identity5_text read_ownership_text [OF own] read_snapshot_text [OF sn]
        read_deviations_text ExpectToken_newline view whole del: append_Cons)
qed

text \<open>An accepted text holds a record in the form it would be read in again.\<close>

lemma yields_ReadMany: "(\<And>vs i. length vs = n \<Longrightarrow> yields P (g vs i)) \<Longrightarrow> yields P (bindE (ReadMany n t input) (\<lambda>(vs, i). g vs i))"
proof -
  have "length vs = n" if "ReadMany n t input = Inr (vs, i)" for vs i
    using that by (induction n t input arbitrary: vs i rule: ReadMany.induct) (auto simp: bindE_Inr)
  then show "(\<And>vs i. length vs = n \<Longrightarrow> yields P (g vs i)) \<Longrightarrow> yields P (bindE (ReadMany n t input) (\<lambda>(vs, i). g vs i))"
    by (auto simp: yields_def bindE_Inr)
qed

lemma yields_bind:
  "(\<And>a. yields P (f a)) \<Longrightarrow> yields P (bindE m f)"
  "(\<And>a. yields P (g a)) \<Longrightarrow> yields P (v5_step k g)"
  by (auto simp: yields_def bindE_Inr v5_step_def)

lemma yields_then: "yields Q m \<Longrightarrow> (\<And>a. Q a \<Longrightarrow> yields P (f a)) \<Longrightarrow> yields P (bindE m f)"
  by (auto simp: yields_def bindE_Inr)

lemma yields_pair:
  "yields (\<lambda>(e, i). Q e) m \<Longrightarrow> (\<And>e i. Q e \<Longrightarrow> yields P (g e i)) \<Longrightarrow> yields P (bindE m (\<lambda>(e, i). g e i))"
  by (auto simp: yields_def bindE_Inr)

lemma yields_check: "yields P k \<Longrightarrow> yields P (CheckSectionChecksum a b t k)"
  by (simp add: CheckSectionChecksum_def)

lemma read_quad_wf: "yields (\<lambda>(q, i). quad_wf q) (ReadQuad input)"
  unfolding ReadQuad_def
  by (intro yields_ReadMany yields_bind yields_intros) (simp add: quad_wf_def)

lemma read_quads_wf: "yields (\<lambda>(qs, i). list_all quad_wf qs) (ReadQuads n input)"
proof -
  have "list_all quad_wf qs" if "ReadQuads n input = Inr (qs, i)" for qs i
    using that
  proof (induction n input arbitrary: qs i rule: ReadQuads.induct)
    case (2 n input)
    then obtain q j qs' where q: "ReadQuad input = Inr (q, j)" "ReadQuads n j = Inr (qs', i)" "qs = q # qs'"
      by (auto simp: bindE_Inr)
    then show ?case using yieldsD [OF q(1) read_quad_wf] 2 by simp
  qed simp
  then show ?thesis by (auto simp: yields_def)
qed

lemma read_endpoint_canonical: "yields (\<lambda>((e, c), i). canonical_endpoint e = e) (ReadEndpoint input)"
proof -
  have kind: "yields (\<lambda>(e, i). canonical_endpoint e = e) (if kind = ''DIRECT''
      then Inr (\<lparr>ep_kind = DirectEthernet, ep_mvlcHost = host, ep_mvlcCommandPort = port, ep_sshDestination = [],
                 ep_remoteBridgeCommand = []\<rparr>, input)
      else if kind = ''SSH_BRIDGE''
      then (case read_token input of
              None \<Rightarrow> Inl V5IncompleteSshEndpoint
            | Some (destination, input) \<Rightarrow>
              (case read_token input of
                 None \<Rightarrow> Inl V5IncompleteSshEndpoint
               | Some (command, input) \<Rightarrow>
                 Inr (\<lparr>ep_kind = SshBridge, ep_mvlcHost = host, ep_mvlcCommandPort = port, ep_sshDestination = destination,
                       ep_remoteBridgeCommand = command\<rparr>, input)))
      else Inl V5UnknownEndpointKind)" for kind host port input
    by (intro yields_intros) (simp_all add: canonical_endpoint_def)
  show ?thesis
    unfolding ReadEndpoint_def
    by (intro yields_bind(2) yields_intros yields_pair [where Q = "\<lambda>e. canonical_endpoint e = e", OF kind]) simp_all
qed

lemma yields_quads:
  "(\<And>qs i. list_all quad_wf qs \<Longrightarrow> yields P (g qs i)) \<Longrightarrow> yields P (v5_step (ReadQuads n input) (\<lambda>(qs, i). g qs i))"
  using read_quads_wf [of n input] by (cases "ReadQuads n input") (auto simp: yields_def v5_step_def)

lemma yields_endpoint:
  "(\<And>e c i. canonical_endpoint e = e \<Longrightarrow> yields P (g e c i)) \<Longrightarrow> yields P (bindE (ReadEndpoint input) (\<lambda>((e, c), i). g e c i))"
  using read_endpoint_canonical [of input] by (auto simp: yields_def bindE_Inr)

lemma read_snapshot_as_read:
  "yields (\<lambda>((sn, c), i). map_option as_read sn = sn \<and> (\<forall>s \<in> set_option sn. snapshot_wf s)) (ReadSnapshot input)"
  unfolding ReadSnapshot_def
  by (intro yields_quads yields_bind(2) yields_intros yields_pair [where Q = "\<lambda>sn. map_option as_read sn = sn \<and> (\<forall>s \<in> set_option sn. snapshot_wf s)"])
   (simp_all add: as_read_def default_snapshot_def snapshot_wf_def)

lemma yields_snapshot:
  "(\<And>sn c i. map_option as_read sn = sn \<Longrightarrow> \<forall>s \<in> set_option sn. snapshot_wf s \<Longrightarrow> yields P (g sn c i)) \<Longrightarrow>
    yields P (bindE (ReadSnapshot input) (\<lambda>((sn, c), i). g sn c i))"
  using read_snapshot_as_read [of input] by (auto simp: yields_def bindE_Inr)

lemma yields_applied: "(\<And>a b. yields P (g a b y)) \<Longrightarrow> yields P ((case x of (a, b) \<Rightarrow> g a b) y)"
  by (cases x) simp

lemma yields_valid:
  "(v = None \<Longrightarrow> yields P m) \<Longrightarrow> yields P (case v of None \<Rightarrow> m | Some e \<Rightarrow> Inl (f e))"
  by (cases v) simp_all

lemma Parse_accepts:
  assumes "ParseTunerRecoveryJournalV5 s = Inr r"
  obtains d where "r = v5_record d" "ValidateV5Data d = None" "v5_view d = d"
    "case v5_liveRestoreSnapshot d of None \<Rightarrow> True | Some c \<Rightarrow> snapshot_wf c"
proof -
  let ?P = "\<lambda>r. \<exists>d. r = v5_record d \<and> ValidateV5Data d = None \<and> v5_view d = d
    \<and> (case v5_liveRestoreSnapshot d of None \<Rightarrow> True | Some c \<Rightarrow> snapshot_wf c)"
  have "yields ?P (ParseTunerRecoveryJournalV5 s)"
    unfolding ParseTunerRecoveryJournalV5_def Let_def
    by (intro yields_check yields_endpoint yields_snapshot yields_valid yields_bind yields_applied yields_intros)
      (auto simp: v5_view_def v5_record_def [symmetric] intro!: exI split: option.split)
  then show thesis using yieldsD [OF assms] that by blast
qed

subsection \<open>The chain of deviations\<close>

type_synonym place = "TunerRecoveryDeviationScope \<times> u16 option \<times> u16"

definition place :: "TunerRecoveryV5Deviation \<Rightarrow> place" where
  "place d = (dv_scope d, dv_quad d, dv_registerOffset d)"

text \<open>The value of a place that held \<open>v\<close>, after the transitions of a list of deviations.\<close>

definition chain_value :: "u16 \<Rightarrow> place \<Rightarrow> TunerRecoveryV5Deviation list \<Rightarrow> u16" where
  "chain_value v p ds = last (v # map dv_requestedNextValue (filter (\<lambda>e. place e = p) ds))"

lemma key_bits:
  "ucast (DeviationLocationKey d) = dv_registerOffset d"
  "ucast (drop_bit 16 (DeviationLocationKey d)) = (case dv_quad d of Some q \<Rightarrow> q | None \<Rightarrow> 0)"
  "bit (DeviationLocationKey d) 32 \<longleftrightarrow> dv_scope d = QuadScope"
proof -
  have scope_bit: "bit (4294967296 :: int) n \<longleftrightarrow> n = 32" for n
    using bit_exp_iff [of 32 n, where ?'a = int] by auto
  show "ucast (DeviationLocationKey d) = dv_registerOffset d"
    by (rule bit_word_eqI) (simp add: DeviationLocationKey_def Let_def bit_simps scope_bit split: option.split)
  show "ucast (drop_bit 16 (DeviationLocationKey d)) = (case dv_quad d of Some q \<Rightarrow> q | None \<Rightarrow> 0)"
    by (rule bit_word_eqI) (simp add: DeviationLocationKey_def Let_def bit_simps scope_bit bit_u16_high split: option.split)
  show "bit (DeviationLocationKey d) 32 \<longleftrightarrow> dv_scope d = QuadScope"
    by (simp add: DeviationLocationKey_def Let_def bit_simps scope_bit bit_u16_high split: option.split)
qed

lemma key_place:
  assumes "SnapshotValue s d = Some v" "SnapshotValue s' e = Some v'"
  shows "DeviationLocationKey d = DeviationLocationKey e \<longleftrightarrow> place d = place e"
proof
  assume key: "DeviationLocationKey d = DeviationLocationKey e"
  have "dv_registerOffset d = dv_registerOffset e" "dv_scope d = QuadScope \<longleftrightarrow> dv_scope e = QuadScope"
    "(case dv_quad d of Some q \<Rightarrow> q | None \<Rightarrow> 0) = (case dv_quad e of Some q \<Rightarrow> q | None \<Rightarrow> 0)"
    using key_bits [of d] key_bits [of e] key by simp_all
  then show "place d = place e"
    using snapshot_value_place [OF assms(1)] snapshot_value_place [OF assms(2)] by (auto simp: place_def split: option.splits)
qed (simp add: place_def DeviationLocationKey_def)

lemma chain_value_simps:
  "chain_value v p [] = v"
  "chain_value v p (d # ds) = chain_value (if place d = p then dv_requestedNextValue d else v) p ds"
  by (simp_all add: chain_value_def)

lemma chain_value_append: "chain_value v p (ds @ es) = chain_value (chain_value v p ds) p es"
  by (induction ds arbitrary: v) (simp_all add: chain_value_simps)

text \<open>A deviation that continues the chain: it starts at the value its place holds, and changes it.\<close>

definition continues :: "Fw2051ScpConfigurationSnapshot \<Rightarrow> nat \<Rightarrow> u16 \<Rightarrow> TunerRecoveryV5Deviation list \<Rightarrow> TunerRecoveryV5Deviation \<Rightarrow> bool" where
  "continues s n v earlier d \<longleftrightarrow> unat (dv_ordinal d) = n \<and> SessionPhaseCode (dv_transitionPhase d) \<noteq> 0
     \<and> SnapshotValue s d = Some (dv_originalSessionValue d)
     \<and> dv_previousVerifiedWorkingValue d = chain_value v (place d) earlier
     \<and> dv_requestedNextValue d \<noteq> dv_previousVerifiedWorkingValue d"

definition held :: "(place \<Rightarrow> u16 option) \<Rightarrow> TunerRecoveryV5Deviation \<Rightarrow> u16" where
  "held f d = (case f (place d) of None \<Rightarrow> dv_originalSessionValue d | Some v \<Rightarrow> v)"

lemma deviations_checked_iff:
  assumes "\<And>d. SnapshotValue s d \<noteq> None \<Longrightarrow> f (place d) = w (DeviationLocationKey d)"
  shows "check_deviations s n w ds = None \<longleftrightarrow> (\<forall>i < length ds. continues s (n + i) (held f (ds ! i)) (take i ds) (ds ! i))"
  using assms
proof (induction ds arbitrary: n w f)
  case (Cons d ds)
  let ?v = "dv_requestedNextValue d"
  let ?f = "f(place d \<mapsto> ?v)" and ?w = "w(DeviationLocationKey d \<mapsto> ?v)"
  have now: "continues s n (held f d) [] d \<longleftrightarrow> unat (dv_ordinal d) = n \<and> SessionPhaseCode (dv_transitionPhase d) \<noteq> 0
     \<and> SnapshotValue s d = Some (dv_originalSessionValue d)
     \<and> dv_previousVerifiedWorkingValue d = (case w (DeviationLocationKey d) of None \<Rightarrow> dv_originalSessionValue d | Some v \<Rightarrow> v)
     \<and> dv_requestedNextValue d \<noteq> dv_previousVerifiedWorkingValue d"
    using Cons.prems [of d] by (auto simp: continues_def held_def chain_value_simps)
  have later: "continues s m (held f e) (d # es) e \<longleftrightarrow> continues s m (held ?f e) es e" for m e es
    by (simp add: continues_def held_def chain_value_simps)
  have ih: "check_deviations s (Suc n) ?w ds = None \<longleftrightarrow> (\<forall>i < length ds. continues s (Suc n + i) (held ?f (ds ! i)) (take i ds) (ds ! i))"
    if "SnapshotValue s d = Some v" for v
  proof (rule Cons.IH)
    fix e assume "SnapshotValue s e \<noteq> None"
    then show "?f (place e) = ?w (DeviationLocationKey e)"
      using Cons.prems [of e] key_place [OF that, of s e] by auto
  qed
  have "check_deviations s n w (d # ds) = None \<longleftrightarrow> continues s n (held f d) [] d \<and> check_deviations s (Suc n) ?w ds = None"
    unfolding check_deviations_Cons now by blast
  also have "\<dots> \<longleftrightarrow> continues s n (held f d) [] d \<and> (\<forall>i < length ds. continues s (Suc n + i) (held ?f (ds ! i)) (take i ds) (ds ! i))"
    using ih by (auto simp: continues_def)
  also have "\<dots> \<longleftrightarrow> (\<forall>i < length (d # ds). continues s (n + i) (held f ((d # ds) ! i)) (take i (d # ds)) ((d # ds) ! i))"
    by (simp add: All_less_Suc2 later)
  finally show ?case .
qed simp

lemma chain_checked:
  "check_deviations s 0 (\<lambda>_. None) ds = None \<longleftrightarrow>
    (\<forall>i < length ds. continues s i (dv_originalSessionValue (ds ! i)) (take i ds) (ds ! i))"
  using deviations_checked_iff [of s "\<lambda>_. None" "\<lambda>_. None" 0 ds] by (simp add: held_def)

end
