(* ===== verification/Journal_Format.thy ===== *)
theory Journal_Format
  imports Recovery_Journal_V5 Scp_Sample
begin

text \<open>
  The two entry points of \<^verbatim>\<open>core/RecoveryJournal.cpp\<close>, which choose between the formats by the
  version, and what the journal promises: what is written reads back, what is accepted is valid,
  and the chain of deviations of an accepted record leads back to the captured snapshot.
\<close>

text \<open>
  \<^verbatim>\<open>std::istream >> std::uint32_t\<close>, as libstdc++ and libc++ convert it: white space, an optional
  sign and digits; digits whose value is outside the type fail the stream, and a minus sign
  negates the value within the type.
\<close>

definition stream_u32 :: "string \<Rightarrow> nat option" where
  "stream_u32 input =
    (let s = dropWhile is_space input;
         signed = (s \<noteq> [] \<and> (hd s = CHR ''-'' \<or> hd s = CHR ''+''));
         digits = takeWhile is_digit (if signed then tl s else s)
     in if digits = [] \<or> digits_value digits \<ge> 2 ^ 32 then None
        else Some (if signed \<and> hd s = CHR ''-'' then (2 ^ 32 - digits_value digits) mod 2 ^ 32 else digits_value digits))"

definition header_is_v5 :: "string \<Rightarrow> bool" where
  "header_is_v5 text =
    (case read_token text of
       None \<Rightarrow> False
     | Some (headerMagic, rest) \<Rightarrow>
       (case stream_u32 rest of
          None \<Rightarrow> False
        | Some headerVersion \<Rightarrow>
          headerMagic = JournalMagic \<and> headerVersion = unat TunerRecoveryJournalV5FormatVersion))"

datatype recovery_error = LegacyJournal journal_error | V5Journal v5_journal_error

definition ParseTunerRecoveryJournal :: "string \<Rightarrow> recovery_error + TunerRecoveryRecord" where
  "ParseTunerRecoveryJournal text =
    (if header_is_v5 text then map_sum V5Journal id (ParseTunerRecoveryJournalV5 text)
     else map_sum LegacyJournal id (ParseLegacyJournal text))"

definition SerializeTunerRecoveryJournal :: "TunerRecoveryRecord \<Rightarrow> recovery_error + string" where
  "SerializeTunerRecoveryJournal record =
    (if rec_formatVersion record = TunerRecoveryJournalV5FormatVersion
     then map_sum (V5Journal \<circ> V5Invalid) id (SerializeTunerRecoveryJournalV5 record)
     else map_sum LegacyJournal id (SerializeLegacyJournal record))"

subsection \<open>The version is recognized\<close>

lemma stream_u32_number: "spaced s \<Longrightarrow> stream_u32 (put_number (v :: u32) @ s) = Some (unat v)"
proof -
  assume "spaced s"
  then obtain c t where s: "s = c # t" "is_space c" by (auto simp: spaced_def)
  have digits: "list_all is_digit (decimal (unat v))" by (rule decimal_digits)
  have nodigit: "\<not> is_digit c" using s(2) digit_not_space by blast
  obtain d ds where dec: "decimal (unat v) = d # ds" by (cases "decimal (unat v)") simp_all
  have d: "is_digit d" using digits dec by simp
  then have first: "\<not> is_space d" "d \<noteq> CHR ''-''" "d \<noteq> CHR ''+''" by (auto simp: digit_not_space is_digit_def)
  have "takeWhile is_digit (decimal (unat v) @ c # t) = decimal (unat v)"
    using digits nodigit by (simp add: takeWhile_append list_all_iff)
  moreover have "unat v < 2 ^ 32" using unsigned_less [of v] by simp
  moreover have "digits_value (d # ds) = unat v" using digits_value_decimal [of "unat v"] dec by simp
  ultimately show ?thesis
    using first dec by (simp add: stream_u32_def put_number_def s is_space_def Let_def)
qed

lemma header_recognized:
  "spaced s \<Longrightarrow> header_is_v5 (JournalMagic @ put_number v @ s) \<longleftrightarrow> v = TunerRecoveryJournalV5FormatVersion"
  by (simp add: header_is_v5_def read_token_spaced stream_u32_number word_unat_eq_iff)

lemma WriteRecord_header: "header_is_v5 (WriteRecord r) \<longleftrightarrow> rec_formatVersion r = TunerRecoveryJournalV5FormatVersion"
  using header_recognized by (simp add: WriteRecord_def journal_text_def)

lemma WriteV5_header: "header_is_v5 (WriteV5 d)"
  using header_recognized by (simp add: WriteV5_def)

subsection \<open>Reading back\<close>

text \<open>What a journal holds of a record.\<close>

definition journal_view :: "TunerRecoveryRecord \<Rightarrow> TunerRecoveryRecord" where
  "journal_view r =
    (if rec_formatVersion r = TunerRecoveryJournalV5FormatVersion
     then (case rec_version5 r of Some d \<Rightarrow> v5_record (v5_view d) | None \<Rightarrow> r)
     else held_fields r)"

definition record_wf :: "TunerRecoveryRecord \<Rightarrow> bool" where
  "record_wf r = (case rec_version5 r of None \<Rightarrow> True
     | Some d \<Rightarrow> (case v5_liveRestoreSnapshot d of None \<Rightarrow> True | Some c \<Rightarrow> snapshot_wf c))"

lemma legacy_held_v4:
  assumes "ValidateRecord r = None" "rec_version5 r = None" "rec_formatVersion r = 4"
  shows "held_fields r = r"
  using assms(2,3) valid_record_fields(5) [OF assms(1)]
  by (intro TunerRecoveryRecord.equality) (simp_all add: held_fields_def)

lemma serialized_v5:
  assumes "SerializeTunerRecoveryJournalV5 r = Inr t"
  obtains d where "rec_version5 r = Some d" "ValidateV5Data d = None" "t = WriteV5 d"
  using assms by (auto simp: SerializeTunerRecoveryJournalV5_def ValidateV5Record_def split: option.splits if_splits)

lemma reads_back:
  assumes "SerializeTunerRecoveryJournal r = Inr t" "record_wf r"
  shows "ParseTunerRecoveryJournal t = Inr (journal_view r)"
proof (cases "rec_formatVersion r = TunerRecoveryJournalV5FormatVersion")
  case True
  then obtain d where d: "rec_version5 r = Some d" "ValidateV5Data d = None" "t = WriteV5 d"
    using assms(1) by (cases "SerializeTunerRecoveryJournalV5 r") (auto simp: SerializeTunerRecoveryJournal_def elim: serialized_v5)
  have "snapshot_wf c" if "v5_liveRestoreSnapshot d = Some c" for c
    using assms(2) d(1) that by (simp add: record_wf_def)
  then show ?thesis
    using True d(1,3) Parse_WriteV5 [OF d(2)] WriteV5_header [of d]
    by (simp add: ParseTunerRecoveryJournal_def journal_view_def)
next
  case False
  then have v: "ValidateRecord r = None" "t = WriteRecord r"
    using assms(1) by (auto simp: SerializeTunerRecoveryJournal_def SerializeLegacyJournal_def split: option.splits if_splits)
  then show ?thesis
    using False Parse_journal_text [OF v(1), of "RecordChecksum r"] WriteRecord_header [of r]
    by (simp add: ParseTunerRecoveryJournal_def journal_view_def WriteRecord_def)
qed

lemma accepted_record:
  assumes "ParseTunerRecoveryJournal s = Inr r"
  obtains (legacy) "ValidateRecord r = None" "held_fields r = r" "rec_version5 r = None"
      "rec_formatVersion r \<noteq> TunerRecoveryJournalV5FormatVersion"
  | (v5) d where "r = v5_record d" "ValidateV5Data d = None" "v5_view d = d" "record_wf r"
proof (cases "header_is_v5 s")
  case True
  then have "ParseTunerRecoveryJournalV5 s = Inr r"
    using assms by (cases "ParseTunerRecoveryJournalV5 s") (auto simp: ParseTunerRecoveryJournal_def)
  from Parse_accepts [OF this] obtain d where "r = v5_record d" "ValidateV5Data d = None" "v5_view d = d" "record_wf r"
    by (auto simp: record_wf_def split: option.splits)
  then show thesis by (rule v5)
next
  case False
  then have "ParseLegacyJournal s = Inr r"
    using assms by (cases "ParseLegacyJournal s") (auto simp: ParseTunerRecoveryJournal_def)
  from ParseLegacy_held [OF this] have r: "ValidateRecord r = None" "held_fields r = r" "rec_version5 r = None" by simp_all
  moreover have "rec_formatVersion r \<noteq> TunerRecoveryJournalV5FormatVersion"
    using valid_record_fields(2) [OF r(1)] by (auto simp: TunerRecoveryJournalV5FormatVersion_def)
  ultimately show thesis by (rule legacy)
qed

lemma record_wf_plain [simp]: "rec_version5 r = None \<Longrightarrow> record_wf r"
  by (simp add: record_wf_def)

subsection \<open>The chain of an accepted record\<close>

lemma accepted_chain:
  assumes "ParseTunerRecoveryJournal s = Inr r" "rec_version5 r = Some d" "v5_liveRestoreSnapshot d = Some c"
    "i < length (v5_deviations d)"
  shows "continues c i (dv_originalSessionValue (v5_deviations d ! i)) (take i (v5_deviations d)) (v5_deviations d ! i)"
  using assms(1)
proof (cases rule: accepted_record)
  case (v5 d')
  then have "ValidateV5Data d = None" using assms(2) by simp
  then show ?thesis using assms(3,4) valid_v5_shape(6) chain_checked by blast
qed (use assms(2) in simp)

lemma classified:
  "ClassifyTunerRecoveryV5LiveValue e v =
    (if v = dv_originalSessionValue e then (OriginalSession, NoWriteAlreadyOriginal)
     else if v = dv_previousVerifiedWorkingValue e then (PreviousVerifiedWorking, RestoreOriginal)
     else if v = dv_requestedNextValue e then (RequestedNext, RestoreOriginal)
     else (NoEvidence, BlockAndRetain))"
  by (simp add: ClassifyTunerRecoveryV5LiveValue_def TunerRecoveryV5EvidenceDefinedValues_def)

definition deviations_at :: "place \<Rightarrow> TunerRecoveryV5Deviation list \<Rightarrow> TunerRecoveryV5Deviation list" where
  "deviations_at p ds = filter (\<lambda>e. place e = p) ds"

lemma chain_value_last: "deviations_at p ds \<noteq> [] \<Longrightarrow> chain_value v p ds = dv_requestedNextValue (last (deviations_at p ds))"
  by (simp add: chain_value_def deviations_at_def last_map)

lemma interrupted_value:
  assumes chain: "\<And>i. i < length ds \<Longrightarrow> continues c i (dv_originalSessionValue (ds ! i)) (take i ds) (ds ! i)"
    and k: "k = length ds \<or> Suc k = length ds" and at: "deviations_at p ds \<noteq> []"
  shows "chain_value (dv_originalSessionValue (last (deviations_at p ds))) p (take k ds)
    \<in> {dv_previousVerifiedWorkingValue (last (deviations_at p ds)), dv_requestedNextValue (last (deviations_at p ds))}"
proof (cases "k = length ds")
  case True
  then show ?thesis using chain_value_last [OF at] by simp
next
  case False
  with k obtain ds' l where ds: "ds = ds' @ [l]" and k: "k = length ds'" by (cases ds rule: rev_cases) auto
  show ?thesis
  proof (cases "place l = p")
    case True
    then have "last (deviations_at p ds) = l" by (simp add: ds deviations_at_def)
    then show ?thesis using chain [of k] True by (simp add: ds k continues_def)
  next
    case False
    then have "deviations_at p ds = deviations_at p ds'" by (simp add: ds deviations_at_def)
    then show ?thesis using chain_value_last [of p ds'] at by (simp add: ds k)
  qed
qed

subsection \<open>What makes a record trustworthy\<close>

text \<open>
  The conditions on an accepted record, stated on its fields: without the order of the checks,
  their loops and the lists they keep.
\<close>

definition plain_argument :: "nat \<Rightarrow> string \<Rightarrow> bool" where
  "plain_argument n s \<longleftrightarrow> s \<noteq> [] \<and> length s \<le> n \<and> (\<forall>c \<in> set s. 0x20 < (of_char c :: nat) \<and> (of_char c :: nat) \<noteq> 0x7F)"

definition modules_apart :: "u32 \<Rightarrow> u32 list \<Rightarrow> bool" where
  "modules_apart target isolated \<longleftrightarrow> length isolated \<le> 15 \<and> distinct (target # isolated)
     \<and> (\<forall>a \<in> set (target # isolated). a AND 0xFFFF = 0)"

definition trusted_legacy :: "TunerRecoveryRecord \<Rightarrow> bool" where
  "trusted_legacy r \<longleftrightarrow> rec_formatVersion r \<in> {1, 2, 3, 4} \<and> rec_phase r \<in> {PhasePrepared, PhaseActive}
     \<and> plain_argument 255 (rec_host r) \<and> rec_commandPort r \<noteq> 0 \<and> rec_mvlcHardwareId r = 0x5008
     \<and> rec_mdppHardwareId r \<in> {0x5007, 0x500C} \<and> rec_mdppIrqLevel r \<in> {1, 2, 3, 4, 5, 6}
     \<and> rec_stackTriggerRegister r \<noteq> 0 \<and> rec_stackOffsetRegister r \<noteq> 0
     \<and> rec_ownershipTokenRegister r \<noteq> 0 \<and> rec_ownershipTokenValue r \<noteq> 0
     \<and> modules_apart (rec_mdppBaseAddress r) (rec_isolatedModuleBaseAddresses r)
     \<and> 0 \<notin> set (rec_mdppBaseAddress r # rec_isolatedModuleBaseAddresses r)
     \<and> (rec_formatVersion r = 1 \<longrightarrow> rec_isolatedModuleBaseAddresses r = [])
     \<and> (rec_previewRestoreRequired r \<longrightarrow> rec_previewQuad r \<le> 7 \<and> rec_previewRegisterOffset r \<noteq> 0)
     \<and> (rec_sourceRestoreRequired r \<longrightarrow> rec_sourceQuad r \<le> 7)
     \<and> (rec_sourceAppliedConfigurationAvailable r \<longleftrightarrow> rec_formatVersion r = 4 \<and> rec_sourceRestoreRequired r)
     \<and> (rec_sourceAppliedConfigurationAvailable r \<longrightarrow>
          rec_sourceAppliedConfiguration r \<noteq> rec_sourceOriginalConfiguration r
          \<and> (rec_sourceAppliedConfiguration r XOR rec_sourceOriginalConfiguration r) AND 0xFFFC = 0)"

definition trusted_endpoint :: "ControllerEndpointRequest \<Rightarrow> bool" where
  "trusted_endpoint e \<longleftrightarrow> ep_kind e \<in> {DirectEthernet, SshBridge} \<and> plain_argument 255 (ep_mvlcHost e)
     \<and> ep_mvlcCommandPort e \<notin> {0, 0xFFFF}
     \<and> (ep_kind e = SshBridge \<longrightarrow> plain_argument 255 (ep_sshDestination e) \<and> plain_argument 511 (ep_remoteBridgeCommand e))"

definition trusted_ownership :: "u32 \<Rightarrow> TunerRecoveryV5OwnershipEvidence \<Rightarrow> bool" where
  "trusted_ownership target ow \<longleftrightarrow> own_stackTriggerRegister ow \<noteq> 0 \<and> own_stackOffsetRegister ow \<noteq> 0
     \<and> own_ownershipTokenRegister ow \<noteq> 0 \<and> own_ownershipTokenValue ow \<noteq> 0
     \<and> modules_apart target (own_isolatedModuleBaseAddresses ow)"

definition trusted_snapshot :: "TunerRecoveryV5IdentityEvidence \<Rightarrow> Fw2051ScpConfigurationSnapshot \<Rightarrow> bool" where
  "trusted_snapshot identity c \<longleftrightarrow> state c = Complete \<and> selectorParkedAtQuadZero c
     \<and> baseAddress c = id_targetBaseAddress identity \<and> hardwareId c = id_targetHardwareId identity
     \<and> firmwareRevision c = id_targetFirmwareRevision identity \<and> map quad (quads c) = [0, 1, 2, 3, 4, 5, 6, 7]"

text \<open>Every deviation is numbered, names its phase, and continues the chain that its place has from the snapshot.\<close>

definition trusted_chain :: "Fw2051ScpConfigurationSnapshot \<Rightarrow> TunerRecoveryV5Deviation list \<Rightarrow> bool" where
  "trusted_chain c ds \<longleftrightarrow> length ds \<le> TunerRecoveryV5MaximumDeviationCount
     \<and> (\<forall>i < length ds. continues c i (dv_originalSessionValue (ds ! i)) (take i ds) (ds ! i))"

definition trusted_session :: "TunerRecoveryV5Data \<Rightarrow> bool" where
  "trusted_session d \<longleftrightarrow> v5_sessionPhase d \<in> set session_phases \<and> trusted_endpoint (v5_endpoint d)
     \<and> id_mvlcHardwareId (v5_identity d) = 0x5008 \<and> id_mvlcFirmwareRevision (v5_identity d) = 0x0046
     \<and> id_targetBaseAddress (v5_identity d) AND 0xFFFF = 0
     \<and> id_targetHardwareId (v5_identity d) \<in> {0x5007, 0x500C}
     \<and> id_targetFirmwareRevision (v5_identity d) = Mdpp32ScpFirmwareRevisionFw2051
     \<and> pred_option (trusted_ownership (id_targetBaseAddress (v5_identity d))) (v5_ownership d)
     \<and> (case v5_liveRestoreSnapshot d of
          None \<Rightarrow> v5_sessionPhase d = Preparing \<and> v5_deviations d = []
        | Some c \<Rightarrow> trusted_snapshot (v5_identity d) c \<and> trusted_chain c (v5_deviations d))"

lemma session_phase_coded: "SessionPhaseCode p = 0 \<longleftrightarrow> p \<notin> set session_phases"
  by (cases p) (simp_all add: session_phases_def)

lemma opaque_plain: "IsSingleOpaqueArgument s n \<longleftrightarrow> plain_argument n s"
  by (auto simp: IsSingleOpaqueArgument_def plain_argument_def opaque_char_def list_all_iff)

lemma endpoint_trusted: "ValidateControllerEndpoint e = None \<longleftrightarrow> trusted_endpoint e"
  by (auto simp: ValidateControllerEndpoint_def trusted_endpoint_def opaque_plain MaximumEndpointHostLength_def
      MaximumSshDestinationLength_def MaximumRemoteBridgeCommandLength_def)

lemma check_v5_isolated_None:
  "check_v5_isolated t earlier as = None \<longleftrightarrow>
    (\<forall>a \<in> set as. a AND 0xFFFF = 0 \<and> a \<noteq> t) \<and> distinct as \<and> set as \<inter> set earlier = {}"
  by (induction as arbitrary: earlier) auto

lemma ownership_trusted:
  assumes "id_targetBaseAddress i AND 0xFFFF = 0"
  shows "ValidateOwnership ow i = None \<longleftrightarrow> trusted_ownership (id_targetBaseAddress i) ow"
  using assms by (auto simp: ValidateOwnership_def trusted_ownership_def modules_apart_def check_v5_isolated_None MaximumIsolatedModuleCount_def)

lemma quads_numbered:
  "length qs = 8 \<and> \<not> list_ex (\<lambda>index. unat (quad (qs ! index)) \<noteq> index) [0..<length qs] \<longleftrightarrow> map quad qs = [0, 1, 2, 3, 4, 5, 6, 7]"
proof -
  have word: "unat (x :: u16) = i \<longleftrightarrow> x = of_nat i" if "i < 8" for x i
    using that by (simp add: word_unat_eq_iff unat_of_nat take_bit_nat_eq_self)
  have numbers: "[0, 1, 2, 3, 4, 5, 6, 7] = map of_nat [0..<8 :: nat]" by (simp add: upt_rec)
  have at: "map quad qs = map of_nat [0..<8] \<longleftrightarrow> length qs = 8 \<and> (\<forall>i < 8. quad (qs ! i) = of_nat i)"
    by (auto simp: list_eq_iff_nth_eq)
  show ?thesis unfolding numbers at by (auto simp: list_ex_iff word)
qed

lemma snapshot_trusted: "ValidateSnapshot c i = None \<longleftrightarrow> trusted_snapshot i c"
  unfolding ValidateSnapshot_def trusted_snapshot_def Fw2051ScpQuadCount_def quads_numbered [symmetric] by auto

lemma session_trusted: "ValidateV5Data d = None \<longleftrightarrow> trusted_session d"
proof -
  have identity: "ValidateIdentity i = None \<longleftrightarrow> id_mvlcHardwareId i = 0x5008 \<and> id_mvlcFirmwareRevision i = 0x0046
      \<and> id_targetBaseAddress i AND 0xFFFF = 0 \<and> id_targetHardwareId i \<in> {0x5007, 0x500C}
      \<and> id_targetFirmwareRevision i = Mdpp32ScpFirmwareRevisionFw2051" for i
    by (auto simp: ValidateIdentity_def ExpectedMvlcHardwareId_def ExpectedMvlcFirmwareRevision_def IsSupportedMdpp32HardwareId_def
        Mdpp32WriteApprovedHardwareIds_def Mdpp32ReadOnlyAcceptedHardwareIds_def Mdpp32HardwareId_def Mdpp32AlternateHardwareId_def)
  show ?thesis
    unfolding ValidateV5Data_def trusted_session_def
    using ownership_trusted [of "v5_identity d"]
    by (cases "v5_ownership d"; cases "v5_liveRestoreSnapshot d")
      (auto simp: session_phase_coded ValidateEndpoint_def endpoint_trusted identity snapshot_trusted trusted_chain_def chain_checked
        not_less)
qed

lemma small_words:
  "\<not> ((v :: u32) < 1 \<or> v > 4) \<longleftrightarrow> v \<in> {1, 2, 3, 4}" "\<not> ((l :: u16) < 1 \<or> l > 6) \<longleftrightarrow> l \<in> {1, 2, 3, 4, 5, 6}"
  by (auto simp: word_less_nat_alt word_unat_eq_iff)

lemma apart_checked: "t \<noteq> 0 \<and> t AND 0xFFFF = 0 \<and> \<not> length as > 15 \<and> check_isolated t [] as = None \<longleftrightarrow> modules_apart t as \<and> 0 \<notin> set (t # as)"
  by (auto simp: modules_apart_def check_isolated_None)

lemma source_checked:
  "(v :: u32) \<in> {1, 2, 3, 4} \<Longrightarrow> \<not> (v < 4 \<and> applied) \<and> \<not> (v \<ge> 4 \<and> source \<and> \<not> applied) \<and> \<not> (\<not> source \<and> applied)
     \<longleftrightarrow> (applied \<longleftrightarrow> v = 4 \<and> source)"
  by (auto simp: word_le_nat_alt word_less_nat_alt)

text \<open>The conditions of \<open>ValidateRecord\<close>, those on the modules and on the source grouped.\<close>

lemma record_valid_grouped:
  "ValidateRecord r = None \<longleftrightarrow>
     \<not> (rec_formatVersion r < 1 \<or> rec_formatVersion r > 4)
   \<and> \<not> (rec_phase r \<noteq> PhasePrepared \<and> rec_phase r \<noteq> PhaseActive)
   \<and> ValidHost (rec_host r) \<and> rec_commandPort r \<noteq> 0 \<and> rec_mvlcHardwareId r = 0x5008
   \<and> \<not> (rec_mdppHardwareId r \<noteq> 0x5007 \<and> rec_mdppHardwareId r \<noteq> 0x500C)
   \<and> \<not> (rec_mdppIrqLevel r < 1 \<or> rec_mdppIrqLevel r > 6)
   \<and> rec_stackTriggerRegister r \<noteq> 0 \<and> rec_stackOffsetRegister r \<noteq> 0
   \<and> rec_ownershipTokenRegister r \<noteq> 0 \<and> rec_ownershipTokenValue r \<noteq> 0
   \<and> (rec_mdppBaseAddress r \<noteq> 0 \<and> rec_mdppBaseAddress r AND 0xFFFF = 0
      \<and> \<not> length (rec_isolatedModuleBaseAddresses r) > 15
      \<and> check_isolated (rec_mdppBaseAddress r) [] (rec_isolatedModuleBaseAddresses r) = None)
   \<and> \<not> (rec_formatVersion r = 1 \<and> rec_isolatedModuleBaseAddresses r \<noteq> [])
   \<and> \<not> (rec_previewRestoreRequired r \<and> (rec_previewQuad r > 7 \<or> rec_previewRegisterOffset r = 0))
   \<and> \<not> (rec_sourceRestoreRequired r \<and> rec_sourceQuad r > 7)
   \<and> (\<not> (rec_formatVersion r < 4 \<and> rec_sourceAppliedConfigurationAvailable r)
      \<and> \<not> (rec_formatVersion r \<ge> 4 \<and> rec_sourceRestoreRequired r \<and> \<not> rec_sourceAppliedConfigurationAvailable r)
      \<and> \<not> (\<not> rec_sourceRestoreRequired r \<and> rec_sourceAppliedConfigurationAvailable r))
   \<and> \<not> (rec_sourceAppliedConfigurationAvailable r
      \<and> (rec_sourceAppliedConfiguration r = rec_sourceOriginalConfiguration r
         \<or> (rec_sourceAppliedConfiguration r XOR rec_sourceOriginalConfiguration r) AND 0xFFFC \<noteq> 0))"
  unfolding record_valid_iff by (simp only: conj_ac)

lemma legacy_trusted: "ValidateRecord r = None \<longleftrightarrow> trusted_legacy r"
proof (cases "rec_formatVersion r \<in> {1, 2, 3, 4}")
  case True
  have hw: "\<not> (h \<noteq> 0x5007 \<and> h \<noteq> (0x500C :: u16)) \<longleftrightarrow> h \<in> {0x5007, 0x500C}" for h by simp
  have phase: "\<not> (p \<noteq> PhasePrepared \<and> p \<noteq> PhaseActive) \<longleftrightarrow> p \<in> {PhasePrepared, PhaseActive}" for p by simp
  show ?thesis
    unfolding record_valid_grouped trusted_legacy_def small_words hw phase ValidHost_opaque opaque_plain apart_checked
      source_checked [OF True] conj_assoc
    by (simp only: de_Morgan_conj de_Morgan_disj not_not not_less imp_conv_disj)
next
  case False
  then show ?thesis unfolding record_valid_iff trusted_legacy_def small_words by simp
qed

text \<open>The record is of a version the program reads, holds the evidence of that version only, and is worth trusting.\<close>

definition trusted_record :: "TunerRecoveryRecord \<Rightarrow> bool" where
  "trusted_record r \<longleftrightarrow> (case rec_version5 r of None \<Rightarrow> trusted_legacy r
     | Some d \<Rightarrow> rec_formatVersion r = 5 \<and> LegacyEvidenceIsAbsent r \<and> trusted_session d)"

text \<open>The record is in the form it is stored in: what its version cannot hold is absent.\<close>

definition stored_form :: "TunerRecoveryRecord \<Rightarrow> bool" where
  "stored_form r \<longleftrightarrow> journal_view r = r \<and> record_wf r"

lemma trusted_serializes:
  assumes "trusted_record r" "stored_form r"
  shows "\<exists>t. SerializeTunerRecoveryJournal r = Inr t \<and> ParseTunerRecoveryJournal t = Inr r"
proof -
  have "\<exists>t. SerializeTunerRecoveryJournal r = Inr t"
  proof (cases "rec_version5 r")
    case None
    then have "trusted_legacy r" using assms(1) by (simp add: trusted_record_def)
    then have valid: "ValidateRecord r = None" by (simp only: legacy_trusted)
    have "\<not> rec_formatVersion r > 4" by (rule valid_record_fields(2) [OF valid])
    then have "rec_formatVersion r \<noteq> TunerRecoveryJournalV5FormatVersion" by (auto simp: TunerRecoveryJournalV5FormatVersion_def)
    with valid None show ?thesis by (simp add: SerializeTunerRecoveryJournal_def SerializeLegacyJournal_def)
  next
    case (Some d)
    then show ?thesis
      using assms(1) by (simp add: trusted_record_def SerializeTunerRecoveryJournal_def SerializeTunerRecoveryJournalV5_def
          TunerRecoveryJournalV5FormatVersion_def ValidateV5Record_def
          session_trusted [THEN iffD2])
  qed
  then show ?thesis using assms(2) reads_back [of r] by (auto simp: stored_form_def)
qed

lemma accepted_trusted:
  assumes "ParseTunerRecoveryJournal s = Inr r"
  shows "trusted_record r \<and> stored_form r"
  using assms
proof (cases rule: accepted_record)
  case legacy
  then show ?thesis by (simp add: trusted_record_def stored_form_def journal_view_def legacy_trusted)
next
  case (v5 d)
  have "LegacyEvidenceIsAbsent r" by (simp add: v5(1) v5_record_def LegacyEvidenceIsAbsent_def default_record_def)
  then show ?thesis
    using v5 by (simp add: trusted_record_def stored_form_def journal_view_def session_trusted TunerRecoveryJournalV5FormatVersion_def)
qed

subsection \<open>Properties\<close>

text \<open>
  (C22) Whatever the program can write to a recovery journal it reads back: parsing a serialized
  record of any version gives the fields that version holds, and a record of the current version
  four gives itself.
\<close>
theorem journal_round_trip:
  assumes "SerializeTunerRecoveryJournal r = Inr t" "record_wf r"
  shows "ParseTunerRecoveryJournal t = Inr (journal_view r) \<and> (rec_formatVersion r = 4 \<longrightarrow> ParseTunerRecoveryJournal t = Inr r)"
proof -
  have "journal_view r = r" if "rec_formatVersion r = 4"
    using that assms(1) legacy_held_v4 [of r]
    by (auto simp: journal_view_def SerializeTunerRecoveryJournal_def SerializeLegacyJournal_def
        TunerRecoveryJournalV5FormatVersion_def split: option.splits if_splits)
  with reads_back [OF assms] show ?thesis by auto
qed

definition sample_v4 :: TunerRecoveryRecord where
  "sample_v4 = default_record\<lparr>rec_host := ''mvlc'', rec_mvlcHardwareId := 0x5008, rec_mvlcFirmwareRevision := 0x37,
     rec_mdppBaseAddress := 0x01000000, rec_mdppHardwareId := 0x5007, rec_mdppIrqLevel := 1,
     rec_stackTriggerRegister := 0x1104, rec_stackOffsetRegister := 0x1204, rec_ownershipTokenRegister := 0x2300,
     rec_ownershipTokenValue := 0xC0FFEE, rec_isolatedModuleBaseAddresses := [0x02000000]\<rparr>"

lemma sample_v4_valid: "ValidateRecord sample_v4 = None"
  by code_simp

theorem journal_round_trip_witness:
  "\<exists>t. SerializeTunerRecoveryJournal sample_v4 = Inr t \<and> ParseTunerRecoveryJournal t = Inr sample_v4"
proof -
  have "rec_formatVersion sample_v4 = 4" "rec_version5 sample_v4 = None"
    by (simp_all add: sample_v4_def default_record_def TunerRecoveryJournalFormatVersion_def)
  moreover from this have "SerializeTunerRecoveryJournal sample_v4 = Inr (WriteRecord sample_v4)"
    using sample_v4_valid
    by (simp add: SerializeTunerRecoveryJournal_def SerializeLegacyJournal_def TunerRecoveryJournalV5FormatVersion_def)
  ultimately show ?thesis using journal_round_trip [of sample_v4] by auto
qed

text \<open>
  (C23) A journal is accepted exactly when its record can be trusted: for every record there is a
  text that is read as it if and only if it is in the form of its version and meets the conditions
  of that version, in either case an MVLC, module addresses that are aligned and distinct from each
  other and from the target, and complete ownership evidence; in version five also a complete
  snapshot of the identified target, or none while preparing, and a chain of deviations that
  starts from it. The record can then be written, and its own text is read as the same record.
\<close>
theorem accepted_journal_valid:
  "((\<exists>s. ParseTunerRecoveryJournal s = Inr r) \<longleftrightarrow> trusted_record r \<and> stored_form r)
   \<and> ((\<exists>s. ParseTunerRecoveryJournal s = Inr r)
      \<longleftrightarrow> (\<exists>t. SerializeTunerRecoveryJournal r = Inr t \<and> ParseTunerRecoveryJournal t = Inr r))"
  using trusted_serializes [of r] accepted_trusted [of _ r] by blast

text \<open>
  A session on the sample module that raised one gain and then took half of it back; the second
  transition may not have been made.
\<close>

definition sample_deviations :: "TunerRecoveryV5Deviation list" where
  "sample_deviations =
    [\<lparr>dv_ordinal = 0, dv_scope = QuadScope, dv_quad = Some 3, dv_registerOffset = 0x611A, dv_originalSessionValue = 200,
      dv_previousVerifiedWorkingValue = 200, dv_requestedNextValue = 250, dv_transitionPhase = Manual\<rparr>,
     \<lparr>dv_ordinal = 1, dv_scope = QuadScope, dv_quad = Some 3, dv_registerOffset = 0x611A, dv_originalSessionValue = 200,
      dv_previousVerifiedWorkingValue = 250, dv_requestedNextValue = 225, dv_transitionPhase = Manual\<rparr>]"

definition sample_session :: TunerRecoveryV5Data where
  "sample_session = \<lparr>v5_sessionPhase = Manual,
     v5_endpoint = \<lparr>ep_kind = DirectEthernet, ep_mvlcHost = ''mvlc'', ep_mvlcCommandPort = 32768, ep_sshDestination = [],
       ep_remoteBridgeCommand = []\<rparr>,
     v5_identity = \<lparr>id_mvlcHardwareId = 0x5008, id_mvlcFirmwareRevision = 0x0046, id_targetBaseAddress = 0x01000000,
       id_targetHardwareId = Mdpp32HardwareId, id_targetFirmwareRevision = Mdpp32ScpFirmwareRevisionFw2051\<rparr>,
     v5_selectorParkingRequired = False, v5_ownership = None, v5_liveRestoreSnapshot = Some (as_read sample_live),
     v5_deviations = sample_deviations\<rparr>"

lemma sample_session_valid: "ValidateV5Data sample_session = None"
  by code_simp

lemma sample_session_accepted: "ParseTunerRecoveryJournal (WriteV5 sample_session) = Inr (v5_record sample_session)"
proof -
  have "SerializeTunerRecoveryJournal (v5_record sample_session) = Inr (WriteV5 sample_session)"
    using sample_session_valid by (simp add: SerializeTunerRecoveryJournal_def SerializeTunerRecoveryJournalV5_def)
  moreover have "record_wf (v5_record sample_session)"
    using sample_wf(1) by (simp add: record_wf_def sample_session_def as_read_def snapshot_wf_def)
  ultimately have "ParseTunerRecoveryJournal (WriteV5 sample_session) = Inr (journal_view (v5_record sample_session))"
    by (rule reads_back)
  moreover have "v5_view sample_session = sample_session"
    by (simp add: v5_view_def sample_session_def canonical_endpoint_def as_read_def)
  ultimately show ?thesis by (simp add: journal_view_def)
qed

lemma sample_session_fields:
  "v5_liveRestoreSnapshot sample_session = Some (as_read sample_live)" "v5_deviations sample_session = sample_deviations"
  by (simp_all add: sample_session_def)

text \<open>
  In an accepted record every deviation starts from the captured snapshot: its original value
  is the snapshot's, its previous value is the one the earlier deviations of the same place left
  there, and it asks for a change.
\<close>
theorem accepted_deviations_chain:
  assumes "ParseTunerRecoveryJournal s = Inr r" "rec_version5 r = Some d" "v5_liveRestoreSnapshot d = Some c"
    and "i < length (v5_deviations d)" "e = v5_deviations d ! i"
  shows "SnapshotValue c e = Some (dv_originalSessionValue e)
    \<and> dv_previousVerifiedWorkingValue e = chain_value (dv_originalSessionValue e) (place e) (take i (v5_deviations d))
    \<and> dv_requestedNextValue e \<noteq> dv_previousVerifiedWorkingValue e"
  using accepted_chain [OF assms(1-4)] unfolding assms(5) continues_def by blast

theorem accepted_deviations_chain_witness:
  "SnapshotValue (as_read sample_live) (sample_deviations ! 1) = Some 200"
  using accepted_deviations_chain [OF sample_session_accepted, of sample_session "as_read sample_live" 1 "sample_deviations ! 1"]
  by (simp add: sample_session_fields sample_deviations_def)

text \<open>
  (C11) Recovery is always possible and never guesses: when the module made all the transitions of
  an accepted journal, or all but the last one, the value of every place the journal names is one
  of those it defines, and the decision is to restore the snapshot's value, or to leave it when it
  is already there; any value the journal does not define blocks the recovery.
\<close>
theorem interrupted_session_recoverable:
  assumes "ParseTunerRecoveryJournal s = Inr r" "rec_version5 r = Some d" "v5_liveRestoreSnapshot d = Some c"
    and "k = length (v5_deviations d) \<or> Suc k = length (v5_deviations d)" "deviations_at p (v5_deviations d) \<noteq> []"
    and "e = last (deviations_at p (v5_deviations d))"
    and "live = chain_value (dv_originalSessionValue e) p (take k (v5_deviations d))"
  shows "snd (ClassifyTunerRecoveryV5LiveValue e live) =
      (if SnapshotValue c e = Some live then NoWriteAlreadyOriginal else RestoreOriginal)
    \<and> SnapshotValue c e = Some (dv_originalSessionValue e)
    \<and> (v \<notin> {dv_originalSessionValue e, dv_previousVerifiedWorkingValue e, dv_requestedNextValue e}
        \<longrightarrow> ClassifyTunerRecoveryV5LiveValue e v = (NoEvidence, BlockAndRetain))"
proof -
  note chain = accepted_chain [OF assms(1-3)]
  have "e \<in> set (v5_deviations d)"
    using assms(5) last_in_set [OF assms(5)] unfolding assms(6) by (simp add: deviations_at_def)
  then obtain i where "i < length (v5_deviations d)" "e = v5_deviations d ! i" by (auto simp: in_set_conv_nth)
  then have "SnapshotValue c e = Some (dv_originalSessionValue e)" using chain by (auto simp: continues_def)
  moreover have "live \<in> {dv_previousVerifiedWorkingValue e, dv_requestedNextValue e}"
    using interrupted_value [OF chain assms(4,5)] assms(6,7) by simp
  ultimately show ?thesis by (auto simp: classified)
qed

theorem interrupted_session_recoverable_witness:
  "snd (ClassifyTunerRecoveryV5LiveValue (sample_deviations ! 1) 250) = RestoreOriginal
   \<and> ClassifyTunerRecoveryV5LiveValue (sample_deviations ! 1) 7 = (NoEvidence, BlockAndRetain)"
proof -
  let ?p = "(QuadScope, Some 3, 0x611A)"
  have at: "deviations_at ?p sample_deviations = sample_deviations"
    by (simp add: deviations_at_def sample_deviations_def place_def)
  have "last sample_deviations = sample_deviations ! 1" "sample_deviations \<noteq> []" "length sample_deviations = 2"
    by (simp_all add: sample_deviations_def)
  moreover have "chain_value 200 ?p (take 1 sample_deviations) = 250" "dv_originalSessionValue (sample_deviations ! 1) = 200"
    "dv_previousVerifiedWorkingValue (sample_deviations ! 1) = 250" "dv_requestedNextValue (sample_deviations ! 1) = 225"
    by (simp_all add: sample_deviations_def chain_value_def place_def)
  ultimately show ?thesis
    using interrupted_session_recoverable [OF sample_session_accepted, of sample_session "as_read sample_live" 1 ?p "sample_deviations ! 1" 250 7]
    by (simp add: sample_session_fields at)
qed

end
