(* ===== verification/Journal_Store.thy ===== *)
theory Journal_Store
  imports Journal_Format "HOL-Library.AList" "HOL-Library.Char_ord" "HOL-Library.List_Lexorder"
begin

text \<open>
  The recovery journal as a file: the durable installation of \<^verbatim>\<open>core/RecoveryJournal.cpp\<close> with
  its three modes, loading and removing, and the discovery of a pending record in the application's
  recovery directory, \<^verbatim>\<open>core/ApplicationRecoveryDiscovery.cpp\<close>. The directory is an association
  list from names to entries; a path is its file name in it. What the system calls answer is a
  record of flags, so every failure is a value of it; the installation returns, with its result,
  the directory after each call that changed it: the states a crash can leave behind.
\<close>

subsection \<open>The directory\<close>

text \<open>
  A directory below the recovery directory holds files by name. Opening an entry of another kind
  for reading follows it, to a text or to nothing.
\<close>

datatype entry = PlainFile string | DirectoryEntry "(string \<times> string) list" | OtherEntry "string option"

type_synonym directory = "(string \<times> entry) list"

datatype recovery_directory = DirectoryMissing | DirectoryNotPlain | PlainDirectory directory

definition TunerRecoveryJournalStagingDirectoryPrefix :: string where
  "TunerRecoveryJournalStagingDirectoryPrefix = ''.fidget-journal-staging''"

definition MaximumAtomicJournalCollisions :: nat where "MaximumAtomicJournalCollisions = 64"

datatype AtomicJournalInstallMode = Upsert | Exclusive | ReplaceExisting

datatype removal = RemovedAll | RemovedContents | RemovedNothing

text \<open>
  \<open>w_intruder\<close> is an entry another process puts at the destination just before the installation;
  \<open>w_writer\<close> gives what a write of a text leaves in the file and whether it reports success.
\<close>

record install_world =
  w_destinationInvalid :: bool
  w_directoryError :: bool
  w_destinationError :: bool
  w_createError :: "nat \<Rightarrow> bool"
  w_existsError :: "nat \<Rightarrow> bool"
  w_otherFilesystem :: bool
  w_openError :: bool
  w_writer :: "string \<Rightarrow> string \<times> bool"
  w_closeError :: bool
  w_fileSyncError :: bool
  w_intruder :: "entry option"
  w_installError :: bool
  w_directorySyncError :: bool
  w_removal :: removal

datatype save_message =
    PathEmpty | NotSaved recovery_error | NotCreated recovery_error | NotPromoted recovery_error
  | PreparedNotTrusted | NotIdentityOnly | PromotedNotV5 | PromotedMismatch
  | DestinationInvalid | DirectoryNotPrepared | DestinationUninspectable | DestinationNotPlain
  | AlreadyExists | PreparedNotPlain | NoWorkspace | WorkspaceError | NotSameFilesystem | TemporaryNotOpened
  | WriteFailed | TemporaryNotDurable | NotInstalled | InstalledNotDurable
  | SavedDurably AtomicJournalInstallMode

record TunerRecoverySaveResult =
  sv_success :: bool
  sv_message :: save_message
  sv_destinationAlreadyExists :: bool
  sv_destinationInstalled :: bool

definition refused :: "save_message \<Rightarrow> TunerRecoverySaveResult" where
  "refused m = \<lparr>sv_success = False, sv_message = m, sv_destinationAlreadyExists = False, sv_destinationInstalled = False\<rparr>"

subsection \<open>Installation\<close>

definition workspace_name :: "nat \<Rightarrow> string" where
  "workspace_name attempt = TunerRecoveryJournalStagingDirectoryPrefix @ (if attempt = 0 then [] else CHR ''.'' # decimal attempt)"

definition is_directory :: "entry \<Rightarrow> bool" where
  "is_directory e = (case e of DirectoryEntry _ \<Rightarrow> True | _ \<Rightarrow> False)"

text \<open>
  The loop over candidate names. Creating over an existing directory reports no error; over another
  entry it reports one, and the name is passed over when the check for its existence succeeds.
\<close>

fun allocate_workspace :: "install_world \<Rightarrow> directory \<Rightarrow> nat \<Rightarrow> nat \<Rightarrow> save_message + string" where
  "allocate_workspace w d 0 attempt = Inl NoWorkspace"
| "allocate_workspace w d (Suc n) attempt =
    (case map_of d (workspace_name attempt) of
       None \<Rightarrow> if w_createError w attempt then Inl WorkspaceError else Inr (workspace_name attempt)
     | Some e \<Rightarrow>
       if is_directory e \<or> \<not> w_existsError w attempt then allocate_workspace w d n (Suc attempt) else Inl WorkspaceError)"

definition RemoveAtomicWorkspace :: "install_world \<Rightarrow> string \<Rightarrow> directory \<Rightarrow> directory" where
  "RemoveAtomicWorkspace w workspace d =
    (case w_removal w of
       RemovedAll \<Rightarrow> AList.delete workspace d
     | RemovedContents \<Rightarrow> AList.update workspace (DirectoryEntry []) d
     | RemovedNothing \<Rightarrow> d)"

text \<open>
  The installation proper: a hard link for the exclusive mode, which fails on any existing entry,
  a rename otherwise, which replaces a file and fails on a directory.
\<close>

definition install_at :: "install_world \<Rightarrow> AtomicJournalInstallMode \<Rightarrow> string \<Rightarrow> string \<Rightarrow> string \<Rightarrow> directory \<Rightarrow> bool \<times> bool \<times> directory" where
  "install_at w mode workspace destination written d =
    (case mode of
       Exclusive \<Rightarrow>
         if map_of d destination \<noteq> None then (False, True, d)
         else if w_installError w then (False, False, d)
         else (True, False, AList.update destination (PlainFile written) d)
     | _ \<Rightarrow>
         if w_installError w \<or> (case map_of d destination of Some e \<Rightarrow> is_directory e | None \<Rightarrow> False) then (False, False, d)
         else (True, False, AList.update destination (PlainFile written) (AList.update workspace (DirectoryEntry []) d)))"

definition staged_install ::
    "install_world \<Rightarrow> string \<Rightarrow> string \<Rightarrow> AtomicJournalInstallMode \<Rightarrow> string \<Rightarrow> directory
      \<Rightarrow> TunerRecoverySaveResult \<times> directory list" where
  "staged_install w text destination mode workspace d =
    (let d1 = AList.update workspace (DirectoryEntry []) d in
     if w_otherFilesystem w then (refused NotSameFilesystem, [d1, RemoveAtomicWorkspace w workspace d1])
     else if w_openError w then (refused TemporaryNotOpened, [d1, RemoveAtomicWorkspace w workspace d1])
     else
     let d2 = AList.update workspace (DirectoryEntry [(''journal'', [])]) d1;
         (written, writeSucceeded) = w_writer w text;
         d3 = AList.update workspace (DirectoryEntry [(''journal'', written)]) d2 in
     if \<not> writeSucceeded \<or> w_closeError w
     then (refused WriteFailed, [d1, d2, d3, RemoveAtomicWorkspace w workspace d3])
     else if w_fileSyncError w
     then (refused TemporaryNotDurable, [d1, d2, d3, RemoveAtomicWorkspace w workspace d3])
     else
     let d4 = (case w_intruder w of None \<Rightarrow> d3 | Some e \<Rightarrow> AList.update destination e d3);
         (installed, exists, d5) = install_at w mode workspace destination written d4 in
     if \<not> installed
     then ((refused (if exists then AlreadyExists else NotInstalled))\<lparr>sv_destinationAlreadyExists := exists\<rparr>,
           [d1, d2, d3, d4, RemoveAtomicWorkspace w workspace d4])
     else let trace = [d1, d2, d3, d4, d5, RemoveAtomicWorkspace w workspace d5] in
     if w_directorySyncError w then ((refused InstalledNotDurable)\<lparr>sv_destinationInstalled := True\<rparr>, trace)
     else (\<lparr>sv_success = True, sv_message = SavedDurably mode, sv_destinationAlreadyExists = False,
             sv_destinationInstalled = True\<rparr>, trace))"

definition InstallSerializedJournalAtomically ::
    "install_world \<Rightarrow> string \<Rightarrow> string \<Rightarrow> AtomicJournalInstallMode \<Rightarrow> recovery_directory
      \<Rightarrow> TunerRecoverySaveResult \<times> directory list" where
  "InstallSerializedJournalAtomically w text destination mode rd =
    (if w_destinationInvalid w then (refused DestinationInvalid, [])
     else if w_directoryError w then (refused DirectoryNotPrepared, [])
     else case rd of
       DirectoryMissing \<Rightarrow> (refused DirectoryNotPrepared, [])
     | DirectoryNotPlain \<Rightarrow> (refused DirectoryNotPrepared, [])
     | PlainDirectory d \<Rightarrow>
       if w_destinationError w then (refused DestinationUninspectable, [])
       else case map_of d destination of
         Some (DirectoryEntry _) \<Rightarrow> (refused DestinationNotPlain, [])
       | Some (OtherEntry _) \<Rightarrow> (refused DestinationNotPlain, [])
       | found \<Rightarrow>
         if mode = Exclusive \<and> found \<noteq> None then ((refused AlreadyExists)\<lparr>sv_destinationAlreadyExists := True\<rparr>, [])
         else if mode = ReplaceExisting \<and> found = None then (refused PreparedNotPlain, [])
         else case allocate_workspace w d MaximumAtomicJournalCollisions 0 of
           Inl e \<Rightarrow> (refused e, [])
         | Inr workspace \<Rightarrow> staged_install w text destination mode workspace d)"

subsection \<open>Saving, loading and removing\<close>

definition SaveTunerRecoveryJournal ::
    "install_world \<Rightarrow> TunerRecoveryRecord \<Rightarrow> string \<Rightarrow> recovery_directory \<Rightarrow> TunerRecoverySaveResult \<times> directory list" where
  "SaveTunerRecoveryJournal w record path rd =
    (if path = [] then (refused PathEmpty, [])
     else case SerializeTunerRecoveryJournal record of
       Inl e \<Rightarrow> (refused (NotSaved e), [])
     | Inr text \<Rightarrow> InstallSerializedJournalAtomically w text path Upsert rd)"

definition CreateTunerRecoveryJournalExclusive ::
    "install_world \<Rightarrow> TunerRecoveryRecord \<Rightarrow> string \<Rightarrow> recovery_directory \<Rightarrow> TunerRecoverySaveResult \<times> directory list" where
  "CreateTunerRecoveryJournalExclusive w record path rd =
    (if path = [] then (refused PathEmpty, [])
     else case SerializeTunerRecoveryJournal record of
       Inl e \<Rightarrow> (refused (NotCreated e), [])
     | Inr text \<Rightarrow> InstallSerializedJournalAtomically w text path Exclusive rd)"

datatype load_error = LoadPathEmpty | NoJournal | JournalNotOpened | JournalUnreadable | JournalRejected recovery_error

record load_world =
  l_openError :: bool
  l_existsError :: bool
  l_readError :: bool

text \<open>
  What opening an entry gives: a directory opens and yields no character. The flag \<^verbatim>\<open>fileMissing\<close>
  is the error \<open>NoJournal\<close>.
\<close>

definition opened :: "entry option \<Rightarrow> string option" where
  "opened e = (case e of None \<Rightarrow> None | Some (PlainFile t) \<Rightarrow> Some t | Some (DirectoryEntry _) \<Rightarrow> Some [] | Some (OtherEntry t) \<Rightarrow> t)"

definition LoadTunerRecoveryJournal :: "load_world \<Rightarrow> string \<Rightarrow> directory \<Rightarrow> load_error + TunerRecoveryRecord" where
  "LoadTunerRecoveryJournal l path d =
    (if path = [] then Inl LoadPathEmpty
     else case (if l_openError l then None else opened (map_of d path)) of
       None \<Rightarrow> Inl (if map_of d path = None \<and> \<not> l_existsError l then NoJournal else JournalNotOpened)
     | Some contents \<Rightarrow>
       if l_readError l then Inl JournalUnreadable
       else case ParseTunerRecoveryJournal contents of
         Inl e \<Rightarrow> Inl (JournalRejected e)
       | Inr record \<Rightarrow> Inr record)"

definition RemoveTunerRecoveryJournal :: "bool \<Rightarrow> string \<Rightarrow> directory \<Rightarrow> bool \<times> directory" where
  "RemoveTunerRecoveryJournal removeError path d =
    (if path = [] then (True, d) else if removeError then (False, d) else (True, AList.delete path d))"

definition ProjectTunerRecoveryJournalPath :: "string \<Rightarrow> string" where
  "ProjectTunerRecoveryJournalPath projectPath = (if projectPath = [] then [] else projectPath @ ''.recovery'')"

definition SameIdentity :: "TunerRecoveryV5IdentityEvidence \<Rightarrow> TunerRecoveryV5IdentityEvidence \<Rightarrow> bool" where
  "SameIdentity l r \<longleftrightarrow> id_mvlcHardwareId l = id_mvlcHardwareId r \<and> id_mvlcFirmwareRevision l = id_mvlcFirmwareRevision r
     \<and> id_targetBaseAddress l = id_targetBaseAddress r \<and> id_targetHardwareId l = id_targetHardwareId r
     \<and> id_targetFirmwareRevision l = id_targetFirmwareRevision r"

definition identity_only :: "TunerRecoveryV5Data \<Rightarrow> bool" where
  "identity_only prepared \<longleftrightarrow> v5_sessionPhase prepared = Preparing \<and> v5_selectorParkingRequired prepared
     \<and> v5_ownership prepared = None \<and> v5_liveRestoreSnapshot prepared = None \<and> v5_deviations prepared = []"

definition promotes :: "TunerRecoveryV5Data \<Rightarrow> TunerRecoveryV5Data \<Rightarrow> bool" where
  "promotes promoted prepared \<longleftrightarrow> v5_sessionPhase promoted = v5_sessionPhase prepared
     \<and> \<not> v5_selectorParkingRequired promoted \<and> v5_ownership promoted = None
     \<and> v5_liveRestoreSnapshot promoted \<noteq> None \<and> v5_deviations promoted = []
     \<and> v5_endpoint promoted = v5_endpoint prepared \<and> SameIdentity (v5_identity promoted) (v5_identity prepared)"

text \<open>The loaded and the given record as the pair of their version-five data, or the refusal.\<close>

definition PromoteTunerRecoveryJournalV5Snapshot ::
    "install_world \<Rightarrow> load_world \<Rightarrow> TunerRecoveryRecord \<Rightarrow> string \<Rightarrow> recovery_directory
      \<Rightarrow> TunerRecoverySaveResult \<times> directory list" where
  "PromoteTunerRecoveryJournalV5Snapshot w l record path rd =
    (if path = [] then (refused PathEmpty, [])
     else case LoadTunerRecoveryJournal l path (case rd of PlainDirectory d \<Rightarrow> d | _ \<Rightarrow> []) of
       Inl e \<Rightarrow> (refused PreparedNotTrusted, [])
     | Inr loaded \<Rightarrow>
    (case rec_version5 loaded of
       None \<Rightarrow> (refused PreparedNotTrusted, [])
     | Some prepared \<Rightarrow>
    if rec_formatVersion loaded \<noteq> TunerRecoveryJournalV5FormatVersion then (refused PreparedNotTrusted, []) else
    if \<not> identity_only prepared then (refused NotIdentityOnly, []) else
    (case rec_version5 record of
       None \<Rightarrow> (refused PromotedNotV5, [])
     | Some promoted \<Rightarrow>
    if rec_formatVersion record \<noteq> TunerRecoveryJournalV5FormatVersion then (refused PromotedNotV5, []) else
    if \<not> promotes promoted prepared then (refused PromotedMismatch, []) else
    (case SerializeTunerRecoveryJournal record of
       Inl e \<Rightarrow> (refused (NotPromoted e), [])
     | Inr text \<Rightarrow> InstallSerializedJournalAtomically w text path ReplaceExisting rd))))"

subsection \<open>Discovery\<close>

datatype ApplicationRecoveryBlockReason =
    StorageUnavailable | MultipleRecords | MalformedRecord | UnsupportedLegacyVersion

datatype ApplicationRecoveryDiscovery =
    NotScanned
  | NoRecordPresent
  | PendingV5 string TunerRecoveryRecord
  | Blocked ApplicationRecoveryBlockReason "string list"

text \<open>\<open>dw_iterationStops\<close> is the number of entries read before the iteration fails, if it does.\<close>

record discovery_world =
  dw_pathEmpty :: bool
  dw_statusError :: bool
  dw_iterationStops :: "nat option"
  dw_recordStatusError :: bool
  dw_load :: load_world

definition IsJournalStagingEntry :: "string \<Rightarrow> bool" where
  "IsJournalStagingEntry n =
    (let prefix = TunerRecoveryJournalStagingDirectoryPrefix in
     if n = prefix then True
     else if length n \<le> length prefix + 1 \<or> take (length prefix) n \<noteq> prefix \<or> n ! length prefix \<noteq> CHR ''.'' then False
     else list_all is_digit (drop (length prefix + 1) n))"

definition DiscoverApplicationRecovery :: "discovery_world \<Rightarrow> recovery_directory \<Rightarrow> ApplicationRecoveryDiscovery" where
  "DiscoverApplicationRecovery w rd =
    (if dw_pathEmpty w then Blocked StorageUnavailable []
     else if rd = DirectoryMissing then NoRecordPresent
     else if dw_statusError w then Blocked StorageUnavailable []
     else case rd of
       PlainDirectory d \<Rightarrow>
         (case dw_iterationStops w of
            Some n \<Rightarrow> Blocked StorageUnavailable (filter (\<lambda>name. \<not> IsJournalStagingEntry name) (take n (map fst d)))
          | None \<Rightarrow>
         (let recordPaths = sort (filter (\<lambda>name. \<not> IsJournalStagingEntry name) (map fst d)) in
         case recordPaths of
           [] \<Rightarrow> NoRecordPresent
         | recordPath # others \<Rightarrow>
         if others \<noteq> [] then Blocked MultipleRecords recordPaths
         else if dw_recordStatusError w then Blocked MalformedRecord recordPaths
         else (case map_of d recordPath of
           Some (PlainFile _) \<Rightarrow>
             (case LoadTunerRecoveryJournal (dw_load w) recordPath d of
                Inl e \<Rightarrow> Blocked MalformedRecord recordPaths
              | Inr record \<Rightarrow>
                if rec_formatVersion record \<noteq> TunerRecoveryJournalV5FormatVersion \<or> rec_version5 record = None
                then Blocked UnsupportedLegacyVersion recordPaths
                else PendingV5 recordPath record)
         | _ \<Rightarrow> Blocked MalformedRecord recordPaths)))
     | _ \<Rightarrow> Blocked StorageUnavailable [])"

definition ApplicationRecoveryBlocksNormalTuning :: "ApplicationRecoveryDiscovery \<Rightarrow> bool" where
  "ApplicationRecoveryBlocksNormalTuning discovery =
    (case discovery of PendingV5 _ _ \<Rightarrow> True | Blocked _ _ \<Rightarrow> True | _ \<Rightarrow> False)"

definition ApplicationRecoveryHasRetainedEvidence :: "ApplicationRecoveryDiscovery \<Rightarrow> bool" where
  "ApplicationRecoveryHasRetainedEvidence discovery =
    (case discovery of PendingV5 _ _ \<Rightarrow> True | Blocked _ recordPaths \<Rightarrow> recordPaths \<noteq> [] | _ \<Rightarrow> False)"

subsection \<open>What discovery can see\<close>

text \<open>The entries that are not staging workspaces.\<close>

definition visible :: "directory \<Rightarrow> directory" where
  "visible d = filter (\<lambda>(n, e). \<not> IsJournalStagingEntry n) d"

lemma workspace_staging [simp]: "IsJournalStagingEntry (workspace_name attempt)"
  using decimal_digits [of attempt]
  by (simp add: IsJournalStagingEntry_def workspace_name_def Let_def nth_append)

lemma allocated_staging: "allocate_workspace w d n attempt = Inr ws \<Longrightarrow> IsJournalStagingEntry ws"
  by (induction n arbitrary: attempt) (auto split: option.splits if_splits)

lemma visible_update_staging [simp]: "IsJournalStagingEntry n \<Longrightarrow> visible (AList.update n e d) = visible d"
  by (induction d) (auto simp: visible_def)

lemma visible_update [simp]: "\<not> IsJournalStagingEntry n \<Longrightarrow> visible (AList.update n e d) = AList.update n e (visible d)"
  by (induction d) (auto simp: visible_def)

lemma visible_delete_staging [simp]: "IsJournalStagingEntry n \<Longrightarrow> visible (AList.delete n d) = visible d"
  by (induction d) (auto simp: visible_def AList.delete_eq)

lemma visible_remove_workspace [simp]: "IsJournalStagingEntry ws \<Longrightarrow> visible (RemoveAtomicWorkspace w ws d) = visible d"
  by (simp add: RemoveAtomicWorkspace_def split: removal.split)

lemma map_of_visible: "\<not> IsJournalStagingEntry n \<Longrightarrow> map_of (visible d) n = map_of d n"
  by (induction d) (auto simp: visible_def)

lemma visible_names: "map fst (visible d) = filter (\<lambda>n. \<not> IsJournalStagingEntry n) (map fst d)"
  by (induction d) (auto simp: visible_def)

subsection \<open>What an installation leaves\<close>

text \<open>A write that reports success wrote the whole text.\<close>

definition honest_writer :: "install_world \<Rightarrow> bool" where
  "honest_writer w \<longleftrightarrow> (\<forall>t. snd (w_writer w t) \<longrightarrow> fst (w_writer w t) = t)"

definition after_intruder :: "install_world \<Rightarrow> string \<Rightarrow> directory \<Rightarrow> directory" where
  "after_intruder w n d = (case w_intruder w of None \<Rightarrow> d | Some e \<Rightarrow> AList.update n e d)"

lemma visible_intruder [simp]: "\<not> IsJournalStagingEntry n \<Longrightarrow> visible (after_intruder w n d) = after_intruder w n (visible d)"
  by (simp add: after_intruder_def split: option.split)

lemma refused_fields [simp]:
  "sv_success (refused m) = False" "sv_destinationInstalled (refused m) = False" "sv_destinationAlreadyExists (refused m) = False"
  "sv_message (refused m) = m"
  by (simp_all add: refused_def)

text \<open>
  Before the installing call the visible directory is as it was or has the intruder; the text is
  there whole once the result says so, and not before.
\<close>

definition installs_text :: "install_world \<Rightarrow> string \<Rightarrow> string \<Rightarrow> directory \<Rightarrow> TunerRecoverySaveResult \<times> directory list \<Rightarrow> bool" where
  "installs_text w text n d r \<longleftrightarrow>
     (let base = after_intruder w n (visible d); whole = AList.update n (PlainFile text) base in
      (\<forall>t \<in> set (snd r). visible t = visible d \<or> visible t = base \<or> sv_destinationInstalled (fst r) \<and> visible t = whole)
    \<and> (sv_success (fst r) \<longrightarrow> sv_destinationInstalled (fst r))
    \<and> (sv_destinationInstalled (fst r) \<longrightarrow> visible (last (d # snd r)) = whole))"


lemma installs_nothing [simp]: "sv_success r = False \<Longrightarrow> sv_destinationInstalled r = False \<Longrightarrow> installs_text w text n d (r, [])"
  by (simp add: installs_text_def)

lemma staged_install_text:
  assumes "honest_writer w" "IsJournalStagingEntry ws" "\<not> IsJournalStagingEntry n"
  shows "installs_text w text n d (staged_install w text n mode ws d)"
proof -
  obtain written ok where wr: "w_writer w text = (written, ok)" by (cases "w_writer w text")
  with assms(1) have whole: "ok \<Longrightarrow> written = text" by (auto simp: honest_writer_def dest!: spec [of _ "text"])
  have intruder: "(case w_intruder w of None \<Rightarrow> d3 | Some e \<Rightarrow> AList.update n e d3) = after_intruder w n d3" for d3
    by (simp add: after_intruder_def)
  show ?thesis
  proof (cases "w_otherFilesystem w \<or> w_openError w \<or> \<not> ok \<or> w_closeError w \<or> w_fileSyncError w")
    case True
    then show ?thesis using assms(2) wr
      by (auto simp: installs_text_def staged_install_def Let_def)
  next
    case False
    then have same: "written = text" using whole by simp
    let ?d4 = "after_intruder w n (AList.update ws (DirectoryEntry [(''journal'', text)])
      (AList.update ws (DirectoryEntry [(''journal'', [])]) (AList.update ws (DirectoryEntry []) d)))"
    obtain inst ex d5 where step: "install_at w mode ws n text ?d4 = (inst, ex, d5)" by (cases "install_at w mode ws n text ?d4")
    have d5: "visible d5 = AList.update n (PlainFile text) (after_intruder w n (visible d))" if inst
      using that step assms(2,3) by (cases mode) (auto simp: install_at_def split: if_splits)
    show ?thesis
      using False same assms(2,3) wr step d5
      by (cases inst; cases "w_directorySyncError w") (simp_all add: installs_text_def staged_install_def Let_def intruder)
  qed
qed

lemma install_text:
  assumes "honest_writer w" "\<not> IsJournalStagingEntry n"
  shows "installs_text w text n d (InstallSerializedJournalAtomically w text n mode (PlainDirectory d))"
  using staged_install_text [OF assms(1) allocated_staging assms(2)]
  by (auto simp: InstallSerializedJournalAtomically_def split: option.splits entry.splits sum.splits)

lemma exclusive_installs_new:
  assumes "honest_writer w" "\<not> IsJournalStagingEntry n"
    "sv_destinationInstalled (fst (InstallSerializedJournalAtomically w text n Exclusive (PlainDirectory d)))"
  shows "map_of d n = None \<and> w_intruder w = None"
proof -
  have stays: "map_of (AList.update ws e d) n = map_of d n" if "IsJournalStagingEntry ws" for ws e d
    using that assms(2) by (auto simp: AList.update_conv')
  from assms(3) obtain ws where ws: "map_of d n = None" "IsJournalStagingEntry ws"
    "sv_destinationInstalled (fst (staged_install w text n Exclusive ws d))"
    by (auto simp: InstallSerializedJournalAtomically_def dest: allocated_staging split: option.splits entry.splits sum.splits if_splits)
  from ws(3) have "w_intruder w = None"
    by (auto simp: staged_install_def install_at_def Let_def AList.update_conv' split: if_splits prod.splits option.splits)
  with ws(1) show ?thesis by simp
qed

subsection \<open>What discovery finds\<close>

definition quiet :: discovery_world where
  "quiet = \<lparr>dw_pathEmpty = False, dw_statusError = False, dw_iterationStops = None, dw_recordStatusError = False,
     dw_load = \<lparr>l_openError = False, l_existsError = False, l_readError = False\<rparr>\<rparr>"

lemma discover_nothing: "visible t = [] \<Longrightarrow> DiscoverApplicationRecovery quiet (PlainDirectory t) = NoRecordPresent"
  using visible_names [of t] by (simp add: DiscoverApplicationRecovery_def quiet_def)

lemma discover_single:
  assumes "visible t = [(path, PlainFile text)]" "path \<noteq> []" "ParseTunerRecoveryJournal text = Inr r"
    "rec_formatVersion r = TunerRecoveryJournalV5FormatVersion" "rec_version5 r \<noteq> None"
  shows "DiscoverApplicationRecovery quiet (PlainDirectory t) = PendingV5 path r"
proof -
  have names: "filter (\<lambda>n. \<not> IsJournalStagingEntry n) (map fst t) = [path]" using visible_names [of t] assms(1) by simp
  then have "path \<in> set (filter (\<lambda>n. \<not> IsJournalStagingEntry n) (map fst t))" by simp
  then have "\<not> IsJournalStagingEntry path" by simp
  then have "map_of t path = Some (PlainFile text)" using map_of_visible [of path t] assms(1) by simp
  then show ?thesis using names assms(2-5)
    by (simp add: DiscoverApplicationRecovery_def quiet_def LoadTunerRecoveryJournal_def opened_def)
qed

lemma serialized_view_v5:
  assumes "SerializeTunerRecoveryJournal r = Inr t" "rec_formatVersion r = TunerRecoveryJournalV5FormatVersion"
  shows "rec_formatVersion (journal_view r) = TunerRecoveryJournalV5FormatVersion \<and> rec_version5 (journal_view r) \<noteq> None"
  using assms by (cases "SerializeTunerRecoveryJournalV5 r")
    (auto simp: SerializeTunerRecoveryJournal_def journal_view_def elim: serialized_v5)

text \<open>One journal in the directory, read as a version-five record.\<close>

definition holds_journal :: "directory \<Rightarrow> string \<Rightarrow> string \<Rightarrow> TunerRecoveryRecord \<Rightarrow> bool" where
  "holds_journal d path text r \<longleftrightarrow> visible d = [(path, PlainFile text)] \<and> path \<noteq> [] \<and> ParseTunerRecoveryJournal text = Inr r
     \<and> rec_formatVersion r = TunerRecoveryJournalV5FormatVersion \<and> rec_version5 r \<noteq> None"

lemma promote_shape:
  assumes "PromoteTunerRecoveryJournalV5Snapshot w l record path (PlainDirectory d) = (r, states)"
  shows "r = refused (sv_message r) \<and> states = []
    \<or> (\<exists>t. SerializeTunerRecoveryJournal record = Inr t \<and> rec_formatVersion record = TunerRecoveryJournalV5FormatVersion
         \<and> InstallSerializedJournalAtomically w t path ReplaceExisting (PlainDirectory d) = (r, states))"
  using assms by (auto simp: PromoteTunerRecoveryJournalV5Snapshot_def split: if_splits sum.splits option.splits)

lemma promote_installs:
  assumes "honest_writer w" "\<not> IsJournalStagingEntry path"
    and "PromoteTunerRecoveryJournalV5Snapshot w l record path (PlainDirectory d) = (r, states)"
  shows "r = refused (sv_message r) \<and> states = []
    \<or> (\<exists>t. SerializeTunerRecoveryJournal record = Inr t \<and> rec_formatVersion record = TunerRecoveryJournalV5FormatVersion
         \<and> installs_text w t path d (r, states))"
  using promote_shape [OF assms(3)] install_text [OF assms(1,2), of _ d ReplaceExisting] by metis

lemma create_shape:
  assumes "CreateTunerRecoveryJournalExclusive w record path (PlainDirectory d) = (r, states)"
  shows "r = refused (sv_message r) \<and> states = []
    \<or> (\<exists>t. SerializeTunerRecoveryJournal record = Inr t \<and> path \<noteq> []
         \<and> InstallSerializedJournalAtomically w t path Exclusive (PlainDirectory d) = (r, states))"
  using assms by (auto simp: CreateTunerRecoveryJournalExclusive_def split: if_splits sum.splits)

text \<open>A world in which nothing fails, for the witnesses; and a session before and after its capture.\<close>

definition calm_world :: install_world where
  "calm_world = \<lparr>w_destinationInvalid = False, w_directoryError = False, w_destinationError = False,
     w_createError = (\<lambda>_. False), w_existsError = (\<lambda>_. False), w_otherFilesystem = False, w_openError = False,
     w_writer = (\<lambda>t. (t, True)), w_closeError = False, w_fileSyncError = False, w_intruder = None,
     w_installError = False, w_directorySyncError = False, w_removal = RemovedAll\<rparr>"

lemma calm_honest [simp]: "honest_writer calm_world" "w_intruder calm_world = None"
  by (simp_all add: honest_writer_def calm_world_def)

definition sample_prepared :: TunerRecoveryV5Data where
  "sample_prepared = sample_session\<lparr>v5_sessionPhase := Preparing, v5_selectorParkingRequired := True,
     v5_liveRestoreSnapshot := None, v5_deviations := []\<rparr>"

definition sample_captured :: TunerRecoveryV5Data where
  "sample_captured = sample_session\<lparr>v5_sessionPhase := Preparing, v5_deviations := []\<rparr>"

lemma sample_stages:
  "ValidateV5Data sample_prepared = None" "ValidateV5Data sample_captured = None"
  "identity_only sample_prepared" "promotes sample_captured sample_prepared"
  "v5_view sample_prepared = sample_prepared" "v5_view sample_captured = sample_captured"
  "record_wf (v5_record sample_prepared)" "record_wf (v5_record sample_captured)"
proof -
  show "ValidateV5Data sample_prepared = None" "ValidateV5Data sample_captured = None" by code_simp+
  show "identity_only sample_prepared" "promotes sample_captured sample_prepared"
    by (simp_all add: identity_only_def promotes_def SameIdentity_def sample_prepared_def sample_captured_def sample_session_def)
  show "v5_view sample_prepared = sample_prepared" "v5_view sample_captured = sample_captured"
    by (simp_all add: v5_view_def sample_prepared_def sample_captured_def sample_session_def canonical_endpoint_def as_read_def)
  show "record_wf (v5_record sample_prepared)" "record_wf (v5_record sample_captured)"
    using sample_wf(1) by (simp_all add: record_wf_def sample_prepared_def sample_captured_def sample_session_def as_read_def snapshot_wf_def)
qed

lemma serialized_stage:
  "ValidateV5Data d = None \<Longrightarrow> SerializeTunerRecoveryJournal (v5_record d) = Inr (WriteV5 d)"
  by (simp add: SerializeTunerRecoveryJournal_def SerializeTunerRecoveryJournalV5_def)

lemma calm_install:
  assumes "n \<noteq> []" "\<not> IsJournalStagingEntry n"
  shows "sv_success (fst (InstallSerializedJournalAtomically calm_world t n Exclusive (PlainDirectory [])))"
    and "sv_success (fst (InstallSerializedJournalAtomically calm_world t n ReplaceExisting (PlainDirectory [(n, PlainFile t0)])))"
proof -
  have n: "n \<noteq> workspace_name 0" using assms(2) by (metis workspace_staging)
  show "sv_success (fst (InstallSerializedJournalAtomically calm_world t n Exclusive (PlainDirectory [])))"
    "sv_success (fst (InstallSerializedJournalAtomically calm_world t n ReplaceExisting (PlainDirectory [(n, PlainFile t0)])))"
    using n by (simp_all add: InstallSerializedJournalAtomically_def staged_install_def install_at_def calm_world_def Let_def
        MaximumAtomicJournalCollisions_def numeral_eq_Suc AList.update_conv' is_directory_def)
qed

lemma journal_name: "''a.journal'' \<noteq> []" "\<not> IsJournalStagingEntry ''a.journal''"
  by code_simp+

lemma sample_held: "holds_journal [(''a.journal'', PlainFile (WriteV5 sample_prepared))] ''a.journal'' (WriteV5 sample_prepared) (v5_record sample_prepared)"
  using reads_back [OF serialized_stage [OF sample_stages(1)] sample_stages(7)] journal_name(2)
  by (simp add: holds_journal_def visible_def journal_view_def sample_stages(5))

subsection \<open>Properties\<close>

text \<open>
  (C10) Whatever fails and wherever the program stops while it promotes the identity-only journal to
  the captured snapshot, discovery finds one complete journal: the prepared one or the promoted
  one, never none and never a damaged one; and after a reported success, the promoted one.
\<close>
theorem promotion_crash_safe:
  assumes "honest_writer w" "w_intruder w = None" "record_wf record" "holds_journal d path text0 prepared"
    and "PromoteTunerRecoveryJournalV5Snapshot w l record path (PlainDirectory d) = (r, states)"
  shows "(\<forall>t \<in> set (d # states). DiscoverApplicationRecovery quiet (PlainDirectory t)
        \<in> {PendingV5 path prepared, PendingV5 path (journal_view record)})
    \<and> (sv_success r \<longrightarrow> DiscoverApplicationRecovery quiet (PlainDirectory (last (d # states))) = PendingV5 path (journal_view record))"
proof -
  have "path \<in> set (map fst (visible d))" using assms(4) by (simp add: holds_journal_def)
  then have path: "\<not> IsJournalStagingEntry path" unfolding visible_names by simp
  have old: "DiscoverApplicationRecovery quiet (PlainDirectory t) = PendingV5 path prepared" if "visible t = visible d" for t
    using discover_single [of t path text0 prepared] assms(4) that by (simp add: holds_journal_def)
  from promote_installs [OF assms(1) path assms(5)] show ?thesis
  proof (elim disjE exE conjE)
    assume "r = refused (sv_message r)" "states = []"
    moreover from this have "\<not> sv_success r" by (metis refused_fields(1))
    ultimately show ?thesis using old [of d] by simp
  next
    fix tx
    assume ser: "SerializeTunerRecoveryJournal record = Inr tx"
      and v5: "rec_formatVersion record = TunerRecoveryJournalV5FormatVersion" and i: "installs_text w tx path d (r, states)"
    have new: "DiscoverApplicationRecovery quiet (PlainDirectory t) = PendingV5 path (journal_view record)"
      if "visible t = AList.update path (PlainFile tx) (visible d)" for t
      using discover_single [of t path tx "journal_view record"] that assms(4) reads_back [OF ser assms(3)]
        serialized_view_v5 [OF ser v5] by (simp add: holds_journal_def)
    from i assms(2) have states: "\<forall>t \<in> set states. visible t = visible d \<or> visible t = AList.update path (PlainFile tx) (visible d)"
      and final: "sv_success r \<Longrightarrow> visible (last (d # states)) = AList.update path (PlainFile tx) (visible d)"
      by (auto simp: installs_text_def after_intruder_def Let_def)
    have "DiscoverApplicationRecovery quiet (PlainDirectory t) \<in> {PendingV5 path prepared, PendingV5 path (journal_view record)}"
      if "t \<in> set (d # states)" for t
      using that states old [of t] new [of t] by auto
    moreover have "DiscoverApplicationRecovery quiet (PlainDirectory (last (d # states))) = PendingV5 path (journal_view record)" if "sv_success r"
      using new [OF final [OF that]] .
    ultimately show ?thesis by blast
  qed
qed

theorem promotion_crash_safe_witness:
  "DiscoverApplicationRecovery quiet (PlainDirectory (last ([(''a.journal'', PlainFile (WriteV5 sample_prepared))] #
     snd (PromoteTunerRecoveryJournalV5Snapshot calm_world (dw_load quiet) (v5_record sample_captured) ''a.journal''
       (PlainDirectory [(''a.journal'', PlainFile (WriteV5 sample_prepared))])))))
   = PendingV5 ''a.journal'' (v5_record sample_captured)"
proof -
  let ?d = "[(''a.journal'', PlainFile (WriteV5 sample_prepared))]"
  let ?p = "PromoteTunerRecoveryJournalV5Snapshot calm_world (dw_load quiet) (v5_record sample_captured) ''a.journal'' (PlainDirectory ?d)"
  have "LoadTunerRecoveryJournal (dw_load quiet) ''a.journal'' ?d = Inr (v5_record sample_prepared)"
    using sample_held by (simp add: LoadTunerRecoveryJournal_def quiet_def opened_def holds_journal_def)
  then have "sv_success (fst ?p)"
    using sample_stages(3,4) calm_install(2) [OF journal_name]
    by (simp add: PromoteTunerRecoveryJournalV5Snapshot_def serialized_stage [OF sample_stages(2)])
  with promotion_crash_safe [OF calm_honest sample_stages(8) sample_held prod.collapse [symmetric]]
  show ?thesis by (simp add: journal_view_def sample_stages(6))
qed

text \<open>
  (C12) Creating the journal never touches one that is there: an entry found at the destination, or
  put there by another process meanwhile, stays and the creation reports no success. In a recovery
  directory without records, a creation that stops anywhere leaves no record or the complete one,
  and after a reported success the complete one.
\<close>
theorem creation_never_overwrites:
  assumes "honest_writer w" "record_wf record" "\<not> IsJournalStagingEntry path"
    and "rec_formatVersion record = TunerRecoveryJournalV5FormatVersion"
    and "CreateTunerRecoveryJournalExclusive w record path (PlainDirectory d) = (r, states)"
  shows "(map_of d path \<noteq> None \<or> w_intruder w \<noteq> None \<longrightarrow>
      \<not> sv_success r \<and> (\<forall>t \<in> set states. visible t \<in> {visible d, after_intruder w path (visible d)}))
    \<and> (visible d = [] \<and> w_intruder w = None \<longrightarrow>
      (\<forall>t \<in> set (d # states). DiscoverApplicationRecovery quiet (PlainDirectory t)
        \<in> {NoRecordPresent, PendingV5 path (journal_view record)})
      \<and> (sv_success r \<longrightarrow> DiscoverApplicationRecovery quiet (PlainDirectory (last (d # states))) = PendingV5 path (journal_view record)))"
  using create_shape [OF assms(5)]
proof (elim disjE exE conjE)
  assume r: "r = refused (sv_message r)" "states = []"
  then have "\<not> sv_success r" by (metis refused_fields(1))
  then show ?thesis using r(2) discover_nothing [of d] by simp
next
  fix t
  assume ser: "SerializeTunerRecoveryJournal record = Inr t" and path: "path \<noteq> []"
    and at: "InstallSerializedJournalAtomically w t path Exclusive (PlainDirectory d) = (r, states)"
  have i: "installs_text w t path d (r, states)" using install_text [OF assms(1,3), of t d Exclusive] at by simp
  have fresh: "map_of d path = None \<and> w_intruder w = None" if "sv_destinationInstalled r"
    using exclusive_installs_new [OF assms(1,3), of t d] that at by simp
  from i have success: "sv_success r \<Longrightarrow> sv_destinationInstalled r" by (simp add: installs_text_def Let_def)
  have kept: "\<not> sv_success r \<and> (\<forall>t \<in> set states. visible t \<in> {visible d, after_intruder w path (visible d)})"
    if "map_of d path \<noteq> None \<or> w_intruder w \<noteq> None"
    using that i fresh success by (auto simp: installs_text_def Let_def)
  have new: "DiscoverApplicationRecovery quiet (PlainDirectory u) = PendingV5 path (journal_view record)"
    if "visible u = [(path, PlainFile t)]" for u
    using discover_single [OF that path reads_back [OF ser assms(2)]] serialized_view_v5 [OF ser assms(4)] by simp
  show ?thesis
  proof (intro conjI impI)
    assume empty: "visible d = [] \<and> w_intruder w = None"
    then have states: "\<forall>u \<in> set (d # states). visible u = [] \<or> visible u = [(path, PlainFile t)]"
      using i by (auto simp: installs_text_def Let_def after_intruder_def)
    then show "\<forall>u \<in> set (d # states). DiscoverApplicationRecovery quiet (PlainDirectory u) \<in> {NoRecordPresent, PendingV5 path (journal_view record)}"
      using new discover_nothing by blast
    assume "sv_success r"
    then have "visible (last (d # states)) = [(path, PlainFile t)]"
      using i empty success by (simp add: installs_text_def Let_def after_intruder_def)
    then show "DiscoverApplicationRecovery quiet (PlainDirectory (last (d # states))) = PendingV5 path (journal_view record)" by (rule new)
  qed (use kept in blast)+
qed

theorem creation_never_overwrites_witness:
  "DiscoverApplicationRecovery quiet (PlainDirectory (last ([] #
     snd (CreateTunerRecoveryJournalExclusive calm_world (v5_record sample_prepared) ''a.journal'' (PlainDirectory [])))))
   = PendingV5 ''a.journal'' (v5_record sample_prepared)"
proof -
  have "sv_success (fst (CreateTunerRecoveryJournalExclusive calm_world (v5_record sample_prepared) ''a.journal'' (PlainDirectory [])))"
    using calm_install(1) [OF journal_name] by (simp add: CreateTunerRecoveryJournalExclusive_def serialized_stage [OF sample_stages(1)])
  with creation_never_overwrites [OF calm_honest(1) sample_stages(7) journal_name(2) _ prod.collapse [symmetric]]
  show ?thesis by (simp add: journal_view_def sample_stages(5) visible_def)
qed

end
