(* ===== verification/Tuner_Snapshot.thy ===== *)
theory Tuner_Snapshot
  imports Guided_Workflow Journal_Store
begin

text \<open>
  The inputs of the guided workflow from the tuner's snapshot, \<^verbatim>\<open>core/TunerSnapshot.cpp\<close>, with the
  members of \<^verbatim>\<open>TunerSnapshot\<close> that are read: what recovery discovery found blocks the workflow.
\<close>

record TunerSnapshot =
  ts_applicationRecovery :: ApplicationRecoveryDiscovery
  ts_projectActive :: bool
  ts_targetSupported :: bool
  ts_ownership :: GuidedTunerOwnershipState
  ts_mvmeHandoffConfirmed :: bool
  ts_recoveryRecordAvailable :: bool
  ts_activeOperation :: GuidedTunerOperation
  ts_profileLoadedForTarget :: bool
  ts_startupAuditCompleteForTarget :: bool
  ts_startupAuditReady :: bool
  ts_configurationCompleteForTarget :: bool
  ts_configurationFresh :: bool
  ts_profileMatchesExactly :: bool
  ts_startupPlanAvailable :: bool
  ts_deterministicStartupPassed :: bool
  ts_acquisition :: GuidedTunerAcquisitionState
  ts_cleanupVerified :: bool

definition MakeGuidedTunerInputs :: "TunerSnapshot \<Rightarrow> GuidedTunerInputs" where
  "MakeGuidedTunerInputs snapshot =
    \<lparr>gi_projectActive = ts_projectActive snapshot,
     gi_targetSupported = ts_targetSupported snapshot,
     gi_ownership = ts_ownership snapshot,
     gi_mvmeHandoffConfirmed = ts_mvmeHandoffConfirmed snapshot,
     gi_recoveryRecordAvailable = (ts_recoveryRecordAvailable snapshot
       \<or> ApplicationRecoveryBlocksNormalTuning (ts_applicationRecovery snapshot)),
     gi_activeOperation = ts_activeOperation snapshot,
     gi_profileLoadedForTarget = ts_profileLoadedForTarget snapshot,
     gi_startupAuditCompleteForTarget = ts_startupAuditCompleteForTarget snapshot,
     gi_startupAuditReady = ts_startupAuditReady snapshot,
     gi_configurationCompleteForTarget = ts_configurationCompleteForTarget snapshot,
     gi_configurationFresh = ts_configurationFresh snapshot,
     gi_profileMatchesExactly = ts_profileMatchesExactly snapshot,
     gi_startupPlanAvailable = ts_startupPlanAvailable snapshot,
     gi_deterministicStartupPassed = ts_deterministicStartupPassed snapshot,
     gi_acquisition = ts_acquisition snapshot,
     gi_cleanupVerified = ts_cleanupVerified snapshot\<rparr>"

text \<open>A visible entry of the recovery directory is never taken for an empty directory.\<close>

lemma discovery_blocks:
  assumes "visible d \<noteq> []"
  shows "ApplicationRecoveryBlocksNormalTuning (DiscoverApplicationRecovery w (PlainDirectory d))"
proof -
  have "filter (\<lambda>n. \<not> IsJournalStagingEntry n) (map fst d) \<noteq> []" using assms visible_names [of d] by (metis map_is_Nil_conv)
  then have "sort (filter (\<lambda>n. \<not> IsJournalStagingEntry n) (map fst d)) \<noteq> []" by (metis length_sort length_0_conv)
  then show ?thesis
    by (auto simp: ApplicationRecoveryBlocksNormalTuning_def DiscoverApplicationRecovery_def Let_def
        split: option.splits list.splits entry.splits sum.splits)
qed

text \<open>
  (C33) Whatever a recovery directory holds besides abandoned staging workspaces, whatever fails
  while it is inspected and whatever else the snapshot says, the workflow offers recovery and
  nothing else.
\<close>
theorem retained_record_blocks_workflow:
  assumes "visible d \<noteq> []" "ts_applicationRecovery snapshot = DiscoverApplicationRecovery w (PlainDirectory d)"
  shows "PlanGuidedTunerWorkflow (MakeGuidedTunerInputs snapshot) =
    MakeDecision StageResolveRecovery DoRecoveryControls ToneBlocked 2"
  using discovery_blocks [OF assms(1)] assms(2)
  by (simp add: PlanGuidedTunerWorkflow_def MakeGuidedTunerInputs_def)

definition sample_restarted :: TunerSnapshot where
  "sample_restarted = \<lparr>ts_applicationRecovery = DiscoverApplicationRecovery quiet
       (PlainDirectory [(''.fidget-journal-staging'', DirectoryEntry []), (''a.journal'', PlainFile ''damaged'')]),
     ts_projectActive = True, ts_targetSupported = True, ts_ownership = OwnerSessionOpen, ts_mvmeHandoffConfirmed = True,
     ts_recoveryRecordAvailable = False, ts_activeOperation = OperationNone, ts_profileLoadedForTarget = True,
     ts_startupAuditCompleteForTarget = True, ts_startupAuditReady = True, ts_configurationCompleteForTarget = True,
     ts_configurationFresh = True, ts_profileMatchesExactly = True, ts_startupPlanAvailable = True,
     ts_deterministicStartupPassed = True, ts_acquisition = AcquisitionNotRun, ts_cleanupVerified = True\<rparr>"

theorem retained_record_blocks_workflow_witness:
  "gd_nextAction (PlanGuidedTunerWorkflow (MakeGuidedTunerInputs sample_restarted)) = DoRecoveryControls"
proof -
  let ?d = "[(''.fidget-journal-staging'', DirectoryEntry []), (''a.journal'', PlainFile ''damaged'')]"
  have "visible ?d \<noteq> []" using journal_name(2) by (simp add: visible_def)
  moreover have "ts_applicationRecovery sample_restarted = DiscoverApplicationRecovery quiet (PlainDirectory ?d)"
    by (simp add: sample_restarted_def)
  ultimately show ?thesis using retained_record_blocks_workflow by simp
qed

end
