(* ===== verification/Lifted_Transport.thy ===== *)
theory Lifted_Transport
  imports Module_Bus
begin

text \<open>
  A transport whose world is a part of a larger state: an operation that runs another one with
  closures over its own local variables gives it a transport on these variables and the world. What
  the inner operation does there is what it does on the world alone, and the variables stay as they
  are; so the contracts of \<open>Module_Bus\<close> carry over.
\<close>

definition carry :: "('s \<Rightarrow> 'w) \<Rightarrow> ('w \<Rightarrow> 's \<Rightarrow> 's) \<Rightarrow> ('w \<Rightarrow> 'a \<times> 'w) \<Rightarrow> 's \<Rightarrow> 'a \<times> 's" where
  "carry view put f s = (case f (view s) of (a, w) \<Rightarrow> (a, put w s))"

definition lifted :: "('s \<Rightarrow> 'w) \<Rightarrow> ('w \<Rightarrow> 's \<Rightarrow> 's) \<Rightarrow> 'w transport \<Rightarrow> 's transport" where
  "lifted view put T = \<lparr>t_send = (\<lambda>b. carry view put (t_send T b)),
     t_receive = (\<lambda>n t. carry view put (t_receive T n t)), t_cancelled = carry view put (t_cancelled T)\<rparr>"

locale world_lens =
  fixes view :: "'s \<Rightarrow> 'w" and put :: "'w \<Rightarrow> 's \<Rightarrow> 's"
  assumes view_put [simp]: "view (put w s) = w"
    and put_put [simp]: "put w (put w' s) = put w s"
begin

lemma lifted_simps [simp]:
  "t_send (lifted view put T) b s = carry view put (t_send T b) s"
  "t_receive (lifted view put T) n t s = carry view put (t_receive T n t) s"
  "t_cancelled (lifted view put T) s = carry view put (t_cancelled T) s"
  by (simp_all add: lifted_def)

lemma SendWords_lifted: "SendWords (lifted view put T) ws s = carry view put (SendWords T ws) s"
  by (simp add: SendWords_def carry_def split: prod.split)

lemma ReceiveFrames_lifted: "ReceiveFrames (lifted view put T) s = carry view put (ReceiveFrames T) s"
  by (simp add: ReceiveFrames_def carry_def split: prod.split)

lemma carry_eq: "f (view s) = (a, w) \<Longrightarrow> carry view put f s = (a, put w s)"
  by (simp add: carry_def)

lemma upload_loop_lifted: "upload_loop (lifted view put T) u n s = carry view put (upload_loop T u n) s"
proof (induction n arbitrary: s)
  case 0
  show ?case by (simp add: upload_end_def carry_def split: prod.split)
next
  case (Suc n)
  obtain c w1 where c: "t_cancelled T (view s) = (c, w1)" by (cases "t_cancelled T (view s)")
  obtain q w2 where q: "ReceiveFrames T w1 = (q, w2)" by (cases "ReceiveFrames T w1")
  obtain c' w1' where c': "t_cancelled T w1 = (c', w1')" by (cases "t_cancelled T w1")
  show ?case using c q c'
    by (simp add: ReceiveFrames_lifted upload_end_def Suc.IH carry_def split: sum.split option.split prod.split)
qed

lemma UploadStack_lifted: "UploadStack (lifted view put T) u k ops s = carry view put (UploadStack T u k ops) s"
proof -
  obtain q w1 where "SendWords T (BuildMvlcStackUploadRequest u k ops) (view s) = (q, w1)"
    by (cases "SendWords T (BuildMvlcStackUploadRequest u k ops) (view s)")
  then show ?thesis
    by (simp add: UploadStack_def SendWords_lifted carry_def upload_loop_lifted split: sum.split prod.split)
qed

lemma execute_loop_lifted: "execute_loop (lifted view put T) u k n seen s = carry view put (execute_loop T u k n seen) s"
proof (induction n arbitrary: seen s)
  case 0
  show ?case by (simp add: execute_end_def carry_def split: prod.split)
next
  case (Suc n)
  obtain c w1 where c: "t_cancelled T (view s) = (c, w1)" by (cases "t_cancelled T (view s)")
  obtain q w2 where q: "ReceiveFrames T w1 = (q, w2)" by (cases "ReceiveFrames T w1")
  obtain c' w1' where c': "t_cancelled T w1 = (c', w1')" by (cases "t_cancelled T w1")
  show ?case using c q c'
    by (auto simp: ReceiveFrames_lifted execute_end_def Suc.IH carry_def split: sum.splits option.splits prod.splits bool.splits)
qed

lemma ExecuteStack_lifted: "ExecuteStack (lifted view put T) u k s = carry view put (ExecuteStack T u k) s"
proof -
  obtain q w1 where "SendWords T (BuildMvlcStackExecuteRequest u) (view s) = (q, w1)"
    by (cases "SendWords T (BuildMvlcStackExecuteRequest u) (view s)")
  then show ?thesis
    by (simp add: ExecuteStack_def SendWords_lifted carry_def execute_loop_lifted split: sum.split prod.split)
qed

text \<open>The operations on a bus: counters beside the world.\<close>

definition carry_bus :: "(references \<Rightarrow> 'w \<Rightarrow> 'a \<times> references \<times> 'w) \<Rightarrow> references \<Rightarrow> 's \<Rightarrow> 'a \<times> references \<times> 's" where
  "carry_bus f refs s = (case f refs (view s) of (a, refs, w) \<Rightarrow> (a, refs, put w s))"

lemma transaction_loop_lifted:
  "transaction_loop (lifted view put T) ops n lr refs s = carry_bus (transaction_loop T ops n lr) refs s"
proof (induction n arbitrary: lr refs s)
  case 0
  show ?case by (simp add: transaction_end_def carry_def carry_bus_def split: prod.split)
next
  case (Suc n)
  let ?u = "nextSuperReference refs" and ?k = "nextStackReference refs"
  obtain c w1 where c: "t_cancelled T (view s) = (c, w1)" by (cases "t_cancelled T (view s)")
  obtain c' w1' where c': "t_cancelled T w1 = (c', w1')" by (cases "t_cancelled T w1")
  obtain q w2 where q: "UploadStack T ?u ?k ops w1 = (q, w2)" by (cases "UploadStack T ?u ?k ops w1")
  obtain x w3 where x: "ExecuteStack T (?u + 1) ?k w2 = (x, w3)" by (cases "ExecuteStack T (?u + 1) ?k w2")
  show ?case using c c' q x
    by (simp add: UploadStack_lifted ExecuteStack_lifted transaction_end_def Suc.IH Let_def carry_def carry_bus_def
        split: sum.split prod.split)
qed

lemma readRegister_lifted:
  "readRegister (lifted view put T) base r b = carry_bus (ReadVmeD16 T (base + ucast r)) (fst b) (snd b)"
  by (auto simp: readRegister_def ReadVmeD16_def RunStackTransaction_def transaction_loop_lifted carry_bus_def split: prod.splits)

lemma writeRegister_lifted:
  "writeRegister (lifted view put T) base r v b = carry_bus (WriteVmeD16 T (base + ucast r) v) (fst b) (snd b)"
  by (auto simp: writeRegister_def WriteVmeD16_def RunStackTransaction_def transaction_loop_lifted carry_bus_def split: prod.splits)

lemma read_of_lifted:
  assumes "readRegister (lifted view put T) base r b = (x, b')"
  shows "\<exists>w'. readRegister T base r (fst b, view (snd b)) = (x, fst b', w') \<and> snd b' = put w' (snd b)"
  using assms unfolding readRegister_lifted carry_bus_def by (auto simp: readRegister_def split: prod.splits)

lemma write_of_lifted:
  assumes "writeRegister (lifted view put T) base r v b = (x, b')"
  shows "\<exists>w'. writeRegister T base r v (fst b, view (snd b)) = (x, fst b', w') \<and> snd b' = put w' (snd b)"
  using assms unfolding writeRegister_lifted carry_bus_def by (auto simp: writeRegister_def split: prod.splits)

lemma honest_lifted:
  assumes "honest_module T base dev"
  shows "honest_module (lifted view put T) base (\<lambda>s. dev (view s))"
proof -
  note laws = honest_module.read_keeps [OF assms] honest_module.read_shows [OF assms] honest_module.write_happened [OF assms]
    honest_module.write_maybe [OF assms] honest_module.cancelled_keeps [OF assms]
  show ?thesis
  proof unfold_locales
    fix r v b x b' e u
    show "readRegister (lifted view put T) base r b = (x, b') \<Longrightarrow> dev (view (snd b')) = dev (view (snd b))"
      using laws(1) by (fastforce dest!: read_of_lifted)
    show "readRegister (lifted view put T) base r b = (Inr v, b') \<Longrightarrow> v = mdpp_read (dev (view (snd b))) r"
      using laws(2) by (fastforce dest!: read_of_lifted)
    show "writeRegister (lifted view put T) base r v b = (Inr u, b') \<Longrightarrow>
        dev (view (snd b')) = mdpp_write (dev (view (snd b))) r v"
      using laws(3) by (fastforce dest!: write_of_lifted)
    show "writeRegister (lifted view put T) base r v b = (Inl e, b') \<Longrightarrow>
        dev (view (snd b')) = dev (view (snd b)) \<or> dev (view (snd b')) = mdpp_write (dev (view (snd b))) r v"
      using laws(4) by (fastforce dest!: write_of_lifted)
    show "dev (view (snd (t_cancelled (lifted view put T) s))) = dev (view s)" for s
      using laws(5) by (simp add: carry_def split: prod.split) (metis snd_conv)
  qed
qed

lemma responsive_lifted:
  assumes "responsive_module T base dev"
  shows "responsive_module (lifted view put T) base (\<lambda>s. dev (view s))"
proof -
  have "\<exists>v b'. readRegister (lifted view put T) base r b = (Inr v, b')" for r b
    using responsive_module.read_returns [OF assms, of r "(fst b, view (snd b))"]
    unfolding readRegister_lifted carry_bus_def by (auto simp: readRegister_def)
  moreover have "\<exists>b'. writeRegister (lifted view put T) base r v b = (Inr (), b')" for r v b
    using responsive_module.write_returns [OF assms, of r v "(fst b, view (snd b))"]
    unfolding writeRegister_lifted carry_bus_def by (auto simp: writeRegister_def)
  ultimately show ?thesis
    unfolding responsive_module_def responsive_module_axioms_def
    using honest_lifted [OF responsive_module.axioms(1) [OF assms]] by blast
qed

end

end
