(* ===== verification/Controller_Bus.thy ===== *)
theory Controller_Bus
  imports Simulated_Module
begin

text \<open>
  What the operations that read local registers of the controller share: the batch read on the counters
  of an operation, the requests that only read, the contracts \<open>honest_controller\<close> and
  \<open>responsive_controller\<close>, and the simulated controller with its local registers, which meets them: it
  answers a batch of local reads from a function of register values and everything else as
  \<open>Simulated_Module\<close> does.
\<close>

subsection \<open>Local registers on a bus\<close>

text \<open>
  A batch read with the counters of the operation. A transport that reports more bytes than it
  placed would make the parser read outside the buffer; this run, which has no successor in the
  code, ends here without a text.
\<close>

definition readLocal :: "'w transport \<Rightarrow> u16 list \<Rightarrow> 'w bus \<Rightarrow> (vme_error option + u32 list) \<times> 'w bus" where
  "readLocal transport addresses bus =
    (case ReadLocalRegisters transport addresses (nextSuperReference (fst bus)) (snd bus) of (r, u, w) \<Rightarrow>
      (case r of Some x \<Rightarrow> x | None \<Rightarrow> Inl None, (fst bus)\<lparr>nextSuperReference := u\<rparr>, w))"

subsection \<open>The requests\<close>

definition batch_read_bytes :: "u16 \<Rightarrow> u16 list \<Rightarrow> byte list" where
  "batch_read_bytes u addresses = EncodeMvlcWordsLittleEndian ([MvlcCommandBufferStart, MvlcReferenceWordCommand OR ucast u]
     @ map (\<lambda>a. MvlcReadLocalCommand OR ucast a) addresses @ [MvlcCommandBufferEnd])"

text \<open>A request that reads: a batch of local registers, the upload of a register read, or a trigger.\<close>

definition reading :: "u32 \<Rightarrow> byte list \<Rightarrow> bool" where
  "reading base bytes \<longleftrightarrow> permitted base (\<lambda>_ _. False) bytes \<or> (\<exists>u addresses. bytes = batch_read_bytes u addresses)"

definition only_reading :: "u32 \<Rightarrow> event list \<Rightarrow> bool" where
  "only_reading base es \<longleftrightarrow> list_all (reading base) (sends es)"

lemma readLocal_observed:
  assumes "readLocal (observed T) addresses (refs, w, l) = (x, refs', w', l')" "reports_capacity T" "addresses \<noteq> []"
  shows "\<exists>es. l' = l @ es \<and> list_all (\<lambda>b. b = batch_read_bytes (nextSuperReference refs) addresses) (sends es)
    \<and> (\<forall>vs. x = Inr vs \<longrightarrow> batch_received (nextSuperReference refs) addresses vs es \<and> length vs = length addresses)"
proof -
  let ?u = "nextSuperReference refs"
  obtain q w1 l1 where q: "batch_attempts (observed T) (batch_read_bytes ?u addresses) ?u addresses MvlcFingerprintReadAttemptCount
      empty_buffer (w, l) = (q, w1, l1)"
    by (cases "batch_attempts (observed T) (batch_read_bytes ?u addresses) ?u addresses MvlcFingerprintReadAttemptCount
      empty_buffer (w, l)")
  then have eq: "w1 = w'" "l1 = l'" "x = (case q of Some y \<Rightarrow> y | None \<Rightarrow> Inl None)"
    using assms(1,3) by (auto simp: readLocal_def ReadLocalRegisters_def BuildMvlcLocalRegisterBatchReadRequest_def
        batch_read_bytes_def Let_def)
  obtain es m where es: "l' = l @ es" "sends es = replicate m (batch_read_bytes ?u addresses)" "q \<noteq> None"
      "\<forall>vs. q = Some (Inr vs) \<longrightarrow> batch_received ?u addresses vs es"
    using batch_attempts_observed [OF q assms(2)] eq(2) by blast
  have "length vs = length addresses" if "batch_received ?u addresses vs es" for vs
    using that batch_match_length [of _ _ ?u addresses] by (fastforce simp: batch_received_def)
  then show ?thesis using es eq(3) by (intro exI [of _ es]) (auto simp: list_all_iff)
qed

text \<open>What every send, reception and test of the flag keeps, a batch read keeps.\<close>

lemma batch_replies_I:
  assumes "\<And>n t w. I w \<Longrightarrow> I (snd (t_receive T n t w))" "\<And>w. I w \<Longrightarrow> I (snd (t_cancelled T w))" "I w"
  shows "I (snd (snd (batch_replies T u as n buffer w)))"
  using assms(3)
proof (induction n arbitrary: buffer w)
  case (Suc n)
  obtain c w1 where c: "t_cancelled T w = (c, w1)" by (cases "t_cancelled T w")
  obtain r w2 where r: "t_receive T (length buffer) MvlcCommandResponseTimeoutMilliseconds w1 = (r, w2)"
    by (cases "t_receive T (length buffer) MvlcCommandResponseTimeoutMilliseconds w1")
  have "I w1" using assms(2) [OF Suc.prems] c by simp
  moreover from this have "I w2" using assms(1) [of w1 "length buffer" MvlcCommandResponseTimeoutMilliseconds] r by simp
  ultimately show ?case using c r Suc.IH by (simp add: Let_def split: option.split)
qed simp

lemma batch_attempts_I:
  assumes send: "\<And>w. I w \<Longrightarrow> I (snd (t_send T bytes w))"
    and receive: "\<And>n t w. I w \<Longrightarrow> I (snd (t_receive T n t w))" and flag: "\<And>w. I w \<Longrightarrow> I (snd (t_cancelled T w))"
    and "I w"
  shows "I (snd (batch_attempts T bytes u as n buffer w))"
  using assms(4)
proof (induction n arbitrary: buffer w)
  case 0
  then show ?case using flag by (simp add: batch_end_def case_prod_beta)
next
  case (Suc n)
  obtain c w1 where c: "t_cancelled T w = (c, w1)" by (cases "t_cancelled T w")
  obtain x w2 where x: "t_send T bytes w1 = (x, w2)" by (cases "t_send T bytes w1")
  obtain q buffer' w3 where q: "batch_replies T u as MvlcMaximumResponseDatagrams buffer w2 = (q, buffer', w3)"
    by (cases "batch_replies T u as MvlcMaximumResponseDatagrams buffer w2")
  have w1: "I w1" using flag [OF Suc.prems] c by simp
  then have w2: "I w2" using send [OF w1] x by simp
  have w3: "I w3" using batch_replies_I [of I T w2 u as MvlcMaximumResponseDatagrams buffer, OF receive flag w2] q by simp
  show ?case
    using c x q w1 w2 w3 flag [OF w1] Suc.IH [OF w3, of buffer']
    by (auto simp: batch_end_def case_prod_beta split: option.split sum.split)
qed

lemma readLocal_I:
  assumes "\<And>w. I w \<Longrightarrow> I (snd (t_send T (batch_read_bytes (nextSuperReference (fst b)) addresses) w))"
    and "\<And>n t w. I w \<Longrightarrow> I (snd (t_receive T n t w))" "\<And>w. I w \<Longrightarrow> I (snd (t_cancelled T w))" "I (snd b)"
  shows "I (snd (snd (readLocal T addresses b)))"
  using batch_attempts_I [of I T, OF assms] assms(4)
  by (auto simp: readLocal_def ReadLocalRegisters_def BuildMvlcLocalRegisterBatchReadRequest_def Let_def case_prod_beta batch_read_bytes_def)

text \<open>A property of the world that reading keeps is kept by an operation that reads.\<close>

locale reading_invariant =
  fixes T :: "'w transport" and base :: u32 and I :: "'w \<Rightarrow> bool"
  assumes register_I: "I (snd b) \<Longrightarrow> I (snd (snd (readRegister T base r b)))"
    and local_I: "I (snd b) \<Longrightarrow> I (snd (snd (readLocal T addresses b)))"
    and flag_I: "I w \<Longrightarrow> I (snd (t_cancelled T w))"

lemma batch_reading: "reading base (batch_read_bytes u addresses)"
  unfolding reading_def by blast

lemma register_sends:
  assumes "readRegister (observed T) base r (refs, w, l) = (x, refs', w', l')"
  shows "\<exists>es. l' = l @ es \<and> list_all (permitted base may_write) (sends es)"
proof -
  obtain q refs1 w1 l1 where q: "RunStackTransaction (observed T) (EncodeMvlcVmeReadD16Words (base + ucast r)) refs (w, l) = (q, refs1, w1, l1)"
    by (cases "RunStackTransaction (observed T) (EncodeMvlcVmeReadD16Words (base + ucast r)) refs (w, l)") auto
  then have "l1 = l'" using assms by (simp add: readRegister_def ReadVmeD16_def)
  moreover obtain es where "l1 = l @ es" "transaction_sound (EncodeMvlcVmeReadD16Words (base + ucast r)) MvlcTransactionAttemptCount refs es q refs1"
    using transaction_loop_observed [of T _ MvlcTransactionAttemptCount new_execution refs w l q refs1 w1 l1] q
    by (auto simp: RunStackTransaction_def retryable_def new_execution_def)
  ultimately show ?thesis using attempts_permitted by (fastforce simp: transaction_sound_def)
qed

interpretation read_wire: reading_invariant "observed T" base "\<lambda>wl. only_reading base (snd wl)"
  for T :: "'w transport" and base
proof unfold_locales
  fix b :: "('w \<times> event list) bus" and r addresses
  let ?I = "\<lambda>wl :: 'w \<times> event list. only_reading base (snd wl)"
  obtain refs w l where b: "b = (refs, w, l)" by (cases b)
  show "?I (snd b) \<Longrightarrow> ?I (snd (snd (readRegister (observed T) base r b)))"
    using register_sends [of T base r refs w l _ _ _ _ "\<lambda>_ _. False"] b
    by (cases "readRegister (observed T) base r b") (fastforce simp: only_reading_def reading_def list_all_iff)
  have send: "?I wl \<Longrightarrow> ?I (snd (t_send (observed T) (batch_read_bytes u as) wl))" for u as wl
    by (cases wl) (simp add: only_reading_def batch_reading split: prod.split)
  have receive: "?I wl \<Longrightarrow> ?I (snd (t_receive (observed T) n t wl))" for n t wl
    by (cases wl) (simp add: only_reading_def split: prod.split)
  have flag: "?I wl \<Longrightarrow> ?I (snd (t_cancelled (observed T) wl))" for wl by (cases wl) (simp split: prod.split)
  show "?I (snd b) \<Longrightarrow> ?I (snd (snd (readLocal (observed T) addresses b)))"
    by (rule readLocal_I [of ?I "observed T", OF send receive flag])
  show "?I wl \<Longrightarrow> ?I (snd (t_cancelled (observed T) wl))" for wl by (rule flag)
qed

subsection \<open>Controllers with a module\<close>

text \<open>Reading local registers leaves the module alone.\<close>

locale honest_controller = honest_module T base dev
  for T :: "'w transport" and base dev +
  assumes local_keeps: "readLocal T addresses b = (x, b') \<Longrightarrow> dev (snd b') = dev (snd b)"

sublocale honest_controller \<subseteq> module_kept: reading_invariant T base "\<lambda>w. dev w = m" for m
proof unfold_locales
  fix b r addresses
  show "dev (snd b) = m \<Longrightarrow> dev (snd (snd (readRegister T base r b))) = m"
    using read_keeps [OF surjective_pairing, of r b] by simp
  show "dev (snd b) = m \<Longrightarrow> dev (snd (snd (readLocal T addresses b))) = m"
    using local_keeps [OF surjective_pairing, of addresses b] by simp
  show "dev w = m \<Longrightarrow> dev (snd (t_cancelled T w)) = m" for w using cancelled_keeps [of w] by simp
qed

text \<open>A controller that also answers: a batch of at most sixteen local registers, and every access.\<close>

locale responsive_controller = honest_controller T base dev + responsive_module T base dev
  for T :: "'w transport" and base dev +
  fixes regs :: "u16 \<Rightarrow> u32"
  assumes local_returns: "addresses \<noteq> [] \<Longrightarrow> length addresses \<le> 16 \<Longrightarrow> \<exists>b'. readLocal T addresses b = (Inr (map regs addresses), b')"
    and not_cancelled: "fst (t_cancelled T w) = False"
begin

lemma local_answer:
  assumes "addresses \<noteq> []" "length addresses \<le> 16"
  obtains b' where "readLocal T addresses b = (Inr (map regs addresses), b')" "dev (snd b') = dev (snd b)"
  using local_returns [OF assms, of b] local_keeps by metis

end

subsection \<open>The simulated controller\<close>

definition local_reads :: "u32 list \<Rightarrow> bool" where
  "local_reads commands \<longleftrightarrow> length commands \<ge> 2
     \<and> list_all (\<lambda>c. drop_bit 16 c = drop_bit 16 MvlcReadLocalCommand) (butlast commands)"

definition read_pairs :: "(u16 \<Rightarrow> u32) \<Rightarrow> u32 list \<Rightarrow> u32 list" where
  "read_pairs regs commands = concat (map (\<lambda>c. [c, regs (ucast c)]) commands)"

definition batch_header :: "nat \<Rightarrow> u32" where
  "batch_header n = 0xF1000000 + of_nat (1 + 2 * n)"

definition controller_send :: "u32 \<Rightarrow> (u16 \<Rightarrow> u32) \<Rightarrow> byte list \<Rightarrow> sim \<Rightarrow> sim" where
  "controller_send base regs bytes w =
    (case words_of bytes of
       start # mirror # commands \<Rightarrow>
         if local_reads commands
         then w\<lparr>sim_replies := [reply_packet (batch_header (length commands - 1) # mirror # read_pairs regs (butlast commands))]\<rparr>
         else sim_send base bytes w
     | _ \<Rightarrow> w)"

definition simulated_controller :: "u32 \<Rightarrow> (u16 \<Rightarrow> u32) \<Rightarrow> sim transport" where
  "simulated_controller base regs = (simulated base)
     \<lparr>t_send := \<lambda>bytes w. (\<lparr>tr_success = True, tr_error = []\<rparr>, controller_send base regs bytes (w\<lparr>sim_replies := []\<rparr>))\<rparr>"

subsection \<open>Register accesses\<close>

text \<open>Transports that treat the requests of a transaction alike run it alike.\<close>

lemma transaction_loop_cong:
  assumes same: "t_receive T' = t_receive T" "t_cancelled T' = t_cancelled T"
    and up: "\<And>u k. t_send T' (upload_bytes ops u k) = t_send T (upload_bytes ops u k)"
    and ex: "\<And>u. t_send T' (execute_bytes u) = t_send T (execute_bytes u)"
  shows "transaction_loop T' ops n lr refs w = transaction_loop T ops n lr refs w"
proof -
  have receive: "ReceiveFrames T' = ReceiveFrames T" by (simp add: fun_eq_iff ReceiveFrames_def same)
  have ends: "upload_end T' = upload_end T" "execute_end T' = execute_end T" "transaction_end T' = transaction_end T"
    by (simp_all add: fun_eq_iff upload_end_def execute_end_def transaction_end_def same)
  have loop: "upload_loop T' u n w = upload_loop T u n w" for u n w
    by (induction n arbitrary: w) (simp_all add: same receive ends split: prod.split sum.split option.split)
  have loop': "execute_loop T' u k n seen w = execute_loop T u k n seen w" for u k n seen w
    by (induction n arbitrary: seen w) (simp_all add: same receive ends split: prod.split sum.split option.split bool.split)
  have upload: "UploadStack T' u k ops w = UploadStack T u k ops w" for u k w
    by (simp add: UploadStack_def SendWords_def up loop split: prod.split)
  have execute: "ExecuteStack T' u k w = ExecuteStack T u k w" for u k w
    by (simp add: ExecuteStack_def SendWords_def ex loop' split: prod.split)
  show ?thesis
    by (induction n arbitrary: lr refs w) (simp_all add: same upload execute ends Let_def split: prod.split sum.split)
qed

lemma no_local_reads:
  "ops = [c, a] \<or> ops = [c, a, v] \<Longrightarrow> \<not> local_reads (drop 2 (BuildMvlcStackUploadRequest u k ops))"
  "\<not> local_reads (drop 2 (BuildMvlcStackExecuteRequest u))"
proof -
  have other: "drop_bit 16 (MvlcWriteLocalCommand OR ucast (r :: u16)) \<noteq> drop_bit 16 MvlcReadLocalCommand" for r
  proof
    assume "drop_bit 16 (MvlcWriteLocalCommand OR ucast r) = drop_bit 16 MvlcReadLocalCommand"
    then have "bit (drop_bit 16 (MvlcWriteLocalCommand OR ucast r)) 2 = bit (drop_bit 16 MvlcReadLocalCommand) 2" by simp
    then show False by (simp add: bit_simps MvlcWriteLocalCommand_def MvlcReadLocalCommand_def bit_unsigned_iff)
  qed
  show "ops = [c, a] \<or> ops = [c, a, v] \<Longrightarrow> \<not> local_reads (drop 2 (BuildMvlcStackUploadRequest u k ops))"
    "\<not> local_reads (drop 2 (BuildMvlcStackExecuteRequest u))"
    using other by (auto simp: local_reads_def BuildMvlcStackUploadRequest_def BuildMvlcStackExecuteRequest_def AppendWriteLocal_def Let_def)
qed

lemma controller_send_stack:
  assumes "\<not> local_reads (drop 2 ws)" "length ws \<ge> 2"
  shows "controller_send base regs (EncodeMvlcWordsLittleEndian ws) w = sim_send base (EncodeMvlcWordsLittleEndian ws) w"
  using assms by (cases ws; cases "tl ws") (auto simp: controller_send_def words_of_encode)

lemma controller_registers:
  "readRegister (simulated_controller base regs) base r = readRegister (simulated base) base r"
  "writeRegister (simulated_controller base regs) base r v = writeRegister (simulated base) base r v"
proof -
  have len: "length (BuildMvlcStackUploadRequest u k ops) \<ge> 2" "length (BuildMvlcStackExecuteRequest u) \<ge> 2" for u k ops
    by (simp_all add: BuildMvlcStackUploadRequest_def BuildMvlcStackExecuteRequest_def AppendWriteLocal_def Let_def split: prod.split)
  have run: "RunStackTransaction (simulated_controller base regs) ops refs w = RunStackTransaction (simulated base) ops refs w"
    if "ops = [c, a] \<or> ops = [c, a, v']" for ops c a v' refs w
    unfolding RunStackTransaction_def
    by (rule transaction_loop_cong)
      (simp_all add: simulated_controller_def simulated_def fun_eq_iff controller_send_stack no_local_reads(1) [OF that] no_local_reads(2) len)
  show "readRegister (simulated_controller base regs) base r = readRegister (simulated base) base r"
    using run [of "EncodeMvlcVmeReadD16Words (base + ucast r)"]
    by (simp add: fun_eq_iff readRegister_def ReadVmeD16_def EncodeMvlcVmeReadD16Words_def)
  show "writeRegister (simulated_controller base regs) base r v = writeRegister (simulated base) base r v"
    using run [of "EncodeMvlcVmeWriteD16Words (base + ucast r) v"]
    by (simp add: fun_eq_iff writeRegister_def WriteVmeD16_def EncodeMvlcVmeWriteD16Words_def)
qed

subsection \<open>Local registers\<close>

lemma small_packets:
  assumes "1 \<le> n" "n \<le> 16"
  shows "header_words (batch_header n) = 1 + 2 * n" "drop_bit 24 (batch_header n) = ucast MvlcSuperFrameType"
    "header_magic (of_nat (2 + 2 * n)) = 0" "header_channel (of_nat (2 + 2 * n)) = 0" "header_words (of_nat (2 + 2 * n)) = 2 + 2 * n"
proof -
  have "list_all (\<lambda>n. header_words (batch_header n) = 1 + 2 * n \<and> drop_bit 24 (batch_header n) = ucast MvlcSuperFrameType
      \<and> header_magic (of_nat (2 + 2 * n)) = 0 \<and> header_channel (of_nat (2 + 2 * n)) = 0 \<and> header_words (of_nat (2 + 2 * n)) = 2 + 2 * n)
      [1..<17]" by code_simp
  then have "header_words (batch_header n) = 1 + 2 * n \<and> drop_bit 24 (batch_header n) = ucast MvlcSuperFrameType
      \<and> header_magic (of_nat (2 + 2 * n)) = 0 \<and> header_channel (of_nat (2 + 2 * n)) = 0 \<and> header_words (of_nat (2 + 2 * n)) = 2 + 2 * n"
    using assms unfolding list_all_iff by (metis atLeastLessThan_iff le_imp_less_Suc eval_nat_numeral(3) semiring_norm(26) set_upt numeral_eq_Suc pred_numeral_simps(3))
  then show "header_words (batch_header n) = 1 + 2 * n" "drop_bit 24 (batch_header n) = ucast MvlcSuperFrameType"
    "header_magic (of_nat (2 + 2 * n)) = 0" "header_channel (of_nat (2 + 2 * n)) = 0" "header_words (of_nat (2 + 2 * n)) = 2 + 2 * n"
    by blast+
qed

lemma read_pairs_nth:
  "length (read_pairs regs cs) = 2 * length cs"
  "i < length cs \<Longrightarrow> read_pairs regs cs ! (2 * i) = cs ! i \<and> read_pairs regs cs ! Suc (2 * i) = regs (ucast (cs ! i))"
proof -
  show "length (read_pairs regs cs) = 2 * length cs" by (induction cs) (simp_all add: read_pairs_def)
  show "i < length cs \<Longrightarrow> read_pairs regs cs ! (2 * i) = cs ! i \<and> read_pairs regs cs ! Suc (2 * i) = regs (ucast (cs ! i))"
  proof (induction cs arbitrary: i)
    case (Cons c cs)
    then show ?case by (cases i) (simp_all add: read_pairs_def)
  qed simp
qed

lemma read_command: "(ucast (MvlcReadLocalCommand OR ucast (a :: u16)) :: u16) = a"
  "drop_bit 16 (MvlcReadLocalCommand OR ucast (a :: u16)) = drop_bit 16 MvlcReadLocalCommand"
proof -
  have zero: "(ucast MvlcReadLocalCommand :: u16) = 0" by code_simp
  have high: "drop_bit 16 (ucast a :: u32) = 0"
    by (rule bit_word_eqI) (auto simp: bit_simps dest: bit_imp_le_length)
  show "(ucast (MvlcReadLocalCommand OR ucast (a :: u16)) :: u16) = a" by (simp add: unsigned_or_eq zero)
  show "drop_bit 16 (MvlcReadLocalCommand OR ucast (a :: u16)) = drop_bit 16 MvlcReadLocalCommand"
    by (simp add: high)
qed

lemma batch_parsed:
  fixes u :: u16 and regs :: "u16 \<Rightarrow> u32"
  assumes "1 \<le> length as" "length as \<le> 16"
  defines "ws \<equiv> batch_header (length as) # (MvlcReferenceWordCommand OR ucast u) # read_pairs regs (map (\<lambda>a. MvlcReadLocalCommand OR ucast a) as)"
  shows "ParseMvlcLocalRegisterBatchReadReply (receive_into empty_buffer (rx_data (reply_packet ws))) (rx_bytesReceived (reply_packet ws)) u as
    = Some \<lparr>br_status = Match, br_values = map regs as\<rparr>"
proof -
  let ?cs = "map (\<lambda>a. MvlcReadLocalCommand OR ucast a) as"
  let ?h0 = "of_nat (length ws) :: u32"
  let ?data = "EncodeMvlcWordsLittleEndian (?h0 # 0 # ws)"
  let ?f = "frame_of (ws ! 0 # take (header_words (ws ! 0)) (drop (Suc 0) ws))"
  note small = small_packets [OF assms(1,2)]
  have len: "length ws = 2 + 2 * length as" by (simp add: ws_def read_pairs_nth)
  have fits: "length ?data \<le> length empty_buffer" using len assms(2) by (simp add: empty_buffer_def MvlcCommandResponseBufferSize_def)
  have take: "take (1 + 2 * length as) (tl ws) = tl ws" using len by simp
  have f: "?f = frame_of ws" using small(1) take len by (simp add: ws_def)
  have matches: "IsMatchingMvlcSuperFrame ?f u"
    using frame_of_matching [of "tl ws" "ws ! 0" u] small(1,2) len unfolding f by (simp add: ws_def)
  have words: "f_words (frame_of ws) = ws" by (simp add: frame_of_def ws_def)
  have at: "ws ! (2 + 2 * i) = MvlcReadLocalCommand OR ucast (as ! i)" "ws ! (3 + 2 * i) = regs (as ! i)" if "i < length as" for i
    using read_pairs_nth(2) [of i ?cs regs] that by (simp_all add: ws_def read_command numeral_3_eq_3)
  have "batch_verdict as (frame_of ws) = \<lparr>br_status = Match, br_values = map (\<lambda>i. regs (as ! i)) [0..<length as]\<rparr>"
    using at len by (auto simp: batch_verdict_def words)
  also have "map (\<lambda>i. regs (as ! i)) [0..<length as] = map regs as" by (intro nth_equalityI) auto
  finally have verdict: "batch_verdict as ?f = \<lparr>br_status = Match, br_values = map regs as\<rparr>" unfolding f .
  have scan: "scan_batch_reply (le.encode (?h0 # 0 # ws) @ slack) (MvlcReferenceWordCommand OR ucast u) as (length ws) 0
      = Some \<lparr>br_status = Match, br_values = map regs as\<rparr>" for slack
    using scan_batch_step [of "length ws" ws 0 ?h0 0 slack u as] matches verdict small(1) len by (simp add: ws_def)
  show ?thesis
    using load_header scan len small(3-5) assms(1)
    unfolding reply_packet_def TransportReceiveResult.simps receive_into_front [OF fits]
    by (simp add: ParseMvlcLocalRegisterBatchReadReply_def EncodeMvlcWordsLittleEndian_eq EthernetHeaderWords_def
        MaximumCommandPipePacketChannel_def Let_def del: le.encode_simps)
qed

lemma controller_batch:
  assumes "addresses \<noteq> []"
  shows "t_send (simulated_controller base regs) (batch_read_bytes u addresses) w = (\<lparr>tr_success = True, tr_error = []\<rparr>,
    w\<lparr>sim_replies := [reply_packet (batch_header (length addresses) # (MvlcReferenceWordCommand OR ucast u)
        # read_pairs regs (map (\<lambda>a. MvlcReadLocalCommand OR ucast a) addresses))]\<rparr>)"
proof -
  have "length addresses \<ge> 1" using assms by (cases addresses) auto
  then have "local_reads (map (\<lambda>a. MvlcReadLocalCommand OR ucast (a :: u16)) addresses @ [MvlcCommandBufferEnd])"
    by (auto simp: local_reads_def list_all_iff read_command(2) simp del: drop_bit_or)
  then show ?thesis
    by (simp add: simulated_controller_def controller_send_def batch_read_bytes_def words_of_encode butlast_append)
qed

lemma controller_local:
  assumes "addresses \<noteq> []" "length addresses \<le> 16"
  shows "\<exists>b'. readLocal (simulated_controller base regs) addresses b = (Inr (map regs addresses), b') \<and> sim_module (snd b') = sim_module (snd b)"
proof -
  let ?u = "nextSuperReference (fst b)" and ?T = "simulated_controller base regs"
  let ?p = "reply_packet (batch_header (length addresses) # (MvlcReferenceWordCommand OR ucast ?u)
      # read_pairs regs (map (\<lambda>a. MvlcReadLocalCommand OR ucast a) addresses))"
  let ?w1 = "(snd b)\<lparr>sim_replies := [?p]\<rparr>" and ?w2 = "(snd b)\<lparr>sim_replies := []\<rparr>"
  have size: "1 \<le> length addresses" using assms(1) by (cases addresses) auto
  have flag: "t_cancelled ?T w = (False, w)" for w by (simp add: simulated_controller_def simulated_def)
  have receive: "t_receive ?T n t ?w1 = (?p, ?w2)" for n t by (simp add: simulated_controller_def simulated_def)
  have status: "rx_status ?p = Received" by (simp add: reply_packet_def)
  have reply: "batch_replies ?T ?u addresses MvlcMaximumResponseDatagrams empty_buffer ?w1
      = (Some (Inr (Some (map regs addresses))), receive_into empty_buffer (rx_data ?p), ?w2)"
    using batch_parsed [OF size assms(2), of ?u regs]
    by (subst batch_replies.simps(2) [where n = 7, folded attempt_counts]) (simp only: flag receive prod.case if_False status Let_def
        option.case MvlcLocalBatchReadReply.simps TransportReceiveStatus.simps simp_thms if_True)
  have "batch_attempts ?T (batch_read_bytes ?u addresses) ?u addresses MvlcFingerprintReadAttemptCount empty_buffer (snd b)
      = (Some (Inr (map regs addresses)), ?w2)"
    by (simp add: at_least_once flag controller_batch [OF assms(1)] reply)
  then show ?thesis
    using assms(1) by (simp add: readLocal_def ReadLocalRegisters_def BuildMvlcLocalRegisterBatchReadRequest_def Let_def
        batch_read_bytes_def)
qed

interpretation sim_controller: responsive_controller "simulated_controller base regs" base sim_module regs for base regs
proof -
  have sent: "sim_module (snd (t_send (simulated_controller base regs) (batch_read_bytes u addresses) w)) = sim_module w"
    if "addresses \<noteq> []" for u addresses w by (simp add: controller_batch [OF that])
  have "sim_module (snd (t_receive (simulated_controller base regs) n t w)) = sim_module w"
    "sim_module (snd (t_cancelled (simulated_controller base regs) w)) = sim_module w" for n t w
    by (simp_all add: simulated_controller_def simulated_def split: list.split)
  note keeps = sent this
  have kept: "sim_module (snd (snd (readLocal (simulated_controller base regs) addresses b))) = sim_module (snd b)" for addresses b
  proof (cases "addresses = []")
    case True
    then show ?thesis by (simp add: readLocal_def ReadLocalRegisters_def BuildMvlcLocalRegisterBatchReadRequest_def)
  qed (intro readLocal_I [where I = "\<lambda>w. sim_module w = sim_module (snd b)"]; simp add: keeps)
  show "responsive_controller (simulated_controller base regs) base sim_module regs"
proof unfold_locales
  fix r v u x b b' e addresses w
  note registers = controller_registers [of base regs] and returned = controller_local [of addresses base regs]
  show "readRegister (simulated_controller base regs) base r b = (x, b') \<Longrightarrow> sim_module (snd b') = sim_module (snd b)"
    unfolding registers by (rule sim.read_keeps)
  show "readRegister (simulated_controller base regs) base r b = (Inr v, b') \<Longrightarrow> v = mdpp_read (sim_module (snd b)) r"
    unfolding registers by (rule sim.read_shows)
  show "writeRegister (simulated_controller base regs) base r v b = (Inr u, b') \<Longrightarrow>
      sim_module (snd b') = mdpp_write (sim_module (snd b)) r v"
    unfolding registers by (rule sim.write_happened)
  show "writeRegister (simulated_controller base regs) base r v b = (Inl e, b') \<Longrightarrow>
      sim_module (snd b') = sim_module (snd b) \<or> sim_module (snd b') = mdpp_write (sim_module (snd b)) r v"
    unfolding registers by (rule sim.write_maybe)
  show "\<exists>v b'. readRegister (simulated_controller base regs) base r b = (Inr v, b')"
    unfolding registers by (rule sim.read_returns)
  show "\<exists>b'. writeRegister (simulated_controller base regs) base r v b = (Inr (), b')"
    unfolding registers by (rule sim.write_returns)
  show "sim_module (snd (t_cancelled (simulated_controller base regs) w)) = sim_module w" "fst (t_cancelled (simulated_controller base regs) w) = False"
    by (simp_all add: simulated_controller_def simulated_def)
  show "addresses \<noteq> [] \<Longrightarrow> length addresses \<le> 16 \<Longrightarrow>
      \<exists>b'. readLocal (simulated_controller base regs) addresses b = (Inr (map regs addresses), b')" using returned by blast
  show "readLocal (simulated_controller base regs) addresses b = (x, b') \<Longrightarrow> sim_module (snd b') = sim_module (snd b)" for x
    using kept [of addresses b] by auto
qed
qed

end
