(* ===== verification/Target_Probe.thy ===== *)
theory Target_Probe
  imports Tuner_Target Controller_Bus "HOL-Library.Sublist"
begin

text \<open>
  The read-only checks of a controller and of a module, \<^verbatim>\<open>hardware/TargetProbeOperation.cpp\<close>, on
  the endpoint and session interface of \<^verbatim>\<open>hardware/TransportFactory.h\<close>. The factory and its
  sessions are parameters; a session hands out a transport, opens and closes it. The cancellation
  flag is the one of the transport; a session's transport gets the flag of the operation. Messages
  are texts, because the operations that use a probe hand them on.
\<close>

subsection \<open>Endpoints and sessions\<close>

record DirectEthernetEndpointRequest =
  de_mvlcHost :: string
  de_mvlcCommandPort :: u16

record SshBridgeEndpointRequest =
  sb_mvlcHost :: string
  sb_mvlcCommandPort :: u16
  sb_sshDestination :: string
  sb_remoteBridgeCommand :: string

datatype TransportEndpointRequest = DirectEndpoint DirectEthernetEndpointRequest | BridgeEndpoint SshBridgeEndpointRequest

definition EndpointHost :: "TransportEndpointRequest \<Rightarrow> string" where
  "EndpointHost request = (case request of DirectEndpoint e \<Rightarrow> de_mvlcHost e | BridgeEndpoint e \<Rightarrow> sb_mvlcHost e)"

definition EndpointPort :: "TransportEndpointRequest \<Rightarrow> u16" where
  "EndpointPort request = (case request of DirectEndpoint e \<Rightarrow> de_mvlcCommandPort e | BridgeEndpoint e \<Rightarrow> sb_mvlcCommandPort e)"

record 'w TransportSession =
  ss_CommandTransport :: "'w transport option"
  ss_Open :: "string \<Rightarrow> u16 \<Rightarrow> 'w \<Rightarrow> TransportOperationResult \<times> 'w"
  ss_Close :: "'w \<Rightarrow> 'w"

text \<open>A factory returns a session or an error text.\<close>

type_synonym 'w factory = "TransportEndpointRequest \<Rightarrow> 'w \<Rightarrow> (string + 'w TransportSession) \<times> 'w"

subsection \<open>Requests, constants and results\<close>

definition TargetProbeExpectedMvlcHardwareId :: u32 where "TargetProbeExpectedMvlcHardwareId = 0x5008"
definition TargetProbeExpectedMvlcFirmware :: u32 where "TargetProbeExpectedMvlcFirmware = 0x0046"

definition TargetProbeMvlcRegisterOrder :: "u16 list" where
  "TargetProbeMvlcRegisterOrder = [0x6008, 0x600E, 0x1300]"

definition TargetProbeMdppRegisterOrder :: "u16 list" where
  "TargetProbeMdppRegisterOrder = [0x6008, 0x600E, Fw2051AcquisitionControlRegister]"

record TargetProbeRequest =
  pq_endpoint :: TransportEndpointRequest
  pq_targetAddress :: u32

record ControllerProbeResult =
  cr_outcome :: ControllerProbeOutcome
  cr_evidence :: ControllerProbeEvidence
  cr_temporaryConnectionOpened :: bool
  cr_temporaryConnectionClosed :: bool
  cr_mvlcHardwareId :: "u32 option"
  cr_mvlcFirmwareRevision :: "u32 option"
  cr_mvlcDaqMode :: "u32 option"
  cr_message :: string

record TargetProbeResult =
  tp_outcome :: TargetProbeOutcome
  tp_evidence :: TargetProbeEvidence
  tp_temporaryConnectionOpened :: bool
  tp_temporaryConnectionClosed :: bool
  tp_mvlcHardwareId :: "u32 option"
  tp_mvlcFirmwareRevision :: "u32 option"
  tp_mvlcDaqMode :: "u32 option"
  tp_targetHardwareId :: "u16 option"
  tp_targetFirmwareRevision :: "u16 option"
  tp_targetAcquisitionControl :: "u16 option"
  tp_message :: string

text \<open>The results with the two facts that hold from the start.\<close>

definition new_controller_probe :: ControllerProbeResult where
  "new_controller_probe = \<lparr>cr_outcome = ControllerProbeNotRun,
     cr_evidence = \<lparr>ce_controllerConnected = False, ce_controllerIdentityAndFirmwareVerified = False,
       ce_controllerDaqIdleVerified = False, ce_activeControllerUseDetected = False,
       ce_noControlTaken = True, ce_noVmeOrModuleSettingWritesSent = True\<rparr>,
     cr_temporaryConnectionOpened = False, cr_temporaryConnectionClosed = False, cr_mvlcHardwareId = None,
     cr_mvlcFirmwareRevision = None, cr_mvlcDaqMode = None, cr_message = []\<rparr>"

definition new_target_probe :: TargetProbeResult where
  "new_target_probe = \<lparr>tp_outcome = TargetProbeNotRun,
     tp_evidence = \<lparr>te_controllerEndpointReached = False, te_supportedControllerTypeAndFirmwareReverified = False,
       te_controllerDaqIdleReverified = False, te_targetIdentityAndFirmwareVerified = False,
       te_targetAcquisitionStoppedVerified = False, te_activeControllerUseDetected = False,
       te_noControlTaken = True, te_noVmeOrModuleSettingWritesSent = True\<rparr>,
     tp_temporaryConnectionOpened = False, tp_temporaryConnectionClosed = False, tp_mvlcHardwareId = None,
     tp_mvlcFirmwareRevision = None, tp_mvlcDaqMode = None, tp_targetHardwareId = None,
     tp_targetFirmwareRevision = None, tp_targetAcquisitionControl = None, tp_message = []\<rparr>"

subsection \<open>Failures\<close>

datatype CommunicationFailure = FailureTransportUnavailable | FailureTimeout | FailureMalformedResponse | FailureCancelled

definition Contains :: "string \<Rightarrow> string \<Rightarrow> bool" where
  "Contains text fragment \<longleftrightarrow> list_ex (prefix fragment) (suffixes text)"

text \<open>The order of the tests decides for a text with fragments of both kinds.\<close>

definition ClassifyFailureText :: "string \<Rightarrow> CommunicationFailure" where
  "ClassifyFailureText error =
    (if list_ex (Contains error) [''malformed'', ''Malformed'', ''invalid'', ''Unexpected'', ''truncated'', ''syntax'']
     then FailureMalformedResponse
     else if list_ex (Contains error) [''timed out'', ''No matching'', ''Incomplete'', ''did not respond'']
     then FailureTimeout
     else FailureTransportUnavailable)"

definition ClassifyCommunicationFailure :: "('w \<Rightarrow> bool \<times> 'w) \<Rightarrow> string \<Rightarrow> 'w \<Rightarrow> CommunicationFailure \<times> 'w" where
  "ClassifyCommunicationFailure cancelled error w =
    (case cancelled w of (c, w) \<Rightarrow> (if c then FailureCancelled else ClassifyFailureText error, w))"

fun ControllerOutcome :: "CommunicationFailure \<Rightarrow> ControllerProbeOutcome" where
  "ControllerOutcome FailureCancelled = ControllerProbeCancelled"
| "ControllerOutcome FailureTimeout = ControllerProbeTimeout"
| "ControllerOutcome FailureMalformedResponse = ControllerProbeMalformedResponse"
| "ControllerOutcome FailureTransportUnavailable = ControllerProbeTransportUnavailable"

fun TargetOutcome :: "CommunicationFailure \<Rightarrow> TargetProbeOutcome" where
  "TargetOutcome FailureCancelled = TargetProbeCancelled"
| "TargetOutcome FailureTimeout = TargetProbeTimeout"
| "TargetOutcome FailureMalformedResponse = TargetProbeMalformedResponse"
| "TargetOutcome FailureTransportUnavailable = TargetProbeTransportUnavailable"

definition ControllerFailureMessage :: "ControllerProbeOutcome \<Rightarrow> string \<Rightarrow> string" where
  "ControllerFailureMessage outcome error =
    (case outcome of
       ControllerProbeCancelled \<Rightarrow> ''The read-only controller connection was cancelled.''
     | ControllerProbeTimeout \<Rightarrow> ''The read-only controller connection timed out: '' @ error
     | ControllerProbeMalformedResponse \<Rightarrow> ''The controller returned a malformed response: '' @ error
     | _ \<Rightarrow> ''The read-only controller connection could not communicate: '' @ error)"

definition TargetFailureMessage :: "TargetProbeOutcome \<Rightarrow> string \<Rightarrow> string" where
  "TargetFailureMessage outcome error =
    (case outcome of
       TargetProbeCancelled \<Rightarrow> ''The read-only target check was cancelled.''
     | TargetProbeTimeout \<Rightarrow> ''The read-only target check timed out: '' @ error
     | TargetProbeMalformedResponse \<Rightarrow> ''The target returned a malformed response: '' @ error
     | _ \<Rightarrow> ''The read-only target check could not communicate: '' @ error)"

definition ControllerRevalidationFailureMessage :: "TargetProbeOutcome \<Rightarrow> string \<Rightarrow> string" where
  "ControllerRevalidationFailureMessage outcome error =
    (case outcome of
       TargetProbeCancelled \<Rightarrow> ''The read-only target check was cancelled during controller revalidation.''
     | TargetProbeTimeout \<Rightarrow> ''Controller revalidation for Check timed out: '' @ error
     | TargetProbeMalformedResponse \<Rightarrow> ''Controller revalidation for Check returned a malformed response: '' @ error
     | _ \<Rightarrow> ''Controller revalidation for Check could not communicate: '' @ error)"

definition ActiveUseMessage :: string where
  "ActiveUseMessage = ''Active controller use was detected. FIDGET did not take control, and no hardware settings were changed.''"

definition unexpected_size_text :: string where
  "unexpected_size_text = ''unexpected MVLC identity response size''"

definition no_transport_text :: string where
  "no_transport_text = ''the transport factory returned no command transport''"

definition probe_references :: references where
  "probe_references = \<lparr>nextSuperReference = 1, nextStackReference = 1\<rparr>"

subsection \<open>The controller\<close>

definition end_controller :: "ControllerProbeOutcome \<Rightarrow> string \<Rightarrow> ControllerProbeResult \<Rightarrow> ControllerProbeResult" where
  "end_controller outcome said r = r\<lparr>cr_outcome := outcome, cr_message := said\<rparr>"

definition fail_controller :: "('w \<Rightarrow> bool \<times> 'w) \<Rightarrow> string \<Rightarrow> ControllerProbeResult \<Rightarrow> 'w \<Rightarrow> ControllerProbeResult \<times> 'w" where
  "fail_controller cancelled error r w =
    (case ClassifyCommunicationFailure cancelled error w of (f, w) \<Rightarrow>
      (end_controller (ControllerOutcome f) (ControllerFailureMessage (ControllerOutcome f) error) r, w))"

definition judge_controller :: "u32 list \<Rightarrow> ControllerProbeResult \<Rightarrow> ControllerProbeResult" where
  "judge_controller values r =
    (if length values \<noteq> length TargetProbeMvlcRegisterOrder
     then end_controller ControllerProbeMalformedResponse
            (ControllerFailureMessage ControllerProbeMalformedResponse unexpected_size_text) r
     else
     let r = r\<lparr>cr_evidence := (cr_evidence r)\<lparr>ce_controllerConnected := True\<rparr>, cr_mvlcHardwareId := Some (values ! 0),
               cr_mvlcFirmwareRevision := Some (values ! 1), cr_mvlcDaqMode := Some (values ! 2)\<rparr> in
     if values ! 0 \<noteq> TargetProbeExpectedMvlcHardwareId
     then end_controller ControllerProbeWrongIdentity ''The connected controller is not the supported MVLC.'' r
     else if values ! 1 \<noteq> TargetProbeExpectedMvlcFirmware
     then end_controller ControllerProbeWrongFirmware ''The MVLC firmware is not the supported FW0046 revision.'' r
     else
     let r = r\<lparr>cr_evidence := (cr_evidence r)\<lparr>ce_controllerIdentityAndFirmwareVerified := True\<rparr>\<rparr> in
     if values ! 2 \<noteq> 0
     then end_controller ControllerProbeDaqActive ActiveUseMessage
            (r\<lparr>cr_evidence := (cr_evidence r)\<lparr>ce_activeControllerUseDetected := True\<rparr>\<rparr>)
     else end_controller ControllerVerifiedIdle ''The MVLC controller is verified and idle.''
            (r\<lparr>cr_evidence := (cr_evidence r)\<lparr>ce_controllerDaqIdleVerified := True\<rparr>\<rparr>))"

text \<open>The part of \<^verbatim>\<open>RunControllerProbe\<close> on an open transport, and the whole.\<close>

definition probe_open_controller :: "'w transport \<Rightarrow> ControllerProbeResult \<Rightarrow> 'w \<Rightarrow> ControllerProbeResult \<times> 'w" where
  "probe_open_controller transport r w =
    (case readLocal transport TargetProbeMvlcRegisterOrder (probe_references, w) of
       (Inl e, b) \<Rightarrow> fail_controller (t_cancelled transport) (error_text e) r (snd b)
     | (Inr values, b) \<Rightarrow>
       (case t_cancelled transport (snd b) of (c, w) \<Rightarrow>
         (if c then end_controller ControllerProbeCancelled (ControllerFailureMessage ControllerProbeCancelled []) r
          else judge_controller values r, w)))"

definition RunControllerProbe :: "'w factory \<Rightarrow> TransportEndpointRequest \<Rightarrow> ('w \<Rightarrow> bool \<times> 'w) \<Rightarrow> 'w \<Rightarrow> ControllerProbeResult \<times> 'w" where
  "RunControllerProbe factory endpoint cancelled w =
    (let r = new_controller_probe in
     case cancelled w of
       (True, w) \<Rightarrow> (end_controller ControllerProbeCancelled (ControllerFailureMessage ControllerProbeCancelled []) r, w)
     | (False, w) \<Rightarrow>
    (case factory endpoint w of
       (Inl error, w) \<Rightarrow> fail_controller cancelled error r w
     | (Inr session, w) \<Rightarrow>
    (let close = (\<lambda>(r, w). (r\<lparr>cr_temporaryConnectionClosed := True\<rparr>, ss_Close session w)) in
     case ss_CommandTransport session of
       None \<Rightarrow> close (end_controller ControllerProbeTransportUnavailable
         (ControllerFailureMessage ControllerProbeTransportUnavailable no_transport_text) r, w)
     | Some transport \<Rightarrow>
    (case ss_Open session (EndpointHost endpoint) (EndpointPort endpoint) w of (opened, w) \<Rightarrow>
     if \<not> tr_success opened then close (fail_controller cancelled (tr_error opened) r w)
     else close (probe_open_controller (transport\<lparr>t_cancelled := cancelled\<rparr>) (r\<lparr>cr_temporaryConnectionOpened := True\<rparr>) w)))))"

subsection \<open>The target\<close>

definition end_target :: "TargetProbeOutcome \<Rightarrow> string \<Rightarrow> TargetProbeResult \<Rightarrow> TargetProbeResult" where
  "end_target outcome said r = r\<lparr>tp_outcome := outcome, tp_message := said\<rparr>"

definition target_evidence :: "(TargetProbeEvidence \<Rightarrow> TargetProbeEvidence) \<Rightarrow> TargetProbeResult \<Rightarrow> TargetProbeResult" where
  "target_evidence f r = r\<lparr>tp_evidence := f (tp_evidence r)\<rparr>"

definition fail_target :: "('w \<Rightarrow> bool \<times> 'w) \<Rightarrow> (TargetProbeOutcome \<Rightarrow> string \<Rightarrow> string) \<Rightarrow> string \<Rightarrow> TargetProbeResult \<Rightarrow> 'w
    \<Rightarrow> TargetProbeResult \<times> 'w" where
  "fail_target cancelled text error r w =
    (case ClassifyCommunicationFailure cancelled error w of (f, w) \<Rightarrow>
      (end_target (TargetOutcome f) (text (TargetOutcome f) error) r, w))"

text \<open>The verdict on the controller: an early return is \<open>Inl\<close>.\<close>

definition judge_revalidation :: "u32 list \<Rightarrow> TargetProbeResult \<Rightarrow> TargetProbeResult + TargetProbeResult" where
  "judge_revalidation values r =
    (if length values \<noteq> length TargetProbeMvlcRegisterOrder
     then Inl (end_target TargetProbeMalformedResponse
            (ControllerRevalidationFailureMessage TargetProbeMalformedResponse unexpected_size_text) r)
     else
     let r = (target_evidence (te_controllerEndpointReached_update (\<lambda>_. True)) r)
               \<lparr>tp_mvlcHardwareId := Some (values ! 0), tp_mvlcFirmwareRevision := Some (values ! 1), tp_mvlcDaqMode := Some (values ! 2)\<rparr> in
     if values ! 0 \<noteq> TargetProbeExpectedMvlcHardwareId
     then Inl (end_target TargetProbeWrongMvlcIdentity ''The controller reached during Check is not the supported MVLC.'' r)
     else if values ! 1 \<noteq> TargetProbeExpectedMvlcFirmware
     then Inl (end_target TargetProbeWrongMvlcFirmware ''The controller reached during Check is not running exact FW0046.'' r)
     else
     let r = target_evidence (te_supportedControllerTypeAndFirmwareReverified_update (\<lambda>_. True)) r in
     if values ! 2 \<noteq> 0
     then Inl (end_target TargetProbeDaqActive ActiveUseMessage
            (target_evidence (te_activeControllerUseDetected_update (\<lambda>_. True)) r))
     else Inr (target_evidence (te_controllerDaqIdleReverified_update (\<lambda>_. True)) r))"

definition revalidate_controller :: "'w transport \<Rightarrow> TargetProbeResult \<Rightarrow> 'w bus \<Rightarrow> (TargetProbeResult + TargetProbeResult) \<times> 'w bus" where
  "revalidate_controller transport r b =
    (case readLocal transport TargetProbeMvlcRegisterOrder b of
       (Inl e, b) \<Rightarrow> map_prod Inl id (call (fail_target (t_cancelled transport) ControllerRevalidationFailureMessage (error_text e) r) b)
     | (Inr values, b) \<Rightarrow>
       (case call (t_cancelled transport) b of (c, b) \<Rightarrow>
         (if c then Inl (end_target TargetProbeCancelled (ControllerRevalidationFailureMessage TargetProbeCancelled []) r)
          else judge_revalidation values r, b)))"

text \<open>One register of the target, with the test of the flag after it.\<close>

definition readTarget :: "'w transport \<Rightarrow> u32 \<Rightarrow> u16 \<Rightarrow> TargetProbeResult \<Rightarrow> 'w bus \<Rightarrow> (TargetProbeResult + u16) \<times> 'w bus" where
  "readTarget transport base offset r b =
    (case readRegister transport base offset b of
       (Inl e, b) \<Rightarrow> map_prod Inl id (call (fail_target (t_cancelled transport) TargetFailureMessage (error_text e) r) b)
     | (Inr v, b) \<Rightarrow>
       (case call (t_cancelled transport) b of (c, b) \<Rightarrow>
         (if c then Inl (end_target TargetProbeCancelled (TargetFailureMessage TargetProbeCancelled []) r) else Inr v, b)))"

definition judge_hardware :: "u16 \<Rightarrow> TargetProbeResult \<Rightarrow> TargetProbeResult + TargetProbeResult" where
  "judge_hardware v r =
    (let r = r\<lparr>tp_targetHardwareId := Some v\<rparr> in
     if \<not> IsSupportedMdpp32HardwareId v
     then Inl (end_target TargetProbeWrongTargetIdentity ''The selected target is not the supported MDPP-32 SCP.'' r)
     else Inr r)"

definition judge_firmware :: "u16 \<Rightarrow> TargetProbeResult \<Rightarrow> TargetProbeResult + TargetProbeResult" where
  "judge_firmware v r =
    (let r = r\<lparr>tp_targetFirmwareRevision := Some v\<rparr> in
     if v \<noteq> Mdpp32ScpFirmwareRevisionFw2051
     then Inl (end_target TargetProbeWrongTargetFirmware ''The selected target is not running exact FW2051.'' r)
     else Inr (target_evidence (te_targetIdentityAndFirmwareVerified_update (\<lambda>_. True)) r))"

definition judge_acquisition :: "u16 \<Rightarrow> TargetProbeResult \<Rightarrow> TargetProbeResult" where
  "judge_acquisition v r =
    (let r = r\<lparr>tp_targetAcquisitionControl := Some v\<rparr> in
     if v \<noteq> Fw2051StopAcquisitionValue
     then end_target TargetProbeAcquisitionActive ActiveUseMessage
            (target_evidence (te_activeControllerUseDetected_update (\<lambda>_. True)) r)
     else end_target TargetVerifiedIdle ''The target module is verified and stopped.''
            (target_evidence (te_targetAcquisitionStoppedVerified_update (\<lambda>_. True)) r))"

text \<open>An early return ends the rest.\<close>

definition onward :: "('r + 'a) \<times> 'b \<Rightarrow> ('a \<Rightarrow> 'b \<Rightarrow> 'r \<times> 'b) \<Rightarrow> 'r \<times> 'b" where
  "onward step rest = (case step of (Inl r, b) \<Rightarrow> (r, b) | (Inr a, b) \<Rightarrow> rest a b)"

definition inspect_acquisition :: "'w transport \<Rightarrow> u32 \<Rightarrow> TargetProbeResult \<Rightarrow> 'w bus \<Rightarrow> TargetProbeResult \<times> 'w bus" where
  "inspect_acquisition transport base r b =
    onward (readTarget transport base (TargetProbeMdppRegisterOrder ! 2) r b) (\<lambda>acquisition b. (judge_acquisition acquisition r, b))"

definition inspect_firmware :: "'w transport \<Rightarrow> u32 \<Rightarrow> TargetProbeResult \<Rightarrow> 'w bus \<Rightarrow> TargetProbeResult \<times> 'w bus" where
  "inspect_firmware transport base r b =
    onward (readTarget transport base (TargetProbeMdppRegisterOrder ! 1) r b) (\<lambda>firmware b.
    onward (judge_firmware firmware r, b) (inspect_acquisition transport base))"

definition inspect_target :: "'w transport \<Rightarrow> u32 \<Rightarrow> TargetProbeResult \<Rightarrow> 'w bus \<Rightarrow> TargetProbeResult \<times> 'w bus" where
  "inspect_target transport base r b =
    onward (readTarget transport base (TargetProbeMdppRegisterOrder ! 0) r b) (\<lambda>hardware b.
    onward (judge_hardware hardware r, b) (inspect_firmware transport base))"

lemmas inspect_defs = inspect_target_def inspect_firmware_def inspect_acquisition_def

definition ProbeTargetOnOpenTransport :: "'w transport \<Rightarrow> TargetProbeRequest \<Rightarrow> 'w \<Rightarrow> TargetProbeResult \<times> 'w" where
  "ProbeTargetOnOpenTransport transport request w =
    (let r = new_target_probe in
     case t_cancelled transport w of (c, w) \<Rightarrow>
       if c then (end_target TargetProbeCancelled (ControllerRevalidationFailureMessage TargetProbeCancelled []) r, w)
       else map_prod id snd (onward (revalidate_controller transport r (probe_references, w)) (\<lambda>r b.
              inspect_target transport (pq_targetAddress request) r b)))"

definition RunTargetProbe :: "'w factory \<Rightarrow> TargetProbeRequest \<Rightarrow> ('w \<Rightarrow> bool \<times> 'w) \<Rightarrow> 'w \<Rightarrow> TargetProbeResult \<times> 'w" where
  "RunTargetProbe factory request cancelled w =
    (let r = new_target_probe; endpoint = pq_endpoint request in
     case cancelled w of
       (True, w) \<Rightarrow> (end_target TargetProbeCancelled (ControllerRevalidationFailureMessage TargetProbeCancelled []) r, w)
     | (False, w) \<Rightarrow>
    (case factory endpoint w of
       (Inl error, w) \<Rightarrow> fail_target cancelled ControllerRevalidationFailureMessage error r w
     | (Inr session, w) \<Rightarrow>
    (let close = (\<lambda>(r, w). (r\<lparr>tp_temporaryConnectionClosed := True\<rparr>, ss_Close session w)) in
     case ss_CommandTransport session of
       None \<Rightarrow> close (end_target TargetProbeTransportUnavailable
         (ControllerRevalidationFailureMessage TargetProbeTransportUnavailable no_transport_text) r, w)
     | Some transport \<Rightarrow>
    (case ss_Open session (EndpointHost endpoint) (EndpointPort endpoint) w of (opened, w) \<Rightarrow>
     if \<not> tr_success opened then close (fail_target cancelled ControllerRevalidationFailureMessage (tr_error opened) r w)
     else close (map_prod (\<lambda>r. r\<lparr>tp_temporaryConnectionOpened := True\<rparr>) id
            (ProbeTargetOnOpenTransport (transport\<lparr>t_cancelled := cancelled\<rparr>) request w))))))"

subsection \<open>The result\<close>

text \<open>What the evidence flags of a finished probe mean.\<close>

definition evidence_exact :: "TargetProbeResult \<Rightarrow> bool" where
  "evidence_exact r \<longleftrightarrow> (let e = tp_evidence r in
     (te_supportedControllerTypeAndFirmwareReverified e \<longleftrightarrow>
        tp_mvlcHardwareId r = Some TargetProbeExpectedMvlcHardwareId \<and> tp_mvlcFirmwareRevision r = Some TargetProbeExpectedMvlcFirmware)
   \<and> (te_controllerDaqIdleReverified e \<longleftrightarrow> te_supportedControllerTypeAndFirmwareReverified e \<and> tp_mvlcDaqMode r = Some 0)
   \<and> (te_targetIdentityAndFirmwareVerified e \<longleftrightarrow> te_controllerDaqIdleReverified e
        \<and> (\<exists>v. tp_targetHardwareId r = Some v \<and> IsSupportedMdpp32HardwareId v)
        \<and> tp_targetFirmwareRevision r = Some Mdpp32ScpFirmwareRevisionFw2051)
   \<and> (te_targetAcquisitionStoppedVerified e \<longleftrightarrow> te_targetIdentityAndFirmwareVerified e
        \<and> tp_targetAcquisitionControl r = Some Fw2051StopAcquisitionValue)
   \<and> (tp_outcome r = TargetVerifiedIdle \<longleftrightarrow> te_targetAcquisitionStoppedVerified e)
   \<and> (te_activeControllerUseDetected e \<longleftrightarrow> tp_outcome r = TargetProbeDaqActive \<or> tp_outcome r = TargetProbeAcquisitionActive)
   \<and> te_noControlTaken e \<and> te_noVmeOrModuleSettingWritesSent e)"

text \<open>The result after a successful revalidation of the controller, and after the module's identity.\<close>

definition validated_controller :: TargetProbeResult where
  "validated_controller = (target_evidence (\<lambda>e. e\<lparr>te_controllerEndpointReached := True,
       te_supportedControllerTypeAndFirmwareReverified := True, te_controllerDaqIdleReverified := True\<rparr>) new_target_probe)
     \<lparr>tp_mvlcHardwareId := Some TargetProbeExpectedMvlcHardwareId, tp_mvlcFirmwareRevision := Some TargetProbeExpectedMvlcFirmware,
      tp_mvlcDaqMode := Some 0\<rparr>"

lemmas probe_steps = end_target_def target_evidence_def new_target_probe_def

lemma TargetOutcome_failed [simp]: "TargetOutcome f \<noteq> TargetVerifiedIdle" "TargetOutcome f \<noteq> TargetProbeDaqActive"
  "TargetOutcome f \<noteq> TargetProbeAcquisitionActive"
  by (cases f; simp)+

lemma fst_fail_target:
  "\<exists>f. fst (fail_target cancelled text error r w) = end_target (TargetOutcome f) (text (TargetOutcome f) error) r"
  by (auto simp: fail_target_def case_prod_beta)

lemma judge_revalidation_onward:
  "judge_revalidation vs new_target_probe = Inr r \<longleftrightarrow>
     r = validated_controller \<and> vs = [TargetProbeExpectedMvlcHardwareId, TargetProbeExpectedMvlcFirmware, 0]"
  by (cases vs; cases "tl vs"; cases "tl (tl vs)"; cases "tl (tl (tl vs))")
    (auto simp: judge_revalidation_def validated_controller_def probe_steps Let_def TargetProbeMvlcRegisterOrder_def)

lemma judge_revalidation_ends: "judge_revalidation vs new_target_probe = Inl r \<Longrightarrow> evidence_exact r \<and> tp_outcome r \<noteq> TargetVerifiedIdle"
  by (auto simp: judge_revalidation_def evidence_exact_def probe_steps Let_def split: if_splits)

lemma failed_exact [simp]:
  assumes "evidence_exact r" "tp_outcome r = TargetProbeNotRun" "\<not> te_activeControllerUseDetected (tp_evidence r)"
  shows "evidence_exact (end_target (TargetOutcome f) m r)"
  using assms by (auto simp: evidence_exact_def end_target_def Let_def)

lemma revalidate_ends:
  "fst (revalidate_controller T new_target_probe b) = Inl r \<Longrightarrow> evidence_exact r \<and> tp_outcome r \<noteq> TargetVerifiedIdle"
  "fst (revalidate_controller T new_target_probe b) = Inr r \<Longrightarrow> r = validated_controller"
proof -
  have new: "evidence_exact new_target_probe" "tp_outcome new_target_probe = TargetProbeNotRun"
    "\<not> te_activeControllerUseDetected (tp_evidence new_target_probe)"
    by (simp_all add: evidence_exact_def new_target_probe_def Let_def)
  have cancelled: "evidence_exact (end_target TargetProbeCancelled m new_target_probe)" for m
    using failed_exact [OF new, of FailureCancelled] by simp
  show "fst (revalidate_controller T new_target_probe b) = Inl r \<Longrightarrow> evidence_exact r \<and> tp_outcome r \<noteq> TargetVerifiedIdle"
    using fst_fail_target [of "t_cancelled T" ControllerRevalidationFailureMessage] failed_exact [OF new] cancelled judge_revalidation_ends
    by (auto simp: revalidate_controller_def call_def fail_target_def case_prod_beta end_target_def split: sum.splits if_splits)
  show "fst (revalidate_controller T new_target_probe b) = Inr r \<Longrightarrow> r = validated_controller"
    using judge_revalidation_onward by (auto simp: revalidate_controller_def case_prod_beta split: sum.splits if_splits)
qed

lemma onward_cases: "onward step rest = (case fst step of Inl r \<Rightarrow> (r, snd step) | Inr a \<Rightarrow> rest a (snd step))"
  by (cases step) (auto simp: onward_def split: sum.split)

text \<open>The results the inspection of the target starts from and passes through.\<close>

lemma validated_exact [simp]: "evidence_exact (end_target (TargetOutcome f) m validated_controller)"
  "evidence_exact (end_target TargetProbeCancelled m validated_controller)"
  by (simp_all add: evidence_exact_def validated_controller_def probe_steps Let_def TargetProbeExpectedMvlcHardwareId_def
      TargetProbeExpectedMvlcFirmware_def)

definition identified :: "u16 \<Rightarrow> TargetProbeResult" where
  "identified v = validated_controller\<lparr>tp_targetHardwareId := Some v\<rparr>"

definition verified_identity :: "u16 \<Rightarrow> TargetProbeResult" where
  "verified_identity v = target_evidence (te_targetIdentityAndFirmwareVerified_update (\<lambda>_. True))
     ((identified v)\<lparr>tp_targetFirmwareRevision := Some Mdpp32ScpFirmwareRevisionFw2051\<rparr>)"

lemmas probe_stages = validated_controller_def identified_def verified_identity_def

lemma stages_exact [simp]:
  "evidence_exact (end_target (TargetOutcome f) m (identified v))" "evidence_exact (end_target TargetProbeCancelled m (identified v))"
  "IsSupportedMdpp32HardwareId v \<Longrightarrow> evidence_exact (end_target (TargetOutcome f) m (verified_identity v))"
  "IsSupportedMdpp32HardwareId v \<Longrightarrow> evidence_exact (end_target TargetProbeCancelled m (verified_identity v))"
  by (simp_all add: evidence_exact_def probe_stages probe_steps Let_def)

lemma judges:
  "judge_hardware v validated_controller = (if IsSupportedMdpp32HardwareId v then Inr (identified v)
     else Inl (end_target TargetProbeWrongTargetIdentity ''The selected target is not the supported MDPP-32 SCP.'' (identified v)))"
  "IsSupportedMdpp32HardwareId v \<Longrightarrow> judge_firmware f (identified v) = Inr r \<longleftrightarrow> f = Mdpp32ScpFirmwareRevisionFw2051 \<and> r = verified_identity v"
  "IsSupportedMdpp32HardwareId v \<Longrightarrow> judge_firmware f (identified v) = Inl r \<Longrightarrow> evidence_exact r"
  "IsSupportedMdpp32HardwareId v \<Longrightarrow> evidence_exact (judge_acquisition a (verified_identity v))"
  "\<not> IsSupportedMdpp32HardwareId v \<Longrightarrow> evidence_exact (end_target TargetProbeWrongTargetIdentity m (identified v))"
  by (auto simp: judge_hardware_def judge_firmware_def judge_acquisition_def evidence_exact_def probe_stages probe_steps Let_def
      split: if_splits)

lemma readTarget_ends:
  "fst (readTarget T base off r b) = Inl r' \<Longrightarrow> (\<exists>f m. r' = end_target (TargetOutcome f) m r) \<or> (\<exists>m. r' = end_target TargetProbeCancelled m r)"
  by (auto simp: readTarget_def call_def fail_target_def case_prod_beta split: sum.splits if_splits)

lemma readTarget_exact:
  assumes "fst (readTarget T base off r b) = Inl r'"
    and "\<And>f m. evidence_exact (end_target (TargetOutcome f) m r)" "\<And>m. evidence_exact (end_target TargetProbeCancelled m r)"
  shows "evidence_exact r'"
  using readTarget_ends [OF assms(1)] assms(2,3) by auto

lemma inspect_exact [simp]: "evidence_exact (fst (inspect_target T base validated_controller b))"
  unfolding inspect_defs onward_cases
  by (auto simp: judges split: sum.split elim!: readTarget_exact)

lemma probe_exact_result: "evidence_exact (fst (ProbeTargetOnOpenTransport T request w))"
proof -
  have new: "evidence_exact (end_target TargetProbeCancelled m new_target_probe)" for m
    by (simp add: evidence_exact_def probe_steps Let_def)
  show ?thesis
    using revalidate_ends [of T "(probe_references, snd (t_cancelled T w))"]
    by (auto simp: ProbeTargetOnOpenTransport_def Let_def case_prod_beta onward_cases new split: sum.splits)
qed

subsection \<open>What a probe leaves alone\<close>

context reading_invariant
begin

lemma fail_I: "I w \<Longrightarrow> I (snd (fail_target (t_cancelled T) text e r w))"
  by (simp add: fail_target_def ClassifyCommunicationFailure_def case_prod_beta flag_I)

lemma readTarget_I: "I (snd b) \<Longrightarrow> I (snd (snd (readTarget T base off r b)))"
  by (auto simp: readTarget_def case_prod_beta register_I fail_I flag_I split: sum.split)

lemma revalidate_I: "I (snd b) \<Longrightarrow> I (snd (snd (revalidate_controller T r b)))"
  by (auto simp: revalidate_controller_def case_prod_beta local_I fail_I flag_I split: sum.split)

lemma onward_I: "I (snd (snd step)) \<Longrightarrow> (\<And>a b. I (snd b) \<Longrightarrow> I (snd (snd (rest a b)))) \<Longrightarrow> I (snd (snd (onward step rest)))"
  by (auto simp: onward_cases split: sum.split)

lemma inspect_I: "I (snd b) \<Longrightarrow> I (snd (snd (inspect_target T base r b)))"
  unfolding inspect_defs by (intro onward_I readTarget_I) (simp_all add: readTarget_I)

lemma probe_I:
  assumes "I w" "pq_targetAddress request = base"
  shows "I (snd (ProbeTargetOnOpenTransport T request w))"
proof -
  have "I (snd (snd (onward (revalidate_controller T new_target_probe (probe_references, snd (t_cancelled T w))) (\<lambda>r b. inspect_target T base r b))))"
    by (intro onward_I revalidate_I inspect_I) (simp_all add: flag_I assms(1))
  then show ?thesis
    using assms flag_I [of w] by (simp add: ProbeTargetOnOpenTransport_def Let_def case_prod_beta)
qed

end

subsection \<open>What a probe sees\<close>

text \<open>The recorded registers are the module's.\<close>

definition records_module :: "TargetProbeResult \<Rightarrow> mdpp \<Rightarrow> bool" where
  "records_module r m \<longleftrightarrow> (\<forall>v. tp_targetHardwareId r = Some v \<longrightarrow> v = global m 0x6008)
     \<and> (\<forall>v. tp_targetFirmwareRevision r = Some v \<longrightarrow> v = global m 0x600E)
     \<and> (\<forall>v. tp_targetAcquisitionControl r = Some v \<longrightarrow> v = global m Fw2051AcquisitionControlRegister)"

lemma identity_registers:
  "mdpp_read m 0x6008 = global m 0x6008" "mdpp_read m 0x600E = global m 0x600E"
  "mdpp_read m Fw2051AcquisitionControlRegister = global m Fw2051AcquisitionControlRegister"
  by (simp_all add: mdpp_read_def fw2051_registers_eq Fw2051ScpSelectorRegister_def Fw2051AcquisitionControlRegister_def)

lemma records_end [simp]:
  "records_module (end_target out m r) d = records_module r d" "records_module (target_evidence f r) d = records_module r d"
  by (simp_all add: records_module_def end_target_def target_evidence_def)

lemma records_validated [simp]: "records_module new_target_probe d" "records_module validated_controller d"
  by (simp_all add: records_module_def probe_stages probe_steps)

lemma records_judged:
  "records_module r d \<Longrightarrow> v = global d 0x6008 \<Longrightarrow> judge_hardware v r = Inl r' \<or> judge_hardware v r = Inr r' \<Longrightarrow> records_module r' d"
  "records_module r d \<Longrightarrow> v = global d 0x600E \<Longrightarrow> judge_firmware v r = Inl r' \<or> judge_firmware v r = Inr r' \<Longrightarrow> records_module r' d"
  "records_module r d \<Longrightarrow> v = global d Fw2051AcquisitionControlRegister \<Longrightarrow> records_module (judge_acquisition v r) d"
  by (auto simp: judge_hardware_def judge_firmware_def judge_acquisition_def Let_def records_module_def end_target_def
      target_evidence_def split: if_splits)

context honest_controller
begin

lemma target_read:
  assumes "readTarget T base off r b = (Inr v, b')"
  shows "v = mdpp_read (dev (snd b)) off"
  using assms read_shows [of off b] by (auto simp: readTarget_def case_prod_beta prod_eq_iff split: sum.splits if_splits)

lemma target_kept: "dev (snd (snd (readTarget T base off r b))) = dev (snd b)"
  by (rule module_kept.readTarget_I) simp

lemma read_records:
  fixes b :: "'w bus"
  assumes "records_module r (dev (snd b))"
    and "\<And>b'. dev (snd b') = dev (snd b) \<Longrightarrow> records_module (fst (rest (mdpp_read (dev (snd b)) off) b')) (dev (snd b))"
  shows "records_module (fst (onward (readTarget T base off r b) rest)) (dev (snd b))"
proof -
  obtain x b' where x: "readTarget T base off r b = (x, b')" by (cases "readTarget T base off r b") blast
  have kept: "dev (snd b') = dev (snd b)" using target_kept [of off r b] x by simp
  show ?thesis
  proof (cases x)
    case (Inl r')
    then show ?thesis using readTarget_ends [of T base off r b r'] assms(1) x by (auto simp: onward_def)
  next
    case (Inr v)
    then have "v = mdpp_read (dev (snd b)) off" using target_read [of off r b v b'] x by simp
    then show ?thesis using assms(2) [OF kept] Inr x by (simp add: onward_def)
  qed
qed

lemma acquisition_records:
  assumes "records_module r (dev (snd b))"
  shows "records_module (fst (inspect_acquisition T base r b)) (dev (snd b))"
  unfolding inspect_acquisition_def
  by (rule read_records [OF assms]) (simp add: TargetProbeMdppRegisterOrder_def identity_registers records_judged(3) [OF assms])

lemma judged_records:
  assumes "\<And>r'. q = Inl r' \<or> q = Inr r' \<Longrightarrow> records_module r' m"
    and "\<And>r'. records_module r' m \<Longrightarrow> records_module (fst (rest r' b)) m"
  shows "records_module (fst (onward (q, b) rest)) m"
  using assms by (auto simp: onward_def split: sum.split)

lemma firmware_records:
  assumes "records_module r (dev (snd b))"
  shows "records_module (fst (inspect_firmware T base r b)) (dev (snd b))"
  unfolding inspect_firmware_def
proof (rule read_records [OF assms], rule judged_records)
  fix b' :: "'w bus" and r' assume kept: "dev (snd b') = dev (snd b)"
  show "records_module r' (dev (snd b)) \<Longrightarrow> records_module (fst (inspect_acquisition T base r' b')) (dev (snd b))"
    using acquisition_records [of r' b'] by (simp add: kept)
qed (auto simp: TargetProbeMdppRegisterOrder_def identity_registers intro: records_judged(2) [OF assms refl])

lemma inspect_records:
  assumes "records_module r (dev (snd b))"
  shows "records_module (fst (inspect_target T base r b)) (dev (snd b))"
  unfolding inspect_target_def
proof (rule read_records [OF assms], rule judged_records)
  fix b' :: "'w bus" and r' assume kept: "dev (snd b') = dev (snd b)"
  show "records_module r' (dev (snd b)) \<Longrightarrow> records_module (fst (inspect_firmware T base r' b')) (dev (snd b))"
    using firmware_records [of r' b'] by (simp add: kept)
qed (auto simp: TargetProbeMdppRegisterOrder_def identity_registers intro: records_judged(1) [OF assms refl])

lemma revalidate_records: "records_module (case fst (revalidate_controller T new_target_probe b) of Inl r \<Rightarrow> r | Inr r \<Rightarrow> r) d"
  by (auto simp: revalidate_controller_def judge_revalidation_def call_def fail_target_def case_prod_beta Let_def
      records_module_def end_target_def target_evidence_def new_target_probe_def split: sum.split)

lemma probe_records:
  assumes "pq_targetAddress request = base"
  shows "records_module (fst (ProbeTargetOnOpenTransport T request w)) (dev w)"
proof -
  let ?b = "(probe_references, snd (t_cancelled T w))"
  let ?c = "revalidate_controller T new_target_probe ?b"
  have "dev (snd (snd ?c)) = dev w"
    using module_kept.revalidate_I [of ?b "dev w" new_target_probe] cancelled_keeps [of w] by simp
  then have "records_module (fst (onward ?c (\<lambda>r b. inspect_target T base r b))) (dev w)"
    using revalidate_records [of ?b "dev w"] inspect_records [of _ "snd ?c"] by (auto simp: onward_cases split: sum.splits)
  then show ?thesis
    using assms by (simp add: ProbeTargetOnOpenTransport_def Let_def case_prod_beta)
qed

lemma probe_keeps_module:
  "pq_targetAddress request = base \<Longrightarrow> dev (snd (ProbeTargetOnOpenTransport T request w)) = dev w"
  by (rule module_kept.probe_I) simp_all

end

text \<open>The verdict as a function of the registers of the controller and of the module.\<close>

definition probe_verdict :: "(u16 \<Rightarrow> u32) \<Rightarrow> mdpp \<Rightarrow> TargetProbeOutcome" where
  "probe_verdict regs m =
    (if regs 0x6008 \<noteq> TargetProbeExpectedMvlcHardwareId then TargetProbeWrongMvlcIdentity
     else if regs 0x600E \<noteq> TargetProbeExpectedMvlcFirmware then TargetProbeWrongMvlcFirmware
     else if regs 0x1300 \<noteq> 0 then TargetProbeDaqActive
     else if \<not> IsSupportedMdpp32HardwareId (global m 0x6008) then TargetProbeWrongTargetIdentity
     else if global m 0x600E \<noteq> Mdpp32ScpFirmwareRevisionFw2051 then TargetProbeWrongTargetFirmware
     else if global m Fw2051AcquisitionControlRegister \<noteq> Fw2051StopAcquisitionValue then TargetProbeAcquisitionActive
     else TargetVerifiedIdle)"

context responsive_controller
begin

lemma target_answer: obtains b' where "readTarget T base off r b = (Inr (mdpp_read (dev (snd b)) off), b')" "dev (snd b') = dev (snd b)"
proof -
  obtain b1 where "readRegister T base off b = (Inr (mdpp_read (dev (snd b)) off), b1)" "dev (snd b1) = dev (snd b)"
    by (rule read_answer)
  then have "readTarget T base off r b = (Inr (mdpp_read (dev (snd b)) off), snd (call (t_cancelled T) b1))"
    by (simp add: readTarget_def call_def case_prod_beta not_cancelled)
  then show ?thesis using that target_kept [of off r b] by simp
qed

lemma read_continues:
  obtains b' where "onward (readTarget T base off r b) rest = rest (mdpp_read (dev (snd b)) off) b'" "dev (snd b') = dev (snd b)"
proof -
  obtain b' where "readTarget T base off r b = (Inr (mdpp_read (dev (snd b)) off), b')" "dev (snd b') = dev (snd b)"
    by (rule target_answer)
  then show ?thesis using that [of b'] by (simp add: onward_def)
qed

lemma judged_continues [simp]: "onward (Inl r, b) rest = (r, b)" "onward (Inr x, b) rest = rest x b"
  by (simp_all add: onward_def)

lemma acquisition_verdict:
  "tp_outcome (fst (inspect_acquisition T base r b)) =
     (if global (dev (snd b)) Fw2051AcquisitionControlRegister \<noteq> Fw2051StopAcquisitionValue then TargetProbeAcquisitionActive
      else TargetVerifiedIdle)"
proof -
  obtain b' where "inspect_acquisition T base r b = (judge_acquisition (mdpp_read (dev (snd b)) (TargetProbeMdppRegisterOrder ! 2)) r, b')"
    unfolding inspect_acquisition_def by (rule read_continues)
  then show ?thesis by (simp add: TargetProbeMdppRegisterOrder_def identity_registers judge_acquisition_def end_target_def Let_def)
qed

lemma firmware_verdict:
  "tp_outcome (fst (inspect_firmware T base r b)) =
     (if global (dev (snd b)) 0x600E \<noteq> Mdpp32ScpFirmwareRevisionFw2051 then TargetProbeWrongTargetFirmware
      else if global (dev (snd b)) Fw2051AcquisitionControlRegister \<noteq> Fw2051StopAcquisitionValue then TargetProbeAcquisitionActive
      else TargetVerifiedIdle)"
proof -
  obtain b' where "inspect_firmware T base r b =
      onward (judge_firmware (mdpp_read (dev (snd b)) (TargetProbeMdppRegisterOrder ! 1)) r, b') (inspect_acquisition T base)"
    "dev (snd b') = dev (snd b)"
    unfolding inspect_firmware_def by (rule read_continues)
  then show ?thesis
    by (simp add: TargetProbeMdppRegisterOrder_def identity_registers judge_firmware_def end_target_def acquisition_verdict Let_def)
qed

lemma inspect_verdict:
  "tp_outcome (fst (inspect_target T base r b)) =
     (if \<not> IsSupportedMdpp32HardwareId (global (dev (snd b)) 0x6008) then TargetProbeWrongTargetIdentity
      else if global (dev (snd b)) 0x600E \<noteq> Mdpp32ScpFirmwareRevisionFw2051 then TargetProbeWrongTargetFirmware
      else if global (dev (snd b)) Fw2051AcquisitionControlRegister \<noteq> Fw2051StopAcquisitionValue then TargetProbeAcquisitionActive
      else TargetVerifiedIdle)"
proof -
  obtain b' where "inspect_target T base r b =
      onward (judge_hardware (mdpp_read (dev (snd b)) (TargetProbeMdppRegisterOrder ! 0)) r, b') (inspect_firmware T base)"
    "dev (snd b') = dev (snd b)"
    unfolding inspect_target_def by (rule read_continues)
  then show ?thesis
    by (simp add: TargetProbeMdppRegisterOrder_def identity_registers judge_hardware_def end_target_def firmware_verdict Let_def)
qed

lemma probe_decides:
  assumes "pq_targetAddress request = base"
  shows "tp_outcome (fst (ProbeTargetOnOpenTransport T request w)) = probe_verdict regs (dev w)"
proof -
  let ?b = "(probe_references, snd (t_cancelled T w))" and ?vs = "map regs TargetProbeMvlcRegisterOrder"
  obtain b1 where b1: "readLocal T TargetProbeMvlcRegisterOrder ?b = (Inr ?vs, b1)" "dev (snd b1) = dev (snd ?b)"
    using local_answer [of TargetProbeMvlcRegisterOrder ?b] by (auto simp: TargetProbeMvlcRegisterOrder_def)
  let ?b2 = "snd (call (t_cancelled T) b1)"
  have same: "dev (snd ?b2) = dev w" using b1(2) cancelled_keeps by simp
  have revalidate: "revalidate_controller T new_target_probe ?b = (judge_revalidation ?vs new_target_probe, ?b2)"
    by (simp add: revalidate_controller_def b1(1) call_def case_prod_beta not_cancelled)
  have vs: "?vs = [TargetProbeExpectedMvlcHardwareId, TargetProbeExpectedMvlcFirmware, 0] \<longleftrightarrow>
      regs 0x6008 = TargetProbeExpectedMvlcHardwareId \<and> regs 0x600E = TargetProbeExpectedMvlcFirmware \<and> regs 0x1300 = 0"
    by (simp add: TargetProbeMvlcRegisterOrder_def)
  have probe: "fst (ProbeTargetOnOpenTransport T request w) =
      fst (onward (judge_revalidation ?vs new_target_probe, ?b2) (\<lambda>r b. inspect_target T base r b))"
    using assms by (simp add: ProbeTargetOnOpenTransport_def Let_def case_prod_beta not_cancelled revalidate)
  show ?thesis
  proof (cases "judge_revalidation ?vs new_target_probe")
    case (Inl r)
    moreover from this have "tp_outcome r = probe_verdict regs (dev w)"
      by (auto simp: judge_revalidation_def probe_verdict_def TargetProbeMvlcRegisterOrder_def Let_def end_target_def split: if_splits)
    ultimately show ?thesis unfolding probe by (simp add: onward_def)
  next
    case (Inr r)
    then have "r = validated_controller" "?vs = [TargetProbeExpectedMvlcHardwareId, TargetProbeExpectedMvlcFirmware, 0]"
      by (simp_all add: judge_revalidation_onward)
    then show ?thesis
      unfolding probe using Inr vs inspect_verdict [of validated_controller ?b2] same by (simp add: onward_def probe_verdict_def Let_def)
  qed
qed

end

subsection \<open>Properties\<close>

text \<open>
  A check of a target sends nothing but reads, on every transport and whatever comes back, and each
  flag of its evidence says exactly what the recorded registers show: the idle verdict is reached only
  with all of them set, and no other verdict sets the last one.
\<close>
theorem target_probe_reads_only:
  "only_reading (pq_targetAddress request) (snd (snd (ProbeTargetOnOpenTransport (observed T) request (w, []))))
    \<and> evidence_exact (fst (ProbeTargetOnOpenTransport T request w))"
  using read_wire.probe_I [of "pq_targetAddress request" "(w, [])" request T] probe_exact_result [of T request w]
  by (simp add: only_reading_def)

text \<open>
  (C19) A check of a target is sound on a controller that shows its module truthfully: the module is left
  as it was, every register it records is the module's, and a target found verified and idle is a
  supported module with firmware FW2051 that is stopped, behind an idle controller of the one supported
  type and firmware.
\<close>
theorem verified_target_sound:
  assumes "honest_controller T base dev" "pq_targetAddress request = base"
    and "ProbeTargetOnOpenTransport T request w = (r, w')"
  shows "dev w' = dev w \<and> records_module r (dev w)
    \<and> (tp_outcome r = TargetVerifiedIdle \<longrightarrow>
        IsSupportedMdpp32HardwareId (global (dev w) 0x6008) \<and> global (dev w) 0x600E = Mdpp32ScpFirmwareRevisionFw2051
      \<and> global (dev w) Fw2051AcquisitionControlRegister = Fw2051StopAcquisitionValue
      \<and> tp_mvlcHardwareId r = Some TargetProbeExpectedMvlcHardwareId
      \<and> tp_mvlcFirmwareRevision r = Some TargetProbeExpectedMvlcFirmware \<and> tp_mvlcDaqMode r = Some 0)"
proof -
  have recorded: "records_module r (dev w)" using honest_controller.probe_records [OF assms(1,2), of w] assms(3) by simp
  moreover have "dev w' = dev w" using honest_controller.probe_keeps_module [OF assms(1,2), of w] assms(3) by simp
  moreover have "evidence_exact r" using probe_exact_result [of T request w] assms(3) by simp
  ultimately show ?thesis by (auto simp: evidence_exact_def records_module_def Let_def)
qed

text \<open>
  (C20) On a controller that answers, a check always comes back with the verdict that the registers of
  the controller and of the module call for, in the order of the checks.
\<close>
theorem target_probe_verdict:
  assumes "responsive_controller T base dev regs" "pq_targetAddress request = base"
  shows "tp_outcome (fst (ProbeTargetOnOpenTransport T request w)) = probe_verdict regs (dev w)"
  using assms by (rule responsive_controller.probe_decides)

text \<open>A stopped module behind an idle controller, and one that takes data.\<close>

definition stopped_module :: mdpp where
  "stopped_module = \<lparr>selector = 0, banked = (\<lambda>_ _. 0), global = (\<lambda>r. if r = 0x6008 then Mdpp32HardwareId
     else if r = 0x600E then Mdpp32ScpFirmwareRevisionFw2051 else 0)\<rparr>"

definition sim_of :: "mdpp \<Rightarrow> sim" where
  "sim_of m = \<lparr>sim_module = m, sim_reference = 0, sim_operations = [], sim_replies = []\<rparr>"

definition idle_registers :: "u16 \<Rightarrow> u32" where
  "idle_registers r = (if r = 0x6008 then 0x5008 else if r = 0x600E then 0x46 else 0)"

definition sample_probe :: TargetProbeRequest where
  "sample_probe = \<lparr>pq_endpoint = DirectEndpoint \<lparr>de_mvlcHost = ''mvlc'', de_mvlcCommandPort = 32768\<rparr>, pq_targetAddress = 0x01000000\<rparr>"

lemma idle_verdict: "probe_verdict idle_registers stopped_module = TargetVerifiedIdle"
  by code_simp

theorem target_probe_verdict_witness:
  "tp_outcome (fst (ProbeTargetOnOpenTransport (simulated_controller 0x01000000 idle_registers) sample_probe (sim_of stopped_module))) = TargetVerifiedIdle
   \<and> tp_outcome (fst (ProbeTargetOnOpenTransport (simulated_controller 0x01000000 idle_registers) sample_probe
       (sim_of (stopped_module\<lparr>global := (global stopped_module)(0x603A := 1)\<rparr>)))) = TargetProbeAcquisitionActive"
proof -
  have "probe_verdict idle_registers (stopped_module\<lparr>global := (global stopped_module)(0x603A := 1)\<rparr>) = TargetProbeAcquisitionActive"
    by code_simp
  then show ?thesis
    using target_probe_verdict [OF sim_controller.responsive_controller_axioms, of sample_probe "0x01000000" idle_registers] idle_verdict
    by (simp add: sample_probe_def sim_of_def)
qed

theorem verified_target_sound_witness:
  "IsSupportedMdpp32HardwareId (global stopped_module 0x6008) \<and> global stopped_module Fw2051AcquisitionControlRegister = 0"
proof -
  let ?p = "ProbeTargetOnOpenTransport (simulated_controller 0x01000000 idle_registers) sample_probe (sim_of stopped_module)"
  have "tp_outcome (fst ?p) = TargetVerifiedIdle"
    using sim_controller.probe_decides [of sample_probe "0x01000000" idle_registers] idle_verdict by (simp add: sample_probe_def sim_of_def)
  with verified_target_sound [OF sim_controller.honest_controller_axioms _ prod.collapse [symmetric],
      of sample_probe "0x01000000" idle_registers "sim_of stopped_module"]
  show ?thesis by (simp add: sample_probe_def sim_of_def Fw2051StopAcquisitionValue_def)
qed

end
