(* ===== verification/Application_Storage.thy ===== *)
theory Application_Storage
  imports Journal_Store "HOL-Library.Sublist"
begin

text \<open>
  The application's own directory, \<^verbatim>\<open>core/ApplicationStorage.cpp\<close>: where it lies, its layout and the
  durable preparation of its directories, and the preferences file with its text. A path is the list of
  its components, the root directory among them; what the system says about a path (its canonical form,
  its kind, failing calls) is a record of functions. The preferences are written into a directory as in
  \<open>Journal_Store\<close>. The code that finds the running executable is left out.
\<close>

subsection \<open>Paths\<close>

type_synonym path = "string list"

text \<open>The parent of the root directory is itself, of a single name the empty path.\<close>

definition parent_path :: "path \<Rightarrow> path" where
  "parent_path p = (if p = [''/''] then p else butlast p)"

record storage_world =
  sg_canonical :: "path \<Rightarrow> path option"
  sg_lexical :: "path \<Rightarrow> path"
  sg_marker :: "path \<Rightarrow> bool"
  sg_existsError :: "path \<Rightarrow> bool"
  sg_createError :: "path \<Rightarrow> bool"
  sg_statusError :: "path \<Rightarrow> bool"
  sg_syncError :: "path \<Rightarrow> bool"

definition NormalizePath :: "storage_world \<Rightarrow> path \<Rightarrow> path" where
  "NormalizePath w p = (if p = [] then [] else case sg_canonical w p of Some c \<Rightarrow> c | None \<Rightarrow> sg_lexical w p)"

definition ApplicationHomeParentSearchLimit :: nat where "ApplicationHomeParentSearchLimit = 8"

text \<open>The loop over the depths that are left.\<close>

fun search_home :: "storage_world \<Rightarrow> path \<Rightarrow> nat \<Rightarrow> path \<Rightarrow> path" where
  "search_home w fallback 0 candidate = fallback"
| "search_home w fallback (Suc n) candidate =
    (if sg_marker w (candidate @ [''CMakeCache.txt'']) then parent_path candidate
     else let parent = parent_path candidate in
       if parent = [] \<or> parent = candidate then fallback else search_home w fallback n parent)"

definition ResolveApplicationHome :: "storage_world \<Rightarrow> path \<Rightarrow> nat \<Rightarrow> path" where
  "ResolveApplicationHome w executableDirectory parentSearchLimit =
    (let fallback = NormalizePath w executableDirectory in
     if fallback = [] then [] else search_home w fallback (Suc parentSearchLimit) fallback)"

subsection \<open>The layout\<close>

record ApplicationStoragePaths =
  applicationHome :: path
  stateDirectory :: path
  preferencesFile :: path
  logsDirectory :: path
  recoveryDirectory :: path
  reportsDirectory :: path
  imguiIniFile :: path
  windowStateFile :: path
  layoutVersionFile :: path

definition BuildStoragePaths :: "storage_world \<Rightarrow> path \<Rightarrow> ApplicationStoragePaths" where
  "BuildStoragePaths w home =
    (let home = NormalizePath w home in
     if home = [] then \<lparr>applicationHome = [], stateDirectory = [], preferencesFile = [], logsDirectory = [],
       recoveryDirectory = [], reportsDirectory = [], imguiIniFile = [], windowStateFile = [], layoutVersionFile = []\<rparr>
     else let stateDirectory = home @ [''fidget-state''] in
       \<lparr>applicationHome = home, stateDirectory = stateDirectory, preferencesFile = stateDirectory @ [''preferences.ini''],
        logsDirectory = stateDirectory @ [''logs''], recoveryDirectory = stateDirectory @ [''recovery''],
        reportsDirectory = stateDirectory @ [''reports''], imguiIniFile = stateDirectory @ [''imgui.ini''],
        windowStateFile = stateDirectory @ [''window.ini''], layoutVersionFile = stateDirectory @ [''layout.version'']\<rparr>)"

definition StorageLayoutMatches :: "storage_world \<Rightarrow> ApplicationStoragePaths \<Rightarrow> bool" where
  "StorageLayoutMatches w paths \<longleftrightarrow> applicationHome paths \<noteq> [] \<and> paths = BuildStoragePaths w (applicationHome paths)"

subsection \<open>The directories\<close>

text \<open>What lies at a path; an entry of another kind may lead to something or nowhere.\<close>

datatype path_kind = Absent | PlainFolder | OtherKind bool

type_synonym folders = "path \<Rightarrow> path_kind"

datatype storage_error =
    LayoutInvalid | NotExistingDirectory string | NotInspected string | NotCreatedFolder string
  | NoParentDirectory string | NotMadeDurable

definition RequireExistingDirectory :: "storage_world \<Rightarrow> string \<Rightarrow> path \<Rightarrow> folders \<Rightarrow> storage_error option" where
  "RequireExistingDirectory w label p f =
    (if sg_statusError w p \<or> f p \<noteq> PlainFolder then Some (NotExistingDirectory label) else None)"

definition present :: "path_kind \<Rightarrow> bool" where
  "present k = (case k of Absent \<Rightarrow> False | PlainFolder \<Rightarrow> True | OtherKind leads \<Rightarrow> leads)"

text \<open>Creating a directory over an entry that leads nowhere fails.\<close>

definition EnsurePlainDirectory :: "storage_world \<Rightarrow> string \<Rightarrow> path \<Rightarrow> folders \<Rightarrow> storage_error option \<times> folders" where
  "EnsurePlainDirectory w label p f =
    (if sg_existsError w p then (Some (NotInspected label), f)
     else if \<not> present (f p) \<and> (sg_createError w p \<or> f p \<noteq> Absent) then (Some (NotCreatedFolder label), f)
     else
     let f = (if present (f p) then f else f(p := PlainFolder)) in
     case RequireExistingDirectory w label p f of
       Some e \<Rightarrow> (Some e, f)
     | None \<Rightarrow>
       if parent_path p = [] then (Some (NoParentDirectory label), f)
       else if sg_syncError w p \<or> sg_syncError w (parent_path p) then (Some NotMadeDurable, f)
       else (None, f))"

fun ensure_all :: "storage_world \<Rightarrow> (string \<times> path) list \<Rightarrow> folders \<Rightarrow> storage_error option \<times> folders" where
  "ensure_all w [] f = (None, f)"
| "ensure_all w ((label, p) # rest) f =
    (case EnsurePlainDirectory w label p f of
       (Some e, f) \<Rightarrow> (Some e, f)
     | (None, f) \<Rightarrow> ensure_all w rest f)"

definition storage_directories :: "ApplicationStoragePaths \<Rightarrow> (string \<times> path) list" where
  "storage_directories paths =
    [(''application state directory'', stateDirectory paths), (''application log directory'', logsDirectory paths),
     (''application recovery directory'', recoveryDirectory paths), (''application report directory'', reportsDirectory paths)]"

definition EnsureApplicationStorageDirectories ::
    "storage_world \<Rightarrow> ApplicationStoragePaths \<Rightarrow> folders \<Rightarrow> storage_error option \<times> folders" where
  "EnsureApplicationStorageDirectories w paths f =
    (if \<not> StorageLayoutMatches w paths then (Some LayoutInvalid, f)
     else case RequireExistingDirectory w ''application home'' (applicationHome paths) f of
       Some e \<Rightarrow> (Some e, f)
     | None \<Rightarrow> ensure_all w (storage_directories paths) f)"

subsection \<open>The text of the preferences\<close>

record ApplicationPreferences =
  lastVerifiedEthernetHost :: string
  lastVerifiedModuleAddress :: string
  pf_sshDestination :: string
  pf_remoteBridgeCommand :: string

definition MaximumPreferenceLength :: nat where "MaximumPreferenceLength = 4096"

definition IsValidPreferenceValue :: "string \<Rightarrow> bool" where
  "IsValidPreferenceValue v \<longleftrightarrow> length v \<le> MaximumPreferenceLength
     \<and> list_all (\<lambda>c. of_char c \<ge> (0x20 :: nat) \<and> of_char c \<noteq> (0x7F :: nat)) v"

definition ValidatePreferences :: "ApplicationPreferences \<Rightarrow> bool" where
  "ValidatePreferences p \<longleftrightarrow> list_all IsValidPreferenceValue
     [lastVerifiedEthernetHost p, lastVerifiedModuleAddress p, pf_sshDestination p, pf_remoteBridgeCommand p]"

text \<open>\<^verbatim>\<open>std::quoted\<close>: a quote or a backslash is escaped by a backslash.\<close>

definition quote_mark :: char where "quote_mark = char_of (34 :: nat)"
definition escape_mark :: char where "escape_mark = char_of (92 :: nat)"

definition put_quoted :: "string \<Rightarrow> string" where
  "put_quoted v = quote_mark # concat (map (\<lambda>c. if c = quote_mark \<or> c = escape_mark then [escape_mark, c] else [c]) v) @ [quote_mark]"

fun quoted_body :: "string \<Rightarrow> (string \<times> string) option" where
  "quoted_body [] = None"
| "quoted_body (c # s) =
    (if c = escape_mark
     then (case s of [] \<Rightarrow> None | e # s \<Rightarrow> map_option (\<lambda>(v, rest). (e # v, rest)) (quoted_body s))
     else if c = quote_mark then Some ([], s)
     else map_option (\<lambda>(v, rest). (c # v, rest)) (quoted_body s))"

text \<open>A value that does not start with a quote is read as a word.\<close>

definition read_quoted :: "string \<Rightarrow> (string \<times> string) option" where
  "read_quoted input =
    (case dropWhile is_space input of
       [] \<Rightarrow> None
     | c # s \<Rightarrow> if c = quote_mark then quoted_body s else read_token (c # s))"

text \<open>
  \<^verbatim>\<open>std::istream >> unsigned int\<close>: a sign is accepted, a negative number wraps, an oversized one fails.
\<close>

definition read_uint :: "string \<Rightarrow> (u32 \<times> string) option" where
  "read_uint input =
    (let s = dropWhile is_space input;
         (negative, s) = (case s of c # r \<Rightarrow> if c = CHR ''-'' then (True, r) else if c = CHR ''+'' then (False, r) else (False, s)
                          | [] \<Rightarrow> (False, []));
         ds = takeWhile is_digit s; v = digits_value ds in
     if ds = [] \<or> v \<ge> 2 ^ 32 then None
     else Some (if negative then - of_nat v else of_nat v, dropWhile is_digit s))"

definition PreferencesMagic :: string where "PreferencesMagic = ''FIDGET_PREFERENCES''"
definition PreferencesFormatVersion :: u32 where "PreferencesFormatVersion = 1"

definition SerializePreferences :: "ApplicationPreferences \<Rightarrow> string" where
  "SerializePreferences p =
     PreferencesMagic @ '' '' @ decimal (unat PreferencesFormatVersion) @ newline
   @ ''ETHERNET_HOST '' @ put_quoted (lastVerifiedEthernetHost p) @ newline
   @ ''MODULE_ADDRESS '' @ put_quoted (lastVerifiedModuleAddress p) @ newline
   @ ''SSH_DESTINATION '' @ put_quoted (pf_sshDestination p) @ newline
   @ ''REMOTE_BRIDGE_COMMAND '' @ put_quoted (pf_remoteBridgeCommand p) @ newline
   @ ''END'' @ newline"

datatype preferences_error = UnsupportedHeader | MalformedPreferences | MissingEndMarker | TrailingData | InvalidPreferenceValue

definition ReadPreferenceField :: "string \<Rightarrow> string \<Rightarrow> preferences_error + string \<times> string" where
  "ReadPreferenceField expectedLabel input =
    (case read_token input of
       None \<Rightarrow> Inl MalformedPreferences
     | Some (label, input) \<Rightarrow>
       if label \<noteq> expectedLabel then Inl MalformedPreferences
       else case read_quoted input of None \<Rightarrow> Inl MalformedPreferences | Some r \<Rightarrow> Inr r)"

definition read_header :: "string \<Rightarrow> preferences_error + string" where
  "read_header text =
    (case read_token text of
       None \<Rightarrow> Inl UnsupportedHeader
     | Some (magic, input) \<Rightarrow>
       (case read_uint input of
          None \<Rightarrow> Inl UnsupportedHeader
        | Some (version, input) \<Rightarrow>
          if magic \<noteq> PreferencesMagic \<or> version \<noteq> PreferencesFormatVersion then Inl UnsupportedHeader else Inr input))"

definition ParsePreferences :: "string \<Rightarrow> preferences_error + ApplicationPreferences" where
  "ParsePreferences text =
    bindE (read_header text) (\<lambda>input.
    bindE (ReadPreferenceField ''ETHERNET_HOST'' input) (\<lambda>(host, input).
    bindE (ReadPreferenceField ''MODULE_ADDRESS'' input) (\<lambda>(address, input).
    bindE (ReadPreferenceField ''SSH_DESTINATION'' input) (\<lambda>(ssh, input).
    bindE (ReadPreferenceField ''REMOTE_BRIDGE_COMMAND'' input) (\<lambda>(command, input).
    (case read_token input of
       None \<Rightarrow> Inl MissingEndMarker
     | Some (token, input) \<Rightarrow>
       if token \<noteq> ''END'' then Inl MissingEndMarker
       else if dropWhile is_space input \<noteq> [] then Inl TrailingData
       else let p = \<lparr>lastVerifiedEthernetHost = host, lastVerifiedModuleAddress = address,
                     pf_sshDestination = ssh, pf_remoteBridgeCommand = command\<rparr> in
         if ValidatePreferences p then Inr p else Inl InvalidPreferenceValue))))))"

subsection \<open>The preferences file\<close>

text \<open>
  The file lies in the state directory. \<open>pw_dangling\<close> says that an entry of another kind leads nowhere;
  \<open>pw_writer\<close> gives what a write leaves in the file and whether write, flush and close succeeded.
\<close>

record preferences_world =
  pw_dangling :: bool
  pw_existsError :: bool
  pw_statusError :: bool
  pw_createError :: "nat \<Rightarrow> bool"
  pw_collisionError :: "nat \<Rightarrow> bool"
  pw_openError :: bool
  pw_writer :: "string \<Rightarrow> string \<times> bool"
  pw_renameError :: bool
  pw_removal :: removal
  pw_readError :: bool

definition MaximumTemporaryCollisions :: nat where "MaximumTemporaryCollisions = 64"

datatype write_error =
    DestinationNotPlainFile | DestinationNotInspected | TemporaryNotCreated | TemporaryNotAllocated
  | TemporaryFileNotOpened | PreferencesWriteFailed | PreferencesNotInstalled

definition leads :: "preferences_world \<Rightarrow> entry \<Rightarrow> bool" where
  "leads w e = (case e of OtherEntry _ \<Rightarrow> \<not> pw_dangling w | _ \<Rightarrow> True)"

definition temporary_name :: "string \<Rightarrow> nat \<Rightarrow> string" where
  "temporary_name destination index = destination @ (if index = 0 then ''.tmp'' else ''.tmp.'' @ decimal index)"

fun allocate_temporary :: "preferences_world \<Rightarrow> string \<Rightarrow> directory \<Rightarrow> nat \<Rightarrow> nat \<Rightarrow> write_error + string" where
  "allocate_temporary w destination d 0 index = Inl TemporaryNotAllocated"
| "allocate_temporary w destination d (Suc n) index =
    (case map_of d (temporary_name destination index) of
       None \<Rightarrow> if pw_createError w index then Inl TemporaryNotCreated else Inr (temporary_name destination index)
     | Some e \<Rightarrow>
       if is_directory e \<or> leads w e \<and> \<not> pw_collisionError w index then allocate_temporary w destination d n (Suc index)
       else Inl TemporaryNotCreated)"

definition RemoveTemporaryDirectory :: "preferences_world \<Rightarrow> string \<Rightarrow> directory \<Rightarrow> directory" where
  "RemoveTemporaryDirectory w temporary d =
    (case pw_removal w of
       RemovedAll \<Rightarrow> AList.delete temporary d
     | RemovedContents \<Rightarrow> AList.update temporary (DirectoryEntry []) d
     | RemovedNothing \<Rightarrow> d)"

text \<open>With the result, the directory after each call that changed it.\<close>

definition write_temporary :: "preferences_world \<Rightarrow> string \<Rightarrow> string \<Rightarrow> string \<Rightarrow> directory \<Rightarrow> write_error option \<times> directory list" where
  "write_temporary w destination contents temporary d =
    (let d1 = AList.update temporary (DirectoryEntry []) d in
     if pw_openError w then (Some TemporaryFileNotOpened, [d1, RemoveTemporaryDirectory w temporary d1])
     else
     let d2 = AList.update temporary (DirectoryEntry [(''preferences'', [])]) d1;
         (written, succeeded) = pw_writer w contents;
         d3 = AList.update temporary (DirectoryEntry [(''preferences'', written)]) d2 in
     if \<not> succeeded then (Some PreferencesWriteFailed, [d1, d2, d3, RemoveTemporaryDirectory w temporary d3])
     else if pw_renameError w then (Some PreferencesNotInstalled, [d1, d2, d3, RemoveTemporaryDirectory w temporary d3])
     else
     let d4 = AList.update destination (PlainFile written) (AList.update temporary (DirectoryEntry []) d3) in
     (None, [d1, d2, d3, d4, RemoveTemporaryDirectory w temporary d4]))"

definition AtomicWrite :: "preferences_world \<Rightarrow> string \<Rightarrow> string \<Rightarrow> directory \<Rightarrow> write_error option \<times> directory list" where
  "AtomicWrite w destination contents d =
    (if pw_existsError w then (Some DestinationNotInspected, [])
     else if (case map_of d destination of None \<Rightarrow> False | Some e \<Rightarrow>
         leads w e \<and> (pw_statusError w \<or> (case e of PlainFile _ \<Rightarrow> False | _ \<Rightarrow> True)))
     then (Some DestinationNotPlainFile, [])
     else case allocate_temporary w destination d MaximumTemporaryCollisions 0 of
       Inl e \<Rightarrow> (Some e, [])
     | Inr temporary \<Rightarrow> write_temporary w destination contents temporary d)"

datatype save_error = PreferencesInvalid | StorageNotReady storage_error | PreferencesNotWritten write_error

definition SaveApplicationPreferences ::
    "storage_world \<Rightarrow> preferences_world \<Rightarrow> ApplicationStoragePaths \<Rightarrow> ApplicationPreferences \<Rightarrow> folders \<Rightarrow> directory
      \<Rightarrow> save_error option \<times> folders \<times> directory list" where
  "SaveApplicationPreferences sw w paths preferences f d =
    (if \<not> ValidatePreferences preferences then (Some PreferencesInvalid, f, [])
     else case EnsureApplicationStorageDirectories sw paths f of
       (Some e, f) \<Rightarrow> (Some (StorageNotReady e), f, [])
     | (None, f) \<Rightarrow>
       (case AtomicWrite w (last (preferencesFile paths)) (SerializePreferences preferences) d of
          (e, states) \<Rightarrow> (map_option PreferencesNotWritten e, f, states)))"

datatype preferences_load_error =
    PreferencesLayoutInvalid | NoPreferences | PreferencesNotOpened | PreferencesUnreadable | PreferencesMalformed preferences_error

text \<open>Opening an entry is as in \<open>Journal_Store\<close>; a directory opens and then fails to be read.\<close>

definition LoadApplicationPreferences ::
    "storage_world \<Rightarrow> preferences_world \<Rightarrow> ApplicationStoragePaths \<Rightarrow> directory \<Rightarrow> preferences_load_error + ApplicationPreferences" where
  "LoadApplicationPreferences sw w paths d =
    (if \<not> StorageLayoutMatches sw paths then Inl PreferencesLayoutInvalid
     else let found = map_of d (last (preferencesFile paths)) in
     case (if pw_openError w then None else opened found) of
       None \<Rightarrow> Inl (if (case found of None \<Rightarrow> True | Some e \<Rightarrow> \<not> leads w e) \<and> \<not> pw_existsError w
                     then NoPreferences else PreferencesNotOpened)
     | Some contents \<Rightarrow>
       if pw_readError w then Inl PreferencesUnreadable
       else map_sum PreferencesMalformed id (ParsePreferences contents))"

subsection \<open>Reading back\<close>

lemma marks [simp]: "quote_mark \<noteq> escape_mark" "\<not> is_space quote_mark"
  by code_simp+

lemma quoted_body_put:
  "quoted_body (concat (map (\<lambda>c. if c = quote_mark \<or> c = escape_mark then [escape_mark, c] else [c]) v) @ quote_mark # rest)
    = Some (v, rest)"
  by (induction v) auto

lemma read_put_quoted: "read_quoted (CHR '' '' # put_quoted v @ rest) = Some (v, rest)"
proof -
  have "is_space (CHR '' '')" by (simp add: is_space_def)
  then show ?thesis
    using quoted_body_put [of v rest] by (simp add: read_quoted_def put_quoted_def)
qed

lemma read_field:
  assumes "is_word label" "is_space c"
  shows "ReadPreferenceField label (c # label @ CHR '' '' # put_quoted v @ rest) = Inr (v, rest)"
proof -
  have "read_token (c # label @ CHR '' '' # put_quoted v @ rest) = Some (label, CHR '' '' # put_quoted v @ rest)"
    using assms by (simp add: read_token_space read_token_word is_space_def)
  then show ?thesis by (simp add: ReadPreferenceField_def read_put_quoted)
qed

lemma decimal_version: "decimal (unat PreferencesFormatVersion) = ''1''"
  by code_simp

lemma read_written_version: "read_uint (CHR '' '' # ''1'' @ CHR 0x0A # rest) = Some (1, CHR 0x0A # rest)"
  by (simp add: read_uint_def is_space_def is_digit_def digits_value_def)

lemma read_written_header:
  "read_header (PreferencesMagic @ '' '' @ decimal (unat PreferencesFormatVersion) @ newline @ rest) = Inr (newline @ rest)"
proof -
  have "is_word PreferencesMagic" by code_simp
  then have magic: "read_token (PreferencesMagic @ CHR '' '' # s) = Some (PreferencesMagic, CHR '' '' # s)" for s
    by (rule read_token_word) (simp add: is_space_def)
  then show ?thesis
    unfolding read_header_def decimal_version newline_def
    using magic [of "''1'' @ CHR 0x0A # rest"] read_written_version [of rest]
    by (simp add: PreferencesFormatVersion_def)
qed

lemma parse_serialized:
  "ParsePreferences (SerializePreferences p) = (if ValidatePreferences p then Inr p else Inl InvalidPreferenceValue)"
proof -
  have words: "is_word ''ETHERNET_HOST''" "is_word ''MODULE_ADDRESS''" "is_word ''SSH_DESTINATION''" "is_word ''REMOTE_BRIDGE_COMMAND''"
    "is_word ''END''" by code_simp+
  have nl: "is_space (CHR 0x0A)" by (simp add: is_space_def)
  have ending: "read_token (CHR 0x0A # ''END'' @ newline) = Some (''END'', newline)"
    using read_token_word [OF words(5) nl, of "[]"] by (simp add: read_token_space nl newline_def)
  note fields = words(1-4) [THEN read_field, OF nl]
  have "\<lparr>lastVerifiedEthernetHost = lastVerifiedEthernetHost p, lastVerifiedModuleAddress = lastVerifiedModuleAddress p,
    pf_sshDestination = pf_sshDestination p, pf_remoteBridgeCommand = pf_remoteBridgeCommand p\<rparr> = p" by simp
  moreover have "dropWhile is_space newline = []" by (simp add: newline_def nl)
  ultimately show ?thesis
    unfolding ParsePreferences_def SerializePreferences_def
    using read_written_header fields ending nl
    by (simp add: bindE_def newline_def Let_def del: ApplicationPreferences.simps)
qed

subsection \<open>Lemmas on the file\<close>

lemma temporary_elsewhere [simp]: "temporary_name n i \<noteq> n" "n \<noteq> temporary_name n i"
  by (auto simp: temporary_name_def)

lemma allocated_temporary: "allocate_temporary w n d k i = Inr t \<Longrightarrow> t \<noteq> n"
  by (induction w n d k i rule: allocate_temporary.induct) (auto split: option.splits if_splits)

lemma remove_temporary [simp]: "t \<noteq> n \<Longrightarrow> map_of (RemoveTemporaryDirectory w t d) n = map_of d n"
  by (simp add: RemoveTemporaryDirectory_def delete_conv' update_conv' split: removal.split)

text \<open>The state of the destination after each call: the old one, or, of a write that succeeds, the new one.\<close>

lemma write_temporary_states:
  assumes "t \<noteq> n" and "\<And>s s'. pw_writer w s = (s', True) \<Longrightarrow> s' = s"
    and "write_temporary w n contents t d = (e, states)" and "d' \<in> set states"
  shows "map_of d' n = map_of d n \<or> e = None \<and> map_of d' n = Some (PlainFile contents)"
  using assms
  by (auto simp: write_temporary_def Let_def update_conv' split: prod.splits if_splits)

lemma write_temporary_last:
  assumes "t \<noteq> n" and "\<And>s s'. pw_writer w s = (s', True) \<Longrightarrow> s' = s"
    and "write_temporary w n contents t d = (None, states)"
  shows "states \<noteq> [] \<and> map_of (last states) n = Some (PlainFile contents)"
  using assms
  by (auto simp: write_temporary_def Let_def update_conv' split: prod.splits if_splits)

lemma atomic_write_cases:
  assumes "AtomicWrite w n contents d = (e, states)"
  shows "e \<noteq> None \<and> states = [] \<or> (\<exists>t. t \<noteq> n \<and> write_temporary w n contents t d = (e, states))"
proof (cases "allocate_temporary w n d MaximumTemporaryCollisions 0")
  case (Inr t)
  then show ?thesis
    using assms allocated_temporary [OF Inr] unfolding AtomicWrite_def Inr sum.case
    by (simp split: if_split_asm) auto
qed (use assms in \<open>simp add: AtomicWrite_def split: if_split_asm; force\<close>)

lemma load_same_entry:
  "map_of d' (last (preferencesFile paths)) = map_of d (last (preferencesFile paths)) \<Longrightarrow>
   LoadApplicationPreferences sw w paths d' = LoadApplicationPreferences sw w paths d"
  by (simp add: LoadApplicationPreferences_def Let_def cong: if_cong)

lemma load_written:
  assumes "StorageLayoutMatches sw paths" "\<not> pw_openError w" "\<not> pw_readError w" "ValidatePreferences p"
    and "map_of d (last (preferencesFile paths)) = Some (PlainFile (SerializePreferences p))"
  shows "LoadApplicationPreferences sw w paths d = Inr p"
  using assms by (simp add: LoadApplicationPreferences_def opened_def parse_serialized)

subsection \<open>Lemmas on the directories\<close>

definition plain_kept :: "folders \<Rightarrow> folders \<Rightarrow> path set \<Rightarrow> bool" where
  "plain_kept f g ps \<longleftrightarrow> (\<forall>q. g q = f q \<or> q \<in> ps \<and> f q = Absent \<and> g q = PlainFolder)"

lemma plain_kept_refl [simp]: "plain_kept f f ps"
  by (simp add: plain_kept_def)

lemma plain_kept_trans: "plain_kept f g ps \<Longrightarrow> plain_kept g h qs \<Longrightarrow> plain_kept f h (ps \<union> qs)"
  by (simp add: plain_kept_def) (metis path_kind.distinct(1))

lemma plain_kept_plain: "plain_kept f g ps \<Longrightarrow> f q = PlainFolder \<Longrightarrow> g q = PlainFolder"
  unfolding plain_kept_def by metis

lemma ensure_plain_kept: "EnsurePlainDirectory w label p f = (e, g) \<Longrightarrow> plain_kept f g {p}"
  by (auto simp: EnsurePlainDirectory_def plain_kept_def Let_def present_def split: if_splits option.splits path_kind.splits)

definition durable :: "storage_world \<Rightarrow> path \<Rightarrow> bool" where
  "durable w p \<longleftrightarrow> \<not> sg_existsError w p \<and> \<not> sg_statusError w p \<and> parent_path p \<noteq> []
     \<and> \<not> sg_syncError w p \<and> \<not> sg_syncError w (parent_path p)"

lemma ensure_plain_succeeds:
  "fst (EnsurePlainDirectory w label p f) = None
    \<longleftrightarrow> durable w p \<and> (f p = PlainFolder \<or> f p = Absent \<and> \<not> sg_createError w p)"
  by (cases "f p") (auto simp: EnsurePlainDirectory_def RequireExistingDirectory_def durable_def Let_def present_def)

lemma ensure_plain_ready: "EnsurePlainDirectory w label p f = (None, g) \<Longrightarrow> g p = PlainFolder"
  by (cases "f p") (auto simp: EnsurePlainDirectory_def RequireExistingDirectory_def Let_def present_def split: if_splits)

lemma ensure_all_kept: "ensure_all w ps f = (e, g) \<Longrightarrow> plain_kept f g (snd ` set ps)"
proof (induction w ps f rule: ensure_all.induct)
  case (2 w label p rest f)
  show ?case
  proof (cases "EnsurePlainDirectory w label p f")
    case (Pair e' h)
    then have "plain_kept f h {p}" by (rule ensure_plain_kept)
    with 2 Pair show ?thesis
      using plain_kept_trans [of f h "{p}" g "snd ` set rest"] plain_kept_trans [of f h "{p}" h "snd ` set rest"]
      by (cases e') auto
  qed
qed simp

lemma ensure_all_ready:
  "ensure_all w ps f = (None, g) \<Longrightarrow> (label, p) \<in> set ps \<Longrightarrow>
    g p = PlainFolder \<and> durable w p \<and> (f p = PlainFolder \<or> f p = Absent \<and> \<not> sg_createError w p)"
proof (induction w ps f rule: ensure_all.induct)
  case (2 w label' p' rest f)
  obtain e h where step: "EnsurePlainDirectory w label' p' f = (e, h)" by fastforce
  with 2(2) have e: "e = None" and rest: "ensure_all w rest h = (None, g)" by (auto split: option.splits)
  then have first: "h p' = PlainFolder" "durable w p'" "f p' = PlainFolder \<or> f p' = Absent \<and> \<not> sg_createError w p'"
    using step ensure_plain_ready ensure_plain_succeeds [of w label' p' f] by auto
  show ?case
  proof (cases "p = p'")
    case True
    then show ?thesis using first plain_kept_plain [OF ensure_all_kept [OF rest]] by simp
  next
    case False
    then have "h p = f p" using ensure_plain_kept [OF step] unfolding plain_kept_def by blast
    then show ?thesis using 2(1) [OF step [symmetric] e rest] 2(3) False by auto
  qed
qed simp

lemma ensure_all_succeeds:
  assumes "\<And>label p. (label, p) \<in> set ps \<Longrightarrow> durable w p \<and> (f p = PlainFolder \<or> f p = Absent \<and> \<not> sg_createError w p)"
  shows "fst (ensure_all w ps f) = None"
  using assms
proof (induction w ps f rule: ensure_all.induct)
  case (2 w label' p' rest f)
  obtain e h where step: "EnsurePlainDirectory w label' p' f = (e, h)" by fastforce
  then have e: "e = None" using ensure_plain_succeeds [of w label' p' f] 2(2) [of label' p'] by simp
  have same: "h q = PlainFolder \<or> h q = f q" for q
    using ensure_plain_kept [OF step] unfolding plain_kept_def by metis
  have "fst (ensure_all w rest h) = None"
  proof (rule 2(1) [OF step [symmetric] e])
    fix l p
    assume "(l, p) \<in> set rest"
    then show "durable w p \<and> (h p = PlainFolder \<or> h p = Absent \<and> \<not> sg_createError w p)"
      using 2(2) [of l p] same [of p] by auto
  qed
  then show ?case using step e by simp
qed simp

lemma ensure_matches: "EnsureApplicationStorageDirectories w paths f = (None, g) \<Longrightarrow> StorageLayoutMatches w paths"
  by (cases "StorageLayoutMatches w paths") (simp_all add: EnsureApplicationStorageDirectories_def)

lemma save_cases:
  assumes "SaveApplicationPreferences sw w paths p f d = (e, g, states)"
  shows "e \<noteq> None \<and> states = [] \<or> ValidatePreferences p \<and> StorageLayoutMatches sw paths
    \<and> (\<exists>e'. AtomicWrite w (last (preferencesFile paths)) (SerializePreferences p) d = (e', states)
          \<and> e = map_option PreferencesNotWritten e')"
proof -
  obtain r h where ready: "EnsureApplicationStorageDirectories sw paths f = (r, h)" by fastforce
  obtain a b where wrote: "AtomicWrite w (last (preferencesFile paths)) (SerializePreferences p) d = (a, b)" by fastforce
  show ?thesis
    using assms ready wrote ensure_matches [of sw paths f h]
    by (cases r; cases "ValidatePreferences p") (auto simp: SaveApplicationPreferences_def)
qed

subsection \<open>Properties\<close>

definition application_parts :: "ApplicationStoragePaths \<Rightarrow> path set" where
  "application_parts paths = {stateDirectory paths, logsDirectory paths, recoveryDirectory paths, reportsDirectory paths}"

definition sample_storage :: storage_world where
  "sample_storage = \<lparr>sg_canonical = Some, sg_lexical = id, sg_marker = (\<lambda>p. p = [''/'', ''app'', ''CMakeCache.txt'']),
     sg_existsError = (\<lambda>p. False), sg_createError = (\<lambda>p. False), sg_statusError = (\<lambda>p. False), sg_syncError = (\<lambda>p. False)\<rparr>"

definition sample_folders :: folders where
  "sample_folders p = (if p = [''/''] \<or> p = [''/'', ''app''] then PlainFolder else Absent)"

definition calm_preferences :: preferences_world where
  "calm_preferences = \<lparr>pw_dangling = False, pw_existsError = False, pw_statusError = False, pw_createError = (\<lambda>i. False),
     pw_collisionError = (\<lambda>i. False), pw_openError = False, pw_writer = (\<lambda>s. (s, True)), pw_renameError = False,
     pw_removal = RemovedAll, pw_readError = False\<rparr>"

definition sample_paths :: ApplicationStoragePaths where
  "sample_paths = BuildStoragePaths sample_storage [''/'', ''app'']"

definition sample_preferences :: ApplicationPreferences where
  "sample_preferences = \<lparr>lastVerifiedEthernetHost = ''mvlc'', lastVerifiedModuleAddress = ''0x0000'',
     pf_sshDestination = ''daq host'', pf_remoteBridgeCommand = ''bridge''\<rparr>"

text \<open>
  (C27) Saving the application preferences is atomic: whatever fails on the way, after every single call that
  changes the directory the file loads either as it did before or, of a save that succeeds, as the new
  preferences; and after a successful save whose file can be read it loads as exactly the preferences saved.
  The write is assumed to leave the text it reports as written.
\<close>
theorem preferences_save_atomic:
  assumes "\<And>s s'. pw_writer w s = (s', True) \<Longrightarrow> s' = s"
    and "SaveApplicationPreferences sw w paths p f d = (e, g, states)"
  shows "(\<forall>d' \<in> set states.
        LoadApplicationPreferences sw lw paths d' = LoadApplicationPreferences sw lw paths d
        \<or> e = None \<and> map_of d' (last (preferencesFile paths)) = Some (PlainFile (SerializePreferences p)))
    \<and> (e = None \<longrightarrow> states \<noteq> []
        \<and> (\<not> pw_openError lw \<and> \<not> pw_readError lw \<longrightarrow> LoadApplicationPreferences sw lw paths (last states) = Inr p))"
proof -
  let ?n = "last (preferencesFile paths)"
  consider "e \<noteq> None" "states = []"
    | e' where "ValidatePreferences p" "StorageLayoutMatches sw paths"
        "AtomicWrite w ?n (SerializePreferences p) d = (e', states)" "e = map_option PreferencesNotWritten e'"
    using save_cases [OF assms(2)] by blast
  then show ?thesis
  proof cases
    case (2 e')
    consider "e' \<noteq> None" "states = []"
      | t where "t \<noteq> ?n" "write_temporary w ?n (SerializePreferences p) t d = (e', states)"
      using atomic_write_cases [OF 2(3)] by blast
    then show ?thesis
    proof cases
      case (2 t)
      have each: "LoadApplicationPreferences sw lw paths d' = LoadApplicationPreferences sw lw paths d
          \<or> e' = None \<and> map_of d' ?n = Some (PlainFile (SerializePreferences p))" if "d' \<in> set states" for d'
        using write_temporary_states [OF 2(1) assms(1) 2(2) that] load_same_entry by metis
      have "states \<noteq> [] \<and> map_of (last states) ?n = Some (PlainFile (SerializePreferences p))" if "e' = None"
        using write_temporary_last [OF 2(1) assms(1)] 2(2) that by blast
      then show ?thesis
        using each load_written \<open>ValidatePreferences p\<close> \<open>StorageLayoutMatches sw paths\<close> \<open>e = _\<close> by auto
    qed (use \<open>e = _\<close> in simp)
  qed simp
qed

theorem preferences_save_atomic_witness:
  "\<exists>g states. SaveApplicationPreferences sample_storage calm_preferences sample_paths sample_preferences sample_folders []
      = (None, g, states) \<and> LoadApplicationPreferences sample_storage calm_preferences sample_paths (last states) = Inr sample_preferences"
proof -
  obtain e g states where saved: "SaveApplicationPreferences sample_storage calm_preferences sample_paths sample_preferences
      sample_folders [] = (e, g, states)" by (metis prod_cases3)
  have "fst (SaveApplicationPreferences sample_storage calm_preferences sample_paths sample_preferences sample_folders []) = None"
    by code_simp
  then show ?thesis
    using preferences_save_atomic [of calm_preferences, OF _ saved, of calm_preferences] saved
    by (simp add: calm_preferences_def)
qed

text \<open>
  Preparing the application storage is exact and durable: it succeeds just when the layout is the one of
  its home, the home is a plain directory, and each of the four directories is a plain directory or can be
  created, inspected and synchronised with its parent; then all four are plain directories. Whatever fails, no
  directory entry but these four changes, and those only from absent to a plain directory.
\<close>
theorem storage_ready_exact:
  assumes "EnsureApplicationStorageDirectories w paths f = (e, g)"
  shows "plain_kept f g (application_parts paths)
    \<and> (e = None \<longleftrightarrow> StorageLayoutMatches w paths \<and> \<not> sg_statusError w (applicationHome paths)
      \<and> f (applicationHome paths) = PlainFolder
      \<and> (\<forall>p \<in> application_parts paths. durable w p \<and> (f p = PlainFolder \<or> f p = Absent \<and> \<not> sg_createError w p)))
    \<and> (e = None \<longrightarrow> (\<forall>p \<in> application_parts paths. g p = PlainFolder))"
proof -
  let ?ready = "StorageLayoutMatches w paths \<and> \<not> sg_statusError w (applicationHome paths) \<and> f (applicationHome paths) = PlainFolder"
  have parts: "application_parts paths = snd ` set (storage_directories paths)"
    by (simp add: application_parts_def storage_directories_def)
  show ?thesis
  proof (cases ?ready)
    case True
    with assms have all: "ensure_all w (storage_directories paths) f = (e, g)"
      by (simp add: EnsureApplicationStorageDirectories_def RequireExistingDirectory_def)
    show ?thesis
      using True ensure_all_kept [OF all] ensure_all_ready [of w "storage_directories paths" f g]
        ensure_all_succeeds [of "storage_directories paths" w f] all
      unfolding parts by fastforce
  next
    case False
    then have "e \<noteq> None \<and> g = f"
      using assms by (auto simp: EnsureApplicationStorageDirectories_def RequireExistingDirectory_def split: if_splits)
    then show ?thesis using False by auto
  qed
qed

theorem storage_ready_exact_witness:
  "\<exists>g. EnsureApplicationStorageDirectories sample_storage sample_paths sample_folders = (None, g)
      \<and> (\<forall>p \<in> application_parts sample_paths. g p = PlainFolder)"
proof -
  obtain e g where ready: "EnsureApplicationStorageDirectories sample_storage sample_paths sample_folders = (e, g)" by fastforce
  have "fst (EnsureApplicationStorageDirectories sample_storage sample_paths sample_folders) = None" by code_simp
  then show ?thesis using storage_ready_exact [OF ready] ready by simp
qed

subsection \<open>The search for the home\<close>

text \<open>The directory of the given names below the root and those above it, nearest first.\<close>

definition ancestors :: "string list \<Rightarrow> path list" where
  "ancestors names = map (\<lambda>above. ''/'' # above) (rev (prefixes names))"

lemma ancestors_simps [simp]: "ancestors [] = [[''/'']]" "ancestors (names @ [n]) = (''/'' # names @ [n]) # ancestors names"
  by (simp_all add: ancestors_def)

definition marked_home :: "storage_world \<Rightarrow> path list \<Rightarrow> path option" where
  "marked_home w ps = map_option parent_path (find (\<lambda>p. sg_marker w (p @ [''CMakeCache.txt''])) ps)"

lemma search_home_marked:
  "search_home w fallback n (''/'' # names)
     = (case marked_home w (take n (ancestors names)) of Some p \<Rightarrow> p | None \<Rightarrow> fallback)"
proof (induction names arbitrary: n rule: rev_induct)
  case Nil
  show ?case by (cases n) (auto simp: marked_home_def parent_path_def)
next
  case (snoc m names)
  have "parent_path (''/'' # names @ [m]) = ''/'' # names" by (simp add: parent_path_def butlast_append)
  then show ?case using snoc by (cases n) (auto simp: marked_home_def)
qed

text \<open>
  The home of the application is found in bounded time and exactly: from an absolute directory the search
  inspects no more than the limit and one directories, upwards and never past the root, and yields the parent
  of the nearest one that holds a build cache, or, where none does, the directory it started from.
\<close>
theorem application_home_exact:
  assumes "NormalizePath w p = ''/'' # names"
  shows "ResolveApplicationHome w p limit
      = (case marked_home w (take (Suc limit) (ancestors names)) of Some home \<Rightarrow> home | None \<Rightarrow> ''/'' # names)
    \<and> length (take (Suc limit) (ancestors names)) = min (Suc limit) (Suc (length names))"
  using assms by (simp add: ResolveApplicationHome_def search_home_marked ancestors_def del: take_Suc_conv_app_nth)

theorem application_home_exact_witness:
  "ResolveApplicationHome sample_storage [''/'', ''app'', ''build''] ApplicationHomeParentSearchLimit = [''/'']"
proof -
  have "marked_home sample_storage (take 9 (ancestors [''app'', ''build''])) = Some [''/'']" by code_simp
  then show ?thesis
    using application_home_exact [of sample_storage "[''/'', ''app'', ''build'']" "[''app'', ''build'']" 8]
    by (simp add: NormalizePath_def sample_storage_def ApplicationHomeParentSearchLimit_def)
qed

end
