(* ===== verification/Session_Preparation.thy ===== *)
theory Session_Preparation
  imports Lifted_Transport Target_Probe Application_Storage Scp_Capture
begin

text \<open>
  The preparation of a tuning session, \<^verbatim>\<open>hardware/PrepareTuningSessionOperation.cpp\<close>: a read-only check
  of the target, the storage, a journal created before the first write to the module, the capture of the
  settings to restore under a gate that rereads the controller's acquisition mode, and the promotion of the
  journal to the captured snapshot. The closures of the operation are definitions over its local variables
  and the world; the capture runs on a transport over both. The run returns, beside the result, a
  timeline: the recovery directory after each change, with the world at that moment.
\<close>

subsection \<open>Requests, results and surroundings\<close>

datatype PrepareTuningSessionOutcome =
    SessionNotRun | SnapshotCaptured | PreflightRefused | SessionStorageUnavailable | RecoveryRecordExists
  | ControllerBecameActive | CaptureFailed | JournalPromotionFailed | SessionInterrupted | SessionTransportUnavailable

datatype PrepareTuningSessionJournalPhase = NoJournalPhase | PreparedPhase | SnapshotCapturedPhase

datatype PrepareTuningSessionCheckpointKind =
    AtJournalPrepared | AtDaqIdleVerified | AtGlobalRegisterRead | AtSelectorSettled | AtBankedRegisterRead
  | AtSelectorParked | AtCaptureCompleted | AtBeforeJournalPromotion | AtJournalPromoted

record PrepareTuningSessionCheckpoint =
  pc_kind :: PrepareTuningSessionCheckpointKind
  pc_quad :: "u16 option"
  pc_registerOffset :: u16
  pc_ordinal :: nat

record 'w session_runtime =
  sr_delay :: "(nat \<Rightarrow> 'w \<Rightarrow> 'w) option"
  sr_checkpoint :: "(PrepareTuningSessionCheckpoint \<Rightarrow> 'w \<Rightarrow> bool \<times> 'w) option"

record PrepareTuningSessionRequest =
  sq_endpoint :: TransportEndpointRequest
  sq_targetAddress :: u32
  sq_storagePaths :: ApplicationStoragePaths
  sq_recoveryJournalPath :: path

datatype session_message =
    NotInsideStorage | CancelledBeforeBegin | NoTransportCreated string | NoSessionTransport | NotOpenedTransport string
  | PreflightText string | TargetNotWriteApproved | StorageText storage_error | CreationText save_message
  | StoppedAfterPrepared | CaptureText string | StoppedAfterCapture | GateText string | StoppedBeforePromotion
  | PromotionText save_message | StoppedAfterPromotion | SessionPrepared

record PrepareTuningSessionResult =
  pp_outcome :: PrepareTuningSessionOutcome
  pp_journalPhase :: PrepareTuningSessionJournalPhase
  pp_message :: "session_message option"
  pp_recoveryJournalPath :: path
  pp_preflight :: TargetProbeResult
  pp_liveRestoreSnapshot :: Fw2051ScpConfigurationSnapshot
  pp_temporaryConnectionOpened :: bool
  pp_temporaryConnectionClosed :: bool
  pp_journalCreatedExclusively :: bool
  pp_journalPromotedAtomically :: bool
  pp_controllerBecameActive :: bool
  pp_daqIdleChecks :: nat
  pp_completedCheckpoints :: nat
  pp_interruptedAt :: "PrepareTuningSessionCheckpoint option"

definition new_session_result :: "path \<Rightarrow> PrepareTuningSessionResult" where
  "new_session_result p = \<lparr>pp_outcome = SessionNotRun, pp_journalPhase = NoJournalPhase, pp_message = None,
     pp_recoveryJournalPath = p, pp_preflight = new_target_probe, pp_liveRestoreSnapshot = default_snapshot,
     pp_temporaryConnectionOpened = False, pp_temporaryConnectionClosed = False, pp_journalCreatedExclusively = False,
     pp_journalPromotedAtomically = False, pp_controllerBecameActive = False, pp_daqIdleChecks = 0,
     pp_completedCheckpoints = 0, pp_interruptedAt = None\<rparr>"

text \<open>
  The file system the operation meets: the paths, the directories, the content of the recovery directory if
  there is one, and the worlds of the two installations and of the loading between them.
\<close>

record session_files =
  sf_storage :: storage_world
  sf_absolute :: "path \<Rightarrow> path option"
  sf_folders :: folders
  sf_directory :: directory
  sf_create :: install_world
  sf_promote :: install_world
  sf_load :: load_world

definition DaqModeRegister :: u16 where "DaqModeRegister = 0x1300"
definition InitialDaqReference :: u16 where "InitialDaqReference = 0x5000"

definition RecoveryEndpoint :: "TransportEndpointRequest \<Rightarrow> ControllerEndpointRequest" where
  "RecoveryEndpoint request = (case request of
     DirectEndpoint e \<Rightarrow> \<lparr>ep_kind = DirectEthernet, ep_mvlcHost = de_mvlcHost e, ep_mvlcCommandPort = de_mvlcCommandPort e,
       ep_sshDestination = [], ep_remoteBridgeCommand = []\<rparr>
   | BridgeEndpoint e \<Rightarrow> \<lparr>ep_kind = SshBridge, ep_mvlcHost = sb_mvlcHost e, ep_mvlcCommandPort = sb_mvlcCommandPort e,
       ep_sshDestination = sb_sshDestination e, ep_remoteBridgeCommand = sb_remoteBridgeCommand e\<rparr>)"

definition ComparablePath :: "session_files \<Rightarrow> path \<Rightarrow> path" where
  "ComparablePath files p = sg_lexical (sf_storage files) (case sf_absolute files p of Some a \<Rightarrow> a | None \<Rightarrow> p)"

text \<open>A path that ends with a separator has an empty last component.\<close>

definition filename :: "path \<Rightarrow> string" where
  "filename p = (if p = [] \<or> p = [''/''] then [] else last p)"

definition RecoveryPathBelongsToStorage :: "session_files \<Rightarrow> PrepareTuningSessionRequest \<Rightarrow> bool" where
  "RecoveryPathBelongsToStorage files request \<longleftrightarrow>
     \<not> (sq_recoveryJournalPath request = [] \<or> filename (sq_recoveryJournalPath request) = []
       \<or> recoveryDirectory (sq_storagePaths request) = [])
     \<and> ComparablePath files (parent_path (sq_recoveryJournalPath request))
       = ComparablePath files (recoveryDirectory (sq_storagePaths request))"

fun OutcomeForPreflight :: "TargetProbeOutcome \<Rightarrow> PrepareTuningSessionOutcome" where
  "OutcomeForPreflight TargetProbeTransportUnavailable = SessionTransportUnavailable"
| "OutcomeForPreflight TargetProbeTimeout = SessionTransportUnavailable"
| "OutcomeForPreflight TargetProbeMalformedResponse = SessionTransportUnavailable"
| "OutcomeForPreflight TargetProbeCancelled = SessionInterrupted"
| "OutcomeForPreflight _ = PreflightRefused"

text \<open>The identity of a check that passed; \<^verbatim>\<open>value()\<close> of what is not there does not return.\<close>

definition PreparedData :: "PrepareTuningSessionRequest \<Rightarrow> TargetProbeResult \<Rightarrow> TunerRecoveryV5Data" where
  "PreparedData request probe = \<lparr>v5_sessionPhase = Preparing, v5_endpoint = RecoveryEndpoint (sq_endpoint request),
     v5_identity = \<lparr>id_mvlcHardwareId = the (tp_mvlcHardwareId probe), id_mvlcFirmwareRevision = the (tp_mvlcFirmwareRevision probe),
       id_targetBaseAddress = sq_targetAddress request, id_targetHardwareId = the (tp_targetHardwareId probe),
       id_targetFirmwareRevision = the (tp_targetFirmwareRevision probe)\<rparr>,
     v5_selectorParkingRequired = True, v5_ownership = None, v5_liveRestoreSnapshot = None, v5_deviations = []\<rparr>"

definition PreparedRecord :: "PrepareTuningSessionRequest \<Rightarrow> TargetProbeResult \<Rightarrow> TunerRecoveryRecord" where
  "PreparedRecord request probe = v5_record (PreparedData request probe)"

subsection \<open>The local state and the closures\<close>

record 'w preparation =
  pr_result :: PrepareTuningSessionResult
  pr_nextDaqReference :: u16
  pr_world :: 'w

definition put_world :: "'w \<Rightarrow> 'w preparation \<Rightarrow> 'w preparation" where
  "put_world w s = s\<lparr>pr_world := w\<rparr>"

definition note_result :: "(PrepareTuningSessionResult \<Rightarrow> PrepareTuningSessionResult) \<Rightarrow> 'w preparation \<Rightarrow> 'w preparation" where
  "note_result f s = s\<lparr>pr_result := f (pr_result s)\<rparr>"

definition end_session :: "PrepareTuningSessionOutcome \<Rightarrow> session_message \<Rightarrow> 'w preparation \<Rightarrow> 'w preparation" where
  "end_session outcome m = note_result (\<lambda>r. r\<lparr>pp_outcome := outcome, pp_message := Some m\<rparr>)"

definition advance :: "'w session_runtime \<Rightarrow> PrepareTuningSessionCheckpointKind \<Rightarrow> u16 option \<Rightarrow> u16 \<Rightarrow> 'w preparation
    \<Rightarrow> bool \<times> 'w preparation" where
  "advance rt kind qd offset s =
    (let event = \<lparr>pc_kind = kind, pc_quad = qd, pc_registerOffset = offset, pc_ordinal = pp_completedCheckpoints (pr_result s)\<rparr>;
         s = note_result (\<lambda>r. r\<lparr>pp_completedCheckpoints := pp_completedCheckpoints r + 1\<rparr>) s in
     case sr_checkpoint rt of
       None \<Rightarrow> (True, s)
     | Some f \<Rightarrow>
       (case f event (pr_world s) of
          (True, w) \<Rightarrow> (True, put_world w s)
        | (False, w) \<Rightarrow> (False, note_result (\<lambda>r. r\<lparr>pp_interruptedAt := Some event\<rparr>) (put_world w s))))"

definition readDaq :: "'w transport \<Rightarrow> 'w preparation \<Rightarrow> (vme_error option + u32 list) \<times> 'w preparation" where
  "readDaq transport s =
    (case readLocal transport [DaqModeRegister]
        (\<lparr>nextSuperReference = pr_nextDaqReference s, nextStackReference = 0\<rparr>, pr_world s) of
       (x, refs, w) \<Rightarrow> (x, (put_world w s)\<lparr>pr_nextDaqReference := nextSuperReference refs\<rparr>))"

definition gate_result :: "ScpCaptureGateStatus \<Rightarrow> string \<Rightarrow> ScpCaptureGateResult" where
  "gate_result st text = \<lparr>g_status = st, g_message = text\<rparr>"

definition judge_daq :: "'w session_runtime \<Rightarrow> string \<Rightarrow> u32 list \<Rightarrow> 'w preparation \<Rightarrow> ScpCaptureGateResult \<times> 'w preparation" where
  "judge_daq rt boundary vs s =
    (case vs of
       [daqMode] \<Rightarrow>
         (let s = note_result (\<lambda>r. r\<lparr>pp_daqIdleChecks := pp_daqIdleChecks r + 1\<rparr>) s in
          if daqMode \<noteq> 0
          then (gate_result OwnershipLost (''Controller acquisition became active at '' @ boundary
                  @ ''. No further hardware write was sent; the Prepared journal was retained.''),
                note_result (\<lambda>r. r\<lparr>pp_controllerBecameActive := True\<rparr>) s)
          else case advance rt AtDaqIdleVerified None DaqModeRegister s of
            (False, s) \<Rightarrow> (gate_result Cancelled ''Session preparation was interrupted after a DAQ-idle verification.'', s)
          | (True, s) \<Rightarrow> (gate_result Allowed ''DAQ mode remains idle.'', s))
     | _ \<Rightarrow> (gate_result CommunicationUnavailable (''The DAQ-idle gate returned an invalid value count at '' @ boundary @ ''.''), s))"

definition daqGate :: "'w transport \<Rightarrow> 'w session_runtime \<Rightarrow> 'w preparation gate" where
  "daqGate transport rt boundary s =
    (case carry pr_world put_world (t_cancelled transport) s of
       (True, s) \<Rightarrow> (gate_result Cancelled (''Session preparation was cancelled at '' @ boundary @ ''.''), s)
     | (False, s) \<Rightarrow>
       (case readDaq transport s of
          (Inl e, s) \<Rightarrow> (gate_result CommunicationUnavailable (''Could not reverify DAQ idleness at '' @ boundary @ '': '' @ error_text e), s)
        | (Inr vs, s) \<Rightarrow> judge_daq rt boundary vs s))"

fun checkpoint_kind :: "ScpCaptureCheckpointKind \<Rightarrow> PrepareTuningSessionCheckpointKind" where
  "checkpoint_kind GlobalRegisterRead = AtGlobalRegisterRead"
| "checkpoint_kind SelectorSettled = AtSelectorSettled"
| "checkpoint_kind BankedRegisterRead = AtBankedRegisterRead"
| "checkpoint_kind SelectorParked = AtSelectorParked"

definition session_capture_runtime :: "'w session_runtime \<Rightarrow> 'w preparation ScpCaptureRuntime" where
  "session_capture_runtime rt = \<lparr>rt_delay = map_option (\<lambda>f d s. put_world (f d (pr_world s)) s) (sr_delay rt),
     rt_checkpoint = Some (\<lambda>event. advance rt (checkpoint_kind (cp_kind event)) (cp_quad event) (cp_registerOffset event)),
     rt_gateBeforeFirstSelector = True\<rparr>"

subsection \<open>From the journal on\<close>

type_synonym 'w timeline = "(directory \<times> 'w) list"

definition journal_file :: "PrepareTuningSessionRequest \<Rightarrow> string" where
  "journal_file request = filename (sq_recoveryJournalPath request)"

definition PromotedRecord :: "PrepareTuningSessionRequest \<Rightarrow> TargetProbeResult \<Rightarrow> Fw2051ScpConfigurationSnapshot \<Rightarrow> TunerRecoveryRecord" where
  "PromotedRecord request probe snapshot =
     v5_record ((PreparedData request probe)\<lparr>v5_selectorParkingRequired := False, v5_liveRestoreSnapshot := Some snapshot\<rparr>)"

definition promote_session :: "session_files \<Rightarrow> 'w session_runtime \<Rightarrow> PrepareTuningSessionRequest \<Rightarrow> directory \<Rightarrow> 'w preparation
    \<Rightarrow> 'w preparation \<times> 'w timeline" where
  "promote_session files rt request d s =
    (case PromoteTunerRecoveryJournalV5Snapshot (sf_promote files) (sf_load files)
        (PromotedRecord request (pp_preflight (pr_result s)) (pp_liveRestoreSnapshot (pr_result s)))
        (journal_file request) (PlainDirectory d) of
      (promoted, states) \<Rightarrow>
     (let timeline = map (\<lambda>t. (t, pr_world s)) states;
          installed = note_result (\<lambda>r. r\<lparr>pp_journalPromotedAtomically := True, pp_journalPhase := SnapshotCapturedPhase\<rparr>) in
      if \<not> sv_success promoted
      then (end_session JournalPromotionFailed (PromotionText (sv_message promoted))
              (if sv_destinationInstalled promoted then installed s else s), timeline)
      else case advance rt AtJournalPromoted None 0 (installed s) of
        (False, s) \<Rightarrow> (end_session SessionInterrupted StoppedAfterPromotion s, timeline)
      | (True, s) \<Rightarrow> (end_session SnapshotCaptured SessionPrepared s, timeline)))"

text \<open>The flag is only read when nothing else explains a capture that is not complete.\<close>

definition incomplete_capture :: "'w transport \<Rightarrow> string \<Rightarrow> 'w preparation \<Rightarrow> 'w preparation" where
  "incomplete_capture transport text s =
    (if pp_controllerBecameActive (pr_result s) then end_session ControllerBecameActive (CaptureText text) s
     else if pp_interruptedAt (pr_result s) \<noteq> None then end_session SessionInterrupted (CaptureText text) s
     else case carry pr_world put_world (t_cancelled transport) s of
       (c, s) \<Rightarrow> end_session (if c then SessionInterrupted else CaptureFailed) (CaptureText text) s)"

definition after_capture :: "'w transport \<Rightarrow> session_files \<Rightarrow> 'w session_runtime \<Rightarrow> PrepareTuningSessionRequest \<Rightarrow> directory
    \<Rightarrow> 'w preparation \<Rightarrow> 'w preparation \<times> 'w timeline" where
  "after_capture transport files rt request d s =
    (let snapshot = pp_liveRestoreSnapshot (pr_result s) in
     if state snapshot \<noteq> Complete then (incomplete_capture transport (message snapshot) s, [])
     else case advance rt AtCaptureCompleted None 0 s of
       (False, s) \<Rightarrow> (end_session SessionInterrupted StoppedAfterCapture s, [])
     | (True, s) \<Rightarrow>
       (case daqGate transport rt ''the snapshot-promotion boundary'' s of (finalIdle, s) \<Rightarrow>
          if g_status finalIdle \<noteq> Allowed
          then (end_session (if pp_controllerBecameActive (pr_result s) then ControllerBecameActive else SessionInterrupted)
                  (GateText (g_message finalIdle)) s, [])
          else case advance rt AtBeforeJournalPromotion None 0 s of
            (False, s) \<Rightarrow> (end_session SessionInterrupted StoppedBeforePromotion s, [])
          | (True, s) \<Rightarrow> promote_session files rt request d s))"

definition capture_session :: "'w transport \<Rightarrow> session_files \<Rightarrow> 'w session_runtime \<Rightarrow> PrepareTuningSessionRequest \<Rightarrow> directory
    \<Rightarrow> 'w preparation \<Rightarrow> 'w preparation \<times> 'w timeline" where
  "capture_session transport files rt request d s =
    (case advance rt AtJournalPrepared None 0 s of
       (False, s) \<Rightarrow> (end_session SessionInterrupted StoppedAfterPrepared s, [])
     | (True, s) \<Rightarrow>
       (case CaptureFw2051ScpConfiguration (lifted pr_world put_world transport) (sq_targetAddress request)
            (Some (daqGate transport rt)) (session_capture_runtime rt) (s\<lparr>pr_nextDaqReference := InitialDaqReference\<rparr>) of
          (captured, s) \<Rightarrow>
            after_capture transport files rt request d
              (note_result (\<lambda>r. r\<lparr>pp_liveRestoreSnapshot := op_configuration captured\<rparr>) s)))"

subsection \<open>The operation\<close>

text \<open>A recovery directory that has to be created is empty.\<close>

definition recovery_content :: "session_files \<Rightarrow> ApplicationStoragePaths \<Rightarrow> directory" where
  "recovery_content files paths = (if sf_folders files (recoveryDirectory paths) = Absent then [] else sf_directory files)"

definition create_session :: "'w transport \<Rightarrow> session_files \<Rightarrow> 'w session_runtime \<Rightarrow> PrepareTuningSessionRequest
    \<Rightarrow> 'w preparation \<Rightarrow> 'w preparation \<times> 'w timeline" where
  "create_session transport files rt request s =
    (let d = recovery_content files (sq_storagePaths request) in
     case CreateTunerRecoveryJournalExclusive (sf_create files) (PreparedRecord request (pp_preflight (pr_result s)))
        (journal_file request) (PlainDirectory d) of
      (created, states) \<Rightarrow>
     (let timeline = map (\<lambda>t. (t, pr_world s)) states in
      if \<not> sv_success created
      then (end_session (if sv_destinationAlreadyExists created then RecoveryRecordExists else SessionStorageUnavailable)
              (CreationText (sv_message created))
              (note_result (\<lambda>r. r\<lparr>pp_journalCreatedExclusively := sv_destinationInstalled created,
                 pp_journalPhase := (if sv_destinationInstalled created then PreparedPhase else NoJournalPhase)\<rparr>) s), timeline)
      else case capture_session transport files rt request (last (d # states))
          (note_result (\<lambda>r. r\<lparr>pp_journalCreatedExclusively := True, pp_journalPhase := PreparedPhase\<rparr>) s) of
        (s, later) \<Rightarrow> (s, timeline @ later)))"

definition prepare_on_open_transport :: "'w transport \<Rightarrow> session_files \<Rightarrow> 'w session_runtime \<Rightarrow> PrepareTuningSessionRequest
    \<Rightarrow> 'w preparation \<Rightarrow> 'w preparation \<times> 'w timeline" where
  "prepare_on_open_transport transport files rt request s =
    (case carry pr_world put_world (ProbeTargetOnOpenTransport transport
        \<lparr>pq_endpoint = sq_endpoint request, pq_targetAddress = sq_targetAddress request\<rparr>) s of
      (probe, s) \<Rightarrow>
     (let s = note_result (\<lambda>r. r\<lparr>pp_preflight := probe\<rparr>) s in
      if tp_outcome probe \<noteq> TargetVerifiedIdle
      then (end_session (OutcomeForPreflight (tp_outcome probe)) (PreflightText (tp_message probe)) s, [])
      else if (case tp_targetHardwareId probe of None \<Rightarrow> True | Some h \<Rightarrow> \<not> IsWriteApprovedMdpp32HardwareId h)
      then (end_session PreflightRefused TargetNotWriteApproved s, [])
      else case EnsureApplicationStorageDirectories (sf_storage files) (sq_storagePaths request) (sf_folders files) of
        (Some e, _) \<Rightarrow> (end_session SessionStorageUnavailable (StorageText e) s, [])
      | (None, _) \<Rightarrow> create_session transport files rt request s))"

definition PrepareTuningSession :: "'w factory \<Rightarrow> session_files \<Rightarrow> PrepareTuningSessionRequest \<Rightarrow> ('w \<Rightarrow> bool \<times> 'w)
    \<Rightarrow> 'w session_runtime \<Rightarrow> 'w \<Rightarrow> 'w preparation \<times> 'w timeline" where
  "PrepareTuningSession factory files request cancelled rt w =
    (let s = \<lparr>pr_result = new_session_result (sq_recoveryJournalPath request), pr_nextDaqReference = InitialDaqReference, pr_world = w\<rparr> in
     if \<not> RecoveryPathBelongsToStorage files request then (end_session SessionStorageUnavailable NotInsideStorage s, [])
     else case carry pr_world put_world cancelled s of
       (True, s) \<Rightarrow> (end_session SessionInterrupted CancelledBeforeBegin s, [])
     | (False, s) \<Rightarrow>
    (case carry pr_world put_world (factory (sq_endpoint request)) s of
       (Inl error, s) \<Rightarrow> (end_session SessionTransportUnavailable (NoTransportCreated error) s, [])
     | (Inr session, s) \<Rightarrow>
    (let close = (\<lambda>(s, timeline). (note_result (\<lambda>r. r\<lparr>pp_temporaryConnectionClosed := True\<rparr>)
           (put_world (ss_Close session (pr_world s)) s), timeline)) in
     case ss_CommandTransport session of
       None \<Rightarrow> close (end_session SessionTransportUnavailable NoSessionTransport s, [])
     | Some transport \<Rightarrow>
    (case carry pr_world put_world (ss_Open session (EndpointHost (sq_endpoint request)) (EndpointPort (sq_endpoint request))) s of
      (attempt, s) \<Rightarrow>
     if \<not> tr_success attempt then close (end_session SessionTransportUnavailable (NotOpenedTransport (tr_error attempt)) s, [])
     else close (prepare_on_open_transport (transport\<lparr>t_cancelled := cancelled\<rparr>) files rt request
            (note_result (\<lambda>r. r\<lparr>pp_temporaryConnectionOpened := True\<rparr>) s))))))"

subsection \<open>What the operation leaves alone\<close>

lemma preparation_fields [simp]:
  "pr_world (put_world w s) = w" "pr_result (put_world w s) = pr_result s" "put_world w (put_world w' s) = put_world w s"
  "pr_world (note_result f s) = pr_world s" "pr_result (note_result f s) = f (pr_result s)"
  "pr_world (end_session oc m s) = pr_world s"
  by (simp_all add: put_world_def note_result_def end_session_def)

lemma carried [simp]:
  "pr_world (snd (carry pr_world put_world f s)) = snd (f (pr_world s))" "fst (carry pr_world put_world f s) = fst (f (pr_world s))"
  "pr_result (snd (carry pr_world put_world f s)) = pr_result s"
  by (simp_all add: carry_def split: prod.split)

interpretation session_lens: world_lens pr_world put_world
  by unfold_locales (simp_all add: put_world_def)

lemma lifted_worlds:
  "pr_world (snd (snd (readRegister (lifted pr_world put_world T) base r b))) = snd (snd (readRegister T base r (fst b, pr_world (snd b))))"
  "pr_world (snd (snd (writeRegister (lifted pr_world put_world T) base r v b))) = snd (snd (writeRegister T base r v (fst b, pr_world (snd b))))"
  unfolding session_lens.readRegister_lifted session_lens.writeRegister_lifted
  by (simp_all add: session_lens.carry_bus_def readRegister_def writeRegister_def split: prod.split)

text \<open>A property of the world that reads and the callbacks keep, and one that selections of a quad keep too.\<close>

locale session_reads = reading_invariant T base I
  for T :: "'w transport" and base and I :: "'w \<Rightarrow> bool" +
  fixes rt :: "'w session_runtime"
  assumes delay_I: "sr_delay rt = Some f \<Longrightarrow> I w \<Longrightarrow> I (f d w)"
    and checkpoint_I: "sr_checkpoint rt = Some g \<Longrightarrow> I w \<Longrightarrow> I (snd (g e w))"
begin

lemma advance_I [simp]: "I (pr_world s) \<Longrightarrow> I (pr_world (snd (advance rt k q off s)))"
  using checkpoint_I by (auto simp: advance_def Let_def split: option.split prod.split bool.split) (metis snd_conv)+

lemma readDaq_I: "I (pr_world s) \<Longrightarrow> I (pr_world (snd (readDaq T s)))"
  using local_I [of "(\<lparr>nextSuperReference = pr_nextDaqReference s, nextStackReference = 0\<rparr>, pr_world s)" "[DaqModeRegister]"]
  by (simp add: readDaq_def case_prod_beta put_world_def)

lemma daqGate_I [simp]: "I (pr_world s) \<Longrightarrow> I (pr_world (snd (daqGate T rt n s)))"
  using readDaq_I [of "snd (carry pr_world put_world (t_cancelled T) s)"] flag_I [of "pr_world s"]
  by (auto simp: daqGate_def judge_daq_def case_prod_beta Let_def split: sum.split list.split bool.split)

end

locale session_world = session_reads T base I rt
  for T :: "'w transport" and base and I :: "'w \<Rightarrow> bool" and rt +
  assumes select_I: "v < 8 \<Longrightarrow> I (snd b) \<Longrightarrow> I (snd (snd (writeRegister T base Fw2051ScpSelectorRegister v b)))"

sublocale session_world \<subseteq> capturing: capture_world "lifted pr_world put_world T" base "daqGate T rt" "session_capture_runtime rt"
  selects_quad "\<lambda>s. I (pr_world s)"
proof unfold_locales
  fix b :: "'w preparation bus" and r v d c and s :: "'w preparation"
  let ?T = "lifted pr_world put_world T"
  show "I (pr_world (snd b)) \<Longrightarrow> I (pr_world (snd (snd (readRegister ?T base r b))))"
    using register_I [of "(fst b, pr_world (snd b))" r] by (simp add: lifted_worlds)
  show "selects_quad r v \<Longrightarrow> I (pr_world (snd b)) \<Longrightarrow> I (pr_world (snd (snd (writeRegister ?T base r v b))))"
    using select_I [of v "(fst b, pr_world (snd b))"] by (simp add: lifted_worlds selects_quad_def)
  show "I (pr_world s) \<Longrightarrow> I (pr_world (snd (t_cancelled ?T s)))" using flag_I [of "pr_world s"] by simp
  show "I (pr_world s) \<Longrightarrow> I (pr_world (capture_delay (session_capture_runtime rt) d s))"
    using delay_I by (auto simp: capture_delay_def session_capture_runtime_def split: option.split)
  show "I (pr_world s) \<Longrightarrow> I (pr_world (snd (capture_checkpoint (session_capture_runtime rt) c s)))"
    by (simp add: capture_checkpoint_def session_capture_runtime_def)
qed (simp_all add: selects_quad_def)

text \<open>Every moment of a run: the changes of the directory, and the end.\<close>

definition crash_points :: "directory \<Rightarrow> 'w preparation \<times> 'w timeline \<Rightarrow> 'w timeline" where
  "crash_points d run = snd run @ [(last (d # map fst (snd run)), pr_world (fst run))]"

context session_reads
begin

definition kept :: "'w preparation \<times> 'w timeline \<Rightarrow> bool" where
  "kept run \<longleftrightarrow> I (pr_world (fst run)) \<and> (\<forall>e \<in> set (snd run). I (snd e))"

lemma kept_end [simp]: "I (pr_world s) \<Longrightarrow> kept (s, [])"
  by (simp add: kept_def)

lemma kept_points: "kept run \<Longrightarrow> e \<in> set (crash_points d run) \<Longrightarrow> I (snd e)"
  by (auto simp: kept_def crash_points_def)

lemma promote_kept: "I (pr_world s) \<Longrightarrow> kept (promote_session files rt request d s)"
  by (auto simp: promote_session_def kept_def Let_def case_prod_beta split: bool.split)

lemma after_capture_kept: "I (pr_world s) \<Longrightarrow> kept (after_capture T files rt request d s)"
  using flag_I [of "pr_world s"]
  by (auto simp: after_capture_def incomplete_capture_def Let_def case_prod_beta promote_kept split: bool.split)

end

context session_world
begin

lemma capture_kept:
  assumes "sq_targetAddress request = base" "I (pr_world s)"
  shows "kept (capture_session T files rt request d s)"
proof -
  have "I (pr_world (snd (CaptureFw2051ScpConfiguration (lifted pr_world put_world T) base (Some (daqGate T rt))
      (session_capture_runtime rt) s')))" if "I (pr_world s')" for s'
    using capturing.capture_keeps [OF prod.collapse [symmetric]] that by blast
  then show ?thesis
    using assms by (auto simp: capture_session_def case_prod_beta intro!: after_capture_kept split: bool.split)
qed

lemma create_kept:
  assumes "sq_targetAddress request = base" "I (pr_world s)"
  shows "kept (create_session T files rt request s)"
proof -
  let ?c = "CreateTunerRecoveryJournalExclusive (sf_create files) (PreparedRecord request (pp_preflight (pr_result s)))
        (journal_file request) (PlainDirectory (recovery_content files (sq_storagePaths request)))"
  let ?s = "note_result (\<lambda>r. r\<lparr>pp_journalCreatedExclusively := True, pp_journalPhase := PreparedPhase\<rparr>) s"
  have "kept (capture_session T files rt request d ?s)" for d
    by (rule capture_kept [OF assms(1)]) (simp add: assms(2))
  then show ?thesis
    using assms(2) by (cases "sv_success (fst ?c)") (auto simp: create_session_def Let_def case_prod_beta kept_def)
qed

lemma prepare_kept:
  assumes "sq_targetAddress request = base" "I (pr_world s)"
  shows "kept (prepare_on_open_transport T files rt request s)"
  using assms create_kept [OF assms(1)] probe_I [OF assms(2)]
  by (auto simp: prepare_on_open_transport_def Let_def case_prod_beta split: option.split)

end

subsection \<open>The wire\<close>

text \<open>What the operation may send: reads of the module and of the controller, triggers, and selections of a quad.\<close>

definition session_request :: "u32 \<Rightarrow> byte list \<Rightarrow> bool" where
  "session_request base bytes \<longleftrightarrow> permitted base selects_quad bytes \<or> (\<exists>u addresses. bytes = batch_read_bytes u addresses)"

definition only_session_requests :: "u32 \<Rightarrow> event list \<Rightarrow> bool" where
  "only_session_requests base es \<longleftrightarrow> list_all (session_request base) (sends es)"

definition unobserved_session :: "'w session_runtime \<Rightarrow> ('w \<times> event list) session_runtime" where
  "unobserved_session rt = \<lparr>sr_delay = map_option (\<lambda>f d wl. (f d (fst wl), snd wl)) (sr_delay rt),
     sr_checkpoint = map_option (\<lambda>g e. unobserved (g e)) (sr_checkpoint rt)\<rparr>"

lemma select_sends:
  assumes "writeRegister (observed T) base r v (refs, w, l) = (x, refs', w', l')" "may_write r v"
  shows "\<exists>es. l' = l @ es \<and> list_all (permitted base may_write) (sends es)"
proof -
  let ?ops = "EncodeMvlcVmeWriteD16Words (base + ucast r) v"
  obtain q refs1 w1 l1 where q: "RunStackTransaction (observed T) ?ops refs (w, l) = (q, refs1, w1, l1)"
    by (cases "RunStackTransaction (observed T) ?ops refs (w, l)") auto
  then have "l1 = l'" using assms by (simp add: writeRegister_def WriteVmeD16_def)
  moreover obtain es where "l1 = l @ es" "transaction_sound ?ops MvlcTransactionAttemptCount refs es q refs1"
    using transaction_loop_observed [of T _ MvlcTransactionAttemptCount new_execution refs w l q refs1 w1 l1] q
    by (auto simp: RunStackTransaction_def retryable_def new_execution_def)
  ultimately show ?thesis using attempts_permitted assms(2) by (fastforce simp: transaction_sound_def)
qed

interpretation session_wire: session_world "observed T" base "\<lambda>wl. only_session_requests base (snd wl)" "unobserved_session rt"
  for T :: "'w transport" and base rt
proof unfold_locales
  let ?I = "\<lambda>wl :: 'w \<times> event list. only_session_requests base (snd wl)"
  have grown: "only_session_requests base (l @ es)" if "only_session_requests base l" "list_all (permitted base selects_quad) (sends es)" for l es
    using that by (auto simp: only_session_requests_def session_request_def list_all_iff)
  fix b :: "('w \<times> event list) bus" and r addresses v
  obtain refs w l where b: "b = (refs, w, l)" by (cases b)
  show "?I (snd b) \<Longrightarrow> ?I (snd (snd (readRegister (observed T) base r b)))"
    using register_sends [of T base r refs w l _ _ _ _ selects_quad] b grown [of l]
    by (cases "readRegister (observed T) base r b") fastforce
  show "v < 8 \<Longrightarrow> ?I (snd b) \<Longrightarrow> ?I (snd (snd (writeRegister (observed T) base Fw2051ScpSelectorRegister v b)))"
    using select_sends [of T base Fw2051ScpSelectorRegister v refs w l _ _ _ _ selects_quad] b grown [of l]
    by (cases "writeRegister (observed T) base Fw2051ScpSelectorRegister v b") (fastforce simp: selects_quad_def)
  have send: "?I wl \<Longrightarrow> ?I (snd (t_send (observed T) (batch_read_bytes u as) wl))" for u as wl
    by (cases wl) (auto simp: only_session_requests_def session_request_def split: prod.split)
  have receive: "?I wl \<Longrightarrow> ?I (snd (t_receive (observed T) n t wl))" for n t wl
    by (cases wl) (simp add: only_session_requests_def split: prod.split)
  have flag: "?I wl \<Longrightarrow> ?I (snd (t_cancelled (observed T) wl))" for wl by (cases wl) (simp split: prod.split)
  show "?I (snd b) \<Longrightarrow> ?I (snd (snd (readLocal (observed T) addresses b)))"
    by (rule readLocal_I [of ?I "observed T", OF send receive flag])
  show "?I wl \<Longrightarrow> ?I (snd (t_cancelled (observed T) wl))" for wl by (rule flag)
qed (auto simp: unobserved_session_def)

subsection \<open>The journal\<close>

text \<open>The text of a version-five record as the only file that discovery sees.\<close>

definition holds_data :: "directory \<Rightarrow> string \<Rightarrow> TunerRecoveryV5Data \<Rightarrow> bool" where
  "holds_data t n data \<longleftrightarrow> n \<noteq> [] \<and> ValidateV5Data data = None \<and> record_wf (v5_record data) \<and> visible t = [(n, PlainFile (WriteV5 data))]"

lemma serialize_stage:
  "SerializeTunerRecoveryJournal (v5_record data) = Inr text \<longleftrightarrow> ValidateV5Data data = None \<and> text = WriteV5 data"
  by (auto simp: SerializeTunerRecoveryJournal_def SerializeTunerRecoveryJournalV5_def split: option.splits)

lemma held_parses:
  "holds_data t n data \<Longrightarrow> ParseTunerRecoveryJournal (WriteV5 data) = Inr (v5_record (v5_view data))"
  using reads_back [of "v5_record data" "WriteV5 data"] by (simp add: holds_data_def serialize_stage journal_view_def)

lemma held_discovered: "holds_data t n data \<Longrightarrow> DiscoverApplicationRecovery quiet (PlainDirectory t) = PendingV5 n (v5_record (v5_view data))"
  using discover_single [of t n "WriteV5 data" "v5_record (v5_view data)"] held_parses [of t n data] by (simp add: holds_data_def)

lemma created_holds:
  assumes "honest_writer w" "\<not> IsJournalStagingEntry n" "visible d = []" "w_intruder w = None" "record_wf (v5_record data)"
    and "CreateTunerRecoveryJournalExclusive w (v5_record data) n (PlainDirectory d) = (r, states)" "sv_success r"
  shows "holds_data (last (d # states)) n data"
  using create_shape [OF assms(6)]
proof (elim disjE exE conjE)
  assume "r = refused (sv_message r)"
  then show ?thesis using assms(7) by (metis refused_fields(1))
next
  fix tx
  assume ser: "SerializeTunerRecoveryJournal (v5_record data) = Inr tx" "n \<noteq> []"
    and at: "InstallSerializedJournalAtomically w tx n Exclusive (PlainDirectory d) = (r, states)"
  have "installs_text w tx n d (r, states)" using install_text [OF assms(1,2), of tx d Exclusive] at by simp
  then show ?thesis
    using ser assms(3,4,5,7) by (auto simp: serialize_stage holds_data_def installs_text_def after_intruder_def Let_def)
qed

lemma promotion_holds:
  assumes "honest_writer w" "w_intruder w = None" "record_wf (v5_record data')" "holds_data d n data"
    and "PromoteTunerRecoveryJournalV5Snapshot w l (v5_record data') n (PlainDirectory d) = (r, states)"
  shows "(\<forall>t \<in> set states. holds_data t n data \<or> sv_destinationInstalled r \<and> holds_data t n data')
    \<and> (holds_data (last (d # states)) n data \<or> sv_destinationInstalled r \<and> holds_data (last (d # states)) n data')
    \<and> (sv_success r \<longrightarrow> sv_destinationInstalled r \<and> holds_data (last (d # states)) n data')"
proof -
  have "n \<in> set (map fst (visible d))" using assms(4) by (simp add: holds_data_def)
  then have n: "\<not> IsJournalStagingEntry n" unfolding visible_names by simp
  from promote_installs [OF assms(1) n assms(5)] show ?thesis
  proof (elim disjE exE conjE)
    assume "r = refused (sv_message r)" "states = []"
    moreover from this have "\<not> sv_success r" by (metis refused_fields(1))
    ultimately show ?thesis using assms(4) by simp
  next
    fix tx
    assume ser: "SerializeTunerRecoveryJournal (v5_record data') = Inr tx" and i: "installs_text w tx n d (r, states)"
    have new: "holds_data t n data'" if "visible t = AList.update n (PlainFile tx) (visible d)" for t
      using that ser assms(3,4) by (auto simp: serialize_stage holds_data_def)
    have old: "holds_data t n data" if "visible t = visible d" for t using that assms(4) by (simp add: holds_data_def)
    have each: "\<forall>t \<in> set states. holds_data t n data \<or> sv_destinationInstalled r \<and> holds_data t n data'"
      using i new old assms(2) by (auto simp: installs_text_def after_intruder_def Let_def)
    moreover have "sv_success r \<longrightarrow> sv_destinationInstalled r \<and> holds_data (last (d # states)) n data'"
      using i new assms(2) by (auto simp: installs_text_def after_intruder_def Let_def)
    ultimately show ?thesis using assms(4) by (cases "states = []") auto
  qed
qed

subsection \<open>The journal in the run\<close>

definition held_prepared :: "PrepareTuningSessionRequest \<Rightarrow> PrepareTuningSessionResult \<Rightarrow> directory \<Rightarrow> bool" where
  "held_prepared request r t \<longleftrightarrow> holds_data t (journal_file request) (PreparedData request (pp_preflight r))"

definition held_captured :: "PrepareTuningSessionRequest \<Rightarrow> PrepareTuningSessionResult \<Rightarrow> directory \<Rightarrow> bool" where
  "held_captured request r t \<longleftrightarrow> pp_journalPhase r = SnapshotCapturedPhase \<and> holds_data t (journal_file request)
     ((PreparedData request (pp_preflight r))\<lparr>v5_selectorParkingRequired := False, v5_liveRestoreSnapshot := Some (pp_liveRestoreSnapshot r)\<rparr>)"

definition held_throughout :: "PrepareTuningSessionRequest \<Rightarrow> directory \<Rightarrow> 'w preparation \<times> 'w timeline \<Rightarrow> bool" where
  "held_throughout request d run \<longleftrightarrow> (let r = pr_result (fst run) in
     (\<forall>t \<in> set (map fst (crash_points d run)). held_prepared request r t \<or> held_captured request r t)
   \<and> (pp_outcome r = SnapshotCaptured \<longrightarrow> held_captured request r (last (d # map fst (snd run))) \<and> state (pp_liveRestoreSnapshot r) = Complete))"

lemma result_fields [simp]:
  "pp_preflight (pr_result (end_session oc m s)) = pp_preflight (pr_result s)"
  "pp_liveRestoreSnapshot (pr_result (end_session oc m s)) = pp_liveRestoreSnapshot (pr_result s)"
  "pp_journalPhase (pr_result (end_session oc m s)) = pp_journalPhase (pr_result s)"
  "pp_outcome (pr_result (end_session oc m s)) = oc"
  by (simp_all add: end_session_def)

lemma advance_fields [simp]:
  "pp_preflight (pr_result (snd (advance rt k q off s))) = pp_preflight (pr_result s)"
  "pp_liveRestoreSnapshot (pr_result (snd (advance rt k q off s))) = pp_liveRestoreSnapshot (pr_result s)"
  "pp_journalPhase (pr_result (snd (advance rt k q off s))) = pp_journalPhase (pr_result s)"
  by (auto simp: advance_def Let_def split: option.split prod.split bool.split)

lemma readDaq_fields [simp]: "pr_result (snd (readDaq T s)) = pr_result s"
  by (simp add: readDaq_def put_world_def split: prod.split)

lemma daqGate_fields [simp]:
  "pp_preflight (pr_result (snd (daqGate T rt n s))) = pp_preflight (pr_result s)"
  "pp_liveRestoreSnapshot (pr_result (snd (daqGate T rt n s))) = pp_liveRestoreSnapshot (pr_result s)"
  "pp_journalPhase (pr_result (snd (daqGate T rt n s))) = pp_journalPhase (pr_result s)"
  by (auto simp: daqGate_def judge_daq_def case_prod_beta Let_def split: sum.split list.split bool.split)

text \<open>Neither the check that was recorded nor the phase of the journal changes while the capture runs.\<close>

interpretation session_facts: capture_world "lifted pr_world put_world T" base "daqGate T rt" "session_capture_runtime rt"
    selects_quad "\<lambda>s. pp_preflight (pr_result s) = p"
  for T :: "'w transport" and base rt p
proof unfold_locales
  fix b :: "'w preparation bus" and r v d c and s :: "'w preparation"
  let ?T = "lifted pr_world put_world T"
  have "pr_result (snd (snd (readRegister ?T base r b))) = pr_result (snd b)" for r
    using session_lens.read_of_lifted [OF prod.collapse [symmetric], of T base r b] by auto
  then show "pp_preflight (pr_result (snd b)) = p \<Longrightarrow> pp_preflight (pr_result (snd (snd (readRegister ?T base r b)))) = p" by simp
  have "pr_result (snd (snd (writeRegister ?T base r v b))) = pr_result (snd b)" for r v
    using session_lens.write_of_lifted [OF prod.collapse [symmetric], of T base r v b] by auto
  then show "pp_preflight (pr_result (snd b)) = p \<Longrightarrow> pp_preflight (pr_result (snd (snd (writeRegister ?T base r v b)))) = p" by simp
qed (simp_all add: selects_quad_def capture_delay_def capture_checkpoint_def session_capture_runtime_def split: option.split)

lemma held_end:
  "held_prepared request (pr_result s) d \<Longrightarrow> pp_outcome (pr_result s) \<noteq> SnapshotCaptured \<Longrightarrow> held_throughout request d (s, [])"
  by (simp add: held_throughout_def crash_points_def Let_def)

lemma promote_held:
  assumes "honest_writer (sf_promote files)" "w_intruder (sf_promote files) = None" "snapshot_wf (pp_liveRestoreSnapshot (pr_result s))"
    and "held_prepared request (pr_result s) d" "state (pp_liveRestoreSnapshot (pr_result s)) = Complete"
  shows "held_throughout request d (promote_session files rt request d s)"
proof -
  let ?r = "pr_result s"
  let ?data' = "(PreparedData request (pp_preflight ?r))\<lparr>v5_selectorParkingRequired := False, v5_liveRestoreSnapshot := Some (pp_liveRestoreSnapshot ?r)\<rparr>"
  obtain sv states where promoted: "PromoteTunerRecoveryJournalV5Snapshot (sf_promote files) (sf_load files) (v5_record ?data')
      (journal_file request) (PlainDirectory d) = (sv, states)" by fastforce
  have "record_wf (v5_record ?data')" using assms(3) by (simp add: record_wf_def)
  from promotion_holds [OF assms(1,2) this assms(4) [unfolded held_prepared_def] promoted] show ?thesis
    using promoted assms(5)
    by (auto simp: promote_session_def PromotedRecord_def held_throughout_def crash_points_def held_prepared_def held_captured_def
        Let_def case_prod_beta o_def split: bool.split)
qed

lemma incomplete_fields [simp]:
  "pp_preflight (pr_result (incomplete_capture T m s)) = pp_preflight (pr_result s)"
  "pp_outcome (pr_result (incomplete_capture T m s)) \<noteq> SnapshotCaptured"
  by (simp_all add: incomplete_capture_def case_prod_beta)

lemma after_capture_held:
  assumes "honest_writer (sf_promote files)" "w_intruder (sf_promote files) = None" "snapshot_wf (pp_liveRestoreSnapshot (pr_result s))"
    and "held_prepared request (pr_result s) d"
  shows "held_throughout request d (after_capture T files rt request d s)"
proof -
  obtain ok1 s1 where s1: "advance rt AtCaptureCompleted None 0 s = (ok1, s1)" by fastforce
  obtain g s2 where s2: "daqGate T rt ''the snapshot-promotion boundary'' s1 = (g, s2)" by fastforce
  obtain ok3 s3 where s3: "advance rt AtBeforeJournalPromotion None 0 s2 = (ok3, s3)" by fastforce
  let ?n = "''the snapshot-promotion boundary''"
  have same: "pp_preflight (pr_result s1) = pp_preflight (pr_result s)" "pp_preflight (pr_result s2) = pp_preflight (pr_result s)"
    "pp_preflight (pr_result s3) = pp_preflight (pr_result s)" "pp_liveRestoreSnapshot (pr_result s3) = pp_liveRestoreSnapshot (pr_result s)"
    using s1 s2 s3 advance_fields [of rt AtCaptureCompleted None 0 s] daqGate_fields [of T rt ?n s1]
      advance_fields [of rt AtBeforeJournalPromotion None 0 s2] by simp_all
  have ends: "held_throughout request d (s', [])"
    if "pp_preflight (pr_result s') = pp_preflight (pr_result s)" "pp_outcome (pr_result s') \<noteq> SnapshotCaptured" for s' :: "'a preparation"
    using that assms(4) by (simp add: held_end held_prepared_def)
  consider "state (pp_liveRestoreSnapshot (pr_result s)) \<noteq> Complete"
    | "state (pp_liveRestoreSnapshot (pr_result s)) = Complete" "\<not> ok1 \<or> g_status g \<noteq> Allowed \<or> \<not> ok3"
    | "state (pp_liveRestoreSnapshot (pr_result s)) = Complete" "ok1" "g_status g = Allowed" "ok3" by blast
  then show ?thesis
  proof cases
    case 1
    then show ?thesis by (simp add: after_capture_def Let_def ends)
  next
    case 2
    then show ?thesis
      by (cases ok1; cases ok3) (simp_all add: after_capture_def Let_def s1 s2 s3 same ends)
  next
    case 3
    have "held_throughout request d (promote_session files rt request d s3)"
      using assms(3,4) 3(1) by (intro promote_held [OF assms(1,2)]) (simp_all add: same held_prepared_def)
    then show ?thesis using 3 by (simp add: after_capture_def Let_def s1 s2 s3)
  qed
qed

lemma capture_held:
  assumes "honest_writer (sf_promote files)" "w_intruder (sf_promote files) = None" "held_prepared request (pr_result s) d"
  shows "held_throughout request d (capture_session T files rt request d s)"
proof -
  obtain ok s1 where s1: "advance rt AtJournalPrepared None 0 s = (ok, s1)" by fastforce
  then have p1: "pp_preflight (pr_result s1) = pp_preflight (pr_result s)" using advance_fields(1) [of rt AtJournalPrepared None 0 s] by simp
  obtain captured s2 where s2: "CaptureFw2051ScpConfiguration (lifted pr_world put_world T) (sq_targetAddress request)
      (Some (daqGate T rt)) (session_capture_runtime rt) (s1\<lparr>pr_nextDaqReference := InitialDaqReference\<rparr>) = (captured, s2)" by fastforce
  then have p2: "pp_preflight (pr_result s2) = pp_preflight (pr_result s)"
    using session_facts.capture_keeps [OF s2] p1 by simp
  have "snapshot_wf (op_configuration captured)"
    using capture_shape [of "lifted pr_world put_world T" "sq_targetAddress request" "Some (daqGate T rt)" "session_capture_runtime rt"
      "s1\<lparr>pr_nextDaqReference := InitialDaqReference\<rparr>"] s2 by (simp add: numbered_quads_def)
  then have "held_throughout request d (after_capture T files rt request d
      (note_result (\<lambda>r. r\<lparr>pp_liveRestoreSnapshot := op_configuration captured\<rparr>) s2))"
    using assms p2 by (intro after_capture_held) (simp_all add: held_prepared_def)
  moreover have "held_throughout request d (end_session SessionInterrupted StoppedAfterPrepared s1, [])"
    using assms(3) p1 by (intro held_end) (simp_all add: held_prepared_def)
  ultimately show ?thesis
    by (cases ok) (simp_all add: capture_session_def s1 s2)
qed

text \<open>A run whose journal was created is its creation and then the run from the journal on.\<close>

lemma create_split:
  assumes "d = recovery_content files (sq_storagePaths request)"
    and "CreateTunerRecoveryJournalExclusive (sf_create files) (PreparedRecord request (pp_preflight (pr_result s)))
        (journal_file request) (PlainDirectory d) = (created, states)"
    and "honest_writer (sf_create files)" "w_intruder (sf_create files) = None" "\<not> IsJournalStagingEntry (journal_file request)"
    and "visible d = []" "honest_writer (sf_promote files)" "w_intruder (sf_promote files) = None"
    and "run = create_session T files rt request s"
  shows "\<exists>before later. crash_points d run = before @ later \<and> (\<forall>e \<in> set before. snd e = pr_world s)
    \<and> (\<forall>t \<in> set (map fst later). held_prepared request (pr_result (fst run)) t \<or> held_captured request (pr_result (fst run)) t)
    \<and> (pp_outcome (pr_result (fst run)) = SnapshotCaptured \<longrightarrow>
        held_captured request (pr_result (fst run)) (fst (last (crash_points d run))) \<and> state (pp_liveRestoreSnapshot (pr_result (fst run))) = Complete)"
proof (cases "sv_success created")
  case False
  then have "crash_points d run = crash_points d run @ [] \<and> (\<forall>e \<in> set (crash_points d run). snd e = pr_world s)
      \<and> pp_outcome (pr_result (fst run)) \<noteq> SnapshotCaptured"
    using assms(1,2,9) by (auto simp: create_session_def crash_points_def Let_def)
  then show ?thesis by (intro exI [of _ "crash_points d run"] exI [of _ "[]"]) simp
next
  case True
  let ?s = "note_result (\<lambda>r. r\<lparr>pp_journalCreatedExclusively := True, pp_journalPhase := PreparedPhase\<rparr>) s"
  let ?d = "last (d # states)" and ?before = "map (\<lambda>t. (t, pr_world s)) states"
  let ?run = "capture_session T files rt request ?d ?s"
  have run: "run = (fst ?run, ?before @ snd ?run)"
    using assms(1,2,9) True by (simp add: create_session_def Let_def case_prod_beta)
  have "holds_data ?d (journal_file request) (PreparedData request (pp_preflight (pr_result s)))"
    using created_holds [OF assms(3,5,6,4) _ assms(2) [unfolded PreparedRecord_def] True] by (simp add: record_wf_def PreparedData_def)
  then have "held_throughout request ?d ?run"
    using assms(7,8) by (intro capture_held) (simp_all add: held_prepared_def)
  moreover have "crash_points d run = ?before @ crash_points ?d ?run"
    using run by (auto simp: crash_points_def o_def)
  ultimately show ?thesis
    using run by (intro exI [of _ ?before] exI [of _ "crash_points ?d ?run"])
      (simp add: held_throughout_def Let_def crash_points_def)
qed

definition probe_request :: "PrepareTuningSessionRequest \<Rightarrow> TargetProbeRequest" where
  "probe_request request = \<lparr>pq_endpoint = sq_endpoint request, pq_targetAddress = sq_targetAddress request\<rparr>"

text \<open>A run ends before the journal, or it is a creation after a check that passed on approved hardware.\<close>

definition probed :: "'w transport \<Rightarrow> PrepareTuningSessionRequest \<Rightarrow> 'w preparation \<Rightarrow> 'w preparation" where
  "probed T request s = (case ProbeTargetOnOpenTransport T (probe_request request) (pr_world s) of
     (probe, w) \<Rightarrow> note_result (\<lambda>r. r\<lparr>pp_preflight := probe\<rparr>) (put_world w s))"

lemma probed_fields [simp]:
  "pp_preflight (pr_result (probed T request s)) = fst (ProbeTargetOnOpenTransport T (probe_request request) (pr_world s))"
  "pr_world (probed T request s) = snd (ProbeTargetOnOpenTransport T (probe_request request) (pr_world s))"
  by (simp_all add: probed_def case_prod_beta)

lemma prepare_eq:
  "prepare_on_open_transport T files rt request s =
    (let s = probed T request s; probe = pp_preflight (pr_result s) in
     if tp_outcome probe \<noteq> TargetVerifiedIdle
     then (end_session (OutcomeForPreflight (tp_outcome probe)) (PreflightText (tp_message probe)) s, [])
     else if (case tp_targetHardwareId probe of None \<Rightarrow> True | Some h \<Rightarrow> \<not> IsWriteApprovedMdpp32HardwareId h)
     then (end_session PreflightRefused TargetNotWriteApproved s, [])
     else case fst (EnsureApplicationStorageDirectories (sf_storage files) (sq_storagePaths request) (sf_folders files)) of
       Some e \<Rightarrow> (end_session SessionStorageUnavailable (StorageText e) s, [])
     | None \<Rightarrow> create_session T files rt request s)"
  by (simp add: prepare_on_open_transport_def probed_def probe_request_def carry_def Let_def case_prod_beta split: option.split)

lemma prepare_cases:
  obtains oc m where "prepare_on_open_transport T files rt request s = (end_session oc m (probed T request s), [])" "oc \<noteq> SnapshotCaptured"
  | "prepare_on_open_transport T files rt request s = create_session T files rt request (probed T request s)"
    "tp_outcome (pp_preflight (pr_result (probed T request s))) = TargetVerifiedIdle"
proof -
  have oc: "OutcomeForPreflight x \<noteq> SnapshotCaptured" for x by (cases x) auto
  show ?thesis
    using that oc prepare_eq [of T files rt request s]
    by (cases "fst (EnsureApplicationStorageDirectories (sf_storage files) (sq_storagePaths request) (sf_folders files))")
      (auto simp del: probed_fields simp: Let_def split: if_split_asm)
qed

text \<open>
  A write that reports success is whole, no other process puts a file at the destination, and the
  recovery directory has no record yet; everything else may fail.
\<close>

definition fair_files :: "session_files \<Rightarrow> PrepareTuningSessionRequest \<Rightarrow> directory \<Rightarrow> bool" where
  "fair_files files request d \<longleftrightarrow> honest_writer (sf_create files) \<and> w_intruder (sf_create files) = None
     \<and> honest_writer (sf_promote files) \<and> w_intruder (sf_promote files) = None
     \<and> \<not> IsJournalStagingEntry (journal_file request) \<and> d = recovery_content files (sq_storagePaths request) \<and> visible d = []"

text \<open>Every moment lies before the journal or has it; and a run that succeeds ends with the captured one.\<close>

lemma prepare_points:
  assumes "fair_files files request d" "run = prepare_on_open_transport T files rt request s"
  shows "(\<forall>e \<in> set (crash_points d run). snd e = pr_world (probed T request s)
      \<or> held_prepared request (pr_result (fst run)) (fst e) \<or> held_captured request (pr_result (fst run)) (fst e))
    \<and> (pp_outcome (pr_result (fst run)) = SnapshotCaptured \<longrightarrow>
        held_captured request (pr_result (fst run)) (fst (last (crash_points d run))) \<and> state (pp_liveRestoreSnapshot (pr_result (fst run))) = Complete)"
proof (cases rule: prepare_cases [of T files rt request s])
  case (1 oc m)
  then show ?thesis using assms(2) by (simp add: crash_points_def)
next
  case 2
  obtain created states where created: "CreateTunerRecoveryJournalExclusive (sf_create files)
      (PreparedRecord request (pp_preflight (pr_result (probed T request s)))) (journal_file request) (PlainDirectory d) = (created, states)"
    by fastforce
  show ?thesis
    using create_split [OF _ created, where run = run and T = T and rt = rt] assms 2(1) by (fastforce simp: fair_files_def)
qed

lemma held_found:
  assumes "held_prepared request r t \<or> held_captured request r t"
  shows "\<exists>data. DiscoverApplicationRecovery quiet (PlainDirectory t) = PendingV5 (journal_file request) (v5_record data)
      \<and> v5_endpoint data = canonical_endpoint (RecoveryEndpoint (sq_endpoint request))
      \<and> v5_identity data = v5_identity (PreparedData request (pp_preflight r))"
  using assms by (auto simp: held_prepared_def held_captured_def PreparedData_def v5_view_def dest!: held_discovered)

subsection \<open>On an honest controller\<close>

locale supervised_session = honest_controller T base dev
  for T :: "'w transport" and base dev +
  fixes rt :: "'w session_runtime"
  assumes delay_keeps: "sr_delay rt = Some f \<Longrightarrow> dev (f d w) = dev w"
    and checkpoint_keeps: "sr_checkpoint rt = Some g \<Longrightarrow> dev (snd (g e w)) = dev w"

sublocale supervised_session \<subseteq> module_left: session_reads T base "\<lambda>w. dev w = m" rt for m
  by unfold_locales (auto simp: delay_keeps checkpoint_keeps)

sublocale supervised_session \<subseteq> settings_left: session_world T base "\<lambda>w. settings_are B G (dev w)" rt for B G
proof unfold_locales
  fix b :: "'w bus" and r addresses v d e f g and w :: 'w
  let ?I = "\<lambda>w. settings_are B G (dev w)"
  show "?I (snd b) \<Longrightarrow> ?I (snd (snd (readRegister T base r b)))" using read_keeps [OF prod.collapse [symmetric], of r b] by simp
  show "?I (snd b) \<Longrightarrow> ?I (snd (snd (readLocal T addresses b)))" using local_keeps [OF prod.collapse [symmetric], of addresses b] by simp
  show "?I w \<Longrightarrow> ?I (snd (t_cancelled T w))" using cancelled_keeps [of w] by simp
  show "sr_delay rt = Some f \<Longrightarrow> ?I w \<Longrightarrow> ?I (f d w)" by (simp add: delay_keeps)
  show "sr_checkpoint rt = Some g \<Longrightarrow> ?I w \<Longrightarrow> ?I (snd (g e w))" by (simp add: checkpoint_keeps)
  show "?I (snd b) \<Longrightarrow> ?I (snd (snd (writeRegister T base Fw2051ScpSelectorRegister v b)))"
    using write_happened [of Fw2051ScpSelectorRegister v b] write_maybe [of Fw2051ScpSelectorRegister v b]
    by (cases "writeRegister T base Fw2051ScpSelectorRegister v b"; cases "fst (writeRegister T base Fw2051ScpSelectorRegister v b)")
      (auto simp: settings_are_def mdpp_write_def)
qed

sublocale supervised_session \<subseteq> session_capture: supervised_capture "lifted pr_world put_world T" base "\<lambda>s. dev (pr_world s)"
  "daqGate T rt" "session_capture_runtime rt"
  unfolding supervised_capture_def supervised_module_def supervised_module_axioms_def
proof (intro conjI allI)
  show "honest_module (lifted pr_world put_world T) base (\<lambda>s. dev (pr_world s))"
    by (rule session_lens.honest_lifted [OF honest_module_axioms])
  fix n d c and s :: "'w preparation"
  show "dev (pr_world (snd (daqGate T rt n s))) = dev (pr_world s)" by (rule module_left.daqGate_I) simp
  show "dev (pr_world (capture_delay (session_capture_runtime rt) d s)) = dev (pr_world s)"
    by (auto simp: capture_delay_def session_capture_runtime_def delay_keeps split: option.split)
  show "dev (pr_world (snd (capture_checkpoint (session_capture_runtime rt) c s))) = dev (pr_world s)"
    unfolding capture_checkpoint_def session_capture_runtime_def by (simp add: module_left.advance_I)
qed

lemma after_capture_live:
  "pp_liveRestoreSnapshot (pr_result (fst (after_capture T files rt request d s))) = pp_liveRestoreSnapshot (pr_result s)"
  by (simp add: after_capture_def incomplete_capture_def promote_session_def Let_def case_prod_beta split: bool.split)

context supervised_session
begin

lemma after_capture_dev: "dev (pr_world (fst (after_capture T files rt request d s))) = dev (pr_world s)"
  using module_left.after_capture_kept [of s "dev (pr_world s)" files request d] by (simp add: module_left.kept_def)

lemma after_capture_complete:
  "pp_outcome (pr_result (fst (after_capture T files rt request d s))) = SnapshotCaptured \<Longrightarrow> state (pp_liveRestoreSnapshot (pr_result s)) = Complete"
  using incomplete_fields(2) by (auto simp: after_capture_def Let_def split: if_splits)

lemma advance_dev: "dev (pr_world (snd (advance rt k q off s))) = dev (pr_world s)"
  by (rule module_left.advance_I) simp

lemma capture_session_exact:
  assumes "sq_targetAddress request = base" "run = capture_session T files rt request d s"
    and "pp_outcome (pr_result (fst run)) = SnapshotCaptured"
  shows "selector (dev (pr_world (fst run))) = 0 \<and> shows_module (pp_liveRestoreSnapshot (pr_result (fst run))) (dev (pr_world s))
    \<and> baseAddress (pp_liveRestoreSnapshot (pr_result (fst run))) = base
    \<and> IsWriteApprovedMdpp32HardwareId (global (dev (pr_world s)) 0x6008)"
proof -
  obtain ok s1 where s1: "advance rt AtJournalPrepared None 0 s = (ok, s1)" by fastforce
  let ?s1 = "s1\<lparr>pr_nextDaqReference := InitialDaqReference\<rparr>"
  obtain captured s2 where s2: "CaptureFw2051ScpConfiguration (lifted pr_world put_world T) base
      (Some (daqGate T rt)) (session_capture_runtime rt) ?s1 = (captured, s2)" by fastforce
  let ?s2 = "note_result (\<lambda>r. r\<lparr>pp_liveRestoreSnapshot := op_configuration captured\<rparr>) s2"
  have run: "ok" "run = after_capture T files rt request d ?s2"
    using assms s1 s2 by (auto simp: capture_session_def split: bool.splits)
  have "state (op_configuration captured) = Complete" using after_capture_complete [of files request d ?s2] run(2) assms(3) by simp
  moreover have "dev (pr_world ?s1) = dev (pr_world s)" using advance_dev [of AtJournalPrepared None 0 s] s1 by simp
  moreover have "dev (pr_world (fst run)) = dev (pr_world s2)" using after_capture_dev [of files request d ?s2] run(2) by simp
  moreover have "pp_liveRestoreSnapshot (pr_result (fst run)) = op_configuration captured"
    using after_capture_live [of T files rt request d ?s2] run(2) by simp
  ultimately show ?thesis using session_capture.capture_exact [OF s2] by simp
qed

lemma create_session_exact:
  assumes "sq_targetAddress request = base" "run = create_session T files rt request s"
    and "pp_outcome (pr_result (fst run)) = SnapshotCaptured"
  shows "selector (dev (pr_world (fst run))) = 0 \<and> shows_module (pp_liveRestoreSnapshot (pr_result (fst run))) (dev (pr_world s))
    \<and> baseAddress (pp_liveRestoreSnapshot (pr_result (fst run))) = base
    \<and> IsWriteApprovedMdpp32HardwareId (global (dev (pr_world s)) 0x6008)"
proof -
  let ?s = "note_result (\<lambda>r. r\<lparr>pp_journalCreatedExclusively := True, pp_journalPhase := PreparedPhase\<rparr>) s"
  obtain d where d: "fst run = fst (capture_session T files rt request d ?s)"
    using assms(2,3) by (auto simp: create_session_def Let_def case_prod_beta split: if_splits)
  then have "pp_outcome (pr_result (fst (capture_session T files rt request d ?s))) = SnapshotCaptured" using assms(3) by simp
  from capture_session_exact [OF assms(1) refl this] show ?thesis unfolding d by simp
qed

lemma probed_dev: "sq_targetAddress request = base \<Longrightarrow> dev (pr_world (probed T request s)) = dev (pr_world s)"
  using probe_keeps_module [of "probe_request request" "pr_world s"] by (simp add: probe_request_def)

lemma prepare_exact:
  assumes "sq_targetAddress request = base" "run = prepare_on_open_transport T files rt request s"
    and "pp_outcome (pr_result (fst run)) = SnapshotCaptured"
  shows "selector (dev (pr_world (fst run))) = 0 \<and> shows_module (pp_liveRestoreSnapshot (pr_result (fst run))) (dev (pr_world s))
    \<and> baseAddress (pp_liveRestoreSnapshot (pr_result (fst run))) = base
    \<and> IsWriteApprovedMdpp32HardwareId (global (dev (pr_world s)) 0x6008)
    \<and> global (dev (pr_world s)) Fw2051AcquisitionControlRegister = Fw2051StopAcquisitionValue"
proof (cases rule: prepare_cases [of T files rt request s])
  case (1 oc m)
  then show ?thesis using assms(2,3) by simp
next
  case 2
  let ?probe = "fst (ProbeTargetOnOpenTransport T (probe_request request) (pr_world s))"
  have "records_module ?probe (dev (pr_world s))" using probe_records [of "probe_request request" "pr_world s"] assms(1) by (simp add: probe_request_def)
  moreover have "evidence_exact ?probe" by (rule probe_exact_result)
  ultimately have "global (dev (pr_world s)) Fw2051AcquisitionControlRegister = Fw2051StopAcquisitionValue"
    using 2(2) by (auto simp: evidence_exact_def records_module_def Let_def)
  then show ?thesis
    using create_session_exact [OF assms(1) _ assms(3), of files "probed T request s"] assms(2) 2(1) probed_dev [OF assms(1)] by simp
qed

lemma prepare_keeps_settings:
  assumes "sq_targetAddress request = base"
  shows "settings_are (banked (dev (pr_world s))) (global (dev (pr_world s))) (dev (pr_world (fst (prepare_on_open_transport T files rt request s))))"
proof -
  have "settings_are (banked (dev (pr_world s))) (global (dev (pr_world s))) (dev (pr_world s))" by (simp add: settings_are_def)
  from settings_left.prepare_kept [OF assms this, of files] show ?thesis by (simp add: settings_left.kept_def)
qed

end

text \<open>The journal with the snapshot, as discovery finds it.\<close>

lemma captured_found:
  assumes "held_captured request r t"
  shows "\<exists>data. DiscoverApplicationRecovery quiet (PlainDirectory t) = PendingV5 (journal_file request) (v5_record data)
    \<and> v5_liveRestoreSnapshot data = Some (as_read (pp_liveRestoreSnapshot r))"
  using assms by (auto simp: held_captured_def v5_view_def dest!: held_discovered)

lemma as_read_shows [simp]: "shows_module (as_read c) m = shows_module c m" "baseAddress (as_read c) = baseAddress c"
  by (simp_all add: as_read_def shows_module_def)

subsection \<open>On a controller that answers\<close>

locale responsive_session = responsive_controller T base dev regs + supervised_session T base dev rt
  for T :: "'w transport" and base dev regs and rt :: "'w session_runtime" +
  assumes checkpoint_passes: "sr_checkpoint rt = Some g \<Longrightarrow> fst (g e w)"
    and controller_idle: "regs DaqModeRegister = 0"
begin

lemma advance_passes: "fst (advance rt k q off s)"
proof (cases "sr_checkpoint rt")
  case (Some g)
  then show ?thesis using checkpoint_passes [OF Some] by (auto simp: advance_def Let_def split: prod.split bool.split) (metis fst_conv)
qed (simp add: advance_def Let_def)

lemma gate_opens: "g_status (fst (daqGate T rt n s)) = Allowed"
proof -
  let ?s = "snd (carry pr_world put_world (t_cancelled T) s)"
  let ?b = "(\<lparr>nextSuperReference = pr_nextDaqReference ?s, nextStackReference = 0\<rparr>, pr_world ?s)"
  have "\<exists>b'. readLocal T [DaqModeRegister] ?b = (Inr (map regs [DaqModeRegister]), b')" by (rule local_returns) simp_all
  then have "fst (readLocal T [DaqModeRegister] ?b) = Inr [regs DaqModeRegister]" by (metis fst_conv list.simps(8,9))
  then have "fst (readDaq T ?s) = Inr [0]" using controller_idle by (simp add: readDaq_def case_prod_beta)
  moreover have "\<not> fst (carry pr_world put_world (t_cancelled T) s)" by (simp add: not_cancelled)
  ultimately show ?thesis
    using advance_passes by (simp add: daqGate_def judge_daq_def case_prod_beta gate_result_def Let_def)
qed

end

sublocale responsive_session \<subseteq> session_answers: responsive_capture "lifted pr_world put_world T" base "\<lambda>s. dev (pr_world s)"
  "daqGate T rt" "session_capture_runtime rt"
  unfolding responsive_capture_def responsive_capture_axioms_def
  by (intro conjI allI session_lens.responsive_lifted [OF responsive_module_axioms] session_capture.supervised_capture_axioms gate_opens)
    (simp add: capture_checkpoint_def session_capture_runtime_def advance_passes)

text \<open>The data of the two journals are valid and the second one promotes the first.\<close>

definition CapturedData :: "PrepareTuningSessionRequest \<Rightarrow> TargetProbeResult \<Rightarrow> Fw2051ScpConfigurationSnapshot \<Rightarrow> TunerRecoveryV5Data" where
  "CapturedData request probe snapshot =
     (PreparedData request probe)\<lparr>v5_selectorParkingRequired := False, v5_liveRestoreSnapshot := Some snapshot\<rparr>"

definition valid_request :: "PrepareTuningSessionRequest \<Rightarrow> bool" where
  "valid_request request \<longleftrightarrow> ValidateControllerEndpoint (RecoveryEndpoint (sq_endpoint request)) = None
     \<and> sq_targetAddress request AND 0xFFFF = 0 \<and> journal_file request \<noteq> [] \<and> \<not> IsJournalStagingEntry (journal_file request)"

lemma prepared_valid:
  assumes "valid_request request" "evidence_exact probe" "tp_outcome probe = TargetVerifiedIdle"
  shows "ValidateV5Data (PreparedData request probe) = None"
proof -
  have "ValidateIdentity (v5_identity (PreparedData request probe)) = None"
    using assms by (auto simp: valid_request_def evidence_exact_def PreparedData_def ValidateIdentity_def Let_def ExpectedMvlcHardwareId_def
        ExpectedMvlcFirmwareRevision_def TargetProbeExpectedMvlcHardwareId_def TargetProbeExpectedMvlcFirmware_def)
  then show ?thesis
    using assms(1) by (simp add: ValidateV5Data_def PreparedData_def valid_request_def ValidateEndpoint_def orElse_def)
qed

lemma captured_valid:
  assumes "valid_request request" "evidence_exact probe" "tp_outcome probe = TargetVerifiedIdle" "records_module probe m"
    and "shows_module snapshot m" "state snapshot = Complete" "selectorParkedAtQuadZero snapshot" "baseAddress snapshot = sq_targetAddress request"
  shows "ValidateV5Data (CapturedData request probe snapshot) = None"
proof -
  let ?data = "PreparedData request probe"
  have "ValidateSnapshot snapshot (v5_identity ?data) = None"
  proof -
    have "hardwareId snapshot = id_targetHardwareId (v5_identity ?data)" "firmwareRevision snapshot = id_targetFirmwareRevision (v5_identity ?data)"
      using assms(2-5) by (auto simp: evidence_exact_def records_module_def shows_module_def PreparedData_def Let_def)
    then show ?thesis
      using assms(5-8) by (auto simp: ValidateSnapshot_def shows_module_def PreparedData_def list_ex_iff Fw2051ScpQuadCount_def unat_of_nat)
  qed
  then show ?thesis
    using prepared_valid [OF assms(1-3)] by (simp add: ValidateV5Data_def CapturedData_def PreparedData_def orElse_def TunerRecoveryV5MaximumDeviationCount_def
      split: option.splits)
qed

lemma prepared_promotes:
  "identity_only (v5_view (PreparedData request probe))"
  "promotes (CapturedData request probe snapshot) (v5_view (PreparedData request probe))"
proof -
  have "canonical_endpoint (RecoveryEndpoint e) = RecoveryEndpoint e" for e
    by (cases e) (simp_all add: canonical_endpoint_def RecoveryEndpoint_def)
  then show "identity_only (v5_view (PreparedData request probe))"
    "promotes (CapturedData request probe snapshot) (v5_view (PreparedData request probe))"
    by (simp_all add: identity_only_def promotes_def SameIdentity_def v5_view_def PreparedData_def CapturedData_def)
qed

lemma calm_creates:
  assumes "n \<noteq> []" "\<not> IsJournalStagingEntry n" "ValidateV5Data data = None"
  obtains r states where "CreateTunerRecoveryJournalExclusive calm_world (v5_record data) n (PlainDirectory []) = (r, states)"
    "sv_success r" "last ([] # states) = [(n, PlainFile (WriteV5 data))]"
proof -
  have n: "n \<noteq> workspace_name 0" using assms(2) by (metis workspace_staging)
  let ?c = "CreateTunerRecoveryJournalExclusive calm_world (v5_record data) n (PlainDirectory [])"
  have eq: "?c = InstallSerializedJournalAtomically calm_world (WriteV5 data) n Exclusive (PlainDirectory [])"
    using assms(1,3) by (simp add: CreateTunerRecoveryJournalExclusive_def serialized_stage)
  have "last ([] # snd ?c) = [(n, PlainFile (WriteV5 data))]"
    using n unfolding eq by (simp add: InstallSerializedJournalAtomically_def staged_install_def install_at_def calm_world_def Let_def
        MaximumAtomicJournalCollisions_def numeral_eq_Suc RemoveAtomicWorkspace_def AList.delete_eq)
  then show ?thesis using that [of "fst ?c" "snd ?c"] calm_install(1) [OF assms(1,2), of "WriteV5 data"] eq by simp
qed

lemma calm_promotes:
  assumes "holds_data [(n, PlainFile (WriteV5 data))] n data" "ValidateV5Data data' = None" "identity_only (v5_view data)" "promotes data' (v5_view data)"
  shows "sv_success (fst (PromoteTunerRecoveryJournalV5Snapshot calm_world (dw_load quiet) (v5_record data') n (PlainDirectory [(n, PlainFile (WriteV5 data))])))"
proof -
  have n: "n \<noteq> []" "\<not> IsJournalStagingEntry n" using assms(1) by (auto simp: holds_data_def visible_def split: if_splits)
  have "LoadTunerRecoveryJournal (dw_load quiet) n [(n, PlainFile (WriteV5 data))] = Inr (v5_record (v5_view data))"
    using held_parses [OF assms(1)] n(1) by (simp add: LoadTunerRecoveryJournal_def quiet_def opened_def)
  then show ?thesis
    using assms(2-4) n(1) calm_install(2) [OF n]
    by (simp add: PromoteTunerRecoveryJournalV5Snapshot_def serialized_stage)
qed

context responsive_session
begin

lemma promotion_succeeds:
  assumes "holds_data [(n, PlainFile (WriteV5 data))] n data" "n = journal_file request" "data = PreparedData request (pp_preflight (pr_result s))"
    and "ValidateV5Data (CapturedData request (pp_preflight (pr_result s)) (pp_liveRestoreSnapshot (pr_result s))) = None"
    and "sf_promote files = calm_world" "sf_load files = dw_load quiet"
  shows "pp_outcome (pr_result (fst (promote_session files rt request [(n, PlainFile (WriteV5 data))] s))) = SnapshotCaptured"
  using calm_promotes [OF assms(1,4)] prepared_promotes assms(2,3,5,6) advance_passes
  by (simp add: promote_session_def PromotedRecord_def CapturedData_def [symmetric] Let_def case_prod_beta)

lemma after_capture_succeeds:
  assumes "holds_data [(n, PlainFile (WriteV5 data))] n data" "n = journal_file request" "data = PreparedData request (pp_preflight (pr_result s))"
    and "ValidateV5Data (CapturedData request (pp_preflight (pr_result s)) (pp_liveRestoreSnapshot (pr_result s))) = None"
    and "sf_promote files = calm_world" "sf_load files = dw_load quiet" "state (pp_liveRestoreSnapshot (pr_result s)) = Complete"
  shows "pp_outcome (pr_result (fst (after_capture T files rt request [(n, PlainFile (WriteV5 data))] s))) = SnapshotCaptured"
proof -
  let ?s1 = "snd (advance rt AtCaptureCompleted None 0 s)"
  let ?s2 = "snd (daqGate T rt ''the snapshot-promotion boundary'' ?s1)"
  let ?s3 = "snd (advance rt AtBeforeJournalPromotion None 0 ?s2)"
  have "after_capture T files rt request d s = promote_session files rt request d ?s3" for d
    using assms(7) advance_passes gate_opens by (simp add: after_capture_def Let_def case_prod_beta)
  then show ?thesis using promotion_succeeds [OF assms(1,2), of ?s3] assms(3-6) by simp
qed

lemma capture_session_succeeds:
  assumes "valid_request request" "sq_targetAddress request = base" "n = journal_file request" "probe = pp_preflight (pr_result s)"
    and "holds_data [(n, PlainFile (WriteV5 (PreparedData request probe)))] n (PreparedData request probe)"
    and "evidence_exact probe" "tp_outcome probe = TargetVerifiedIdle" "records_module probe (dev (pr_world s))"
    and "IsWriteApprovedMdpp32HardwareId (global (dev (pr_world s)) 0x6008)"
    and "sf_promote files = calm_world" "sf_load files = dw_load quiet"
  shows "pp_outcome (pr_result (fst (capture_session T files rt request [(n, PlainFile (WriteV5 (PreparedData request probe)))] s))) = SnapshotCaptured"
proof -
  let ?s1 = "(snd (advance rt AtJournalPrepared None 0 s))\<lparr>pr_nextDaqReference := InitialDaqReference\<rparr>"
  obtain captured s2 where s2: "CaptureFw2051ScpConfiguration (lifted pr_world put_world T) base
      (Some (daqGate T rt)) (session_capture_runtime rt) ?s1 = (captured, s2)" by fastforce
  let ?s2 = "note_result (\<lambda>r. r\<lparr>pp_liveRestoreSnapshot := op_configuration captured\<rparr>) s2"
  have dev1: "dev (pr_world ?s1) = dev (pr_world s)" using advance_dev by simp
  have firmware: "global (dev (pr_world s)) 0x600E = Mdpp32ScpFirmwareRevisionFw2051"
    using assms(6-8) by (auto simp: evidence_exact_def records_module_def Let_def)
  have complete: "state (op_configuration captured) = Complete"
    using session_answers.capture_completes [of ?s1] assms(1,2,9) dev1 firmware s2 by (simp add: valid_request_def)
  note exact = session_capture.capture_exact [OF s2 complete]
  have "pp_preflight (pr_result s2) = probe"
    using session_facts.capture_keeps [OF s2] assms(4) by simp
  then have "pp_outcome (pr_result (fst (after_capture T files rt request [(n, PlainFile (WriteV5 (PreparedData request probe)))] ?s2))) = SnapshotCaptured"
    using captured_valid [OF assms(1,6,7,8)] exact dev1 complete assms(2,3,5,10,11)
    by (intro after_capture_succeeds) simp_all
  then show ?thesis using advance_passes s2 assms(2) by (simp add: capture_session_def case_prod_beta)
qed

lemma prepare_succeeds:
  assumes "valid_request request" "sq_targetAddress request = base" "probe_verdict regs (dev (pr_world s)) = TargetVerifiedIdle"
    and "IsWriteApprovedMdpp32HardwareId (global (dev (pr_world s)) 0x6008)"
    and "fst (EnsureApplicationStorageDirectories (sf_storage files) (sq_storagePaths request) (sf_folders files)) = None"
    and "sf_create files = calm_world" "sf_promote files = calm_world" "sf_load files = dw_load quiet"
    and "recovery_content files (sq_storagePaths request) = []"
  shows "pp_outcome (pr_result (fst (prepare_on_open_transport T files rt request s))) = SnapshotCaptured"
proof -
  let ?s = "probed T request s" and ?n = "journal_file request"
  define probe where "probe = fst (ProbeTargetOnOpenTransport T (probe_request request) (pr_world s))"
  have target: "pq_targetAddress (probe_request request) = base" using assms(2) by (simp add: probe_request_def)
  have probe: "evidence_exact probe" "tp_outcome probe = TargetVerifiedIdle" "records_module probe (dev (pr_world s))"
    using probe_exact_result probe_decides [OF target] probe_records [OF target] assms(3) by (simp_all add: probe_def)
  then have approved: "\<exists>h. tp_targetHardwareId probe = Some h \<and> IsWriteApprovedMdpp32HardwareId h"
    using assms(4) by (auto simp: evidence_exact_def records_module_def Let_def)
  have run: "prepare_on_open_transport T files rt request s = create_session T files rt request ?s"
    using approved probe(2) assms(5) by (auto simp: prepare_eq Let_def probe_def)
  have name: "?n \<noteq> []" "\<not> IsJournalStagingEntry ?n" using assms(1) by (simp_all add: valid_request_def)
  have valid: "ValidateV5Data (PreparedData request probe) = None" using prepared_valid [OF assms(1) probe(1,2)] .
  obtain r states where created: "CreateTunerRecoveryJournalExclusive calm_world (v5_record (PreparedData request probe)) ?n (PlainDirectory []) = (r, states)"
    "sv_success r" "last ([] # states) = [(?n, PlainFile (WriteV5 (PreparedData request probe)))]"
    using calm_creates [OF name valid] .
  let ?d = "[(?n, PlainFile (WriteV5 (PreparedData request probe)))]"
  let ?s1 = "note_result (\<lambda>r. r\<lparr>pp_journalCreatedExclusively := True, pp_journalPhase := PreparedPhase\<rparr>) ?s"
  have "holds_data ?d ?n (PreparedData request probe)"
    using name valid by (simp add: holds_data_def visible_def record_wf_def PreparedData_def)
  then have "pp_outcome (pr_result (fst (capture_session T files rt request ?d ?s1))) = SnapshotCaptured"
    using assms(1,2,4,7,8) probe probed_dev [OF assms(2), of s] by (intro capture_session_succeeds) (simp_all add: probe_def)
  moreover have "fst (create_session T files rt request ?s) = fst (capture_session T files rt request ?d ?s1)"
    using created assms(6,9) by (simp add: create_session_def PreparedRecord_def probe_def Let_def case_prod_beta del: last.simps)
  ultimately show ?thesis using run by simp
qed

end

text \<open>The simulated controller, with callbacks that let everything pass.\<close>

definition quiet_session :: "'w session_runtime" where
  "quiet_session = \<lparr>sr_delay = None, sr_checkpoint = None\<rparr>"

interpretation sim_session: responsive_session "simulated_controller base idle_registers" base sim_module idle_registers quiet_session for base
proof -
  show "responsive_session (simulated_controller base idle_registers) base sim_module idle_registers quiet_session"
    unfolding responsive_session_def supervised_session_def supervised_session_axioms_def responsive_session_axioms_def
    using sim_controller.responsive_controller_axioms sim_controller.honest_controller_axioms
    by (simp add: quiet_session_def idle_registers_def DaqModeRegister_def)
qed

subsection \<open>Properties\<close>

text \<open>
  (C13) The journal comes before the first write to the module. Stop a session preparation anywhere, on any
  transport and with any failure of the file system: what went over the wire until then are reads, triggers and
  selections of a quad; and unless it was reads alone, the recovery directory, which showed nothing before and
  which no other process writes to, holds one complete journal with
  the endpoint and the identity of the module, the one made before or the one with the captured snapshot.
\<close>
theorem journal_before_selection:
  assumes "fair_files files request d" "snd (pr_world s) = []"
    and "run = prepare_on_open_transport (observed T) files (unobserved_session rt) request s"
    and "(t, w, es) \<in> set (crash_points d run)"
  shows "only_session_requests (sq_targetAddress request) es
    \<and> (only_reading (sq_targetAddress request) es
       \<or> (\<exists>data. DiscoverApplicationRecovery quiet (PlainDirectory t) = PendingV5 (journal_file request) (v5_record data)
            \<and> v5_endpoint data = canonical_endpoint (RecoveryEndpoint (sq_endpoint request))
            \<and> v5_identity data = v5_identity (PreparedData request (pp_preflight (pr_result (fst run))))))"
proof -
  let ?base = "sq_targetAddress request"
  have "session_wire.kept ?base run"
    using session_wire.prepare_kept [of request ?base s T files rt] assms(2,3) by (simp add: only_session_requests_def)
  then have "only_session_requests ?base es" using session_wire.kept_points [OF _ assms(4)] by simp
  moreover have "only_reading ?base (snd (pr_world (probed (observed T) request s)))"
    using read_wire.probe_I [of ?base "pr_world s" "probe_request request" T] assms(2) by (simp add: only_reading_def probe_request_def)
  moreover have "(w, es) = pr_world (probed (observed T) request s)
      \<or> held_prepared request (pr_result (fst run)) t \<or> held_captured request (pr_result (fst run)) t"
    using prepare_points [OF assms(1,3)] assms(4) by fastforce
  ultimately show ?thesis using held_found by (metis snd_conv)
qed

text \<open>
  (C14) A prepared session is sound on a controller that shows its module truthfully. Whatever happens, no
  setting and no other register of the module changes but the selector. And when the preparation reports its
  snapshot captured, the module is approved for writing and stopped, its selector is parked, and discovery
  finds the one journal in the recovery directory with a snapshot that is exactly the module's settings.
\<close>
theorem prepared_session_sound:
  assumes "supervised_session T base dev rt" "fair_files files request d" "sq_targetAddress request = base"
    and "run = prepare_on_open_transport T files rt request s"
  shows "banked (dev (pr_world (fst run))) = banked (dev (pr_world s)) \<and> global (dev (pr_world (fst run))) = global (dev (pr_world s))
    \<and> (pp_outcome (pr_result (fst run)) = SnapshotCaptured \<longrightarrow>
        selector (dev (pr_world (fst run))) = 0 \<and> IsWriteApprovedMdpp32HardwareId (global (dev (pr_world s)) 0x6008)
      \<and> global (dev (pr_world s)) Fw2051AcquisitionControlRegister = Fw2051StopAcquisitionValue
      \<and> (\<exists>data c. DiscoverApplicationRecovery quiet (PlainDirectory (fst (last (crash_points d run)))) = PendingV5 (journal_file request) (v5_record data)
           \<and> v5_liveRestoreSnapshot data = Some c \<and> shows_module c (dev (pr_world s)) \<and> baseAddress c = base))"
proof -
  let ?r = "pr_result (fst run)"
  have kept: "banked (dev (pr_world (fst run))) = banked (dev (pr_world s)) \<and> global (dev (pr_world (fst run))) = global (dev (pr_world s))"
    using supervised_session.prepare_keeps_settings [OF assms(1,3), of s files] assms(4) by (simp add: settings_are_def)
  show ?thesis
  proof (cases "pp_outcome ?r = SnapshotCaptured")
    case True
    obtain data where "DiscoverApplicationRecovery quiet (PlainDirectory (fst (last (crash_points d run)))) = PendingV5 (journal_file request) (v5_record data)"
      "v5_liveRestoreSnapshot data = Some (as_read (pp_liveRestoreSnapshot ?r))"
      using captured_found prepare_points [OF assms(2,4)] True by blast
    then show ?thesis
      using kept supervised_session.prepare_exact [OF assms(1,3,4) True] by auto
  qed (use kept in simp)
qed

text \<open>
  (C18) A session preparation comes back: on a controller that answers, is idle and has a stopped module that is
  approved for writing at an aligned address, with a valid endpoint and a file system without failures and
  without a record, it reports its snapshot captured.
\<close>
theorem session_preparation_succeeds:
  assumes "responsive_session T base dev regs rt" "valid_request request" "sq_targetAddress request = base"
    and "probe_verdict regs (dev (pr_world s)) = TargetVerifiedIdle" "IsWriteApprovedMdpp32HardwareId (global (dev (pr_world s)) 0x6008)"
    and "fst (EnsureApplicationStorageDirectories (sf_storage files) (sq_storagePaths request) (sf_folders files)) = None"
    and "sf_create files = calm_world" "sf_promote files = calm_world" "sf_load files = dw_load quiet"
    and "recovery_content files (sq_storagePaths request) = []"
  shows "pp_outcome (pr_result (fst (prepare_on_open_transport T files rt request s))) = SnapshotCaptured"
  using assms by (rule responsive_session.prepare_succeeds)

text \<open>A session to show: everything answers and nothing fails.\<close>

definition sample_files :: session_files where
  "sample_files = \<lparr>sf_storage = sample_storage, sf_absolute = Some, sf_folders = sample_folders, sf_directory = [],
     sf_create = calm_world, sf_promote = calm_world, sf_load = dw_load quiet\<rparr>"

definition sample_session_request :: PrepareTuningSessionRequest where
  "sample_session_request = \<lparr>sq_endpoint = DirectEndpoint \<lparr>de_mvlcHost = ''mvlc'', de_mvlcCommandPort = 32768\<rparr>,
     sq_targetAddress = 0x01000000, sq_storagePaths = sample_paths,
     sq_recoveryJournalPath = recoveryDirectory sample_paths @ [''a.journal'']\<rparr>"

definition starting :: "'w \<Rightarrow> 'w preparation" where
  "starting w = \<lparr>pr_result = new_session_result [], pr_nextDaqReference = InitialDaqReference, pr_world = w\<rparr>"

lemma sample_valid: "valid_request sample_session_request" "recovery_content sample_files (sq_storagePaths sample_session_request) = []"
    "fst (EnsureApplicationStorageDirectories (sf_storage sample_files) (sq_storagePaths sample_session_request) (sf_folders sample_files)) = None"
    "journal_file sample_session_request = ''a.journal''" "sq_targetAddress sample_session_request = 0x01000000"
  by code_simp+

lemma sample_fair: "fair_files sample_files sample_session_request []"
  using sample_valid(1,2) by (simp add: fair_files_def valid_request_def sample_files_def visible_def)

lemma sample_approved: "IsWriteApprovedMdpp32HardwareId (global stopped_module 0x6008)"
  by code_simp

lemma sample_files_worlds: "sf_create sample_files = calm_world" "sf_promote sample_files = calm_world" "sf_load sample_files = dw_load quiet"
  by (simp_all add: sample_files_def)

theorem session_preparation_succeeds_witness:
  "pp_outcome (pr_result (fst (prepare_on_open_transport (simulated_controller 0x01000000 idle_registers) sample_files quiet_session
     sample_session_request (starting (sim_of stopped_module))))) = SnapshotCaptured"
  by (rule session_preparation_succeeds [OF sim_session.responsive_session_axioms sample_valid(1,5) _ _ sample_valid(3) sample_files_worlds sample_valid(2)])
    (simp_all add: starting_def sim_of_def idle_verdict sample_approved)

theorem prepared_session_sound_witness:
  "\<exists>data c. DiscoverApplicationRecovery quiet (PlainDirectory (fst (last (crash_points []
      (prepare_on_open_transport (simulated_controller 0x01000000 idle_registers) sample_files quiet_session
         sample_session_request (starting (sim_of stopped_module))))))) = PendingV5 ''a.journal'' (v5_record data)
    \<and> v5_liveRestoreSnapshot data = Some c \<and> shows_module c stopped_module"
proof -
  have "pp_outcome (pr_result (fst (prepare_on_open_transport (simulated_controller 0x01000000 idle_registers) sample_files quiet_session
     sample_session_request (starting (sim_of stopped_module))))) = SnapshotCaptured"
    by (rule sim_session.prepare_succeeds [OF sample_valid(1,5) _ _ sample_valid(3) sample_files_worlds sample_valid(2)])
      (simp_all add: starting_def sim_of_def idle_verdict sample_approved)
  then show ?thesis
    using prepared_session_sound [OF sim_session.supervised_session_axioms sample_fair sample_valid(5) refl,
        where s = "starting (sim_of stopped_module)"] sample_valid(4)
    by (auto simp: starting_def sim_of_def)
qed

theorem journal_before_selection_witness:
  "case last (crash_points [] (prepare_on_open_transport (observed (simulated_controller 0x01000000 idle_registers)) sample_files
      (unobserved_session quiet_session) sample_session_request (starting (sim_of stopped_module, [])))) of
    (t, w, es) \<Rightarrow> only_session_requests 0x01000000 es"
proof -
  let ?run = "prepare_on_open_transport (observed (simulated_controller 0x01000000 idle_registers)) sample_files
      (unobserved_session quiet_session) sample_session_request (starting (sim_of stopped_module, []))"
  obtain t w es where last: "last (crash_points [] ?run) = (t, w, es)" by (cases "last (crash_points [] ?run)") auto
  then have "(t, w, es) \<in> set (crash_points [] ?run)" by (metis append_is_Nil_conv crash_points_def last_in_set list.distinct(1))
  from journal_before_selection [OF sample_fair _ refl this] last sample_valid(5) show ?thesis by (simp add: starting_def)
qed

end
