(* ===== verification/Transaction_Bounds.thy ===== *)
theory Transaction_Bounds
  imports Vme_Transaction
begin

text \<open>
  How long the routines of \<^verbatim>\<open>hardware/VmeTransaction.cpp\<close> may take: every loop in them draws on a
  constant of the source, and every reception passes the same time limit,
  \<^verbatim>\<open>MvlcCommandResponseTimeoutMilliseconds\<close>, so that the requests, the receptions and the time a
  caller may be kept waiting for replies are bounded whatever the transport does.
\<close>

subsection \<open>The calls of a run\<close>

text \<open>
  The calls made of a transport, with what was asked for: the bytes to send, or the room in the
  buffer and the time limit in milliseconds of a reception.
\<close>

datatype wire_call = SendCall "byte list" | ReceiveCall nat nat

definition metered :: "'w transport \<Rightarrow> ('w \<times> wire_call list) transport" where
  "metered T = \<lparr>
     t_send = (\<lambda>b (w, l). case t_send T b w of (r, w) \<Rightarrow> (r, (w, l @ [SendCall b]))),
     t_receive = (\<lambda>n t (w, l). case t_receive T n t w of (r, w) \<Rightarrow> (r, (w, l @ [ReceiveCall n t]))),
     t_cancelled = (\<lambda>(w, l). case t_cancelled T w of (c, w) \<Rightarrow> (c, (w, l)))\<rparr>"

lemma metered_simps [simp]:
  "t_send (metered T) b (w, l) = (case t_send T b w of (r, w) \<Rightarrow> (r, (w, l @ [SendCall b])))"
  "t_receive (metered T) n t (w, l) = (case t_receive T n t w of (r, w) \<Rightarrow> (r, (w, l @ [ReceiveCall n t])))"
  "t_cancelled (metered T) (w, l) = (case t_cancelled T w of (c, w) \<Rightarrow> (c, (w, l)))"
  by (simp_all add: metered_def)

fun requests :: "wire_call list \<Rightarrow> nat" where
  "requests [] = 0"
| "requests (SendCall b # es) = Suc (requests es)"
| "requests (ReceiveCall n t # es) = requests es"

text \<open>The room and the time limit of each reception, and the limits taken together.\<close>

fun receptions :: "wire_call list \<Rightarrow> (nat \<times> nat) list" where
  "receptions [] = []"
| "receptions (SendCall b # es) = receptions es"
| "receptions (ReceiveCall n t # es) = (n, t) # receptions es"

definition longest_wait :: "wire_call list \<Rightarrow> nat" where
  "longest_wait es = sum_list (map snd (receptions es))"

lemma calls_append [simp]:
  "requests (xs @ ys) = requests xs + requests ys" "receptions (xs @ ys) = receptions xs @ receptions ys"
  by (induction xs rule: requests.induct) auto

text \<open>At most \<open>s\<close> requests and \<open>g\<close> receptions, each into the whole buffer and for at most half a second.\<close>

definition bounded_calls :: "nat \<Rightarrow> nat \<Rightarrow> wire_call list \<Rightarrow> bool" where
  "bounded_calls s g es \<longleftrightarrow> requests es \<le> s \<and> length (receptions es) \<le> g \<and> set (receptions es) \<subseteq> {(9000, 500)}"

lemma bounded_wait: "bounded_calls s g es \<Longrightarrow> longest_wait es \<le> g * 500"
proof -
  assume "bounded_calls s g es"
  then have *: "receptions es = replicate (length (receptions es)) (9000, 500)" "length (receptions es) \<le> g"
    unfolding bounded_calls_def by (auto intro!: replicate_length_same [symmetric])
  have "longest_wait es = length (receptions es) * 500"
    unfolding longest_wait_def by (subst *(1)) (simp add: sum_list_replicate)
  then show ?thesis using *(2) by simp
qed

lemma bounded_case:
  "(case x of (r, refs, w, es) \<Rightarrow> bounded_calls s g es) \<Longrightarrow> g * 500 = t \<Longrightarrow>
     (case x of (r, refs, w, es) \<Rightarrow> bounded_calls s g es \<and> longest_wait es \<le> t)"
  using bounded_wait by (auto split: prod.splits)

text \<open>The log of a run grows by at most \<open>s\<close> requests and \<open>g\<close> receptions.\<close>

definition grows :: "nat \<Rightarrow> nat \<Rightarrow> wire_call list \<Rightarrow> wire_call list \<Rightarrow> bool" where
  "grows s g l l' \<longleftrightarrow> (\<exists>es. l' = l @ es \<and> bounded_calls s g es)"

lemma grows_refl [simp]: "grows s g l l"
  by (simp add: grows_def bounded_calls_def)

lemma grows_trans: "grows s g l l' \<Longrightarrow> grows s' g' l' l'' \<Longrightarrow> grows (s + s') (g + g') l l''"
proof -
  assume "grows s g l l'" "grows s' g' l' l''"
  then obtain xs ys where "l' = l @ xs" "bounded_calls s g xs" "l'' = l' @ ys" "bounded_calls s' g' ys" unfolding grows_def by blast
  then show ?thesis unfolding grows_def by (intro exI [of _ "xs @ ys"]) (auto simp: bounded_calls_def)
qed

lemma grows_once [simp]: "grows (Suc s) g l (l @ [SendCall x])" "grows s (Suc g) l (l @ [ReceiveCall 9000 500])"
  by (simp_all add: grows_def bounded_calls_def)

lemma grows_sent: "grows s g (l @ [SendCall x]) l' \<Longrightarrow> grows (Suc s) g l l'"
  using grows_trans [OF grows_once(1) [of 0 0]] by fastforce

lemma grows_got: "grows s g (l @ [ReceiveCall 9000 500]) l' \<Longrightarrow> grows s (Suc g) l l'"
  using grows_trans [OF grows_once(2) [of 0 0]] by fastforce

lemma grows_mono: "grows s g l l' \<Longrightarrow> s \<le> s' \<Longrightarrow> g \<le> g' \<Longrightarrow> grows s' g' l l'"
  unfolding grows_def bounded_calls_def by force

lemmas reception_constants = MvlcCommandResponseBufferSize_def MvlcCommandResponseTimeoutMilliseconds_def

subsection \<open>The loops\<close>

lemma received_grows:
  assumes "ReceiveFrames (metered T) (w, l) = (q, w', l')"
  shows "grows s (Suc g) l l'"
  using assms by (auto simp: ReceiveFrames_def reception_constants split: prod.splits)

lemma received_then_grows:
  assumes "ReceiveFrames (metered T) (w, l) = (q, w', l')" "grows s g l' l''"
  shows "grows s (Suc g) l l''"
  using assms by (auto simp: ReceiveFrames_def reception_constants intro!: grows_got split: prod.splits)

lemma upload_loop_grows: "upload_loop (metered T) u n (w, l) = (r, w', l') \<Longrightarrow> grows 0 n l l'"
proof (induction n arbitrary: w l)
  case 0
  then show ?case by (auto simp: upload_end_def split: prod.splits)
next
  case (Suc n)
  then show ?case
    by (auto simp: upload_end_def split: prod.splits if_splits sum.splits option.splits
        intro: received_grows received_then_grows Suc.IH)
qed

lemma upload_grows: "UploadStack (metered T) u k ops (w, l) = (r, w', l') \<Longrightarrow> grows 1 MvlcMaximumResponseDatagrams l l'"
  by (auto simp: UploadStack_def SendWords_def split: prod.splits if_splits sum.splits
      intro: grows_sent dest: upload_loop_grows)

lemma execute_loop_grows: "execute_loop (metered T) u k n seen (w, l) = (r, w', l') \<Longrightarrow> grows 0 n l l'"
proof (induction n arbitrary: w l seen)
  case 0
  then show ?case by (auto simp: execute_end_def split: prod.splits)
next
  case (Suc n)
  then show ?case
    by (auto simp: execute_end_def split: prod.splits if_splits sum.splits option.splits bool.splits
        intro: received_grows received_then_grows Suc.IH)
qed

lemma execute_grows: "ExecuteStack (metered T) u k (w, l) = (r, w', l') \<Longrightarrow> grows 1 MvlcMaximumResponseDatagrams l l'"
  by (auto simp: ExecuteStack_def SendWords_def split: prod.splits if_splits sum.splits
      intro: grows_sent dest: execute_loop_grows)

lemma transaction_loop_grows:
  "transaction_loop (metered T) ops n r refs (w, l) = (r', refs', w', l')
    \<Longrightarrow> grows (2 * n) (2 * MvlcMaximumResponseDatagrams * n) l l'"
proof (induction n arbitrary: w l r refs)
  case 0
  then show ?case by (auto simp: transaction_end_def split: prod.splits if_splits)
next
  case (Suc n)
  let ?d = MvlcMaximumResponseDatagrams
  obtain c w1 where c: "t_cancelled T w = (c, w1)" by (cases "t_cancelled T w")
  show ?case
  proof (cases c)
    case True
    then show ?thesis using Suc.prems c by (auto simp: transaction_end_def split: prod.splits if_splits)
  next
    case False
    let ?u = "nextSuperReference refs" and ?k = "nextStackReference refs"
    obtain x w2 l2 where x: "UploadStack (metered T) ?u ?k ops (w1, l) = (x, w2, l2)"
      by (cases "UploadStack (metered T) ?u ?k ops (w1, l)")
    note up = upload_grows [OF x]
    show ?thesis
    proof (cases x)
      case (Inl e)
      then obtain r1 refs1 where "transaction_loop (metered T) ops n r1 refs1 (w2, l2) = (r', refs', w', l')"
        using Suc.prems c False x by (auto simp: Let_def simp del: transaction_loop.simps(1) split: prod.splits)
      from grows_trans [OF up Suc.IH [OF this]] show ?thesis by (rule grows_mono) auto
    next
      case (Inr v)
      obtain y w3 l3 where y: "ExecuteStack (metered T) (?u + 1) ?k (w2, l2) = (y, w3, l3)"
        by (cases "ExecuteStack (metered T) (?u + 1) ?k (w2, l2)")
      note both = grows_trans [OF up execute_grows [OF y]]
      show ?thesis
      proof (cases "ex_success y \<or> ex_retryDisposition y = Stop")
        case True
        then have "l3 = l'" using Suc.prems c False x Inr y by (auto simp: Let_def)
        with both show ?thesis by (auto elim!: grows_mono)
      next
        case False
        then obtain refs1 where "transaction_loop (metered T) ops n y refs1 (w3, l3) = (r', refs', w', l')"
          using Suc.prems c \<open>\<not> c\<close> x Inr y by (auto simp: Let_def)
        from grows_trans [OF both Suc.IH [OF this]] show ?thesis by (rule grows_mono) auto
      qed
    qed
  qed
qed

lemma local_write_loop_grows: "local_write_loop (metered T) u n (w, l) = (r, w', l') \<Longrightarrow> grows 0 n l l'"
proof (induction n arbitrary: w l)
  case 0
  then show ?case by (auto simp: local_write_end_def split: prod.splits)
next
  case (Suc n)
  then show ?case
    by (auto simp: local_write_end_def split: prod.splits if_splits sum.splits option.splits
        intro: received_grows received_then_grows Suc.IH)
qed

lemma received_length [simp]: "length (receive_into buffer data) = length buffer"
  by (simp add: receive_into_def)

lemma batch_replies_grow:
  "batch_replies (metered T) u as n b (w, l) = (r, b', w', l') \<Longrightarrow> length b = 9000 \<Longrightarrow> grows 0 n l l' \<and> length b' = 9000"
proof (induction n arbitrary: b w l)
  case 0
  then show ?case by auto
next
  case (Suc n)
  then show ?case
    by (auto simp: Let_def MvlcCommandResponseTimeoutMilliseconds_def split: prod.splits if_splits option.splits
        intro: grows_got dest: Suc.IH)
qed

lemma batch_attempts_grow:
  "batch_attempts (metered T) q u as n b (w, l) = (r, w', l') \<Longrightarrow> length b = 9000
    \<Longrightarrow> grows n (MvlcMaximumResponseDatagrams * n) l l'"
proof (induction n arbitrary: b w l)
  case 0
  then show ?case by (auto simp: batch_end_def split: prod.splits)
next
  case (Suc n)
  let ?d = MvlcMaximumResponseDatagrams
  obtain c w1 where c: "t_cancelled T w = (c, w1)" by (cases "t_cancelled T w")
  obtain s w2 where s: "t_send T q w1 = (s, w2)" by (cases "t_send T q w1")
  show ?case
  proof (cases "c \<or> \<not> tr_success s")
    case True
    then show ?thesis using Suc.prems c s by (auto simp: batch_end_def split: if_splits prod.splits)
  next
    case False
    obtain x b1 w3 l3 where x: "batch_replies (metered T) u as ?d b (w2, l @ [SendCall q]) = (x, b1, w3, l3)"
      by (cases "batch_replies (metered T) u as ?d b (w2, l @ [SendCall q])") auto
    note replies = batch_replies_grow [OF x Suc.prems(2)]
    have one: "grows 1 ?d l l3" using grows_sent [OF conjunct1 [OF replies]] by simp
    have "l3 = l' \<or> batch_attempts (metered T) q u as n b1 (w3, l3) = (r, w', l')"
      using Suc.prems c s False x by (auto split: option.splits sum.splits)
    then show ?thesis
    proof
      assume "l3 = l'"
      with one show ?thesis by (auto elim!: grows_mono)
    next
      assume "batch_attempts (metered T) q u as n b1 (w3, l3) = (r, w', l')"
      from grows_trans [OF one Suc.IH [OF this conjunct2 [OF replies]]] show ?thesis by (rule grows_mono) auto
    qed
  qed
qed

lemma grows_from_start: "grows s g [] es \<longleftrightarrow> bounded_calls s g es"
  by (simp add: grows_def)

lemma local_write_grows: "WriteLocalRegisters (metered T) writes u (w, l) = (r, u', w', l') \<Longrightarrow> grows 1 8 l l'"
  by (auto simp: WriteLocalRegisters_def Let_def SendWords_def MvlcMaximumResponseDatagrams_def
      split: prod.splits sum.splits if_splits intro: grows_sent dest: local_write_loop_grows)

lemma batch_read_grows: "ReadLocalRegisters (metered T) addresses u (w, []) = (r, u', w', es) \<Longrightarrow> bounded_calls 6 48 es"
  using batch_attempts_grow [of T _ u addresses MvlcFingerprintReadAttemptCount empty_buffer w "[]"]
  unfolding grows_from_start [symmetric]
  by (auto simp: ReadLocalRegisters_def Let_def MvlcMaximumResponseDatagrams_def MvlcFingerprintReadAttemptCount_def
      empty_buffer_def MvlcCommandResponseBufferSize_def split: prod.splits sum.splits)

text \<open>
  (C25) The routines come back: whatever a transport does (lose, delay, repeat or invent
  packets), a VME read or write ends after at most 6 requests and 48 receptions, a local write
  after at most one request and 8 receptions, and a batch read after at most 6 requests and 48
  receptions; every reception is asked to end within half a second and is given the whole buffer,
  so that the caller is kept waiting for replies for at most 24 seconds, or 4 for a local write.
\<close>
theorem transactions_end:
  "(case ReadVmeD16 (metered T) address refs (w, []) of (r, refs', w', es) \<Rightarrow> bounded_calls 6 48 es \<and> longest_wait es \<le> 24000)
   \<and> (case WriteVmeD16 (metered T) address v refs (w, []) of (r, refs', w', es) \<Rightarrow> bounded_calls 6 48 es \<and> longest_wait es \<le> 24000)
   \<and> (case WriteLocalRegisters (metered T) writes u (w, []) of (r, u', w', es) \<Rightarrow> bounded_calls 1 8 es \<and> longest_wait es \<le> 4000)
   \<and> (case ReadLocalRegisters (metered T) addresses u (w, []) of (r, u', w', es) \<Rightarrow> bounded_calls 6 48 es \<and> longest_wait es \<le> 24000)"
proof -
  have vme: "case RunStackTransaction (metered T) ops refs (w, []) of (r, refs', w', es) \<Rightarrow> bounded_calls 6 48 es" for ops
    using transaction_loop_grows [of T ops MvlcTransactionAttemptCount new_execution refs w "[]"]
    by (auto simp: RunStackTransaction_def grows_def MvlcTransactionAttemptCount_def MvlcMaximumResponseDatagrams_def split: prod.splits)
  have a: "case ReadVmeD16 (metered T) address refs (w, []) of (r, refs', w', es) \<Rightarrow> bounded_calls 6 48 es"
    using vme [of "EncodeMvlcVmeReadD16Words address"] by (auto simp: ReadVmeD16_def split: prod.splits)
  have b: "case WriteVmeD16 (metered T) address v refs (w, []) of (r, refs', w', es) \<Rightarrow> bounded_calls 6 48 es"
    using vme [of "EncodeMvlcVmeWriteD16Words address v"] by (auto simp: WriteVmeD16_def split: prod.splits)
  have c: "case WriteLocalRegisters (metered T) writes u (w, []) of (r, u', w', es) \<Rightarrow> bounded_calls 1 8 es"
    using local_write_grows [of T writes u w "[]", unfolded grows_from_start] by (auto split: prod.splits)
  have d: "case ReadLocalRegisters (metered T) addresses u (w, []) of (r, u', w', es) \<Rightarrow> bounded_calls 6 48 es"
    using batch_read_grows by (auto split: prod.splits)
  have t: "48 * 500 = (24000 :: nat)" "8 * 500 = (4000 :: nat)" by simp_all
  show ?thesis
    using bounded_case [OF a t(1)] bounded_case [OF b t(1)] bounded_case [OF c t(2)] bounded_case [OF d t(1)] by (intro conjI)
qed

end
