(* ===== verification/Crate_Bus.thy ===== *)
theory Crate_Bus
  imports Controller_Bus
begin

text \<open>
  What the diagnostic operations share: accesses to several modules behind one controller and writes of the
  controller's local registers, the contracts \<open>honest_crate\<close> and \<open>responsive_crate\<close> of a controller with its
  modules, properties that such an operation keeps (\<open>crate_invariant\<close>), and a simulated crate that meets the
  contracts down to the packets.
\<close>

subsection \<open>Local writes on a bus\<close>

definition writeLocal :: "'w transport \<Rightarrow> MvlcLocalRegisterWrite list \<Rightarrow> 'w bus \<Rightarrow> (vme_error option + unit) \<times> 'w bus" where
  "writeLocal transport writes bus =
    (case WriteLocalRegisters transport writes (nextSuperReference (fst bus)) (snd bus) of
      (r, u, w) \<Rightarrow> (r, (fst bus)\<lparr>nextSuperReference := u\<rparr>, w))"

definition local_write_bytes :: "u16 \<Rightarrow> MvlcLocalRegisterWrite list \<Rightarrow> byte list" where
  "local_write_bytes u writes = EncodeMvlcWordsLittleEndian ([MvlcCommandBufferStart, MvlcReferenceWordCommand OR ucast u]
     @ concat (map (\<lambda>w. [MvlcWriteLocalCommand OR ucast (lw_address w), lw_value w]) writes) @ [MvlcCommandBufferEnd])"

lemma local_write_request:
  "BuildMvlcLocalRegisterWriteRequest u writes = (if writes = [] then Inl NoLocalWritesRequested
     else Inr ([MvlcCommandBufferStart, MvlcReferenceWordCommand OR ucast u]
       @ concat (map (\<lambda>w. [MvlcWriteLocalCommand OR ucast (lw_address w), lw_value w]) writes) @ [MvlcCommandBufferEnd]))"
proof -
  have "foldl (\<lambda>request w. AppendWriteLocal request (lw_address w) (lw_value w)) start writes
      = start @ concat (map (\<lambda>w. [MvlcWriteLocalCommand OR ucast (lw_address w), lw_value w]) writes)" for start
    by (induction writes arbitrary: start) (simp_all add: AppendWriteLocal_def)
  then show ?thesis by (simp add: BuildMvlcLocalRegisterWriteRequest_def)
qed

lemma local_write_loop_I:
  assumes "\<And>n t w. I w \<Longrightarrow> I (snd (t_receive T n t w))" "\<And>w. I w \<Longrightarrow> I (snd (t_cancelled T w))" "I w"
  shows "I (snd (local_write_loop T u n w))"
  using assms(3)
proof (induction n arbitrary: w)
  case 0
  then show ?case using assms(2) by (simp add: local_write_end_def case_prod_beta)
next
  case (Suc n)
  obtain c w1 where c: "t_cancelled T w = (c, w1)" by (cases "t_cancelled T w")
  obtain q w2 where q: "ReceiveFrames T w1 = (q, w2)" by (cases "ReceiveFrames T w1")
  have w1: "I w1" using assms(2) [OF Suc.prems] c by simp
  moreover have "I w2" using assms(1) [OF w1] q by (auto simp: ReceiveFrames_def case_prod_beta)
  ultimately show ?case
    using c q Suc.IH assms(2) [OF w1]
    by (auto simp: local_write_end_def case_prod_beta split: sum.split option.split)
qed

lemma writeLocal_I:
  assumes "\<And>w. writes \<noteq> [] \<Longrightarrow> I w \<Longrightarrow> I (snd (t_send T (local_write_bytes (nextSuperReference (fst b)) writes) w))"
    and "\<And>n t w. I w \<Longrightarrow> I (snd (t_receive T n t w))" "\<And>w. I w \<Longrightarrow> I (snd (t_cancelled T w))" "I (snd b)"
  shows "I (snd (snd (writeLocal T writes b)))"
proof (cases "writes = []")
  case True
  then show ?thesis using assms(4) by (simp add: writeLocal_def WriteLocalRegisters_def local_write_request)
next
  case False
  have sent: "I (snd (t_send T (local_write_bytes (nextSuperReference (fst b)) writes) (snd b)))"
    by (rule assms(1) [OF False assms(4)])
  note loop = local_write_loop_I [of I T, OF assms(2,3)]
  show ?thesis
    using False sent loop
    by (auto simp: writeLocal_def WriteLocalRegisters_def local_write_request Let_def SendWords_def local_write_bytes_def case_prod_beta
        split: sum.split)
qed

subsection \<open>Properties that an operation on a crate keeps\<close>

locale crate_invariant =
  fixes T :: "'w transport" and may_write :: "u32 \<Rightarrow> u16 \<Rightarrow> u16 \<Rightarrow> bool" and may_local :: "MvlcLocalRegisterWrite list \<Rightarrow> bool"
    and I :: "'w \<Rightarrow> bool"
  assumes read_I: "I (snd b) \<Longrightarrow> I (snd (snd (readRegister T base r b)))"
    and write_I: "may_write base r v \<Longrightarrow> I (snd b) \<Longrightarrow> I (snd (snd (writeRegister T base r v b)))"
    and local_I: "I (snd b) \<Longrightarrow> I (snd (snd (readLocal T addresses b)))"
    and local_write_I: "may_local writes \<Longrightarrow> I (snd b) \<Longrightarrow> I (snd (snd (writeLocal T writes b)))"
    and flag_I: "I w \<Longrightarrow> I (snd (t_cancelled T w))"

text \<open>The wire: every transport, observed.\<close>

definition crate_request :: "(u32 \<Rightarrow> u16 \<Rightarrow> u16 \<Rightarrow> bool) \<Rightarrow> (MvlcLocalRegisterWrite list \<Rightarrow> bool) \<Rightarrow> byte list \<Rightarrow> bool" where
  "crate_request may_write may_local bytes \<longleftrightarrow> (\<exists>base. permitted base (may_write base) bytes)
     \<or> (\<exists>u addresses. bytes = batch_read_bytes u addresses) \<or> (\<exists>u writes. may_local writes \<and> bytes = local_write_bytes u writes)"

definition only_requests :: "(u32 \<Rightarrow> u16 \<Rightarrow> u16 \<Rightarrow> bool) \<Rightarrow> (MvlcLocalRegisterWrite list \<Rightarrow> bool) \<Rightarrow> event list \<Rightarrow> bool" where
  "only_requests may_write may_local es \<longleftrightarrow> list_all (crate_request may_write may_local) (sends es)"

text \<open>No write: neither of a module nor of the controller.\<close>

abbreviation only_crate_reads :: "event list \<Rightarrow> bool" where
  "only_crate_reads \<equiv> only_requests (\<lambda>_ _ _. False) (\<lambda>_. False)"

lemma only_requests_mono:
  assumes "only_requests f g es" "\<And>base r v. f base r v \<Longrightarrow> f' base r v" "\<And>ws. g ws \<Longrightarrow> g' ws"
  shows "only_requests f' g' es"
proof -
  have "permitted base (f base) bytes \<Longrightarrow> permitted base (f' base) bytes" for base bytes
    using assms(2) unfolding permitted_def by blast
  then have "crate_request f g bytes \<Longrightarrow> crate_request f' g' bytes" for bytes
    using assms(3) unfolding crate_request_def by blast
  with assms(1) show ?thesis by (auto simp: only_requests_def list_all_iff)
qed

lemma only_requests_append [simp]:
  "only_requests f g (xs @ ys) \<longleftrightarrow> only_requests f g xs \<and> only_requests f g ys" "only_requests f g []"
  by (simp_all add: only_requests_def)

lemma write_sends:
  assumes "writeRegister (observed T) base r v (refs, w, l) = (x, refs', w', l')" "may_write r v"
  shows "\<exists>es. l' = l @ es \<and> list_all (permitted base may_write) (sends es)"
proof -
  let ?ops = "EncodeMvlcVmeWriteD16Words (base + ucast r) v"
  obtain q refs1 w1 l1 where q: "RunStackTransaction (observed T) ?ops refs (w, l) = (q, refs1, w1, l1)"
    by (cases "RunStackTransaction (observed T) ?ops refs (w, l)") auto
  then have "l1 = l'" using assms by (simp add: writeRegister_def WriteVmeD16_def)
  moreover obtain es where "l1 = l @ es" "transaction_sound ?ops MvlcTransactionAttemptCount refs es q refs1"
    using transaction_loop_observed [of T _ MvlcTransactionAttemptCount new_execution refs w l q refs1 w1 l1] q
    by (auto simp: RunStackTransaction_def retryable_def new_execution_def)
  ultimately show ?thesis using attempts_permitted assms(2) by (fastforce simp: transaction_sound_def)
qed

interpretation crate_wire: crate_invariant "observed T" may_write may_local "\<lambda>wl. only_requests may_write may_local (snd wl)"
  for T :: "'w transport" and may_write may_local
proof unfold_locales
  let ?I = "\<lambda>wl :: 'w \<times> event list. only_requests may_write may_local (snd wl)"
  have grown: "only_requests may_write may_local (l @ es)"
    if "only_requests may_write may_local l" "list_all (permitted base (may_write base)) (sends es)" for l es base
    using that by (auto simp: only_requests_def crate_request_def list_all_iff)
  fix b :: "('w \<times> event list) bus" and base r v addresses writes
  obtain refs w l where b: "b = (refs, w, l)" by (cases b)
  show "?I (snd b) \<Longrightarrow> ?I (snd (snd (readRegister (observed T) base r b)))"
    using register_sends [of T base r refs w l _ _ _ _ "may_write base"] b grown [of l]
    by (cases "readRegister (observed T) base r b") fastforce
  show "may_write base r v \<Longrightarrow> ?I (snd b) \<Longrightarrow> ?I (snd (snd (writeRegister (observed T) base r v b)))"
    using write_sends [of T base r v refs w l _ _ _ _ "may_write base"] b grown [of l]
    by (cases "writeRegister (observed T) base r v b") fastforce
  have send: "?I wl \<Longrightarrow> ?I (snd (t_send (observed T) (batch_read_bytes u as) wl))" for u as wl
    by (cases wl) (auto simp: only_requests_def crate_request_def split: prod.split)
  have send': "may_local writes \<Longrightarrow> ?I wl \<Longrightarrow> ?I (snd (t_send (observed T) (local_write_bytes u writes) wl))" for u wl
    by (cases wl) (auto simp: only_requests_def crate_request_def split: prod.split)
  have receive: "?I wl \<Longrightarrow> ?I (snd (t_receive (observed T) n t wl))" for n t wl
    by (cases wl) (simp add: only_requests_def split: prod.split)
  have flag: "?I wl \<Longrightarrow> ?I (snd (t_cancelled (observed T) wl))" for wl by (cases wl) (simp split: prod.split)
  show "?I (snd b) \<Longrightarrow> ?I (snd (snd (readLocal (observed T) addresses b)))"
    by (rule readLocal_I [of ?I "observed T", OF send receive flag])
  show "may_local writes \<Longrightarrow> ?I (snd b) \<Longrightarrow> ?I (snd (snd (writeLocal (observed T) writes b)))"
    by (rule writeLocal_I [of writes ?I "observed T", OF send' receive flag])
  show "?I wl \<Longrightarrow> ?I (snd (t_cancelled (observed T) wl))" for wl by (rule flag)
qed

subsection \<open>Controllers with modules\<close>

text \<open>
  The modules by their bases and the local registers of the controller. The registers and the memory of
  the stack that executes single commands are rewritten by every command; they are no part of it.
\<close>

record crate =
  crate_modules :: "u32 \<Rightarrow> mdpp"
  crate_locals :: "u16 \<Rightarrow> u32"

definition module_base :: "u32 \<Rightarrow> bool" where
  "module_base base \<longleftrightarrow> base AND 0xFFFF = 0"

definition durable_local :: "u16 \<Rightarrow> bool" where
  "durable_local a \<longleftrightarrow> a \<noteq> MvlcStack0TriggerRegister \<and> a \<noteq> MvlcStack0OffsetRegister \<and> a \<noteq> MvlcStackExecutionStatus0
     \<and> a \<noteq> MvlcStackExecutionStatus1 \<and> (a < MvlcStackMemoryBegin \<or> MvlcStackMemoryBegin + 0x200 \<le> a)"

definition change_module :: "u32 \<Rightarrow> u16 \<Rightarrow> u16 \<Rightarrow> crate \<Rightarrow> crate" where
  "change_module base r v c = c\<lparr>crate_modules := (crate_modules c)(base := mdpp_write (crate_modules c base) r v)\<rparr>"

definition change_locals :: "MvlcLocalRegisterWrite list \<Rightarrow> crate \<Rightarrow> crate" where
  "change_locals writes c = c\<lparr>crate_locals := foldl (\<lambda>f w. f(lw_address w := lw_value w)) (crate_locals c) writes\<rparr>"

lemma change_module_simps [simp]:
  "crate_modules (change_module base r v c) base' = (if base' = base then mdpp_write (crate_modules c base) r v else crate_modules c base')"
  "crate_locals (change_module base r v c) = crate_locals c"
  by (simp_all add: change_module_def)

lemma change_locals_simps [simp]:
  "crate_modules (change_locals writes c) = crate_modules c" "change_locals [] c = c"
  by (simp_all add: change_locals_def)

lemma change_locals_Cons [simp]:
  "change_locals (w # writes) c = change_locals writes (c\<lparr>crate_locals := (crate_locals c)(lw_address w := lw_value w)\<rparr>)"
  by (simp add: change_locals_def)

lemma unwritten_local: "a \<notin> lw_address ` set writes \<Longrightarrow> crate_locals (change_locals writes c) a = crate_locals c a"
  by (induction writes arbitrary: c) auto

lemma written_local:
  "distinct (map lw_address writes) \<Longrightarrow> w \<in> set writes \<Longrightarrow> crate_locals (change_locals writes c) (lw_address w) = lw_value w"
  by (induction writes arbitrary: c) (auto simp: unwritten_local)

text \<open>
  An honest controller: what is read is there, reading changes nothing, an acknowledged write has happened, a
  failed write of a module has happened or not, of a failed batch of local writes some have happened, in order.
\<close>

locale honest_crate =
  fixes T :: "'w transport" and crate :: "'w \<Rightarrow> crate"
  assumes read_keeps: "readRegister T base r b = (x, b') \<Longrightarrow> crate (snd b') = crate (snd b)"
    and read_shows: "module_base base \<Longrightarrow> readRegister T base r b = (Inr v, b') \<Longrightarrow> v = mdpp_read (crate_modules (crate (snd b)) base) r"
    and write_happened: "module_base base \<Longrightarrow> writeRegister T base r v b = (Inr u, b') \<Longrightarrow>
      crate (snd b') = change_module base r v (crate (snd b))"
    and write_maybe: "module_base base \<Longrightarrow> writeRegister T base r v b = (Inl e, b') \<Longrightarrow>
      crate (snd b') = crate (snd b) \<or> crate (snd b') = change_module base r v (crate (snd b))"
    and local_keeps: "readLocal T addresses b = (y, b') \<Longrightarrow> crate (snd b') = crate (snd b)"
    and local_shows: "list_all durable_local addresses \<Longrightarrow> length addresses \<le> 16 \<Longrightarrow> readLocal T addresses b = (Inr vs, b') \<Longrightarrow>
      vs = map (crate_locals (crate (snd b))) addresses"
    and local_written: "list_all (\<lambda>w. durable_local (lw_address w)) writes \<Longrightarrow> writeLocal T writes b = (Inr u, b') \<Longrightarrow>
      crate (snd b') = change_locals writes (crate (snd b))"
    and local_maybe: "list_all (\<lambda>w. durable_local (lw_address w)) writes \<Longrightarrow> writeLocal T writes b = (Inl e, b') \<Longrightarrow>
      \<exists>n. crate (snd b') = change_locals (take n writes) (crate (snd b))"
    and cancelled_keeps: "crate (snd (t_cancelled T w)) = crate w"
begin

lemma module_honest: "module_base base \<Longrightarrow> honest_module T base (\<lambda>w. crate_modules (crate w) base)"
  using read_keeps read_shows write_happened write_maybe cancelled_keeps by unfold_locales (fastforce+)

end

text \<open>A controller that also answers.\<close>

locale responsive_crate = honest_crate +
  assumes read_returns: "module_base base \<Longrightarrow> \<exists>v b'. readRegister T base r b = (Inr v, b')"
    and write_returns: "module_base base \<Longrightarrow> \<exists>b'. writeRegister T base r v b = (Inr (), b')"
    and local_returns: "addresses \<noteq> [] \<Longrightarrow> length addresses \<le> 16 \<Longrightarrow> list_all durable_local addresses \<Longrightarrow>
      \<exists>vs b'. readLocal T addresses b = (Inr vs, b')"
    and local_write_returns: "writes \<noteq> [] \<Longrightarrow> list_all (\<lambda>w. durable_local (lw_address w)) writes \<Longrightarrow>
      \<exists>b'. writeLocal T writes b = (Inr (), b')"
    and not_cancelled: "fst (t_cancelled T w) = False"
begin

lemma read_answer:
  assumes "module_base base"
  obtains b' where "readRegister T base r b = (Inr (mdpp_read (crate_modules (crate (snd b)) base) r), b')" "crate (snd b') = crate (snd b)"
  using read_returns [OF assms, of r b] read_keeps read_shows [OF assms] by metis

lemma write_answer:
  assumes "module_base base"
  obtains b' where "writeRegister T base r v b = (Inr (), b')" "crate (snd b') = change_module base r v (crate (snd b))"
  using write_returns [OF assms, of r v b] write_happened [OF assms] by metis

lemma local_answer:
  assumes "addresses \<noteq> []" "length addresses \<le> 16" "list_all durable_local addresses"
  obtains b' where "readLocal T addresses b = (Inr (map (crate_locals (crate (snd b))) addresses), b')" "crate (snd b') = crate (snd b)"
  using local_returns [OF assms, of b] local_shows [OF assms(3,2)] local_keeps by metis

lemma local_write_answer:
  assumes "writes \<noteq> []" "list_all (\<lambda>w. durable_local (lw_address w)) writes"
  obtains b' where "writeLocal T writes b = (Inr (), b')" "crate (snd b') = change_locals writes (crate (snd b))"
  using local_write_returns [OF assms, of b] local_written [OF assms(2)] by metis

end

subsection \<open>The simulated crate\<close>

record crate_sim =
  cs_crate :: crate
  cs_reference :: u32
  cs_operations :: "u32 list"
  cs_replies :: "TransportReceiveResult list"

definition crate_run :: "u32 \<Rightarrow> crate_sim \<Rightarrow> crate_sim" where
  "crate_run mirror w =
    (case cs_operations w of
       [command, address] \<Rightarrow>
         w\<lparr>cs_replies := [reply_packet [0xF1000001, mirror, 0xF3000002, cs_reference w,
             ucast (mdpp_read (crate_modules (cs_crate w) (address AND 0xFFFF0000)) (ucast address))]]\<rparr>
     | [command, address, v] \<Rightarrow>
         w\<lparr>cs_crate := change_module (address AND 0xFFFF0000) (ucast address) (ucast v) (cs_crate w),
           cs_replies := [reply_packet [0xF1000001, mirror, 0xF3000001, cs_reference w]]\<rparr>
     | _ \<Rightarrow> w)"

fun local_writes_of :: "u32 list \<Rightarrow> MvlcLocalRegisterWrite list" where
  "local_writes_of (address # v # rest) = \<lparr>lw_address = ucast address, lw_value = v\<rparr> # local_writes_of rest"
| "local_writes_of _ = []"

definition crate_send :: "byte list \<Rightarrow> crate_sim \<Rightarrow> crate_sim" where
  "crate_send bytes w =
    (case words_of bytes of
       start # mirror # commands \<Rightarrow>
         if local_reads commands
         then w\<lparr>cs_replies := [reply_packet (batch_header (length commands - 1) # mirror
                 # read_pairs (crate_locals (cs_crate w)) (butlast commands))]\<rparr>
         else (case local_writes_of (butlast commands) of
            [] \<Rightarrow> w
          | first # writes \<Rightarrow>
            if lw_address first = MvlcStackMemoryBegin + MvlcImmediateStackOffset
            then w\<lparr>cs_reference := lw_value (writes ! 1), cs_operations := butlast (map lw_value (drop 2 writes)),
                   cs_replies := [reply_packet [0xF1000001, mirror]]\<rparr>
            else if lw_address first = MvlcStackExecutionStatus0 then crate_run mirror w
            else w\<lparr>cs_crate := change_locals (first # writes) (cs_crate w),
                   cs_replies := [reply_packet [0xF1000001, mirror]]\<rparr>)
     | _ \<Rightarrow> w)"

definition simulated_crate :: "crate_sim transport" where
  "simulated_crate = \<lparr>t_send = (\<lambda>bytes w. (\<lparr>tr_success = True, tr_error = []\<rparr>, crate_send bytes (w\<lparr>cs_replies := []\<rparr>))),
     t_receive = (\<lambda>capacity timeout w. case cs_replies w of
         [] \<Rightarrow> (\<lparr>rx_status = Timeout, rx_bytesReceived = 0, rx_error = [], rx_data = []\<rparr>, w)
       | r # rs \<Rightarrow> (r, w\<lparr>cs_replies := rs\<rparr>)),
     t_cancelled = (\<lambda>w. (False, w))\<rparr>"

lemma crate_receive: "cs_replies w = [r] \<Longrightarrow> t_receive simulated_crate n t w = (r, w\<lparr>cs_replies := []\<rparr>)"
  by (simp add: simulated_crate_def)

lemma crate_flag: "t_cancelled simulated_crate w = (False, w)"
  by (simp add: simulated_crate_def)

lemma write_command: "(ucast (MvlcWriteLocalCommand OR ucast (a :: u16)) :: u16) = a"
proof -
  have zero: "(ucast MvlcWriteLocalCommand :: u16) = 0" by code_simp
  show ?thesis by (simp add: unsigned_or_eq zero)
qed

lemma crate_upload:
  assumes "ops = [c, a] \<or> ops = [c, a, v]"
  shows "t_send simulated_crate (upload_bytes ops u k) w
    = (\<lparr>tr_success = True, tr_error = []\<rparr>, w\<lparr>cs_reference := k, cs_operations := ops,
        cs_replies := [reply_packet [0xF1000001, MvlcReferenceWordCommand OR ucast u]]\<rparr>)"
  using assms no_local_reads(1) [of ops c a v u k]
  by (auto simp: simulated_crate_def crate_send_def words_of_encode BuildMvlcStackUploadRequest_def AppendWriteLocal_def Let_def
      write_command)

lemma crate_execute:
  "t_send simulated_crate (execute_bytes u) w
    = (\<lparr>tr_success = True, tr_error = []\<rparr>, crate_run (MvlcReferenceWordCommand OR ucast u) (w\<lparr>cs_replies := []\<rparr>))"
  using no_local_reads(2) [of u]
  by (simp add: simulated_crate_def crate_send_def words_of_encode BuildMvlcStackExecuteRequest_def AppendWriteLocal_def
      write_command) (simp add: MvlcStackExecutionStatus0_def MvlcStackMemoryBegin_def MvlcImmediateStackOffset_def)

text \<open>A command on the simulated crate.\<close>

definition crate_ran :: "u32 list \<Rightarrow> u32 \<Rightarrow> crate \<Rightarrow> u32 list \<Rightarrow> crate \<Rightarrow> bool" where
  "crate_ran ops k c ws c' \<longleftrightarrow>
     (\<exists>o1 a. ops = [o1, a] \<and> ws = [0xF3000002, k, ucast (mdpp_read (crate_modules c (a AND 0xFFFF0000)) (ucast a))] \<and> c' = c)
   \<or> (\<exists>o1 a v. ops = [o1, a, v] \<and> ws = [0xF3000001, k] \<and> c' = change_module (a AND 0xFFFF0000) (ucast a) (ucast v) c)"

lemma crate_transaction:
  fixes w :: crate_sim
  assumes ran: "crate_ran ops k (cs_crate w) ws c'"
  shows "\<exists>w'. RunStackTransaction simulated_crate ops \<lparr>nextSuperReference = u, nextStackReference = k\<rparr> w
    = (\<lparr>ex_success = True, ex_retryDisposition = Stop, ex_stackFrame = frame_of ws, ex_error = None\<rparr>,
       \<lparr>nextSuperReference = u + 2, nextStackReference = k + 1\<rparr>, w') \<and> cs_crate w' = c'"
proof -
  let ?ack = "\<lambda>u. frame_of [0xF1000001, MvlcReferenceWordCommand OR ucast (u :: u16)]"
  let ?w1 = "w\<lparr>cs_reference := k, cs_operations := ops,
      cs_replies := [reply_packet [0xF1000001, MvlcReferenceWordCommand OR ucast u]]\<rparr>"
  let ?w2 = "?w1\<lparr>cs_replies := []\<rparr>"
  let ?w3 = "crate_run (MvlcReferenceWordCommand OR ucast (u + 1)) ?w2"
  let ?p2 = "reply_packet ([0xF1000001, MvlcReferenceWordCommand OR ucast (u + 1)] @ ws)"
  have w3: "cs_replies ?w3 = [?p2]" "cs_crate ?w3 = c'" using ran by (auto simp: crate_run_def crate_ran_def)
  have frames: "received_frames ?p2 = Inr [?ack (u + 1), frame_of ws]" "good_reply k (frame_of ws)"
    using ran simulated_frames(2,3) simulated_validations(3,4) by (auto simp: crate_ran_def)
  have "RunStackTransaction simulated_crate ops \<lparr>nextSuperReference = u, nextStackReference = k\<rparr> w
    = (\<lparr>ex_success = True, ex_retryDisposition = Stop, ex_stackFrame = frame_of ws, ex_error = None\<rparr>,
       \<lparr>nextSuperReference = u + 2, nextStackReference = k + 1\<rparr>, ?w3\<lparr>cs_replies := []\<rparr>)"
  proof (rule transaction_first_attempt)
    show "\<And>w. t_cancelled simulated_crate w = (False, w)" by (rule crate_flag)
    show "t_send simulated_crate (upload_bytes ops u k) w = (\<lparr>tr_success = True, tr_error = []\<rparr>, ?w1)"
      using ran unfolding crate_ran_def by (elim disjE exE conjE; hypsubst) (rule crate_upload, blast)+
    show "t_receive simulated_crate MvlcCommandResponseBufferSize MvlcCommandResponseTimeoutMilliseconds ?w1
        = (reply_packet [0xF1000001, MvlcReferenceWordCommand OR ucast u], ?w2)" by (simp add: crate_receive)
    show "received_frames (reply_packet [0xF1000001, MvlcReferenceWordCommand OR ucast u]) = Inr [?ack u]"
      by (rule simulated_frames)
    show "t_send simulated_crate (execute_bytes (u + 1)) ?w2 = (\<lparr>tr_success = True, tr_error = []\<rparr>, ?w3)"
      by (simp add: crate_execute)
    show "t_receive simulated_crate MvlcCommandResponseBufferSize MvlcCommandResponseTimeoutMilliseconds ?w3
        = (?p2, ?w3\<lparr>cs_replies := []\<rparr>)" by (rule crate_receive [OF w3(1)])
  qed (rule simulated_validations frames | simp)+
  then show ?thesis using w3(2) by auto
qed

lemma module_address:
  assumes "module_base base"
  shows "(base + ucast (r :: u16)) AND 0xFFFF0000 = base" "(ucast (base + ucast r) :: u16) = r"
proof -
  have low: "\<not> bit base n" if "n < 16" for n
    using that assms bit_and_iff [of base "0xFFFF" n] bit_mask_iff [of 16 n, where ?'a = "32 word"]
    by (simp add: module_base_def mask_numeral)
  have disj: "base AND ucast r = 0"
    by (rule bit_word_eqI) (use low in \<open>auto simp: bit_simps dest: bit_imp_le_length\<close>)
  have sum: "base + ucast r = base OR ucast r" by (rule disjunctive_add_eq_or [OF disj])
  have high: "(0xFFFF0000 :: u32) = NOT (mask 16)" by (simp add: mask_numeral)
  show "(base + ucast r) AND 0xFFFF0000 = base"
    unfolding sum high
    by (rule bit_word_eqI) (use low linorder_not_less in \<open>auto simp: bit_and_iff bit_or_iff bit_not_iff bit_mask_iff bit_unsigned_iff
      dest: bit_imp_le_length\<close>)
  show "(ucast (base + ucast r) :: u16) = r"
    unfolding sum by (rule bit_word_eqI) (use low in \<open>auto simp: bit_simps\<close>)
qed

lemma crate_read_any:
  "\<exists>b'. readRegister simulated_crate base r b
      = (Inr (mdpp_read (crate_modules (cs_crate (snd b)) ((base + ucast r) AND 0xFFFF0000)) (ucast (base + ucast r))), b')
    \<and> cs_crate (snd b') = cs_crate (snd b)"
proof -
  obtain u k where refs: "fst b = \<lparr>nextSuperReference = u, nextStackReference = k\<rparr>" by (cases "fst b")
  let ?a = "base + ucast r"
  let ?d = "ucast (mdpp_read (crate_modules (cs_crate (snd b)) (?a AND 0xFFFF0000)) (ucast ?a)) :: u32"
  have "crate_ran (EncodeMvlcVmeReadD16Words ?a) k (cs_crate (snd b)) [0xF3000002, k, ?d] (cs_crate (snd b))"
    by (simp add: crate_ran_def EncodeMvlcVmeReadD16Words_def)
  from crate_transaction [OF this, of u]
  obtain w' where "RunStackTransaction simulated_crate (EncodeMvlcVmeReadD16Words ?a) (fst b) (snd b)
     = (\<lparr>ex_success = True, ex_retryDisposition = Stop, ex_stackFrame = frame_of [0xF3000002, k, ?d],
         ex_error = None\<rparr>, \<lparr>nextSuperReference = u + 2, nextStackReference = k + 1\<rparr>, w')" "cs_crate w' = cs_crate (snd b)"
    using refs by auto
  then show ?thesis
    by (auto simp: readRegister_def ReadVmeD16_def ParseMvlcVmeReadD16Reply_def low_half frame_of_def)
qed

lemma crate_read:
  assumes "module_base base"
  shows "\<exists>b'. readRegister simulated_crate base r b = (Inr (mdpp_read (crate_modules (cs_crate (snd b)) base) r), b')
    \<and> cs_crate (snd b') = cs_crate (snd b)"
  using crate_read_any [of base r b] unfolding module_address [OF assms] .

lemma crate_write:
  assumes "module_base base"
  shows "\<exists>b'. writeRegister simulated_crate base r v b = (Inr (), b') \<and> cs_crate (snd b') = change_module base r v (cs_crate (snd b))"
proof -
  obtain u k where refs: "fst b = \<lparr>nextSuperReference = u, nextStackReference = k\<rparr>" by (cases "fst b")
  let ?c = "change_module base r v (cs_crate (snd b))"
  have "crate_ran (EncodeMvlcVmeWriteD16Words (base + ucast r) v) k (cs_crate (snd b)) [0xF3000001, k] ?c"
    by (simp add: crate_ran_def EncodeMvlcVmeWriteD16Words_def module_address [OF assms])
  from crate_transaction [OF this, of u]
  obtain w' where "RunStackTransaction simulated_crate (EncodeMvlcVmeWriteD16Words (base + ucast r) v) (fst b) (snd b)
     = (\<lparr>ex_success = True, ex_retryDisposition = Stop, ex_stackFrame = frame_of [0xF3000001, k],
         ex_error = None\<rparr>, \<lparr>nextSuperReference = u + 2, nextStackReference = k + 1\<rparr>, w')" "cs_crate w' = ?c"
    using refs by auto
  then show ?thesis
    by (auto simp: writeRegister_def WriteVmeD16_def ParseMvlcVmeWriteD16Reply_def frame_of_def)
qed

text \<open>Local registers.\<close>

lemma crate_batch:
  assumes "addresses \<noteq> []"
  shows "t_send simulated_crate (batch_read_bytes u addresses) w = (\<lparr>tr_success = True, tr_error = []\<rparr>,
    w\<lparr>cs_replies := [reply_packet (batch_header (length addresses) # (MvlcReferenceWordCommand OR ucast u)
        # read_pairs (crate_locals (cs_crate w)) (map (\<lambda>a. MvlcReadLocalCommand OR ucast a) addresses))]\<rparr>)"
proof -
  have "length addresses \<ge> 1" using assms by (cases addresses) auto
  then have "local_reads (map (\<lambda>a. MvlcReadLocalCommand OR ucast (a :: u16)) addresses @ [MvlcCommandBufferEnd])"
    by (auto simp: local_reads_def list_all_iff read_command(2) simp del: drop_bit_or)
  then show ?thesis
    by (simp add: simulated_crate_def crate_send_def batch_read_bytes_def words_of_encode butlast_append)
qed

lemma crate_local:
  assumes "addresses \<noteq> []" "length addresses \<le> 16"
  shows "\<exists>b'. readLocal simulated_crate addresses b = (Inr (map (crate_locals (cs_crate (snd b))) addresses), b')
    \<and> cs_crate (snd b') = cs_crate (snd b)"
proof -
  let ?u = "nextSuperReference (fst b)" and ?T = simulated_crate and ?regs = "crate_locals (cs_crate (snd b))"
  let ?p = "reply_packet (batch_header (length addresses) # (MvlcReferenceWordCommand OR ucast ?u)
      # read_pairs ?regs (map (\<lambda>a. MvlcReadLocalCommand OR ucast a) addresses))"
  let ?w1 = "(snd b)\<lparr>cs_replies := [?p]\<rparr>" and ?w2 = "(snd b)\<lparr>cs_replies := []\<rparr>"
  have size: "1 \<le> length addresses" using assms(1) by (cases addresses) auto
  have receive: "t_receive ?T n t ?w1 = (?p, ?w2)" for n t by (simp add: crate_receive)
  have status: "rx_status ?p = Received" by (simp add: reply_packet_def)
  have reply: "batch_replies ?T ?u addresses MvlcMaximumResponseDatagrams empty_buffer ?w1
      = (Some (Inr (Some (map ?regs addresses))), receive_into empty_buffer (rx_data ?p), ?w2)"
    using batch_parsed [OF size assms(2), of ?u ?regs]
    by (subst batch_replies.simps(2) [where n = 7, folded attempt_counts]) (simp only: crate_flag receive prod.case if_False status Let_def
        option.case MvlcLocalBatchReadReply.simps TransportReceiveStatus.simps simp_thms if_True)
  have "batch_attempts ?T (batch_read_bytes ?u addresses) ?u addresses MvlcFingerprintReadAttemptCount empty_buffer (snd b)
      = (Some (Inr (map ?regs addresses)), ?w2)"
    by (simp add: at_least_once crate_flag crate_batch [OF assms(1)] reply)
  then show ?thesis
    using assms(1) by (simp add: readLocal_def ReadLocalRegisters_def BuildMvlcLocalRegisterBatchReadRequest_def Let_def
        batch_read_bytes_def)
qed

definition write_words :: "MvlcLocalRegisterWrite list \<Rightarrow> u32 list" where
  "write_words writes = concat (map (\<lambda>w. [MvlcWriteLocalCommand OR ucast (lw_address w), lw_value w]) writes)"

lemma local_writes_of_words [simp]: "local_writes_of (write_words writes) = writes"
  by (induction writes) (simp_all add: write_words_def write_command)

lemma write_words_no_reads: "writes \<noteq> [] \<Longrightarrow> \<not> local_reads (write_words writes @ [MvlcCommandBufferEnd])"
proof -
  have other: "drop_bit 16 (MvlcWriteLocalCommand OR ucast (r :: u16)) \<noteq> drop_bit 16 MvlcReadLocalCommand" for r
  proof
    assume "drop_bit 16 (MvlcWriteLocalCommand OR ucast r) = drop_bit 16 MvlcReadLocalCommand"
    then have "bit (drop_bit 16 (MvlcWriteLocalCommand OR ucast r)) 2 = bit (drop_bit 16 MvlcReadLocalCommand) 2" by simp
    then show False by (simp add: bit_simps MvlcWriteLocalCommand_def MvlcReadLocalCommand_def bit_unsigned_iff)
  qed
  then show "writes \<noteq> [] \<Longrightarrow> \<not> local_reads (write_words writes @ [MvlcCommandBufferEnd])"
    by (cases writes) (simp_all add: local_reads_def write_words_def)
qed

lemma crate_local_send:
  assumes "writes \<noteq> []" "list_all (\<lambda>w. durable_local (lw_address w)) writes"
  shows "t_send simulated_crate (local_write_bytes u writes) w = (\<lparr>tr_success = True, tr_error = []\<rparr>,
    w\<lparr>cs_crate := change_locals writes (cs_crate w), cs_replies := [reply_packet [0xF1000001, MvlcReferenceWordCommand OR ucast u]]\<rparr>)"
proof -
  obtain x xs where xs: "writes = x # xs" using assms(1) by (cases writes) auto
  then have x: "lw_address x \<noteq> MvlcStackMemoryBegin + MvlcImmediateStackOffset" "lw_address x \<noteq> MvlcStackExecutionStatus0"
    using assms(2) by (auto simp: durable_local_def MvlcStackMemoryBegin_def MvlcImmediateStackOffset_def)
  have bytes: "local_write_bytes u writes = EncodeMvlcWordsLittleEndian (MvlcCommandBufferStart # (MvlcReferenceWordCommand OR ucast u)
      # write_words writes @ [MvlcCommandBufferEnd])"
    by (simp add: local_write_bytes_def write_words_def)
  show ?thesis
    unfolding bytes using write_words_no_reads [OF assms(1)] local_writes_of_words [of writes] x
    by (simp add: simulated_crate_def crate_send_def words_of_encode xs del: local_writes_of_words)
qed

lemma crate_local_write:
  assumes "writes \<noteq> []" "list_all (\<lambda>w. durable_local (lw_address w)) writes"
  shows "\<exists>b'. writeLocal simulated_crate writes b = (Inr (), b') \<and> cs_crate (snd b') = change_locals writes (cs_crate (snd b))"
proof -
  let ?u = "nextSuperReference (fst b)"
  let ?f = "frame_of [0xF1000001, MvlcReferenceWordCommand OR ucast ?u]"
  have "local_write_frames ?u [?f] = Some (Inr ())"
    using simulated_validations(1) [of ?u]
    by (simp add: ValidateMvlcStackUploadFrame_def ValidateMvlcLocalWriteFrame_def ValidateMatchingSuperFrame_def Let_def
        unrelated_frame_def rejected_frame_def accepted_frame_def split: if_splits)
  then show ?thesis
    using assms crate_local_send [OF assms, of ?u "snd b"]
    by (simp add: writeLocal_def WriteLocalRegisters_def local_write_request Let_def SendWords_def local_write_bytes_def
        at_least_once crate_flag ReceiveFrames_def crate_receive simulated_frames)
qed

interpretation sim_crate: responsive_crate simulated_crate cs_crate
proof -
  have kept: "cs_crate (snd (snd (readLocal simulated_crate addresses b))) = cs_crate (snd b)" for addresses b
  proof (cases "addresses = []")
    case True
    then show ?thesis by (simp add: readLocal_def ReadLocalRegisters_def BuildMvlcLocalRegisterBatchReadRequest_def)
  next
    case False
    have "cs_crate (snd (t_send simulated_crate (batch_read_bytes u addresses) w)) = cs_crate w" for u w
      by (simp add: crate_batch [OF False])
    moreover have "cs_crate (snd (t_receive simulated_crate n t w)) = cs_crate w" for n t w
      by (simp add: simulated_crate_def split: list.split)
    ultimately show ?thesis
      by (intro readLocal_I [where I = "\<lambda>w. cs_crate w = cs_crate (snd b)"]) (simp_all add: crate_flag)
  qed
  have empty_read: "readLocal simulated_crate [] b = (Inr vs, b') \<Longrightarrow> False" for b b' vs
    by (simp add: readLocal_def ReadLocalRegisters_def BuildMvlcLocalRegisterBatchReadRequest_def)
  have empty_write: "writeLocal simulated_crate [] b = (x, b') \<Longrightarrow> isl x \<and> snd b' = snd b" for b b' x
    by (auto simp: writeLocal_def WriteLocalRegisters_def local_write_request)
  show "responsive_crate simulated_crate cs_crate"
  proof unfold_locales
    fix base :: u32 and r v u x e y vs writes addresses w and b b' :: "crate_sim bus"
    note read = crate_read [of base r b] and wrote = crate_write [of base r v b]
    show "readRegister simulated_crate base r b = (x, b') \<Longrightarrow> cs_crate (snd b') = cs_crate (snd b)"
      using crate_read_any [of base r b] by auto
    show "module_base base \<Longrightarrow> readRegister simulated_crate base r b = (Inr v, b') \<Longrightarrow>
        v = mdpp_read (crate_modules (cs_crate (snd b)) base) r" using read by auto
    show "module_base base \<Longrightarrow> writeRegister simulated_crate base r v b = (Inr u, b') \<Longrightarrow>
        cs_crate (snd b') = change_module base r v (cs_crate (snd b))" using wrote by auto
    show "module_base base \<Longrightarrow> writeRegister simulated_crate base r v b = (Inl e, b') \<Longrightarrow>
        cs_crate (snd b') = cs_crate (snd b) \<or> cs_crate (snd b') = change_module base r v (cs_crate (snd b))" using wrote by auto
    show "readLocal simulated_crate addresses b = (y, b') \<Longrightarrow> cs_crate (snd b') = cs_crate (snd b)"
      using kept [of addresses b] by auto
    show "list_all durable_local addresses \<Longrightarrow> length addresses \<le> 16 \<Longrightarrow> readLocal simulated_crate addresses b = (Inr vs, b') \<Longrightarrow>
        vs = map (crate_locals (cs_crate (snd b))) addresses"
      using crate_local [of addresses b] empty_read [of b vs b'] by (cases "addresses = []") auto
    show "list_all (\<lambda>w. durable_local (lw_address w)) writes \<Longrightarrow> writeLocal simulated_crate writes b = (Inr u, b') \<Longrightarrow>
        cs_crate (snd b') = change_locals writes (cs_crate (snd b))"
      using crate_local_write [of writes b] empty_write [of b "Inr u" b'] by (cases "writes = []") auto
    show "list_all (\<lambda>w. durable_local (lw_address w)) writes \<Longrightarrow> writeLocal simulated_crate writes b = (Inl e, b') \<Longrightarrow>
        \<exists>n. cs_crate (snd b') = change_locals (take n writes) (cs_crate (snd b))"
      using crate_local_write [of writes b] empty_write [of b "Inl e" b'] by (cases "writes = []") auto
    show "cs_crate (snd (t_cancelled simulated_crate w)) = cs_crate w" "fst (t_cancelled simulated_crate w) = False"
      by (simp_all add: crate_flag)
    show "module_base base \<Longrightarrow> \<exists>v b'. readRegister simulated_crate base r b = (Inr v, b')" using read by blast
    show "module_base base \<Longrightarrow> \<exists>b'. writeRegister simulated_crate base r v b = (Inr (), b')" using wrote by blast
    show "addresses \<noteq> [] \<Longrightarrow> length addresses \<le> 16 \<Longrightarrow> list_all durable_local addresses \<Longrightarrow>
        \<exists>vs b'. readLocal simulated_crate addresses b = (Inr vs, b')" using crate_local [of addresses b] by blast
    show "writes \<noteq> [] \<Longrightarrow> list_all (\<lambda>w. durable_local (lw_address w)) writes \<Longrightarrow> \<exists>b'. writeLocal simulated_crate writes b = (Inr (), b')"
      using crate_local_write [of writes b] by blast
  qed
qed

end
