(* ===== verification/Bridge_Protocol.thy ===== *)
theory Bridge_Protocol
  imports Fidget_Prelude "HOL-Library.Monad_Syntax"
begin

text \<open>
  The bridge framing of \<^verbatim>\<open>core/BridgeProtocol.cpp\<close>: five header bytes (channel and a
  big-endian payload length) and a payload of at most 64 KiB, a hello frame first and only
  once, and a decoder that is fed the byte stream in arbitrary chunks. The decoder is a
  record with the members of \<^verbatim>\<open>BridgeFrameDecoder\<close>; \<open>Consume\<close> is its loop, one iteration
  per \<open>consume_step\<close>. It meets the interface \<open>chunked_decoder\<close>, and the big-endian
  length field the interface \<open>word_codec\<close>.
\<close>

subsection \<open>Channels and frames\<close>

text \<open>An enumeration with the underlying type \<^verbatim>\<open>uint8_t\<close>; a cast may produce any byte.\<close>

type_synonym BridgeChannel = u8

definition CommandChannel :: BridgeChannel where "CommandChannel = 0x00"
definition DataChannel :: BridgeChannel where "DataChannel = 0x01"
definition HelloChannel :: BridgeChannel where "HelloChannel = 0x7F"

definition BridgeProtocolVersion :: u8 where "BridgeProtocolVersion = 1"
definition BridgeFrameHeaderSize :: nat where "BridgeFrameHeaderSize = 5"
definition BridgeMaximumPayloadSize :: nat where "BridgeMaximumPayloadSize = 64 * 1024"

record BridgeFrame =
  bf_channel :: BridgeChannel
  bf_payload :: "byte list"

datatype bridge_error =
    UnknownChannel
  | PayloadTooLarge
  | PayloadPointerNull
  | HelloSizeWrong
  | UnsupportedVersion
  | InputPointerNull
  | HelloNotFirst
  | HelloTwice

record BridgeFrameDecodeResult =
  dr_success :: bool
  dr_frames :: "BridgeFrame list"
  dr_error :: "bridge_error option"

definition IsKnownBridgeChannel :: "BridgeChannel \<Rightarrow> bool" where
  "IsKnownBridgeChannel channel \<longleftrightarrow> channel = CommandChannel \<or> channel = DataChannel \<or> channel = HelloChannel"

definition LoadBigEndian32 :: "byte list \<Rightarrow> nat \<Rightarrow> u32 option" where
  "LoadBigEndian32 buffer source = do {
     b0 \<leftarrow> byte_at buffer source;
     b1 \<leftarrow> byte_at buffer (source + 1);
     b2 \<leftarrow> byte_at buffer (source + 2);
     b3 \<leftarrow> byte_at buffer (source + 3);
     Some (push_bit 24 (ucast b0) OR push_bit 16 (ucast b1) OR push_bit 8 (ucast b2) OR ucast b3)
   }"

definition AppendBigEndian32 :: "byte list \<Rightarrow> u32 \<Rightarrow> byte list" where
  "AppendBigEndian32 destination v = destination @ [ucast (drop_bit 24 v AND 0xFF), ucast (drop_bit 16 v AND 0xFF),
     ucast (drop_bit 8 v AND 0xFF), ucast (v AND 0xFF)]"

subsection \<open>Encoding\<close>

text \<open>The payload argument is a pointer (\<open>None\<close> is null) with a size.\<close>

definition EncodeBridgeFrame :: "BridgeChannel \<Rightarrow> byte list option \<Rightarrow> nat \<Rightarrow> bridge_error + byte list" where
  "EncodeBridgeFrame channel payload payloadSize =
    (if \<not> IsKnownBridgeChannel channel then Inl UnknownChannel
     else if payloadSize > BridgeMaximumPayloadSize then Inl PayloadTooLarge
     else if payloadSize > 0 \<and> payload = None then Inl PayloadPointerNull
     else if channel = HelloChannel \<and> payloadSize \<noteq> 1 then Inl HelloSizeWrong
     else if channel = HelloChannel \<and> the payload ! 0 \<noteq> BridgeProtocolVersion then Inl UnsupportedVersion
     else Inr (AppendBigEndian32 [channel] (of_nat payloadSize)
       @ (if payloadSize > 0 then take payloadSize (the payload) else [])))"

definition EncodeBridgeHelloFrame :: "bridge_error + byte list" where
  "EncodeBridgeHelloFrame = EncodeBridgeFrame HelloChannel (Some [BridgeProtocolVersion]) 1"

subsection \<open>The decoder\<close>

record BridgeFrameDecoder =
  header :: "byte list"
  headerSize :: nat
  channel :: BridgeChannel
  payloadSize :: nat
  payload :: "byte list"
  helloReceived :: bool
  failed :: bool
  dec_error :: "bridge_error option"

definition new_decoder :: BridgeFrameDecoder where
  "new_decoder = \<lparr>header = [0, 0, 0, 0, 0], headerSize = 0, channel = CommandChannel, payloadSize = 0, payload = [],
     helloReceived = False, failed = False, dec_error = None\<rparr>"

definition fresh_result :: BridgeFrameDecodeResult where
  "fresh_result = \<lparr>dr_success = True, dr_frames = [], dr_error = None\<rparr>"

text \<open>Each member function returns its Boolean with the decoder and the result it updated.\<close>

definition Fail :: "bridge_error \<Rightarrow> BridgeFrameDecoder \<Rightarrow> BridgeFrameDecodeResult
    \<Rightarrow> bool \<times> BridgeFrameDecoder \<times> BridgeFrameDecodeResult" where
  "Fail e d r = (False, d\<lparr>failed := True, dec_error := Some e\<rparr>, r\<lparr>dr_success := False, dr_error := Some e\<rparr>)"

definition BeginFrame :: "BridgeFrameDecoder \<Rightarrow> BridgeFrameDecodeResult
    \<Rightarrow> bool \<times> BridgeFrameDecoder \<times> BridgeFrameDecodeResult" where
  "BeginFrame d r =
    (let d = d\<lparr>channel := header d ! 0\<rparr> in
     if \<not> IsKnownBridgeChannel (channel d) then Fail UnknownChannel d r
     else (let d = d\<lparr>payloadSize := unat (the (LoadBigEndian32 (header d) 1))\<rparr> in
       if payloadSize d > BridgeMaximumPayloadSize then Fail PayloadTooLarge d r
       else if \<not> helloReceived d \<and> channel d \<noteq> HelloChannel then Fail HelloNotFirst d r
       else if helloReceived d \<and> channel d = HelloChannel then Fail HelloTwice d r
       else if channel d = HelloChannel \<and> payloadSize d \<noteq> 1 then Fail HelloSizeWrong d r
       else (True, d\<lparr>payload := []\<rparr>, r)))"

definition FinishFrame :: "BridgeFrameDecoder \<Rightarrow> BridgeFrameDecodeResult
    \<Rightarrow> bool \<times> BridgeFrameDecoder \<times> BridgeFrameDecodeResult" where
  "FinishFrame d r =
    (if channel d = HelloChannel \<and> payload d ! 0 \<noteq> BridgeProtocolVersion then Fail UnsupportedVersion d r
     else (let r = r\<lparr>dr_frames := dr_frames r @ [\<lparr>bf_channel = channel d, bf_payload = payload d\<rparr>]\<rparr>;
               d = (if channel d = HelloChannel then d\<lparr>helloReceived := True\<rparr> else d)
           in (True, d\<lparr>headerSize := 0, payloadSize := 0, payload := []\<rparr>, r)))"

text \<open>
  One iteration on the bytes not yet consumed: the Boolean says whether the loop goes on.
  \<open>consume_payload\<close> is the tail of the loop body, \<open>consume_header_end\<close> what follows the
  copying of header bytes.
\<close>

definition consume_payload :: "BridgeFrameDecoder \<Rightarrow> BridgeFrameDecodeResult \<Rightarrow> byte list
    \<Rightarrow> bool \<times> BridgeFrameDecoder \<times> BridgeFrameDecodeResult \<times> byte list" where
  "consume_payload d r rest =
    (let count = min (size_sub (payloadSize d) (length (payload d))) (length rest);
         d = d\<lparr>payload := payload d @ take count rest\<rparr>;
         rest = drop count rest
     in if length (payload d) = payloadSize d
        then (case FinishFrame d r of (go, d, r) \<Rightarrow> (go, d, r, rest))
        else (True, d, r, rest))"

definition consume_header_end :: "BridgeFrameDecoder \<Rightarrow> BridgeFrameDecodeResult \<Rightarrow> byte list
    \<Rightarrow> bool \<times> BridgeFrameDecoder \<times> BridgeFrameDecodeResult \<times> byte list" where
  "consume_header_end d r rest =
    (if headerSize d < BridgeFrameHeaderSize then (True, d, r, rest)
     else (case BeginFrame d r of (go, d, r) \<Rightarrow>
       if \<not> go then (False, d, r, rest)
       else if payloadSize d = 0 then (case FinishFrame d r of (go, d, r) \<Rightarrow> (go, d, r, rest))
       else consume_payload d r rest))"

definition consume_step :: "BridgeFrameDecoder \<Rightarrow> BridgeFrameDecodeResult \<Rightarrow> byte list
    \<Rightarrow> bool \<times> BridgeFrameDecoder \<times> BridgeFrameDecodeResult \<times> byte list" where
  "consume_step d r rest =
    (if headerSize d < BridgeFrameHeaderSize
     then (let count = min (BridgeFrameHeaderSize - headerSize d) (length rest);
               d = d\<lparr>header := take (headerSize d) (header d) @ take count rest @ drop (headerSize d + count) (header d),
                     headerSize := headerSize d + count\<rparr>
           in consume_header_end d r (drop count rest))
     else consume_payload d r rest)"

definition loop_measure :: "BridgeFrameDecoder \<Rightarrow> byte list \<Rightarrow> nat" where
  "loop_measure d rest = 2 * length rest + (if headerSize d < BridgeFrameHeaderSize then 0 else 1)"

lemma BeginFrame_sel:
  "BeginFrame d r = (go, d', r') \<Longrightarrow> headerSize d' = headerSize d"
  by (auto simp: BeginFrame_def Fail_def Let_def split: if_splits)

lemma FinishFrame_go: "FinishFrame d r = (True, d', r') \<Longrightarrow> headerSize d' = 0"
  by (auto simp: FinishFrame_def Fail_def Let_def split: if_splits)

lemma consume_payload_measure:
  assumes "consume_payload d r rest = (True, d', r', rest')" "rest \<noteq> [] \<or> length (payload d) = payloadSize d"
    and "\<not> headerSize d < BridgeFrameHeaderSize"
  shows "loop_measure d' rest' < loop_measure d rest"
proof (cases "length (payload d) = payloadSize d")
  case True
  then show ?thesis using assms
    by (auto simp: consume_payload_def loop_measure_def Let_def BridgeFrameHeaderSize_def split: prod.splits dest!: FinishFrame_go)
next
  case False
  then have "size_sub (payloadSize d) (length (payload d)) > 0" "length rest > 0"
    using assms(2) size_sub_pos [of "payloadSize d" "length (payload d)"] by auto
  then show ?thesis using assms(1,3)
    by (auto simp: consume_payload_def loop_measure_def Let_def BridgeFrameHeaderSize_def split: prod.splits if_splits dest!: FinishFrame_go)
qed

lemma consume_payload_rest:
  "consume_payload d r rest = (go, d', r', rest') \<Longrightarrow> length rest' \<le> length rest"
  by (auto simp: consume_payload_def Let_def split: prod.splits if_splits)

lemma consume_step_measure:
  assumes "consume_step d r rest = (True, d', r', rest')" "rest \<noteq> []"
  shows "loop_measure d' rest' < loop_measure d rest"
proof (cases "headerSize d < BridgeFrameHeaderSize")
  case False
  then show ?thesis using assms consume_payload_measure by (simp add: consume_step_def)
next
  case True
  then have c: "min (BridgeFrameHeaderSize - headerSize d) (length rest) > 0" using assms(2) by simp
  let ?c = "min (BridgeFrameHeaderSize - headerSize d) (length rest)"
  have "length rest' \<le> length (drop ?c rest)"
    using assms(1) True by (auto simp: consume_step_def consume_header_end_def Let_def split: if_splits prod.splits dest: consume_payload_rest)
  also have "\<dots> < length rest" using c assms(2) by simp
  finally show ?thesis using True by (simp add: loop_measure_def)
qed

function consume_loop :: "BridgeFrameDecoder \<Rightarrow> BridgeFrameDecodeResult \<Rightarrow> byte list
    \<Rightarrow> BridgeFrameDecoder \<times> BridgeFrameDecodeResult" where
  "consume_loop d r rest =
    (if rest = [] then (d, r)
     else (case consume_step d r rest of (go, d', r', rest') \<Rightarrow>
       if go then consume_loop d' r' rest' else (d', r')))"
  by pat_completeness auto
termination
  by (relation "measure (\<lambda>(d, r, rest). loop_measure d rest)") (auto dest: sym intro: consume_step_measure)

definition Consume :: "BridgeFrameDecoder \<Rightarrow> byte list option \<Rightarrow> nat \<Rightarrow> BridgeFrameDecoder \<times> BridgeFrameDecodeResult" where
  "Consume d data n =
    (if failed d then (d, fresh_result\<lparr>dr_success := False, dr_error := dec_error d\<rparr>)
     else if n > 0 \<and> data = None then snd (Fail InputPointerNull d fresh_result)
     else consume_loop d fresh_result (case data of None \<Rightarrow> [] | Some bytes \<Rightarrow> take n bytes))"

declare consume_loop.simps [simp del]

subsection \<open>The decoder invariant\<close>

definition decoder_ok :: "BridgeFrameDecoder \<Rightarrow> bool" where
  "decoder_ok d \<longleftrightarrow> length (header d) = 5 \<and> headerSize d \<le> 5
     \<and> (failed d \<or>
        (if headerSize d < 5 then payloadSize d = 0 \<and> payload d = []
         else length (payload d) < payloadSize d \<and> payloadSize d \<le> BridgeMaximumPayloadSize
           \<and> channel d = header d ! 0 \<and> LoadBigEndian32 (header d) 1 = Some (of_nat (payloadSize d))
           \<and> IsKnownBridgeChannel (channel d) \<and> (helloReceived d \<longleftrightarrow> channel d \<noteq> HelloChannel)
           \<and> (channel d = HelloChannel \<longrightarrow> payloadSize d = 1)))"

text \<open>What one byte does to a decoder that has not failed.\<close>

definition push_byte :: "BridgeFrameDecoder \<Rightarrow> BridgeFrameDecodeResult \<Rightarrow> byte \<Rightarrow> BridgeFrameDecoder \<times> BridgeFrameDecodeResult" where
  "push_byte d r x =
    (if headerSize d < 5
     then (let d = d\<lparr>header := (header d)[headerSize d := x], headerSize := headerSize d + 1\<rparr> in
       if headerSize d < 5 then (d, r)
       else (case BeginFrame d r of (go, d, r) \<Rightarrow>
         if go \<and> payloadSize d = 0 then snd (FinishFrame d r) else (d, r)))
     else (let d = d\<lparr>payload := payload d @ [x]\<rparr> in
       if length (payload d) = payloadSize d then snd (FinishFrame d r) else (d, r)))"

fun push_bytes :: "BridgeFrameDecoder \<Rightarrow> BridgeFrameDecodeResult \<Rightarrow> byte list \<Rightarrow> BridgeFrameDecoder \<times> BridgeFrameDecodeResult" where
  "push_bytes d r [] = (d, r)"
| "push_bytes d r (x # xs) = (case push_byte d r x of (d', r') \<Rightarrow> if failed d' then (d', r') else push_bytes d' r' xs)"

lemma load_be_defined: "length h = 5 \<Longrightarrow> \<exists>w. LoadBigEndian32 h 1 = Some w"
  by (simp add: LoadBigEndian32_def)

lemma BeginFrame_cases:
  assumes "length (header d) = 5" "\<not> failed d" "BeginFrame d r = (go, d', r')"
  shows "(go \<longleftrightarrow> \<not> failed d') \<and> header d' = header d \<and> headerSize d' = headerSize d \<and> helloReceived d' = helloReceived d
    \<and> dr_frames r' = dr_frames r
    \<and> (go \<longrightarrow> r' = r \<and> payload d' = [] \<and> payloadSize d' \<le> BridgeMaximumPayloadSize \<and> channel d' = header d ! 0
       \<and> LoadBigEndian32 (header d) 1 = Some (of_nat (payloadSize d'))
       \<and> IsKnownBridgeChannel (channel d') \<and> (helloReceived d \<longleftrightarrow> channel d' \<noteq> HelloChannel)
       \<and> (channel d' = HelloChannel \<longrightarrow> payloadSize d' = 1))"
proof -
  obtain w where "LoadBigEndian32 (header d) 1 = Some w" using load_be_defined [OF assms(1)] by blast
  moreover have "unat w = Suc 0 \<Longrightarrow> w = 1" for w :: u32 by (simp add: word_unat_eq_iff)
  ultimately show ?thesis using assms(2,3) by (auto simp: BeginFrame_def Fail_def Let_def split: if_splits)
qed

lemma FinishFrame_cases:
  assumes "\<not> failed d" "FinishFrame d r = (go, d', r')"
  shows "(go \<longleftrightarrow> \<not> failed d') \<and> header d' = header d
    \<and> (go \<longrightarrow> headerSize d' = 0 \<and> payloadSize d' = 0 \<and> payload d' = []
        \<and> helloReceived d' = (helloReceived d \<or> channel d = HelloChannel)
        \<and> (channel d = HelloChannel \<longrightarrow> payload d ! 0 = BridgeProtocolVersion)
        \<and> dr_frames r' = dr_frames r @ [\<lparr>bf_channel = channel d, bf_payload = payload d\<rparr>])
    \<and> (\<not> go \<longrightarrow> headerSize d' = headerSize d \<and> dr_frames r' = dr_frames r)"
  using assms by (auto simp: FinishFrame_def Fail_def Let_def split: if_splits)

lemma push_byte_ok:
  assumes "decoder_ok d" "\<not> failed d" "push_byte d r x = (d', r')"
  shows "decoder_ok d'"
proof (cases "headerSize d < 5")
  case True
  let ?d = "d\<lparr>header := (header d)[headerSize d := x], headerSize := headerSize d + 1\<rparr>"
  obtain go d1 r1 where b: "BeginFrame ?d r = (go, d1, r1)" by (cases "BeginFrame ?d r")
  have d: "length (header ?d) = 5" "\<not> failed ?d" using assms by (simp_all add: decoder_ok_def)
  note bc = BeginFrame_cases [OF d b]
  obtain go2 d2 r2 where f: "FinishFrame d1 r1 = (go2, d2, r2)" by (cases "FinishFrame d1 r1")
  consider "headerSize d < 4" | "headerSize d = 4" "\<not> (go \<and> payloadSize d1 = 0)" | "headerSize d = 4" "go" "payloadSize d1 = 0"
    using True by linarith
  then show ?thesis
  proof cases
    case 1
    then show ?thesis using assms by (auto simp: push_byte_def decoder_ok_def)
  next
    case 2
    then have "d' = d1" using assms(3) b by (auto simp: push_byte_def)
    then show ?thesis using 2 bc d(1) by (auto simp: decoder_ok_def)
  next
    case 3
    then have "d' = d2" using assms(3) b f by (auto simp: push_byte_def)
    then show ?thesis using 3 bc d(1) FinishFrame_cases [OF _ f] by (cases go2) (auto simp: decoder_ok_def)
  qed
next
  case False
  let ?d = "d\<lparr>payload := payload d @ [x]\<rparr>"
  obtain go2 d2 r2 where f: "FinishFrame ?d r = (go2, d2, r2)" by (cases "FinishFrame ?d r")
  note fc = FinishFrame_cases [OF _ f]
  show ?thesis using False assms f fc
    by (cases go2) (auto simp: push_byte_def decoder_ok_def Let_def split: if_splits)
qed

lemma step_header_byte:
  assumes "decoder_ok d" "\<not> failed d" "headerSize d < 4" "xs \<noteq> []"
  shows "consume_step d r (x # xs)
    = consume_step (d\<lparr>header := (header d)[headerSize d := x], headerSize := headerSize d + 1\<rparr>) r xs"
proof -
  let ?hs = "headerSize d" let ?c = "min (4 - ?hs) (length xs)"
  have "min (5 - ?hs) (length (x # xs)) = Suc ?c" "min (5 - Suc ?hs) (length xs) = ?c"
    using assms(3) by (auto simp: min_def)
  moreover have "take (Suc ?hs) ((header d)[?hs := x]) = take ?hs (header d) @ [x]"
    using assms by (simp add: decoder_ok_def take_Suc_conv_app_nth)
  moreover have "drop (Suc ?hs + ?c) ((header d)[?hs := x]) = drop (?hs + Suc ?c) (header d)" by simp
  ultimately show ?thesis
    using assms(3) by (simp add: consume_step_def BridgeFrameHeaderSize_def Let_def)
qed

lemma step_payload_byte:
  assumes "Suc (length (payload d)) < payloadSize d" "xs \<noteq> []"
  shows "consume_payload d r (x # xs) = consume_payload (d\<lparr>payload := payload d @ [x]\<rparr>) r xs"
proof -
  let ?k = "payloadSize d - Suc (length (payload d))"
  have "min (payloadSize d - length (payload d)) (length (x # xs)) = Suc (min ?k (length xs))"
    using assms(1) by (auto simp: min_def)
  with assms(1) show ?thesis by (simp add: consume_payload_def Let_def)
qed

lemma consume_loop_Nil [simp]: "consume_loop d r [] = (d, r)"
  by (simp add: consume_loop.simps)

text \<open>The three situations a byte can meet: inside the header, completing it, in the payload.\<close>

abbreviation pushes :: "BridgeFrameDecoder \<Rightarrow> BridgeFrameDecodeResult \<Rightarrow> byte \<Rightarrow> byte list \<Rightarrow> bool" where
  "pushes d r x xs \<equiv> consume_loop d r (x # xs)
     = (case push_byte d r x of (d', r') \<Rightarrow> if failed d' then (d', r') else consume_loop d' r' xs)"

lemma loop_push_header:
  assumes "decoder_ok d" "\<not> failed d" "headerSize d < 4"
  shows "pushes d r x xs"
proof (cases "xs = []")
  case True
  with assms show ?thesis
    by (subst consume_loop.simps)
      (simp add: consume_step_def consume_header_end_def push_byte_def BridgeFrameHeaderSize_def Let_def decoder_ok_def
        upd_conv_take_nth_drop)
next
  case False
  with assms show ?thesis
    by (subst (1 2) consume_loop.simps) (simp add: step_header_byte push_byte_def)
qed

lemma loop_push_header_last:
  assumes "decoder_ok d" "\<not> failed d" "headerSize d = 4"
  shows "pushes d r x xs"
proof -
  let ?d = "d\<lparr>header := (header d)[headerSize d := x], headerSize := headerSize d + 1\<rparr>"
  have h: "take 4 (header d) @ x # drop 5 (header d) = (header d)[4 := x]"
    using assms(1) by (simp add: decoder_ok_def upd_conv_take_nth_drop)
  obtain go d1 r1 where b: "BeginFrame ?d r = (go, d1, r1)" by (cases "BeginFrame ?d r")
  have d: "length (header ?d) = 5" "\<not> failed ?d" using assms by (simp_all add: decoder_ok_def)
  note bc = BeginFrame_cases [OF d b]
  obtain go2 d2 r2 where f: "FinishFrame d1 r1 = (go2, d2, r2)" by (cases "FinishFrame d1 r1")
  have step: "consume_step d r (x # xs) = (if \<not> go then (False, d1, r1, xs)
      else if payloadSize d1 = 0 then (go2, d2, r2, xs) else consume_payload d1 r1 xs)"
    using assms(3) b f h by (simp add: consume_step_def consume_header_end_def BridgeFrameHeaderSize_def Let_def)
  have push: "push_byte d r x = (if go \<and> payloadSize d1 = 0 then (d2, r2) else (d1, r1))"
    using assms(3) b f by (simp add: push_byte_def)
  show ?thesis
  proof (cases "go \<and> payloadSize d1 \<noteq> 0")
    case True
    then have "xs = [] \<Longrightarrow> consume_payload d1 r1 xs = (True, d1, r1, [])"
      using bc by (simp add: consume_payload_def Let_def)
    moreover have "consume_step d1 r1 xs = consume_payload d1 r1 xs"
      using True assms(3) bc by (simp add: consume_step_def BridgeFrameHeaderSize_def)
    ultimately show ?thesis
      using True push step bc by (cases "xs = []") (subst consume_loop.simps, simp)+
  next
    case False
    then show ?thesis
      using push step bc FinishFrame_cases [OF _ f] by (subst consume_loop.simps) auto
  qed
qed

lemma loop_push_payload:
  assumes "decoder_ok d" "\<not> failed d" "headerSize d = 5"
  shows "pushes d r x xs"
proof -
  let ?d = "d\<lparr>payload := payload d @ [x]\<rparr>"
  obtain go2 d2 r2 where f: "FinishFrame ?d r = (go2, d2, r2)" by (cases "FinishFrame ?d r")
  have fc: "go2 \<longleftrightarrow> \<not> failed d2" using FinishFrame_cases [OF _ f] assms(2) by simp
  have lt: "length (payload d) < payloadSize d" using assms by (simp add: decoder_ok_def)
  have step: "consume_step d r xs = consume_payload d r xs" "consume_step ?d r xs = consume_payload ?d r xs" for xs
    using assms(3) by (simp_all add: consume_step_def BridgeFrameHeaderSize_def)
  show ?thesis
  proof (cases "Suc (length (payload d)) = payloadSize d")
    case True
    then have "payloadSize d - length (payload d) = 1" by simp
    then have "consume_payload d r (x # xs) = (go2, d2, r2, xs)"
      using f lt True by (simp add: consume_payload_def Let_def)
    then show ?thesis using assms(3) True f fc step by (subst consume_loop.simps) (simp add: push_byte_def)
  next
    case False
    then have more: "Suc (length (payload d)) < payloadSize d" using lt by simp
    have one: "consume_payload d r [x] = (True, ?d, r, [])"
      using more by (simp add: consume_payload_def Let_def min_def)
    show ?thesis
      using assms(2,3) more False step step_payload_byte [OF more] one
      by (cases "xs = []") (subst consume_loop.simps, simp add: push_byte_def,
          subst (1 2) consume_loop.simps, simp add: push_byte_def)
  qed
qed

lemma loop_push_byte: "decoder_ok d \<Longrightarrow> \<not> failed d \<Longrightarrow> pushes d r x xs"
proof -
  assume d: "decoder_ok d" "\<not> failed d"
  then consider "headerSize d < 4" | "headerSize d = 4" | "headerSize d = 5"
    unfolding decoder_ok_def by linarith
  then show ?thesis
  proof cases
    case 1
    with d show ?thesis by (rule loop_push_header)
  next
    case 2
    with d show ?thesis by (rule loop_push_header_last)
  next
    case 3
    with d show ?thesis by (rule loop_push_payload)
  qed
qed

lemma consume_loop_push_bytes:
  "decoder_ok d \<Longrightarrow> \<not> failed d \<Longrightarrow> consume_loop d r xs = push_bytes d r xs"
proof (induction xs arbitrary: d r)
  case (Cons x xs)
  then show ?case by (auto simp: loop_push_byte push_byte_ok split: prod.split)
qed simp

subsection \<open>Chunks\<close>

lemma push_byte_additive:
  "fst (push_byte d r x) = fst (push_byte d fresh_result x)
   \<and> dr_frames (snd (push_byte d r x)) = dr_frames r @ dr_frames (snd (push_byte d fresh_result x))"
  by (auto simp: push_byte_def BeginFrame_def FinishFrame_def Fail_def fresh_result_def Let_def)

lemma push_bytes_additive:
  "fst (push_bytes d r xs) = fst (push_bytes d r' xs)
   \<and> dr_frames (snd (push_bytes d r xs)) = dr_frames r @ dr_frames (snd (push_bytes d fresh_result xs))"
proof (induction xs arbitrary: d r r')
  case (Cons x xs)
  obtain d1 r1 where 1: "push_byte d r x = (d1, r1)" by (cases "push_byte d r x")
  obtain d2 r2 where 2: "push_byte d r' x = (d2, r2)" by (cases "push_byte d r' x")
  obtain d3 r3 where 3: "push_byte d fresh_result x = (d3, r3)" by (cases "push_byte d fresh_result x")
  have same: "d1 = d3" "d2 = d3" "dr_frames r1 = dr_frames r @ dr_frames r3"
    using push_byte_additive [of d r x] push_byte_additive [of d r' x] 1 2 3 by auto
  show ?case
    using 1 2 3 same Cons.IH [of d3 r1 r2] Cons.IH [of d3 r3 r3] by simp
qed (simp add: fresh_result_def)

lemma push_bytes_append:
  "push_bytes d r (xs @ ys) = (case push_bytes d r xs of (d', r') \<Rightarrow> if failed d' then (d', r') else push_bytes d' r' ys)"
  if "\<not> failed d"
  using that by (induction xs arbitrary: d r) (auto split: prod.split)

lemma push_bytes_ok: "decoder_ok d \<Longrightarrow> \<not> failed d \<Longrightarrow> decoder_ok (fst (push_bytes d r xs))"
proof (induction xs arbitrary: d r)
  case (Cons x xs)
  then show ?case using push_byte_ok [of d r x] by (auto split: prod.split)
qed simp

lemma push_byte_error:
  "\<not> failed d \<Longrightarrow> failed (fst (push_byte d r x)) \<Longrightarrow> dec_error (fst (push_byte d r x)) \<noteq> None"
  by (auto simp: push_byte_def BeginFrame_def FinishFrame_def Fail_def Let_def split: if_splits)

lemma push_bytes_error:
  "\<not> failed d \<Longrightarrow> failed (fst (push_bytes d r xs)) \<Longrightarrow> dec_error (fst (push_bytes d r xs)) \<noteq> None"
proof (induction xs arbitrary: d r)
  case (Cons x xs)
  then show ?case using push_byte_error [of d r x] by (auto split: prod.splits if_splits)
qed simp

definition bridge_feed :: "BridgeFrameDecoder \<times> BridgeFrame list \<Rightarrow> byte list \<Rightarrow> BridgeFrameDecoder \<times> BridgeFrame list" where
  "bridge_feed s bytes = (case Consume (fst s) (Some bytes) (length bytes) of (d, r) \<Rightarrow> (d, snd s @ dr_frames r))"

lemma bridge_feed_eq:
  "decoder_ok d \<Longrightarrow> bridge_feed (d, fs) bytes =
    (if failed d then (d, fs) else (fst (push_bytes d fresh_result bytes), fs @ dr_frames (snd (push_bytes d fresh_result bytes))))"
  by (auto simp: bridge_feed_def Consume_def consume_loop_push_bytes fresh_result_def split: prod.split)

interpretation bridge: chunked_decoder bridge_feed "\<lambda>s. decoder_ok (fst s)"
proof unfold_locales
  fix s :: "BridgeFrameDecoder \<times> BridgeFrame list" and xs ys :: "byte list"
  obtain d fs where s: "s = (d, fs)" by (cases s)
  assume ok: "decoder_ok (fst s)"
  then show "bridge_feed s [] = s" by (simp add: s bridge_feed_eq fresh_result_def)
  show "decoder_ok (fst (bridge_feed s xs))" using ok by (simp add: s bridge_feed_eq push_bytes_ok)
  show "bridge_feed s (xs @ ys) = bridge_feed (bridge_feed s xs) ys"
  proof (cases "failed d")
    case False
    obtain d1 r1 where 1: "push_bytes d fresh_result xs = (d1, r1)" by (cases "push_bytes d fresh_result xs")
    then have "decoder_ok d1" using ok False push_bytes_ok [of d fresh_result xs] by (simp add: s)
    with 1 ok False show ?thesis
      using push_bytes_additive [of d1 r1 ys fresh_result] by (simp add: s bridge_feed_eq push_bytes_append)
  qed (use ok in \<open>simp add: s bridge_feed_eq\<close>)
qed

lemma new_decoder_ok [simp]: "decoder_ok new_decoder" "\<not> failed new_decoder"
  by (simp_all add: decoder_ok_def new_decoder_def)

subsection \<open>The length field\<close>

lemma load_be_iff: "(\<exists>w. LoadBigEndian32 buf off = Some w) \<longleftrightarrow> off + 4 \<le> length buf"
  by (auto simp: LoadBigEndian32_def byte_at_def)

lemma be_or_swap: "push_bit 24 (a :: u32) OR push_bit 16 b OR push_bit 8 c OR d
    = d OR push_bit 8 c OR push_bit 16 b OR push_bit 24 a"
  by (simp only: or.assoc or.commute or.left_commute)

interpretation be: word_codec "AppendBigEndian32 []" LoadBigEndian32
proof unfold_locales
  fix w :: u32 and pre post buf :: "byte list" and off :: nat
  show "length (AppendBigEndian32 [] w) = 4" by (simp add: AppendBigEndian32_def)
  show "LoadBigEndian32 (pre @ AppendBigEndian32 [] w @ post) (length pre) = Some w"
    by (simp add: LoadBigEndian32_def AppendBigEndian32_def byte_at_def nth_append be_or_swap word_bytes_join)
  show "off + 4 \<le> length buf \<Longrightarrow> \<exists>w. LoadBigEndian32 buf off = Some w" by (simp only: load_be_iff)
  show "length buf < off + 4 \<Longrightarrow> LoadBigEndian32 buf off = None"
    using load_be_iff [of buf off] by (cases "LoadBigEndian32 buf off") auto
  assume load: "LoadBigEndian32 buf off = Some w"
  then have len: "off + 4 \<le> length buf" using load_be_iff by blast
  then have bytes: "take 4 (drop off buf) = [buf ! off, buf ! (off + 1), buf ! (off + 2), buf ! (off + 3)]"
    by (intro nth_equalityI) (auto simp: nth_append less_Suc_eq numeral_eq_Suc)
  have w: "w = ucast (buf ! (off + 3)) OR push_bit 8 (ucast (buf ! (off + 2))) OR push_bit 16 (ucast (buf ! (off + 1)))
      OR push_bit 24 (ucast (buf ! off))"
    using load len by (simp add: LoadBigEndian32_def be_or_swap)
  show "take 4 (drop off buf) = AppendBigEndian32 [] w"
    unfolding bytes w by (simp only: AppendBigEndian32_def word_bytes_split append_Nil)
qed

lemma header_bytes:
  assumes "length h = 5" "LoadBigEndian32 h 1 = Some w"
  shows "h = h ! 0 # AppendBigEndian32 [] w"
proof -
  have "h = h ! 0 # drop 1 h" using assms(1) by (cases h) auto
  moreover have "take 4 (drop 1 h) = drop 1 h" using assms(1) by simp
  ultimately show ?thesis using be.load_bytes [OF assms(2)] by simp
qed

subsection \<open>The frames of a stream\<close>

definition frame_bytes :: "BridgeFrame \<Rightarrow> byte list" where
  "frame_bytes f = bf_channel f # AppendBigEndian32 [] (of_nat (length (bf_payload f))) @ bf_payload f"

definition frame_valid :: "BridgeFrame \<Rightarrow> bool" where
  "frame_valid f \<longleftrightarrow> IsKnownBridgeChannel (bf_channel f) \<and> length (bf_payload f) \<le> BridgeMaximumPayloadSize
     \<and> (bf_channel f = HelloChannel \<longrightarrow> bf_payload f = [BridgeProtocolVersion])"

lemma EncodeBridgeFrame_iff:
  "EncodeBridgeFrame (bf_channel f) (Some (bf_payload f)) (length (bf_payload f)) = Inr bytes
     \<longleftrightarrow> frame_valid f \<and> bytes = frame_bytes f"
proof -
  have "bf_payload f \<noteq> [] \<Longrightarrow> bf_payload f ! 0 = hd (bf_payload f)" by (simp add: hd_conv_nth)
  then show ?thesis
    by (cases "bf_payload f") (auto simp: EncodeBridgeFrame_def frame_valid_def frame_bytes_def AppendBigEndian32_def)
qed

text \<open>Hello first, and only once.\<close>

fun hello_ordered :: "bool \<Rightarrow> BridgeFrame list \<Rightarrow> bool" where
  "hello_ordered seen [] = True"
| "hello_ordered seen (f # fs) = ((bf_channel f = HelloChannel) \<noteq> seen \<and> hello_ordered True fs)"

lemma hello_ordered_append:
  "hello_ordered seen (xs @ ys) \<longleftrightarrow> hello_ordered seen xs \<and> hello_ordered (seen \<or> xs \<noteq> []) ys"
  by (induction xs arbitrary: seen) auto

definition pending :: "BridgeFrameDecoder \<Rightarrow> byte list" where
  "pending d = (if headerSize d < 5 then take (headerSize d) (header d) else header d @ payload d)"

text \<open>The stream consumed so far is the frames delivered and the bytes pending.\<close>

definition delivers :: "BridgeFrameDecoder \<Rightarrow> byte list \<Rightarrow> BridgeFrame list \<Rightarrow> BridgeFrameDecoder \<Rightarrow> bool" where
  "delivers d xs fs d' \<longleftrightarrow> list_all frame_valid fs \<and> hello_ordered (helloReceived d) fs
     \<and> (if failed d' then \<exists>rest. pending d @ xs = concat (map frame_bytes fs) @ rest
        else pending d @ xs = concat (map frame_bytes fs) @ pending d' \<and> (helloReceived d' \<longleftrightarrow> helloReceived d \<or> fs \<noteq> []))"

lemma FinishFrame_delivers:
  assumes "length (header d) = 5" "LoadBigEndian32 (header d) 1 = Some (of_nat (payloadSize d))"
    and "length (payload d) = payloadSize d" "payloadSize d \<le> BridgeMaximumPayloadSize"
    and "channel d = header d ! 0" "IsKnownBridgeChannel (channel d)"
    and "helloReceived d \<longleftrightarrow> channel d \<noteq> HelloChannel" "channel d = HelloChannel \<longrightarrow> payloadSize d = 1"
    and "\<not> failed d" "FinishFrame d r = (go, d', r')"
  shows "\<exists>fs. dr_frames r' = dr_frames r @ fs \<and> list_all frame_valid fs \<and> hello_ordered (helloReceived d) fs
    \<and> (failed d' \<longrightarrow> fs = []) \<and> (\<not> failed d' \<longrightarrow> header d @ payload d = concat (map frame_bytes fs) @ pending d'
      \<and> (helloReceived d' \<longleftrightarrow> helloReceived d \<or> fs \<noteq> []))"
proof (cases go)
  case True
  let ?f = "\<lparr>bf_channel = channel d, bf_payload = payload d\<rparr>"
  note fc = FinishFrame_cases [OF assms(9,10)]
  have "frame_bytes ?f = header d @ payload d"
    using header_bytes [OF assms(1,2)] assms(3,5) by (simp add: frame_bytes_def)
  moreover have "frame_valid ?f"
    using True fc assms(3,4,6,8) by (auto simp: frame_valid_def length_Suc_conv)
  ultimately show ?thesis using True fc assms(7) by (intro exI [of _ "[?f]"]) (auto simp: pending_def)
qed (use FinishFrame_cases [OF assms(9,10)] in \<open>auto intro: exI [of _ "[]"]\<close>)

lemma push_byte_delivers:
  assumes "decoder_ok d" "\<not> failed d" "push_byte d r x = (d', r')"
  shows "\<exists>fs. dr_frames r' = dr_frames r @ fs \<and> delivers d [x] fs d'"
proof (cases "headerSize d < 5")
  case True
  let ?d = "d\<lparr>header := (header d)[headerSize d := x], headerSize := headerSize d + 1\<rparr>"
  have pend: "pending d @ [x] = take (Suc (headerSize d)) ((header d)[headerSize d := x])"
    using assms(1) True by (simp add: pending_def decoder_ok_def take_Suc_conv_app_nth)
  obtain go d1 r1 where b: "BeginFrame ?d r = (go, d1, r1)" by (cases "BeginFrame ?d r")
  have d: "length (header ?d) = 5" "\<not> failed ?d" using assms by (simp_all add: decoder_ok_def)
  note bc = BeginFrame_cases [OF d b]
  obtain go2 d2 r2 where f: "FinishFrame d1 r1 = (go2, d2, r2)" by (cases "FinishFrame d1 r1")
  consider "headerSize d < 4" | "headerSize d = 4" "\<not> (go \<and> payloadSize d1 = 0)" | "headerSize d = 4" "go" "payloadSize d1 = 0"
    using True by linarith
  then show ?thesis
  proof cases
    case 1
    then have "d' = ?d" "r' = r" using assms(3) by (simp_all add: push_byte_def)
    then show ?thesis using 1 pend assms(2) by (intro exI [of _ "[]"]) (simp add: delivers_def pending_def)
  next
    case 2
    then have "d' = d1" "r' = r1" using assms(3) b by (auto simp: push_byte_def)
    then show ?thesis using 2 bc pend d(1) by (intro exI [of _ "[]"]) (auto simp: delivers_def pending_def)
  next
    case 3
    then have e: "d' = d2" "r' = r2" using assms(3) b f by (auto simp: push_byte_def)
    have "header d1 = pending d @ [x]" "payload d1 = []" "helloReceived d1 = helloReceived d" "dr_frames r1 = dr_frames r"
      using 3 bc pend d(1) by auto
    moreover obtain fs where "dr_frames r2 = dr_frames r1 @ fs" "list_all frame_valid fs" "hello_ordered (helloReceived d1) fs"
        "failed d2 \<longrightarrow> fs = []" "\<not> failed d2 \<longrightarrow> header d1 @ payload d1 = concat (map frame_bytes fs) @ pending d2
          \<and> (helloReceived d2 \<longleftrightarrow> helloReceived d1 \<or> fs \<noteq> [])"
      using FinishFrame_delivers [OF _ _ _ _ _ _ _ _ _ f] 3 bc d(1) by auto
    ultimately show ?thesis unfolding e by (intro exI [of _ fs]) (simp add: delivers_def)
  qed
next
  case False
  let ?d = "d\<lparr>payload := payload d @ [x]\<rparr>"
  have hs: "headerSize d = 5" using False assms(1) by (simp add: decoder_ok_def)
  obtain go2 d2 r2 where f: "FinishFrame ?d r = (go2, d2, r2)" by (cases "FinishFrame ?d r")
  show ?thesis
  proof (cases "Suc (length (payload d)) = payloadSize d")
    case True
    then have e: "d' = d2" "r' = r2" using assms(3) hs f by (auto simp: push_byte_def)
    have "pending d @ [x] = header d @ payload d @ [x]" using hs by (simp add: pending_def)
    moreover obtain fs where "dr_frames r2 = dr_frames r @ fs" "list_all frame_valid fs" "hello_ordered (helloReceived d) fs"
        "failed d2 \<longrightarrow> fs = []" "\<not> failed d2 \<longrightarrow> header ?d @ payload ?d = concat (map frame_bytes fs) @ pending d2
          \<and> (helloReceived d2 \<longleftrightarrow> helloReceived d \<or> fs \<noteq> [])"
      using FinishFrame_delivers [OF _ _ _ _ _ _ _ _ _ f] True assms(1,2) hs by (auto simp: decoder_ok_def)
    ultimately show ?thesis unfolding e by (intro exI [of _ fs]) (simp add: delivers_def)
  next
    case no: False
    then have "d' = ?d" "r' = r" using assms(3) hs by (simp_all add: push_byte_def)
    then show ?thesis using hs assms(2) by (intro exI [of _ "[]"]) (simp add: delivers_def pending_def)
  qed
qed

lemma push_bytes_delivers:
  assumes "decoder_ok d" "\<not> failed d" "push_bytes d r xs = (d', r')"
  shows "\<exists>fs. dr_frames r' = dr_frames r @ fs \<and> delivers d xs fs d'"
  using assms
proof (induction xs arbitrary: d r)
  case Nil
  then show ?case by (intro exI [of _ "[]"]) (simp add: delivers_def)
next
  case (Cons x xs)
  obtain d1 r1 where 1: "push_byte d r x = (d1, r1)" by (cases "push_byte d r x")
  obtain fs where fs: "dr_frames r1 = dr_frames r @ fs" "delivers d [x] fs d1"
    using push_byte_delivers [OF Cons.prems(1,2) 1] by blast
  show ?case
  proof (cases "failed d1")
    case True
    then have "d' = d1" "r' = r1" using Cons.prems(3) 1 by simp_all
    moreover obtain rest where rest: "pending d @ [x] = concat (map frame_bytes fs) @ rest"
      using fs(2) True by (auto simp: delivers_def)
    have "\<exists>rest. pending d @ x # xs = concat (map frame_bytes fs) @ rest"
      using arg_cong [OF rest, of "\<lambda>ys. ys @ xs"] by (intro exI [of _ "rest @ xs"]) simp
    ultimately show ?thesis using fs True by (intro exI [of _ fs]) (auto simp: delivers_def)
  next
    case False
    then have rest: "push_bytes d1 r1 xs = (d', r')" using Cons.prems(3) 1 by simp
    obtain gs where gs: "dr_frames r' = dr_frames r1 @ gs" "delivers d1 xs gs d'"
      using Cons.IH [OF push_byte_ok [OF Cons.prems(1,2) 1] False rest] by blast
    have split: "pending d @ x # xs = concat (map frame_bytes fs) @ pending d1 @ xs"
      using fs(2) False unfolding delivers_def by (metis append.assoc append_Cons append_Nil)
    show ?thesis using fs gs False
      by (intro exI [of _ "fs @ gs"]) (auto simp: delivers_def split hello_ordered_append)
  qed
qed

text \<open>A decoder between two frames.\<close>

definition idle :: "BridgeFrameDecoder \<Rightarrow> bool" where
  "idle d \<longleftrightarrow> decoder_ok d \<and> \<not> failed d \<and> headerSize d = 0"

lemma step_whole_frame:
  assumes "idle d" "frame_valid f" "(bf_channel f = HelloChannel) \<noteq> helloReceived d"
  shows "\<exists>d'. consume_step d r (frame_bytes f) = (True, d', r\<lparr>dr_frames := dr_frames r @ [f]\<rparr>, [])
    \<and> headerSize d' = 0 \<and> \<not> failed d' \<and> helloReceived d'"
proof -
  let ?h = "bf_channel f # AppendBigEndian32 [] (of_nat (length (bf_payload f)))"
  have len: "length (AppendBigEndian32 [] w) = 4" for w by (rule be.store_length)
  have size: "unat (of_nat (length (bf_payload f)) :: u32) = length (bf_payload f)"
    using assms(2) by (simp add: frame_valid_def BridgeMaximumPayloadSize_def unat_of_nat)
  have load: "LoadBigEndian32 (c # AppendBigEndian32 [] w) (Suc 0) = Some w" for c w
    using be.load_store [of "[c]" w "[]"] by simp
  have h: "take 5 (frame_bytes f) @ drop 5 (header d) = ?h" "drop 5 (frame_bytes f) = bf_payload f"
    using assms(1) len by (simp_all add: frame_bytes_def idle_def decoder_ok_def)
  have n: "min 5 (length (frame_bytes f)) = 5" using len by (simp add: frame_bytes_def)
  have hello: "bf_channel f = HelloChannel \<Longrightarrow> bf_payload f = [BridgeProtocolVersion]" using assms(2) by (simp add: frame_valid_def)
  have f: "\<lparr>bf_channel = bf_channel f, bf_payload = bf_payload f\<rparr> = f" by simp
  show ?thesis
    using assms hello
    by (cases "bf_payload f = []")
      (auto simp: consume_step_def consume_header_end_def BeginFrame_def FinishFrame_def consume_payload_def Let_def
        BridgeFrameHeaderSize_def idle_def n h load size frame_valid_def f [simplified])
qed

lemma push_frames:
  assumes "idle d" "list_all frame_valid fs" "hello_ordered (helloReceived d) fs"
  shows "\<exists>d' r'. push_bytes d r (concat (map frame_bytes fs)) = (d', r') \<and> idle d' \<and> dr_frames r' = dr_frames r @ fs"
  using assms
proof (induction fs arbitrary: d r)
  case (Cons f fs)
  obtain d1 where d1: "consume_step d r (frame_bytes f) = (True, d1, r\<lparr>dr_frames := dr_frames r @ [f]\<rparr>, [])"
      "headerSize d1 = 0" "\<not> failed d1" "helloReceived d1"
    using step_whole_frame [of d f r] Cons.prems by auto
  let ?r1 = "r\<lparr>dr_frames := dr_frames r @ [f]\<rparr>"
  have "frame_bytes f \<noteq> []" by (simp add: frame_bytes_def)
  then have "consume_loop d r (frame_bytes f) = (d1, ?r1)" using d1(1) by (subst consume_loop.simps) simp
  then have push: "push_bytes d r (frame_bytes f) = (d1, ?r1)"
    using Cons.prems(1) consume_loop_push_bytes [of d r "frame_bytes f"] by (simp add: idle_def)
  have "idle d1" using d1 push push_bytes_ok [of d r "frame_bytes f"] Cons.prems(1) by (simp add: idle_def)
  from Cons.IH [OF this, of ?r1] Cons.prems d1(4) obtain d' r'
    where "push_bytes d1 ?r1 (concat (map frame_bytes fs)) = (d', r')" "idle d'" "dr_frames r' = dr_frames ?r1 @ fs" by auto
  then show ?case using push d1(3) Cons.prems(1) by (auto simp: push_bytes_append idle_def)
qed simp

subsection \<open>The properties of the bridge framing\<close>

text \<open>
  (C38) How the transport cuts the byte stream does not matter: any sequence of reads leaves
  the decoder in the state, and has delivered the frames, of one read of all the bytes.
\<close>
theorem bridge_chunking_irrelevant:
  "foldl bridge_feed (new_decoder, []) chunks = bridge_feed (new_decoder, []) (concat chunks)"
  by (rule bridge.feed_concat) simp

text \<open>
  (C21) Whatever bytes arrive, every frame the decoder has delivered is valid, a hello with the
  supported version comes first and only once, and the encodings of the delivered frames are
  a prefix of the stream; unless the stream was rejected, only the bytes of one unfinished
  frame follow them.
\<close>
theorem bridge_decoder_sound:
  assumes "foldl bridge_feed (new_decoder, []) chunks = (d, fs)"
  shows "list_all frame_valid fs \<and> hello_ordered False fs
    \<and> (\<exists>rest. concat chunks = concat (map frame_bytes fs) @ rest \<and> (\<not> failed d \<longrightarrow> rest = pending d))"
proof -
  obtain d' r' where p: "push_bytes new_decoder fresh_result (concat chunks) = (d', r')"
    by (cases "push_bytes new_decoder fresh_result (concat chunks)")
  have "foldl bridge_feed (new_decoder, []) chunks = bridge_feed (new_decoder, []) (concat chunks)"
    by (rule bridge.feed_concat) simp
  then have e: "d = d'" "fs = dr_frames r'" using assms p by (simp_all add: bridge_feed_eq)
  obtain gs where gs: "dr_frames r' = dr_frames fresh_result @ gs" "delivers new_decoder (concat chunks) gs d'"
    using push_bytes_delivers [OF _ _ p] by auto
  have "pending new_decoder = []" "\<not> helloReceived new_decoder" "dr_frames fresh_result = []"
    by (simp_all add: pending_def new_decoder_def fresh_result_def)
  then show ?thesis using gs e by (auto simp: delivers_def split: if_splits)
qed

theorem bridge_decoder_sound_witness:
  "hello_ordered False (snd (foldl bridge_feed (new_decoder, []) [[0x7F, 0, 0], [0, 1, 1, 0x01]]))
   \<and> snd (foldl bridge_feed (new_decoder, []) [[0x7F, 0, 0], [0, 1, 1, 0x01]]) \<noteq> []"
proof -
  let ?s = "foldl bridge_feed (new_decoder, []) [[0x7F, 0, 0], [0, 1, 1, 0x01]]"
  have "snd ?s \<noteq> []"
    by (simp add: bridge_feed_eq push_byte_def BeginFrame_def FinishFrame_def new_decoder_def decoder_ok_def Let_def
        IsKnownBridgeChannel_def CommandChannel_def HelloChannel_def BridgeMaximumPayloadSize_def fresh_result_def
        BridgeProtocolVersion_def LoadBigEndian32_def)
  then show ?thesis using bridge_decoder_sound [of "[[0x7F, 0, 0], [0, 1, 1, 0x01]]" "fst ?s" "snd ?s"] by simp
qed

text \<open>
  Round trip: if the encoder accepts every frame of a list that starts with the hello,
  the decoder delivers exactly these frames, however the concatenated encodings are cut into
  reads, and is ready for the next frame.
\<close>
theorem bridge_round_trip:
  assumes "list_all2 (\<lambda>f b. EncodeBridgeFrame (bf_channel f) (Some (bf_payload f)) (length (bf_payload f)) = Inr b) fs bs"
    and "hello_ordered False fs" "concat chunks = concat bs"
  shows "\<exists>d. foldl bridge_feed (new_decoder, []) chunks = (d, fs) \<and> \<not> failed d \<and> headerSize d = 0"
proof -
  have valid: "list_all frame_valid fs" and bytes: "bs = map frame_bytes fs"
    using assms(1) by (induction rule: list_all2_induct) (simp_all add: EncodeBridgeFrame_iff)
  have "idle new_decoder" "\<not> helloReceived new_decoder" by (simp add: idle_def, simp_all add: new_decoder_def)
  then obtain d r where d: "push_bytes new_decoder fresh_result (concat (map frame_bytes fs)) = (d, r)" "idle d"
      "dr_frames r = fs"
    using push_frames [of new_decoder fs fresh_result] valid assms(2) by (auto simp: fresh_result_def)
  have "foldl bridge_feed (new_decoder, []) chunks = bridge_feed (new_decoder, []) (concat chunks)"
    by (rule bridge.feed_concat) simp
  then show ?thesis using d assms(3) bytes by (simp add: bridge_feed_eq idle_def)
qed

theorem bridge_round_trip_witness:
  "\<exists>d. foldl bridge_feed (new_decoder, []) [[0x7F, 0], [0, 0, 1, 1, 0x00, 0, 0, 0], [2, 0xAA, 0xBB]]
       = (d, [\<lparr>bf_channel = HelloChannel, bf_payload = [1]\<rparr>, \<lparr>bf_channel = CommandChannel, bf_payload = [0xAA, 0xBB]\<rparr>])
     \<and> \<not> failed d \<and> headerSize d = 0"
proof (rule bridge_round_trip)
  show "list_all2 (\<lambda>f b. EncodeBridgeFrame (bf_channel f) (Some (bf_payload f)) (length (bf_payload f)) = Inr b)
      [\<lparr>bf_channel = HelloChannel, bf_payload = [1]\<rparr>, \<lparr>bf_channel = CommandChannel, bf_payload = [0xAA, 0xBB]\<rparr>]
      [[0x7F, 0, 0, 0, 1, 1], [0x00, 0, 0, 0, 2, 0xAA, 0xBB]]"
    by (simp add: EncodeBridgeFrame_iff frame_valid_def frame_bytes_def IsKnownBridgeChannel_def CommandChannel_def
        HelloChannel_def BridgeMaximumPayloadSize_def BridgeProtocolVersion_def AppendBigEndian32_def)
qed (simp_all add: HelloChannel_def CommandChannel_def)

text \<open>
  Failure is terminal: once the decoder has failed, further reads report the same error,
  deliver nothing and leave it as it is.
\<close>
theorem bridge_failure_terminal:
  assumes "foldl bridge_feed (new_decoder, []) chunks = (d, fs)" "failed d"
  shows "foldl bridge_feed (new_decoder, []) (chunks @ later) = (d, fs)
    \<and> dec_error d \<noteq> None
    \<and> Consume d (Some bytes) n = (d, \<lparr>dr_success = False, dr_frames = [], dr_error = dec_error d\<rparr>)"
proof -
  have inv: "decoder_ok (fst s) \<and> (failed (fst s) \<longrightarrow> dec_error (fst s) \<noteq> None)"
    if "s = foldl bridge_feed (new_decoder, []) cs" for s cs
    using that
  proof (induction cs arbitrary: s rule: rev_induct)
    case (snoc c cs)
    let ?t = "foldl bridge_feed (new_decoder, []) cs"
    obtain e gs where t: "?t = (e, gs)" by (cases ?t)
    with snoc.IH [OF refl] have e: "decoder_ok e" "failed e \<longrightarrow> dec_error e \<noteq> None" by simp_all
    show ?case
      using snoc.prems t e push_bytes_ok [OF e(1), of fresh_result c] push_bytes_error [of e fresh_result c]
      by (auto simp: bridge_feed_eq)
  qed (simp add: new_decoder_def decoder_ok_def)
  have d: "decoder_ok d" "dec_error d \<noteq> None" using inv [of "(d, fs)" chunks] assms by simp_all
  have "foldl bridge_feed (d, fs) later = (d, fs)"
    using d(1) assms(2) by (induction later) (simp_all add: bridge_feed_eq)
  with d assms show ?thesis by (simp add: Consume_def fresh_result_def)
qed

theorem bridge_failure_terminal_witness:
  "foldl bridge_feed (new_decoder, []) ([[0x00, 0, 0, 0, 0]] @ [[0x7F, 0, 0, 0, 1, 1]])
    = foldl bridge_feed (new_decoder, []) [[0x00, 0, 0, 0, 0]]
   \<and> failed (fst (foldl bridge_feed (new_decoder, []) [[0x00, 0, 0, 0, 0]]))"
proof -
  let ?s = "foldl bridge_feed (new_decoder, []) [[0x00, 0, 0, 0, 0]]"
  have f: "failed (fst ?s)"
    by (simp add: bridge_feed_eq push_byte_def BeginFrame_def Fail_def new_decoder_def decoder_ok_def Let_def
        IsKnownBridgeChannel_def CommandChannel_def HelloChannel_def DataChannel_def)
  show ?thesis
    using bridge_failure_terminal [of "[[0x00, 0, 0, 0, 0]]" "fst ?s" "snd ?s" "[[0x7F, 0, 0, 0, 1, 1]]"] f by simp
qed

end
