(* ===== verification/Stream_Decoder.thy ===== *)
theory Stream_Decoder
  imports Fidget_Prelude
begin

text \<open>
  The waveform stream decoder of \<^verbatim>\<open>core/StreamDecoder.cpp\<close>: MVLC Ethernet packets, system
  events and stack frames are reassembled from a byte stream cut anywhere, block reads are
  collected across packets, and sampled MDPP-32 SCP waveforms are kept per channel. The
  state is the record of the class members (the mutex is left out: every member function
  holds it for its whole body, so calls are atomic). A \<^verbatim>\<open>std::map\<close> is an association list in
  key order. The loop over the pending bytes works on the bytes from the current offset on.
\<close>

subsection \<open>Addresses\<close>

datatype MdppChannelAddress = MdppChannelAddress (moduleId: u8) (channel: int)

text \<open>The comparison operator of the addresses, which makes them the keys of a sorted map.\<close>

definition address_before :: "MdppChannelAddress \<Rightarrow> MdppChannelAddress \<Rightarrow> bool" where
  "address_before left right =
    (if moduleId left \<noteq> moduleId right then moduleId left < moduleId right else channel left < channel right)"

instantiation MdppChannelAddress :: linorder
begin

definition less_MdppChannelAddress :: "MdppChannelAddress \<Rightarrow> MdppChannelAddress \<Rightarrow> bool" where
  "left < right \<longleftrightarrow> address_before left right"

definition less_eq_MdppChannelAddress :: "MdppChannelAddress \<Rightarrow> MdppChannelAddress \<Rightarrow> bool" where
  "(left :: MdppChannelAddress) \<le> right \<longleftrightarrow> left < right \<or> left = right"

instance
proof
  fix x y z :: MdppChannelAddress
  show "x < y \<longleftrightarrow> x \<le> y \<and> \<not> y \<le> x"
    by (auto simp: less_MdppChannelAddress_def address_before_def less_eq_MdppChannelAddress_def)
  show "x \<le> x" by (simp add: less_eq_MdppChannelAddress_def)
  show "x \<le> y \<Longrightarrow> y \<le> z \<Longrightarrow> x \<le> z"
    by (auto simp: less_MdppChannelAddress_def address_before_def less_eq_MdppChannelAddress_def split: if_splits)
  show "x \<le> y \<Longrightarrow> y \<le> x \<Longrightarrow> x = y"
    by (auto simp: less_MdppChannelAddress_def address_before_def less_eq_MdppChannelAddress_def split: if_splits)
  show "x \<le> y \<or> y \<le> x"
    by (cases x; cases y) (auto simp: less_MdppChannelAddress_def address_before_def less_eq_MdppChannelAddress_def split: if_splits)
qed

end

subsection \<open>State\<close>

record MdppWaveform =
  wf_sequence :: u64
  wf_moduleId :: u8
  wf_channel :: int
  sampleSource :: u8
  noOffsetCorrection :: bool
  noResampling :: bool
  phase :: u16
  timestamp :: u64
  samples :: "int list"

record StreamDecoderStats =
  systemFrames :: u64
  ethernetPackets :: u64
  lostEthernetPackets :: u64
  blockFrames :: u64
  decodedWaveforms :: u64
  malformedWords :: u64
  bufferedBytes :: nat

definition empty_stats :: StreamDecoderStats where
  "empty_stats = \<lparr>systemFrames = 0, ethernetPackets = 0, lostEthernetPackets = 0, blockFrames = 0,
     decodedWaveforms = 0, malformedWords = 0, bufferedBytes = 0\<rparr>"

definition MdppWaveformHistoryCapacity :: nat where
  "MdppWaveformHistoryCapacity = 100"

record ChannelHistory =
  totalCaptured :: u64
  waveforms :: "MdppWaveform list"

definition empty_history :: ChannelHistory where
  "empty_history = \<lparr>totalCaptured = 0, waveforms = []\<rparr>"

record MdppChannelHistorySnapshot =
  snap_totalCaptured :: u64
  snap_capacity :: nat
  snap_waveforms :: "MdppWaveform list"

type_synonym histories = "(MdppChannelAddress \<times> ChannelHistory) list"

record MvmeStreamDecoder =
  pendingBytes :: "byte list"
  lastEthernetPacket :: "u16 option"
  stackWordsRemaining :: nat
  blockWordsRemaining :: nat
  blockData :: "u32 list"
  historiesByChannel :: histories
  latestChannel :: "MdppChannelAddress option"
  stats :: StreamDecoderStats
  nextWaveformSequence :: u64

definition new_stream_decoder :: MvmeStreamDecoder where
  "new_stream_decoder = \<lparr>pendingBytes = [], lastEthernetPacket = None, stackWordsRemaining = 0, blockWordsRemaining = 0,
     blockData = [], historiesByChannel = [], latestChannel = None, stats = empty_stats, nextWaveformSequence = 1\<rparr>"

text \<open>\<^verbatim>\<open>historiesByChannel_[address]\<close>: find the entry or insert an empty one in key order, and update it.\<close>

fun map_update :: "MdppChannelAddress \<Rightarrow> (ChannelHistory \<Rightarrow> ChannelHistory) \<Rightarrow> histories \<Rightarrow> histories" where
  "map_update k f [] = [(k, f empty_history)]"
| "map_update k f ((k', h) # m) =
    (if k < k' then (k, f empty_history) # (k', h) # m
     else if k = k' then (k', f h) # m
     else (k', h) # map_update k f m)"

subsection \<open>Constants and small helpers\<close>

definition MvlcStackFrame :: u8 where "MvlcStackFrame = 0xF3"
definition MvlcBlockReadFrame :: u8 where "MvlcBlockReadFrame = 0xF5"
definition MvlcStackContinuation :: u8 where "MvlcStackContinuation = 0xF9"
definition MvlcSystemEvent :: u8 where "MvlcSystemEvent = 0xFA"
definition MvlcSystemEvent2 :: u8 where "MvlcSystemEvent2 = 0xFB"
definition FrameLengthMask :: u32 where "FrameLengthMask = 0x1FFF"
definition EthernetDataWordsMask :: u32 where "EthernetDataWordsMask = 0x1FFF"
definition EthernetPacketNumberMask :: u32 where "EthernetPacketNumberMask = 0x0FFF"
definition EthernetNoHeaderPointer :: u32 where "EthernetNoHeaderPointer = 0x0FFF"
definition StreamEthernetHeaderWords :: nat where "StreamEthernetHeaderWords = 2"

definition FrameType :: "u32 \<Rightarrow> u8" where
  "FrameType word = ucast (drop_bit 24 word)"

definition HasSameSampleConfiguration :: "MdppWaveform \<Rightarrow> MdppWaveform \<Rightarrow> bool" where
  "HasSameSampleConfiguration left right \<longleftrightarrow> sampleSource left = sampleSource right
     \<and> noOffsetCorrection left = noOffsetCorrection right \<and> noResampling left = noResampling right
     \<and> length (samples left) = length (samples right)"

definition ReadLittleEndianWord :: "byte list \<Rightarrow> u32" where
  "ReadLittleEndianWord data = ucast (data ! 0) OR push_bit 8 (ucast (data ! 1)) OR push_bit 16 (ucast (data ! 2))
     OR push_bit 24 (ucast (data ! 3))"

text \<open>The value as the \<^verbatim>\<open>int16_t\<close> it is cast to.\<close>

definition DecodeSigned14 :: "u32 \<Rightarrow> int" where
  "DecodeSigned14 v = (let v = v AND 0x3FFF; v = (if v AND 0x2000 \<noteq> 0 then v OR 0xFFFFC000 else v)
     in sint (ucast v :: 16 word))"

definition bump_malformed :: "MvmeStreamDecoder \<Rightarrow> MvmeStreamDecoder" where
  "bump_malformed s = s\<lparr>stats := (stats s)\<lparr>malformedWords := malformedWords (stats s) + 1\<rparr>\<rparr>"

definition ResetFrameAssembly :: "MvmeStreamDecoder \<Rightarrow> MvmeStreamDecoder" where
  "ResetFrameAssembly s = s\<lparr>stackWordsRemaining := 0, blockWordsRemaining := 0, blockData := []\<rparr>"

subsection \<open>Block frames\<close>

fun block_timestamp :: "u32 list \<Rightarrow> u64 \<Rightarrow> u16 \<Rightarrow> u64" where
  "block_timestamp [] t e = t OR push_bit 30 (ucast e)"
| "block_timestamp (word # ws) t e =
    (if drop_bit 30 word = 0x3 then block_timestamp ws (ucast (word AND 0x3FFFFFFF)) e
     else if drop_bit 28 word = 0x2 then block_timestamp ws t (ucast (word AND 0xFFFF))
     else block_timestamp ws t e)"

text \<open>The loop over the sample words: \<open>None\<close> when a word has the wrong tag.\<close>

fun decode_samples :: "u32 list \<Rightarrow> int list option" where
  "decode_samples [] = Some []"
| "decode_samples (packedSamples # ws) =
    (if drop_bit 28 packedSamples \<noteq> 0x3 then None
     else (let samplePayload = packedSamples AND 0x0FFFFFFF in
       map_option (\<lambda>rest. DecodeSigned14 (samplePayload AND 0x3FFF)
         # DecodeSigned14 (drop_bit 14 samplePayload AND 0x3FFF) # rest) (decode_samples ws)))"

definition store_waveform :: "MdppWaveform \<Rightarrow> ChannelHistory \<Rightarrow> ChannelHistory" where
  "store_waveform waveform history =
    (let history = history\<lparr>totalCaptured := totalCaptured history + 1\<rparr>;
         history = (if waveforms history \<noteq> [] \<and> \<not> HasSameSampleConfiguration (last (waveforms history)) waveform
                    then history\<lparr>waveforms := []\<rparr> else history);
         history = (if length (waveforms history) = MdppWaveformHistoryCapacity
                    then history\<lparr>waveforms := tl (waveforms history)\<rparr> else history)
     in history\<lparr>waveforms := waveforms history @ [waveform]\<rparr>)"

definition capture_waveform :: "u8 \<Rightarrow> u64 \<Rightarrow> int \<Rightarrow> u32 \<Rightarrow> u32 list \<Rightarrow> MvmeStreamDecoder \<Rightarrow> MvmeStreamDecoder" where
  "capture_waveform module time currentChannel word sampleData s =
    (let config = ucast (drop_bit 19 word AND 0xFF) :: u8;
         sequence = nextWaveformSequence s;
         s = s\<lparr>nextWaveformSequence := nextWaveformSequence s + 1\<rparr>
     in case decode_samples sampleData of
          None \<Rightarrow> bump_malformed s
        | Some values \<Rightarrow>
          (let waveform = \<lparr>wf_sequence = sequence, wf_moduleId = module, wf_channel = currentChannel,
                 sampleSource = config AND 0x3, noOffsetCorrection = (config AND 0x80 \<noteq> 0),
                 noResampling = (config AND 0x40 \<noteq> 0), phase = ucast (drop_bit 10 word AND 0x01FF),
                 timestamp = time, samples = values\<rparr>;
               address = MdppChannelAddress module currentChannel
           in s\<lparr>historiesByChannel := map_update address (store_waveform waveform) (historiesByChannel s),
                latestChannel := Some address,
                stats := (stats s)\<lparr>decodedWaveforms := decodedWaveforms (stats s) + 1\<rparr>\<rparr>))"

text \<open>The main loop of \<^verbatim>\<open>DecodeBlockFrame\<close> on the words from the index on.\<close>

function decode_words :: "u8 \<Rightarrow> u64 \<Rightarrow> int \<Rightarrow> u32 list \<Rightarrow> MvmeStreamDecoder \<Rightarrow> MvmeStreamDecoder" where
  "decode_words module time currentChannel [] s = s"
| "decode_words module time currentChannel (word # rest) s =
    (if drop_bit 28 word = 0x1
     then decode_words module time
       (if drop_bit 21 word AND 0x3 \<le> 1 then uint (drop_bit 16 word AND 0x1F) else currentChannel) rest s
     else if drop_bit 28 word \<noteq> 0x3 \<or> currentChannel < 0 then decode_words module time currentChannel rest s
     else (let sampleWords = unat (word AND 0x03FF) in
       if sampleWords = 0 \<or> sampleWords > length rest
       then decode_words module time currentChannel rest (bump_malformed s)
       else decode_words module time currentChannel (drop sampleWords rest)
         (capture_waveform module time currentChannel word (take sampleWords rest) s)))"
  by pat_completeness auto
termination
  by (relation "measure (\<lambda>(module, time, ch, ws, s). length ws)") auto

definition DecodeBlockFrame :: "MvmeStreamDecoder \<Rightarrow> MvmeStreamDecoder" where
  "DecodeBlockFrame s =
    (if length (blockData s) < 3 then s
     else (let moduleHeader = hd (blockData s) in
       if drop_bit 28 moduleHeader \<noteq> 0x4 then s
       else decode_words (ucast (drop_bit 16 moduleHeader AND 0xFF)) (block_timestamp (blockData s) 0 0) (- 1)
         (tl (blockData s)) s))"

definition ProcessStackWord :: "MvmeStreamDecoder \<Rightarrow> u32 \<Rightarrow> MvmeStreamDecoder" where
  "ProcessStackWord s word =
    (if blockWordsRemaining s > 0 then
       (if stackWordsRemaining s = 0 then ResetFrameAssembly (bump_malformed s)
        else (let s = s\<lparr>blockData := blockData s @ [word], blockWordsRemaining := blockWordsRemaining s - 1,
                        stackWordsRemaining := stackWordsRemaining s - 1\<rparr>
              in if blockWordsRemaining s = 0
                 then (DecodeBlockFrame (s\<lparr>stats := (stats s)\<lparr>blockFrames := blockFrames (stats s) + 1\<rparr>\<rparr>))\<lparr>blockData := []\<rparr>
                 else s))
     else if stackWordsRemaining s > 0 then
       (if FrameType word = MvlcBlockReadFrame
        then (let blockLength = unat (word AND FrameLengthMask);
                  s = s\<lparr>stackWordsRemaining := stackWordsRemaining s - 1\<rparr>
              in if blockLength > stackWordsRemaining s then ResetFrameAssembly (bump_malformed s)
                 else (let s = s\<lparr>blockWordsRemaining := blockLength, blockData := []\<rparr>
                       in if blockLength = 0 then s\<lparr>stats := (stats s)\<lparr>blockFrames := blockFrames (stats s) + 1\<rparr>\<rparr> else s))
        else s\<lparr>stackWordsRemaining := stackWordsRemaining s - 1\<rparr>)
     else if FrameType word = MvlcStackFrame \<or> FrameType word = MvlcStackContinuation
     then s\<lparr>stackWordsRemaining := unat (word AND FrameLengthMask)\<rparr>
     else s)"

subsection \<open>Packets\<close>

text \<open>The words of a packet from index \<open>i\<close> up to \<open>n\<close>, at four bytes each.\<close>

definition packet_words :: "byte list \<Rightarrow> nat \<Rightarrow> nat \<Rightarrow> u32 list" where
  "packet_words packet i n = map (\<lambda>k. ReadLittleEndianWord (drop (4 * k) packet)) [i..<n]"

definition note_packet_number :: "u16 \<Rightarrow> MvmeStreamDecoder \<Rightarrow> MvmeStreamDecoder" where
  "note_packet_number packetNumber s =
    (let s = (case lastEthernetPacket s of
         None \<Rightarrow> s
       | Some previous \<Rightarrow>
         (let expected = ucast ((ucast previous + 1) AND EthernetPacketNumberMask) :: u16 in
          if packetNumber \<noteq> expected
          then (let lost = ucast ((ucast packetNumber - ucast expected) AND EthernetPacketNumberMask) :: u16
                in ResetFrameAssembly (s\<lparr>stats := (stats s)\<lparr>lostEthernetPackets := lostEthernetPackets (stats s) + ucast lost\<rparr>\<rparr>))
          else s))
     in s\<lparr>lastEthernetPacket := Some packetNumber\<rparr>)"

definition ProcessEthernetPacket :: "byte list \<Rightarrow> nat \<Rightarrow> MvmeStreamDecoder \<Rightarrow> MvmeStreamDecoder" where
  "ProcessEthernetPacket packet packetWords s =
    (if packetWords < StreamEthernetHeaderWords then s
     else (let header0 = ReadLittleEndianWord packet;
               header1 = ReadLittleEndianWord (drop 4 packet);
               packetChannel = drop_bit 28 header0 AND 0x3;
               packetNumber = ucast (drop_bit 16 header0 AND EthernetPacketNumberMask) :: u16;
               s = s\<lparr>stats := (stats s)\<lparr>ethernetPackets := ethernetPackets (stats s) + 1\<rparr>\<rparr>
           in if packetChannel \<noteq> 2 then s
              else (let s = note_packet_number packetNumber s;
                        payloadWords = packetWords - StreamEthernetHeaderWords;
                        run = (\<lambda>payloadIndex. foldl ProcessStackWord s
                          (packet_words packet (StreamEthernetHeaderWords + payloadIndex) (StreamEthernetHeaderWords + payloadWords)))
                    in if stackWordsRemaining s = 0
                       then (let nextHeaderPointer = header1 AND 0x0FFF in
                         if nextHeaderPointer = EthernetNoHeaderPointer then s
                         else if unat nextHeaderPointer \<ge> payloadWords then bump_malformed s
                         else run (unat nextHeaderPointer))
                       else run 0)))"

text \<open>
  One iteration of \<^verbatim>\<open>ProcessPendingData\<close> on the bytes from the offset on: \<open>None\<close> is the
  \<^verbatim>\<open>break\<close> on an incomplete item, otherwise the new state and the number of bytes consumed.
\<close>

definition pending_step :: "byte list \<Rightarrow> MvmeStreamDecoder \<Rightarrow> (MvmeStreamDecoder \<times> nat) option" where
  "pending_step rest s =
    (let firstWord = ReadLittleEndianWord rest; type = FrameType firstWord;
         frameWords = 1 + unat (firstWord AND FrameLengthMask) in
     if type = MvlcSystemEvent \<or> type = MvlcSystemEvent2 then
       (if length rest < frameWords * 4 then None
        else Some (ResetFrameAssembly (s\<lparr>stats := (stats s)\<lparr>systemFrames := systemFrames (stats s) + 1\<rparr>,
               lastEthernetPacket := None\<rparr>), frameWords * 4))
     else if drop_bit 30 firstWord = 0 then
       (if length rest < StreamEthernetHeaderWords * 4 then None
        else if drop_bit 28 firstWord AND 0x3 > 2 then Some (ResetFrameAssembly (bump_malformed s), 4)
        else (let packetWords = StreamEthernetHeaderWords + unat (firstWord AND EthernetDataWordsMask) in
          if length rest < packetWords * 4 then None
          else Some (ProcessEthernetPacket rest packetWords s, packetWords * 4)))
     else if type = MvlcStackFrame \<or> type = MvlcStackContinuation then
       (if length rest < frameWords * 4 then None
        else Some (foldl ProcessStackWord s (packet_words rest 0 frameWords), frameWords * 4))
     else Some (ResetFrameAssembly (bump_malformed s), 4))"

lemma pending_step_progress: "pending_step rest s = Some (s', n) \<Longrightarrow> n \<ge> 4 \<and> (4 \<le> length rest \<longrightarrow> n \<le> length rest)"
  by (auto simp: pending_step_def Let_def StreamEthernetHeaderWords_def split: if_splits)

function process_pending :: "byte list \<Rightarrow> MvmeStreamDecoder \<Rightarrow> byte list \<times> MvmeStreamDecoder" where
  "process_pending rest s =
    (if length rest \<ge> 4
     then (case pending_step rest s of None \<Rightarrow> (rest, s) | Some (s', n) \<Rightarrow> process_pending (drop n rest) s')
     else (rest, s))"
  by pat_completeness auto
termination
  by (relation "measure (\<lambda>(rest, s). length rest)") (auto dest!: pending_step_progress)

definition ProcessPendingData :: "MvmeStreamDecoder \<Rightarrow> MvmeStreamDecoder" where
  "ProcessPendingData s = (case process_pending (pendingBytes s) s of (rest, s') \<Rightarrow> s'\<lparr>pendingBytes := rest\<rparr>)"

subsection \<open>The member functions\<close>

definition ConsumeStream :: "MvmeStreamDecoder \<Rightarrow> byte list \<Rightarrow> MvmeStreamDecoder" where
  "ConsumeStream s data = (if data = [] then s else ProcessPendingData (s\<lparr>pendingBytes := pendingBytes s @ data\<rparr>))"

definition ResetStream :: "MvmeStreamDecoder \<Rightarrow> MvmeStreamDecoder" where
  "ResetStream s = (ResetFrameAssembly (s\<lparr>pendingBytes := [], lastEthernetPacket := None\<rparr>))
     \<lparr>historiesByChannel := [], latestChannel := None, stats := empty_stats, nextWaveformSequence := 1\<rparr>"

definition in_quad :: "u16 \<Rightarrow> MdppChannelAddress \<Rightarrow> bool" where
  "in_quad selectedQuad address \<longleftrightarrow> channel address \<ge> 0 \<and> word_of_int (channel address div 4) = selectedQuad"

definition ClearWaveformHistoriesForQuad :: "u16 \<Rightarrow> MvmeStreamDecoder \<Rightarrow> MvmeStreamDecoder" where
  "ClearWaveformHistoriesForQuad selectedQuad s = s\<lparr>
     historiesByChannel := map (\<lambda>(address, history). (address,
       if in_quad selectedQuad address then history\<lparr>totalCaptured := 0, waveforms := []\<rparr> else history)) (historiesByChannel s),
     latestChannel := (case latestChannel s of
       Some address \<Rightarrow> if in_quad selectedQuad address then None else Some address | None \<Rightarrow> None)\<rparr>"

definition WaveformFor :: "MvmeStreamDecoder \<Rightarrow> MdppChannelAddress \<Rightarrow> MdppWaveform option" where
  "WaveformFor s address = (case map_of (historiesByChannel s) address of
     None \<Rightarrow> None | Some history \<Rightarrow> if waveforms history = [] then None else Some (last (waveforms history)))"

definition LatestWaveform :: "MvmeStreamDecoder \<Rightarrow> MdppWaveform option" where
  "LatestWaveform s = (case latestChannel s of None \<Rightarrow> None | Some address \<Rightarrow>
     (case map_of (historiesByChannel s) address of
        None \<Rightarrow> None | Some history \<Rightarrow> if waveforms history = [] then None else Some (last (waveforms history))))"

definition history_snapshot :: "ChannelHistory \<Rightarrow> MdppChannelHistorySnapshot" where
  "history_snapshot h = \<lparr>snap_totalCaptured = totalCaptured h, snap_capacity = MdppWaveformHistoryCapacity,
     snap_waveforms = waveforms h\<rparr>"

definition HistoryFor :: "MvmeStreamDecoder \<Rightarrow> MdppChannelAddress \<Rightarrow> MdppChannelHistorySnapshot option" where
  "HistoryFor s address = map_option history_snapshot (map_of (historiesByChannel s) address)"

definition AllHistories :: "MvmeStreamDecoder \<Rightarrow> (MdppChannelAddress \<times> MdppChannelHistorySnapshot) list" where
  "AllHistories s = map (\<lambda>(address, history). (address, history_snapshot history)) (historiesByChannel s)"

definition AvailableChannels :: "MvmeStreamDecoder \<Rightarrow> MdppChannelAddress list" where
  "AvailableChannels s = map fst (historiesByChannel s)"

definition Stats :: "MvmeStreamDecoder \<Rightarrow> StreamDecoderStats" where
  "Stats s = (stats s)\<lparr>bufferedBytes := length (pendingBytes s)\<rparr>"

record MdppRequestedChannelTarget =
  target_moduleId :: int
  requestedChannel :: int
  moduleObserved :: bool
  channelObserved :: bool

definition ResolveMdppRequestedChannelTarget :: "MdppChannelAddress list \<Rightarrow> int \<Rightarrow> int \<Rightarrow> MdppRequestedChannelTarget" where
  "ResolveMdppRequestedChannelTarget availableChannels currentModuleId requested =
    (let result = \<lparr>target_moduleId = - 1, requestedChannel = requested, moduleObserved = False, channelObserved = False\<rparr> in
     if requested < 0 \<or> requested \<ge> 32 then result
     else (let m = (if currentModuleId \<ge> 0 \<and> currentModuleId \<le> 0xFF then currentModuleId
                    else if availableChannels \<noteq> [] then uint (moduleId (hd availableChannels)) else - 1)
           in result\<lparr>target_moduleId := m, moduleObserved := (m \<ge> 0),
                channelObserved := (m \<ge> 0 \<and> availableChannels \<noteq> []
                  \<and> list_ex (\<lambda>a. uint (moduleId a) = m \<and> channel a = requested) availableChannels)\<rparr>))"

declare process_pending.simps [simp del]

subsection \<open>Chunks\<close>

lemma ReadLittleEndianWord_append: "4 \<le> length xs \<Longrightarrow> ReadLittleEndianWord (xs @ ys) = ReadLittleEndianWord xs"
  by (cases "xs = []") (auto simp: ReadLittleEndianWord_def nth_append)

lemma packet_words_append: "4 * n \<le> length xs \<Longrightarrow> packet_words (xs @ ys) i n = packet_words xs i n"
  by (auto simp: packet_words_def ReadLittleEndianWord_append)

lemma ProcessEthernetPacket_append:
  assumes "4 * n \<le> length xs"
  shows "ProcessEthernetPacket (xs @ ys) n s = ProcessEthernetPacket xs n s"
proof (cases "n < StreamEthernetHeaderWords")
  case False
  then have "ReadLittleEndianWord (xs @ ys) = ReadLittleEndianWord xs"
      "ReadLittleEndianWord (drop 4 (xs @ ys)) = ReadLittleEndianWord (drop 4 xs)"
      "StreamEthernetHeaderWords + (n - StreamEthernetHeaderWords) = n"
    using assms by (simp_all add: StreamEthernetHeaderWords_def ReadLittleEndianWord_append)
  then show ?thesis using assms by (simp add: ProcessEthernetPacket_def packet_words_append Let_def del: drop_append)
qed (simp add: ProcessEthernetPacket_def)

lemma pending_step_append:
  assumes "4 \<le> length rest" "pending_step rest s = Some (s', n)"
  shows "pending_step (rest @ later) s = Some (s', n)"
  using assms
  by (auto simp: pending_step_def Let_def ReadLittleEndianWord_append ProcessEthernetPacket_append packet_words_append
      mult.commute split: if_splits)

lemma process_pending_append:
  "process_pending (rest @ later) s = (case process_pending rest s of (r, s') \<Rightarrow> process_pending (r @ later) s')"
proof (induction rest s rule: process_pending.induct)
  case (1 rest s)
  show ?case
  proof (cases "4 \<le> length rest \<and> pending_step rest s \<noteq> None")
    case True
    then obtain s' n where step: "pending_step rest s = Some (s', n)" by auto
    with True have n: "n \<le> length rest" using pending_step_progress by blast
    have "process_pending (rest @ later) s = process_pending (drop n rest @ later) s'"
      using True step n pending_step_append [of rest s s' n later] by (subst process_pending.simps) simp
    also have "\<dots> = (case process_pending (drop n rest) s' of (r, s') \<Rightarrow> process_pending (r @ later) s')"
      using 1 True step by blast
    also have "process_pending (drop n rest) s' = process_pending rest s"
      using True step by (subst (2) process_pending.simps) simp
    finally show ?thesis .
  next
    case False
    then have "process_pending rest s = (rest, s)" by (subst process_pending.simps) (auto split: option.split)
    then show ?thesis by simp
  qed
qed

text \<open>No step looks at or changes the buffer it is given the tail of.\<close>

abbreviation with_pending :: "byte list \<Rightarrow> MvmeStreamDecoder \<Rightarrow> MvmeStreamDecoder" where
  "with_pending p s \<equiv> s\<lparr>pendingBytes := p\<rparr>"

lemma with_pending_commute:
  "(with_pending p s)\<lparr>lastEthernetPacket := a\<rparr> = with_pending p (s\<lparr>lastEthernetPacket := a\<rparr>)"
  "(with_pending p s)\<lparr>stackWordsRemaining := b\<rparr> = with_pending p (s\<lparr>stackWordsRemaining := b\<rparr>)"
  "(with_pending p s)\<lparr>blockWordsRemaining := b\<rparr> = with_pending p (s\<lparr>blockWordsRemaining := b\<rparr>)"
  "(with_pending p s)\<lparr>blockData := c\<rparr> = with_pending p (s\<lparr>blockData := c\<rparr>)"
  "(with_pending p s)\<lparr>historiesByChannel := d\<rparr> = with_pending p (s\<lparr>historiesByChannel := d\<rparr>)"
  "(with_pending p s)\<lparr>latestChannel := e\<rparr> = with_pending p (s\<lparr>latestChannel := e\<rparr>)"
  "(with_pending p s)\<lparr>stats := f\<rparr> = with_pending p (s\<lparr>stats := f\<rparr>)"
  "(with_pending p s)\<lparr>nextWaveformSequence := g\<rparr> = with_pending p (s\<lparr>nextWaveformSequence := g\<rparr>)"
  by (cases s; simp)+

lemma with_pending_small:
  "bump_malformed (with_pending p s) = with_pending p (bump_malformed s)"
  "ResetFrameAssembly (with_pending p s) = with_pending p (ResetFrameAssembly s)"
  "note_packet_number n (with_pending p s) = with_pending p (note_packet_number n s)"
  by (simp_all add: bump_malformed_def ResetFrameAssembly_def note_packet_number_def Let_def with_pending_commute split: option.split)

lemma with_pending_capture: "capture_waveform m t c w d (with_pending p s) = with_pending p (capture_waveform m t c w d s)"
  by (simp add: capture_waveform_def with_pending_small bump_malformed_def with_pending_commute Let_def split: option.split)

lemma with_pending_decode: "decode_words m t c ws (with_pending p s) = with_pending p (decode_words m t c ws s)"
  by (induction m t c ws s rule: decode_words.induct) (auto simp: with_pending_small with_pending_capture Let_def)

lemma with_pending_block: "DecodeBlockFrame (with_pending p s) = with_pending p (DecodeBlockFrame s)"
  by (simp add: DecodeBlockFrame_def with_pending_decode Let_def)

lemma with_pending_word: "ProcessStackWord (with_pending p s) w = with_pending p (ProcessStackWord s w)"
  by (simp add: ProcessStackWord_def ResetFrameAssembly_def bump_malformed_def Let_def with_pending_commute with_pending_block)

lemma with_pending_words: "foldl ProcessStackWord (with_pending p s) ws = with_pending p (foldl ProcessStackWord s ws)"
  by (induction ws arbitrary: s) (simp_all add: with_pending_word)

lemma with_pending_packet: "ProcessEthernetPacket x n (with_pending p s) = with_pending p (ProcessEthernetPacket x n s)"
  by (simp add: ProcessEthernetPacket_def with_pending_small with_pending_words with_pending_commute Let_def)

lemma with_pending_step:
  "pending_step rest (with_pending p s) = map_option (\<lambda>(s', n). (with_pending p s', n)) (pending_step rest s)"
  by (simp add: pending_step_def with_pending_packet with_pending_words Let_def ResetFrameAssembly_def bump_malformed_def
      with_pending_commute)

lemma with_pending_process:
  "process_pending rest (with_pending p s) = (case process_pending rest s of (r, s') \<Rightarrow> (r, with_pending p s'))"
proof (induction rest s rule: process_pending.induct)
  case (1 rest s)
  then show ?case
    by (subst (1 2) process_pending.simps) (auto simp: with_pending_step split: option.split)
qed

lemma ConsumeStream_eq:
  "ConsumeStream s data = (if data = [] then s
     else (case process_pending (pendingBytes s @ data) s of (r, s') \<Rightarrow> with_pending r s'))"
  by (simp add: ConsumeStream_def ProcessPendingData_def with_pending_process split: prod.split)

interpretation stream: chunked_decoder ConsumeStream "\<lambda>s. True"
proof unfold_locales
  fix s and xs ys :: "byte list"
  show "ConsumeStream s [] = s" by (simp add: ConsumeStream_def)
  show "ConsumeStream s (xs @ ys) = ConsumeStream (ConsumeStream s xs) ys"
    using process_pending_append [of "pendingBytes s @ xs" ys s]
    by (auto simp: ConsumeStream_eq with_pending_process split: prod.split)
qed simp

subsection \<open>Samples\<close>

lemma DecodeSigned14_eq: "DecodeSigned14 v = signed_take_bit 13 (uint v)"
proof -
  define w where "w = (if (v AND 0x3FFF) AND 0x2000 \<noteq> 0 then v AND 0x3FFF OR 0xFFFFC000 else v AND 0x3FFF)"
  have m14: "(0x3FFF :: u32) = mask 14" and high: "(0xFFFFC000 :: u32) = NOT (mask 14)"
    by (simp_all add: mask_numeral)
  have "(v AND 0x3FFF) AND 0x2000 \<noteq> 0 \<longleftrightarrow> bit v 13"
    using bit_iff_and_push_bit_not_eq_0 [of "v AND mask 14" 13] unfolding m14 by (simp add: bit_simps)
  then have bits: "bit w n \<longleftrightarrow> (if n < 14 then bit v n else n < 32 \<and> bit v 13)" for n
    unfolding w_def m14 high using bit_imp_le_length [of v n] by (auto simp: bit_simps)
  have "sint (ucast w :: 16 word) = signed_take_bit 13 (uint v)"
  proof (rule bit_eqI)
    fix n :: nat
    consider "n < 13" | "n = 13" | "n > 13" by linarith
    then show "bit (sint (ucast w :: 16 word)) n = bit (signed_take_bit 13 (uint v)) n"
      by cases (auto simp: bit_simps bits min_def)
  qed
  then show ?thesis by (simp add: DecodeSigned14_def w_def Let_def)
qed

lemma DecodeSigned14_range: "- 8192 \<le> DecodeSigned14 v" "DecodeSigned14 v \<le> 8191"
  using signed_take_bit_int_greater_eq_minus_exp [of 13 "uint v"] signed_take_bit_int_less_exp [of 13 "uint v"]
  by (simp_all add: DecodeSigned14_eq)

lemma decode_samples_ok:
  "decode_samples ws = Some xs \<Longrightarrow> length xs = 2 * length ws \<and> list_all (\<lambda>x. - 8192 \<le> x \<and> x \<le> 8191) xs"
  by (induction ws arbitrary: xs) (auto simp: Let_def DecodeSigned14_range split: if_splits)

subsection \<open>The decoder invariant\<close>

definition waveform_ok :: "MdppChannelAddress \<Rightarrow> MdppWaveform \<Rightarrow> bool" where
  "waveform_ok k w \<longleftrightarrow> wf_moduleId w = moduleId k \<and> wf_channel w = channel k \<and> 0 \<le> channel k \<and> channel k < 32
     \<and> even (length (samples w)) \<and> 2 \<le> length (samples w) \<and> length (samples w) \<le> 2046
     \<and> list_all (\<lambda>x. - 8192 \<le> x \<and> x \<le> 8191) (samples w)"

definition history_ok :: "MdppChannelAddress \<Rightarrow> ChannelHistory \<Rightarrow> bool" where
  "history_ok k h \<longleftrightarrow> length (waveforms h) \<le> MdppWaveformHistoryCapacity \<and> list_all (waveform_ok k) (waveforms h)
     \<and> list_all (\<lambda>v. list_all (HasSameSampleConfiguration v) (waveforms h)) (waveforms h)"

definition histories_ok :: "histories \<Rightarrow> bool" where
  "histories_ok m \<longleftrightarrow> sorted_wrt (<) (map fst m) \<and> list_all (\<lambda>(k, h). history_ok k h) m"

definition latest_ok :: "histories \<Rightarrow> MdppChannelAddress option \<Rightarrow> bool" where
  "latest_ok m a = (case a of None \<Rightarrow> True | Some k \<Rightarrow>
     (case map_of m k of None \<Rightarrow> False | Some h \<Rightarrow> waveforms h \<noteq> []))"

definition stream_inv :: "MvmeStreamDecoder \<Rightarrow> bool" where
  "stream_inv s \<longleftrightarrow> blockWordsRemaining s \<le> stackWordsRemaining s \<and> stackWordsRemaining s \<le> 8191
     \<and> (blockWordsRemaining s = 0 \<longrightarrow> blockData s = [])
     \<and> histories_ok (historiesByChannel s) \<and> latest_ok (historiesByChannel s) (latestChannel s)"

text \<open>The part of the invariant on which capturing a waveform acts.\<close>

definition store_ok :: "MvmeStreamDecoder \<Rightarrow> bool" where
  "store_ok s \<longleftrightarrow> histories_ok (historiesByChannel s) \<and> latest_ok (historiesByChannel s) (latestChannel s)"

lemma same_configuration_sym: "HasSameSampleConfiguration v w \<Longrightarrow> HasSameSampleConfiguration w v"
  and same_configuration_trans: "HasSameSampleConfiguration u v \<Longrightarrow> HasSameSampleConfiguration v w \<Longrightarrow> HasSameSampleConfiguration u w"
  and same_configuration_refl: "HasSameSampleConfiguration w w"
  by (simp_all add: HasSameSampleConfiguration_def)

lemma history_ok_store:
  assumes "history_ok k h" "waveform_ok k w"
  shows "history_ok k (store_waveform w h)" "waveforms (store_waveform w h) \<noteq> []"
proof -
  show "waveforms (store_waveform w h) \<noteq> []" by (simp add: store_waveform_def Let_def)
  let ?vs = "waveforms h"
  define vs where "vs = (if ?vs \<noteq> [] \<and> \<not> HasSameSampleConfiguration (last ?vs) w then [] else ?vs)"
  define us where "us = (if length vs = MdppWaveformHistoryCapacity then tl vs else vs)"
  have store: "waveforms (store_waveform w h) = us @ [w]"
    by (simp add: store_waveform_def us_def vs_def Let_def)
  have "set us \<subseteq> set vs" by (cases vs) (auto simp: us_def)
  moreover have "set vs \<subseteq> set ?vs" by (auto simp: vs_def)
  moreover have "\<forall>v \<in> set vs. HasSameSampleConfiguration v w"
  proof (cases "vs = []")
    case False
    then have vs: "vs = ?vs" "HasSameSampleConfiguration (last ?vs) w" by (auto simp: vs_def split: if_splits)
    with False have "last ?vs \<in> set ?vs" by simp
    with assms(1) have "\<forall>v \<in> set ?vs. HasSameSampleConfiguration v (last ?vs)" by (simp add: history_ok_def list_all_iff)
    with vs show ?thesis by (blast intro: same_configuration_trans)
  qed simp
  moreover have "length us < MdppWaveformHistoryCapacity"
    using assms(1) by (auto simp: us_def vs_def history_ok_def MdppWaveformHistoryCapacity_def)
  moreover have "\<forall>v \<in> set ?vs. \<forall>x \<in> set ?vs. HasSameSampleConfiguration v x"
    using assms(1) by (simp add: history_ok_def list_all_iff)
  ultimately show "history_ok k (store_waveform w h)"
    using assms unfolding history_ok_def store list_all_iff
    by (auto simp: same_configuration_refl subset_eq intro: same_configuration_sym)
qed

lemma map_update_keys: "set (map fst (map_update k f m)) = insert k (set (map fst m))"
  by (induction k f m rule: map_update.induct) auto

lemma map_of_update:
  "sorted_wrt (<) (map fst m) \<Longrightarrow> map_of (map_update k f m) k' =
     (if k' = k then Some (f (case map_of m k of Some h \<Rightarrow> h | None \<Rightarrow> empty_history)) else map_of m k')"
proof (induction k f m rule: map_update.induct)
  case (2 k f k1 h m)
  have "map_of m k = None" if "k < k1"
    using 2(2) that by (auto simp: map_of_eq_None_iff dest: less_trans)
  with 2 show ?case by auto
qed simp

lemma history_ok_empty [simp]: "history_ok k empty_history"
  by (simp add: history_ok_def empty_history_def)

lemma histories_ok_update:
  assumes "histories_ok m" "waveform_ok k w"
  shows "histories_ok (map_update k (store_waveform w) m)"
  using assms(1)
proof (induction m)
  case Nil
  then show ?case using assms(2) by (simp add: histories_ok_def history_ok_store)
next
  case (Cons e m)
  obtain k' h where e: "e = (k', h)" by (cases e)
  have keys: "set (map fst (map_update k (store_waveform w) m)) = insert k (set (map fst m))" by (rule map_update_keys)
  show ?case
    using Cons assms(2) keys
    by (auto simp: e histories_ok_def history_ok_store dest: less_trans)
qed

lemma capture_waveform_ok:
  assumes "store_ok s" "0 \<le> c" "c < 32" "0 < length d" "length d \<le> 1023"
  shows "store_ok (capture_waveform m t c w d s)"
proof (cases "decode_samples d")
  case None
  then show ?thesis using assms(1) by (simp add: capture_waveform_def bump_malformed_def store_ok_def Let_def)
next
  case (Some xs)
  let ?k = "MdppChannelAddress m c"
  define config where "config = (ucast (drop_bit 19 w AND 0xFF) :: u8)"
  define v where "v = \<lparr>wf_sequence = nextWaveformSequence s, wf_moduleId = m, wf_channel = c,
    sampleSource = config AND 0x3, noOffsetCorrection = (config AND 0x80 \<noteq> 0), noResampling = (config AND 0x40 \<noteq> 0),
    phase = ucast (drop_bit 10 w AND 0x01FF), timestamp = t, samples = xs\<rparr>"
  have v: "waveform_ok ?k v" using decode_samples_ok [OF Some] assms(2-5) by (auto simp: v_def waveform_ok_def Suc_le_eq)
  have capture: "capture_waveform m t c w d s = s\<lparr>nextWaveformSequence := nextWaveformSequence s + 1,
      historiesByChannel := map_update ?k (store_waveform v) (historiesByChannel s), latestChannel := Some ?k,
      stats := (stats s)\<lparr>decodedWaveforms := decodedWaveforms (stats s) + 1\<rparr>\<rparr>"
    using Some by (simp add: capture_waveform_def v_def config_def Let_def)
  have sorted: "sorted_wrt (<) (map fst (historiesByChannel s))" using assms(1) by (simp add: store_ok_def histories_ok_def)
  have "waveforms (store_waveform v h) \<noteq> []" for h by (simp add: store_waveform_def Let_def)
  then show ?thesis
    using assms(1) histories_ok_update [OF _ v] by (simp add: capture store_ok_def latest_ok_def map_of_update [OF sorted])
qed

lemma sample_count_bound: "unat (w AND 0x03FF :: u32) \<le> 1023"
proof -
  have "(0x03FF :: u32) = mask 10" by (simp add: mask_numeral)
  then have "w AND 0x03FF = take_bit 10 w" by (simp add: take_bit_eq_mask)
  then have "unat (w AND 0x03FF) = take_bit 10 (unat w)" by (simp add: unsigned_take_bit_eq)
  then show ?thesis using take_bit_nat_less_exp [of 10 "unat w"] by simp
qed

lemma channel_bound: "uint (drop_bit 16 w AND 0x1F :: u32) < 32"
proof -
  have "(0x1F :: u32) = mask 5" by (simp add: mask_numeral)
  then have "drop_bit 16 w AND 0x1F = take_bit 5 (drop_bit 16 w)" by (simp add: take_bit_eq_mask)
  then have "uint (drop_bit 16 w AND 0x1F) = take_bit 5 (uint (drop_bit 16 w))" by (simp add: unsigned_take_bit_eq)
  then show ?thesis using take_bit_int_less_exp [of 5 "uint (drop_bit 16 w)"] by simp
qed

lemma frame_length_bound: "unat (w AND FrameLengthMask) \<le> 8191"
proof -
  have "FrameLengthMask = mask 13" by (simp add: FrameLengthMask_def mask_numeral)
  then have "w AND FrameLengthMask = take_bit 13 w" by (simp add: take_bit_eq_mask)
  then have "unat (w AND FrameLengthMask) = take_bit 13 (unat w)" by (simp add: unsigned_take_bit_eq)
  then show ?thesis using take_bit_nat_less_exp [of 13 "unat w"] by simp
qed

lemma decode_words_ok:
  "store_ok s \<Longrightarrow> c < 32 \<Longrightarrow> store_ok (decode_words m t c ws s)"
proof (induction m t c ws s rule: decode_words.induct)
  case (2 module time c word rest s)
  have bump: "store_ok (bump_malformed s)" using 2(5) by (simp add: store_ok_def bump_malformed_def)
  show ?case
    using 2 bump capture_waveform_ok [of s c "take (unat (word AND 0x03FF)) rest" module time word]
      sample_count_bound [of word] channel_bound [of word]
    by (auto simp: Let_def)
qed simp

lemma decode_words_frame:
  "blockWordsRemaining (decode_words m t c ws s) = blockWordsRemaining s"
  "stackWordsRemaining (decode_words m t c ws s) = stackWordsRemaining s"
  "pendingBytes (decode_words m t c ws s) = pendingBytes s"
  by (induction m t c ws s rule: decode_words.induct)
    (auto simp: Let_def bump_malformed_def capture_waveform_def split: option.split)

lemma stream_inv_store: "stream_inv s \<Longrightarrow> store_ok s"
  by (simp add: stream_inv_def store_ok_def)

lemma DecodeBlockFrame_ok:
  "store_ok s \<Longrightarrow> store_ok (DecodeBlockFrame s)"
  "blockWordsRemaining (DecodeBlockFrame s) = blockWordsRemaining s"
  "stackWordsRemaining (DecodeBlockFrame s) = stackWordsRemaining s"
  by (simp_all add: DecodeBlockFrame_def decode_words_ok decode_words_frame Let_def)

lemma ProcessStackWord_inv: "stream_inv s \<Longrightarrow> stream_inv (ProcessStackWord s w)"
proof -
  assume inv: "stream_inv s"
  show ?thesis
  proof (cases "blockWordsRemaining s = 1")
    case True
    let ?s = "s\<lparr>blockData := blockData s @ [w], blockWordsRemaining := 0, stackWordsRemaining := stackWordsRemaining s - 1,
      stats := (stats s)\<lparr>blockFrames := blockFrames (stats s) + 1\<rparr>\<rparr>"
    have "store_ok ?s" using inv by (simp add: stream_inv_def store_ok_def)
    then have "store_ok (DecodeBlockFrame ?s)" by (rule DecodeBlockFrame_ok)
    moreover have "ProcessStackWord s w = (DecodeBlockFrame ?s)\<lparr>blockData := []\<rparr>"
      using True inv by (simp add: ProcessStackWord_def stream_inv_def)
    ultimately show ?thesis using inv by (auto simp: stream_inv_def store_ok_def DecodeBlockFrame_ok)
  next
    case False
    then show ?thesis using inv frame_length_bound [of w]
      by (auto simp: ProcessStackWord_def stream_inv_def Let_def ResetFrameAssembly_def bump_malformed_def)
  qed
qed

lemma ProcessStackWords_inv: "stream_inv s \<Longrightarrow> stream_inv (foldl ProcessStackWord s ws)"
  by (induction ws arbitrary: s) (simp_all add: ProcessStackWord_inv)

lemma small_steps_inv:
  "stream_inv s \<Longrightarrow> stream_inv (bump_malformed s)"
  "stream_inv s \<Longrightarrow> stream_inv (ResetFrameAssembly s)"
  "stream_inv s \<Longrightarrow> stream_inv (s\<lparr>stats := st\<rparr>)"
  "stream_inv s \<Longrightarrow> stream_inv (s\<lparr>lastEthernetPacket := p\<rparr>)"
  "stream_inv s \<Longrightarrow> stream_inv (with_pending r s)"
  by (simp_all add: stream_inv_def bump_malformed_def ResetFrameAssembly_def)

lemma note_packet_number_inv: "stream_inv s \<Longrightarrow> stream_inv (note_packet_number n s)"
  by (simp add: note_packet_number_def Let_def small_steps_inv split: option.split)

lemma ProcessEthernetPacket_inv: "stream_inv s \<Longrightarrow> stream_inv (ProcessEthernetPacket p n s)"
  by (simp add: ProcessEthernetPacket_def Let_def small_steps_inv note_packet_number_inv ProcessStackWords_inv)

lemma pending_step_inv: "stream_inv s \<Longrightarrow> pending_step rest s = Some (s', n) \<Longrightarrow> stream_inv s'"
  by (auto simp: pending_step_def Let_def small_steps_inv ProcessEthernetPacket_inv ProcessStackWords_inv split: if_splits)

text \<open>What the loop leaves behind is one incomplete item: at most a full packet less one byte.\<close>

lemma pending_step_None: "pending_step rest s = None \<Longrightarrow> length rest < 4 * 8193"
  using frame_length_bound [of "ReadLittleEndianWord rest"]
  by (auto simp: pending_step_def Let_def StreamEthernetHeaderWords_def EthernetDataWordsMask_def FrameLengthMask_def
      split: if_splits)

lemma process_pending_inv:
  "stream_inv s \<Longrightarrow> process_pending rest s = (r, s') \<Longrightarrow> stream_inv s' \<and> length r < 4 * 8193"
proof (induction rest s rule: process_pending.induct)
  case (1 rest s)
  show ?case
  proof (cases "4 \<le> length rest \<and> pending_step rest s \<noteq> None")
    case True
    then obtain s1 n where step: "pending_step rest s = Some (s1, n)" by auto
    have "process_pending rest s = process_pending (drop n rest) s1"
      using True step by (subst process_pending.simps) simp
    moreover have "stream_inv s1" using "1.prems"(1) step by (rule pending_step_inv)
    ultimately show ?thesis using "1.IH" [OF _ step refl] True "1.prems"(2) by simp
  next
    case False
    then have "process_pending rest s = (rest, s)" by (subst process_pending.simps) (auto split: option.split)
    moreover from False have "length rest < 4 \<or> pending_step rest s = None" by auto
    then have "length rest < 4 * 8193" using pending_step_None [of rest s] by auto
    ultimately show ?thesis using "1.prems" by simp
  qed
qed

definition pending_bounded :: "MvmeStreamDecoder \<Rightarrow> bool" where
  "pending_bounded s \<longleftrightarrow> length (pendingBytes s) < 4 * 8193"

lemma ConsumeStream_inv:
  "stream_inv s \<Longrightarrow> pending_bounded s \<Longrightarrow> stream_inv (ConsumeStream s data) \<and> pending_bounded (ConsumeStream s data)"
  using process_pending_inv [of s "pendingBytes s @ data"]
  by (auto simp: ConsumeStream_eq small_steps_inv pending_bounded_def split: prod.split)

lemma ResetStream_inv: "stream_inv (ResetStream s)"
  by (simp add: ResetStream_def ResetFrameAssembly_def stream_inv_def histories_ok_def latest_ok_def)

lemma map_of_map_value: "map_of (map (\<lambda>(k, h). (k, f k h)) m) k = map_option (f k) (map_of m k)"
  by (induction m) auto

lemma history_ok_clear: "history_ok k (h\<lparr>totalCaptured := 0, waveforms := []\<rparr>)"
  by (simp add: history_ok_def)

lemma ClearWaveformHistoriesForQuad_inv: "stream_inv s \<Longrightarrow> stream_inv (ClearWaveformHistoriesForQuad q s)"
proof -
  assume inv: "stream_inv s"
  let ?c = "\<lambda>k h. if in_quad q k then h\<lparr>totalCaptured := 0, waveforms := []\<rparr> else h"
  let ?m = "map (\<lambda>(k, h). (k, ?c k h)) (historiesByChannel s)"
  have "map fst ?m = map fst (historiesByChannel s)" by (simp add: comp_def case_prod_beta)
  moreover have "list_all (\<lambda>(k, h). history_ok k h) ?m"
    using inv by (auto simp: stream_inv_def histories_ok_def list_all_iff history_ok_clear split: prod.splits)
  ultimately have "histories_ok ?m" using inv by (simp only: histories_ok_def stream_inv_def)
  moreover have "latest_ok ?m (case latestChannel s of Some a \<Rightarrow> if in_quad q a then None else Some a | None \<Rightarrow> None)"
    using inv by (auto simp: stream_inv_def latest_ok_def map_of_map_value [of ?c] split: option.splits)
  ultimately show ?thesis using inv by (simp add: stream_inv_def ClearWaveformHistoriesForQuad_def)
qed

subsection \<open>The decoder as a state machine\<close>

text \<open>The states reachable by any sequence of calls of the member functions that change the state.\<close>

inductive stream_reachable :: "MvmeStreamDecoder \<Rightarrow> bool" where
  stream_new: "stream_reachable new_stream_decoder"
| stream_consume: "stream_reachable s \<Longrightarrow> stream_reachable (ConsumeStream s data)"
| stream_reset: "stream_reachable s \<Longrightarrow> stream_reachable (ResetStream s)"
| stream_clear: "stream_reachable s \<Longrightarrow> stream_reachable (ClearWaveformHistoriesForQuad q s)"

lemma stream_reachable_inv: "stream_reachable s \<Longrightarrow> stream_inv s \<and> pending_bounded s"
proof (induction rule: stream_reachable.induct)
  case stream_new
  then show ?case
    by (simp add: new_stream_decoder_def stream_inv_def histories_ok_def latest_ok_def pending_bounded_def)
next
  case (stream_reset s)
  then show ?case by (simp add: ResetStream_inv) (simp add: ResetStream_def ResetFrameAssembly_def pending_bounded_def)
next
  case (stream_clear s q)
  then show ?case
    by (simp add: ClearWaveformHistoriesForQuad_inv) (simp add: ClearWaveformHistoriesForQuad_def pending_bounded_def)
qed (simp add: ConsumeStream_inv)

lemma packet_number_mask: "unat (w AND EthernetPacketNumberMask) = unat w mod 4096"
proof -
  have "EthernetPacketNumberMask = mask 12" by (simp add: EthernetPacketNumberMask_def mask_numeral)
  then have "w AND EthernetPacketNumberMask = take_bit 12 w" by (simp add: take_bit_eq_mask)
  then show ?thesis by (simp only: unsigned_take_bit_eq) (simp add: take_bit_eq_mod)
qed

lemma unat_ucast: "unat (ucast (w :: 'a::len word) :: 'b::len word) = unat w mod 2 ^ LENGTH('b)"
  by (simp only: unsigned_ucast_eq take_bit_eq_mod)

lemma loss_arithmetic:
  fixes n p :: nat
  assumes "p < 4096" "n < 4096"
  defines "e \<equiv> (p + 1) mod 4096"
  shows "(if e \<le> n then n - e else n + 4294967296 - e) mod 4096 = (n + 4095 - p) mod 4096"
proof -
  consider "p = 4095" | "p < 4095" "p + 1 \<le> n" | "p < 4095" "n < p + 1" using assms(1) by linarith
  then show ?thesis
  proof cases
    case 1
    then show ?thesis by (simp add: e_def)
  next
    case 2
    then have "e = p + 1" by (simp add: e_def)
    moreover have eq: "n + 4095 - p = (n - (p + 1)) + 4096" using 2 by linarith
    ultimately show ?thesis unfolding eq mod_add_self2 using 2 by simp
  next
    case 3
    then have "e = p + 1" by (simp add: e_def)
    moreover have eq: "n + 4294967296 - (p + 1) = (n + 4095 - p) + 4096 * 1048575" using 3 by linarith
    ultimately have "(if e \<le> n then n - e else n + 4294967296 - e) = (n + 4095 - p) + 4096 * 1048575" using 3 by simp
    then show ?thesis by (simp only: mod_mult_self2)
  qed
qed

lemma missing_zero:
  fixes n p :: nat
  assumes "p < 4096" "n < 4096"
  shows "n = (p + 1) mod 4096 \<longleftrightarrow> (n + 4095 - p) mod 4096 = 0"
proof (cases "p = 4095")
  case False
  then have e: "(p + 1) mod 4096 = p + 1" using assms(1) by simp
  have "(n + 4095 - p) mod 4096 = 0 \<longleftrightarrow> n + 4095 - p = 4096"
    using assms False by (auto elim!: dvdE simp flip: dvd_eq_mod_eq_0)
  then show ?thesis unfolding e using assms False by linarith
qed (use assms in simp)

text \<open>A stack frame with one block read of four words: module 0xAA, channel 5, two samples.\<close>

definition sample_stream :: "byte list" where
  "sample_stream = [0x05, 0, 0, 0xF3, 0x04, 0, 0, 0xF5, 0, 0, 0xAA, 0x40, 0, 0, 0x05, 0x10,
     0x01, 0, 0, 0x30, 0x07, 0xC0, 0xFF, 0x3F]"

lemma sample_stream_decoded:
  "map_option samples (WaveformFor (ConsumeStream new_stream_decoder sample_stream) (MdppChannelAddress 0xAA 5)) = Some [7, - 1]"
  by code_simp

subsection \<open>The properties of the stream decoder\<close>

text \<open>
  How the TCP stream is cut into receives does not matter: any sequence of calls of
  \<^verbatim>\<open>Consume\<close> leaves the decoder, with its histories and statistics, in the state of one call
  with all the bytes.
\<close>
theorem stream_chunking_irrelevant:
  "foldl ConsumeStream s chunks = ConsumeStream s (concat chunks)"
  by (rule stream.feed_concat) simp

text \<open>
  (C24) In every state the decoder can reach, by any bytes and any calls: a block read never
  extends past its stack frame (so the branch that would meet a block without a stack is
  never taken), every channel history holds at most 100 waveforms, all of its own module and
  channel, of one sample configuration, with 14-bit samples; the map is in strict key order,
  the latest channel has a waveform, and less than one maximal packet is buffered.
\<close>
theorem stream_decoder_invariant:
  assumes "stream_reachable s"
  shows "blockWordsRemaining s \<le> stackWordsRemaining s
    \<and> sorted_wrt (<) (AvailableChannels s)
    \<and> (\<forall>k h. map_of (historiesByChannel s) k = Some h \<longrightarrow>
         length (waveforms h) \<le> 100
         \<and> (\<forall>v \<in> set (waveforms h). wf_moduleId v = moduleId k \<and> wf_channel v = channel k
              \<and> (\<forall>x \<in> set (samples v). - 8192 \<le> x \<and> x \<le> 8191)
              \<and> (\<forall>w \<in> set (waveforms h). HasSameSampleConfiguration v w)))
    \<and> (latestChannel s \<noteq> None \<longrightarrow> LatestWaveform s \<noteq> None)
    \<and> bufferedBytes (Stats s) < 32772"
proof -
  have inv: "stream_inv s" "pending_bounded s" using stream_reachable_inv [OF assms] by simp_all
  then have "sorted_wrt (<) (AvailableChannels s)" "bufferedBytes (Stats s) < 32772"
    by (simp_all add: stream_inv_def histories_ok_def AvailableChannels_def pending_bounded_def Stats_def)
  moreover have "history_ok k h" if "map_of (historiesByChannel s) k = Some h" for k h
    using that inv(1) by (auto simp: stream_inv_def histories_ok_def list_all_iff dest!: map_of_SomeD)
  moreover have "latestChannel s \<noteq> None \<longrightarrow> LatestWaveform s \<noteq> None"
    using inv(1) by (auto simp: stream_inv_def latest_ok_def LatestWaveform_def split: option.splits)
  ultimately show ?thesis
    using inv(1) by (auto simp: stream_inv_def history_ok_def waveform_ok_def list_all_iff MdppWaveformHistoryCapacity_def)
qed

theorem stream_decoder_invariant_witness:
  "latestChannel (ConsumeStream new_stream_decoder sample_stream) \<noteq> None
   \<and> LatestWaveform (ConsumeStream new_stream_decoder sample_stream) \<noteq> None"
proof -
  have "stream_reachable (ConsumeStream new_stream_decoder sample_stream)" by (intro stream_consume stream_new)
  moreover have "latestChannel (ConsumeStream new_stream_decoder sample_stream) \<noteq> None" by code_simp
  ultimately show ?thesis using stream_decoder_invariant by blast
qed

text \<open>
  Packet-loss accounting: between two data packets with numbers \<open>p\<close> and \<open>n\<close> the counter
  grows by exactly the packets missing in between, counted modulo 4096; when none is missing
  the frame in assembly continues, otherwise it is dropped.
\<close>
theorem packet_loss_exact:
  assumes "lastEthernetPacket s = Some p" "unat p < 4096" "unat n < 4096"
  defines "missing \<equiv> (unat n + 4095 - unat p) mod 4096"
  shows "lostEthernetPackets (stats (note_packet_number n s)) = lostEthernetPackets (stats s) + of_nat missing
    \<and> lastEthernetPacket (note_packet_number n s) = Some n
    \<and> (missing = 0 \<longrightarrow> note_packet_number n s = s\<lparr>lastEthernetPacket := Some n\<rparr>)
    \<and> (missing > 0 \<longrightarrow> stackWordsRemaining (note_packet_number n s) = 0 \<and> blockWordsRemaining (note_packet_number n s) = 0
         \<and> blockData (note_packet_number n s) = [])"
proof -
  define expected where "expected = (ucast ((ucast p + 1) AND EthernetPacketNumberMask) :: u16)"
  define lost where "lost = (ucast ((ucast n - ucast expected) AND EthernetPacketNumberMask) :: u16)"
  have e: "unat expected = (unat p + 1) mod 4096"
    using assms(2) by (simp add: expected_def unat_ucast packet_number_mask unat_word_ariths)
  have small: "unat expected < 4096" by (simp add: e)
  have "unat (ucast n - ucast expected :: u32)
      = (if unat expected \<le> unat n then unat n - unat expected else unat n + 4294967296 - unat expected)"
    using small assms(3) by (simp add: unat_sub_if' unat_ucast)
  moreover have "unat lost = unat (ucast n - ucast expected :: u32) mod 4096"
    by (simp add: lost_def unat_ucast packet_number_mask)
  ultimately have l: "unat lost = missing"
    using loss_arithmetic [OF assms(2,3), folded e] by (simp only: missing_def)
  have same: "n = expected \<longleftrightarrow> missing = 0"
    using missing_zero [OF assms(2,3)] by (simp add: word_unat_eq_iff e missing_def)
  have "ucast lost = (of_nat missing :: u64)"
    using l by (simp add: word_unat_eq_iff unat_ucast unat_of_nat missing_def)
  then show ?thesis
    using assms(1) same unfolding note_packet_number_def Let_def
    by (auto simp: expected_def [symmetric] lost_def [symmetric] ResetFrameAssembly_def)
qed

theorem packet_loss_exact_witness:
  "lostEthernetPackets (stats (note_packet_number 2 (new_stream_decoder\<lparr>lastEthernetPacket := Some 4094\<rparr>))) = 3"
  using packet_loss_exact [of "new_stream_decoder\<lparr>lastEthernetPacket := Some 4094\<rparr>" 4094 2]
  by (simp add: new_stream_decoder_def empty_stats_def)

text \<open>
  Clearing a quad empties exactly the histories of its four channels: their waveforms and
  capture counts are gone, every other channel keeps its history, the known channels stay
  known, and the latest waveform is never one of the cleared quad.
\<close>
theorem clear_quad_exact:
  "map_of (historiesByChannel (ClearWaveformHistoriesForQuad q s)) k
     = map_option (\<lambda>h. if in_quad q k then h\<lparr>totalCaptured := 0, waveforms := []\<rparr> else h) (map_of (historiesByChannel s) k)
   \<and> AvailableChannels (ClearWaveformHistoriesForQuad q s) = AvailableChannels s
   \<and> (in_quad q k \<longrightarrow> WaveformFor (ClearWaveformHistoriesForQuad q s) k = None
        \<and> latestChannel (ClearWaveformHistoriesForQuad q s) \<noteq> Some k)
   \<and> (\<not> in_quad q k \<longrightarrow> WaveformFor (ClearWaveformHistoriesForQuad q s) k = WaveformFor s k)"
proof -
  have "map_of (historiesByChannel (ClearWaveformHistoriesForQuad q s)) k
     = map_option (\<lambda>h. if in_quad q k then h\<lparr>totalCaptured := 0, waveforms := []\<rparr> else h) (map_of (historiesByChannel s) k)"
    using map_of_map_value [of "\<lambda>k h. if in_quad q k then h\<lparr>totalCaptured := 0, waveforms := []\<rparr> else h"]
    by (simp add: ClearWaveformHistoriesForQuad_def)
  moreover have "AvailableChannels (ClearWaveformHistoriesForQuad q s) = AvailableChannels s"
    by (simp add: ClearWaveformHistoriesForQuad_def AvailableChannels_def comp_def case_prod_beta)
  moreover have "in_quad q k \<longrightarrow> latestChannel (ClearWaveformHistoriesForQuad q s) \<noteq> Some k"
    by (auto simp: ClearWaveformHistoriesForQuad_def split: option.splits)
  ultimately show ?thesis by (auto simp: WaveformFor_def split: option.splits)
qed

theorem clear_quad_exact_witness:
  "WaveformFor (ClearWaveformHistoriesForQuad 1 (ConsumeStream new_stream_decoder sample_stream)) (MdppChannelAddress 0xAA 5) = None"
  using clear_quad_exact [of 1 "ConsumeStream new_stream_decoder sample_stream" "MdppChannelAddress 0xAA 5"]
  by (simp add: in_quad_def)

text \<open>
  Direct-acquisition targeting is deterministic: the requested channel is never replaced,
  a module already observed is kept whatever arrives, and the channel counts as observed only
  when the decoder has a history of exactly this channel of exactly this module.
\<close>
theorem requested_target_stable:
  "let t = ResolveMdppRequestedChannelTarget (AvailableChannels s) m r in
   requestedChannel t = r
   \<and> (0 \<le> m \<and> m \<le> 255 \<and> 0 \<le> r \<and> r < 32 \<longrightarrow> target_moduleId t = m \<and> moduleObserved t)
   \<and> (channelObserved t \<longrightarrow> moduleObserved t
        \<and> (\<exists>k h. map_of (historiesByChannel s) k = Some h \<and> uint (moduleId k) = target_moduleId t \<and> channel k = r))"
proof -
  have "\<exists>h. map_of (historiesByChannel s) k = Some h" if "k \<in> set (AvailableChannels s)" for k
    using that by (auto simp: AvailableChannels_def map_of_eq_None_iff [of "historiesByChannel s"] simp flip: not_None_eq)
  then show ?thesis
    by (fastforce simp: ResolveMdppRequestedChannelTarget_def Let_def list_ex_iff)
qed

theorem requested_target_stable_witness:
  "channelObserved (ResolveMdppRequestedChannelTarget
     (AvailableChannels (ConsumeStream new_stream_decoder sample_stream)) (- 1) 5)
   \<and> (\<exists>k h. map_of (historiesByChannel (ConsumeStream new_stream_decoder sample_stream)) k = Some h \<and> channel k = 5)"
proof -
  let ?s = "ConsumeStream new_stream_decoder sample_stream"
  have "channelObserved (ResolveMdppRequestedChannelTarget (AvailableChannels ?s) (- 1) 5)" by code_simp
  then show ?thesis using requested_target_stable [of ?s "- 1" 5] by (auto simp: Let_def)
qed

end
