(* ===== verification/Recovery_Verification.thy ===== *)
theory Recovery_Verification
  imports Readout_Protocol Recovery_Journal
begin

text \<open>
  The decision whether a live MVLC still carries the tuner's own orphaned acquisition,
  \<^verbatim>\<open>core/RecoveryVerification.cpp\<close>. The fixed arrays of eleven registers are lists. Only the verdict \<open>OrphanConfirmed\<close> permits a cleanup write.
\<close>

definition TunerRecoveryFingerprintRegisterCount :: nat where "TunerRecoveryFingerprintRegisterCount = 11"
definition TunerRecoveryDaqModeRegister :: u16 where "TunerRecoveryDaqModeRegister = 0x1300"

datatype expectation_error = CannotReconstructStack readout_error | StackNotSevenWords

record TunerRecoveryFingerprintExpectation =
  exp_addresses :: "u16 list"
  exp_values :: "u32 list"

record TunerRecoveryLiveFingerprint =
  live_mvlcHardwareId :: u32
  live_mvlcFirmwareRevision :: u32
  live_values :: "u32 list"

datatype TunerRecoveryFingerprintVerdict = OrphanConfirmed | ForeignOrMismatched | AlreadyClean | IdleWithRestoration

datatype fingerprint_field =
    MvlcHardwareIdField
  | MvlcFirmwareField
  | RecoveryJournalField
  | StackTriggerField
  | StackOffsetField
  | StackWordField nat
  | OwnershipTokenField

datatype evaluation_message =
    FieldMismatch fingerprint_field u32 u32
  | PendingRestoration
  | StaleJournal
  | NoExpectation expectation_error
  | FingerprintMatches

record TunerRecoveryFingerprintEvaluation =
  verdict :: TunerRecoveryFingerprintVerdict
  firstMismatchedField :: "fingerprint_field option"
  ev_message :: evaluation_message

definition Mismatch :: "fingerprint_field \<Rightarrow> u32 \<Rightarrow> u32 \<Rightarrow> TunerRecoveryFingerprintEvaluation" where
  "Mismatch field expected actual = \<lparr>verdict = ForeignOrMismatched, firstMismatchedField = Some field,
     ev_message = FieldMismatch field expected actual\<rparr>"

definition BuildTunerRecoveryFingerprintExpectation ::
    "TunerRecoveryRecord \<Rightarrow> expectation_error + TunerRecoveryFingerprintExpectation" where
  "BuildTunerRecoveryFingerprintExpectation rec =
    (case MakeMvlcSingleMdppReadoutPlan (rec_mdppBaseAddress rec) (rec_mdppIrqLevel rec) of
       Inl e \<Rightarrow> Inl (CannotReconstructStack e)
     | Inr plan \<Rightarrow>
       if length (stackUploadWrites plan) \<noteq> 7 then Inl StackNotSevenWords
       else Inr \<lparr>exp_addresses = [TunerRecoveryDaqModeRegister, rec_stackTriggerRegister rec, rec_stackOffsetRegister rec]
              @ map lw_address (stackUploadWrites plan) @ [rec_ownershipTokenRegister rec],
            exp_values = [0, rec_stackTriggerValue rec, rec_stackOffsetValue rec]
              @ map lw_value (stackUploadWrites plan) @ [rec_ownershipTokenValue rec]\<rparr>)"

definition field_at :: "nat \<Rightarrow> fingerprint_field" where
  "field_at index = (if index = 1 then StackTriggerField else if index = 2 then StackOffsetField
     else if index < 10 then StackWordField (index - 3) else OwnershipTokenField)"

text \<open>The comparison loop, from an index on.\<close>

fun first_mismatch :: "nat \<Rightarrow> u32 list \<Rightarrow> u32 list \<Rightarrow> TunerRecoveryFingerprintEvaluation option" where
  "first_mismatch index (e # es) (l # ls) = (if l = e then first_mismatch (Suc index) es ls else Some (Mismatch (field_at index) e l))"
| "first_mismatch index _ _ = None"

definition EvaluateTunerRecoveryFingerprint ::
    "TunerRecoveryRecord \<Rightarrow> TunerRecoveryLiveFingerprint \<Rightarrow> TunerRecoveryFingerprintEvaluation" where
  "EvaluateTunerRecoveryFingerprint rec live =
    (if live_mvlcHardwareId live \<noteq> rec_mvlcHardwareId rec
     then Mismatch MvlcHardwareIdField (rec_mvlcHardwareId rec) (live_mvlcHardwareId live)
     else if live_mvlcFirmwareRevision live \<noteq> rec_mvlcFirmwareRevision rec
     then Mismatch MvlcFirmwareField (rec_mvlcFirmwareRevision rec) (live_mvlcFirmwareRevision live)
     else if live_values live ! 0 = 0
     then (if rec_previewRestoreRequired rec \<or> rec_sourceRestoreRequired rec
           then \<lparr>verdict = IdleWithRestoration, firstMismatchedField = None, ev_message = PendingRestoration\<rparr>
           else \<lparr>verdict = AlreadyClean, firstMismatchedField = None, ev_message = StaleJournal\<rparr>)
     else case BuildTunerRecoveryFingerprintExpectation rec of
       Inl e \<Rightarrow> \<lparr>verdict = ForeignOrMismatched, firstMismatchedField = Some RecoveryJournalField, ev_message = NoExpectation e\<rparr>
     | Inr expected \<Rightarrow>
       (case first_mismatch 1 (drop 1 (exp_values expected)) (drop 1 (live_values live)) of
          Some mismatch \<Rightarrow> mismatch
        | None \<Rightarrow> \<lparr>verdict = OrphanConfirmed, firstMismatchedField = None, ev_message = FingerprintMatches\<rparr>))"

lemma Mismatch_verdict [simp]: "verdict (Mismatch f a b) = ForeignOrMismatched"
  by (simp add: Mismatch_def)

lemma first_mismatch_None: "length es = length ls \<Longrightarrow> first_mismatch i es ls = None \<longleftrightarrow> es = ls"
  by (induction i es ls rule: first_mismatch.induct) auto

lemma first_mismatch_Some: "first_mismatch i es ls = Some m \<Longrightarrow> verdict m = ForeignOrMismatched"
  by (induction i es ls rule: first_mismatch.induct) (auto split: if_splits)

lemma first_mismatch_real:
  assumes "first_mismatch i es ls = Some m" "ev_message m = FieldMismatch f e a" "length es = length ls"
  shows "e \<noteq> a \<and> verdict m = ForeignOrMismatched \<and> firstMismatchedField m = Some f
    \<and> (\<exists>j < length ls. f = field_at (i + j) \<and> a = ls ! j \<and> e = es ! j)"
  using assms
proof (induction i es ls rule: first_mismatch.induct)
  case (1 i x es y ls)
  show ?case
  proof (cases "y = x")
    case True
    with 1 obtain j where "j < length ls" "f = field_at (Suc i + j)" "a = ls ! j" "e = es ! j" and
      "e \<noteq> a" "verdict m = ForeignOrMismatched" "firstMismatchedField m = Some f" by auto
    then show ?thesis by (intro conjI exI [of _ "Suc j"]) auto
  next
    case False
    with 1 show ?thesis by (auto simp: Mismatch_def intro!: exI [of _ 0])
  qed
qed auto

definition fingerprint_values :: "TunerRecoveryRecord \<Rightarrow> u32 list" where
  "fingerprint_values rec = [rec_stackTriggerValue rec, rec_stackOffsetValue rec]
     @ readout_stack_words (rec_mdppBaseAddress rec) @ [rec_ownershipTokenValue rec]"

lemma expectation_eq:
  "BuildTunerRecoveryFingerprintExpectation rec = Inr e \<Longrightarrow> exp_values e = 0 # fingerprint_values rec"
  "(\<exists>e. BuildTunerRecoveryFingerprintExpectation rec = Inr e) \<longleftrightarrow>
     rec_mdppBaseAddress rec AND 0xFFFF = 0 \<and> 1 \<le> rec_mdppIrqLevel rec \<and> rec_mdppIrqLevel rec \<le> 6"
proof -
  have plan: "MakeMvlcSingleMdppReadoutPlan b i = Inr p \<Longrightarrow>
      map lw_value (stackUploadWrites p) = readout_stack_words b \<and> length (stackUploadWrites p) = 7" for b i p
    using readout_plan_ok_iff [of b i] readout_plan_eq [of b i]
    by (auto simp: upload_values readout_stack_words_def)
  then show "BuildTunerRecoveryFingerprintExpectation rec = Inr e \<Longrightarrow> exp_values e = 0 # fingerprint_values rec"
    by (auto simp: BuildTunerRecoveryFingerprintExpectation_def fingerprint_values_def split: sum.splits if_splits)
  show "(\<exists>e. BuildTunerRecoveryFingerprintExpectation rec = Inr e) \<longleftrightarrow>
     rec_mdppBaseAddress rec AND 0xFFFF = 0 \<and> 1 \<le> rec_mdppIrqLevel rec \<and> rec_mdppIrqLevel rec \<le> 6"
    using plan readout_plan_ok_iff [of "rec_mdppBaseAddress rec" "rec_mdppIrqLevel rec"]
    by (auto simp: BuildTunerRecoveryFingerprintExpectation_def split: sum.splits)
qed

lemma confirmed_iff:
  assumes "length (live_values live) = TunerRecoveryFingerprintRegisterCount"
  shows "verdict (EvaluateTunerRecoveryFingerprint rec live) = OrphanConfirmed \<longleftrightarrow>
    live_mvlcHardwareId live = rec_mvlcHardwareId rec \<and> live_mvlcFirmwareRevision live = rec_mvlcFirmwareRevision rec
    \<and> live_values live ! 0 \<noteq> 0
    \<and> rec_mdppBaseAddress rec AND 0xFFFF = 0 \<and> 1 \<le> rec_mdppIrqLevel rec \<and> rec_mdppIrqLevel rec \<le> 6
    \<and> tl (live_values live) = fingerprint_values rec"
proof (cases "\<exists>e. BuildTunerRecoveryFingerprintExpectation rec = Inr e")
  case True
  then obtain e where e: "BuildTunerRecoveryFingerprintExpectation rec = Inr e" by blast
  have len: "length (fingerprint_values rec) = length (tl (live_values live))"
    using assms by (simp add: fingerprint_values_def readout_stack_words_def TunerRecoveryFingerprintRegisterCount_def)
  have "first_mismatch 1 (fingerprint_values rec) (tl (live_values live)) = None
      \<longleftrightarrow> tl (live_values live) = fingerprint_values rec"
    using first_mismatch_None [OF len, of 1] by auto
  with e expectation_eq [of rec] show ?thesis
    by (auto simp: EvaluateTunerRecoveryFingerprint_def drop_Suc dest: first_mismatch_Some split: option.split)
next
  case False
  then obtain x where "BuildTunerRecoveryFingerprintExpectation rec = Inl x"
    by (cases "BuildTunerRecoveryFingerprintExpectation rec") auto
  with False expectation_eq(2) [of rec] show ?thesis
    by (auto simp: EvaluateTunerRecoveryFingerprint_def)
qed

text \<open>
  (C40) The verdict that permits cleanup writes is reached exactly when the controller is the
  recorded one, its DAQ mode is on, and all ten fingerprint registers (trigger, offset, the
  seven reconstructed stack words, and the ownership token) hold the recorded values; two
  records that the same live state confirms name the same module and the same token.
\<close>
theorem orphan_confirmed_exact:
  assumes "length (live_values live) = TunerRecoveryFingerprintRegisterCount"
  shows "(verdict (EvaluateTunerRecoveryFingerprint rec live) = OrphanConfirmed \<longleftrightarrow>
      live_mvlcHardwareId live = rec_mvlcHardwareId rec \<and> live_mvlcFirmwareRevision live = rec_mvlcFirmwareRevision rec
      \<and> live_values live ! 0 \<noteq> 0
      \<and> rec_mdppBaseAddress rec AND 0xFFFF = 0 \<and> 1 \<le> rec_mdppIrqLevel rec \<and> rec_mdppIrqLevel rec \<le> 6
      \<and> tl (live_values live) = fingerprint_values rec)
    \<and> (verdict (EvaluateTunerRecoveryFingerprint rec live) = OrphanConfirmed
       \<and> verdict (EvaluateTunerRecoveryFingerprint rec' live) = OrphanConfirmed
       \<longrightarrow> rec_mdppBaseAddress rec = rec_mdppBaseAddress rec' \<and> rec_ownershipTokenValue rec = rec_ownershipTokenValue rec'
         \<and> rec_stackTriggerValue rec = rec_stackTriggerValue rec')"
  using confirmed_iff [OF assms]
  by (auto simp: fingerprint_values_def readout_stack_words_def)

definition sample_record :: TunerRecoveryRecord where
  "sample_record = default_record\<lparr>rec_mvlcHardwareId := 0x5008, rec_mvlcFirmwareRevision := 0x0037,
     rec_mdppBaseAddress := 0x01000000, rec_mdppIrqLevel := 1, rec_stackTriggerRegister := 0x1104,
     rec_stackTriggerValue := 0x40, rec_stackOffsetRegister := 0x1204, rec_stackOffsetValue := 0x200,
     rec_ownershipTokenRegister := 0x2300, rec_ownershipTokenValue := 0xC0FFEE\<rparr>"

definition sample_fingerprint :: TunerRecoveryLiveFingerprint where
  "sample_fingerprint = \<lparr>live_mvlcHardwareId = 0x5008, live_mvlcFirmwareRevision = 0x0037,
     live_values = [1, 0x40, 0x200, 0xF3010000, 0x1208FFFF, 0x01000000, 0x23090001, 0x01006034, 1, 0xF4000000, 0xC0FFEE]\<rparr>"

theorem orphan_confirmed_exact_witness:
  "verdict (EvaluateTunerRecoveryFingerprint sample_record sample_fingerprint) = OrphanConfirmed"
  using orphan_confirmed_exact [of sample_fingerprint sample_record]
  by (simp add: sample_record_def default_record_def sample_fingerprint_def fingerprint_values_def readout_stack_words_def
      TunerRecoveryFingerprintRegisterCount_def StackStartToDataPipe_def Mblt64FifoMaximum_def MdppReadoutResetOffset_def
      MvlcVmeWriteA32D16Command_def MvlcStackEndCommand_def)

text \<open>
  A mismatch names a register that really differs and no cleanup is permitted: whenever
  the evaluation reports a stack word, trigger, offset or token, the live value reported is the
  live one, the expected one comes from the record, and they differ.
\<close>
theorem mismatch_is_real:
  assumes "length (live_values live) = TunerRecoveryFingerprintRegisterCount"
    and "ev_message (EvaluateTunerRecoveryFingerprint rec live) = FieldMismatch field expected actual"
  shows "expected \<noteq> actual \<and> verdict (EvaluateTunerRecoveryFingerprint rec live) = ForeignOrMismatched
    \<and> firstMismatchedField (EvaluateTunerRecoveryFingerprint rec live) = Some field
    \<and> (\<forall>k. field = StackWordField k \<longrightarrow> k < 7 \<and> actual = live_values live ! (k + 3) \<and> expected = readout_stack_words (rec_mdppBaseAddress rec) ! k)"
proof -
  let ?ev = "EvaluateTunerRecoveryFingerprint rec live"
  consider "?ev = Mismatch MvlcHardwareIdField (rec_mvlcHardwareId rec) (live_mvlcHardwareId live)" "live_mvlcHardwareId live \<noteq> rec_mvlcHardwareId rec"
    | "?ev = Mismatch MvlcFirmwareField (rec_mvlcFirmwareRevision rec) (live_mvlcFirmwareRevision live)" "live_mvlcFirmwareRevision live \<noteq> rec_mvlcFirmwareRevision rec"
    | "first_mismatch 1 (fingerprint_values rec) (tl (live_values live)) = Some ?ev"
    using assms(2) expectation_eq(1) [of rec]
    by (fastforce simp: EvaluateTunerRecoveryFingerprint_def drop_Suc split: if_splits sum.splits option.splits)
  then show ?thesis
  proof cases
    case 3
    have len: "length (fingerprint_values rec) = length (tl (live_values live))" "length (tl (live_values live)) = 10"
      using assms(1) by (simp_all add: fingerprint_values_def readout_stack_words_def TunerRecoveryFingerprintRegisterCount_def)
    from first_mismatch_real [OF 3 assms(2) len(1)] obtain j where
      real: "expected \<noteq> actual" "verdict ?ev = ForeignOrMismatched" "firstMismatchedField ?ev = Some field"
        "j < 10" "field = field_at (1 + j)" "actual = tl (live_values live) ! j" "expected = fingerprint_values rec ! j"
      using len(2) by auto
    have "k < 7 \<and> actual = live_values live ! (k + 3) \<and> expected = readout_stack_words (rec_mdppBaseAddress rec) ! k"
      if "field = StackWordField k" for k
    proof -
      have k: "j = k + 2" "k < 7" using that real(4,5) by (auto simp: field_at_def split: if_splits)
      have "tl (live_values live) ! j = live_values live ! Suc j" using real(4) len(2) by (simp add: nth_tl)
      moreover have "length (readout_stack_words (rec_mdppBaseAddress rec)) = 7" by (simp add: readout_stack_words_def)
      then have "fingerprint_values rec ! j = readout_stack_words (rec_mdppBaseAddress rec) ! k"
        using k by (simp add: fingerprint_values_def nth_append)
      ultimately show ?thesis using k real(6,7) by (simp add: numeral_3_eq_3)
    qed
    with real show ?thesis by blast
  qed (use assms(2) in \<open>auto simp: Mismatch_def\<close>)
qed

theorem mismatch_is_real_witness:
  "(7 :: u32) \<noteq> 1
   \<and> verdict (EvaluateTunerRecoveryFingerprint sample_record
       (sample_fingerprint\<lparr>live_values := (live_values sample_fingerprint)[8 := 7]\<rparr>)) = ForeignOrMismatched"
proof -
  let ?live = "sample_fingerprint\<lparr>live_values := (live_values sample_fingerprint)[8 := 7]\<rparr>"
  have "ev_message (EvaluateTunerRecoveryFingerprint sample_record ?live) = FieldMismatch (StackWordField 5) 1 7"
    by code_simp
  moreover have "length (live_values ?live) = TunerRecoveryFingerprintRegisterCount"
    by (simp add: sample_fingerprint_def TunerRecoveryFingerprintRegisterCount_def)
  ultimately show ?thesis using mismatch_is_real by fastforce
qed

end
