(* ===== verification/Spec2Isabelle.thy ===== *)
theory Spec2Isabelle
  imports Scp_Profile_Text Scp_Single_Repair Deterministic_Startup Guided_Workflow Tuner_Target Tuner_Snapshot Session_Preparation Transaction_Bounds Crate_Bus Bridge_Protocol Stream_Decoder Readout_Protocol Recovery_Verification
begin

text \<open>
  \<^bold>\<open>FIDGET: tuning MDPP-32 digitisers behind an MVLC controller.\<close>

  The program captures the settings of an MDPP-32 module with SCP firmware FW2051, compares
  them with a stored profile, plans the register writes that turn one into the other, carries
  the plan out over the controller's command pipe, and shows the waveforms the module sends.
  Its parts interact like this: \<^verbatim>\<open>hardware/ScpCaptureOperation.cpp\<close> reads a module through
  \<^verbatim>\<open>hardware/VmeTransaction.cpp\<close>, which builds and parses packets with
  \<^verbatim>\<open>core/VmeProtocol.cpp\<close> over a transport; \<^verbatim>\<open>core/ScpProfile.cpp\<close> stores and compares
  configurations; \<^verbatim>\<open>core/ScpTransactionPlan.cpp\<close> plans; \<^verbatim>\<open>hardware/ScpBulkApplyOperation.cpp\<close>
  applies a plan, with the capture as its preflight;
  \<^verbatim>\<open>hardware/DeterministicStartupOperation.cpp\<close> strings these together behind
  \<^verbatim>\<open>hardware/StartupPreparationOperation.cpp\<close>, for a module that \<^verbatim>\<open>core/StartupAudit.cpp\<close>
  classified. The data pipe is decoded by
  \<^verbatim>\<open>core/StreamDecoder.cpp\<close>, a remote controller is reached through the framing of
  \<^verbatim>\<open>core/BridgeProtocol.cpp\<close>. While a session changes a module, a journal
  (\<^verbatim>\<open>core/RecoveryJournal.cpp\<close>, \<^verbatim>\<open>core/RecoveryJournalV5.cpp\<close>) records what has to be put back;
  after a crash \<^verbatim>\<open>core/ApplicationRecoveryDiscovery.cpp\<close> finds it, it blocks the workflow of
  \<^verbatim>\<open>core/GuidedWorkflow.cpp\<close>, and \<^verbatim>\<open>core/RecoveryVerification.cpp\<close> decides whether the state
  found on a controller is the one it recorded.

  \<^bold>\<open>Theories, sources and what is shown.\<close>

  \<^item> \<open>Fidget_Prelude\<close>: word types, generic lemmas on lists, words and bytes, and the simp
    collections of the components.
  \<^item> \<open>Scp_Configuration\<close>, \<open>Scp_Registry\<close> (\<^verbatim>\<open>core/ScpConfiguration.h\<close>,
    \<^verbatim>\<open>core/ScpRegistry.cpp\<close>): snapshot and quad records, the seventeen-row setting table, value
    and dependency checks, register get and set. The locale \<open>register_bank\<close> is the contract
    of a block of registers; \<open>scp_bank\<close> interprets it on a quad.
  \<^item> \<open>Scp_Profile\<close>, \<open>Text_Format\<close>, \<open>Scp_Profile_Text\<close> (\<^verbatim>\<open>core/ScpProfile.cpp\<close>):
    validation, FNV-1a checksum, comparison, the profile's text. The comparison reports
    no difference exactly for equal configurations, the text round trips, and changing one
    register under the old checksum is detected.
  \<^item> \<open>Scp_Plan\<close> (\<^verbatim>\<open>core/ScpTransactionPlan.cpp\<close>): coupled write order, the application plan,
    the startup plan. A plan reaches the profile, keeps both register couplings after each of
    its prefixes, and exists exactly under the stated conditions.
  \<^item> \<open>Vme_Protocol\<close> (\<^verbatim>\<open>core/VmeProtocol.cpp\<close>): request builders and the three reply parsers with
    explicit buffer bounds; a read outside the buffer is a value of the model. The parsers are
    memory safe, exact on well-formed packets, and refine the frame parser; the single-register
    parser does so only where no value looks like a frame header, which is stated exactly.
  \<^item> \<open>Vme_Transaction\<close> (\<^verbatim>\<open>hardware/VmeTransaction.cpp\<close>, \<^verbatim>\<open>hardware/Transport.h\<close>): upload, trigger and
    reply loops with their retries, over a record of transport functions that act on an arbitrary
    world. The wrapper \<open>observed\<close> logs what passes; values that are returned came from a
    matching frame, and no other request than the stated ones is sent.
  \<^item> \<open>Module_Bus\<close>, \<open>Simulated_Module\<close>, \<open>Scp_Capture\<close>
    (\<^verbatim>\<open>hardware/ScpCaptureOperation.cpp\<close>): the gate, the register closures and the capture.
    \<open>honest_module\<close> says what a transport's world carries of a module: a read that returns
    shows the register, an acknowledged write has happened, a failed one has happened or not;
    \<open>responsive_module\<close> adds that accesses are answered, \<open>world_invariant\<close> is any property
    that reads, permitted writes and callbacks keep. A simulated controller that answers the
    packets of the protocol interprets the first two, the observed wire the third.
  \<^item> \<open>Scp_Bulk_Apply\<close>, \<open>Scp_Apply_Outcome\<close> (\<^verbatim>\<open>hardware/ScpBulkApplyOperation.cpp\<close>):
    validation, preflight, stop, writes with readback, parking, resets, rollback in reverse
    order. A passed application of a plan has installed the profile even when accesses failed
    on the way; a verified rollback has restored every setting; without failures the application
    passes; only planned writes are sent.
  \<^item> \<open>Scp_Single_Repair\<close> (\<^verbatim>\<open>hardware/ScpSingleRepairOperation.cpp\<close>): one value is written after its
    checks and put back when it cannot be verified. At most that value changes of the settings, and of the other
    registers the selector, the stop and the resets; a refused module stays as it was, no coupling breaks.
  \<^item> \<open>Startup_Audit\<close> (\<^verbatim>\<open>core/StartupAudit.cpp\<close>): thirty-seven readings are classified; ready means the
    stated conditions on eight registers.
  \<^item> \<open>Guarded_Link\<close>, \<open>Startup_Preparation\<close> (\<^verbatim>\<open>core/StartupPreparation.cpp\<close>,
    \<^verbatim>\<open>hardware/StartupPreparationOperation.cpp\<close>): the closures of an operation that collects failure texts
    and loses its ownership at most once, with the contracts \<open>guarded_module\<close> and
    \<open>responsive_link\<close>; and the operation that brings eight module-wide registers to their targets.
    It changes nothing else, and nothing at all on other hardware or firmware; a passed one leaves a module that the audit calls ready, a verified
    rollback has restored the eight registers.
  \<^item> \<open>Deterministic_Startup\<close> (\<^verbatim>\<open>hardware/DeterministicStartupOperation.cpp\<close>): preparation, capture,
    plan, application and final comparison in one sequence. The later phases keep the
    prepared contract, a passed start has installed the profile, and without failures it passes.
  \<^item> \<open>Guided_Workflow\<close> (\<^verbatim>\<open>core/GuidedWorkflow.cpp\<close>), \<open>Tuner_Snapshot\<close> (\<^verbatim>\<open>core/TunerSnapshot.cpp\<close>):
    which stage is shown and which action is offered, and that a retained recovery record offers
    nothing but recovery.
  \<^item> \<open>Controller_Endpoint\<close>, \<open>Tuner_Target\<close> (\<^verbatim>\<open>core/ControllerEndpoint.cpp\<close>,
    \<^verbatim>\<open>core/TargetModuleAddress.cpp\<close>, \<^verbatim>\<open>core/TunerTarget.cpp\<close>): the accepted spellings of a module
    address, endpoint validation, and the edits after which a verification is still current.
  \<^item> \<open>Recovery_Journal\<close>, \<open>Recovery_Journal_V5\<close>, \<open>Journal_Format\<close> (\<^verbatim>\<open>core/RecoveryJournal.cpp\<close>,
    \<^verbatim>\<open>core/RecoveryJournalV5.cpp\<close>): the recovery record and its text in the versions 1 to 5. What was
    written is read back, what is accepted are exactly the records that meet the conditions of their version,
    stated without the order of the checks, and the deviations of an accepted record form
    a chain from the snapshot to restore, so that every value an interrupted session can have left
    behind is classified. \<open>yields\<close> is the calculus of the line readers.
  \<^item> \<open>Journal_Store\<close> (the same file, \<^verbatim>\<open>core/ApplicationRecoveryDiscovery.cpp\<close>): atomic installation,
    loading, removing and discovery in a directory. An installation returns the directory after
    each change, so that a crash at any point is one of those states: the old or the new journal
    is there and loads.
  \<^item> \<open>Bridge_Protocol\<close> (\<^verbatim>\<open>core/BridgeProtocol.cpp\<close>): encoder and chunk-fed decoder. The chunking of
    the stream does not matter, what is delivered is a prefix of the stream and starts with a hello,
    encoding round trips, a failure is final.
  \<^item> \<open>Stream_Decoder\<close> (\<^verbatim>\<open>core/StreamDecoder.cpp\<close>): reassembly, block decoding, waveform histories and
    queries, with an invariant of every reachable state and the exact loss count.
  \<^item> \<open>Readout_Protocol\<close> (\<^verbatim>\<open>core/ReadoutProtocol.cpp\<close>) and \<open>Recovery_Verification\<close>
    (\<^verbatim>\<open>core/RecoveryVerification.cpp\<close>): the readout stack, and the fingerprint whose match alone permits a cleanup.
  \<^item> \<open>Transaction_Bounds\<close> (\<^verbatim>\<open>hardware/VmeTransaction.cpp\<close>): the constant numbers of
    requests and receptions after which each routine has ended, and the time limit every reception is
    given, whatever the transport does. The wrapper \<open>metered\<close> logs the calls with what they asked for.
  \<^item> \<open>Lifted_Transport\<close>, \<open>Controller_Bus\<close>, \<open>Target_Probe\<close>
    (\<^verbatim>\<open>hardware/TargetProbeOperation.cpp\<close>): a transport seen from a larger state, the contracts
    \<open>honest_controller\<close> and \<open>responsive_controller\<close> of a module together with the local
    registers of its controller, and the check of a target and of a controller. A check sends nothing but
    reads, records what is there, and on an answering controller comes to the verdict the registers call for.
  \<^item> \<open>Crate_Bus\<close> (\<^verbatim>\<open>hardware/VmeTransaction.cpp\<close>): accesses to several modules and local writes
    with the counters of an operation, the contracts \<open>honest_crate\<close> and \<open>responsive_crate\<close> of a
    controller with its modules, and a simulated crate that meets them down to the packets.
  \<^item> \<open>Application_Storage\<close> (\<^verbatim>\<open>core/ApplicationStorage.cpp\<close>): the search for the home directory,
    the layout of the storage, its durable creation, and the preferences file. The text of the
    preferences round trips, their replacement is atomic after every single change of the directory.
  \<^item> \<open>Session_Preparation\<close> (\<^verbatim>\<open>hardware/PrepareTuningSessionOperation.cpp\<close>): the operation that
    checks a target, creates the recovery journal, captures the module and promotes the journal. Its
    run is a timeline of crash points, each a directory with what went over the wire until then: the journal
    is there before the first write, a captured snapshot is the module's state.

  \<^bold>\<open>State and loops.\<close> Registers, references and addresses are words of the source's width and
  wrap as there. A member function is a function on a record of the object's fields; a lambda that
  captures local variables is a function on a record of them. Messages are constructors where
  only their kind matters and strings where the code tests or concatenates them. Loops over a
  container recurse over the list; the retry loops recurse over their remaining attempts and the
  datagram loops over the remaining datagrams, both with the source's constants, so that no
  fuel is chosen and every operation is total. The decoders consume their buffer and recurse on
  its length. The journal keeps the source's limits (1024 deviations, 15 isolated modules, 64 attempts
  at a free staging name, the size limit of a file).

  \<^bold>\<open>Parameters.\<close> The transport (sockets, a relayed connection), the ownership gate, the delay and the
  checkpoint callbacks are arguments: arbitrary functions on an arbitrary world. The cancellation flag
  is read through the transport record. What the file system answers to the journal (open, write, sync,
  link, rename, remove, another process's file at the destination) is a record of flags and functions
  that the theorems on the journal store leave arbitrary; the application storage and the session preparation have such
  records too (\<open>storage_world\<close>, \<open>preferences_world\<close>, \<open>session_files\<close>). The two theorems on the recovery
  journal of a session preparation assume \<open>fair_files\<close> of its record: the recovery directory shows no entry at
  the start, a write that is reported as complete has stored the text, and no other process puts a file at the
  journal's name; that each call may fail is left open. Properties that need an honest or answering module say so by
  a locale predicate, which the simulated module meets.

  \<^bold>\<open>Not modelled.\<close> Sleeping has no effect in the model. Sockets, threads, processes, files and the
  user interface are outside it: \<^verbatim>\<open>hardware/Mvlc*\<close>, \<^verbatim>\<open>hardware/Bridge*\<close>,
  \<^verbatim>\<open>hardware/SshBridgeProcess.cpp\<close>, \<^verbatim>\<open>hardware/TuningSessionCoordinator.cpp\<close>,
  \<^verbatim>\<open>core/CrateProject.cpp\<close>, \<^verbatim>\<open>cli\<close>, \<^verbatim>\<open>presentation\<close> and \<^verbatim>\<open>ui\<close>.
  Of the modelled files, the result texts that nothing reads, the raw readings of the probes, the save and
  load of profiles as files and the hooks that only the tests install are left out.
  Not yet modelled but within reach of the same interfaces: the diagnostic operations, the ownership
  service, and the reader of mvme scripts.
\<close>

end
